(* ===== verification/Retune_Prelude.thy ===== *)
theory Retune_Prelude
  imports Main "HOL-Library.Sublist"
begin

text \<open>
  Shared ground of the development: the named collections of simplification rules, the
  parts of the Go language and of its standard library that the modelled packages use
  (strings as lists of bytes, the 64-bit \<^verbatim>\<open>int\<close>, \<^verbatim>\<open>time.Time\<close> and
  \<^verbatim>\<open>time.Duration\<close>), and the generic lemmas the components share.

  Go strings are byte sequences, so they are \<^typ>\<open>string\<close>, one \<^typ>\<open>char\<close> per byte.
  Case mapping (\<^verbatim>\<open>strings.ToLower\<close>, \<^verbatim>\<open>strings.ToUpper\<close>, \<^verbatim>\<open>strings.EqualFold\<close>)
  is modelled on the ASCII letters; bytes of multi-byte characters are left as they are.
  \<^verbatim>\<open>strings.TrimSpace\<close> is modelled on every Unicode white-space character.
\<close>

named_theorems retune_defs \<open>definitions unfolded by the component proofs\<close>

section \<open>Errors as values\<close>

definition bindE :: "'e + 'a \<Rightarrow> ('a \<Rightarrow> 'e + 'b) \<Rightarrow> 'e + 'b" where
  "bindE m f = (case m of Inl e \<Rightarrow> Inl e | Inr x \<Rightarrow> f x)"

lemma bindE_simps [simp]:
  "bindE (Inl e) f = Inl e"
  "bindE (Inr x) f = f x"
  by (simp_all add: bindE_def)

lemma bindE_eq_Inr: "bindE m f = Inr y \<longleftrightarrow> (\<exists>x. m = Inr x \<and> f x = Inr y)"
  by (cases m) auto

lemma bindE_eq_Inl: "bindE m f = Inl e \<longleftrightarrow> m = Inl e \<or> (\<exists>x. m = Inr x \<and> f x = Inl e)"
  by (cases m) auto

definition is_ok :: "'e + 'a \<Rightarrow> bool" where
  "is_ok r = (case r of Inl _ \<Rightarrow> False | Inr _ \<Rightarrow> True)"

lemma is_ok_simps [simp]: "\<not> is_ok (Inl e)" "is_ok (Inr x)"
  by (simp_all add: is_ok_def)

lemma is_ok_iff: "is_ok r \<longleftrightarrow> (\<exists>x. r = Inr x)"
  by (cases r) auto

lemma is_ok_bindE: "is_ok m \<Longrightarrow> (\<And>x. m = Inr x \<Longrightarrow> is_ok (f x)) \<Longrightarrow> is_ok (bindE m f)"
  by (cases m) auto

text \<open>Collecting a fallible step over a list, stopping at the first error.\<close>

fun mapE :: "('a \<Rightarrow> 'e + 'b) \<Rightarrow> 'a list \<Rightarrow> 'e + 'b list" where
  "mapE f [] = Inr []"
| "mapE f (x # xs) = bindE (f x) (\<lambda>y. bindE (mapE f xs) (\<lambda>ys. Inr (y # ys)))"

lemma mapE_Inr_iff: "mapE f xs = Inr ys \<longleftrightarrow> list_all2 (\<lambda>x y. f x = Inr y) xs ys"
  by (induction xs arbitrary: ys) (auto simp: bindE_eq_Inr list_all2_Cons1)

lemma mapE_all_ok: "\<forall>x \<in> set xs. f x = Inr (g x) \<Longrightarrow> mapE f xs = Inr (map g xs)"
  by (induction xs) auto

section \<open>Go's 64-bit int\<close>

definition min_int64 :: int where "min_int64 = - (2 ^ 63)"
definition max_int64 :: int where "max_int64 = 2 ^ 63 - 1"

definition wrap64 :: "int \<Rightarrow> int" where
  "wrap64 x = (x + 2 ^ 63) mod 2 ^ 64 - 2 ^ 63"

lemma wrap64_id: "min_int64 \<le> x \<Longrightarrow> x \<le> max_int64 \<Longrightarrow> wrap64 x = x"
  by (simp add: wrap64_def min_int64_def max_int64_def)

lemma wrap64_range: "min_int64 \<le> wrap64 x \<and> wrap64 x \<le> max_int64"
proof -
  have "0 \<le> (x + 2 ^ 63) mod 2 ^ 64" "(x + 2 ^ 63) mod 2 ^ 64 < (2::int) ^ 64"
    by simp_all
  then show ?thesis by (simp add: wrap64_def min_int64_def max_int64_def)
qed

text \<open>Go's integer division truncates towards zero.\<close>

definition quot :: "int \<Rightarrow> int \<Rightarrow> int" where
  "quot a b = sgn a * sgn b * (\<bar>a\<bar> div \<bar>b\<bar>)"

lemma quot_nonneg: "0 \<le> a \<Longrightarrow> 0 < b \<Longrightarrow> quot a b = a div b"
  by (auto simp: quot_def sgn_if)

lemma int_le_div_iff: "0 < (s::int) \<Longrightarrow> k \<le> m div s \<longleftrightarrow> k * s \<le> m"
proof
  assume "0 < s" "k \<le> m div s"
  then have "k * s \<le> m div s * s" by (intro mult_right_mono) simp_all
  also have "\<dots> \<le> m" using \<open>0 < s\<close> div_mult_mod_eq [of m s] pos_mod_sign [of s m] by linarith
  finally show "k * s \<le> m" .
next
  assume "0 < s" "k * s \<le> m"
  then have "k * s div s \<le> m div s" by (intro zdiv_mono1) simp_all
  with \<open>0 < s\<close> show "k \<le> m div s" by simp
qed

lemma int_div_less_iff: "0 < (s::int) \<Longrightarrow> m div s < k \<longleftrightarrow> m < k * s"
  using int_le_div_iff [of s k m] by linarith

section \<open>time.Time and time.Duration\<close>

text \<open>
  An instant is the number of nanoseconds since Go's zero time (1 January of year 1, UTC),
  so that \<^verbatim>\<open>t.IsZero()\<close> is \<open>t = 0\<close>; a duration is a 64-bit number of nanoseconds.
  \<^verbatim>\<open>t.Sub(u)\<close> saturates at the ends of the duration range.
\<close>

type_synonym go_time = int
type_synonym duration = int

definition nanosecond :: duration where "nanosecond = 1"
definition second :: duration where "second = 1000000000"
definition minute :: duration where "minute = 60000000000"
definition hour :: duration where "hour = 3600000000000"

definition time_sub :: "go_time \<Rightarrow> go_time \<Rightarrow> duration" where
  "time_sub t u = max min_int64 (min max_int64 (t - u))"

lemma time_sub_mono: "t \<le> t' \<Longrightarrow> time_sub t u \<le> time_sub t' u"
  by (simp add: time_sub_def)

lemma time_sub_le_iff:
  "d < max_int64 \<Longrightarrow> min_int64 \<le> d \<Longrightarrow> time_sub t u \<le> d \<longleftrightarrow> t - u \<le> d"
  by (auto simp: time_sub_def)

definition time_add :: "go_time \<Rightarrow> duration \<Rightarrow> go_time" where
  "time_add t d = t + d"

definition dur_mul :: "int \<Rightarrow> duration \<Rightarrow> duration" where
  "dur_mul n d = wrap64 (n * d)"

lemmas time_units = nanosecond_def second_def minute_def hour_def

section \<open>Bytes and strings\<close>

abbreviation byte :: "char \<Rightarrow> nat" where "byte \<equiv> of_char"

definition is_digit :: "char \<Rightarrow> bool" where
  "is_digit c \<longleftrightarrow> 48 \<le> byte c \<and> byte c \<le> 57"

definition is_upper :: "char \<Rightarrow> bool" where
  "is_upper c \<longleftrightarrow> 65 \<le> byte c \<and> byte c \<le> 90"

definition is_lower :: "char \<Rightarrow> bool" where
  "is_lower c \<longleftrightarrow> 97 \<le> byte c \<and> byte c \<le> 122"

lemmas char_class_defs = is_digit_def is_upper_def is_lower_def

definition lower_char :: "char \<Rightarrow> char" where
  "lower_char c = (if is_upper c then char_of (byte c + 32) else c)"

definition upper_char :: "char \<Rightarrow> char" where
  "upper_char c = (if is_lower c then char_of (byte c - 32) else c)"

definition to_lower :: "string \<Rightarrow> string" where "to_lower s = map lower_char s"
definition to_upper :: "string \<Rightarrow> string" where "to_upper s = map upper_char s"

definition equal_fold :: "string \<Rightarrow> string \<Rightarrow> bool" where
  "equal_fold s t \<longleftrightarrow> to_lower s = to_lower t"

lemma lower_char_idem [simp]: "lower_char (lower_char c) = lower_char c"
  by (auto simp: lower_char_def is_upper_def)

lemma lower_char_upper: "is_upper c \<Longrightarrow> is_lower (lower_char c)"
  by (simp add: lower_char_def is_upper_def is_lower_def)

lemma lower_char_iff: "\<not> is_lower d \<Longrightarrow> \<not> is_upper d \<Longrightarrow> lower_char c = d \<longleftrightarrow> c = d"
  using lower_char_upper [of c] by (auto simp: lower_char_def)

lemma to_lower_idem [simp]: "to_lower (to_lower s) = to_lower s"
  by (simp add: to_lower_def)

lemma to_lower_append [simp]: "to_lower (a @ b) = to_lower a @ to_lower b"
  by (simp add: to_lower_def)

lemma length_to_lower [simp]: "length (to_lower s) = length s"
  by (simp add: to_lower_def)

lemma equal_fold_refl [simp]: "equal_fold s s"
  by (simp add: equal_fold_def)

lemma equal_fold_sym: "equal_fold s t \<longleftrightarrow> equal_fold t s"
  by (auto simp: equal_fold_def)

lemma equal_fold_trans: "equal_fold s t \<Longrightarrow> equal_fold t u \<Longrightarrow> equal_fold s u"
  by (simp add: equal_fold_def)

subsection \<open>strings.TrimSpace\<close>

text \<open>The UTF-8 encodings of the characters with the Unicode White\_Space property.\<close>

definition white_space :: "nat list list" where
  "white_space =
     [[9], [10], [11], [12], [13], [32], [0xC2, 0x85], [0xC2, 0xA0], [0xE1, 0x9A, 0x80]]
     @ map (\<lambda>b. [0xE2, 0x80, b]) [0x80 ..< 0x8B]
     @ [[0xE2, 0x80, 0xA8], [0xE2, 0x80, 0xA9], [0xE2, 0x80, 0xAF], [0xE2, 0x81, 0x9F],
        [0xE3, 0x80, 0x80]]"

fun trim_left_with :: "nat \<Rightarrow> nat list list \<Rightarrow> string \<Rightarrow> string" where
  "trim_left_with 0 ws s = s"
| "trim_left_with (Suc n) ws s =
     (case find (\<lambda>w. prefix w (map byte (take (length w) s))) ws of
        None \<Rightarrow> s
      | Some w \<Rightarrow> trim_left_with n ws (drop (length w) s))"

definition trim_left :: "string \<Rightarrow> string" where
  "trim_left s = trim_left_with (length s) white_space s"

definition trim_right :: "string \<Rightarrow> string" where
  "trim_right s = rev (trim_left_with (length s) (map rev white_space) (rev s))"

definition trim_space :: "string \<Rightarrow> string" where
  "trim_space s = trim_right (trim_left s)"

text \<open>Trimming keeps every byte that is no part of a white-space character.\<close>

lemma trim_left_with_keeps:
  "\<forall>w \<in> set ws. byte x \<notin> set w \<Longrightarrow> x \<in> set s \<Longrightarrow> x \<in> set (trim_left_with n ws s)"
proof (induction n ws s rule: trim_left_with.induct)
  case (2 n ws s)
  show ?case
  proof (cases "find (\<lambda>w. prefix w (map byte (take (length w) s))) ws")
    case (Some w)
    then have w: "w \<in> set ws" and pre: "prefix w (map byte (take (length w) s))"
      by (auto simp: find_Some_iff)
    obtain zs where zs: "map byte (take (length w) s) = w @ zs" using pre by (auto simp: prefix_def)
    have "length (w @ zs) \<le> length w" unfolding zs [symmetric] by simp
    with zs have "map byte (take (length w) s) = w" by simp
    then have "byte x \<notin> byte ` set (take (length w) s)" using 2 w by (metis list.set_map)
    then have "x \<in> set (drop (length w) s)"
      using 2(3) by (metis Un_iff append_take_drop_id imageI set_append)
    with 2 Some show ?thesis by simp
  qed (use 2 in simp)
qed simp

lemma trim_space_keeps:
  assumes "x \<in> set s" "32 < byte x" "byte x < 128"
  shows "trim_space s \<noteq> []"
proof -
  have "\<forall>w \<in> set white_space. \<forall>b \<in> set w. b \<le> 32 \<or> 128 \<le> b" by code_simp
  with assms(2,3) have "\<forall>w \<in> set white_space. byte x \<notin> set w"
    by (meson linorder_not_le)
  with assms(1) have "x \<in> set (trim_space s)"
    by (simp add: trim_space_def trim_right_def trim_left_def trim_left_with_keeps)
  then show ?thesis by auto
qed

text \<open>A string of printable ASCII characters is left as it is.\<close>

definition plain :: "string \<Rightarrow> bool" where
  "plain s \<longleftrightarrow> list_all (\<lambda>c. 32 < byte c \<and> byte c < 128) s"

lemma trim_left_with_id:
  assumes "\<forall>w \<in> set ws. w \<noteq> [] \<and> hd w \<notin> byte ` set s"
  shows "trim_left_with n ws s = s"
proof (cases n)
  case (Suc m)
  have "\<not> prefix w (map byte (take (length w) s))" if "w \<in> set ws" for w
  proof
    assume "prefix w (map byte (take (length w) s))"
    then have "set w \<subseteq> byte ` set (take (length w) s)"
      using set_mono_prefix by (metis list.set_map)
    then have "set w \<subseteq> byte ` set s" by (meson image_mono order_trans set_take_subset)
    moreover have "hd w \<in> set w" using assms that by simp
    ultimately show False using assms that by blast
  qed
  then have "find (\<lambda>w. prefix w (map byte (take (length w) s))) ws = None"
    by (auto simp: find_None_iff)
  then show ?thesis by (simp add: Suc)
qed simp

lemma trim_space_plain:
  assumes "plain s"
  shows "trim_space s = s"
proof -
  have ws: "\<forall>w \<in> set white_space. w \<noteq> [] \<and> (\<forall>b \<in> set w. b \<le> 32 \<or> 128 \<le> b)" by code_simp
  have out: "b \<notin> byte ` set s" if "b \<le> 32 \<or> 128 \<le> b" for b
    using assms that by (auto simp: plain_def list_all_iff)
  have "trim_left s = s"
    unfolding trim_left_def using ws out by (intro trim_left_with_id) (meson hd_in_set)
  moreover have "trim_right s = s"
    unfolding trim_right_def using ws out
    by (subst trim_left_with_id) (auto simp: hd_rev)
  ultimately show ?thesis by (simp add: trim_space_def)
qed

subsection \<open>Splitting, cutting and searching\<close>

fun split_on :: "char \<Rightarrow> string \<Rightarrow> string list" where
  "split_on c [] = [[]]"
| "split_on c (x # xs) =
     (if x = c then [] # split_on c xs
      else case split_on c xs of [] \<Rightarrow> [[x]] | y # ys \<Rightarrow> (x # y) # ys)"

fun join_with :: "string \<Rightarrow> string list \<Rightarrow> string" where
  "join_with sep [] = []"
| "join_with sep [x] = x"
| "join_with sep (x # y # ys) = x @ sep @ join_with sep (y # ys)"

lemma split_on_ne [simp]: "split_on c s \<noteq> []"
  by (induction s) (auto split: list.splits)

lemma join_split: "join_with [c] (split_on c s) = s"
proof (induction s)
  case (Cons x xs)
  obtain y ys where y: "split_on c xs = y # ys" by (cases "split_on c xs") auto
  with Cons show ?case by (cases ys) auto
qed simp

lemma split_on_no_sep: "c \<notin> set s \<Longrightarrow> split_on c s = [s]"
  by (induction s) auto

lemma split_on_append: "c \<notin> set a \<Longrightarrow> split_on c (a @ c # s) = a # split_on c s"
  by (induction a) auto

lemma split_on_parts: "p \<in> set (split_on c s) \<Longrightarrow> c \<notin> set p"
proof (induction s arbitrary: p)
  case (Cons x xs)
  obtain y ys where y: "split_on c xs = y # ys" by (cases "split_on c xs") auto
  with Cons show ?case by (auto split: if_splits)
qed simp

lemma split_join:
  "ps \<noteq> [] \<Longrightarrow> \<forall>p \<in> set ps. c \<notin> set p \<Longrightarrow> split_on c (join_with [c] ps) = ps"
  by (induction "[c]" ps rule: join_with.induct) (auto simp: split_on_no_sep split_on_append)

fun cut :: "char \<Rightarrow> string \<Rightarrow> (string \<times> string) option" where
  "cut c [] = None"
| "cut c (x # xs) =
     (if x = c then Some ([], xs)
      else map_option (\<lambda>(a, b). (x # a, b)) (cut c xs))"

lemma cut_None_iff: "cut c s = None \<longleftrightarrow> c \<notin> set s"
  by (induction s) auto

lemma cut_Some: "cut c s = Some (a, b) \<Longrightarrow> s = a @ c # b \<and> c \<notin> set a"
  by (induction s arbitrary: a b) (auto split: if_splits)

lemma cut_append: "c \<notin> set a \<Longrightarrow> cut c (a @ c # b) = Some (a, b)"
  by (induction a) auto

fun cut_prefix :: "string \<Rightarrow> string \<Rightarrow> string option" where
  "cut_prefix [] s = Some s"
| "cut_prefix (p # ps) [] = None"
| "cut_prefix (p # ps) (x # xs) = (if p = x then cut_prefix ps xs else None)"

lemma cut_prefix_Some_iff: "cut_prefix p s = Some r \<longleftrightarrow> s = p @ r"
  by (induction p s rule: cut_prefix.induct) auto

definition trim_prefix :: "string \<Rightarrow> string \<Rightarrow> string" where
  "trim_prefix p s = (case cut_prefix p s of None \<Rightarrow> s | Some r \<Rightarrow> r)"

definition trim_suffix :: "string \<Rightarrow> string \<Rightarrow> string" where
  "trim_suffix p s = rev (trim_prefix (rev p) (rev s))"

definition contains :: "string \<Rightarrow> string \<Rightarrow> bool" where
  "contains s sub \<longleftrightarrow> list_ex (\<lambda>t. prefix sub t) (suffixes s)"

lemma contains_iff: "contains s sub \<longleftrightarrow> (\<exists>a b. s = a @ sub @ b)"
proof -
  have "contains s sub \<longleftrightarrow> (\<exists>t. suffix t s \<and> prefix sub t)"
    by (simp add: contains_def list_ex_iff Bex_def)
  then show ?thesis by (auto simp: prefix_def suffix_def)
qed

subsection \<open>strconv: Itoa and Atoi\<close>

fun show_nat :: "nat \<Rightarrow> string" where
  "show_nat n = (if n < 10 then [char_of (48 + n)]
                 else show_nat (n div 10) @ [char_of (48 + n mod 10)])"

declare show_nat.simps [simp del]

definition itoa :: "int \<Rightarrow> string" where
  "itoa i = (if i < 0 then CHR ''-'' # show_nat (nat (- i)) else show_nat (nat i))"

definition digit_value :: "char \<Rightarrow> nat" where
  "digit_value c = byte c - 48"

definition digits_value :: "string \<Rightarrow> nat" where
  "digits_value s = foldl (\<lambda>a c. 10 * a + digit_value c) 0 s"

definition all_digits :: "string \<Rightarrow> bool" where
  "all_digits s \<longleftrightarrow> s \<noteq> [] \<and> list_all is_digit s"

definition int_range :: "int \<Rightarrow> int option" where
  "int_range v = (if min_int64 \<le> v \<and> v \<le> max_int64 then Some v else None)"

definition atoi :: "string \<Rightarrow> int option" where
  "atoi s =
     (case s of
        [] \<Rightarrow> None
      | c # cs \<Rightarrow>
          if c = CHR ''-'' then (if all_digits cs then int_range (- int (digits_value cs)) else None)
          else if c = CHR ''+'' then (if all_digits cs then int_range (int (digits_value cs)) else None)
          else (if all_digits s then int_range (int (digits_value s)) else None))"

lemma digits_value_snoc: "digits_value (s @ [c]) = 10 * digits_value s + digit_value c"
  by (simp add: digits_value_def)

lemma digit_char [simp]: "(n::nat) < 10 \<Longrightarrow> is_digit (char_of (48 + n))"
  by (simp add: is_digit_def)

lemma digit_value_char [simp]: "(n::nat) < 10 \<Longrightarrow> digit_value (char_of (48 + n)) = n"
  by (simp add: digit_value_def)

lemma show_nat_ne [simp]: "show_nat n \<noteq> []"
  by (subst show_nat.simps) simp

lemma show_nat_digits: "list_all is_digit (show_nat n)"
proof (induction n rule: show_nat.induct)
  case (1 n)
  then show ?case by (subst show_nat.simps) auto
qed

lemma all_digits_show_nat [simp]: "all_digits (show_nat n)"
  by (simp add: all_digits_def show_nat_digits)

lemma digits_value_show_nat [simp]: "digits_value (show_nat n) = n"
proof (induction n rule: show_nat.induct)
  case (1 n)
  show ?case
  proof (cases "n < 10")
    case True
    then show ?thesis
      by (subst show_nat.simps) (simp add: digits_value_def)
  next
    case False
    with 1 have "digits_value (show_nat (n div 10)) = n div 10" by simp
    with False show ?thesis
      by (subst show_nat.simps) (simp add: digits_value_snoc)
  qed
qed

lemma show_nat_inj: "show_nat m = show_nat n \<Longrightarrow> m = n"
  by (metis digits_value_show_nat)

lemma hd_show_nat_digit: "is_digit (hd (show_nat n))"
  using show_nat_digits [of n] by (cases "show_nat n") auto

theorem atoi_itoa: "min_int64 \<le> i \<Longrightarrow> i \<le> max_int64 \<Longrightarrow> atoi (itoa i) = Some i"
proof (cases "i < 0")
  case True
  moreover assume "min_int64 \<le> i" "i \<le> max_int64"
  ultimately show ?thesis by (simp add: itoa_def atoi_def int_range_def)
next
  case False
  moreover assume "min_int64 \<le> i" "i \<le> max_int64"
  moreover obtain c cs where c: "show_nat (nat i) = c # cs"
    by (cases "show_nat (nat i)") auto
  moreover from c have "is_digit c" using hd_show_nat_digit [of "nat i"] by simp
  then have "c \<noteq> CHR ''-''" "c \<noteq> CHR ''+''" by (auto simp: is_digit_def)
  moreover have "all_digits (c # cs)" "digits_value (c # cs) = nat i"
    using c all_digits_show_nat [of "nat i"] digits_value_show_nat [of "nat i"] by simp_all
  ultimately show ?thesis by (simp add: itoa_def atoi_def int_range_def)
qed

lemma itoa_inj: "itoa i = itoa j \<longleftrightarrow> i = j"
proof
  assume eq: "itoa i = itoa j"
  have head: "hd (itoa k) = CHR ''-'' \<longleftrightarrow> k < 0" for k
    using hd_show_nat_digit [of "nat k"] by (auto simp: itoa_def is_digit_def)
  have "i < 0 \<longleftrightarrow> j < 0" using head [of i] head [of j] eq by simp
  with eq show "i = j" by (auto simp: itoa_def dest: show_nat_inj split: if_splits)
qed simp

subsection \<open>Formatting: quoted strings and dates\<close>

text \<open>The \<^verbatim>\<open>%q\<close> verb of \<^verbatim>\<open>fmt\<close>: quotes, backslashes and control characters are
  escaped. Bytes from 0x80 on, the bytes of multi-byte characters, are printed as they are.\<close>

definition hex_digit :: "nat \<Rightarrow> char" where
  "hex_digit n = (if n < 10 then char_of (48 + n) else char_of (87 + n))"

definition escape_char :: "char \<Rightarrow> string" where
  "escape_char c =
     (let b = byte c in
      if b = 34 then [CHR 0x5C, CHR 0x22]
      else if b = 92 then [CHR 0x5C, CHR 0x5C]
      else if b = 7 then [CHR 0x5C, CHR ''a'']
      else if b = 8 then [CHR 0x5C, CHR ''b'']
      else if b = 12 then [CHR 0x5C, CHR ''f'']
      else if b = 10 then [CHR 0x5C, CHR ''n'']
      else if b = 13 then [CHR 0x5C, CHR ''r'']
      else if b = 9 then [CHR 0x5C, CHR ''t'']
      else if b = 11 then [CHR 0x5C, CHR ''v'']
      else if b < 32 \<or> b = 127 then [CHR 0x5C, CHR ''x'', hex_digit (b div 16), hex_digit (b mod 16)]
      else [c])"

definition go_quote :: "string \<Rightarrow> string" where
  "go_quote s = CHR 0x22 # concat (map escape_char s) @ [CHR 0x22]"

text \<open>The civil date (year, month, day) of an instant in UTC, in the proleptic Gregorian
  calendar: day 0 is 1 January of year 1.\<close>

definition civil_date :: "go_time \<Rightarrow> int \<times> int \<times> int" where
  "civil_date t =
     (let z = t div (24 * hour) + 306;
          era = z div 146097;
          doe = z mod 146097;
          yoe = (doe - doe div 1460 + doe div 36524 - doe div 146096) div 365;
          doy = doe - (365 * yoe + yoe div 4 - yoe div 100);
          mp = (5 * doy + 2) div 153;
          d = doy - (153 * mp + 2) div 5 + 1;
          m = (if mp < 10 then mp + 3 else mp - 9)
      in (yoe + era * 400 + (if m \<le> 2 then 1 else 0), m, d))"

definition month_names :: "string list" where
  "month_names = [''January'', ''February'', ''March'', ''April'', ''May'', ''June'', ''July'',
     ''August'', ''September'', ''October'', ''November'', ''December'']"

definition format_date :: "go_time \<Rightarrow> string" where
  "format_date t =
     (case civil_date t of (y, m, d) \<Rightarrow>
        itoa d @ '' '' @ month_names ! nat (m - 1) @ '' ''
        @ replicate (4 - length (itoa y)) (CHR ''0'') @ itoa y)"

section \<open>Identifiers\<close>

text \<open>\<^verbatim>\<open>uuid.UUID\<close> is an array of 16 bytes.\<close>

type_synonym uuid = string

section \<open>Lists and maps\<close>

text \<open>Appending to a list only what it does not hold yet, as the code does with a
  \<^verbatim>\<open>seen\<close> map or \<^verbatim>\<open>slices.Contains\<close>.\<close>

definition add_new :: "'a list \<Rightarrow> 'a \<Rightarrow> 'a list" where
  "add_new xs x = (if x \<in> set xs then xs else xs @ [x])"

lemma distinct_fold_add_new:
  "distinct ys \<Longrightarrow> distinct (foldl add_new ys xs)"
  by (induction xs arbitrary: ys) (auto simp: add_new_def)

lemma set_fold_add_new: "set (foldl add_new ys xs) = set ys \<union> set xs"
  by (induction xs arbitrary: ys) (auto simp: add_new_def)

lemma fold_add_new_distinct:
  "distinct (ys @ xs) \<Longrightarrow> foldl add_new ys xs = ys @ xs"
  by (induction xs arbitrary: ys) (auto simp: add_new_def)

lemma find_SomeD: "find P xs = Some x \<Longrightarrow> P x \<and> x \<in> set xs"
  by (induction xs) (auto split: if_splits)

lemma find_append: "find P (xs @ ys) = (case find P xs of None \<Rightarrow> find P ys | Some x \<Rightarrow> Some x)"
  by (induction xs) auto

lemma find_ne_None: "find P xs \<noteq> None \<longleftrightarrow> (\<exists>x \<in> set xs. P x)"
  by (auto simp: find_None_iff)

section \<open>State machines\<close>

text \<open>
  What the components that keep state owe: an invariant that holds at first and that every step keeps. What follows for
  every state reached is proved once, here.
\<close>

locale state_machine =
  fixes step :: "'s \<Rightarrow> 's \<Rightarrow> bool"
    and initial :: "'s \<Rightarrow> bool"
    and inv :: "'s \<Rightarrow> bool"
  assumes starts: "initial s \<Longrightarrow> inv s"
    and keeps: "inv s \<Longrightarrow> step s t \<Longrightarrow> inv t"
begin

lemma along: "step\<^sup>*\<^sup>* s t \<Longrightarrow> inv s \<Longrightarrow> inv t"
  by (induction rule: rtranclp_induct) (auto intro: keeps)

lemma reached: "step\<^sup>*\<^sup>* s t \<Longrightarrow> initial s \<Longrightarrow> inv t"
  using along starts by blast

end

end
