(* ===== verification/Group_Rules.thy ===== *)
theory Group_Rules
  imports Retune_Prelude
begin

text \<open>
  The dynamic-group rule language of \<^verbatim>\<open>internal/server/groups\<close>: the abstract syntax and
  the allowlists of \<^verbatim>\<open>ast.go\<close>, the lexer of \<^verbatim>\<open>lex.go\<close> and the recursive-descent parser
  of \<^verbatim>\<open>parse.go\<close>. A position in the rule is an offset together with the rest of the rule;
  the parser's position in the token slice is the rest of the token list. Error messages are
  constructors of \<open>rule_msg\<close> that carry the arguments of the source's format strings.

  The parser recurses through its own results, so it takes fuel; \<open>parse_fuel\<close> below shows
  that the fuel \<open>Parse\<close> gives it is always enough.
\<close>

section \<open>ast.go: expressions and allowlists\<close>

text \<open>A \<^verbatim>\<open>float64\<close> literal, kept as the exact decimal it was written as: \<open>(m, e)\<close> is
  \<open>m / 10 ^ e\<close>. The code only ever binds it as a query argument.\<close>

type_synonym decimal = "int \<times> nat"

datatype node =
    AndN node node
  | OrN node node
  | NotN node
  | CompareN string string string decimal
  | HasSoftwareN string string string

datatype field_kind = StringField | NumberField

text \<open>SQL text is a list of fragments: fixed text, a numbered placeholder (written
  \<^verbatim>\<open>$n\<close>), or the \<^verbatim>\<open>$CLOCK\<close> marker that only field definitions hold.\<close>

datatype frag = Txt string | Ph nat | ClockParam

record field_def =
  f_kind :: field_kind
  f_sql :: "frag list"

definition string_field :: "string \<Rightarrow> field_def" where
  "string_field s = \<lparr>f_kind = StringField, f_sql = [Txt s]\<rparr>"

definition rule_fields :: "string \<Rightarrow> field_def option" where
  "rule_fields = map_of
     [(''hostname'', string_field ''d.hostname''),
      (''os_version'', string_field ''d.os_version''),
      (''os_build'', string_field ''d.os_build''),
      (''manufacturer'', string_field ''d.manufacturer''),
      (''model'', string_field ''d.model''),
      (''serial'', string_field ''d.serial''),
      (''agent_version'', string_field ''d.agent_version''),
      (''ram_gb'', \<lparr>f_kind = NumberField, f_sql = [Txt ''coalesce(i.ram_gb, 0)'']\<rparr>),
      (''last_seen_days'', \<lparr>f_kind = NumberField,
         f_sql = [Txt ''floor(extract(epoch from ('', ClockParam,
                  Txt ''::timestamptz - d.last_seen_at)) / 86400)'']\<rparr>)]"

definition operators :: "string \<Rightarrow> string option" where
  "operators = map_of
     [(''='', ''=''), (''!='', ''<>''), (''<'', ''<''), (''<='', ''<=''), (''>'', ''>''),
      (''>='', ''>=''), (''LIKE'', ''LIKE'')]"

definition orderingOps :: "string \<Rightarrow> bool" where
  "orderingOps op \<longleftrightarrow> op \<in> set [''<'', ''<='', ''>'', ''>='']"

section \<open>lex.go\<close>

datatype token_kind =
  TokEOF | TokIdent | TokString | TokNumber | TokOp | TokLParen | TokRParen | TokComma

record token =
  t_kind :: token_kind
  t_text :: string
  t_number :: decimal
  t_offset :: nat

datatype rule_msg =
    TooLong | EmptyRule | UnexpectedChar char | UnterminatedString | ExpectedOperator char
  | ExpectedNumber | NotANumber string | UnexpectedToken string | TooDeep | ClosingParen
  | ExpectedCondition string | UnknownField string | TextOrdering string string
  | NumberLike string | NeedsQuoted string | NeedsNumber string | ExpectedComparison string
  | UnknownOperator string | SoftwareParens | SoftwareName | SoftwareOpQuoted
  | SoftwareBadOp string | SoftwareNeedsVersion | SoftwareVersionQuoted | SoftwareClosing

record parse_error =
  pe_offset :: nat
  pe_msg :: rule_msg

definition errAt :: "nat \<Rightarrow> rule_msg \<Rightarrow> parse_error" where
  "errAt i m = \<lparr>pe_offset = i, pe_msg = m\<rparr>"

definition tok :: "token_kind \<Rightarrow> string \<Rightarrow> nat \<Rightarrow> token" where
  "tok k s i = \<lparr>t_kind = k, t_text = s, t_number = (0, 0), t_offset = i\<rparr>"

lemma tok_simps [simp]:
  "t_kind (tok k s i) = k" "t_text (tok k s i) = s" "t_offset (tok k s i) = i"
  by (simp_all add: tok_def)

abbreviation quote_char :: char where "quote_char \<equiv> CHR 0x27"

text \<open>\<^verbatim>\<open>unicode.IsSpace\<close> on a single byte.\<close>

definition is_space :: "char \<Rightarrow> bool" where
  "is_space c \<longleftrightarrow> byte c \<in> {9, 10, 11, 12, 13, 32, 0x85, 0xA0}"

definition isIdentStart :: "char \<Rightarrow> bool" where
  "isIdentStart c \<longleftrightarrow> is_lower c \<or> is_upper c \<or> c = CHR ''_''"

definition isIdentPart :: "char \<Rightarrow> bool" where
  "isIdentPart c \<longleftrightarrow> isIdentStart c \<or> is_digit c"

text \<open>\<open>lexString\<close> is given the text after the opening quote.\<close>

fun lexString :: "string \<Rightarrow> (string \<times> string) option" where
  "lexString [] = None"
| "lexString (c # cs) =
     (if c \<noteq> quote_char then map_option (\<lambda>(t, r). (c # t, r)) (lexString cs)
      else case cs of
             [] \<Rightarrow> Some ([], [])
           | d # ds \<Rightarrow>
               if d = quote_char then map_option (\<lambda>(t, r). (quote_char # t, r)) (lexString ds)
               else Some ([], cs))"

definition lexOperator :: "nat \<Rightarrow> string \<Rightarrow> parse_error + (string \<times> string)" where
  "lexOperator i rule =
     (case rule of
        [] \<Rightarrow> Inl (errAt i ExpectedNumber)
      | a # cs \<Rightarrow>
          if cs \<noteq> [] \<and> hd cs = CHR ''='' \<and> [a, CHR ''=''] \<in> set [''!='', ''<='', ''>='']
          then Inr ([a, CHR ''=''], tl cs)
          else if a \<in> set ''=<>'' then Inr ([a], cs)
          else Inl (errAt i (ExpectedOperator a)))"

text \<open>\<^verbatim>\<open>strconv.ParseFloat(text, 64)\<close> on the alphabet of \<open>lexNumber\<close>: an optional sign,
  digits with at most one point, and no value that rounds to infinity.\<close>

definition float_limit :: int where
  "float_limit = 2 ^ 1024 - 2 ^ 970"

definition parseFloat :: "string \<Rightarrow> decimal option" where
  "parseFloat s =
     (let neg = (s \<noteq> [] \<and> hd s = CHR ''-''); body = (if neg then tl s else s);
          ds = filter is_digit body;
          e = (case cut (CHR ''.'') body of None \<Rightarrow> 0 | Some (_, b) \<Rightarrow> length b)
      in if count_list body (CHR ''.'') \<le> 1 \<and> ds \<noteq> []
            \<and> list_all (\<lambda>c. is_digit c \<or> c = CHR ''.'') body
            \<and> int (digits_value ds) < float_limit * 10 ^ e
         then Some (if neg then - int (digits_value ds) else int (digits_value ds), e)
         else None)"

definition is_number_part :: "char \<Rightarrow> bool" where
  "is_number_part c \<longleftrightarrow> is_digit c \<or> c = CHR ''.''"

definition lexNumber :: "nat \<Rightarrow> string \<Rightarrow> parse_error + (decimal \<times> string \<times> string)" where
  "lexNumber i rule =
     (let neg = (rule \<noteq> [] \<and> hd rule = CHR ''-''); body = (if neg then tl rule else rule);
          num = takeWhile is_number_part body;
          text = (if neg then CHR ''-'' # num else num)
      in if num = [] then Inl (errAt i ExpectedNumber)
         else case parseFloat text of
                None \<Rightarrow> Inl (errAt i (NotANumber text))
              | Some v \<Rightarrow> Inr (v, text, dropWhile is_number_part body))"

definition consE :: "token \<Rightarrow> parse_error + token list \<Rightarrow> parse_error + token list" where
  "consE t r = bindE r (\<lambda>ts. Inr (t # ts))"

lemma lexString_length: "lexString s = Some (t, r) \<Longrightarrow> length r < length s"
  by (induction s arbitrary: t r rule: lexString.induct)
     (fastforce split: if_splits list.splits)+

lemma lexOperator_length: "lexOperator i s = Inr (t, r) \<Longrightarrow> length r < length s"
  by (auto simp: lexOperator_def split: list.splits if_splits)

lemma lexNumber_length: "lexNumber i s = Inr (v, t, r) \<Longrightarrow> length r < length s"
proof -
  assume a: "lexNumber i s = Inr (v, t, r)"
  let ?b = "if s \<noteq> [] \<and> hd s = CHR ''-'' then tl s else s"
  from a have r: "r = dropWhile is_number_part ?b" and ne: "takeWhile is_number_part ?b \<noteq> []"
    by (auto simp: lexNumber_def Let_def split: if_splits option.splits)
  have "length (takeWhile is_number_part ?b @ r) = length ?b"
    unfolding r by (simp only: takeWhile_dropWhile_id)
  moreover have "length ?b \<le> length s" by simp
  moreover have "0 < length (takeWhile is_number_part ?b)" using ne by blast
  ultimately show ?thesis by (simp only: length_append)
qed

function lex_from :: "nat \<Rightarrow> string \<Rightarrow> parse_error + token list" where
  "lex_from i [] = Inr [tok TokEOF [] i]"
| "lex_from i (c # cs) =
     (if is_space c then lex_from (i + 1) cs
      else if c = CHR ''('' then consE (tok TokLParen ''('' i) (lex_from (i + 1) cs)
      else if c = CHR '')'' then consE (tok TokRParen '')'' i) (lex_from (i + 1) cs)
      else if c = CHR '','' then consE (tok TokComma '','' i) (lex_from (i + 1) cs)
      else if c = quote_char then
        (case lexString cs of
           None \<Rightarrow> Inl (errAt i UnterminatedString)
         | Some (s, r) \<Rightarrow> consE (tok TokString s i) (lex_from (i + (length (c # cs) - length r)) r))
      else if c \<in> set ''=<>!'' then
        (case lexOperator i (c # cs) of
           Inl e \<Rightarrow> Inl e
         | Inr (s, r) \<Rightarrow> consE (tok TokOp s i) (lex_from (i + (length (c # cs) - length r)) r))
      else if is_digit c \<or> c = CHR ''-'' \<or> c = CHR ''.'' then
        (case lexNumber i (c # cs) of
           Inl e \<Rightarrow> Inl e
         | Inr (n, s, r) \<Rightarrow> consE ((tok TokNumber s i)\<lparr>t_number := n\<rparr>)
                              (lex_from (i + (length (c # cs) - length r)) r))
      else if isIdentStart c then
        (let s = takeWhile isIdentPart (c # cs); r = dropWhile isIdentPart (c # cs)
         in consE (tok TokIdent s i) (lex_from (i + length s) r))
      else Inl (errAt i (UnexpectedChar c)))"
  by pat_completeness auto
termination
proof (relation "measure (length \<circ> snd)", goal_cases)
  case (6 i c cs x2 x y)
  then have "lexString cs = Some (x, y)" by metis
  from lexString_length [OF this] show ?case by simp
next
  case (7 i c cs b x y)
  then have "lexOperator i (c # cs) = Inr (x, y)" by metis
  from lexOperator_length [OF this] show ?case by simp
next
  case (8 i c cs b x y xa ya)
  then have "lexNumber i (c # cs) = Inr (x, xa, ya)" by metis
  from lexNumber_length [OF this] show ?case by simp
next
  case (9 i c cs x xa)
  then have "isIdentPart c" by (simp only: isIdentPart_def simp_thms)
  then show ?case by (simp add: 9(10) less_Suc_eq_le length_dropWhile_le)
qed simp_all

declare lex_from.simps(2) [simp del]

definition lex :: "string \<Rightarrow> parse_error + token list" where
  "lex rule = lex_from 0 rule"

section \<open>parse.go\<close>

definition MaxRuleLength :: nat where "MaxRuleLength = 2000"
definition MaxRuleDepth :: nat where "MaxRuleDepth = 20"

text \<open>A parser step fails, returns a value and the tokens left, or is out of fuel.\<close>

datatype 'a presult = Fail parse_error | Done 'a "token list" | NoFuel

definition pbind :: "'a presult \<Rightarrow> ('a \<Rightarrow> token list \<Rightarrow> 'b presult) \<Rightarrow> 'b presult" where
  "pbind m f = (case m of Fail e \<Rightarrow> Fail e | Done x ts \<Rightarrow> f x ts | NoFuel \<Rightarrow> NoFuel)"

lemma pbind_simps [simp]:
  "pbind (Fail e) f = Fail e" "pbind (Done x ts) f = f x ts" "pbind NoFuel f = NoFuel"
  by (simp_all add: pbind_def)

lemma pbind_Done: "pbind m f = Done y us \<longleftrightarrow> (\<exists>x ts. m = Done x ts \<and> f x ts = Done y us)"
  by (cases m) auto

lemma pbind_NoFuel: "pbind m f = NoFuel \<longleftrightarrow> m = NoFuel \<or> (\<exists>x ts. m = Done x ts \<and> f x ts = NoFuel)"
  by (cases m) auto

text \<open>The token list always ends with the EOF token, which \<open>next_tok\<close> never passes, so the
  empty list (where the source would index out of range) is not reached.\<close>

definition peek :: "token list \<Rightarrow> token" where
  "peek ts = (case ts of [] \<Rightarrow> tok TokEOF [] 0 | t # _ \<Rightarrow> t)"

definition next_tok :: "token list \<Rightarrow> token list" where
  "next_tok ts = (case ts of [] \<Rightarrow> [] | t # r \<Rightarrow> if t_kind t = TokEOF then ts else r)"

definition keywordIs :: "token list \<Rightarrow> string \<Rightarrow> bool" where
  "keywordIs ts w \<longleftrightarrow> t_kind (peek ts) = TokIdent \<and> equal_fold (t_text (peek ts)) w"

definition describe :: "token \<Rightarrow> string" where
  "describe t =
     (case t_kind t of
        TokEOF \<Rightarrow> ''the end of the rule''
      | TokString \<Rightarrow> ''a quoted value''
      | TokNumber \<Rightarrow> ''a number''
      | _ \<Rightarrow> if t_text t = [] then ''nothing'' else [CHR 0x22] @ t_text t @ [CHR 0x22])"

definition parseOperator :: "token list \<Rightarrow> (string \<times> token) presult" where
  "parseOperator ts =
     (let t = peek ts
      in if t_kind t = TokIdent \<and> equal_fold (t_text t) ''LIKE'' then Done (''LIKE'', t) (next_tok ts)
         else if t_kind t \<noteq> TokOp then Fail (errAt (t_offset t) (ExpectedComparison (describe t)))
         else if operators (t_text t) = None
         then Fail (errAt (t_offset t) (UnknownOperator (t_text t)))
         else Done (t_text t, t) (next_tok ts))"

definition parseComparison :: "token list \<Rightarrow> node presult" where
  "parseComparison ts =
     (let nameTok = peek ts; name = to_lower (t_text nameTok); ts1 = next_tok ts
      in case rule_fields name of
           None \<Rightarrow> Fail (errAt (t_offset nameTok) (UnknownField (t_text nameTok)))
         | Some def \<Rightarrow>
             pbind (parseOperator ts1) (\<lambda>(op, opTok) ts2.
               if f_kind def = StringField \<and> orderingOps op
               then Fail (errAt (t_offset opTok) (TextOrdering name op))
               else if f_kind def = NumberField \<and> op = ''LIKE''
               then Fail (errAt (t_offset opTok) (NumberLike name))
               else let lit = peek ts2; ts3 = next_tok ts2
                    in case f_kind def of
                         StringField \<Rightarrow>
                           if t_kind lit \<noteq> TokString
                           then Fail (errAt (t_offset lit) (NeedsQuoted name))
                           else Done (CompareN name op (t_text lit) (0, 0)) ts3
                       | NumberField \<Rightarrow>
                           if t_kind lit \<noteq> TokNumber
                           then Fail (errAt (t_offset lit) (NeedsNumber name))
                           else Done (CompareN name op [] (t_number lit)) ts3))"

definition parseSoftwareVersion :: "token list \<Rightarrow> (string \<times> string) presult" where
  "parseSoftwareVersion ts =
     (let opTok = peek ts; ts1 = next_tok ts; op = to_upper (t_text opTok)
      in if t_kind opTok \<noteq> TokString then Fail (errAt (t_offset opTok) SoftwareOpQuoted)
         else if operators op = None \<or> op = ''LIKE''
         then Fail (errAt (t_offset opTok) (SoftwareBadOp (t_text opTok)))
         else if t_kind (peek ts1) \<noteq> TokComma
         then Fail (errAt (t_offset (peek ts1)) SoftwareNeedsVersion)
         else let ts2 = next_tok ts1; verTok = peek ts2; ts3 = next_tok ts2
              in if t_kind verTok \<noteq> TokString
                 then Fail (errAt (t_offset verTok) SoftwareVersionQuoted)
                 else Done (op, t_text verTok) ts3)"

definition parseHasSoftware :: "token list \<Rightarrow> node presult" where
  "parseHasSoftware ts =
     (let ts1 = next_tok ts
      in if t_kind (peek ts1) \<noteq> TokLParen
         then Fail (errAt (t_offset (peek ts1)) SoftwareParens)
         else let ts2 = next_tok ts1; nameTok = peek ts2; ts3 = next_tok ts2
              in if t_kind nameTok \<noteq> TokString
                 then Fail (errAt (t_offset nameTok) SoftwareName)
                 else pbind (if t_kind (peek ts3) = TokComma
                             then parseSoftwareVersion (next_tok ts3) else Done ([], []) ts3)
                        (\<lambda>(op, ver) ts4.
                           if t_kind (peek ts4) \<noteq> TokRParen
                           then Fail (errAt (t_offset (peek ts4)) SoftwareClosing)
                           else Done (HasSoftwareN (t_text nameTok) op ver) (next_tok ts4)))"

function parseOr :: "nat \<Rightarrow> nat \<Rightarrow> token list \<Rightarrow> node presult"
and parseOrLoop :: "nat \<Rightarrow> nat \<Rightarrow> node \<Rightarrow> token list \<Rightarrow> node presult"
and parseAnd :: "nat \<Rightarrow> nat \<Rightarrow> token list \<Rightarrow> node presult"
and parseAndLoop :: "nat \<Rightarrow> nat \<Rightarrow> node \<Rightarrow> token list \<Rightarrow> node presult"
and parseNot :: "nat \<Rightarrow> nat \<Rightarrow> token list \<Rightarrow> node presult"
and parsePrimary :: "nat \<Rightarrow> nat \<Rightarrow> token list \<Rightarrow> node presult" where
  "parseOr 0 depth ts = NoFuel"
| "parseOr (Suc n) depth ts =
     (if MaxRuleDepth < depth then Fail (errAt (t_offset (peek ts)) TooDeep)
      else pbind (parseAnd n depth ts) (\<lambda>left ts'. parseOrLoop n depth left ts'))"
| "parseOrLoop 0 depth left ts = NoFuel"
| "parseOrLoop (Suc n) depth left ts =
     (if keywordIs ts ''OR''
      then pbind (parseAnd n depth (next_tok ts))
             (\<lambda>right ts'. parseOrLoop n depth (OrN left right) ts')
      else Done left ts)"
| "parseAnd 0 depth ts = NoFuel"
| "parseAnd (Suc n) depth ts =
     pbind (parseNot n depth ts) (\<lambda>left ts'. parseAndLoop n depth left ts')"
| "parseAndLoop 0 depth left ts = NoFuel"
| "parseAndLoop (Suc n) depth left ts =
     (if keywordIs ts ''AND''
      then pbind (parseNot n depth (next_tok ts))
             (\<lambda>right ts'. parseAndLoop n depth (AndN left right) ts')
      else Done left ts)"
| "parseNot 0 depth ts = NoFuel"
| "parseNot (Suc n) depth ts =
     (if keywordIs ts ''NOT''
      then pbind (parseNot n (depth + 1) (next_tok ts)) (\<lambda>operand ts'. Done (NotN operand) ts')
      else parsePrimary n depth ts)"
| "parsePrimary 0 depth ts = NoFuel"
| "parsePrimary (Suc n) depth ts =
     (let t = peek ts
      in if t_kind t = TokLParen
         then pbind (parseOr n (depth + 1) (next_tok ts)) (\<lambda>inner ts'.
                if t_kind (peek ts') \<noteq> TokRParen
                then Fail (errAt (t_offset (peek ts')) ClosingParen)
                else Done inner (next_tok ts'))
         else if t_kind t = TokIdent \<and> equal_fold (t_text t) ''has_software''
         then parseHasSoftware ts
         else if t_kind t = TokIdent then parseComparison ts
         else Fail (errAt (t_offset t) (ExpectedCondition (describe t))))"
  by pat_completeness auto
termination
  by (relation "measure (case_sum (case_sum fst (case_sum fst fst))
                                  (case_sum fst (case_sum fst fst)))") simp_all

text \<open>\<open>Parse\<close> returns \<open>None\<close> only if the fuel ran out.\<close>

definition Parse :: "string \<Rightarrow> (parse_error + node) option" where
  "Parse rule =
     (if MaxRuleLength < length rule then Some (Inl (errAt MaxRuleLength TooLong))
      else if trim_space rule = [] then Some (Inl (errAt 0 EmptyRule))
      else case lex rule of
             Inl e \<Rightarrow> Some (Inl e)
           | Inr toks \<Rightarrow>
               (case parseOr (5 * length toks + 5) 0 toks of
                  NoFuel \<Rightarrow> None
                | Fail e \<Rightarrow> Some (Inl e)
                | Done n ts \<Rightarrow>
                    if t_kind (peek ts) \<noteq> TokEOF
                    then Some (Inl (errAt (t_offset (peek ts)) (UnexpectedToken (describe (peek ts)))))
                    else Some (Inr n)))"

section \<open>What the parser guarantees\<close>

text \<open>A rule is well formed when every comparison names an allowed field with an operator
  that fits its kind, and every version comparison has an operator of its own.\<close>

fun wf_node :: "node \<Rightarrow> bool" where
  "wf_node (AndN a b) = (wf_node a \<and> wf_node b)"
| "wf_node (OrN a b) = (wf_node a \<and> wf_node b)"
| "wf_node (NotN a) = wf_node a"
| "wf_node (CompareN f op t v) =
     (case rule_fields f of
        None \<Rightarrow> False
      | Some def \<Rightarrow> operators op \<noteq> None
          \<and> (f_kind def = StringField \<longrightarrow> \<not> orderingOps op \<and> v = (0, 0))
          \<and> (f_kind def = NumberField \<longrightarrow> op \<noteq> ''LIKE'' \<and> t = []))"
| "wf_node (HasSoftwareN n op v) =
     (op = [] \<and> v = [] \<or> operators op \<noteq> None \<and> op \<noteq> ''LIKE'')"

text \<open>Offsets an error may point at: those of the tokens in hand (0 for the empty list).\<close>

definition offsets :: "token list \<Rightarrow> nat set" where
  "offsets ts = insert 0 (t_offset ` set ts)"

definition sound :: "token list \<Rightarrow> node presult \<Rightarrow> bool" where
  "sound ts r =
     (case r of
        Fail e \<Rightarrow> pe_offset e \<in> offsets ts
      | Done n ts' \<Rightarrow> wf_node n \<and> set ts' \<subseteq> set ts \<and> length ts' < length ts
      | NoFuel \<Rightarrow> True)"

definition loop_sound :: "token list \<Rightarrow> node presult \<Rightarrow> bool" where
  "loop_sound ts r =
     (case r of
        Fail e \<Rightarrow> pe_offset e \<in> offsets ts
      | Done n ts' \<Rightarrow> wf_node n \<and> set ts' \<subseteq> set ts \<and> length ts' \<le> length ts
      | NoFuel \<Rightarrow> True)"

lemma sound_simps [simp]:
  "sound ts (Fail e) \<longleftrightarrow> pe_offset e \<in> offsets ts"
  "sound ts (Done n ts') \<longleftrightarrow> wf_node n \<and> set ts' \<subseteq> set ts \<and> length ts' < length ts"
  "sound ts NoFuel"
  "loop_sound ts (Fail e) \<longleftrightarrow> pe_offset e \<in> offsets ts"
  "loop_sound ts (Done n ts') \<longleftrightarrow> wf_node n \<and> set ts' \<subseteq> set ts \<and> length ts' \<le> length ts"
  "loop_sound ts NoFuel"
  by (simp_all add: sound_def loop_sound_def)

lemma errAt_offset [simp]: "pe_offset (errAt i m) = i"
  by (simp add: errAt_def)

lemma peek_offset [simp]: "t_offset (peek ts) \<in> offsets ts"
  by (cases ts) (auto simp: peek_def offsets_def)

lemma next_tok_subset: "set (next_tok ts) \<subseteq> set ts"
  by (auto simp: next_tok_def split: list.splits if_splits)

lemma next_tok_le: "length (next_tok ts) \<le> length ts"
  by (auto simp: next_tok_def split: list.splits)

lemma next_tok_less: "t_kind (peek ts) \<noteq> TokEOF \<Longrightarrow> length (next_tok ts) < length ts"
  by (auto simp: next_tok_def peek_def split: list.splits)

lemma keywordIs_less: "keywordIs ts w \<Longrightarrow> length (next_tok ts) < length ts"
  by (auto simp: keywordIs_def intro: next_tok_less)

lemma offsets_mono: "set ts' \<subseteq> set ts \<Longrightarrow> offsets ts' \<subseteq> offsets ts"
  by (auto simp: offsets_def)

lemma peek_offset_in: "set us \<subseteq> set ts \<Longrightarrow> t_offset (peek us) \<in> offsets ts"
  using peek_offset offsets_mono by blast

lemma peek_next_offset [simp]:
  "t_offset (peek (next_tok ts)) \<in> offsets ts"
  "t_offset (peek (next_tok (next_tok ts))) \<in> offsets ts"
  using peek_offset offsets_mono next_tok_subset by (meson subset_trans subsetD)+

lemma parseOperator_Done:
  assumes "parseOperator ts = Done (op, t) ts'"
  shows "operators op \<noteq> None \<and> ts' = next_tok ts \<and> t_offset t \<in> offsets ts"
proof -
  have "operators ''LIKE'' \<noteq> None" by (simp add: operators_def)
  with assms show ?thesis
    by (auto simp: parseOperator_def Let_def split: if_splits)
qed

lemma parseOperator_Fail: "parseOperator ts = Fail e \<Longrightarrow> pe_offset e \<in> offsets ts"
  by (auto simp: parseOperator_def Let_def split: if_splits)

lemma parseOperator_fuel [simp]: "parseOperator ts \<noteq> NoFuel"
  by (simp add: parseOperator_def Let_def)

lemma offsets_next: "x \<in> offsets (next_tok ts) \<Longrightarrow> x \<in> offsets ts"
  using offsets_mono next_tok_subset by blast

lemma set_next: "x \<in> set (next_tok ts) \<Longrightarrow> x \<in> set ts"
  using next_tok_subset by blast

lemma parseComparison_sound:
  assumes "t_kind (peek ts) = TokIdent"
  shows "sound ts (parseComparison ts)"
proof -
  let ?t1 = "next_tok ts"
  have less: "length ?t1 < length ts" using assms by (simp add: next_tok_less)
  show ?thesis
  proof (cases "rule_fields (to_lower (t_text (peek ts)))")
    case None
    then show ?thesis by (simp add: parseComparison_def Let_def)
  next
    case (Some def)
    show ?thesis
    proof (cases "parseOperator ?t1")
      case (Fail e)
      with Some show ?thesis
        by (simp add: parseComparison_def Let_def offsets_next parseOperator_Fail)
    next
      case NoFuel
      then show ?thesis by simp
    next
      case (Done ot ts2)
      obtain op t where ot: "ot = (op, t)" by (cases ot)
      from Done ot have op: "operators op \<noteq> None" and ts2: "ts2 = next_tok ?t1"
        and off: "t_offset t \<in> offsets ts"
        by (auto dest!: parseOperator_Done intro: offsets_next)
      have len: "length (next_tok (next_tok ?t1)) < length ts"
        using less next_tok_le [of ?t1] next_tok_le [of "next_tok ?t1"] by linarith
      have sub: "set (next_tok (next_tok ?t1)) \<subseteq> set ts"
        by (blast dest: set_next)
      show ?thesis
        using Some Done ot op ts2 off len sub
        by (cases "f_kind def") (auto simp: parseComparison_def Let_def split: if_splits)
    qed
  qed
qed

lemma parseSoftwareVersion_cases:
  "(\<exists>e. parseSoftwareVersion ts = Fail e \<and> pe_offset e \<in> offsets ts)
   \<or> (\<exists>op v ts'. parseSoftwareVersion ts = Done (op, v) ts' \<and> operators op \<noteq> None \<and> op \<noteq> ''LIKE''
        \<and> set ts' \<subseteq> set ts \<and> length ts' \<le> length ts)"
proof -
  let ?t3 = "next_tok (next_tok (next_tok ts))"
  have "set ?t3 \<subseteq> set ts" by (blast dest: set_next)
  moreover have "length ?t3 \<le> length ts" by (meson next_tok_le order_trans)
  ultimately show ?thesis
    by (auto simp: parseSoftwareVersion_def Let_def)
qed

lemma parseHasSoftware_sound:
  assumes "t_kind (peek ts) = TokIdent"
  shows "sound ts (parseHasSoftware ts)"
proof -
  let ?t3 = "next_tok (next_tok (next_tok ts))"
  have l1: "length (next_tok ts) < length ts" using assms by (simp add: next_tok_less)
  have l3: "length ?t3 < length ts"
    using l1 next_tok_le [of "next_tok ts"] next_tok_le [of "next_tok (next_tok ts)"] by linarith
  have s3: "set ?t3 \<subseteq> set ts" by (blast dest: set_next)
  have fin: "sound ts (if t_kind (peek us) \<noteq> TokRParen
       then Fail (errAt (t_offset (peek us)) SoftwareClosing)
       else Done (HasSoftwareN nm op v) (next_tok us))"
    if "set us \<subseteq> set ?t3" "length us \<le> length ?t3"
      "op = [] \<and> v = [] \<or> operators op \<noteq> None \<and> op \<noteq> ''LIKE''" for us nm op v
    using that s3 l3 next_tok_le [of us] next_tok_subset [of us] peek_offset_in [of us ts] by auto
  have n3: "set (next_tok ?t3) \<subseteq> set ?t3" "length (next_tok ?t3) \<le> length ?t3"
    by (simp_all add: next_tok_subset next_tok_le)
  from parseSoftwareVersion_cases [of "next_tok ?t3"] show ?thesis
  proof (elim disjE exE conjE)
    fix e assume "parseSoftwareVersion (next_tok ?t3) = Fail e"
      and "pe_offset e \<in> offsets (next_tok ?t3)"
    moreover from this have "pe_offset e \<in> offsets ts"
      using offsets_mono n3(1) s3 by (meson subset_trans subsetD)
    ultimately show ?thesis
      using fin [of ?t3 "[]" "[]"] by (simp add: parseHasSoftware_def Let_def)
  next
    fix op v us
    assume "parseSoftwareVersion (next_tok ?t3) = Done (op, v) us"
      and "operators op \<noteq> None" "op \<noteq> ''LIKE''" "set us \<subseteq> set (next_tok ?t3)"
        "length us \<le> length (next_tok ?t3)"
    then show ?thesis
      using fin [of ?t3 "[]" "[]"] fin [of us op v] n3
      by (simp add: parseHasSoftware_def Let_def del: wf_node.simps)
  qed
qed

lemma sound_pbind_loop:
  assumes m: "sound ts m"
    and f: "\<And>n us. wf_node n \<Longrightarrow> loop_sound us (f n us)"
  shows "sound ts (pbind m f)"
proof (cases m)
  case (Done n us)
  with m have "wf_node n" "set us \<subseteq> set ts" "length us < length ts" by auto
  then show ?thesis
    using f [of n us] offsets_mono [of us ts] Done by (cases "f n us") auto
qed (use m in auto)

lemma loop_sound_pbind:
  assumes m: "sound us m" and us: "set us \<subseteq> set ts" "length us \<le> length ts"
    and f: "\<And>n vs. wf_node n \<Longrightarrow> loop_sound vs (f n vs)"
  shows "loop_sound ts (pbind m f)"
proof (cases m)
  case (Done n vs)
  with m us have "wf_node n" "set vs \<subseteq> set ts" "length vs < length ts" by auto
  then show ?thesis
    using f [of n vs] offsets_mono [of vs ts] Done by (cases "f n vs") auto
qed (use m offsets_mono [OF us(1)] in auto)

lemma sound_shift:
  assumes "sound us m" "set us \<subseteq> set ts" "length us \<le> length ts"
    "\<And>n vs. wf_node n \<Longrightarrow> set vs \<subseteq> set ts \<Longrightarrow> length vs < length ts \<Longrightarrow> sound ts (f n vs)"
  shows "sound ts (pbind m f)"
  using assms offsets_mono [OF assms(2)] by (cases m) auto

theorem parser_sound:
  "sound ts (parseOr n d ts)"
  "wf_node l \<Longrightarrow> loop_sound ts (parseOrLoop n d l ts)"
  "sound ts (parseAnd n d ts)"
  "wf_node l \<Longrightarrow> loop_sound ts (parseAndLoop n d l ts)"
  "sound ts (parseNot n d ts)"
  "sound ts (parsePrimary n d ts)"
proof (induction n d ts and n d l ts and n d ts and n d l ts and n d ts and n d ts
    rule: parseOr_parseOrLoop_parseAnd_parseAndLoop_parseNot_parsePrimary.induct)
  case (2 n d ts)
  then show ?case by (auto intro: sound_pbind_loop)
next
  case (4 n d l ts)
  then show ?case
    by (auto intro!: loop_sound_pbind [OF _ next_tok_subset next_tok_le])
next
  case (6 n d ts)
  then show ?case by (auto intro: sound_pbind_loop)
next
  case (8 n d l ts)
  then show ?case
    by (auto intro!: loop_sound_pbind [OF _ next_tok_subset next_tok_le])
next
  case (10 n d ts)
  then show ?case
    by (auto intro!: sound_shift [OF _ next_tok_subset next_tok_le])
next
  case (12 n d ts)
  show ?case
  proof (cases "t_kind (peek ts) = TokLParen")
    case True
    with 12 have "sound (next_tok ts) (parseOr n (d + 1) (next_tok ts))" by simp
    moreover have "sound ts (if t_kind (peek vs) \<noteq> TokRParen
        then Fail (errAt (t_offset (peek vs)) ClosingParen) else Done x (next_tok vs))"
      if "wf_node x" "set vs \<subseteq> set ts" "length vs < length ts" for x vs
      using that next_tok_le [of vs] next_tok_subset [of vs] peek_offset_in [of vs ts] by auto
    ultimately show ?thesis
      using True by (simp add: Let_def sound_shift [OF _ next_tok_subset next_tok_le])
  next
    case False
    then show ?thesis
      by (simp add: Let_def parseHasSoftware_sound parseComparison_sound)
  qed
qed simp_all

lemma parseHasSoftware_fuel: "parseHasSoftware ts \<noteq> NoFuel"
  using parseSoftwareVersion_cases [of "next_tok (next_tok (next_tok (next_tok ts)))"]
  by (auto simp: parseHasSoftware_def Let_def split: if_splits)

lemma parseComparison_fuel: "parseComparison ts \<noteq> NoFuel"
  by (auto simp: parseComparison_def Let_def pbind_NoFuel split: option.splits field_kind.splits)

lemma sound_Done_less: "sound ts m \<Longrightarrow> m = Done x us \<Longrightarrow> length us < length ts"
  by simp

text \<open>Enough fuel: five units per token, and a few more for the grammar level.\<close>

theorem parse_fuel:
  "5 * length ts + 4 \<le> n \<Longrightarrow> parseOr n d ts \<noteq> NoFuel"
  "5 * length ts + 1 \<le> n \<Longrightarrow> wf_node l \<Longrightarrow> parseOrLoop n d l ts \<noteq> NoFuel"
  "5 * length ts + 3 \<le> n \<Longrightarrow> parseAnd n d ts \<noteq> NoFuel"
  "5 * length ts + 1 \<le> n \<Longrightarrow> wf_node l \<Longrightarrow> parseAndLoop n d l ts \<noteq> NoFuel"
  "5 * length ts + 2 \<le> n \<Longrightarrow> parseNot n d ts \<noteq> NoFuel"
  "5 * length ts + 1 \<le> n \<Longrightarrow> parsePrimary n d ts \<noteq> NoFuel"
proof (induction n d ts and n d l ts and n d ts and n d l ts and n d ts and n d ts
    rule: parseOr_parseOrLoop_parseAnd_parseAndLoop_parseNot_parsePrimary.induct)
  case (2 n d ts)
  have "parseOrLoop n d x us \<noteq> NoFuel" if "parseAnd n d ts = Done x us" "\<not> MaxRuleDepth < d" for x us
    using 2 that parser_sound(3) [of ts n d] by simp
  with 2 show ?case by (auto simp: pbind_NoFuel)
next
  case (4 n d l ts)
  have "parseOrLoop n d (OrN l x) us \<noteq> NoFuel"
    if "parseAnd n d (next_tok ts) = Done x us" "keywordIs ts ''OR''" for x us
    using 4 that parser_sound(3) [of "next_tok ts" n d] keywordIs_less [OF that(2)] by simp
  moreover have "parseAnd n d (next_tok ts) \<noteq> NoFuel" if "keywordIs ts ''OR''"
    using 4 that keywordIs_less [OF that] by simp
  ultimately show ?case by (auto simp: pbind_NoFuel)
next
  case (6 n d ts)
  have "parseAndLoop n d x us \<noteq> NoFuel" if "parseNot n d ts = Done x us" for x us
    using 6 that parser_sound(5) [of ts n d] by simp
  with 6 show ?case by (auto simp: pbind_NoFuel)
next
  case (8 n d l ts)
  have "parseAndLoop n d (AndN l x) us \<noteq> NoFuel"
    if "parseNot n d (next_tok ts) = Done x us" "keywordIs ts ''AND''" for x us
    using 8 that parser_sound(5) [of "next_tok ts" n d] keywordIs_less [OF that(2)] by simp
  moreover have "parseNot n d (next_tok ts) \<noteq> NoFuel" if "keywordIs ts ''AND''"
    using 8 that keywordIs_less [OF that] by simp
  ultimately show ?case by (auto simp: pbind_NoFuel)
next
  case (10 n d ts)
  have "parseNot n (d + 1) (next_tok ts) \<noteq> NoFuel" if "keywordIs ts ''NOT''"
    using 10 that keywordIs_less [OF that] by simp
  with 10 show ?case by (auto simp: pbind_NoFuel)
next
  case (12 n d ts)
  have "parseOr n (d + 1) (next_tok ts) \<noteq> NoFuel" if "t_kind (peek ts) = TokLParen"
    using 12 that next_tok_less [of ts] by simp
  then show ?case
    by (auto simp: Let_def pbind_NoFuel parseHasSoftware_fuel parseComparison_fuel)
qed simp_all

section \<open>What the lexer guarantees\<close>

text \<open>One step of the lexer: it skips a space, emits one token at the current offset and goes
  on further right, or fails at the current offset.\<close>

lemma lex_from_step:
  "lex_from i (c # cs) = lex_from (i + 1) cs
   \<or> (\<exists>t r. length r < length (c # cs) \<and> t_offset t = i \<and> t_kind t \<noteq> TokEOF
        \<and> lex_from i (c # cs) = consE t (lex_from (i + (length (c # cs) - length r)) r))
   \<or> (\<exists>e. lex_from i (c # cs) = Inl e \<and> pe_offset e = i)"
proof -
  have one: ?thesis
    if "lex_from i (c # cs) = consE (tok k s i) (lex_from (i + 1) cs)" "k \<noteq> TokEOF" for k s
    using that by (intro disjI2 disjI1 exI [of _ "tok k s i"] exI [of _ cs]) simp
  consider "is_space c" | "\<not> is_space c" "c = quote_char"
    | "\<not> is_space c" "c \<in> set ''=<>!''"
    | "\<not> is_space c" "c \<notin> set ''(),=<>!''" "c \<noteq> quote_char"
        "is_digit c \<or> c = CHR ''-'' \<or> c = CHR ''.''"
    | "\<not> is_space c" "c \<notin> set ''(),=<>!''" "c \<noteq> quote_char"
        "\<not> (is_digit c \<or> c = CHR ''-'' \<or> c = CHR ''.'')"
    | "\<not> is_space c" "c \<in> set ''(),''" by fastforce
  then show ?thesis
  proof cases
    case 1
    then show ?thesis by (simp add: lex_from.simps(2))
  next
    case 6
    then consider "c = CHR ''(''" | "c = CHR '')''" | "c = CHR '',''" by auto
    then show ?thesis
    proof cases
      case 1
      with 6 show ?thesis by (intro one [of TokLParen "''(''"]) (simp_all add: lex_from.simps(2))
    next
      case 2
      with 6 show ?thesis by (intro one [of TokRParen "'')''"]) (simp_all add: lex_from.simps(2))
    next
      case 3
      with 6 show ?thesis by (intro one [of TokComma "'',''"]) (simp_all add: lex_from.simps(2))
    qed
  next
    case 2
    show ?thesis
    proof (cases "lexString cs")
      case None
      with 2 have "lex_from i (c # cs) = Inl (errAt i UnterminatedString)"
        by (simp add: lex_from.simps(2))
      then show ?thesis by simp
    next
      case (Some b)
      obtain x y where b: "b = (x, y)" by (cases b)
      have "lex_from i (c # cs)
          = consE (tok TokString x i) (lex_from (i + (length (c # cs) - length y)) y)"
        using 2 Some b by (simp add: lex_from.simps(2))
      moreover have "length y < length (c # cs)" using lexString_length Some b by fastforce
      ultimately show ?thesis
        by (intro disjI2 disjI1 exI [of _ "tok TokString x i"] exI [of _ y]) simp
    qed
  next
    case 3
    then show ?thesis
    proof (cases "lexOperator i (c # cs)")
      case (Inl e)
      then have "pe_offset e = i" by (auto simp: lexOperator_def split: if_splits)
      with 3 Inl show ?thesis by (auto simp: lex_from.simps(2))
    next
      case (Inr b)
      obtain x y where b: "b = (x, y)" by (cases b)
      have "c \<notin> set ''(),''" "c \<noteq> quote_char" using 3(2) by auto
      then have "lex_from i (c # cs)
          = consE (tok TokOp x i) (lex_from (i + (length (c # cs) - length y)) y)"
        using 3 Inr b by (simp add: lex_from.simps(2))
      moreover have "length y < length (c # cs)" using lexOperator_length Inr b by blast
      ultimately show ?thesis
        by (intro disjI2 disjI1 exI [of _ "tok TokOp x i"] exI [of _ y]) simp
    qed
  next
    case 4
    show ?thesis
    proof (cases "lexNumber i (c # cs)")
      case (Inl e)
      then have "pe_offset e = i"
        by (auto simp: lexNumber_def Let_def split: if_splits option.splits)
      with 4 Inl show ?thesis by (auto simp: lex_from.simps(2))
    next
      case (Inr b)
      obtain v x y where b: "b = (v, x, y)" by (cases b)
      have "lex_from i (c # cs) = consE ((tok TokNumber x i)\<lparr>t_number := v\<rparr>)
          (lex_from (i + (length (c # cs) - length y)) y)"
        using 4 Inr b by (simp add: lex_from.simps(2) del: length_Cons)
      moreover have "length y < length (c # cs)"
        using lexNumber_length Inr b by blast
      moreover have "t_offset ((tok TokNumber x i)\<lparr>t_number := v\<rparr>) = i"
        "t_kind ((tok TokNumber x i)\<lparr>t_number := v\<rparr>) \<noteq> TokEOF"
        by (simp_all add: tok_def)
      ultimately show ?thesis by blast
    qed
  next
    case 5
    show ?thesis
    proof (cases "isIdentStart c")
      case True
      let ?s = "takeWhile isIdentPart (c # cs)" and ?r = "dropWhile isIdentPart (c # cs)"
      have part: "isIdentPart c" using True by (simp add: isIdentPart_def)
      have "length (?s @ ?r) = length (c # cs)" by (simp only: takeWhile_dropWhile_id)
      then have len: "length ?s = length (c # cs) - length ?r" by (simp only: length_append)
      have "length ?r < length (c # cs)"
        using part by (simp add: less_Suc_eq_le length_dropWhile_le)
      moreover have "lex_from i (c # cs)
          = consE (tok TokIdent ?s i) (lex_from (i + (length (c # cs) - length ?r)) ?r)"
        using 5 True unfolding len [symmetric] by (simp add: lex_from.simps(2) Let_def)
      moreover have "t_offset (tok TokIdent ?s i) = i" "t_kind (tok TokIdent ?s i) \<noteq> TokEOF"
        by simp_all
      ultimately show ?thesis by blast
    next
      case False
      with 5 have "lex_from i (c # cs) = Inl (errAt i (UnexpectedChar c))"
        by (simp add: lex_from.simps(2))
      then show ?thesis by simp
    qed
  qed
qed

definition lexed :: "nat \<Rightarrow> nat \<Rightarrow> parse_error + token list \<Rightarrow> bool" where
  "lexed i j r =
     (case r of
        Inl e \<Rightarrow> i \<le> pe_offset e \<and> pe_offset e \<le> j
      | Inr ts \<Rightarrow> (\<exists>us. ts = us @ [tok TokEOF [] j] \<and> (\<forall>t \<in> set us. t_kind t \<noteq> TokEOF))
          \<and> sorted_wrt (<) (map t_offset ts) \<and> (\<forall>t \<in> set ts. i \<le> t_offset t \<and> t_offset t \<le> j))"

lemma lexed_shift: "lexed i' j r \<Longrightarrow> i \<le> i' \<Longrightarrow> lexed i j r"
  by (auto simp: lexed_def split: sum.splits)

lemma lexed_consE:
  assumes "lexed i' j r" "t_offset t = i" "i < i'" "i' \<le> j" "t_kind t \<noteq> TokEOF"
  shows "lexed i j (consE t r)"
proof (cases r)
  case (Inl e)
  with assms show ?thesis by (auto simp: lexed_def consE_def)
next
  case (Inr ts)
  with assms(1) obtain us where us: "ts = us @ [tok TokEOF [] j]" "\<forall>t \<in> set us. t_kind t \<noteq> TokEOF"
    by (auto simp: lexed_def)
  have "t # ts = (t # us) @ [tok TokEOF [] j]" using us by simp
  moreover have "sorted_wrt (<) (map t_offset (t # ts))"
    using Inr assms by (fastforce simp: lexed_def)
  ultimately show ?thesis
    using Inr assms us by (fastforce simp: lexed_def consE_def)
qed

theorem lex_from_lexed: "lexed i (i + length s) (lex_from i s)"
proof (induction "length s" arbitrary: i s rule: less_induct)
  case less
  show ?case
  proof (cases s)
    case Nil
    then show ?thesis by (simp add: lexed_def)
  next
    case (Cons c cs)
    from lex_from_step [of i c cs] show ?thesis
    proof (elim disjE exE conjE)
      assume "lex_from i (c # cs) = lex_from (i + 1) cs"
      moreover have "lexed (i + 1) (i + 1 + length cs) (lex_from (i + 1) cs)"
        using less(1) [of cs "i + 1"] Cons by simp
      ultimately show ?thesis using Cons by (simp add: lexed_shift)
    next
      fix t :: token and r :: string
      let ?i' = "i + (length (c # cs) - length r)"
      assume r: "length r < length (c # cs)" "t_offset t = i" "t_kind t \<noteq> TokEOF"
        and eq: "lex_from i (c # cs) = consE t (lex_from ?i' r)"
      have "lexed ?i' (?i' + length r) (lex_from ?i' r)" using less(1) [of r ?i'] Cons r(1) by simp
      moreover have "?i' + length r = i + length s" using r(1) Cons by simp
      ultimately have "lexed ?i' (i + length s) (lex_from ?i' r)" by metis
      then show ?thesis
        using r eq Cons by (auto intro!: lexed_consE)
    next
      fix e assume "lex_from i (c # cs) = Inl e" "pe_offset e = i"
      then show ?thesis using Cons by (simp add: lexed_def)
    qed
  qed
qed

section \<open>Parse\<close>

lemma lex_Inr_offsets: "lex rule = Inr ts \<Longrightarrow> o1 \<in> offsets ts \<Longrightarrow> o1 \<le> length rule"
  using lex_from_lexed [of 0 rule] by (auto simp: lex_def lexed_def offsets_def)

lemma lex_Inl_offset: "lex rule = Inl e \<Longrightarrow> pe_offset e \<le> length rule"
  using lex_from_lexed [of 0 rule] by (auto simp: lex_def lexed_def)

text \<open>C35. Parsing a rule always comes to an answer: for every rule text, \<open>Parse\<close> returns an
  error or a rule, so the fuel it gives the recursive-descent parser is always enough.\<close>

theorem Parse_terminates: "\<exists>r. Parse rule = Some r"
proof (cases "lex rule")
  case (Inr toks)
  have "parseOr (5 * length toks + 5) 0 toks \<noteq> NoFuel" by (rule parse_fuel(1)) simp
  with Inr show ?thesis
    by (cases "parseOr (5 * length toks + 5) 0 toks") (simp_all add: Parse_def)
qed (simp add: Parse_def)

lemma Parse_wf_aux:
  assumes "Parse rule = Some (Inr n)"
  shows "wf_node n"
proof -
  from assms obtain toks where lx: "lex rule = Inr toks"
    by (auto simp: Parse_def split: if_splits sum.splits)
  with assms obtain ts where "parseOr (5 * length toks + 5) 0 toks = Done n ts"
    by (auto simp: Parse_def split: if_splits presult.splits)
  with parser_sound(1) [of toks "5 * length toks + 5" 0] show ?thesis by simp
qed

text \<open>C7. Every rule the parser accepts is well formed: each comparison names a field of the
  allowlist with an operator of the fixed set, text fields are never ordered and number fields
  never matched with LIKE, and a version comparison never uses LIKE.\<close>

theorem Parse_wf: "Parse rule = Some (Inr n) \<Longrightarrow> wf_node n"
  by (rule Parse_wf_aux)

theorem Parse_wf_witness: "wf_node (NotN (CompareN ''ram_gb'' ''>='' [] (8, 0)))"
  by (rule Parse_wf [of "''NOT (RAM_GB >= 8)''"]) code_simp

text \<open>The position a rejected rule is reported at lies inside the rule, so the console
  can point at it.\<close>

theorem Parse_error_offset: "Parse rule = Some (Inl e) \<Longrightarrow> pe_offset e \<le> length rule"
proof -
  assume a: "Parse rule = Some (Inl e)"
  show ?thesis
  proof (cases "lex rule")
    case (Inl e')
    with a show ?thesis
      by (auto simp: Parse_def dest: lex_Inl_offset split: if_splits)
  next
    case (Inr toks)
    have snd: "sound toks (parseOr (5 * length toks + 5) 0 toks)" by (rule parser_sound)
    show ?thesis
    proof (cases "parseOr (5 * length toks + 5) 0 toks")
      case (Fail e')
      with a Inr snd lex_Inr_offsets [OF Inr] show ?thesis
        by (auto simp: Parse_def split: if_splits)
    next
      case (Done n ts)
      with snd have "t_offset (peek ts) \<in> offsets toks" by (simp add: peek_offset_in)
      with a Inr Done lex_Inr_offsets [OF Inr] show ?thesis
        by (auto simp: Parse_def split: if_splits)
    next
      case NoFuel
      with a Inr show ?thesis by (auto simp: Parse_def split: if_splits)
    qed
  qed
qed

theorem Parse_error_offset_witness: "pe_offset (errAt 9 (NeedsNumber ''ram_gb'')) \<le> length ''ram_gb > model''"
  by (rule Parse_error_offset [of "''ram_gb > model''"]) code_simp

text \<open>Parentheses are limited to \<open>MaxRuleDepth\<close> levels, but a chain of NOT is not: however
  many fit into a rule of allowed length, each one level deeper, parse.\<close>

fun levels :: "node \<Rightarrow> nat" where
  "levels (AndN a b) = Suc (max (levels a) (levels b))"
| "levels (OrN a b) = Suc (max (levels a) (levels b))"
| "levels (NotN a) = Suc (levels a)"
| "levels _ = 1"

fun not_chain :: "nat \<Rightarrow> string" where
  "not_chain 0 = ''ram_gb > 1''"
| "not_chain (Suc k) = ''NOT '' @ not_chain k"

fun not_tokens :: "nat \<Rightarrow> nat \<Rightarrow> token list" where
  "not_tokens 0 i = projr (lex_from i ''ram_gb > 1'')"
| "not_tokens (Suc k) i = tok TokIdent ''NOT'' i # not_tokens k (i + 4)"

lemma lex_ram: "lex_from i ''ram_gb > 1'' = Inr (not_tokens 0 i)"
  by (simp add: lex_from.simps(2) is_space_def char_class_defs isIdentStart_def isIdentPart_def
      lexOperator_def lexNumber_def is_number_part_def parseFloat_def consE_def
      digits_value_def digit_value_def float_limit_def Let_def)

lemma lex_not_chain: "lex_from i (not_chain k) = Inr (not_tokens k i)"
proof (induction k arbitrary: i)
  case 0
  show ?case by (simp only: not_chain.simps lex_ram)
next
  case (Suc k)
  then show ?case
    by (simp add: lex_from.simps(2) is_space_def char_class_defs isIdentStart_def isIdentPart_def
        consE_def Let_def add.commute [of _ 4] numeral_eq_Suc)
qed

lemma not_tokens_0:
  "not_tokens 0 i =
     [tok TokIdent ''ram_gb'' i, tok TokOp ''>'' (i + 7),
      (tok TokNumber ''1'' (i + 9))\<lparr>t_number := (1, 0)\<rparr>, tok TokEOF [] (i + 10)]"
  by (simp add: lex_from.simps(2) is_space_def char_class_defs isIdentStart_def isIdentPart_def
      lexOperator_def lexNumber_def is_number_part_def parseFloat_def consE_def
      digits_value_def digit_value_def float_limit_def Let_def)
    (simp add: numeral_eq_Suc)

lemma length_not_tokens: "length (not_tokens k i) = k + 4"
proof (induction k arbitrary: i)
  case 0
  show ?case by (simp only: not_tokens_0) simp
qed simp

lemma parse_ram:
  "parseComparison (not_tokens 0 i) = Done (CompareN ''ram_gb'' ''>'' [] (1, 0)) [tok TokEOF [] (i + 10)]"
  unfolding not_tokens_0
  by (simp add: parseComparison_def parseOperator_def peek_def next_tok_def rule_fields_def
      string_field_def operators_def orderingOps_def to_lower_def lower_char_def is_upper_def
      equal_fold_def Let_def tok_def)

lemma parseNot_chain:
  "parseNot (k + Suc (Suc m)) d (not_tokens k i)
     = Done ((NotN ^^ k) (CompareN ''ram_gb'' ''>'' [] (1, 0))) [tok TokEOF [] (i + 4 * k + 10)]"
proof (induction k arbitrary: d i)
  case 0
  have "t_kind (peek (not_tokens 0 i)) = TokIdent" "t_text (peek (not_tokens 0 i)) = ''ram_gb''"
    unfolding not_tokens_0 by (simp_all add: peek_def)
  then show ?case
    using parse_ram [of i]
    by (simp add: keywordIs_def equal_fold_def to_lower_def lower_char_def is_upper_def
        del: not_tokens.simps)
next
  case (Suc k)
  then show ?case
    by (simp add: keywordIs_def peek_def next_tok_def algebra_simps)
qed

lemma set_not_chain: "CHR ''r'' \<in> set (not_chain k)"
  by (induction k) auto

lemma length_not_chain: "length (not_chain k) = 4 * k + 10"
  by (induction k) auto

lemma levels_not_chain: "levels ((NotN ^^ k) (CompareN f op t v)) = Suc k"
  by (induction k) auto

theorem not_chain_not_limited:
  assumes "k \<le> 497"
  shows "\<exists>n. Parse (not_chain k) = Some (Inr n) \<and> levels n = Suc k"
proof -
  let ?n = "(NotN ^^ k) (CompareN ''ram_gb'' ''>'' [] (1, 0))"
  obtain m where m: "Suc m = k + Suc (Suc (4 * k + 21))" by simp
  have fuel: "5 * length (not_tokens k 0) + 5 = Suc (Suc (Suc m))"
    using m by (simp add: length_not_tokens)
  have "parseNot (Suc m) 0 (not_tokens k 0) = Done ?n [tok TokEOF [] (4 * k + 10)]"
    using parseNot_chain [of k "4 * k + 21" 0 0] by (simp only: m) simp
  then have "parseOr (Suc (Suc (Suc m))) 0 (not_tokens k 0) = Done ?n [tok TokEOF [] (4 * k + 10)]"
    by (simp add: keywordIs_def peek_def del: parseNot.simps)
  then have "parseOr (5 * length (not_tokens k 0) + 5) 0 (not_tokens k 0) = Done ?n [tok TokEOF [] (4 * k + 10)]"
    by (simp only: fuel)
  moreover have "lex (not_chain k) = Inr (not_tokens k 0)" by (simp add: lex_def lex_not_chain)
  moreover have "trim_space (not_chain k) \<noteq> []"
    by (rule trim_space_keeps [OF set_not_chain]) simp_all
  moreover have "\<not> MaxRuleLength < length (not_chain k)"
    using assms by (simp add: MaxRuleLength_def length_not_chain)
  ultimately have "Parse (not_chain k) = Some (Inr ?n)"
    by (simp add: Parse_def peek_def)
  then show ?thesis by (simp add: levels_not_chain)
qed

end
