(* ===== verification/Group_Compile.thy ===== *)
theory Group_Compile
  imports Group_Rules
begin

text \<open>
  \<^verbatim>\<open>internal/server/groups/compile.go\<close>: turning a parsed rule into the query that selects
  the matching devices. Query text is a list of fragments (\<open>frag\<close>) that \<open>render\<close> writes
  out; a placeholder is the number of the argument it refers to. The theorems show that the
  text is drawn from a fixed vocabulary and does not depend on any literal of the rule, and
  that the placeholders name exactly the bound arguments.
\<close>

section \<open>The compiler\<close>


datatype arg = ATenant uuid | ATime go_time | ANumber decimal | AText string

record compiler =
  c_args :: "arg list"
  c_now :: go_time
  c_clock :: "nat option"

datatype compile_error = CUnknownField string | CUnknownOperator string

definition bind_arg :: "arg \<Rightarrow> compiler \<Rightarrow> nat \<times> compiler" where
  "bind_arg v c = (length (c_args c) + 1, c\<lparr>c_args := c_args c @ [v]\<rparr>)"

definition clockPlaceholder :: "compiler \<Rightarrow> nat \<times> compiler" where
  "clockPlaceholder c =
     (case c_clock c of
        Some p \<Rightarrow> (p, c)
      | None \<Rightarrow> let (p, c') = bind_arg (ATime (c_now c)) c in (p, c'\<lparr>c_clock := Some p\<rparr>))"

definition subst_clock :: "nat \<Rightarrow> frag list \<Rightarrow> frag list" where
  "subst_clock p fs = map (\<lambda>f. if f = ClockParam then Ph p else f) fs"

definition compare :: "string \<Rightarrow> string \<Rightarrow> string \<Rightarrow> decimal \<Rightarrow> compiler
    \<Rightarrow> compile_error + (frag list \<times> compiler)" where
  "compare f op t v c =
     (case rule_fields f of
        None \<Rightarrow> Inl (CUnknownField f)
      | Some def \<Rightarrow>
          (case operators op of
             None \<Rightarrow> Inl (CUnknownOperator op)
           | Some sqlOp \<Rightarrow>
               let (column, c1) =
                     (if ClockParam \<in> set (f_sql def)
                      then let (p, c') = clockPlaceholder c in (subst_clock p (f_sql def), c')
                      else (f_sql def, c));
                   (p, c2) = bind_arg (if f_kind def = NumberField then ANumber v else AText t) c1
               in Inr ([Txt ''(''] @ column @ [Txt '' '', Txt sqlOp, Txt '' '', Ph p, Txt '')''], c2)))"

definition dottedArray :: "frag \<Rightarrow> frag list" where
  "dottedArray e =
     [Txt ''(CASE WHEN '', e,
      Txt ('' ~ '' @ [quote_char] @ ''^[0-9]+('' @ [CHR 0x5C] @ ''.[0-9]+)*$'' @ [quote_char]
           @ '' THEN string_to_array(''), e,
      Txt ('', '' @ [quote_char] @ ''.'' @ [quote_char] @ '')::numeric[] END)'')]"

definition hasSoftware :: "string \<Rightarrow> string \<Rightarrow> string \<Rightarrow> compiler
    \<Rightarrow> compile_error + (frag list \<times> compiler)" where
  "hasSoftware name op ver c =
     (let (pn, c1) = bind_arg (AText name) c;
          b = [Txt ''EXISTS (SELECT 1 FROM device_software s WHERE s.device_id = d.id AND lower(s.name) = lower('',
               Ph pn, Txt '')'']
      in if op = [] then Inr (b @ [Txt '')''], c1)
         else case operators op of
                None \<Rightarrow> Inl (CUnknownOperator op)
              | Some sqlOp \<Rightarrow>
                  let (pv, c2) = bind_arg (AText ver) c1
                  in if orderingOps op
                     then Inr (b @ [Txt '' AND ''] @ dottedArray (Txt ''s.version'')
                               @ [Txt '' '', Txt sqlOp, Txt '' ''] @ dottedArray (Ph pv) @ [Txt '')''], c2)
                     else Inr (b @ [Txt '' AND s.version '', Txt sqlOp, Txt '' '', Ph pv, Txt '')''], c2))"

primrec compile :: "node \<Rightarrow> compiler \<Rightarrow> compile_error + (frag list \<times> compiler)" where
  "compile (AndN a b) c =
     bindE (compile a c) (\<lambda>(l, c1). bindE (compile b c1) (\<lambda>(r, c2).
       Inr ([Txt ''(''] @ l @ [Txt '' '', Txt ''AND'', Txt '' ''] @ r @ [Txt '')''], c2)))"
| "compile (OrN a b) c =
     bindE (compile a c) (\<lambda>(l, c1). bindE (compile b c1) (\<lambda>(r, c2).
       Inr ([Txt ''(''] @ l @ [Txt '' '', Txt ''OR'', Txt '' ''] @ r @ [Txt '')''], c2)))"
| "compile (NotN a) c =
     bindE (compile a c) (\<lambda>(i, c1). Inr ([Txt ''(NOT COALESCE(''] @ i @ [Txt '', false))''], c1))"
| "compile (CompareN f op t v) c = compare f op t v c"
| "compile (HasSoftwareN n op v) c = hasSoftware n op v c"

definition new_line :: string where
  "new_line = [CHR 0x0A, CHR 0x09, CHR 0x09]"

definition query_head :: string where
  "query_head =
     new_line @ ''SELECT d.id FROM devices d''
     @ new_line @ ''LEFT JOIN device_inventory i ON i.device_id = d.id''
     @ new_line @ ''WHERE d.tenant_id = ''"

definition query_mid :: string where
  "query_mid = '' AND d.status = '' @ [quote_char] @ ''active'' @ [quote_char] @ '' AND (''"

definition Compile :: "node \<Rightarrow> uuid \<Rightarrow> go_time \<Rightarrow> compile_error + (frag list \<times> arg list)" where
  "Compile n tenant now =
     bindE (compile n \<lparr>c_args = [ATenant tenant], c_now = now, c_clock = None\<rparr>) (\<lambda>(where_text, c).
       Inr ([Txt query_head, Ph 1, Txt query_mid] @ where_text @ [Txt '')''], c_args c))"

primrec render_frag :: "frag \<Rightarrow> string" where
  "render_frag (Txt s) = s"
| "render_frag (Ph n) = CHR ''$'' # show_nat n"
| "render_frag ClockParam = ''$CLOCK''"

definition render :: "frag list \<Rightarrow> string" where
  "render fs = concat (map render_frag fs)"

lemmas compile_defs = compare_def hasSoftware_def bind_arg_def clockPlaceholder_def

section \<open>Facts about the allowlists\<close>

lemma rule_fields_cases:
  "rule_fields f = Some def \<Longrightarrow>
     (\<exists>s. f_sql def = [Txt s]) \<or> (\<exists>s t. f_sql def = [Txt s, ClockParam, Txt t])"
  by (auto simp: rule_fields_def string_field_def split: if_splits)

text \<open>The text of every field and operator, and of every other piece the compiler writes.\<close>

definition field_texts :: "string list" where
  "field_texts =
     [''d.hostname'', ''d.os_version'', ''d.os_build'', ''d.manufacturer'', ''d.model'',
      ''d.serial'', ''d.agent_version'', ''coalesce(i.ram_gb, 0)'',
      ''floor(extract(epoch from ('', ''::timestamptz - d.last_seen_at)) / 86400)'']"

definition op_texts :: "string list" where
  "op_texts = [''='', ''<>'', ''<'', ''<='', ''>'', ''>='', ''LIKE'']"

definition fixed_texts :: "string list" where
  "fixed_texts =
     [''('', '')'', '' '', ''AND'', ''OR'', ''(NOT COALESCE('', '', false))'', '' AND '',
      '' AND s.version '', ''s.version'', ''(CASE WHEN '', query_head, query_mid,
      '' ~ '' @ [quote_char] @ ''^[0-9]+('' @ [CHR 0x5C] @ ''.[0-9]+)*$'' @ [quote_char]
        @ '' THEN string_to_array('',
      '', '' @ [quote_char] @ ''.'' @ [quote_char] @ '')::numeric[] END)'',
      ''EXISTS (SELECT 1 FROM device_software s WHERE s.device_id = d.id AND lower(s.name) = lower('']
     @ op_texts @ field_texts"

definition frag_ok :: "nat \<Rightarrow> frag \<Rightarrow> bool" where
  "frag_ok n f = (case f of Txt s \<Rightarrow> s \<in> set fixed_texts | Ph p \<Rightarrow> 1 \<le> p \<and> p \<le> n | ClockParam \<Rightarrow> False)"

lemma frag_ok_simps [simp]:
  "frag_ok n (Txt s) \<longleftrightarrow> s \<in> set fixed_texts"
  "frag_ok n (Ph p) \<longleftrightarrow> 1 \<le> p \<and> p \<le> n"
  "\<not> frag_ok n ClockParam"
  by (simp_all add: frag_ok_def)

lemma frag_ok_mono: "frag_ok m f \<Longrightarrow> m \<le> n \<Longrightarrow> frag_ok n f"
  by (cases f) auto

lemma operators_fixed: "operators op = Some s \<Longrightarrow> s \<in> set fixed_texts"
  by (auto simp: operators_def fixed_texts_def op_texts_def split: if_splits)

lemma rule_fields_fixed: "rule_fields f = Some def \<Longrightarrow> Txt s \<in> set (f_sql def) \<Longrightarrow> s \<in> set fixed_texts"
  by (auto simp: rule_fields_def string_field_def fixed_texts_def field_texts_def split: if_splits)

lemma punctuation_fixed [simp]:
  "''('' \<in> set fixed_texts" "'')'' \<in> set fixed_texts" "'' '' \<in> set fixed_texts"
  "''AND'' \<in> set fixed_texts" "''OR'' \<in> set fixed_texts" "''(NOT COALESCE('' \<in> set fixed_texts"
  "'', false))'' \<in> set fixed_texts" "'' AND '' \<in> set fixed_texts"
  "'' AND s.version '' \<in> set fixed_texts" "query_head \<in> set fixed_texts" "query_mid \<in> set fixed_texts"
  "''EXISTS (SELECT 1 FROM device_software s WHERE s.device_id = d.id AND lower(s.name) = lower('' \<in> set fixed_texts"
  by (simp_all add: fixed_texts_def)

lemma dottedArray_ok: "frag_ok n e \<Longrightarrow> f \<in> set (dottedArray e) \<Longrightarrow> frag_ok n f"
  by (auto simp: dottedArray_def fixed_texts_def)

lemma s_version_fixed [simp]: "''s.version'' \<in> set fixed_texts"
  by (simp add: fixed_texts_def)

section \<open>Placeholders and fixed text\<close>

definition placeholders :: "frag list \<Rightarrow> nat set" where
  "placeholders fs = {p. Ph p \<in> set fs}"

lemma placeholders_simps [simp]:
  "placeholders [] = {}"
  "placeholders (Txt s # fs) = placeholders fs"
  "placeholders (Ph p # fs) = insert p (placeholders fs)"
  "placeholders (fs @ gs) = placeholders fs \<union> placeholders gs"
  by (auto simp: placeholders_def)

definition clock_ok :: "compiler \<Rightarrow> bool" where
  "clock_ok c = (case c_clock c of None \<Rightarrow> True | Some p \<Rightarrow> 1 \<le> p \<and> p \<le> length (c_args c))"

text \<open>What compiling one expression does to the compiler and which text it yields.\<close>

definition compiled :: "compiler \<Rightarrow> frag list \<Rightarrow> compiler \<Rightarrow> bool" where
  "compiled c fs c' \<longleftrightarrow>
     length (c_args c) \<le> length (c_args c') \<and> clock_ok c'
     \<and> (\<forall>f \<in> set fs. frag_ok (length (c_args c')) f)
     \<and> {length (c_args c) + 1 .. length (c_args c')} \<subseteq> placeholders fs"

lemma compiled_frame:
  "compiled c fs c' \<Longrightarrow> \<forall>f \<in> set pre \<union> set post. frag_ok 0 f \<Longrightarrow> compiled c (pre @ fs @ post) c'"
  by (auto simp: compiled_def intro: frag_ok_mono)

lemma compiled_append:
  assumes "compiled c l c1" "compiled c1 r c2" "\<forall>f \<in> set m. frag_ok 0 f"
  shows "compiled c (l @ m @ r) c2"
proof -
  have "{length (c_args c) + 1 .. length (c_args c2)}
      \<subseteq> {length (c_args c) + 1 .. length (c_args c1)} \<union> {length (c_args c1) + 1 .. length (c_args c2)}"
    by auto
  with assms show ?thesis
    by (auto simp: compiled_def intro: frag_ok_mono)
qed

lemma compiled_bind:
  assumes "clock_ok c" "bind_arg v c = (p, c')"
  shows "compiled c [Ph p] c'"
  using assms by (auto simp: compiled_def bind_arg_def clock_ok_def split: option.splits)

lemma compiled_clock:
  assumes "clock_ok c" "clockPlaceholder c = (p, c')"
  shows "compiled c [Ph p] c'"
  using assms
  by (auto simp: compiled_def clockPlaceholder_def bind_arg_def clock_ok_def split: option.splits)

lemma compiled_id: "clock_ok c \<Longrightarrow> \<forall>f \<in> set fs. frag_ok 0 f \<Longrightarrow> compiled c fs c"
  by (auto simp: compiled_def intro: frag_ok_mono)

lemma compiled_clock_ok: "compiled c fs c' \<Longrightarrow> clock_ok c'"
  by (simp add: compiled_def)

lemma compiled_column:
  assumes f: "rule_fields f = Some def" and c: "clock_ok c"
    and col: "(if ClockParam \<in> set (f_sql def)
               then let (p, c') = clockPlaceholder c in (subst_clock p (f_sql def), c')
               else (f_sql def, c)) = (column, c1)"
  shows "compiled c column c1"
  using rule_fields_cases [OF f]
proof (elim disjE exE)
  fix s assume s: "f_sql def = [Txt s]"
  then have "s \<in> set fixed_texts" using rule_fields_fixed [OF f, of s] by simp
  moreover from s col have "column = [Txt s]" "c1 = c" by simp_all
  ultimately show ?thesis using c by (simp add: compiled_id)
next
  fix s t assume st: "f_sql def = [Txt s, ClockParam, Txt t]"
  obtain p c' where p: "clockPlaceholder c = (p, c')" by (cases "clockPlaceholder c")
  from st have "s \<in> set fixed_texts" "t \<in> set fixed_texts"
    using rule_fields_fixed [OF f] by auto
  then have "compiled c ([Txt s] @ [Ph p] @ [Txt t]) c'"
    using compiled_frame [OF compiled_clock [OF c p], of "[Txt s]" "[Txt t]"] by simp
  with col st p show ?thesis by (auto simp: subst_clock_def)
qed

lemma compare_compiled:
  assumes "clock_ok c" "compare f op t v c = Inr (fs, c')"
  shows "compiled c fs c'"
proof -
  from assms(2) obtain def sqlOp where f: "rule_fields f = Some def" and op: "operators op = Some sqlOp"
    by (auto simp: compare_def split: option.splits)
  obtain column c1 where col: "(if ClockParam \<in> set (f_sql def)
      then let (p, c') = clockPlaceholder c in (subst_clock p (f_sql def), c')
      else (f_sql def, c)) = (column, c1)" by fastforce
  obtain p c2 where p: "bind_arg (if f_kind def = NumberField then ANumber v else AText t) c1 = (p, c2)"
    by fastforce
  have colc: "compiled c column c1" by (rule compiled_column [OF f assms(1) col])
  have "compiled c (column @ [Txt '' '', Txt sqlOp, Txt '' ''] @ [Ph p]) c2"
    using compiled_append [OF colc compiled_bind [OF compiled_clock_ok [OF colc] p],
        of "[Txt '' '', Txt sqlOp, Txt '' '']"] operators_fixed [OF op] by simp
  then have "compiled c ([Txt ''(''] @ (column @ [Txt '' '', Txt sqlOp, Txt '' ''] @ [Ph p]) @ [Txt '')'']) c2"
    by (rule compiled_frame) simp
  with assms(2) f op col p show ?thesis by (simp add: compare_def)
qed

lemma hasSoftware_compiled:
  assumes c: "clock_ok c" and eq: "hasSoftware n op v c = Inr (fs, c')"
  shows "compiled c fs c'"
proof -
  let ?ex = "''EXISTS (SELECT 1 FROM device_software s WHERE s.device_id = d.id AND lower(s.name) = lower(''"
  obtain pn c1 where p: "bind_arg (AText n) c = (pn, c1)" by fastforce
  let ?b = "[Txt ?ex] @ [Ph pn] @ [Txt '')'']"
  have b: "compiled c ?b c1" by (rule compiled_frame [OF compiled_bind [OF c p]]) simp
  show ?thesis
  proof (cases "op = []")
    case True
    have "compiled c ([] @ ?b @ [Txt '')'']) c1" by (rule compiled_frame [OF b]) simp
    with True eq p show ?thesis by (simp add: hasSoftware_def)
  next
    case False
    then obtain sqlOp where op: "operators op = Some sqlOp"
      using eq by (auto simp: hasSoftware_def Let_def split: option.splits prod.splits)
    obtain pv c2 where v: "bind_arg (AText v) c1 = (pv, c2)" by fastforce
    have pvc: "compiled c1 [Ph pv] c2" by (rule compiled_bind [OF compiled_clock_ok [OF b] v])
    then have da: "compiled c1 (dottedArray (Ph pv)) c2"
      using dottedArray_ok [of "length (c_args c2)" "Ph pv"]
      by (auto simp: compiled_def dottedArray_def)
    have sv: "frag_ok 0 x" if "x \<in> set (dottedArray (Txt ''s.version''))" for x
      using dottedArray_ok [OF _ that, of 0] by simp
    have ord: "compiled c (?b @ ([Txt '' AND ''] @ dottedArray (Txt ''s.version'')
        @ [Txt '' '', Txt sqlOp, Txt '' '']) @ dottedArray (Ph pv)) c2"
      by (rule compiled_append [OF b da]) (use operators_fixed [OF op] sv in auto)
    have eqv: "compiled c (?b @ [Txt '' AND s.version '', Txt sqlOp, Txt '' ''] @ [Ph pv]) c2"
      by (rule compiled_append [OF b pvc]) (use operators_fixed [OF op] in auto)
    show ?thesis
      using compiled_frame [OF ord, of "[]" "[Txt '')'']"] compiled_frame [OF eqv, of "[]" "[Txt '')'']"]
        False op v p eq
      by (auto simp: hasSoftware_def Let_def split: if_splits)
  qed
qed

lemma compile_compiled: "compile n c = Inr (fs, c') \<Longrightarrow> clock_ok c \<Longrightarrow> compiled c fs c'"
proof (induction n arbitrary: c fs c')
  case (AndN a b)
  then obtain l c1 r where l: "compile a c = Inr (l, c1)" and r: "compile b c1 = Inr (r, c')"
    and fs: "fs = [Txt ''(''] @ (l @ [Txt '' '', Txt ''AND'', Txt '' ''] @ r) @ [Txt '')'']"
    by (auto simp: bindE_eq_Inr)
  have lc: "compiled c l c1" by (rule AndN.IH(1) [OF l AndN.prems(2)])
  have rc: "compiled c1 r c'" by (rule AndN.IH(2) [OF r compiled_clock_ok [OF lc]])
  show ?case unfolding fs by (rule compiled_frame [OF compiled_append [OF lc rc]]) simp_all
next
  case (OrN a b)
  then obtain l c1 r where l: "compile a c = Inr (l, c1)" and r: "compile b c1 = Inr (r, c')"
    and fs: "fs = [Txt ''(''] @ (l @ [Txt '' '', Txt ''OR'', Txt '' ''] @ r) @ [Txt '')'']"
    by (auto simp: bindE_eq_Inr)
  have lc: "compiled c l c1" by (rule OrN.IH(1) [OF l OrN.prems(2)])
  have rc: "compiled c1 r c'" by (rule OrN.IH(2) [OF r compiled_clock_ok [OF lc]])
  show ?case unfolding fs by (rule compiled_frame [OF compiled_append [OF lc rc]]) simp_all
next
  case (NotN a)
  then obtain i where i: "compile a c = Inr (i, c')"
    and fs: "fs = [Txt ''(NOT COALESCE(''] @ i @ [Txt '', false))'']"
    by (auto simp: bindE_eq_Inr)
  show ?case unfolding fs by (rule compiled_frame [OF NotN.IH [OF i NotN.prems(2)]]) simp
qed (auto intro: compare_compiled hasSoftware_compiled)

section \<open>Compiling a well-formed rule\<close>

lemma compare_total: "wf_node (CompareN f op t v) \<Longrightarrow> is_ok (compare f op t v c)"
  by (auto simp: compare_def Let_def split: option.splits prod.splits)

lemma hasSoftware_total: "wf_node (HasSoftwareN n op v) \<Longrightarrow> is_ok (hasSoftware n op v c)"
  by (auto simp: hasSoftware_def Let_def split: option.splits prod.splits)

lemma compile_total: "wf_node n \<Longrightarrow> is_ok (compile n c)"
proof (induction n arbitrary: c)
  case (AndN a b)
  then show ?case by (auto intro!: is_ok_bindE)
next
  case (OrN a b)
  then show ?case by (auto intro!: is_ok_bindE)
next
  case (NotN a)
  then show ?case by (auto intro!: is_ok_bindE)
qed (simp_all add: compare_total hasSoftware_total del: wf_node.simps)

lemma Compile_compiled:
  assumes "Compile n tenant now = Inr (fs, as)"
  shows "placeholders fs = {1 .. length as} \<and> (\<forall>s. Txt s \<in> set fs \<longrightarrow> s \<in> set fixed_texts) \<and> ClockParam \<notin> set fs"
proof -
  let ?c = "\<lparr>c_args = [ATenant tenant], c_now = now, c_clock = None\<rparr>"
  from assms obtain w c where w: "compile n ?c = Inr (w, c)" and as: "as = c_args c"
    and fs: "fs = [Txt query_head, Ph 1, Txt query_mid] @ w @ [Txt '')'']"
    by (auto simp: Compile_def bindE_eq_Inr)
  have cc: "compiled ?c w c" by (rule compile_compiled [OF w]) (simp add: clock_ok_def)
  then have "placeholders w \<subseteq> {1 .. length (c_args c)}"
    by (force simp: compiled_def placeholders_def)
  moreover have "{2 .. length (c_args c)} \<subseteq> placeholders w" "1 \<le> length (c_args c)"
    using cc by (auto simp: compiled_def)
  moreover have "{1 .. length (c_args c)} = insert 1 {2 .. length (c_args c)}"
    using calculation(3) by auto
  ultimately have "placeholders fs = {1 .. length as}" unfolding fs as by auto
  moreover have "\<forall>s. Txt s \<in> set fs \<longrightarrow> s \<in> set fixed_texts"
    using cc by (auto simp: fs compiled_def dest: bspec)
  moreover have "ClockParam \<notin> set fs" using cc by (auto simp: fs compiled_def dest: bspec)
  ultimately show ?thesis by blast
qed

text \<open>C36. A rule the parser accepts always compiles, its query text is made of pieces of a
  fixed vocabulary and numbered placeholders only - the mark that stands for the time of the evaluation
  in a field's text is replaced by a placeholder everywhere - and the placeholders used are exactly
  the numbers of the bound arguments: every argument is referred to and nothing else is.\<close>

theorem accepted_rule_compiles:
  assumes "Parse rule = Some (Inr n)"
  shows "\<exists>fs as. Compile n tenant now = Inr (fs, as) \<and> placeholders fs = {1 .. length as}
           \<and> (\<forall>s. Txt s \<in> set fs \<longrightarrow> s \<in> set fixed_texts) \<and> ClockParam \<notin> set fs"
proof -
  have "is_ok (compile n \<lparr>c_args = [ATenant tenant], c_now = now, c_clock = None\<rparr>)"
    using assms by (auto simp: Parse_wf_aux intro: compile_total)
  then obtain fs as where "Compile n tenant now = Inr (fs, as)"
    by (auto simp: Compile_def is_ok_iff)
  with Compile_compiled show ?thesis by blast
qed

theorem accepted_rule_compiles_witness:
  "\<exists>fs as. Compile (CompareN ''last_seen_days'' ''>'' [] (7, 0)) ''t'' 0 = Inr (fs, as)
     \<and> placeholders fs = {1 .. length as} \<and> (\<forall>s. Txt s \<in> set fs \<longrightarrow> s \<in> set fixed_texts) \<and> ClockParam \<notin> set fs"
proof -
  have "Parse ''last_seen_days > 7'' = Some (Inr (CompareN ''last_seen_days'' ''>'' [] (7, 0)))" by code_simp
  from accepted_rule_compiles [OF this, of "''t''" 0] show ?thesis .
qed

section \<open>The text does not depend on the literals\<close>

fun same_shape :: "node \<Rightarrow> node \<Rightarrow> bool" where
  "same_shape (AndN a b) (AndN a' b') = (same_shape a a' \<and> same_shape b b')"
| "same_shape (OrN a b) (OrN a' b') = (same_shape a a' \<and> same_shape b b')"
| "same_shape (NotN a) (NotN a') = same_shape a a'"
| "same_shape (CompareN f op t v) (CompareN f' op' t' v') = (f = f' \<and> op = op')"
| "same_shape (HasSoftwareN n op v) (HasSoftwareN n' op' v') = (op = op')"
| "same_shape _ _ = False"

definition alike :: "compiler \<Rightarrow> compiler \<Rightarrow> bool" where
  "alike c d \<longleftrightarrow> length (c_args c) = length (c_args d) \<and> c_clock c = c_clock d"

lemma alike_bind:
  "alike c d \<Longrightarrow> fst (bind_arg v c) = fst (bind_arg w d) \<and> alike (snd (bind_arg v c)) (snd (bind_arg w d))"
  by (simp add: alike_def bind_arg_def)

lemma alike_clock:
  "alike c d \<Longrightarrow> fst (clockPlaceholder c) = fst (clockPlaceholder d)
     \<and> alike (snd (clockPlaceholder c)) (snd (clockPlaceholder d))"
  by (auto simp: alike_def clockPlaceholder_def bind_arg_def split: option.splits)

lemma alike_compare:
  assumes "alike c d" "compare f op t v c = Inr (fs, c')"
  shows "\<exists>d'. compare f op t' v' d = Inr (fs, d') \<and> alike c' d'"
proof -
  from assms(2) obtain def sqlOp where f: "rule_fields f = Some def" and op: "operators op = Some sqlOp"
    by (auto simp: compare_def split: option.splits)
  show ?thesis
    using assms f op alike_clock [OF assms(1)]
    by (auto simp: compare_def Let_def bind_arg_def alike_def split: prod.splits if_splits)
qed

lemma alike_hasSoftware:
  assumes "alike c d" "hasSoftware n op v c = Inr (fs, c')"
  shows "\<exists>d'. hasSoftware n' op v' d = Inr (fs, d') \<and> alike c' d'"
  using assms
  by (auto simp: hasSoftware_def Let_def bind_arg_def alike_def split: option.splits if_splits)

lemma alike_compile:
  "same_shape n m \<Longrightarrow> alike c d \<Longrightarrow> compile n c = Inr (fs, c')
   \<Longrightarrow> \<exists>d'. compile m d = Inr (fs, d') \<and> alike c' d'"
proof (induction n m arbitrary: c d fs c' rule: same_shape.induct)
  case (1 a b a' b')
  obtain l c1 r where l: "compile a c = Inr (l, c1)" and r: "compile b c1 = Inr (r, c')"
    and fs: "fs = [Txt ''(''] @ l @ [Txt '' '', Txt ''AND'', Txt '' ''] @ r @ [Txt '')'']"
    using "1.prems"(3) by (auto simp: bindE_eq_Inr)
  from "1.prems" have sh: "same_shape a a'" "same_shape b b'" by simp_all
  obtain d1 where d1: "compile a' d = Inr (l, d1)" "alike c1 d1"
    using "1.IH"(1) [OF sh(1) "1.prems"(2) l] by blast
  obtain d2 where "compile b' d1 = Inr (r, d2)" "alike c' d2"
    using "1.IH"(2) [OF sh(2) d1(2) r] by blast
  with d1 show ?case by (simp add: fs)
next
  case (2 a b a' b')
  obtain l c1 r where l: "compile a c = Inr (l, c1)" and r: "compile b c1 = Inr (r, c')"
    and fs: "fs = [Txt ''(''] @ l @ [Txt '' '', Txt ''OR'', Txt '' ''] @ r @ [Txt '')'']"
    using "2.prems"(3) by (auto simp: bindE_eq_Inr)
  from "2.prems" have sh: "same_shape a a'" "same_shape b b'" by simp_all
  obtain d1 where d1: "compile a' d = Inr (l, d1)" "alike c1 d1"
    using "2.IH"(1) [OF sh(1) "2.prems"(2) l] by blast
  obtain d2 where "compile b' d1 = Inr (r, d2)" "alike c' d2"
    using "2.IH"(2) [OF sh(2) d1(2) r] by blast
  with d1 show ?case by (simp add: fs)
next
  case (3 a a')
  obtain i where i: "compile a c = Inr (i, c')"
    and fs: "fs = [Txt ''(NOT COALESCE(''] @ i @ [Txt '', false))'']"
    using "3.prems"(3) by (auto simp: bindE_eq_Inr)
  from "3.prems" have sh: "same_shape a a'" by simp
  obtain d' where "compile a' d = Inr (i, d')" "alike c' d'"
    using "3.IH" [OF sh "3.prems"(2) i] by blast
  then show ?case by (simp add: fs)
next
  case (4 f op t v f' op' t' v')
  then show ?case using alike_compare by auto
next
  case (5 n op v n' op' v')
  then show ?case using alike_hasSoftware by auto
qed simp_all

text \<open>Nothing an administrator types reaches the SQL as text: two rules that differ only
  in their literals (quoted values, numbers, package names, versions), compiled for any
  tenants and times, give the same query text and the same number of arguments.\<close>

theorem query_text_ignores_literals:
  assumes "same_shape n m" "Compile n tenant now = Inr (fs, as)"
  shows "\<exists>bs. Compile m tenant' now' = Inr (fs, bs) \<and> length bs = length as"
proof -
  let ?c = "\<lparr>c_args = [ATenant tenant], c_now = now, c_clock = None\<rparr>"
  let ?d = "\<lparr>c_args = [ATenant tenant'], c_now = now', c_clock = None\<rparr>"
  from assms(2) obtain w c where w: "compile n ?c = Inr (w, c)" "as = c_args c"
    "fs = [Txt query_head, Ph 1, Txt query_mid] @ w @ [Txt '')'']"
    by (auto simp: Compile_def bindE_eq_Inr)
  have "alike ?c ?d" by (simp add: alike_def)
  from alike_compile [OF assms(1) this w(1)]
  obtain d where "compile m ?d = Inr (w, d)" "alike c d" by blast
  with w show ?thesis by (simp add: Compile_def alike_def)
qed

theorem query_text_ignores_literals_witness:
  "\<exists>bs. Compile (CompareN ''model'' ''='' ''x; DROP TABLE devices'' (0, 0)) ''t'' 1
      = Inr (fst (projr (Compile (CompareN ''model'' ''='' ''A'' (0, 0)) ''t'' 0)), bs)
    \<and> length bs = length (snd (projr (Compile (CompareN ''model'' ''='' ''A'' (0, 0)) ''t'' 0)))"
  by (rule query_text_ignores_literals [of "CompareN ''model'' ''='' ''A'' (0, 0)" _ "''t''" 0])
     code_simp+

section \<open>The arguments are the literals\<close>

fun literals :: "node \<Rightarrow> arg list" where
  "literals (AndN a b) = literals a @ literals b"
| "literals (OrN a b) = literals a @ literals b"
| "literals (NotN a) = literals a"
| "literals (CompareN f op t v) =
     (case rule_fields f of
        Some def \<Rightarrow> [if f_kind def = NumberField then ANumber v else AText t] | None \<Rightarrow> [])"
| "literals (HasSoftwareN n op v) = AText n # (if op = [] then [] else [AText v])"

definition no_clock :: "arg list \<Rightarrow> arg list" where
  "no_clock as = filter (\<lambda>a. case a of ATime _ \<Rightarrow> False | _ \<Rightarrow> True) as"

lemma no_clock_simps [simp]:
  "no_clock [] = []" "no_clock (a @ b) = no_clock a @ no_clock b"
  "no_clock (ATime t # xs) = no_clock xs" "no_clock (ATenant u # xs) = ATenant u # no_clock xs"
  "no_clock (ANumber n # xs) = ANumber n # no_clock xs" "no_clock (AText s # xs) = AText s # no_clock xs"
  by (simp_all add: no_clock_def)

lemma compare_args:
  "compare f op t v c = Inr (fs, c')
   \<Longrightarrow> no_clock (c_args c') = no_clock (c_args c) @ literals (CompareN f op t v)"
  by (auto simp: compile_defs Let_def split: option.splits prod.splits if_splits)

lemma hasSoftware_args:
  "hasSoftware n op v c = Inr (fs, c')
   \<Longrightarrow> no_clock (c_args c') = no_clock (c_args c) @ literals (HasSoftwareN n op v)"
  by (auto simp: compile_defs Let_def split: option.splits if_splits)

lemma compile_args:
  "compile n c = Inr (fs, c') \<Longrightarrow> no_clock (c_args c') = no_clock (c_args c) @ literals n"
  by (induction n arbitrary: c fs c')
     (auto simp: bindE_eq_Inr compare_args hasSoftware_args simp del: literals.simps(4,5))

text \<open>The bound arguments are the tenant followed by the literals of the rule in the
  order they are written, apart from the evaluation time where a field asks for it.\<close>

theorem Compile_args:
  assumes "Compile n tenant now = Inr (fs, as)"
  shows "no_clock as = ATenant tenant # literals n"
  using assms compile_args [of n] by (auto simp: Compile_def bindE_eq_Inr)

theorem Compile_args_witness:
  "no_clock (snd (projr (Compile (CompareN ''model'' ''='' ''A'' (0, 0)) ''t'' 0)))
     = ATenant ''t'' # literals (CompareN ''model'' ''='' ''A'' (0, 0))"
  by (rule Compile_args [where now = 0
        and fs = "fst (projr (Compile (CompareN ''model'' ''='' ''A'' (0, 0)) ''t'' 0))"]) code_simp

end
