(* ===== verification/Json.thy ===== *)
theory Json
  imports Retune_Prelude "HOL-Library.List_Lexorder" "HOL-Library.Char_ord"
begin

text \<open>
  The part of Go's \<^verbatim>\<open>encoding/json\<close> the modelled packages use, on decoded documents: a
  document is a tree whose numbers are kept as the literal text, and \<open>None\<close> stands for text
  that is no JSON at all. Each \<^verbatim>\<open>unmarshal\<close> function below is \<^verbatim>\<open>json.Unmarshal\<close> into one
  Go type; JSON \<^verbatim>\<open>null\<close> leaves the destination at its zero value, as in Go. A Go map is an
  association list with distinct keys in key order, the order in which Go encodes it.
\<close>

datatype json = JNull | JBool bool | JNum string | JStr string | JArr "json list"
  | JObj "(string \<times> json) list"

text \<open>Of repeated keys the last one wins.\<close>

fun last_wins :: "('k \<times> 'v) list \<Rightarrow> ('k \<times> 'v) list" where
  "last_wins [] = []"
| "last_wins ((k, v) # r) = (if k \<in> fst ` set r then last_wins r else (k, v) # last_wins r)"

definition go_map :: "(string \<times> 'v) list \<Rightarrow> (string \<times> 'v) list" where
  "go_map kvs = sort_key fst (last_wins kvs)"

definition is_go_map :: "(string \<times> 'v) list \<Rightarrow> bool" where
  "is_go_map m \<longleftrightarrow> sorted (map fst m) \<and> distinct (map fst m)"

definition unmarshal_string :: "json \<Rightarrow> string option" where
  "unmarshal_string j = (case j of JStr s \<Rightarrow> Some s | JNull \<Rightarrow> Some [] | _ \<Rightarrow> None)"

definition unmarshal_int :: "json \<Rightarrow> int option" where
  "unmarshal_int j = (case j of JNum n \<Rightarrow> atoi n | JNull \<Rightarrow> Some 0 | _ \<Rightarrow> None)"

definition unmarshal_bool :: "json \<Rightarrow> bool option" where
  "unmarshal_bool j = (case j of JBool b \<Rightarrow> Some b | JNull \<Rightarrow> Some False | _ \<Rightarrow> None)"

definition unmarshal_array :: "json \<Rightarrow> json list option" where
  "unmarshal_array j = (case j of JArr xs \<Rightarrow> Some xs | JNull \<Rightarrow> Some [] | _ \<Rightarrow> None)"

definition unmarshal_object :: "json \<Rightarrow> (string \<times> json) list option" where
  "unmarshal_object j = (case j of JObj kvs \<Rightarrow> Some (go_map kvs) | JNull \<Rightarrow> Some [] | _ \<Rightarrow> None)"

fun all_some :: "'a option list \<Rightarrow> 'a list option" where
  "all_some [] = Some []"
| "all_some (None # xs) = None"
| "all_some (Some x # xs) = map_option (Cons x) (all_some xs)"

definition unmarshal_strings :: "json \<Rightarrow> string list option" where
  "unmarshal_strings j =
     (case unmarshal_array j of None \<Rightarrow> None | Some xs \<Rightarrow> all_some (map unmarshal_string xs))"

definition unmarshal_string_map :: "json \<Rightarrow> (string \<times> string) list option" where
  "unmarshal_string_map j =
     (case unmarshal_object j of
        None \<Rightarrow> None
      | Some kvs \<Rightarrow>
          map_option (zip (map fst kvs)) (all_some (map (unmarshal_string \<circ> snd) kvs)))"

lemma last_wins_keys: "fst ` set (last_wins kvs) = fst ` set kvs"
  by (induction kvs rule: last_wins.induct) auto

lemma last_wins_distinct: "distinct (map fst (last_wins kvs))"
proof (induction kvs rule: last_wins.induct)
  case (2 k v r)
  then show ?case using last_wins_keys [of r] by auto
qed simp

lemma last_wins_id: "distinct (map fst kvs) \<Longrightarrow> last_wins kvs = kvs"
  by (induction kvs rule: last_wins.induct) auto

lemma go_map_is_map: "is_go_map (go_map kvs)"
  by (simp add: is_go_map_def go_map_def last_wins_distinct distinct_map_filter
      distinct_map inj_on_def)
     (metis distinct_map inj_onD last_wins_distinct)

lemma go_map_id: "is_go_map m \<Longrightarrow> go_map m = m"
  by (simp add: is_go_map_def go_map_def last_wins_id sort_key_id_if_sorted)

lemma go_map_keys: "fst ` set (go_map kvs) = fst ` set kvs"
  by (simp add: go_map_def last_wins_keys)

lemma all_some_map_Some: "all_some (map (\<lambda>x. Some (f x)) xs) = Some (map f xs)"
  by (induction xs) auto

lemma all_some_length: "all_some xs = Some ys \<Longrightarrow> length ys = length xs"
  by (induction xs arbitrary: ys rule: all_some.induct) auto

lemma unmarshal_simps [simp]:
  "unmarshal_string (JStr s) = Some s"
  "unmarshal_int (JNum n) = atoi n"
  "unmarshal_array (JArr xs) = Some xs"
  by (simp_all add: unmarshal_string_def unmarshal_int_def unmarshal_array_def)

lemma unmarshal_strings_JStr [simp]: "unmarshal_strings (JArr (map JStr xs)) = Some xs"
  by (simp add: unmarshal_strings_def comp_def all_some_map_Some)

lemma unmarshal_string_map_JStr:
  assumes "is_go_map m"
  shows "unmarshal_string_map (JObj (map (\<lambda>(k, v). (k, JStr v)) m)) = Some m"
proof -
  let ?o = "map (\<lambda>(k, v). (k, JStr v)) m"
  have k: "map fst ?o = map fst m" by (induction m) auto
  have "is_go_map ?o" using assms unfolding is_go_map_def k .
  then have "go_map ?o = ?o" by (rule go_map_id)
  moreover have "map (unmarshal_string \<circ> snd) ?o = map (\<lambda>x. Some (snd x)) m"
    by (induction m) auto
  ultimately show ?thesis
    unfolding unmarshal_string_map_def unmarshal_object_def
    by (simp only: json.case option.case k all_some_map_Some option.map zip_map_fst_snd)
qed

end
