(* ===== verification/Compliance_Rules.thy ===== *)
theory Compliance_Rules
  imports Json
begin

text \<open>
  The rules of a compliance policy (\<^verbatim>\<open>src/internal/server/compliance/rules.go\<close>, first half):
  dotted version numbers (\<^verbatim>\<open>splitDotted\<close>, \<^verbatim>\<open>dottedNumeric\<close>,
  \<^verbatim>\<open>CompareDotted\<close>), the strict parser (\<^verbatim>\<open>ParseRules\<close>, \<^verbatim>\<open>parseRule\<close> and its
  field readers) and the canonical encoding (\<^verbatim>\<open>MarshalJSON\<close>, \<^verbatim>\<open>MarshalRules\<close>). The
  theorems: the comparison is the lexicographic order of the zero-padded segments; every
  rule the parser returns is within its bounds; and parsing the encoding of parsed rules
  gives the same rules back.

  UUIDs belong to a third-party package: \<^verbatim>\<open>uuid.Parse\<close> and \<^verbatim>\<open>UUID.String\<close> are the
  parameters \<open>uuid_parse\<close> and \<open>uuid_string\<close>.
\<close>

section \<open>Dotted version numbers\<close>

definition splitDotted :: "string \<Rightarrow> int list option" where
  "splitDotted s =
     (if s = [] then None
      else all_some (map (\<lambda>p. if p = [] \<or> \<not> list_all is_digit p then None else atoi p)
                         (split_on (CHR ''.'') s)))"

definition dottedNumeric :: "string \<Rightarrow> bool" where
  "dottedNumeric s \<longleftrightarrow> splitDotted s \<noteq> None"

definition seg :: "int list \<Rightarrow> nat \<Rightarrow> int" where
  "seg xs i = (if i < length xs then xs ! i else 0)"

fun compareSegments :: "int list \<Rightarrow> int list \<Rightarrow> nat list \<Rightarrow> int" where
  "compareSegments as bs [] = 0"
| "compareSegments as bs (i # is) =
     (let av = seg as i; bv = seg bs i in
      if av \<noteq> bv then (if av < bv then -1 else 1) else compareSegments as bs is)"

definition CompareDotted :: "string \<Rightarrow> string \<Rightarrow> int option" where
  "CompareDotted a b =
     (case splitDotted a of
        None \<Rightarrow> None
      | Some as \<Rightarrow>
          (case splitDotted b of
             None \<Rightarrow> None
           | Some bs \<Rightarrow>
               let n = (if length bs > length as then length bs else length as) in
               Some (compareSegments as bs [0..<n])))"

section \<open>Rules\<close>

abbreviation "RuleOSBuildMin \<equiv> ''os_build_min''"
abbreviation "RuleOSBuildMinPerRelease \<equiv> ''os_build_min_per_release''"
abbreviation "RuleAgentVersionMin \<equiv> ''agent_version_min''"
abbreviation "RuleBitLocker \<equiv> ''bitlocker''"
abbreviation "RuleTPM \<equiv> ''tpm''"
abbreviation "RuleCheckedInWithin \<equiv> ''checked_in_within''"
abbreviation "RuleInventoryWithin \<equiv> ''inventory_within''"
abbreviation "RuleUpdatesWithin \<equiv> ''updates_within''"
abbreviation "RuleNoPendingReboot \<equiv> ''no_pending_reboot''"
abbreviation "RuleMaxLocalAdmins \<equiv> ''max_local_admins''"
abbreviation "RuleForbiddenSoftware \<equiv> ''forbidden_software''"
abbreviation "RuleRequiredSoftware \<equiv> ''required_software''"
abbreviation "RuleProfileApplied \<equiv> ''profile_applied''"
abbreviation "RuleDefenderRealtime \<equiv> ''defender_realtime''"
abbreviation "RuleDefenderSignaturesWithin \<equiv> ''defender_signatures_within''"
abbreviation "RuleFirewallEnabled \<equiv> ''firewall_enabled''"
abbreviation "RuleMaxMissingSecurityUpdates \<equiv> ''max_missing_security_updates''"

abbreviation "VolumesSystem \<equiv> ''system''"
abbreviation "VolumesAll \<equiv> ''all''"

definition firewallProfiles :: "string list" where
  "firewallProfiles = [''domain'', ''private'', ''public'']"

abbreviation "MinSignatureDays \<equiv> 1 :: int"
abbreviation "MaxSignatureDays \<equiv> 30 :: int"
abbreviation "MinHours \<equiv> 1 :: int"
abbreviation "MaxHours \<equiv> 8760 :: int"
abbreviation "MinDays \<equiv> 1 :: int"
abbreviation "MaxDays \<equiv> 365 :: int"
abbreviation "MinAdmins \<equiv> 0 :: int"
abbreviation "MaxAdmins \<equiv> 100 :: int"
abbreviation "MinNameLen \<equiv> 1 :: nat"
abbreviation "MaxNameLen \<equiv> 200 :: nat"
abbreviation "MinRules \<equiv> 1 :: nat"
abbreviation "MaxRules \<equiv> 50 :: nat"

definition nil_uuid :: uuid where "nil_uuid = replicate 16 (CHR 0x00)"

record rule =
  r_type :: string
  r_build :: string
  r_minimums :: "(string \<times> string) list"
  r_version :: string
  r_volumes :: string
  r_min_version :: string
  r_hours :: int
  r_days :: int
  r_count :: int
  r_name :: string
  r_profile_id :: uuid
  r_profiles :: "string list"

definition zero_rule :: "string \<Rightarrow> rule" where
  "zero_rule t = \<lparr>r_type = t, r_build = [], r_minimums = [], r_version = [], r_volumes = [],
     r_min_version = [], r_hours = 0, r_days = 0, r_count = 0, r_name = [],
     r_profile_id = nil_uuid, r_profiles = []\<rparr>"

text \<open>Every \<^verbatim>\<open>ErrBadRules\<close> of the parser. Where Go ranges over a map to find a field that
  does not apply, it names one of them at random: the value carries them all.\<close>

datatype rules_error =
    NotJSON
  | RuleCount nat
  | NeedsType
  | TypeNotString
  | UnsupportedType string
  | FieldsDoNotApply "string list" string
  | NotAString string
  | NotAWholeNumber string
  | Required string
  | NotDottedNumeric string string
  | MinimumsNotAMap
  | MinimumsCount nat
  | BadMinimums
  | BadVolumes string
  | OutOfBounds string int
  | NameLength nat
  | NotAUUID string
  | ProfilesNotStrings
  | NoProfiles
  | NotAFirewallProfile string
  | InRule nat rules_error

definition allowedFields :: "string \<Rightarrow> string list option" where
  "allowedFields ruleType =
     (if ruleType = RuleOSBuildMin then Some [''build'']
      else if ruleType = RuleOSBuildMinPerRelease then Some [''minimums'']
      else if ruleType = RuleAgentVersionMin then Some [''version'']
      else if ruleType = RuleBitLocker then Some [''volumes'']
      else if ruleType = RuleTPM then Some [''min_version'']
      else if ruleType \<in> {RuleCheckedInWithin, RuleInventoryWithin} then Some [''hours'']
      else if ruleType = RuleUpdatesWithin then Some [''days'']
      else if ruleType = RuleNoPendingReboot then Some []
      else if ruleType \<in> {RuleMaxLocalAdmins, RuleMaxMissingSecurityUpdates} then Some [''count'']
      else if ruleType \<in> {RuleForbiddenSoftware, RuleRequiredSoftware} then Some [''name'']
      else if ruleType = RuleProfileApplied then Some [''profile_id'']
      else if ruleType = RuleDefenderRealtime then Some []
      else if ruleType = RuleDefenderSignaturesWithin then Some [''days'']
      else if ruleType = RuleFirewallEnabled then Some [''profiles'']
      else None)"

type_synonym raw_fields = "(string \<times> json) list"

definition stringField :: "raw_fields \<Rightarrow> string \<Rightarrow> rules_error + string \<times> bool" where
  "stringField m key =
     (case map_of m key of
        None \<Rightarrow> Inr ([], False)
      | Some raw \<Rightarrow>
          (case unmarshal_string raw of
             None \<Rightarrow> Inl (NotAString key)
           | Some value \<Rightarrow> Inr (value, True)))"

definition intField :: "raw_fields \<Rightarrow> string \<Rightarrow> rules_error + int \<times> bool" where
  "intField m key =
     (case map_of m key of
        None \<Rightarrow> Inr (0, False)
      | Some raw \<Rightarrow>
          (case unmarshal_int raw of
             None \<Rightarrow> Inl (NotAWholeNumber key)
           | Some value \<Rightarrow> Inr (value, True)))"

definition minimum_ok :: "string \<times> string \<Rightarrow> bool" where
  "minimum_ok e = (case e of (base, mn) \<Rightarrow>
     (case splitDotted mn of
        None \<Rightarrow> False
      | Some parts \<Rightarrow> length parts = 2 \<and> dottedNumeric base \<and> \<not> contains base ''.''
                      \<and> prefix (base @ ''.'') mn))"

text \<open>The bounds check the hours, days and count branches share.\<close>

definition boundedField ::
  "raw_fields \<Rightarrow> string \<Rightarrow> int \<Rightarrow> int \<Rightarrow> rules_error + int" where
  "boundedField m key lo hi =
     bindE (intField m key) (\<lambda>(v, present).
       if \<not> present \<or> v < lo \<or> v > hi then Inl (OutOfBounds key v) else Inr v)"

definition parseFirewall :: "raw_fields \<Rightarrow> string \<Rightarrow> rules_error + rule" where
  "parseFirewall m ruleType =
     (case map_of m ''profiles'' of
        None \<Rightarrow> Inr (zero_rule ruleType)
      | Some raw \<Rightarrow>
          (case unmarshal_strings raw of
             None \<Rightarrow> Inl ProfilesNotStrings
           | Some profiles \<Rightarrow>
               if profiles = [] then Inl NoProfiles
               else (case find (\<lambda>n. n \<notin> set firewallProfiles) profiles of
                       Some n \<Rightarrow> Inl (NotAFirewallProfile n)
                     | None \<Rightarrow> Inr ((zero_rule ruleType)
                                     \<lparr>r_profiles := foldl add_new [] profiles\<rparr>))))"

definition parseMinimums :: "raw_fields \<Rightarrow> string \<Rightarrow> rules_error + rule" where
  "parseMinimums m ruleType =
     (case map_of m ''minimums'' of
        None \<Rightarrow> Inl (Required ''minimums'')
      | Some raw \<Rightarrow>
          (case unmarshal_string_map raw of
             None \<Rightarrow> Inl MinimumsNotAMap
           | Some minimums \<Rightarrow>
               if length minimums < 1 \<or> length minimums > 20
               then Inl (MinimumsCount (length minimums))
               else if \<not> list_all minimum_ok minimums then Inl BadMinimums
               else Inr ((zero_rule ruleType)\<lparr>r_minimums := minimums\<rparr>)))"

text \<open>The switch of \<^verbatim>\<open>parseRule\<close> over the fields left once \<^verbatim>\<open>type\<close> is read and removed.\<close>

definition parseParams ::
  "(string \<Rightarrow> uuid option) \<Rightarrow> raw_fields \<Rightarrow> string \<Rightarrow> rules_error + rule" where
  "parseParams uuid_parse m ruleType =
     (if ruleType = RuleOSBuildMin then
        bindE (stringField m ''build'') (\<lambda>(build, _).
          if \<not> dottedNumeric build then Inl (NotDottedNumeric ''build'' build)
          else Inr ((zero_rule ruleType)\<lparr>r_build := build\<rparr>))
      else if ruleType = RuleOSBuildMinPerRelease then parseMinimums m ruleType
      else if ruleType = RuleAgentVersionMin then
        bindE (stringField m ''version'') (\<lambda>(version, _).
          if \<not> dottedNumeric version then Inl (NotDottedNumeric ''version'' version)
          else Inr ((zero_rule ruleType)\<lparr>r_version := version\<rparr>))
      else if ruleType = RuleBitLocker then
        bindE (stringField m ''volumes'') (\<lambda>(volumes, _).
          if volumes \<noteq> VolumesSystem \<and> volumes \<noteq> VolumesAll then Inl (BadVolumes volumes)
          else Inr ((zero_rule ruleType)\<lparr>r_volumes := volumes\<rparr>))
      else if ruleType = RuleTPM then
        bindE (stringField m ''min_version'') (\<lambda>(minVersion, present).
          if present \<and> minVersion \<noteq> [] \<and> \<not> dottedNumeric minVersion
          then Inl (NotDottedNumeric ''min_version'' minVersion)
          else Inr ((zero_rule ruleType)\<lparr>r_min_version := minVersion\<rparr>))
      else if ruleType \<in> {RuleCheckedInWithin, RuleInventoryWithin} then
        bindE (boundedField m ''hours'' MinHours MaxHours)
          (\<lambda>hours. Inr ((zero_rule ruleType)\<lparr>r_hours := hours\<rparr>))
      else if ruleType = RuleUpdatesWithin then
        bindE (boundedField m ''days'' MinDays MaxDays)
          (\<lambda>days. Inr ((zero_rule ruleType)\<lparr>r_days := days\<rparr>))
      else if ruleType = RuleNoPendingReboot then Inr (zero_rule ruleType)
      else if ruleType \<in> {RuleMaxLocalAdmins, RuleMaxMissingSecurityUpdates} then
        bindE (boundedField m ''count'' MinAdmins MaxAdmins)
          (\<lambda>count. Inr ((zero_rule ruleType)\<lparr>r_count := count\<rparr>))
      else if ruleType \<in> {RuleForbiddenSoftware, RuleRequiredSoftware} then
        bindE (stringField m ''name'') (\<lambda>(name, _).
          if length name < MinNameLen \<or> length name > MaxNameLen
          then Inl (NameLength (length name))
          else Inr ((zero_rule ruleType)\<lparr>r_name := name\<rparr>))
      else if ruleType = RuleProfileApplied then
        bindE (stringField m ''profile_id'') (\<lambda>(profileID, present).
          if \<not> present then Inl (Required ''profile_id'')
          else (case uuid_parse profileID of
                  None \<Rightarrow> Inl (NotAUUID profileID)
                | Some i \<Rightarrow> Inr ((zero_rule ruleType)\<lparr>r_profile_id := i\<rparr>)))
      else if ruleType = RuleDefenderRealtime then Inr (zero_rule ruleType)
      else if ruleType = RuleDefenderSignaturesWithin then
        bindE (boundedField m ''days'' MinSignatureDays MaxSignatureDays)
          (\<lambda>days. Inr ((zero_rule ruleType)\<lparr>r_days := days\<rparr>))
      else parseFirewall m ruleType)"

definition parseRule :: "(string \<Rightarrow> uuid option) \<Rightarrow> json \<Rightarrow> rules_error + rule" where
  "parseRule uuid_parse raw =
     (case unmarshal_object raw of
        None \<Rightarrow> Inl NotJSON
      | Some m \<Rightarrow>
          bindE (case map_of m ''type'' of
                   None \<Rightarrow> Inr []
                 | Some v \<Rightarrow> (case unmarshal_string v of
                                None \<Rightarrow> Inl TypeNotString
                              | Some s \<Rightarrow> Inr s))
            (\<lambda>ruleType.
               let m' = filter (\<lambda>(k, _). k \<noteq> ''type'') m in
               (case allowedFields ruleType of
                  None \<Rightarrow> if ruleType = [] then Inl NeedsType else Inl (UnsupportedType ruleType)
                | Some allowed \<Rightarrow>
                    let bad = filter (\<lambda>k. k \<notin> set allowed) (map fst m') in
                    if bad \<noteq> [] then Inl (FieldsDoNotApply bad ruleType)
                    else parseParams uuid_parse m' ruleType)))"

fun parseEach :: "(string \<Rightarrow> uuid option) \<Rightarrow> nat \<Rightarrow> json list \<Rightarrow> rules_error + rule list" where
  "parseEach uuid_parse i [] = Inr []"
| "parseEach uuid_parse i (m # ms) =
     (case parseRule uuid_parse m of
        Inl e \<Rightarrow> Inl (InRule (i + 1) e)
      | Inr r \<Rightarrow> bindE (parseEach uuid_parse (i + 1) ms) (\<lambda>rs. Inr (r # rs)))"

definition ParseRules ::
  "(string \<Rightarrow> uuid option) \<Rightarrow> json option \<Rightarrow> rules_error + rule list" where
  "ParseRules uuid_parse raw =
     (case (case raw of None \<Rightarrow> None | Some j \<Rightarrow> unmarshal_array j) of
        None \<Rightarrow> Inl NotJSON
      | Some msgs \<Rightarrow>
          if length msgs < MinRules \<or> length msgs > MaxRules then Inl (RuleCount (length msgs))
          else parseEach uuid_parse 0 msgs)"

text \<open>\<^verbatim>\<open>Rule.MarshalJSON\<close>: \<open>None\<close> is the error for an unsupported type.\<close>

definition marshalRule :: "(uuid \<Rightarrow> string) \<Rightarrow> rule \<Rightarrow> json option" where
  "marshalRule uuid_string r =
     (let obj = (\<lambda>fs. Some (JObj ((''type'', JStr (r_type r)) # fs))); t = r_type r in
      if t = RuleOSBuildMin then obj [(''build'', JStr (r_build r))]
      else if t = RuleOSBuildMinPerRelease then
        obj [(''minimums'', JObj (map (\<lambda>(k, v). (k, JStr v)) (r_minimums r)))]
      else if t = RuleAgentVersionMin then obj [(''version'', JStr (r_version r))]
      else if t = RuleBitLocker then obj [(''volumes'', JStr (r_volumes r))]
      else if t = RuleTPM then
        obj (if r_min_version r = [] then [] else [(''min_version'', JStr (r_min_version r))])
      else if t \<in> {RuleCheckedInWithin, RuleInventoryWithin} then
        obj [(''hours'', JNum (itoa (r_hours r)))]
      else if t = RuleUpdatesWithin then obj [(''days'', JNum (itoa (r_days r)))]
      else if t = RuleNoPendingReboot then obj []
      else if t \<in> {RuleMaxLocalAdmins, RuleMaxMissingSecurityUpdates} then
        obj [(''count'', JNum (itoa (r_count r)))]
      else if t \<in> {RuleForbiddenSoftware, RuleRequiredSoftware} then
        obj [(''name'', JStr (r_name r))]
      else if t = RuleProfileApplied then
        obj [(''profile_id'', JStr (uuid_string (r_profile_id r)))]
      else if t = RuleDefenderRealtime then obj []
      else if t = RuleDefenderSignaturesWithin then obj [(''days'', JNum (itoa (r_days r)))]
      else if t = RuleFirewallEnabled then
        obj (if r_profiles r = [] then [] else [(''profiles'', JArr (map JStr (r_profiles r)))])
      else None)"

definition MarshalRules :: "(uuid \<Rightarrow> string) \<Rightarrow> rule list \<Rightarrow> json option" where
  "MarshalRules uuid_string rules = map_option JArr (all_some (map (marshalRule uuid_string) rules))"


section \<open>The order of dotted versions\<close>

lemma compareSegments_0:
  "compareSegments as bs is = 0 \<longleftrightarrow> (\<forall>i \<in> set is. seg as i = seg bs i)"
  by (induction "as" bs "is" rule: compareSegments.induct) (auto simp: Let_def)

lemma compareSegments_sym: "compareSegments bs as is = - compareSegments as bs is"
  by (induction "as" bs "is" rule: compareSegments.induct) (auto simp: Let_def)

lemma compareSegments_range: "compareSegments as bs is \<in> {-1, 0, 1}"
  by (induction "as" bs "is" rule: compareSegments.induct) (auto simp: Let_def)

lemma compareSegments_less:
  "compareSegments as bs [j..<n] = -1 \<longleftrightarrow>
     (\<exists>k \<ge> j. k < n \<and> seg as k < seg bs k \<and> (\<forall>i. j \<le> i \<and> i < k \<longrightarrow> seg as i = seg bs i))"
  (is "_ \<longleftrightarrow> ?R j")
proof (induction "n - j" arbitrary: j)
  case (Suc d)
  then have jn: "j < n" and up: "[j..<n] = j # [Suc j..<n]" by (simp_all add: upt_conv_Cons)
  have IH: "compareSegments as bs [Suc j..<n] = -1 \<longleftrightarrow> ?R (Suc j)" using Suc by simp
  show ?case
  proof (cases "seg as j = seg bs j")
    case True
    have "?R j \<longleftrightarrow> ?R (Suc j)"
    proof
      assume "?R j"
      then obtain k where k: "k \<ge> j" "k < n" "seg as k < seg bs k"
        "\<forall>i. j \<le> i \<and> i < k \<longrightarrow> seg as i = seg bs i" by blast
      with True have "k \<noteq> j" by auto
      with k show "?R (Suc j)" by (intro exI [of _ k]) auto
    next
      assume "?R (Suc j)"
      then obtain k where k: "k \<ge> Suc j" "k < n" "seg as k < seg bs k"
        "\<forall>i. Suc j \<le> i \<and> i < k \<longrightarrow> seg as i = seg bs i" by blast
      with True have "\<forall>i. j \<le> i \<and> i < k \<longrightarrow> seg as i = seg bs i"
        by (metis le_antisym not_less_eq_eq)
      with k show "?R j" by (intro exI [of _ k]) auto
    qed
    with True up IH show ?thesis by simp
  next
    case False
    have "?R j \<longleftrightarrow> seg as j < seg bs j"
      using False jn by (metis le_neq_implies_less less_irrefl order_refl not_less)
    with False up show ?thesis by (auto simp: Let_def)
  qed
qed simp

lemma seg_beyond: "length xs \<le> i \<Longrightarrow> seg xs i = 0"
  by (simp add: seg_def)

definition lex_less :: "(nat \<Rightarrow> int) \<Rightarrow> (nat \<Rightarrow> int) \<Rightarrow> bool" where
  "lex_less f g \<longleftrightarrow> (\<exists>k. f k < g k \<and> (\<forall>i < k. f i = g i))"

lemma lex_less_trans: "lex_less f g \<Longrightarrow> lex_less g h \<Longrightarrow> lex_less f h"
proof -
  assume "lex_less f g" "lex_less g h"
  then obtain k l where k: "f k < g k" "\<forall>i < k. f i = g i" and l: "g l < h l" "\<forall>i < l. g i = h i"
    by (auto simp: lex_less_def)
  show "lex_less f h"
    unfolding lex_less_def
  proof (intro exI [of _ "min k l"] conjI allI impI)
    show "f (min k l) < h (min k l)"
      using k l by (cases "k < l"; cases "k = l") (auto simp: min_def)
    show "f i = h i" if "i < min k l" for i using k l that by simp
  qed
qed

lemma compareSegments_spec:
  assumes "length as \<le> n" "length bs \<le> n"
  shows "compareSegments as bs [0..<n] = 0 \<longleftrightarrow> seg as = seg bs"
    and "compareSegments as bs [0..<n] = -1 \<longleftrightarrow> lex_less (seg as) (seg bs)"
proof -
  have far: "seg as i = seg bs i" if "n \<le> i" for i
    using that assms by (simp add: seg_beyond)
  then show "compareSegments as bs [0..<n] = 0 \<longleftrightarrow> seg as = seg bs"
    by (auto simp: compareSegments_0 fun_eq_iff)
  show "compareSegments as bs [0..<n] = -1 \<longleftrightarrow> lex_less (seg as) (seg bs)"
    unfolding compareSegments_less lex_less_def
    using far by (metis less_irrefl linorder_not_le zero_le)
qed

lemma CompareDotted_spec:
  assumes "splitDotted a = Some as" "splitDotted b = Some bs"
  shows "CompareDotted a b = Some 0 \<longleftrightarrow> seg as = seg bs"
    and "CompareDotted a b = Some (-1) \<longleftrightarrow> lex_less (seg as) (seg bs)"
    and "CompareDotted a b = Some 1 \<longleftrightarrow> lex_less (seg bs) (seg as)"
proof -
  let ?n = "max (length as) (length bs)"
  have c: "CompareDotted a b = Some (compareSegments as bs [0..<?n])"
    using assms by (simp add: CompareDotted_def max_def Let_def)
  have sym: "compareSegments as bs [0..<?n] = 1 \<longleftrightarrow> compareSegments bs as [0..<?n] = -1"
    using compareSegments_sym [of bs "as"] by simp
  show "CompareDotted a b = Some 0 \<longleftrightarrow> seg as = seg bs"
    unfolding c using compareSegments_spec(1) [of "as" ?n bs] by simp
  show "CompareDotted a b = Some (-1) \<longleftrightarrow> lex_less (seg as) (seg bs)"
    unfolding c using compareSegments_spec(2) [of "as" ?n bs] by simp
  show "CompareDotted a b = Some 1 \<longleftrightarrow> lex_less (seg bs) (seg as)"
    unfolding c using compareSegments_spec(2) [of bs ?n "as"] sym by simp
qed

text \<open>
  Where both version strings are dotted numbers, \<^verbatim>\<open>CompareDotted\<close> decides the
  lexicographic order of their segments, the missing ones read as zero: it answers -1, 0 or
  1 exactly when the first string is below, equal to or above the second one in that order.
\<close>

theorem CompareDotted_lexicographic:
  assumes "splitDotted a = Some as" "splitDotted b = Some bs"
  shows "CompareDotted a b =
    Some (if seg as = seg bs then 0
          else if \<exists>k. seg as k < seg bs k \<and> (\<forall>i < k. seg as i = seg bs i) then -1 else 1)"
proof -
  obtain c where c: "CompareDotted a b = Some c" "c \<in> {-1, 0, 1}"
    using assms compareSegments_range by (simp add: CompareDotted_def Let_def)
  with CompareDotted_spec [OF assms] show ?thesis by (auto simp: lex_less_def)
qed

theorem CompareDotted_lexicographic_witness:
  "CompareDotted ''2.0'' ''10'' = Some (-1) \<and> CompareDotted ''26'' ''26.0'' = Some 0"
proof -
  have s: "splitDotted ''2.0'' = Some [2, 0]" "splitDotted ''10'' = Some [10]"
    by code_simp+
  have "(\<exists>k. seg [2, 0] k < seg [10] k \<and> (\<forall>i < k. seg [2, 0] i = seg [10] i))"
    by (intro exI [of _ 0]) (simp add: seg_def)
  moreover have "seg [2, 0] \<noteq> seg [10]" by (auto simp: fun_eq_iff seg_def)
  ultimately have "CompareDotted ''2.0'' ''10'' = Some (-1)"
    using CompareDotted_lexicographic [OF s] by simp
  moreover have "splitDotted ''26'' = Some [26]" "splitDotted ''26.0'' = Some [26, 0]"
    by code_simp+
  moreover have "seg [26] = seg [26, 0]" by (auto simp: fun_eq_iff seg_def nth_Cons')
  ultimately show ?thesis using CompareDotted_lexicographic by simp
qed

text \<open>
  \<^verbatim>\<open>CompareDotted\<close> is a total preorder on dotted numbers: swapping the arguments
  negates the answer, and being below or equal is transitive.
\<close>

theorem CompareDotted_order:
  assumes "dottedNumeric a" "dottedNumeric b" "dottedNumeric c"
  shows "\<exists>x y z. CompareDotted a b = Some x \<and> CompareDotted b a = Some (- x)
     \<and> CompareDotted b c = Some y \<and> CompareDotted a c = Some z
     \<and> (x \<le> 0 \<and> y \<le> 0 \<longrightarrow> z \<le> 0) \<and> (x \<le> 0 \<and> y \<le> 0 \<and> z = 0 \<longrightarrow> x = 0 \<and> y = 0)"
proof -
  obtain as bs cs where s: "splitDotted a = Some as" "splitDotted b = Some bs"
    "splitDotted c = Some cs" using assms by (auto simp: dottedNumeric_def)
  have tot: "\<exists>x. CompareDotted p q = Some x \<and> x \<in> {-1, 0, 1}"
    if "splitDotted p = Some ps" "splitDotted q = Some qs" for p q ps qs
    using that compareSegments_range by (simp add: CompareDotted_def Let_def)
  obtain x where x: "CompareDotted a b = Some x" "x \<in> {-1, 0, 1}" using tot [OF s(1,2)] by blast
  obtain x' where x': "CompareDotted b a = Some x'" "x' \<in> {-1, 0, 1}"
    using tot [OF s(2,1)] by blast
  obtain y where y: "CompareDotted b c = Some y" "y \<in> {-1, 0, 1}" using tot [OF s(2,3)] by blast
  obtain z where z: "CompareDotted a c = Some z" "z \<in> {-1, 0, 1}" using tot [OF s(1,3)] by blast
  note ab = CompareDotted_spec [OF s(1,2)] and ba = CompareDotted_spec [OF s(2,1)]
    and bc = CompareDotted_spec [OF s(2,3)] and ac = CompareDotted_spec [OF s(1,3)]
  have "x' = - x"
  proof -
    have "(x = 0) = (x' = 0)" "(x = 1) = (x' = -1)" using x(1) x'(1) ab ba by auto
    then show ?thesis using x(2) x'(2) by auto
  qed
  moreover have "x \<le> 0 \<and> y \<le> 0 \<longrightarrow> z \<le> 0 \<and> (z = 0 \<longrightarrow> x = 0 \<and> y = 0)"
  proof
    assume "x \<le> 0 \<and> y \<le> 0"
    then have "x = -1 \<or> x = 0" "y = -1 \<or> y = 0" using x(2) y(2) by auto
    moreover have eq: "x = 0 \<longleftrightarrow> seg as = seg bs" "x = -1 \<longleftrightarrow> lex_less (seg as) (seg bs)"
      "y = 0 \<longleftrightarrow> seg bs = seg cs" "y = -1 \<longleftrightarrow> lex_less (seg bs) (seg cs)"
      "z = 0 \<longleftrightarrow> seg as = seg cs" "z = -1 \<longleftrightarrow> lex_less (seg as) (seg cs)"
      using x(1) y(1) z(1) ab bc ac by simp_all
    moreover have irr: "\<not> lex_less f f" for f :: "nat \<Rightarrow> int" by (simp add: lex_less_def)
    ultimately consider "x = 0" "z = y" | "y = 0" "z = x" | "z = -1"
      using lex_less_trans [of "seg as" "seg bs" "seg cs"] z(2) by force
    then show "z \<le> 0 \<and> (z = 0 \<longrightarrow> x = 0 \<and> y = 0)"
      using \<open>x \<le> 0 \<and> y \<le> 0\<close> by cases auto
  qed
  ultimately show ?thesis using x x' y z by blast
qed

theorem CompareDotted_order_witness:
  "\<exists>x y z. CompareDotted ''1.2'' ''1.10'' = Some x \<and> CompareDotted ''1.10'' ''1.2'' = Some (- x)
     \<and> CompareDotted ''1.10'' ''2'' = Some y \<and> CompareDotted ''1.2'' ''2'' = Some z
     \<and> (x \<le> 0 \<and> y \<le> 0 \<longrightarrow> z \<le> 0) \<and> (x \<le> 0 \<and> y \<le> 0 \<and> z = 0 \<longrightarrow> x = 0 \<and> y = 0)"
proof -
  have "dottedNumeric ''1.2''" "dottedNumeric ''1.10''" "dottedNumeric ''2''" by code_simp+
  then show ?thesis by (rule CompareDotted_order)
qed


section \<open>What the parser accepts\<close>

text \<open>A rule of a type sets the parameters of that type, within their bounds, and no other
  field.\<close>

inductive rule_ok :: "(string \<Rightarrow> uuid option) \<Rightarrow> rule \<Rightarrow> bool" for p where
  osBuildMin:
    "dottedNumeric b \<Longrightarrow> rule_ok p ((zero_rule RuleOSBuildMin)\<lparr>r_build := b\<rparr>)"
| osBuildMinPerRelease:
    "is_go_map m \<Longrightarrow> 1 \<le> length m \<Longrightarrow> length m \<le> 20 \<Longrightarrow> list_all minimum_ok m \<Longrightarrow>
     rule_ok p ((zero_rule RuleOSBuildMinPerRelease)\<lparr>r_minimums := m\<rparr>)"
| agentVersionMin:
    "dottedNumeric b \<Longrightarrow> rule_ok p ((zero_rule RuleAgentVersionMin)\<lparr>r_version := b\<rparr>)"
| bitLocker:
    "v \<in> {VolumesSystem, VolumesAll} \<Longrightarrow> rule_ok p ((zero_rule RuleBitLocker)\<lparr>r_volumes := v\<rparr>)"
| tpm:
    "b = [] \<or> dottedNumeric b \<Longrightarrow> rule_ok p ((zero_rule RuleTPM)\<lparr>r_min_version := b\<rparr>)"
| checkedInWithin:
    "MinHours \<le> i \<Longrightarrow> i \<le> MaxHours \<Longrightarrow>
     rule_ok p ((zero_rule RuleCheckedInWithin)\<lparr>r_hours := i\<rparr>)"
| inventoryWithin:
    "MinHours \<le> i \<Longrightarrow> i \<le> MaxHours \<Longrightarrow>
     rule_ok p ((zero_rule RuleInventoryWithin)\<lparr>r_hours := i\<rparr>)"
| updatesWithin:
    "MinDays \<le> i \<Longrightarrow> i \<le> MaxDays \<Longrightarrow> rule_ok p ((zero_rule RuleUpdatesWithin)\<lparr>r_days := i\<rparr>)"
| noPendingReboot:
    "rule_ok p (zero_rule RuleNoPendingReboot)"
| defenderRealtime:
    "rule_ok p (zero_rule RuleDefenderRealtime)"
| maxLocalAdmins:
    "MinAdmins \<le> i \<Longrightarrow>
     i \<le> MaxAdmins \<Longrightarrow> rule_ok p ((zero_rule RuleMaxLocalAdmins)\<lparr>r_count := i\<rparr>)"
| maxMissingSecurityUpdates:
    "MinAdmins \<le> i \<Longrightarrow>
     i \<le> MaxAdmins \<Longrightarrow> rule_ok p ((zero_rule RuleMaxMissingSecurityUpdates)\<lparr>r_count := i\<rparr>)"
| forbiddenSoftware:
    "MinNameLen \<le> length n \<Longrightarrow>
     length n \<le> MaxNameLen \<Longrightarrow> rule_ok p ((zero_rule RuleForbiddenSoftware)\<lparr>r_name := n\<rparr>)"
| requiredSoftware:
    "MinNameLen \<le> length n \<Longrightarrow>
     length n \<le> MaxNameLen \<Longrightarrow> rule_ok p ((zero_rule RuleRequiredSoftware)\<lparr>r_name := n\<rparr>)"
| profileApplied:
    "p s = Some u \<Longrightarrow> rule_ok p ((zero_rule RuleProfileApplied)\<lparr>r_profile_id := u\<rparr>)"
| defenderSignaturesWithin:
    "MinSignatureDays \<le> i \<Longrightarrow> i \<le> MaxSignatureDays \<Longrightarrow>
     rule_ok p ((zero_rule RuleDefenderSignaturesWithin)\<lparr>r_days := i\<rparr>)"
| firewallEnabled:
    "distinct ps \<Longrightarrow> set ps \<subseteq> set firewallProfiles \<Longrightarrow>
     rule_ok p ((zero_rule RuleFirewallEnabled)\<lparr>r_profiles := ps\<rparr>)"

lemma zero_rule_simps [simp]:
  "r_type (zero_rule t) = t" "r_build (zero_rule t) = []" "r_minimums (zero_rule t) = []"
  "r_version (zero_rule t) = []" "r_volumes (zero_rule t) = []" "r_min_version (zero_rule t) = []"
  "r_hours (zero_rule t) = 0" "r_days (zero_rule t) = 0" "r_count (zero_rule t) = 0"
  "r_name (zero_rule t) = []" "r_profile_id (zero_rule t) = nil_uuid"
  "r_profiles (zero_rule t) = []"
  by (simp_all add: zero_rule_def)

lemma boundedField_Inr: "boundedField m key lo hi = Inr v \<Longrightarrow> lo \<le> v \<and> v \<le> hi"
  by (auto simp: boundedField_def bindE_eq_Inr split: if_splits)

lemma unmarshal_string_map_go_map:
  assumes "unmarshal_string_map j = Some m"
  shows "is_go_map m"
proof -
  obtain kvs vs where kvs: "unmarshal_object j = Some kvs"
    and vs: "all_some (map (unmarshal_string \<circ> snd) kvs) = Some vs" "m = zip (map fst kvs) vs"
    using assms by (auto simp: unmarshal_string_map_def split: option.splits)
  have "is_go_map kvs"
    using kvs go_map_is_map by (auto simp: unmarshal_object_def is_go_map_def split: json.splits)
  moreover have "length vs = length kvs" using all_some_length [OF vs(1)] by simp
  ultimately show ?thesis using vs(2) by (simp add: is_go_map_def)
qed

lemma parseMinimums_Inr:
  assumes "parseMinimums m t = Inr r"
  obtains mm where "r = (zero_rule t)\<lparr>r_minimums := mm\<rparr>" "is_go_map mm" "1 \<le> length mm"
    "length mm \<le> 20" "list_all minimum_ok mm"
proof -
  obtain raw mm where "unmarshal_string_map raw = Some mm" and
    mm: "\<not> (length mm < 1 \<or> length mm > 20)" "list_all minimum_ok mm"
    "r = (zero_rule t)\<lparr>r_minimums := mm\<rparr>"
    using assms unfolding parseMinimums_def
    by (cases "map_of m ''minimums''") (auto split: option.splits if_splits)
  then show ?thesis using that [of mm] unmarshal_string_map_go_map [of raw mm]
    by (simp add: not_less Suc_le_eq)
qed

lemma parseFirewall_Inr:
  assumes "parseFirewall m t = Inr r"
  obtains ps where "r = (zero_rule t)\<lparr>r_profiles := ps\<rparr>" "distinct ps"
    "set ps \<subseteq> set firewallProfiles"
proof -
  have "r = (zero_rule t)\<lparr>r_profiles := foldl add_new [] []\<rparr> \<or>
        (\<exists>ps. r = (zero_rule t)\<lparr>r_profiles := foldl add_new [] ps\<rparr> \<and> set ps \<subseteq> set firewallProfiles)"
    using assms unfolding parseFirewall_def
    by (cases "map_of m ''profiles''") (auto simp: find_None_iff split: option.splits if_splits)
  then obtain ps where "r = (zero_rule t)\<lparr>r_profiles := foldl add_new [] ps\<rparr>"
    "set ps \<subseteq> set firewallProfiles" by (metis empty_set empty_subsetI)
  then show ?thesis using that distinct_fold_add_new [of "[]" ps] set_fold_add_new [of "[]" ps]
    by simp
qed

lemma allowed_types:
  assumes "allowedFields t \<noteq> None"
  obtains "t = RuleOSBuildMin" | "t = RuleOSBuildMinPerRelease" | "t = RuleAgentVersionMin"
    | "t = RuleBitLocker" | "t = RuleTPM" | "t = RuleCheckedInWithin" | "t = RuleInventoryWithin"
    | "t = RuleUpdatesWithin" | "t = RuleNoPendingReboot" | "t = RuleMaxLocalAdmins"
    | "t = RuleMaxMissingSecurityUpdates" | "t = RuleForbiddenSoftware" | "t = RuleRequiredSoftware"
    | "t = RuleProfileApplied" | "t = RuleDefenderRealtime" | "t = RuleDefenderSignaturesWithin"
    | "t = RuleFirewallEnabled"
proof -
  have "t \<in> {RuleOSBuildMin, RuleOSBuildMinPerRelease, RuleAgentVersionMin,
     RuleBitLocker, RuleTPM, RuleCheckedInWithin, RuleInventoryWithin, RuleUpdatesWithin,
     RuleNoPendingReboot, RuleMaxLocalAdmins, RuleMaxMissingSecurityUpdates,
     RuleForbiddenSoftware, RuleRequiredSoftware, RuleProfileApplied, RuleDefenderRealtime,
     RuleDefenderSignaturesWithin, RuleFirewallEnabled}" (is "t \<in> ?S")
  proof (rule ccontr)
    assume "t \<notin> ?S"
    then have "allowedFields t = None" by (simp add: allowedFields_def)
    with assms show False by simp
  qed
  then show ?thesis by (elim insertE emptyE that)
qed

text \<open>The branch of each type.\<close>

lemma parseParams_branch:
  "parseParams p m RuleOSBuildMin = bindE (stringField m ''build'') (\<lambda>(build, _).
     if \<not> dottedNumeric build then Inl (NotDottedNumeric ''build'' build)
     else Inr ((zero_rule RuleOSBuildMin)\<lparr>r_build := build\<rparr>))"
  "parseParams p m RuleOSBuildMinPerRelease = parseMinimums m RuleOSBuildMinPerRelease"
  "parseParams p m RuleAgentVersionMin = bindE (stringField m ''version'') (\<lambda>(version, _).
     if \<not> dottedNumeric version then Inl (NotDottedNumeric ''version'' version)
     else Inr ((zero_rule RuleAgentVersionMin)\<lparr>r_version := version\<rparr>))"
  "parseParams p m RuleBitLocker = bindE (stringField m ''volumes'') (\<lambda>(volumes, _).
     if volumes \<noteq> VolumesSystem \<and> volumes \<noteq> VolumesAll then Inl (BadVolumes volumes)
     else Inr ((zero_rule RuleBitLocker)\<lparr>r_volumes := volumes\<rparr>))"
  "parseParams p m RuleTPM = bindE (stringField m ''min_version'') (\<lambda>(minVersion, present).
     if present \<and> minVersion \<noteq> [] \<and> \<not> dottedNumeric minVersion
     then Inl (NotDottedNumeric ''min_version'' minVersion)
     else Inr ((zero_rule RuleTPM)\<lparr>r_min_version := minVersion\<rparr>))"
  "parseParams p m RuleCheckedInWithin = bindE (boundedField m ''hours'' MinHours MaxHours)
     (\<lambda>hours. Inr ((zero_rule RuleCheckedInWithin)\<lparr>r_hours := hours\<rparr>))"
  "parseParams p m RuleInventoryWithin = bindE (boundedField m ''hours'' MinHours MaxHours)
     (\<lambda>hours. Inr ((zero_rule RuleInventoryWithin)\<lparr>r_hours := hours\<rparr>))"
  "parseParams p m RuleUpdatesWithin = bindE (boundedField m ''days'' MinDays MaxDays)
     (\<lambda>days. Inr ((zero_rule RuleUpdatesWithin)\<lparr>r_days := days\<rparr>))"
  "parseParams p m RuleNoPendingReboot = Inr (zero_rule RuleNoPendingReboot)"
  "parseParams p m RuleMaxLocalAdmins = bindE (boundedField m ''count'' MinAdmins MaxAdmins)
     (\<lambda>count. Inr ((zero_rule RuleMaxLocalAdmins)\<lparr>r_count := count\<rparr>))"
  "parseParams p m RuleMaxMissingSecurityUpdates =
     bindE (boundedField m ''count'' MinAdmins MaxAdmins)
       (\<lambda>count. Inr ((zero_rule RuleMaxMissingSecurityUpdates)\<lparr>r_count := count\<rparr>))"
  "parseParams p m RuleForbiddenSoftware = bindE (stringField m ''name'') (\<lambda>(name, _).
     if length name < MinNameLen \<or> length name > MaxNameLen then Inl (NameLength (length name))
     else Inr ((zero_rule RuleForbiddenSoftware)\<lparr>r_name := name\<rparr>))"
  "parseParams p m RuleRequiredSoftware = bindE (stringField m ''name'') (\<lambda>(name, _).
     if length name < MinNameLen \<or> length name > MaxNameLen then Inl (NameLength (length name))
     else Inr ((zero_rule RuleRequiredSoftware)\<lparr>r_name := name\<rparr>))"
  "parseParams p m RuleProfileApplied = bindE (stringField m ''profile_id'') (\<lambda>(profileID, present).
     if \<not> present then Inl (Required ''profile_id'')
     else (case p profileID of
             None \<Rightarrow> Inl (NotAUUID profileID)
           | Some i \<Rightarrow> Inr ((zero_rule RuleProfileApplied)\<lparr>r_profile_id := i\<rparr>)))"
  "parseParams p m RuleDefenderRealtime = Inr (zero_rule RuleDefenderRealtime)"
  "parseParams p m RuleDefenderSignaturesWithin =
     bindE (boundedField m ''days'' MinSignatureDays MaxSignatureDays)
       (\<lambda>days. Inr ((zero_rule RuleDefenderSignaturesWithin)\<lparr>r_days := days\<rparr>))"
  "parseParams p m RuleFirewallEnabled = parseFirewall m RuleFirewallEnabled"
  by (simp_all add: parseParams_def)

lemma parseParams_ok:
  assumes "parseParams uuid_parse m t = Inr r" "allowedFields t \<noteq> None"
  shows "rule_ok uuid_parse r"
  using assms(2)
proof (cases rule: allowed_types)
  case 1
  then show ?thesis using assms(1) by (auto simp: parseParams_branch bindE_eq_Inr not_less Suc_le_eq
        intro!: rule_ok.intros split: if_splits)
next
  case 2
  then show ?thesis using assms(1) by (auto simp: parseParams_branch elim!: parseMinimums_Inr intro!: rule_ok.intros)
next
  case 3
  then show ?thesis using assms(1) by (auto simp: parseParams_branch bindE_eq_Inr not_less Suc_le_eq
        intro!: rule_ok.intros split: if_splits)
next
  case 4
  then show ?thesis using assms(1) by (auto simp: parseParams_branch bindE_eq_Inr not_less Suc_le_eq
        intro!: rule_ok.intros split: if_splits)
next
  case 5
  then show ?thesis using assms(1) by (auto simp: parseParams_branch bindE_eq_Inr stringField_def intro!: rule_ok.intros
        split: if_splits option.splits)
next
  case 6
  then show ?thesis using assms(1)
    by (auto simp: parseParams_branch bindE_eq_Inr dest!: boundedField_Inr intro!: rule_ok.intros)
next
  case 7
  then show ?thesis using assms(1)
    by (auto simp: parseParams_branch bindE_eq_Inr dest!: boundedField_Inr intro!: rule_ok.intros)
next
  case 8
  then show ?thesis using assms(1)
    by (auto simp: parseParams_branch bindE_eq_Inr dest!: boundedField_Inr intro!: rule_ok.intros)
next
  case 9
  then show ?thesis using assms(1) by (auto simp: parseParams_branch intro!: rule_ok.intros)
next
  case 10
  then show ?thesis using assms(1)
    by (auto simp: parseParams_branch bindE_eq_Inr dest!: boundedField_Inr intro!: rule_ok.intros)
next
  case 11
  then show ?thesis using assms(1)
    by (auto simp: parseParams_branch bindE_eq_Inr dest!: boundedField_Inr intro!: rule_ok.intros)
next
  case 12
  then show ?thesis using assms(1) by (auto simp: parseParams_branch bindE_eq_Inr not_less Suc_le_eq
        intro!: rule_ok.intros split: if_splits)
next
  case 13
  then show ?thesis using assms(1) by (auto simp: parseParams_branch bindE_eq_Inr not_less Suc_le_eq
        intro!: rule_ok.intros split: if_splits)
next
  case 14
  then show ?thesis using assms(1)
    by (auto simp: parseParams_branch bindE_eq_Inr intro: rule_ok.intros split: if_splits option.splits)
next
  case 15
  then show ?thesis using assms(1) by (auto simp: parseParams_branch intro!: rule_ok.intros)
next
  case 16
  then show ?thesis using assms(1)
    by (auto simp: parseParams_branch bindE_eq_Inr dest!: boundedField_Inr intro!: rule_ok.intros)
next
  case 17
  then show ?thesis using assms(1) by (auto simp: parseParams_branch elim!: parseFirewall_Inr intro!: rule_ok.intros)
qed

lemma parseRule_ok:
  assumes "parseRule uuid_parse raw = Inr r"
  shows "rule_ok uuid_parse r"
proof -
  obtain m t al where "parseParams uuid_parse m t = Inr r" "allowedFields t = Some al"
    using assms by (auto simp: parseRule_def bindE_eq_Inr Let_def split: option.splits if_splits)
  then show ?thesis by (auto intro: parseParams_ok)
qed

lemma parseEach_list_all2:
  "parseEach uuid_parse i ms = Inr rs \<longleftrightarrow> list_all2 (\<lambda>m r. parseRule uuid_parse m = Inr r) ms rs"
  by (induction uuid_parse i ms arbitrary: rs rule: parseEach.induct)
     (auto simp: bindE_eq_Inr list_all2_Cons1 split: sum.splits)

lemma ParseRules_Inr:
  assumes "ParseRules uuid_parse raw = Inr rs"
  shows "MinRules \<le> length rs" "length rs \<le> MaxRules" "list_all (rule_ok uuid_parse) rs"
proof -
  obtain ms where ms: "\<not> length ms < MinRules" "\<not> length ms > MaxRules"
    and all: "list_all2 (\<lambda>m r. parseRule uuid_parse m = Inr r) ms rs"
    using assms
    by (auto simp: ParseRules_def parseEach_list_all2 split: option.splits if_splits)
  have len: "length rs = length ms" using all by (simp add: list_all2_lengthD)
  show "MinRules \<le> length rs" "length rs \<le> MaxRules" using ms len by (simp_all add: not_less Suc_le_eq)
  show "list_all (rule_ok uuid_parse) rs"
    using all by (auto simp: list_all_length list_all2_conv_all_nth intro: parseRule_ok)
qed

text \<open>
  A policy that parses has between 1 and 50 rules, and each of them has a supported type,
  the parameters of that type within the documented bounds (hours 1 to 8760, days 1 to 365
  or 30, counts 0 to 100, names of 1 to 200 bytes, dotted version numbers, distinct firewall
  profiles, a minimum per release that belongs to it), and every other field at zero.
\<close>

theorem ParseRules_bounds:
  assumes "ParseRules uuid_parse raw = Inr rs"
  shows "MinRules \<le> length rs \<and> length rs \<le> MaxRules \<and> list_all (rule_ok uuid_parse) rs"
  using ParseRules_Inr [OF assms] by blast

theorem ParseRules_bounds_witness:
  "\<exists>rs. ParseRules Some (Some (JArr [JObj [(''hours'', JNum ''24''),
                                       (''type'', JStr ''checked_in_within'')]])) = Inr rs
     \<and> list_all (rule_ok Some) rs"
proof -
  have "ParseRules Some (Some (JArr [JObj [(''hours'', JNum ''24''),
          (''type'', JStr ''checked_in_within'')]]))
        = Inr [(zero_rule ''checked_in_within'')\<lparr>r_hours := 24\<rparr>]"
    by code_simp
  then show ?thesis using ParseRules_bounds by blast
qed

section \<open>The canonical encoding parses back\<close>

lemma go_map_pair: "k \<noteq> l \<Longrightarrow> set (go_map [(k, v), (l, w)]) = {(k, v), (l, w)}
    \<and> (go_map [(k, v), (l, w)] = [(k, v), (l, w)] \<or> go_map [(k, v), (l, w)] = [(l, w), (k, v)])"
  by (auto simp: go_map_def)

lemma parseRule_fields:
  assumes "unmarshal_object raw = Some m" "map_of m ''type'' = Some (JStr t)"
    "filter (\<lambda>(k, _). k \<noteq> ''type'') m = m'" "allowedFields t = Some al"
    "\<forall>k \<in> fst ` set m'. k \<in> set al"
  shows "parseRule uuid_parse raw = parseParams uuid_parse m' t"
proof -
  have "filter (\<lambda>k. k \<notin> set al) (map fst m') = []" using assms(5) by (simp add: filter_empty_conv)
  with assms show ?thesis by (simp add: parseRule_def)
qed

lemma parseRule_one:
  assumes "allowedFields t = Some [k]" "k \<noteq> ''type''"
  shows "parseRule uuid_parse (JObj [(''type'', JStr t), (k, v)]) = parseParams uuid_parse [(k, v)] t"
proof -
  let ?m = "go_map [(''type'', JStr t), (k, v)]"
  have u: "unmarshal_object (JObj [(''type'', JStr t), (k, v)]) = Some ?m"
    by (simp add: unmarshal_object_def)
  have "?m = [(''type'', JStr t), (k, v)] \<or> ?m = [(k, v), (''type'', JStr t)]"
    using go_map_pair [of "''type''" k] assms(2) by metis
  then have "map_of ?m ''type'' = Some (JStr t)" "filter (\<lambda>(k, _). k \<noteq> ''type'') ?m = [(k, v)]"
    using assms(2) by (elim disjE; simp)+
  from parseRule_fields [OF u this assms(1)] show ?thesis by simp
qed

lemma parseRule_none:
  assumes "allowedFields t = Some al"
  shows "parseRule uuid_parse (JObj [(''type'', JStr t)]) = parseParams uuid_parse [] t"
  by (rule parseRule_fields [where m = "[(''type'', JStr t)]", OF _ _ _ assms])
     (simp_all add: unmarshal_object_def go_map_def)


lemma stringField_one: "stringField [(k, JStr s)] k = Inr (s, True)"
  by (simp add: stringField_def)

lemma boundedField_one:
  "lo \<le> i \<Longrightarrow> i \<le> hi \<Longrightarrow> min_int64 \<le> lo \<Longrightarrow> hi \<le> max_int64 \<Longrightarrow>
     boundedField [(k, JNum (itoa i))] k lo hi = Inr i"
  using atoi_itoa [of i] by (simp add: boundedField_def intField_def)

lemma allowedFields_branch:
  "allowedFields RuleOSBuildMin = Some [''build'']"
  "allowedFields RuleOSBuildMinPerRelease = Some [''minimums'']"
  "allowedFields RuleAgentVersionMin = Some [''version'']"
  "allowedFields RuleBitLocker = Some [''volumes'']"
  "allowedFields RuleTPM = Some [''min_version'']"
  "allowedFields RuleCheckedInWithin = Some [''hours'']"
  "allowedFields RuleInventoryWithin = Some [''hours'']"
  "allowedFields RuleUpdatesWithin = Some [''days'']"
  "allowedFields RuleNoPendingReboot = Some []"
  "allowedFields RuleMaxLocalAdmins = Some [''count'']"
  "allowedFields RuleMaxMissingSecurityUpdates = Some [''count'']"
  "allowedFields RuleForbiddenSoftware = Some [''name'']"
  "allowedFields RuleRequiredSoftware = Some [''name'']"
  "allowedFields RuleProfileApplied = Some [''profile_id'']"
  "allowedFields RuleDefenderRealtime = Some []"
  "allowedFields RuleDefenderSignaturesWithin = Some [''days'']"
  "allowedFields RuleFirewallEnabled = Some [''profiles'']"
  by (simp_all add: allowedFields_def)

lemmas reparse = parseRule_one parseRule_none allowedFields_branch parseParams_branch
  stringField_one boundedField_one

lemma marshal_reparse:
  assumes "rule_ok uuid_parse r"
    and uuid: "\<And>s u. uuid_parse s = Some u \<Longrightarrow> uuid_parse (uuid_string u) = Some u"
  shows "\<exists>j. marshalRule uuid_string r = Some j \<and> parseRule uuid_parse j = Inr r"
  using assms(1)
proof cases
  case (osBuildMinPerRelease m)
  then have "parseMinimums [(''minimums'', JObj (map (\<lambda>(k, v). (k, JStr v)) m))]
      RuleOSBuildMinPerRelease = Inr r"
    by (auto simp: parseMinimums_def unmarshal_string_map_JStr)
  then show ?thesis using osBuildMinPerRelease by (simp add: marshalRule_def reparse)
next
  case (firewallEnabled ps)
  show ?thesis
  proof (cases "ps = []")
    case True
    then show ?thesis
      using firewallEnabled by (simp add: marshalRule_def reparse parseFirewall_def zero_rule_def)
  next
    case False
    have "find (\<lambda>n. n \<notin> set firewallProfiles) ps = None"
      using firewallEnabled(3) by (auto simp: find_None_iff)
    then have "parseFirewall [(''profiles'', JArr (map JStr ps))] RuleFirewallEnabled = Inr r"
      using firewallEnabled False fold_add_new_distinct [of "[]" ps]
      by (simp add: parseFirewall_def)
    then show ?thesis using firewallEnabled False by (simp add: marshalRule_def reparse)
  qed
next
  case (tpm b)
  then show ?thesis
    by (cases "b = []")
       (simp_all add: marshalRule_def reparse stringField_def zero_rule_def)
next
  case (profileApplied s u)
  then show ?thesis using uuid by (simp add: marshalRule_def reparse)
qed (simp_all add: marshalRule_def reparse min_int64_def max_int64_def not_less Suc_le_eq)


lemma reparse_all:
  assumes "list_all (rule_ok uuid_parse) rs"
    and uuid: "\<And>s u. uuid_parse s = Some u \<Longrightarrow> uuid_parse (uuid_string u) = Some u"
  shows "\<exists>js. all_some (map (marshalRule uuid_string) rs) = Some js
     \<and> list_all2 (\<lambda>m r. parseRule uuid_parse m = Inr r) js rs"
  using assms(1)
proof (induction rs)
  case (Cons r rs)
  then obtain js where js: "all_some (map (marshalRule uuid_string) rs) = Some js"
    "list_all2 (\<lambda>m r. parseRule uuid_parse m = Inr r) js rs" by auto
  have "rule_ok uuid_parse r" using Cons.prems by simp
  then obtain j where "marshalRule uuid_string r = Some j" "parseRule uuid_parse j = Inr r"
    using marshal_reparse [of uuid_parse r uuid_string] uuid by blast
  with js show ?case by (intro exI [of _ "j # js"]) simp
qed simp

text \<open>
  C40. The canonical encoding is lossless: rules that parsed can be encoded, and the document
  \<^verbatim>\<open>MarshalRules\<close> writes parses back to exactly the same rules. The UUID package is
  assumed to parse the text it prints for a UUID it parsed to that UUID.
\<close>

theorem MarshalRules_roundtrip:
  assumes "ParseRules uuid_parse raw = Inr rs"
    and "\<And>s u. uuid_parse s = Some u \<Longrightarrow> uuid_parse (uuid_string u) = Some u"
  shows "\<exists>doc. MarshalRules uuid_string rs = Some doc \<and> ParseRules uuid_parse (Some doc) = Inr rs"
proof -
  note ok = ParseRules_Inr [OF assms(1)]
  obtain js where js: "all_some (map (marshalRule uuid_string) rs) = Some js"
    "list_all2 (\<lambda>m r. parseRule uuid_parse m = Inr r) js rs"
    using reparse_all [OF ok(3), of uuid_string] assms(2) by blast
  have "length js = length rs" using js(2) by (rule list_all2_lengthD)
  with ok(1,2) js(2) have "ParseRules uuid_parse (Some (JArr js)) = Inr rs"
    by (auto simp: ParseRules_def parseEach_list_all2)
  with js(1) show ?thesis by (simp add: MarshalRules_def)
qed

theorem MarshalRules_roundtrip_witness:
  "\<exists>doc rs. ParseRules Some (Some (JArr [JObj [(''type'', JStr ''tpm''), (''min_version'', JNull)],
        JObj [(''profile_id'', JStr ''p''), (''type'', JStr ''profile_applied'')]])) = Inr rs
     \<and> MarshalRules id rs = Some doc \<and> ParseRules Some (Some doc) = Inr rs"
proof -
  have parse: "ParseRules Some (Some (JArr [JObj [(''type'', JStr ''tpm''), (''min_version'', JNull)],
        JObj [(''profile_id'', JStr ''p''), (''type'', JStr ''profile_applied'')]]))
      = Inr [zero_rule ''tpm'', (zero_rule ''profile_applied'')\<lparr>r_profile_id := ''p''\<rparr>]"
    by code_simp
  show ?thesis using MarshalRules_roundtrip [OF parse, of id] parse by auto
qed

end
