(* ===== verification/Compliance_Eval.thy ===== *)
theory Compliance_Eval
  imports Compliance_Rules
begin

text \<open>
  The evaluation of a policy against a device's facts
  (\<^verbatim>\<open>src/internal/server/compliance/rules.go\<close>, second half): one definition per
  \<^verbatim>\<open>eval*\<close> function, the dispatch \<^verbatim>\<open>evaluateRule\<close> and the roll-up \<^verbatim>\<open>Evaluate\<close>. A rule
  that is met is \<open>None\<close>, one that is not is \<open>Some\<close> failure. The records keep the inventory
  fields the rules read; a nil pointer is \<open>None\<close>.

  \<^verbatim>\<open>humanizeSince\<close> goes through floating point in the code; the model truncates the exact
  quotient.
\<close>

abbreviation "StateCompliant \<equiv> ''compliant''"
abbreviation "StateNonCompliant \<equiv> ''non_compliant''"
abbreviation "StateUnknown \<equiv> ''unknown''"

abbreviation "ItemPending \<equiv> ''pending''"
abbreviation "ItemSucceeded \<equiv> ''succeeded''"
abbreviation "ItemFailed \<equiv> ''failed''"

record failure =
  f_rule :: string
  f_state :: string
  f_detail :: string

record result =
  res_state :: string
  res_failures :: "failure list"

record disk =
  d_name :: string
  d_bitlocker :: string

record defender_status =
  df_running_mode :: string
  df_antivirus_enabled :: bool
  df_realtime_enabled :: bool
  df_signature_updated_at :: "go_time option"

record pending_update =
  pu_title :: string
  pu_kb :: string
  pu_security :: bool

record update_status =
  us_scanned_at :: go_time
  us_pending :: "pending_update list"
  us_error :: string

record inventory =
  inv_os_build :: string
  inv_ubr :: "int option"
  inv_tpm_present :: bool
  inv_tpm_version :: string
  inv_disks :: "disk list"
  inv_software :: "string list"
  inv_local_admins :: "string list"
  inv_pending_reboot :: bool
  inv_last_update_installed_at :: "go_time option"
  inv_defender :: "defender_status option"
  inv_firewall :: "(string \<times> bool) list option"
  inv_windows_updates :: "update_status option"

record facts =
  fa_os_build :: string
  fa_agent_version :: string
  fa_last_seen_at :: "go_time option"
  fa_inventory :: "inventory option"
  fa_inventory_received_at :: "go_time option"
  fa_profile_status :: "uuid \<Rightarrow> string option"

definition updateScanStale :: duration where
  "updateScanStale = 7 * 24 * hour"

definition unknownFailure :: "string \<Rightarrow> string \<Rightarrow> failure" where
  "unknownFailure rule detail = \<lparr>f_rule = rule, f_state = StateUnknown, f_detail = detail\<rparr>"

definition nonCompliant :: "string \<Rightarrow> string \<Rightarrow> failure" where
  "nonCompliant rule detail = \<lparr>f_rule = rule, f_state = StateNonCompliant, f_detail = detail\<rparr>"

definition plural :: "int \<Rightarrow> string \<Rightarrow> string" where
  "plural n unit = (if n = 1 then ''1 '' @ unit else itoa n @ '' '' @ unit @ ''s'')"

definition humanizeSince :: "duration \<Rightarrow> string" where
  "humanizeSince elapsed =
     (if elapsed < 48 * hour then plural (quot elapsed hour) ''hour''
      else plural (quot elapsed (24 * hour)) ''day'')"

definition evalOSBuildMin :: "rule \<Rightarrow> facts \<Rightarrow> failure option" where
  "evalOSBuildMin r f =
     (let build = fa_os_build f in
      if build = [] then Some (unknownFailure (r_type r) ''the device has not reported an OS build'')
      else (case CompareDotted build (r_build r) of
              None \<Rightarrow> Some (unknownFailure (r_type r)
                (''the OS build '' @ go_quote build @ '' could not be compared to '' @ go_quote (r_build r)))
            | Some cmp \<Rightarrow>
                if cmp < 0 then Some (nonCompliant (r_type r)
                  (''the OS build is '' @ build @ '', below the required '' @ r_build r))
                else None))"

definition evalOSBuildMinPerRelease :: "rule \<Rightarrow> facts \<Rightarrow> failure option" where
  "evalOSBuildMinPerRelease r f =
     (case fa_inventory f of
        None \<Rightarrow> Some (unknownFailure (r_type r) ''the device has not reported an OS build'')
      | Some iv \<Rightarrow>
          if inv_os_build iv = []
          then Some (unknownFailure (r_type r) ''the device has not reported an OS build'')
          else (let base = inv_os_build iv in
            case inv_ubr iv of
              None \<Rightarrow> Some (unknownFailure (r_type r)
                ''the device has not reported its patch level; its agent may predate this rule'')
            | Some ubr \<Rightarrow>
                (let full = base @ ''.'' @ itoa ubr in
                 case map_of (r_minimums r) base of
                   None \<Rightarrow> Some (unknownFailure (r_type r)
                     (''no minimum is set for build '' @ base @ '' (the device is at '' @ full @ '')''))
                 | Some mn \<Rightarrow>
                     (case CompareDotted full mn of
                        None \<Rightarrow> Some (unknownFailure (r_type r)
                          (''the build '' @ go_quote full @ '' could not be compared to '' @ go_quote mn))
                      | Some cmp \<Rightarrow>
                          if cmp < 0 then Some (nonCompliant (r_type r)
                            (''the OS build is '' @ full @ '', below the required '' @ mn))
                          else None))))"

definition evalAgentVersionMin :: "rule \<Rightarrow> facts \<Rightarrow> failure option" where
  "evalAgentVersionMin r f =
     (let v = fa_agent_version f in
      if \<not> dottedNumeric v then
        Some (unknownFailure (r_type r)
          (if v \<noteq> [] then ''the agent version '' @ go_quote v @ '' is not a dotted version number''
           else ''the agent version is not reported''))
      else (let cmp = (case CompareDotted v (r_version r) of None \<Rightarrow> 0 | Some c \<Rightarrow> c) in
            if cmp < 0 then Some (nonCompliant (r_type r)
              (''the agent version is '' @ v @ '', below the required '' @ r_version r))
            else None))"

definition bitlockerFailure :: "string \<Rightarrow> disk \<Rightarrow> failure option" where
  "bitlockerFailure ruleType d =
     (if d_bitlocker d = ''on'' then None
      else if d_bitlocker d = ''off'' then
        Some (nonCompliant ruleType (''BitLocker is off on '' @ d_name d))
      else Some (unknownFailure ruleType (''BitLocker status is unknown for '' @ d_name d)))"

definition systemVolume :: "disk list \<Rightarrow> disk option" where
  "systemVolume disks =
     find (\<lambda>d. to_upper (trim_suffix [CHR 0x5C] (trim_space (d_name d))) = ''C:'') disks"

definition evalBitLocker :: "rule \<Rightarrow> facts \<Rightarrow> failure option" where
  "evalBitLocker r f =
     (case fa_inventory f of
        None \<Rightarrow> Some (unknownFailure (r_type r) ''no inventory has been received'')
      | Some iv \<Rightarrow>
          if r_volumes r = VolumesSystem then
            (case systemVolume (inv_disks iv) of
               None \<Rightarrow> Some (unknownFailure (r_type r) ''no system volume was reported'')
             | Some d \<Rightarrow> bitlockerFailure (r_type r) d)
          else if inv_disks iv = [] then
            Some (unknownFailure (r_type r) ''the device reported no fixed volumes'')
          else (case find (\<lambda>d. d_bitlocker d = ''unknown'') (inv_disks iv) of
                  Some d \<Rightarrow> Some (unknownFailure (r_type r)
                    (''BitLocker status is unknown for '' @ d_name d))
                | None \<Rightarrow>
                    (case find (\<lambda>d. d_bitlocker d = ''off'') (inv_disks iv) of
                       Some d \<Rightarrow> Some (nonCompliant (r_type r) (''BitLocker is off on '' @ d_name d))
                     | None \<Rightarrow> None)))"

definition evalTPM :: "rule \<Rightarrow> facts \<Rightarrow> failure option" where
  "evalTPM r f =
     (case fa_inventory f of
        None \<Rightarrow> Some (unknownFailure (r_type r) ''no inventory has been received'')
      | Some iv \<Rightarrow>
          if \<not> inv_tpm_present iv then Some (nonCompliant (r_type r) ''no TPM is present'')
          else if r_min_version r = [] then None
          else if \<not> dottedNumeric (inv_tpm_version iv) then
            Some (unknownFailure (r_type r) ''the TPM version is not reported'')
          else (let cmp = (case CompareDotted (inv_tpm_version iv) (r_min_version r) of
                             None \<Rightarrow> 0 | Some c \<Rightarrow> c) in
                if cmp < 0 then Some (nonCompliant (r_type r)
                  (''the TPM version is '' @ inv_tpm_version iv @ '', below the required ''
                   @ r_min_version r))
                else None))"

definition evalCheckedInWithin :: "rule \<Rightarrow> facts \<Rightarrow> go_time \<Rightarrow> failure option" where
  "evalCheckedInWithin r f now =
     (case fa_last_seen_at f of
        None \<Rightarrow> Some (unknownFailure (r_type r) ''the device has never checked in'')
      | Some t \<Rightarrow>
          (let elapsed = time_sub now t in
           if elapsed > dur_mul (r_hours r) hour then Some (nonCompliant (r_type r)
             (''last check-in was '' @ humanizeSince elapsed @ '' ago (limit ''
              @ plural (r_hours r) ''hour'' @ '')''))
           else None))"

definition evalInventoryWithin :: "rule \<Rightarrow> facts \<Rightarrow> go_time \<Rightarrow> failure option" where
  "evalInventoryWithin r f now =
     (case fa_inventory_received_at f of
        None \<Rightarrow> Some (unknownFailure (r_type r) ''inventory has never been received'')
      | Some t \<Rightarrow>
          (let elapsed = time_sub now t in
           if elapsed > dur_mul (r_hours r) hour then Some (nonCompliant (r_type r)
             (''inventory was last received '' @ humanizeSince elapsed @ '' ago (limit ''
              @ plural (r_hours r) ''hour'' @ '')''))
           else None))"

definition evalUpdatesWithin :: "rule \<Rightarrow> facts \<Rightarrow> go_time \<Rightarrow> failure option" where
  "evalUpdatesWithin r f now =
     (case Option.bind (fa_inventory f) inv_last_update_installed_at of
        None \<Rightarrow> Some (unknownFailure (r_type r) ''no update installation date has been reported'')
      | Some t \<Rightarrow>
          (let elapsed = time_sub now t in
           if elapsed > dur_mul (wrap64 (r_days r * 24)) hour then Some (nonCompliant (r_type r)
             (''the last update was installed '' @ humanizeSince elapsed @ '' ago (limit ''
              @ plural (r_days r) ''day'' @ '')''))
           else None))"

definition evalNoPendingReboot :: "rule \<Rightarrow> facts \<Rightarrow> failure option" where
  "evalNoPendingReboot r f =
     (case fa_inventory f of
        None \<Rightarrow> Some (unknownFailure (r_type r) ''no inventory has been received'')
      | Some iv \<Rightarrow>
          if inv_pending_reboot iv then Some (nonCompliant (r_type r) ''a reboot is pending'')
          else None)"

definition evalMaxLocalAdmins :: "rule \<Rightarrow> facts \<Rightarrow> failure option" where
  "evalMaxLocalAdmins r f =
     (case fa_inventory f of
        None \<Rightarrow> Some (unknownFailure (r_type r) ''no inventory has been received'')
      | Some iv \<Rightarrow>
          if inv_local_admins iv = [] then
            Some (unknownFailure (r_type r) ''the device reported no local admins'')
          else (let n = int (length (inv_local_admins iv)) in
                if n > r_count r then Some (nonCompliant (r_type r)
                  (''there are '' @ itoa n @ '' local admins, above the limit of '' @ itoa (r_count r)))
                else None))"

definition softwareGap :: "string \<Rightarrow> facts \<Rightarrow> failure option" where
  "softwareGap ruleType f =
     (case fa_inventory f of
        None \<Rightarrow> Some (unknownFailure ruleType ''no inventory has been received'')
      | Some iv \<Rightarrow>
          if inv_software iv = [] then
            Some (unknownFailure ruleType ''the device reported no installed software'')
          else None)"

text \<open>The name of the first match, or the empty string.\<close>

definition matchSoftware :: "string list \<Rightarrow> string \<Rightarrow> string" where
  "matchSoftware installed name =
     (case find (\<lambda>s. contains (to_lower s) (to_lower name)) installed of
        Some s \<Rightarrow> s | None \<Rightarrow> [])"

definition evalForbiddenSoftware :: "rule \<Rightarrow> facts \<Rightarrow> failure option" where
  "evalForbiddenSoftware r f =
     (case softwareGap (r_type r) f of
        Some gap \<Rightarrow> Some gap
      | None \<Rightarrow>
          (let found = matchSoftware (inv_software (the (fa_inventory f))) (r_name r) in
           if found \<noteq> [] then Some (nonCompliant (r_type r)
             (''forbidden software '' @ go_quote found @ '' is installed''))
           else None))"

definition evalRequiredSoftware :: "rule \<Rightarrow> facts \<Rightarrow> failure option" where
  "evalRequiredSoftware r f =
     (case softwareGap (r_type r) f of
        Some gap \<Rightarrow> Some gap
      | None \<Rightarrow>
          (let found = matchSoftware (inv_software (the (fa_inventory f))) (r_name r) in
           if found = [] then Some (nonCompliant (r_type r)
             (''required software matching '' @ go_quote (r_name r) @ '' is not installed''))
           else None))"

definition evalProfileApplied :: "rule \<Rightarrow> facts \<Rightarrow> failure option" where
  "evalProfileApplied r f =
     (case fa_profile_status f (r_profile_id r) of
        None \<Rightarrow> Some (unknownFailure (r_type r) ''the profile has not finished applying'')
      | Some status \<Rightarrow>
          if status = ItemPending then
            Some (unknownFailure (r_type r) ''the profile has not finished applying'')
          else if status \<noteq> ItemSucceeded then Some (nonCompliant (r_type r)
            (''the profile'' @ [CHR 0x27] @ ''s status is '' @ status @ '', not succeeded''))
          else None)"

definition defenderOf :: "facts \<Rightarrow> defender_status option" where
  "defenderOf f = Option.bind (fa_inventory f) inv_defender"

definition evalDefenderRealtime :: "rule \<Rightarrow> facts \<Rightarrow> failure option" where
  "evalDefenderRealtime r f =
     (case defenderOf f of
        None \<Rightarrow> Some (unknownFailure (r_type r) ''Defender status is not reported'')
      | Some d \<Rightarrow>
          if df_running_mode d \<noteq> ''Normal'' then Some (unknownFailure (r_type r)
            (''Defender is in '' @ go_quote (df_running_mode d) @ '', so another antivirus is primary''))
          else if \<not> df_antivirus_enabled d then
            Some (nonCompliant (r_type r) ''Defender Antivirus is turned off'')
          else if \<not> df_realtime_enabled d then
            Some (nonCompliant (r_type r) ''Defender real-time protection is off'')
          else None)"

definition evalDefenderSignaturesWithin :: "rule \<Rightarrow> facts \<Rightarrow> go_time \<Rightarrow> failure option" where
  "evalDefenderSignaturesWithin r f now =
     (case defenderOf f of
        None \<Rightarrow> Some (unknownFailure (r_type r) ''Defender status is not reported'')
      | Some d \<Rightarrow>
          (case df_signature_updated_at d of
             None \<Rightarrow> Some (unknownFailure (r_type r)
               ''Defender has not reported when its signatures were updated'')
           | Some t \<Rightarrow>
               (let elapsed = time_sub now t in
                if elapsed > dur_mul (wrap64 (r_days r * 24)) hour then Some (nonCompliant (r_type r)
                  (''Defender signatures were last updated '' @ humanizeSince elapsed @ '' ago (limit ''
                   @ plural (r_days r) ''day'' @ '')''))
                else None)))"

text \<open>The map \<^verbatim>\<open>state\<close> is filled in list order, so the last report of a profile counts.\<close>

definition evalFirewallEnabled :: "rule \<Rightarrow> facts \<Rightarrow> failure option" where
  "evalFirewallEnabled r f =
     (case Option.bind (fa_inventory f) inv_firewall of
        None \<Rightarrow> Some (unknownFailure (r_type r) ''firewall state is not reported'')
      | Some reported \<Rightarrow>
          (let state = map_of (rev reported);
               names = (if r_profiles r = [] then firewallProfiles else r_profiles r);
               off = filter (\<lambda>n. state n = Some False) names;
               missing = filter (\<lambda>n. state n = None) names in
           if off \<noteq> [] then Some (nonCompliant (r_type r)
             (''the firewall is off for: '' @ join_with '', '' off))
           else if missing \<noteq> [] then Some (unknownFailure (r_type r)
             (''firewall state is not reported for: '' @ join_with '', '' missing))
           else None))"

definition SecurityPending :: "update_status \<Rightarrow> pending_update list" where
  "SecurityPending s = filter pu_security (us_pending s)"

definition evalMaxMissingSecurityUpdates :: "rule \<Rightarrow> facts \<Rightarrow> go_time \<Rightarrow> failure option" where
  "evalMaxMissingSecurityUpdates r f now =
     (case Option.bind (fa_inventory f) inv_windows_updates of
        None \<Rightarrow> Some (unknownFailure (r_type r)
          ''the device has not reported a Windows Update search; its agent may predate this rule'')
      | Some wu \<Rightarrow>
          if us_error wu \<noteq> [] then Some (unknownFailure (r_type r)
            (''the last Windows Update search failed: '' @ us_error wu))
          else if time_sub now (us_scanned_at wu) > updateScanStale then
            Some (unknownFailure (r_type r)
              (''the last Windows Update search was on '' @ format_date (us_scanned_at wu)))
          else (let missing = SecurityPending wu in
                if int (length missing) \<le> r_count r then None
                else Some (nonCompliant (r_type r)
                  (itoa (int (length missing)) @ '' security updates are missing (at most ''
                   @ itoa (r_count r) @ '' allowed): ''
                   @ join_with '', '' (map (\<lambda>u. if pu_kb u \<noteq> [] then pu_kb u else pu_title u) missing)))))"

definition evaluateRule :: "rule \<Rightarrow> facts \<Rightarrow> go_time \<Rightarrow> failure option" where
  "evaluateRule r f now =
     (let t = r_type r in
      if t = RuleOSBuildMin then evalOSBuildMin r f
      else if t = RuleOSBuildMinPerRelease then evalOSBuildMinPerRelease r f
      else if t = RuleAgentVersionMin then evalAgentVersionMin r f
      else if t = RuleBitLocker then evalBitLocker r f
      else if t = RuleTPM then evalTPM r f
      else if t = RuleCheckedInWithin then evalCheckedInWithin r f now
      else if t = RuleInventoryWithin then evalInventoryWithin r f now
      else if t = RuleUpdatesWithin then evalUpdatesWithin r f now
      else if t = RuleNoPendingReboot then evalNoPendingReboot r f
      else if t = RuleMaxLocalAdmins then evalMaxLocalAdmins r f
      else if t = RuleForbiddenSoftware then evalForbiddenSoftware r f
      else if t = RuleRequiredSoftware then evalRequiredSoftware r f
      else if t = RuleProfileApplied then evalProfileApplied r f
      else if t = RuleDefenderRealtime then evalDefenderRealtime r f
      else if t = RuleDefenderSignaturesWithin then evalDefenderSignaturesWithin r f now
      else if t = RuleFirewallEnabled then evalFirewallEnabled r f
      else if t = RuleMaxMissingSecurityUpdates then evalMaxMissingSecurityUpdates r f now
      else Some (unknownFailure t (''unsupported rule type '' @ go_quote t)))"

definition Evaluate :: "rule list \<Rightarrow> facts \<Rightarrow> go_time \<Rightarrow> result" where
  "Evaluate rules f now =
     (let failures = List.map_filter (\<lambda>r. evaluateRule r f now) rules;
          state = (if list_ex (\<lambda>fl. f_state fl = StateNonCompliant) failures then StateNonCompliant
                   else StateCompliant);
          state' = (if state = StateCompliant then
                      (if list_ex (\<lambda>fl. f_state fl = StateUnknown) failures then StateUnknown
                       else state)
                    else state)
      in \<lparr>res_state = state', res_failures = failures\<rparr>)"


section \<open>The roll-up\<close>

lemma failure_states [simp]:
  "f_state (unknownFailure rule detail) = StateUnknown"
  "f_state (nonCompliant rule detail) = StateNonCompliant"
  by (simp_all add: unknownFailure_def nonCompliant_def)

lemmas eval_defs = evalOSBuildMin_def evalOSBuildMinPerRelease_def evalAgentVersionMin_def
  evalBitLocker_def bitlockerFailure_def evalTPM_def evalCheckedInWithin_def
  evalInventoryWithin_def evalUpdatesWithin_def evalNoPendingReboot_def evalMaxLocalAdmins_def
  softwareGap_def evalForbiddenSoftware_def evalRequiredSoftware_def evalProfileApplied_def
  evalDefenderRealtime_def evalDefenderSignaturesWithin_def evalFirewallEnabled_def
  evalMaxMissingSecurityUpdates_def

definition judged :: "failure option \<Rightarrow> bool" where
  "judged x \<longleftrightarrow> (case x of None \<Rightarrow> True | Some fl \<Rightarrow> f_state fl \<in> {StateUnknown, StateNonCompliant})"

lemma judgedI [simp]:
  "judged None" "judged (Some (unknownFailure rule detail))" "judged (Some (nonCompliant rule detail))"
  by (simp_all add: judged_def)

lemma judged_if: "judged x \<Longrightarrow> judged y \<Longrightarrow> judged (if b then x else y)"
  by simp

lemma judged_option: "judged x \<Longrightarrow> (\<And>a. judged (g a)) \<Longrightarrow> judged (case z of None \<Rightarrow> x | Some a \<Rightarrow> g a)"
  by (cases z) simp_all

lemma softwareGap_judged: "softwareGap t f = Some gap \<Longrightarrow> judged (Some gap)"
  by (auto simp: softwareGap_def split: option.splits if_splits)

lemma eval_judged:
  "judged (evalOSBuildMin r f)" "judged (evalOSBuildMinPerRelease r f)"
  "judged (evalAgentVersionMin r f)" "judged (evalBitLocker r f)" "judged (evalTPM r f)"
  "judged (evalCheckedInWithin r f now)" "judged (evalInventoryWithin r f now)"
  "judged (evalUpdatesWithin r f now)" "judged (evalNoPendingReboot r f)"
  "judged (evalMaxLocalAdmins r f)" "judged (evalProfileApplied r f)"
  "judged (evalDefenderRealtime r f)" "judged (evalDefenderSignaturesWithin r f now)"
  "judged (evalFirewallEnabled r f)" "judged (evalMaxMissingSecurityUpdates r f now)"
  unfolding eval_defs Let_def by (intro judged_if judged_option judgedI)+

lemma eval_software_judged: "judged (evalForbiddenSoftware r f)" "judged (evalRequiredSoftware r f)"
  using softwareGap_judged [of "r_type r" f]
  by (cases "softwareGap (r_type r) f";
      simp add: evalForbiddenSoftware_def evalRequiredSoftware_def Let_def)+

lemma evaluateRule_judged: "judged (evaluateRule r f now)"
  unfolding evaluateRule_def Let_def
  by (intro judged_if eval_judged eval_software_judged judgedI)

lemma evaluateRule_branch:
  "r_type r = RuleOSBuildMin \<Longrightarrow> evaluateRule r f now = evalOSBuildMin r f"
  "r_type r = RuleOSBuildMinPerRelease \<Longrightarrow> evaluateRule r f now = evalOSBuildMinPerRelease r f"
  "r_type r = RuleAgentVersionMin \<Longrightarrow> evaluateRule r f now = evalAgentVersionMin r f"
  "r_type r = RuleBitLocker \<Longrightarrow> evaluateRule r f now = evalBitLocker r f"
  "r_type r = RuleTPM \<Longrightarrow> evaluateRule r f now = evalTPM r f"
  "r_type r = RuleCheckedInWithin \<Longrightarrow> evaluateRule r f now = evalCheckedInWithin r f now"
  "r_type r = RuleInventoryWithin \<Longrightarrow> evaluateRule r f now = evalInventoryWithin r f now"
  "r_type r = RuleUpdatesWithin \<Longrightarrow> evaluateRule r f now = evalUpdatesWithin r f now"
  "r_type r = RuleNoPendingReboot \<Longrightarrow> evaluateRule r f now = evalNoPendingReboot r f"
  "r_type r = RuleMaxLocalAdmins \<Longrightarrow> evaluateRule r f now = evalMaxLocalAdmins r f"
  "r_type r = RuleForbiddenSoftware \<Longrightarrow> evaluateRule r f now = evalForbiddenSoftware r f"
  "r_type r = RuleRequiredSoftware \<Longrightarrow> evaluateRule r f now = evalRequiredSoftware r f"
  "r_type r = RuleProfileApplied \<Longrightarrow> evaluateRule r f now = evalProfileApplied r f"
  "r_type r = RuleDefenderRealtime \<Longrightarrow> evaluateRule r f now = evalDefenderRealtime r f"
  "r_type r = RuleDefenderSignaturesWithin \<Longrightarrow> evaluateRule r f now = evalDefenderSignaturesWithin r f now"
  "r_type r = RuleFirewallEnabled \<Longrightarrow> evaluateRule r f now = evalFirewallEnabled r f"
  "r_type r = RuleMaxMissingSecurityUpdates \<Longrightarrow> evaluateRule r f now = evalMaxMissingSecurityUpdates r f now"
  by (simp_all add: evaluateRule_def)

lemma Evaluate_sel:
  "res_failures (Evaluate rules f now) = List.map_filter (\<lambda>r. evaluateRule r f now) rules"
  "res_state (Evaluate rules f now) =
     (if \<exists>fl \<in> set (res_failures (Evaluate rules f now)). f_state fl = StateNonCompliant
      then StateNonCompliant
      else if \<exists>fl \<in> set (res_failures (Evaluate rules f now)). f_state fl = StateUnknown
      then StateUnknown else StateCompliant)"
  by (simp_all add: Evaluate_def Let_def list_ex_iff)

definition some_fails :: "string \<Rightarrow> rule list \<Rightarrow> facts \<Rightarrow> go_time \<Rightarrow> bool" where
  "some_fails st rules f now \<longleftrightarrow>
     (\<exists>r \<in> set rules. \<exists>fl. evaluateRule r f now = Some fl \<and> f_state fl = st)"

lemma Evaluate_some_fails:
  "res_state (Evaluate rules f now) =
     (if some_fails StateNonCompliant rules f now then StateNonCompliant
      else if some_fails StateUnknown rules f now then StateUnknown else StateCompliant)"
proof -
  have "(\<exists>fl \<in> set (res_failures (Evaluate rules f now)). f_state fl = st) \<longleftrightarrow>
      some_fails st rules f now" for st
    by (force simp: some_fails_def Evaluate_sel(1) map_filter_def)
  then show ?thesis unfolding Evaluate_sel(2) by presburger
qed

lemma no_failure_iff:
  "(\<forall>r \<in> set rules. evaluateRule r f now = None) \<longleftrightarrow>
     \<not> some_fails StateNonCompliant rules f now \<and> \<not> some_fails StateUnknown rules f now"
proof -
  have j: "f_state fl = StateUnknown \<or> f_state fl = StateNonCompliant"
    if "evaluateRule r f now = Some fl" for r fl
    using evaluateRule_judged [of r f now] that by (simp add: judged_def)
  show ?thesis
  proof (intro iffI ballI conjI)
    fix r assume none: "\<not> some_fails StateNonCompliant rules f now \<and> \<not> some_fails StateUnknown rules f now"
      and r: "r \<in> set rules"
    show "evaluateRule r f now = None"
    proof (cases "evaluateRule r f now")
      case (Some fl)
      with j r none show ?thesis unfolding some_fails_def by blast
    qed
  qed (simp_all add: some_fails_def)
qed

lemma Evaluate_compliant_iff:
  "res_state (Evaluate rules f now) = StateCompliant \<longleftrightarrow>
     (\<forall>r \<in> set rules. evaluateRule r f now = None)"
  unfolding Evaluate_some_fails no_failure_iff by simp

text \<open>
  C18. The verdict of a policy: it is compliant exactly when every rule is met,
  non-compliant exactly when some rule is known to be broken, and unknown exactly when no
  rule is known to be broken but some rule could not be judged.
\<close>

theorem Evaluate_state:
  "(res_state (Evaluate rules f now) = StateCompliant \<longleftrightarrow>
      list_all (\<lambda>r. evaluateRule r f now = None) rules)
   \<and> (res_state (Evaluate rules f now) = StateNonCompliant \<longleftrightarrow>
      (\<exists>r \<in> set rules. \<exists>fl. evaluateRule r f now = Some fl \<and> f_state fl = StateNonCompliant))
   \<and> (res_state (Evaluate rules f now) = StateUnknown \<longleftrightarrow>
      \<not> (\<exists>r \<in> set rules. \<exists>fl. evaluateRule r f now = Some fl \<and> f_state fl = StateNonCompliant)
      \<and> (\<exists>r \<in> set rules. evaluateRule r f now \<noteq> None))"
proof -
  have "(\<exists>r \<in> set rules. evaluateRule r f now \<noteq> None) \<longleftrightarrow>
      some_fails StateNonCompliant rules f now \<or> some_fails StateUnknown rules f now"
    using no_failure_iff [of rules f now] by (metis (no_types))
  then show ?thesis
    unfolding Evaluate_compliant_iff list_all_iff some_fails_def [symmetric]
    by (simp add: Evaluate_some_fails)
qed


section \<open>Rules about time\<close>

lemma within_limit:
  assumes "0 \<le> n" "n \<le> MaxHours"
  shows "time_sub now t > dur_mul n hour \<longleftrightarrow> \<not> now - t \<le> n * hour"
proof -
  have b: "0 \<le> n * hour" "n * hour \<le> 8760 * hour"
    using assms by (simp_all add: hour_def)
  then have "dur_mul n hour = n * hour"
    unfolding dur_mul_def by (intro wrap64_id) (simp_all add: min_int64_def max_int64_def hour_def)
  moreover have "time_sub now t \<le> n * hour \<longleftrightarrow> now - t \<le> n * hour"
    using b by (intro time_sub_le_iff) (simp_all add: min_int64_def max_int64_def hour_def)
  ultimately show ?thesis by (simp add: not_le [symmetric])
qed

lemma within_days:
  assumes "0 \<le> n" "n \<le> MaxDays"
  shows "time_sub now t > dur_mul (wrap64 (n * 24)) hour \<longleftrightarrow> \<not> now - t \<le> n * (24 * hour)"
proof -
  have "wrap64 (n * 24) = n * 24"
    using assms by (intro wrap64_id) (simp_all add: min_int64_def max_int64_def)
  then show ?thesis using within_limit [of "n * 24" now t] assms by (simp add: mult.assoc)
qed

lemma rule_ok_bounds:
  assumes "rule_ok p r"
  shows "r_type r = RuleCheckedInWithin \<or> r_type r = RuleInventoryWithin \<Longrightarrow>
      1 \<le> r_hours r \<and> r_hours r \<le> MaxHours"
    and "r_type r = RuleUpdatesWithin \<or> r_type r = RuleDefenderSignaturesWithin \<Longrightarrow>
      1 \<le> r_days r \<and> r_days r \<le> MaxDays"
    and "r_type r = RuleForbiddenSoftware \<or> r_type r = RuleRequiredSoftware \<Longrightarrow> r_name r \<noteq> []"
  using assms by (cases rule: rule_ok.cases; auto)+

text \<open>
  The four rules about age are exact. For a rule the parser accepted, the rule is met if
  and only if the event it asks about was reported and lies at most the configured number of
  hours or days before now: the arithmetic on durations never wraps, and the boundary
  instant itself is still compliant.
\<close>

theorem within_rules_exact:
  assumes "rule_ok p r"
  shows "(r_type r = RuleCheckedInWithin \<longrightarrow> (evaluateRule r f now = None \<longleftrightarrow>
      (\<exists>t. fa_last_seen_at f = Some t \<and> now - t \<le> r_hours r * hour)))
   \<and> (r_type r = RuleInventoryWithin \<longrightarrow> (evaluateRule r f now = None \<longleftrightarrow>
      (\<exists>t. fa_inventory_received_at f = Some t \<and> now - t \<le> r_hours r * hour)))
   \<and> (r_type r = RuleUpdatesWithin \<longrightarrow> (evaluateRule r f now = None \<longleftrightarrow>
      (\<exists>iv t. fa_inventory f = Some iv \<and> inv_last_update_installed_at iv = Some t
         \<and> now - t \<le> r_days r * (24 * hour))))
   \<and> (r_type r = RuleDefenderSignaturesWithin \<longrightarrow> (evaluateRule r f now = None \<longleftrightarrow>
      (\<exists>d t. defenderOf f = Some d \<and> df_signature_updated_at d = Some t
         \<and> now - t \<le> r_days r * (24 * hour))))"
proof (intro conjI impI)
  note b = rule_ok_bounds [OF assms]
  show "evaluateRule r f now = None \<longleftrightarrow>
      (\<exists>t. fa_last_seen_at f = Some t \<and> now - t \<le> r_hours r * hour)"
    if t: "r_type r = RuleCheckedInWithin"
    using b(1) within_limit [of "r_hours r" now] t
    unfolding evaluateRule_branch(6) [OF t] evalCheckedInWithin_def Let_def
    by (simp split: option.splits)
  show "evaluateRule r f now = None \<longleftrightarrow>
      (\<exists>t. fa_inventory_received_at f = Some t \<and> now - t \<le> r_hours r * hour)"
    if t: "r_type r = RuleInventoryWithin"
    using b(1) within_limit [of "r_hours r" now] t
    unfolding evaluateRule_branch(7) [OF t] evalInventoryWithin_def Let_def
    by (simp split: option.splits)
  show "evaluateRule r f now = None \<longleftrightarrow>
      (\<exists>iv t. fa_inventory f = Some iv \<and> inv_last_update_installed_at iv = Some t
         \<and> now - t \<le> r_days r * (24 * hour))"
    if t: "r_type r = RuleUpdatesWithin"
    using b(2) within_days [of "r_days r" now] t
    unfolding evaluateRule_branch(8) [OF t] evalUpdatesWithin_def Let_def
    by (cases "fa_inventory f") (simp_all split: option.splits)
  show "evaluateRule r f now = None \<longleftrightarrow>
      (\<exists>d t. defenderOf f = Some d \<and> df_signature_updated_at d = Some t
         \<and> now - t \<le> r_days r * (24 * hour))"
    if t: "r_type r = RuleDefenderSignaturesWithin"
    using b(2) within_days [of "r_days r" now] t
    unfolding evaluateRule_branch(15) [OF t] evalDefenderSignaturesWithin_def Let_def
    by (simp split: option.splits)
qed

definition no_facts :: facts where
  "no_facts = \<lparr>fa_os_build = [], fa_agent_version = [], fa_last_seen_at = None,
     fa_inventory = None, fa_inventory_received_at = None, fa_profile_status = (\<lambda>_. None)\<rparr>"

theorem within_rules_exact_witness:
  "evaluateRule ((zero_rule RuleCheckedInWithin)\<lparr>r_hours := 24\<rparr>)
     (no_facts\<lparr>fa_last_seen_at := Some 0\<rparr>) (24 * hour) = None
   \<and> evaluateRule ((zero_rule RuleCheckedInWithin)\<lparr>r_hours := 24\<rparr>)
     (no_facts\<lparr>fa_last_seen_at := Some 0\<rparr>) (24 * hour + 1) \<noteq> None"
proof -
  have ok: "rule_ok Some ((zero_rule RuleCheckedInWithin)\<lparr>r_hours := 24\<rparr>)"
    by (rule checkedInWithin) simp_all
  show ?thesis
    using within_rules_exact [OF ok, of "no_facts\<lparr>fa_last_seen_at := Some 0\<rparr>" "24 * hour"]
      within_rules_exact [OF ok, of "no_facts\<lparr>fa_last_seen_at := Some 0\<rparr>" "24 * hour + 1"]
    by simp
qed

lemma stale_mono: "now \<le> now' \<Longrightarrow> time_sub now t > d \<Longrightarrow> time_sub now' t > d"
  using time_sub_mono [of now now' t] by simp

lemma evaluateRule_antitone:
  assumes "now \<le> now'" "evaluateRule r f now' = None"
  shows "evaluateRule r f now = None"
proof -
  note mono = stale_mono [OF assms(1)]
  consider "r_type r = RuleCheckedInWithin" | "r_type r = RuleInventoryWithin"
    | "r_type r = RuleUpdatesWithin" | "r_type r = RuleDefenderSignaturesWithin"
    | "r_type r = RuleMaxMissingSecurityUpdates"
    | "evaluateRule r f now = evaluateRule r f now'"
    unfolding evaluateRule_def Let_def by argo
  then show ?thesis
  proof cases
    case 1
    with assms(2) mono show ?thesis unfolding evaluateRule_branch(6) [OF 1] evalCheckedInWithin_def Let_def
      by (auto split: option.splits if_splits)
  next
    case 2
    with assms(2) mono show ?thesis unfolding evaluateRule_branch(7) [OF 2] evalInventoryWithin_def Let_def
      by (auto split: option.splits if_splits)
  next
    case 3
    with assms(2) mono show ?thesis unfolding evaluateRule_branch(8) [OF 3] evalUpdatesWithin_def Let_def
      by (auto split: option.splits if_splits)
  next
    case 4
    with assms(2) mono show ?thesis
      unfolding evaluateRule_branch(15) [OF 4] evalDefenderSignaturesWithin_def Let_def
      by (auto split: option.splits if_splits)
  next
    case 5
    with assms(2) mono show ?thesis
      unfolding evaluateRule_branch(17) [OF 5] evalMaxMissingSecurityUpdates_def Let_def
      by (auto split: option.splits if_splits)
  qed (use assms in simp)
qed

text \<open>
  Silence never makes a device compliant: with the same facts on file, a device that
  would be compliant at a later instant is compliant now. So a compliant device that stops
  reporting can only fall out of compliance as time passes, and one that is not compliant
  never becomes so without new facts.
\<close>

theorem Evaluate_antitone_in_time:
  assumes "now \<le> now'" "res_state (Evaluate rules f now') = StateCompliant"
  shows "res_state (Evaluate rules f now) = StateCompliant"
  using assms evaluateRule_antitone unfolding Evaluate_compliant_iff by blast

theorem Evaluate_antitone_in_time_witness:
  "res_state (Evaluate [(zero_rule RuleInventoryWithin)\<lparr>r_hours := 1\<rparr>]
     (no_facts\<lparr>fa_inventory_received_at := Some 5\<rparr>) 6) = StateCompliant"
proof (rule Evaluate_antitone_in_time [of 6 "hour"])
  show "res_state (Evaluate [(zero_rule RuleInventoryWithin)\<lparr>r_hours := 1\<rparr>]
     (no_facts\<lparr>fa_inventory_received_at := Some 5\<rparr>) hour) = StateCompliant"
    by code_simp
qed (simp add: hour_def)


section \<open>Rules about the inventory\<close>

text \<open>
  A device that has sent no inventory is never judged on one: every rule that reads the
  inventory answers unknown, neither met nor broken.
\<close>

theorem no_inventory_unknown:
  assumes "fa_inventory f = None"
    and "r_type r \<in> {RuleOSBuildMinPerRelease, RuleBitLocker, RuleTPM, RuleUpdatesWithin,
      RuleNoPendingReboot, RuleMaxLocalAdmins, RuleForbiddenSoftware, RuleRequiredSoftware,
      RuleDefenderRealtime, RuleDefenderSignaturesWithin, RuleFirewallEnabled,
      RuleMaxMissingSecurityUpdates}"
  shows "\<exists>fl. evaluateRule r f now = Some fl \<and> f_state fl = StateUnknown"
  using assms(2)
  by (elim insertE emptyE; simp only: evaluateRule_branch; simp add: eval_defs defenderOf_def assms(1))

theorem no_inventory_unknown_witness:
  "\<exists>fl. evaluateRule (zero_rule RuleTPM) no_facts 0 = Some fl \<and> f_state fl = StateUnknown"
  by (rule no_inventory_unknown) (simp_all add: no_facts_def)

lemma matchSoftware_found:
  assumes "name \<noteq> []"
  shows "matchSoftware installed name = [] \<longleftrightarrow>
     \<not> (\<exists>s \<in> set installed. contains (to_lower s) (to_lower name))"
proof (cases "find (\<lambda>s. contains (to_lower s) (to_lower name)) installed")
  case None
  then have "\<not> (\<exists>s \<in> set installed. contains (to_lower s) (to_lower name))"
    by (simp add: find_None_iff)
  with None show ?thesis by (simp add: matchSoftware_def)
next
  case (Some s)
  then have "contains (to_lower s) (to_lower name)" "s \<in> set installed"
    by (auto dest: find_SomeD)
  moreover from this(1) assms have "s \<noteq> []" by (auto simp: contains_iff to_lower_def)
  ultimately show ?thesis using Some by (auto simp: matchSoftware_def)
qed

text \<open>
  The two software rules. For rules the parser accepted and an inventory that lists
  software, a forbidden name is a breach exactly when some installed package's name contains
  it, ignoring case, and a required name exactly when none does; with no software listed both
  are unknown.
\<close>

theorem software_rules_exact:
  assumes "rule_ok p r" "fa_inventory f = Some iv" "inv_software iv \<noteq> []"
  shows "(r_type r = RuleForbiddenSoftware \<longrightarrow> (evaluateRule r f now = None \<longleftrightarrow>
      \<not> (\<exists>s \<in> set (inv_software iv). contains (to_lower s) (to_lower (r_name r)))))
   \<and> (r_type r = RuleRequiredSoftware \<longrightarrow> (evaluateRule r f now = None \<longleftrightarrow>
      (\<exists>s \<in> set (inv_software iv). contains (to_lower s) (to_lower (r_name r)))))"
proof (intro conjI impI)
  have gap: "softwareGap t f = None" for t using assms(2,3) by (simp add: softwareGap_def)
  show "evaluateRule r f now = None \<longleftrightarrow>
      \<not> (\<exists>s \<in> set (inv_software iv). contains (to_lower s) (to_lower (r_name r)))"
    if t: "r_type r = RuleForbiddenSoftware"
    unfolding evaluateRule_branch(11) [OF t] evalForbiddenSoftware_def Let_def gap
    using matchSoftware_found [of "r_name r" "inv_software iv"] rule_ok_bounds(3) [OF assms(1)] t
    by (simp add: assms(2))
  show "evaluateRule r f now = None \<longleftrightarrow>
      (\<exists>s \<in> set (inv_software iv). contains (to_lower s) (to_lower (r_name r)))"
    if t: "r_type r = RuleRequiredSoftware"
    unfolding evaluateRule_branch(12) [OF t] evalRequiredSoftware_def Let_def gap
    using matchSoftware_found [of "r_name r" "inv_software iv"] rule_ok_bounds(3) [OF assms(1)] t
    by (simp add: assms(2))
qed

definition bare_inventory :: inventory where
  "bare_inventory = \<lparr>inv_os_build = [], inv_ubr = None, inv_tpm_present = False,
     inv_tpm_version = [], inv_disks = [], inv_software = [], inv_local_admins = [],
     inv_pending_reboot = False, inv_last_update_installed_at = None, inv_defender = None,
     inv_firewall = None, inv_windows_updates = None\<rparr>"

theorem software_rules_exact_witness:
  "evaluateRule ((zero_rule RuleForbiddenSoftware)\<lparr>r_name := ''zip''\<rparr>)
     (no_facts\<lparr>fa_inventory := Some (bare_inventory\<lparr>inv_software := [''WinZip'']\<rparr>)\<rparr>) 0 \<noteq> None"
proof -
  have ok: "rule_ok Some ((zero_rule RuleForbiddenSoftware)\<lparr>r_name := ''zip''\<rparr>)"
    by (rule forbiddenSoftware) simp_all
  have inv: "fa_inventory (no_facts\<lparr>fa_inventory := Some (bare_inventory\<lparr>inv_software := [''WinZip'']\<rparr>)\<rparr>)
      = Some (bare_inventory\<lparr>inv_software := [''WinZip'']\<rparr>)" by simp
  have "contains (to_lower ''WinZip'') (to_lower ''zip'')" by code_simp
  then show ?thesis using software_rules_exact [OF ok inv, of 0] by simp
qed

text \<open>
  The firewall rule: what is known to be wrong outranks what is not known. With the
  firewall reported, the rule is broken exactly when one of the profiles it checks (the ones
  it names, or all three) is off by the last report about it, and met exactly when each of
  them is reported on.
\<close>

theorem firewall_rule_exact:
  assumes "r_type r = RuleFirewallEnabled" "fa_inventory f = Some iv" "inv_firewall iv = Some reported"
  shows "(evaluateRule r f now = None \<longleftrightarrow>
      list_all (\<lambda>n. map_of (rev reported) n = Some True)
        (if r_profiles r = [] then firewallProfiles else r_profiles r))
   \<and> ((\<exists>fl. evaluateRule r f now = Some fl \<and> f_state fl = StateNonCompliant) \<longleftrightarrow>
      list_ex (\<lambda>n. map_of (rev reported) n = Some False)
        (if r_profiles r = [] then firewallProfiles else r_profiles r))"
proof -
  define names where "names = (if r_profiles r = [] then firewallProfiles else r_profiles r)"
  let ?off = "filter (\<lambda>n. map_of (rev reported) n = Some False) names"
  let ?missing = "filter (\<lambda>n. map_of (rev reported) n = None) names"
  have e: "evaluateRule r f now =
      (if ?off \<noteq> [] then Some (nonCompliant (r_type r) (''the firewall is off for: '' @ join_with '', '' ?off))
       else if ?missing \<noteq> [] then Some (unknownFailure (r_type r)
         (''firewall state is not reported for: '' @ join_with '', '' ?missing))
       else None)"
    using assms(2,3) unfolding evaluateRule_branch(16) [OF assms(1)] evalFirewallEnabled_def Let_def
    by (simp add: names_def)
  have "(?off = [] \<and> ?missing = []) \<longleftrightarrow> list_all (\<lambda>n. map_of (rev reported) n = Some True) names"
  proof -
    have "(x \<noteq> Some False \<and> x \<noteq> None) \<longleftrightarrow> x = Some True" for x :: "bool option" by (cases x) auto
    then show ?thesis unfolding filter_empty_conv list_all_iff ball_conj_distrib [symmetric] by simp
  qed
  moreover have "?off \<noteq> [] \<longleftrightarrow> list_ex (\<lambda>n. map_of (rev reported) n = Some False) names"
    unfolding filter_empty_conv list_ex_iff by blast
  ultimately show ?thesis unfolding e names_def [symmetric] by auto
qed

theorem firewall_rule_exact_witness:
  "\<exists>fl. evaluateRule (zero_rule RuleFirewallEnabled)
     (no_facts\<lparr>fa_inventory := Some (bare_inventory\<lparr>inv_firewall := Some [(''public'', False)]\<rparr>)\<rparr>) 0
       = Some fl \<and> f_state fl = StateNonCompliant"
proof -
  have "list_ex (\<lambda>n. map_of (rev [(''public'', False)]) n = Some False) firewallProfiles"
    by (simp add: firewallProfiles_def)
  then show ?thesis
    using firewall_rule_exact [of "zero_rule RuleFirewallEnabled"
        "no_facts\<lparr>fa_inventory := Some (bare_inventory\<lparr>inv_firewall := Some [(''public'', False)]\<rparr>)\<rparr>"
        "bare_inventory\<lparr>inv_firewall := Some [(''public'', False)]\<rparr>" "[(''public'', False)]" 0]
    by simp
qed

text \<open>A volume whose BitLocker status is none of on, off and unknown is unknown to the rule on
  the system volume, yet met under the rule on all volumes.\<close>

lemma bitlocker_blank_status:
  "evalBitLocker ((zero_rule RuleBitLocker)\<lparr>r_volumes := VolumesAll\<rparr>)
     (no_facts\<lparr>fa_inventory := Some (bare_inventory\<lparr>inv_disks := [\<lparr>d_name = ''C:'', d_bitlocker = []\<rparr>]\<rparr>)\<rparr>)
     = None"
  "evalBitLocker ((zero_rule RuleBitLocker)\<lparr>r_volumes := VolumesSystem\<rparr>)
     (no_facts\<lparr>fa_inventory := Some (bare_inventory\<lparr>inv_disks := [\<lparr>d_name = ''C:'', d_bitlocker = []\<rparr>]\<rparr>)\<rparr>)
     = Some (unknownFailure RuleBitLocker ''BitLocker status is unknown for C:'')"
  by code_simp+

end
