(* ===== verification/Assignments.thy ===== *)
theory Assignments
  imports Json "HOL-Library.Word" "HOL-Library.Product_Lexorder"
begin

text \<open>
  Which items reach a device: phased rollouts (\<^verbatim>\<open>src/internal/server/store/rollout.go\<close>, the
  validation in \<^verbatim>\<open>adminapi/groups.go\<close>) and assignments
  (\<^verbatim>\<open>src/internal/server/store/groups.go\<close>: \<^verbatim>\<open>CreateAssignment\<close>, \<^verbatim>\<open>EffectiveItems\<close>).
  The tables are lists of rows, and the SQL of each query is written out on them. The
  theorems: an item is effective exactly when some include admits the device and no exclude
  reaches it; it then appears once, with the options of the newest admitting include; a
  rollout only ever widens, and reaches everyone exactly at its \<^verbatim>\<open>FullAt\<close>.
\<close>

unbundle bit_operations_syntax

record rollout =
  ro_percent :: int
  ro_step_percent :: int
  ro_step_hours :: int

abbreviation zero_rollout :: rollout where
  "zero_rollout \<equiv> \<lparr>ro_percent = 0, ro_step_percent = 0, ro_step_hours = 0\<rparr>"

definition Phased :: "rollout \<Rightarrow> bool" where
  "Phased r \<longleftrightarrow> ro_percent r > 0 \<and> ro_percent r < 100"

definition Current :: "rollout \<Rightarrow> go_time \<Rightarrow> go_time \<Rightarrow> int" where
  "Current r since now =
     (if \<not> Phased r then 100
      else let p = ro_percent r;
               p' = (if ro_step_percent r > 0 \<and> ro_step_hours r > 0 \<and> now > since
                     then wrap64 (p + wrap64 (quot (time_sub now since) (dur_mul (ro_step_hours r) hour)
                                              * ro_step_percent r))
                     else p)
           in min p' 100)"

text \<open>\<open>None\<close> is the zero time: never.\<close>

definition FullAt :: "rollout \<Rightarrow> go_time \<Rightarrow> go_time option" where
  "FullAt r since =
     (if \<not> Phased r then Some since
      else if ro_step_percent r \<le> 0 \<or> ro_step_hours r \<le> 0 then None
      else let steps = quot (100 - ro_percent r + ro_step_percent r - 1) (ro_step_percent r)
           in Some (time_add since (dur_mul (wrap64 (steps * ro_step_hours r)) hour)))"

text \<open>\<^verbatim>\<open>hash/fnv\<close>'s 64-bit FNV-1a.\<close>

definition fnv64a :: "string \<Rightarrow> 64 word" where
  "fnv64a s = foldl (\<lambda>h c. (h XOR of_nat (byte c)) * 1099511628211) 14695981039346656037 s"

definition RolloutBucket :: "uuid \<Rightarrow> uuid \<Rightarrow> int" where
  "RolloutBucket itemID deviceID = int (unat (fnv64a (itemID @ deviceID)) mod 100)"

definition RolloutAdmits :: "uuid \<Rightarrow> uuid \<Rightarrow> int \<Rightarrow> bool" where
  "RolloutAdmits itemID deviceID percent \<longleftrightarrow> percent \<ge> 100 \<or> RolloutBucket itemID deviceID < percent"

abbreviation "ModeInclude \<equiv> ''include''"
abbreviation "ModeExclude \<equiv> ''exclude''"
abbreviation "ItemKindCompliance \<equiv> ''compliance''"
abbreviation "ItemKindWindow \<equiv> ''window''"

text \<open>\<^verbatim>\<open>parseRollout\<close> on a request's mode, item kind and optional rollout; \<open>Inl\<close> is the message
  of the refusal.\<close>

datatype rollout_error = NotPhaseable | PercentOutOfRange | StepOutOfRange | StepsGoTogether

definition parseRollout :: "string \<Rightarrow> string \<Rightarrow> rollout option \<Rightarrow> rollout_error + rollout" where
  "parseRollout mode itemKind req =
     (case req of
        None \<Rightarrow> Inr zero_rollout
      | Some r \<Rightarrow>
          if ro_percent r = 100 \<and> ro_step_percent r = 0 \<and> ro_step_hours r = 0 then Inr zero_rollout
          else if mode \<noteq> ModeInclude \<or> itemKind = ItemKindCompliance \<or> itemKind = ItemKindWindow
          then Inl NotPhaseable
          else if ro_percent r < 1 \<or> ro_percent r > 100 then Inl PercentOutOfRange
          else if ro_step_percent r < 0 \<or> ro_step_percent r > 100 \<or> ro_step_hours r < 0
                  \<or> ro_step_hours r > 720 then Inl StepOutOfRange
          else if (ro_step_percent r = 0) \<noteq> (ro_step_hours r = 0) then Inl StepsGoTogether
          else Inr \<lparr>ro_percent = ro_percent r, ro_step_percent = ro_step_percent r,
                    ro_step_hours = ro_step_hours r\<rparr>)"

record assignment =
  as_id :: uuid
  as_kind :: string
  as_item :: uuid
  as_group :: uuid
  as_mode :: string
  as_created_at :: go_time
  as_created_by :: string
  as_options :: "string option"
  as_rollout :: rollout

definition rolloutPercent :: "rollout \<Rightarrow> int" where
  "rolloutPercent r = (if Phased r then ro_percent r else 100)"

definition same_triple :: "assignment \<Rightarrow> assignment \<Rightarrow> bool" where
  "same_triple a b \<longleftrightarrow> as_kind a = as_kind b \<and> as_item a = as_item b
     \<and> as_group a = as_group b \<and> as_mode a = as_mode b"

text \<open>The row keeps its id across a replacement, and the id that was written is returned.\<close>

definition CreateAssignment :: "assignment \<Rightarrow> assignment list \<Rightarrow> uuid \<times> assignment list" where
  "CreateAssignment a tbl =
     (let row = a\<lparr>as_options := Some (case as_options a of None \<Rightarrow> ''{}'' | Some opts \<Rightarrow> opts),
                 as_rollout := (as_rollout a)\<lparr>ro_percent := rolloutPercent (as_rollout a)\<rparr>\<rparr> in
      case find (same_triple a) tbl of
        None \<Rightarrow> (as_id a, tbl @ [row])
      | Some old \<Rightarrow>
          (as_id old, map (\<lambda>b. if same_triple a b then row\<lparr>as_id := as_id b\<rparr> else b) tbl))"

definition DeleteAssignmentsForItem :: "string \<Rightarrow> uuid \<Rightarrow> assignment list \<Rightarrow> assignment list" where
  "DeleteAssignmentsForItem kind itemID tbl =
     filter (\<lambda>a. \<not> (as_kind a = kind \<and> as_item a = itemID)) tbl"

definition DeleteAssignment :: "uuid \<Rightarrow> assignment list \<Rightarrow> assignment list" where
  "DeleteAssignment i tbl = filter (\<lambda>a. as_id a \<noteq> i) tbl"

record item =
  it_kind :: string
  it_id :: uuid
  it_options :: "string option"

type_synonym members = "(uuid \<times> uuid) list"

definition reaches :: "members \<Rightarrow> uuid \<Rightarrow> assignment \<Rightarrow> bool" where
  "reaches gm device a \<longleftrightarrow> (as_group a, device) \<in> set gm"

definition excluded :: "members \<Rightarrow> assignment list \<Rightarrow> uuid \<Rightarrow> string \<Rightarrow> uuid \<Rightarrow> bool" where
  "excluded gm tbl device kind itemID \<longleftrightarrow>
     list_ex (\<lambda>x. as_mode x = ModeExclude \<and> reaches gm device x
                 \<and> as_kind x = kind \<and> as_item x = itemID) tbl"

text \<open>The SELECT of \<^verbatim>\<open>EffectiveItems\<close>, ordered by kind, item and newest first.\<close>

definition includeRows :: "members \<Rightarrow> assignment list \<Rightarrow> uuid \<Rightarrow> assignment list" where
  "includeRows gm tbl device =
     sort_key (\<lambda>a. (as_kind a, as_item a, - as_created_at a))
       (filter (\<lambda>a. as_mode a = ModeInclude \<and> reaches gm device a
                   \<and> \<not> excluded gm tbl device (as_kind a) (as_item a)) tbl)"

definition admits :: "uuid \<Rightarrow> go_time \<Rightarrow> assignment \<Rightarrow> bool" where
  "admits device now a \<longleftrightarrow>
     RolloutAdmits (as_item a) device (Current (as_rollout a) (as_created_at a) now)"

fun scanItems :: "uuid \<Rightarrow> go_time \<Rightarrow> (string \<times> uuid) list \<Rightarrow> assignment list \<Rightarrow> item list" where
  "scanItems device now seen [] = []"
| "scanItems device now seen (a # rows) =
     (let k = (as_kind a, as_item a) in
      if k \<in> set seen \<or> \<not> admits device now a then scanItems device now seen rows
      else \<lparr>it_kind = as_kind a, it_id = as_item a, it_options = as_options a\<rparr>
           # scanItems device now (k # seen) rows)"

definition EffectiveItems :: "members \<Rightarrow> assignment list \<Rightarrow> uuid \<Rightarrow> go_time \<Rightarrow> item list" where
  "EffectiveItems gm tbl device now = scanItems device now [] (includeRows gm tbl device)"

section \<open>Rollouts\<close>

text \<open>What the database accepts, which is what \<^verbatim>\<open>parseRollout\<close> lets through.\<close>

definition rollout_ok :: "rollout \<Rightarrow> bool" where
  "rollout_ok r \<longleftrightarrow> 0 \<le> ro_percent r \<and> ro_percent r \<le> 100 \<and> 0 \<le> ro_step_percent r
     \<and> ro_step_percent r \<le> 100 \<and> 0 \<le> ro_step_hours r \<and> ro_step_hours r \<le> 720
     \<and> (ro_step_percent r = 0 \<longleftrightarrow> ro_step_hours r = 0)"

lemma parseRollout_ok: "parseRollout mode kind req = Inr r \<Longrightarrow> rollout_ok r"
  by (auto simp: parseRollout_def rollout_ok_def split: option.splits if_splits)

definition stepping :: "rollout \<Rightarrow> bool" where
  "stepping r \<longleftrightarrow> ro_step_percent r > 0 \<and> ro_step_hours r > 0"

text \<open>The number of whole steps between two instants, with the saturated difference.\<close>

definition steps_at :: "rollout \<Rightarrow> go_time \<Rightarrow> go_time \<Rightarrow> int" where
  "steps_at r since now = time_sub now since div (ro_step_hours r * hour)"

lemma dur_hours:
  assumes "0 \<le> n" "n \<le> 100000"
  shows "dur_mul n hour = n * hour"
  unfolding dur_mul_def using assms
  by (intro wrap64_id) (simp_all add: min_int64_def max_int64_def hour_def)

lemma steps_at_bounds:
  assumes "rollout_ok r" "stepping r" "since < now"
  shows "0 \<le> steps_at r since now" "steps_at r since now \<le> 3000000"
proof -
  have d: "0 < time_sub now since" "time_sub now since \<le> max_int64"
    using assms(3) by (auto simp: time_sub_def min_int64_def max_int64_def)
  have h: "1 * hour \<le> ro_step_hours r * hour"
    using assms(2) by (intro mult_right_mono) (auto simp: stepping_def hour_def)
  then have pos: "0 < ro_step_hours r * hour" by (simp add: hour_def)
  show "0 \<le> steps_at r since now"
    using d pos by (simp add: steps_at_def pos_imp_zdiv_nonneg_iff)
  have "steps_at r since now \<le> max_int64 div (ro_step_hours r * hour)"
    unfolding steps_at_def using d pos by (intro zdiv_mono1) simp_all
  also have "\<dots> \<le> max_int64 div hour"
    using h pos by (intro zdiv_mono2) (simp_all add: max_int64_def hour_def)
  also have "\<dots> \<le> 3000000" by (simp add: max_int64_def hour_def)
  finally show "steps_at r since now \<le> 3000000" .
qed

lemma Current_steps:
  assumes "rollout_ok r" "Phased r"
  shows "Current r since now =
    (if stepping r \<and> since < now then min 100 (ro_percent r + steps_at r since now * ro_step_percent r)
     else ro_percent r)"
proof (cases "stepping r \<and> since < now")
  case True
  note b = steps_at_bounds [OF assms(1) conjunct1 [OF True] conjunct2 [OF True]]
  have r: "0 \<le> ro_percent r" "ro_percent r \<le> 100" "0 \<le> ro_step_percent r" "ro_step_percent r \<le> 100"
    "0 < ro_step_hours r" "ro_step_hours r \<le> 720"
    using assms(1) True by (auto simp: rollout_ok_def stepping_def)
  have d: "dur_mul (ro_step_hours r) hour = ro_step_hours r * hour" using r by (intro dur_hours) auto
  have "0 \<le> time_sub now since" using True by (auto simp: time_sub_def min_int64_def max_int64_def)
  then have q: "quot (time_sub now since) (dur_mul (ro_step_hours r) hour) = steps_at r since now"
    using r unfolding d steps_at_def by (intro quot_nonneg) (simp_all add: hour_def)
  have m: "0 \<le> steps_at r since now * ro_step_percent r"
    "steps_at r since now * ro_step_percent r \<le> 3000000 * 100"
    using b r by (simp, intro mult_mono) auto
  then have w: "wrap64 (steps_at r since now * ro_step_percent r) = steps_at r since now * ro_step_percent r"
    by (intro wrap64_id) (simp_all add: min_int64_def max_int64_def)
  have "wrap64 (ro_percent r + steps_at r since now * ro_step_percent r)
      = ro_percent r + steps_at r since now * ro_step_percent r"
    using m r by (intro wrap64_id) (simp_all add: min_int64_def max_int64_def)
  with True assms(2) show ?thesis by (simp add: Current_def q w stepping_def min.commute)
next
  case False
  then show ?thesis using assms by (auto simp: Current_def stepping_def Phased_def)
qed


lemma steps_at_mono:
  assumes "now \<le> now'" "stepping r"
  shows "steps_at r since now \<le> steps_at r since now'"
  unfolding steps_at_def using time_sub_mono [OF assms(1)] assms(2)
  by (intro zdiv_mono1) (simp_all add: stepping_def hour_def)

lemma Current_mono:
  assumes "rollout_ok r" "now \<le> now'"
  shows "Current r since now \<le> Current r since now'"
proof (cases "Phased r")
  case True
  have "0 \<le> ro_step_percent r" using assms(1) by (simp add: rollout_ok_def)
  then have "steps_at r since now * ro_step_percent r \<le> steps_at r since now' * ro_step_percent r"
    if "stepping r" using steps_at_mono [OF assms(2) that] by (intro mult_right_mono)
  moreover have "0 \<le> steps_at r since now' * ro_step_percent r" if "stepping r" "since < now'"
    using steps_at_bounds(1) [OF assms(1) that] \<open>0 \<le> ro_step_percent r\<close> by simp
  moreover have "ro_percent r \<le> 100" using True by (simp add: Phased_def)
  ultimately show ?thesis using assms(2) by (auto simp: Current_steps [OF assms(1) True] min_le_iff_disj)
qed (simp add: Current_def)

text \<open>
  A phased rollout reaches the whole group exactly at the instant the console shows for
  it: at any instant the share reached is 100 percent if and only if \<^verbatim>\<open>FullAt\<close> is not
  later, and a rollout without a \<^verbatim>\<open>FullAt\<close> never gets there.
\<close>

theorem FullAt_exact:
  assumes "rollout_ok r" "Phased r"
  shows "Current r since now = 100 \<longleftrightarrow> (case FullAt r since of None \<Rightarrow> False | Some t \<Rightarrow> t \<le> now)"
proof (cases "stepping r")
  case False
  then have "FullAt r since = None" using assms(2) by (auto simp: FullAt_def stepping_def)
  moreover have "Current r since now = ro_percent r"
    using False Current_steps [OF assms] by simp
  ultimately show ?thesis using assms(2) by (simp add: Phased_def)
next
  case True
  let ?p = "ro_percent r" and ?s = "ro_step_percent r" and ?h = "ro_step_hours r"
  have r: "0 < ?p" "?p < 100" "0 < ?s" "?s \<le> 100" "0 < ?h" "?h \<le> 720"
    using assms True by (auto simp: rollout_ok_def stepping_def Phased_def)
  define n where "n = (99 - ?p + ?s) div ?s"
  have n_eq: "n = (99 - ?p) div ?s + 1" unfolding n_def using r by (simp add: div_add_self2)
  have n: "1 \<le> n" "n \<le> 99"
  proof -
    have "?s div ?s \<le> n" unfolding n_def using r by (intro zdiv_mono1) simp_all
    then show "1 \<le> n" using r by simp
    have "(99 - ?p) div ?s \<le> (99 - ?p) div 1" using r by (intro zdiv_mono2) simp_all
    then show "n \<le> 99" using r n_eq by simp
  qed
  have nh: "0 \<le> n * ?h" "n * ?h \<le> 99 * 720" using n r by (simp, intro mult_mono) simp_all
  have "quot (100 - ?p + ?s - 1) ?s = n"
    using r by (simp add: quot_nonneg n_def algebra_simps)
  moreover have "wrap64 (n * ?h) = n * ?h"
    using nh by (intro wrap64_id) (simp_all add: min_int64_def max_int64_def)
  moreover have "dur_mul (n * ?h) hour = n * ?h * hour" using nh by (intro dur_hours) simp_all
  ultimately have full: "FullAt r since = Some (since + n * ?h * hour)"
    using assms(2) r by (simp add: FullAt_def Let_def time_add_def)
  have nh': "0 < n * ?h * hour" "n * ?h * hour \<le> 99 * 720 * hour"
    using n r nh by (simp_all add: hour_def)
  have reach: "100 \<le> ?p + k * ?s \<longleftrightarrow> n \<le> k" for k
  proof -
    have "n \<le> k \<longleftrightarrow> (99 - ?p) div ?s < k" unfolding n_eq by linarith
    also have "\<dots> \<longleftrightarrow> 99 - ?p < k * ?s" using r by (simp add: int_div_less_iff)
    finally show ?thesis by linarith
  qed
  show ?thesis
  proof (cases "since < now")
    case True
    have "n \<le> steps_at r since now \<longleftrightarrow> n * (?h * hour) \<le> time_sub now since"
      unfolding steps_at_def using r by (intro int_le_div_iff) (simp add: hour_def)
    also have "\<dots> \<longleftrightarrow> since + n * ?h * hour \<le> now"
      using nh' by (auto simp: time_sub_def min_int64_def max_int64_def hour_def mult.assoc)
    finally show ?thesis
      using True \<open>stepping r\<close> reach [of "steps_at r since now"] Current_steps [OF assms]
      by (simp add: full) linarith
  next
    case False
    then have "Current r since now = ?p" using Current_steps [OF assms] by simp
    then show ?thesis using False r nh' by (simp add: full)
  qed
qed


theorem FullAt_exact_witness:
  "Current \<lparr>ro_percent = 10, ro_step_percent = 45, ro_step_hours = 24\<rparr> 0 (48 * hour) = 100
   \<and> Current \<lparr>ro_percent = 10, ro_step_percent = 45, ro_step_hours = 24\<rparr> 0 (48 * hour - 1) \<noteq> 100"
proof -
  let ?r = "\<lparr>ro_percent = 10, ro_step_percent = 45, ro_step_hours = 24\<rparr> :: rollout"
  have ok: "rollout_ok ?r" "Phased ?r" by (simp_all add: rollout_ok_def Phased_def)
  have "FullAt ?r 0 = Some (48 * hour)" by code_simp
  then show ?thesis using FullAt_exact [OF ok, of 0 "48 * hour"] FullAt_exact [OF ok, of 0 "48 * hour - 1"]
    by simp
qed

section \<open>Effective items\<close>

abbreviation key_of :: "assignment \<Rightarrow> string \<times> uuid" where
  "key_of a \<equiv> (as_kind a, as_item a)"

abbreviation item_key :: "item \<Rightarrow> string \<times> uuid" where
  "item_key it \<equiv> (it_kind it, it_id it)"

definition item_of :: "assignment \<Rightarrow> item" where
  "item_of a = \<lparr>it_kind = as_kind a, it_id = as_item a, it_options = as_options a\<rparr>"

lemma item_key_of [simp]: "it_kind (item_of a) = as_kind a" "it_id (item_of a) = as_item a"
  "it_options (item_of a) = as_options a"
  by (simp_all add: item_of_def)

lemma scanItems_first:
  "it \<in> set (scanItems device now seen rows) \<Longrightarrow>
     \<exists>pre a post. rows = pre @ a # post \<and> it = item_of a \<and> admits device now a
       \<and> key_of a \<notin> set seen \<and> (\<forall>b \<in> set pre. key_of b = key_of a \<longrightarrow> \<not> admits device now b)"
proof (induction device now seen rows rule: scanItems.induct)
  case (2 device now seen a rows)
  show ?case
  proof (cases "key_of a \<in> set seen \<or> \<not> admits device now a")
    case True
    with 2 obtain pre b post where b: "rows = pre @ b # post" "it = item_of b" "admits device now b"
      "key_of b \<notin> set seen" "\<forall>c \<in> set pre. key_of c = key_of b \<longrightarrow> \<not> admits device now c"
      by (auto simp: Let_def)
    with True show ?thesis by (intro exI [of _ "a # pre"] exI [of _ b] exI [of _ post]) auto
  next
    case False
    with "2.prems" have "it = item_of a \<or> it \<in> set (scanItems device now (key_of a # seen) rows)"
      by (auto simp: Let_def item_of_def)
    then show ?thesis
    proof
      assume "it = item_of a"
      with False show ?thesis by (intro exI [of _ "[]"] exI [of _ a] exI [of _ rows]) simp
    next
      assume "it \<in> set (scanItems device now (key_of a # seen) rows)"
      with 2 False obtain pre b post where b: "rows = pre @ b # post" "it = item_of b"
        "admits device now b" "key_of b \<notin> set (key_of a # seen)"
        "\<forall>c \<in> set pre. key_of c = key_of b \<longrightarrow> \<not> admits device now c"
        by (metis (no_types, lifting))
      then show ?thesis by (intro exI [of _ "a # pre"] exI [of _ b] exI [of _ post]) auto
    qed
  qed
qed simp

lemma scanItems_complete:
  "a \<in> set rows \<Longrightarrow> admits device now a \<Longrightarrow> key_of a \<notin> set seen \<Longrightarrow>
     \<exists>it \<in> set (scanItems device now seen rows). item_key it = key_of a"
proof (induction device now seen rows rule: scanItems.induct)
  case (2 device now seen b rows)
  show ?case
  proof (cases "key_of b \<in> set seen \<or> \<not> admits device now b")
    case True
    with 2 have "a \<in> set rows" by auto
    with 2 True show ?thesis by (simp add: Let_def)
  next
    case False
    show ?thesis
    proof (cases "key_of b = key_of a")
      case False
      with "2.prems" have "a \<in> set rows" "key_of a \<notin> set (key_of b # seen)" by auto
      with 2 \<open>\<not> (key_of b \<in> set seen \<or> \<not> admits device now b)\<close> show ?thesis by (simp add: Let_def)
    qed (use False in \<open>simp add: Let_def\<close>)
  qed
qed simp

lemma scanItems_distinct:
  "distinct (map item_key (scanItems device now seen rows))
   \<and> item_key ` set (scanItems device now seen rows) \<inter> set seen = {}"
  by (induction device now seen rows rule: scanItems.induct) (auto simp: Let_def)

lemma in_includeRows:
  "a \<in> set (includeRows gm tbl device) \<longleftrightarrow>
     a \<in> set tbl \<and> as_mode a = ModeInclude \<and> reaches gm device a
     \<and> \<not> excluded gm tbl device (as_kind a) (as_item a)"
  by (simp add: includeRows_def)

lemma EffectiveItems_keys:
  "(k, i) \<in> item_key ` set (EffectiveItems gm tbl device now) \<longleftrightarrow>
     \<not> excluded gm tbl device k i
     \<and> (\<exists>a \<in> set tbl. as_mode a = ModeInclude \<and> key_of a = (k, i) \<and> reaches gm device a
          \<and> admits device now a)" (is "?L \<longleftrightarrow> ?R")
proof
  assume ?L
  then obtain it where it: "it \<in> set (scanItems device now [] (includeRows gm tbl device))"
    "item_key it = (k, i)" unfolding EffectiveItems_def by (metis (no_types, lifting) imageE)
  from scanItems_first [OF it(1)] obtain pre a post
    where "includeRows gm tbl device = pre @ a # post" "it = item_of a" "admits device now a"
    by blast
  then have "a \<in> set (includeRows gm tbl device)" "it = item_of a" "admits device now a" by simp_all
  then show ?R using it(2) by (auto simp: in_includeRows)
next
  assume ?R
  then obtain a where a: "a \<in> set tbl" "as_mode a = ModeInclude" "key_of a = (k, i)"
    "reaches gm device a" "admits device now a" "\<not> excluded gm tbl device k i" by blast
  then have "a \<in> set (includeRows gm tbl device)" by (simp add: in_includeRows)
  then have "\<exists>it \<in> set (scanItems device now [] (includeRows gm tbl device)). item_key it = key_of a"
    using a(5) by (rule scanItems_complete) simp
  then show ?L unfolding EffectiveItems_def a(3) by force
qed

text \<open>
  C1. What reaches a device: an item is among a device's effective items exactly when one of
  the device's groups includes it through an assignment whose rollout admits the device, and
  no group of the device excludes it, wherever the exclusion comes from. No item appears
  twice.
\<close>

theorem EffectiveItems_exact:
  "((k, i) \<in> item_key ` set (EffectiveItems gm tbl device now) \<longleftrightarrow>
     \<not> (\<exists>x \<in> set tbl. as_mode x = ModeExclude \<and> as_kind x = k \<and> as_item x = i
          \<and> (as_group x, device) \<in> set gm)
     \<and> (\<exists>a \<in> set tbl. as_mode a = ModeInclude \<and> as_kind a = k \<and> as_item a = i
          \<and> (as_group a, device) \<in> set gm
          \<and> RolloutAdmits i device (Current (as_rollout a) (as_created_at a) now)))
   \<and> distinct (map item_key (EffectiveItems gm tbl device now))"
  using EffectiveItems_keys [of k i gm tbl device now]
    scanItems_distinct [of device now "[]" "includeRows gm tbl device"]
  by (auto simp: excluded_def list_ex_iff reaches_def admits_def EffectiveItems_def)

text \<open>
  The conflict rule: the options an effective item carries are those of an include that
  admits the device, and no other include of the item that admits the device is newer.
\<close>

theorem EffectiveItems_newest:
  assumes "it \<in> set (EffectiveItems gm tbl device now)"
  shows "\<exists>a \<in> set tbl. as_mode a = ModeInclude \<and> item_of a = it \<and> reaches gm device a
     \<and> admits device now a
     \<and> (\<forall>b \<in> set tbl. as_mode b = ModeInclude \<and> key_of b = item_key it \<and> reaches gm device b
          \<and> admits device now b \<longrightarrow> as_created_at b \<le> as_created_at a)"
proof -
  let ?rows = "includeRows gm tbl device"
  obtain pre a post where a: "?rows = pre @ a # post" "it = item_of a" "admits device now a"
    and first: "\<forall>b \<in> set pre. key_of b = key_of a \<longrightarrow> \<not> admits device now b"
    using scanItems_first assms unfolding EffectiveItems_def by blast
  have mem: "a \<in> set ?rows" by (simp add: a(1))
  have "sorted (map (\<lambda>a. (as_kind a, as_item a, - as_created_at a)) ?rows)"
    by (simp add: includeRows_def)
  then have later: "(as_kind a, as_item a, - as_created_at a) \<le> (as_kind b, as_item b, - as_created_at b)"
    if "b \<in> set post" for b using that by (simp add: a(1) sorted_append)
  have "as_created_at b \<le> as_created_at a"
    if b: "b \<in> set tbl" "as_mode b = ModeInclude" "key_of b = item_key it" "reaches gm device b"
      "admits device now b" for b
  proof -
    have "b \<in> set ?rows" using b mem by (simp add: in_includeRows a(2))
    moreover have "b \<notin> set pre" using first b by (auto simp: a(2))
    ultimately have "b = a \<or> b \<in> set post" by (auto simp: a(1))
    then show ?thesis
    proof
      assume "b \<in> set post"
      from later [OF this] b(3) show ?thesis by (simp add: a(2))
    qed simp
  qed
  moreover have "a \<in> set tbl" "as_mode a = ModeInclude" "reaches gm device a"
    using mem unfolding in_includeRows by blast+
  ultimately show ?thesis using a(2,3) by (intro bexI [of _ a]) auto
qed

definition sample_assignment :: assignment where
  "sample_assignment = \<lparr>as_id = ''1'', as_kind = ''app'', as_item = ''i'', as_group = ''g'',
     as_mode = ModeInclude, as_created_at = 7, as_created_by = ''a'', as_options = None,
     as_rollout = zero_rollout\<rparr>"

theorem EffectiveItems_newest_witness:
  "\<exists>a \<in> set [sample_assignment]. as_mode a = ModeInclude
     \<and> item_of a = item_of sample_assignment \<and> reaches [(''g'', ''d'')] ''d'' a
     \<and> admits ''d'' 9 a
     \<and> (\<forall>b \<in> set [sample_assignment]. as_mode b = ModeInclude \<and> key_of b = item_key (item_of sample_assignment)
          \<and> reaches [(''g'', ''d'')] ''d'' b \<and> admits ''d'' 9 b \<longrightarrow> as_created_at b \<le> as_created_at a)"
proof (rule EffectiveItems_newest)
  show "item_of sample_assignment \<in> set (EffectiveItems [(''g'', ''d'')] [sample_assignment] ''d'' 9)"
    by (simp add: EffectiveItems_def includeRows_def sample_assignment_def reaches_def excluded_def
        admits_def RolloutAdmits_def Current_def Phased_def item_of_def)
qed

text \<open>
  A rollout only widens. With the groups and the assignments unchanged, a device that has
  an item keeps it at every later instant.
\<close>

theorem EffectiveItems_widens:
  assumes "now \<le> now'" "list_all (\<lambda>a. rollout_ok (as_rollout a)) tbl"
    and "it \<in> set (EffectiveItems gm tbl device now)"
  shows "\<exists>it' \<in> set (EffectiveItems gm tbl device now'). item_key it' = item_key it"
proof -
  have "item_key it \<in> item_key ` set (EffectiveItems gm tbl device now)" using assms(3) by blast
  then obtain a where a: "a \<in> set tbl" "as_mode a = ModeInclude" "key_of a = item_key it"
    "reaches gm device a" "admits device now a" "\<not> excluded gm tbl device (it_kind it) (it_id it)"
    using EffectiveItems_keys by blast
  have "Current (as_rollout a) (as_created_at a) now \<le> Current (as_rollout a) (as_created_at a) now'"
    using assms(1,2) a(1) by (intro Current_mono) (simp_all add: list_all_iff)
  with a(5) have "admits device now' a" by (auto simp: admits_def RolloutAdmits_def)
  with a have "item_key it \<in> item_key ` set (EffectiveItems gm tbl device now')"
    using EffectiveItems_keys by blast
  then show ?thesis by force
qed

theorem EffectiveItems_widens_witness:
  "\<exists>it' \<in> set (EffectiveItems [(''g'', ''d'')] [sample_assignment] ''d'' 10).
     item_key it' = item_key (item_of sample_assignment)"
proof (rule EffectiveItems_widens)
  show "(9::int) \<le> 10" by simp
  show "list_all (\<lambda>a. rollout_ok (as_rollout a)) [sample_assignment]"
    by (simp add: rollout_ok_def sample_assignment_def)
  show "item_of sample_assignment \<in> set (EffectiveItems [(''g'', ''d'')] [sample_assignment] ''d'' 9)"
    by (simp add: EffectiveItems_def includeRows_def sample_assignment_def reaches_def excluded_def
        admits_def RolloutAdmits_def Current_def Phased_def item_of_def)
qed

end
