(* ===== verification/Compliance_Service.thy ===== *)
theory Compliance_Service
  imports Compliance_Eval Assignments
begin

text \<open>
  The compliance service (\<^verbatim>\<open>src/internal/server/compliance/service.go\<close>) over the tables it
  keeps (\<^verbatim>\<open>src/internal/server/store/compliance.go\<close>, \<^verbatim>\<open>itemstatus.go\<close>): creating, updating
  and deleting policies, and \<^verbatim>\<open>EvaluateDevice\<close> with everything it writes. A transaction that
  fails returns its error and no new state. Failures of the database itself and of encoding
  are not modelled, nor is the audit log. The theorems: after an evaluation the device's rows
  are exactly the verdicts of the policies that apply to it, mirrored row by row into the
  item statuses, and nothing else changed; evaluating again at once changes nothing; and a
  deleted policy leaves nothing behind.
\<close>

record policy =
  p_id :: uuid
  p_name :: string
  p_description :: string
  p_rules :: "json option"
  p_created_at :: go_time
  p_updated_at :: go_time
  p_created_by :: string

record compliance_row =
  c_state :: string
  c_failures :: "failure list"
  c_evaluated_at :: go_time

record item_status =
  s_status :: string
  s_detail :: string
  s_version :: int
  s_updated_at :: go_time

record device =
  dev_os_build :: string
  dev_agent_version :: string
  dev_last_seen_at :: "go_time option"

text \<open>The stored inventory of a device: what its JSON decodes to, \<open>None\<close> if it does not, and
  when it was received.\<close>

record cstore =
  cs_policies :: "policy list"
  cs_assignments :: "assignment list"
  cs_members :: members
  cs_devices :: "uuid \<Rightarrow> device option"
  cs_inventories :: "uuid \<Rightarrow> (inventory option \<times> go_time) option"
  cs_compliance :: "uuid \<times> uuid \<Rightarrow> compliance_row option"
  cs_item_status :: "uuid \<times> string \<times> uuid \<Rightarrow> item_status option"

datatype service_error =
    PolicyNotFound | NoName | BadPolicyRules rules_error | CannotEncode | NameTaken | DeviceNotFound
  | StoredInventoryBroken

section \<open>Operations of the store\<close>

definition GetCompliancePolicy :: "cstore \<Rightarrow> uuid \<Rightarrow> policy option" where
  "GetCompliancePolicy s i = find (\<lambda>p. p_id p = i) (cs_policies s)"

definition UpsertDeviceCompliance ::
  "cstore \<Rightarrow> uuid \<Rightarrow> uuid \<Rightarrow> compliance_row \<Rightarrow> cstore" where
  "UpsertDeviceCompliance s d p row = s\<lparr>cs_compliance := (cs_compliance s)((d, p) \<mapsto> row)\<rparr>"

definition DeleteDeviceComplianceExcept :: "cstore \<Rightarrow> uuid \<Rightarrow> uuid list \<Rightarrow> cstore" where
  "DeleteDeviceComplianceExcept s d keep =
     s\<lparr>cs_compliance := (\<lambda>(d', p). if d' = d \<and> p \<notin> set keep then None else cs_compliance s (d', p))\<rparr>"

definition DeleteComplianceForPolicy :: "cstore \<Rightarrow> uuid \<Rightarrow> cstore" where
  "DeleteComplianceForPolicy s i =
     s\<lparr>cs_compliance := (\<lambda>(d, p). if p = i then None else cs_compliance s (d, p))\<rparr>"

definition SetItemStatus ::
  "cstore \<Rightarrow> uuid \<Rightarrow> string \<Rightarrow> uuid \<Rightarrow> item_status \<Rightarrow> cstore" where
  "SetItemStatus s d kind i row = s\<lparr>cs_item_status := (cs_item_status s)((d, kind, i) \<mapsto> row)\<rparr>"

definition DeleteItemStatusExcept :: "cstore \<Rightarrow> uuid \<Rightarrow> string \<Rightarrow> uuid list \<Rightarrow> cstore" where
  "DeleteItemStatusExcept s d kind keep =
     s\<lparr>cs_item_status := (\<lambda>(d', k, i). if d' = d \<and> k = kind \<and> i \<notin> set keep then None
                                      else cs_item_status s (d', k, i))\<rparr>"

definition DeleteItemStatusForItem :: "cstore \<Rightarrow> string \<Rightarrow> uuid \<Rightarrow> cstore" where
  "DeleteItemStatusForItem s kind i =
     s\<lparr>cs_item_status := (\<lambda>(d, k, j). if k = kind \<and> j = i then None else cs_item_status s (d, k, j))\<rparr>"

definition ListDeviceItemStatus :: "cstore \<Rightarrow> uuid \<Rightarrow> string \<Rightarrow> uuid \<Rightarrow> string option" where
  "ListDeviceItemStatus s d kind = (\<lambda>i. map_option s_status (cs_item_status s (d, kind, i)))"

text \<open>The unique index on the name; deleting a policy also deletes its results, by the foreign
  key.\<close>

definition name_used :: "cstore \<Rightarrow> uuid \<Rightarrow> string \<Rightarrow> bool" where
  "name_used s i name \<longleftrightarrow> list_ex (\<lambda>p. p_name p = name \<and> p_id p \<noteq> i) (cs_policies s)"

definition DeleteCompliancePolicy :: "cstore \<Rightarrow> uuid \<Rightarrow> cstore" where
  "DeleteCompliancePolicy s i =
     (DeleteComplianceForPolicy s i)\<lparr>cs_policies := filter (\<lambda>p. p_id p \<noteq> i) (cs_policies s)\<rparr>"

section \<open>Operations of the service\<close>

record new_policy =
  np_name :: string
  np_description :: string
  np_rules :: "json option"
  np_actor :: string

definition validate ::
  "(string \<Rightarrow> uuid option) \<Rightarrow> (uuid \<Rightarrow> string) \<Rightarrow> new_policy \<Rightarrow> service_error + json" where
  "validate uuid_parse uuid_string np =
     (if trim_space (np_name np) = [] then Inl NoName
      else case ParseRules uuid_parse (np_rules np) of
             Inl e \<Rightarrow> Inl (BadPolicyRules e)
           | Inr rules \<Rightarrow>
               (case MarshalRules uuid_string rules of
                  None \<Rightarrow> Inl CannotEncode
                | Some doc \<Rightarrow> Inr doc))"

definition Create ::
  "(string \<Rightarrow> uuid option) \<Rightarrow> (uuid \<Rightarrow> string) \<Rightarrow> uuid \<Rightarrow> go_time \<Rightarrow> new_policy \<Rightarrow> cstore
     \<Rightarrow> service_error + policy \<times> cstore" where
  "Create uuid_parse uuid_string new_id now np s =
     bindE (validate uuid_parse uuid_string np) (\<lambda>rules.
       let p = \<lparr>p_id = new_id, p_name = trim_space (np_name np), p_description = np_description np,
                p_rules = Some rules, p_created_at = now, p_updated_at = now, p_created_by = np_actor np\<rparr> in
       if name_used s new_id (p_name p) then Inl NameTaken
       else Inr (p, s\<lparr>cs_policies := cs_policies s @ [p]\<rparr>))"

definition Update ::
  "(string \<Rightarrow> uuid option) \<Rightarrow> (uuid \<Rightarrow> string) \<Rightarrow> go_time \<Rightarrow> uuid \<Rightarrow> new_policy \<Rightarrow> cstore
     \<Rightarrow> service_error + policy \<times> cstore" where
  "Update uuid_parse uuid_string now i np s =
     bindE (validate uuid_parse uuid_string np) (\<lambda>rules.
       case GetCompliancePolicy s i of
         None \<Rightarrow> Inl PolicyNotFound
       | Some p \<Rightarrow>
           let p' = p\<lparr>p_name := trim_space (np_name np), p_description := np_description np,
                      p_rules := Some rules, p_updated_at := now\<rparr> in
           if name_used s i (p_name p') then Inl NameTaken
           else Inr (p', s\<lparr>cs_policies := map (\<lambda>q. if p_id q = i then p' else q) (cs_policies s)\<rparr>))"

definition Delete :: "uuid \<Rightarrow> cstore \<Rightarrow> service_error + cstore" where
  "Delete i s =
     (case GetCompliancePolicy s i of
        None \<Rightarrow> Inl PolicyNotFound
      | Some p \<Rightarrow>
          let s1 = s\<lparr>cs_assignments := DeleteAssignmentsForItem ItemKindCompliance i (cs_assignments s)\<rparr>;
              s2 = DeleteComplianceForPolicy s1 i;
              s3 = DeleteItemStatusForItem s2 ItemKindCompliance i
          in Inr (DeleteCompliancePolicy s3 i))"

definition buildFacts :: "cstore \<Rightarrow> uuid \<Rightarrow> device \<Rightarrow> service_error + facts" where
  "buildFacts s d dev =
     bindE (case cs_inventories s d of
              None \<Rightarrow> Inr (None, None)
            | Some (None, _) \<Rightarrow> Inl StoredInventoryBroken
            | Some (Some iv, receivedAt) \<Rightarrow> Inr (Some iv, Some receivedAt))
       (\<lambda>(iv, receivedAt).
          Inr \<lparr>fa_os_build = dev_os_build dev, fa_agent_version = dev_agent_version dev,
               fa_last_seen_at = dev_last_seen_at dev, fa_inventory = iv,
               fa_inventory_received_at = receivedAt,
               fa_profile_status = ListDeviceItemStatus s d ''profile''\<rparr>)"

text \<open>\<^verbatim>\<open>evaluateOne\<close>: \<open>None\<close> when the policy is not there, which the caller skips.\<close>

definition evaluateOne ::
  "(string \<Rightarrow> uuid option) \<Rightarrow> cstore \<Rightarrow> uuid \<Rightarrow> facts \<Rightarrow> go_time \<Rightarrow> result option" where
  "evaluateOne uuid_parse s policyID f now =
     (case GetCompliancePolicy s policyID of
        None \<Rightarrow> None
      | Some p \<Rightarrow>
          (case ParseRules uuid_parse (p_rules p) of
             Inl e \<Rightarrow> Some \<lparr>res_state = StateUnknown,
                          res_failures = [\<lparr>f_rule = ''rules'', f_state = StateUnknown,
                            f_detail = ''this policy'' @ [CHR 0x27] @ ''s rules could not be read''\<rparr>]\<rparr>
           | Inr rules \<Rightarrow> Some (Evaluate rules f now)))"

definition mirrorItemStatus :: "result \<Rightarrow> string \<times> string" where
  "mirrorItemStatus r =
     (if res_state r = StateNonCompliant then ItemFailed
      else if res_state r = StateUnknown then ItemPending
      else ItemSucceeded,
      join_with ''; '' (map f_detail (res_failures r)))"

text \<open>One policy of \<^verbatim>\<open>EvaluateDevice\<close>'s loop: the two rows it writes and whether it was
  scored.\<close>

definition scoreOne ::
  "(string \<Rightarrow> uuid option) \<Rightarrow> uuid \<Rightarrow> facts \<Rightarrow> go_time \<Rightarrow> cstore \<times> uuid list \<Rightarrow> uuid
     \<Rightarrow> cstore \<times> uuid list" where
  "scoreOne uuid_parse d f now acc policyID =
     (case acc of (s, scored) \<Rightarrow>
        (case evaluateOne uuid_parse s policyID f now of
           None \<Rightarrow> (s, scored)
         | Some r \<Rightarrow>
             let s1 = UpsertDeviceCompliance s d policyID
                        \<lparr>c_state = res_state r, c_failures = res_failures r, c_evaluated_at = now\<rparr>;
                 (status, detail) = mirrorItemStatus r;
                 s2 = SetItemStatus s1 d ItemKindCompliance policyID
                        \<lparr>s_status = status, s_detail = detail, s_version = 1, s_updated_at = now\<rparr>
             in (s2, scored @ [policyID])))"

definition assignedPolicies :: "cstore \<Rightarrow> uuid \<Rightarrow> go_time \<Rightarrow> uuid list" where
  "assignedPolicies s d now =
     map it_id (filter (\<lambda>it. it_kind it = ItemKindCompliance)
       (EffectiveItems (cs_members s) (cs_assignments s) d now))"

definition EvaluateDevice ::
  "(string \<Rightarrow> uuid option) \<Rightarrow> go_time \<Rightarrow> uuid \<Rightarrow> cstore \<Rightarrow> service_error + cstore" where
  "EvaluateDevice uuid_parse now d s =
     (case cs_devices s d of
        None \<Rightarrow> Inl DeviceNotFound
      | Some dev \<Rightarrow>
          let policyIDs = assignedPolicies s d now in
          if policyIDs = [] then
            Inr (DeleteItemStatusExcept (DeleteDeviceComplianceExcept s d []) d ItemKindCompliance [])
          else bindE (buildFacts s d dev) (\<lambda>f.
            case foldl (scoreOne uuid_parse d f now) (s, []) policyIDs of (s', scored) \<Rightarrow>
              Inr (DeleteItemStatusExcept (DeleteDeviceComplianceExcept s' d scored)
                     d ItemKindCompliance scored)))"


section \<open>What an evaluation writes\<close>

definition compliance_row_of :: "go_time \<Rightarrow> result \<Rightarrow> compliance_row" where
  "compliance_row_of now r =
     \<lparr>c_state = res_state r, c_failures = res_failures r, c_evaluated_at = now\<rparr>"

definition status_row_of :: "go_time \<Rightarrow> result \<Rightarrow> item_status" where
  "status_row_of now r = \<lparr>s_status = fst (mirrorItemStatus r), s_detail = snd (mirrorItemStatus r),
     s_version = 1, s_updated_at = now\<rparr>"

text \<open>The verdict an evaluation should record for a policy: none unless the policy is assigned
  to the device and exists.\<close>

definition verdict ::
  "(string \<Rightarrow> uuid option) \<Rightarrow> go_time \<Rightarrow> uuid \<Rightarrow> cstore \<Rightarrow> uuid \<Rightarrow> result option" where
  "verdict uuid_parse now d s p =
     (case cs_devices s d of
        None \<Rightarrow> None
      | Some dev \<Rightarrow>
          (case buildFacts s d dev of
             Inl _ \<Rightarrow> None
           | Inr f \<Rightarrow> if p \<in> set (assignedPolicies s d now) then evaluateOne uuid_parse s p f now
                      else None))"

text \<open>Two states that differ in the two result tables only.\<close>

definition same_inputs :: "cstore \<Rightarrow> cstore \<Rightarrow> bool" where
  "same_inputs s s' \<longleftrightarrow> cs_policies s' = cs_policies s \<and> cs_assignments s' = cs_assignments s
     \<and> cs_members s' = cs_members s \<and> cs_devices s' = cs_devices s
     \<and> cs_inventories s' = cs_inventories s"

lemma evaluateOne_cong:
  "same_inputs s s' \<Longrightarrow> evaluateOne uuid_parse s' p f now = evaluateOne uuid_parse s p f now"
  by (simp add: evaluateOne_def GetCompliancePolicy_def same_inputs_def)

definition scores :: "(string \<Rightarrow> uuid option) \<Rightarrow> cstore \<Rightarrow> facts \<Rightarrow> go_time \<Rightarrow> uuid list \<Rightarrow> uuid \<Rightarrow> result option" where
  "scores uuid_parse s f now ids p = (if p \<in> set ids then evaluateOne uuid_parse s p f now else None)"

lemma scoreOne_fold:
  assumes "foldl (scoreOne uuid_parse d f now) (s, []) ids = (s', scored)"
  shows "same_inputs s s'
    \<and> set scored = {p. scores uuid_parse s f now ids p \<noteq> None}
    \<and> cs_compliance s' = (\<lambda>(d', p). if d' = d \<and> scores uuid_parse s f now ids p \<noteq> None
         then map_option (compliance_row_of now) (scores uuid_parse s f now ids p)
         else cs_compliance s (d', p))
    \<and> cs_item_status s' = (\<lambda>(d', k, p).
         if d' = d \<and> k = ItemKindCompliance \<and> scores uuid_parse s f now ids p \<noteq> None
         then map_option (status_row_of now) (scores uuid_parse s f now ids p)
         else cs_item_status s (d', k, p))"
  using assms
proof (induction ids arbitrary: s' scored rule: rev_induct)
  case Nil
  then show ?case by (auto simp: scores_def same_inputs_def fun_eq_iff)
next
  case (snoc p ids)
  obtain s1 sc1 where f: "foldl (scoreOne uuid_parse d f now) (s, []) ids = (s1, sc1)"
    by (cases "foldl (scoreOne uuid_parse d f now) (s, []) ids")
  note IH = snoc.IH [OF f]
  have step: "scoreOne uuid_parse d f now (s1, sc1) p = (s', scored)" using snoc.prems f by simp
  have ev: "evaluateOne uuid_parse s1 p f now = evaluateOne uuid_parse s p f now"
    using IH by (intro evaluateOne_cong) blast
  show ?case
  proof (cases "evaluateOne uuid_parse s p f now")
    case None
    then have same: "s' = s1" "scored = sc1" using step by (simp_all add: scoreOne_def ev)
    have sc: "scores uuid_parse s f now (ids @ [p]) = scores uuid_parse s f now ids"
      using None by (auto simp: scores_def fun_eq_iff)
    show ?thesis unfolding same sc by (rule IH)
  next
    case (Some r)
    have s': "s' = s1\<lparr>cs_compliance := (cs_compliance s1)((d, p) \<mapsto> compliance_row_of now r),
        cs_item_status := (cs_item_status s1)((d, ItemKindCompliance, p) \<mapsto> status_row_of now r)\<rparr>"
      and sc: "scored = sc1 @ [p]"
      using step Some
      by (auto simp: scoreOne_def ev UpsertDeviceCompliance_def SetItemStatus_def Let_def
          compliance_row_of_def status_row_of_def split: prod.splits)
    have sc_eq: "scores uuid_parse s f now (ids @ [p]) q =
        (if q = p then Some r else scores uuid_parse s f now ids q)" for q
      using Some by (simp add: scores_def)
    show ?thesis using IH unfolding s' sc sc_eq
      by (auto simp: same_inputs_def fun_eq_iff)
  qed
qed


lemma EvaluateDevice_ok_iff:
  "is_ok (EvaluateDevice uuid_parse now d s) \<longleftrightarrow>
     (\<exists>dev. cs_devices s d = Some dev \<and> (assignedPolicies s d now = [] \<or> is_ok (buildFacts s d dev)))"
proof (cases "cs_devices s d")
  case (Some dev)
  then show ?thesis
    by (cases "buildFacts s d dev") (auto simp: EvaluateDevice_def Let_def split: prod.splits)
qed (simp add: EvaluateDevice_def)

lemma EvaluateDevice_writes:
  assumes "EvaluateDevice uuid_parse now d s = Inr s'"
  shows "same_inputs s s'
    \<and> cs_compliance s' = (\<lambda>(d', p). if d' = d then map_option (compliance_row_of now) (verdict uuid_parse now d s p)
         else cs_compliance s (d', p))
    \<and> cs_item_status s' = (\<lambda>(d', k, p). if d' = d \<and> k = ItemKindCompliance
         then map_option (status_row_of now) (verdict uuid_parse now d s p)
         else cs_item_status s (d', k, p))"
proof -
  obtain dev where dev: "cs_devices s d = Some dev"
    using assms by (cases "cs_devices s d") (auto simp: EvaluateDevice_def)
  show ?thesis
  proof (cases "assignedPolicies s d now = []")
    case True
    then have v: "verdict uuid_parse now d s p = None" for p
      by (simp add: verdict_def dev split: sum.splits)
    have "s' = DeleteItemStatusExcept (DeleteDeviceComplianceExcept s d []) d ItemKindCompliance []"
      using assms True by (simp add: EvaluateDevice_def dev)
    then show ?thesis
      by (auto simp: v same_inputs_def DeleteItemStatusExcept_def DeleteDeviceComplianceExcept_def
          fun_eq_iff)
  next
    case False
    then obtain f where f: "buildFacts s d dev = Inr f"
      using assms by (auto simp: EvaluateDevice_def dev bindE_eq_Inr)
    obtain s1 scored
      where fold: "foldl (scoreOne uuid_parse d f now) (s, []) (assignedPolicies s d now) = (s1, scored)"
      by (cases "foldl (scoreOne uuid_parse d f now) (s, []) (assignedPolicies s d now)")
    have s': "s' = DeleteItemStatusExcept (DeleteDeviceComplianceExcept s1 d scored) d
                 ItemKindCompliance scored"
      using assms False by (simp add: EvaluateDevice_def dev f fold)
    have v: "verdict uuid_parse now d s p = scores uuid_parse s f now (assignedPolicies s d now) p" for p
      by (simp add: verdict_def scores_def dev f)
    note w = scoreOne_fold [OF fold, folded v]
    then have sc: "p \<in> set scored \<longleftrightarrow> verdict uuid_parse now d s p \<noteq> None" for p by simp
    have "same_inputs s s'"
      using w by (simp add: s' same_inputs_def DeleteItemStatusExcept_def DeleteDeviceComplianceExcept_def)
    moreover have "cs_compliance s' (d', p) = (if d' = d then
        map_option (compliance_row_of now) (verdict uuid_parse now d s p) else cs_compliance s (d', p))"
      for d' p
      using w by (simp add: s' DeleteItemStatusExcept_def DeleteDeviceComplianceExcept_def sc)
    moreover have "cs_item_status s' (d', k, p) = (if d' = d \<and> k = ItemKindCompliance
         then map_option (status_row_of now) (verdict uuid_parse now d s p)
         else cs_item_status s (d', k, p))" for d' k p
      using w by (simp add: s' DeleteItemStatusExcept_def DeleteDeviceComplianceExcept_def sc)
    ultimately show ?thesis by (simp add: fun_eq_iff)
  qed
qed

text \<open>
  C37. Evaluating a device records exactly what applies to it. Afterwards the device has a
  result row for a policy if and only if the policy is assigned to it and exists, holding
  that policy's verdict on the device's facts; the same verdict is mirrored as an item status;
  and no row of another device, no status of another kind and no input of the evaluation has
  changed.
\<close>

theorem EvaluateDevice_exact:
  assumes "EvaluateDevice uuid_parse now d s = Inr s'"
  shows "cs_compliance s' (d, p) = map_option (compliance_row_of now) (verdict uuid_parse now d s p)
    \<and> cs_item_status s' (d, ItemKindCompliance, p) =
        map_option (status_row_of now) (verdict uuid_parse now d s p)
    \<and> (d' \<noteq> d \<longrightarrow> cs_compliance s' (d', p) = cs_compliance s (d', p))
    \<and> (d' \<noteq> d \<or> k \<noteq> ItemKindCompliance \<longrightarrow> cs_item_status s' (d', k, i) = cs_item_status s (d', k, i))
    \<and> same_inputs s s'"
  using EvaluateDevice_writes [OF assms] by auto

text \<open>A device with one assigned policy, which asks for no pending reboot.\<close>

definition sample_policy :: policy where
  "sample_policy = \<lparr>p_id = ''p'', p_name = ''n'', p_description = [],
     p_rules = Some (JArr [JObj [(''type'', JStr ''no_pending_reboot'')]]),
     p_created_at = 1, p_updated_at = 1, p_created_by = ''a''\<rparr>"

definition sample_store :: cstore where
  "sample_store = \<lparr>cs_policies = [sample_policy],
     cs_assignments = [sample_assignment\<lparr>as_kind := ItemKindCompliance, as_item := ''p''\<rparr>],
     cs_members = [(''g'', ''d'')],
     cs_devices = [''d'' \<mapsto> \<lparr>dev_os_build = [], dev_agent_version = [], dev_last_seen_at = None\<rparr>],
     cs_inventories = [''d'' \<mapsto> (Some bare_inventory, 5)],
     cs_compliance = (\<lambda>_. None), cs_item_status = (\<lambda>_. None)\<rparr>"

lemma sample_assigned: "assignedPolicies sample_store ''d'' 9 = [''p'']"
  by (simp add: assignedPolicies_def EffectiveItems_def includeRows_def sample_store_def
      sample_assignment_def reaches_def excluded_def admits_def RolloutAdmits_def Current_def Phased_def)

lemma sample_rules:
  "ParseRules Some (p_rules sample_policy) = Inr [zero_rule RuleNoPendingReboot]"
  by code_simp

lemma sample_verdict:
  "verdict Some 9 ''d'' sample_store ''p'' = Some \<lparr>res_state = StateCompliant, res_failures = []\<rparr>"
proof -
  have "evaluateOne Some sample_store ''p'' f 9 = Some (Evaluate [zero_rule RuleNoPendingReboot] f 9)" for f
    using sample_rules
    by (simp add: evaluateOne_def GetCompliancePolicy_def sample_store_def sample_policy_def)
  then show ?thesis
    unfolding verdict_def sample_assigned
    by (simp add: sample_store_def buildFacts_def Evaluate_def map_filter_def
        evaluateRule_branch(9) evalNoPendingReboot_def bare_inventory_def)
qed

lemma sample_evaluates: "is_ok (EvaluateDevice Some 9 ''d'' sample_store)"
  unfolding EvaluateDevice_def Let_def sample_assigned
  by (simp add: sample_store_def buildFacts_def split: prod.splits)

theorem EvaluateDevice_exact_witness:
  "\<exists>s'. EvaluateDevice Some 9 ''d'' sample_store = Inr s'
     \<and> cs_compliance s' (''d'', ''p'') =
         Some \<lparr>c_state = StateCompliant, c_failures = [], c_evaluated_at = 9\<rparr>"
proof -
  obtain s' where s': "EvaluateDevice Some 9 ''d'' sample_store = Inr s'"
    using sample_evaluates by (auto simp: is_ok_iff)
  with EvaluateDevice_exact [OF s', of "''p''"] sample_verdict show ?thesis
    by (simp add: compliance_row_of_def)
qed

text \<open>
  Evaluation is idempotent: evaluating a device again at the same instant succeeds and
  changes nothing.
\<close>

theorem EvaluateDevice_idempotent:
  assumes "EvaluateDevice uuid_parse now d s = Inr s'"
  shows "EvaluateDevice uuid_parse now d s' = Inr s'"
proof -
  note w = EvaluateDevice_writes [OF assms]
  then have in': "same_inputs s s'" by blast
  have prof: "ListDeviceItemStatus s' d ''profile'' = ListDeviceItemStatus s d ''profile''"
    using w by (simp add: ListDeviceItemStatus_def)
  have facts: "buildFacts s' d dev = buildFacts s d dev" for dev
    using in' by (simp add: buildFacts_def prof same_inputs_def)
  have assigned: "assignedPolicies s' d now = assignedPolicies s d now"
    using in' by (simp add: assignedPolicies_def same_inputs_def)
  have v: "verdict uuid_parse now d s' p = verdict uuid_parse now d s p" for p
    using in' unfolding verdict_def facts assigned evaluateOne_cong [OF in']
    by (simp add: same_inputs_def)
  have "is_ok (EvaluateDevice uuid_parse now d s')"
  proof -
    have "is_ok (EvaluateDevice uuid_parse now d s)" using assms by simp
    moreover have "cs_devices s' = cs_devices s" using in' by (simp add: same_inputs_def)
    ultimately show ?thesis unfolding EvaluateDevice_ok_iff assigned facts by simp
  qed
  then obtain s'' where s'': "EvaluateDevice uuid_parse now d s' = Inr s''" by (auto simp: is_ok_iff)
  note w'' = EvaluateDevice_writes [OF s'']
  have "cs_compliance s'' = cs_compliance s'" "cs_item_status s'' = cs_item_status s'"
    using w w'' by (auto simp: v fun_eq_iff)
  moreover have "same_inputs s' s''" using w'' by blast
  ultimately have "s'' = s'" by (simp add: same_inputs_def)
  with s'' show ?thesis by simp
qed

theorem EvaluateDevice_idempotent_witness:
  "\<exists>s'. EvaluateDevice Some 9 ''d'' sample_store = Inr s' \<and> EvaluateDevice Some 9 ''d'' s' = Inr s'"
proof -
  obtain s' where s': "EvaluateDevice Some 9 ''d'' sample_store = Inr s'"
    using sample_evaluates by (auto simp: is_ok_iff)
  with EvaluateDevice_idempotent [OF s'] show ?thesis by simp
qed

text \<open>
  A deleted policy leaves nothing behind: no policy row, no result of any device, no
  mirrored status and no assignment refers to it, and everything about other policies is as
  it was.
\<close>

theorem Delete_complete:
  assumes "Delete i s = Inr s'"
  shows "GetCompliancePolicy s' i = None
    \<and> cs_compliance s' (d, i) = None \<and> cs_item_status s' (d, ItemKindCompliance, i) = None
    \<and> \<not> (\<exists>a \<in> set (cs_assignments s'). as_kind a = ItemKindCompliance \<and> as_item a = i)
    \<and> (j \<noteq> i \<longrightarrow> GetCompliancePolicy s' j = GetCompliancePolicy s j
         \<and> cs_compliance s' (d, j) = cs_compliance s (d, j)
         \<and> cs_item_status s' (d, k, j) = cs_item_status s (d, k, j))"
proof -
  have find_filter: "find (\<lambda>p. p_id p = j) (filter (\<lambda>p. p_id p \<noteq> i) ps) =
      (if j = i then None else find (\<lambda>p. p_id p = j) ps)" for j ps
    by (induction ps) auto
  have s': "s' = DeleteCompliancePolicy (DeleteItemStatusForItem (DeleteComplianceForPolicy
      (s\<lparr>cs_assignments := DeleteAssignmentsForItem ItemKindCompliance i (cs_assignments s)\<rparr>) i)
      ItemKindCompliance i) i"
    using assms by (auto simp: Delete_def Let_def split: option.splits)
  show ?thesis unfolding s'
    by (simp add: GetCompliancePolicy_def DeleteCompliancePolicy_def DeleteItemStatusForItem_def
        DeleteComplianceForPolicy_def DeleteAssignmentsForItem_def find_filter)
qed

theorem Delete_complete_witness:
  "\<exists>s'. Delete ''p'' sample_store = Inr s' \<and> GetCompliancePolicy s' ''p'' = None"
proof -
  have "is_ok (Delete ''p'' sample_store)"
    by (simp add: Delete_def GetCompliancePolicy_def sample_store_def sample_policy_def Let_def)
  then obtain s' where "Delete ''p'' sample_store = Inr s'" by (auto simp: is_ok_iff)
  with Delete_complete [OF this] show ?thesis by blast
qed

end
