(* ===== verification/Encoding.thy ===== *)
theory Encoding
  imports Retune_Prelude
begin

text \<open>
  The encodings of Go's standard library that keys, hashes and signatures travel in:
  \<^verbatim>\<open>encoding/hex\<close> and \<^verbatim>\<open>base64.StdEncoding\<close>, each with its round trip. The base64
  decoder skips carriage returns and newlines, wants padding, and ignores left-over bits, as
  Go's does.
\<close>

section \<open>Hexadecimal\<close>

definition hex_encode :: "string \<Rightarrow> string" where
  "hex_encode s = concat (map (\<lambda>c. [hex_digit (byte c div 16), hex_digit (byte c mod 16)]) s)"

definition hex_value :: "char \<Rightarrow> nat option" where
  "hex_value c =
     (let b = byte c in
      if 48 \<le> b \<and> b \<le> 57 then Some (b - 48)
      else if 97 \<le> b \<and> b \<le> 102 then Some (b - 87)
      else if 65 \<le> b \<and> b \<le> 70 then Some (b - 55)
      else None)"

fun hex_decode :: "string \<Rightarrow> string option" where
  "hex_decode [] = Some []"
| "hex_decode [c] = None"
| "hex_decode (c # d # r) =
     (case (hex_value c, hex_value d) of
        (Some x, Some y) \<Rightarrow> map_option (Cons (char_of (16 * x + y))) (hex_decode r)
      | _ \<Rightarrow> None)"

lemma hex_value_digit [simp]: "n < 16 \<Longrightarrow> hex_value (hex_digit n) = Some n"
  by (auto simp: hex_value_def hex_digit_def)

lemma byte_less [simp]: "byte c < 256"
  by (rule nat_of_char_less_256)

lemma hex_roundtrip: "hex_decode (hex_encode s) = Some s"
proof (induction s)
  case (Cons c s)
  have "byte c div 16 < 16" using byte_less [of c] by linarith
  moreover have "16 * (byte c div 16) + byte c mod 16 = byte c" by simp
  ultimately show ?case using Cons by (simp add: hex_encode_def)
qed (simp add: hex_encode_def)

lemma length_hex_encode: "length (hex_encode s) = 2 * length s"
  by (induction s) (simp_all add: hex_encode_def)

lemma hex_digit_plain: "n < 16 \<Longrightarrow> hex_digit n \<noteq> CHR 0x0A \<and> hex_digit n \<noteq> CHR '',''"
proof -
  assume "n < 16"
  then have "48 \<le> byte (hex_digit n)" by (auto simp: hex_digit_def)
  then show ?thesis by auto
qed

lemma hex_encode_plain: "CHR 0x0A \<notin> set (hex_encode s)"
proof -
  have "byte c div 16 < 16" for c using byte_less [of c] by linarith
  then have "hex_digit (byte c div 16) \<noteq> CHR 0x0A \<and> hex_digit (byte c mod 16) \<noteq> CHR 0x0A" for c
    using hex_digit_plain by simp
  then have "CHR 0x0A \<noteq> hex_digit (byte c div 16)" "CHR 0x0A \<noteq> hex_digit (byte c mod 16)" for c
    by metis+
  then show ?thesis by (simp add: hex_encode_def)
qed

section \<open>Base64\<close>

definition b64_char :: "nat \<Rightarrow> char" where
  "b64_char n =
     (if n < 26 then char_of (65 + n)
      else if n < 52 then char_of (71 + n)
      else if n < 62 then char_of (n - 4)
      else if n = 62 then CHR ''+'' else CHR ''/'')"

definition b64_value :: "char \<Rightarrow> nat option" where
  "b64_value c =
     (let b = byte c in
      if 65 \<le> b \<and> b \<le> 90 then Some (b - 65)
      else if 97 \<le> b \<and> b \<le> 122 then Some (b - 71)
      else if 48 \<le> b \<and> b \<le> 57 then Some (b + 4)
      else if b = 43 then Some 62
      else if b = 47 then Some 63
      else None)"

fun b64_encode :: "string \<Rightarrow> string" where
  "b64_encode [] = []"
| "b64_encode [a] =
     [b64_char (byte a div 4), b64_char (byte a mod 4 * 16), CHR ''='', CHR ''='']"
| "b64_encode [a, b] =
     [b64_char (byte a div 4), b64_char (byte a mod 4 * 16 + byte b div 16),
      b64_char (byte b mod 16 * 4), CHR ''='']"
| "b64_encode (a # b # c # r) =
     b64_char (byte a div 4) # b64_char (byte a mod 4 * 16 + byte b div 16)
     # b64_char (byte b mod 16 * 4 + byte c div 64) # b64_char (byte c mod 64) # b64_encode r"

fun b64_quads :: "string \<Rightarrow> string option" where
  "b64_quads [] = Some []"
| "b64_quads (w # x # y # z # r) =
     (case (b64_value w, b64_value x) of
        (Some p, Some q) \<Rightarrow>
          if y = CHR ''='' \<and> z = CHR ''='' \<and> r = [] then Some [char_of (p * 4 + q div 16)]
          else (case b64_value y of
                  None \<Rightarrow> None
                | Some u \<Rightarrow>
                    if z = CHR ''='' \<and> r = []
                    then Some [char_of (p * 4 + q div 16), char_of (q mod 16 * 16 + u div 4)]
                    else (case b64_value z of
                            None \<Rightarrow> None
                          | Some v \<Rightarrow>
                              map_option (\<lambda>t. char_of (p * 4 + q div 16) # char_of (q mod 16 * 16 + u div 4)
                                             # char_of (u mod 4 * 64 + v) # t)
                                (b64_quads r)))
      | _ \<Rightarrow> None)"
| "b64_quads _ = None"

definition b64_decode :: "string \<Rightarrow> string option" where
  "b64_decode s = b64_quads (filter (\<lambda>c. c \<noteq> CHR 0x0A \<and> c \<noteq> CHR 0x0D) s)"

lemma b64_value_char [simp]: "n < 64 \<Longrightarrow> b64_value (b64_char n) = Some n"
  by (auto simp: b64_value_def b64_char_def Let_def)

lemma b64_char_range:
  assumes "n < 64"
  shows "byte (b64_char n) \<in> {43, 47} \<union> {48..57} \<union> {65..90} \<union> {97..122}"
  using assms by (auto simp: b64_char_def)

lemma b64_char_plain:
  assumes "n < 64"
  shows "b64_char n \<noteq> CHR ''=''" "b64_char n \<noteq> CHR 0x0A" "b64_char n \<noteq> CHR 0x0D"
    "b64_char n \<noteq> CHR '',''" "32 < byte (b64_char n)" "byte (b64_char n) < 128"
  using b64_char_range [OF assms] by auto

lemma sextets:
  "byte a div 4 < 64" "byte a mod 4 * 16 < 64" "byte a mod 4 * 16 + byte b div 16 < 64"
  "byte b mod 16 * 4 < 64" "byte b mod 16 * 4 + byte c div 64 < 64" "byte c mod 64 < 64"
  using byte_less [of a] byte_less [of b] byte_less [of c]
    mod_less_divisor [of 4 "byte a"] mod_less_divisor [of 16 "byte b"] by linarith+

lemma high_bits [simp]:
  "byte b div 16 div 16 = 0" "byte b div 16 mod 16 = byte b div 16"
  "byte c div 64 div 4 = 0" "byte c div 64 mod 4 = byte c div 64"
proof -
  have b: "byte b div 16 < 16" "byte c div 64 < 4" using byte_less [of b] byte_less [of c] by linarith+
  show "byte b div 16 div 16 = 0" "byte b div 16 mod 16 = byte b div 16"
    using b(1) by (rule div_less, rule mod_less)
  show "byte c div 64 div 4 = 0" "byte c div 64 mod 4 = byte c div 64"
    using b(2) by (rule div_less, rule mod_less)
qed

lemma b64_quads_roundtrip: "b64_quads (b64_encode s) = Some s"
  by (induction s rule: b64_encode.induct)
     (simp_all add: sextets b64_char_plain)

lemma b64_encode_chars:
  "x \<in> set (b64_encode s) \<Longrightarrow> x = CHR ''='' \<or> (\<exists>n < 64. x = b64_char n)"
proof (induction s rule: b64_encode.induct)
  case (2 a)
  then have "x = CHR ''='' \<or> x = b64_char (byte a div 4) \<or> x = b64_char (byte a mod 4 * 16)" by auto
  then show ?case using sextets(1) [of a] sextets(2) [of a] by blast
next
  case (3 a b)
  then have "x = CHR ''='' \<or> x = b64_char (byte a div 4)
      \<or> x = b64_char (byte a mod 4 * 16 + byte b div 16) \<or> x = b64_char (byte b mod 16 * 4)" by auto
  then show ?case using sextets(1) [of a] sextets(3) [of a b] sextets(4) [of b] by blast
next
  case (4 a b c r)
  then have "x \<in> set (b64_encode r) \<or> x = b64_char (byte a div 4)
      \<or> x = b64_char (byte a mod 4 * 16 + byte b div 16)
      \<or> x = b64_char (byte b mod 16 * 4 + byte c div 64) \<or> x = b64_char (byte c mod 64)" by auto
  then show ?case
    using "4.IH" sextets(1) [of a] sextets(3) [of a b] sextets(5) [of b c] sextets(6) [of c] by blast
qed simp

lemma b64_encode_plain:
  "x \<in> set (b64_encode s) \<Longrightarrow> x \<noteq> CHR '','' \<and> x \<noteq> CHR 0x0A \<and> x \<noteq> CHR 0x0D
     \<and> 32 < byte x \<and> byte x < 128"
  using b64_encode_chars [of x s] b64_char_plain by auto

lemma b64_encode_ne [simp]: "b64_encode s = [] \<longleftrightarrow> s = []"
  by (cases s rule: b64_encode.cases) simp_all

lemma b64_roundtrip: "b64_decode (b64_encode s) = Some s"
proof -
  have "filter (\<lambda>c. c \<noteq> CHR 0x0A \<and> c \<noteq> CHR 0x0D) (b64_encode s) = b64_encode s"
    using b64_encode_plain by (intro filter_True) blast
  then show ?thesis by (simp add: b64_decode_def b64_quads_roundtrip)
qed

section \<open>Line endings\<close>

text \<open>\<^verbatim>\<open>strings.ReplaceAll(s, "\r\n", "\n")\<close>.\<close>

fun crlf_to_lf :: "string \<Rightarrow> string" where
  "crlf_to_lf (c # d # r) =
     (if c = CHR 0x0D \<and> d = CHR 0x0A then CHR 0x0A # crlf_to_lf r else c # crlf_to_lf (d # r))"
| "crlf_to_lf s = s"

end
