(* ===== verification/Release.thy ===== *)
theory Release
  imports Encoding "HOL-Library.List_Lexorder" "HOL-Library.Char_ord" "HOL-Library.Product_Lexorder"
begin

text \<open>
  Signed releases (\<^verbatim>\<open>src/internal/release\<close>: \<^verbatim>\<open>release.go\<close>, \<^verbatim>\<open>manifest.go\<close>) and
  operations signatures (\<^verbatim>\<open>src/internal/opsign\<close>): keys and trust lists, what a signature
  covers, signing and verifying builds, release manifests, scripts and wipe orders, and the
  order of versions.

  SHA-256 and Ed25519 are the fields of the parameter \<open>C\<close>; decoding \<^verbatim>\<open>release.json\<close> is the
  parameter \<open>decode\<close>. The theorems: whatever verifies was signed by a trusted key over exactly
  the version and bytes in question; what the holder of a trusted key signs verifies; a
  signature of one kind never covers another kind; trust lists round-trip, and a malformed one
  refuses everything; version comparison is a linear order on canonical versions.
\<close>

record crypto =
  cr_sha256 :: "string \<Rightarrow> string"
  cr_public :: "string \<Rightarrow> string"
  cr_sign :: "string \<Rightarrow> string \<Rightarrow> string"
  cr_verify :: "string \<Rightarrow> string \<Rightarrow> string \<Rightarrow> bool"

text \<open>What the code relies on: hashes have 32 bytes, public keys 32, and a signature made with
  a key verifies under its public key.\<close>

definition crypto_ok :: "crypto \<Rightarrow> bool" where
  "crypto_ok C \<longleftrightarrow> (\<forall>s. length (cr_sha256 C s) = 32) \<and> (\<forall>k. length (cr_public C k) = 32)
     \<and> (\<forall>k m. cr_verify C (cr_public C k) m (cr_sign C k m))"

datatype sign_error =
    NoTrustedKeys | UntrustedKey string | ManifestMismatch | BadSignature | BadManifest
  | InvalidManifest | NoKeys | Unsigned | SignatureNotBase64 | Expired

section \<open>Keys and trust lists\<close>

type_synonym public_key = string

definition key_ID :: "crypto \<Rightarrow> public_key \<Rightarrow> string" where
  "key_ID C k = hex_encode (take 8 (cr_sha256 C k))"

definition PublicKey_Encode :: "public_key \<Rightarrow> string" where
  "PublicKey_Encode k = b64_encode k"

datatype key_error = KeyNotBase64 | KeyLength nat | TrustListEntry string key_error

definition DecodePublicKey :: "string \<Rightarrow> key_error + public_key" where
  "DecodePublicKey s =
     (case b64_decode (trim_space s) of
        None \<Rightarrow> Inl KeyNotBase64
      | Some raw \<Rightarrow> if length raw \<noteq> 32 then Inl (KeyLength (length raw)) else Inr raw)"

fun parseKeys :: "string list \<Rightarrow> key_error + public_key list" where
  "parseKeys [] = Inr []"
| "parseKeys (p # ps) =
     (let part = trim_space p in
      if part = [] then parseKeys ps
      else (case DecodePublicKey part of
              Inl e \<Rightarrow> Inl (TrustListEntry part e)
            | Inr k \<Rightarrow> bindE (parseKeys ps) (\<lambda>ks. Inr (k # ks))))"

definition ParseTrustList :: "string \<Rightarrow> key_error + public_key list" where
  "ParseTrustList s = parseKeys (split_on (CHR '','') s)"

definition EncodeTrustList :: "public_key list \<Rightarrow> string" where
  "EncodeTrustList keys = join_with '','' (map PublicKey_Encode keys)"

section \<open>Signed builds\<close>

abbreviation NL :: string where "NL \<equiv> [CHR 0x0A]"

record manifest =
  m_version :: string
  m_sha256 :: string

record signature =
  sg_version :: string
  sg_sha256 :: string
  sg_key_id :: string
  sg_signature :: string

definition manifest_Bytes :: "manifest \<Rightarrow> string" where
  "manifest_Bytes m = ''retune-agent-manifest/v1'' @ NL @ ''version='' @ m_version m @ NL
     @ ''sha256='' @ to_lower (m_sha256 m) @ NL"

definition Sign :: "crypto \<Rightarrow> string \<Rightarrow> manifest \<Rightarrow> signature" where
  "Sign C priv m = \<lparr>sg_version = m_version m, sg_sha256 = to_lower (m_sha256 m),
     sg_key_id = key_ID C (cr_public C priv), sg_signature = cr_sign C priv (manifest_Bytes m)\<rparr>"

text \<open>The loop over the trusted keys, which the three verifiers share: the first key with the
  signature's id decides.\<close>

definition verifyWith ::
  "crypto \<Rightarrow> public_key list \<Rightarrow> string \<Rightarrow> string \<Rightarrow> string \<Rightarrow> sign_error option" where
  "verifyWith C trusted keyID msg sig =
     (case find (\<lambda>k. key_ID C k = keyID) trusted of
        None \<Rightarrow> Some (UntrustedKey keyID)
      | Some k \<Rightarrow> if cr_verify C k msg sig then None else Some BadSignature)"

definition Verify :: "crypto \<Rightarrow> public_key list \<Rightarrow> manifest \<Rightarrow> signature \<Rightarrow> sign_error option" where
  "Verify C trusted m sig =
     (if trusted = [] then Some NoTrustedKeys
      else if sg_version sig \<noteq> m_version m \<or> \<not> equal_fold (sg_sha256 sig) (m_sha256 m)
      then Some ManifestMismatch
      else verifyWith C trusted (sg_key_id sig) (manifest_Bytes m) (sg_signature sig))"

section \<open>Versions\<close>

record version =
  v_major :: int
  v_minor :: int
  v_patch :: int
  v_pre :: string

definition versionNumber :: "string \<Rightarrow> int option" where
  "versionNumber p =
     (case atoi p of
        None \<Rightarrow> None
      | Some v \<Rightarrow> if v < 0 \<or> p = [] \<or> (length p > 1 \<and> hd p = CHR ''0'') then None else Some v)"

definition ParseVersion :: "string \<Rightarrow> version option" where
  "ParseVersion s =
     (let t = trim_prefix ''v'' (trim_space s);
          (core, pre) = (case cut (CHR ''-'') t of None \<Rightarrow> (t, []) | Some cp \<Rightarrow> cp)
      in case split_on (CHR ''.'') core of
           [a, b, c] \<Rightarrow>
             (case (versionNumber a, versionNumber b, versionNumber c) of
                (Some x, Some y, Some z) \<Rightarrow> Some \<lparr>v_major = x, v_minor = y, v_patch = z, v_pre = pre\<rparr>
              | _ \<Rightarrow> None)
         | _ \<Rightarrow> None)"

definition compareIdent :: "string \<Rightarrow> string \<Rightarrow> int" where
  "compareIdent a b =
     (case (atoi a, atoi b) of
        (Some ai, Some bi) \<Rightarrow> if ai < bi then -1 else 1
      | (Some ai, None) \<Rightarrow> -1
      | (None, Some bi) \<Rightarrow> 1
      | (None, None) \<Rightarrow> if a < b then -1 else 1)"

fun compareIdents :: "string list \<Rightarrow> string list \<Rightarrow> int" where
  "compareIdents (a # as) (b # bs) =
     (if a = b then compareIdents as bs else compareIdent a b)"
| "compareIdents as bs =
     (if length as < length bs then -1 else if length as > length bs then 1 else 0)"

definition Compare :: "version \<Rightarrow> version \<Rightarrow> int" where
  "Compare v w =
     (if v_major v \<noteq> v_major w then (if v_major v < v_major w then -1 else 1)
      else if v_minor v \<noteq> v_minor w then (if v_minor v < v_minor w then -1 else 1)
      else if v_patch v \<noteq> v_patch w then (if v_patch v < v_patch w then -1 else 1)
      else if v_pre v = v_pre w then 0
      else if v_pre v = [] then 1
      else if v_pre w = [] then -1
      else compareIdents (split_on (CHR ''.'') (v_pre v)) (split_on (CHR ''.'') (v_pre w)))"

definition Newer :: "string \<Rightarrow> string \<Rightarrow> bool" where
  "Newer a b =
     (case ParseVersion a of
        None \<Rightarrow> False
      | Some va \<Rightarrow> (case ParseVersion b of None \<Rightarrow> True | Some vb \<Rightarrow> Compare va vb > 0))"

section \<open>Release manifests\<close>

abbreviation "AssetAgent \<equiv> ''agent''"
abbreviation "AssetAgentInstaller \<equiv> ''agent-installer''"
abbreviation "AssetServer \<equiv> ''server''"
abbreviation "AssetServerImage \<equiv> ''server-image''"
abbreviation "AssetTool \<equiv> ''tool''"
abbreviation "AssetSignature \<equiv> ''signature''"
abbreviation "AssetOther \<equiv> ''other''"

record asset =
  a_name :: string
  a_kind :: string
  a_os :: string
  a_arch :: string
  a_sha256 :: string
  a_image :: string
  a_digest :: string

record release_manifest =
  rm_schema :: int
  rm_version :: string
  rm_assets :: "asset list"

text \<open>The prefixes exclude one another, so the order of Go's map does not matter.\<close>

definition ClassifyAsset :: "string \<Rightarrow> string \<times> string \<times> string" where
  "ClassifyAsset name =
     (if suffix ''.sig'' name then (AssetSignature, [], [])
      else if name = ''retune-agent.exe'' then (AssetAgent, ''windows'', ''amd64'')
      else if name = ''retune-agent.msi'' then (AssetAgentInstaller, ''windows'', ''amd64'')
      else if name = ''retune-agent.pkg'' then (AssetAgentInstaller, ''darwin'', ''universal'')
      else let base = trim_suffix ''.exe'' name in
        (case find (\<lambda>(p, _). prefix p base)
                [(''retune-agent-'', AssetAgent), (''retune-server-'', AssetServer),
                 (''retune-sign-'', AssetTool)] of
           None \<Rightarrow> (AssetOther, [], [])
         | Some (p, kind) \<Rightarrow>
             (case cut (CHR ''-'') (drop (length p) base) of
                None \<Rightarrow> (AssetOther, [], [])
              | Some (goos, goarch) \<Rightarrow>
                  if goos = [] \<or> goarch = [] then (AssetOther, [], []) else (kind, goos, goarch))))"

definition Find :: "release_manifest \<Rightarrow> string \<Rightarrow> string \<Rightarrow> string \<Rightarrow> asset option" where
  "Find m kind goos goarch =
     find (\<lambda>a. a_kind a = kind \<and> a_os a = goos \<and> a_arch a = goarch) (rm_assets m)"

definition Named :: "release_manifest \<Rightarrow> string \<Rightarrow> asset option" where
  "Named m name = find (\<lambda>a. a_name a = name) (rm_assets m)"

definition ServerImage :: "release_manifest \<Rightarrow> asset option" where
  "ServerImage m = find (\<lambda>a. a_kind a = AssetServerImage) (rm_assets m)"

definition asset_ok :: "asset \<Rightarrow> bool" where
  "asset_ok a \<longleftrightarrow>
     (if a_kind a = AssetServerImage then a_image a \<noteq> [] \<and> prefix ''sha256:'' (a_digest a)
      else case hex_decode (a_sha256 a) of None \<Rightarrow> False | Some raw \<Rightarrow> length raw = 32)"

fun validAssets :: "string list \<Rightarrow> asset list \<Rightarrow> bool" where
  "validAssets seen [] = True"
| "validAssets seen (a # as) =
     (if a_name a = [] \<or> a_name a \<in> set seen then False
      else if \<not> asset_ok a then False
      else validAssets (a_name a # seen) as)"

definition Validate :: "release_manifest \<Rightarrow> bool" where
  "Validate m \<longleftrightarrow>
     (if rm_schema m \<noteq> 1 then False
      else if ParseVersion (rm_version m) = None then False
      else validAssets [] (rm_assets m))"

definition releaseManifestBytes :: "string \<Rightarrow> string \<Rightarrow> string" where
  "releaseManifestBytes version digest = ''retune-release-manifest/v1'' @ NL @ ''version='' @ version @ NL
     @ ''sha256='' @ to_lower digest @ NL"

definition SignReleaseManifest ::
  "crypto \<Rightarrow> (string \<Rightarrow> release_manifest option) \<Rightarrow> string \<Rightarrow> string \<Rightarrow> sign_error + signature" where
  "SignReleaseManifest C decode priv raw =
     (case decode raw of
        None \<Rightarrow> Inl BadManifest
      | Some m \<Rightarrow>
          if \<not> Validate m then Inl InvalidManifest
          else let hexSum = hex_encode (cr_sha256 C raw) in
               Inr \<lparr>sg_version = rm_version m, sg_sha256 = hexSum,
                    sg_key_id = key_ID C (cr_public C priv),
                    sg_signature = cr_sign C priv (releaseManifestBytes (rm_version m) hexSum)\<rparr>)"

definition VerifyReleaseManifest ::
  "crypto \<Rightarrow> (string \<Rightarrow> release_manifest option) \<Rightarrow> public_key list \<Rightarrow> string \<Rightarrow> signature
     \<Rightarrow> sign_error + release_manifest" where
  "VerifyReleaseManifest C decode trusted raw sig =
     (if trusted = [] then Inl NoTrustedKeys
      else let hexSum = hex_encode (cr_sha256 C raw) in
        if \<not> equal_fold (sg_sha256 sig) hexSum then Inl ManifestMismatch
        else (case verifyWith C trusted (sg_key_id sig)
                     (releaseManifestBytes (sg_version sig) hexSum) (sg_signature sig) of
                Some e \<Rightarrow> Inl e
              | None \<Rightarrow>
                  (case decode raw of
                     None \<Rightarrow> Inl BadManifest
                   | Some m \<Rightarrow>
                       if rm_version m \<noteq> sg_version sig then Inl ManifestMismatch
                       else if \<not> Validate m then Inl InvalidManifest
                       else Inr m)))"


section \<open>Verification is sound, signing is complete\<close>

lemma verifyWith_None:
  "verifyWith C trusted keyID msg sig = None \<Longrightarrow>
     \<exists>k \<in> set trusted. key_ID C k = keyID \<and> cr_verify C k msg sig"
  by (auto simp: verifyWith_def dest: find_SomeD split: option.splits if_splits)

lemma verifyWith_signed:
  assumes "crypto_ok C" "cr_public C priv \<in> set trusted"
    "\<forall>k \<in> set trusted. key_ID C k = key_ID C (cr_public C priv) \<longrightarrow> k = cr_public C priv"
  shows "verifyWith C trusted (key_ID C (cr_public C priv)) msg (cr_sign C priv msg) = None"
proof -
  obtain k where k: "find (\<lambda>k. key_ID C k = key_ID C (cr_public C priv)) trusted = Some k"
    using assms(2) find_ne_None [of "\<lambda>k. key_ID C k = key_ID C (cr_public C priv)" trusted] by blast
  then have "k = cr_public C priv" using assms(3) by (auto dest: find_SomeD)
  with k assms(1) show ?thesis by (simp add: verifyWith_def crypto_ok_def)
qed

text \<open>
  C19. Nothing but what a trusted key signed is accepted as a build: if \<^verbatim>\<open>Verify\<close> accepts,
  some trusted key with the signature's key id verifies the signature over exactly the
  caller's version and hash, and the signature claims that version and that hash.
\<close>

theorem Verify_sound:
  assumes "Verify C trusted m sig = None"
  shows "sg_version sig = m_version m \<and> equal_fold (sg_sha256 sig) (m_sha256 m)
    \<and> (\<exists>k \<in> set trusted. key_ID C k = sg_key_id sig
         \<and> cr_verify C k (manifest_Bytes m) (sg_signature sig))"
  using assms verifyWith_None
  by (fastforce simp: Verify_def split: if_splits)

text \<open>A concrete instance of the cryptographic operations: the hash is constant and the
  signature is the message under its key.\<close>

definition sample_crypto :: crypto where
  "sample_crypto = \<lparr>cr_sha256 = (\<lambda>s. replicate 32 (CHR ''h'')),
     cr_public = (\<lambda>k. replicate 32 (CHR ''k'')), cr_sign = (\<lambda>k m. m),
     cr_verify = (\<lambda>k m s. m = s)\<rparr>"

lemma sample_crypto_ok: "crypto_ok sample_crypto"
  by (simp add: crypto_ok_def sample_crypto_def)

definition sample_manifest :: manifest where
  "sample_manifest = \<lparr>m_version = ''1.2.3'', m_sha256 = ''AB''\<rparr>"

theorem Verify_sound_witness:
  "\<exists>k \<in> set [cr_public sample_crypto []]. key_ID sample_crypto k = sg_key_id (Sign sample_crypto [] sample_manifest)
     \<and> cr_verify sample_crypto k (manifest_Bytes sample_manifest)
         (sg_signature (Sign sample_crypto [] sample_manifest))"
proof -
  have "Verify sample_crypto [cr_public sample_crypto []] sample_manifest
      (Sign sample_crypto [] sample_manifest) = None" by code_simp
  from Verify_sound [OF this] show ?thesis by blast
qed

text \<open>
  What the holder of a trusted key signs is accepted, whatever the case of the hash,
  provided the key's id is not shared with another trusted key and the signature scheme is
  sound.
\<close>

theorem Sign_Verify:
  assumes "crypto_ok C" "cr_public C priv \<in> set trusted"
    "\<forall>k \<in> set trusted. key_ID C k = key_ID C (cr_public C priv) \<longrightarrow> k = cr_public C priv"
  shows "Verify C trusted m (Sign C priv m) = None"
  using assms verifyWith_signed [OF assms]
  by (auto simp: Verify_def Sign_def equal_fold_def)

theorem Sign_Verify_witness:
  "Verify sample_crypto [cr_public sample_crypto ''s''] sample_manifest
     (Sign sample_crypto ''s'' sample_manifest) = None"
  by (rule Sign_Verify [OF sample_crypto_ok]) simp_all

text \<open>
  A release manifest is used only when its exact bytes were signed by a trusted key: if
  \<^verbatim>\<open>VerifyReleaseManifest\<close> returns a manifest, it is what the bytes decode to, it passes
  \<^verbatim>\<open>Validate\<close>, and some trusted key verifies the signature over that manifest's version and
  the hash of those bytes.
\<close>

theorem VerifyReleaseManifest_sound:
  assumes "VerifyReleaseManifest C decode trusted raw sig = Inr m"
  shows "decode raw = Some m \<and> Validate m \<and> sg_version sig = rm_version m
    \<and> (\<exists>k \<in> set trusted. key_ID C k = sg_key_id sig
         \<and> cr_verify C k (releaseManifestBytes (rm_version m) (hex_encode (cr_sha256 C raw)))
             (sg_signature sig))"
proof -
  have v: "verifyWith C trusted (sg_key_id sig) (releaseManifestBytes (sg_version sig)
      (hex_encode (cr_sha256 C raw))) (sg_signature sig) = None"
    and "decode raw = Some m" "rm_version m = sg_version sig" "Validate m"
    using assms by (auto simp: VerifyReleaseManifest_def Let_def split: if_splits option.splits)
  with verifyWith_None [OF v] show ?thesis by simp
qed

definition sample_release :: release_manifest where
  "sample_release = \<lparr>rm_schema = 1, rm_version = ''1.2.3'', rm_assets = []\<rparr>"

lemma SignReleaseManifest_verifies:
  assumes "SignReleaseManifest C decode priv raw = Inr sig"
    and "crypto_ok C" "cr_public C priv \<in> set trusted"
    "\<forall>k \<in> set trusted. key_ID C k = key_ID C (cr_public C priv) \<longrightarrow> k = cr_public C priv"
  shows "\<exists>m. decode raw = Some m \<and> VerifyReleaseManifest C decode trusted raw sig = Inr m"
proof -
  obtain m where m: "decode raw = Some m" "Validate m"
    and sig: "sig = \<lparr>sg_version = rm_version m, sg_sha256 = hex_encode (cr_sha256 C raw),
      sg_key_id = key_ID C (cr_public C priv),
      sg_signature = cr_sign C priv (releaseManifestBytes (rm_version m) (hex_encode (cr_sha256 C raw)))\<rparr>"
    using assms(1) by (auto simp: SignReleaseManifest_def Let_def split: option.splits if_splits)
  have "trusted \<noteq> []" using assms(3) by auto
  then show ?thesis using m verifyWith_signed [OF assms(2-4)]
    by (simp add: VerifyReleaseManifest_def Let_def sig)
qed

lemma sample_signed: "is_ok (SignReleaseManifest sample_crypto (\<lambda>_. Some sample_release) [] ''r'')"
proof -
  have "Validate sample_release" by code_simp
  then show ?thesis by (simp add: SignReleaseManifest_def Let_def)
qed

theorem VerifyReleaseManifest_sound_witness:
  "\<exists>sig. VerifyReleaseManifest sample_crypto (\<lambda>_. Some sample_release) [cr_public sample_crypto []]
       ''r'' sig = Inr sample_release \<and> sg_version sig = rm_version sample_release"
proof -
  obtain sig where "SignReleaseManifest sample_crypto (\<lambda>_. Some sample_release) [] ''r'' = Inr sig"
    using sample_signed by (auto simp: is_ok_iff)
  from SignReleaseManifest_verifies [OF this sample_crypto_ok, of "[cr_public sample_crypto []]"]
  have ok: "VerifyReleaseManifest sample_crypto (\<lambda>_. Some sample_release)
      [cr_public sample_crypto []] ''r'' sig = Inr sample_release" by simp
  from VerifyReleaseManifest_sound [OF ok] have "sg_version sig = rm_version sample_release" by blast
  with ok show ?thesis by blast
qed

text \<open>
  A release manifest signed with a trusted key verifies: whatever
  \<^verbatim>\<open>SignReleaseManifest\<close> signs, \<^verbatim>\<open>VerifyReleaseManifest\<close> accepts under a trust list that
  holds the key and no other key with its id, and returns the manifest the bytes decode to.
\<close>

theorem SignReleaseManifest_roundtrip:
  assumes "SignReleaseManifest C decode priv raw = Inr sig"
    and "crypto_ok C" "cr_public C priv \<in> set trusted"
    "\<forall>k \<in> set trusted. key_ID C k = key_ID C (cr_public C priv) \<longrightarrow> k = cr_public C priv"
  shows "\<exists>m. decode raw = Some m \<and> VerifyReleaseManifest C decode trusted raw sig = Inr m"
  by (rule SignReleaseManifest_verifies [OF assms])

theorem SignReleaseManifest_roundtrip_witness:
  "\<exists>sig m. SignReleaseManifest sample_crypto (\<lambda>_. Some sample_release) [] ''r'' = Inr sig
     \<and> VerifyReleaseManifest sample_crypto (\<lambda>_. Some sample_release) [cr_public sample_crypto []]
         ''r'' sig = Inr m"
proof -
  obtain sig where sig: "SignReleaseManifest sample_crypto (\<lambda>_. Some sample_release) [] ''r'' = Inr sig"
    using sample_signed by (auto simp: is_ok_iff)
  from SignReleaseManifest_roundtrip [OF this sample_crypto_ok, of "[cr_public sample_crypto []]"] sig
  show ?thesis by simp
qed

section \<open>What a signature covers\<close>

text \<open>The text signed for a script and for a wipe order (\<^verbatim>\<open>opsign.go\<close>). A wipe order names
  its expiry to the second, in UTC.\<close>

definition scriptHash :: "crypto \<Rightarrow> string \<Rightarrow> string" where
  "scriptHash C s = (if s = [] then [] else hex_encode (cr_sha256 C (crlf_to_lf s)))"

definition ScriptManifest :: "crypto \<Rightarrow> string \<Rightarrow> string \<Rightarrow> string" where
  "ScriptManifest C body detection = ''retune-script-manifest/v1'' @ NL @ ''body='' @ scriptHash C body
     @ NL @ ''detection='' @ scriptHash C detection @ NL"

definition two_digits :: "int \<Rightarrow> string" where
  "two_digits n = (if n < 10 then ''0'' @ itoa n else itoa n)"

definition format_rfc3339 :: "go_time \<Rightarrow> string" where
  "format_rfc3339 t =
     (case civil_date t of (y, m, d) \<Rightarrow>
        let sod = (t div second) mod 86400 in
        replicate (4 - length (itoa y)) (CHR ''0'') @ itoa y @ ''-'' @ two_digits m @ ''-'' @ two_digits d
        @ ''T'' @ two_digits (sod div 3600) @ '':'' @ two_digits (sod div 60 mod 60)
        @ '':'' @ two_digits (sod mod 60) @ ''Z'')"

definition WipeManifest :: "string \<Rightarrow> bool \<Rightarrow> go_time \<Rightarrow> string" where
  "WipeManifest deviceID protected expires = ''retune-command-manifest/v1'' @ NL @ ''type=wipe'' @ NL
     @ ''device='' @ to_lower deviceID @ NL @ ''protected='' @ (if protected then ''true'' else ''false'')
     @ NL @ ''expires='' @ format_rfc3339 expires @ NL"

record op_signature =
  og_key_id :: string
  og_signature :: string

definition opsign_Sign :: "crypto \<Rightarrow> string \<Rightarrow> string \<Rightarrow> op_signature" where
  "opsign_Sign C priv msg = \<lparr>og_key_id = key_ID C (cr_public C priv),
     og_signature = b64_encode (cr_sign C priv msg)\<rparr>"

definition opsign_Verify ::
  "crypto \<Rightarrow> public_key list \<Rightarrow> string \<Rightarrow> op_signature option \<Rightarrow> sign_error option" where
  "opsign_Verify C trusted msg sig =
     (if trusted = [] then Some NoKeys
      else case sig of
             None \<Rightarrow> Some Unsigned
           | Some sg \<Rightarrow>
               if og_signature sg = [] then Some Unsigned
               else (case b64_decode (og_signature sg) of
                       None \<Rightarrow> Some SignatureNotBase64
                     | Some raw \<Rightarrow> verifyWith C trusted (og_key_id sg) msg raw))"

definition VerifyWipe ::
  "crypto \<Rightarrow> public_key list \<Rightarrow> string \<Rightarrow> bool \<Rightarrow> go_time \<Rightarrow> go_time \<Rightarrow> op_signature option
     \<Rightarrow> sign_error option" where
  "VerifyWipe C trusted deviceID protected expires now sig =
     (if expires = 0 then Some Unsigned
      else case opsign_Verify C trusted (WipeManifest deviceID protected expires) sig of
             Some e \<Rightarrow> Some e
           | None \<Rightarrow> if \<not> now < expires then Some Expired else None)"

record op_policy =
  op_enforced :: bool
  op_keys :: "public_key list"

definition ParsePolicy :: "string \<Rightarrow> op_policy" where
  "ParsePolicy raw =
     (if trim_space raw = [] then \<lparr>op_enforced = False, op_keys = []\<rparr>
      else case ParseTrustList raw of
             Inl e \<Rightarrow> \<lparr>op_enforced = True, op_keys = []\<rparr>
           | Inr keys \<Rightarrow> \<lparr>op_enforced = True, op_keys = keys\<rparr>)"

text \<open>
  A signature of one kind never stands for another: the texts signed for an agent build,
  a release manifest, a script and a wipe order are different texts, whatever they are about.
\<close>

theorem signed_texts_disjoint:
  "manifest_Bytes m \<noteq> releaseManifestBytes v h \<and> manifest_Bytes m \<noteq> ScriptManifest C b d
   \<and> manifest_Bytes m \<noteq> WipeManifest i p e \<and> releaseManifestBytes v h \<noteq> ScriptManifest C b d
   \<and> releaseManifestBytes v h \<noteq> WipeManifest i p e \<and> ScriptManifest C b d \<noteq> WipeManifest i p e"
  by (simp add: manifest_Bytes_def releaseManifestBytes_def ScriptManifest_def WipeManifest_def)

lemma line_split:
  "CHR 0x0A \<notin> set a \<Longrightarrow> CHR 0x0A \<notin> set b \<Longrightarrow> a @ CHR 0x0A # r = b @ CHR 0x0A # s \<longleftrightarrow> a = b \<and> r = s"
proof
  assume "CHR 0x0A \<notin> set a" "CHR 0x0A \<notin> set b" "a @ CHR 0x0A # r = b @ CHR 0x0A # s"
  then have "cut (CHR 0x0A) (a @ CHR 0x0A # r) = Some (b, s)" by (simp add: cut_append)
  then show "a = b \<and> r = s" using \<open>CHR 0x0A \<notin> set a\<close> by (simp add: cut_append)
qed simp

text \<open>
  The text signed for a build binds its version and its hash: two builds whose versions
  hold no newline and whose signed texts are equal have the same version and the same hash up
  to case.
\<close>

theorem manifest_Bytes_binds:
  assumes "CHR 0x0A \<notin> set (m_version m)" "CHR 0x0A \<notin> set (m_version n)"
    and "manifest_Bytes m = manifest_Bytes n"
  shows "m_version m = m_version n \<and> equal_fold (m_sha256 m) (m_sha256 n)"
  using assms line_split [OF assms(1,2)]
  by (simp add: manifest_Bytes_def equal_fold_def)

theorem manifest_Bytes_binds_witness:
  "m_version sample_manifest = ''1.2.3'' \<and> equal_fold (m_sha256 sample_manifest) ''ab''"
proof -
  have "manifest_Bytes sample_manifest = manifest_Bytes \<lparr>m_version = ''1.2.3'', m_sha256 = ''ab''\<rparr>"
    by code_simp
  from manifest_Bytes_binds [OF _ _ this] show ?thesis by (simp add: sample_manifest_def)
qed


section \<open>Trust lists\<close>

lemma parseKeys_encoded:
  "list_all (\<lambda>k. length k = 32) keys \<Longrightarrow> parseKeys (map PublicKey_Encode keys) = Inr keys"
proof (induction keys)
  case (Cons k keys)
  have "plain (b64_encode k)"
    using b64_encode_plain [of _ k] by (auto simp: plain_def list_all_iff)
  then have t: "trim_space (b64_encode k) = b64_encode k" by (rule trim_space_plain)
  have "b64_encode k \<noteq> []" using Cons.prems by auto
  with Cons t show ?case
    by (simp add: PublicKey_Encode_def DecodePublicKey_def b64_roundtrip)
qed simp

text \<open>
  Trust lists round-trip: the list \<^verbatim>\<open>EncodeTrustList\<close> writes for any 32-byte keys, none
  included, parses back to exactly those keys in the same order.
\<close>

theorem TrustList_roundtrip:
  assumes "list_all (\<lambda>k. length k = 32) keys"
  shows "ParseTrustList (EncodeTrustList keys) = Inr keys"
proof (cases "keys = []")
  case True
  then show ?thesis by (simp add: ParseTrustList_def EncodeTrustList_def trim_space_plain plain_def)
next
  case False
  have "\<forall>p \<in> set (map PublicKey_Encode keys). CHR '','' \<notin> set p"
    using b64_encode_plain by (auto simp: PublicKey_Encode_def)
  then have "split_on (CHR '','') (EncodeTrustList keys) = map PublicKey_Encode keys"
    unfolding EncodeTrustList_def using False by (intro split_join) simp_all
  then show ?thesis by (simp add: ParseTrustList_def parseKeys_encoded [OF assms])
qed

theorem TrustList_roundtrip_witness:
  "ParseTrustList (EncodeTrustList [replicate 32 (CHR ''k''), replicate 32 (CHR ''l'')])
     = Inr [replicate 32 (CHR ''k''), replicate 32 (CHR ''l'')]"
  by (rule TrustList_roundtrip) simp

text \<open>
  A malformed trust list fails closed: if the stamped list does not parse, operations
  signing is enforced, and every script and every order is refused, signed or not.
\<close>

theorem ParsePolicy_fails_closed:
  assumes "ParseTrustList raw = Inl e"
  shows "op_enforced (ParsePolicy raw)
    \<and> opsign_Verify C (op_keys (ParsePolicy raw)) msg sig = Some NoKeys"
proof -
  have "trim_space raw \<noteq> []"
  proof
    assume empty: "trim_space raw = []"
    then have "CHR '','' \<notin> set raw" using trim_space_keeps [of "CHR '',''" raw] by auto
    then have "ParseTrustList raw = Inr []"
      using empty by (simp add: ParseTrustList_def split_on_no_sep)
    with assms show False by simp
  qed
  with assms show ?thesis by (simp add: ParsePolicy_def opsign_Verify_def)
qed

theorem ParsePolicy_fails_closed_witness:
  "op_enforced (ParsePolicy ''oops,'')
     \<and> opsign_Verify sample_crypto (op_keys (ParsePolicy ''oops,'')) [] None = Some NoKeys"
proof -
  have "ParseTrustList ''oops,'' = Inl (TrustListEntry ''oops'' (KeyLength 3))" by code_simp
  then show ?thesis by (rule ParsePolicy_fails_closed)
qed

text \<open>
  A wipe is obeyed only on a live, signed order for this device: if \<^verbatim>\<open>VerifyWipe\<close>
  accepts, the order has an expiry that is still ahead, and a trusted operations key signed
  the text naming this device, this protection flag and this expiry.
\<close>

theorem VerifyWipe_sound:
  assumes "VerifyWipe C trusted deviceID protected expires now sig = None"
  shows "expires \<noteq> 0 \<and> now < expires
    \<and> (\<exists>sg raw. sig = Some sg \<and> b64_decode (og_signature sg) = Some raw
         \<and> (\<exists>k \<in> set trusted. key_ID C k = og_key_id sg
              \<and> cr_verify C k (WipeManifest deviceID protected expires) raw))"
proof -
  have v: "opsign_Verify C trusted (WipeManifest deviceID protected expires) sig = None"
    and e: "expires \<noteq> 0" "now < expires"
    using assms by (auto simp: VerifyWipe_def split: if_splits option.splits)
  from v obtain sg raw where "sig = Some sg" "b64_decode (og_signature sg) = Some raw"
    "verifyWith C trusted (og_key_id sg) (WipeManifest deviceID protected expires) raw = None"
    by (auto simp: opsign_Verify_def split: if_splits option.splits)
  with e verifyWith_None show ?thesis by blast
qed

lemma opsign_roundtrip:
  assumes "crypto_ok C" "cr_public C priv \<in> set trusted" "cr_sign C priv msg \<noteq> []"
    "\<forall>k \<in> set trusted. key_ID C k = key_ID C (cr_public C priv) \<longrightarrow> k = cr_public C priv"
  shows "opsign_Verify C trusted msg (Some (opsign_Sign C priv msg)) = None"
  using assms verifyWith_signed [OF assms(1,2,4)]
  by (auto simp: opsign_Verify_def opsign_Sign_def b64_roundtrip)

theorem VerifyWipe_sound_witness:
  "\<exists>sg. VerifyWipe sample_crypto [cr_public sample_crypto []] ''D'' True 9 5 (Some sg) = None
     \<and> (\<exists>raw. b64_decode (og_signature sg) = Some raw)"
proof -
  let ?sg = "opsign_Sign sample_crypto [] (WipeManifest ''D'' True 9)"
  have "opsign_Verify sample_crypto [cr_public sample_crypto []] (WipeManifest ''D'' True 9) (Some ?sg) = None"
    by (rule opsign_roundtrip [OF sample_crypto_ok]) (simp_all add: sample_crypto_def WipeManifest_def)
  then have ok: "VerifyWipe sample_crypto [cr_public sample_crypto []] ''D'' True 9 5 (Some ?sg) = None"
    by (simp add: VerifyWipe_def)
  from VerifyWipe_sound [OF this] ok show ?thesis by blast
qed


section \<open>The order of versions\<close>

text \<open>Semantic-version precedence as a key in a linear order: numeric identifiers by value and
  below all others, the others by their bytes, a version without a prerelease above its
  prereleases.\<close>

definition ident_key :: "string \<Rightarrow> nat \<times> int \<times> string" where
  "ident_key a = (case atoi a of Some n \<Rightarrow> (0, n, []) | None \<Rightarrow> (1, 0, a))"

definition version_key :: "version \<Rightarrow> int \<times> int \<times> int \<times> nat \<times> (nat \<times> int \<times> string) list" where
  "version_key v = (v_major v, v_minor v, v_patch v, if v_pre v = [] then 1 else 0,
     map ident_key (split_on (CHR ''.'') (v_pre v)))"

text \<open>A prerelease is canonical when its numeric identifiers are written without leading zeros
  or a plus sign, as semantic versioning demands.\<close>

definition canonical_ident :: "string \<Rightarrow> bool" where
  "canonical_ident a \<longleftrightarrow> (case atoi a of None \<Rightarrow> True | Some n \<Rightarrow> a = itoa n)"

definition canonical :: "version \<Rightarrow> bool" where
  "canonical v \<longleftrightarrow> list_all canonical_ident (split_on (CHR ''.'') (v_pre v))"

lemma ident_key_inj:
  "canonical_ident a \<Longrightarrow> canonical_ident b \<Longrightarrow> ident_key a = ident_key b \<longleftrightarrow> a = b"
proof (cases "atoi a"; cases "atoi b")
  fix m n
  assume "canonical_ident a" "canonical_ident b" "atoi a = Some m" "atoi b = Some n"
  then have "a = itoa m" "b = itoa n" "ident_key a = (0, m, [])" "ident_key b = (0, n, [])"
    unfolding ident_key_def canonical_ident_def by simp_all
  moreover have "a = b \<Longrightarrow> m = n" using \<open>atoi a = Some m\<close> \<open>atoi b = Some n\<close> by simp
  ultimately show ?thesis by (metis prod.inject)
qed (auto simp: ident_key_def)

lemma ident_keys_inj:
  "list_all canonical_ident as \<Longrightarrow> list_all canonical_ident bs \<Longrightarrow>
     map ident_key as = map ident_key bs \<longleftrightarrow> as = bs"
  by (induction "as" bs rule: list_induct2') (auto simp: ident_key_inj)

lemma compareIdent_key:
  assumes "canonical_ident a" "canonical_ident b" "a \<noteq> b"
  shows "compareIdent a b = (if ident_key a < ident_key b then -1 else 1)"
  using assms
  by (auto simp: compareIdent_def ident_key_def canonical_ident_def split: option.splits)

lemma compareIdents_key:
  "list_all canonical_ident as \<Longrightarrow> list_all canonical_ident bs \<Longrightarrow>
     compareIdents as bs = (if map ident_key as < map ident_key bs then -1
       else if map ident_key as = map ident_key bs then 0 else 1)"
proof (induction "as" bs rule: compareIdents.induct)
  case (1 a "as" b bs)
  show ?case
  proof (cases "a = b")
    case True
    with 1 show ?thesis by simp
  next
    case False
    with 1 have "ident_key a \<noteq> ident_key b" by (simp add: ident_key_inj)
    with 1 False show ?thesis by (simp add: compareIdent_key)
  qed
next
  fix bs :: "string list"
  show "compareIdents [] bs = (if map ident_key [] < map ident_key bs then -1
      else if map ident_key [] = map ident_key bs then 0 else 1)" by (cases bs) simp_all
qed simp_all

lemma split_on_inj: "split_on c a = split_on c b \<longleftrightarrow> a = b"
  by (metis join_split)

lemma version_key_inj:
  assumes "canonical v" "canonical w"
  shows "version_key v = version_key w \<longleftrightarrow> v = w"
  using assms ident_keys_inj [of "split_on (CHR ''.'') (v_pre v)" "split_on (CHR ''.'') (v_pre w)"]
  by (auto simp: version_key_def canonical_def split_on_inj)

lemma Compare_key:
  assumes "canonical v" "canonical w"
  shows "Compare v w = (if version_key v < version_key w then -1
    else if version_key v = version_key w then 0 else 1)"
proof (cases "v_major v = v_major w \<and> v_minor v = v_minor w \<and> v_patch v = v_patch w")
  case False
  then show ?thesis by (auto simp: Compare_def version_key_def)
next
  case core: True
  show ?thesis
  proof (cases "v_pre v = v_pre w")
    case True
    with core show ?thesis by (simp add: Compare_def version_key_def)
  next
    case False
    have k: "map ident_key (split_on (CHR ''.'') (v_pre v)) \<noteq> map ident_key (split_on (CHR ''.'') (v_pre w))"
      using assms False ident_keys_inj split_on_inj unfolding canonical_def by blast
    show ?thesis
      using core False k compareIdents_key [of "split_on (CHR ''.'') (v_pre v)" "split_on (CHR ''.'') (v_pre w)"]
        assms
      by (auto simp: Compare_def version_key_def canonical_def)
  qed
qed

text \<open>
  On versions whose prerelease numbers are canonical, \<^verbatim>\<open>Compare\<close> is the linear order of
  semantic-version precedence: it answers -1, 0 or 1 as the first version's key is below,
  equal to or above the second one's, and two versions compare equal only when they are the
  same version.
\<close>

theorem Compare_linear_order:
  assumes "canonical v" "canonical w"
  shows "Compare v w = (if version_key v < version_key w then -1
      else if version_key v = version_key w then 0 else 1)
    \<and> (Compare v w = 0 \<longleftrightarrow> v = w)"
  using Compare_key [OF assms] version_key_inj [OF assms] by auto

theorem Compare_linear_order_witness:
  "Compare \<lparr>v_major = 1, v_minor = 0, v_patch = 0, v_pre = ''rc.2''\<rparr>
     \<lparr>v_major = 1, v_minor = 0, v_patch = 0, v_pre = ''rc.10''\<rparr> = -1"
proof -
  let ?v = "\<lparr>v_major = 1, v_minor = 0, v_patch = 0, v_pre = ''rc.2''\<rparr>"
    and ?w = "\<lparr>v_major = 1, v_minor = 0, v_patch = 0, v_pre = ''rc.10''\<rparr>"
  have c: "canonical ?v" "canonical ?w" by code_simp+
  have "version_key ?v = (1, 0, 0, 0, [(1, 0, ''rc''), (0, 2, [])])"
    "version_key ?w = (1, 0, 0, 0, [(1, 0, ''rc''), (0, 10, [])])" by code_simp+
  then show ?thesis using Compare_linear_order [OF c] by simp
qed

text \<open>
  Being newer is a strict order on version strings that parse to canonical versions: no
  version is newer than itself, two versions are never newer than each other, and newer than
  a newer version is newer.
\<close>

theorem Newer_strict_order:
  assumes "ParseVersion a = Some u" "ParseVersion b = Some v" "ParseVersion c = Some w"
    and "canonical u" "canonical v" "canonical w"
  shows "\<not> Newer a a \<and> \<not> (Newer a b \<and> Newer b a) \<and> (Newer a b \<and> Newer b c \<longrightarrow> Newer a c)
    \<and> (\<not> Newer a b \<and> \<not> Newer b a \<longrightarrow> u = v)"
proof -
  have n: "Newer x y \<longleftrightarrow> version_key q < version_key p"
    if "ParseVersion x = Some p" "ParseVersion y = Some q" "canonical p" "canonical q" for x y p q
    using that Compare_key [of p q] by (auto simp: Newer_def)
  note ab = n [OF assms(1,2,4,5)] and ba = n [OF assms(2,1,5,4)] and bc = n [OF assms(2,3,5,6)]
    and ac = n [OF assms(1,3,4,6)] and aa = n [OF assms(1,1,4,4)]
  have "version_key u = version_key v" if "\<not> version_key v < version_key u" "\<not> version_key u < version_key v"
    using that by (simp add: not_less order_antisym)
  then have "\<not> Newer a b \<and> \<not> Newer b a \<longrightarrow> u = v"
    unfolding ab ba using version_key_inj [OF assms(4,5)] by blast
  moreover have "\<not> Newer a a" "\<not> (Newer a b \<and> Newer b a)" "Newer a b \<and> Newer b c \<longrightarrow> Newer a c"
    unfolding ab ba bc ac aa by auto
  ultimately show ?thesis by blast
qed

theorem Newer_strict_order_witness:
  "\<not> (Newer ''v1.2.3'' ''1.2.3-rc.1'' \<and> Newer ''1.2.3-rc.1'' ''v1.2.3'')"
proof -
  have p: "ParseVersion ''v1.2.3'' = Some \<lparr>v_major = 1, v_minor = 2, v_patch = 3, v_pre = []\<rparr>"
    "ParseVersion ''1.2.3-rc.1'' = Some \<lparr>v_major = 1, v_minor = 2, v_patch = 3, v_pre = ''rc.1''\<rparr>"
    by code_simp+
  have c: "canonical \<lparr>v_major = 1, v_minor = 2, v_patch = 3, v_pre = []\<rparr>"
    "canonical \<lparr>v_major = 1, v_minor = 2, v_patch = 3, v_pre = ''rc.1''\<rparr>" by code_simp+
  show ?thesis using Newer_strict_order [OF p p(1) c c(1)] by blast
qed

text \<open>Without the canonical form the order breaks: each of \<^verbatim>\<open>1\<close> and \<^verbatim>\<open>01\<close> outranks the
  other. And the parser takes a plus sign before a number.\<close>

lemma Compare_not_antisymmetric:
  "Compare \<lparr>v_major = 1, v_minor = 0, v_patch = 0, v_pre = ''1''\<rparr>
     \<lparr>v_major = 1, v_minor = 0, v_patch = 0, v_pre = ''01''\<rparr> = 1"
  "Compare \<lparr>v_major = 1, v_minor = 0, v_patch = 0, v_pre = ''01''\<rparr>
     \<lparr>v_major = 1, v_minor = 0, v_patch = 0, v_pre = ''1''\<rparr> = 1"
  by code_simp+

lemma ParseVersion_plus_sign: "ParseVersion ''+1.2.3'' \<noteq> None"
  by code_simp

end
