(* ===== verification/Login_Throttle.thy ===== *)
theory Login_Throttle
  imports Retune_Prelude "HOL-Library.AList"
begin

text \<open>
  Throttling of failed sign-ins (\<^verbatim>\<open>src/internal/server/auth/ratelimit.go\<close>,
  \<^verbatim>\<open>throttle.go\<close>, \<^verbatim>\<open>store/loginfailures.go\<close>). The interface \<^verbatim>\<open>Throttle\<close> is the locale
  \<open>throttle\<close>: its operations, the number of failures a key has in the current window, and the
  laws that tie them together. It is interpreted on the in-memory \<^verbatim>\<open>Limiter\<close> and on the
  \<^verbatim>\<open>StoreThrottle\<close> over the failures table; what the locale proves (a key is locked out by
  enough failures, and a lock-out ends with the window) then holds of both.

  Every operation takes the instant it happens at: the clock is read once per operation. The
  key that \<^verbatim>\<open>evict\<close> forgets is picked by Go's map iteration, which is the parameter
  \<open>pick\<close>.
\<close>

section \<open>The interface\<close>

locale throttle =
  fixes allowed :: "'s \<Rightarrow> go_time \<Rightarrow> string \<Rightarrow> bool \<times> 's"
    and fail :: "'s \<Rightarrow> go_time \<Rightarrow> string \<Rightarrow> 's"
    and reset :: "'s \<Rightarrow> string \<Rightarrow> 's"
    and ok :: "'s \<Rightarrow> bool"
    and room :: "'s \<Rightarrow> bool"
    and failures :: "'s \<Rightarrow> go_time \<Rightarrow> string \<Rightarrow> nat"
    and maximum :: int
    and window :: duration
  assumes allowed_iff: "ok s \<Longrightarrow> fst (allowed s now k) \<longleftrightarrow> int (failures s now k) < maximum"
    and allowed_keeps: "ok s \<Longrightarrow> now \<le> now' \<Longrightarrow> failures (snd (allowed s now k)) now' j = failures s now' j"
    and allowed_ok: "ok s \<Longrightarrow> ok (snd (allowed s now k))"
    and fail_counts: "ok s \<Longrightarrow> now \<le> now' \<Longrightarrow>
      failures (fail s now k) now' k = failures s now' k + (if now' - window < now then 1 else 0)"
    and fail_others: "ok s \<Longrightarrow> room s \<Longrightarrow> now \<le> now' \<Longrightarrow> j \<noteq> k \<Longrightarrow>
      failures (fail s now k) now' j = failures s now' j"
    and fail_ok: "ok s \<Longrightarrow> ok (fail s now k)"
    and reset_clears: "ok s \<Longrightarrow> failures (reset s k) now k = 0"
    and reset_others: "ok s \<Longrightarrow> j \<noteq> k \<Longrightarrow> failures (reset s k) now j = failures s now j"
    and reset_ok: "ok s \<Longrightarrow> ok (reset s k)"
begin

lemma fails_ok: "ok s \<Longrightarrow> ok (foldl (\<lambda>s t. fail s t k) s ts)"
  by (induction ts arbitrary: s) (simp_all add: fail_ok)

lemma fails_count:
  "ok s \<Longrightarrow> \<forall>t \<in> set ts. t \<le> now \<Longrightarrow>
     failures (foldl (\<lambda>s t. fail s t k) s ts) now k =
       failures s now k + length (filter (\<lambda>t. now - window < t) ts)"
  by (induction ts arbitrary: s) (auto simp: fail_ok fail_counts)

lemma locked_out:
  assumes "ok s" "\<forall>t \<in> set ts. t \<le> now" "maximum \<le> int (length (filter (\<lambda>t. now - window < t) ts))"
  shows "\<not> fst (allowed (foldl (\<lambda>s t. fail s t k) s ts) now k)"
  using assms by (simp add: allowed_iff fails_ok fails_count)

lemma not_locked_out:
  assumes "ok s" "\<forall>t \<in> set ts. t \<le> now" "failures s now k = 0"
    "int (length (filter (\<lambda>t. now - window < t) ts)) < maximum"
  shows "fst (allowed (foldl (\<lambda>s t. fail s t k) s ts) now k)"
  using assms by (simp add: allowed_iff fails_ok fails_count)

lemma reset_allows:
  assumes "ok s" "0 < maximum"
  shows "fst (allowed (reset s k) now k)"
  using assms by (simp add: allowed_iff reset_ok reset_clears)

end

section \<open>The in-memory limiter\<close>

record limiter =
  l_max :: int
  l_window :: duration
  l_failures :: "(string \<times> go_time list) list"

definition maxLimiterKeys :: nat where
  "maxLimiterKeys = 100000"

definition NewLimiter :: "int \<Rightarrow> duration \<Rightarrow> limiter" where
  "NewLimiter mx w = \<lparr>l_max = mx, l_window = w, l_failures = []\<rparr>"

text \<open>\<^verbatim>\<open>recent\<close> also writes back what it kept.\<close>

definition recent :: "limiter \<Rightarrow> go_time \<Rightarrow> string \<Rightarrow> go_time list \<times> limiter" where
  "recent l now key =
     (case map_of (l_failures l) key of
        None \<Rightarrow> ([], l)
      | Some entries \<Rightarrow>
          let cutoff = time_add now (- l_window l);
              kept = filter (\<lambda>at. at > cutoff) entries in
          if kept = [] then ([], l\<lparr>l_failures := AList.delete key (l_failures l)\<rparr>)
          else (kept, l\<lparr>l_failures := AList.update key kept (l_failures l)\<rparr>))"

definition Allowed :: "limiter \<Rightarrow> go_time \<Rightarrow> string \<Rightarrow> bool \<times> limiter" where
  "Allowed l now key = (case recent l now key of (r, l') \<Rightarrow> (int (length r) < l_max l', l'))"

definition evict :: "((string \<times> go_time list) list \<Rightarrow> string) \<Rightarrow> limiter \<Rightarrow> go_time \<Rightarrow> limiter" where
  "evict pick l now =
     (let l1 = foldl (\<lambda>l key. snd (recent l now key)) l (map fst (l_failures l)) in
      if length (l_failures l1) < maxLimiterKeys then l1
      else l1\<lparr>l_failures := AList.delete (pick (l_failures l1)) (l_failures l1)\<rparr>)"

definition Fail :: "((string \<times> go_time list) list \<Rightarrow> string) \<Rightarrow> limiter \<Rightarrow> go_time \<Rightarrow> string \<Rightarrow> limiter" where
  "Fail pick l now key =
     (case recent l now key of (r, l') \<Rightarrow>
        let l'' = (if r = [] \<and> length (l_failures l') \<ge> maxLimiterKeys then evict pick l' now else l')
        in l''\<lparr>l_failures := AList.update key (r @ [now]) (l_failures l'')\<rparr>)"

definition Reset :: "limiter \<Rightarrow> string \<Rightarrow> limiter" where
  "Reset l key = l\<lparr>l_failures := AList.delete key (l_failures l)\<rparr>"

section \<open>The throttle in the database\<close>

record store_throttle =
  st_max :: int
  st_window :: duration
  st_rows :: "(string \<times> go_time) list"

definition CountLoginFailures :: "(string \<times> go_time) list \<Rightarrow> string \<Rightarrow> go_time \<Rightarrow> int" where
  "CountLoginFailures rows key since = int (length (filter (\<lambda>(k, at). k = key \<and> at > since) rows))"

definition RecordLoginFailure ::
  "(string \<times> go_time) list \<Rightarrow> string \<Rightarrow> go_time \<Rightarrow> go_time \<Rightarrow> (string \<times> go_time) list" where
  "RecordLoginFailure rows key at expired = filter (\<lambda>(_, t). \<not> t \<le> expired) rows @ [(key, at)]"

definition ClearLoginFailures :: "(string \<times> go_time) list \<Rightarrow> string \<Rightarrow> (string \<times> go_time) list" where
  "ClearLoginFailures rows key = filter (\<lambda>(k, _). k \<noteq> key) rows"

definition st_Allowed :: "store_throttle \<Rightarrow> go_time \<Rightarrow> string \<Rightarrow> bool" where
  "st_Allowed t now key \<longleftrightarrow>
     CountLoginFailures (st_rows t) key (time_add now (- st_window t)) < st_max t"

definition st_Fail :: "store_throttle \<Rightarrow> go_time \<Rightarrow> string \<Rightarrow> store_throttle" where
  "st_Fail t now key =
     t\<lparr>st_rows := RecordLoginFailure (st_rows t) key now (time_add now (- st_window t))\<rparr>"

definition st_Reset :: "store_throttle \<Rightarrow> string \<Rightarrow> store_throttle" where
  "st_Reset t key = t\<lparr>st_rows := ClearLoginFailures (st_rows t) key\<rparr>"

text \<open>The store throttle satisfies the interface.\<close>

definition st_failures :: "store_throttle \<Rightarrow> go_time \<Rightarrow> string \<Rightarrow> nat" where
  "st_failures t now key = length (filter (\<lambda>(k, at). k = key \<and> at > now - st_window t) (st_rows t))"

lemma st_Fail_failures:
  assumes "now \<le> now'" "st_window t = w"
  shows "st_failures (st_Fail t now k) now' j =
    st_failures t now' j + (if j = k \<and> now' - w < now then 1 else 0)"
proof -
  have "filter (\<lambda>(k, at). k = j \<and> now' - w < at) (filter (\<lambda>(_, t). \<not> t \<le> now - w) (st_rows t))
      = filter (\<lambda>(k, at). k = j \<and> now' - w < at) (st_rows t)"
    unfolding filter_filter using assms(1) by (intro filter_cong) auto
  then show ?thesis
    using assms(2) by (auto simp: st_failures_def st_Fail_def RecordLoginFailure_def time_add_def)
qed

interpretation st: throttle "\<lambda>t now k. (st_Allowed t now k, t)" st_Fail st_Reset
    "\<lambda>t. st_max t = mx \<and> st_window t = w" "\<lambda>_. True" st_failures mx w for mx w
proof
  fix t :: store_throttle and now now' :: go_time and j k :: string
  assume ok: "st_max t = mx \<and> st_window t = w"
  show "fst (st_Allowed t now k, t) \<longleftrightarrow> int (st_failures t now k) < mx"
    using ok by (simp add: st_Allowed_def CountLoginFailures_def st_failures_def time_add_def)
  show "now \<le> now' \<Longrightarrow> st_failures (st_Fail t now k) now' k =
      st_failures t now' k + (if now' - w < now then 1 else 0)"
    using st_Fail_failures [of now now' t w k k] ok by simp
  show "now \<le> now' \<Longrightarrow> j \<noteq> k \<Longrightarrow> st_failures (st_Fail t now k) now' j = st_failures t now' j"
    using st_Fail_failures [of now now' t w k j] ok by simp
  show "st_failures (st_Reset t k) now k = 0"
    by (simp add: st_failures_def st_Reset_def ClearLoginFailures_def filter_empty_conv case_prod_beta)
  show "j \<noteq> k \<Longrightarrow> st_failures (st_Reset t k) now j = st_failures t now j"
  proof -
    assume "j \<noteq> k"
    then have "filter (\<lambda>(k, at). k = j \<and> now - st_window t < at) (filter (\<lambda>(k', _). k' \<noteq> k) (st_rows t))
        = filter (\<lambda>(k, at). k = j \<and> now - st_window t < at) (st_rows t)"
      unfolding filter_filter by (intro filter_cong) auto
    then show ?thesis by (simp add: st_failures_def st_Reset_def ClearLoginFailures_def)
  qed
qed (auto simp: st_Fail_def st_Reset_def)


section \<open>The limiter satisfies the interface\<close>

definition entries_of :: "limiter \<Rightarrow> string \<Rightarrow> go_time list" where
  "entries_of l key = (case map_of (l_failures l) key of None \<Rightarrow> [] | Some es \<Rightarrow> es)"

definition lim_failures :: "limiter \<Rightarrow> go_time \<Rightarrow> string \<Rightarrow> nat" where
  "lim_failures l now key = length (filter (\<lambda>at. at > now - l_window l) (entries_of l key))"

definition lim_ok :: "int \<Rightarrow> duration \<Rightarrow> limiter \<Rightarrow> bool" where
  "lim_ok mx w l \<longleftrightarrow> l_max l = mx \<and> l_window l = w \<and> distinct (map fst (l_failures l))"

lemma entries_of_update [simp]:
  "entries_of (l\<lparr>l_failures := AList.update key es (l_failures l)\<rparr>) j =
     (if j = key then es else entries_of l j)"
  by (simp add: entries_of_def update_conv')

lemma entries_of_delete [simp]:
  "entries_of (l\<lparr>l_failures := AList.delete key (l_failures l)\<rparr>) j =
     (if j = key then [] else entries_of l j)"
  by (simp add: entries_of_def delete_conv')

lemma recent_fst: "fst (recent l now key) = filter (\<lambda>at. at > now - l_window l) (entries_of l key)"
  by (auto simp: recent_def entries_of_def Let_def time_add_def split: option.splits)

lemma recent_config [simp]:
  "l_max (snd (recent l now key)) = l_max l" "l_window (snd (recent l now key)) = l_window l"
  by (simp_all add: recent_def Let_def split: option.splits)

lemma recent_entries:
  "entries_of (snd (recent l now key)) j =
     (if j = key then filter (\<lambda>at. at > now - l_window l) (entries_of l key) else entries_of l j)"
proof (cases "map_of (l_failures l) key")
  case None
  then show ?thesis by (simp add: recent_def entries_of_def)
next
  case (Some es)
  let ?kept = "filter (\<lambda>at. at > now - l_window l) es"
  have e: "entries_of l key = es" by (simp add: entries_of_def Some)
  show ?thesis
    by (cases "?kept = []") (simp_all add: recent_def Some Let_def time_add_def e)
qed

lemma recent_distinct [simp]:
  "distinct (map fst (l_failures l)) \<Longrightarrow> distinct (map fst (l_failures (snd (recent l now key))))"
  by (auto simp: recent_def Let_def distinct_update distinct_delete split: option.splits)

lemma length_update:
  "length (AList.update k v al) = (if k \<in> fst ` set al then length al else Suc (length al))"
  by (induction al) (auto split: prod.splits)

lemma recent_length: "length (l_failures (snd (recent l now key))) \<le> length (l_failures l)"
proof (cases "map_of (l_failures l) key")
  case (Some es)
  then have "key \<in> fst ` set (l_failures l)" by (metis domI dom_map_of_conv_image_fst)
  then show ?thesis
    using Some by (simp add: recent_def Let_def length_delete_le length_update)
qed (simp add: recent_def)

lemma recent_failures:
  assumes "now \<le> now'"
  shows "lim_failures (snd (recent l now key)) now' j = lim_failures l now' j"
proof -
  have "filter (\<lambda>at. now' - l_window l < at) (filter (\<lambda>at. now - l_window l < at) es)
      = filter (\<lambda>at. now' - l_window l < at) es" for es
    unfolding filter_filter using assms by (intro filter_cong) auto
  then show ?thesis by (simp add: lim_failures_def recent_entries)
qed


lemma fold_recent_config:
  "l_max (foldl (\<lambda>l key. snd (recent l now key)) l ks) = l_max l
   \<and> l_window (foldl (\<lambda>l key. snd (recent l now key)) l ks) = l_window l
   \<and> (distinct (map fst (l_failures l)) \<longrightarrow>
        distinct (map fst (l_failures (foldl (\<lambda>l key. snd (recent l now key)) l ks))))
   \<and> length (l_failures (foldl (\<lambda>l key. snd (recent l now key)) l ks)) \<le> length (l_failures l)"
  by (induction ks arbitrary: l) (auto intro: order_trans recent_length)

lemma evict_ok: "lim_ok mx w l \<Longrightarrow> lim_ok mx w (evict pick l now)"
  using fold_recent_config [of now l "map fst (l_failures l)"]
  by (auto simp: evict_def lim_ok_def Let_def distinct_delete)

lemma recent_ok: "lim_ok mx w l \<Longrightarrow> lim_ok mx w (snd (recent l now k))"
  by (simp add: lim_ok_def)

lemma Fail_ok: "lim_ok mx w l \<Longrightarrow> lim_ok mx w (Fail pick l now k)"
  using recent_ok [of mx w l now k] evict_ok [of mx w "snd (recent l now k)" pick now]
  by (auto simp: Fail_def lim_ok_def Let_def case_prod_beta distinct_update)

lemma Fail_entries:
  "entries_of (Fail pick l now k) k = filter (\<lambda>at. at > now - l_window l) (entries_of l k) @ [now]"
  by (simp add: Fail_def Let_def case_prod_beta recent_fst)

lemma Fail_window: "lim_ok mx w l \<Longrightarrow> l_window (Fail pick l now k) = w"
  using Fail_ok [of mx w l pick now k] by (simp add: lim_ok_def)

interpretation lim: throttle Allowed "Fail pick" Reset "lim_ok mx w"
    "\<lambda>l. length (l_failures l) < maxLimiterKeys" lim_failures mx w for pick mx w
proof
  fix l :: limiter and now now' :: go_time and j k :: string
  assume ok: "lim_ok mx w l"
  show "fst (Allowed l now k) \<longleftrightarrow> int (lim_failures l now k) < mx"
    using ok recent_fst [of l now k]
    by (simp add: Allowed_def case_prod_beta lim_failures_def lim_ok_def)
  show "now \<le> now' \<Longrightarrow> lim_failures (snd (Allowed l now k)) now' j = lim_failures l now' j"
    by (simp add: Allowed_def case_prod_beta recent_failures)
  show "lim_ok mx w (snd (Allowed l now k))"
    using recent_ok [OF ok] by (simp add: Allowed_def case_prod_beta)
  show "lim_ok mx w (Fail pick l now k)" using ok by (rule Fail_ok)
  show "now \<le> now' \<Longrightarrow> lim_failures (Fail pick l now k) now' k =
      lim_failures l now' k + (if now' - w < now then 1 else 0)"
  proof -
    assume "now \<le> now'"
    then have "filter (\<lambda>at. now' - w < at) (filter (\<lambda>at. now - w < at) es) = filter (\<lambda>at. now' - w < at) es"
      for es unfolding filter_filter by (intro filter_cong) auto
    then show ?thesis
      using ok Fail_window [OF ok] by (simp add: lim_failures_def Fail_entries lim_ok_def)
  qed
  show "lim_failures (Fail pick l now k) now' j = lim_failures l now' j"
    if "length (l_failures l) < maxLimiterKeys" "now \<le> now'" "j \<noteq> k"
  proof -
    have "length (l_failures (snd (recent l now k))) < maxLimiterKeys"
      using recent_length [of l now k] that(1) by simp
    then have "entries_of (Fail pick l now k) j = entries_of l j"
      using that(3) by (simp add: Fail_def Let_def case_prod_beta recent_entries)
    then show ?thesis using ok Fail_window [OF ok] by (simp add: lim_failures_def lim_ok_def)
  qed
  show "lim_failures (Reset l k) now k = 0" by (simp add: lim_failures_def Reset_def)
  show "j \<noteq> k \<Longrightarrow> lim_failures (Reset l k) now j = lim_failures l now j"
    by (simp add: lim_failures_def Reset_def)
  show "lim_ok mx w (Reset l k)" using ok by (simp add: lim_ok_def Reset_def distinct_delete)
qed

section \<open>What the throttles promise\<close>

text \<open>
  Guessing is locked out, whichever throttle counts: once a key has failed the maximum
  number of times within the window ending now, in any state of the throttle to begin with,
  neither the in-memory limiter nor the one in the database allows another attempt.
\<close>

theorem throttle_locks_out:
  assumes "list_all (\<lambda>t. t \<le> now) ts" "mx \<le> int (length (filter (\<lambda>t. now - w < t) ts))"
    and "lim_ok mx w l" "st_max t = mx" "st_window t = w"
  shows "\<not> fst (Allowed (foldl (\<lambda>l t. Fail pick l t k) l ts) now k)
    \<and> \<not> st_Allowed (foldl (\<lambda>s t. st_Fail s t k) t ts) now k"
  using lim.locked_out [OF assms(3), of ts now pick k] st.locked_out [of t mx w ts now k] assms
  by (simp add: list_all_iff)

theorem throttle_locks_out_witness:
  "\<not> fst (Allowed (foldl (\<lambda>l t. Fail (fst \<circ> hd) l t ''k'') (NewLimiter 2 10) [5, 8]) 9 ''k'')
   \<and> \<not> st_Allowed (foldl (\<lambda>s t. st_Fail s t ''k'') \<lparr>st_max = 2, st_window = 10, st_rows = []\<rparr> [5, 8]) 9 ''k''"
  by (rule throttle_locks_out) (simp_all add: lim_ok_def NewLimiter_def)

text \<open>
  A lock-out is never longer than it should be: starting from a key with no failures, an
  attempt is allowed by either throttle as long as fewer than the maximum number of the
  failures since fall into the window ending now; and right after a success was recorded an
  attempt is allowed.
\<close>

theorem throttle_lets_in:
  assumes "list_all (\<lambda>t. t \<le> now) ts" "int (length (filter (\<lambda>t. now - w < t) ts)) < mx"
    and "lim_ok mx w l" "lim_failures l now k = 0"
    and "st_max t = mx" "st_window t = w" "st_failures t now k = 0"
  shows "fst (Allowed (foldl (\<lambda>l t. Fail pick l t k) l ts) now k)
    \<and> st_Allowed (foldl (\<lambda>s t. st_Fail s t k) t ts) now k
    \<and> fst (Allowed (Reset l k) now k) \<and> st_Allowed (st_Reset t k) now k"
proof -
  have "0 < mx" using assms(2) by linarith
  moreover have "\<forall>t \<in> set ts. t \<le> now" using assms(1) by (simp add: list_all_iff)
  ultimately show ?thesis
    using lim.not_locked_out [OF assms(3) _ assms(4,2), of pick] lim.reset_allows [OF assms(3), of k now]
      st.not_locked_out [of t mx w ts now k] st.reset_allows [of t mx w k now] assms(2,5-7)
    by simp
qed

theorem throttle_lets_in_witness:
  "fst (Allowed (foldl (\<lambda>l t. Fail (fst \<circ> hd) l t ''k'') (NewLimiter 2 10) [5, 8]) 15 ''k'')"
  using throttle_lets_in [of 15 "[5, 8]" 10 2 "NewLimiter 2 10" "''k''"
      "\<lparr>st_max = 2, st_window = 10, st_rows = []\<rparr>" "fst \<circ> hd"]
  by (simp add: lim_ok_def NewLimiter_def lim_failures_def st_failures_def entries_of_def)

lemma evict_length:
  assumes "\<And>m. m \<noteq> [] \<Longrightarrow> pick m \<in> fst ` set m" "length (l_failures l) \<le> maxLimiterKeys"
  shows "length (l_failures (evict pick l now)) < maxLimiterKeys"
proof -
  let ?l1 = "foldl (\<lambda>l key. snd (recent l now key)) l (map fst (l_failures l))"
  have le: "length (l_failures ?l1) \<le> maxLimiterKeys"
    using fold_recent_config [of now l "map fst (l_failures l)"] assms(2) by linarith
  show ?thesis
  proof (cases "length (l_failures ?l1) < maxLimiterKeys")
    case False
    then have "l_failures ?l1 \<noteq> []" by (auto simp: maxLimiterKeys_def)
    then have "pick (l_failures ?l1) \<in> fst ` set (l_failures ?l1)" by (rule assms(1))
    then have "length (AList.delete (pick (l_failures ?l1)) (l_failures ?l1)) < length (l_failures ?l1)"
      unfolding AList.delete_eq by (auto intro: length_filter_less)
    then show ?thesis using False le by (simp add: evict_def Let_def)
  qed (simp add: evict_def Let_def)
qed

text \<open>
  The limiter's memory is bounded: no attempt, failure or success ever makes it remember
  more than \<^verbatim>\<open>maxLimiterKeys\<close> keys, as long as the key forgotten when the table is full is
  one of the table's keys.
\<close>

theorem limiter_bounded:
  assumes "\<And>m. m \<noteq> [] \<Longrightarrow> pick m \<in> fst ` set m" "length (l_failures l) \<le> maxLimiterKeys"
  shows "length (l_failures (Fail pick l now k)) \<le> maxLimiterKeys
    \<and> length (l_failures (snd (Allowed l now k))) \<le> maxLimiterKeys
    \<and> length (l_failures (Reset l k)) \<le> maxLimiterKeys"
proof -
  let ?l = "snd (recent l now k)"
  have r: "length (l_failures ?l) \<le> maxLimiterKeys"
    using recent_length [of l now k] assms(2) by simp
  have "length (l_failures (Fail pick l now k)) \<le> maxLimiterKeys"
  proof (cases "fst (recent l now k) = [] \<and> length (l_failures ?l) \<ge> maxLimiterKeys")
    case True
    then show ?thesis
      using evict_length [OF assms(1) r, of now]
      by (auto simp: Fail_def Let_def case_prod_beta length_update)
  next
    case False
    have "k \<in> fst ` set (l_failures ?l)" if "fst (recent l now k) \<noteq> []"
    proof -
      have "entries_of ?l k \<noteq> []" using that by (simp add: recent_fst recent_entries)
      then show ?thesis
        unfolding entries_of_def by (metis map_of_eq_None_iff option.simps(4))
    qed
    with False r show ?thesis
      by (auto simp: Fail_def Let_def case_prod_beta length_update)
  qed
  moreover have "length (l_failures (Reset l k)) \<le> maxLimiterKeys"
    using assms(2) length_delete_le [of k "l_failures l"] by (simp add: Reset_def)
  ultimately show ?thesis using r by (simp add: Allowed_def case_prod_beta)
qed

theorem limiter_bounded_witness:
  "length (l_failures (Fail (fst \<circ> hd) (NewLimiter 2 10) 5 ''k'')) \<le> maxLimiterKeys"
proof -
  have "length (l_failures (NewLimiter 2 10)) \<le> maxLimiterKeys" by (simp add: NewLimiter_def)
  moreover have "(fst \<circ> hd) m \<in> fst ` set m" if "m \<noteq> []" for m :: "(string \<times> go_time list) list"
    using that by simp
  ultimately show ?thesis using limiter_bounded [of "fst \<circ> hd" "NewLimiter 2 10" 5 "''k''"] by blast
qed

end
