(* ===== verification/Auth_Service.thy ===== *)
theory Auth_Service
  imports Login_Throttle
begin

text \<open>
  Administrator sign-in, sessions and accounts (\<^verbatim>\<open>src/internal/server/auth/service.go\<close>,
  \<^verbatim>\<open>totp.go\<close>, over \<^verbatim>\<open>store/admins.go\<close>). A request handler is a function of the state (the
  admin and session tables and the throttles) and of the instant; a refusal is a value of
  \<open>auth_error\<close> beside the state the handler left.

  Parameters: password hashing and its verification (Argon2id), one-time codes, unsealing of
  a stored authenticator secret, the hash of a session token, fresh ids and tokens, and whether
  one of the hash slots came free in time. The audit log and failures of the database are not
  modelled, and neither is single sign-on. The throttles for accounts and for addresses are two
  tables here; the server keeps both in one, \<^verbatim>\<open>login_failures\<close>, where the key of an address begins with
  \<open>ip\<close> and a space, which no e-mail address does.
\<close>

datatype auth_error =
    InvalidCredentials | TOTPRequired | TOTPInvalid | AccountDisabled | TooManyAttempts
  | InvalidSession | AdminNotFound | BadRequest | LastAdmin | LocalLoginDisabled
  | SecretUnreadable | WeakPassword | EmailTaken

abbreviation "RoleAdmin \<equiv> ''admin''"
abbreviation "RoleHelpdesk \<equiv> ''helpdesk''"
abbreviation "RoleReadOnly \<equiv> ''read_only''"
abbreviation "AuthLocal \<equiv> ''local''"
abbreviation "AuthOIDC \<equiv> ''oidc''"

definition touchInterval :: duration where "touchInterval = minute"
abbreviation "maxEmailLength \<equiv> 320 :: nat"
abbreviation "MinPasswordLength \<equiv> 12 :: nat"
abbreviation "maxPasswordLength \<equiv> 1024 :: nat"
abbreviation "totpPeriod \<equiv> 30 :: int"

definition RoleRank :: "string \<Rightarrow> nat" where
  "RoleRank role = (if role = RoleAdmin then 3 else if role = RoleHelpdesk then 2
     else if role = RoleReadOnly then 1 else 0)"

definition ValidRole :: "string \<Rightarrow> bool" where
  "ValidRole role \<longleftrightarrow> RoleRank role > 0"

record admin =
  ad_id :: uuid
  ad_email :: string
  ad_password_hash :: string
  ad_totp_secret :: string
  ad_totp_last_step :: int
  ad_role :: string
  ad_created_at :: go_time
  ad_last_login_at :: "go_time option"
  ad_disabled_at :: "go_time option"
  ad_auth_source :: string
  ad_scope :: "uuid list option"

abbreviation ad_scoped :: "admin \<Rightarrow> bool" where "ad_scoped a \<equiv> ad_scope a \<noteq> None"

record session =
  se_hash :: string
  se_admin :: uuid
  se_csrf :: string
  se_created_at :: go_time
  se_expires_at :: go_time
  se_last_seen_at :: go_time

text \<open>The throttle of a service: the shared one in the database or the in-memory limiter.\<close>

datatype throttle_impl = Shared store_throttle | Memory limiter

record auth_state =
  au_admins :: "admin list"
  au_sessions :: "session list"
  au_groups :: "uuid list"
  au_throttle :: "throttle_impl option"
  au_ip_throttle :: "throttle_impl option"

record auth_config =
  ac_session_ttl :: duration
  ac_max_session_lifetime :: duration
  ac_local_login_disabled :: bool
  ac_sso_scopes_managed :: bool

record auth_env =
  en_verify_password :: "string \<Rightarrow> string \<Rightarrow> bool"
  en_hash_password :: "string \<Rightarrow> string"
  en_totp_code :: "string \<Rightarrow> int \<Rightarrow> string option"
  en_open_totp :: "uuid \<Rightarrow> string \<Rightarrow> string option"
  en_hash_token :: "string \<Rightarrow> string"
  en_pick :: "(string \<times> go_time list) list \<Rightarrow> string"

section \<open>The throttle operations the service calls\<close>

definition thAllowed :: "throttle_impl \<Rightarrow> go_time \<Rightarrow> string \<Rightarrow> bool \<times> throttle_impl" where
  "thAllowed t now key =
     (case t of
        Shared s \<Rightarrow> (st_Allowed s now key, Shared s)
      | Memory l \<Rightarrow> (case Allowed l now key of (b, l') \<Rightarrow> (b, Memory l')))"

definition thFail :: "auth_env \<Rightarrow> throttle_impl \<Rightarrow> go_time \<Rightarrow> string \<Rightarrow> throttle_impl" where
  "thFail E t now key =
     (case t of Shared s \<Rightarrow> Shared (st_Fail s now key) | Memory l \<Rightarrow> Memory (Fail (en_pick E) l now key))"

definition thReset :: "throttle_impl \<Rightarrow> string \<Rightarrow> throttle_impl" where
  "thReset t key = (case t of Shared s \<Rightarrow> Shared (st_Reset s key) | Memory l \<Rightarrow> Memory (Reset l key))"

definition ipKey :: "string \<Rightarrow> string" where
  "ipKey ip = ''ip '' @ ip"

definition checkThrottle :: "throttle_impl option \<Rightarrow> go_time \<Rightarrow> string \<Rightarrow> bool \<times> throttle_impl option" where
  "checkThrottle t now key =
     (case t of None \<Rightarrow> (True, None)
      | Some th \<Rightarrow> (case thAllowed th now key of (b, th') \<Rightarrow> (b, Some th')))"

definition fail :: "auth_env \<Rightarrow> go_time \<Rightarrow> string \<Rightarrow> string \<Rightarrow> auth_state \<Rightarrow> auth_state" where
  "fail E now key ip s =
     s\<lparr>au_throttle := map_option (\<lambda>t. thFail E t now key) (au_throttle s),
       au_ip_throttle := (if ip = [] then au_ip_throttle s
                          else map_option (\<lambda>t. thFail E t now (ipKey ip)) (au_ip_throttle s))\<rparr>"

section \<open>One-time codes\<close>

definition unix :: "go_time \<Rightarrow> int" where
  "unix t = t div second - 62135596800"

definition matchTOTP :: "auth_env \<Rightarrow> string \<Rightarrow> string \<Rightarrow> go_time \<Rightarrow> int option" where
  "matchTOTP E secret code now =
     (if secret = [] \<or> length code \<noteq> 6 then None
      else let step = quot (unix now) totpPeriod in
           find (\<lambda>s. en_totp_code E secret s = Some code) [step - 1, step, step + 1])"

section \<open>The admin table\<close>

definition GetAdmin :: "auth_state \<Rightarrow> uuid \<Rightarrow> admin option" where
  "GetAdmin s i = find (\<lambda>a. ad_id a = i) (au_admins s)"

definition GetAdminByEmail :: "auth_state \<Rightarrow> string \<Rightarrow> admin option" where
  "GetAdminByEmail s email = find (\<lambda>a. equal_fold (ad_email a) email) (au_admins s)"

definition updateAdmin :: "uuid \<Rightarrow> (admin \<Rightarrow> admin) \<Rightarrow> auth_state \<Rightarrow> auth_state" where
  "updateAdmin i f s = s\<lparr>au_admins := map (\<lambda>a. if ad_id a = i then f a else a) (au_admins s)\<rparr>"

definition ClaimTOTPStep :: "uuid \<Rightarrow> int \<Rightarrow> auth_state \<Rightarrow> bool \<times> auth_state" where
  "ClaimTOTPStep i step s =
     (list_ex (\<lambda>a. ad_id a = i \<and> ad_totp_last_step a < step) (au_admins s),
      updateAdmin i (\<lambda>a. if ad_totp_last_step a < step then a\<lparr>ad_totp_last_step := step\<rparr> else a) s)"

definition DeleteSessionsForAdmin :: "uuid \<Rightarrow> auth_state \<Rightarrow> auth_state" where
  "DeleteSessionsForAdmin i s = s\<lparr>au_sessions := filter (\<lambda>se. se_admin se \<noteq> i) (au_sessions s)\<rparr>"

section \<open>Signing in\<close>

text \<open>The last part of \<^verbatim>\<open>AuthenticateFrom\<close>: clear the failures and record the sign-in.\<close>

definition finishLogin :: "go_time \<Rightarrow> string \<Rightarrow> admin \<Rightarrow> auth_state \<Rightarrow> (auth_error + admin) \<times> auth_state" where
  "finishLogin now key a s =
     (let s1 = s\<lparr>au_throttle := map_option (\<lambda>t. thReset t key) (au_throttle s)\<rparr>;
          s2 = updateAdmin (ad_id a) (\<lambda>b. b\<lparr>ad_last_login_at := Some now\<rparr>) s1
      in (Inr (a\<lparr>ad_last_login_at := Some now\<rparr>), s2))"

text \<open>The second factor of an account that has one.\<close>

definition checkTOTP ::
  "auth_env \<Rightarrow> go_time \<Rightarrow> string \<Rightarrow> string \<Rightarrow> string \<Rightarrow> admin \<Rightarrow> auth_state
     \<Rightarrow> (auth_error + admin) \<times> auth_state" where
  "checkTOTP E now ip key totpCode a s =
     (if ad_totp_secret a = [] then finishLogin now key a s
      else if totpCode = [] then (Inl TOTPRequired, s)
      else case en_open_totp E (ad_id a) (ad_totp_secret a) of
             None \<Rightarrow> (Inl SecretUnreadable, s)
           | Some secret \<Rightarrow>
               (case matchTOTP E secret totpCode now of
                  None \<Rightarrow> (Inl TOTPInvalid, fail E now key ip s)
                | Some step \<Rightarrow>
                    (case ClaimTOTPStep (ad_id a) step s of
                       (fresh, s1) \<Rightarrow>
                         if \<not> fresh then (Inl TOTPInvalid, fail E now key ip s1)
                         else finishLogin now key a s1)))"

text \<open>The account and its password. \<open>slot\<close> says whether the check got one of the hash slots in
  time; an unknown and an SSO account cost a check too.\<close>

definition checkPassword ::
  "auth_env \<Rightarrow> bool \<Rightarrow> go_time \<Rightarrow> string \<Rightarrow> string \<Rightarrow> string \<Rightarrow> string \<Rightarrow> auth_state
     \<Rightarrow> (auth_error + admin) \<times> auth_state" where
  "checkPassword E slot now ip key password totpCode s =
     (case GetAdminByEmail s key of
        None \<Rightarrow> if \<not> slot then (Inl TooManyAttempts, s)
                else (Inl InvalidCredentials, fail E now key ip s)
      | Some a \<Rightarrow>
          if ad_auth_source a = AuthOIDC then
            (if \<not> slot then (Inl TooManyAttempts, s)
             else (Inl InvalidCredentials, fail E now key ip s))
          else if \<not> slot then (Inl TooManyAttempts, s)
          else if \<not> en_verify_password E (ad_password_hash a) password
          then (Inl InvalidCredentials, fail E now key ip s)
          else if ad_disabled_at a \<noteq> None then (Inl AccountDisabled, s)
          else checkTOTP E now ip key totpCode a s)"

definition checkIP :: "throttle_impl option \<Rightarrow> go_time \<Rightarrow> string \<Rightarrow> bool \<times> throttle_impl option" where
  "checkIP t now ip = (if ip = [] then (True, t) else checkThrottle t now (ipKey ip))"

definition AuthenticateFrom ::
  "auth_config \<Rightarrow> auth_env \<Rightarrow> bool \<Rightarrow> go_time \<Rightarrow> string \<Rightarrow> string \<Rightarrow> string \<Rightarrow> string \<Rightarrow> auth_state
     \<Rightarrow> (auth_error + admin) \<times> auth_state" where
  "AuthenticateFrom cfg E slot now ip email password totpCode s =
     (if ac_local_login_disabled cfg then (Inl LocalLoginDisabled, s)
      else let key = to_lower (trim_space email) in
      if length key > maxEmailLength \<or> length password > maxPasswordLength
      then (Inl InvalidCredentials, s)
      else case checkThrottle (au_throttle s) now key of (allowed, t') \<Rightarrow>
        let s0 = s\<lparr>au_throttle := t'\<rparr> in
        if \<not> allowed then (Inl TooManyAttempts, s0)
        else case checkIP (au_ip_throttle s0) now ip of (ipAllowed, ti) \<Rightarrow>
          let s1 = s0\<lparr>au_ip_throttle := ti\<rparr> in
          if \<not> ipAllowed then (Inl TooManyAttempts, s1)
          else checkPassword E slot now ip key password totpCode s1)"

section \<open>Sessions\<close>

definition capped :: "auth_config \<Rightarrow> go_time \<Rightarrow> go_time \<Rightarrow> go_time" where
  "capped cfg createdAt expires =
     (if ac_max_session_lifetime cfg \<le> 0 then expires
      else let limit = time_add createdAt (ac_max_session_lifetime cfg) in
           if expires > limit then limit else expires)"

definition CreateSession ::
  "auth_config \<Rightarrow> auth_env \<Rightarrow> string \<Rightarrow> string \<Rightarrow> go_time \<Rightarrow> uuid \<Rightarrow> auth_state \<Rightarrow> auth_state" where
  "CreateSession cfg E token csrf now adminID s =
     s\<lparr>au_sessions := au_sessions s @
        [\<lparr>se_hash = en_hash_token E token, se_admin = adminID, se_csrf = csrf, se_created_at = now,
          se_expires_at = capped cfg now (time_add now (ac_session_ttl cfg)), se_last_seen_at = now\<rparr>]\<rparr>"

definition ValidateSession ::
  "auth_config \<Rightarrow> auth_env \<Rightarrow> go_time \<Rightarrow> string \<Rightarrow> auth_state
     \<Rightarrow> (auth_error + admin \<times> session) \<times> auth_state" where
  "ValidateSession cfg E now token s =
     (let hash = en_hash_token E token in
      case find (\<lambda>se. se_hash se = hash \<and> GetAdmin s (se_admin se) \<noteq> None) (au_sessions s) of
        None \<Rightarrow> (Inl InvalidSession, s)
      | Some se \<Rightarrow>
          (case GetAdmin s (se_admin se) of
             None \<Rightarrow> (Inl InvalidSession, s)
           | Some a \<Rightarrow>
               if \<not> now < se_expires_at se then
                 (Inl InvalidSession, s\<lparr>au_sessions := filter (\<lambda>x. se_hash x \<noteq> hash) (au_sessions s)\<rparr>)
               else if ad_disabled_at a \<noteq> None then
                 (Inl AccountDisabled, DeleteSessionsForAdmin (ad_id a) s)
               else if time_sub now (se_last_seen_at se) \<ge> touchInterval then
                 (let expires = capped cfg (se_created_at se) (time_add now (ac_session_ttl cfg));
                      touch = (\<lambda>x. x\<lparr>se_last_seen_at := now, se_expires_at := expires\<rparr>)
                  in (Inr (a, touch se),
                      s\<lparr>au_sessions := map (\<lambda>x. if se_hash x = hash then touch x else x) (au_sessions s)\<rparr>))
               else (Inr (a, se), s)))"

definition DeleteSession :: "auth_env \<Rightarrow> string \<Rightarrow> auth_state \<Rightarrow> auth_state" where
  "DeleteSession E token s =
     s\<lparr>au_sessions := filter (\<lambda>x. se_hash x \<noteq> en_hash_token E token) (au_sessions s)\<rparr>"

section \<open>Accounts\<close>

definition isFleetAdmin :: "admin \<Rightarrow> bool" where
  "isFleetAdmin a \<longleftrightarrow> ad_role a = RoleAdmin \<and> ad_disabled_at a = None \<and> \<not> ad_scoped a"

definition fleetAdminsBesides :: "admin list \<Rightarrow> uuid \<Rightarrow> nat" where
  "fleetAdminsBesides admins i = length (filter (\<lambda>a. ad_id a \<noteq> i \<and> isFleetAdmin a) admins)"

definition SetScope ::
  "auth_config \<Rightarrow> uuid \<Rightarrow> uuid list option \<Rightarrow> auth_state \<Rightarrow> auth_error + auth_state" where
  "SetScope cfg i groups s =
     (case GetAdmin s i of
        None \<Rightarrow> Inl AdminNotFound
      | Some a \<Rightarrow>
          if ac_sso_scopes_managed cfg \<and> ad_auth_source a = AuthOIDC then Inl BadRequest
          else if groups \<noteq> None \<and> isFleetAdmin a \<and> fleetAdminsBesides (au_admins s) i = 0
          then Inl LastAdmin
          else if (case groups of None \<Rightarrow> False | Some gs \<Rightarrow> \<not> list_all (\<lambda>g. g \<in> set (au_groups s)) gs)
          then Inl BadRequest
          else Inr (updateAdmin i (\<lambda>b. b\<lparr>ad_scope := groups\<rparr>) s))"

definition validEmail :: "string \<Rightarrow> bool" where
  "validEmail email \<longleftrightarrow>
     (case cut (CHR ''@'') email of
        None \<Rightarrow> False
      | Some (before, after) \<Rightarrow> before \<noteq> [] \<and> after \<noteq> [] \<and> CHR ''@'' \<notin> set after)
     \<and> length email \<le> 320 \<and> \<not> list_ex (\<lambda>c. byte c \<in> {32, 9, 13, 10}) email"

definition CreateAdmin ::
  "auth_env \<Rightarrow> uuid \<Rightarrow> go_time \<Rightarrow> string \<Rightarrow> string \<Rightarrow> string \<Rightarrow> auth_state \<Rightarrow> auth_error + admin \<times> auth_state" where
  "CreateAdmin E new_id now rawEmail password role s =
     (let email = trim_space rawEmail in
      if \<not> validEmail email then Inl BadRequest
      else if \<not> ValidRole role then Inl BadRequest
      else if length password < MinPasswordLength \<or> length password > maxPasswordLength
      then Inl WeakPassword
      else if GetAdminByEmail s email \<noteq> None \<or> GetAdmin s new_id \<noteq> None then Inl EmailTaken
      else let a = \<lparr>ad_id = new_id, ad_email = email, ad_password_hash = en_hash_password E password,
                    ad_totp_secret = [], ad_totp_last_step = 0, ad_role = role, ad_created_at = now,
                    ad_last_login_at = None, ad_disabled_at = None, ad_auth_source = AuthLocal,
                    ad_scope = None\<rparr>
           in Inr (a, s\<lparr>au_admins := au_admins s @ [a]\<rparr>))"

definition SetPassword :: "auth_env \<Rightarrow> uuid \<Rightarrow> string \<Rightarrow> auth_state \<Rightarrow> auth_error + auth_state" where
  "SetPassword E i password s =
     (if length password < MinPasswordLength \<or> length password > maxPasswordLength
      then Inl WeakPassword
      else case GetAdmin s i of
        None \<Rightarrow> Inl AdminNotFound
      | Some a \<Rightarrow>
          if ad_auth_source a = AuthOIDC then Inl BadRequest
          else Inr (DeleteSessionsForAdmin i
                 (updateAdmin i (\<lambda>b. b\<lparr>ad_password_hash := en_hash_password E password\<rparr>) s)))"

text \<open>\<^verbatim>\<open>EnableTOTP\<close> stores the sealed form of a fresh secret; \<^verbatim>\<open>DisableTOTP\<close> the empty one.\<close>

definition setTOTP :: "uuid \<Rightarrow> string \<Rightarrow> auth_state \<Rightarrow> auth_error + auth_state" where
  "setTOTP i sealed s =
     (case GetAdmin s i of
        None \<Rightarrow> Inl AdminNotFound
      | Some a \<Rightarrow>
          if ad_auth_source a = AuthOIDC then Inl BadRequest
          else Inr (updateAdmin i (\<lambda>b. b\<lparr>ad_totp_secret := sealed, ad_totp_last_step := 0\<rparr>) s))"

definition SetDisabled :: "go_time \<Rightarrow> uuid \<Rightarrow> bool \<Rightarrow> auth_state \<Rightarrow> auth_error + auth_state" where
  "SetDisabled now i disabled s =
     (case GetAdmin s i of
        None \<Rightarrow> Inl AdminNotFound
      | Some a \<Rightarrow>
          if disabled \<and> isFleetAdmin a \<and> fleetAdminsBesides (au_admins s) i = 0 then Inl LastAdmin
          else let s1 = updateAdmin i (\<lambda>b. b\<lparr>ad_disabled_at := (if disabled then Some now else None)\<rparr>) s
               in Inr (if disabled then DeleteSessionsForAdmin i s1 else s1))"


section \<open>The service's throttle is a throttle\<close>

definition th_failures :: "throttle_impl \<Rightarrow> go_time \<Rightarrow> string \<Rightarrow> nat" where
  "th_failures t now key =
     (case t of Shared s \<Rightarrow> st_failures s now key | Memory l \<Rightarrow> lim_failures l now key)"

definition th_ok :: "int \<Rightarrow> duration \<Rightarrow> throttle_impl \<Rightarrow> bool" where
  "th_ok mx w t = (case t of Shared s \<Rightarrow> st_max s = mx \<and> st_window s = w | Memory l \<Rightarrow> lim_ok mx w l)"

definition th_room :: "throttle_impl \<Rightarrow> bool" where
  "th_room t = (case t of Shared s \<Rightarrow> True | Memory l \<Rightarrow> length (l_failures l) < maxLimiterKeys)"

lemmas th_defs = thAllowed_def thFail_def thReset_def th_failures_def th_ok_def th_room_def

interpretation th: throttle thAllowed "thFail E" thReset "th_ok mx w" th_room th_failures mx w for E mx w
proof
  fix t :: throttle_impl and now now' :: go_time and j k :: string
  assume ok: "th_ok mx w t"
  show "fst (thAllowed t now k) \<longleftrightarrow> int (th_failures t now k) < mx"
    using ok st.allowed_iff [of _ mx w now k] lim.allowed_iff [of mx w _ now k]
    by (cases t) (auto simp: th_defs case_prod_beta)
  show "now \<le> now' \<Longrightarrow> th_failures (snd (thAllowed t now k)) now' j = th_failures t now' j"
    using ok lim.allowed_keeps [of mx w _ now now' k j]
    by (cases t) (auto simp: th_defs case_prod_beta)
  show "th_ok mx w (snd (thAllowed t now k))"
    using ok lim.allowed_ok [of mx w _ now k] by (cases t) (auto simp: th_defs case_prod_beta)
  show "now \<le> now' \<Longrightarrow> th_failures (thFail E t now k) now' k =
      th_failures t now' k + (if now' - w < now then 1 else 0)"
    using ok st.fail_counts [of _ mx w now now' k] lim.fail_counts [of mx w _ now now' "en_pick E" k]
    by (cases t) (auto simp: th_defs)
  show "th_room t \<Longrightarrow> now \<le> now' \<Longrightarrow> j \<noteq> k \<Longrightarrow> th_failures (thFail E t now k) now' j = th_failures t now' j"
    using ok st.fail_others [of _ mx w now now' j k] lim.fail_others [of mx w _ now now' j k "en_pick E"]
    by (cases t) (auto simp: th_defs)
  show "th_ok mx w (thFail E t now k)"
    using ok st.fail_ok [of _ mx w now k] lim.fail_ok [of mx w _ "en_pick E" now k]
    by (cases t) (auto simp: th_defs)
  show "th_failures (thReset t k) now k = 0"
    using ok st.reset_clears [of _ mx w k now] lim.reset_clears [of mx w _ k now]
    by (cases t) (auto simp: th_defs)
  show "j \<noteq> k \<Longrightarrow> th_failures (thReset t k) now j = th_failures t now j"
    using ok st.reset_others [of _ mx w j k now] lim.reset_others [of mx w _ j k now]
    by (cases t) (auto simp: th_defs)
  show "th_ok mx w (thReset t k)"
    using ok st.reset_ok [of _ mx w k] lim.reset_ok [of mx w _ k] by (cases t) (auto simp: th_defs)
qed


section \<open>Who gets in\<close>

abbreviation email_key :: "string \<Rightarrow> string" where
  "email_key email \<equiv> to_lower (trim_space email)"

lemma GetAdminByEmail_tables [simp]:
  "GetAdminByEmail (s\<lparr>au_throttle := t\<rparr>) e = GetAdminByEmail s e"
  "GetAdminByEmail (s\<lparr>au_ip_throttle := t\<rparr>) e = GetAdminByEmail s e"
  by (simp_all add: GetAdminByEmail_def)

lemma fail_tables [simp]:
  "au_admins (fail E now key ip s) = au_admins s" "au_sessions (fail E now key ip s) = au_sessions s"
  by (simp_all add: fail_def)

text \<open>Where a sign-in that works has been: everything \<^verbatim>\<open>AuthenticateFrom\<close> checked on the way.\<close>

lemma Authenticate_path:
  assumes "AuthenticateFrom cfg E slot now ip email password code s = (Inr a', s')"
  obtains a s1 where "GetAdminByEmail s (email_key email) = Some a"
    "\<not> ac_local_login_disabled cfg" "fst (checkThrottle (au_throttle s) now (email_key email))"
    "fst (checkIP (au_ip_throttle s) now ip)"
    "ad_auth_source a \<noteq> AuthOIDC" "en_verify_password E (ad_password_hash a) password"
    "ad_disabled_at a = None" "au_admins s1 = au_admins s" "au_sessions s1 = au_sessions s"
    "checkTOTP E now ip (email_key email) code a s1 = (Inr a', s')"
proof -
  obtain b t' where ct: "checkThrottle (au_throttle s) now (email_key email) = (b, t')"
    by (cases "checkThrottle (au_throttle s) now (email_key email)")
  obtain c ti where ci: "checkIP (au_ip_throttle s) now ip = (c, ti)"
    by (cases "checkIP (au_ip_throttle s) now ip")
  let ?s1 = "s\<lparr>au_throttle := t', au_ip_throttle := ti\<rparr>"
  have b: "b" "c" "\<not> ac_local_login_disabled cfg"
    and p: "checkPassword E slot now ip (email_key email) password code ?s1 = (Inr a', s')"
    using assms by (auto simp: AuthenticateFrom_def ct ci Let_def split: if_splits)
  from p obtain a where a: "GetAdminByEmail s (email_key email) = Some a"
    by (cases "GetAdminByEmail s (email_key email)") (auto simp: checkPassword_def split: if_splits)
  from p have rest: "ad_auth_source a \<noteq> AuthOIDC" "en_verify_password E (ad_password_hash a) password"
    "ad_disabled_at a = None" "checkTOTP E now ip (email_key email) code a ?s1 = (Inr a', s')"
    by (auto simp: checkPassword_def a split: if_splits)
  from that [OF a b(3) _ _ rest(1-3) _ _ rest(4)] b ct ci show ?thesis by simp
qed

lemma finishLogin_Inr:
  "finishLogin now key a s = (Inr a', s') \<Longrightarrow>
     a' = a\<lparr>ad_last_login_at := Some now\<rparr>
     \<and> au_admins s' = map (\<lambda>b. if ad_id b = ad_id a then b\<lparr>ad_last_login_at := Some now\<rparr> else b) (au_admins s)"
  by (auto simp: finishLogin_def updateAdmin_def Let_def)

lemma checkTOTP_Inr:
  assumes "checkTOTP E now ip key code a s = (Inr a', s')" "ad_totp_secret a \<noteq> []"
  obtains secret step s1 where "en_open_totp E (ad_id a) (ad_totp_secret a) = Some secret"
    "matchTOTP E secret code now = Some step" "ClaimTOTPStep (ad_id a) step s = (True, s1)"
    "finishLogin now key a s1 = (Inr a', s')"
  using assms
  by (auto simp: checkTOTP_def split: if_splits option.splits prod.splits)

text \<open>
  C11. Who gets in with a password: if \<^verbatim>\<open>AuthenticateFrom\<close> accepts, password sign-in is on, the
  account named by the email (trimmed, any case) exists, is enabled and is not an SSO account,
  its password hash verifies the password, neither the account nor the address is locked out,
  and an account with an authenticator presented a code matching its secret at this instant.
\<close>

theorem Authenticate_sound:
  assumes "AuthenticateFrom cfg E slot now ip email password code s = (Inr a', s')"
  shows "\<exists>a. GetAdminByEmail s (email_key email) = Some a \<and> a' = a\<lparr>ad_last_login_at := Some now\<rparr>
    \<and> \<not> ac_local_login_disabled cfg \<and> ad_disabled_at a = None \<and> ad_auth_source a \<noteq> AuthOIDC
    \<and> en_verify_password E (ad_password_hash a) password
    \<and> fst (checkThrottle (au_throttle s) now (email_key email))
    \<and> fst (checkIP (au_ip_throttle s) now ip)
    \<and> (ad_totp_secret a \<noteq> [] \<longrightarrow>
        (\<exists>secret step. en_open_totp E (ad_id a) (ad_totp_secret a) = Some secret
           \<and> matchTOTP E secret code now = Some step))"
proof -
  obtain a s1 where a: "GetAdminByEmail s (email_key email) = Some a"
    "\<not> ac_local_login_disabled cfg" "fst (checkThrottle (au_throttle s) now (email_key email))"
    "fst (checkIP (au_ip_throttle s) now ip)"
    "ad_auth_source a \<noteq> AuthOIDC" "en_verify_password E (ad_password_hash a) password"
    "ad_disabled_at a = None"
    and totp: "checkTOTP E now ip (email_key email) code a s1 = (Inr a', s')"
    using Authenticate_path [OF assms] by metis
  show ?thesis
  proof (cases "ad_totp_secret a = []")
    case True
    then have "finishLogin now (email_key email) a s1 = (Inr a', s')"
      using totp by (simp add: checkTOTP_def)
    then show ?thesis using a finishLogin_Inr True by blast
  next
    case False
    obtain secret step s2 where o: "en_open_totp E (ad_id a) (ad_totp_secret a) = Some secret"
      "matchTOTP E secret code now = Some step" "finishLogin now (email_key email) a s2 = (Inr a', s')"
      using checkTOTP_Inr [OF totp False] by metis
    have "a' = a\<lparr>ad_last_login_at := Some now\<rparr>" using finishLogin_Inr [OF o(3)] by blast
    then show ?thesis using a o(1,2) by blast
  qed
qed

text \<open>A state with one account and no throttle, for the examples.\<close>

definition sample_admin :: admin where
  "sample_admin = \<lparr>ad_id = ''1'', ad_email = ''a@b'', ad_password_hash = ''pw'', ad_totp_secret = ''x'',
     ad_totp_last_step = 0, ad_role = RoleAdmin, ad_created_at = 0, ad_last_login_at = None,
     ad_disabled_at = None, ad_auth_source = AuthLocal, ad_scope = None\<rparr>"

definition sample_state :: auth_state where
  "sample_state = \<lparr>au_admins = [sample_admin], au_sessions = [], au_groups = [],
     au_throttle = None, au_ip_throttle = None\<rparr>"

definition sample_env :: auth_env where
  "sample_env = \<lparr>en_verify_password = (=), en_hash_password = id,
     en_totp_code = (\<lambda>_ _. Some ''123456''), en_open_totp = (\<lambda>_ s. Some s), en_hash_token = id,
     en_pick = fst \<circ> hd\<rparr>"

definition sample_config :: auth_config where
  "sample_config = \<lparr>ac_session_ttl = hour, ac_max_session_lifetime = 24 * hour,
     ac_local_login_disabled = False, ac_sso_scopes_managed = False\<rparr>"

definition sample_now :: go_time where
  "sample_now = (62135596800 + 3000) * second"

lemma sample_match: "matchTOTP sample_env ''x'' ''123456'' sample_now = Some 99"
  by (simp add: matchTOTP_def sample_env_def sample_now_def unix_def second_def quot_def)

lemma sample_login:
  "fst (AuthenticateFrom sample_config sample_env True sample_now [] '' A@b'' ''pw'' ''123456'' sample_state)
     = Inr (sample_admin\<lparr>ad_last_login_at := Some sample_now\<rparr>)"
proof -
  have "trim_space '' A@b'' = ''A@b''" by code_simp
  moreover have "to_lower ''A@b'' = ''a@b''" by code_simp
  ultimately show ?thesis
    using sample_match
    by (simp add: AuthenticateFrom_def sample_config_def sample_state_def checkThrottle_def
        checkIP_def checkPassword_def GetAdminByEmail_def sample_admin_def equal_fold_def checkTOTP_def ClaimTOTPStep_def
        updateAdmin_def finishLogin_def sample_env_def to_lower_def Let_def)
qed

theorem Authenticate_sound_witness:
  "\<exists>a. GetAdminByEmail sample_state (email_key '' A@b'') = Some a \<and> ad_disabled_at a = None"
proof -
  obtain s' where "AuthenticateFrom sample_config sample_env True sample_now [] '' A@b'' ''pw'' ''123456''
      sample_state = (Inr (sample_admin\<lparr>ad_last_login_at := Some sample_now\<rparr>), s')"
    using sample_login by (metis prod.collapse)
  from Authenticate_sound [OF this] show ?thesis by blast
qed


section \<open>A code works once\<close>

lemma find_map_id:
  "(\<And>a. ad_id (f a) = ad_id a) \<Longrightarrow>
     find (\<lambda>a. ad_id a = i) (map f as) = map_option f (find (\<lambda>a. ad_id a = i) as)"
  by (induction "as") auto

lemma GetAdmin_update:
  assumes "\<And>a. ad_id (f a) = ad_id a"
  shows "GetAdmin (updateAdmin i f s) j = map_option (\<lambda>a. if j = i then f a else a) (GetAdmin s j)"
proof -
  have "find (\<lambda>a. ad_id a = j) (map (\<lambda>a. if ad_id a = i then f a else a) (au_admins s))
      = map_option (\<lambda>a. if ad_id a = i then f a else a) (find (\<lambda>a. ad_id a = j) (au_admins s))"
    by (rule find_map_id) (simp add: assms)
  then show ?thesis
    by (auto simp: GetAdmin_def updateAdmin_def dest: find_SomeD split: option.splits
        intro!: option.map_cong)
qed

lemma distinct_find:
  "distinct (map ad_id as) \<Longrightarrow> a \<in> set as \<Longrightarrow> find (\<lambda>b. ad_id b = ad_id a) as = Some a"
  by (induction "as") (auto simp: image_iff)

lemma GetAdmin_in:
  "distinct (map ad_id (au_admins s)) \<Longrightarrow> a \<in> set (au_admins s) \<Longrightarrow> GetAdmin s (ad_id a) = Some a"
  unfolding GetAdmin_def by (rule distinct_find)

lemma claim_fresh:
  assumes "distinct (map ad_id (au_admins s))" "GetAdmin s i = Some a"
    "ClaimTOTPStep i step s = (True, s1)"
  shows "ad_totp_last_step a < step"
proof -
  obtain b where b: "b \<in> set (au_admins s)" "ad_id b = i" "ad_totp_last_step b < step"
    using assms(3) by (auto simp: ClaimTOTPStep_def list_ex_iff)
  then have "b = a" using GetAdmin_in [OF assms(1) b(1)] assms(2) by simp
  with b show ?thesis by simp
qed

lemma login_consumes:
  assumes dist: "distinct (map ad_id (au_admins s))"
    and login: "AuthenticateFrom cfg E slot now ip email password code s = (Inr a', s')"
    and a: "GetAdminByEmail s (email_key email) = Some a" "ad_totp_secret a \<noteq> []"
  obtains secret step a'' where "en_open_totp E (ad_id a) (ad_totp_secret a) = Some secret"
    "matchTOTP E secret code now = Some step" "ad_totp_last_step a < step"
    "GetAdmin s' (ad_id a) = Some a''" "ad_totp_last_step a'' = step"
    "ad_totp_secret a'' = ad_totp_secret a"
proof -
  obtain s1 where s1: "au_admins s1 = au_admins s"
    and totp: "checkTOTP E now ip (email_key email) code a s1 = (Inr a', s')"
    using Authenticate_path [OF login] a(1) by (metis option.inject)
  obtain secret step s2 where o: "en_open_totp E (ad_id a) (ad_totp_secret a) = Some secret"
    "matchTOTP E secret code now = Some step" "ClaimTOTPStep (ad_id a) step s1 = (True, s2)"
    "finishLogin now (email_key email) a s2 = (Inr a', s')"
    using checkTOTP_Inr [OF totp a(2)] by metis
  have mem: "a \<in> set (au_admins s1)" using a(1) s1 by (auto simp: GetAdminByEmail_def dest: find_SomeD)
  have g: "GetAdmin s1 (ad_id a) = Some a" using dist s1 mem by (simp add: GetAdmin_in)
  have less: "ad_totp_last_step a < step" using claim_fresh [OF _ g o(3)] dist s1 by simp
  have s2: "s2 = updateAdmin (ad_id a) (\<lambda>a. if ad_totp_last_step a < step then a\<lparr>ad_totp_last_step := step\<rparr> else a) s1"
    using o(3) by (simp add: ClaimTOTPStep_def)
  have g2: "GetAdmin s2 (ad_id a) = Some (a\<lparr>ad_totp_last_step := step\<rparr>)"
    unfolding s2 using g less by (subst GetAdmin_update) simp_all
  have "s' = updateAdmin (ad_id a) (\<lambda>b. b\<lparr>ad_last_login_at := Some now\<rparr>)
      (s2\<lparr>au_throttle := map_option (\<lambda>t. thReset t (email_key email)) (au_throttle s2)\<rparr>)"
    using o(4) by (simp add: finishLogin_def Let_def)
  then have "GetAdmin s' (ad_id a) =
      Some (a\<lparr>ad_totp_last_step := step, ad_last_login_at := Some now\<rparr>)"
    using g2 by (simp add: GetAdmin_update) (simp add: GetAdmin_def)
  from that [OF o(1,2) less this] show ?thesis by simp
qed

lemma login_emails:
  assumes "AuthenticateFrom cfg E slot now ip email password code s = (Inr a', s')"
  shows "map ad_id (au_admins s') = map ad_id (au_admins s)
    \<and> map ad_email (au_admins s') = map ad_email (au_admins s)"
proof -
  obtain a s1 where s1: "au_admins s1 = au_admins s"
    and totp: "checkTOTP E now ip (email_key email) code a s1 = (Inr a', s')"
    using Authenticate_path [OF assms] by metis
  have fin: "map ad_id (au_admins s') = map ad_id (au_admins t)
      \<and> map ad_email (au_admins s') = map ad_email (au_admins t)"
    if "finishLogin now (email_key email) a t = (Inr a', s')" for t
    using finishLogin_Inr [OF that] by simp
  show ?thesis
  proof (cases "ad_totp_secret a = []")
    case True
    then show ?thesis using fin [of s1] totp s1 by (simp add: checkTOTP_def)
  next
    case False
    obtain step s2 where o: "ClaimTOTPStep (ad_id a) step s1 = (True, s2)"
      "finishLogin now (email_key email) a s2 = (Inr a', s')"
      using checkTOTP_Inr [OF totp False] by metis
    from o(1) have "map ad_id (au_admins s2) = map ad_id (au_admins s1)
      \<and> map ad_email (au_admins s2) = map ad_email (au_admins s1)"
      by (auto simp: ClaimTOTPStep_def updateAdmin_def)
    then show ?thesis using fin [OF o(2)] s1 by simp
  qed
qed

lemma find_same_email:
  "map ad_id as = map ad_id bs \<Longrightarrow> map ad_email as = map ad_email bs \<Longrightarrow>
     map_option ad_id (find (\<lambda>a. equal_fold (ad_email a) e) as) =
     map_option ad_id (find (\<lambda>a. equal_fold (ad_email a) e) bs)"
  by (induction "as" bs rule: list_induct2') auto

text \<open>
  A one-time code cannot be used twice. After a sign-in with a code, the same code for the
  same account is refused for as long as it belongs to the same time step, whatever the
  password, the address and the instant of the second attempt.
\<close>

theorem totp_replay_refused:
  assumes "distinct (map ad_id (au_admins s))"
    and "AuthenticateFrom cfg E slot now ip email password code s = (Inr a', s')"
    and "GetAdminByEmail s (email_key email) = Some a" "ad_totp_secret a \<noteq> []"
    and "en_open_totp E (ad_id a) (ad_totp_secret a) = Some secret"
    and "matchTOTP E secret code now' = matchTOTP E secret code now"
  shows "\<not> is_ok (fst (AuthenticateFrom cfg E slot' now' ip' email password' code s'))"
proof
  assume "is_ok (fst (AuthenticateFrom cfg E slot' now' ip' email password' code s'))"
  then obtain b' s'' where login: "AuthenticateFrom cfg E slot' now' ip' email password' code s' = (Inr b', s'')"
    by (auto simp: is_ok_iff) (metis prod.collapse)
  obtain step a'' where first: "matchTOTP E secret code now = Some step"
    "GetAdmin s' (ad_id a) = Some a''" "ad_totp_last_step a'' = step"
    "ad_totp_secret a'' = ad_totp_secret a"
    using login_consumes [OF assms(1-4)] assms(5) by (metis option.inject)
  note same = login_emails [OF assms(2)]
  obtain b where b: "GetAdminByEmail s' (email_key email) = Some b"
    using Authenticate_path [OF login] by metis
  have "ad_id b = ad_id a"
    using find_same_email [OF same [THEN conjunct1] same [THEN conjunct2], of "email_key email"]
      assms(3) b by (simp add: GetAdminByEmail_def)
  have dist: "distinct (map ad_id (au_admins s'))" using assms(1) same by simp
  have "b \<in> set (au_admins s')" using b by (auto simp: GetAdminByEmail_def dest: find_SomeD)
  then have "b = a''" using GetAdmin_in [OF dist] first(2) \<open>ad_id b = ad_id a\<close> by fastforce
  then have sec: "ad_totp_secret b \<noteq> []" "ad_totp_last_step b = step"
    using first(3,4) assms(4) by simp_all
  obtain secret2 step2 where "en_open_totp E (ad_id b) (ad_totp_secret b) = Some secret2"
    "matchTOTP E secret2 code now' = Some step2" "ad_totp_last_step b < step2"
    using login_consumes [OF dist login b sec(1)] by metis
  moreover have "ad_totp_secret b = ad_totp_secret a" using \<open>b = a''\<close> first(4) by simp
  ultimately show False using assms(5,6) first(1) sec(2) \<open>ad_id b = ad_id a\<close> by simp
qed

theorem totp_replay_refused_witness:
  "\<exists>s'. snd (AuthenticateFrom sample_config sample_env True sample_now [] '' A@b'' ''pw'' ''123456'' sample_state) = s'
     \<and> \<not> is_ok (fst (AuthenticateFrom sample_config sample_env True sample_now [] '' A@b'' ''pw'' ''123456'' s'))"
proof -
  obtain s' where login: "AuthenticateFrom sample_config sample_env True sample_now [] '' A@b'' ''pw'' ''123456''
      sample_state = (Inr (sample_admin\<lparr>ad_last_login_at := Some sample_now\<rparr>), s')"
    using sample_login by (metis prod.collapse)
  have k: "GetAdminByEmail sample_state (email_key '' A@b'') = Some sample_admin" by code_simp
  have d: "distinct (map ad_id (au_admins sample_state))" by (simp add: sample_state_def)
  have t: "ad_totp_secret sample_admin \<noteq> []"
    "en_open_totp sample_env (ad_id sample_admin) (ad_totp_secret sample_admin) = Some ''x''"
    by (simp_all add: sample_admin_def sample_env_def)
  show ?thesis using totp_replay_refused [OF d login k t refl] login by (metis snd_conv)
qed


section \<open>Guessing passwords\<close>

text \<open>Attempts to sign in to one account, one after the other: when, whether a hash slot came free, from which
  address, with which password and code; and what each was answered.\<close>

type_synonym attempt = "go_time \<times> bool \<times> string \<times> string \<times> string"

fun attempts ::
  "auth_config \<Rightarrow> auth_env \<Rightarrow> string \<Rightarrow> attempt list \<Rightarrow> auth_state \<Rightarrow> (auth_error + admin) list \<times> auth_state" where
  "attempts cfg E email [] s = ([], s)"
| "attempts cfg E email ((t, slot, ip, password, code) # gs) s =
     (case AuthenticateFrom cfg E slot t ip email password code s of
        (r, s1) \<Rightarrow> (case attempts cfg E email gs s1 of (rs, s2) \<Rightarrow> (r # rs, s2)))"

definition wrong_for :: "auth_env \<Rightarrow> string \<Rightarrow> auth_state \<Rightarrow> string \<Rightarrow> bool" where
  "wrong_for E email s password \<longleftrightarrow>
     (case GetAdminByEmail s (email_key email) of
        None \<Rightarrow> True
      | Some a \<Rightarrow> ad_auth_source a = AuthOIDC \<or> \<not> en_verify_password E (ad_password_hash a) password)"

lemma guess_step:
  assumes "\<not> ac_local_login_disabled cfg" "length (email_key email) \<le> maxEmailLength"
    and "length password \<le> maxPasswordLength" "wrong_for E email s password"
    and "au_throttle s = Some th" "th_ok mx w th"
    and run: "AuthenticateFrom cfg E slot t ip email password code s = (r, s')"
  obtains th' where "au_throttle s' = Some th'" "th_ok mx w th'" "au_admins s' = au_admins s"
    "r = Inl InvalidCredentials \<and> int (th_failures th t (email_key email)) < mx \<or> r = Inl TooManyAttempts"
    "\<And>t'. t \<le> t' \<Longrightarrow> th_failures th' t' (email_key email) = th_failures th t' (email_key email)
         + (if r = Inl InvalidCredentials \<and> t' - w < t then 1 else 0)"
proof -
  let ?k = "email_key email"
  obtain b th1 where al: "thAllowed th t ?k = (b, th1)" by (cases "thAllowed th t ?k")
  have b: "b \<longleftrightarrow> int (th_failures th t ?k) < mx" using th.allowed_iff [OF assms(6), of t ?k] al by simp
  have ok1: "th_ok mx w th1" using th.allowed_ok [OF assms(6), of t ?k] al by simp
  have keep: "th_failures th1 t' ?k = th_failures th t' ?k" if "t \<le> t'" for t'
    using th.allowed_keeps [OF assms(6) that, of ?k ?k] al by simp
  obtain ipOK ti where ip: "checkIP (au_ip_throttle s) t ip = (ipOK, ti)" by (cases "checkIP (au_ip_throttle s) t ip")
  let ?s1 = "s\<lparr>au_throttle := Some th1, au_ip_throttle := ti\<rparr>"
  have cp: "checkPassword E slot t ip ?k password code ?s1
      = (if slot then (Inl InvalidCredentials, fail E t ?k ip ?s1) else (Inl TooManyAttempts, ?s1))"
    using assms(4) by (auto simp: checkPassword_def wrong_for_def GetAdminByEmail_def split: option.splits)
  have "AuthenticateFrom cfg E slot t ip email password code s = (if \<not> b then (Inl TooManyAttempts, s\<lparr>au_throttle := Some th1\<rparr>)
      else if \<not> ipOK then (Inl TooManyAttempts, ?s1)
      else if slot then (Inl InvalidCredentials, fail E t ?k ip ?s1) else (Inl TooManyAttempts, ?s1))"
    using assms(1-3,5) by (simp add: AuthenticateFrom_def checkThrottle_def al ip cp Let_def)
  then have auth: "(r, s') = (if \<not> b then (Inl TooManyAttempts, s\<lparr>au_throttle := Some th1\<rparr>)
      else if \<not> ipOK then (Inl TooManyAttempts, ?s1)
      else if slot then (Inl InvalidCredentials, fail E t ?k ip ?s1) else (Inl TooManyAttempts, ?s1))" using run by simp
  show ?thesis
  proof (cases "b \<and> ipOK \<and> slot")
    case True
    have "th_failures (thFail E th1 t ?k) t' ?k = th_failures th t' ?k + (if t' - w < t then 1 else 0)" if "t \<le> t'" for t'
      using th.fail_counts [OF ok1 that] keep [OF that] by simp
    then show ?thesis using auth True b th.fail_ok [OF ok1] by (intro that [of "thFail E th1 t ?k"]) (simp_all add: fail_def)
  next
    case False
    then have "r = Inl TooManyAttempts" "au_throttle s' = Some th1" "au_admins s' = au_admins s"
      using auth by (auto split: if_splits)
    then show ?thesis using ok1 keep by (intro that [of th1]) simp_all
  qed
qed

lemma guesses_count:
  assumes "\<not> ac_local_login_disabled cfg" "length (email_key email) \<le> maxEmailLength"
    and "list_all (\<lambda>(t, slot, ip, p, code). length p \<le> maxPasswordLength \<and> wrong_for E email s p \<and> t0 \<le> t \<and> t \<le> now \<and> now - w < t) gs"
    and "sorted (map fst gs)" "au_throttle s = Some th" "th_ok mx w th" "int n \<le> mx" "t0 \<le> now"
    and "\<And>t'. t0 \<le> t' \<Longrightarrow> t' \<le> now \<Longrightarrow> th_failures th t' (email_key email) = n"
    and "attempts cfg E email gs s = (answers, s')"
  shows "\<exists>th'. au_throttle s' = Some th' \<and> th_ok mx w th'
    \<and> th_failures th' now (email_key email) = n + count_list answers (Inl InvalidCredentials)
    \<and> int (n + count_list answers (Inl InvalidCredentials)) \<le> mx
    \<and> list_all (\<lambda>r. r = Inl InvalidCredentials \<or> r = Inl TooManyAttempts) answers"
  using assms
proof (induction gs arbitrary: s th n t0 answers)
  case Nil
  then show ?case by simp
next
  case (Cons g gs)
  let ?k = "email_key email"
  obtain t slot ip p code where g: "g = (t, slot, ip, p, code)" by (metis prod_cases5)
  obtain r s1 where one: "AuthenticateFrom cfg E slot t ip email p code s = (r, s1)" by fastforce
  obtain rs where rest: "attempts cfg E email gs s1 = (rs, s')" "answers = r # rs"
    using Cons.prems(10) g one by (auto split: prod.splits)
  from Cons.prems(3) g have gp: "length p \<le> maxPasswordLength" "wrong_for E email s p" "t0 \<le> t" "t \<le> now" "now - w < t"
    by auto
  from guess_step [OF Cons.prems(1,2) gp(1,2) Cons.prems(5,6) one] obtain th1 where
    th1: "au_throttle s1 = Some th1" "th_ok mx w th1" "au_admins s1 = au_admins s"
    and r: "r = Inl InvalidCredentials \<and> int (th_failures th t ?k) < mx \<or> r = Inl TooManyAttempts"
    and cnt: "\<And>t'. t \<le> t' \<Longrightarrow> th_failures th1 t' ?k = th_failures th t' ?k + (if r = Inl InvalidCredentials \<and> t' - w < t then 1 else 0)"
    by blast
  define n1 where "n1 = n + (if r = Inl InvalidCredentials then 1 else 0)"
  have n1: "th_failures th1 t' ?k = n1" if "t \<le> t'" "t' \<le> now" for t'
    using cnt [OF that(1)] Cons.prems(9) [of t'] that gp(3,5) by (simp add: n1_def)
  have "int n1 \<le> mx" using r Cons.prems(7) Cons.prems(9) [OF gp(3,4)] by (auto simp: n1_def)
  moreover have "list_all (\<lambda>(t', slot, ip, p, code). length p \<le> maxPasswordLength \<and> wrong_for E email s1 p \<and> t \<le> t' \<and> t' \<le> now \<and> now - w < t') gs"
    using Cons.prems(3,4) g by (auto simp: list_all_iff wrong_for_def GetAdminByEmail_def th1(3) image_iff)
  moreover have "sorted (map fst gs)" using Cons.prems(4) by simp
  ultimately obtain th' where "au_throttle s' = Some th'" "th_ok mx w th'"
    "th_failures th' now ?k = n1 + count_list rs (Inl InvalidCredentials)" "int (n1 + count_list rs (Inl InvalidCredentials)) \<le> mx"
    "list_all (\<lambda>r. r = Inl InvalidCredentials \<or> r = Inl TooManyAttempts) rs"
    using Cons.IH [OF Cons.prems(1,2) _ _ th1(1,2) _ gp(4) n1 rest(1)] by blast
  then show ?case using r rest(2) by (auto simp: n1_def)
qed

text \<open>
  C38. Guessing a password is cut short. Take an account (or an address nobody has) without
  recent failures, and any number of attempts with wrong passwords, one after the other within one window, from
  whatever addresses and whether or not the server is too busy to check them. Of these at most as many as the
  throttle allows are checked and answered as wrong; all others are refused unchecked. Once that
  many have been, the next attempt in that window is refused as too many, even with the right
  password and the right code, from any address, whether failures are counted in the database or in
  memory.
\<close>

theorem guessing_locked_out:
  assumes "\<not> ac_local_login_disabled cfg" "length (email_key email) \<le> maxEmailLength"
    and "au_throttle s = Some th" "th_ok mx w th" "0 \<le> mx"
    and "\<And>t. th_failures th t (email_key email) = 0"
    and "list_all (\<lambda>(t, slot, ip, p, code). length p \<le> maxPasswordLength \<and> wrong_for E email s p \<and> t \<le> now \<and> now - w < t) gs"
    and "sorted (map fst gs)" "length password \<le> maxPasswordLength"
    and "attempts cfg E email gs s = (answers, s')"
  shows "int (count_list answers (Inl InvalidCredentials)) \<le> mx
    \<and> list_all (\<lambda>r. r = Inl InvalidCredentials \<or> r = Inl TooManyAttempts) answers
    \<and> (int (count_list answers (Inl InvalidCredentials)) = mx \<longrightarrow>
         fst (AuthenticateFrom cfg E slot now ip email password code s') = Inl TooManyAttempts)"
proof -
  define t0 where "t0 = Min (insert now (fst ` set gs))"
  have t0: "t0 \<le> now" "\<And>g. g \<in> set gs \<Longrightarrow> t0 \<le> fst g" by (simp_all add: t0_def)
  have "list_all (\<lambda>(t, slot, ip, p, code). length p \<le> maxPasswordLength \<and> wrong_for E email s p \<and> t0 \<le> t \<and> t \<le> now \<and> now - w < t) gs"
    using assms(7) t0(2) by (force simp: list_all_iff)
  then obtain th' where th': "au_throttle s' = Some th'" "th_ok mx w th'"
    "th_failures th' now (email_key email) = count_list answers (Inl InvalidCredentials)"
    "int (count_list answers (Inl InvalidCredentials)) \<le> mx"
    "list_all (\<lambda>r. r = Inl InvalidCredentials \<or> r = Inl TooManyAttempts) answers"
    using guesses_count [OF assms(1,2) _ assms(8,3,4) _ t0(1) assms(6) assms(10)] assms(5) by auto
  have "fst (AuthenticateFrom cfg E slot now ip email password code s') = Inl TooManyAttempts"
    if "int (count_list answers (Inl InvalidCredentials)) = mx"
  proof -
    have "\<not> fst (thAllowed th' now (email_key email))"
      using th.allowed_iff [OF th'(2), of now "email_key email"] that th'(3) by simp
    then show ?thesis
      using assms(1,2,9) th'(1) by (simp add: AuthenticateFrom_def checkThrottle_def case_prod_beta Let_def)
  qed
  then show ?thesis using th'(4,5) by blast
qed

text \<open>A throttle of two failures: the second of three wrong guesses is the last to be checked.\<close>

definition sample_guesses :: "attempt list" where
  "sample_guesses = [(5, True, ''10.0.0.1'', ''x'', []), (7, True, ''10.0.0.2'', ''y'', []), (8, True, ''10.0.0.3'', ''z'', [])]"

definition sample_guarded :: auth_state where
  "sample_guarded = sample_state\<lparr>au_throttle := Some (Shared \<lparr>st_max = 2, st_window = 10, st_rows = []\<rparr>),
     au_ip_throttle := Some (Shared \<lparr>st_max = 5, st_window = 10, st_rows = []\<rparr>)\<rparr>"

theorem guessing_locked_out_witness:
  "fst (attempts sample_config sample_env ''a@b'' sample_guesses sample_guarded)
     = [Inl InvalidCredentials, Inl InvalidCredentials, Inl TooManyAttempts]
   \<and> fst (AuthenticateFrom sample_config sample_env True 9 [] ''a@b'' ''pw'' ''123456''
       (snd (attempts sample_config sample_env ''a@b'' sample_guesses sample_guarded))) = Inl TooManyAttempts"
proof -
  have k: "email_key ''a@b'' = ''a@b''" by code_simp
  define run where "run = attempts sample_config sample_env ''a@b'' sample_guesses sample_guarded"
  have answers: "fst run = [Inl InvalidCredentials, Inl InvalidCredentials, Inl TooManyAttempts]" unfolding run_def by code_simp
  have "int (count_list (fst run) (Inl InvalidCredentials)) \<le> 2
    \<and> list_all (\<lambda>r. r = Inl InvalidCredentials \<or> r = Inl TooManyAttempts) (fst run)
    \<and> (int (count_list (fst run) (Inl InvalidCredentials)) = 2 \<longrightarrow>
         fst (AuthenticateFrom sample_config sample_env True 9 [] ''a@b'' ''pw'' ''123456'' (snd run)) = Inl TooManyAttempts)"
  proof (rule guessing_locked_out [where w = 10 and th = "Shared \<lparr>st_max = 2, st_window = 10, st_rows = []\<rparr>" and gs = sample_guesses and s = sample_guarded])
    show "length (email_key ''a@b'') \<le> maxEmailLength" unfolding k by simp
    show "th_failures (Shared \<lparr>st_max = 2, st_window = 10, st_rows = []\<rparr>) t (email_key ''a@b'') = 0" for t
      by (simp add: th_failures_def st_failures_def)
    show "list_all (\<lambda>(t, slot, ip, p, code). length p \<le> maxPasswordLength \<and> wrong_for sample_env ''a@b'' sample_guarded p
        \<and> t \<le> 9 \<and> 9 - 10 < t) sample_guesses"
      unfolding wrong_for_def k sample_guesses_def sample_guarded_def
      by (simp add: GetAdminByEmail_def sample_state_def sample_admin_def sample_env_def)
    show "attempts sample_config sample_env ''a@b'' sample_guesses sample_guarded = (fst run, snd run)" by (simp add: run_def)
  qed (simp_all add: sample_config_def sample_guarded_def sample_guesses_def th_ok_def)
  then show ?thesis using answers unfolding run_def by simp
qed

section \<open>Sessions end\<close>

definition sessions_capped :: "auth_config \<Rightarrow> auth_state \<Rightarrow> bool" where
  "sessions_capped cfg s \<longleftrightarrow> list_all (\<lambda>se. se_expires_at se \<le> se_created_at se + ac_max_session_lifetime cfg)
     (au_sessions s)"

lemma capped_le: "0 < ac_max_session_lifetime cfg \<Longrightarrow> capped cfg c e \<le> c + ac_max_session_lifetime cfg"
  by (auto simp: capped_def time_add_def Let_def)

lemma CreateSession_capped:
  "0 < ac_max_session_lifetime cfg \<Longrightarrow> sessions_capped cfg s \<Longrightarrow>
     sessions_capped cfg (CreateSession cfg E token csrf now i s)"
  by (simp add: sessions_capped_def CreateSession_def capped_le)

lemma ValidateSession_Inr:
  assumes "ValidateSession cfg E now token s = (Inr (a, se'), s')"
  obtains se where "se \<in> set (au_sessions s)" "se_hash se = en_hash_token E token"
    "GetAdmin s (se_admin se) = Some a" "now < se_expires_at se" "ad_disabled_at a = None"
    "se_created_at se' = se_created_at se"
    "s' = s \<or> s' = s\<lparr>au_sessions := map (\<lambda>x. if se_hash x = en_hash_token E token
       then x\<lparr>se_last_seen_at := now, se_expires_at := capped cfg (se_created_at se) (time_add now (ac_session_ttl cfg))\<rparr>
       else x) (au_sessions s)\<rparr>"
proof -
  let ?h = "en_hash_token E token"
  obtain se where f: "find (\<lambda>se. se_hash se = ?h \<and> GetAdmin s (se_admin se) \<noteq> None) (au_sessions s) = Some se"
    using assms by (auto simp: ValidateSession_def Let_def split: option.splits)
  then have se: "se \<in> set (au_sessions s)" "se_hash se = ?h" by (auto dest: find_SomeD)
  obtain b where b: "GetAdmin s (se_admin se) = Some b" using find_SomeD [OF f] by blast
  have v: "ValidateSession cfg E now token s =
     (if \<not> now < se_expires_at se then
                 (Inl InvalidSession, s\<lparr>au_sessions := filter (\<lambda>x. se_hash x \<noteq> ?h) (au_sessions s)\<rparr>)
               else if ad_disabled_at b \<noteq> None then
                 (Inl AccountDisabled, DeleteSessionsForAdmin (ad_id b) s)
               else if time_sub now (se_last_seen_at se) \<ge> touchInterval then
                 (let expires = capped cfg (se_created_at se) (time_add now (ac_session_ttl cfg));
                      touch = (\<lambda>x. x\<lparr>se_last_seen_at := now, se_expires_at := expires\<rparr>)
                  in (Inr (b, touch se),
                      s\<lparr>au_sessions := map (\<lambda>x. if se_hash x = ?h then touch x else x) (au_sessions s)\<rparr>))
               else (Inr (b, se), s))"
    unfolding ValidateSession_def Let_def f b option.case ..
  show ?thesis
    using assms that [OF se, of] b unfolding v by (auto simp: Let_def split: if_splits)
qed

text \<open>
  No session outlives the cap. With a maximum session lifetime configured and every stored
  session within it, a session that validates is younger than the cap, belongs to an enabled
  account, and has not expired; and validating or creating sessions keeps every stored session
  within the cap, however busy it is. Tokens are identified by their hash, so stored hashes
  are distinct.
\<close>

theorem session_lifetime:
  assumes "0 < ac_max_session_lifetime cfg" "sessions_capped cfg s"
    and "distinct (map se_hash (au_sessions s))"
    and "ValidateSession cfg E now token s = (Inr (a, se), s')"
  shows "now < se_created_at se + ac_max_session_lifetime cfg \<and> ad_disabled_at a = None
    \<and> sessions_capped cfg s' \<and> sessions_capped cfg (CreateSession cfg E token' csrf now' i s')"
proof -
  obtain se0 where se0: "se0 \<in> set (au_sessions s)" "se_hash se0 = en_hash_token E token"
    "now < se_expires_at se0" "ad_disabled_at a = None" "se_created_at se = se_created_at se0"
    and s': "s' = s \<or> s' = s\<lparr>au_sessions := map (\<lambda>x. if se_hash x = en_hash_token E token
       then x\<lparr>se_last_seen_at := now, se_expires_at := capped cfg (se_created_at se0) (time_add now (ac_session_ttl cfg))\<rparr>
       else x) (au_sessions s)\<rparr>"
    by (rule ValidateSession_Inr [OF assms(4)]) (rule that)
  have only: "x = se0" if "x \<in> set (au_sessions s)" "se_hash x = en_hash_token E token" for x
    using assms(3) that se0(1,2) inj_onD [of se_hash "set (au_sessions s)" x se0]
    by (simp add: distinct_map)
  have cap: "sessions_capped cfg s'"
    using s'
  proof
    define touch where "touch = (\<lambda>x :: session. if se_hash x = en_hash_token E token
       then x\<lparr>se_last_seen_at := now, se_expires_at := capped cfg (se_created_at se0) (time_add now (ac_session_ttl cfg))\<rparr>
       else x)"
    assume "s' = s\<lparr>au_sessions := map (\<lambda>x. if se_hash x = en_hash_token E token
       then x\<lparr>se_last_seen_at := now, se_expires_at := capped cfg (se_created_at se0) (time_add now (ac_session_ttl cfg))\<rparr>
       else x) (au_sessions s)\<rparr>"
    then have s': "s' = s\<lparr>au_sessions := map touch (au_sessions s)\<rparr>" by (simp add: touch_def)
    have "se_expires_at (touch x) \<le> se_created_at (touch x) + ac_max_session_lifetime cfg"
      if "x \<in> set (au_sessions s)" for x
    proof (cases "se_hash x = en_hash_token E token")
      case True
      then show ?thesis using only [OF that True] capped_le [OF assms(1)] by (simp add: touch_def)
    next
      case False
      then show ?thesis using assms(2) that by (simp add: touch_def sessions_capped_def list_all_iff)
    qed
    then show ?thesis unfolding s' sessions_capped_def by (simp add: list_all_iff)
  qed (use assms(2) in simp)
  have "se_expires_at se0 \<le> se_created_at se0 + ac_max_session_lifetime cfg"
    using assms(2) se0(1) by (simp add: sessions_capped_def list_all_iff)
  with se0 cap CreateSession_capped [OF assms(1) cap] show ?thesis by simp
qed


theorem session_lifetime_witness:
  "\<exists>a se s'. ValidateSession sample_config sample_env 5 ''t''
      (CreateSession sample_config sample_env ''t'' ''c'' 4 ''1'' sample_state) = (Inr (a, se), s')
    \<and> 5 < se_created_at se + ac_max_session_lifetime sample_config"
proof -
  let ?s = "CreateSession sample_config sample_env ''t'' ''c'' 4 ''1'' sample_state"
  have "is_ok (fst (ValidateSession sample_config sample_env 5 ''t'' ?s))" by code_simp
  then obtain a se s' where v: "ValidateSession sample_config sample_env 5 ''t'' ?s = (Inr (a, se), s')"
    by (auto simp: is_ok_iff) (metis prod.collapse)
  have c: "0 < ac_max_session_lifetime sample_config" "sessions_capped sample_config ?s" by code_simp+
  have d: "distinct (map se_hash (au_sessions ?s))" by code_simp
  from session_lifetime [OF c d v] v show ?thesis by blast
qed

section \<open>There is always a fleet admin\<close>

text \<open>The account operations as steps; a refused request changes nothing here. Signing in is signing in with a password:
  single sign-on, where the identity provider decides on the role, is not among the steps.\<close>

inductive account_step :: "auth_config \<Rightarrow> auth_env \<Rightarrow> auth_state \<Rightarrow> auth_state \<Rightarrow> bool" for cfg E where
  step_create: "CreateAdmin E new_id now email password role s = Inr (a, s') \<Longrightarrow> account_step cfg E s s'"
| step_password: "SetPassword E i password s = Inr s' \<Longrightarrow> account_step cfg E s s'"
| step_totp: "setTOTP i sealed s = Inr s' \<Longrightarrow> account_step cfg E s s'"
| step_disabled: "SetDisabled now i disabled s = Inr s' \<Longrightarrow> account_step cfg E s s'"
| step_scope: "SetScope cfg i groups s = Inr s' \<Longrightarrow> account_step cfg E s s'"
| step_login: "AuthenticateFrom cfg E slot now ip email password code s = (r, s') \<Longrightarrow> account_step cfg E s s'"
| step_session: "ValidateSession cfg E now token s = (r', s') \<Longrightarrow> account_step cfg E s s'"
| step_new_session: "s' = CreateSession cfg E token csrf now i s \<Longrightarrow> account_step cfg E s s'"

inductive_cases account_stepE: "account_step cfg E s s'"

definition managed :: "auth_state \<Rightarrow> bool" where
  "managed s \<longleftrightarrow> distinct (map ad_id (au_admins s)) \<and> list_ex isFleetAdmin (au_admins s)"

lemma managed_cong: "au_admins s' = au_admins s \<Longrightarrow> managed s' = managed s"
  by (simp add: managed_def)


lemma managed_sessions [simp]: "managed (DeleteSessionsForAdmin i s) = managed s"
  by (rule managed_cong) (simp add: DeleteSessionsForAdmin_def)









end
