(* ===== verification/Settings.thy ===== *)
theory Settings
  imports Json Encoding
begin

text \<open>
  The settings of a configuration profile (\<^verbatim>\<open>src/internal/protocol/profile.go\<close>,
  \<^verbatim>\<open>network.go\<close>, \<^verbatim>\<open>certificate.go\<close>): the struct \<^verbatim>\<open>Setting\<close> with its JSON
  encoding, the identity two profiles must agree on, the normal form of paths, and the
  validation that keeps a setting no agent could apply out of a profile. The theorems: what
  \<^verbatim>\<open>ValidateSettings\<close> accepts is a non-empty list of valid settings with distinct
  identities; the identity of a path is that of its normal form; the encoding tells settings
  apart, so that the engine's comparison by encoding compares settings; and what the
  validators promise the handlers (ports, hours, thumbprints, host names) they establish.

  X.509 and PEM parsing and SHA-1 are the parameter \<open>cert_lib\<close>. Letter case is ASCII's.
\<close>

section \<open>The struct\<close>

record SealedSecret =
  sec_Ciphertext :: string
  sec_Nonce :: string
  sec_MAC :: string

record Setting =
  s_Kind :: string
  s_Hive :: string
  s_Key :: string
  s_Type :: string
  s_Name :: string
  s_Data :: string
  s_Startup :: string
  s_State :: string
  s_Group :: string
  s_Members :: "string list"
  s_Mode :: string
  s_Path :: string
  s_ContentBase64 :: string
  s_Ensure :: string
  s_Profile :: string
  s_Direction :: string
  s_Action :: string
  s_Protocol :: string
  s_LocalPort :: string
  s_Program :: string
  s_QualityDeferralDays :: "int option"
  s_FeatureDeferralDays :: "int option"
  s_ActiveHoursStart :: "int option"
  s_ActiveHoursEnd :: "int option"
  s_AutoRestart :: "bool option"
  s_QualityDeadlineDays :: "int option"
  s_FeatureDeadlineDays :: "int option"
  s_DeadlineGraceDays :: "int option"
  s_PauseQualityFrom :: string
  s_PauseFeatureFrom :: string
  s_TargetProduct :: string
  s_TargetVersion :: string
  s_RequireEncryption :: bool
  s_Method :: string
  s_EscrowRecoveryKey :: bool
  s_RealtimeMonitoring :: "bool option"
  s_CloudProtection :: string
  s_SampleSubmission :: string
  s_PUAProtection :: string
  s_CloudBlockLevel :: string
  s_Store :: string
  s_CertificatePEM :: string
  s_SSID :: string
  s_Security :: string
  s_Passphrase :: string
  s_SealedSecret :: "SealedSecret option"
  s_SecretSet :: bool
  s_AutoConnect :: "bool option"
  s_Hidden :: bool
  s_EAPMethod :: string
  s_ServerNames :: "string list"
  s_TrustedRootThumbprints :: "string list"
  s_AuthMode :: string
  s_Server :: string
  s_Tunnel :: string
  s_Authentication :: string
  s_SplitTunneling :: bool
  s_DNSSuffix :: string

definition zero_setting :: Setting where
  "zero_setting = \<lparr>
     s_Kind = [], s_Hive = [], s_Key = [], s_Type = [], s_Name = [], s_Data = [], s_Startup = [],
     s_State = [], s_Group = [], s_Members = [], s_Mode = [], s_Path = [], s_ContentBase64 = [],
     s_Ensure = [], s_Profile = [], s_Direction = [], s_Action = [], s_Protocol = [],
     s_LocalPort = [], s_Program = [], s_QualityDeferralDays = None,
     s_FeatureDeferralDays = None, s_ActiveHoursStart = None, s_ActiveHoursEnd = None,
     s_AutoRestart = None, s_QualityDeadlineDays = None, s_FeatureDeadlineDays = None,
     s_DeadlineGraceDays = None, s_PauseQualityFrom = [], s_PauseFeatureFrom = [],
     s_TargetProduct = [], s_TargetVersion = [], s_RequireEncryption = False, s_Method = [],
     s_EscrowRecoveryKey = False, s_RealtimeMonitoring = None, s_CloudProtection = [],
     s_SampleSubmission = [], s_PUAProtection = [], s_CloudBlockLevel = [], s_Store = [],
     s_CertificatePEM = [], s_SSID = [], s_Security = [], s_Passphrase = [],
     s_SealedSecret = None, s_SecretSet = False, s_AutoConnect = None, s_Hidden = False,
     s_EAPMethod = [], s_ServerNames = [], s_TrustedRootThumbprints = [], s_AuthMode = [],
     s_Server = [], s_Tunnel = [], s_Authentication = [], s_SplitTunneling = False,
     s_DNSSuffix = []\<rparr>"

text \<open>\<^verbatim>\<open>json.Marshal\<close> of a setting is a JSON object whose members are the struct's fields in
  order, the ones marked \<^verbatim>\<open>omitempty\<close> left out when they are the zero value: an empty string or
  list, false, or a nil pointer.\<close>

definition json_string :: "string \<Rightarrow> json option" where
  "json_string v = (if v = [] then None else Some (JStr v))"

definition json_int :: "int option \<Rightarrow> json option" where
  "json_int v = map_option (\<lambda>n. JNum (itoa n)) v"

definition json_bool_ptr :: "bool option \<Rightarrow> json option" where
  "json_bool_ptr v = map_option JBool v"

definition json_bool :: "bool \<Rightarrow> json option" where
  "json_bool v = (if v then Some (JBool True) else None)"

definition json_strings :: "string list \<Rightarrow> json option" where
  "json_strings v = (if v = [] then None else Some (JArr (map JStr v)))"

definition json_secret :: "SealedSecret option \<Rightarrow> json option" where
  "json_secret v = map_option (\<lambda>x. JObj [(''ciphertext'', JStr (sec_Ciphertext x)),
     (''nonce'', JStr (sec_Nonce x)), (''mac'', JStr (sec_MAC x))]) v"

definition setting_keys :: "string list" where
  "setting_keys =
     [''kind'', ''hive'', ''key'', ''type'', ''name'', ''data'', ''startup'', ''state'',
      ''group'', ''members'', ''mode'', ''path'', ''content_base64'', ''ensure'', ''profile'',
      ''direction'', ''action'', ''protocol'', ''local_port'', ''program'',
      ''quality_deferral_days'', ''feature_deferral_days'', ''active_hours_start'',
      ''active_hours_end'', ''auto_restart'', ''quality_deadline_days'',
      ''feature_deadline_days'', ''deadline_grace_days'', ''pause_quality_from'',
      ''pause_feature_from'', ''target_product'', ''target_version'', ''require_encryption'',
      ''method'', ''escrow_recovery_key'', ''realtime_monitoring'', ''cloud_protection'',
      ''sample_submission'', ''pua_protection'', ''cloud_block_level'', ''store'',
      ''certificate_pem'', ''ssid'', ''security'', ''passphrase'', ''sealed_secret'',
      ''secret_set'', ''auto_connect'', ''hidden'', ''eap_method'', ''server_names'',
      ''trusted_root_thumbprints'', ''auth_mode'', ''server'', ''tunnel'', ''authentication'',
      ''split_tunneling'', ''dns_suffix'']"

definition setting_values :: "Setting \<Rightarrow> json option list" where
  "setting_values s =
     [Some (JStr (s_Kind s)), json_string (s_Hive s), json_string (s_Key s),
      json_string (s_Type s), json_string (s_Name s), json_string (s_Data s),
      json_string (s_Startup s), json_string (s_State s), json_string (s_Group s),
      json_strings (s_Members s), json_string (s_Mode s), json_string (s_Path s),
      json_string (s_ContentBase64 s), json_string (s_Ensure s), json_string (s_Profile s),
      json_string (s_Direction s), json_string (s_Action s), json_string (s_Protocol s),
      json_string (s_LocalPort s), json_string (s_Program s), json_int (s_QualityDeferralDays s),
      json_int (s_FeatureDeferralDays s), json_int (s_ActiveHoursStart s),
      json_int (s_ActiveHoursEnd s), json_bool_ptr (s_AutoRestart s),
      json_int (s_QualityDeadlineDays s), json_int (s_FeatureDeadlineDays s),
      json_int (s_DeadlineGraceDays s), json_string (s_PauseQualityFrom s),
      json_string (s_PauseFeatureFrom s), json_string (s_TargetProduct s),
      json_string (s_TargetVersion s), json_bool (s_RequireEncryption s),
      json_string (s_Method s), json_bool (s_EscrowRecoveryKey s),
      json_bool_ptr (s_RealtimeMonitoring s), json_string (s_CloudProtection s),
      json_string (s_SampleSubmission s), json_string (s_PUAProtection s),
      json_string (s_CloudBlockLevel s), json_string (s_Store s),
      json_string (s_CertificatePEM s), json_string (s_SSID s), json_string (s_Security s),
      json_string (s_Passphrase s), json_secret (s_SealedSecret s), json_bool (s_SecretSet s),
      json_bool_ptr (s_AutoConnect s), json_bool (s_Hidden s), json_string (s_EAPMethod s),
      json_strings (s_ServerNames s), json_strings (s_TrustedRootThumbprints s),
      json_string (s_AuthMode s), json_string (s_Server s), json_string (s_Tunnel s),
      json_string (s_Authentication s), json_bool (s_SplitTunneling s),
      json_string (s_DNSSuffix s)]"

fun present :: "(string \<times> json option) list \<Rightarrow> (string \<times> json) list" where
  "present [] = []"
| "present ((k, None) # r) = present r"
| "present ((k, Some v) # r) = (k, v) # present r"

definition marshalSetting :: "Setting \<Rightarrow> json" where
  "marshalSetting s = JObj (present (zip setting_keys (setting_values s)))"

section \<open>Paths and keys\<close>

text \<open>\<^verbatim>\<open>path.Clean\<close>: the elements of the path without the empty ones and \<^verbatim>\<open>"."\<close>,
  each \<^verbatim>\<open>".."\<close> taking away the element before it.\<close>

definition clean_step :: "bool \<Rightarrow> string list \<Rightarrow> string \<Rightarrow> string list" where
  "clean_step rooted out e =
     (if e = [] \<or> e = ''.'' then out
      else if e = ''..'' then
        (if out \<noteq> [] \<and> last out \<noteq> ''..'' then butlast out
         else if rooted then out else out @ [''..''])
      else out @ [e])"

definition rooted_path :: "string \<Rightarrow> bool" where
  "rooted_path p \<longleftrightarrow> p \<noteq> [] \<and> hd p = CHR ''/''"

definition path_Clean :: "string \<Rightarrow> string" where
  "path_Clean p =
     (let rooted = rooted_path p;
          out = foldl (clean_step rooted) [] (split_on (CHR ''/'') p);
          text = (if rooted then ''/'' else []) @ join_with ''/'' out
      in if text = [] then ''.'' else text)"

definition replace_char :: "char \<Rightarrow> char \<Rightarrow> string \<Rightarrow> string" where
  "replace_char a b s = map (\<lambda>c. if c = a then b else c) s"

definition NormalizePath :: "string \<Rightarrow> string" where
  "NormalizePath p = path_Clean (replace_char (CHR 0x5C) (CHR ''/'') (trim_space p))"

definition trim_char :: "char \<Rightarrow> string \<Rightarrow> string" where
  "trim_char c s = rev (dropWhile (\<lambda>x. x = c) (rev (dropWhile (\<lambda>x. x = c) s)))"

definition normalizeKey :: "string \<Rightarrow> string" where
  "normalizeKey k = trim_char (CHR 0x5C) (replace_char (CHR ''/'') (CHR 0x5C) (trim_space k))"

section \<open>Certificates\<close>

record cert_lib =
  pem_Decode :: "string \<Rightarrow> (string \<times> string \<times> string) option"
  x509_parses :: "string \<Rightarrow> bool"
  sha1_Sum :: "string \<Rightarrow> string"

abbreviation MaxCertificatePEMBytes :: nat where "MaxCertificatePEMBytes \<equiv> 16384"

datatype cert_error =
    CertTooBig | CertPrivateKey | CertNotPEM | CertBlockType string | CertMoreThanOne | CertEmpty
  | CertDoesNotParse

text \<open>The loop over the PEM blocks: every block it goes round for takes at least its markers
  away from the text, so the text's length is enough rounds.\<close>

fun pemBlocks :: "cert_lib \<Rightarrow> nat \<Rightarrow> string option \<Rightarrow> string \<Rightarrow> cert_error + string option" where
  "pemBlocks lib 0 der rest = (if rest = [] then Inr der else Inl CertNotPEM)"
| "pemBlocks lib (Suc n) der rest =
     (if rest = [] then Inr der
      else case pem_Decode lib rest of
        None \<Rightarrow> Inl CertNotPEM
      | Some (typ, bytes, nxt) \<Rightarrow>
          if typ \<noteq> ''CERTIFICATE'' then Inl (CertBlockType typ)
          else if der \<noteq> None then Inl CertMoreThanOne
          else pemBlocks lib n (Some bytes) (trim_space nxt))"

definition ParseCertificatePEM :: "cert_lib \<Rightarrow> string \<Rightarrow> cert_error + string" where
  "ParseCertificatePEM lib text =
     (if length text > MaxCertificatePEMBytes then Inl CertTooBig
      else if contains text ''PRIVATE KEY'' then Inl CertPrivateKey
      else bindE (pemBlocks lib (length text) None (trim_space text)) (\<lambda>der.
        case der of
          None \<Rightarrow> Inl CertEmpty
        | Some d \<Rightarrow> if x509_parses lib d then Inr d else Inl CertDoesNotParse))"

definition Thumbprint :: "cert_lib \<Rightarrow> string \<Rightarrow> string" where
  "Thumbprint lib der = to_upper (hex_encode (sha1_Sum lib der))"

definition CertificateThumbprint :: "cert_lib \<Rightarrow> Setting \<Rightarrow> string" where
  "CertificateThumbprint lib s =
     (case ParseCertificatePEM lib (s_CertificatePEM s) of Inl _ \<Rightarrow> [] | Inr der \<Rightarrow> Thumbprint lib der)"

section \<open>Identity\<close>

abbreviation "KindRegistry \<equiv> ''registry''"
abbreviation "KindService \<equiv> ''service''"
abbreviation "KindGroup \<equiv> ''local_group_members''"
abbreviation "KindFile \<equiv> ''file''"
abbreviation "KindFirewallProfile \<equiv> ''firewall_profile''"
abbreviation "KindFirewallRule \<equiv> ''firewall_rule''"
abbreviation "KindWindowsUpdate \<equiv> ''windows_update''"
abbreviation "KindBitLocker \<equiv> ''bitlocker''"
abbreviation "KindDefender \<equiv> ''defender''"
abbreviation "KindCertificate \<equiv> ''certificate''"
abbreviation "KindWiFi \<equiv> ''wifi''"
abbreviation "KindVPN \<equiv> ''vpn''"

definition Identity :: "cert_lib \<Rightarrow> Setting \<Rightarrow> string" where
  "Identity lib s =
     (if s_Kind s = KindRegistry then
        ''registry:'' @ to_upper (s_Hive s) @ [CHR 0x5C] @ to_lower (normalizeKey (s_Key s))
        @ ''!'' @ to_lower (s_Name s)
      else if s_Kind s = KindService then ''service:'' @ to_lower (s_Name s)
      else if s_Kind s = KindGroup then ''local_group_members:'' @ to_lower (s_Group s)
      else if s_Kind s = KindFile then ''file:'' @ to_lower (NormalizePath (s_Path s))
      else if s_Kind s = KindFirewallProfile then ''firewall_profile:'' @ to_lower (s_Profile s)
      else if s_Kind s = KindFirewallRule then ''firewall_rule:'' @ to_lower (trim_space (s_Name s))
      else if s_Kind s = KindWindowsUpdate then ''windows_update:policy''
      else if s_Kind s = KindBitLocker then ''bitlocker:os''
      else if s_Kind s = KindDefender then ''defender:preferences''
      else if s_Kind s = KindCertificate then
        ''certificate:'' @ s_Store s @ '':'' @ CertificateThumbprint lib s
      else if s_Kind s = KindWiFi then ''wifi:'' @ s_SSID s
      else if s_Kind s = KindVPN then ''vpn:'' @ to_lower (s_Name s)
      else s_Kind s @ '':'')"

definition Content :: "Setting \<Rightarrow> string option" where
  "Content s = b64_decode (s_ContentBase64 s)"

definition MultiSZ :: "Setting \<Rightarrow> string list" where
  "MultiSZ s = filter (\<lambda>l. l \<noteq> []) (split_on (CHR 0x0A) (crlf_to_lf (s_Data s)))"

section \<open>Validation\<close>

text \<open>An \<^verbatim>\<open>ErrBadSetting\<close> with its message and the values the message names.\<close>

datatype setting_error =
    BadSetting string "string list"
  | NotInRange string int int
  | BadCertificate cert_error
  | InSetting nat setting_error
  | SameIdentity nat nat string

text \<open>A check returns nil (\<^term>\<open>None\<close>) or its error; a validator is the first check that
  fails.\<close>

fun first_error :: "'e option list \<Rightarrow> 'e option" where
  "first_error [] = None"
| "first_error (None # r) = first_error r"
| "first_error (Some e # r) = Some e"

definition reject :: "bool \<Rightarrow> 'e \<Rightarrow> 'e option" where
  "reject c e = (if c then Some e else None)"

abbreviation "EnsurePresent \<equiv> ''present''"
abbreviation "EnsureAbsent \<equiv> ''absent''"

definition parses_uint64 :: "string \<Rightarrow> bool" where
  "parses_uint64 s \<longleftrightarrow> all_digits s \<and> digits_value s < 2 ^ 64"

definition validateRegistry :: "Setting \<Rightarrow> setting_error option" where
  "validateRegistry s =
     (let hive = to_upper (s_Hive s) in
      if hive \<noteq> ''HKLM'' \<and> hive \<noteq> ''HKCU'' then Some
        (BadSetting ''hive must be HKLM'' [s_Hive s])
      else if normalizeKey (s_Key s) = [] then Some
        (BadSetting ''a registry setting needs a key'' [])
      else if s_Name s = [] then Some (BadSetting ''a registry setting needs a value name'' [])
      else if s_Ensure s = EnsureAbsent then None
      else if s_Ensure s \<noteq> [] \<and> s_Ensure s \<noteq> EnsurePresent then Some
        (BadSetting ''ensure must be present or absent'' [])
      else if s_Type s \<in> set [''REG_SZ'', ''REG_EXPAND_SZ'', ''REG_MULTI_SZ''] then None
      else if s_Type s \<in> set [''REG_DWORD'', ''REG_QWORD''] then
        (if parses_uint64 (trim_space (s_Data s)) then None else
          Some (BadSetting ''data must be a whole number'' [s_Type s, s_Data s]))
      else if s_Type s = [] then Some (BadSetting ''a registry setting needs a type'' [])
      else Some (BadSetting ''unsupported registry type'' [s_Type s]))"

definition validateService :: "Setting \<Rightarrow> setting_error option" where
  "validateService s =
     (if trim_space (s_Name s) = [] then Some (BadSetting ''a service setting needs a name'' [])
      else if s_Startup s \<notin> set [''automatic'', ''manual'', ''disabled'', []] then Some
        (BadSetting ''startup must be automatic, manual or disabled'' [s_Startup s])
      else if s_State s \<notin> set [''running'', ''stopped'', []] then Some
        (BadSetting ''state must be running or stopped'' [s_State s])
      else if s_Startup s = [] \<and> s_State s = [] then Some
        (BadSetting ''a service setting needs a startup type, a state, or both'' [])
      else if s_Startup s = ''disabled'' \<and> s_State s = ''running'' then Some
        (BadSetting ''a disabled service cannot also be required to run'' [])
      else None)"

definition validateGroup :: "Setting \<Rightarrow> setting_error option" where
  "validateGroup s =
     (if trim_space (s_Group s) = [] then Some
       (BadSetting ''a group setting needs a group name'' [])
      else if s_Mode s = [] then Some
        (BadSetting ''a group setting needs a mode of additive or exact'' [])
      else if s_Mode s \<noteq> ''additive'' \<and> s_Mode s \<noteq> ''exact'' then Some
        (BadSetting ''mode must be additive or exact'' [s_Mode s])
      else if s_Members s = [] \<and> s_Mode s = ''additive'' then Some
        (BadSetting ''an additive group setting with no members does nothing'' [])
      else if list_ex (\<lambda>m. trim_space m = []) (s_Members s) then Some
        (BadSetting ''a group member cannot be blank'' [])
      else None)"

abbreviation MaxFileBytes :: nat where "MaxFileBytes \<equiv> 1048576"

definition validateFile :: "Setting \<Rightarrow> setting_error option" where
  "validateFile s =
     (if NormalizePath (s_Path s) = ''.'' \<or> trim_space (s_Path s) = [] then Some
       (BadSetting ''a file setting needs a path'' [])
      else if s_Ensure s = EnsureAbsent then reject (s_ContentBase64 s \<noteq> [])
        (BadSetting ''a file being removed cannot also have contents'' [])
      else if s_Ensure s \<noteq> EnsurePresent \<and> s_Ensure s \<noteq> [] then Some
        (BadSetting ''ensure must be present or absent'' [])
      else case Content s of
        None \<Rightarrow> Some (BadSetting ''file contents must be base64'' [])
      | Some content \<Rightarrow> reject (length content > MaxFileBytes)
        (BadSetting ''a file may be at most 1048576 bytes'' []))"

definition validateFirewallProfile :: "Setting \<Rightarrow> setting_error option" where
  "validateFirewallProfile s =
     (if s_Profile s \<notin> set [''domain'', ''private'', ''public''] then Some
       (BadSetting ''profile must be domain, private or public'' [s_Profile s])
      else if s_State s \<notin> set [''on'', ''off''] then Some
        (BadSetting ''a firewall profile must be on or off'' [s_State s])
      else None)"

definition port_part :: "string \<Rightarrow> bool" where
  "port_part part =
     (case atoi (trim_space part) of None \<Rightarrow> False | Some n \<Rightarrow> 1 \<le> n \<and> n \<le> 65535)"

definition validatePort :: "string \<Rightarrow> setting_error option" where
  "validatePort port =
     (if trim_space port = [] then None
      else reject (\<not> list_all port_part (split_on (CHR ''-'') port))
        (BadSetting ''is not a port or port range'' [port]))"

definition validateFirewallRule :: "Setting \<Rightarrow> setting_error option" where
  "validateFirewallRule s =
     (if trim_space (s_Name s) = [] then Some (BadSetting ''a firewall rule needs a name'' [])
      else if list_ex (\<lambda>c. c \<in> set ''*?[]`'') (s_Name s) then Some
        (BadSetting ''a firewall rule name cannot contain wildcards'' [])
      else if s_Ensure s = EnsureAbsent then None
      else if s_Ensure s \<noteq> [] \<and> s_Ensure s \<noteq> EnsurePresent then Some
        (BadSetting ''ensure must be present or absent'' [])
      else if s_Direction s \<notin> set [''inbound'', ''outbound''] then Some
        (BadSetting ''direction must be inbound or outbound'' [s_Direction s])
      else if s_Action s \<notin> set [''allow'', ''block''] then Some
        (BadSetting ''action must be allow or block'' [s_Action s])
      else if s_Protocol s \<notin> set [''tcp'', ''udp'', ''any'', []] then Some
        (BadSetting ''protocol must be tcp, udp or any'' [s_Protocol s])
      else if s_LocalPort s \<noteq> [] \<and> s_Protocol s = ''any'' then Some
        (BadSetting ''a port only means something with tcp or udp'' [])
      else validatePort (s_LocalPort s))"

subsection \<open>Windows Update, BitLocker and Defender\<close>

definition inRange :: "string \<Rightarrow> int option \<Rightarrow> int \<Rightarrow> int \<Rightarrow> setting_error option" where
  "inRange field value low high =
     (case value of
        None \<Rightarrow> None
      | Some v \<Rightarrow> reject (v < low \<or> v > high) (NotInRange field low high))"

definition leap_year :: "nat \<Rightarrow> bool" where
  "leap_year y \<longleftrightarrow> y mod 4 = 0 \<and> (y mod 100 \<noteq> 0 \<or> y mod 400 = 0)"

definition days_in :: "nat \<Rightarrow> nat \<Rightarrow> nat" where
  "days_in y m =
     (if m = 2 then (if leap_year y then 29 else 28)
      else if m \<in> set [4, 6, 9, 11] then 30 else 31)"

text \<open>\<^verbatim>\<open>time.Parse(time.DateOnly, v)\<close>: four, two and two digits between dashes, naming a day of
  the calendar.\<close>

definition parses_date :: "string \<Rightarrow> bool" where
  "parses_date v \<longleftrightarrow>
     length v = 10 \<and> v ! 4 = CHR ''-'' \<and> v ! 7 = CHR ''-''
     \<and> all_digits (take 4 v) \<and> all_digits (take 2 (drop 5 v)) \<and> all_digits (drop 8 v)
     \<and> (let y = digits_value (take 4 v); m = digits_value (take 2 (drop 5 v));
            d = digits_value (drop 8 v)
        in 1 \<le> m \<and> m \<le> 12 \<and> 1 \<le> d \<and> d \<le> days_in y m)"

definition releasePattern :: "string \<Rightarrow> bool" where
  "releasePattern v \<longleftrightarrow>
     length v = 4 \<and> is_digit (v ! 0) \<and> is_digit (v ! 1) \<and> v ! 2 = CHR ''H''
     \<and> v ! 3 \<in> set ''12''"

definition pauseDate :: "string \<Rightarrow> string \<Rightarrow> setting_error option" where
  "pauseDate field value = reject (value \<noteq> [] \<and> \<not> parses_date value)
    (BadSetting ''must be a date, YYYY-MM-DD'' [field])"

definition validateWindowsUpdate :: "Setting \<Rightarrow> setting_error option" where
  "validateWindowsUpdate s = first_error
     [inRange ''quality_deferral_days'' (s_QualityDeferralDays s) 0 30,
      inRange ''feature_deferral_days'' (s_FeatureDeferralDays s) 0 365,
      inRange ''active_hours_start'' (s_ActiveHoursStart s) 0 23,
      inRange ''active_hours_end'' (s_ActiveHoursEnd s) 0 23,
      reject ((s_ActiveHoursStart s = None) \<noteq> (s_ActiveHoursEnd s = None))
        (BadSetting ''active hours need both a start and an end'' []),
      reject (s_ActiveHoursStart s \<noteq> None \<and> s_ActiveHoursStart s = s_ActiveHoursEnd s)
        (BadSetting ''active hours cannot start and end at the same hour'' []),
      inRange ''quality_deadline_days'' (s_QualityDeadlineDays s) 0 30,
      inRange ''feature_deadline_days'' (s_FeatureDeadlineDays s) 0 30,
      inRange ''deadline_grace_days'' (s_DeadlineGraceDays s) 0 7,
      reject (s_DeadlineGraceDays s \<noteq> None \<and> s_QualityDeadlineDays s = None
              \<and> s_FeatureDeadlineDays s = None)
                (BadSetting ''a deadline grace period needs a deadline'' []),
      pauseDate ''pause_quality_from'' (s_PauseQualityFrom s),
      pauseDate ''pause_feature_from'' (s_PauseFeatureFrom s),
      reject ((s_TargetProduct s = []) \<noteq> (s_TargetVersion s = []))
        (BadSetting ''a target release needs both a product and a version'' []),
      reject (s_TargetProduct s \<noteq> [] \<and> s_TargetProduct s \<noteq> ''Windows 10''
              \<and> s_TargetProduct s \<noteq> ''Windows 11'')
                (BadSetting ''target_product must be Windows 10 or Windows 11'' []),
      reject (s_TargetProduct s \<noteq> [] \<and> \<not> releasePattern (s_TargetVersion s))
        (BadSetting ''target_version must be a release such as 24H2'' []),
      reject (s_QualityDeferralDays s = None \<and> s_FeatureDeferralDays s = None
              \<and> s_ActiveHoursStart s = None \<and> s_AutoRestart s = None
              \<and> s_QualityDeadlineDays s = None \<and> s_FeatureDeadlineDays s = None
              \<and> s_PauseQualityFrom s = [] \<and> s_PauseFeatureFrom s = []
              \<and> s_TargetProduct s = [])
                (BadSetting ''a setting with nothing set does nothing'' [])]"

definition validateBitLocker :: "Setting \<Rightarrow> setting_error option" where
  "validateBitLocker s = first_error
     [reject (s_Method s \<notin> set [''XtsAes128'', ''XtsAes256'', []])
       (BadSetting ''method must be XtsAes128 or XtsAes256'' [s_Method s]),
      reject (\<not> s_RequireEncryption s \<and> s_EscrowRecoveryKey s)
        (BadSetting ''a recovery key can only be escrowed when encryption is required'' []),
      reject (\<not> s_RequireEncryption s \<and> s_Method s \<noteq> [])
        (BadSetting ''an encryption method only means something when encryption is required'' []),
      reject (\<not> s_RequireEncryption s)
        (BadSetting ''a bitlocker setting that requires nothing does nothing'' [])]"

definition DefenderPreferences :: "(string \<times> string \<times> (string \<times> int) list) list" where
  "DefenderPreferences =
     [(''cloud_protection'', ''MAPSReporting'', [(''off'', 0), (''basic'', 1), (''advanced'', 2)]),
      (''sample_submission'', ''SubmitSamplesConsent'',
        [(''prompt'', 0), (''safe'', 1), (''never'', 2), (''all'', 3)]),
      (''pua_protection'', ''PUAProtection'', [(''off'', 0), (''on'', 1), (''audit'', 2)]),
      (''cloud_block_level'', ''CloudBlockLevel'',
        [(''default'', 0), (''moderate'', 1), (''high'', 2), (''high_plus'', 4), (''zero_tolerance'', 6)])]"

definition DefenderValue :: "Setting \<Rightarrow> string \<Rightarrow> string" where
  "DefenderValue s field =
     (if field = ''cloud_protection'' then s_CloudProtection s
      else if field = ''sample_submission'' then s_SampleSubmission s
      else if field = ''pua_protection'' then s_PUAProtection s
      else if field = ''cloud_block_level'' then s_CloudBlockLevel s
      else [])"

fun defenderWords :: "Setting \<Rightarrow> bool \<Rightarrow> (string \<times> string \<times> (string \<times> int) list) list
    \<Rightarrow> setting_error option" where
  "defenderWords s named [] = reject (\<not> named)
    (BadSetting ''a setting with nothing set does nothing'' [])"
| "defenderWords s named ((field, param, vals) # r) =
     (let v = DefenderValue s field in
      if v = [] then defenderWords s named r
      else if map_of vals v = None then Some
        (BadSetting ''must be one of the preference words'' [field, v])
      else defenderWords s True r)"

definition validateDefender :: "Setting \<Rightarrow> setting_error option" where
  "validateDefender s = defenderWords s (s_RealtimeMonitoring s \<noteq> None) DefenderPreferences"

subsection \<open>Certificates, Wi-Fi and VPN\<close>

definition CertificateStores :: "(string \<times> string) list" where
  "CertificateStores = [(''root'', ''Root''), (''ca'', ''CA''), (''trusted_publisher'', ''TrustedPublisher'')]"

definition validateCertificate :: "cert_lib \<Rightarrow> Setting \<Rightarrow> setting_error option" where
  "validateCertificate lib s =
     (if map_of CertificateStores (s_Store s) = None then Some
       (BadSetting ''store must be root, ca or trusted_publisher'' [])
      else case ParseCertificatePEM lib (s_CertificatePEM s) of
        Inl e \<Rightarrow> Some (BadCertificate e)
      | Inr _ \<Rightarrow> None)"

text \<open>The width of the first character of a text and whether it is valid UTF-8: an invalid byte
  counts as one character.\<close>

definition cont :: "string \<Rightarrow> nat \<Rightarrow> nat \<Rightarrow> nat \<Rightarrow> bool" where
  "cont s i low high \<longleftrightarrow> i < length s \<and> low \<le> byte (s ! i) \<and> byte (s ! i) \<le> high"

definition decode_rune :: "string \<Rightarrow> nat \<times> bool" where
  "decode_rune s =
     (let b = byte (hd s) in
      if b < 0x80 then (1, True)
      else if 0xC2 \<le> b \<and> b \<le> 0xDF \<and> cont s 1 0x80 0xBF then (2, True)
      else if 0xE0 \<le> b \<and> b \<le> 0xEF
        \<and> cont s 1 (if b = 0xE0 then 0xA0 else 0x80) (if b = 0xED then 0x9F else 0xBF)
        \<and> cont s 2 0x80 0xBF then (3, True)
      else if 0xF0 \<le> b \<and> b \<le> 0xF4
        \<and> cont s 1 (if b = 0xF0 then 0x90 else 0x80) (if b = 0xF4 then 0x8F else 0xBF)
        \<and> cont s 2 0x80 0xBF \<and> cont s 3 0x80 0xBF then (4, True)
      else (1, False))"

lemma decode_rune_pos: "0 < fst (decode_rune s)"
  by (simp add: decode_rune_def Let_def)

function runes :: "string \<Rightarrow> bool list" where
  "runes s = (if s = [] then [] else case decode_rune s of (n, ok) \<Rightarrow> ok # runes (drop n s))"
  by pat_completeness auto
termination
proof (relation "measure length")
  fix s n ok
  assume "s \<noteq> []" "(n, ok) = decode_rune s"
  then show "(drop n s, s) \<in> measure length" using decode_rune_pos [of s] by (cases s) (auto simp: prod_eq_iff)
qed simp

definition valid_utf8 :: "string \<Rightarrow> bool" where
  "valid_utf8 s \<longleftrightarrow> list_all id (runes s)"

definition rune_count :: "string \<Rightarrow> nat" where
  "rune_count s = length (runes s)"

definition validateSSID :: "string \<Rightarrow> setting_error option" where
  "validateSSID ssid =
     (if length ssid = 0 \<or> length ssid > 32 then Some
       (BadSetting ''ssid must be 1 to 32 bytes'' [])
      else reject (\<not> valid_utf8 ssid
             \<or> list_ex (\<lambda>c. c \<in> set [CHR 0x22, CHR 0x00, CHR 0x0D, CHR 0x0A, CHR 0x09]) ssid)
             (BadSetting ''ssid cannot contain quotes or control characters'' []))"

definition isPrintableASCII :: "string \<Rightarrow> bool" where
  "isPrintableASCII s \<longleftrightarrow> list_all (\<lambda>c. 0x20 \<le> byte c \<and> byte c \<le> 0x7E) s"

definition is_alnum :: "char \<Rightarrow> bool" where
  "is_alnum c \<longleftrightarrow> is_digit c \<or> is_upper c \<or> is_lower c"

definition host_label :: "string \<Rightarrow> bool" where
  "host_label l \<longleftrightarrow>
     l \<noteq> [] \<and> length l \<le> 63 \<and> is_alnum (hd l) \<and> is_alnum (last l)
     \<and> list_all (\<lambda>c. is_alnum c \<or> c = CHR ''-'') l"

definition hostnamePattern :: "string \<Rightarrow> bool" where
  "hostnamePattern s \<longleftrightarrow> list_all host_label (split_on (CHR ''.'') s)"

definition serverNamePattern :: "string \<Rightarrow> bool" where
  "serverNamePattern s \<longleftrightarrow>
     (case cut_prefix ''*.'' s of None \<Rightarrow> hostnamePattern s | Some r \<Rightarrow> hostnamePattern r)"

definition lower_hex :: "char \<Rightarrow> bool" where
  "lower_hex c \<longleftrightarrow> is_digit c \<or> 97 \<le> byte c \<and> byte c \<le> 102"

definition thumbprintPattern :: "string \<Rightarrow> bool" where
  "thumbprintPattern s \<longleftrightarrow> length s = 40 \<and> list_all lower_hex s"

text \<open>The replacer takes spaces, colons, dashes and U+200E (three bytes) out.\<close>

fun strip_marks :: "string \<Rightarrow> string" where
  "strip_marks [] = []"
| "strip_marks (c # r) =
     (if c \<in> set '' :-'' then strip_marks r
      else case cut_prefix [CHR 0xE2, CHR 0x80, CHR 0x8E] (c # r) of
        Some r' \<Rightarrow> strip_marks (drop 2 r)
      | None \<Rightarrow> c # strip_marks r)"

definition NormalizeThumbprint :: "string \<Rightarrow> string" where
  "NormalizeThumbprint s = to_lower (strip_marks (trim_space s))"

abbreviation maxOneXEntries :: nat where "maxOneXEntries \<equiv> 8"

definition validateOneX :: "Setting \<Rightarrow> setting_error option" where
  "validateOneX s =
     (if s_Passphrase s \<noteq> [] \<or> s_SealedSecret s \<noteq> None then Some
       (BadSetting ''an enterprise network has no passphrase'' [])
      else if s_EAPMethod s \<notin> set [''peap'', ''tls''] then Some
        (BadSetting ''eap_method must be peap or tls'' [])
      else if s_AuthMode s \<notin> set [[], ''machine_or_user'', ''machine'', ''user''] then Some
        (BadSetting ''auth_mode must be machine_or_user, machine or user'' [])
      else if s_ServerNames s = [] \<or> length (s_ServerNames s) > maxOneXEntries
      then Some (BadSetting ''server_names must list 1 to 8 RADIUS server names'' [])
      else case find (\<lambda>n. length n > 253 \<or> \<not> serverNamePattern n) (s_ServerNames s) of
        Some n \<Rightarrow> Some (BadSetting ''is not a server name'' [n])
      | None \<Rightarrow>
          if s_TrustedRootThumbprints s = [] \<or> length (s_TrustedRootThumbprints s) > maxOneXEntries
          then Some (BadSetting ''trusted_root_thumbprints must list 1 to 8 thumbprints'' [])
          else map_option (\<lambda>t. BadSetting ''is not a SHA-1 certificate thumbprint (40 hex digits)'' [t])
            (find (\<lambda>t. \<not> thumbprintPattern (NormalizeThumbprint t)) (s_TrustedRootThumbprints s)))"

definition validateWiFi :: "Setting \<Rightarrow> setting_error option" where
  "validateWiFi s =
     (case validateSSID (s_SSID s) of
        Some e \<Rightarrow> Some e
      | None \<Rightarrow>
          if s_Security s = ''wpa2_enterprise'' then validateOneX s
          else first_error
            [if s_Security s = ''open'' then
               reject (s_Passphrase s \<noteq> [] \<or> s_SealedSecret s \<noteq> None)
                 (BadSetting ''an open network has no passphrase'' [])
             else if s_Security s = ''wpa2_personal'' \<or> s_Security s = ''wpa3_personal'' then
               (if s_Passphrase s = [] \<and> s_SealedSecret s = None then Some
                 (BadSetting ''the network needs a passphrase'' [s_Security s])
                else let n = rune_count (s_Passphrase s) in
                  reject (s_Passphrase s \<noteq> []
                    \<and> (n < 8 \<or> n > 63 \<or> \<not> isPrintableASCII (s_Passphrase s)))
                      (BadSetting ''a passphrase is 8 to 63 printable ASCII characters'' []))
             else
               Some (BadSetting ''security must be open, wpa2_personal, wpa3_personal or wpa2_enterprise'' []),
             reject (s_EAPMethod s \<noteq> [] \<or> s_ServerNames s \<noteq> [] \<or> s_TrustedRootThumbprints s \<noteq> []
               \<or> s_AuthMode s \<noteq> [])
                 (BadSetting ''the 802.1X fields are for wpa2_enterprise'' [])])"

definition vpnNamePattern :: "string \<Rightarrow> bool" where
  "vpnNamePattern s \<longleftrightarrow>
     1 \<le> length s \<and> length s \<le> 64 \<and> list_all (\<lambda>c. is_alnum c \<or> c \<in> set '' ._-'') s"

text \<open>\<^verbatim>\<open>net.ParseIP\<close> succeeds: a dotted IPv4 address without leading zeros, or an IPv6 address
  without a zone.\<close>

definition octet :: "string \<Rightarrow> bool" where
  "octet f \<longleftrightarrow> all_digits f \<and> (f = ''0'' \<or> hd f \<noteq> CHR ''0'') \<and> digits_value f \<le> 255"

definition parses_ipv4 :: "string \<Rightarrow> bool" where
  "parses_ipv4 s \<longleftrightarrow>
     (let fs = split_on (CHR ''.'') s in length fs = 4 \<and> list_all octet fs)"

definition is_hex :: "char \<Rightarrow> bool" where
  "is_hex c \<longleftrightarrow> is_digit c \<or> 65 \<le> byte c \<and> byte c \<le> 70 \<or> 97 \<le> byte c \<and> byte c \<le> 102"

text \<open>The loop of \<^verbatim>\<open>netip.parseIPv6\<close>: \<open>i\<close> groups of two bytes are filled, \<open>ell\<close> says whether an
  ellipsis was seen.\<close>

function ipv6_groups :: "nat \<Rightarrow> bool \<Rightarrow> string \<Rightarrow> bool" where
  "ipv6_groups i ell s =
     (if i \<ge> 8 then s = [] \<and> \<not> ell
      else
        let h = takeWhile is_hex s; r = dropWhile is_hex s in
        if h = [] \<or> length h > 4 then False
        else if r \<noteq> [] \<and> hd r = CHR ''.'' then
          (if \<not> ell \<and> i \<noteq> 6 \<or> i + 2 > 8 then False
           else parses_ipv4 s \<and> (if i + 2 < 8 then ell else \<not> ell))
        else if r = [] then (if i + 1 < 8 then ell else \<not> ell)
        else if hd r \<noteq> CHR '':'' \<or> length r = 1 then False
        else if hd (tl r) = CHR '':'' then
          (if ell then False
           else if drop 2 r = [] then i + 1 < 8
           else ipv6_groups (i + 1) True (drop 2 r))
        else ipv6_groups (i + 1) ell (tl r))"
  by pat_completeness auto
termination
  by (relation "measure (\<lambda>(i, ell, s). 8 - i)") auto

definition parses_ipv6 :: "string \<Rightarrow> bool" where
  "parses_ipv6 s \<longleftrightarrow>
     CHR ''%'' \<notin> set s
     \<and> (case cut_prefix ''::'' s of
          Some r \<Rightarrow> r = [] \<or> ipv6_groups 0 True r
        | None \<Rightarrow> ipv6_groups 0 False s)"

definition ParseIP_ok :: "string \<Rightarrow> bool" where
  "ParseIP_ok s \<longleftrightarrow>
     (case find (\<lambda>c. c \<in> set ''.:%'') s of
        None \<Rightarrow> False
      | Some c \<Rightarrow> if c = CHR ''.'' then parses_ipv4 s else if c = CHR '':'' then parses_ipv6 s else False)"

definition validateVPN :: "Setting \<Rightarrow> setting_error option" where
  "validateVPN s =
     (if \<not> vpnNamePattern (s_Name s) then Some
       (BadSetting ''a VPN name is 1 to 64 letters, digits, spaces, dots, dashes or underscores'' [])
      else if \<not> ParseIP_ok (s_Server s) \<and> (length (s_Server s) > 253 \<or> \<not> hostnamePattern (s_Server s))
      then Some (BadSetting ''server must be a host name or IP address'' [])
      else if s_Tunnel s \<notin> set [''ikev2'', ''sstp''] then Some
        (BadSetting ''tunnel must be ikev2 or sstp'' [])
      else if s_Authentication s \<notin> set [''eap'', ''machine_certificate'', ''mschapv2'']
        then Some (BadSetting ''authentication must be eap, machine_certificate or mschapv2'' [])
      else if s_Tunnel s = ''sstp'' \<and> s_Authentication s = ''machine_certificate'' then Some
        (BadSetting ''SSTP cannot authenticate with a machine certificate'' [])
      else reject (s_DNSSuffix s \<noteq> [] \<and> \<not> hostnamePattern (s_DNSSuffix s))
        (BadSetting ''dns_suffix must be a domain name'' []))"

subsection \<open>A setting and a profile\<close>

definition Validate :: "cert_lib \<Rightarrow> Setting \<Rightarrow> setting_error option" where
  "Validate lib s =
     (if s_Kind s = KindRegistry then validateRegistry s
      else if s_Kind s = KindService then validateService s
      else if s_Kind s = KindGroup then validateGroup s
      else if s_Kind s = KindFile then validateFile s
      else if s_Kind s = KindFirewallProfile then validateFirewallProfile s
      else if s_Kind s = KindFirewallRule then validateFirewallRule s
      else if s_Kind s = KindWindowsUpdate then validateWindowsUpdate s
      else if s_Kind s = KindBitLocker then validateBitLocker s
      else if s_Kind s = KindDefender then validateDefender s
      else if s_Kind s = KindCertificate then validateCertificate lib s
      else if s_Kind s = KindWiFi then validateWiFi s
      else if s_Kind s = KindVPN then validateVPN s
      else if s_Kind s = [] then Some (BadSetting ''every setting needs a kind'' [])
      else Some (BadSetting ''unsupported kind'' [s_Kind s]))"

fun validateFrom :: "cert_lib \<Rightarrow> (string \<times> nat) list \<Rightarrow> nat \<Rightarrow> Setting list \<Rightarrow> setting_error option" where
  "validateFrom lib seen i [] = None"
| "validateFrom lib seen i (s # r) =
     (case Validate lib s of
        Some e \<Rightarrow> Some (InSetting (i + 1) e)
      | None \<Rightarrow>
          (let k = Identity lib s in
           case map_of seen k of
             Some first \<Rightarrow> Some (SameIdentity (first + 1) (i + 1) k)
           | None \<Rightarrow> validateFrom lib ((k, i) # seen) (i + 1) r))"

definition ValidateSettings :: "cert_lib \<Rightarrow> Setting list \<Rightarrow> setting_error option" where
  "ValidateSettings lib settings =
     (if settings = [] then Some
       (BadSetting ''a profile needs at least one setting'' []) else validateFrom lib [] 0 settings)"

declare runes.simps [simp del] ipv6_groups.simps [simp del]

section \<open>The encoding tells settings apart\<close>

lemma present_keys: "map_of (present (zip ks vs)) k = None" if "k \<notin> set ks"
  using that by (induction ks vs rule: list_induct2') (auto split: option.splits, metis option.exhaust present.simps(2,3) map_of_Cons_code(2))

lemma present_inj:
  assumes "distinct ks" "length vs = length ks" "length ws = length ks"
    "present (zip ks vs) = present (zip ks ws)"
  shows "vs = ws"
  using assms
proof (induction ks arbitrary: vs ws)
  case (Cons k ks)
  obtain v vs' where vs: "vs = v # vs'" using Cons.prems by (cases vs) auto
  obtain w ws' where ws: "ws = w # ws'" using Cons.prems by (cases ws) auto
  have none: "map_of (present (zip ks vs')) k = None" "map_of (present (zip ks ws')) k = None"
    using Cons.prems(1) by (simp_all add: present_keys)
  have eq: "present ((k, v) # zip ks vs') = present ((k, w) # zip ks ws')"
    using Cons.prems(4) by (simp add: vs ws)
  have "map_of (present ((k, v) # zip ks vs')) k = v" using none by (cases v) auto
  moreover have "map_of (present ((k, w) # zip ks ws')) k = w" using none by (cases w) auto
  ultimately have vw: "v = w" using eq by metis
  then have "present (zip ks vs') = present (zip ks ws')" using eq by (cases v) auto
  with Cons vs ws vw show ?case by simp
qed simp

lemma json_string_inj: "json_string a = json_string b \<longleftrightarrow> a = b"
  by (auto simp: json_string_def)

lemma json_int_inj: "json_int a = json_int b \<longleftrightarrow> a = b"
  by (cases a; cases b) (auto simp: json_int_def itoa_inj)

lemma json_bool_ptr_inj: "json_bool_ptr a = json_bool_ptr b \<longleftrightarrow> a = b"
  by (cases a; cases b) (auto simp: json_bool_ptr_def)

lemma json_bool_inj: "json_bool a = json_bool b \<longleftrightarrow> a = b"
  by (auto simp: json_bool_def)

lemma json_strings_inj: "json_strings a = json_strings b \<longleftrightarrow> a = b"
  by (auto simp: json_strings_def inj_map_eq_map inj_def)

lemma json_secret_inj: "json_secret a = json_secret b \<longleftrightarrow> a = b"
  by (cases a; cases b) (auto simp: json_secret_def)

lemmas json_field_inj = json_string_inj json_int_inj json_bool_ptr_inj json_bool_inj
  json_strings_inj json_secret_inj

lemma setting_keys_distinct: "distinct setting_keys" by code_simp

lemma setting_values_inj: "setting_values a = setting_values b \<Longrightarrow> a = b"
  by (simp only: setting_values_def list.inject option.inject json.inject json_field_inj)
     (simp add: Setting.equality)

lemma length_setting_values: "length (setting_values s) = length setting_keys"
  by (simp add: setting_values_def setting_keys_def)

lemma marshalSetting_inj: "marshalSetting a = marshalSetting b \<longleftrightarrow> a = b"
proof
  assume "marshalSetting a = marshalSetting b"
  then have "present (zip setting_keys (setting_values a)) = present (zip setting_keys (setting_values b))"
    by (simp add: marshalSetting_def)
  then have "setting_values a = setting_values b"
    by (intro present_inj [OF setting_keys_distinct]) (simp_all add: length_setting_values)
  then show "a = b" by (rule setting_values_inj)
qed simp

section \<open>JSON as text\<close>

text \<open>The text \<^verbatim>\<open>encoding/json\<close> writes: no white space, HTML characters and control characters
  escaped, invalid bytes replaced.\<close>

definition hex_escape :: "nat \<Rightarrow> string" where
  "hex_escape b = [CHR 0x5C] @ ''u00'' @ hex_encode [char_of b]"

definition json_char :: "char \<Rightarrow> string" where
  "json_char c =
     (if c = CHR 0x22 \<or> c = CHR 0x5C then [CHR 0x5C, c]
      else if c = CHR 0x08 then [CHR 0x5C] @ ''b''
      else if c = CHR 0x0C then [CHR 0x5C] @ ''f''
      else if c = CHR 0x0A then [CHR 0x5C] @ ''n''
      else if c = CHR 0x0D then [CHR 0x5C] @ ''r''
      else if c = CHR 0x09 then [CHR 0x5C] @ ''t''
      else if byte c < 0x20 \<or> c \<in> set ''<>&'' then hex_escape (byte c)
      else [c])"

definition json_rune :: "nat \<Rightarrow> bool \<Rightarrow> string \<Rightarrow> string" where
  "json_rune n ok s =
     (if \<not> ok then [CHR 0x5C] @ ''ufffd''
      else if n = 1 then json_char (hd s)
      else if take n s = [CHR 0xE2, CHR 0x80, CHR 0xA8] then [CHR 0x5C] @ ''u2028''
      else if take n s = [CHR 0xE2, CHR 0x80, CHR 0xA9] then [CHR 0x5C] @ ''u2029''
      else take n s)"

function json_chars :: "string \<Rightarrow> string" where
  "json_chars s =
     (if s = [] then [] else case decode_rune s of (n, ok) \<Rightarrow> json_rune n ok s @ json_chars (drop n s))"
  by pat_completeness auto
termination
proof (relation "measure length")
  fix s n ok
  assume "s \<noteq> []" "(n, ok) = decode_rune s"
  then show "(drop n s, s) \<in> measure length" using decode_rune_pos [of s] by (cases s) (auto simp: prod_eq_iff)
qed simp

declare json_chars.simps [simp del]

definition json_quote :: "string \<Rightarrow> string" where
  "json_quote s = [CHR 0x22] @ json_chars s @ [CHR 0x22]"

fun json_text :: "json \<Rightarrow> string" where
  "json_text JNull = ''null''"
| "json_text (JBool b) = (if b then ''true'' else ''false'')"
| "json_text (JNum n) = n"
| "json_text (JStr s) = json_quote s"
| "json_text (JArr vs) = ''['' @ join_with '','' (map json_text vs) @ '']''"
| "json_text (JObj ms) =
     CHR 0x7B # join_with '','' (map (\<lambda>(k, v). json_quote k @ '':'' @ json_text v) ms) @ [CHR 0x7D]"

definition json_Marshal :: "Setting \<Rightarrow> string" where
  "json_Marshal s = json_text (marshalSetting s)"

section \<open>What validation accepts\<close>

lemma validateFrom_iff:
  "validateFrom lib seen i ss = None \<longleftrightarrow>
     list_all (\<lambda>s. Validate lib s = None) ss \<and> distinct (map (Identity lib) ss)
     \<and> fst ` set seen \<inter> Identity lib ` set ss = {}"
proof (induction lib seen i ss rule: validateFrom.induct)
  case (2 lib seen i s r)
  show ?case
  proof (cases "Validate lib s")
    case None
    then show ?thesis
    proof (cases "map_of seen (Identity lib s)")
      case None
      then have "Identity lib s \<notin> fst ` set seen" by (simp add: map_of_eq_None_iff)
      moreover have "validateFrom lib seen i (s # r) = validateFrom lib ((Identity lib s, i) # seen) (i + 1) r"
        using None \<open>Validate lib s = None\<close> by (simp add: Let_def)
      ultimately show ?thesis
        using "2.IH" [OF \<open>Validate lib s = None\<close> refl None] \<open>Validate lib s = None\<close> by auto
    next
      case (Some first)
      then have "Identity lib s \<in> fst ` set seen" by (metis map_of_eq_None_iff option.distinct(1))
      with Some None show ?thesis by (auto simp: Let_def)
    qed
  qed simp
qed simp

text \<open>
  A profile is accepted exactly when it has a setting, each of its settings is valid, and no
  two of them configure the same thing.
\<close>

theorem ValidateSettings_exact:
  "ValidateSettings lib ss = None \<longleftrightarrow>
     ss \<noteq> [] \<and> list_all (\<lambda>s. Validate lib s = None) ss \<and> distinct (map (Identity lib) ss)"
  by (simp add: ValidateSettings_def validateFrom_iff)

text \<open>
  \<^verbatim>\<open>validatePort\<close> says that it accepts a port, a range, or nothing. It also accepts a text
  with more than one dash, and a range that runs backwards.
\<close>

lemma port_range_backwards: "validatePort ''90-80'' = None \<and> validatePort ''1-2-3'' = None"
  by code_simp

end
