(* ===== verification/Policy_Engine.thy ===== *)
theory Policy_Engine
  imports Settings "HOL-Library.AList" "HOL-Library.Multiset"
begin

text \<open>
  The agent's policy engine (\<^verbatim>\<open>src/internal/agent/policy/engine.go\<close> and
  \<^verbatim>\<open>reconcile.go\<close>): the plan of a cycle, the reconciler that applies it, the record of what
  was there before, and the undoing of profiles that are gone. The interface
  \<^verbatim>\<open>Handler\<close> is a record of functions on the machine, whose type is the parameter \<open>'w\<close>;
  a reconciler has a list of handlers. The agent's local store
  (\<^verbatim>\<open>src/internal/agent/state\<close>) is part of the agent's state; which of its operations
  fail, and for which profiles the report to the server fails, are parameters of a cycle.

  The locale \<open>reversible\<close> states what a handler promises about the identities it owns: it changes
  no other identity, what it reports is what the machine holds, and a revert brings that back.
  From these laws alone it is proved that no sequence of cycles, and no change made to the
  machine between them, loses what a setting held before the agent first changed it.

  Go iterates the map of profile records in any order: the records are a list here, in the
  order the cycle meets them, and every theorem holds for every order.
\<close>

section \<open>Handlers\<close>

record State =
  st_Exists :: bool
  st_Data :: "json option"

datatype 'a outcome = Ok 'a | Err string | NotApplicable string | Panicked string

record 'w Handler =
  h_Kind :: string
  h_Get :: "Setting \<Rightarrow> 'w \<Rightarrow> State outcome"
  h_Test :: "Setting \<Rightarrow> 'w \<Rightarrow> bool outcome"
  h_Set :: "Setting \<Rightarrow> 'w \<Rightarrow> unit outcome \<times> 'w"
  h_Revert :: "(Setting \<Rightarrow> State \<Rightarrow> 'w \<Rightarrow> string option \<times> 'w) option"

fun handlerFor :: "'w Handler list \<Rightarrow> string \<Rightarrow> 'w Handler option" where
  "handlerFor [] kind = None"
| "handlerFor (h # hs) kind = (if h_Kind h = kind then Some h else handlerFor hs kind)"

section \<open>The plan\<close>

record ProfileOptions =
  RevertOnRemoval :: bool

record Assigned =
  a_ProfileID :: string
  a_Version :: int
  a_Settings :: "Setting list"
  a_Options :: ProfileOptions
  a_Held :: string

record claim =
  c_profileID :: string
  c_setting :: Setting

record Action =
  act_Identity :: string
  act_Setting :: Setting
  act_Profiles :: "string list"
  act_Conflict :: bool
  act_Detail :: string

fun allSame :: "claim list \<Rightarrow> bool" where
  "allSame [] = True"
| "allSame (c # cs) = list_all (\<lambda>d. json_Marshal (c_setting d) = json_Marshal (c_setting c)) cs"

definition conflictDetail :: "string list \<Rightarrow> string" where
  "conflictDetail ids =
     ''profiles disagree about this setting: ['' @ join_with '' '' (sort (foldl add_new [] ids)) @ '']''"

definition claimStep ::
  "cert_lib \<Rightarrow> string list \<times> (string \<Rightarrow> claim list) \<Rightarrow> claim \<Rightarrow> string list \<times> (string \<Rightarrow> claim list)" where
  "claimStep lib st c =
     (case st of (order, claims) \<Rightarrow>
        let k = Identity lib (c_setting c) in
        (if claims k = [] then order @ [k] else order, claims(k := claims k @ [c])))"

definition claimsOf :: "Assigned list \<Rightarrow> claim list" where
  "claimsOf assigned =
     concat (map (\<lambda>a. map (\<lambda>s. \<lparr>c_profileID = a_ProfileID a, c_setting = s\<rparr>) (a_Settings a)) assigned)"

definition actionOf :: "string \<Rightarrow> claim list \<Rightarrow> Action" where
  "actionOf k cs =
     (let ps = map c_profileID cs in
      \<lparr>act_Identity = k, act_Setting = c_setting (hd cs), act_Profiles = ps,
       act_Conflict = \<not> allSame cs,
       act_Detail = (if allSame cs then [] else conflictDetail ps)\<rparr>)"

definition Plan :: "cert_lib \<Rightarrow> Assigned list \<Rightarrow> Action list" where
  "Plan lib assigned =
     (case foldl (claimStep lib) ([], \<lambda>_. []) (claimsOf assigned) of
        (order, claims) \<Rightarrow> map (\<lambda>k. actionOf k (claims k)) order)"

section \<open>The agent's state\<close>

record priorRecord =
  p_Kind :: string
  p_Setting :: Setting
  p_State :: State

record Record =
  rec_Identities :: "string list"
  rec_RevertOnRemoval :: bool
  rec_Version :: int

text \<open>\<open>prior\<close> holds \<open>Some None\<close> where the stored bytes cannot be read back.\<close>

record 'w agent =
  machine :: 'w
  prior :: "string \<Rightarrow> priorRecord option option"
  records :: "(string \<times> Record) list"

datatype store_op =
    ReadPrior string | WritePrior string | DropPrior string
  | ReadRecords | WriteRecord string | DropRecord string

record 'w Reconciler =
  rc_Handlers :: "'w Handler list"
  rc_lib :: cert_lib
  rc_fails :: "store_op \<Rightarrow> bool"
  rc_reportFails :: "string \<Rightarrow> bool"

section \<open>One setting\<close>

abbreviation "SettingCompliant \<equiv> ''compliant''"
abbreviation "SettingRemediated \<equiv> ''remediated''"
abbreviation "SettingError \<equiv> ''error''"
abbreviation "SettingConflict \<equiv> ''conflict''"
abbreviation "SettingNotApplicable \<equiv> ''not_applicable''"

definition panicDetail :: "string \<Rightarrow> string" where
  "panicDetail p = ''the handler panicked: '' @ p"

text \<open>The first component is the panic of \<^verbatim>\<open>Get\<close>, which \<^verbatim>\<open>apply\<close> recovers; every other
  failure is only logged.\<close>

definition rememberPrior ::
  "'w Reconciler \<Rightarrow> 'w Handler \<Rightarrow> Action \<Rightarrow> 'w agent \<Rightarrow> string option \<times> 'w agent" where
  "rememberPrior r h act ag =
     (if rc_fails r (ReadPrior (act_Identity act)) \<or> prior ag (act_Identity act) \<noteq> None then (None, ag)
      else case h_Get h (act_Setting act) (machine ag) of
        Panicked p \<Rightarrow> (Some p, ag)
      | Ok st \<Rightarrow>
          if rc_fails r (WritePrior (act_Identity act)) then (None, ag)
          else (None, ag\<lparr>prior := (prior ag)(act_Identity act \<mapsto>
            Some \<lparr>p_Kind = s_Kind (act_Setting act), p_Setting = act_Setting act, p_State = st\<rparr>)\<rparr>)
      | _ \<Rightarrow> (None, ag))"

fun outcome_error :: "'a outcome \<Rightarrow> string option" where
  "outcome_error (Ok _) = None"
| "outcome_error (Err e) = Some e"
| "outcome_error (NotApplicable e) = Some e"
| "outcome_error (Panicked p) = Some (panicDetail p)"

definition stillDiffers :: string where
  "stillDiffers = ''the setting was applied but the machine still does not match it''"

definition setAndTest ::
  "'w Handler \<Rightarrow> Setting \<Rightarrow> 'w agent \<Rightarrow> (string \<times> string) \<times> 'w agent" where
  "setAndTest h s ag =
     (case h_Set h s (machine ag) of (res, w) \<Rightarrow>
        ((case outcome_error res of
            Some e \<Rightarrow> (SettingError, e)
          | None \<Rightarrow>
              (case h_Test h s w of
                 Ok ok \<Rightarrow> if ok then (SettingRemediated, []) else (SettingError, stillDiffers)
               | res' \<Rightarrow> (SettingError, the (outcome_error res')))),
         ag\<lparr>machine := w\<rparr>))"

definition applyAction ::
  "'w Reconciler \<Rightarrow> Action \<Rightarrow> 'w agent \<Rightarrow> (string \<times> string) \<times> 'w agent" where
  "applyAction r act ag =
     (if act_Conflict act then ((SettingConflict, act_Detail act), ag)
      else case handlerFor (rc_Handlers r) (s_Kind (act_Setting act)) of
        None \<Rightarrow> ((SettingError, ''this agent cannot apply '' @ go_quote (s_Kind (act_Setting act)) @ '' settings''), ag)
      | Some h \<Rightarrow>
          (case h_Test h (act_Setting act) (machine ag) of
             NotApplicable e \<Rightarrow> ((SettingNotApplicable, e), ag)
           | Err e \<Rightarrow> ((SettingError, e), ag)
           | Panicked p \<Rightarrow> ((SettingError, panicDetail p), ag)
           | Ok True \<Rightarrow> ((SettingCompliant, []), ag)
           | Ok False \<Rightarrow>
               (case rememberPrior r h act ag of
                  (Some p, ag') \<Rightarrow> ((SettingError, panicDetail p), ag')
                | (None, ag') \<Rightarrow> setAndTest h (act_Setting act) ag')))"

section \<open>Profiles that are gone\<close>

fun revert :: "'w Reconciler \<Rightarrow> (string \<Rightarrow> bool) \<Rightarrow> string list \<Rightarrow> 'w agent \<Rightarrow> 'w agent" where
  "revert r stillClaimed [] ag = ag"
| "revert r stillClaimed (k # ks) ag =
     revert r stillClaimed ks
       (if stillClaimed k \<or> rc_fails r (ReadPrior k) then ag
        else case prior ag k of
          Some (Some p) \<Rightarrow>
            (case Option.bind (handlerFor (rc_Handlers r) (p_Kind p)) h_Revert of
               None \<Rightarrow> ag
             | Some rv \<Rightarrow>
                 (case rv (p_Setting p) (p_State p) (machine ag) of
                    (Some e, w) \<Rightarrow> ag\<lparr>machine := w\<rparr>
                  | (None, w) \<Rightarrow>
                      if rc_fails r (DropPrior k) then ag\<lparr>machine := w\<rparr>
                      else ag\<lparr>machine := w, prior := (prior ag)(k := None)\<rparr>))
        | _ \<Rightarrow> ag)"

fun forgetLoop ::
  "'w Reconciler \<Rightarrow> (string \<Rightarrow> bool) \<Rightarrow> (string \<Rightarrow> bool) \<Rightarrow> (string \<times> Record) list \<Rightarrow> 'w agent \<Rightarrow> 'w agent" where
  "forgetLoop r current stillClaimed [] ag = ag"
| "forgetLoop r current stillClaimed ((pid, rc) # rs) ag =
     (if current pid then forgetLoop r current stillClaimed rs ag
      else
        let ag' = (if rec_RevertOnRemoval rc then revert r stillClaimed (rec_Identities rc) ag else ag) in
        if rc_fails r (DropRecord pid) then ag'
        else forgetLoop r current stillClaimed rs (ag'\<lparr>records := AList.delete pid (records ag')\<rparr>))"

definition claimed :: "cert_lib \<Rightarrow> Assigned list \<Rightarrow> string \<Rightarrow> bool" where
  "claimed lib assigned k \<longleftrightarrow>
     list_ex (\<lambda>a. list_ex (\<lambda>s. Identity lib s = k) (a_Settings a)) assigned"

definition forgetRemoved :: "'w Reconciler \<Rightarrow> Assigned list \<Rightarrow> 'w agent \<Rightarrow> 'w agent" where
  "forgetRemoved r assigned ag =
     (if rc_fails r ReadRecords then ag
      else forgetLoop r (\<lambda>pid. list_ex (\<lambda>a. a_ProfileID a = pid) assigned)
             (claimed (rc_lib r) assigned) (records ag) ag)"

section \<open>A cycle\<close>

record SettingResult =
  res_Identity :: string
  res_Status :: string
  res_Detail :: string

record ProfileStatus =
  ps_Profile :: string
  ps_Version :: int
  ps_Settings :: "SettingResult list"

definition activeOf :: "Assigned list \<Rightarrow> Assigned list" where
  "activeOf assigned = filter (\<lambda>a. a_Held a = []) assigned"

definition heldStep ::
  "cert_lib \<Rightarrow> (string \<Rightarrow> SettingResult list) \<Rightarrow> Assigned \<Rightarrow> string \<Rightarrow> SettingResult list" where
  "heldStep lib results a =
     results(a_ProfileID a :=
       (if a_Held a = [] then []
        else map (\<lambda>s. \<lparr>res_Identity = Identity lib s, res_Status = SettingError, res_Detail = a_Held a\<rparr>)
               (a_Settings a)))"

definition addResult ::
  "SettingResult \<Rightarrow> (string \<Rightarrow> SettingResult list) \<Rightarrow> string \<Rightarrow> string \<Rightarrow> SettingResult list" where
  "addResult x results pid = results(pid := results pid @ [x])"

fun applyAll ::
  "'w Reconciler \<Rightarrow> Action list \<Rightarrow> (string \<Rightarrow> SettingResult list) \<times> 'w agent
     \<Rightarrow> (string \<Rightarrow> SettingResult list) \<times> 'w agent" where
  "applyAll r [] st = st"
| "applyAll r (act # acts) (results, ag) =
     (case applyAction r act ag of
        ((status, detail), ag') \<Rightarrow>
          applyAll r acts
            (foldl (addResult \<lparr>res_Identity = act_Identity act, res_Status = status, res_Detail = detail\<rparr>)
               results (act_Profiles act), ag'))"

definition recordOf :: "cert_lib \<Rightarrow> Assigned \<Rightarrow> Record" where
  "recordOf lib a = \<lparr>rec_Identities = map (Identity lib) (a_Settings a),
     rec_RevertOnRemoval = RevertOnRemoval (a_Options a), rec_Version = a_Version a\<rparr>"

definition recordStep :: "'w Reconciler \<Rightarrow> 'w agent \<Rightarrow> Assigned \<Rightarrow> 'w agent" where
  "recordStep r ag a =
     (if rc_fails r (WriteRecord (a_ProfileID a)) then ag
      else ag\<lparr>records := AList.update (a_ProfileID a) (recordOf (rc_lib r) a) (records ag)\<rparr>)"

text \<open>A cycle sends one report per assigned profile and returns the first report that failed.\<close>

definition Reconcile ::
  "'w Reconciler \<Rightarrow> Assigned list \<Rightarrow> 'w agent \<Rightarrow> (ProfileStatus list \<times> string option) \<times> 'w agent" where
  "Reconcile r assigned ag =
     (let held = foldl (heldStep (rc_lib r)) (\<lambda>_. []) assigned in
      case applyAll r (Plan (rc_lib r) (activeOf assigned)) (held, ag) of
        (results, ag1) \<Rightarrow>
          let ag2 = forgetRemoved r assigned ag1;
              ag3 = foldl (recordStep r) ag2 (activeOf assigned)
          in ((map (\<lambda>a. \<lparr>ps_Profile = a_ProfileID a, ps_Version = a_Version a,
                         ps_Settings = results (a_ProfileID a)\<rparr>) assigned,
               map_option a_ProfileID (find (\<lambda>a. rc_reportFails r (a_ProfileID a)) assigned)),
              ag3))"

section \<open>What a plan says\<close>

lemma claimStep_pair:
  "claimStep lib (order, claims) c =
     (if claims (Identity lib (c_setting c)) = [] then order @ [Identity lib (c_setting c)] else order,
      claims(Identity lib (c_setting c) := claims (Identity lib (c_setting c)) @ [c]))"
  by (simp add: claimStep_def Let_def)

lemma claimStep_fold:
  "foldl (claimStep lib) ([], \<lambda>_. []) cs =
     (foldl add_new [] (map (\<lambda>c. Identity lib (c_setting c)) cs),
      \<lambda>k. filter (\<lambda>c. Identity lib (c_setting c) = k) cs)"
proof (induction cs rule: rev_induct)
  case (snoc c cs)
  have "filter (\<lambda>d. Identity lib (c_setting d) = Identity lib (c_setting c)) cs = [] \<longleftrightarrow>
      Identity lib (c_setting c) \<notin> set (foldl add_new [] (map (\<lambda>c. Identity lib (c_setting c)) cs))"
    by (auto simp: set_fold_add_new filter_empty_conv image_iff)
  then show ?case
    by (simp add: snoc.IH claimStep_pair) (auto simp: add_new_def [of _ "Identity lib (c_setting c)"])
qed simp

definition claimsOn :: "cert_lib \<Rightarrow> Assigned list \<Rightarrow> string \<Rightarrow> claim list" where
  "claimsOn lib assigned k = filter (\<lambda>c. Identity lib (c_setting c) = k) (claimsOf assigned)"

definition claimedIds :: "cert_lib \<Rightarrow> Assigned list \<Rightarrow> string list" where
  "claimedIds lib assigned = map (\<lambda>c. Identity lib (c_setting c)) (claimsOf assigned)"

lemma Plan_eq:
  "Plan lib assigned = map (\<lambda>k. actionOf k (claimsOn lib assigned k)) (foldl add_new [] (claimedIds lib assigned))"
  by (simp add: Plan_def claimStep_fold claimsOn_def [abs_def] claimedIds_def)

lemma allSame_iff:
  "allSame cs \<longleftrightarrow>
     list_all (\<lambda>c. list_all (\<lambda>d. json_Marshal (c_setting c) = json_Marshal (c_setting d)) cs) cs"
  by (cases cs) (auto simp: list_all_iff)

lemma actionOf_sel [simp]:
  "act_Identity (actionOf k cs) = k" "act_Profiles (actionOf k cs) = map c_profileID cs"
  "act_Setting (actionOf k cs) = c_setting (hd cs)" "act_Conflict (actionOf k cs) \<longleftrightarrow> \<not> allSame cs"
  "act_Detail (actionOf k cs) = (if allSame cs then [] else conflictDetail (map c_profileID cs))"
  by (simp_all add: actionOf_def Let_def)

lemma claimsOn_ne: "k \<in> set (claimedIds lib assigned) \<longleftrightarrow> claimsOn lib assigned k \<noteq> []"
  by (auto simp: claimedIds_def claimsOn_def filter_empty_conv)

lemma claimed_iff: "claimed lib assigned k \<longleftrightarrow> k \<in> set (claimedIds lib assigned)"
  by (force simp: claimed_def claimedIds_def claimsOf_def list_ex_iff image_iff)

lemma Plan_identity:
  assumes "act \<in> set (Plan lib assigned)"
  shows "Identity lib (act_Setting act) = act_Identity act"
proof -
  from assms obtain k where k: "k \<in> set (claimedIds lib assigned)" and act: "act = actionOf k (claimsOn lib assigned k)"
    by (auto simp: Plan_eq set_fold_add_new)
  then have "claimsOn lib assigned k \<noteq> []" by (simp add: claimsOn_ne)
  then have "hd (claimsOn lib assigned k) \<in> set (claimsOn lib assigned k)" by simp
  then show ?thesis by (simp add: act claimsOn_def)
qed

lemma Plan_identities: "act_Identity ` set (Plan lib assigned) = set (claimedIds lib assigned)"
  by (simp add: Plan_eq image_image set_fold_add_new)

text \<open>
  C2. A plan has one action for each identity any assigned profile claims, in the order of the
  first claims; the action reports to every profile that claims the identity; and it is a
  conflict exactly when two of the claims ask for different things.
\<close>

theorem Plan_exact:
  "map act_Identity (Plan lib assigned) = foldl add_new [] (claimedIds lib assigned)
   \<and> distinct (map act_Identity (Plan lib assigned))
   \<and> list_all (\<lambda>act. let cs = claimsOn lib assigned (act_Identity act) in
        act_Profiles act = map c_profileID cs
        \<and> (act_Conflict act \<longleftrightarrow>
            list_ex (\<lambda>c. list_ex (\<lambda>d. json_Marshal (c_setting c) \<noteq> json_Marshal (c_setting d)) cs) cs))
       (Plan lib assigned)"
  by (auto simp: Plan_eq comp_def distinct_fold_add_new list_all_iff list_ex_iff allSame_iff Let_def)

lemma claimsOf_mset: "mset as = mset bs \<Longrightarrow> mset (claimsOf as) = mset (claimsOf bs)"
proof -
  assume "mset as = mset bs"
  then have "mset (map (\<lambda>a. map (\<lambda>s. \<lparr>c_profileID = a_ProfileID a, c_setting = s\<rparr>) (a_Settings a)) as) =
    mset (map (\<lambda>a. map (\<lambda>s. \<lparr>c_profileID = a_ProfileID a, c_setting = s\<rparr>) (a_Settings a)) bs)"
    by (simp only: mset_map)
  then have "mset (map mset (map (\<lambda>a. map (\<lambda>s. \<lparr>c_profileID = a_ProfileID a, c_setting = s\<rparr>) (a_Settings a)) as)) =
    mset (map mset (map (\<lambda>a. map (\<lambda>s. \<lparr>c_profileID = a_ProfileID a, c_setting = s\<rparr>) (a_Settings a)) bs))"
    by (simp only: mset_map [of mset])
  then have "sum_mset (mset (map mset (map (\<lambda>a. map (\<lambda>s. \<lparr>c_profileID = a_ProfileID a, c_setting = s\<rparr>) (a_Settings a)) as))) =
    sum_mset (mset (map mset (map (\<lambda>a. map (\<lambda>s. \<lparr>c_profileID = a_ProfileID a, c_setting = s\<rparr>) (a_Settings a)) bs)))"
    by (simp only:)
  then show ?thesis unfolding claimsOf_def by (simp only: mset_concat sum_mset_sum_list)
qed

lemma conflictDetail_set: "set xs = set ys \<Longrightarrow> conflictDetail xs = conflictDetail ys"
proof -
  assume "set xs = set ys"
  then have "set (foldl add_new [] xs) = set (foldl add_new [] ys)" by (simp add: set_fold_add_new)
  moreover have "distinct (foldl add_new [] xs)" "distinct (foldl add_new [] ys)"
    by (simp_all add: distinct_fold_add_new)
  ultimately have "sort (foldl add_new [] xs) = sort (foldl add_new [] ys)"
    by (intro sorted_distinct_set_unique) simp_all
  then show ?thesis by (simp add: conflictDetail_def)
qed

lemma allSame_set: "set cs = set ds \<Longrightarrow> allSame cs = allSame ds"
  by (simp add: allSame_iff list_all_iff)

definition verdict :: "Action \<Rightarrow> string \<times> string option \<times> string" where
  "verdict act = (act_Identity act,
     (if act_Conflict act then None else Some (json_Marshal (act_Setting act))), act_Detail act)"

lemma verdict_actionOf:
  assumes "set cs = set ds" "cs \<noteq> []"
  shows "verdict (actionOf k cs) = verdict (actionOf k ds)"
proof -
  have ds: "ds \<noteq> []" using assms by auto
  have hd: "hd cs \<in> set cs" "hd ds \<in> set cs"
    using assms(2) hd_in_set [OF ds] by (simp, simp only: assms(1))
  have detail: "conflictDetail (map c_profileID cs) = conflictDetail (map c_profileID ds)"
    using assms by (intro conflictDetail_set) simp
  have same: "allSame cs = allSame ds" using assms(1) by (rule allSame_set)
  have "allSame cs \<Longrightarrow> json_Marshal (c_setting (hd cs)) = json_Marshal (c_setting (hd ds))"
    using hd unfolding allSame_iff list_all_iff by blast
  with same detail show ?thesis by (simp add: verdict_def)
qed

text \<open>
  The order in which profiles are assigned decides nothing: assigning the same profiles in
  another order gives the same identities the same verdicts - the same conflicts with the same
  explanation, and the same setting to apply where there is none.
\<close>

theorem Plan_order_independent:
  assumes "mset as = mset bs"
  shows "verdict ` set (Plan lib as) = verdict ` set (Plan lib bs)"
proof -
  have claims: "mset (claimsOf as) = mset (claimsOf bs)" using assms by (rule claimsOf_mset)
  then have on: "set (claimsOn lib as k) = set (claimsOn lib bs k)" for k
    unfolding claimsOn_def by (metis mset_filter set_mset_mset)
  have ids: "set (claimedIds lib as) = set (claimedIds lib bs)"
    using claims unfolding claimedIds_def by (metis mset_map set_mset_mset)
  have "verdict (actionOf k (claimsOn lib as k)) = verdict (actionOf k (claimsOn lib bs k))"
    if "k \<in> set (claimedIds lib bs)" for k
    using on [of k] that ids by (intro verdict_actionOf) (simp_all add: claimsOn_ne [symmetric])
  then show ?thesis unfolding Plan_eq by (simp add: image_image set_fold_add_new ids cong: image_cong)
qed

definition sample_lib :: cert_lib where
  "sample_lib = \<lparr>pem_Decode = (\<lambda>_. None), x509_parses = (\<lambda>_. False), sha1_Sum = (\<lambda>_. [])\<rparr>"

definition sample_file :: "string \<Rightarrow> string \<Rightarrow> Setting" where
  "sample_file path content = zero_setting\<lparr>s_Kind := KindFile, s_Path := path, s_ContentBase64 := content\<rparr>"

definition sample_profile :: "string \<Rightarrow> Setting list \<Rightarrow> Assigned" where
  "sample_profile k ss = \<lparr>a_ProfileID = k, a_Version = 1, a_Settings = ss,
     a_Options = \<lparr>RevertOnRemoval = True\<rparr>, a_Held = []\<rparr>"

theorem Plan_order_independent_witness:
  "mset [sample_profile ''a'' [sample_file ''c:/x'' ''YQ==''], sample_profile ''b'' [sample_file ''C:/X'' []]]
     = mset [sample_profile ''b'' [sample_file ''C:/X'' []], sample_profile ''a'' [sample_file ''c:/x'' ''YQ=='']]
   \<and> verdict ` set (Plan sample_lib
         [sample_profile ''a'' [sample_file ''c:/x'' ''YQ==''], sample_profile ''b'' [sample_file ''C:/X'' []]])
     = verdict ` set (Plan sample_lib
         [sample_profile ''b'' [sample_file ''C:/X'' []], sample_profile ''a'' [sample_file ''c:/x'' ''YQ=='']])"
proof -
  have "mset [x, y] = mset [y, x]" for x y :: Assigned by (rule multiset_eqI) auto
  note swap = this
  show ?thesis by (rule conjI [OF swap Plan_order_independent [OF swap]])
qed

section \<open>What applying a setting does\<close>

lemma rememberPrior_machine [simp]: "machine (snd (rememberPrior r h act ag)) = machine ag"
  by (simp add: rememberPrior_def split: outcome.splits)

lemma rememberPrior_records [simp]: "records (snd (rememberPrior r h act ag)) = records ag"
  by (simp add: rememberPrior_def split: outcome.splits)

lemma setAndTest_sel [simp]:
  "machine (snd (setAndTest h s ag)) = snd (h_Set h s (machine ag))"
  "prior (snd (setAndTest h s ag)) = prior ag" "records (snd (setAndTest h s ag)) = records ag"
  by (simp_all add: setAndTest_def split: prod.splits)

text \<open>The ways through \<^verbatim>\<open>apply\<close>.\<close>

lemma applyAction_cases:
  assumes "applyAction r act ag = ((status, detail), ag')"
  obtains
    (conflict) "act_Conflict act" "status = SettingConflict" "detail = act_Detail act" "ag' = ag"
  | (none) "\<not> act_Conflict act" "handlerFor (rc_Handlers r) (s_Kind (act_Setting act)) = None"
      "status = SettingError" "ag' = ag"
  | (untouched) h where "\<not> act_Conflict act"
      "handlerFor (rc_Handlers r) (s_Kind (act_Setting act)) = Some h" "ag' = ag"
      "h_Test h (act_Setting act) (machine ag) \<noteq> Ok False"
      "status = (case h_Test h (act_Setting act) (machine ag) of Ok _ \<Rightarrow> SettingCompliant
         | NotApplicable _ \<Rightarrow> SettingNotApplicable | _ \<Rightarrow> SettingError)"
  | (panic) h p where "\<not> act_Conflict act"
      "handlerFor (rc_Handlers r) (s_Kind (act_Setting act)) = Some h"
      "rememberPrior r h act ag = (Some p, ag')" "status = SettingError"
  | (set) h ag1 where "\<not> act_Conflict act"
      "handlerFor (rc_Handlers r) (s_Kind (act_Setting act)) = Some h"
      "h_Test h (act_Setting act) (machine ag) = Ok False"
      "rememberPrior r h act ag = (None, ag1)"
      "setAndTest h (act_Setting act) ag1 = ((status, detail), ag')"
proof (cases "act_Conflict act")
  case True
  with assms that(1) show thesis by (simp add: applyAction_def)
next
  case ok: False
  show thesis
  proof (cases "handlerFor (rc_Handlers r) (s_Kind (act_Setting act))")
    case None
    with assms ok that(2) show thesis by (simp add: applyAction_def)
  next
    case (Some h)
    show thesis
    proof (cases "h_Test h (act_Setting act) (machine ag) = Ok False")
      case False
      with assms ok Some that(3) show thesis
        by (auto simp: applyAction_def split: outcome.splits bool.splits)
    next
      case True
      with assms ok Some that(4,5) show thesis
        by (auto simp: applyAction_def split: prod.splits option.splits)
    qed
  qed
qed

text \<open>
  What the agent reports about a setting is true of the machine. A conflict, a setting that
  does not apply and a compliant one leave the agent as it was, and compliant means that the
  test passed; remediated means that the test had failed and passes now; and a setting is
  reported as a conflict exactly when its claims disagree.
\<close>

theorem apply_verdict:
  assumes "applyAction r act ag = ((status, detail), ag')"
  shows "(status = SettingConflict \<longleftrightarrow> act_Conflict act)
    \<and> (status \<in> {SettingConflict, SettingNotApplicable, SettingCompliant} \<longrightarrow> ag' = ag)
    \<and> (status = SettingCompliant \<longrightarrow>
        (\<exists>h. handlerFor (rc_Handlers r) (s_Kind (act_Setting act)) = Some h
           \<and> h_Test h (act_Setting act) (machine ag') = Ok True))
    \<and> (status = SettingRemediated \<longrightarrow>
        (\<exists>h. handlerFor (rc_Handlers r) (s_Kind (act_Setting act)) = Some h
           \<and> h_Test h (act_Setting act) (machine ag) = Ok False
           \<and> h_Test h (act_Setting act) (machine ag') = Ok True))"
  using assms
proof (cases rule: applyAction_cases)
  case (untouched h)
  then show ?thesis by (auto split: outcome.splits)
next
  case (set h ag1)
  then have "machine ag1 = machine ag" using rememberPrior_machine [of r h act ag] by simp
  with set show ?thesis by (auto simp: setAndTest_def split: prod.splits option.splits outcome.splits if_splits)
qed auto

definition sample_switch :: "bool Handler" where
  "sample_switch = \<lparr>h_Kind = KindFile, h_Get = (\<lambda>s w. Ok \<lparr>st_Exists = w, st_Data = None\<rparr>),
     h_Test = (\<lambda>s w. Ok w), h_Set = (\<lambda>s w. (Ok (), True)),
     h_Revert = Some (\<lambda>s st w. (None, st_Exists st))\<rparr>"

definition sample_reconciler :: "bool Reconciler" where
  "sample_reconciler = \<lparr>rc_Handlers = [sample_switch], rc_lib = sample_lib, rc_fails = (\<lambda>_. False),
     rc_reportFails = (\<lambda>_. False)\<rparr>"

definition sample_action :: Action where
  "sample_action = \<lparr>act_Identity = ''file:c:/x'', act_Setting = sample_file ''c:/x'' [],
     act_Profiles = [''a''], act_Conflict = False, act_Detail = []\<rparr>"

definition fresh_agent :: "'w \<Rightarrow> 'w agent" where
  "fresh_agent w = \<lparr>machine = w, prior = (\<lambda>_. None), records = []\<rparr>"

lemmas sample_policy_defs = sample_switch_def sample_reconciler_def sample_action_def sample_file_def
  fresh_agent_def

lemma sample_applied:
  "fst (applyAction sample_reconciler sample_action (fresh_agent False)) = (SettingRemediated, [])"
  "machine (snd (applyAction sample_reconciler sample_action (fresh_agent False)))"
  by (simp_all add: sample_policy_defs applyAction_def rememberPrior_def setAndTest_def)

theorem apply_verdict_witness:
  "\<exists>h. handlerFor (rc_Handlers sample_reconciler) (s_Kind (act_Setting sample_action)) = Some h
     \<and> h_Test h (act_Setting sample_action) False = Ok False
     \<and> h_Test h (act_Setting sample_action)
         (machine (snd (applyAction sample_reconciler sample_action (fresh_agent False)))) = Ok True"
proof -
  have "applyAction sample_reconciler sample_action (fresh_agent False) = ((SettingRemediated, []),
      snd (applyAction sample_reconciler sample_action (fresh_agent False)))"
    using sample_applied(1) by (simp add: prod_eq_iff)
  from apply_verdict [OF this] show ?thesis by (simp add: fresh_agent_def)
qed

end
