(* ===== verification/Policy_Revert.thy ===== *)
theory Policy_Revert
  imports Policy_Engine
begin

text \<open>
  What the reconciler promises over time. The locale \<open>reversible\<close> is the contract between the
  reconciler and the handlers of \<^verbatim>\<open>src/internal/agent/policy\<close>: for the identities \<open>mine\<close> of
  a handler, \<open>view\<close> is what the machine holds, and a recorded state \<open>holds\<close> it. Setting or reverting
  one identity leaves the others alone; what \<^verbatim>\<open>Get\<close> reports is what the machine holds,
  unless that cannot be recorded; where \<^verbatim>\<open>Get\<close> fails \<^verbatim>\<open>Set\<close> changes nothing; and
  \<^verbatim>\<open>Revert\<close> brings a recorded state back.

  From these laws: a cycle changes only what an active profile claims or a removed profile
  asked to have undone, and through any sequence of cycles the agent either has the original
  of a setting on record or the machine still holds it.
\<close>

section \<open>Histories\<close>

text \<open>Every stored state belongs to the setting it is stored under.\<close>

definition keyed :: "cert_lib \<Rightarrow> 'w agent \<Rightarrow> bool" where
  "keyed lib ag \<longleftrightarrow>
     (\<forall>k p. prior ag k = Some (Some p) \<longrightarrow>
        Identity lib (p_Setting p) = k \<and> p_Kind p = s_Kind (p_Setting p))"

text \<open>The histories of an agent, as far as one identity \<open>k\<close> is concerned: it starts with nothing recorded; cycles
  run, with any profiles assigned; and between them the machine changes by itself. The last argument is
  the original of every identity: what the machine held when the agent last had nothing recorded
  for it. Reading and writing the prior state of \<open>k\<close> does not fail; everything else may.\<close>

inductive policy_run ::
  "'w Handler list \<Rightarrow> cert_lib \<Rightarrow> (string \<Rightarrow> 'w \<Rightarrow> 'v) \<Rightarrow> string \<Rightarrow> 'w agent \<Rightarrow> (string \<Rightarrow> 'v) \<Rightarrow> bool"
  for hs lib view k where
  start: "policy_run hs lib view k (fresh_agent w) (\<lambda>j. view j w)"
| cycle: "\<lbrakk> policy_run hs lib view k ag orig; rc_Handlers r = hs; rc_lib r = lib;
    \<not> rc_fails r (ReadPrior k); \<not> rc_fails r (WritePrior k) \<rbrakk> \<Longrightarrow>
    policy_run hs lib view k (snd (Reconcile r assigned ag)) orig"
| drift: "policy_run hs lib view k ag orig \<Longrightarrow>
    policy_run hs lib view k (ag\<lparr>machine := w\<rparr>)
      (\<lambda>j. if prior ag j = None then view j w else orig j)"

section \<open>The contract of a handler\<close>

lemma recordStep_fold [simp]:
  "machine (foldl (recordStep r) ag as) = machine ag" "prior (foldl (recordStep r) ag as) = prior ag"
  by (induction "as" arbitrary: ag) (simp_all add: recordStep_def)

lemma keyed_cong: "prior ag = prior ag' \<Longrightarrow> keyed lib ag = keyed lib ag'"
  by (simp add: keyed_def)

lemma rememberPrior_keyed:
  assumes "keyed lib ag" "Identity lib (act_Setting act) = act_Identity act"
  shows "keyed lib (snd (rememberPrior r h act ag))"
  using assms by (auto simp: rememberPrior_def keyed_def split: outcome.splits if_splits)

lemma applyAction_keyed:
  assumes "keyed lib ag" "Identity lib (act_Setting act) = act_Identity act"
  shows "keyed lib (snd (applyAction r act ag))"
proof -
  obtain status detail ag' where eq: "applyAction r act ag = ((status, detail), ag')"
    by (metis prod.exhaust)
  from this show ?thesis
  proof (cases rule: applyAction_cases)
    case (panic h p)
    then show ?thesis using eq rememberPrior_keyed [OF assms, of r h] by simp
  next
    case (set h ag1)
    have "keyed lib ag1" using rememberPrior_keyed [OF assms, of r h] set by simp
    moreover have "prior ag' = prior ag1"
      using setAndTest_sel(2) [of h "act_Setting act" ag1] set by simp
    ultimately show ?thesis using eq keyed_cong [of ag' ag1 lib] by simp
  qed (use eq assms in simp_all)
qed

lemma keyed_drop: "keyed lib ag \<Longrightarrow> keyed lib (ag\<lparr>machine := w, prior := (prior ag)(k := None)\<rparr>)"
  by (auto simp: keyed_def)

lemma keyed_machine [simp]: "keyed lib (ag\<lparr>machine := w\<rparr>) = keyed lib ag"
  by (simp add: keyed_def)

lemma keyed_records [simp]: "keyed lib (ag\<lparr>records := x\<rparr>) = keyed lib ag"
  by (simp add: keyed_def)

text \<open>The step of \<^verbatim>\<open>revert\<close> for one identity: nothing, a revert that failed or was not
  forgotten, or a revert that was.\<close>

lemma revert_step_cases:
  obtains
    (skip) "revert r sc [k] ag = ag"
  | (kept) p h rv e w where "\<not> sc k" "prior ag k = Some (Some p)"
      "handlerFor (rc_Handlers r) (p_Kind p) = Some h" "h_Revert h = Some rv"
      "rv (p_Setting p) (p_State p) (machine ag) = (e, w)" "revert r sc [k] ag = ag\<lparr>machine := w\<rparr>"
  | (undone) p h rv w where "\<not> sc k" "prior ag k = Some (Some p)"
      "handlerFor (rc_Handlers r) (p_Kind p) = Some h" "h_Revert h = Some rv"
      "rv (p_Setting p) (p_State p) (machine ag) = (None, w)"
      "revert r sc [k] ag = ag\<lparr>machine := w, prior := (prior ag)(k := None)\<rparr>"
proof (cases "sc k \<or> rc_fails r (ReadPrior k)")
  case True
  then show thesis using skip by simp
next
  case False
  show thesis
  proof (cases "prior ag k")
    case None
    then show thesis using skip by simp
  next
    case (Some q)
    show thesis
    proof (cases q)
      case None
      then show thesis using skip Some by simp
    next
      case p: (Some p)
      show thesis
      proof (cases "Option.bind (handlerFor (rc_Handlers r) (p_Kind p)) h_Revert")
        case None
        then show thesis using skip Some p by simp
      next
        case rv: (Some rv)
        then obtain h where h: "handlerFor (rc_Handlers r) (p_Kind p) = Some h" "h_Revert h = Some rv"
          by (auto simp: bind_eq_Some_conv)
        obtain e w where ew: "rv (p_Setting p) (p_State p) (machine ag) = (e, w)" by (metis prod.exhaust)
        show thesis
        proof (cases "e = None \<and> \<not> rc_fails r (DropPrior k)")
          case True
          then show thesis using False Some p rv h ew by (intro undone [of p h rv w]) simp_all
        next
          case keep: False
          then show thesis using False Some p rv h ew by (intro kept [of p h rv e w]) (auto split: option.splits)
        qed
      qed
    qed
  qed
qed

lemma revert_Cons: "revert r sc (k # ks) ag = revert r sc ks (revert r sc [k] ag)"
  by simp

lemma revert_step_keyed: "keyed lib ag \<Longrightarrow> keyed lib (revert r sc [k] ag)"
  by (cases rule: revert_step_cases [of r sc k ag]) (auto simp: keyed_drop simp del: revert.simps)

declare revert.simps(2) [simp del]

lemma revert_keyed: "keyed lib ag \<Longrightarrow> keyed lib (revert r sc ks ag)"
proof (induction ks arbitrary: ag)
  case (Cons k ks)
  show ?case
    by (subst revert_Cons) (rule Cons.IH [OF revert_step_keyed [OF Cons.prems]])
qed simp

lemma forgetLoop_keyed: "keyed lib ag \<Longrightarrow> keyed lib (forgetLoop r cur sc rs ag)"
  by (induction r cur sc rs ag rule: forgetLoop.induct) (auto simp: Let_def revert_keyed)

lemma forgetRemoved_keyed: "keyed lib ag \<Longrightarrow> keyed lib (forgetRemoved r assigned ag)"
  by (simp add: forgetRemoved_def forgetLoop_keyed)

lemma applyAll_snd:
  "snd (applyAll r acts (results, ag)) = foldl (\<lambda>g act. snd (applyAction r act g)) ag acts"
  by (induction acts arbitrary: results ag) (simp_all split: prod.splits)

lemma Reconcile_agent:
  "snd (Reconcile r assigned ag) =
     foldl (recordStep r)
       (forgetRemoved r assigned
         (foldl (\<lambda>g act. snd (applyAction r act g)) ag (Plan (rc_lib r) (activeOf assigned))))
       (activeOf assigned)"
proof -
  have "snd (Reconcile r assigned ag) =
     foldl (recordStep r) (forgetRemoved r assigned
       (snd (applyAll r (Plan (rc_lib r) (activeOf assigned))
          (foldl (heldStep (rc_lib r)) (\<lambda>_. []) assigned, ag)))) (activeOf assigned)"
    by (simp add: Reconcile_def Let_def split: prod.split)
  then show ?thesis by (simp add: applyAll_snd)
qed

lemma applyFold_keyed:
  "keyed lib ag \<Longrightarrow> \<forall>act \<in> set acts. Identity lib (act_Setting act) = act_Identity act \<Longrightarrow>
     keyed lib (foldl (\<lambda>g act. snd (applyAction r act g)) ag acts)"
  by (induction acts arbitrary: ag) (simp_all add: applyAction_keyed)

lemma records_unchanged:
  "records (foldl (\<lambda>g act. snd (applyAction r act g)) ag acts) = records ag"
proof (induction acts arbitrary: ag)
  case (Cons act acts)
  obtain status detail ag' where eq: "applyAction r act ag = ((status, detail), ag')"
    by (metis prod.exhaust)
  from eq have "records ag' = records ag"
  proof (cases rule: applyAction_cases)
    case (panic h p)
    then show ?thesis using rememberPrior_records [of r h act ag] by simp
  next
    case (set h ag1)
    then show ?thesis
      using rememberPrior_records [of r h act ag] setAndTest_sel(3) [of h "act_Setting act" ag1] by simp
  qed simp_all
  with Cons eq show ?case by simp
qed simp

locale reversible =
  fixes hs :: "'w Handler list"
    and lib :: cert_lib
    and mine :: "string \<Rightarrow> bool"
    and view :: "string \<Rightarrow> 'w \<Rightarrow> 'v"
    and holds :: "State \<Rightarrow> 'v \<Rightarrow> bool"
    and recordable :: "'v \<Rightarrow> bool"
  assumes set_others: "handlerFor hs (s_Kind s) = Some h \<Longrightarrow> mine k \<Longrightarrow> k \<noteq> Identity lib s \<Longrightarrow>
      view k (snd (h_Set h s w)) = view k w"
    and revert_others: "handlerFor hs (s_Kind s) = Some h \<Longrightarrow> h_Revert h = Some rv \<Longrightarrow> mine k \<Longrightarrow>
      k \<noteq> Identity lib s \<Longrightarrow> view k (snd (rv s st w)) = view k w"
    and get_holds: "handlerFor hs (s_Kind s) = Some h \<Longrightarrow> mine (Identity lib s) \<Longrightarrow>
      h_Get h s w = Ok st \<Longrightarrow> recordable (view (Identity lib s) w) \<Longrightarrow>
      holds st (view (Identity lib s) w)"
    and unrecorded: "handlerFor hs (s_Kind s) = Some h \<Longrightarrow> mine (Identity lib s) \<Longrightarrow>
      h_Test h s w = Ok False \<Longrightarrow> \<forall>st. h_Get h s w \<noteq> Ok st \<Longrightarrow>
      view (Identity lib s) (snd (h_Set h s w)) = view (Identity lib s) w"
    and revert_restores: "handlerFor hs (s_Kind s) = Some h \<Longrightarrow> h_Revert h = Some rv \<Longrightarrow>
      mine (Identity lib s) \<Longrightarrow> holds st v \<Longrightarrow> rv s st w = (None, w') \<Longrightarrow>
      view (Identity lib s) w' = v"
begin

definition kept :: "(string \<Rightarrow> 'v) \<Rightarrow> 'w agent \<Rightarrow> string \<Rightarrow> bool" where
  "kept orig ag k \<longleftrightarrow>
     (prior ag k = None \<longrightarrow> view k (machine ag) = orig k)
     \<and> (\<forall>q. prior ag k = Some q \<longrightarrow> (\<exists>p. q = Some p \<and> holds (p_State p) (orig k)))"

definition traced :: "string \<Rightarrow> (string \<Rightarrow> 'v) \<Rightarrow> 'w agent \<Rightarrow> bool" where
  "traced k orig ag \<longleftrightarrow> keyed lib ag \<and> kept orig ag k"

lemma tracedD: "traced k orig ag \<Longrightarrow> kept orig ag k"
  by (simp add: traced_def)

lemma kept_cong:
  "prior ag k = prior ag' k \<Longrightarrow> view k (machine ag) = view k (machine ag') \<Longrightarrow> kept orig ag k = kept orig ag' k"
  by (simp add: kept_def)

lemma traced_keyed: "traced k orig ag \<Longrightarrow> keyed lib ag"
  by (simp add: traced_def)

lemma apply_frame:
  assumes "rc_Handlers r = hs" "Identity lib (act_Setting act) = act_Identity act" "mine k" "k \<noteq> act_Identity act"
  shows "view k (machine (snd (applyAction r act ag))) = view k (machine ag)"
    and "prior (snd (applyAction r act ag)) k = prior ag k"
proof -
  obtain status detail ag' where eq: "applyAction r act ag = ((status, detail), ag')"
    by (metis prod.exhaust)
  have pr: "prior (snd (rememberPrior r h act ag)) k = prior ag k" for h
    using assms(4) by (simp add: rememberPrior_def split: outcome.splits)
  have "view k (machine ag') = view k (machine ag) \<and> prior ag' k = prior ag k"
    using eq
  proof (cases rule: applyAction_cases)
    case (panic h p)
    then show ?thesis using pr [of h] rememberPrior_machine [of r h act ag] by simp
  next
    case (set h ag1)
    have "machine ag1 = machine ag" "prior ag1 k = prior ag k"
      using set pr [of h] rememberPrior_machine [of r h act ag] by simp_all
    moreover have "view k (snd (h_Set h (act_Setting act) (machine ag))) = view k (machine ag)"
      using set assms by (intro set_others) simp_all
    ultimately show ?thesis
      using set setAndTest_sel [of h "act_Setting act" ag1] by simp
  qed simp_all
  with eq show "view k (machine (snd (applyAction r act ag))) = view k (machine ag)"
    "prior (snd (applyAction r act ag)) k = prior ag k" by simp_all
qed

lemma rememberPrior_kept:
  assumes "handlerFor hs (s_Kind (act_Setting act)) = Some h"
    and io: "\<not> rc_fails r (ReadPrior (act_Identity act))" "\<not> rc_fails r (WritePrior (act_Identity act))"
    and k: "Identity lib (act_Setting act) = act_Identity act" "mine (act_Identity act)"
    and old: "kept orig ag (act_Identity act)" "recordable (orig (act_Identity act))"
  shows "kept orig (snd (rememberPrior r h act ag)) (act_Identity act)"
    and "prior (snd (rememberPrior r h act ag)) (act_Identity act) = None \<Longrightarrow>
      \<forall>st. h_Get h (act_Setting act) (machine ag) \<noteq> Ok st"
proof -
  have "holds st (orig (act_Identity act))"
    if "prior ag (act_Identity act) = None" "h_Get h (act_Setting act) (machine ag) = Ok st" for st
    using get_holds [of "act_Setting act" h "machine ag" st] assms that by (simp add: kept_def)
  then show "kept orig (snd (rememberPrior r h act ag)) (act_Identity act)"
    using old(1) io by (auto simp: rememberPrior_def kept_def split: outcome.splits)
  show "\<forall>st. h_Get h (act_Setting act) (machine ag) \<noteq> Ok st"
    if "prior (snd (rememberPrior r h act ag)) (act_Identity act) = None"
    using that io by (auto simp: rememberPrior_def split: outcome.splits if_splits)
qed

lemma apply_own:
  assumes r: "rc_Handlers r = hs"
    and io: "\<not> rc_fails r (ReadPrior (act_Identity act))" "\<not> rc_fails r (WritePrior (act_Identity act))"
    and k: "Identity lib (act_Setting act) = act_Identity act" "mine (act_Identity act)"
    and old: "kept orig ag (act_Identity act)" "recordable (orig (act_Identity act))"
  shows "kept orig (snd (applyAction r act ag)) (act_Identity act)"
proof -
  obtain status detail ag' where eq: "applyAction r act ag = ((status, detail), ag')"
    by (metis prod.exhaust)
  from eq show ?thesis
  proof (cases rule: applyAction_cases)
    case (panic h p)
    then show ?thesis using rememberPrior_kept(1) [OF _ io k old, of h] r eq by simp
  next
    case (set h ag1)
    then have h: "handlerFor hs (s_Kind (act_Setting act)) = Some h"
      and ag1: "snd (rememberPrior r h act ag) = ag1" using r by simp_all
    have m: "machine ag1 = machine ag" using ag1 rememberPrior_machine [of r h act ag] by simp
    have ag': "prior ag' = prior ag1" "machine ag' = snd (h_Set h (act_Setting act) (machine ag))"
      using set setAndTest_sel [of h "act_Setting act" ag1] m by simp_all
    have kept1: "kept orig ag1 (act_Identity act)" using rememberPrior_kept(1) [OF h io k old] ag1 by simp
    have "view (act_Identity act) (machine ag') = view (act_Identity act) (machine ag1)"
      if "prior ag1 (act_Identity act) = None"
      using unrecorded [OF h _ set(3) rememberPrior_kept(2) [OF h io k old]] that ag1 k m ag' by simp
    then show ?thesis using kept1 ag' eq by (simp add: kept_def)
  qed (use eq old in simp_all)
qed

lemma apply_traced:
  assumes "rc_Handlers r = hs" "\<not> rc_fails r (ReadPrior k)" "\<not> rc_fails r (WritePrior k)" "mine k"
    "recordable (orig k)" "Identity lib (act_Setting act) = act_Identity act" "traced k orig ag"
  shows "traced k orig (snd (applyAction r act ag))"
proof -
  have "kept orig (snd (applyAction r act ag)) k"
  proof (cases "k = act_Identity act")
    case True
    then show ?thesis using apply_own [of r act orig ag] assms tracedD [OF assms(7)] by simp
  next
    case False
    then show ?thesis
      using apply_frame [OF assms(1,6,4) False, of ag] tracedD [OF assms(7)] kept_cong by metis
  qed
  moreover have "keyed lib (snd (applyAction r act ag))"
    using assms(6) traced_keyed [OF assms(7)] by (intro applyAction_keyed)
  ultimately show ?thesis by (simp add: traced_def)
qed

lemma applyFold_traced:
  assumes "rc_Handlers r = hs" "\<not> rc_fails r (ReadPrior k)" "\<not> rc_fails r (WritePrior k)" "mine k" "recordable (orig k)"
  shows "\<forall>act \<in> set acts. Identity lib (act_Setting act) = act_Identity act \<Longrightarrow> traced k orig ag \<Longrightarrow>
    traced k orig (foldl (\<lambda>g act. snd (applyAction r act g)) ag acts)"
  by (induction acts arbitrary: ag) (simp_all add: apply_traced [where orig = orig, OF assms])

lemma applyFold_frame:
  assumes "rc_Handlers r = hs" "mine k"
  shows "\<forall>act \<in> set acts. Identity lib (act_Setting act) = act_Identity act \<and> k \<noteq> act_Identity act \<Longrightarrow>
    view k (machine (foldl (\<lambda>g act. snd (applyAction r act g)) ag acts)) = view k (machine ag)"
  using apply_frame(1) [OF assms(1) _ assms(2)] by (induction acts arbitrary: ag) simp_all

text \<open>Undoing.\<close>

lemma revert_step_frame:
  assumes "rc_Handlers r = hs" "keyed lib ag" "mine k" "k \<noteq> j \<or> sc k"
  shows "view k (machine (revert r sc [j] ag)) = view k (machine ag)"
    and "prior (revert r sc [j] ag) k = prior ag k"
proof -
  have own: "Identity lib (p_Setting p) = j" "p_Kind p = s_Kind (p_Setting p)" if "prior ag j = Some (Some p)" for p
    using that assms(2) by (auto simp: keyed_def)
  have "view k (machine (revert r sc [j] ag)) = view k (machine ag) \<and> prior (revert r sc [j] ag) k = prior ag k"
  proof (cases rule: revert_step_cases [of r sc j ag])
    case skip
    then show ?thesis by simp
  next
    case (kept p h rv e w)
    then have "view k (snd (rv (p_Setting p) (p_State p) (machine ag))) = view k (machine ag)"
      using assms own [of p] by (intro revert_others) auto
    with kept show ?thesis by simp
  next
    case (undone p h rv w)
    then have "view k (snd (rv (p_Setting p) (p_State p) (machine ag))) = view k (machine ag)"
      using assms own [of p] by (intro revert_others) auto
    with undone assms(4) show ?thesis by auto
  qed
  then show "view k (machine (revert r sc [j] ag)) = view k (machine ag)"
    "prior (revert r sc [j] ag) k = prior ag k" by simp_all
qed

lemma revert_step_traced:
  assumes r: "rc_Handlers r = hs" and k: "mine k" and tr: "traced k orig ag"
  shows "traced k orig (revert r sc [j] ag)"
proof -
  note ky = traced_keyed [OF tr]
  have own: "Identity lib (p_Setting p) = j" "p_Kind p = s_Kind (p_Setting p)" if "prior ag j = Some (Some p)" for p
    using that ky by (auto simp: keyed_def)
  have old: "kept orig ag k" by (rule tracedD [OF tr])
  have "kept orig (revert r sc [j] ag) k"
  proof (cases "k = j")
    case False
    then show ?thesis using revert_step_frame [OF r ky k, of j sc] old kept_cong by metis
  next
    case True
    show ?thesis
    proof (cases rule: revert_step_cases [of r sc j ag])
      case skip
      then show ?thesis using old by simp
    next
      case (kept p h rv e w)
      then show ?thesis using old True by (simp add: kept_def)
    next
      case (undone p h rv w)
      then have "holds (p_State p) (orig k)" using old True by (simp add: kept_def)
      then have "view k w = orig k"
        using revert_restores [of "p_Setting p" h rv "p_State p" "orig k" "machine ag" w] undone own [of p] r k True by simp
      then show ?thesis using undone True by (simp add: kept_def)
    qed
  qed
  then show ?thesis using revert_step_keyed [OF ky] by (simp add: traced_def)
qed

lemma revert_traced: "rc_Handlers r = hs \<Longrightarrow> mine k \<Longrightarrow> traced k orig ag \<Longrightarrow> traced k orig (revert r sc ks ag)"
proof (induction ks arbitrary: ag)
  case (Cons j ks)
  then show ?case by (subst revert_Cons) (simp add: revert_step_traced)
qed simp

lemma revert_frame:
  "rc_Handlers r = hs \<Longrightarrow> keyed lib ag \<Longrightarrow> mine k \<Longrightarrow> k \<notin> set ks \<or> sc k \<Longrightarrow>
     view k (machine (revert r sc ks ag)) = view k (machine ag)"
proof (induction ks arbitrary: ag)
  case (Cons j ks)
  then show ?case by (subst revert_Cons) (auto simp: revert_step_keyed revert_step_frame(1))
qed simp

lemma traced_records [simp]: "traced k orig (ag\<lparr>records := x\<rparr>) = traced k orig ag"
  by (simp add: traced_def kept_def)

lemma forgetLoop_traced:
  "rc_Handlers r = hs \<Longrightarrow> mine k \<Longrightarrow> traced k orig ag \<Longrightarrow> traced k orig (forgetLoop r cur sc rs ag)"
  by (induction r cur sc rs ag rule: forgetLoop.induct) (auto simp: Let_def revert_traced)

lemma forgetLoop_frame:
  "rc_Handlers r = hs \<Longrightarrow> keyed lib ag \<Longrightarrow> mine k \<Longrightarrow>
     sc k \<or> (\<forall>(pid, rc) \<in> set rs. \<not> cur pid \<longrightarrow> rec_RevertOnRemoval rc \<longrightarrow> k \<notin> set (rec_Identities rc)) \<Longrightarrow>
     view k (machine (forgetLoop r cur sc rs ag)) = view k (machine ag)"
  by (induction r cur sc rs ag rule: forgetLoop.induct) (auto simp: Let_def revert_frame revert_keyed)

text \<open>A cycle.\<close>

lemma Reconcile_traced:
  assumes "rc_Handlers r = hs" "rc_lib r = lib" "\<not> rc_fails r (ReadPrior k)" "\<not> rc_fails r (WritePrior k)" "mine k"
    "recordable (orig k)" "traced k orig ag"
  shows "traced k orig (snd (Reconcile r assigned ag))"
proof -
  have "traced k orig (foldl (\<lambda>g act. snd (applyAction r act g)) ag (Plan (rc_lib r) (activeOf assigned)))"
    using assms by (intro applyFold_traced) (auto simp: Plan_identity)
  then have "traced k orig (forgetRemoved r assigned
      (foldl (\<lambda>g act. snd (applyAction r act g)) ag (Plan (rc_lib r) (activeOf assigned))))"
    using assms(1,5) by (simp add: forgetRemoved_def forgetLoop_traced)
  then show ?thesis
    unfolding Reconcile_agent by (simp add: traced_def kept_def keyed_def)
qed

lemma Reconcile_keyed:
  assumes "rc_lib r = lib" "keyed lib ag"
  shows "keyed lib (snd (Reconcile r assigned ag))"
proof -
  define ag1 where "ag1 = foldl (\<lambda>g act. snd (applyAction r act g)) ag (Plan (rc_lib r) (activeOf assigned))"
  have "keyed lib ag1" unfolding ag1_def using assms by (intro applyFold_keyed) (auto simp: Plan_identity)
  then have "keyed lib (forgetRemoved r assigned ag1)" by (rule forgetRemoved_keyed)
  then show ?thesis unfolding Reconcile_agent ag1_def [symmetric] using keyed_cong recordStep_fold(2) by metis
qed

text \<open>An original that cannot be recorded is not followed.\<close>

lemma policy_run_traced:
  assumes "policy_run hs lib view k ag orig" "mine k"
  shows "keyed lib ag \<and> (recordable (orig k) \<longrightarrow> kept orig ag k)"
  using assms
proof induction
  case (start w)
  then show ?case by (simp add: kept_def keyed_def fresh_agent_def)
next
  case (cycle ag orig r assigned)
  then show ?case using Reconcile_traced [of r k orig ag assigned] Reconcile_keyed [of r ag assigned] by (auto simp: traced_def)
next
  case (drift ag orig w)
  then show ?case by (auto simp: kept_def keyed_def)
qed

theorem originals_kept:
  assumes "policy_run hs lib view k ag orig" "mine k" "recordable (orig k)"
  shows "prior ag k = None \<longrightarrow> view k (machine ag) = orig k"
    and "prior ag k = Some q \<longrightarrow> (\<exists>p. q = Some p \<and> Identity lib (p_Setting p) = k \<and>
      p_Kind p = s_Kind (p_Setting p) \<and> holds (p_State p) (orig k))"
proof -
  have kept: "kept orig ag k" "keyed lib ag" using policy_run_traced [OF assms(1,2)] assms(3) by blast+
  then show "prior ag k = None \<longrightarrow> view k (machine ag) = orig k" by (simp add: kept_def)
  from kept show "prior ag k = Some q \<longrightarrow> (\<exists>p. q = Some p \<and> Identity lib (p_Setting p) = k \<and>
      p_Kind p = s_Kind (p_Setting p) \<and> holds (p_State p) (orig k))"
    unfolding kept_def keyed_def by blast
qed

theorem Reconcile_frame:
  assumes "rc_Handlers r = hs" "rc_lib r = lib" "keyed lib ag" "mine k"
    "\<not> claimed lib (activeOf assigned) k"
    "claimed lib assigned k \<or>
      (\<forall>(pid, rc) \<in> set (records ag). \<not> list_ex (\<lambda>a. a_ProfileID a = pid) assigned \<longrightarrow>
         rec_RevertOnRemoval rc \<longrightarrow> k \<notin> set (rec_Identities rc))"
  shows "view k (machine (snd (Reconcile r assigned ag))) = view k (machine ag)"
proof -
  define ag1 where "ag1 = foldl (\<lambda>g act. snd (applyAction r act g)) ag (Plan (rc_lib r) (activeOf assigned))"
  have acts: "Identity lib (act_Setting act) = act_Identity act \<and> k \<noteq> act_Identity act"
    if "act \<in> set (Plan (rc_lib r) (activeOf assigned))" for act
    using that assms(2,5) Plan_identity [of act lib "activeOf assigned"] Plan_identities [of lib "activeOf assigned"]
    by (auto simp: claimed_iff)
  have "view k (machine ag1) = view k (machine ag)"
    unfolding ag1_def using assms acts by (intro applyFold_frame) auto
  moreover have "keyed lib ag1" unfolding ag1_def using assms(3) acts by (intro applyFold_keyed) auto
  then have "view k (machine (forgetRemoved r assigned ag1)) = view k (machine ag1)"
    using assms by (auto simp: forgetRemoved_def ag1_def records_unchanged intro!: forgetLoop_frame)
  ultimately show ?thesis by (simp add: Reconcile_agent ag1_def [symmetric])
qed

end

section \<open>What the agent remembers and reports\<close>

lemma revert_records: "records (revert r sc ks ag) = records ag"
proof (induction ks arbitrary: ag)
  case (Cons k ks)
  have "records (revert r sc [k] ag) = records ag"
    by (cases rule: revert_step_cases [of r sc k ag]) simp_all
  then show ?case by (subst revert_Cons) (simp add: Cons.IH)
qed simp

lemma forgetLoop_records:
  "\<forall>x. \<not> rc_fails r x \<Longrightarrow>
     map_of (records (forgetLoop r cur sc rs ag)) pid =
       (if \<not> cur pid \<and> pid \<in> fst ` set rs then None else map_of (records ag) pid)"
  by (induction r cur sc rs ag rule: forgetLoop.induct)
     (auto simp: Let_def revert_records delete_conv')

lemma recordFold_records:
  "\<forall>x. \<not> rc_fails r x \<Longrightarrow> distinct (map a_ProfileID as) \<Longrightarrow>
     map_of (records (foldl (recordStep r) ag as)) pid =
       (case find (\<lambda>a. a_ProfileID a = pid) as of
          None \<Rightarrow> map_of (records ag) pid
        | Some a \<Rightarrow> Some (recordOf (rc_lib r) a))"
proof (induction "as" arbitrary: ag)
  case (Cons a as)
  have "find (\<lambda>b. a_ProfileID b = a_ProfileID a) as = None"
    using Cons.prems by (auto simp: find_None_iff image_iff)
  with Cons show ?case by (auto simp: recordStep_def update_conv' split: option.splits)
qed simp

lemma find_filter_distinct:
  "distinct (map f xs) \<Longrightarrow>
     find (\<lambda>a. f a = k) (filter P xs) = (case find (\<lambda>a. f a = k) xs of
        None \<Rightarrow> None | Some a \<Rightarrow> if P a then Some a else None)"
proof (induction xs)
  case (Cons x xs)
  have "f x = k \<Longrightarrow> find (\<lambda>a. f a = k) (filter P xs) = None"
    using Cons.prems by (auto simp: find_None_iff image_iff)
  with Cons show ?case by auto
qed simp

lemma Reconcile_remembers:
  assumes "\<forall>x. \<not> rc_fails r x" "distinct (map a_ProfileID assigned)"
  shows "map_of (records (snd (Reconcile r assigned ag))) pid =
    (case find (\<lambda>a. a_ProfileID a = pid) assigned of
       None \<Rightarrow> None
     | Some a \<Rightarrow> if a_Held a = [] then Some (recordOf (rc_lib r) a) else map_of (records ag) pid)"
proof -
  define ag1 where "ag1 = foldl (\<lambda>g act. snd (applyAction r act g)) ag (Plan (rc_lib r) (activeOf assigned))"
  have recs: "records ag1 = records ag" by (simp add: ag1_def records_unchanged)
  have none: "pid \<notin> fst ` set (records ag) \<Longrightarrow> map_of (records ag) pid = None"
    by (simp add: map_of_eq_None_iff)
  have "distinct (map a_ProfileID (activeOf assigned))"
    using assms(2) by (simp add: activeOf_def distinct_map_filter)
  then have "map_of (records (snd (Reconcile r assigned ag))) pid =
    (case find (\<lambda>a. a_ProfileID a = pid) (activeOf assigned) of
       None \<Rightarrow> if \<not> list_ex (\<lambda>a. a_ProfileID a = pid) assigned then None else map_of (records ag) pid
     | Some a \<Rightarrow> Some (recordOf (rc_lib r) a))"
    using assms(1) none
    by (auto simp: Reconcile_agent ag1_def [symmetric] recordFold_records forgetRemoved_def forgetLoop_records recs
        split: option.splits)
  then show ?thesis
    using assms(2)
    by (auto simp: activeOf_def find_filter_distinct find_None_iff list_ex_iff split: option.splits dest: find_SomeD)
qed

lemma remembered_none:
  "\<forall>x. \<not> rc_fails r x \<Longrightarrow> find (\<lambda>a. a_ProfileID a = pid) assigned = None \<Longrightarrow>
     distinct (map a_ProfileID assigned) \<Longrightarrow> map_of (records (snd (Reconcile r assigned ag))) pid = None"
  by (simp add: Reconcile_remembers)

text \<open>
  What the agent remembers after a cycle: for an active profile, exactly the settings and the
  options of the version it has just applied; for a held one, what it remembered before, the
  record of the version that last applied; and nothing about any other profile.
\<close>

theorem Reconcile_records:
  assumes "\<forall>x. \<not> rc_fails r x" "distinct (map a_ProfileID assigned)"
  shows "map_of (records (snd (Reconcile r assigned ag))) pid =
    (case find (\<lambda>a. a_ProfileID a = pid) assigned of
       None \<Rightarrow> None
     | Some a \<Rightarrow> if a_Held a = [] then Some (recordOf (rc_lib r) a) else map_of (records ag) pid)"
  using assms by (rule Reconcile_remembers)

definition sample_held :: Assigned where
  "sample_held = (sample_profile ''h'' [])\<lparr>a_Held := ''refused''\<rparr>"

theorem Reconcile_records_witness:
  "map_of (records (snd (Reconcile sample_reconciler [sample_profile ''a'' [], sample_held] (fresh_agent False)))) ''a''
     = Some (recordOf sample_lib (sample_profile ''a'' []))
   \<and> map_of (records (snd (Reconcile sample_reconciler [sample_profile ''a'' [], sample_held] (fresh_agent False)))) ''h''
     = None"
  using Reconcile_records [of sample_reconciler "[sample_profile ''a'' [], sample_held]" "fresh_agent False" "''a''"]
    Reconcile_records [of sample_reconciler "[sample_profile ''a'' [], sample_held]" "fresh_agent False" "''h''"]
  by (simp add: sample_reconciler_def sample_profile_def sample_held_def fresh_agent_def)

lemma addResult_fold:
  "res_Identity ` set (foldl (addResult x) results ps pid) =
     res_Identity ` set (results pid) \<union> (if pid \<in> set ps then {res_Identity x} else {})"
  by (induction ps arbitrary: results) (auto simp: addResult_def)

lemma applyAll_results:
  "res_Identity ` set (fst (applyAll r acts (results, ag)) pid) =
     res_Identity ` set (results pid) \<union> act_Identity ` {act \<in> set acts. pid \<in> set (act_Profiles act)}"
proof (induction acts arbitrary: results ag)
  case (Cons act acts)
  show ?case by (auto simp: Cons.IH addResult_fold split: prod.splits)
qed simp

lemma addResult_other: "pid \<notin> set ps \<Longrightarrow> foldl (addResult x) results ps pid = results pid"
  by (induction ps arbitrary: results) (auto simp: addResult_def)

lemma applyAll_untouched:
  "{act \<in> set acts. pid \<in> set (act_Profiles act)} = {} \<Longrightarrow>
     fst (applyAll r acts (results, ag)) pid = results pid"
proof (induction acts arbitrary: results ag)
  case (Cons act acts)
  then have "pid \<notin> set (act_Profiles act)" "{act \<in> set acts. pid \<in> set (act_Profiles act)} = {}" by auto
  with Cons.IH show ?case by (simp add: addResult_other split: prod.splits)
qed simp

lemma heldFold:
  "distinct (map a_ProfileID as) \<Longrightarrow> a \<in> set as \<Longrightarrow>
     foldl (heldStep lib) results as (a_ProfileID a) =
       (if a_Held a = [] then []
        else map (\<lambda>s. \<lparr>res_Identity = Identity lib s, res_Status = SettingError, res_Detail = a_Held a\<rparr>) (a_Settings a))"
proof (induction "as" arbitrary: results rule: rev_induct)
  case (snoc b bs)
  show ?case
  proof (cases "a = b")
    case True
    then show ?thesis by (simp add: heldStep_def)
  next
    case False
    with snoc.prems have "a \<in> set bs" "a_ProfileID a \<noteq> a_ProfileID b" by (auto simp: image_iff)
    with snoc show ?thesis by (simp add: heldStep_def)
  qed
qed simp

lemma Plan_profile_identities:
  assumes "distinct (map a_ProfileID assigned)" "a \<in> set assigned"
  shows "act_Identity ` {act \<in> set (Plan lib assigned). a_ProfileID a \<in> set (act_Profiles act)} =
    Identity lib ` set (a_Settings a)"
proof -
  have own: "b = a" if "b \<in> set assigned" "a_ProfileID b = a_ProfileID a" for b
    using assms that by (metis distinct_map inj_onD)
  have iff: "(\<exists>c \<in> set (claimsOn lib assigned k). c_profileID c = a_ProfileID a) \<longleftrightarrow> k \<in> Identity lib ` set (a_Settings a)" for k
    using assms(2) own by (fastforce simp: claimsOn_def claimsOf_def image_iff)
  have sub: "k \<in> Identity lib ` set (a_Settings a) \<Longrightarrow> k \<in> set (claimedIds lib assigned)" for k
    using assms(2) by (force simp: claimedIds_def claimsOf_def)
  have eq: "act_Identity ` {act \<in> set (Plan lib assigned). a_ProfileID a \<in> set (act_Profiles act)} =
      {k \<in> set (claimedIds lib assigned). \<exists>c \<in> set (claimsOn lib assigned k). c_profileID c = a_ProfileID a}"
  proof (intro set_eqI iffI)
    fix k
    assume "k \<in> {k \<in> set (claimedIds lib assigned). \<exists>c \<in> set (claimsOn lib assigned k). c_profileID c = a_ProfileID a}"
    then have "actionOf k (claimsOn lib assigned k) \<in>
        {act \<in> set (Plan lib assigned). a_ProfileID a \<in> set (act_Profiles act)}"
      by (force simp: Plan_eq set_fold_add_new)
    then show "k \<in> act_Identity ` {act \<in> set (Plan lib assigned). a_ProfileID a \<in> set (act_Profiles act)}"
      by (rule rev_image_eqI) simp
  qed (force simp: Plan_eq set_fold_add_new)
  show ?thesis unfolding eq iff using sub by blast
qed

text \<open>
  Every assigned profile is answered for: a cycle sends one report per assigned profile, in
  their order and with their versions, and the settings a report is about are exactly the settings
  of the profile. Each setting of a held profile is reported as an error that says why it is held.
\<close>

theorem Reconcile_reports:
  assumes "distinct (map a_ProfileID assigned)"
  shows "list_all2 (\<lambda>a p. ps_Profile p = a_ProfileID a \<and> ps_Version p = a_Version a
      \<and> res_Identity ` set (ps_Settings p) = Identity (rc_lib r) ` set (a_Settings a)
      \<and> (a_Held a \<noteq> [] \<longrightarrow> list_all (\<lambda>x. res_Status x = SettingError \<and> res_Detail x = a_Held a) (ps_Settings p)))
    assigned (fst (fst (Reconcile r assigned ag)))"
proof -
  define acts where "acts = Plan (rc_lib r) (activeOf assigned)"
  define held where "held = foldl (heldStep (rc_lib r)) (\<lambda>_. []) assigned"
  define results where "results = fst (applyAll r acts (held, ag))"
  have reports: "fst (fst (Reconcile r assigned ag)) = map (\<lambda>a. \<lparr>ps_Profile = a_ProfileID a,
      ps_Version = a_Version a, ps_Settings = results (a_ProfileID a)\<rparr>) assigned"
    by (simp add: Reconcile_def Let_def results_def acts_def held_def split: prod.split)
  have dist: "distinct (map a_ProfileID (activeOf assigned))"
    using assms by (simp add: activeOf_def distinct_map_filter)
  have "res_Identity ` set (results (a_ProfileID a)) = Identity (rc_lib r) ` set (a_Settings a)
      \<and> (a_Held a \<noteq> [] \<longrightarrow> list_all (\<lambda>x. res_Status x = SettingError \<and> res_Detail x = a_Held a) (results (a_ProfileID a)))"
    if a: "a \<in> set assigned" for a
  proof (cases "a_Held a = []")
    case True
    then have "held (a_ProfileID a) = []" "a \<in> set (activeOf assigned)"
      using heldFold [OF assms a] a by (simp_all add: held_def activeOf_def)
    then show ?thesis
      using True Plan_profile_identities [OF dist, of a "rc_lib r"]
      by (simp add: results_def applyAll_results acts_def)
  next
    case False
    have h: "held (a_ProfileID a) = map (\<lambda>s. \<lparr>res_Identity = Identity (rc_lib r) s,
        res_Status = SettingError, res_Detail = a_Held a\<rparr>) (a_Settings a)"
      using heldFold [OF assms a] False by (simp add: held_def)
    have "a_ProfileID a \<notin> a_ProfileID ` set (activeOf assigned)"
      using assms a False by (auto simp: activeOf_def distinct_map dest: inj_onD)
    then have "{act \<in> set acts. a_ProfileID a \<in> set (act_Profiles act)} = {}"
      by (auto simp: acts_def Plan_eq claimsOn_def claimsOf_def)
    then have "results (a_ProfileID a) = held (a_ProfileID a)"
      unfolding results_def by (rule applyAll_untouched)
    with h show ?thesis by (simp add: list_all_iff image_image)
  qed
  then show ?thesis by (simp add: reports list_all2_conv_all_nth)
qed

theorem Reconcile_reports_witness:
  "list_all2 (\<lambda>a p. ps_Profile p = a_ProfileID a \<and> ps_Version p = a_Version a
      \<and> res_Identity ` set (ps_Settings p) = Identity sample_lib ` set (a_Settings a)
      \<and> (a_Held a \<noteq> [] \<longrightarrow> list_all (\<lambda>x. res_Status x = SettingError \<and> res_Detail x = a_Held a) (ps_Settings p)))
    [sample_profile ''a'' [sample_file ''c:/x'' []], sample_held]
    (fst (fst (Reconcile sample_reconciler [sample_profile ''a'' [sample_file ''c:/x'' []], sample_held] (fresh_agent False))))"
proof -
  have "distinct (map a_ProfileID [sample_profile ''a'' [sample_file ''c:/x'' []], sample_held])"
    by (simp add: sample_profile_def sample_held_def)
  from Reconcile_reports [OF this, of sample_reconciler "fresh_agent False"] show ?thesis
    by (simp add: sample_reconciler_def)
qed

end
