(* ===== verification/Policy_File.thy ===== *)
theory Policy_File
  imports Policy_Revert
begin

text \<open>
  The handler of file settings (\<^verbatim>\<open>src/internal/agent/policy/handler_file.go\<close> and
  \<^verbatim>\<open>pathcheck.go\<close>) on a Windows file system, and the interpretation of the contract
  \<open>reversible\<close> on it. A file system maps paths, as lists of lower-case elements, to files,
  folders and links; a file has its bytes and its read-only attribute, which is all that Go's
  permission bits are on Windows. The first element of a path is its anchor, a drive, the root or
  the working directory, which always exists. A relative path and the absolute path of the same
  file are different paths here, as they are different settings to the program. The SHA-256 of the
  handler's comparison is the parameter \<open>sha\<close>. A write happens entirely or not at all, where
  \<^verbatim>\<open>os.WriteFile\<close> truncates the file first; and the same handler on macOS and Linux, where case counts, is
  not modelled.

  The machine is the file system beside the rest of it; the other handlers act on the rest.
\<close>

section \<open>The file system\<close>

datatype node = NFile string bool | NDir | NLink

type_synonym fsys = "(string list \<times> node) list"

definition FromSlash :: "string \<Rightarrow> string" where
  "FromSlash p = replace_char (CHR ''/'') (CHR 0x5C) p"

definition anchored :: "string list \<Rightarrow> bool" where
  "anchored ks \<longleftrightarrow> ks \<noteq> [] \<and> (hd ks = [] \<or> length (hd ks) = 2 \<and> hd ks ! 1 = CHR '':'')"

definition os_key :: "string \<Rightarrow> string list" where
  "os_key p = (let ks = split_on (CHR 0x5C) (to_lower p) in if anchored ks then ks else ''.'' # ks)"

definition nodeAt :: "fsys \<Rightarrow> string list \<Rightarrow> node option" where
  "nodeAt fs ks = (if length ks \<le> 1 then Some NDir else map_of fs ks)"

definition parts :: "string list \<Rightarrow> string list list" where
  "parts ks = map (\<lambda>n. take n ks) [2..<Suc (length ks)]"

datatype io_error = NotExist | OtherError string

definition os_ReadFile :: "fsys \<Rightarrow> string list \<Rightarrow> io_error + string" where
  "os_ReadFile fs ks =
     (case nodeAt fs ks of
        None \<Rightarrow> Inl NotExist
      | Some (NFile c ro) \<Rightarrow> Inr c
      | Some _ \<Rightarrow> Inl (OtherError ''not a file''))"

definition os_Remove :: "fsys \<Rightarrow> string list \<Rightarrow> io_error option \<times> fsys" where
  "os_Remove fs ks =
     (case nodeAt fs ks of
        None \<Rightarrow> (Some NotExist, fs)
      | Some NDir \<Rightarrow>
          if length ks \<le> 1 \<or> list_ex (\<lambda>(k, _). k \<noteq> [] \<and> butlast k = ks) fs
          then (Some (OtherError ''the directory is not empty''), fs)
          else (None, AList.delete ks fs)
      | Some _ \<Rightarrow> (None, AList.delete ks fs))"

definition os_MkdirAll :: "fsys \<Rightarrow> string list \<Rightarrow> io_error option \<times> fsys" where
  "os_MkdirAll fs ks =
     (if list_ex (\<lambda>p. nodeAt fs p \<noteq> None \<and> nodeAt fs p \<noteq> Some NDir) (parts ks)
      then (Some (OtherError ''not a directory''), fs)
      else (None, foldl (\<lambda>f p. if nodeAt f p = None then AList.update p NDir f else f) fs (parts ks)))"

text \<open>Writing to a file that exists keeps its attribute; a new one is read-only when the mode lacks
  the owner's write bit.\<close>

definition os_WriteFile :: "fsys \<Rightarrow> string list \<Rightarrow> string \<Rightarrow> nat \<Rightarrow> io_error option \<times> fsys" where
  "os_WriteFile fs ks content mode =
     (if nodeAt fs (butlast ks) \<noteq> Some NDir then (Some (OtherError ''the path cannot be found''), fs)
      else case nodeAt fs ks of
        None \<Rightarrow> (None, AList.update ks (NFile content (mode div 128 mod 2 = 0)) fs)
      | Some (NFile c ro) \<Rightarrow>
          if ro then (Some (OtherError ''access is denied''), fs)
          else (None, AList.update ks (NFile content ro) fs)
      | Some _ \<Rightarrow> (Some (OtherError ''not a file''), fs))"

section \<open>The handler\<close>

definition filePath :: "Setting \<Rightarrow> string" where
  "filePath s = FromSlash (NormalizePath (s_Path s))"

fun linkWalk :: "fsys \<Rightarrow> string list list \<Rightarrow> string option" where
  "linkWalk fs [] = None"
| "linkWalk fs (p # ps) =
     (case nodeAt fs p of
        None \<Rightarrow> None
      | Some NLink \<Rightarrow> Some (''the path goes through a link: '' @ join_with [CHR 0x5C] p)
      | Some _ \<Rightarrow> linkWalk fs ps)"

definition checkNoLinks :: "fsys \<Rightarrow> string list \<Rightarrow> string option" where
  "checkNoLinks fs ks = linkWalk fs (parts ks)"

definition io_text :: "io_error \<Rightarrow> string" where
  "io_text e = (case e of NotExist \<Rightarrow> ''file does not exist'' | OtherError t \<Rightarrow> t)"

definition perm :: "bool \<Rightarrow> nat" where
  "perm ro = (if ro then 292 else 438)"

definition marshalFileState :: "string \<Rightarrow> nat \<Rightarrow> json" where
  "marshalFileState content mode =
     JObj ((if content = [] then [] else [(''content'', JStr (b64_encode content))])
           @ (if mode = 0 then [] else [(''mode'', JNum (itoa (int mode)))]))"

definition unmarshalFileState :: "json \<Rightarrow> (string \<times> nat) option" where
  "unmarshalFileState j =
     (case unmarshal_object j of
        None \<Rightarrow> None
      | Some ms \<Rightarrow>
          Option.bind (case map_of ms ''content'' of
              None \<Rightarrow> Some []
            | Some v \<Rightarrow> Option.bind (unmarshal_string v) b64_decode) (\<lambda>content.
          Option.bind (case map_of ms ''mode'' of None \<Rightarrow> Some 0 | Some v \<Rightarrow> unmarshal_int v) (\<lambda>mode.
            if 0 \<le> mode \<and> mode < 2 ^ 32 then Some (content, nat mode) else None)))"

definition fileGet :: "Setting \<Rightarrow> fsys \<Rightarrow> State outcome" where
  "fileGet s fs =
     (let ks = os_key (filePath s) in
      case checkNoLinks fs ks of
        Some e \<Rightarrow> Err e
      | None \<Rightarrow>
          (case nodeAt fs ks of
             None \<Rightarrow> Ok \<lparr>st_Exists = False, st_Data = None\<rparr>
           | Some nd \<Rightarrow>
               if (case nd of NFile c ro \<Rightarrow> length c > MaxFileBytes | _ \<Rightarrow> False)
               then Ok \<lparr>st_Exists = True, st_Data = None\<rparr>
               else (case os_ReadFile fs ks of
                  Inl e \<Rightarrow> Err (io_text e)
                | Inr content \<Rightarrow>
                    Ok \<lparr>st_Exists = True, st_Data = Some (marshalFileState content
                      (case nd of NFile c ro \<Rightarrow> perm ro | _ \<Rightarrow> 0))\<rparr>)))"

definition fileTest :: "(string \<Rightarrow> string) \<Rightarrow> Setting \<Rightarrow> fsys \<Rightarrow> bool outcome" where
  "fileTest sha s fs =
     (let ks = os_key (filePath s) in
      case checkNoLinks fs ks of
        Some e \<Rightarrow> Err e
      | None \<Rightarrow>
          if s_Ensure s = EnsureAbsent then Ok (nodeAt fs ks = None)
          else case Content s of
            None \<Rightarrow> Err ''illegal base64 data''
          | Some want \<Rightarrow>
              (case os_ReadFile fs ks of
                 Inl NotExist \<Rightarrow> Ok False
               | Inl e \<Rightarrow> Err (io_text e)
               | Inr got \<Rightarrow> Ok (sha got = sha want)))"

definition removeFile :: "string list \<Rightarrow> fsys \<Rightarrow> string option \<times> fsys" where
  "removeFile ks fs =
     (case os_Remove fs ks of
        (Some (OtherError e), fs') \<Rightarrow> (Some e, fs')
      | (_, fs') \<Rightarrow> (None, fs'))"

definition writeFile :: "string list \<Rightarrow> string \<Rightarrow> nat \<Rightarrow> bool \<Rightarrow> fsys \<Rightarrow> string option \<times> fsys" where
  "writeFile ks content mode again fs =
     (case os_MkdirAll fs (butlast ks) of
        (Some e, fs1) \<Rightarrow> (Some (io_text e), fs1)
      | (None, fs1) \<Rightarrow>
          (case (if again then checkNoLinks fs1 ks else None) of
             Some e \<Rightarrow> (Some e, fs1)
           | None \<Rightarrow>
               (case os_WriteFile fs1 ks content mode of
                  (Some e, fs2) \<Rightarrow> (Some (io_text e), fs2)
                | (None, fs2) \<Rightarrow> (None, fs2))))"

definition fileSet :: "Setting \<Rightarrow> fsys \<Rightarrow> string option \<times> fsys" where
  "fileSet s fs =
     (let ks = os_key (filePath s) in
      case checkNoLinks fs ks of
        Some e \<Rightarrow> (Some e, fs)
      | None \<Rightarrow>
          if s_Ensure s = EnsureAbsent then removeFile ks fs
          else case Content s of
            None \<Rightarrow> (Some ''illegal base64 data'', fs)
          | Some content \<Rightarrow> writeFile ks content 420 True fs)"

definition fileRevert :: "Setting \<Rightarrow> State \<Rightarrow> fsys \<Rightarrow> string option \<times> fsys" where
  "fileRevert s p fs =
     (let ks = os_key (filePath s) in
      case checkNoLinks fs ks of
        Some e \<Rightarrow> (Some e, fs)
      | None \<Rightarrow>
          if \<not> st_Exists p then removeFile ks fs
          else case st_Data p of
            None \<Rightarrow> (None, fs)
          | Some d \<Rightarrow>
              (case unmarshalFileState d of
                 None \<Rightarrow> (Some ''the recorded file cannot be read'', fs)
               | Some (content, mode) \<Rightarrow>
                   writeFile ks content (if mode = 0 then 420 else mode) False fs))"

text \<open>The file handler acts on the first part of the machine, the others on the second.\<close>

definition FileHandler :: "(string \<Rightarrow> string) \<Rightarrow> (fsys \<times> 'o) Handler" where
  "FileHandler sha = \<lparr>h_Kind = KindFile,
     h_Get = (\<lambda>s w. fileGet s (fst w)),
     h_Test = (\<lambda>s w. fileTest sha s (fst w)),
     h_Set = (\<lambda>s w. case fileSet s (fst w) of
        (None, fs) \<Rightarrow> (Ok (), (fs, snd w)) | (Some e, fs) \<Rightarrow> (Err e, (fs, snd w))),
     h_Revert = Some (\<lambda>s p w. case fileRevert s p (fst w) of (e, fs) \<Rightarrow> (e, (fs, snd w)))\<rparr>"

definition besideFiles :: "'o Handler \<Rightarrow> (fsys \<times> 'o) Handler" where
  "besideFiles h = \<lparr>h_Kind = h_Kind h,
     h_Get = (\<lambda>s w. h_Get h s (snd w)),
     h_Test = (\<lambda>s w. h_Test h s (snd w)),
     h_Set = (\<lambda>s w. case h_Set h s (snd w) of (res, x) \<Rightarrow> (res, (fst w, x))),
     h_Revert = map_option (\<lambda>rv s p w. case rv s p (snd w) of (e, x) \<Rightarrow> (e, (fst w, x))) (h_Revert h)\<rparr>"

definition machineHandlers :: "(string \<Rightarrow> string) \<Rightarrow> 'o Handler list \<Rightarrow> (fsys \<times> 'o) Handler list" where
  "machineHandlers sha others = FileHandler sha # map besideFiles others"

section \<open>Paths and identities\<close>

lemma lower_slashes [simp]:
  "lower_char c = CHR ''/'' \<longleftrightarrow> c = CHR ''/''" "lower_char c = CHR 0x5C \<longleftrightarrow> c = CHR 0x5C"
  by (simp_all add: lower_char_iff is_lower_def is_upper_def)

lemma lower_backslash [simp]: "lower_char (CHR 0x5C) = CHR 0x5C"
  by simp

lemma replace_char_lower: "to_lower (FromSlash p) = FromSlash (to_lower p)"
  by (simp add: FromSlash_def replace_char_def to_lower_def)

lemma FromSlash_inj: "CHR 0x5C \<notin> set p \<Longrightarrow> CHR 0x5C \<notin> set q \<Longrightarrow> FromSlash p = FromSlash q \<Longrightarrow> p = q"
proof (induction p arbitrary: q)
  case (Cons c p)
  then obtain d q' where q: "q = d # q'" by (cases q) (auto simp: FromSlash_def replace_char_def)
  have "c = d" using Cons.prems by (auto simp: q FromSlash_def replace_char_def split: if_splits)
  moreover have "p = q'" using Cons.prems by (intro Cons.IH) (simp_all add: q FromSlash_def replace_char_def)
  ultimately show ?case by (simp add: q)
qed (simp add: FromSlash_def replace_char_def)

lemma os_key_inj: "os_key p = os_key q \<longleftrightarrow> to_lower p = to_lower q"
proof
  assume eq: "os_key p = os_key q"
  have inj: "to_lower p = to_lower q" if "split_on (CHR 0x5C) (to_lower p) = split_on (CHR 0x5C) (to_lower q)"
    using that by (metis join_split)
  have dot: "\<not> anchored (''.'' # x)" for x by (simp add: anchored_def)
  show "to_lower p = to_lower q"
    using eq inj dot [of "split_on (CHR 0x5C) (to_lower p)"] dot [of "split_on (CHR 0x5C) (to_lower q)"]
    by (auto simp: os_key_def Let_def split: if_splits)
qed (simp add: os_key_def)

lemma clean_step_chars:
  assumes "\<forall>e \<in> set out. set e \<subseteq> C" "set e \<subseteq> C" "CHR ''.'' \<in> C"
  shows "\<forall>x \<in> set (clean_step rooted out e). set x \<subseteq> C"
  using assms by (auto simp: clean_step_def dest: in_set_butlastD)

lemma clean_fold_chars:
  assumes "CHR ''.'' \<in> C"
  shows "\<forall>e \<in> set out. set e \<subseteq> C \<Longrightarrow> \<forall>e \<in> set es. set e \<subseteq> C \<Longrightarrow>
    \<forall>x \<in> set (foldl (clean_step rooted) out es). set x \<subseteq> C"
proof (induction es arbitrary: out)
  case (Cons e es)
  have "\<forall>x \<in> set (clean_step rooted out e). set x \<subseteq> C" using Cons.prems assms by (intro clean_step_chars) auto
  with Cons show ?case by simp
qed simp

lemma split_on_chars: "e \<in> set (split_on c s) \<Longrightarrow> set e \<subseteq> set s"
proof (induction s arbitrary: e)
  case (Cons x xs)
  obtain y ys where y: "split_on c xs = y # ys" by (cases "split_on c xs") auto
  with Cons show ?case by (fastforce split: if_splits)
qed simp

lemma join_with_chars: "\<forall>e \<in> set es. set e \<subseteq> C \<Longrightarrow> set sep \<subseteq> C \<Longrightarrow> set (join_with sep es) \<subseteq> C"
  by (induction sep es rule: join_with.induct) auto

lemma path_Clean_chars: "set (path_Clean p) \<subseteq> set p \<union> {CHR ''/'', CHR ''.''}"
proof -
  define C where "C = set p \<union> {CHR ''/'', CHR ''.''}"
  have "\<forall>x \<in> set (foldl (clean_step (rooted_path p)) [] (split_on (CHR ''/'') p)). set x \<subseteq> C"
    by (intro clean_fold_chars) (auto simp: C_def dest: split_on_chars)
  then have "set (join_with ''/'' (foldl (clean_step (rooted_path p)) [] (split_on (CHR ''/'') p))) \<subseteq> C"
    by (intro join_with_chars) (auto simp: C_def)
  then show ?thesis by (auto simp: path_Clean_def Let_def C_def)
qed

lemma NormalizePath_no_backslash: "CHR 0x5C \<notin> set (to_lower (NormalizePath p))"
proof -
  define q where "q = replace_char (CHR 0x5C) (CHR ''/'') (trim_space p)"
  have "CHR 0x5C \<notin> set q" by (auto simp: q_def replace_char_def)
  then have "CHR 0x5C \<notin> set (path_Clean q)" using path_Clean_chars [of q] by auto
  show ?thesis
  proof
    assume "CHR 0x5C \<in> set (to_lower (NormalizePath p))"
    then obtain x where "x \<in> set (path_Clean q)" "lower_char x = CHR 0x5C"
      unfolding NormalizePath_def q_def to_lower_def by (auto dest: sym)
    then show False using \<open>CHR 0x5C \<notin> set (path_Clean q)\<close> by simp
  qed
qed

section \<open>What a path holds\<close>

definition fileAt :: "fsys \<Rightarrow> string list \<Rightarrow> string option" where
  "fileAt fs ks = (case nodeAt fs ks of Some (NFile c ro) \<Rightarrow> Some c | _ \<Rightarrow> None)"

lemma nodeAt_update:
  "nodeAt (AList.update ks n fs) js = (if js = ks \<and> 1 < length ks then Some n else nodeAt fs js)"
  by (auto simp: nodeAt_def update_conv')

lemma nodeAt_delete:
  "nodeAt (AList.delete ks fs) js = (if js = ks \<and> 1 < length ks then None else nodeAt fs js)"
  by (auto simp: nodeAt_def delete_conv')

lemma fileAt_Some: "fileAt fs ks = Some c \<longleftrightarrow> (\<exists>ro. nodeAt fs ks = Some (NFile c ro))"
  by (auto simp: fileAt_def split: option.splits node.splits)

lemma removeFile_others: "js \<noteq> ks \<Longrightarrow> fileAt (snd (removeFile ks fs)) js = fileAt fs js"
  by (auto simp: removeFile_def os_Remove_def fileAt_def nodeAt_delete split: option.splits node.splits)

lemma removeFile_own: "fst (removeFile ks fs) = None \<Longrightarrow> fileAt (snd (removeFile ks fs)) ks = None"
  by (auto simp: removeFile_def os_Remove_def fileAt_def nodeAt_delete
      split: option.splits node.splits if_splits) (auto simp: nodeAt_def split: if_splits)

lemma removeFile_folder: "fileAt fs ks = None \<Longrightarrow> fileAt (snd (removeFile ks fs)) ks = None"
  by (auto simp: removeFile_def os_Remove_def fileAt_def nodeAt_delete split: option.splits node.splits)

lemma mkdirs_fileAt:
  "fileAt (foldl (\<lambda>f p. if nodeAt f p = None then AList.update p NDir f else f) fs ps) js = fileAt fs js"
  by (induction ps arbitrary: fs) (auto simp: fileAt_def nodeAt_update split: option.splits)

lemma mkdirs_nodeAt:
  "nodeAt fs js \<noteq> None \<Longrightarrow>
     nodeAt (foldl (\<lambda>f p. if nodeAt f p = None then AList.update p NDir f else f) fs ps) js = nodeAt fs js"
  by (induction ps arbitrary: fs) (auto simp: nodeAt_update)

lemma MkdirAll_fileAt [simp]: "fileAt (snd (os_MkdirAll fs ks)) js = fileAt fs js"
  by (simp add: os_MkdirAll_def mkdirs_fileAt)

lemma WriteFile_others: "js \<noteq> ks \<Longrightarrow> fileAt (snd (os_WriteFile fs ks c m)) js = fileAt fs js"
  by (auto simp: os_WriteFile_def fileAt_def nodeAt_update split: option.splits node.splits)

lemma WriteFile_own:
  "fst (os_WriteFile fs ks c m) = None \<Longrightarrow> fileAt (snd (os_WriteFile fs ks c m)) ks = Some c"
  by (auto simp: os_WriteFile_def fileAt_def nodeAt_update split: option.splits node.splits if_splits)
     (auto simp: nodeAt_def split: if_splits)

lemma WriteFile_failed:
  "fst (os_WriteFile fs ks c m) \<noteq> None \<Longrightarrow> snd (os_WriteFile fs ks c m) = fs"
  by (auto simp: os_WriteFile_def split: option.splits node.splits if_splits)

lemma writeFile_others:
  assumes "js \<noteq> ks"
  shows "fileAt (snd (writeFile ks c m again fs)) js = fileAt fs js"
proof -
  obtain e fs1 where mk: "os_MkdirAll fs (butlast ks) = (e, fs1)" by (metis prod.exhaust)
  then have "fileAt fs1 js = fileAt fs js" using MkdirAll_fileAt [of fs "butlast ks" js] by simp
  then show ?thesis
    using mk WriteFile_others [OF assms, of fs1 c m] by (auto simp: writeFile_def split: option.splits prod.splits)
qed

lemma writeFile_own:
  assumes "fst (writeFile ks c m again fs) = None"
  shows "fileAt (snd (writeFile ks c m again fs)) ks = Some c"
  using assms WriteFile_own [of "snd (os_MkdirAll fs (butlast ks))" ks c m]
  by (auto simp: writeFile_def split: prod.splits option.splits)

section \<open>The contract\<close>

definition isFileId :: "string \<Rightarrow> bool" where
  "isFileId k \<longleftrightarrow> take 5 k = ''file:'' \<and> to_lower (drop 5 k) = drop 5 k
     \<and> CHR 0x5C \<notin> set k \<and> drop 5 k \<noteq> [] \<and> last k \<noteq> CHR '':''"

definition fileView :: "string \<Rightarrow> fsys \<times> 'o \<Rightarrow> string option" where
  "fileView k w = fileAt (fst w) (os_key (FromSlash (drop 5 k)))"

definition smallFile :: "string option \<Rightarrow> bool" where
  "smallFile v = (case v of None \<Rightarrow> True | Some c \<Rightarrow> length c \<le> MaxFileBytes)"

definition describes :: "State \<Rightarrow> string option \<Rightarrow> bool" where
  "describes st v = (case v of
      None \<Rightarrow> \<not> st_Exists st
    | Some c \<Rightarrow> st_Exists st \<and> (\<exists>ro. st_Data st = Some (marshalFileState c (perm ro))))"

lemma Identity_file: "s_Kind s = KindFile \<Longrightarrow> Identity lib s = ''file:'' @ to_lower (NormalizePath (s_Path s))"
  by (simp add: Identity_def)

lemma isFileId_kind:
  assumes "isFileId (Identity lib s)"
  shows "s_Kind s = KindFile"
proof (rule ccontr)
  assume other: "s_Kind s \<noteq> KindFile"
  have pre: "take 5 (Identity lib s) = ''file:''" and last: "last (Identity lib s) \<noteq> CHR '':''"
    using assms by (simp_all add: isFileId_def)
  have "s_Kind s \<noteq> KindRegistry" using pre by (intro notI) (simp add: Identity_def)
  moreover have "s_Kind s \<noteq> KindService" using pre by (intro notI) (simp add: Identity_def)
  moreover have "s_Kind s \<noteq> KindGroup" using pre by (intro notI) (simp add: Identity_def)
  moreover have "s_Kind s \<noteq> KindFirewallProfile" using pre by (intro notI) (simp add: Identity_def)
  moreover have "s_Kind s \<noteq> KindFirewallRule" using pre by (intro notI) (simp add: Identity_def)
  moreover have "s_Kind s \<noteq> KindWindowsUpdate" using pre by (intro notI) (simp add: Identity_def)
  moreover have "s_Kind s \<noteq> KindBitLocker" using pre by (intro notI) (simp add: Identity_def)
  moreover have "s_Kind s \<noteq> KindDefender" using pre by (intro notI) (simp add: Identity_def)
  moreover have "s_Kind s \<noteq> KindCertificate" using pre by (intro notI) (simp add: Identity_def)
  moreover have "s_Kind s \<noteq> KindWiFi" using pre by (intro notI) (simp add: Identity_def)
  moreover have "s_Kind s \<noteq> KindVPN" using pre by (intro notI) (simp add: Identity_def)
  ultimately have "Identity lib s = s_Kind s @ '':''" using other by (simp add: Identity_def)
  with last show False by simp
qed

lemma fileView_own:
  assumes "s_Kind s = KindFile"
  shows "fileView (Identity lib s) w = fileAt (fst w) (os_key (filePath s))"
proof -
  have "os_key (FromSlash (to_lower (NormalizePath (s_Path s)))) = os_key (FromSlash (NormalizePath (s_Path s)))"
    by (simp add: os_key_inj replace_char_lower)
  then show ?thesis by (simp add: fileView_def Identity_file [OF assms] filePath_def)
qed

lemma file_keys_differ:
  assumes "s_Kind s = KindFile" "isFileId k" "k \<noteq> Identity lib s"
  shows "os_key (FromSlash (drop 5 k)) \<noteq> os_key (filePath s)"
proof
  assume "os_key (FromSlash (drop 5 k)) = os_key (filePath s)"
  then have eq: "FromSlash (drop 5 k) = FromSlash (to_lower (NormalizePath (s_Path s)))"
    using assms(2) by (simp add: os_key_inj filePath_def replace_char_lower isFileId_def)
  have bs: "CHR 0x5C \<notin> set (drop 5 k)" using assms(2) by (auto simp: isFileId_def dest: in_set_dropD)
  have "drop 5 k = to_lower (NormalizePath (s_Path s))"
    by (rule FromSlash_inj [OF bs NormalizePath_no_backslash eq])
  then have "k = Identity lib s"
    using assms(1,2) by (metis Identity_file append_take_drop_id isFileId_def)
  with assms(3) show False by simp
qed

lemma fileSet_others: "js \<noteq> os_key (filePath s) \<Longrightarrow> fileAt (snd (fileSet s fs)) js = fileAt fs js"
  by (auto simp: fileSet_def Let_def removeFile_others writeFile_others split: option.splits)

lemma fileRevert_others: "js \<noteq> os_key (filePath s) \<Longrightarrow> fileAt (snd (fileRevert s p fs)) js = fileAt fs js"
  by (auto simp: fileRevert_def Let_def removeFile_others writeFile_others split: option.splits)

lemma fileState_roundtrip: "unmarshalFileState (marshalFileState c (perm ro)) = Some (c, perm ro)"
proof -
  have le: "''content'' \<le> (''mode'' :: string)" by code_simp
  have "go_map [(''content'', x), (''mode'', y)] = [(''content'', x), (''mode'', y)]" for x y :: json
    using le by (intro go_map_id) (simp add: is_go_map_def)
  moreover have "go_map [(''mode'', y)] = [(''mode'', y)]" for y :: json
    by (rule go_map_id) (simp add: is_go_map_def)
  moreover have "atoi (itoa (int (perm ro))) = Some (int (perm ro))"
    by (rule atoi_itoa) (simp_all add: perm_def min_int64_def max_int64_def)
  moreover have "perm ro \<noteq> 0" "int (perm ro) < 2 ^ 32" by (simp_all add: perm_def)
  ultimately show ?thesis
    by (simp add: unmarshalFileState_def marshalFileState_def unmarshal_object_def b64_roundtrip)
qed

lemma fileGet_describes:
  assumes "fileGet s fs = Ok st" "smallFile (fileAt fs (os_key (filePath s)))"
  shows "describes st (fileAt fs (os_key (filePath s)))"
  using assms
  by (auto simp: fileGet_def Let_def os_ReadFile_def describes_def fileAt_def smallFile_def
      split: option.splits node.splits if_splits)

lemma fileSet_unrecorded:
  assumes "fileTest sha s fs = Ok False" "\<forall>st. fileGet s fs \<noteq> Ok st"
  shows "fileAt (snd (fileSet s fs)) (os_key (filePath s)) = fileAt fs (os_key (filePath s))"
proof -
  have "nodeAt fs (os_key (filePath s)) = Some NDir \<or> nodeAt fs (os_key (filePath s)) = Some NLink"
    and "checkNoLinks fs (os_key (filePath s)) = None" and "s_Ensure s = EnsureAbsent"
    using assms by (auto simp: fileGet_def fileTest_def Let_def os_ReadFile_def io_text_def
        split: option.splits node.splits if_splits io_error.splits)
  then show ?thesis
    by (auto simp: fileSet_def Let_def fileAt_def removeFile_folder [unfolded fileAt_def])
qed

lemma fileRevert_restores:
  assumes "describes p v" "fileRevert s p fs = (None, fs')"
  shows "fileAt fs' (os_key (filePath s)) = v"
proof (cases v)
  case None
  then have "removeFile (os_key (filePath s)) fs = (None, fs')"
    using assms by (simp add: describes_def fileRevert_def Let_def split: option.splits)
  then show ?thesis using None removeFile_own [of "os_key (filePath s)" fs] by simp
next
  case (Some c)
  then obtain ro where "st_Exists p" "st_Data p = Some (marshalFileState c (perm ro))"
    using assms by (auto simp: describes_def)
  then have "writeFile (os_key (filePath s)) c (if perm ro = 0 then 420 else perm ro) False fs = (None, fs')"
    using assms by (simp add: fileRevert_def Let_def fileState_roundtrip split: option.splits if_splits)
  then show ?thesis using Some writeFile_own by (metis fst_conv snd_conv)
qed

lemma handlerFor_beside:
  "handlerFor (map besideFiles others) kind = Some h \<Longrightarrow> \<exists>h'. h = besideFiles h'"
  by (induction others) (auto split: if_splits)

lemma machineHandlers_cases:
  assumes "handlerFor (machineHandlers sha others) kind = Some h"
  obtains (own) "kind = KindFile" "h = FileHandler sha"
  | (beside) h' where "kind \<noteq> KindFile" "h = besideFiles h'"
  using assms by (auto simp: machineHandlers_def FileHandler_def split: if_splits dest: handlerFor_beside)

lemma FileHandler_Set [simp]:
  "fst (snd (h_Set (FileHandler sha) s w)) = snd (fileSet s (fst w))"
  by (simp add: FileHandler_def split: prod.splits option.splits)

lemma FileHandler_Revert [simp]:
  "h_Revert (FileHandler sha) = Some (\<lambda>s p w. case fileRevert s p (fst w) of (e, fs) \<Rightarrow> (e, (fs, snd w)))"
  by (simp add: FileHandler_def)

lemma besideFiles_Set [simp]: "fst (snd (h_Set (besideFiles h) s w)) = fst w"
  by (simp add: besideFiles_def split: prod.splits)

lemma besideFiles_Revert: "h_Revert (besideFiles h) = Some rv \<Longrightarrow> fst (snd (rv s p w)) = fst w"
  by (auto simp: besideFiles_def split: prod.splits)

interpretation files: reversible "machineHandlers sha others" lib isFileId fileView describes smallFile
  for sha :: "string \<Rightarrow> string" and others :: "'o Handler list" and lib :: cert_lib
proof
  fix s :: Setting and h :: "(fsys \<times> 'o) Handler" and k w
  assume "handlerFor (machineHandlers sha others) (s_Kind s) = Some h" "isFileId k" "k \<noteq> Identity lib s"
  then show "fileView k (snd (h_Set h s w)) = fileView k w"
    by (cases rule: machineHandlers_cases) (simp_all add: fileView_def file_keys_differ fileSet_others)
next
  fix s :: Setting and h :: "(fsys \<times> 'o) Handler" and rv k w and st :: State
  assume "handlerFor (machineHandlers sha others) (s_Kind s) = Some h" "h_Revert h = Some rv"
    "isFileId k" "k \<noteq> Identity lib s"
  then show "fileView k (snd (rv s st w)) = fileView k w"
  proof (cases rule: machineHandlers_cases)
    case own
    then have "fst (snd (rv s st w)) = snd (fileRevert s st (fst w))"
      using \<open>h_Revert h = Some rv\<close> by (auto split: prod.splits)
    with own \<open>isFileId k\<close> \<open>k \<noteq> Identity lib s\<close> show ?thesis
      by (simp add: fileView_def file_keys_differ fileRevert_others)
  next
    case (beside h')
    with \<open>h_Revert h = Some rv\<close> show ?thesis by (simp add: fileView_def besideFiles_Revert)
  qed
next
  fix s :: Setting and h :: "(fsys \<times> 'o) Handler" and w st
  assume h: "handlerFor (machineHandlers sha others) (s_Kind s) = Some h" and k: "isFileId (Identity lib s)"
    and g: "h_Get h s w = Ok st" "smallFile (fileView (Identity lib s) w)"
  note kind = isFileId_kind [OF k]
  from h have "h = FileHandler sha" by (cases rule: machineHandlers_cases) (simp_all add: kind)
  with g show "describes st (fileView (Identity lib s) w)"
    by (simp add: FileHandler_def fileView_own [OF kind] fileGet_describes)
next
  fix s :: Setting and h :: "(fsys \<times> 'o) Handler" and w
  assume h: "handlerFor (machineHandlers sha others) (s_Kind s) = Some h" and k: "isFileId (Identity lib s)"
    and t: "h_Test h s w = Ok False" "\<forall>st. h_Get h s w \<noteq> Ok st"
  note kind = isFileId_kind [OF k]
  from h have fh: "h = FileHandler sha" by (cases rule: machineHandlers_cases) (simp_all add: kind)
  then have "fileTest sha s (fst w) = Ok False" "\<forall>st. fileGet s (fst w) \<noteq> Ok st"
    using t by (simp_all add: FileHandler_def)
  then show "fileView (Identity lib s) (snd (h_Set h s w)) = fileView (Identity lib s) w"
    by (simp add: fh fileView_own [OF kind] fileSet_unrecorded)
next
  fix s :: Setting and h :: "(fsys \<times> 'o) Handler" and rv st v w w'
  assume h: "handlerFor (machineHandlers sha others) (s_Kind s) = Some h" and rv: "h_Revert h = Some rv"
    and k: "isFileId (Identity lib s)" and v: "describes st v" and r: "rv s st w = (None, w')"
  note kind = isFileId_kind [OF k]
  from h have "h = FileHandler sha" by (cases rule: machineHandlers_cases) (simp_all add: kind)
  then have "fileRevert s st (fst w) = (None, fst w')"
    using rv r by (auto split: prod.splits)
  from fileRevert_restores [OF v this] show "fileView (Identity lib s) w' = v"
    by (simp add: fileView_own [OF kind])
qed

section \<open>The properties of the agent\<close>

text \<open>
  C31. The agent never loses what a file of at most 1 MiB held before it first changed it. In every history of
  cycles and of changes made to the machine between them, for every file a setting can name whose
  original contents are within that cap: either the agent has nothing recorded and the file holds its
  original contents, or the record it has is such that reverting it, whenever that succeeds, brings the
  original contents back. (Of a larger file the agent records that it exists and nothing more,
  and overwrites it all the same.) Reading and writing the record of this file do not fail, a write of a file
  happens entirely or not at all, and the file system is one of Windows, where names that differ in
  upper and lower case are one; other files and records may fail or be of any size.
\<close>

theorem file_originals_kept:
  assumes "policy_run (machineHandlers sha others) lib fileView k ag orig" "isFileId k" "smallFile (orig k)"
  shows "(prior ag k = None \<and> fileView k (machine ag) = orig k)
    \<or> (\<exists>p. prior ag k = Some (Some p) \<and> Identity lib (p_Setting p) = k
         \<and> (\<forall>fs fs'. fileRevert (p_Setting p) (p_State p) fs = (None, fs') \<longrightarrow>
              fileAt fs' (os_key (filePath (p_Setting p))) = orig k))"
proof (cases "prior ag k")
  case None
  then show ?thesis using files.originals_kept(1) [OF assms] by simp
next
  case (Some q)
  then obtain p where "q = Some p" "Identity lib (p_Setting p) = k" "describes (p_State p) (orig k)"
    using files.originals_kept(2) [OF assms, of q] by auto
  then show ?thesis using Some fileRevert_restores by auto
qed

text \<open>
  A cycle touches only what it has to. The contents of a file stay as they are unless an
  active profile has a setting for the file, or the file belonged to a profile that is no longer
  assigned, that asked to be reverted, and that no assigned profile still claims; a profile that is
  held protects its files too.
\<close>

theorem file_cycle_frame:
  assumes "rc_Handlers r = machineHandlers sha others" "keyed (rc_lib r) ag" "isFileId k"
    "\<not> claimed (rc_lib r) (activeOf assigned) k"
    "claimed (rc_lib r) assigned k \<or>
      (\<forall>(pid, rc) \<in> set (records ag). \<not> list_ex (\<lambda>a. a_ProfileID a = pid) assigned \<longrightarrow>
         rec_RevertOnRemoval rc \<longrightarrow> k \<notin> set (rec_Identities rc))"
  shows "fileView k (machine (snd (Reconcile r assigned ag))) = fileView k (machine ag)"
  using assms by (intro files.Reconcile_frame [OF assms(1) refl]) simp_all

section \<open>A history\<close>

definition sample_agent :: "(fsys \<times> unit) Reconciler" where
  "sample_agent = \<lparr>rc_Handlers = machineHandlers id [], rc_lib = sample_lib, rc_fails = (\<lambda>_. False),
     rc_reportFails = (\<lambda>_. False)\<rparr>"

definition sample_fs :: fsys where
  "sample_fs = [([''c:'', ''x''], NFile ''old'' False)]"

definition sample_cycle :: "(fsys \<times> unit) agent" where
  "sample_cycle = snd (Reconcile sample_agent [sample_profile ''p'' [sample_file ''c:/x'' ''YQ=='']]
     (fresh_agent (sample_fs, ())))"

lemma sample_fs_small: "smallFile (fileView k (sample_fs, ()))"
  by (simp add: smallFile_def fileView_def fileAt_def nodeAt_def sample_fs_def)

lemma sample_run:
  "policy_run (machineHandlers id []) sample_lib fileView k sample_cycle
     (\<lambda>k. fileView k (sample_fs, ()))"
  unfolding sample_cycle_def
  by (intro policy_run.intros) (simp_all add: sample_agent_def)

theorem file_originals_kept_witness:
  "isFileId ''file:c:/x''
   \<and> ((prior sample_cycle ''file:c:/x'' = None
         \<and> fileView ''file:c:/x'' (machine sample_cycle) = fileView ''file:c:/x'' (sample_fs, ()))
      \<or> (\<exists>p. prior sample_cycle ''file:c:/x'' = Some (Some p)
           \<and> Identity sample_lib (p_Setting p) = ''file:c:/x''
           \<and> (\<forall>fs fs'. fileRevert (p_Setting p) (p_State p) fs = (None, fs') \<longrightarrow>
                fileAt fs' (os_key (filePath (p_Setting p))) = fileView ''file:c:/x'' (sample_fs, ()))))"
proof -
  have k: "isFileId ''file:c:/x''" by code_simp
  from conjI [OF k file_originals_kept [OF sample_run k sample_fs_small]] show ?thesis .
qed

theorem file_cycle_frame_witness:
  "isFileId ''file:c:/y'' \<and> fileView ''file:c:/y'' (machine sample_cycle) = fileView ''file:c:/y'' (sample_fs, ())"
proof -
  have k: "isFileId ''file:c:/y''" by code_simp
  have other: "\<not> claimed sample_lib (activeOf [sample_profile ''p'' [sample_file ''c:/x'' ''YQ=='']]) ''file:c:/y''"
    by code_simp
  have "fileView ''file:c:/y'' (machine (snd (Reconcile sample_agent
      [sample_profile ''p'' [sample_file ''c:/x'' ''YQ=='']] (fresh_agent (sample_fs, ()))))) =
    fileView ''file:c:/y'' (machine (fresh_agent (sample_fs, ())))"
    by (rule file_cycle_frame [where sha = id and others = "[]", OF _ _ k])
       (use other in \<open>simp_all add: sample_agent_def keyed_def fresh_agent_def\<close>)
  with k show ?thesis by (simp add: sample_cycle_def fresh_agent_def)
qed

text \<open>
  \<^verbatim>\<open>Revert\<close> records a file's mode to restore the file as it was, but the mode is used only
  when the file is created anew: a read-only file that was removed and written again comes back
  with its contents, and writable.
\<close>

lemma revert_loses_mode:
  "fileRevert (sample_file ''c:/x'' []) \<lparr>st_Exists = True, st_Data = Some (marshalFileState ''old'' (perm True))\<rparr>
     [([''c:'', ''x''], NFile ''new'' False)] = (None, [([''c:'', ''x''], NFile ''old'' False)])"
  by code_simp

end
