(* ===== verification/Maintenance_Window.thy ===== *)
theory Maintenance_Window
  imports Json
begin

text \<open>
  Maintenance windows (\<^verbatim>\<open>src/internal/protocol/window.go\<close>): when scripts, apps and agent
  updates may change a device. A window opens at a time of day for up to 24 hours on some days of
  the week, in the device's local time. The location is a fixed offset from UTC, the parameter
  \<open>zone\<close>: a change of summer time within a window is not modelled. The theorems: looking at the
  openings of today and of yesterday is enough to find every opening that contains an instant,
  and a window that cannot be read holds changes back instead of letting them through.
\<close>

section \<open>Windows\<close>

definition weekdays :: "string list" where
  "weekdays = [''sun'', ''mon'', ''tue'', ''wed'', ''thu'', ''fri'', ''sat'']"

record Window =
  w_Days :: "string list"
  w_Start :: string
  w_DurationMinutes :: int

text \<open>\<^verbatim>\<open>time.Parse("15:04", s)\<close>: one or two digits for the hour, two for the minute.\<close>

definition parse_clock :: "string \<Rightarrow> (int \<times> int) option" where
  "parse_clock s =
     (case cut (CHR '':'') s of
        None \<Rightarrow> None
      | Some (h, m) \<Rightarrow>
          if all_digits h \<and> length h \<le> 2 \<and> digits_value h < 24
             \<and> all_digits m \<and> length m = 2 \<and> digits_value m < 60
          then Some (int (digits_value h), int (digits_value m)) else None)"

definition startClock :: "Window \<Rightarrow> (int \<times> int) option" where
  "startClock w = parse_clock (w_Start w)"

datatype window_error = BadStart | BadDuration | BadDay string

fun normalDays :: "string list \<Rightarrow> string list \<Rightarrow> window_error + string list" where
  "normalDays days [] = Inr days"
| "normalDays days (d # ds) =
     (let d' = to_lower (trim_space d) in
      if d' \<notin> set weekdays then Inl (BadDay d') else normalDays (add_new days d') ds)"

definition Window_Validate :: "Window \<Rightarrow> window_error + Window" where
  "Window_Validate w =
     (if startClock w = None then Inl BadStart
      else if w_DurationMinutes w < 1 \<or> w_DurationMinutes w > 24 * 60 then Inl BadDuration
      else bindE (normalDays [] (w_Days w)) (\<lambda>days. Inr (w\<lparr>w_Days := days\<rparr>)))"

abbreviation day_length :: int where "day_length \<equiv> 86400000000000"

text \<open>The number of a local day, counted from 1 January of year 1, a Monday.\<close>

definition dayNumber :: "duration \<Rightarrow> go_time \<Rightarrow> int" where
  "dayNumber zone t = (t + zone) div day_length"

definition startOf :: "duration \<Rightarrow> int \<Rightarrow> int \<times> int \<Rightarrow> go_time" where
  "startOf zone day clock = day * day_length + fst clock * hour + snd clock * minute - zone"

definition onDay :: "Window \<Rightarrow> int \<Rightarrow> bool" where
  "onDay w day \<longleftrightarrow> w_Days w = [] \<or> weekdays ! nat ((day + 1) mod 7) \<in> set (w_Days w)"

definition Contains :: "duration \<Rightarrow> Window \<Rightarrow> go_time \<Rightarrow> bool" where
  "Contains zone w t =
     (case startClock w of
        None \<Rightarrow> False
      | Some clock \<Rightarrow>
          w_DurationMinutes w \<ge> 1
          \<and> list_ex (\<lambda>back.
               let day = dayNumber zone t + back; start = startOf zone day clock in
               onDay w day \<and> start \<le> t \<and> t < time_add start (dur_mul (w_DurationMinutes w) minute)) [0, -1])"

section \<open>The windows of a check-in\<close>

text \<open>An item of a check-in response (\<^verbatim>\<open>src/internal/protocol/v1.go\<close>), its options decoded.\<close>

record Item =
  i_Kind :: string
  i_ID :: string
  i_Version :: int
  i_Options :: "json option"

record Windows =
  ws_Assigned :: bool
  ws_Valid :: "Window list"

abbreviation "ItemKindWindow \<equiv> ''window''"

definition unmarshalWindow :: "json \<Rightarrow> Window option" where
  "unmarshalWindow j =
     (case unmarshal_object j of
        None \<Rightarrow> None
      | Some ms \<Rightarrow>
          Option.bind (case map_of ms ''days'' of None \<Rightarrow> Some [] | Some v \<Rightarrow> unmarshal_strings v) (\<lambda>days.
          Option.bind (case map_of ms ''start'' of None \<Rightarrow> Some [] | Some v \<Rightarrow> unmarshal_string v) (\<lambda>start.
          Option.bind (case map_of ms ''duration_minutes'' of None \<Rightarrow> Some 0 | Some v \<Rightarrow> unmarshal_int v) (\<lambda>n.
            Some \<lparr>w_Days = days, w_Start = start, w_DurationMinutes = n\<rparr>))))"

definition readWindow :: "Item \<Rightarrow> Window option" where
  "readWindow it =
     (case Option.bind (i_Options it) unmarshalWindow of
        None \<Rightarrow> None
      | Some w \<Rightarrow> (case Window_Validate w of Inl _ \<Rightarrow> None | Inr w' \<Rightarrow> Some w'))"

definition WindowsFrom :: "Item list \<Rightarrow> Windows" where
  "WindowsFrom items =
     (let ws = filter (\<lambda>it. i_Kind it = ItemKindWindow) items in
      \<lparr>ws_Assigned = ws \<noteq> [], ws_Valid = List.map_filter readWindow ws\<rparr>)"

definition Open :: "duration \<Rightarrow> Windows \<Rightarrow> go_time \<Rightarrow> bool" where
  "Open zone ws t \<longleftrightarrow> \<not> ws_Assigned ws \<or> list_ex (\<lambda>w. Contains zone w t) (ws_Valid ws)"

section \<open>What is proved\<close>

lemma parse_clock_bounds:
  assumes "parse_clock s = Some c"
  shows "0 \<le> fst c \<and> fst c < 24 \<and> 0 \<le> snd c \<and> snd c < 60"
  using assms by (auto simp: parse_clock_def split: option.splits if_splits prod.splits)

lemma clock_within_day:
  assumes "parse_clock s = Some c"
  shows "0 \<le> fst c * hour + snd c * minute" "fst c * hour + snd c * minute < day_length"
  using parse_clock_bounds [OF assms] by (simp_all add: hour_def minute_def)

definition valid_window :: "Window \<Rightarrow> bool" where
  "valid_window w \<longleftrightarrow> startClock w \<noteq> None \<and> 1 \<le> w_DurationMinutes w \<and> w_DurationMinutes w \<le> 1440
     \<and> set (w_Days w) \<subseteq> set weekdays \<and> distinct (w_Days w)"

lemma normalDays_ok:
  "normalDays days ds = Inr r \<Longrightarrow> set days \<subseteq> set weekdays \<Longrightarrow> distinct days \<Longrightarrow>
     set r \<subseteq> set weekdays \<and> distinct r"
  by (induction days ds rule: normalDays.induct) (auto simp: Let_def add_new_def split: if_splits)

lemma Window_Validate_valid: "Window_Validate w = Inr w' \<Longrightarrow> valid_window w'"
  using normalDays_ok [of "[]" "w_Days w"]
  by (auto simp: Window_Validate_def valid_window_def startClock_def bindE_eq_Inr split: if_splits)

text \<open>
  Today and yesterday are enough. For a valid window, \<^verbatim>\<open>Contains\<close>, which looks at the
  openings of the current and the previous local day only, accepts an instant exactly when some
  opening, on whatever day, has begun and has not run for its duration yet.
\<close>

theorem Contains_exact:
  assumes "valid_window w" "startClock w = Some clock"
  shows "Contains zone w t \<longleftrightarrow>
    (\<exists>day. onDay w day \<and> startOf zone day clock \<le> t
       \<and> t < startOf zone day clock + w_DurationMinutes w * minute)"
proof -
  have clock: "0 \<le> fst clock * hour + snd clock * minute" "fst clock * hour + snd clock * minute < day_length"
    using clock_within_day [of "w_Start w" clock] assms(2) by (simp_all add: startClock_def)
  have dur: "w_DurationMinutes w * minute \<le> day_length"
    using assms(1) by (simp add: valid_window_def minute_def)
  have near: "day = dayNumber zone t \<or> day = dayNumber zone t - 1"
    if "startOf zone day clock \<le> t" "t < startOf zone day clock + w_DurationMinutes w * minute" for day
  proof -
    have "day * day_length \<le> t + zone" using that(1) clock(1) by (simp add: startOf_def)
    then have "day \<le> dayNumber zone t" by (simp add: dayNumber_def int_le_div_iff)
    moreover have "t + zone < (day + 2) * day_length"
      using that(2) clock(2) dur by (simp add: startOf_def algebra_simps)
    then have "dayNumber zone t < day + 2" by (simp add: dayNumber_def int_div_less_iff)
    ultimately show ?thesis by linarith
  qed
  have "1 \<le> w_DurationMinutes w" using assms(1) by (simp add: valid_window_def)
  moreover have "dur_mul (w_DurationMinutes w) minute = w_DurationMinutes w * minute"
    unfolding dur_mul_def using assms(1)
    by (intro wrap64_id) (simp_all add: valid_window_def minute_def min_int64_def max_int64_def)
  ultimately show ?thesis
    using assms(2) near by (auto simp: Contains_def Let_def time_add_def)
qed

definition sample_window :: Window where
  "sample_window = \<lparr>w_Days = [''mon''], w_Start = ''22:00'', w_DurationMinutes = 240\<rparr>"

theorem Contains_exact_witness:
  "Contains 0 sample_window 90000000000000 \<longleftrightarrow>
     (\<exists>day. onDay sample_window day \<and> startOf 0 day (22, 0) \<le> 90000000000000
        \<and> 90000000000000 < startOf 0 day (22, 0) + 240 * minute)"
proof -
  have "valid_window sample_window" "startClock sample_window = Some (22, 0)" by code_simp+
  from Contains_exact [OF this, of 0 "90000000000000"] show ?thesis by (simp add: sample_window_def)
qed

text \<open>
  Misunderstanding a window holds changes back. When a check-in lists windows, changes may be
  made only at an instant inside an opening of a window that could be read and is valid, so
  windows the agent cannot read never let anything through; without any window, any time will do.
\<close>

theorem Open_fails_closed:
  "Open zone (WindowsFrom items) t \<longleftrightarrow>
     (if list_ex (\<lambda>it. i_Kind it = ItemKindWindow) items
      then list_ex (\<lambda>it. i_Kind it = ItemKindWindow
         \<and> (case readWindow it of None \<Rightarrow> False | Some w \<Rightarrow> valid_window w \<and> Contains zone w t)) items
      else True)"
proof -
  have valid: "valid_window w" if "readWindow it = Some w" for it w
    using that Window_Validate_valid by (auto simp: readWindow_def split: option.splits sum.splits)
  define ws where "ws = filter (\<lambda>it. i_Kind it = ItemKindWindow) items"
  have some: "ws = [] \<longleftrightarrow> \<not> list_ex (\<lambda>it. i_Kind it = ItemKindWindow) items"
    by (auto simp: ws_def filter_empty_conv list_ex_iff)
  have "list_ex (\<lambda>w. Contains zone w t) (List.map_filter readWindow ws) \<longleftrightarrow>
      list_ex (\<lambda>it. case readWindow it of None \<Rightarrow> False | Some w \<Rightarrow> valid_window w \<and> Contains zone w t) ws"
    using valid by (induction ws) (auto simp: List.map_filter_simps split: option.splits)
  also have "\<dots> \<longleftrightarrow> list_ex (\<lambda>it. i_Kind it = ItemKindWindow
      \<and> (case readWindow it of None \<Rightarrow> False | Some w \<Rightarrow> valid_window w \<and> Contains zone w t)) items"
    by (auto simp: ws_def list_ex_iff)
  finally show ?thesis using some by (simp add: Open_def WindowsFrom_def Let_def ws_def [symmetric])
qed

end
