(* ===== verification/Policy_Sync.thy ===== *)
theory Policy_Sync
  imports Policy_Revert Release Maintenance_Window
begin

text \<open>
  From a check-in's items to a cycle (\<^verbatim>\<open>src/internal/agent/policy/sync.go\<close>, with
  \<^verbatim>\<open>ProfileManifest\<close> of \<^verbatim>\<open>src/internal/protocol/signing.go\<close> and the profile cache of
  \<^verbatim>\<open>src/internal/agent/state\<close>): each profile item is turned into an assigned profile, from
  the cache or from the server, and held unless its operations signature verifies. What the
  server answers and which cache operations fail are parameters. Options are decoded JSON.
\<close>

section \<open>Profile versions and their signatures\<close>

record ProfileVersionResponse =
  pv_Version :: int
  pv_Settings :: "Setting list"
  pv_Hash :: string
  pv_Signature :: "op_signature option"

definition ProfileManifest :: "crypto \<Rightarrow> Setting list \<Rightarrow> string" where
  "ProfileManifest C settings =
     (let clean = map (\<lambda>s. s\<lparr>s_SealedSecret := None, s_SecretSet := False\<rparr>) settings in
      ''retune-profile-manifest/v1'' @ [CHR 0x0A] @ ''settings=''
      @ hex_encode (cr_sha256 C (json_text (JArr (map marshalSetting clean)))) @ [CHR 0x0A])"

section \<open>Synchronising\<close>

type_synonym profile_cache = "string \<Rightarrow> int \<Rightarrow> ProfileVersionResponse option"

record 'w Syncer =
  sy_Reconciler :: "'w Reconciler"
  sy_Fetch :: "string \<Rightarrow> int \<Rightarrow> string + ProfileVersionResponse"
  sy_hasCache :: bool
  sy_readFails :: "string \<Rightarrow> int \<Rightarrow> bool"
  sy_writeFails :: "string \<Rightarrow> bool"
  sy_Operations :: op_policy

definition CacheProfile :: "string \<Rightarrow> ProfileVersionResponse \<Rightarrow> profile_cache \<Rightarrow> profile_cache" where
  "CacheProfile k v cache = cache(k := (\<lambda>n. if n = pv_Version v then Some v else None))"

definition settings ::
  "'w Syncer \<Rightarrow> Item \<Rightarrow> profile_cache \<Rightarrow> (string + ProfileVersionResponse) \<times> profile_cache" where
  "settings sy item cache =
     (case (if sy_hasCache sy \<and> \<not> sy_readFails sy (i_ID item) (i_Version item)
            then cache (i_ID item) (i_Version item) else None) of
        Some v \<Rightarrow> (Inr v, cache)
      | None \<Rightarrow>
          (case sy_Fetch sy (i_ID item) (i_Version item) of
             Inl e \<Rightarrow> (Inl e, cache)
           | Inr v \<Rightarrow>
               if \<not> sy_hasCache sy then (Inr v, cache)
               else if sy_writeFails sy (i_ID item) then (Inl ''cache the profile'', cache)
               else (Inr v, CacheProfile (i_ID item) v cache)))"

text \<open>\<^verbatim>\<open>json.Unmarshal\<close> into the options: member names match whatever their case, null and a
  value of the wrong type leave the field as it is.\<close>

definition unmarshalOptions :: "json \<Rightarrow> ProfileOptions" where
  "unmarshalOptions raw =
     (case raw of
        JObj ms \<Rightarrow> foldl (\<lambda>opts (k, v). if equal_fold k ''revert_on_removal''
                              then (case v of JBool b \<Rightarrow> opts\<lparr>RevertOnRemoval := b\<rparr> | _ \<Rightarrow> opts) else opts)
                    \<lparr>RevertOnRemoval = False\<rparr> ms
      | _ \<Rightarrow> \<lparr>RevertOnRemoval = False\<rparr>)"

definition sign_error_text :: "sign_error \<Rightarrow> string" where
  "sign_error_text e = (case e of
     Unsigned \<Rightarrow> ''this is not signed by an operations key''
   | UntrustedKey k \<Rightarrow> ''signed by a key that is not a trusted operations key (key '' @ k @ '')''
   | SignatureNotBase64 \<Rightarrow> ''the operations signature does not match: not base64''
   | Expired \<Rightarrow> ''the signed order has expired''
   | NoKeys \<Rightarrow> ''no operations key is trusted, so nothing signed can be accepted''
   | _ \<Rightarrow> ''the operations signature does not match'')"

definition refused :: "sign_error \<Rightarrow> string" where
  "refused e = ''refused: '' @ sign_error_text e"

definition assignedOf :: "crypto \<Rightarrow> op_policy \<Rightarrow> Item \<Rightarrow> ProfileVersionResponse \<Rightarrow> Assigned" where
  "assignedOf C ops item v =
     \<lparr>a_ProfileID = i_ID item, a_Version = i_Version item, a_Settings = pv_Settings v,
      a_Options = (case i_Options item of None \<Rightarrow> \<lparr>RevertOnRemoval = False\<rparr> | Some raw \<Rightarrow> unmarshalOptions raw),
      a_Held = (if op_enforced ops then
                  (case opsign_Verify C (op_keys ops) (ProfileManifest C (pv_Settings v)) (pv_Signature v) of
                     None \<Rightarrow> [] | Some e \<Rightarrow> refused e)
                else [])\<rparr>"

abbreviation "ItemKindProfile \<equiv> ''profile''"

fun syncItems ::
  "crypto \<Rightarrow> 'w Syncer \<Rightarrow> Item list \<Rightarrow> profile_cache \<Rightarrow> Assigned list \<times> profile_cache" where
  "syncItems C sy [] cache = ([], cache)"
| "syncItems C sy (item # items) cache =
     (if i_Kind item \<noteq> ItemKindProfile then syncItems C sy items cache
      else case settings sy item cache of
        (Inl e, cache') \<Rightarrow> syncItems C sy items cache'
      | (Inr v, cache') \<Rightarrow>
          (case syncItems C sy items cache' of
             (as, cache'') \<Rightarrow> (assignedOf C (sy_Operations sy) item v # as, cache'')))"

definition Sync ::
  "crypto \<Rightarrow> 'w Syncer \<Rightarrow> Item list \<Rightarrow> profile_cache \<Rightarrow> 'w agent
     \<Rightarrow> (ProfileStatus list \<times> string option) \<times> 'w agent \<times> profile_cache" where
  "Sync C sy items cache ag =
     (case syncItems C sy items cache of
        (assigned, cache') \<Rightarrow>
          (case Reconcile (sy_Reconciler sy) assigned ag of (rep, ag') \<Rightarrow> (rep, ag', cache')))"

section \<open>Only signed profiles act\<close>

lemma refused_ne [simp]: "refused e \<noteq> []"
  by (simp add: refused_def)

lemma syncItems_assigned:
  "a \<in> set (fst (syncItems C sy items cache)) \<Longrightarrow>
     \<exists>item \<in> set items. \<exists>v. i_Kind item = ItemKindProfile \<and> a = assignedOf C (sy_Operations sy) item v"
proof (induction items arbitrary: cache)
  case (Cons item items)
  show ?case
  proof (cases "i_Kind item = ItemKindProfile")
    case False
    with Cons show ?thesis by auto
  next
    case True
    obtain res cache' where st: "settings sy item cache = (res, cache')" by (metis prod.exhaust)
    then show ?thesis
      using Cons.prems Cons.IH [of cache'] True
      by (cases res) (auto split: prod.splits)
  qed
qed simp

definition signedBy :: "crypto \<Rightarrow> public_key list \<Rightarrow> Setting list \<Rightarrow> bool" where
  "signedBy C trusted ss \<longleftrightarrow>
     (\<exists>k \<in> set trusted. \<exists>raw. cr_verify C k (ProfileManifest C ss) raw)"

lemma opsign_Verify_signed:
  assumes "opsign_Verify C trusted (ProfileManifest C ss) sig = None"
  shows "signedBy C trusted ss"
  using assms
  by (auto simp: opsign_Verify_def verifyWith_def signedBy_def split: if_splits option.splits dest!: find_SomeD)

text \<open>
  C33. An agent that requires signatures acts on nothing else. Whatever the server and the cache
  answer, every setting the cycle is going to test or apply belongs to a profile version whose
  exact settings a trusted operations key has signed.
\<close>

theorem Sync_only_signed:
  assumes "op_enforced (sy_Operations sy)"
    "act \<in> set (Plan lib (activeOf (fst (syncItems C sy items cache))))"
  shows "\<exists>a \<in> set (fst (syncItems C sy items cache)).
    act_Setting act \<in> set (a_Settings a) \<and> signedBy C (op_keys (sy_Operations sy)) (a_Settings a)"
proof -
  define as where "as = fst (syncItems C sy items cache)"
  obtain k where k: "k \<in> set (claimedIds lib (activeOf as))"
    and act: "act = actionOf k (claimsOn lib (activeOf as) k)"
    using assms(2) by (auto simp: Plan_eq set_fold_add_new as_def)
  have "hd (claimsOn lib (activeOf as) k) \<in> set (claimsOn lib (activeOf as) k)"
    using k by (simp add: claimsOn_ne)
  then obtain a where a: "a \<in> set as" "a_Held a = []" "act_Setting act \<in> set (a_Settings a)"
    by (auto simp: act claimsOn_def claimsOf_def activeOf_def)
  obtain item v where "a = assignedOf C (sy_Operations sy) item v"
    using syncItems_assigned [of a C sy items cache] a(1) by (auto simp: as_def)
  then have "opsign_Verify C (op_keys (sy_Operations sy)) (ProfileManifest C (a_Settings a)) (pv_Signature v) = None"
    using a(2) assms(1) by (auto simp: assignedOf_def split: option.splits)
  from opsign_Verify_signed [OF this] a show ?thesis by (auto simp: as_def)
qed

definition sample_version :: ProfileVersionResponse where
  "sample_version = \<lparr>pv_Version = 1, pv_Settings = [sample_file ''c:/x'' []], pv_Hash = [],
     pv_Signature = Some (opsign_Sign sample_crypto [] (ProfileManifest sample_crypto [sample_file ''c:/x'' []]))\<rparr>"

definition sample_item :: Item where
  "sample_item = \<lparr>i_Kind = ItemKindProfile, i_ID = ''p'', i_Version = 1, i_Options = None\<rparr>"

definition sample_syncer :: "(string + ProfileVersionResponse) \<Rightarrow> bool Syncer" where
  "sample_syncer answer = \<lparr>sy_Reconciler = sample_reconciler, sy_Fetch = (\<lambda>_ _. answer), sy_hasCache = True,
     sy_readFails = (\<lambda>_ _. False), sy_writeFails = (\<lambda>_. False),
     sy_Operations = \<lparr>op_enforced = True, op_keys = [cr_public sample_crypto []]\<rparr>\<rparr>"

lemma sample_verifies:
  "opsign_Verify sample_crypto [cr_public sample_crypto []] (ProfileManifest sample_crypto (pv_Settings sample_version))
     (pv_Signature sample_version) = None"
proof -
  have "cr_sign sample_crypto [] (ProfileManifest sample_crypto [sample_file ''c:/x'' []]) \<noteq> []"
    by (simp add: sample_crypto_def ProfileManifest_def Let_def)
  then show ?thesis
    unfolding sample_version_def ProfileVersionResponse.simps
    by (intro opsign_roundtrip [OF sample_crypto_ok]) simp_all
qed

lemma sample_synced:
  "fst (syncItems sample_crypto (sample_syncer (Inr sample_version)) [sample_item] (\<lambda>_ _. None)) =
     [sample_profile ''p'' [sample_file ''c:/x'' []] \<lparr>a_Options := \<lparr>RevertOnRemoval = False\<rparr>\<rparr>]"
  using sample_verifies
  by (simp add: sample_syncer_def sample_item_def settings_def assignedOf_def sample_profile_def)
     (simp add: sample_version_def)

theorem Sync_only_signed_witness:
  "\<exists>a \<in> set (fst (syncItems sample_crypto (sample_syncer (Inr sample_version)) [sample_item] (\<lambda>_ _. None))).
     sample_file ''c:/x'' [] \<in> set (a_Settings a)
     \<and> signedBy sample_crypto [cr_public sample_crypto []] (a_Settings a)"
proof -
  let ?as = "fst (syncItems sample_crypto (sample_syncer (Inr sample_version)) [sample_item] (\<lambda>_ _. None))"
  have "actionOf (Identity sample_lib (sample_file ''c:/x'' []))
      [\<lparr>c_profileID = ''p'', c_setting = sample_file ''c:/x'' []\<rparr>] \<in> set (Plan sample_lib (activeOf ?as))"
    unfolding sample_synced
    by (simp add: Plan_eq activeOf_def claimedIds_def claimsOf_def claimsOn_def add_new_def sample_profile_def)
  from Sync_only_signed [OF _ this] show ?thesis by (simp add: sample_syncer_def)
qed

section \<open>A profile that cannot be fetched\<close>

lemma syncItems_ids: "a_ProfileID ` set (fst (syncItems C sy items cache)) \<subseteq> i_ID ` set items"
  using syncItems_assigned [of _ C sy items cache] by (fastforce simp: assignedOf_def)

lemma syncItems_distinct:
  "distinct (map i_ID items) \<Longrightarrow> distinct (map a_ProfileID (fst (syncItems C sy items cache)))"
proof (induction items arbitrary: cache)
  case (Cons item items)
  obtain res cache' where st: "settings sy item cache = (res, cache')" by (metis prod.exhaust)
  obtain as cache'' where sub: "syncItems C sy items cache' = (as, cache'')" by (metis prod.exhaust)
  have "distinct (map a_ProfileID as)" "distinct (map a_ProfileID (fst (syncItems C sy items cache)))"
    using Cons.IH [of cache'] Cons.IH [of cache] Cons.prems sub by simp_all
  moreover have "i_ID item \<notin> a_ProfileID ` set as"
    using Cons.prems syncItems_ids [of C sy items cache'] sub by auto
  ultimately show ?case using st sub Cons.IH Cons.prems by (cases res) (simp_all add: assignedOf_def)
qed simp

lemma settings_cache_other:
  "i_ID item \<noteq> k \<Longrightarrow> snd (settings sy item cache) k = cache k"
  by (auto simp: settings_def CacheProfile_def split: option.splits sum.splits)

lemma syncItems_unfetched:
  assumes "\<forall>n. \<exists>e. sy_Fetch sy k n = Inl e"
  shows "cache k = (\<lambda>_. None) \<Longrightarrow> k \<notin> a_ProfileID ` set (fst (syncItems C sy items cache))"
proof (induction items arbitrary: cache)
  case (Cons item items)
  obtain res cache' where st: "settings sy item cache = (res, cache')" by (metis prod.exhaust)
  show ?case
  proof (cases "i_ID item = k")
    case True
    obtain e where "sy_Fetch sy k (i_Version item) = Inl e" using assms by blast
    then have "settings sy item cache = (Inl e, cache)"
      using True Cons.prems by (simp add: settings_def)
    with Cons show ?thesis by simp
  next
    case False
    then have "cache' k = (\<lambda>_. None)" using settings_cache_other [of item k sy cache] st Cons.prems by simp
    then have "k \<notin> a_ProfileID ` set (fst (syncItems C sy items cache'))" by (rule Cons.IH)
    moreover have "k \<notin> a_ProfileID ` set (fst (syncItems C sy items cache))"
      using Cons.prems by (rule Cons.IH)
    ultimately show ?thesis using False st by (cases res) (auto simp: assignedOf_def split: prod.splits)
  qed
qed simp

text \<open>
  A profile that is assigned but can be had neither from the cache nor from the server is
  treated like one that is no longer assigned: the cycle drops the agent's record of it, and with
  the record the profile's claim on its settings.
\<close>

theorem Sync_unfetched_forgotten:
  assumes "\<forall>x. \<not> rc_fails (sy_Reconciler sy) x" "distinct (map i_ID items)"
    "\<forall>n. \<exists>e. sy_Fetch sy k n = Inl e" "cache k = (\<lambda>_. None)"
  shows "map_of (records (fst (snd (Sync C sy items cache ag)))) k = None"
proof -
  define as where "as = fst (syncItems C sy items cache)"
  have "fst (snd (Sync C sy items cache ag)) = snd (Reconcile (sy_Reconciler sy) as ag)"
    by (simp add: Sync_def as_def split: prod.splits)
  moreover have "find (\<lambda>a. a_ProfileID a = k) as = None"
    using syncItems_unfetched [where cache = cache and C = C and items = items, OF assms(3) assms(4)]
    by (auto simp: find_None_iff as_def image_iff)
  moreover have "distinct (map a_ProfileID as)" using assms(2) by (simp add: as_def syncItems_distinct)
  ultimately show ?thesis using remembered_none [OF assms(1)] by simp
qed

theorem Sync_unfetched_forgotten_witness:
  "map_of (records (fst (snd (Sync sample_crypto (sample_syncer (Inl ''timeout'')) [sample_item] (\<lambda>_ _. None)
     \<lparr>machine = False, prior = (\<lambda>_. None),
      records = [(''p'', \<lparr>rec_Identities = [], rec_RevertOnRemoval = True, rec_Version = 1\<rparr>)]\<rparr>)))) ''p'' = None"
  by (rule Sync_unfetched_forgotten) (simp_all add: sample_syncer_def sample_reconciler_def)

end
