(* ===== verification/Self_Update.thy ===== *)
theory Self_Update
  imports Settings Release Maintenance_Window "HOL-Library.AList"
begin

text \<open>
  The agent's self-update (\<^verbatim>\<open>src/internal/agent/selfupdate\<close>): the decision to update
  (\<^verbatim>\<open>decide.go\<close>), the record of an attempt (\<^verbatim>\<open>record.go\<close>), staging a signed build
  and handing over to the supervisor (\<^verbatim>\<open>syncer.go\<close>), and the supervisor that puts the
  previous build back if the new one does not check in (\<^verbatim>\<open>supervise.go\<close>). A device is the
  record on disk, the service's configuration and the staged builds. What the server answers,
  which operations of the service manager and of the file system fail, and when the new build
  checks in are parameters. An operation of the service manager may fail with or without its
  effect: a stop that times out has been asked for and may still happen.

  Removing the folder of a staged build succeeds, where \<^verbatim>\<open>syncer.go\<close> logs a failure and goes on. The build has
  the name it has outside Windows, \<^verbatim>\<open>retune-agent\<close>; on Windows \<^verbatim>\<open>.exe\<close> is added, and folders of versions that
  differ in upper and lower case only would be one.

  The supervisor's loop is a function of the list of its polls; as long as the list goes on past
  the deadline it comes to an end.
\<close>

section \<open>Records and decisions\<close>

record update_record =
  u_ItemID :: string
  u_FromVersion :: string
  u_FromBinPath :: string
  u_FromArgs :: "string list"
  u_ToVersion :: string
  u_ToBinPath :: string
  u_StartedAt :: go_time
  u_Deadline :: go_time
  u_Status :: string
  u_Detail :: string
  u_Reported :: bool

abbreviation "StatusPending \<equiv> ''pending''"
abbreviation "StatusSucceeded \<equiv> ''succeeded''"
abbreviation "StatusRolledBack \<equiv> ''rolled_back''"
abbreviation "StatusRefused \<equiv> ''refused''"

definition zero_record :: update_record where
  "zero_record = \<lparr>u_ItemID = [], u_FromVersion = [], u_FromBinPath = [], u_FromArgs = [], u_ToVersion = [],
     u_ToBinPath = [], u_StartedAt = 0, u_Deadline = 0, u_Status = [], u_Detail = [], u_Reported = False\<rparr>"

datatype Decision = Update | Quiet string | Report string

definition Decide :: "string \<Rightarrow> string \<Rightarrow> bool \<Rightarrow> nat \<Rightarrow> update_record \<Rightarrow> Decision" where
  "Decide running assigned injected trusted attempted =
     (if \<not> injected then Report ''this build has no injected version, so it will not self-update''
      else if assigned = [] then Quiet ''the assigned build has no version''
      else if running = assigned then Quiet ''this device is already running the assigned version''
      else if trusted = 0 then Report ''this build has no trusted release keys, so it will not self-update''
      else if u_ToVersion attempted = assigned \<and> u_Status attempted = StatusRolledBack
      then Quiet ''this version was already tried here and rolled back''
      else if u_ToVersion attempted = assigned \<and> u_Status attempted = StatusPending
      then Quiet ''an update to this version is already under way''
      else Update)"

definition AlreadyRefused :: "update_record option \<Rightarrow> string \<Rightarrow> bool" where
  "AlreadyRefused r itemID =
     (case r of None \<Rightarrow> False | Some rec \<Rightarrow> u_Status rec = StatusRefused \<and> u_ItemID rec = itemID)"

datatype ReconcileAction = ReconcileNone | ReconcileReport | ReconcileAbandon

definition startReconcile :: "update_record option \<Rightarrow> string \<Rightarrow> go_time \<Rightarrow> ReconcileAction" where
  "startReconcile r running now =
     (case r of
        None \<Rightarrow> ReconcileNone
      | Some rec \<Rightarrow>
          if u_Status rec = StatusRolledBack then (if u_Reported rec then ReconcileNone else ReconcileReport)
          else if u_Status rec = StatusPending then
            (if u_ToVersion rec = running then ReconcileNone
             else if \<not> now < u_Deadline rec then ReconcileAbandon else ReconcileNone)
          else ReconcileNone)"

section \<open>The device\<close>

record device =
  d_record :: "update_record option"
  d_path :: string
  d_args :: "string list"
  d_running :: bool
  d_recovery :: bool
  d_bin :: "(string \<times> string) list"

text \<open>\<open>d_bin\<close> maps the versions staged under \<^verbatim>\<open>bin\<close> to the bytes of the binary.\<close>

definition CheckedIn :: "string \<Rightarrow> device \<Rightarrow> device" where
  "CheckedIn running d =
     (case d_record d of
        None \<Rightarrow> d
      | Some rec \<Rightarrow>
          if u_Status rec \<noteq> StatusPending \<or> u_ToVersion rec \<noteq> running then d
          else d\<lparr>d_record := Some (rec\<lparr>u_Status := StatusSucceeded\<rparr>)\<rparr>)"

section \<open>The supervisor\<close>

datatype ctl_op = StopOld | PointNew | SetRecovery | StartNew | StopNew | PointOld | StartOld | ReadConfig
datatype ctl_result = CtlOk | CtlErr | CtlErrDone
datatype rec_op = ReadStart | WriteAbandoned | WriteRolled | RemoveSettled | RemoveCancelled

record sup_env =
  e_ctl :: "ctl_op \<Rightarrow> ctl_result"
  e_fails :: "rec_op \<Rightarrow> bool"

definition ctl :: "sup_env \<Rightarrow> ctl_op \<Rightarrow> (device \<Rightarrow> device) \<Rightarrow> device \<Rightarrow> bool \<times> device" where
  "ctl E op f d = (case e_ctl E op of CtlOk \<Rightarrow> (True, f d) | CtlErr \<Rightarrow> (False, d) | CtlErrDone \<Rightarrow> (False, f d))"

definition stop :: "device \<Rightarrow> device" where "stop d = d\<lparr>d_running := False\<rparr>"
definition start :: "device \<Rightarrow> device" where "start d = d\<lparr>d_running := True\<rparr>"
definition point :: "string \<Rightarrow> string list \<Rightarrow> device \<Rightarrow> device" where
  "point p args d = d\<lparr>d_path := p, d_args := args\<rparr>"

definition restoreBuild :: "sup_env \<Rightarrow> update_record \<Rightarrow> device \<Rightarrow> string option \<times> device" where
  "restoreBuild E rec d =
     (case ctl E StopNew stop d of
        (False, d1) \<Rightarrow> (Some ''stopping new build'', d1)
      | (True, d1) \<Rightarrow>
          (case ctl E PointOld (point (u_FromBinPath rec) (u_FromArgs rec)) d1 of
             (False, d2) \<Rightarrow> (Some ''setting bin path back to previous build'', d2)
           | (True, d2) \<Rightarrow>
               (case ctl E StartOld start d2 of
                  (False, d3) \<Rightarrow> (Some ''starting previous build'', d3)
                | (True, d3) \<Rightarrow> (None, d3))))"

definition stillOnNewBuild :: "sup_env \<Rightarrow> update_record \<Rightarrow> device \<Rightarrow> bool" where
  "stillOnNewBuild E rec d \<longleftrightarrow>
     e_ctl E ReadConfig = CtlOk \<and> equal_fold (path_Clean (d_path d)) (path_Clean (u_ToBinPath rec))"

definition rollback :: "sup_env \<Rightarrow> update_record \<Rightarrow> string \<Rightarrow> device \<Rightarrow> string option \<times> device" where
  "rollback E rec detail d =
     (case restoreBuild E rec d of
        (Some err, d1) \<Rightarrow>
          let rolled = (if stillOnNewBuild E rec d1
                then rec\<lparr>u_Status := StatusPending, u_Detail := detail @ ''; restoring the previous build failed: ''
                       @ err @ ''; the service is still wired to the new build''\<rparr>
                else rec\<lparr>u_Status := StatusRolledBack, u_Detail := detail
                       @ ''; restoring the previous build also failed: '' @ err\<rparr>)
          in (Some ''restoring previous build'',
              if e_fails E WriteRolled then d1 else d1\<lparr>d_record := Some rolled\<rparr>)
      | (None, d1) \<Rightarrow>
          if e_fails E WriteRolled then (Some ''writing rollback record'', d1)
          else (None, d1\<lparr>d_record := Some (rec\<lparr>u_Status := StatusRolledBack, u_Detail := detail\<rparr>)\<rparr>))"

definition pruneOldBuilds :: "update_record \<Rightarrow> device \<Rightarrow> device" where
  "pruneOldBuilds rec d =
     d\<lparr>d_bin := filter (\<lambda>(v, _). v = u_ToVersion rec \<or> v = u_FromVersion rec) (d_bin d)\<rparr>"

text \<open>A poll: whether the build the service runs has checked in since the last one, whether the
  record can be read, the time, and whether the supervisor is cancelled.\<close>

record poll =
  po_checkin :: bool
  po_readFails :: bool
  po_now :: go_time
  po_cancel :: bool

datatype sup_result = Settled "string option" device | Polling device

definition checkinOf :: "update_record \<Rightarrow> poll \<Rightarrow> device \<Rightarrow> device" where
  "checkinOf rec po d =
     (if po_checkin po \<and> d_running d \<and> d_path d = u_ToBinPath rec then CheckedIn (u_ToVersion rec) d else d)"

definition settle :: "string option \<times> device \<Rightarrow> sup_result" where
  "settle x = Settled (fst x) (snd x)"

definition proven :: "poll \<Rightarrow> device \<Rightarrow> bool" where
  "proven po d \<longleftrightarrow> \<not> po_readFails po
     \<and> (case d_record d of None \<Rightarrow> False | Some cur \<Rightarrow> u_Status cur = StatusSucceeded)"

definition keepBuild :: "sup_env \<Rightarrow> update_record \<Rightarrow> device \<Rightarrow> string option \<times> device" where
  "keepBuild E rec d =
     (if e_fails E RemoveSettled then (Some ''removing settled update record'', d)
      else (None, pruneOldBuilds rec (d\<lparr>d_record := None\<rparr>)))"

definition cancelled :: "sup_env \<Rightarrow> update_record \<Rightarrow> device \<Rightarrow> string option \<times> device" where
  "cancelled E rec d =
     (case restoreBuild E rec d of
        (Some e, d') \<Rightarrow> (Some ''restoring previous build after cancellation'', d')
      | (None, d') \<Rightarrow>
          if e_fails E RemoveCancelled then (Some ''removing update record after cancellation'', d')
          else (Some ''context canceled'', d'\<lparr>d_record := None\<rparr>))"

fun pollLoop :: "sup_env \<Rightarrow> update_record \<Rightarrow> poll list \<Rightarrow> device \<Rightarrow> sup_result" where
  "pollLoop E rec [] d = Polling d"
| "pollLoop E rec (po # pos) d =
     (let d1 = checkinOf rec po d in
      if proven po d1 then settle (keepBuild E rec d1)
      else if \<not> po_now po < u_Deadline rec
      then settle (rollback E rec ''the new build never checked in before the deadline'' d1)
      else if po_cancel po then settle (cancelled E rec d1)
      else pollLoop E rec pos d1)"

definition Supervise :: "sup_env \<Rightarrow> poll list \<Rightarrow> device \<Rightarrow> sup_result" where
  "Supervise E polls d =
     (if e_fails E ReadStart then Settled (Some ''reading update record'') d
      else case d_record d of
        None \<Rightarrow> Settled None d
      | Some rec \<Rightarrow>
          if u_Status rec \<noteq> StatusPending then Settled None d
          else case ctl E StopOld stop d of
            (False, d1) \<Rightarrow>
              Settled (Some ''stopping service'')
                (if e_fails E WriteAbandoned then d1
                 else d1\<lparr>d_record := Some (rec\<lparr>u_Status := StatusRolledBack, u_Detail := ''the service would not stop''\<rparr>)\<rparr>)
          | (True, d1) \<Rightarrow>
              (case ctl E PointNew (point (u_ToBinPath rec) (u_FromArgs rec)) d1 of
                 (False, d2) \<Rightarrow> settle (rollback E rec ''repointing the service at the new build failed'' d2)
               | (True, d2) \<Rightarrow>
                   (case ctl E SetRecovery (\<lambda>x. x\<lparr>d_recovery := True\<rparr>) d2 of
                      (False, d3) \<Rightarrow> settle (rollback E rec ''setting recovery actions failed'' d3)
                    | (True, d3) \<Rightarrow>
                        (case ctl E StartNew start d3 of
                           (False, d4) \<Rightarrow> settle (rollback E rec ''starting the new build failed'' d4)
                         | (True, d4) \<Rightarrow> pollLoop E rec polls d4))))"

section \<open>Staging a build\<close>

record AgentVersionResponse =
  av_Version :: string
  av_SHA256 :: string
  av_KeyID :: string
  av_Signature :: string

record update_report =
  ur_ItemID :: string
  ur_Version :: string
  ur_RolledBackFrom :: string
  ur_Detail :: string

text \<open>Every report the syncer sends says that an update failed; \<open>up_reports\<close> lists them, newest
  last.\<close>

record updater =
  up_device :: device
  up_rollback :: "update_record option"
  up_reports :: "update_report list"

record up_config =
  uc_Dir :: string
  uc_Running :: string
  uc_Injected :: bool
  uc_Trusted :: "public_key list"
  uc_hasControl :: bool
  uc_hasSpawn :: bool
  uc_CheckExecutable :: "(string \<Rightarrow> bool) option"

datatype up_op = ReadRecordOp | WriteRecordOp | RemoveRecordOp | WriteRefusal | MarkReported | MkdirVersion
  | CreatePart | RenamePart | ChmodBuild | ServiceConfig | CopySelf | SpawnSupervisor

datatype report_result = Accepted | Gone | ReportFailed

record up_env =
  ue_fetch :: "string \<Rightarrow> string + AgentVersionResponse"
  ue_served :: "string \<Rightarrow> string option"
  ue_report :: "string \<Rightarrow> report_result"
  ue_fails :: "up_op \<Rightarrow> bool"
  ue_now :: go_time

abbreviation maxAgentBinary :: int where "maxAgentBinary \<equiv> 268435456"

definition downloadVerified :: "crypto \<Rightarrow> string option \<Rightarrow> string \<Rightarrow> string option" where
  "downloadVerified C served want =
     (case served of
        None \<Rightarrow> None
      | Some bytes \<Rightarrow>
          if int (length bytes) > maxAgentBinary then None
          else if equal_fold (hex_encode (cr_sha256 C bytes)) want then Some bytes else None)"

definition version_char :: "char \<Rightarrow> bool" where
  "version_char c \<longleftrightarrow> is_digit c \<or> is_upper c \<or> is_lower c \<or> c \<in> set ''._+-''"

definition validVersion :: "string \<Rightarrow> bool" where
  "validVersion v \<longleftrightarrow> v \<noteq> ''.'' \<and> v \<noteq> ''..'' \<and> 1 \<le> length v \<and> length v \<le> 64 \<and> list_all version_char v"

definition binPath :: "string \<Rightarrow> string \<Rightarrow> string" where
  "binPath dir v = path_Clean (dir @ ''/bin/'' @ v @ ''/retune-agent'')"

definition report :: "string \<Rightarrow> string \<Rightarrow> string \<Rightarrow> string \<Rightarrow> updater \<Rightarrow> updater" where
  "report k v from detail s = s\<lparr>up_reports := up_reports s
     @ [\<lparr>ur_ItemID = k, ur_Version = v, ur_RolledBackFrom = from, ur_Detail = detail\<rparr>]\<rparr>"

definition setRecord :: "update_record option \<Rightarrow> updater \<Rightarrow> updater" where
  "setRecord r s = s\<lparr>up_device := (up_device s)\<lparr>d_record := r\<rparr>\<rparr>"

definition setBuilds :: "(string \<times> string) list \<Rightarrow> updater \<Rightarrow> updater" where
  "setBuilds b s = s\<lparr>up_device := (up_device s)\<lparr>d_bin := b\<rparr>\<rparr>"

definition removeVersion :: "string \<Rightarrow> updater \<Rightarrow> updater" where
  "removeVersion v s = setBuilds (AList.delete v (d_bin (up_device s))) s"

definition rememberRefusal :: "up_config \<Rightarrow> up_env \<Rightarrow> string \<Rightarrow> string \<Rightarrow> string \<Rightarrow> updater \<Rightarrow> updater" where
  "rememberRefusal cfg E itemID v detail s =
     (if ue_fails E WriteRefusal then s
      else setRecord (Some (zero_record\<lparr>u_ItemID := itemID, u_FromVersion := uc_Running cfg, u_ToVersion := v,
             u_Status := StatusRefused, u_Detail := detail, u_Reported := True, u_StartedAt := ue_now E\<rparr>)) s)"

definition abandon :: "up_env \<Rightarrow> string \<Rightarrow> string \<Rightarrow> string \<Rightarrow> updater \<Rightarrow> updater" where
  "abandon E k v detail s =
     (let s1 = (if ue_fails E RemoveRecordOp then s else setRecord None s)
      in report k v [] detail (removeVersion v s1))"

definition failStage :: "string \<Rightarrow> string \<Rightarrow> string \<Rightarrow> updater \<Rightarrow> updater" where
  "failStage k v detail s = report k v [] detail (removeVersion v s)"

definition handOff ::
  "up_config \<Rightarrow> up_env \<Rightarrow> Item \<Rightarrow> duration \<Rightarrow> AgentVersionResponse \<Rightarrow> updater \<Rightarrow> updater" where
  "handOff cfg E item deadline def s =
     (let k = i_ID item; v = av_Version def in
      if ue_fails E ServiceConfig then failStage k v ''read service config'' s
      else
        let rec = \<lparr>u_ItemID = k, u_FromVersion = uc_Running cfg, u_FromBinPath = d_path (up_device s),
              u_FromArgs = d_args (up_device s), u_ToVersion = v, u_ToBinPath = binPath (uc_Dir cfg) v,
              u_StartedAt = ue_now E, u_Deadline = time_add (ue_now E) deadline, u_Status = StatusPending,
              u_Detail = [], u_Reported = False\<rparr>
        in if ue_fails E WriteRecordOp then failStage k v ''write record'' s
           else
             let s1 = setRecord (Some rec) s in
             if ue_fails E CopySelf then abandon E k v ''copying the supervisor'' s1
             else if \<not> uc_hasSpawn cfg then abandon E k v ''no Spawn function was configured'' s1
             else if ue_fails E SpawnSupervisor then abandon E k v ''spawning the supervisor'' s1
             else s1)"

definition stage ::
  "crypto \<Rightarrow> up_config \<Rightarrow> up_env \<Rightarrow> Item \<Rightarrow> duration \<Rightarrow> AgentVersionResponse \<Rightarrow> updater \<Rightarrow> updater" where
  "stage C cfg E item deadline def s =
     (let k = i_ID item; v = av_Version def in
      if \<not> uc_hasControl cfg then report k v [] ''self-update needs a service'' s
      else if \<not> validVersion v then report k v [] ''not a valid version'' s
      else case b64_decode (av_Signature def) of
        None \<Rightarrow>
          let detail = ''the signature of the build is not valid base64''
          in rememberRefusal cfg E k v detail (report k v [] detail s)
      | Some sig \<Rightarrow>
          (case Verify C (uc_Trusted cfg) \<lparr>m_version = v, m_sha256 = av_SHA256 def\<rparr>
                  \<lparr>sg_version = v, sg_sha256 = av_SHA256 def, sg_key_id = av_KeyID def, sg_signature = sig\<rparr> of
             Some e \<Rightarrow>
               let detail = ''signature did not verify against any trusted release key''
               in rememberRefusal cfg E k v detail (report k v [] detail s)
           | None \<Rightarrow>
               if ue_fails E MkdirVersion then s
               else case (if ue_fails E CreatePart then None else downloadVerified C (ue_served E k) (av_SHA256 def)) of
                 None \<Rightarrow> failStage k v ''download'' s
               | Some bytes \<Rightarrow>
                   if ue_fails E RenamePart then failStage k v ''stage binary'' s
                   else
                     let s1 = setBuilds (AList.update v bytes (d_bin (up_device s))) s in
                     if ue_fails E ChmodBuild then failStage k v ''mark the build executable'' s1
                     else if (case uc_CheckExecutable cfg of None \<Rightarrow> False | Some check \<Rightarrow> \<not> check bytes) then
                       (let detail = ''the build cannot run here''
                        in rememberRefusal cfg E k v detail (failStage k v detail s1))
                     else handOff cfg E item deadline def s1))"

section \<open>Synchronising\<close>

abbreviation "ItemKindAgent \<equiv> ''agent''"

text \<open>The assignment's options: only the deadline, in seconds, and no unknown member.\<close>

fun optionMembers :: "int \<Rightarrow> (string \<times> json) list \<Rightarrow> int option" where
  "optionMembers n [] = Some n"
| "optionMembers n ((k, v) # ms) =
     (if \<not> equal_fold k ''deadline_seconds'' then None
      else case v of
        JNull \<Rightarrow> optionMembers n ms
      | JNum t \<Rightarrow> (case atoi t of None \<Rightarrow> None | Some i \<Rightarrow> optionMembers i ms)
      | _ \<Rightarrow> None)"

definition ParseAgentOptions :: "json option \<Rightarrow> int option" where
  "ParseAgentOptions raw =
     Option.bind (case raw of
         None \<Rightarrow> Some 600
       | Some JNull \<Rightarrow> Some 600
       | Some (JObj ms) \<Rightarrow> optionMembers 600 ms
       | Some _ \<Rightarrow> None)
       (\<lambda>n. if n < 60 \<or> n > 3600 then None else Some n)"

definition syncOne :: "crypto \<Rightarrow> up_config \<Rightarrow> up_env \<Rightarrow> Item \<Rightarrow> updater \<Rightarrow> updater" where
  "syncOne C cfg E item s =
     (case ParseAgentOptions (i_Options item) of
        None \<Rightarrow> s
      | Some seconds \<Rightarrow>
          if ue_fails E ReadRecordOp then s
          else if AlreadyRefused (d_record (up_device s)) (i_ID item) then s
          else case ue_fetch E (i_ID item) of
            Inl e \<Rightarrow> s
          | Inr def \<Rightarrow>
              (case Decide (uc_Running cfg) (av_Version def) (uc_Injected cfg) (length (uc_Trusted cfg))
                      (case d_record (up_device s) of None \<Rightarrow> zero_record | Some rec \<Rightarrow> rec) of
                 Quiet reason \<Rightarrow> s
               | Report reason \<Rightarrow> report (i_ID item) (av_Version def) [] reason s
               | Update \<Rightarrow> stage C cfg E item (dur_mul seconds second) def s))"

definition markReported :: "up_env \<Rightarrow> update_record \<Rightarrow> updater \<Rightarrow> updater" where
  "markReported E rec s =
     (if ue_fails E MarkReported then s
      else case d_record (up_device s) of
        None \<Rightarrow> s
      | Some cur \<Rightarrow>
          if u_ToVersion cur \<noteq> u_ToVersion rec \<or> u_Status cur \<noteq> u_Status rec then s
          else setRecord (Some (cur\<lparr>u_Reported := True\<rparr>)) s)"

definition adoptRollback :: "up_env \<Rightarrow> updater \<Rightarrow> updater" where
  "adoptRollback E s =
     (if up_rollback s \<noteq> None \<or> ue_fails E ReadRecordOp then s
      else case d_record (up_device s) of
        None \<Rightarrow> s
      | Some rec \<Rightarrow>
          if u_Status rec = StatusRolledBack \<and> \<not> u_Reported rec then s\<lparr>up_rollback := Some rec\<rparr> else s)"

definition reportRollback :: "up_env \<Rightarrow> updater \<Rightarrow> updater" where
  "reportRollback E s =
     (case up_rollback s of
        None \<Rightarrow> s
      | Some rec \<Rightarrow>
          let s1 = report (u_ItemID rec) (u_FromVersion rec) (u_ToVersion rec) (u_Detail rec) s
          in if ue_report E (u_ItemID rec) = ReportFailed then s1
             else (markReported E rec s1)\<lparr>up_rollback := None\<rparr>)"

definition Update_Sync :: "duration \<Rightarrow> crypto \<Rightarrow> up_config \<Rightarrow> up_env \<Rightarrow> Item list \<Rightarrow> updater \<Rightarrow> updater" where
  "Update_Sync zone C cfg E items s =
     (let s1 = reportRollback E (adoptRollback E s) in
      if \<not> Open zone (WindowsFrom items) (ue_now E) then s1
      else foldl (\<lambda>s item. if i_Kind item = ItemKindAgent then syncOne C cfg E item s else s) s1 items)"

end
