(* ===== verification/Self_Update_Safety.thy ===== *)
theory Self_Update_Safety
  imports Self_Update
begin

text \<open>
  What the self-update guarantees: the supervisor comes to a verdict by the deadline; a device
  never stays on a build that has not checked in; the record never claims a rollback that did
  not happen; a build that was rolled back is not tried again; and only builds signed by a
  trusted release key, whose bytes have the signed hash, are ever staged.
\<close>

section \<open>The supervisor\<close>

lemma pollLoop_settles:
  "\<exists>po \<in> set polls. \<not> po_now po < u_Deadline rec \<Longrightarrow> \<exists>e d'. pollLoop E rec polls d = Settled e d'"
proof (induction polls arbitrary: d)
  case (Cons po pos)
  then show ?case by (auto simp: Let_def settle_def)
qed simp

text \<open>How the loop ends: the build has proved itself, the deadline has passed, or the supervisor is
  cancelled.\<close>

lemma pollLoop_cases:
  assumes "pollLoop E rec (po # pos) d = Settled e d'"
  obtains (kept) "proven po (checkinOf rec po d)" "keepBuild E rec (checkinOf rec po d) = (e, d')"
  | (late) detail where "rollback E rec detail (checkinOf rec po d) = (e, d')"
  | (stopped) "cancelled E rec (checkinOf rec po d) = (e, d')"
  | (again) "\<not> proven po (checkinOf rec po d)" "pollLoop E rec pos (checkinOf rec po d) = Settled e d'"
  using assms by (auto simp: Let_def settle_def prod_eq_iff split: if_splits)

text \<open>
  C34. The supervisor always comes to a verdict: if it goes on polling until the deadline has
  passed, it settles, whatever the service manager, the disk and the new build do.
\<close>

theorem Supervise_settles:
  assumes "d_record d = Some rec" "\<exists>po \<in> set polls. \<not> po_now po < u_Deadline rec"
  shows "\<exists>e d'. Supervise E polls d = Settled e d'"
  using pollLoop_settles [OF assms(2), of E]
  by (auto simp: Supervise_def assms(1) settle_def split: prod.splits bool.splits)

definition sample_attempt :: update_record where
  "sample_attempt = zero_record\<lparr>u_FromVersion := ''1'', u_FromBinPath := ''/old'', u_FromArgs := [''-d''],
     u_ToVersion := ''2'', u_ToBinPath := ''/new'', u_Deadline := 10, u_Status := StatusPending\<rparr>"

definition sample_device :: device where
  "sample_device = \<lparr>d_record = Some sample_attempt, d_path = ''/old'', d_args = [''-d''], d_running = True,
     d_recovery = False, d_bin = []\<rparr>"

definition calm :: sup_env where
  "calm = \<lparr>e_ctl = (\<lambda>_. CtlOk), e_fails = (\<lambda>_. False)\<rparr>"

definition sample_polls :: "bool \<Rightarrow> poll list" where
  "sample_polls c = [\<lparr>po_checkin = False, po_readFails = False, po_now = 5, po_cancel = False\<rparr>,
     \<lparr>po_checkin = c, po_readFails = False, po_now = 11, po_cancel = False\<rparr>]"

theorem Supervise_settles_witness: "\<exists>e d'. Supervise calm (sample_polls False) sample_device = Settled e d'"
  by (rule Supervise_settles [of _ sample_attempt]) (simp_all add: sample_device_def sample_polls_def sample_attempt_def)

text \<open>Restoring, when every step of it works.\<close>

definition restores :: "sup_env \<Rightarrow> bool" where
  "restores E \<longleftrightarrow> e_ctl E StopNew = CtlOk \<and> e_ctl E PointOld = CtlOk \<and> e_ctl E StartOld = CtlOk"

definition restored :: "update_record \<Rightarrow> device \<Rightarrow> bool" where
  "restored rec d \<longleftrightarrow> d_path d = u_FromBinPath rec \<and> d_args d = u_FromArgs rec \<and> d_running d"

lemma restoreBuild_ok: "restores E \<Longrightarrow> fst (restoreBuild E rec d) = None \<and> restored rec (snd (restoreBuild E rec d))"
  by (simp add: restores_def restoreBuild_def ctl_def restored_def point_def start_def stop_def)

lemma rollback_ok: "restores E \<Longrightarrow> restored rec (snd (rollback E rec detail d))"
  using restoreBuild_ok [of E rec d] by (auto simp: rollback_def restored_def split: prod.splits option.splits)

definition unproven :: "device \<Rightarrow> bool" where
  "unproven d \<longleftrightarrow> (case d_record d of None \<Rightarrow> True | Some r \<Rightarrow> u_Status r \<noteq> StatusSucceeded)"

lemma checkinOf_sel [simp]:
  "d_path (checkinOf rec po d) = d_path d" "d_args (checkinOf rec po d) = d_args d"
  "d_running (checkinOf rec po d) = d_running d"
  by (simp_all add: checkinOf_def CheckedIn_def split: option.splits)

lemma cancelled_ok: "restores E \<Longrightarrow> restored rec (snd (cancelled E rec d))"
  using restoreBuild_ok [of E rec d] by (auto simp: cancelled_def restored_def split: prod.splits option.splits)

lemma keepBuild_sel: "d_path (snd (keepBuild E rec d)) = d_path d" "d_running (snd (keepBuild E rec d)) = d_running d"
  by (simp_all add: keepBuild_def pruneOldBuilds_def)

lemma checkinOf_unproven: "\<not> po_checkin po \<Longrightarrow> checkinOf rec po d = d"
  by (simp add: checkinOf_def)

lemma pollLoop_outcome:
  assumes "restores E"
  shows "pollLoop E rec polls d = Settled e d' \<Longrightarrow> d_running d \<Longrightarrow>
    d_path d' = d_path d \<and> d_running d' \<and> (unproven d \<longrightarrow> (\<exists>po \<in> set polls. po_checkin po))
    \<or> restored rec d'"
proof (induction polls arbitrary: d)
  case (Cons po pos)
  have checked: "unproven d \<Longrightarrow> \<not> unproven (checkinOf rec po d) \<Longrightarrow> po_checkin po"
    using checkinOf_unproven [of po rec d] by (cases "po_checkin po") auto
  have proof_of_life: "\<not> unproven (checkinOf rec po d)" if "proven po (checkinOf rec po d)"
    using that by (auto simp: proven_def unproven_def split: option.splits)
  from Cons.prems(1) show ?case
  proof (cases rule: pollLoop_cases)
    case kept
    then have "d_path d' = d_path d" "d_running d'"
      using keepBuild_sel [of E rec "checkinOf rec po d"] Cons.prems(2) by simp_all
    then show ?thesis using checked proof_of_life [OF kept(1)] by auto
  next
    case (late detail)
    then show ?thesis using rollback_ok [OF assms, of rec detail "checkinOf rec po d"] by simp
  next
    case stopped
    then show ?thesis using cancelled_ok [OF assms, of rec "checkinOf rec po d"] by simp
  next
    case again
    from Cons.IH [OF again(2)] Cons.prems(2) checked show ?thesis by auto
  qed
qed simp

text \<open>The ways through \<^verbatim>\<open>Supervise\<close>.\<close>

definition switched :: "update_record \<Rightarrow> device \<Rightarrow> device" where
  "switched rec d = start ((point (u_ToBinPath rec) (u_FromArgs rec) (stop d))\<lparr>d_recovery := True\<rparr>)"

lemma ctl_record: "ctl E op f d = (ok, d') \<Longrightarrow> d_record (f d) = d_record d \<Longrightarrow> d_record d' = d_record d"
  by (simp add: ctl_def split: ctl_result.splits)

lemma ctl_done: "ctl E op f d = (ok, d') \<Longrightarrow> ok \<Longrightarrow> d' = f d"
  by (simp add: ctl_def split: ctl_result.splits)

lemma Supervise_cases:
  assumes "Supervise E polls d = Settled e d'" "d_record d = Some rec" "u_Status rec = StatusPending"
  obtains (unread) "d' = d"
  | (abandoned) d1 where "ctl E StopOld stop d = (False, d1)"
      "d' = (if e_fails E WriteAbandoned then d1 else d1\<lparr>d_record := Some (rec\<lparr>u_Status := StatusRolledBack,
         u_Detail := ''the service would not stop''\<rparr>)\<rparr>)"
  | (failed) detail d1 where "rollback E rec detail d1 = (e, d')" "d_record d1 = Some rec"
  | (polled) "pollLoop E rec polls (switched rec d) = Settled e d'"
proof (cases "e_fails E ReadStart")
  case True
  then show thesis using assms unread by (simp add: Supervise_def)
next
  case False
  obtain ok1 d1 where c1: "ctl E StopOld stop d = (ok1, d1)" by (metis prod.exhaust)
  obtain ok2 d2 where c2: "ctl E PointNew (point (u_ToBinPath rec) (u_FromArgs rec)) d1 = (ok2, d2)" by (metis prod.exhaust)
  obtain ok3 d3 where c3: "ctl E SetRecovery (\<lambda>x. x\<lparr>d_recovery := True\<rparr>) d2 = (ok3, d3)" by (metis prod.exhaust)
  obtain ok4 d4 where c4: "ctl E StartNew start d3 = (ok4, d4)" by (metis prod.exhaust)
  have r1: "d_record d1 = Some rec" using ctl_record [OF c1] assms(2) by (simp add: stop_def)
  have r2: "d_record d2 = Some rec" using ctl_record [OF c2] r1 by (simp add: point_def)
  have r3: "d_record d3 = Some rec" using ctl_record [OF c3] r2 by simp
  have r4: "d_record d4 = Some rec" using ctl_record [OF c4] r3 by (simp add: start_def)
  note recs = r1 r2 r3 r4
  note run = assms(1) [unfolded Supervise_def assms(2) option.case if_False] False assms(3) c1 c2 c3 c4
  consider "\<not> ok1" | "ok1" "\<not> ok2" | "ok1" "ok2" "\<not> ok3" | "ok1" "ok2" "ok3" "\<not> ok4" | "ok1" "ok2" "ok3" "ok4" by blast
  then show thesis
  proof cases
    case 1
    then show thesis using run by (intro abandoned [of d1]) simp_all
  next
    case 2
    then have "rollback E rec ''repointing the service at the new build failed'' d2 = (e, d')" using run by (simp add: settle_def prod_eq_iff)
    then show thesis using failed recs by blast
  next
    case 3
    then have "rollback E rec ''setting recovery actions failed'' d3 = (e, d')" using run by (simp add: settle_def prod_eq_iff)
    then show thesis using failed recs by blast
  next
    case 4
    then have "rollback E rec ''starting the new build failed'' d4 = (e, d')" using run by (simp add: settle_def prod_eq_iff)
    then show thesis using failed recs by blast
  next
    case 5
    have "d4 = switched rec d"
      using 5 ctl_done [OF c1] ctl_done [OF c2] ctl_done [OF c3] ctl_done [OF c4] by (simp add: switched_def)
    then show thesis using 5 run by (intro polled) simp
  qed
qed

text \<open>
  C30. No device stays on a build that has not proved itself. If the supervisor settles an attempt
  and the previous build can be put back, then either the new build has checked in and is kept
  running, or the service runs the previous build with the arguments it had. (The one way to end
  with the service down is a stop of the old build that was reported as failed but took effect.)
\<close>

theorem update_proven_or_undone:
  assumes "Supervise E polls d = Settled e d'" "d_record d = Some rec" "u_Status rec = StatusPending"
    "restored rec d" "restores E" "e_ctl E StopOld \<noteq> CtlErrDone"
  shows "d_path d' = u_ToBinPath rec \<and> d_running d' \<and> (\<exists>po \<in> set polls. po_checkin po)
    \<or> restored rec d'"
  using assms(1,2,3)
proof (cases rule: Supervise_cases)
  case (abandoned d1)
  then have "d1 = d" using assms(6) by (auto simp: ctl_def split: ctl_result.splits)
  then show ?thesis using abandoned assms(4) by (auto simp: restored_def)
next
  case (failed detail d1)
  then show ?thesis using rollback_ok [OF assms(5), of rec detail d1] by simp
next
  case polled
  moreover have "d_path (switched rec d) = u_ToBinPath rec" "d_running (switched rec d)" "unproven (switched rec d)"
    using assms(2,3) by (simp_all add: switched_def start_def point_def stop_def unproven_def)
  ultimately show ?thesis using pollLoop_outcome [OF assms(5)] by metis
qed (use assms(4) in simp)

theorem update_proven_or_undone_witness:
  "restored sample_attempt sample_device \<and> restores calm
   \<and> (\<exists>d'. Supervise calm (sample_polls False) sample_device = Settled None d' \<and> restored sample_attempt d')
   \<and> (\<exists>d'. Supervise calm (sample_polls True) sample_device = Settled None d' \<and> d_path d' = ''/new'')"
proof -
  have pre: "d_record sample_device = Some sample_attempt" "u_Status sample_attempt = StatusPending"
    "restored sample_attempt sample_device" "restores calm" "e_ctl calm StopOld \<noteq> CtlErrDone"
    by (simp_all add: sample_device_def sample_attempt_def restored_def restores_def calm_def zero_record_def)
  obtain d1 where d1: "Supervise calm (sample_polls False) sample_device = Settled None d1"
    and "d_path d1 = ''/old''" by (rule that) code_simp+
  obtain d2 where d2: "Supervise calm (sample_polls True) sample_device = Settled None d2"
    and "d_path d2 = ''/new''" by (rule that) code_simp+
  from update_proven_or_undone [OF d1 pre] \<open>d_path d1 = ''/old''\<close>
  have "restored sample_attempt d1" by (simp add: sample_attempt_def)
  with pre d1 d2 \<open>d_path d2 = ''/new''\<close> show ?thesis by blast
qed

section \<open>The record tells the truth\<close>

definition samePath :: "string \<Rightarrow> string \<Rightarrow> bool" where
  "samePath p q \<longleftrightarrow> equal_fold (path_Clean p) (path_Clean q)"

definition rolledBack :: "device \<Rightarrow> bool" where
  "rolledBack d \<longleftrightarrow> (case d_record d of None \<Rightarrow> False | Some r \<Rightarrow> u_Status r = StatusRolledBack)"

lemma restoreBuild_None: "restoreBuild E rec d = (None, d') \<Longrightarrow> d_path d' = u_FromBinPath rec"
  by (auto simp: restoreBuild_def ctl_def point_def start_def stop_def split: ctl_result.splits)

lemma restoreBuild_record [simp]: "d_record (snd (restoreBuild E rec d)) = d_record d"
  by (auto simp: restoreBuild_def ctl_def point_def start_def stop_def split: ctl_result.splits)

lemma rollback_true:
  assumes "rollback E rec detail d = (e, d')" "\<not> rolledBack d" "rolledBack d'"
    "e_ctl E ReadConfig = CtlOk" "\<not> samePath (u_FromBinPath rec) (u_ToBinPath rec)"
  shows "\<not> samePath (d_path d') (u_ToBinPath rec)"
proof -
  obtain res d1 where r: "restoreBuild E rec d = (res, d1)" by (metis prod.exhaust)
  have "d_record d1 = d_record d" using r restoreBuild_record [of E rec d] by simp
  then have "\<not> rolledBack d1" using assms(2) by (simp add: rolledBack_def)
  show ?thesis
  proof (cases res)
    case None
    then have "d_path d1 = u_FromBinPath rec" using r restoreBuild_None by simp
    then show ?thesis using assms(1,5) r None by (auto simp: rollback_def split: if_splits)
  next
    case (Some err)
    then have "\<not> stillOnNewBuild E rec d1" "d_path d' = d_path d1"
      using assms(1,3) r \<open>\<not> rolledBack d1\<close> by (auto simp: rollback_def Let_def rolledBack_def split: if_splits)
    then show ?thesis using assms(4) by (simp add: stillOnNewBuild_def samePath_def)
  qed
qed

lemma checkinOf_rolledBack: "\<not> rolledBack d \<Longrightarrow> \<not> rolledBack (checkinOf rec po d)"
  by (auto simp: rolledBack_def checkinOf_def CheckedIn_def split: option.splits)

lemma cancelled_not_rolled:
  assumes "cancelled E rec d = (e, d')" "\<not> rolledBack d"
  shows "\<not> rolledBack d'"
proof -
  obtain res d1 where r: "restoreBuild E rec d = (res, d1)" by (metis prod.exhaust)
  have "d_record d1 = d_record d" using r restoreBuild_record [of E rec d] by simp
  then show ?thesis using assms r by (cases res) (auto simp: cancelled_def rolledBack_def split: if_splits)
qed

lemma pollLoop_true:
  assumes "e_ctl E ReadConfig = CtlOk" "\<not> samePath (u_FromBinPath rec) (u_ToBinPath rec)" "rolledBack d'"
  shows "pollLoop E rec polls d = Settled e d' \<Longrightarrow> \<not> rolledBack d \<Longrightarrow> \<not> samePath (d_path d') (u_ToBinPath rec)"
proof (induction polls arbitrary: d)
  case (Cons po pos)
  note now = checkinOf_rolledBack [OF Cons.prems(2), of rec po]
  from Cons.prems(1) show ?case
  proof (cases rule: pollLoop_cases)
    case kept
    then show ?thesis using now assms(3)
      by (auto simp: keepBuild_def pruneOldBuilds_def rolledBack_def split: if_splits)
  next
    case (late detail)
    from rollback_true [OF late now assms(3,1,2)] show ?thesis .
  next
    case stopped
    then have "\<not> rolledBack d'" using cancelled_not_rolled [OF _ now] by blast
    then show ?thesis using assms(3) by blast
  next
    case again
    from Cons.IH [OF again(2) now] show ?thesis .
  qed
qed simp

text \<open>
  The record never claims a rollback that did not happen. Whatever fails on the way, with or
  without effect, if an attempt is on record as rolled back when the supervisor has settled, the
  service is not configured to run the new build - as long as the supervisor can read the
  service's configuration.
\<close>

theorem rolled_back_is_true:
  assumes "Supervise E polls d = Settled e d'" "d_record d = Some rec" "u_Status rec = StatusPending"
    "d_path d = u_FromBinPath rec" "\<not> samePath (u_FromBinPath rec) (u_ToBinPath rec)"
    "e_ctl E ReadConfig = CtlOk" "rolledBack d'"
  shows "\<not> samePath (d_path d') (u_ToBinPath rec)"
  using assms(1,2,3)
proof (cases rule: Supervise_cases)
  case (abandoned d1)
  then have "d_path d' = d_path d" by (auto simp: ctl_def stop_def split: ctl_result.splits if_splits)
  then show ?thesis using assms(4,5) by simp
next
  case (failed detail d1)
  then have "\<not> rolledBack d1" using assms(3) by (simp add: rolledBack_def)
  from rollback_true [OF failed(1) this assms(7,6,5)] show ?thesis .
next
  case polled
  have "\<not> rolledBack (switched rec d)"
    using assms(2,3) by (simp add: rolledBack_def switched_def start_def point_def stop_def)
  from pollLoop_true [OF assms(6,5,7) polled this] show ?thesis .
qed (use assms in \<open>simp add: rolledBack_def\<close>)

theorem rolled_back_is_true_witness:
  "\<exists>d'. Supervise calm (sample_polls False) sample_device = Settled None d' \<and> rolledBack d'
     \<and> \<not> samePath (d_path d') (u_ToBinPath sample_attempt)"
proof -
  obtain d' where d': "Supervise calm (sample_polls False) sample_device = Settled None d'" and "rolledBack d'"
    by (rule that) code_simp+
  have "\<not> samePath (d_path d') (u_ToBinPath sample_attempt)"
    by (rule rolled_back_is_true [OF d'])
       (use \<open>rolledBack d'\<close> in \<open>simp_all add: sample_device_def sample_attempt_def zero_record_def calm_def\<close>, code_simp)
  with d' \<open>rolledBack d'\<close> show ?thesis by blast
qed

text \<open>
  A stop that is reported as failed because it timed out has been asked for, and takes effect
  later. \<^verbatim>\<open>Supervise\<close> then records a rollback in the belief that the old build is still running,
  and nothing starts it again.
\<close>

lemma stop_timeout_leaves_service_down:
  "case Supervise (calm\<lparr>e_ctl := (\<lambda>_. CtlOk)(StopOld := CtlErrDone)\<rparr>) (sample_polls False) sample_device of
     Settled e d' \<Rightarrow> rolledBack d' \<and> \<not> d_running d' | Polling _ \<Rightarrow> False"
  by code_simp

section \<open>A failed build is not tried again\<close>

lemma report_device [simp]: "up_device (report k v from detail s) = up_device s"
  by (simp add: report_def)

definition failedOn :: "string \<Rightarrow> device \<Rightarrow> bool" where
  "failedOn v d \<longleftrightarrow> (case d_record d of None \<Rightarrow> False
     | Some r \<Rightarrow> u_Status r = StatusRolledBack \<and> u_ToVersion r = v)"

lemma syncOne_failed:
  assumes "failedOn v (up_device s)" "case ue_fetch E (i_ID item) of Inl _ \<Rightarrow> True | Inr def \<Rightarrow> av_Version def = v"
  shows "up_device (syncOne C cfg E item s) = up_device s"
proof -
  have "Decide (uc_Running cfg) v (uc_Injected cfg) n r \<noteq> Update"
    if "d_record (up_device s) = Some r" for n r
    using that assms(1) by (auto simp: Decide_def failedOn_def)
  then show ?thesis
    using assms by (auto simp: syncOne_def failedOn_def split: option.splits sum.splits Decision.splits)
qed

lemma reportRollback_keeps:
  "d_bin (up_device (reportRollback E s)) = d_bin (up_device s)"
  "d_path (up_device (reportRollback E s)) = d_path (up_device s)"
  "failedOn v (up_device s) \<Longrightarrow> failedOn v (up_device (reportRollback E s))"
  by (auto simp: reportRollback_def Let_def markReported_def setRecord_def failedOn_def split: option.splits)

lemma adoptRollback_device [simp]: "up_device (adoptRollback E s) = up_device s"
  by (simp add: adoptRollback_def split: option.splits)

text \<open>
  A build that failed here is not tried again: while the record says that an update to a
  version was rolled back, check-ins that offer nothing but that version stage nothing, leave the
  service's configuration alone and keep the record, whatever else happens.
\<close>

theorem failed_build_not_retried:
  assumes "failedOn v (up_device s)"
    "\<forall>k. case ue_fetch E k of Inl _ \<Rightarrow> True | Inr def \<Rightarrow> av_Version def = v"
  shows "failedOn v (up_device (Update_Sync zone C cfg E items s))
    \<and> d_bin (up_device (Update_Sync zone C cfg E items s)) = d_bin (up_device s)
    \<and> d_path (up_device (Update_Sync zone C cfg E items s)) = d_path (up_device s)"
proof -
  define s1 where "s1 = reportRollback E (adoptRollback E s)"
  have s1: "failedOn v (up_device s1)" "d_bin (up_device s1) = d_bin (up_device s)" "d_path (up_device s1) = d_path (up_device s)"
    using assms(1) by (simp_all add: s1_def reportRollback_keeps)
  have "up_device (foldl (\<lambda>s item. if i_Kind item = ItemKindAgent then syncOne C cfg E item s else s) s2 items) = up_device s2"
    if "failedOn v (up_device s2)" for s2
    using that
  proof (induction items arbitrary: s2)
    case (Cons item items)
    have "up_device (syncOne C cfg E item s2) = up_device s2"
      using Cons.prems assms(2) by (intro syncOne_failed) auto
    with Cons show ?case by simp
  qed simp
  from this [OF s1(1)] s1 show ?thesis by (simp add: Update_Sync_def Let_def s1_def [symmetric])
qed

definition sample_up_env :: "AgentVersionResponse \<Rightarrow> up_env" where
  "sample_up_env def = \<lparr>ue_fetch = (\<lambda>_. Inr def), ue_served = (\<lambda>_. Some ''build''), ue_report = (\<lambda>_. Accepted),
     ue_fails = (\<lambda>_. False), ue_now = 100\<rparr>"

definition sample_def :: AgentVersionResponse where
  "sample_def = \<lparr>av_Version = ''2'', av_SHA256 = hex_encode (cr_sha256 sample_crypto ''build''),
     av_KeyID = key_ID sample_crypto (cr_public sample_crypto []),
     av_Signature = b64_encode (manifest_Bytes \<lparr>m_version = ''2'', m_sha256 = hex_encode (cr_sha256 sample_crypto ''build'')\<rparr>)\<rparr>"

definition sample_up_config :: up_config where
  "sample_up_config = \<lparr>uc_Dir = ''/var'', uc_Running = ''1'', uc_Injected = True,
     uc_Trusted = [cr_public sample_crypto []], uc_hasControl = True, uc_hasSpawn = True, uc_CheckExecutable = None\<rparr>"

definition sample_updater :: "update_record option \<Rightarrow> updater" where
  "sample_updater r = \<lparr>up_device = sample_device\<lparr>d_record := r\<rparr>, up_rollback = None, up_reports = []\<rparr>"

definition agent_item :: Item where
  "agent_item = \<lparr>i_Kind = ItemKindAgent, i_ID = ''b'', i_Version = 0, i_Options = None\<rparr>"

theorem failed_build_not_retried_witness:
  "d_bin (up_device (Update_Sync 0 sample_crypto sample_up_config (sample_up_env sample_def) [agent_item]
      (sample_updater (Some (sample_attempt\<lparr>u_Status := StatusRolledBack\<rparr>))))) = []"
proof -
  have "failedOn ''2'' (up_device (sample_updater (Some (sample_attempt\<lparr>u_Status := StatusRolledBack\<rparr>))))"
    by (simp add: failedOn_def sample_updater_def sample_attempt_def)
  from failed_build_not_retried [OF this, of "sample_up_env sample_def" 0 sample_crypto sample_up_config "[agent_item]"]
  show ?thesis by (simp add: sample_up_env_def sample_def_def sample_updater_def sample_device_def)
qed

section \<open>Only signed builds are staged\<close>

definition signedBuild :: "crypto \<Rightarrow> public_key list \<Rightarrow> string \<times> string \<Rightarrow> bool" where
  "signedBuild C trusted b \<longleftrightarrow> validVersion (fst b)
     \<and> (\<exists>k \<in> set trusted. \<exists>h raw. cr_verify C k (manifest_Bytes \<lparr>m_version = fst b, m_sha256 = h\<rparr>) raw
          \<and> equal_fold (hex_encode (cr_sha256 C (snd b))) h)"

definition vetted :: "crypto \<Rightarrow> up_config \<Rightarrow> device \<Rightarrow> bool" where
  "vetted C cfg d \<longleftrightarrow> (\<forall>b \<in> set (d_bin d). signedBuild C (uc_Trusted cfg) b)
     \<and> (case d_record d of None \<Rightarrow> True | Some r \<Rightarrow> u_Status r = StatusPending \<longrightarrow>
          u_ToBinPath r = binPath (uc_Dir cfg) (u_ToVersion r) \<and> u_ToVersion r \<in> fst ` set (d_bin d))"

definition pendingFor :: "string \<Rightarrow> device \<Rightarrow> bool" where
  "pendingFor v d \<longleftrightarrow> (case d_record d of None \<Rightarrow> False | Some r \<Rightarrow> u_Status r = StatusPending \<and> u_ToVersion r = v)"

lemma Verify_key:
  assumes "Verify C trusted m sig = None"
  obtains k where "k \<in> set trusted" "cr_verify C k (manifest_Bytes m) (sg_signature sig)"
proof -
  have "verifyWith C trusted (sg_key_id sig) (manifest_Bytes m) (sg_signature sig) = None"
    using assms by (simp add: Verify_def split: if_splits)
  from verifyWith_None [OF this] show thesis using that by blast
qed

lemma downloadVerified_hash:
  "downloadVerified C served want = Some bytes \<Longrightarrow> equal_fold (hex_encode (cr_sha256 C bytes)) want"
  by (auto simp: downloadVerified_def split: option.splits if_splits)

lemma vetted_remove:
  "vetted C cfg (up_device s) \<Longrightarrow> \<not> pendingFor v (up_device s) \<Longrightarrow> vetted C cfg (up_device (removeVersion v s))"
  by (auto simp: vetted_def removeVersion_def setBuilds_def pendingFor_def AList.delete_eq image_iff split: option.splits)

lemma vetted_failStage:
  "vetted C cfg (up_device s) \<Longrightarrow> \<not> pendingFor v (up_device s) \<Longrightarrow> vetted C cfg (up_device (failStage k v detail s))"
  by (simp add: failStage_def vetted_remove)

lemma vetted_refusal:
  "vetted C cfg (up_device s) \<Longrightarrow> vetted C cfg (up_device (rememberRefusal cfg E k v detail s))"
  by (simp add: rememberRefusal_def vetted_def setRecord_def)

lemma vetted_abandon:
  assumes "\<not> ue_fails E RemoveRecordOp" "vetted C cfg (up_device s)"
  shows "vetted C cfg (up_device (abandon E k v detail s))"
proof -
  have "vetted C cfg (up_device (setRecord None s))" "\<not> pendingFor v (up_device (setRecord None s))"
    using assms(2) by (simp_all add: vetted_def setRecord_def pendingFor_def)
  then show ?thesis using assms(1) by (simp add: abandon_def vetted_remove)
qed

lemma vetted_staged:
  assumes "vetted C cfg (up_device s)" "signedBuild C (uc_Trusted cfg) (v, bytes)"
  shows "vetted C cfg (up_device (setBuilds (AList.update v bytes (d_bin (up_device s))) s))"
proof -
  have "set (AList.update v bytes b) \<subseteq> insert (v, bytes) (set b)" for b :: "(string \<times> string) list"
    by (induction b) auto
  then show ?thesis using assms
    by (auto simp: vetted_def setBuilds_def image_iff dom_update split: option.splits)
qed

lemma vetted_handOff:
  assumes "\<not> ue_fails E RemoveRecordOp" "vetted C cfg (up_device s)" "\<not> pendingFor (av_Version def) (up_device s)"
    "av_Version def \<in> fst ` set (d_bin (up_device s))"
  shows "vetted C cfg (up_device (handOff cfg E item deadline def s))"
proof -
  have "vetted C cfg (up_device (setRecord (Some r) s))"
    if "u_ToVersion r = av_Version def" "u_ToBinPath r = binPath (uc_Dir cfg) (av_Version def)" for r
    using that assms(2,4) by (simp add: vetted_def setRecord_def)
  then show ?thesis using assms
    by (simp add: handOff_def Let_def vetted_failStage vetted_abandon)
qed

lemma vetted_stage:
  assumes "\<not> ue_fails E RemoveRecordOp" "vetted C cfg (up_device s)" "\<not> pendingFor (av_Version def) (up_device s)"
  shows "vetted C cfg (up_device (stage C cfg E item deadline def s))"
proof (cases "b64_decode (av_Signature def)")
  case None
  then show ?thesis using assms by (simp add: stage_def Let_def vetted_refusal)
next
  case (Some raw)
  define v where "v = av_Version def"
  define verdict where "verdict = Verify C (uc_Trusted cfg) \<lparr>m_version = v, m_sha256 = av_SHA256 def\<rparr>
      \<lparr>sg_version = v, sg_sha256 = av_SHA256 def, sg_key_id = av_KeyID def, sg_signature = raw\<rparr>"
  define got where "got = (if ue_fails E CreatePart then None else downloadVerified C (ue_served E (i_ID item)) (av_SHA256 def))"
  define staged where "staged bytes = setBuilds (AList.update v bytes (d_bin (up_device s))) s" for bytes
  have signed: "signedBuild C (uc_Trusted cfg) (v, bytes)" if "verdict = None" "got = Some bytes" "validVersion v" for bytes
    using that downloadVerified_hash [of C "ue_served E (i_ID item)" "av_SHA256 def" bytes]
    unfolding verdict_def signedBuild_def
    by (elim Verify_key) (auto simp: got_def split: if_splits)
  have good: "vetted C cfg (up_device (staged bytes))" "\<not> pendingFor v (up_device (staged bytes))"
    "v \<in> fst ` set (d_bin (up_device (staged bytes)))"
    if "verdict = None" "got = Some bytes" "validVersion v" for bytes
    using vetted_staged [OF assms(2) signed [OF that]] assms(3)
    by (simp_all add: staged_def v_def pendingFor_def setBuilds_def dom_update)
  have finish: "vetted C cfg (up_device (failStage k v detail (staged bytes)))"
    "vetted C cfg (up_device (handOff cfg E item deadline def (staged bytes)))"
    if "verdict = None" "got = Some bytes" "validVersion v" for bytes k detail
    using good [OF that] by (simp_all add: vetted_failStage vetted_handOff assms(1) v_def)
  have early: "vetted C cfg (up_device (failStage k v detail s))" for k detail
    using assms(2,3) by (simp add: vetted_failStage v_def)
  show ?thesis
    unfolding stage_def Let_def Some option.case v_def [symmetric] verdict_def [symmetric] got_def [symmetric]
      staged_def [symmetric]
    by (cases verdict; cases got) (simp_all add: assms(2) early finish vetted_refusal)
qed

lemma vetted_syncOne:
  assumes "\<not> ue_fails E RemoveRecordOp" "vetted C cfg (up_device s)"
  shows "vetted C cfg (up_device (syncOne C cfg E item s))"
proof -
  have "\<not> pendingFor v (up_device s)"
    if "Decide running v inj n (case d_record (up_device s) of None \<Rightarrow> zero_record | Some r \<Rightarrow> r) = Update" for v running inj n
    using that by (auto simp: Decide_def pendingFor_def split: if_splits option.splits)
  then show ?thesis using assms
    by (auto simp: syncOne_def vetted_stage split: option.splits sum.splits Decision.splits)
qed

lemma vetted_reported: "vetted C cfg (up_device s) \<Longrightarrow> vetted C cfg (up_device (reportRollback E s))"
  by (force simp: reportRollback_def Let_def markReported_def setRecord_def vetted_def split: option.splits)

text \<open>
  C32. Only signed builds reach a device. Starting from a device where every staged build has a
  valid version and the bytes whose hash a trusted release key signed together with that version,
  and where a pending attempt points at such a build, a check-in leaves it so - whatever the
  server serves and signs, and whatever fails on the way except removing a record.
\<close>

theorem only_signed_builds_staged:
  assumes "\<not> ue_fails E RemoveRecordOp" "vetted C cfg (up_device s)"
  shows "vetted C cfg (up_device (Update_Sync zone C cfg E items s))"
proof -
  have "vetted C cfg (up_device (foldl (\<lambda>s item. if i_Kind item = ItemKindAgent then syncOne C cfg E item s else s) s1 items))"
    if "vetted C cfg (up_device s1)" for s1
    using that by (induction items arbitrary: s1) (simp_all add: vetted_syncOne assms(1))
  then show ?thesis using assms(2) by (simp add: Update_Sync_def Let_def vetted_reported)
qed

lemma sample_accepted:
  "Verify sample_crypto (uc_Trusted sample_up_config) \<lparr>m_version = ''2'', m_sha256 = av_SHA256 sample_def\<rparr>
     \<lparr>sg_version = ''2'', sg_sha256 = av_SHA256 sample_def, sg_key_id = av_KeyID sample_def,
      sg_signature = manifest_Bytes \<lparr>m_version = ''2'', m_sha256 = av_SHA256 sample_def\<rparr>\<rparr> = None"
  by (simp add: Verify_def verifyWith_def sample_up_config_def sample_def_def equal_fold_def)
     (simp add: sample_crypto_def)

lemma sample_download: "downloadVerified sample_crypto (Some ''build'') (av_SHA256 sample_def) = Some ''build''"
  by (simp add: downloadVerified_def sample_def_def equal_fold_def)

lemma sample_staged:
  "d_bin (up_device (Update_Sync 0 sample_crypto sample_up_config (sample_up_env sample_def) [agent_item]
      (sample_updater None))) = [(''2'', ''build'')]"
proof -
  have shut: "Open 0 (WindowsFrom [agent_item]) 100" by code_simp
  have opts: "ParseAgentOptions (i_Options agent_item) = Some 600" by code_simp
  have version: "validVersion ''2''" by code_simp
  have sig: "b64_decode (av_Signature sample_def)
      = Some (manifest_Bytes \<lparr>m_version = ''2'', m_sha256 = av_SHA256 sample_def\<rparr>)"
    by (simp add: sample_def_def b64_roundtrip)
  have v: "av_Version sample_def = ''2''" by (simp add: sample_def_def)
  have idle: "reportRollback (sample_up_env sample_def) (adoptRollback (sample_up_env sample_def) (sample_updater None))
      = sample_updater None"
    by (simp add: adoptRollback_def reportRollback_def sample_updater_def)
  have go: "Decide (uc_Running sample_up_config) ''2'' (uc_Injected sample_up_config) (length (uc_Trusted sample_up_config))
      zero_record = Update"
    by (simp add: Decide_def sample_up_config_def zero_record_def)
  have env: "ue_fetch (sample_up_env a) k = Inr a" "ue_served (sample_up_env a) k = Some ''build''"
    "\<not> ue_fails (sample_up_env a) p" "ue_now (sample_up_env a) = 100" for a k p
    by (simp_all add: sample_up_env_def)
  have cfg: "uc_hasControl sample_up_config" "uc_hasSpawn sample_up_config" "uc_CheckExecutable sample_up_config = None"
    by (simp_all add: sample_up_config_def)
  have item: "i_Kind agent_item = ItemKindAgent" by (simp add: agent_item_def)
  have dev: "d_record (up_device (sample_updater None)) = None" "d_bin (up_device (sample_updater None)) = []"
    by (simp_all add: sample_updater_def sample_device_def)
  show ?thesis
    by (simp add: Update_Sync_def Let_def idle env shut item syncOne_def opts dev AlreadyRefused_def v go stage_def cfg
        version sig sample_accepted sample_download handOff_def setRecord_def setBuilds_def)
qed

theorem only_signed_builds_staged_witness:
  "d_bin (up_device (Update_Sync 0 sample_crypto sample_up_config (sample_up_env sample_def) [agent_item] (sample_updater None)))
      = [(''2'', ''build'')]
   \<and> signedBuild sample_crypto [cr_public sample_crypto []] (''2'', ''build'')"
proof -
  have bin: "d_bin (up_device (Update_Sync 0 sample_crypto sample_up_config (sample_up_env sample_def) [agent_item]
      (sample_updater None))) = [(''2'', ''build'')]" by (rule sample_staged)
  have "vetted sample_crypto sample_up_config (up_device (Update_Sync 0 sample_crypto sample_up_config
      (sample_up_env sample_def) [agent_item] (sample_updater None)))"
    by (rule only_signed_builds_staged) (simp_all add: sample_up_env_def vetted_def sample_updater_def sample_device_def)
  with bin show ?thesis by (simp add: vetted_def sample_up_config_def)
qed

end
