(* ===== verification/Decode.thy ===== *)
theory Decode
  imports Json "HOL-Library.Monad_Syntax"
begin

text \<open>
  More of what the standard library does for the wire formats: decoding a JSON object into a Go
  struct member by member, the RFC 3339 times \<^verbatim>\<open>time.Time\<close> is written in, and UTF-8 with
  \<^verbatim>\<open>strings.ToValidUTF8\<close>.
\<close>

section \<open>Structs\<close>

text \<open>Each member goes to the field whose name it has, up to case, in the order of the document;
  a decoder gets the field's value so far, which \<^verbatim>\<open>null\<close> leaves as it is. A null for a pointer
  resets it.\<close>

fun field :: "string \<Rightarrow> ('a \<Rightarrow> json \<Rightarrow> 'a option) \<Rightarrow> 'a \<Rightarrow> (string \<times> json) list \<Rightarrow> 'a option" where
  "field k dec x [] = Some x"
| "field k dec x ((n, v) # ms) =
     (if equal_fold n k then Option.bind (dec x v) (\<lambda>y. field k dec y ms) else field k dec x ms)"

definition dec_string :: "string \<Rightarrow> json \<Rightarrow> string option" where
  "dec_string x v = (case v of JNull \<Rightarrow> Some x | JStr s \<Rightarrow> Some s | _ \<Rightarrow> None)"

definition dec_int :: "int \<Rightarrow> json \<Rightarrow> int option" where
  "dec_int x v = (case v of JNull \<Rightarrow> Some x | JNum n \<Rightarrow> atoi n | _ \<Rightarrow> None)"

definition dec_bool :: "bool \<Rightarrow> json \<Rightarrow> bool option" where
  "dec_bool x v = (case v of JNull \<Rightarrow> Some x | JBool b \<Rightarrow> Some b | _ \<Rightarrow> None)"

definition dec_ptr :: "('a \<Rightarrow> json \<Rightarrow> 'a option) \<Rightarrow> 'a \<Rightarrow> 'a option \<Rightarrow> json \<Rightarrow> 'a option option" where
  "dec_ptr dec zero x v =
     (case v of
        JNull \<Rightarrow> Some None
      | _ \<Rightarrow> map_option Some (dec (case x of None \<Rightarrow> zero | Some y \<Rightarrow> y) v))"

section \<open>Times\<close>

definition days_from_civil :: "int \<Rightarrow> int \<Rightarrow> int \<Rightarrow> int" where
  "days_from_civil y m d =
     (let y1 = (if m \<le> 2 then y - 1 else y);
          era = y1 div 400;
          yoe = y1 mod 400;
          doy = (153 * ((m + 9) mod 12) + 2) div 5 + d - 1;
          doe = yoe * 365 + yoe div 4 - yoe div 100 + doy
      in era * 146097 + doe - 306)"

definition days_in :: "int \<Rightarrow> int \<Rightarrow> int" where
  "days_in y m =
     (if m = 2 then (if y mod 4 = 0 \<and> (y mod 100 \<noteq> 0 \<or> y mod 400 = 0) then 29 else 28)
      else if m \<in> {4, 6, 9, 11} then 30 else 31)"

definition take_num :: "nat \<Rightarrow> string \<Rightarrow> (int \<times> string) option" where
  "take_num n s =
     (let d = take n s in
      if length d = n \<and> list_all is_digit d then Some (int (digits_value d), drop n s) else None)"

definition take_char :: "char \<Rightarrow> string \<Rightarrow> string option" where
  "take_char c s = (case s of x # r \<Rightarrow> if x = c then Some r else None | [] \<Rightarrow> None)"

text \<open>A fraction is cut to nanoseconds; a zone is \<^verbatim>\<open>Z\<close> or an offset in hours and minutes.\<close>

definition take_fraction :: "string \<Rightarrow> (int \<times> string) option" where
  "take_fraction s =
     (case s of
        CHR ''.'' # r \<Rightarrow>
          let ds = takeWhile is_digit r in
          if ds = [] then None
          else Some (int (digits_value (take 9 (ds @ replicate 9 (CHR ''0'')))), dropWhile is_digit r)
      | _ \<Rightarrow> Some (0, s))"

definition take_zone :: "string \<Rightarrow> int option" where
  "take_zone s =
     (case s of
        [] \<Rightarrow> None
      | c # r \<Rightarrow>
          if c = CHR ''Z'' then (if r = [] then Some 0 else None)
          else if c = CHR ''+'' \<or> c = CHR ''-'' then
            do { (h, r1) \<leftarrow> take_num 2 r; r2 \<leftarrow> take_char (CHR '':'') r1; (m, r3) \<leftarrow> take_num 2 r2;
                 if r3 = [] \<and> h \<le> 23 \<and> m \<le> 59 then Some ((if c = CHR ''+'' then 1 else - 1) * (h * 3600 + m * 60)) else None }
          else None)"

definition parse_rfc3339 :: "string \<Rightarrow> go_time option" where
  "parse_rfc3339 s =
     do { (y, s) \<leftarrow> take_num 4 s; s \<leftarrow> take_char (CHR ''-'') s; (mo, s) \<leftarrow> take_num 2 s; s \<leftarrow> take_char (CHR ''-'') s;
          (d, s) \<leftarrow> take_num 2 s; s \<leftarrow> take_char (CHR ''T'') s; (h, s) \<leftarrow> take_num 2 s; s \<leftarrow> take_char (CHR '':'') s;
          (mi, s) \<leftarrow> take_num 2 s; s \<leftarrow> take_char (CHR '':'') s; (sec, s) \<leftarrow> take_num 2 s; (ns, s) \<leftarrow> take_fraction s;
          off \<leftarrow> take_zone s;
          if 1 \<le> mo \<and> mo \<le> 12 \<and> 1 \<le> d \<and> d \<le> days_in y mo \<and> h \<le> 23 \<and> mi \<le> 59 \<and> sec \<le> 59
          then Some ((days_from_civil y mo d * 86400 + h * 3600 + mi * 60 + sec - off) * second + ns) else None }"

definition dec_time :: "go_time \<Rightarrow> json \<Rightarrow> go_time option" where
  "dec_time x v = (case v of JNull \<Rightarrow> Some x | JStr s \<Rightarrow> parse_rfc3339 s | _ \<Rightarrow> None)"

section \<open>UTF-8\<close>

definition cont :: "char \<Rightarrow> bool" where
  "cont c \<longleftrightarrow> 128 \<le> byte c \<and> byte c \<le> 191"

text \<open>The length of the encoded character a text begins with, 0 if it begins with none.\<close>

fun utf8_len :: "string \<Rightarrow> nat" where
  "utf8_len [] = 0"
| "utf8_len [a] = (if byte a < 128 then 1 else 0)"
| "utf8_len [a, b] =
     (if byte a < 128 then 1 else if 194 \<le> byte a \<and> byte a \<le> 223 \<and> cont b then 2 else 0)"
| "utf8_len (a # b # c # r) =
     (if byte a < 128 then 1
      else if 194 \<le> byte a \<and> byte a \<le> 223 then (if cont b then 2 else 0)
      else if 224 \<le> byte a \<and> byte a \<le> 239 then
        (if cont b \<and> cont c \<and> (byte a = 224 \<longrightarrow> 160 \<le> byte b) \<and> (byte a = 237 \<longrightarrow> byte b \<le> 159) then 3 else 0)
      else if 240 \<le> byte a \<and> byte a \<le> 244 \<and> r \<noteq> [] then
        (if cont b \<and> cont c \<and> cont (hd r) \<and> (byte a = 240 \<longrightarrow> 144 \<le> byte b) \<and> (byte a = 244 \<longrightarrow> byte b \<le> 143)
         then 4 else 0)
      else 0)"

function valid_utf8 :: "string \<Rightarrow> bool" where
  "valid_utf8 s = (if s = [] then True else if utf8_len s = 0 then False else valid_utf8 (drop (utf8_len s) s))"
  by pat_completeness auto

termination
  by (relation "measure length") auto

function to_valid_from :: "string \<Rightarrow> bool \<Rightarrow> string \<Rightarrow> string" where
  "to_valid_from repl bad s =
     (if s = [] then []
      else if utf8_len s = 0 then (if bad then [] else repl) @ to_valid_from repl True (tl s)
      else take (utf8_len s) s @ to_valid_from repl False (drop (utf8_len s) s))"
  by pat_completeness auto

termination
  by (relation "measure (\<lambda>(_, _, s). length s)") auto

definition ToValidUTF8 :: "string \<Rightarrow> string \<Rightarrow> string" where
  "ToValidUTF8 s repl = to_valid_from repl False s"

declare valid_utf8.simps [simp del] to_valid_from.simps [simp del]

text \<open>U+FFFD.\<close>

definition replacement :: string where
  "replacement = [CHR 0xEF, CHR 0xBF, CHR 0xBD]"

lemma utf8_len_append: "utf8_len s \<noteq> 0 \<Longrightarrow> utf8_len (s @ t) = utf8_len s"
proof (cases s rule: utf8_len.cases)
  case (2 a)
  then show "utf8_len s \<noteq> 0 \<Longrightarrow> ?thesis" by (cases t rule: utf8_len.cases) (auto split: if_splits)
next
  case (3 a b)
  then show "utf8_len s \<noteq> 0 \<Longrightarrow> ?thesis" by (cases t) (auto split: if_splits)
next
  case (4 a b c r)
  then show "utf8_len s \<noteq> 0 \<Longrightarrow> ?thesis" by (cases r) (auto split: if_splits)
qed simp

lemma utf8_len_le: "utf8_len s \<le> length s"
  by (cases s rule: utf8_len.cases) (auto simp: Suc_le_eq)

lemma utf8_len_take: "utf8_len s \<noteq> 0 \<Longrightarrow> utf8_len (take (utf8_len s) s) = utf8_len s"
proof (cases s rule: utf8_len.cases)
  case (4 a b c r)
  then show "utf8_len s \<noteq> 0 \<Longrightarrow> ?thesis" by (cases r) (auto split: if_splits)
qed (auto split: if_splits)

lemma valid_utf8_append: "valid_utf8 s \<Longrightarrow> valid_utf8 t \<Longrightarrow> valid_utf8 (s @ t)"
proof (induction s rule: valid_utf8.induct)
  case (1 s)
  show ?case
  proof (cases "s = []")
    case False
    then have n: "utf8_len s \<noteq> 0" "valid_utf8 (drop (utf8_len s) s)"
      using 1(2) valid_utf8.simps [of s] by (auto split: if_splits)
    have "drop (utf8_len s) (s @ t) = drop (utf8_len s) s @ t" using utf8_len_le [of s] by simp
    then show ?thesis
      using 1(1) [OF False n 1(3)] n(1) utf8_len_append [OF n(1), of t] valid_utf8.simps [of "s @ t"] by simp
  qed (use 1 in simp)
qed

lemma valid_utf8_rune: "utf8_len s \<noteq> 0 \<Longrightarrow> valid_utf8 (take (utf8_len s) s)"
  by (subst valid_utf8.simps) (simp add: utf8_len_take valid_utf8.simps [of "[]"])

lemma valid_replacement: "valid_utf8 replacement"
  by code_simp

text \<open>What \<^verbatim>\<open>ToValidUTF8\<close> returns is valid, and holds no byte but those of the text and of the
  replacement.\<close>

lemma to_valid_from_valid: "valid_utf8 repl \<Longrightarrow> valid_utf8 (to_valid_from repl bad s)"
proof (induction repl bad s rule: to_valid_from.induct)
  case (1 repl bad s)
  show ?case
  proof (cases "s = []")
    case True
    then show ?thesis by (simp add: to_valid_from.simps [of _ _ "[]"] valid_utf8.simps [of "[]"])
  next
    case False
    then show ?thesis
      using 1 valid_utf8_rune [of s] valid_utf8.simps [of "[]"]
      by (subst to_valid_from.simps) (simp add: valid_utf8_append)
  qed
qed

lemma to_valid_from_set: "set (to_valid_from repl bad s) \<subseteq> set repl \<union> set s"
proof (induction repl bad s rule: to_valid_from.induct)
  case (1 repl bad s)
  show ?case
  proof (cases "s = []")
    case False
    have "set (tl s) \<subseteq> set s" using False by (cases s) auto
    then have bad: "utf8_len s = 0 \<Longrightarrow> set (to_valid_from repl True (tl s)) \<subseteq> set repl \<union> set s"
      using 1(1) [OF False] by blast
    have good: "utf8_len s \<noteq> 0 \<Longrightarrow> set (to_valid_from repl False (drop (utf8_len s) s)) \<subseteq> set repl \<union> set s"
      using 1(2) [OF False] set_drop_subset [of "utf8_len s" s] by blast
    show ?thesis
      using False bad good set_take_subset [of "utf8_len s" s]
      by (subst to_valid_from.simps) auto
  qed (simp add: to_valid_from.simps)
qed

text \<open>A valid text is left alone; cut in the middle of a character, it gets one replacement for what is
  left of that character.\<close>

lemma valid_utf8_step: "s \<noteq> [] \<Longrightarrow> valid_utf8 s \<longleftrightarrow> utf8_len s \<noteq> 0 \<and> valid_utf8 (drop (utf8_len s) s)"
  by (subst valid_utf8.simps) simp

lemma to_valid_from_rune:
  "utf8_len s \<noteq> 0 \<Longrightarrow> to_valid_from repl bad s = take (utf8_len s) s @ to_valid_from repl False (drop (utf8_len s) s)"
  by (subst to_valid_from.simps) auto

lemma to_valid_from_bad:
  "utf8_len (c # s) = 0 \<Longrightarrow> to_valid_from repl bad (c # s) = (if bad then [] else repl) @ to_valid_from repl True s"
  by (subst to_valid_from.simps) simp

lemma to_valid_from_Nil [simp]: "to_valid_from repl bad [] = []"
  by (subst to_valid_from.simps) simp

lemma utf8_len_cont: "cont c \<Longrightarrow> utf8_len (c # s) = 0"
  by (cases "c # s" rule: utf8_len.cases) (auto simp: cont_def)

lemma to_valid_from_conts: "list_all cont s \<Longrightarrow> to_valid_from repl True s = []"
  by (induction s) (simp_all add: to_valid_from_bad utf8_len_cont)

lemma short_rune:
  assumes "k < utf8_len s" "0 < k"
  shows "utf8_len (take k s) = 0 \<and> list_all cont (tl (take k s))"
proof (cases s rule: utf8_len.cases)
  case (4 a b c r)
  then have "k = 1 \<or> k = 2 \<or> k = 3" using assms by (auto split: if_splits)
  then show ?thesis using assms(1) 4 by (elim disjE) (auto split: if_splits)
next
  case (3 a b)
  then have "k = 1" using assms by (auto split: if_splits)
  then show ?thesis using assms(1) 3 by (auto split: if_splits)
qed (use assms in \<open>auto split: if_splits simp: less_Suc_eq\<close>)

lemma to_valid_from_cut:
  assumes "valid_utf8 s" "length repl = 3"
  shows "length (to_valid_from repl False (take k s)) \<le> k + 2"
  using assms(1)
proof (induction s arbitrary: k rule: valid_utf8.induct)
  case (1 s)
  show ?case
  proof (cases "s = [] \<or> k = 0")
    case False
    then have n: "utf8_len s \<noteq> 0" "valid_utf8 (drop (utf8_len s) s)" "s \<noteq> []" using "1.prems" valid_utf8_step by blast+
    show ?thesis
    proof (cases "k < utf8_len s")
      case True
      obtain c r where cr: "take k s = c # r" using False by (cases "take k s") auto
      then have "utf8_len (c # r) = 0" "list_all cont r" using short_rune [OF True] False by auto
      then show ?thesis using cr assms(2) False by (simp add: to_valid_from_bad to_valid_from_conts)
    next
      case False
      have t: "take k s = take (utf8_len s) s @ take (k - utf8_len s) (drop (utf8_len s) s)"
        using False by (metis le_add_diff_inverse not_less take_add)
      have u: "utf8_len (take k s) = utf8_len s"
        using t utf8_len_append [of "take (utf8_len s) s"] utf8_len_take [OF n(1)] n(1) by simp
      have tk: "take (utf8_len s) (take k s) = take (utf8_len s) s" "drop (utf8_len s) (take k s) = take (k - utf8_len s) (drop (utf8_len s) s)"
        using False by (simp_all add: drop_take min_def)
      have "to_valid_from repl False (take k s)
          = take (utf8_len s) s @ to_valid_from repl False (take (k - utf8_len s) (drop (utf8_len s) s))"
        using to_valid_from_rune [of "take k s" repl False] u tk n(1) by simp
      then show ?thesis
        using "1.IH" [OF n(3) n(1,2), of "k - utf8_len s"] utf8_len_le [of s] False by simp
    qed
  qed auto
qed

lemma to_valid_from_id: "valid_utf8 s \<Longrightarrow> to_valid_from repl bad s = s"
proof (induction s arbitrary: bad rule: valid_utf8.induct)
  case (1 s)
  show ?case
  proof (cases "s = []")
    case False
    then have "utf8_len s \<noteq> 0" "valid_utf8 (drop (utf8_len s) s)" using "1.prems" valid_utf8_step by blast+
    then show ?thesis using "1.IH" [OF False] by (simp add: to_valid_from_rune)
  qed simp
qed

end
