(* ===== verification/Command_Service.thy ===== *)
theory Command_Service
  imports Decode Release
begin

text \<open>
  The server's command queue: the service of \<^verbatim>\<open>src/internal/server/commands/service.go\<close> over the
  tables of \<^verbatim>\<open>src/internal/server/store/commands.go\<close>, with the payloads and results of
  \<^verbatim>\<open>src/internal/protocol/commands.go\<close>. An operation is a function of the tables that returns its
  answer and the new tables; a transaction that fails leaves the tables alone. Identifiers are
  their text, which sorts as they do. A payload is kept as the struct its canonical JSON encodes.
  The new identifier, the time, the cryptography and the hook \<^verbatim>\<open>OnComplete\<close>, which works on the
  rest of the database, are arguments.
\<close>

section \<open>Payloads\<close>

record RunPowerShellPayload =
  rp_Script :: string
  rp_TimeoutSeconds :: int
  rp_Signature :: "op_signature option"

record RestartPayload =
  rs_DelaySeconds :: int
  rs_Message :: string

record WipePayload =
  wp_Protected :: bool
  wp_Expires :: "go_time option"
  wp_Signature :: "op_signature option"

record InstallUpdatesPayload =
  iu_Scope :: string
  iu_Restart :: string

record RenameComputerPayload =
  rn_Name :: string
  rn_Restart :: bool

record RotateAdminPasswordPayload =
  ra_Account :: string
  ra_Length :: int

datatype payload =
    PRun RunPowerShellPayload
  | PRestart RestartPayload
  | PNone
  | PLogs int
  | PWipe WipePayload
  | PUpdates InstallUpdatesPayload
  | PRename RenameComputerPayload
  | PRotate RotateAdminPasswordPayload
  | PShell string

abbreviation "CommandRunPowerShell \<equiv> ''run_powershell''"
abbreviation "CommandRestart \<equiv> ''restart''"
abbreviation "CommandRefreshInventory \<equiv> ''refresh_inventory''"
abbreviation "CommandLock \<equiv> ''lock''"
abbreviation "CommandCollectLogs \<equiv> ''collect_logs''"
abbreviation "CommandWipe \<equiv> ''wipe''"
abbreviation "CommandRotateAdminPassword \<equiv> ''rotate_local_admin_password''"
abbreviation "CommandRenameComputer \<equiv> ''rename_computer''"
abbreviation "CommandInstallUpdates \<equiv> ''install_updates''"
abbreviation "CommandRemoteShell \<equiv> ''remote_shell''"

abbreviation "UpdatesSecurity \<equiv> ''security''"
abbreviation "UpdatesAll \<equiv> ''all''"
abbreviation "UpdateRestartNever \<equiv> ''never''"
abbreviation "UpdateRestartIfRequired \<equiv> ''if_required''"

definition dec_signature :: "op_signature \<Rightarrow> json \<Rightarrow> op_signature option" where
  "dec_signature x v =
     (case v of
        JNull \<Rightarrow> Some x
      | JObj ms \<Rightarrow>
          do { k \<leftarrow> field ''key_id'' dec_string (og_key_id x) ms;
               g \<leftarrow> field ''signature'' dec_string (og_signature x) ms;
               Some \<lparr>og_key_id = k, og_signature = g\<rparr> }
      | _ \<Rightarrow> None)"

abbreviation "dec_sig_ptr \<equiv> dec_ptr dec_signature \<lparr>og_key_id = [], og_signature = []\<rparr>"

text \<open>\<^verbatim>\<open>decodePayload\<close>: no payload, like \<^verbatim>\<open>null\<close>, leaves the zero struct.\<close>

definition decodePayload :: "((string \<times> json) list \<Rightarrow> 'p option) \<Rightarrow> json option \<Rightarrow> 'p option" where
  "decodePayload dec raw =
     (case raw of
        None \<Rightarrow> dec []
      | Some JNull \<Rightarrow> dec []
      | Some (JObj ms) \<Rightarrow> dec ms
      | Some _ \<Rightarrow> None)"

definition dec_run :: "(string \<times> json) list \<Rightarrow> RunPowerShellPayload option" where
  "dec_run ms = do { s \<leftarrow> field ''script'' dec_string [] ms; t \<leftarrow> field ''timeout_seconds'' dec_int 0 ms;
     g \<leftarrow> field ''signature'' dec_sig_ptr None ms; Some \<lparr>rp_Script = s, rp_TimeoutSeconds = t, rp_Signature = g\<rparr> }"

definition dec_restart :: "(string \<times> json) list \<Rightarrow> RestartPayload option" where
  "dec_restart ms = do { d \<leftarrow> field ''delay_seconds'' dec_int 0 ms; m \<leftarrow> field ''message'' dec_string [] ms;
     Some \<lparr>rs_DelaySeconds = d, rs_Message = m\<rparr> }"

definition dec_logs :: "int \<Rightarrow> (string \<times> json) list \<Rightarrow> int option" where
  "dec_logs hours ms = field ''hours'' dec_int hours ms"

definition dec_wipe :: "(string \<times> json) list \<Rightarrow> WipePayload option" where
  "dec_wipe ms = do { p \<leftarrow> field ''protected'' dec_bool False ms; e \<leftarrow> field ''expires'' (dec_ptr dec_time 0) None ms;
     g \<leftarrow> field ''signature'' dec_sig_ptr None ms; Some \<lparr>wp_Protected = p, wp_Expires = e, wp_Signature = g\<rparr> }"

definition dec_updates :: "(string \<times> json) list \<Rightarrow> InstallUpdatesPayload option" where
  "dec_updates ms = do { s \<leftarrow> field ''scope'' dec_string [] ms; r \<leftarrow> field ''restart'' dec_string [] ms;
     Some \<lparr>iu_Scope = s, iu_Restart = r\<rparr> }"

definition dec_rename :: "(string \<times> json) list \<Rightarrow> RenameComputerPayload option" where
  "dec_rename ms = do { n \<leftarrow> field ''name'' dec_string [] ms; r \<leftarrow> field ''restart'' dec_bool False ms;
     Some \<lparr>rn_Name = n, rn_Restart = r\<rparr> }"

definition dec_rotate :: "int \<Rightarrow> (string \<times> json) list \<Rightarrow> RotateAdminPasswordPayload option" where
  "dec_rotate len ms = do { a \<leftarrow> field ''account'' dec_string [] ms; n \<leftarrow> field ''length'' dec_int len ms;
     Some \<lparr>ra_Account = a, ra_Length = n\<rparr> }"

definition ValidComputerName :: "string \<Rightarrow> bool" where
  "ValidComputerName name \<longleftrightarrow>
     name \<noteq> [] \<and> length name \<le> 15 \<and> hd name \<noteq> CHR ''-'' \<and> last name \<noteq> CHR ''-''
     \<and> list_all (\<lambda>c. is_digit c \<or> is_lower c \<or> is_upper c \<or> c = CHR ''-'') name
     \<and> \<not> list_all is_digit name"

definition accountChars :: string where
  "accountChars = [CHR 0x22, CHR ''/'', CHR 0x5C, CHR ''['', CHR '']'', CHR '':'', CHR '';'', CHR ''|'', CHR ''='',
     CHR '','', CHR ''+'', CHR ''*'', CHR ''?'', CHR ''<'', CHR ''>'', CHR ''@'']"

datatype cmd_error = BadRequest string | CommandNotFound | DeviceNotActive | DryRun | TxFailed string

definition malformed :: "'a option \<Rightarrow> ('a \<Rightarrow> cmd_error + 'b) \<Rightarrow> cmd_error + 'b" where
  "malformed x f = (case x of None \<Rightarrow> Inl (BadRequest ''the payload does not decode'') | Some y \<Rightarrow> f y)"

definition normalizePayload :: "string \<Rightarrow> json option \<Rightarrow> cmd_error + payload" where
  "normalizePayload typ raw =
     (if typ = CommandRunPowerShell then
        malformed (decodePayload dec_run raw) (\<lambda>p.
          if trim_space (rp_Script p) = [] then Inl (BadRequest ''script is required'')
          else if rp_TimeoutSeconds p = 0 then Inr (PRun (p\<lparr>rp_TimeoutSeconds := 600\<rparr>))
          else if rp_TimeoutSeconds p < 0 \<or> rp_TimeoutSeconds p > 86400
          then Inl (BadRequest ''timeout_seconds must be between 1 and 86400'')
          else Inr (PRun p))
      else if typ = CommandRestart then
        malformed (decodePayload dec_restart raw) (\<lambda>p.
          if rs_DelaySeconds p < 0 \<or> rs_DelaySeconds p > 86400
          then Inl (BadRequest ''delay_seconds must be between 0 and 86400'')
          else if length (rs_Message p) > 512 then Inl (BadRequest ''message must be at most 512 characters'')
          else Inr (PRestart p))
      else if typ = CommandRefreshInventory \<or> typ = CommandLock then Inr PNone
      else if typ = CommandCollectLogs then
        malformed (decodePayload (dec_logs 0) raw) (\<lambda>h.
          let hours = (if h = 0 then 24 else h) in
          if hours < 1 \<or> hours > 168 then Inl (BadRequest ''hours must be between 1 and 168'')
          else Inr (PLogs hours))
      else if typ = CommandWipe then malformed (decodePayload dec_wipe raw) (\<lambda>p. Inr (PWipe p))
      else if typ = CommandInstallUpdates then
        malformed (decodePayload dec_updates raw) (\<lambda>p0.
          let p = p0\<lparr>iu_Scope := (if iu_Scope p0 = [] then UpdatesSecurity else iu_Scope p0),
                     iu_Restart := (if iu_Restart p0 = [] then UpdateRestartNever else iu_Restart p0)\<rparr> in
          if iu_Scope p \<noteq> UpdatesSecurity \<and> iu_Scope p \<noteq> UpdatesAll then Inl (BadRequest ''scope must be security or all'')
          else if iu_Restart p \<noteq> UpdateRestartNever \<and> iu_Restart p \<noteq> UpdateRestartIfRequired
          then Inl (BadRequest ''restart_policy must be never or if_required'')
          else Inr (PUpdates p))
      else if typ = CommandRenameComputer then
        malformed (decodePayload dec_rename raw) (\<lambda>p0.
          let p = p0\<lparr>rn_Name := trim_space (rn_Name p0)\<rparr> in
          if \<not> ValidComputerName (rn_Name p)
          then Inl (BadRequest ''name must be 1 to 15 letters, digits and hyphens, not all digits'')
          else Inr (PRename p))
      else if typ = CommandRotateAdminPassword then
        malformed (decodePayload (dec_rotate 0) raw) (\<lambda>p0.
          let p1 = p0\<lparr>ra_Account := trim_space (ra_Account p0)\<rparr> in
          if length (ra_Account p1) > 20 \<or> list_ex (\<lambda>c. c \<in> set accountChars) (ra_Account p1)
          then Inl (BadRequest ''account must be a local account name, up to 20 characters'')
          else
            let p = (if ra_Length p1 = 0 then p1\<lparr>ra_Length := 24\<rparr> else p1) in
            if ra_Length p < 20 \<or> ra_Length p > 64 then Inl (BadRequest ''length must be between 20 and 64'')
            else Inr (PRotate p))
      else Inl (BadRequest ''unsupported command type''))"

section \<open>Tables\<close>

abbreviation "CommandQueued \<equiv> ''queued''"
abbreviation "CommandDelivered \<equiv> ''delivered''"
abbreviation "CommandRunning \<equiv> ''running''"
abbreviation "CommandSucceeded \<equiv> ''succeeded''"
abbreviation "CommandFailed \<equiv> ''failed''"
abbreviation "CommandTimedOut \<equiv> ''timed_out''"
abbreviation "CommandExpired \<equiv> ''expired''"

record Command =
  c_ID :: uuid
  c_DeviceID :: uuid
  c_Type :: string
  c_Payload :: payload
  c_Status :: string
  c_CreatedBy :: string
  c_CreatedAt :: go_time
  c_DeliveredAt :: "go_time option"
  c_StartedAt :: "go_time option"
  c_CompletedAt :: "go_time option"
  c_ExpiresAt :: go_time

record CommandResult =
  r_Status :: string
  r_ExitCode :: int
  r_Stdout :: string
  r_Stderr :: string
  r_StdoutTruncated :: bool
  r_StderrTruncated :: bool
  r_Error :: string
  r_StartedAt :: go_time
  r_FinishedAt :: go_time

record StoredResult =
  sr_CommandID :: uuid
  sr_ExitCode :: int
  sr_Stdout :: string
  sr_Stderr :: string
  sr_StdoutTruncated :: bool
  sr_StderrTruncated :: bool
  sr_Error :: string
  sr_StartedAt :: go_time
  sr_FinishedAt :: go_time

record audit_entry =
  au_Actor :: string
  au_Action :: string
  au_TargetID :: string
  au_Details :: "(string \<times> string) list"

record 'x cmd_db =
  db_commands :: "Command list"
  db_results :: "StoredResult list"
  db_hosts :: "(uuid \<times> string \<times> string) list"
  db_audit :: "audit_entry list"
  db_rest :: 'x

text \<open>\<open>db_hosts\<close> is the part of the devices table the queue reads: hostname and status.\<close>

definition GetCommand :: "uuid \<Rightarrow> 'x cmd_db \<Rightarrow> Command option" where
  "GetCommand k db = find (\<lambda>c. c_ID c = k) (db_commands db)"

definition CreateCommand :: "Command \<Rightarrow> 'x cmd_db \<Rightarrow> cmd_error + 'x cmd_db" where
  "CreateCommand c db =
     (if GetCommand (c_ID c) db \<noteq> None then Inl (TxFailed ''duplicate key'')
      else Inr (db\<lparr>db_commands := db_commands db @ [c]\<rparr>))"

definition updateCommands :: "(Command \<Rightarrow> bool) \<Rightarrow> (Command \<Rightarrow> Command) \<Rightarrow> 'x cmd_db \<Rightarrow> 'x cmd_db" where
  "updateCommands P f db = db\<lparr>db_commands := map (\<lambda>c. if P c then f c else c) (db_commands db)\<rparr>"

definition ExpireCommands :: "go_time \<Rightarrow> 'x cmd_db \<Rightarrow> 'x cmd_db" where
  "ExpireCommands now db =
     updateCommands (\<lambda>c. c_Status c \<in> {CommandQueued, CommandDelivered} \<and> c_ExpiresAt c \<le> now)
       (\<lambda>c. c\<lparr>c_Status := CommandExpired, c_CompletedAt := Some now\<rparr>) db"

definition owed :: "Command \<Rightarrow> bool" where
  "owed c \<longleftrightarrow> c_Status c \<in> {CommandQueued, CommandDelivered, CommandRunning}"

definition PendingCommands :: "uuid \<Rightarrow> 'x cmd_db \<Rightarrow> Command list" where
  "PendingCommands dev db =
     sort_key (\<lambda>c. (c_CreatedAt c, c_ID c)) (filter (\<lambda>c. c_DeviceID c = dev \<and> owed c) (db_commands db))"

definition MarkCommandsDelivered :: "uuid list \<Rightarrow> go_time \<Rightarrow> 'x cmd_db \<Rightarrow> 'x cmd_db" where
  "MarkCommandsDelivered ids now db =
     updateCommands (\<lambda>c. c_ID c \<in> set ids \<and> c_Status c = CommandQueued)
       (\<lambda>c. c\<lparr>c_Status := CommandDelivered, c_DeliveredAt := Some now\<rparr>) db"

definition MarkCommandRunning :: "uuid \<Rightarrow> uuid \<Rightarrow> go_time \<Rightarrow> 'x cmd_db \<Rightarrow> bool \<times> 'x cmd_db" where
  "MarkCommandRunning k dev now db =
     (let P = (\<lambda>c. c_ID c = k \<and> c_DeviceID c = dev \<and> c_Status c \<in> {CommandQueued, CommandDelivered})
      in (list_ex P (db_commands db),
          updateCommands P (\<lambda>c. c\<lparr>c_Status := CommandRunning, c_StartedAt := Some now\<rparr>) db))"

definition CompleteCommand :: "uuid \<Rightarrow> uuid \<Rightarrow> string \<Rightarrow> go_time \<Rightarrow> 'x cmd_db \<Rightarrow> bool \<times> 'x cmd_db" where
  "CompleteCommand k dev status now db =
     (let P = (\<lambda>c. c_ID c = k \<and> c_DeviceID c = dev \<and> owed c)
      in (list_ex P (db_commands db),
          updateCommands P (\<lambda>c. c\<lparr>c_Status := status, c_CompletedAt := Some now\<rparr>) db))"

definition GetCommandResult :: "uuid \<Rightarrow> 'x cmd_db \<Rightarrow> StoredResult option" where
  "GetCommandResult k db = find (\<lambda>r. sr_CommandID r = k) (db_results db)"

definition InsertCommandResult :: "StoredResult \<Rightarrow> 'x cmd_db \<Rightarrow> cmd_error + 'x cmd_db" where
  "InsertCommandResult r db =
     (if GetCommandResult (sr_CommandID r) db \<noteq> None then Inl (TxFailed ''duplicate key'')
      else Inr (db\<lparr>db_results := db_results db @ [r]\<rparr>))"

text \<open>Retention: at most \<open>limit\<close> of the commands that finished before the cutoff go, each with its result.
  The statement names no order, so which of them the database finds first is an argument.\<close>

definition finishedBefore :: "go_time \<Rightarrow> Command \<Rightarrow> bool" where
  "finishedBefore cutoff c \<longleftrightarrow> (case c_CompletedAt c of None \<Rightarrow> False | Some t \<Rightarrow> t < cutoff)
     \<and> c_Status c \<in> {CommandSucceeded, CommandFailed, CommandTimedOut, CommandExpired}"

definition retentionBatch :: "go_time \<Rightarrow> nat \<Rightarrow> (Command \<Rightarrow> nat) \<Rightarrow> 'x cmd_db \<Rightarrow> Command list" where
  "retentionBatch cutoff limit found db = take limit (sort_key found (filter (finishedBefore cutoff) (db_commands db)))"

definition DeleteFinishedCommandsBefore ::
  "go_time \<Rightarrow> nat \<Rightarrow> (Command \<Rightarrow> nat) \<Rightarrow> 'x cmd_db \<Rightarrow> nat \<times> 'x cmd_db" where
  "DeleteFinishedCommandsBefore cutoff limit found db =
     (let batch = map c_ID (retentionBatch cutoff limit found db) in
      (length batch,
       db\<lparr>db_commands := filter (\<lambda>c. c_ID c \<notin> set batch) (db_commands db),
          db_results := filter (\<lambda>r. sr_CommandID r \<notin> set batch) (db_results db)\<rparr>))"

section \<open>The service\<close>

record 'x cmd_service =
  cs_OperationsKeys :: "public_key list"
  cs_OnComplete :: "(Command \<Rightarrow> string \<Rightarrow> go_time \<Rightarrow> 'x \<Rightarrow> string + 'x) option"

record QueueOptions =
  q_DeviceID :: uuid
  q_Type :: string
  q_Payload :: "json option"
  q_CreatedBy :: string
  q_TTL :: duration
  q_ConfirmHostname :: string
  q_Reason :: string

definition DefaultTTL :: duration where "DefaultTTL = 7 * 24 * hour"
definition WipeTTL :: duration where "WipeTTL = 24 * hour"
definition MaxWipeValidity :: duration where "MaxWipeValidity = 24 * hour"

definition checkSignature ::
  "crypto \<Rightarrow> public_key list \<Rightarrow> uuid \<Rightarrow> payload \<Rightarrow> go_time \<Rightarrow> cmd_error + duration" where
  "checkSignature C keys dev p now =
     (case p of
        PRun rp \<Rightarrow>
          (case opsign_Verify C keys (ScriptManifest C (rp_Script rp) []) (rp_Signature rp) of
             Some e \<Rightarrow> Inl (BadRequest ''sign the script with retune-sign sign-script'')
           | None \<Rightarrow> Inr 0)
      | PWipe wp \<Rightarrow>
          (case wp_Expires wp of
             None \<Rightarrow> Inl (BadRequest ''a wipe needs a signed order'')
           | Some expires \<Rightarrow>
               if time_add now MaxWipeValidity < expires
               then Inl (BadRequest ''a signed wipe order can be valid for at most 24 hours'')
               else case VerifyWipe C keys dev (wp_Protected wp) expires now (wp_Signature wp) of
                 Some e \<Rightarrow> Inl (BadRequest ''the signed order does not verify'')
               | None \<Rightarrow> Inr (time_sub expires now))
      | _ \<Rightarrow> Inr 0)"

text \<open>How long the order may wait: a wipe at most a day, a signed order until it lapses.\<close>

definition orderTTL ::
  "crypto \<Rightarrow> 'x cmd_service \<Rightarrow> QueueOptions \<Rightarrow> payload \<Rightarrow> go_time \<Rightarrow> cmd_error + duration" where
  "orderTTL C svc opts p now =
     (let ttl0 = (if q_TTL opts \<le> 0 then DefaultTTL else q_TTL opts);
          wipe = (q_Type opts = CommandWipe);
          reason = trim_space (q_Reason opts) in
      if wipe \<and> reason = [] then Inl (BadRequest ''a wipe needs a reason'')
      else if wipe \<and> length reason > 500 then Inl (BadRequest ''the reason must be at most 500 characters'')
      else
        let ttl = (if wipe \<and> ttl0 > WipeTTL then WipeTTL else ttl0) in
        if cs_OperationsKeys svc = [] then Inr ttl
        else case checkSignature C (cs_OperationsKeys svc) (q_DeviceID opts) p now of
          Inl e \<Rightarrow> Inl e
        | Inr signedTTL \<Rightarrow> Inr (if signedTTL > 0 \<and> signedTTL < ttl then signedTTL else ttl))"

definition wipeProtected :: "payload \<Rightarrow> bool" where
  "wipeProtected p = (case p of PWipe wp \<Rightarrow> wp_Protected wp | _ \<Rightarrow> False)"

definition queueAudit :: "QueueOptions \<Rightarrow> string \<Rightarrow> payload \<Rightarrow> uuid \<Rightarrow> audit_entry" where
  "queueAudit opts host p k =
     \<lparr>au_Actor = q_CreatedBy opts,
      au_Action = (if q_Type opts = CommandWipe then ''command.wipe_queued'' else ''command.queued''),
      au_TargetID = k,
      au_Details = [(''device_id'', q_DeviceID opts), (''type'', q_Type opts)]
        @ (if q_Type opts = CommandWipe
           then [(''hostname'', host), (''reason'', trim_space (q_Reason opts)),
                 (''protected'', if wipeProtected p then ''true'' else ''false'')]
           else [])\<rparr>"

definition queue ::
  "crypto \<Rightarrow> 'x cmd_service \<Rightarrow> QueueOptions \<Rightarrow> bool \<Rightarrow> uuid \<Rightarrow> go_time \<Rightarrow> 'x cmd_db
     \<Rightarrow> (cmd_error + Command) \<times> 'x cmd_db" where
  "queue C svc opts dry k now db =
     (case bindE (normalizePayload (q_Type opts) (q_Payload opts))
             (\<lambda>p. bindE (orderTTL C svc opts p now) (\<lambda>ttl. Inr (p, ttl))) of
        Inl e \<Rightarrow> (Inl e, db)
      | Inr (p, ttl) \<Rightarrow>
          let c = \<lparr>c_ID = k, c_DeviceID = q_DeviceID opts, c_Type = q_Type opts, c_Payload = p,
                c_Status = CommandQueued, c_CreatedBy = q_CreatedBy opts, c_CreatedAt = now,
                c_DeliveredAt = None, c_StartedAt = None, c_CompletedAt = None,
                c_ExpiresAt = time_add now ttl\<rparr> in
          (case map_of (db_hosts db) (q_DeviceID opts) of
             None \<Rightarrow> (Inl CommandNotFound, db)
           | Some (host, status) \<Rightarrow>
               if status \<noteq> ''active'' then (Inl DeviceNotActive, db)
               else if q_Type opts = CommandWipe \<and> \<not> equal_fold (trim_space (q_ConfirmHostname opts)) host
               then (Inl (BadRequest ''to wipe this device, confirm_hostname must be its hostname''), db)
               else if dry then (Inl DryRun, db)
               else case CreateCommand c db of
                 Inl e \<Rightarrow> (Inl e, db)
               | Inr db1 \<Rightarrow> (Inr c, db1\<lparr>db_audit := db_audit db1 @ [queueAudit opts host p k]\<rparr>)))"

definition Queue ::
  "crypto \<Rightarrow> 'x cmd_service \<Rightarrow> QueueOptions \<Rightarrow> uuid \<Rightarrow> go_time \<Rightarrow> 'x cmd_db \<Rightarrow> (cmd_error + Command) \<times> 'x cmd_db" where
  "Queue C svc opts k now db = queue C svc opts False k now db"

definition Check ::
  "crypto \<Rightarrow> 'x cmd_service \<Rightarrow> QueueOptions \<Rightarrow> uuid \<Rightarrow> go_time \<Rightarrow> 'x cmd_db \<Rightarrow> cmd_error option" where
  "Check C svc opts k now db =
     (case fst (queue C svc opts True k now db) of Inl DryRun \<Rightarrow> None | Inl e \<Rightarrow> Some e | Inr c \<Rightarrow> None)"

text \<open>A delivered command as the agent gets it.\<close>

record wire_command =
  w_ID :: string
  w_Type :: string
  w_Payload :: payload

definition wire :: "Command \<Rightarrow> wire_command" where
  "wire c = \<lparr>w_ID = c_ID c, w_Type = c_Type c, w_Payload = c_Payload c\<rparr>"

definition Deliver :: "uuid \<Rightarrow> go_time \<Rightarrow> 'x cmd_db \<Rightarrow> wire_command list \<times> 'x cmd_db" where
  "Deliver dev now db =
     (let db1 = ExpireCommands now db;
          pending = PendingCommands dev db1;
          fresh = map c_ID (filter (\<lambda>c. c_Status c = CommandQueued) pending)
      in (map wire pending, MarkCommandsDelivered fresh now db1))"

definition Start :: "uuid \<Rightarrow> uuid \<Rightarrow> go_time \<Rightarrow> 'x cmd_db \<Rightarrow> cmd_error option \<times> 'x cmd_db" where
  "Start dev k now db =
     (case MarkCommandRunning k dev now db of
        (True, db1) \<Rightarrow> (None, db1)
      | (False, db1) \<Rightarrow>
          (case GetCommand k db1 of
             None \<Rightarrow> (Some CommandNotFound, db)
           | Some c \<Rightarrow> if c_DeviceID c \<noteq> dev then (Some CommandNotFound, db) else (None, db1)))"

abbreviation "ResultSucceeded \<equiv> ''succeeded''"
abbreviation "ResultFailed \<equiv> ''failed''"
abbreviation "ResultTimedOut \<equiv> ''timed_out''"

abbreviation MaxOutputBytes :: int where "MaxOutputBytes \<equiv> 1048576"

definition clampOutput :: "string \<Rightarrow> bool \<Rightarrow> string \<times> bool" where
  "clampOutput s truncated =
     (let s1 = filter (\<lambda>c. c \<noteq> CHR 0x00) s in
      if int (length s1) > MaxOutputBytes then (ToValidUTF8 (take (nat MaxOutputBytes) s1) replacement, True)
      else (ToValidUTF8 s1 replacement, truncated))"

definition storedResult :: "uuid \<Rightarrow> CommandResult \<Rightarrow> StoredResult" where
  "storedResult k r =
     (let (stdout, stdoutTruncated) = clampOutput (r_Stdout r) (r_StdoutTruncated r);
          (stderr, stderrTruncated) = clampOutput (r_Stderr r) (r_StderrTruncated r);
          (errText, _) = clampOutput (r_Error r) False
      in \<lparr>sr_CommandID = k, sr_ExitCode = r_ExitCode r, sr_Stdout = stdout, sr_Stderr = stderr,
          sr_StdoutTruncated = stdoutTruncated, sr_StderrTruncated = stderrTruncated, sr_Error = errText,
          sr_StartedAt = r_StartedAt r, sr_FinishedAt = r_FinishedAt r\<rparr>)"

definition runOnComplete :: "'x cmd_service \<Rightarrow> uuid \<Rightarrow> string \<Rightarrow> go_time \<Rightarrow> 'x cmd_db \<Rightarrow> cmd_error + 'x cmd_db" where
  "runOnComplete svc k status now db =
     (case cs_OnComplete svc of
        None \<Rightarrow> Inr db
      | Some hook \<Rightarrow>
          (case GetCommand k db of
             None \<Rightarrow> Inl (TxFailed ''not found'')
           | Some c \<Rightarrow>
               (case hook c status now (db_rest db) of
                  Inl e \<Rightarrow> Inl (TxFailed e)
                | Inr x \<Rightarrow> Inr (db\<lparr>db_rest := x\<rparr>))))"

definition resultStatus :: "string \<Rightarrow> bool" where
  "resultStatus s \<longleftrightarrow> s \<in> {ResultSucceeded, ResultFailed, ResultTimedOut}"

definition Complete ::
  "'x cmd_service \<Rightarrow> uuid \<Rightarrow> uuid \<Rightarrow> CommandResult \<Rightarrow> go_time \<Rightarrow> 'x cmd_db \<Rightarrow> cmd_error option \<times> 'x cmd_db" where
  "Complete svc dev k r now db =
     (if \<not> resultStatus (r_Status r)
      then (Some (BadRequest ''unsupported result status''), db)
      else case CompleteCommand k dev (r_Status r) now db of
        (False, db1) \<Rightarrow>
          (case GetCommand k db1 of
             None \<Rightarrow> (Some CommandNotFound, db)
           | Some c \<Rightarrow> if c_DeviceID c \<noteq> dev then (Some CommandNotFound, db) else (None, db1))
      | (True, db1) \<Rightarrow>
          (case bindE (InsertCommandResult (storedResult k r) db1) (runOnComplete svc k (r_Status r) now) of
             Inl e \<Rightarrow> (Some e, db)
           | Inr db2 \<Rightarrow> (None, db2)))"

definition Get :: "uuid \<Rightarrow> 'x cmd_db \<Rightarrow> (Command \<times> StoredResult option) option" where
  "Get k db = map_option (\<lambda>c. (c, GetCommandResult k db)) (GetCommand k db)"

end
