(* ===== verification/Command_Lifecycle.thy ===== *)
theory Command_Lifecycle
  imports Command_Service
begin

text \<open>
  What the command queue guarantees: a wipe is queued only with every safeguard and never waits
  longer than it may; a device is handed exactly the commands it owes, oldest first; a command
  that has ended stays as it ended, with its one result, until retention deletes both; and output
  is stored cleaned.
\<close>

section \<open>Queueing\<close>

lemma queue_cases:
  assumes "queue C svc opts dry k now db = (Inr c, db')"
  obtains p ttl host where "normalizePayload (q_Type opts) (q_Payload opts) = Inr p"
    "orderTTL C svc opts p now = Inr ttl" "map_of (db_hosts db) (q_DeviceID opts) = Some (host, ''active'')"
    "q_Type opts = CommandWipe \<longrightarrow> equal_fold (trim_space (q_ConfirmHostname opts)) host" "\<not> dry"
    "c = \<lparr>c_ID = k, c_DeviceID = q_DeviceID opts, c_Type = q_Type opts, c_Payload = p,
        c_Status = CommandQueued, c_CreatedBy = q_CreatedBy opts, c_CreatedAt = now,
        c_DeliveredAt = None, c_StartedAt = None, c_CompletedAt = None, c_ExpiresAt = time_add now ttl\<rparr>"
    "GetCommand k db = None"
    "db' = db\<lparr>db_commands := db_commands db @ [c], db_audit := db_audit db @ [queueAudit opts host p k]\<rparr>"
proof -
  define pre where "pre = bindE (normalizePayload (q_Type opts) (q_Payload opts))
             (\<lambda>p. bindE (orderTTL C svc opts p now) (\<lambda>ttl. Inr (p, ttl)))"
  note run = assms [unfolded queue_def pre_def [symmetric]]
  then obtain p ttl where pre: "pre = Inr (p, ttl)" by (cases pre) auto
  then have n: "normalizePayload (q_Type opts) (q_Payload opts) = Inr p" "orderTTL C svc opts p now = Inr ttl"
    by (auto simp: pre_def bindE_eq_Inr)
  obtain host status where h: "map_of (db_hosts db) (q_DeviceID opts) = Some (host, status)"
    using run pre by (cases "map_of (db_hosts db) (q_DeviceID opts)") auto
  show thesis
    using run pre h by (intro that [OF n]) (auto simp: CreateCommand_def Let_def split: if_splits)
qed

lemma orderTTL_wipe:
  assumes "orderTTL C svc opts p now = Inr ttl" "q_Type opts = CommandWipe"
  shows "trim_space (q_Reason opts) \<noteq> []" "ttl \<le> WipeTTL"
    "cs_OperationsKeys svc \<noteq> [] \<Longrightarrow> \<exists>signed. checkSignature C (cs_OperationsKeys svc) (q_DeviceID opts) p now = Inr signed
        \<and> (0 < signed \<longrightarrow> ttl \<le> signed)"
  using assms by (auto simp: orderTTL_def Let_def split: if_splits sum.splits)

lemma checkSignature_wipe:
  assumes "checkSignature C keys dev (PWipe wp) now = Inr signed"
  obtains expires where "wp_Expires wp = Some expires" "expires \<le> time_add now MaxWipeValidity"
    "VerifyWipe C keys dev (wp_Protected wp) expires now (wp_Signature wp) = None" "signed = time_sub expires now"
  using assms by (auto simp: checkSignature_def split: option.splits if_splits)

lemma VerifyWipe_live: "VerifyWipe C keys dev p expires now g = None \<Longrightarrow> now < expires"
  by (auto simp: VerifyWipe_def split: if_splits option.splits)

lemma normalizePayload_wipe: "normalizePayload CommandWipe raw = Inr p \<Longrightarrow> \<exists>wp. p = PWipe wp"
  by (auto simp: normalizePayload_def malformed_def split: option.splits)

text \<open>
  C23. A wipe is queued only with every safeguard: the device is active, its hostname was typed,
  a reason was given and is in the audit log; the order lapses within a day; and where operations
  keys are set, a trusted key signed an order for this device that is still valid, and the command
  lapses no later than that order.
\<close>

theorem Queue_wipe_guarded:
  assumes "Queue C svc opts k now db = (Inr c, db')" "q_Type opts = CommandWipe"
  shows "(\<exists>host. map_of (db_hosts db) (q_DeviceID opts) = Some (host, ''active'')
        \<and> equal_fold (trim_space (q_ConfirmHostname opts)) host
        \<and> (''reason'', trim_space (q_Reason opts)) \<in> set (au_Details (last (db_audit db'))))
    \<and> trim_space (q_Reason opts) \<noteq> []
    \<and> c_DeviceID c = q_DeviceID opts \<and> c_ExpiresAt c \<le> time_add now WipeTTL
    \<and> (if cs_OperationsKeys svc = [] then True
       else \<exists>wp expires. c_Payload c = PWipe wp \<and> wp_Expires wp = Some expires \<and> now < expires
          \<and> c_ExpiresAt c \<le> expires
          \<and> VerifyWipe C (cs_OperationsKeys svc) (q_DeviceID opts) (wp_Protected wp) expires now (wp_Signature wp) = None)"
proof -
  from assms(1) [unfolded Queue_def] obtain p ttl host where q:
    "normalizePayload (q_Type opts) (q_Payload opts) = Inr p" "orderTTL C svc opts p now = Inr ttl"
    "map_of (db_hosts db) (q_DeviceID opts) = Some (host, ''active'')"
    "q_Type opts = CommandWipe \<longrightarrow> equal_fold (trim_space (q_ConfirmHostname opts)) host"
    and c: "c_DeviceID c = q_DeviceID opts" "c_Payload c = p" "c_ExpiresAt c = time_add now ttl"
    and db': "last (db_audit db') = queueAudit opts host p k"
    by (elim queue_cases) simp
  obtain wp where p: "p = PWipe wp" using normalizePayload_wipe q(1) assms(2) by auto
  note ttl = orderTTL_wipe [OF q(2) assms(2)]
  have signed: "\<exists>expires. wp_Expires wp = Some expires \<and> now < expires \<and> time_add now ttl \<le> expires
      \<and> VerifyWipe C (cs_OperationsKeys svc) (q_DeviceID opts) (wp_Protected wp) expires now (wp_Signature wp) = None"
    if keys: "cs_OperationsKeys svc \<noteq> []"
  proof -
    obtain left where left: "checkSignature C (cs_OperationsKeys svc) (q_DeviceID opts) (PWipe wp) now = Inr left"
      "0 < left \<longrightarrow> ttl \<le> left" using ttl(3) [OF keys] p by blast
    from left(1) obtain expires where e: "wp_Expires wp = Some expires" "left = time_sub expires now"
      "VerifyWipe C (cs_OperationsKeys svc) (q_DeviceID opts) (wp_Protected wp) expires now (wp_Signature wp) = None"
      by (elim checkSignature_wipe) simp
    then have live: "now < expires" using VerifyWipe_live by blast
    then have "0 < left" "left \<le> expires - now" using e(2) by (auto simp: time_sub_def max_int64_def min_int64_def)
    with left(2) e live show ?thesis by (auto simp: time_add_def)
  qed
  have "map_of (db_hosts db) (q_DeviceID opts) = Some (host, ''active'')
      \<and> equal_fold (trim_space (q_ConfirmHostname opts)) host
      \<and> (''reason'', trim_space (q_Reason opts)) \<in> set (au_Details (last (db_audit db')))"
    using q(3,4) assms(2) by (simp add: db' queueAudit_def)
  then have who: "\<exists>host. map_of (db_hosts db) (q_DeviceID opts) = Some (host, ''active'')
      \<and> equal_fold (trim_space (q_ConfirmHostname opts)) host
      \<and> (''reason'', trim_space (q_Reason opts)) \<in> set (au_Details (last (db_audit db')))"
    by (intro exI [where x = host])
  have "c_ExpiresAt c \<le> time_add now WipeTTL" using c(3) ttl(2) by (simp add: time_add_def)
  then have lapse: "c_DeviceID c = q_DeviceID opts \<and> c_ExpiresAt c \<le> time_add now WipeTTL" using c(1) by blast
  have order: "if cs_OperationsKeys svc = [] then True
     else \<exists>wp expires. c_Payload c = PWipe wp \<and> wp_Expires wp = Some expires \<and> now < expires \<and> c_ExpiresAt c \<le> expires
        \<and> VerifyWipe C (cs_OperationsKeys svc) (q_DeviceID opts) (wp_Protected wp) expires now (wp_Signature wp) = None"
    using signed c(2,3) p by (cases "cs_OperationsKeys svc = []") auto
  show ?thesis
    by (intro conjI) (rule who, rule ttl(1), rule conjunct1 [OF lapse], rule conjunct2 [OF lapse], rule order)
qed

lemma if_ne: "a \<noteq> z \<Longrightarrow> b \<noteq> z \<Longrightarrow> (if P then a else b) \<noteq> z"
  by simp

lemma malformed_ne: "(\<And>y. f y \<noteq> Inl DryRun) \<Longrightarrow> malformed x f \<noteq> Inl DryRun"
  by (simp add: malformed_def split: option.split)

lemma normalizePayload_not_dry: "normalizePayload typ raw \<noteq> Inl DryRun"
  unfolding normalizePayload_def Let_def by (intro if_ne malformed_ne) simp_all

lemma orderTTL_not_dry: "orderTTL C svc opts p now \<noteq> Inl DryRun"
proof -
  have "checkSignature C keys dev p now \<noteq> Inl DryRun" for keys dev
    by (simp add: checkSignature_def split: payload.split option.split)
  then show ?thesis by (auto simp: orderTTL_def Let_def split: sum.split)
qed

text \<open>
  \<^verbatim>\<open>Check\<close> tells the truth: a request held for approval passes it exactly when queueing it at
  that moment, under an identifier not in use, would succeed; and \<^verbatim>\<open>Check\<close> changes nothing.
\<close>

theorem Check_exact:
  assumes "GetCommand k db = None"
  shows "Check C svc opts k now db = None \<longleftrightarrow> (\<exists>c db'. Queue C svc opts k now db = (Inr c, db'))"
proof -
  define pre where "pre = bindE (normalizePayload (q_Type opts) (q_Payload opts))
             (\<lambda>p. bindE (orderTTL C svc opts p now) (\<lambda>ttl. Inr (p, ttl)))"
  have "pre \<noteq> Inl DryRun"
    by (auto simp: pre_def bindE_eq_Inl normalizePayload_not_dry orderTTL_not_dry)
  then show ?thesis
    using assms unfolding Check_def Queue_def queue_def pre_def [symmetric]
    by (cases pre) (auto simp: CreateCommand_def Let_def split: cmd_error.split option.split prod.split)
qed

section \<open>Delivery\<close>

lemma updateCommands_sel [simp]:
  "db_commands (updateCommands P f db) = map (\<lambda>c. if P c then f c else c) (db_commands db)"
  "db_results (updateCommands P f db) = db_results db" "db_hosts (updateCommands P f db) = db_hosts db"
  by (simp_all add: updateCommands_def)

definition due :: "uuid \<Rightarrow> go_time \<Rightarrow> Command \<Rightarrow> bool" where
  "due dev now c \<longleftrightarrow> c_DeviceID c = dev
     \<and> (c_Status c = CommandRunning \<or> c_Status c \<in> {CommandQueued, CommandDelivered} \<and> now < c_ExpiresAt c)"

lemma filter_map_same: "\<forall>x. P x \<longrightarrow> g x = x \<Longrightarrow> \<forall>x. Q (g x) = P x \<Longrightarrow> filter Q (map g xs) = filter P xs"
  by (induction xs) auto

lemma pending_due: "PendingCommands dev (ExpireCommands now db)
    = sort_key (\<lambda>c. (c_CreatedAt c, c_ID c)) (filter (due dev now) (db_commands db))"
  unfolding PendingCommands_def ExpireCommands_def updateCommands_sel
  by (subst filter_map_same [where P = "due dev now"]) (auto simp: due_def owed_def)

text \<open>
  Delivery is exact: a check-in hands a device its own commands that are running, or are
  waiting and not past their time, each once, oldest first - no other device's, none that ended or
  lapsed - and leaves none of that device's commands marked as never delivered.
\<close>

theorem Deliver_exact:
  "fst (Deliver dev now db)
     = map wire (sort_key (\<lambda>c. (c_CreatedAt c, c_ID c)) (filter (due dev now) (db_commands db)))
   \<and> \<not> list_ex (\<lambda>c. c_DeviceID c = dev \<and> c_Status c = CommandQueued) (db_commands (snd (Deliver dev now db)))"
proof
  show "fst (Deliver dev now db)
      = map wire (sort_key (\<lambda>c. (c_CreatedAt c, c_ID c)) (filter (due dev now) (db_commands db)))"
    by (simp add: Deliver_def Let_def pending_due)
  define db1 where "db1 = ExpireCommands now db"
  have "c_ID c \<in> set (map c_ID (filter (\<lambda>c. c_Status c = CommandQueued) (PendingCommands dev db1)))"
    if "c \<in> set (db_commands db1)" "c_DeviceID c = dev" "c_Status c = CommandQueued" for c
    using that by (simp add: PendingCommands_def owed_def)
  then show "\<not> list_ex (\<lambda>c. c_DeviceID c = dev \<and> c_Status c = CommandQueued) (db_commands (snd (Deliver dev now db)))"
    by (auto simp: Deliver_def Let_def db1_def [symmetric] MarkCommandsDelivered_def list_ex_iff)
qed

section \<open>The life of a command\<close>

definition reported :: "Command \<Rightarrow> bool" where
  "reported c \<longleftrightarrow> c_Status c \<in> {CommandSucceeded, CommandFailed, CommandTimedOut}"

definition lapsed :: "Command \<Rightarrow> bool" where
  "lapsed c \<longleftrightarrow> c_Status c = CommandExpired"

definition well_kept :: "'x cmd_db \<Rightarrow> bool" where
  "well_kept db \<longleftrightarrow> distinct (map c_ID (db_commands db)) \<and> distinct (map sr_CommandID (db_results db))
     \<and> (\<forall>c \<in> set (db_commands db). owed c \<or> reported c \<or> lapsed c)
     \<and> sr_CommandID ` set (db_results db) = c_ID ` {c \<in> set (db_commands db). reported c}"

text \<open>The operations of the service, the two jobs of the sweeper, the commands that other parts of the server
  queue (\<^verbatim>\<open>remote.Start\<close> a remote shell, \<^verbatim>\<open>enroll.provision\<close> a rename) and changes of the rest of the
  database, in any order.\<close>

inductive queue_step :: "crypto \<Rightarrow> 'x cmd_service \<Rightarrow> 'x cmd_db \<Rightarrow> 'x cmd_db \<Rightarrow> bool" for C svc where
  queued: "queue_step C svc db (snd (Queue C svc opts k now db))"
| delivered: "queue_step C svc db (snd (Deliver dev now db))"
| started: "queue_step C svc db (snd (Start dev k now db))"
| completed: "queue_step C svc db (snd (Complete svc dev k r now db))"
| expired: "queue_step C svc db (ExpireCommands now db)"
| retained: "queue_step C svc db (snd (DeleteFinishedCommandsBefore cutoff limit found db))"
| inserted: "c_Status c = CommandQueued \<Longrightarrow> CreateCommand c db = Inr db' \<Longrightarrow> queue_step C svc db db'"
| others: "queue_step C svc db (db\<lparr>db_hosts := hosts, db_rest := x\<rparr>)"

text \<open>An update that moves commands that have not ended to a state in which they have no result.\<close>

definition quiet :: "(Command \<Rightarrow> bool) \<Rightarrow> (Command \<Rightarrow> Command) \<Rightarrow> bool" where
  "quiet P f \<longleftrightarrow> (\<forall>c. P c \<longrightarrow> owed c \<and> c_ID (f c) = c_ID c \<and> (owed (f c) \<or> lapsed (f c)))"

lemma ended_disjoint: "owed c \<Longrightarrow> \<not> reported c" "lapsed c \<Longrightarrow> \<not> reported c"
  by (auto simp: owed_def reported_def lapsed_def)

lemma quiet_change:
  assumes "quiet P f"
  defines "g \<equiv> \<lambda>c. if P c then f c else c"
  shows "c_ID (g c) = c_ID c" "reported (g c) \<longleftrightarrow> reported c"
    "owed c \<or> reported c \<or> lapsed c \<Longrightarrow> owed (g c) \<or> reported (g c) \<or> lapsed (g c)"
    "\<not> owed c \<Longrightarrow> g c = c"
proof -
  have changed: "owed c" "c_ID (f c) = c_ID c" "owed (f c) \<or> lapsed (f c)" if "P c"
    using assms(1) that unfolding quiet_def by blast+
  show "c_ID (g c) = c_ID c" using changed by (simp add: g_def)
  show "reported (g c) \<longleftrightarrow> reported c"
    using changed ended_disjoint [of c] ended_disjoint [of "f c"] by (cases "P c") (simp_all add: g_def, blast)
  show "owed (g c) \<or> reported (g c) \<or> lapsed (g c)" if "owed c \<or> reported c \<or> lapsed c"
    using that changed(3) by (cases "P c") (simp_all add: g_def, blast)
  show "\<not> owed c \<Longrightarrow> g c = c" using changed by (auto simp: g_def)
qed

lemma well_kept_map:
  assumes "well_kept db" "db_commands db' = map g (db_commands db)" "db_results db' = db_results db"
    "\<And>c. c_ID (g c) = c_ID c" "\<And>c. reported (g c) \<longleftrightarrow> reported c"
    "\<And>c. owed c \<or> reported c \<or> lapsed c \<Longrightarrow> owed (g c) \<or> reported (g c) \<or> lapsed (g c)"
  shows "well_kept db'"
proof -
  have "{c \<in> set (map g (db_commands db)). reported c} = g ` {c \<in> set (db_commands db). reported c}"
    using assms(5) by auto
  then have "c_ID ` {c \<in> set (map g (db_commands db)). reported c} = c_ID ` {c \<in> set (db_commands db). reported c}"
    using assms(4) by (simp add: image_image)
  then show ?thesis using assms(1,2,3,4,6) by (simp add: well_kept_def comp_def)
qed

lemma quiet_well_kept: "quiet P f \<Longrightarrow> well_kept db \<Longrightarrow> well_kept (updateCommands P f db)"
  by (rule well_kept_map [of db _ "\<lambda>c. if P c then f c else c"])
     (assumption, simp, simp, (rule quiet_change, assumption)+)

lemma quiet_ops:
  "quiet (\<lambda>c. c_Status c \<in> {CommandQueued, CommandDelivered} \<and> c_ExpiresAt c \<le> now)
     (\<lambda>c. c\<lparr>c_Status := CommandExpired, c_CompletedAt := Some now\<rparr>)"
  "quiet (\<lambda>c. c_ID c \<in> set ids \<and> c_Status c = CommandQueued)
     (\<lambda>c. c\<lparr>c_Status := CommandDelivered, c_DeliveredAt := Some now\<rparr>)"
  "quiet (\<lambda>c. c_ID c = k \<and> c_DeviceID c = dev \<and> c_Status c \<in> {CommandQueued, CommandDelivered})
     (\<lambda>c. c\<lparr>c_Status := CommandRunning, c_StartedAt := Some now\<rparr>)"
  by (auto simp: quiet_def owed_def lapsed_def)

text \<open>Completing a command.\<close>

lemma runOnComplete_frame: "runOnComplete svc k status now db = Inr db2 \<Longrightarrow> \<exists>x. db2 = db\<lparr>db_rest := x\<rparr>"
proof (cases "cs_OnComplete svc")
  case None
  then show "runOnComplete svc k status now db = Inr db2 \<Longrightarrow> ?thesis"
    by (intro exI [of _ "db_rest db"]) (simp add: runOnComplete_def)
qed (auto simp: runOnComplete_def split: option.splits sum.splits)

lemma Complete_cases:
  assumes "snd (Complete svc dev k r now db) = db'"
  obtains (same) "db' = db"
  | (duplicate) status where "db' = snd (CompleteCommand k dev status now db)" "\<not> fst (CompleteCommand k dev status now db)"
  | (done1) hooked where "resultStatus (r_Status r)"
      "fst (CompleteCommand k dev (r_Status r) now db)" "GetCommandResult k db = None"
      "db' = (snd (CompleteCommand k dev (r_Status r) now db))\<lparr>db_results := db_results db @ [storedResult k r], db_rest := hooked\<rparr>"
proof (cases "resultStatus (r_Status r)")
  case False
  then show thesis using assms same by (simp add: Complete_def)
next
  case True
  obtain ok db1 where cc: "CompleteCommand k dev (r_Status r) now db = (ok, db1)" by (metis prod.exhaust)
  have db1: "db_results db1 = db_results db" using cc by (auto simp: CompleteCommand_def Let_def)
  have run: "snd (case (ok, db1) of
      (False, db1) \<Rightarrow>
          (case GetCommand k db1 of
             None \<Rightarrow> (Some CommandNotFound, db)
           | Some c \<Rightarrow> if c_DeviceID c \<noteq> dev then (Some CommandNotFound, db) else (None, db1))
      | (True, db1) \<Rightarrow>
          (case bindE (InsertCommandResult (storedResult k r) db1) (runOnComplete svc k (r_Status r) now) of
             Inl e \<Rightarrow> (Some e, db)
           | Inr db2 \<Rightarrow> (None, db2))) = db'"
    using assms True unfolding Complete_def cc by (simp only: not_True_eq_False if_False)
  have sr: "sr_CommandID (storedResult k r) = k" by (simp add: storedResult_def split: prod.split)
  show thesis
  proof (cases ok)
    case False
    then show thesis using run cc same duplicate [of "r_Status r"]
      by (auto split: option.splits if_splits)
  next
    case ok: True
    define stored where "stored = bindE (InsertCommandResult (storedResult k r) db1) (runOnComplete svc k (r_Status r) now)"
    show thesis
    proof (cases stored)
      case (Inl e)
      then show thesis using run ok same by (simp add: stored_def [symmetric])
    next
      case (Inr db2)
      then have "runOnComplete svc k (r_Status r) now (db1\<lparr>db_results := db_results db @ [storedResult k r]\<rparr>) = Inr db2"
        "GetCommandResult k db = None"
        using db1 sr by (auto simp: stored_def bindE_eq_Inr InsertCommandResult_def GetCommandResult_def split: if_splits)
      moreover from this(1) obtain hooked where
        "db2 = db1\<lparr>db_results := db_results db @ [storedResult k r], db_rest := hooked\<rparr>"
        using runOnComplete_frame by fastforce
      moreover have "db' = db2" using run ok Inr by (simp add: stored_def [symmetric])
      ultimately show thesis using done1 [OF True, of hooked] cc ok by simp
    qed
  qed
qed

lemma CompleteCommand_sel:
  "db_commands (snd (CompleteCommand k dev status now db))
     = map (\<lambda>c. if c_ID c = k \<and> c_DeviceID c = dev \<and> owed c then c\<lparr>c_Status := status, c_CompletedAt := Some now\<rparr> else c)
         (db_commands db)"
  "db_results (snd (CompleteCommand k dev status now db)) = db_results db"
  "fst (CompleteCommand k dev status now db) \<longleftrightarrow> (\<exists>c \<in> set (db_commands db). c_ID c = k \<and> c_DeviceID c = dev \<and> owed c)"
  by (auto simp: CompleteCommand_def Let_def list_ex_iff)

lemma CompleteCommand_none:
  assumes "\<not> fst (CompleteCommand k dev status now db)"
  shows "snd (CompleteCommand k dev status now db) = db"
proof -
  have "db_commands (snd (CompleteCommand k dev status now db)) = db_commands db"
    using assms unfolding CompleteCommand_sel by (intro map_idI) auto
  then show ?thesis by (simp add: CompleteCommand_def Let_def updateCommands_def)
qed

lemma owed_unreported:
  assumes "well_kept db" "c \<in> set (db_commands db)" "owed c"
  shows "c_ID c \<notin> sr_CommandID ` set (db_results db)"
proof
  assume "c_ID c \<in> sr_CommandID ` set (db_results db)"
  then obtain c' where "c' \<in> set (db_commands db)" "c_ID c' = c_ID c" "reported c'"
    using assms(1) by (auto simp: well_kept_def)
  moreover from this have "c' = c" using assms(1,2) by (auto simp: well_kept_def distinct_map inj_on_def)
  ultimately show False using ended_disjoint(1) [OF assms(3)] by simp
qed

lemma well_kept_complete:
  assumes "well_kept db" "resultStatus status" "fst (CompleteCommand k dev status now db)" "sr_CommandID row = k"
  shows "well_kept ((snd (CompleteCommand k dev status now db))\<lparr>db_results := db_results db @ [row], db_rest := x\<rparr>)"
proof -
  define P where "P = (\<lambda>c. c_ID c = k \<and> c_DeviceID c = dev \<and> owed c)"
  define g where "g = (\<lambda>c. if P c then c\<lparr>c_Status := status, c_CompletedAt := Some now\<rparr> else c)"
  obtain c where c: "c \<in> set (db_commands db)" "P c" using assms(3) by (auto simp: CompleteCommand_sel P_def)
  have coms: "db_commands (snd (CompleteCommand k dev status now db)) = map g (db_commands db)"
    by (simp add: CompleteCommand_sel g_def P_def)
  have id: "c_ID (g a) = c_ID a" for a by (simp add: g_def)
  have rep: "reported (g a) \<longleftrightarrow> reported a \<or> P a" for a
    using assms(2) by (auto simp: g_def reported_def resultStatus_def)
  have live: "owed (g a) \<or> reported (g a) \<or> lapsed (g a)" if "owed a \<or> reported a \<or> lapsed a" for a
    using that rep [of a] by (cases "P a") (simp_all add: g_def)
  have "{a \<in> set (map g (db_commands db)). reported a} = g ` {a \<in> set (db_commands db). reported a \<or> P a}"
    using rep by auto
  then have "c_ID ` {a \<in> set (map g (db_commands db)). reported a} = c_ID ` {a \<in> set (db_commands db). reported a \<or> P a}"
    by (simp add: image_image id)
  also have "\<dots> = insert k (c_ID ` {a \<in> set (db_commands db). reported a})" using c by (auto simp: P_def)
  finally show ?thesis
    using assms(1,4) live owed_unreported [OF assms(1) c(1)] c(2)
    by (simp add: well_kept_def coms comp_def id P_def)
qed

lemma Start_step:
  "snd (Start dev k now db) = db \<or> snd (Start dev k now db) = snd (MarkCommandRunning k dev now db)"
  by (simp add: Start_def split: prod.split bool.split option.split)

lemma Queue_step:
  "snd (Queue C svc opts k now db) = db
   \<or> (\<exists>c. db_commands (snd (Queue C svc opts k now db)) = db_commands db @ [c] \<and> c_ID c = k \<and> owed c
        \<and> k \<notin> c_ID ` set (db_commands db) \<and> db_results (snd (Queue C svc opts k now db)) = db_results db)"
proof -
  obtain res db' where q: "queue C svc opts False k now db = (res, db')" by (metis prod.exhaust)
  show ?thesis
  proof (cases res)
    case (Inl e)
    then have "db' = db"
      using q by (auto simp: queue_def Let_def split: sum.splits option.splits prod.splits if_splits)
    then show ?thesis using q by (simp add: Queue_def)
  next
    case (Inr c)
    from q [unfolded Inr] have "GetCommand k db = None" "c_ID c = k" "c_Status c = CommandQueued"
      "db_commands db' = db_commands db @ [c]" "db_results db' = db_results db"
      by (elim queue_cases; simp)+
    moreover from this(1) have "k \<notin> c_ID ` set (db_commands db)" by (auto simp: GetCommand_def find_None_iff)
    ultimately show ?thesis using q by (auto simp: Queue_def owed_def)
  qed
qed

text \<open>A new command.\<close>

lemma well_kept_new:
  assumes "well_kept db" "db_commands db' = db_commands db @ [c]" "owed c" "c_ID c \<notin> c_ID ` set (db_commands db)"
    "db_results db' = db_results db"
  shows "well_kept db'"
proof -
  have "{a \<in> set (db_commands db @ [c]). reported a} = {a \<in> set (db_commands db). reported a}"
    using assms(3) ended_disjoint(1) by auto
  then show ?thesis using assms by (simp add: well_kept_def)
qed

lemma CreateCommand_new:
  assumes "CreateCommand c db = Inr db'"
  shows "db_commands db' = db_commands db @ [c]" "c_ID c \<notin> c_ID ` set (db_commands db)" "db_results db' = db_results db"
proof -
  have c: "GetCommand (c_ID c) db = None" "db' = db\<lparr>db_commands := db_commands db @ [c]\<rparr>"
    using assms by (auto simp: CreateCommand_def split: if_splits)
  from c(1) show "c_ID c \<notin> c_ID ` set (db_commands db)" by (auto simp: GetCommand_def find_None_iff)
  show "db_commands db' = db_commands db @ [c]" "db_results db' = db_results db" unfolding c(2) by simp_all
qed

text \<open>Retention removes finished commands only, and with them exactly their results.\<close>

lemma DeleteFinished_sel:
  "db_commands (snd (DeleteFinishedCommandsBefore cutoff limit found db))
     = filter (\<lambda>c. c_ID c \<notin> c_ID ` set (retentionBatch cutoff limit found db)) (db_commands db)"
  "db_results (snd (DeleteFinishedCommandsBefore cutoff limit found db))
     = filter (\<lambda>r. sr_CommandID r \<notin> c_ID ` set (retentionBatch cutoff limit found db)) (db_results db)"
  by (simp_all add: DeleteFinishedCommandsBefore_def Let_def)

lemma retentionBatch_finished:
  assumes "c \<in> set (retentionBatch cutoff limit found db)"
  shows "c \<in> set (db_commands db)" "finishedBefore cutoff c" "\<not> owed c"
proof -
  have "c \<in> set (sort_key found (filter (finishedBefore cutoff) (db_commands db)))"
    using assms in_set_takeD unfolding retentionBatch_def by fast
  then show "c \<in> set (db_commands db)" "finishedBefore cutoff c" by auto
  then show "\<not> owed c" by (auto simp: finishedBefore_def owed_def)
qed

lemma well_kept_without:
  assumes "well_kept db" "db_commands db' = filter (\<lambda>c. c_ID c \<notin> K) (db_commands db)"
    "db_results db' = filter (\<lambda>r. sr_CommandID r \<notin> K) (db_results db)"
  shows "well_kept db'"
proof -
  have "sr_CommandID ` {r \<in> set (db_results db). sr_CommandID r \<notin> K} = sr_CommandID ` set (db_results db) - K" by auto
  also have "\<dots> = c_ID ` {c \<in> set (db_commands db). reported c} - K" using assms(1) by (simp add: well_kept_def)
  also have "\<dots> = c_ID ` {c \<in> set (filter (\<lambda>c. c_ID c \<notin> K) (db_commands db)). reported c}" by auto
  finally show ?thesis using assms by (simp add: well_kept_def distinct_map_filter)
qed

lemma well_kept_step:
  assumes "queue_step C svc db db'" "well_kept db"
  shows "well_kept db'"
  using assms
proof (induction rule: queue_step.induct)
  case (queued db opts k now)
  then show ?case using well_kept_new [OF queued] Queue_step [of C svc opts k now db] by metis
next
  case (delivered db dev now)
  then show ?case
    unfolding Deliver_def Let_def snd_conv MarkCommandsDelivered_def ExpireCommands_def
    by (intro quiet_well_kept quiet_ops)
next
  case (started db dev k now)
  moreover have "well_kept (snd (MarkCommandRunning k dev now db))"
    unfolding MarkCommandRunning_def Let_def snd_conv by (rule quiet_well_kept [OF quiet_ops(3) started])
  ultimately show ?case using Start_step [of dev k now db] by auto
next
  case (completed db dev k r now)
  have "snd (Complete svc dev k r now db) = snd (Complete svc dev k r now db)" by (rule refl)
  then show ?case
  proof (cases rule: Complete_cases)
    case same
    then show ?thesis using completed by simp
  next
    case (duplicate status)
    then show ?thesis using completed CompleteCommand_none by metis
  next
    case (done1 hooked)
    have "sr_CommandID (storedResult k r) = k" by (simp add: storedResult_def split: prod.split)
    from well_kept_complete [OF completed done1(1,2) this] show ?thesis unfolding done1(4) .
  qed
next
  case (expired db now)
  then show ?case unfolding ExpireCommands_def by (intro quiet_well_kept quiet_ops)
next
  case (retained db cutoff limit found)
  then show ?case by (rule well_kept_without [OF _ DeleteFinished_sel])
next
  case (inserted c db db')
  then show ?case by (intro well_kept_new [of db db' c] CreateCommand_new) (simp_all add: owed_def)
next
  case (others db hosts x)
  then show ?case by (simp add: well_kept_def)
qed

text \<open>What has ended stays, until retention removes it.\<close>

definition settled_in :: "'x cmd_db \<Rightarrow> Command \<Rightarrow> StoredResult option \<Rightarrow> bool" where
  "settled_in db c res \<longleftrightarrow> c \<in> set (db_commands db) \<and> \<not> owed c \<and> GetCommandResult (c_ID c) db = res"

lemma settled_quiet: "quiet P f \<Longrightarrow> settled_in db c res \<Longrightarrow> settled_in (updateCommands P f db) c res"
  using quiet_change(4) [of P f c] by (force simp: settled_in_def GetCommandResult_def image_iff)

lemma settled_same:
  "set (db_commands db) \<subseteq> set (db_commands db') \<Longrightarrow> db_results db' = db_results db \<Longrightarrow> settled_in db c res \<Longrightarrow> settled_in db' c res"
  by (auto simp: settled_in_def GetCommandResult_def)

lemma find_filter_other: "\<forall>x. P x \<longrightarrow> Q x \<Longrightarrow> find P (filter Q xs) = find P xs"
  by (induction xs) auto

lemma settled_delete:
  assumes "well_kept db" "settled_in db c res" "c \<notin> set (retentionBatch cutoff limit found db)"
  shows "settled_in (snd (DeleteFinishedCommandsBefore cutoff limit found db)) c res"
proof -
  have "c_ID c \<notin> c_ID ` set (retentionBatch cutoff limit found db)"
  proof
    assume "c_ID c \<in> c_ID ` set (retentionBatch cutoff limit found db)"
    then obtain c' where c': "c' \<in> set (retentionBatch cutoff limit found db)" "c_ID c' = c_ID c" by auto
    moreover have "inj_on c_ID (set (db_commands db))" "c \<in> set (db_commands db)"
      using assms(1,2) by (simp_all add: well_kept_def settled_in_def distinct_map)
    ultimately have "c' = c" using retentionBatch_finished(1) [OF c'(1)] by (blast dest: inj_onD)
    then show False using c'(1) assms(3) by simp
  qed
  then have keep: "\<forall>r :: StoredResult. sr_CommandID r = c_ID c \<longrightarrow> sr_CommandID r \<notin> c_ID ` set (retentionBatch cutoff limit found db)"
    "c_ID c \<notin> c_ID ` set (retentionBatch cutoff limit found db)" by auto
  show ?thesis
    using assms(2) keep(2) find_filter_other [OF keep(1)] by (simp add: settled_in_def GetCommandResult_def DeleteFinished_sel)
qed

definition removes :: "'x cmd_db \<Rightarrow> 'x cmd_db \<Rightarrow> Command \<Rightarrow> bool" where
  "removes db db' c \<longleftrightarrow> (\<exists>cutoff limit found. db' = snd (DeleteFinishedCommandsBefore cutoff limit found db)
     \<and> c \<in> set (retentionBatch cutoff limit found db))"

lemma settled_step:
  assumes "queue_step C svc db db'" "well_kept db" "settled_in db c res" "\<not> removes db db' c"
  shows "settled_in db' c res"
  using assms
proof (induction rule: queue_step.induct)
  case (queued db opts k now)
  then show ?case using Queue_step [of C svc opts k now db] by (auto simp: settled_in_def GetCommandResult_def)
next
  case (delivered db dev now)
  then show ?case
    unfolding Deliver_def Let_def snd_conv MarkCommandsDelivered_def ExpireCommands_def
    by (intro settled_quiet quiet_ops)
next
  case (started db dev k now)
  then have "settled_in (snd (MarkCommandRunning k dev now db)) c res"
    unfolding MarkCommandRunning_def Let_def snd_conv by (intro settled_quiet quiet_ops)
  then show ?case using started Start_step [of dev k now db] by auto
next
  case (completed db dev k r now)
  have "snd (Complete svc dev k r now db) = snd (Complete svc dev k r now db)" by (rule refl)
  then show ?case
  proof (cases rule: Complete_cases)
    case same
    then show ?thesis using completed by simp
  next
    case (duplicate status)
    then show ?thesis using completed CompleteCommand_none by metis
  next
    case (done1 hooked)
    from done1(2) obtain c' where c': "c' \<in> set (db_commands db)" "c_ID c' = k" "owed c'" by (auto simp: CompleteCommand_sel)
    then have "c_ID c \<noteq> k" using completed by (auto simp: settled_in_def well_kept_def distinct_map inj_on_def)
    moreover have "sr_CommandID (storedResult k r) = k" by (simp add: storedResult_def split: prod.split)
    ultimately show ?thesis
      using completed(2) unfolding done1(4)
      by (auto simp: settled_in_def GetCommandResult_def CompleteCommand_sel image_iff find_append split: option.split)
  qed
next
  case (expired db now)
  then show ?case unfolding ExpireCommands_def by (intro settled_quiet quiet_ops)
next
  case (retained db cutoff limit found)
  then show ?case by (intro settled_delete) (auto simp: removes_def)
next
  case (inserted c' db db')
  then show ?case using CreateCommand_new [OF inserted(2)] by (intro settled_same [of db db']) auto
next
  case (others db hosts x)
  then show ?case by (simp add: settled_in_def GetCommandResult_def)
qed

lemma GetCommand_unique:
  assumes "well_kept db"
  shows "GetCommand k db = Some c \<longleftrightarrow> c \<in> set (db_commands db) \<and> c_ID c = k"
proof
  assume "GetCommand k db = Some c"
  then show "c \<in> set (db_commands db) \<and> c_ID c = k" by (auto simp: GetCommand_def dest: find_SomeD)
next
  assume c: "c \<in> set (db_commands db) \<and> c_ID c = k"
  then have "GetCommand k db \<noteq> None" unfolding GetCommand_def find_ne_None by blast
  then obtain c' where c': "GetCommand k db = Some c'" by blast
  then have "c' \<in> set (db_commands db)" "c_ID c' = k" by (auto simp: GetCommand_def dest: find_SomeD)
  then have "c' = c" using c assms by (auto simp: well_kept_def distinct_map inj_on_def)
  with c' show "GetCommand k db = Some c" by simp
qed

interpretation queue: state_machine "queue_step C svc" "\<lambda>db. db_commands db = [] \<and> db_results db = []" well_kept for C svc
proof unfold_locales
  show "well_kept db" if "db_commands db = [] \<and> db_results db = []" for db :: "'a cmd_db" using that by (simp add: well_kept_def)
qed (rule well_kept_step)

text \<open>
  C24. The tables stay consistent: whatever the administrators, the devices and the sweeper do, in any
  order, identifiers are unique, every command is waiting, running, ended or lapsed, and the
  commands that have a result are exactly those that succeeded, failed or timed out, with one
  result each.
\<close>

theorem queue_consistent:
  assumes "(queue_step C svc)\<^sup>*\<^sup>* db db'" "db_commands db = []" "db_results db = []"
  shows "well_kept db'"
  using queue.reached [OF assms(1)] assms(2,3) by simp

lemma removes_gone:
  assumes "removes db db' c"
  shows "GetCommand (c_ID c) db' = None" "GetCommandResult (c_ID c) db' = None"
  using assms by (auto simp: removes_def GetCommand_def GetCommandResult_def DeleteFinished_sel find_None_iff)

text \<open>A command that has ended is as it ended, or retention has removed it on the way.\<close>

lemma settled_or_removed:
  assumes "(queue_step C svc)\<^sup>*\<^sup>* db db'" "well_kept db" "settled_in db c res"
  shows "settled_in db' c res
    \<or> (\<exists>db1 db2. (queue_step C svc)\<^sup>*\<^sup>* db db1 \<and> settled_in db1 c res \<and> removes db1 db2 c \<and> (queue_step C svc)\<^sup>*\<^sup>* db2 db')"
  using assms(1)
proof (induction rule: rtranclp_induct)
  case base
  then show ?case using assms(3) by blast
next
  case (step d d')
  have kept: "well_kept d" by (rule rtranclp_induct [OF step(1), of well_kept, OF assms(2)]) (rule well_kept_step)
  from step(3) show ?case
  proof (elim disjE exE conjE)
    assume "settled_in d c res"
    then show ?thesis using settled_step [OF step(2) kept] step(1) by blast
  qed (use step(2) in \<open>blast intro: rtranclp.rtrancl_into_rtrancl\<close>)
qed

text \<open>
  C21. A command that has ended stays as it ended: no later delivery, start, result, expiry sweep or new
  command changes its status, its times or its result, and a repeated or late result is ignored. The
  one thing that can still happen to it is retention: up to some moment it is exactly as it ended,
  and then the sweeper removes it together with its result, which it does only to commands that
  completed before its cutoff.
\<close>

theorem ended_is_final:
  assumes "(queue_step C svc)\<^sup>*\<^sup>* db db'" "well_kept db" "GetCommand k db = Some c" "\<not> owed c"
  shows "GetCommand k db' = Some c \<and> GetCommandResult k db' = GetCommandResult k db
    \<or> (\<exists>db1 db2 cutoff limit found at. (queue_step C svc)\<^sup>*\<^sup>* db db1
         \<and> GetCommand k db1 = Some c \<and> GetCommandResult k db1 = GetCommandResult k db
         \<and> db2 = snd (DeleteFinishedCommandsBefore cutoff limit found db1)
         \<and> c_CompletedAt c = Some at \<and> at < cutoff
         \<and> GetCommand k db2 = None \<and> GetCommandResult k db2 = None \<and> (queue_step C svc)\<^sup>*\<^sup>* db2 db')"
proof -
  have c: "c \<in> set (db_commands db)" "c_ID c = k" using GetCommand_unique [OF assms(2)] assms(3) by auto
  have kept: "well_kept d" if "(queue_step C svc)\<^sup>*\<^sup>* db d" for d
    by (rule rtranclp_induct [OF that, of well_kept, OF assms(2)]) (rule well_kept_step)
  have there: "GetCommand k d = Some c \<and> GetCommandResult k d = GetCommandResult k db"
    if "(queue_step C svc)\<^sup>*\<^sup>* db d" "settled_in d c (GetCommandResult k db)" for d
    using that(2) c(2) GetCommand_unique [OF kept [OF that(1)], of k c] by (simp add: settled_in_def)
  have "settled_in db c (GetCommandResult k db)" using c assms(4) by (simp add: settled_in_def)
  from settled_or_removed [OF assms(1,2) this] show ?thesis
  proof (elim disjE exE conjE)
    fix db1 db2 assume run: "(queue_step C svc)\<^sup>*\<^sup>* db db1" "settled_in db1 c (GetCommandResult k db)" "removes db1 db2 c"
      "(queue_step C svc)\<^sup>*\<^sup>* db2 db'"
    from run(3) obtain cutoff limit found where r: "db2 = snd (DeleteFinishedCommandsBefore cutoff limit found db1)"
      "c \<in> set (retentionBatch cutoff limit found db1)" by (auto simp: removes_def)
    from retentionBatch_finished(2) [OF r(2)] obtain at where "c_CompletedAt c = Some at" "at < cutoff"
      by (auto simp: finishedBefore_def split: option.splits)
    then show ?thesis using there [OF run(1,2)] run(1,4) removes_gone [OF run(3)] c(2) r(1) by metis
  qed (use there [OF assms(1)] in blast)
qed

definition sample_cmd_service :: "unit cmd_service" where
  "sample_cmd_service = \<lparr>cs_OperationsKeys = [], cs_OnComplete = None\<rparr>"

definition sample_order :: "string \<Rightarrow> QueueOptions" where
  "sample_order typ = \<lparr>q_DeviceID = ''d'', q_Type = typ, q_Payload = None, q_CreatedBy = ''ann'', q_TTL = 0,
     q_ConfirmHostname = ''PC-1'', q_Reason = ''lost''\<rparr>"

definition sample_cmd_db :: "unit cmd_db" where
  "sample_cmd_db = \<lparr>db_commands = [], db_results = [], db_hosts = [(''d'', ''pc-1'', ''active'')], db_audit = [], db_rest = ()\<rparr>"

definition sample_result :: CommandResult where
  "sample_result = \<lparr>r_Status = ResultSucceeded, r_ExitCode = 0, r_Stdout = ''ok'', r_Stderr = [], r_StdoutTruncated = False,
     r_StderrTruncated = False, r_Error = [], r_StartedAt = 2, r_FinishedAt = 3\<rparr>"

theorem Queue_wipe_guarded_witness:
  "\<exists>c db'. Queue sample_crypto sample_cmd_service (sample_order CommandWipe) ''k'' 1 sample_cmd_db = (Inr c, db')
     \<and> c_ExpiresAt c \<le> time_add 1 WipeTTL"
proof -
  have "is_ok (fst (Queue sample_crypto sample_cmd_service (sample_order CommandWipe) ''k'' 1 sample_cmd_db))" by code_simp
  then obtain c db' where q: "Queue sample_crypto sample_cmd_service (sample_order CommandWipe) ''k'' 1 sample_cmd_db = (Inr c, db')"
    by (metis is_ok_iff prod.collapse)
  have "q_Type (sample_order CommandWipe) = CommandWipe" by (simp add: sample_order_def)
  from Queue_wipe_guarded [OF q this] q show ?thesis by blast
qed

theorem Check_exact_witness:
  "Check sample_crypto sample_cmd_service (sample_order CommandLock) ''k'' 1 sample_cmd_db = None
   \<and> (\<exists>c db'. Queue sample_crypto sample_cmd_service (sample_order CommandLock) ''k'' 1 sample_cmd_db = (Inr c, db'))"
proof -
  have none: "Check sample_crypto sample_cmd_service (sample_order CommandLock) ''k'' 1 sample_cmd_db = None" by code_simp
  have "GetCommand ''k'' sample_cmd_db = None" by (simp add: GetCommand_def sample_cmd_db_def)
  from Check_exact [OF this, of sample_crypto sample_cmd_service "sample_order CommandLock" 1] none show ?thesis by blast
qed

text \<open>A command, queued, delivered, started and completed.\<close>

definition sample_history :: "unit cmd_db" where
  "sample_history =
     snd (Complete sample_cmd_service ''d'' ''k'' sample_result 3
       (snd (Start ''d'' ''k'' 2 (snd (Deliver ''d'' 2
         (snd (Queue sample_crypto sample_cmd_service (sample_order CommandLock) ''k'' 1 sample_cmd_db)))))))"

lemma sample_history_reached: "(queue_step sample_crypto sample_cmd_service)\<^sup>*\<^sup>* sample_cmd_db sample_history"
  unfolding sample_history_def
  by (rule rtranclp.rtrancl_into_rtrancl [OF rtranclp.rtrancl_into_rtrancl
        [OF rtranclp.rtrancl_into_rtrancl [OF r_into_rtranclp]]])
     (rule queue_step.queued, rule queue_step.delivered, rule queue_step.started, rule queue_step.completed)

theorem queue_consistent_witness: "well_kept sample_history \<and> length (db_results sample_history) = 1"
proof -
  have "well_kept sample_history"
    by (rule queue_consistent [OF sample_history_reached]) (simp_all add: sample_cmd_db_def)
  moreover have "length (db_results sample_history) = 1" by code_simp
  ultimately show ?thesis by blast
qed

text \<open>The same command after a second, different result and after retention.\<close>

definition sample_late :: "unit cmd_db" where
  "sample_late = snd (Complete sample_cmd_service ''d'' ''k'' (sample_result\<lparr>r_Status := ResultFailed\<rparr>) 9 sample_history)"

definition sample_pruned :: "unit cmd_db" where
  "sample_pruned = snd (DeleteFinishedCommandsBefore 100 5000 (\<lambda>_. 0) sample_late)"

theorem ended_is_final_witness:
  "\<exists>c db1. GetCommand ''k'' sample_history = Some c \<and> c_Status c = CommandSucceeded
     \<and> (queue_step sample_crypto sample_cmd_service)\<^sup>*\<^sup>* sample_history db1 \<and> GetCommand ''k'' db1 = Some c
     \<and> GetCommand ''k'' sample_pruned = None"
proof -
  have "(case GetCommand ''k'' sample_history of None \<Rightarrow> False | Some c \<Rightarrow> \<not> owed c \<and> c_Status c = CommandSucceeded)" by code_simp
  then obtain c where c: "GetCommand ''k'' sample_history = Some c" "\<not> owed c" "c_Status c = CommandSucceeded"
    by (cases "GetCommand ''k'' sample_history") simp_all
  have kept: "well_kept sample_history"
    using queue.reached [OF sample_history_reached] by (simp add: well_kept_def sample_cmd_db_def)
  have "(queue_step sample_crypto sample_cmd_service)\<^sup>*\<^sup>* sample_history sample_late"
    unfolding sample_late_def by (rule r_into_rtranclp, rule queue_step.completed)
  then have run: "(queue_step sample_crypto sample_cmd_service)\<^sup>*\<^sup>* sample_history sample_pruned"
    unfolding sample_pruned_def by (rule rtranclp.rtrancl_into_rtrancl) (rule queue_step.retained)
  have gone: "GetCommand ''k'' sample_pruned = None" by code_simp
  from ended_is_final [OF run kept c(1,2)] show ?thesis unfolding gone using c gone by auto
qed

section \<open>Output\<close>

lemma rune_high:
  assumes "utf8_len s = Suc (Suc n)"
  shows "list_all (\<lambda>c. 128 \<le> byte c) (take (Suc (Suc n)) s)"
proof (cases s rule: utf8_len.cases)
  case (4 a b d r)
  have hi: "194 \<le> byte a" "cont b" "n = 0 \<or> n = 1 \<and> cont d \<or> n = 2 \<and> cont d \<and> r \<noteq> [] \<and> cont (hd r)"
    using assms unfolding 4 by (auto split: if_splits)
  from hi(3) show ?thesis using hi(1,2) unfolding 4 by (elim disjE; cases r) (auto simp: cont_def numeral_2_eq_2)
next
  case (3 a b)
  then show ?thesis using assms by (auto simp: cont_def split: if_splits)
qed (use assms in \<open>auto split: if_splits\<close>)

lemma rune_nul:
  assumes "utf8_len s \<noteq> 0"
  shows "filter (\<lambda>c. c \<noteq> CHR 0x00) (take (utf8_len s) s) \<in> {[], take (utf8_len s) s}"
proof (cases "utf8_len s = 1")
  case True
  then show ?thesis using assms by (cases s) auto
next
  case False
  then obtain n where n: "utf8_len s = Suc (Suc n)" using assms by (metis One_nat_def not0_implies_Suc)
  have "\<forall>c \<in> set (take (utf8_len s) s). c \<noteq> CHR 0x00"
    using rune_high [OF n] unfolding n by (auto simp: list_all_iff)
  then show ?thesis by (simp add: filter_id_conv)
qed

lemma valid_utf8_without_nul: "valid_utf8 s \<Longrightarrow> valid_utf8 (filter (\<lambda>c. c \<noteq> CHR 0x00) s)"
proof (induction s rule: valid_utf8.induct)
  case (1 s)
  show ?case
  proof (cases "s = []")
    case False
    then have n: "utf8_len s \<noteq> 0" "valid_utf8 (drop (utf8_len s) s)" using "1.prems" valid_utf8_step by blast+
    have "filter (\<lambda>c. c \<noteq> CHR 0x00) s = filter (\<lambda>c. c \<noteq> CHR 0x00) (take (utf8_len s) s)
        @ filter (\<lambda>c. c \<noteq> CHR 0x00) (drop (utf8_len s) s)"
      by (metis append_take_drop_id filter_append)
    moreover have "valid_utf8 (filter (\<lambda>c. c \<noteq> CHR 0x00) (take (utf8_len s) s))"
      using rune_nul [OF n(1)] valid_utf8_rune [OF n(1)] valid_utf8.simps [of "[]"] by auto
    ultimately show ?thesis using "1.IH" [OF False n] by (simp add: valid_utf8_append)
  qed (simp add: valid_utf8.simps)
qed

text \<open>
  Stored output is clean: of valid UTF-8, as JSON decoding yields, \<^verbatim>\<open>clampOutput\<close> keeps everything
  but NUL bytes when it fits, and otherwise cuts it and says so; what is stored is valid UTF-8
  without NUL bytes and at most two bytes longer than the cap.
\<close>

theorem clampOutput_clean:
  assumes "valid_utf8 s"
  shows "valid_utf8 (fst (clampOutput s t)) \<and> CHR 0x00 \<notin> set (fst (clampOutput s t))
    \<and> int (length (fst (clampOutput s t))) \<le> MaxOutputBytes + 2
    \<and> (if int (length (filter (\<lambda>c. c \<noteq> CHR 0x00) s)) \<le> MaxOutputBytes
       then clampOutput s t = (filter (\<lambda>c. c \<noteq> CHR 0x00) s, t) else snd (clampOutput s t))"
proof -
  define s1 where "s1 = filter (\<lambda>c. c \<noteq> CHR 0x00) s"
  define cap where "cap = nat MaxOutputBytes"
  have v: "valid_utf8 s1" using assms valid_utf8_without_nul by (simp add: s1_def)
  have clean: "CHR 0x00 \<notin> set (ToValidUTF8 r replacement)" if "set r \<subseteq> set s1" for r
    using to_valid_from_set [of replacement False r] that by (auto simp: ToValidUTF8_def replacement_def s1_def)
  have len: "length (ToValidUTF8 (take cap s1) replacement) \<le> cap + 2"
    using to_valid_from_cut [OF v, of replacement] by (simp add: ToValidUTF8_def replacement_def)
  have id: "ToValidUTF8 s1 replacement = s1" using to_valid_from_id [OF v] by (simp add: ToValidUTF8_def)
  have out: "clampOutput s t = (if int (length s1) > MaxOutputBytes then (ToValidUTF8 (take cap s1) replacement, True) else (s1, t))"
    by (simp only: clampOutput_def Let_def s1_def [symmetric] id cap_def)
  have "valid_utf8 (ToValidUTF8 (take cap s1) replacement)"
    using to_valid_from_valid [OF valid_replacement] by (simp add: ToValidUTF8_def)
  moreover have "CHR 0x00 \<notin> set (ToValidUTF8 (take cap s1) replacement)" "CHR 0x00 \<notin> set s1"
    using clean [of "take cap s1"] set_take_subset [of cap s1] by (blast, simp add: s1_def)
  moreover have "int (length (ToValidUTF8 (take cap s1) replacement)) \<le> MaxOutputBytes + 2" using len by (simp add: cap_def)
  ultimately show ?thesis using v unfolding out s1_def [symmetric] by simp
qed

theorem clampOutput_clean_witness: "clampOutput [CHR ''a'', CHR 0x00, CHR ''b''] False = (''ab'', False)"
proof -
  have "valid_utf8 [CHR ''a'', CHR 0x00, CHR ''b'']" by code_simp
  from clampOutput_clean [OF this, of False] show ?thesis by simp
qed

text \<open>The two bytes are real: a text cut inside a character gets the three bytes of U+FFFD for the one
  byte that is left of it.\<close>

lemma to_valid_from_ascii: "byte a < 128 \<Longrightarrow> to_valid_from repl bad (replicate n a @ s) = replicate n a @ to_valid_from repl (if n = 0 then bad else False) s"
proof (induction n arbitrary: bad)
  case (Suc n)
  have "utf8_len (a # replicate n a @ s) = 1" using Suc.prems by (cases "a # replicate n a @ s" rule: utf8_len.cases) auto
  then show ?case using Suc to_valid_from_rune [of "a # replicate n a @ s" repl bad] by simp
qed simp

lemma clampOutput_exceeds_cap:
  "int (length (fst (clampOutput (replicate (nat MaxOutputBytes - 1) (CHR ''a'') @ [CHR 0xC3, CHR 0xA9]) False))) = MaxOutputBytes + 2"
proof -
  define n where "n = nat MaxOutputBytes - 1"
  have n: "nat MaxOutputBytes = Suc n" "int n = MaxOutputBytes - 1" by (simp_all add: n_def)
  have "filter (\<lambda>c. c \<noteq> CHR 0x00) (replicate n (CHR ''a'') @ [CHR 0xC3, CHR 0xA9]) = replicate n (CHR ''a'') @ [CHR 0xC3, CHR 0xA9]"
    by simp
  moreover have "take (Suc n) (replicate n (CHR ''a'') @ [CHR 0xC3, CHR 0xA9]) = replicate n (CHR ''a'') @ [CHR 0xC3]" by simp
  ultimately have "fst (clampOutput (replicate n (CHR ''a'') @ [CHR 0xC3, CHR 0xA9]) False)
      = ToValidUTF8 (replicate n (CHR ''a'') @ [CHR 0xC3]) replacement"
    using n(2) unfolding clampOutput_def Let_def n(1) by simp
  then show ?thesis
    using n(2) by (simp add: ToValidUTF8_def to_valid_from_ascii to_valid_from_bad replacement_def n_def [symmetric])
qed

end
