(* ===== verification/Command_Retention.thy ===== *)
theory Command_Retention
  imports Command_Lifecycle
begin

text \<open>
  The sweeper's retention job, beside any system that works on the queue: \<open>with_retention\<close> adds to its
  steps the deletes of \<^verbatim>\<open>src/internal/server/store/retention.go\<close> and keeps the commands removed so
  far. The database with retention is shown to be, at every moment, the database without it less
  the removed commands and their results, so that what holds of a system without retention carries
  over.
\<close>

section \<open>The database less what was removed\<close>

definition without :: "Command list \<Rightarrow> 'x cmd_db \<Rightarrow> 'x cmd_db" where
  "without gone db = db\<lparr>db_commands := filter (\<lambda>c. c_ID c \<notin> c_ID ` set gone) (db_commands db),
     db_results := filter (\<lambda>r. sr_CommandID r \<notin> c_ID ` set gone) (db_results db)\<rparr>"

lemma without_sel [simp]:
  "db_commands (without gone db) = filter (\<lambda>c. c_ID c \<notin> c_ID ` set gone) (db_commands db)"
  "db_results (without gone db) = filter (\<lambda>r. sr_CommandID r \<notin> c_ID ` set gone) (db_results db)"
  "db_hosts (without gone db) = db_hosts db" "db_audit (without gone db) = db_audit db" "db_rest (without gone db) = db_rest db"
  by (simp_all add: without_def)

lemma without_upd:
  "without gone (db\<lparr>db_rest := x\<rparr>) = (without gone db)\<lparr>db_rest := x\<rparr>"
  "without gone (db\<lparr>db_hosts := hs\<rparr>) = (without gone db)\<lparr>db_hosts := hs\<rparr>"
  "without gone (db\<lparr>db_audit := au\<rparr>) = (without gone db)\<lparr>db_audit := au\<rparr>"
  "c_ID c \<notin> c_ID ` set gone \<Longrightarrow> without gone (db\<lparr>db_commands := db_commands db @ [c]\<rparr>)
     = (without gone db)\<lparr>db_commands := filter (\<lambda>c. c_ID c \<notin> c_ID ` set gone) (db_commands db) @ [c]\<rparr>"
  by (simp_all add: without_def)

lemma without_none [simp]: "without [] db = db"
  by (simp add: without_def)

text \<open>The removed commands are commands that had ended.\<close>

definition past :: "Command list \<Rightarrow> 'x cmd_db \<Rightarrow> bool" where
  "past gone db \<longleftrightarrow> (\<forall>c \<in> set gone. c \<in> set (db_commands db) \<and> \<not> owed c)"

definition unused :: "Command list \<Rightarrow> 'x cmd_db \<Rightarrow> bool" where
  "unused gone db \<longleftrightarrow> (\<forall>c \<in> set (db_commands db). c_ID c \<notin> c_ID ` set gone)"

lemma past_owed:
  assumes "past gone db" "well_kept db" "c \<in> set (db_commands db)" "owed c"
  shows "c_ID c \<notin> c_ID ` set gone"
proof
  assume "c_ID c \<in> c_ID ` set gone"
  then obtain c' where c': "c' \<in> set gone" "c_ID c' = c_ID c" by auto
  then have "c' \<in> set (db_commands db)" "\<not> owed c'" using assms(1) by (auto simp: past_def)
  moreover have "inj_on c_ID (set (db_commands db))" using assms(2) by (simp add: well_kept_def distinct_map)
  ultimately show False using c'(2) assms(3,4) by (blast dest: inj_onD)
qed

lemma past_same: "set (db_commands db) \<subseteq> set (db_commands db') \<Longrightarrow> past gone db \<Longrightarrow> past gone db'"
  by (auto simp: past_def)

lemma past_update: "past gone db \<Longrightarrow> \<forall>c. P c \<longrightarrow> owed c \<Longrightarrow> past gone (updateCommands P f db)"
  by (force simp: past_def image_iff)

lemma past_map:
  "past gone db \<Longrightarrow> db_commands db' = map (\<lambda>c. if P c then f c else c) (db_commands db) \<Longrightarrow> \<forall>c. P c \<longrightarrow> owed c \<Longrightarrow> past gone db'"
  by (force simp: past_def image_iff)

lemma prune_without:
  "snd (DeleteFinishedCommandsBefore cutoff limit found (without gone db))
     = without (gone @ retentionBatch cutoff limit found (without gone db)) db"
  by (auto simp: DeleteFinishedCommandsBefore_def Let_def without_def image_Un intro!: filter_cong)

lemma prune_past: "past gone db \<Longrightarrow> past (gone @ retentionBatch cutoff limit found (without gone db)) db"
  using retentionBatch_finished [of _ cutoff limit found "without gone db"] by (auto simp: past_def)

section \<open>The operations\<close>

lemma find_without: "k \<notin> c_ID ` set gone \<Longrightarrow> GetCommand k (without gone db) = GetCommand k db"
  unfolding GetCommand_def by (simp, rule find_filter_other) auto

lemma result_without: "k \<notin> c_ID ` set gone \<Longrightarrow> GetCommandResult k (without gone db) = GetCommandResult k db"
  unfolding GetCommandResult_def by (simp, rule find_filter_other) auto

lemma find_gone: "k \<in> c_ID ` set gone \<Longrightarrow> GetCommand k (without gone db) = None"
  by (auto simp: GetCommand_def find_None_iff)

lemma update_without:
  "\<forall>c. P c \<longrightarrow> c_ID (f c) = c_ID c \<Longrightarrow> updateCommands P f (without gone db) = without gone (updateCommands P f db)"
  by (auto simp: updateCommands_def without_def filter_map comp_def intro!: arg_cong [where f = "map _"] filter_cong)

lemma expire_without: "ExpireCommands now (without gone db) = without gone (ExpireCommands now db)"
  unfolding ExpireCommands_def by (rule update_without) simp

lemma delivered_without: "MarkCommandsDelivered ids now (without gone db) = without gone (MarkCommandsDelivered ids now db)"
  unfolding MarkCommandsDelivered_def by (rule update_without) simp

lemma pending_without:
  assumes "past gone db" "well_kept db"
  shows "PendingCommands dev (without gone db) = PendingCommands dev db"
proof -
  have "filter (\<lambda>c. c_DeviceID c = dev \<and> owed c) (filter (\<lambda>c. c_ID c \<notin> c_ID ` set gone) (db_commands db))
      = filter (\<lambda>c. c_DeviceID c = dev \<and> owed c) (db_commands db)"
    using past_owed [OF assms] by (auto intro: filter_cong)
  then show ?thesis unfolding PendingCommands_def by simp
qed

lemma quiet_expire: "past gone db \<Longrightarrow> past gone (ExpireCommands now db)" "well_kept db \<Longrightarrow> well_kept (ExpireCommands now db)"
  unfolding ExpireCommands_def
  by (rule past_update, assumption, force simp: owed_def) (rule quiet_well_kept [OF quiet_ops(1)])

lemma Deliver_without:
  assumes "past gone db" "well_kept db"
  shows "Deliver dev now (without gone db) = (fst (Deliver dev now db), without gone (snd (Deliver dev now db)))"
    "past gone (snd (Deliver dev now db))"
proof -
  show "Deliver dev now (without gone db) = (fst (Deliver dev now db), without gone (snd (Deliver dev now db)))"
    unfolding Deliver_def Let_def expire_without
    using pending_without [OF quiet_expire(1) [OF assms(1)] quiet_expire(2) [OF assms(2)]] by (simp add: delivered_without)
  show "past gone (snd (Deliver dev now db))"
    unfolding Deliver_def Let_def snd_conv MarkCommandsDelivered_def
    by (intro past_update quiet_expire(1) assms(1)) (simp add: owed_def)
qed

lemma list_ex_without:
  assumes "past gone db" "well_kept db" "\<forall>c. P c \<longrightarrow> owed c"
  shows "list_ex P (db_commands (without gone db)) \<longleftrightarrow> list_ex P (db_commands db)"
  using past_owed [OF assms(1,2)] assms(3) by (auto simp: list_ex_iff)

lemma updateCommands_none: "\<not> list_ex P (db_commands db) \<Longrightarrow> updateCommands P f db = db"
  by (simp add: updateCommands_def list_ex_iff map_idI)

lemma Start_snd: "snd (Start dev k now db) = snd (MarkCommandRunning k dev now db)"
proof (cases "fst (MarkCommandRunning k dev now db)")
  case True
  then show ?thesis by (cases "MarkCommandRunning k dev now db") (simp add: Start_def)
next
  case False
  then have "snd (MarkCommandRunning k dev now db) = db" by (simp add: MarkCommandRunning_def Let_def updateCommands_none)
  then show ?thesis using Start_step [of dev k now db] by auto
qed

lemma Start_without:
  "snd (Start dev k now (without gone db)) = without gone (snd (Start dev k now db))"
  "past gone db \<Longrightarrow> past gone (snd (Start dev k now db))"
  unfolding Start_snd MarkCommandRunning_def Let_def snd_conv
  by (rule update_without, simp) (rule past_update, assumption, auto simp: owed_def)

lemma CreateCommand_without:
  assumes "c_ID c \<notin> c_ID ` set gone" "CreateCommand c (without gone db) = Inr db'"
  shows "\<exists>db1. CreateCommand c db = Inr db1 \<and> db' = without gone db1"
  using assms find_without [OF assms(1), of db] by (auto simp: CreateCommand_def without_def split: if_splits)

lemma Queue_without:
  assumes "k \<notin> c_ID ` set gone"
  shows "snd (Queue C svc opts k now (without gone db)) = without gone (snd (Queue C svc opts k now db))"
proof -
  define pre where "pre = bindE (normalizePayload (q_Type opts) (q_Payload opts))
             (\<lambda>p. bindE (orderTTL C svc opts p now) (\<lambda>ttl. Inr (p, ttl)))"
  show ?thesis
  proof (cases pre)
    case (Inl e)
    then show ?thesis unfolding Queue_def queue_def pre_def [symmetric] by simp
  next
    case (Inr pt)
    then show ?thesis
      using assms unfolding Queue_def queue_def pre_def [symmetric]
      by (cases pt) (auto simp: CreateCommand_def Let_def find_without without_upd split: option.split prod.split)
  qed
qed

lemma Queue_used:
  assumes "k \<in> c_ID ` set gone" "unused gone (snd (Queue C svc opts k now db))"
  shows "snd (Queue C svc opts k now db) = db"
  using Queue_step [of C svc opts k now db] assms by (auto simp: unused_def)

lemma runOnComplete_without:
  "k \<notin> c_ID ` set gone \<Longrightarrow> runOnComplete svc k st now (without gone db) = map_sum id (without gone) (runOnComplete svc k st now db)"
  by (auto simp: runOnComplete_def find_without without_upd split: option.split sum.split)

lemma InsertCommandResult_without:
  assumes "sr_CommandID r \<notin> c_ID ` set gone"
  shows "InsertCommandResult r (without gone db) = map_sum id (without gone) (InsertCommandResult r db)"
  using assms result_without [OF assms, of db] unfolding InsertCommandResult_def by (simp add: without_def)

lemma CompleteCommand_without:
  "snd (CompleteCommand k dev status now (without gone db)) = without gone (snd (CompleteCommand k dev status now db))"
  "k \<notin> c_ID ` set gone \<Longrightarrow> fst (CompleteCommand k dev status now (without gone db)) = fst (CompleteCommand k dev status now db)"
proof -
  show "snd (CompleteCommand k dev status now (without gone db)) = without gone (snd (CompleteCommand k dev status now db))"
    unfolding CompleteCommand_def Let_def snd_conv by (rule update_without) simp
qed (auto simp: CompleteCommand_sel)

lemma Complete_without:
  assumes "k \<notin> c_ID ` set gone"
  shows "Complete svc dev k r now (without gone db)
    = (fst (Complete svc dev k r now db), without gone (snd (Complete svc dev k r now db)))"
proof -
  obtain ok db1 where cc: "CompleteCommand k dev (r_Status r) now db = (ok, db1)" by (metis prod.exhaust)
  then have cc': "CompleteCommand k dev (r_Status r) now (without gone db) = (ok, without gone db1)"
    using CompleteCommand_without [where k = k and dev = dev and status = "r_Status r" and now = now and gone = gone and db = db] assms by (simp add: prod_eq_iff)
  have sr: "sr_CommandID (storedResult k r) = k" by (simp add: storedResult_def split: prod.split)
  have ins: "bindE (InsertCommandResult (storedResult k r) (without gone db1)) (runOnComplete svc k (r_Status r) now)
      = map_sum id (without gone) (bindE (InsertCommandResult (storedResult k r) db1) (runOnComplete svc k (r_Status r) now))"
    using assms InsertCommandResult_without [of "storedResult k r" gone db1] sr runOnComplete_without [OF assms]
    by (cases "InsertCommandResult (storedResult k r) db1") simp_all
  show ?thesis
    unfolding Complete_def cc cc' using assms find_without [of k gone db1]
    by (auto simp: ins split: bool.split option.split sum.split)
qed

text \<open>A result for a command that is no longer there is refused; without retention it would have been a repeated
  result, or another device's. Neither changes anything.\<close>

lemma Complete_gone:
  assumes "k \<in> c_ID ` set gone" "past gone db" "well_kept db"
  shows "snd (Complete svc dev k r now db) = db" "snd (Complete svc dev k r now (without gone db)) = without gone db"
    "\<exists>e. fst (Complete svc dev k r now (without gone db)) = Some e \<and> (e = CommandNotFound \<or> (\<exists>t. e = BadRequest t))"
    "\<forall>e. fst (Complete svc dev k r now db) = Some e \<longrightarrow> e = CommandNotFound \<or> (\<exists>t. e = BadRequest t)"
proof -
  have none: "\<not> fst (CompleteCommand k dev (r_Status r) now db)" "\<not> fst (CompleteCommand k dev (r_Status r) now (without gone db))"
    using assms past_owed [OF assms(2,3)] by (auto simp: CompleteCommand_sel)
  then have cc: "CompleteCommand k dev (r_Status r) now db = (False, db)"
    "CompleteCommand k dev (r_Status r) now (without gone db) = (False, without gone db)"
    using CompleteCommand_none by (auto simp: prod_eq_iff)
  show "snd (Complete svc dev k r now db) = db" "snd (Complete svc dev k r now (without gone db)) = without gone db"
    "\<exists>e. fst (Complete svc dev k r now (without gone db)) = Some e \<and> (e = CommandNotFound \<or> (\<exists>t. e = BadRequest t))"
    "\<forall>e. fst (Complete svc dev k r now db) = Some e \<longrightarrow> e = CommandNotFound \<or> (\<exists>t. e = BadRequest t)"
    unfolding Complete_def cc using find_gone [OF assms(1), of db] by (auto split: option.splits)
qed

lemma Complete_snd_without:
  assumes "past gone db" "well_kept db"
  shows "snd (Complete svc dev k r now (without gone db)) = without gone (snd (Complete svc dev k r now db))"
proof (cases "k \<in> c_ID ` set gone")
  case True
  then show ?thesis using Complete_gone(1,2) [OF True assms] by simp
qed (simp add: Complete_without)

lemma Complete_past:
  assumes "past gone db"
  shows "past gone (snd (Complete svc dev k r now db))"
proof -
  have "snd (Complete svc dev k r now db) = snd (Complete svc dev k r now db)" by (rule refl)
  then show ?thesis
  proof (cases rule: Complete_cases)
    case (done1 hooked)
    show ?thesis
      by (rule past_map [OF assms, where P = "\<lambda>c. c_ID c = k \<and> c_DeviceID c = dev \<and> owed c"
            and f = "\<lambda>c. c\<lparr>c_Status := r_Status r, c_CompletedAt := Some now\<rparr>"])
         (simp_all add: done1(4) CompleteCommand_sel)
  qed (use assms CompleteCommand_none in \<open>metis+\<close>)
qed

text \<open>Completing a command changes the commands or nothing.\<close>

lemma Complete_same:
  assumes "db_commands (snd (Complete svc dev k r now db)) = db_commands db"
  shows "snd (Complete svc dev k r now db) = db"
proof -
  have "snd (Complete svc dev k r now db) = snd (Complete svc dev k r now db)" by (rule refl)
  then show ?thesis
  proof (cases rule: Complete_cases)
    case (done1 hooked)
    obtain c where c: "c \<in> set (db_commands db)" "c_ID c = k" "c_DeviceID c = dev" "owed c"
      using done1(2) by (auto simp: CompleteCommand_sel)
    let ?g = "\<lambda>c. if c_ID c = k \<and> c_DeviceID c = dev \<and> owed c then c\<lparr>c_Status := r_Status r, c_CompletedAt := Some now\<rparr> else c"
    have "map ?g (db_commands db) = map id (db_commands db)" using assms unfolding done1(4) by (simp add: CompleteCommand_sel)
    then have "?g c = id c" using c(1) by (simp only: map_eq_conv)
    then have "c_Status (c\<lparr>c_Status := r_Status r, c_CompletedAt := Some now\<rparr>) = c_Status c" using c by simp
    then have "c_Status c = r_Status r" by simp
    then show ?thesis using done1(1) c(4) by (auto simp: resultStatus_def owed_def)
  qed (use CompleteCommand_none in \<open>metis+\<close>)
qed

section \<open>Any system, with retention\<close>

text \<open>The commands removed so far are kept beside the state. Identifiers are random UUIDs: no new command is
  taken to carry the identifier of a removed one.\<close>

inductive with_retention ::
  "('x cmd_db \<times> 's \<Rightarrow> 'x cmd_db \<times> 's \<Rightarrow> bool) \<Rightarrow> 'x cmd_db \<times> 's \<times> Command list \<Rightarrow> 'x cmd_db \<times> 's \<times> Command list \<Rightarrow> bool"
  for step where
  goes_on: "step (db, s) (db', s') \<Longrightarrow> unused gone db' \<Longrightarrow> with_retention step (db, s, gone) (db', s', gone)"
| prunes: "with_retention step (db, s, gone)
    (snd (DeleteFinishedCommandsBefore cutoff limit found db), s, gone @ retentionBatch cutoff limit found db)"

text \<open>\<open>follows\<close>: a step on what is left of a database is a step on all of it, or none.\<close>

locale retained_system = state_machine step initial inv
  for step :: "'x cmd_db \<times> 's \<Rightarrow> 'x cmd_db \<times> 's \<Rightarrow> bool" and initial inv +
  assumes follows: "inv (whole, s) \<Longrightarrow> past gone whole \<Longrightarrow> step (without gone whole, s) (db', s') \<Longrightarrow> unused gone db' \<Longrightarrow>
      \<exists>whole'. db' = without gone whole' \<and> past gone whole' \<and> (step (whole, s) (whole', s') \<or> (whole', s') = (whole, s))"
begin

lemma traced:
  assumes "(with_retention step)\<^sup>*\<^sup>* x y" "x = (db, s, [])" "initial (db, s)"
  shows "\<exists>whole s' gone. y = (without gone whole, s', gone) \<and> step\<^sup>*\<^sup>* (db, s) (whole, s') \<and> past gone whole"
  using assms(1)
proof (induction rule: rtranclp_induct)
  case base
  then show ?case unfolding assms(2) by (intro exI [of _ db] exI [of _ s] exI [of _ "[]"]) (simp add: past_def)
next
  case (step y z)
  then obtain whole s' gone where y: "y = (without gone whole, s', gone)" "step\<^sup>*\<^sup>* (db, s) (whole, s')" "past gone whole" by blast
  have inv: "inv (whole, s')" by (rule reached [OF y(2) assms(3)])
  from step(2) [unfolded y(1)] show ?case
  proof (cases rule: with_retention.cases)
    case (goes_on db' s'')
    from follows [OF inv y(3) goes_on(2,3)] obtain whole' where
      "db' = without gone whole'" "past gone whole'" "step (whole, s') (whole', s'') \<or> (whole', s'') = (whole, s')" by blast
    then show ?thesis using goes_on(1) y(2) by (metis rtranclp.rtrancl_into_rtrancl)
  next
    case (prunes cutoff limit found)
    then show ?thesis using prune_without prune_past [OF y(3)] y(2) by blast
  qed
qed

end

end
