(* ===== verification/Command_Agent.thy ===== *)
theory Command_Agent
  imports Command_Service "HOL-Library.AList"
begin

text \<open>
  How an agent runs commands (\<^verbatim>\<open>src/internal/agent/session/session.go\<close> over
  \<^verbatim>\<open>src/internal/agent/state/state.go\<close>): a check-in offers commands, \<^verbatim>\<open>enqueue\<close> passes them to a
  queue, one worker takes them off it and runs them, and results wait in the local database until
  the server has them. The database survives a crash, the rest does not. The atomic pieces of the
  code are functions; \<open>agent_step\<close> interleaves them and lets the process stop between any two.
  What the server offers, the outcome of a run and which database operations fail are arbitrary.

  \<open>a_runs\<close> and \<open>a_pruned\<close> are no state of the agent: they record which commands have been run and
  which ledger entries have been dropped so far.
\<close>

section \<open>The local database\<close>

datatype ledger_state = LedgerStarted | LedgerCompleted

record ledger_entry =
  le_State :: ledger_state
  le_At :: go_time

datatype worker = Idle | Taken wire_command | Marked wire_command | Running wire_command
  | Ran wire_command CommandResult | Stored wire_command | Finished wire_command

record agent_session =
  a_ledger :: "(string \<times> ledger_entry) list"
  a_results :: "(string \<times> CommandResult) list"
  a_inflight :: "string list"
  a_work :: "wire_command list"
  a_worker :: worker
  a_flush :: "(string \<times> CommandResult) list option"
  a_runs :: "string list"
  a_pruned :: "string list"

definition QueueResult :: "string \<Rightarrow> CommandResult \<Rightarrow> agent_session \<Rightarrow> agent_session" where
  "QueueResult k r s = s\<lparr>a_results := AList.update k r (a_results s)\<rparr>"

definition PendingResults :: "agent_session \<Rightarrow> (string \<times> CommandResult) list" where
  "PendingResults s = sort_key fst (a_results s)"

definition DeleteResult :: "string \<Rightarrow> agent_session \<Rightarrow> agent_session" where
  "DeleteResult k s = s\<lparr>a_results := AList.delete k (a_results s)\<rparr>"

definition MarkStarted :: "string \<Rightarrow> go_time \<Rightarrow> agent_session \<Rightarrow> bool \<times> agent_session" where
  "MarkStarted k now s =
     (if map_of (a_ledger s) k \<noteq> None then (False, s)
      else (True, s\<lparr>a_ledger := AList.update k \<lparr>le_State = LedgerStarted, le_At = now\<rparr> (a_ledger s)\<rparr>))"

definition MarkCompleted :: "string \<Rightarrow> go_time \<Rightarrow> agent_session \<Rightarrow> agent_session" where
  "MarkCompleted k now s =
     s\<lparr>a_ledger := AList.update k \<lparr>le_State = LedgerCompleted, le_At = now\<rparr> (a_ledger s)\<rparr>"

definition LedgerState :: "string \<Rightarrow> agent_session \<Rightarrow> ledger_state option" where
  "LedgerState k s = map_option le_State (map_of (a_ledger s) k)"

definition PruneLedger :: "go_time \<Rightarrow> agent_session \<Rightarrow> agent_session" where
  "PruneLedger before s =
     s\<lparr>a_ledger := filter (\<lambda>(k, e). \<not> le_At e < before) (a_ledger s),
       a_pruned := a_pruned s @ map fst (filter (\<lambda>(k, e). le_At e < before) (a_ledger s))\<rparr>"

section \<open>The session\<close>

definition ledgerRetention :: duration where "ledgerRetention = 30 * 24 * hour"
abbreviation workQueueSize :: nat where "workQueueSize \<equiv> 64"

text \<open>Which of the database operations fail.\<close>

record db_faults =
  f_read :: bool
  f_queue :: bool
  f_mark :: bool

definition finish :: "db_faults \<Rightarrow> go_time \<Rightarrow> string \<Rightarrow> CommandResult \<Rightarrow> agent_session \<Rightarrow> agent_session" where
  "finish F now k r s =
     (if f_queue F then s
      else if f_mark F then QueueResult k r s
      else MarkCompleted k now (QueueResult k r s))"

definition interrupted :: "go_time \<Rightarrow> CommandResult" where
  "interrupted now = \<lparr>r_Status = ResultFailed, r_ExitCode = - 1, r_Stdout = [], r_Stderr = [],
     r_StdoutTruncated = False, r_StderrTruncated = False,
     r_Error = ''the agent restarted while this command was running'', r_StartedAt = now, r_FinishedAt = now\<rparr>"

definition enqueue :: "db_faults \<Rightarrow> go_time \<Rightarrow> wire_command \<Rightarrow> agent_session \<Rightarrow> agent_session" where
  "enqueue F now cmd s =
     (if w_ID cmd \<in> set (a_inflight s) then s
      else if f_read F then s
      else if LedgerState (w_ID cmd) s = Some LedgerCompleted then s
      else if LedgerState (w_ID cmd) s = Some LedgerStarted then finish F now (w_ID cmd) (interrupted now) s
      else if length (a_work s) < workQueueSize
      then s\<lparr>a_work := a_work s @ [cmd], a_inflight := w_ID cmd # a_inflight s\<rparr>
      else s)"

definition release :: "wire_command \<Rightarrow> agent_session \<Rightarrow> agent_session" where
  "release cmd s = s\<lparr>a_worker := Idle, a_inflight := removeAll (w_ID cmd) (a_inflight s)\<rparr>"

text \<open>A stop of the process, and the next \<^verbatim>\<open>Start\<close>.\<close>

definition restart_agent :: "go_time \<Rightarrow> agent_session \<Rightarrow> agent_session" where
  "restart_agent now s =
     PruneLedger (time_add now (- ledgerRetention))
       (s\<lparr>a_inflight := [], a_work := [], a_worker := Idle, a_flush := None\<rparr>)"

text \<open>The server's answer to a result: taken, rejected outright (404 or 400), or anything else.\<close>

datatype answer = Taken_in | Rejected | NoAnswer

fun flushAll ::
  "(string \<Rightarrow> CommandResult \<Rightarrow> answer) \<Rightarrow> (string \<times> CommandResult) list \<Rightarrow> agent_session \<Rightarrow> bool \<times> agent_session" where
  "flushAll ans [] s = (True, s)"
| "flushAll ans ((k, r) # rest) s =
     (case ans k r of NoAnswer \<Rightarrow> (False, s) | _ \<Rightarrow> flushAll ans rest (DeleteResult k s))"

definition FlushResults ::
  "(string \<Rightarrow> CommandResult \<Rightarrow> answer) \<Rightarrow> agent_session \<Rightarrow> bool \<times> agent_session" where
  "FlushResults ans s = flushAll ans (PendingResults s) s"

text \<open>An uninterrupted run of a command the worker has taken, up to the flush that follows it.\<close>

definition run :: "db_faults \<Rightarrow> go_time \<Rightarrow> CommandResult \<Rightarrow> wire_command \<Rightarrow> agent_session \<Rightarrow> agent_session" where
  "run F now r cmd s =
     (if f_read F then release cmd s
      else
        let s1 = snd (MarkStarted (w_ID cmd) now s);
            s2 = s1\<lparr>a_runs := a_runs s1 @ [w_ID cmd]\<rparr>
        in release cmd (finish F now (w_ID cmd) r s2))"

section \<open>Steps\<close>

text \<open>\<^verbatim>\<open>submit_kept\<close> is both an answer that does not settle the result and one after which the
  result cannot be deleted; either ends the flush.\<close>

datatype act = Local | Offer wire_command | Submit string CommandResult answer

inductive agent_step :: "agent_session \<Rightarrow> act \<Rightarrow> agent_session \<Rightarrow> bool" where
  offer: "agent_step s (Offer cmd) (enqueue F now cmd s)"
| take_up: "a_worker s = Idle \<Longrightarrow> a_work s = cmd # cmds \<Longrightarrow>
    agent_step s Local (s\<lparr>a_worker := Taken cmd, a_work := cmds\<rparr>)"
| mark: "a_worker s = Taken cmd \<Longrightarrow>
    agent_step s Local ((snd (MarkStarted (w_ID cmd) now s))\<lparr>a_worker := Marked cmd\<rparr>)"
| mark_fails: "a_worker s = Taken cmd \<Longrightarrow> agent_step s Local (release cmd s)"
| begin_run: "a_worker s = Marked cmd \<Longrightarrow>
    agent_step s Local (s\<lparr>a_worker := Running cmd, a_runs := a_runs s @ [w_ID cmd]\<rparr>)"
| end_run: "a_worker s = Running cmd \<Longrightarrow> resultStatus (r_Status r) \<Longrightarrow>
    agent_step s Local (s\<lparr>a_worker := Ran cmd r\<rparr>)"
| store: "a_worker s = Ran cmd r \<Longrightarrow>
    agent_step s Local ((QueueResult (w_ID cmd) r s)\<lparr>a_worker := Stored cmd\<rparr>)"
| store_fails: "a_worker s = Ran cmd r \<Longrightarrow> agent_step s Local (s\<lparr>a_worker := Finished cmd\<rparr>)"
| complete: "a_worker s = Stored cmd \<Longrightarrow>
    agent_step s Local ((MarkCompleted (w_ID cmd) now s)\<lparr>a_worker := Finished cmd\<rparr>)"
| complete_fails: "a_worker s = Stored cmd \<Longrightarrow> agent_step s Local (s\<lparr>a_worker := Finished cmd\<rparr>)"
| done_run: "a_worker s = Finished cmd \<Longrightarrow> agent_step s Local (release cmd s)"
| flush: "a_flush s = None \<Longrightarrow> agent_step s Local (s\<lparr>a_flush := Some (PendingResults s)\<rparr>)"
| submit: "a_flush s = Some ((k, r) # rest) \<Longrightarrow> ans \<noteq> NoAnswer \<Longrightarrow>
    agent_step s (Submit k r ans) ((DeleteResult k s)\<lparr>a_flush := Some rest\<rparr>)"
| submit_kept: "a_flush s = Some ((k, r) # rest) \<Longrightarrow>
    agent_step s (Submit k r ans) (s\<lparr>a_flush := None\<rparr>)"
| flush_done: "a_flush s = Some [] \<Longrightarrow> agent_step s Local (s\<lparr>a_flush := None\<rparr>)"
| stop: "agent_step s Local (restart_agent now s)"

inductive_cases local_stepE: "agent_step s Local s'"
inductive_cases offer_stepE: "agent_step s (Offer cmd) s'"
inductive_cases submit_stepE: "agent_step s (Submit k r ans) s'"

abbreviation local_steps :: "agent_session \<Rightarrow> agent_session \<Rightarrow> bool" where
  "local_steps \<equiv> (\<lambda>s s'. agent_step s Local s')\<^sup>*\<^sup>*"

text \<open>\<open>run\<close> is one way the steps can go.\<close>

lemma run_is_steps:
  assumes "a_worker s = Taken cmd" "resultStatus (r_Status r)"
  shows "local_steps s (run F now r cmd s)"
proof (cases "f_read F")
  case True
  then show ?thesis using agent_step.mark_fails [OF assms(1)] by (simp add: run_def r_into_rtranclp)
next
  case False
  define s1 where "s1 = (snd (MarkStarted (w_ID cmd) now s))\<lparr>a_worker := Marked cmd\<rparr>"
  define s2 where "s2 = s1\<lparr>a_worker := Running cmd, a_runs := a_runs s1 @ [w_ID cmd]\<rparr>"
  define s3 where "s3 = s2\<lparr>a_worker := Ran cmd r\<rparr>"
  define s4 where "s4 = (if f_queue F then s3\<lparr>a_worker := Finished cmd\<rparr> else (QueueResult (w_ID cmd) r s3)\<lparr>a_worker := Stored cmd\<rparr>)"
  define s5 where "s5 = (if f_queue F then s4 else if f_mark F then s4\<lparr>a_worker := Finished cmd\<rparr>
      else (MarkCompleted (w_ID cmd) now s4)\<lparr>a_worker := Finished cmd\<rparr>)"
  have m: "agent_step s Local s1" unfolding s1_def by (rule agent_step.mark [OF assms(1)])
  have b: "agent_step s1 Local s2" unfolding s2_def by (rule agent_step.begin_run) (simp add: s1_def)
  have e: "agent_step s2 Local s3" unfolding s3_def by (rule agent_step.end_run [OF _ assms(2)]) (simp add: s2_def)
  have q: "agent_step s3 Local s4"
    unfolding s4_def using agent_step.store [of s3 cmd r] agent_step.store_fails [of s3 cmd r] by (simp add: s3_def)
  have "a_worker s4 = Stored cmd" if "\<not> f_queue F" using that by (simp add: s4_def)
  then have c: "local_steps s4 s5"
    using agent_step.complete [of s4 cmd now] agent_step.complete_fails [of s4 cmd] by (auto simp: s5_def)
  have "agent_step s5 Local (release cmd s5)"
    by (rule agent_step.done_run) (simp add: s5_def s4_def)
  moreover have "release cmd s5 = run F now r cmd s"
    using False by (simp add: run_def s5_def s4_def s3_def s2_def s1_def Let_def release_def finish_def QueueResult_def MarkCompleted_def)
  ultimately show ?thesis
    using m b e q c by (metis (no_types, lifting) converse_rtranclp_into_rtranclp rtranclp.rtrancl_into_rtrancl)
qed

section \<open>At most once\<close>

fun worker_ids :: "worker \<Rightarrow> string list" where
  "worker_ids Idle = []"
| "worker_ids (Taken c) = [w_ID c]"
| "worker_ids (Marked c) = [w_ID c]"
| "worker_ids (Running c) = [w_ID c]"
| "worker_ids (Ran c r) = [w_ID c]"
| "worker_ids (Stored c) = [w_ID c]"
| "worker_ids (Finished c) = [w_ID c]"

text \<open>A command waits, or is about to be marked, only while the ledger does not know it.\<close>

definition waiting :: "agent_session \<Rightarrow> string list" where
  "waiting s = map w_ID (a_work s) @ (case a_worker s of Taken c \<Rightarrow> [w_ID c] | _ \<Rightarrow> [])"

definition known :: "agent_session \<Rightarrow> string \<Rightarrow> bool" where
  "known s k \<longleftrightarrow> map_of (a_ledger s) k \<noteq> None"

definition orderly :: "agent_session \<Rightarrow> bool" where
  "orderly s \<longleftrightarrow> distinct (map fst (a_ledger s))
     \<and> distinct (map w_ID (a_work s) @ worker_ids (a_worker s))
     \<and> set (map w_ID (a_work s) @ worker_ids (a_worker s)) \<subseteq> set (a_inflight s)
     \<and> (\<forall>k \<in> set (waiting s). \<not> known s k)
     \<and> (\<forall>k \<in> set (worker_ids (a_worker s)). k \<in> set (waiting s) \<or> known s k)
     \<and> (\<forall>k. count_list (a_runs s) k
            \<le> count_list (a_pruned s) k + (if known s k \<and> (\<forall>c. a_worker s = Marked c \<longrightarrow> w_ID c \<noteq> k) then 1 else 0))"

definition new_agent :: agent_session where
  "new_agent = \<lparr>a_ledger = [], a_results = [], a_inflight = [], a_work = [], a_worker = Idle, a_flush = None,
     a_runs = [], a_pruned = []\<rparr>"

lemma orderly_new: "orderly new_agent"
  by (simp add: orderly_def new_agent_def waiting_def)

lemma known_update: "a_ledger s' = AList.update k v (a_ledger s) \<Longrightarrow> known s' j \<longleftrightarrow> known s j \<or> j = k"
  by (simp add: known_def update_conv')

lemma known_same: "a_ledger s' = a_ledger s \<Longrightarrow> known s' = known s"
  by (simp add: known_def fun_eq_iff)

lemma orderly_ledger:
  assumes "orderly s" "a_ledger s' = AList.update k v (a_ledger s)" "known s k" "a_work s' = a_work s"
    "a_worker s' = a_worker s" "a_inflight s' = a_inflight s" "a_runs s' = a_runs s" "a_pruned s' = a_pruned s"
  shows "orderly s'"
proof -
  have "known s' j \<longleftrightarrow> known s j" for j using known_update [OF assms(2)] assms(3) by auto
  moreover have "waiting s' = waiting s" using assms(4,5) by (simp add: waiting_def)
  ultimately show ?thesis using assms by (simp add: orderly_def distinct_update)
qed

lemma orderly_same:
  assumes "orderly s" "a_ledger s' = a_ledger s" "a_work s' = a_work s"
    "a_worker s' = a_worker s" "a_inflight s' = a_inflight s" "a_runs s' = a_runs s" "a_pruned s' = a_pruned s"
  shows "orderly s'"
  using assms unfolding orderly_def known_same [OF assms(2)] waiting_def by simp

lemma orderly_finish: "orderly s \<Longrightarrow> known s k \<Longrightarrow> orderly (finish F now k r s)"
  unfolding finish_def QueueResult_def MarkCompleted_def
  using orderly_same [of s "s\<lparr>a_results := AList.update k r (a_results s)\<rparr>"]
    orderly_ledger [of s "s\<lparr>a_results := AList.update k r (a_results s),
      a_ledger := AList.update k \<lparr>le_State = LedgerCompleted, le_At = now\<rparr> (a_ledger s)\<rparr>"]
  by simp

lemma known_LedgerState: "known s k \<longleftrightarrow> LedgerState k s \<noteq> None"
  by (simp add: LedgerState_def known_def)

lemma enqueue_cases:
  obtains (seen) "enqueue F now cmd s = s"
  | (started) "LedgerState (w_ID cmd) s = Some LedgerStarted" "w_ID cmd \<notin> set (a_inflight s)"
      "enqueue F now cmd s = finish F now (w_ID cmd) (interrupted now) s"
  | (fresh) "w_ID cmd \<notin> set (a_inflight s)" "\<not> known s (w_ID cmd)"
      "enqueue F now cmd s = s\<lparr>a_work := a_work s @ [cmd], a_inflight := w_ID cmd # a_inflight s\<rparr>"
proof (cases "w_ID cmd \<in> set (a_inflight s) \<or> f_read F")
  case True
  then show thesis by (intro seen) (auto simp: enqueue_def)
next
  case False
  show thesis
  proof (cases "LedgerState (w_ID cmd) s")
    case None
    then show thesis
      using False seen fresh by (cases "length (a_work s) < workQueueSize") (simp_all add: enqueue_def known_LedgerState)
  next
    case (Some st)
    then show thesis using False seen started by (cases st) (simp_all add: enqueue_def)
  qed
qed

lemma orderly_enqueue:
  assumes "orderly s"
  shows "orderly (enqueue F now cmd s)"
proof (cases rule: enqueue_cases [of F now cmd s, case_names seen started fresh])
  case seen
  then show ?thesis using assms by simp
next
  case started
  then show ?thesis using orderly_finish [OF assms] by (simp add: known_LedgerState)
next
  case fresh
  moreover have "known (s\<lparr>a_work := a_work s @ [cmd], a_inflight := w_ID cmd # a_inflight s\<rparr>) = known s"
    by (rule known_same) simp
  ultimately show ?thesis using assms by (auto simp: orderly_def waiting_def)
qed

lemma orderlyD:
  assumes "orderly s"
  shows "distinct (map fst (a_ledger s))" "distinct (map w_ID (a_work s) @ worker_ids (a_worker s))"
    "set (map w_ID (a_work s) @ worker_ids (a_worker s)) \<subseteq> set (a_inflight s)"
    "\<forall>k \<in> set (waiting s). \<not> known s k"
    "\<forall>k. count_list (a_runs s) k
       \<le> count_list (a_pruned s) k + (if known s k \<and> (\<forall>c. a_worker s = Marked c \<longrightarrow> w_ID c \<noteq> k) then 1 else 0)"
    "\<forall>k \<in> set (worker_ids (a_worker s)). k \<in> set (waiting s) \<or> known s k"
  using assms unfolding orderly_def by blast+

lemma orderly_worker:
  assumes "orderly s" "a_ledger s' = a_ledger s" "a_pruned s' = a_pruned s" "a_inflight s' = a_inflight s"
    "distinct (map w_ID (a_work s') @ worker_ids (a_worker s'))"
    "set (map w_ID (a_work s') @ worker_ids (a_worker s')) \<subseteq> set (a_inflight s)"
    "set (waiting s') \<subseteq> set (waiting s)"
    "\<forall>k \<in> set (worker_ids (a_worker s')). k \<in> set (waiting s') \<or> known s k"
    "\<forall>k. count_list (a_runs s') k
       \<le> count_list (a_pruned s) k + (if known s k \<and> (\<forall>c. a_worker s' = Marked c \<longrightarrow> w_ID c \<noteq> k) then 1 else 0)"
  shows "orderly s'"
  using assms unfolding orderly_def known_same [OF assms(2)] by auto

lemma orderly_advance:
  assumes "orderly s" "worker_ids (a_worker s) = [k]" "known s k" "\<forall>c. a_worker s \<noteq> Marked c"
    "worker_ids w = [k]" "\<forall>c. w \<noteq> Marked c \<and> w \<noteq> Taken c"
  shows "orderly (s\<lparr>a_results := x, a_worker := w\<rparr>)"
proof -
  note d = orderlyD [OF assms(1), unfolded assms(2)]
  have "waiting (s\<lparr>a_results := x, a_worker := w\<rparr>) = map w_ID (a_work s)"
    using assms(6) by (simp add: waiting_def split: worker.split)
  moreover have "set (map w_ID (a_work s)) \<subseteq> set (waiting s)" by (simp add: waiting_def)
  ultimately show ?thesis
    using d(2,3,5) assms(3-6) by (intro orderly_worker [OF assms(1)]) simp_all
qed

lemma orderly_known:
  assumes "orderly s" "worker_ids (a_worker s) = [k]" "\<forall>c. a_worker s \<noteq> Taken c"
  shows "known s k"
proof -
  have "waiting s = map w_ID (a_work s)" using assms(3) by (simp add: waiting_def split: worker.split)
  then show ?thesis using orderlyD(2,6) [OF assms(1)] assms(2) by auto
qed

lemma orderly_release:
  assumes "orderly s" "worker_ids (a_worker s) = [w_ID cmd]" "\<forall>c. a_worker s \<noteq> Marked c"
  shows "orderly (release cmd s)"
proof -
  have k: "known (release cmd s) = known s" by (rule known_same) (simp add: release_def)
  have w: "set (waiting (release cmd s)) \<subseteq> set (waiting s)" by (auto simp: waiting_def release_def)
  have "w_ID cmd \<notin> set (map w_ID (a_work s))" "set (map w_ID (a_work s)) \<subseteq> set (a_inflight s)"
    using assms(1,2) by (auto simp: orderly_def)
  then have "set (map w_ID (a_work s)) \<subseteq> set (removeAll (w_ID cmd) (a_inflight s))" unfolding set_removeAll by blast
  then show ?thesis
    using assms w unfolding orderly_def k by (auto simp: release_def)
qed

lemma count_filter_map: "x \<in> set xs \<Longrightarrow> 1 \<le> count_list xs x"
  by (induction xs) auto

lemma orderly_restart:
  assumes "orderly s"
  shows "orderly (restart_agent now s)"
proof -
  define old where "old = (\<lambda>(k::string, e::ledger_entry). le_At e < time_add now (- ledgerRetention))"
  define s' where "s' = restart_agent now s"
  have led: "a_ledger s' = filter (\<lambda>x. \<not> old x) (a_ledger s)" "a_pruned s' = a_pruned s @ map fst (filter old (a_ledger s))"
    "a_runs s' = a_runs s" "a_work s' = []" "a_worker s' = Idle" "a_inflight s' = []"
    by (simp_all add: s'_def restart_agent_def PruneLedger_def old_def case_prod_unfold)
  have d: "distinct (map fst (a_ledger s'))" using assms led(1) by (simp add: orderly_def distinct_map_filter)
  have gone: "k \<in> set (map fst (filter old (a_ledger s)))" if was: "known s k" "\<not> known s' k" for k
  proof -
    obtain e where e: "(k, e) \<in> set (a_ledger s)" using was(1) by (auto simp: known_def dest: map_of_SomeD)
    have "(k, e) \<notin> set (a_ledger s')" using was(2) by (auto simp: known_def map_of_eq_None_iff image_iff)
    then show ?thesis using e led(1) by force
  qed
  have "count_list (a_runs s') k \<le> count_list (a_pruned s') k + (if known s' k then 1 else 0)" for k
  proof -
    have "count_list (a_runs s) k \<le> count_list (a_pruned s) k + (if known s k then 1 else 0)"
      using assms by (auto simp: orderly_def split: if_splits dest: spec [of _ k])
    then show ?thesis using gone [of k] count_filter_map [of k "map fst (filter old (a_ledger s))"] led(2,3)
      by (auto simp: count_list_append split: if_splits)
  qed
  then show ?thesis using d led(4-6) by (simp add: orderly_def waiting_def s'_def)
qed

lemma orderly_step: "agent_step s act s' \<Longrightarrow> orderly s \<Longrightarrow> orderly s'"
proof (induction rule: agent_step.induct)
  case (offer s cmd F now)
  then show ?case by (rule orderly_enqueue)
next
  case (take_up s cmd cmds)
  note d = orderlyD [OF take_up(3), unfolded take_up(1,2)]
  show ?case
    using d(2-4) d(5) take_up(1,2)
    by (intro orderly_worker [OF take_up(3)]) (simp_all add: waiting_def)
next
  case (mark s cmd now)
  have new: "\<not> known s (w_ID cmd)" using mark by (simp add: orderly_def waiting_def)
  define s' where "s' = (snd (MarkStarted (w_ID cmd) now s))\<lparr>a_worker := Marked cmd\<rparr>"
  have led: "a_ledger s' = AList.update (w_ID cmd) \<lparr>le_State = LedgerStarted, le_At = now\<rparr> (a_ledger s)"
    and rest: "a_work s' = a_work s" "a_worker s' = Marked cmd" "a_inflight s' = a_inflight s" "a_runs s' = a_runs s" "a_pruned s' = a_pruned s"
    using new by (simp_all add: s'_def MarkStarted_def known_def)
  have "w_ID cmd \<notin> set (map w_ID (a_work s))" using mark by (auto simp: orderly_def)
  then have w: "\<forall>c \<in> set (a_work s). w_ID c \<noteq> w_ID cmd" unfolding set_map by (metis imageI)
  have "\<forall>k. count_list (a_runs s') k \<le> count_list (a_pruned s') k
      + (if known s' k \<and> (\<forall>c. a_worker s' = Marked c \<longrightarrow> w_ID c \<noteq> k) then 1 else 0)"
  proof
    fix k
    have "count_list (a_runs s) k \<le> count_list (a_pruned s) k + (if known s k then 1 else 0)"
      using orderlyD(5) [OF mark(2), THEN spec, of k] mark(1) by simp
    then show "count_list (a_runs s') k \<le> count_list (a_pruned s') k
        + (if known s' k \<and> (\<forall>c. a_worker s' = Marked c \<longrightarrow> w_ID c \<noteq> k) then 1 else 0)"
      using new rest known_update [OF led, of k] by (cases "k = w_ID cmd") simp_all
  qed
  then show ?case
    using mark w rest known_update [OF led] led unfolding s'_def [symmetric] orderly_def
    by (auto simp: waiting_def distinct_update)
next
  case (mark_fails s cmd)
  then show ?case by (intro orderly_release) simp_all
next
  case (begin_run s cmd)
  note d = orderlyD [OF begin_run(2), unfolded begin_run(1)]
  have kn: "known s (w_ID cmd)" using d(2,6) begin_run(1) by (simp add: waiting_def)
  have cnt: "count_list (a_runs s) k \<le> count_list (a_pruned s) k + (if known s k \<and> k \<noteq> w_ID cmd then 1 else 0)" for k
    using d(5) [THEN spec, of k] by (cases "k = w_ID cmd") simp_all
  have "count_list (a_runs s @ [w_ID cmd]) k \<le> count_list (a_pruned s) k + (if known s k then 1 else 0)" for k
    using cnt [of k] kn by (cases "k = w_ID cmd") (simp_all add: count_list_append)
  then show ?case
    using d(2,3) kn begin_run(1) by (intro orderly_worker [OF begin_run(2)]) (simp_all add: waiting_def)
next
  case (end_run s cmd r)
  then show ?case
    using orderly_advance [of s "w_ID cmd" "Ran cmd r" "a_results s"] orderly_known [of s "w_ID cmd"] by simp
next
  case (store s cmd r)
  then show ?case
    using orderly_advance [of s "w_ID cmd" "Stored cmd" "AList.update (w_ID cmd) r (a_results s)"] orderly_known [of s "w_ID cmd"]
    by (simp add: QueueResult_def)
next
  case (store_fails s cmd r)
  then show ?case
    using orderly_advance [of s "w_ID cmd" "Finished cmd" "a_results s"] orderly_known [of s "w_ID cmd"] by simp
next
  case (complete s cmd now)
  define s' where "s' = MarkCompleted (w_ID cmd) now s"
  have "known s (w_ID cmd)" using complete orderly_known [of s "w_ID cmd"] by simp
  then have "orderly s'"
    using complete orderly_ledger [of s s' "w_ID cmd"] by (simp add: MarkCompleted_def s'_def)
  moreover have "a_worker s' = Stored cmd" using complete by (simp add: MarkCompleted_def s'_def)
  ultimately show ?case
    using orderly_advance [of s' "w_ID cmd" "Finished cmd" "a_results s'"] orderly_known [of s' "w_ID cmd"]
    by (simp add: s'_def [symmetric])
next
  case (complete_fails s cmd)
  then show ?case
    using orderly_advance [of s "w_ID cmd" "Finished cmd" "a_results s"] orderly_known [of s "w_ID cmd"] by simp
next
  case (done_run s cmd)
  then show ?case by (intro orderly_release) simp_all
next
  case (stop s now)
  then show ?case by (rule orderly_restart)
qed (auto intro: orderly_same simp: DeleteResult_def)

abbreviation agent_steps :: "agent_session \<Rightarrow> agent_session \<Rightarrow> bool" where
  "agent_steps \<equiv> (\<lambda>s s'. \<exists>act. agent_step s act s')\<^sup>*\<^sup>*"

interpretation worker: state_machine "\<lambda>s s'. \<exists>act. agent_step s act s'" "\<lambda>s. s = new_agent" orderly
  by unfold_locales (auto simp: orderly_new intro: orderly_step)

lemma orderly_reached: "agent_steps new_agent s \<Longrightarrow> orderly s"
  using worker.reached by blast

text \<open>
  C22. A command runs at most once. Whatever a server offers and however often, however results and
  start reports are lost, whichever database operations fail and wherever the agent stops and
  starts again, a command is not run a second time unless its entry was dropped from the ledger,
  which happens at a start, thirty days after the entry was written.
\<close>

theorem runs_at_most_once:
  assumes "agent_steps new_agent s"
  shows "count_list (a_runs s) k \<le> 1 + count_list (a_pruned s) k"
proof -
  have "count_list (a_runs s) k
      \<le> count_list (a_pruned s) k + (if known s k \<and> (\<forall>c. a_worker s = Marked c \<longrightarrow> w_ID c \<noteq> k) then 1 else 0)"
    using orderly_reached [OF assms] by (auto simp: orderly_def)
  then show ?thesis by (auto split: if_splits)
qed

lemma local_agent_steps: "local_steps s s' \<Longrightarrow> agent_steps s s'"
  by (induction rule: rtranclp_induct) (auto intro: rtranclp.rtrancl_into_rtrancl)

lemma agent_steps_step: "agent_steps s s1 \<Longrightarrow> agent_step s1 act s2 \<Longrightarrow> agent_steps s s2"
  by (auto intro: rtranclp.rtrancl_into_rtrancl)

definition no_faults :: db_faults where
  "no_faults = \<lparr>f_read = False, f_queue = False, f_mark = False\<rparr>"

definition sample_command :: wire_command where
  "sample_command = \<lparr>w_ID = ''k'', w_Type = CommandLock, w_Payload = PNone\<rparr>"

definition sample_taken :: agent_session where
  "sample_taken = new_agent\<lparr>a_work := [], a_inflight := [''k''], a_worker := Taken sample_command\<rparr>"

definition sample_outcome :: CommandResult where
  "sample_outcome = (interrupted 1)\<lparr>r_Status := ResultSucceeded, r_ExitCode := 0, r_Error := []\<rparr>"

lemma sample_taken_reached: "agent_steps new_agent sample_taken"
proof -
  have "enqueue no_faults 1 sample_command new_agent
      = new_agent\<lparr>a_work := [sample_command], a_inflight := [''k'']\<rparr>"
    by (simp add: enqueue_def no_faults_def new_agent_def LedgerState_def sample_command_def)
  then have o: "agent_step new_agent (Offer sample_command) (new_agent\<lparr>a_work := [sample_command], a_inflight := [''k'']\<rparr>)"
    using agent_step.offer [of new_agent sample_command no_faults 1] by simp
  have t: "agent_step (new_agent\<lparr>a_work := [sample_command], a_inflight := [''k'']\<rparr>) Local sample_taken"
    using agent_step.take_up [of "new_agent\<lparr>a_work := [sample_command], a_inflight := [''k'']\<rparr>" sample_command "[]"]
    by (simp add: sample_taken_def new_agent_def)
  show ?thesis by (rule agent_steps_step [OF agent_steps_step [OF rtranclp.rtrancl_refl o] t])
qed

lemma sample_run_reached: "agent_steps new_agent (run no_faults 1 sample_outcome sample_command sample_taken)"
proof -
  have "local_steps sample_taken (run no_faults 1 sample_outcome sample_command sample_taken)"
    by (rule run_is_steps) (simp_all add: sample_taken_def sample_outcome_def interrupted_def resultStatus_def)
  from local_agent_steps [OF this] sample_taken_reached show ?thesis by (rule rtranclp_trans [rotated])
qed

theorem runs_at_most_once_witness:
  "a_runs (run no_faults 1 sample_outcome sample_command sample_taken) = [''k'']
   \<and> count_list (a_runs (run no_faults 1 sample_outcome sample_command sample_taken)) ''k'' \<le> 1"
proof -
  have runs: "a_runs (run no_faults 1 sample_outcome sample_command sample_taken) = [''k'']" by code_simp
  have pruned: "a_pruned (run no_faults 1 sample_outcome sample_command sample_taken) = []" by code_simp
  from runs_at_most_once [OF sample_run_reached, of "''k''"] runs pruned show ?thesis by simp
qed

text \<open>
  A result that the server neither takes nor rejects outright - it answers 413 to a body over its
  limit, however often it is sent - keeps every later result from being sent.
\<close>

lemma flush_blocked:
  assumes "PendingResults s = (k, r) # rest" "ans k r = NoAnswer"
  shows "FlushResults ans s = (False, s)"
  using assms by (simp add: FlushResults_def)

end
