(* ===== verification/Command_System.thy ===== *)
theory Command_System
  imports Command_Retention Command_Agent
begin

text \<open>
  The command queue and a device together. The device gets commands that were queued for it, at
  any later time and in any order, and submits results; requests and answers may be lost after the
  server has acted on them. Administrators, other devices and the sweeper's expiry job go on
  meanwhile, and remote sessions and enrollment queue commands of their own. The sweeper's retention
  job is added by \<open>with_retention\<close>: it removes no command that the device is just being handed.
\<close>

definition answerOf :: "cmd_error option \<Rightarrow> answer" where
  "answerOf e = (case e of
     None \<Rightarrow> Taken_in
   | Some CommandNotFound \<Rightarrow> Rejected
   | Some (BadRequest _) \<Rightarrow> Rejected
   | Some _ \<Rightarrow> NoAnswer)"

inductive system_step ::
  "crypto \<Rightarrow> 'x cmd_service \<Rightarrow> uuid \<Rightarrow> 'x cmd_db \<times> agent_session \<Rightarrow> 'x cmd_db \<times> agent_session \<Rightarrow> bool"
  for C svc dev where
  sys_queue: "system_step C svc dev (db, a) (snd (Queue C svc opts k now db), a)"
| sys_deliver: "system_step C svc dev (db, a) (snd (Deliver d now db), a)"
| sys_start: "system_step C svc dev (db, a) (snd (Start d k now db), a)"
| sys_other: "d \<noteq> dev \<Longrightarrow> system_step C svc dev (db, a) (snd (Complete svc d k r now db), a)"
| sys_expire: "system_step C svc dev (db, a) (ExpireCommands now db, a)"
| sys_insert: "c_Status c = CommandQueued \<Longrightarrow> CreateCommand c db = Inr db' \<Longrightarrow> system_step C svc dev (db, a) (db', a)"
| sys_hosts: "system_step C svc dev (db, a) (db\<lparr>db_hosts := hosts, db_rest := x\<rparr>, a)"
| sys_agent: "agent_step a Local a' \<Longrightarrow> system_step C svc dev (db, a) (db, a')"
| sys_offer: "c \<in> set (db_commands db) \<Longrightarrow> c_DeviceID c = dev \<Longrightarrow> agent_step a (Offer (wire c)) a' \<Longrightarrow>
    system_step C svc dev (db, a) (db, a')"
| sys_submit: "agent_step a (Submit k r (answerOf (fst (Complete svc dev k r now db)))) a' \<Longrightarrow>
    system_step C svc dev (db, a) (snd (Complete svc dev k r now db), a')"
| sys_lost: "agent_step a (Submit k r NoAnswer) a' \<Longrightarrow> system_step C svc dev (db, a) (db, a')"
| sys_answer_lost: "agent_step a (Submit k r NoAnswer) a' \<Longrightarrow>
    system_step C svc dev (db, a) (snd (Complete svc dev k r now db), a')"

section \<open>What the server's steps leave alone\<close>

definition succeeded :: "Command \<Rightarrow> bool" where
  "succeeded c \<longleftrightarrow> c_Status c = CommandSucceeded"

text \<open>\<open>tame dev ks\<close>: no command is lost or changes hands, none that ended is taken up again, and of
  the device's commands only those in \<open>ks\<close> become successful.\<close>

definition tame :: "uuid \<Rightarrow> string set \<Rightarrow> 'x cmd_db \<Rightarrow> 'x cmd_db \<Rightarrow> bool" where
  "tame dev ks db db' \<longleftrightarrow>
     (\<forall>c \<in> set (db_commands db). \<exists>c' \<in> set (db_commands db').
        c_ID c' = c_ID c \<and> c_DeviceID c' = c_DeviceID c \<and> (owed c' \<longrightarrow> owed c))
     \<and> (\<forall>c' \<in> set (db_commands db'). c_DeviceID c' = dev \<and> succeeded c' \<longrightarrow>
          c_ID c' \<in> ks \<or> (\<exists>c \<in> set (db_commands db). c_ID c = c_ID c' \<and> c_DeviceID c = dev \<and> succeeded c))"

lemma tame_refl: "tame dev ks db db"
  by (auto simp: tame_def)

lemma tame_same: "db_commands db1 = db_commands db2 \<Longrightarrow> tame dev ks db db1 \<longleftrightarrow> tame dev ks db db2"
  by (simp add: tame_def)

lemma tame_trans:
  assumes "tame dev ks db db1" "tame dev ks db1 db2"
  shows "tame dev ks db db2"
  unfolding tame_def
proof (intro conjI ballI impI)
  fix c assume "c \<in> set (db_commands db)"
  then obtain c1 where c1: "c1 \<in> set (db_commands db1)" "c_ID c1 = c_ID c" "c_DeviceID c1 = c_DeviceID c" "owed c1 \<longrightarrow> owed c"
    using assms(1) unfolding tame_def by blast
  from c1(1) assms(2) obtain c2 where "c2 \<in> set (db_commands db2)" "c_ID c2 = c_ID c1" "c_DeviceID c2 = c_DeviceID c1" "owed c2 \<longrightarrow> owed c1"
    unfolding tame_def by blast
  with c1 show "\<exists>c' \<in> set (db_commands db2). c_ID c' = c_ID c \<and> c_DeviceID c' = c_DeviceID c \<and> (owed c' \<longrightarrow> owed c)" by metis
next
  fix c' assume c': "c' \<in> set (db_commands db2)" "c_DeviceID c' = dev \<and> succeeded c'"
  show "c_ID c' \<in> ks \<or> (\<exists>c \<in> set (db_commands db). c_ID c = c_ID c' \<and> c_DeviceID c = dev \<and> succeeded c)"
  proof (cases "c_ID c' \<in> ks")
    case new: False
    then obtain c1 where c1: "c1 \<in> set (db_commands db1)" "c_ID c1 = c_ID c'" "c_DeviceID c1 = dev" "succeeded c1"
      using assms(2) c' unfolding tame_def by blast
    then show ?thesis using assms(1) new unfolding tame_def by metis
  qed simp
qed

lemma tame_update:
  assumes "\<And>c. P c \<Longrightarrow> owed c \<and> c_ID (f c) = c_ID c \<and> c_DeviceID (f c) = c_DeviceID c
      \<and> (succeeded (f c) \<longrightarrow> c_DeviceID c \<noteq> dev \<or> c_ID c \<in> ks)"
  shows "tame dev ks db (updateCommands P f db)"
  unfolding tame_def
proof (intro conjI ballI impI)
  fix c assume "c \<in> set (db_commands db)"
  then show "\<exists>c' \<in> set (db_commands (updateCommands P f db)).
      c_ID c' = c_ID c \<and> c_DeviceID c' = c_DeviceID c \<and> (owed c' \<longrightarrow> owed c)"
    using assms [of c] by (intro bexI [of _ "if P c then f c else c"]) auto
next
  fix c' assume c': "c' \<in> set (db_commands (updateCommands P f db))" "c_DeviceID c' = dev \<and> succeeded c'"
  then obtain c where c: "c \<in> set (db_commands db)" "c' = (if P c then f c else c)" by auto
  show "c_ID c' \<in> ks \<or> (\<exists>c \<in> set (db_commands db). c_ID c = c_ID c' \<and> c_DeviceID c = dev \<and> succeeded c)"
    using c c'(2) assms [of c] by (cases "P c") auto
qed

lemma tame_deliver: "tame dev ks db (snd (Deliver d now db))"
proof -
  have "tame dev ks db (ExpireCommands now db)"
    unfolding ExpireCommands_def by (rule tame_update) (auto simp: owed_def succeeded_def)
  moreover have "tame dev ks db1 (MarkCommandsDelivered ids now db1)" for ids and db1 :: "'a cmd_db"
    unfolding MarkCommandsDelivered_def by (rule tame_update) (auto simp: owed_def succeeded_def)
  ultimately show ?thesis unfolding Deliver_def Let_def snd_conv by (rule tame_trans)
qed

lemma tame_expire: "tame dev ks db (ExpireCommands now db)"
  unfolding ExpireCommands_def by (rule tame_update) (auto simp: owed_def succeeded_def)

lemma tame_start: "tame dev ks db (snd (Start d k now db))"
proof -
  have "tame dev ks db (snd (MarkCommandRunning k d now db))"
    unfolding MarkCommandRunning_def Let_def snd_conv by (rule tame_update) (auto simp: owed_def succeeded_def)
  then show ?thesis using Start_step [of d k now db] tame_refl [of dev ks db] by metis
qed

lemma tame_new: "db_commands db' = db_commands db @ [c] \<Longrightarrow> owed c \<Longrightarrow> tame dev ks db db'"
  using ended_disjoint(1) [of c] by (auto simp: tame_def succeeded_def reported_def)

lemma tame_queue: "tame dev ks db (snd (Queue C svc opts k now db))"
  using Queue_step [of C svc opts k now db] tame_refl [of dev ks db] tame_new by metis

lemma tame_insert: "c_Status c = CommandQueued \<Longrightarrow> CreateCommand c db = Inr db' \<Longrightarrow> tame dev ks db db'"
  by (rule tame_new [OF CreateCommand_new(1)]) (assumption, simp add: owed_def)

lemma tame_complete:
  "tame dev (if d = dev \<and> r_Status r = ResultSucceeded then {k} else {}) db (snd (Complete svc d k r now db))"
proof -
  let ?ks = "if d = dev \<and> r_Status r = ResultSucceeded then {k} else {}"
  have cc: "tame dev ?ks db (snd (CompleteCommand k d (r_Status r) now db))"
    unfolding CompleteCommand_def Let_def snd_conv by (rule tame_update) (auto simp: succeeded_def)
  have "snd (Complete svc d k r now db) = snd (Complete svc d k r now db)" by (rule refl)
  then show ?thesis
  proof (cases rule: Complete_cases)
    case same
    then show ?thesis by (simp add: tame_refl)
  next
    case (duplicate status)
    show ?thesis unfolding duplicate(1) CompleteCommand_none [OF duplicate(2)] by (rule tame_refl)
  next
    case (done1 hooked)
    show ?thesis unfolding done1(4) by (rule tame_same [THEN iffD2, OF _ cc]) simp
  qed
qed

section \<open>What the device knows\<close>

definition mine :: "uuid \<Rightarrow> 'x cmd_db \<Rightarrow> string \<Rightarrow> bool" where
  "mine dev db k \<longleftrightarrow> (\<exists>c \<in> set (db_commands db). c_ID c = k \<and> c_DeviceID c = dev)"

definition ended :: "uuid \<Rightarrow> 'x cmd_db \<Rightarrow> string \<Rightarrow> bool" where
  "ended dev db k \<longleftrightarrow> (\<exists>c \<in> set (db_commands db). c_ID c = k \<and> c_DeviceID c = dev \<and> \<not> owed c)"

fun outcome :: "worker \<Rightarrow> (string \<times> CommandResult) set" where
  "outcome (Ran c r) = {(w_ID c, r)}"
| "outcome _ = {}"

fun in_run :: "worker \<Rightarrow> string set" where
  "in_run (Running c) = {w_ID c}"
| "in_run (Ran c r) = {w_ID c}"
| "in_run _ = {}"

fun stored_id :: "worker \<Rightarrow> string set" where
  "stored_id (Stored c) = {w_ID c}"
| "stored_id _ = {}"

definition outcomes :: "agent_session \<Rightarrow> (string \<times> CommandResult) set" where
  "outcomes a = set (a_results a) \<union> (case a_flush a of None \<Rightarrow> {} | Some rs \<Rightarrow> set rs) \<union> outcome (a_worker a)"

definition tracked :: "agent_session \<Rightarrow> string set" where
  "tracked a = fst ` set (a_ledger a) \<union> fst ` outcomes a \<union> w_ID ` set (a_work a) \<union> set (worker_ids (a_worker a))"

definition completed_ids :: "agent_session \<Rightarrow> string set" where
  "completed_ids a = {k. LedgerState k a = Some LedgerCompleted} \<union> stored_id (a_worker a)"

definition honest :: "string list \<Rightarrow> string \<times> CommandResult \<Rightarrow> bool" where
  "honest runs x \<longleftrightarrow> resultStatus (r_Status (snd x)) \<and> (r_Status (snd x) = ResultSucceeded \<longrightarrow> fst x \<in> set runs)"

text \<open>The agent tracks only commands of its device, its results are honest, the server's successes are
  real, and what is completed has its result waiting or has ended.\<close>

definition sound :: "uuid \<Rightarrow> 'x cmd_db \<Rightarrow> agent_session \<Rightarrow> bool" where
  "sound dev db a \<longleftrightarrow> (\<forall>k \<in> tracked a. mine dev db k)
     \<and> (\<forall>x \<in> outcomes a. honest (a_runs a) x)
     \<and> in_run (a_worker a) \<subseteq> set (a_runs a)
     \<and> (\<forall>c \<in> set (db_commands db). c_DeviceID c = dev \<and> succeeded c \<longrightarrow> c_ID c \<in> set (a_runs a))
     \<and> (\<forall>k \<in> completed_ids a. k \<in> fst ` set (a_results a) \<or> ended dev db k)"

lemma tame_mine: "tame dev ks db db' \<Longrightarrow> mine dev db k \<Longrightarrow> mine dev db' k"
  unfolding tame_def mine_def by metis

lemma tame_ended: "tame dev ks db db' \<Longrightarrow> ended dev db k \<Longrightarrow> ended dev db' k"
  unfolding tame_def ended_def by metis

lemma sound_tame:
  assumes "sound dev db a" "tame dev ks db db'" "ks \<subseteq> set (a_runs a)"
  shows "sound dev db' a"
proof -
  have "c_ID c' \<in> set (a_runs a)" if new: "c' \<in> set (db_commands db')" "c_DeviceID c' = dev" "succeeded c'" for c'
  proof (cases "c_ID c' \<in> ks")
    case False
    then obtain c where "c \<in> set (db_commands db)" "c_ID c = c_ID c'" "c_DeviceID c = dev" "succeeded c"
      using assms(2) new unfolding tame_def by blast
    then show ?thesis using assms(1) unfolding sound_def by metis
  qed (use assms(3) in blast)
  moreover have "\<forall>k \<in> tracked a. mine dev db' k" using assms(1) tame_mine [OF assms(2)] unfolding sound_def by blast
  moreover have "\<forall>k \<in> completed_ids a. k \<in> fst ` set (a_results a) \<or> ended dev db' k"
    using assms(1) tame_ended [OF assms(2)] unfolding sound_def by blast
  ultimately show ?thesis using assms(1) unfolding sound_def by blast
qed

text \<open>A step of the agent that tracks nothing new, runs nothing, and keeps what is queued.\<close>

lemma sound_mono:
  assumes "sound dev db a" "tracked a' \<subseteq> tracked a \<union> K" "\<forall>k \<in> K. mine dev db k"
    "\<forall>x \<in> outcomes a'. x \<in> outcomes a \<or> honest (a_runs a') x" "set (a_runs a) \<subseteq> set (a_runs a')"
    "in_run (a_worker a') \<subseteq> set (a_runs a')"
    "\<forall>k \<in> completed_ids a'. k \<in> fst ` set (a_results a') \<or> k \<in> completed_ids a \<and> (k \<in> fst ` set (a_results a) \<longrightarrow> ended dev db k)"
  shows "sound dev db a'"
proof -
  have "honest (a_runs a') x" if "honest (a_runs a) x" for x
    using that assms(5) unfolding honest_def by blast
  then have "\<forall>x \<in> outcomes a'. honest (a_runs a') x" using assms(1,4) unfolding sound_def by blast
  moreover have "\<forall>k \<in> completed_ids a'. k \<in> fst ` set (a_results a') \<or> ended dev db k"
    using assms(1,7) unfolding sound_def by blast
  moreover have "\<forall>c \<in> set (db_commands db). c_DeviceID c = dev \<and> succeeded c \<longrightarrow> c_ID c \<in> set (a_runs a')"
    using assms(1,5) unfolding sound_def by blast
  moreover have "\<forall>k \<in> tracked a'. mine dev db k" using assms(1,2,3) unfolding sound_def by blast
  ultimately show ?thesis using assms(6) unfolding sound_def by blast
qed

lemma update_set: "set (AList.update k v al) \<subseteq> insert (k, v) (set al)"
  by (induction al) auto

lemma LedgerState_update:
  "a_ledger a' = AList.update k v (a_ledger a) \<Longrightarrow> LedgerState j a' = (if j = k then Some (le_State v) else LedgerState j a)"
  by (simp add: LedgerState_def update_conv')

lemma LedgerState_same: "a_ledger a' = a_ledger a \<Longrightarrow> LedgerState j a' = LedgerState j a"
  by (simp add: LedgerState_def)

lemma sound_QueueResult:
  assumes "sound dev db a" "k \<in> tracked a" "honest (a_runs a) (k, r)"
  shows "sound dev db (QueueResult k r a)"
proof (rule sound_mono [OF assms(1), of _ "{k}"])
  have out: "outcomes (QueueResult k r a) \<subseteq> insert (k, r) (outcomes a)"
    using update_set [of k r "a_results a"] by (auto simp: outcomes_def QueueResult_def)
  then have "fst ` outcomes (QueueResult k r a) \<subseteq> insert k (fst ` outcomes a)" by fastforce
  then show "tracked (QueueResult k r a) \<subseteq> tracked a \<union> {k}" unfolding tracked_def by (auto simp: QueueResult_def)
  show "\<forall>x \<in> outcomes (QueueResult k r a). x \<in> outcomes a \<or> honest (a_runs (QueueResult k r a)) x"
    using out assms(3) by (auto simp: QueueResult_def)
  show "\<forall>j \<in> {k}. mine dev db j" using assms(1,2) unfolding sound_def by blast
  show "in_run (a_worker (QueueResult k r a)) \<subseteq> set (a_runs (QueueResult k r a))"
    using assms(1) by (simp add: sound_def QueueResult_def)
  show "\<forall>j \<in> completed_ids (QueueResult k r a). j \<in> fst ` set (a_results (QueueResult k r a))
      \<or> j \<in> completed_ids a \<and> (j \<in> fst ` set (a_results a) \<longrightarrow> ended dev db j)"
    by (simp add: completed_ids_def LedgerState_def QueueResult_def dom_update)
qed (simp add: QueueResult_def)

lemma sound_MarkCompleted:
  assumes "sound dev db a" "k \<in> fst ` set (a_results a)"
  shows "sound dev db (MarkCompleted k now a)"
proof (rule sound_mono [OF assms(1), of _ "{}"])
  have led: "a_ledger (MarkCompleted k now a) = AList.update k \<lparr>le_State = LedgerCompleted, le_At = now\<rparr> (a_ledger a)"
    by (simp add: MarkCompleted_def)
  have "k \<in> fst ` outcomes a" using assms(2) by (auto simp: outcomes_def)
  then show "tracked (MarkCompleted k now a) \<subseteq> tracked a \<union> {}"
    unfolding tracked_def led dom_update by (auto simp: MarkCompleted_def outcomes_def)
  show "\<forall>j \<in> completed_ids (MarkCompleted k now a). j \<in> fst ` set (a_results (MarkCompleted k now a))
      \<or> j \<in> completed_ids a \<and> (j \<in> fst ` set (a_results a) \<longrightarrow> ended dev db j)"
  proof
    fix j assume "j \<in> completed_ids (MarkCompleted k now a)"
    then have "j = k \<or> j \<in> completed_ids a"
      unfolding completed_ids_def LedgerState_update [OF led] by (auto simp: MarkCompleted_def)
    then show "j \<in> fst ` set (a_results (MarkCompleted k now a))
        \<or> j \<in> completed_ids a \<and> (j \<in> fst ` set (a_results a) \<longrightarrow> ended dev db j)"
      using assms(2) by (auto simp: MarkCompleted_def)
  qed
  show "in_run (a_worker (MarkCompleted k now a)) \<subseteq> set (a_runs (MarkCompleted k now a))"
    using assms(1) by (simp add: sound_def MarkCompleted_def)
qed (simp_all add: MarkCompleted_def outcomes_def)

lemma sound_finish:
  assumes "sound dev db a" "k \<in> tracked a" "honest (a_runs a) (k, r)"
  shows "sound dev db (finish F now k r a)"
proof -
  have q: "sound dev db (QueueResult k r a)" by (rule sound_QueueResult [OF assms])
  have "sound dev db (MarkCompleted k now (QueueResult k r a))"
    by (rule sound_MarkCompleted [OF q]) (simp add: QueueResult_def dom_update)
  with q assms(1) show ?thesis by (simp add: finish_def)
qed

lemma sound_restart:
  assumes "sound dev db a" "orderly a"
  shows "sound dev db (restart_agent now a)"
proof -
  define a' where "a' = restart_agent now a"
  have f: "set (a_ledger a') \<subseteq> set (a_ledger a)" "a_results a' = a_results a" "a_flush a' = None" "a_work a' = []"
    "a_worker a' = Idle" "a_runs a' = a_runs a"
    by (auto simp: a'_def restart_agent_def PruneLedger_def)
  have "LedgerState k a = Some LedgerCompleted" if "LedgerState k a' = Some LedgerCompleted" for k
  proof -
    from that obtain e where "(k, e) \<in> set (a_ledger a')" "le_State e = LedgerCompleted"
      by (auto simp: LedgerState_def dest: map_of_SomeD)
    then have "map_of (a_ledger a) k = Some e" using f(1) orderlyD(1) [OF assms(2)] by (auto intro: map_of_is_SomeI)
    then show ?thesis using \<open>le_State e = LedgerCompleted\<close> by (simp add: LedgerState_def)
  qed
  then show ?thesis
    unfolding a'_def [symmetric]
    by (intro sound_mono [OF assms(1), of _ "{}"])
       (use f in \<open>auto simp: tracked_def outcomes_def completed_ids_def\<close>)
qed

lemma sound_local:
  assumes "agent_step a act a'" "act = Local" "sound dev db a" "orderly a"
  shows "sound dev db a'"
  using assms
proof (induction rule: agent_step.induct)
  case (take_up s cmd cmds)
  then show ?case
    by (intro sound_mono [OF take_up(4), of _ "{}"])
       (auto simp: sound_def tracked_def outcomes_def completed_ids_def LedgerState_def)
next
  case (mark s cmd now)
  define s' where "s' = (snd (MarkStarted (w_ID cmd) now s))\<lparr>a_worker := Marked cmd\<rparr>"
  have "\<not> known s (w_ID cmd)" using mark by (simp add: orderly_def waiting_def)
  then have led: "a_ledger s' = AList.update (w_ID cmd) \<lparr>le_State = LedgerStarted, le_At = now\<rparr> (a_ledger s)"
    and f: "a_results s' = a_results s" "a_flush s' = a_flush s" "a_work s' = a_work s" "a_worker s' = Marked cmd" "a_runs s' = a_runs s"
    by (simp_all add: s'_def MarkStarted_def known_def)
  show ?case unfolding s'_def [symmetric]
    by (intro sound_mono [OF mark(3), of _ "{}"])
       (use f led LedgerState_update [OF led] mark(1) in
         \<open>auto simp: tracked_def outcomes_def completed_ids_def dom_update split: if_splits\<close>)
next
  case (mark_fails s cmd)
  then show ?case
    by (intro sound_mono [OF mark_fails(3), of _ "{}"])
       (auto simp: sound_def tracked_def outcomes_def completed_ids_def LedgerState_def release_def)
next
  case (begin_run s cmd)
  then show ?case
    by (intro sound_mono [OF begin_run(3), of _ "{}"])
       (auto simp: sound_def tracked_def outcomes_def completed_ids_def LedgerState_def)
next
  case (end_run s cmd r)
  then show ?case
    by (intro sound_mono [OF end_run(4), of _ "{}"])
       (auto simp: sound_def tracked_def outcomes_def completed_ids_def LedgerState_def honest_def)
next
  case (store s cmd r)
  then show ?case
    by (intro sound_mono [OF store(3), of _ "{}"])
       (use update_set [of "w_ID cmd" r "a_results s"] in
         \<open>auto simp: sound_def tracked_def outcomes_def completed_ids_def LedgerState_def QueueResult_def dom_update\<close>)
next
  case (store_fails s cmd r)
  then show ?case
    by (intro sound_mono [OF store_fails(3), of _ "{}"])
       (auto simp: sound_def tracked_def outcomes_def completed_ids_def LedgerState_def)
next
  case (complete s cmd now)
  define s' where "s' = (MarkCompleted (w_ID cmd) now s)\<lparr>a_worker := Finished cmd\<rparr>"
  have led: "a_ledger s' = AList.update (w_ID cmd) \<lparr>le_State = LedgerCompleted, le_At = now\<rparr> (a_ledger s)"
    and f: "a_results s' = a_results s" "a_flush s' = a_flush s" "a_work s' = a_work s" "a_worker s' = Finished cmd" "a_runs s' = a_runs s"
    by (simp_all add: s'_def MarkCompleted_def)
  show ?case unfolding s'_def [symmetric]
    by (intro sound_mono [OF complete(3), of _ "{}"])
       (use f led LedgerState_update [OF led] complete(1) in
         \<open>auto simp: tracked_def outcomes_def completed_ids_def dom_update split: if_splits\<close>)
next
  case (complete_fails s cmd)
  then show ?case
    by (intro sound_mono [OF complete_fails(3), of _ "{}"])
       (auto simp: sound_def tracked_def outcomes_def completed_ids_def LedgerState_def)
next
  case (done_run s cmd)
  then show ?case
    by (intro sound_mono [OF done_run(3), of _ "{}"])
       (auto simp: sound_def tracked_def outcomes_def completed_ids_def LedgerState_def release_def)
next
  case (flush s)
  then show ?case
    by (intro sound_mono [OF flush(3), of _ "{}"])
       (auto simp: sound_def tracked_def outcomes_def completed_ids_def LedgerState_def PendingResults_def)
next
  case (flush_done s)
  then show ?case
    by (intro sound_mono [OF flush_done(3), of _ "{}"])
       (auto simp: sound_def tracked_def outcomes_def completed_ids_def LedgerState_def)
next
  case (stop s now)
  then show ?case by (intro sound_restart)
qed simp_all

lemma honest_interrupted: "honest runs (k, interrupted now)"
  by (simp add: honest_def interrupted_def resultStatus_def)

lemma sound_offer:
  assumes "sound dev db a" "mine dev db (w_ID cmd)"
  shows "sound dev db (enqueue F now cmd a)"
proof (cases rule: enqueue_cases [of F now cmd a, case_names seen started fresh])
  case started
  have "w_ID cmd \<in> tracked a"
    using started(1) by (force simp: LedgerState_def tracked_def dest: map_of_SomeD)
  with started assms(1) show ?thesis by (simp add: sound_finish honest_interrupted)
next
  case fresh
  show ?thesis unfolding fresh(3)
    by (rule sound_mono [OF assms(1), of _ "{w_ID cmd}"])
       (use assms in \<open>auto simp: sound_def tracked_def outcomes_def completed_ids_def LedgerState_def\<close>)
qed (use assms in simp)

text \<open>A result of one of the device's own commands is taken in, and ends the command, unless the
  transaction fails; it is never rejected.\<close>

lemma completed_ended:
  assumes "mine dev db k" "resultStatus (r_Status r)" "fst (CompleteCommand k dev (r_Status r) now db)"
    "db_commands db' = db_commands (snd (CompleteCommand k dev (r_Status r) now db))"
  shows "ended dev db' k"
proof -
  from assms(3) obtain c where c: "c \<in> set (db_commands db)" "c_ID c = k" "c_DeviceID c = dev" "owed c"
    by (auto simp: CompleteCommand_sel)
  then have "c\<lparr>c_Status := r_Status r, c_CompletedAt := Some now\<rparr> \<in> set (db_commands db')"
    unfolding assms(4) CompleteCommand_sel by force
  moreover have "\<not> owed (c\<lparr>c_Status := r_Status r, c_CompletedAt := Some now\<rparr>)"
    using assms(2) by (auto simp: owed_def resultStatus_def)
  ultimately show ?thesis using c(2,3) unfolding ended_def by (intro bexI) auto
qed

lemma Complete_answers:
  assumes "well_kept db" "mine dev db k" "resultStatus (r_Status r)"
  shows "fst (Complete svc dev k r now db) = None \<and> ended dev (snd (Complete svc dev k r now db)) k
    \<or> (\<exists>e. fst (Complete svc dev k r now db) = Some (TxFailed e))"
proof -
  obtain ok db1 where cc: "CompleteCommand k dev (r_Status r) now db = (ok, db1)" by (metis prod.exhaust)
  obtain c where c: "GetCommand k db = Some c" "c \<in> set (db_commands db)" "c_ID c = k" "c_DeviceID c = dev"
    using assms(2) GetCommand_unique [OF assms(1), of k] unfolding mine_def by blast
  show ?thesis
  proof (cases ok)
    case False
    then have db1: "db1 = db" using CompleteCommand_none [of k dev "r_Status r" now db] cc by simp
    have "\<not> owed c" using cc False c CompleteCommand_sel(3) [of k dev "r_Status r" now db] by auto
    then have "ended dev db k" using c unfolding ended_def by blast
    then show ?thesis using cc False c db1 assms(3) by (simp add: Complete_def)
  next
    case True
    define stored where "stored = bindE (InsertCommandResult (storedResult k r) db1) (runOnComplete svc k (r_Status r) now)"
    have run: "Complete svc dev k r now db = (case stored of Inl e \<Rightarrow> (Some e, db) | Inr db2 \<Rightarrow> (None, db2))"
      using cc True assms(3) by (simp add: Complete_def stored_def)
    show ?thesis
    proof (cases stored)
      case (Inl e)
      then obtain t where "e = TxFailed t"
        by (auto simp: stored_def bindE_eq_Inl InsertCommandResult_def runOnComplete_def split: if_splits option.splits sum.splits)
      then show ?thesis using run Inl by simp
    next
      case (Inr db2)
      then obtain d where "InsertCommandResult (storedResult k r) db1 = Inr d" "runOnComplete svc k (r_Status r) now d = Inr db2"
        by (auto simp: stored_def bindE_eq_Inr)
      then have "db_commands db2 = db_commands db1"
        using runOnComplete_frame [of svc k "r_Status r" now d db2] by (auto simp: InsertCommandResult_def split: if_splits)
      then have "ended dev db2 k" using completed_ended [OF assms(2,3), of now db2] cc True by simp
      then show ?thesis using run Inr by simp
    qed
  qed
qed

lemma submit_cases:
  assumes "agent_step a (Submit k r ans) a'"
  obtains (gone) rest where "a_flush a = Some ((k, r) # rest)" "ans \<noteq> NoAnswer" "a' = (DeleteResult k a)\<lparr>a_flush := Some rest\<rparr>"
  | (kept) rest where "a_flush a = Some ((k, r) # rest)" "a' = a\<lparr>a_flush := None\<rparr>"
  using assms by (elim submit_stepE) blast+

lemma sound_submit:
  assumes "sound dev db a" "agent_step a (Submit k r ans) a'" "ended dev db k \<or> ans = NoAnswer"
  shows "sound dev db a'"
  using assms(2)
proof (cases rule: submit_cases)
  case (gone rest)
  then have e: "ended dev db k" using assms(3) by blast
  have keep: "j \<in> fst ` set (AList.delete k (a_results a)) \<or> j = k" if "j \<in> fst ` set (a_results a)" for j
    using that by (auto simp: AList.delete_eq image_iff)
  have sub: "set (AList.delete k (a_results a)) \<subseteq> set (a_results a)" by (auto simp: AList.delete_eq)
  have ids: "completed_ids a' = completed_ids a" by (simp add: gone completed_ids_def LedgerState_def DeleteResult_def)
  have out: "outcomes a' \<subseteq> outcomes a" using sub gone by (auto simp: outcomes_def DeleteResult_def)
  show ?thesis
  proof (rule sound_mono [OF assms(1), of _ "{}"])
    show "tracked a' \<subseteq> tracked a \<union> {}" using image_mono [OF out, of fst] gone by (auto simp: tracked_def DeleteResult_def)
    show "\<forall>x \<in> outcomes a'. x \<in> outcomes a \<or> honest (a_runs a') x" using out by blast
    show "in_run (a_worker a') \<subseteq> set (a_runs a')" using assms(1) by (simp add: gone DeleteResult_def sound_def)
    show "\<forall>j \<in> completed_ids a'. j \<in> fst ` set (a_results a') \<or> j \<in> completed_ids a \<and> (j \<in> fst ` set (a_results a) \<longrightarrow> ended dev db j)"
      using keep e ids by (auto simp: gone DeleteResult_def)
  qed (simp_all add: gone DeleteResult_def)
next
  case (kept rest)
  show ?thesis unfolding kept(2)
    by (rule sound_mono [OF assms(1), of _ "{}"])
       (use assms(1) in \<open>auto simp: sound_def tracked_def outcomes_def completed_ids_def LedgerState_def\<close>)
qed

section \<open>The system\<close>

lemma Queue_rest: "db_rest (snd (Queue C svc opts k now db)) = db_rest db"
  by (auto simp: Queue_def queue_def CreateCommand_def Let_def split: sum.split option.split)

definition good :: "uuid \<Rightarrow> 'x cmd_db \<times> agent_session \<Rightarrow> bool" where
  "good dev x \<longleftrightarrow> well_kept (fst x) \<and> orderly (snd x) \<and> sound dev (fst x) (snd x)"

lemma flush_known:
  assumes "sound dev db a" "agent_step a (Submit k r ans) a'"
  shows "mine dev db k \<and> honest (a_runs a) (k, r)"
proof -
  have "(k, r) \<in> outcomes a" using assms(2) by (elim submit_cases) (auto simp: outcomes_def)
  moreover from this have "k \<in> tracked a" unfolding tracked_def by (metis UnCI fst_conv imageI)
  ultimately show ?thesis using assms(1) unfolding sound_def by blast
qed

lemma sound_complete:
  assumes "sound dev db a" "honest (a_runs a) (k, r)"
  shows "sound dev (snd (Complete svc dev k r now db)) a"
  by (rule sound_tame [OF assms(1) tame_complete]) (use assms(2) in \<open>auto simp: honest_def\<close>)

lemma good_server:
  assumes "good dev (db, a)" "queue_step C svc db db'" "tame dev {} db db'"
  shows "good dev (db', a)"
  using assms well_kept_step [OF assms(2)] sound_tame [OF _ assms(3)] by (simp add: good_def)

lemma good_step:
  assumes "system_step C svc dev x y" "good dev x"
  shows "good dev y"
  using assms
proof (induction rule: system_step.induct)
  case (sys_queue db a opts k now)
  then show ?case by (rule good_server) (rule queue_step.queued, rule tame_queue)
next
  case (sys_deliver db a d now)
  then show ?case by (rule good_server) (rule queue_step.delivered, rule tame_deliver)
next
  case (sys_start db a d k now)
  then show ?case by (rule good_server) (rule queue_step.started, rule tame_start)
next
  case (sys_other d db a k r now)
  have "tame dev {} db (snd (Complete svc d k r now db))" using tame_complete [of dev d r k db svc now] sys_other(1) by simp
  with sys_other(2) show ?case by (intro good_server [OF _ queue_step.completed])
next
  case (sys_expire db a now)
  then show ?case by (rule good_server) (rule queue_step.expired, rule tame_expire)
next
  case (sys_insert c db db' a)
  then show ?case by (intro good_server [OF sys_insert(3) queue_step.inserted tame_insert])
next
  case (sys_hosts db a hosts x)
  show ?case
    by (rule good_server [OF sys_hosts queue_step.others]) (simp add: tame_def, metis)
next
  case (sys_agent a a' db)
  then show ?case using sound_local [OF sys_agent(1) refl, of dev db] orderly_step [OF sys_agent(1)] by (simp add: good_def)
next
  case (sys_offer c db a a')
  have "mine dev db (w_ID (wire c))" using sys_offer(1,2) by (auto simp: mine_def wire_def)
  moreover obtain F now where "a' = enqueue F now (wire c) a" using sys_offer(3) by (elim offer_stepE) blast
  ultimately show ?case using sys_offer(4) orderly_step [OF sys_offer(3)] sound_offer [of dev db a "wire c" F now] by (simp add: good_def)
next
  case (sys_submit a k r now db a')
  note inv = sys_submit(2) [unfolded good_def fst_conv snd_conv]
  have h: "mine dev db k" "honest (a_runs a) (k, r)" using flush_known [OF _ sys_submit(1)] inv by blast+
  define db' where "db' = snd (Complete svc dev k r now db)"
  have "fst (Complete svc dev k r now db) = None \<and> ended dev db' k \<or> (\<exists>e. fst (Complete svc dev k r now db) = Some (TxFailed e))"
    unfolding db'_def using inv h by (intro Complete_answers) (simp_all add: honest_def)
  then have "ended dev db' k \<or> answerOf (fst (Complete svc dev k r now db)) = NoAnswer" by (auto simp: answerOf_def)
  moreover have "sound dev db' a" unfolding db'_def using sound_complete inv h(2) by blast
  ultimately have "sound dev db' a'" using sound_submit [OF _ sys_submit(1), of dev db'] by blast
  then show ?case using inv well_kept_step [OF queue_step.completed, of db] orderly_step [OF sys_submit(1)]
    by (simp add: good_def db'_def)
next
  case (sys_lost a k r a' db)
  then show ?case using sound_submit [OF _ sys_lost(1), of dev db] orderly_step [OF sys_lost(1)] by (simp add: good_def)
next
  case (sys_answer_lost a k r a' db now)
  note inv = sys_answer_lost(2) [unfolded good_def fst_conv snd_conv]
  have "honest (a_runs a) (k, r)" using flush_known [OF _ sys_answer_lost(1)] inv by blast
  then have "sound dev (snd (Complete svc dev k r now db)) a" using sound_complete inv by blast
  then show ?case
    using inv sound_submit [OF _ sys_answer_lost(1), of dev "snd (Complete svc dev k r now db)"] well_kept_step [OF queue_step.completed, of db] orderly_step [OF sys_answer_lost(1)]
    by (simp add: good_def)
qed

text \<open>A server whose queue is empty and an agent that has just been installed.\<close>

definition fresh_system :: "'x cmd_db \<times> agent_session \<Rightarrow> bool" where
  "fresh_system x \<longleftrightarrow> db_commands (fst x) = [] \<and> db_results (fst x) = [] \<and> snd x = new_agent"

interpretation fleet: state_machine "system_step C svc dev" fresh_system "good dev" for C svc dev
proof unfold_locales
  show "good dev x" if "fresh_system x" for dev and x :: "'a cmd_db \<times> agent_session"
    using that orderly_new by (auto simp: fresh_system_def good_def well_kept_def sound_def tracked_def outcomes_def completed_ids_def
        new_agent_def LedgerState_def)
qed (blast intro: good_step)

section \<open>With retention\<close>

lemma answered_alike:
  assumes "agent_step a (Submit k r ans) a'" "ans \<noteq> NoAnswer" "ans' \<noteq> NoAnswer"
  shows "agent_step a (Submit k r ans') a'"
  using assms(1)
proof (cases rule: submit_cases)
  case (gone rest)
  then show ?thesis using agent_step.submit [OF gone(1) assms(3)] by simp
next
  case (kept rest)
  then show ?thesis using agent_step.submit_kept [OF kept(1)] by simp
qed

lemma submit_without:
  assumes "agent_step a (Submit k r (answerOf (fst (Complete svc dev k r now (without gone db))))) a'" "past gone db" "well_kept db"
  shows "agent_step a (Submit k r (answerOf (fst (Complete svc dev k r now db)))) a'"
proof (cases "k \<in> c_ID ` set gone")
  case True
  then have "answerOf (fst (Complete svc dev k r now (without gone db))) \<noteq> NoAnswer" "answerOf (fst (Complete svc dev k r now db)) \<noteq> NoAnswer"
    using Complete_gone(3,4) [OF True assms(2,3), of svc dev r now] by (auto simp: answerOf_def split: option.split)
  then show ?thesis using answered_alike [OF assms(1)] by blast
next
  case False
  then show ?thesis using assms(1) Complete_without [OF False, of svc dev r now db] by simp
qed

text \<open>A step on what retention has left is a step on the whole database, or none. What it does to the rest of the
  database is said too: nothing, unless a command is completed or no command changes.\<close>

lemma system_follows:
  assumes "system_step C svc dev (without gone whole, a) (db', a')" "well_kept whole" "past gone whole" "unused gone db'"
  shows "\<exists>whole'. db' = without gone whole' \<and> past gone whole'
    \<and> (system_step C svc dev (whole, a) (whole', a') \<or> (whole', a') = (whole, a))
    \<and> (db_rest whole' = db_rest whole \<or> (\<exists>d k r now. whole' = snd (Complete svc d k r now whole))
       \<or> db_commands db' = db_commands (without gone whole))"
proof -
  have done_by: "?thesis" if "db' = without gone whole'" "past gone whole'"
      "system_step C svc dev (whole, a) (whole', a') \<or> (whole', a') = (whole, a)"
      "db_rest whole' = db_rest whole \<or> (\<exists>d k r now. whole' = snd (Complete svc d k r now whole))
         \<or> db_commands db' = db_commands (without gone whole)" for whole'
    using that by blast
  have complete: "?thesis" if "db' = snd (Complete svc d k r now (without gone whole))"
      "system_step C svc dev (whole, a) (snd (Complete svc d k r now whole), a')" for d k r now
  proof (rule done_by)
    show "db' = without gone (snd (Complete svc d k r now whole))" using that(1) Complete_snd_without [OF assms(3,2)] by simp
    show "past gone (snd (Complete svc d k r now whole))" by (rule Complete_past [OF assms(3)])
  qed (use that(2) in \<open>rule disjI1\<close>, intro disjI2 disjI1 exI, rule refl)
  from assms(1) show ?thesis
  proof cases
    case (sys_queue opts k now)
    show ?thesis
    proof (cases "k \<in> c_ID ` set gone")
      case True
      then have "db' = without gone whole" using Queue_used [OF True] assms(4) sys_queue(1) by simp
      then show ?thesis using assms(3) sys_queue(2) by (intro done_by [of whole]) simp_all
    next
      case False
      have "set (db_commands whole) \<subseteq> set (db_commands (snd (Queue C svc opts k now whole)))"
        using Queue_step [of C svc opts k now whole] by auto
      moreover have "db_rest (snd (Queue C svc opts k now whole)) = db_rest whole"
        by (rule Queue_rest)
      ultimately show ?thesis
        using Queue_without [OF False, of C svc opts now whole] sys_queue past_same [OF _ assms(3)]
        by (intro done_by [of "snd (Queue C svc opts k now whole)"]) (simp_all add: system_step.sys_queue)
    qed
  next
    case (sys_deliver d now)
    have "db_rest (snd (Deliver d now whole)) = db_rest whole"
      by (simp add: Deliver_def Let_def MarkCommandsDelivered_def ExpireCommands_def updateCommands_def)
    then show ?thesis using sys_deliver Deliver_without [OF assms(3,2)]
      by (intro done_by [of "snd (Deliver d now whole)"]) (simp_all add: system_step.sys_deliver)
  next
    case (sys_start d k now)
    have "db_rest (snd (Start d k now whole)) = db_rest whole"
      by (simp add: Start_snd MarkCommandRunning_def Let_def updateCommands_def)
    then show ?thesis using sys_start Start_without(1) [of d k now gone whole] Start_without(2) [OF assms(3)]
      by (intro done_by [of "snd (Start d k now whole)"]) (simp_all add: system_step.sys_start)
  next
    case (sys_other d k r now)
    show ?thesis unfolding sys_other(2) by (rule complete [OF sys_other(1), unfolded sys_other(2)]) (rule system_step.sys_other [OF sys_other(3)])
  next
    case (sys_expire now)
    have "db_rest (ExpireCommands now whole) = db_rest whole" by (simp add: ExpireCommands_def updateCommands_def)
    then show ?thesis using sys_expire expire_without [of now gone whole] quiet_expire(1) [OF assms(3)]
      by (intro done_by [of "ExpireCommands now whole"]) (simp_all add: system_step.sys_expire)
  next
    case (sys_insert c)
    have "c_ID c \<notin> c_ID ` set gone" using CreateCommand_new(1) [OF sys_insert(3)] assms(4) by (simp add: unused_def)
    from CreateCommand_without [OF this sys_insert(3)] obtain whole' where
      w: "CreateCommand c whole = Inr whole'" "db' = without gone whole'" by blast
    have "past gone whole'" by (rule past_same [OF _ assms(3)]) (use CreateCommand_new(1) [OF w(1)] in auto)
    moreover have "db_rest whole' = db_rest whole" using w(1) by (auto simp: CreateCommand_def split: if_splits)
    ultimately show ?thesis using w system_step.sys_insert [OF sys_insert(2) w(1)] sys_insert(1) by (intro done_by [of whole']) auto
  next
    case (sys_hosts x hosts)
    then show ?thesis using assms(3) system_step.sys_hosts
      by (intro done_by [of "whole\<lparr>db_hosts := hosts, db_rest := x\<rparr>"]) (auto simp: without_upd past_def)
  next
    case sys_agent
    then show ?thesis using assms(3) system_step.sys_agent by (intro done_by [of whole]) auto
  next
    case (sys_offer c)
    then show ?thesis using assms(3) system_step.sys_offer [of c whole dev a a'] by (intro done_by [of whole]) auto
  next
    case (sys_submit k r now)
    show ?thesis
      by (rule complete [OF sys_submit(1)]) (rule system_step.sys_submit [OF submit_without [OF sys_submit(2) assms(3,2)]])
  next
    case (sys_lost k r)
    then show ?thesis using assms(3) system_step.sys_lost by (intro done_by [of whole]) auto
  next
    case (sys_answer_lost k r now)
    show ?thesis by (rule complete [OF sys_answer_lost(1)]) (rule system_step.sys_answer_lost [OF sys_answer_lost(2)])
  qed
qed

interpretation kept_fleet: retained_system "system_step C svc dev" fresh_system "good dev" for C svc dev
proof unfold_locales
  fix whole s gone db' s'
  assume "good dev (whole, s)" "past gone whole" "system_step C svc dev (without gone whole, s) (db', s')" "unused gone db'"
  then show "\<exists>whole'. db' = without gone whole' \<and> past gone whole' \<and> (system_step C svc dev (whole, s) (whole', s') \<or> (whole', s') = (whole, s))"
    using system_follows [of C svc dev gone whole s db' s'] by (auto simp: good_def)
qed

text \<open>Every state reached with retention is what is left of a good one.\<close>

lemma retained_reached:
  assumes "(with_retention (system_step C svc dev))\<^sup>*\<^sup>* (db0, a0, []) (db, a, gone)" "fresh_system (db0, a0)"
  obtains whole where "db = without gone whole" "past gone whole" "good dev (whole, a)"
  using kept_fleet.traced [OF assms(1) refl assms(2)] fleet.reached [OF _ assms(2)] by blast

text \<open>
  C6. A success on the console is real, and happened once: in every state the queue and the device can
  reach, whatever is lost, repeated or interrupted on the way, and whatever finished commands
  retention has removed, a command of the device that the server shows as succeeded was run by the
  device, and only once unless its ledger entry was dropped after thirty days. (No new command
  carries the identifier of a removed one.)
\<close>

theorem success_is_real:
  assumes "(with_retention (system_step C svc dev))\<^sup>*\<^sup>* (db0, a0, []) (db, a, gone)" "fresh_system (db0, a0)"
    "GetCommand k db = Some c" "c_DeviceID c = dev" "c_Status c = CommandSucceeded"
  shows "1 \<le> count_list (a_runs a) k \<and> count_list (a_runs a) k \<le> 1 + count_list (a_pruned a) k"
proof -
  obtain whole where w: "db = without gone whole" and g: "good dev (whole, a)" using retained_reached [OF assms(1,2)] by blast
  have "c \<in> set (db_commands whole)" "c_ID c = k" using assms(3) w by (auto simp: GetCommand_def dest!: find_SomeD)
  then have "k \<in> set (a_runs a)" using g assms(4,5) by (auto simp: good_def sound_def succeeded_def)
  then have "1 \<le> count_list (a_runs a) k" by (rule count_filter_map)
  moreover have "count_list (a_runs a) k \<le> 1 + count_list (a_pruned a) k"
    using orderlyD(5) [of a, THEN spec, of k] g by (simp add: good_def split: if_splits)
  ultimately show ?thesis by blast
qed

text \<open>
  C20. No result is lost: when the device has a command down as completed, its result is still in the
  device's queue of results, or the server has the command as ended, or the server had it as ended and
  retention has since removed it. Results leave the device's queue only once the server is done with
  the command. (No new command carries the identifier of a removed one.)
\<close>

theorem no_result_lost:
  assumes "(with_retention (system_step C svc dev))\<^sup>*\<^sup>* (db0, a0, []) (db, a, gone)" "fresh_system (db0, a0)"
    "LedgerState k a = Some LedgerCompleted"
  shows "k \<in> fst ` set (a_results a) \<or> (\<exists>c. GetCommand k db = Some c \<and> c_DeviceID c = dev \<and> \<not> owed c)
    \<or> (\<exists>c \<in> set gone. c_ID c = k \<and> c_DeviceID c = dev \<and> \<not> owed c)"
proof -
  obtain whole where w: "db = without gone whole" and p: "past gone whole" and g: "good dev (whole, a)"
    using retained_reached [OF assms(1,2)] by blast
  have kept: "well_kept whole" using g by (simp add: good_def)
  have "k \<in> fst ` set (a_results a) \<or> ended dev whole k"
    using g assms(3) by (simp add: good_def sound_def completed_ids_def)
  then show ?thesis
  proof
    assume "ended dev whole k"
    then obtain c where c: "c \<in> set (db_commands whole)" "c_ID c = k" "c_DeviceID c = dev" "\<not> owed c" by (auto simp: ended_def)
    show ?thesis
    proof (cases "k \<in> c_ID ` set gone")
      case True
      then obtain c' where "c' \<in> set gone" "c_ID c' = k" by auto
      moreover from this have "c' = c" using p c(1,2) kept by (auto simp: past_def well_kept_def distinct_map inj_on_def)
      ultimately show ?thesis using c by blast
    next
      case False
      then show ?thesis using find_without [OF False, of whole] GetCommand_unique [OF kept, of k c] c w by auto
    qed
  qed blast
qed

text \<open>A command queued, run and reported.\<close>

definition sample_queued :: "unit cmd_db" where
  "sample_queued = snd (Queue sample_crypto sample_cmd_service (sample_order CommandLock) ''k'' 1 sample_cmd_db)"

definition sample_ran :: agent_session where
  "sample_ran = run no_faults 1 sample_outcome sample_command sample_taken"

definition sample_done :: "unit cmd_db" where
  "sample_done = snd (Complete sample_cmd_service ''d'' ''k'' sample_outcome 3 sample_queued)"

lemma system_locals:
  "local_steps a a' \<Longrightarrow> (system_step C svc dev)\<^sup>*\<^sup>* (db, a) (db, a')"
  by (induction rule: rtranclp_induct) (auto intro: rtranclp.rtrancl_into_rtrancl system_step.sys_agent)

lemma sample_ran_reached:
  "(system_step sample_crypto sample_cmd_service ''d'')\<^sup>*\<^sup>* (sample_cmd_db, new_agent) (sample_queued, sample_ran)"
proof -
  let ?step = "system_step sample_crypto sample_cmd_service ''d''"
  have q: "?step (sample_cmd_db, new_agent) (sample_queued, new_agent)" unfolding sample_queued_def by (rule sys_queue)
  have "list_ex (\<lambda>c. c_DeviceID c = ''d'' \<and> c_ID c = ''k'' \<and> c_Type c = CommandLock \<and> c_Payload c = PNone) (db_commands sample_queued)"
    by code_simp
  then obtain c where c: "c \<in> set (db_commands sample_queued)" "c_DeviceID c = ''d''" "wire c = sample_command"
    by (auto simp: list_ex_iff wire_def sample_command_def)
  define a1 where "a1 = new_agent\<lparr>a_work := [sample_command], a_inflight := [''k'']\<rparr>"
  have "enqueue no_faults 1 sample_command new_agent = a1"
    by (simp add: enqueue_def no_faults_def new_agent_def LedgerState_def sample_command_def a1_def)
  then have "agent_step new_agent (Offer (wire c)) a1" using agent_step.offer [of new_agent sample_command no_faults 1] c(3) by simp
  then have o: "?step (sample_queued, new_agent) (sample_queued, a1)" by (rule sys_offer [OF c(1,2)])
  have "agent_step a1 Local sample_taken"
    using agent_step.take_up [of a1 sample_command "[]"] by (simp add: sample_taken_def new_agent_def a1_def)
  then have t: "?step (sample_queued, a1) (sample_queued, sample_taken)" by (rule sys_agent)
  have "local_steps sample_taken sample_ran" unfolding sample_ran_def
    by (rule run_is_steps) (simp_all add: sample_taken_def sample_outcome_def interrupted_def resultStatus_def)
  then have "?step\<^sup>*\<^sup>* (sample_queued, sample_taken) (sample_queued, sample_ran)" by (rule system_locals)
  with q o t show ?thesis by (meson converse_rtranclp_into_rtranclp)
qed

lemma sample_fresh: "fresh_system (sample_cmd_db, new_agent)"
  by (simp add: fresh_system_def sample_cmd_db_def)

lemma sample_done_reached:
  "\<exists>a. (system_step sample_crypto sample_cmd_service ''d'')\<^sup>*\<^sup>* (sample_cmd_db, new_agent) (sample_done, a) \<and> a_runs a = [''k''] \<and> a_pruned a = []
     \<and> LedgerState ''k'' a = Some LedgerCompleted \<and> a_results a = []"
proof -
  let ?step = "system_step sample_crypto sample_cmd_service ''d''"
  define a1 where "a1 = sample_ran\<lparr>a_flush := Some (PendingResults sample_ran)\<rparr>"
  have fl: "a_flush sample_ran = None" "PendingResults sample_ran = [(''k'', sample_outcome)]" by code_simp+
  have "agent_step sample_ran Local a1" unfolding a1_def by (rule agent_step.flush [OF fl(1)])
  then have f: "?step (sample_queued, sample_ran) (sample_queued, a1)" by (rule sys_agent)
  define a2 where "a2 = (DeleteResult ''k'' a1)\<lparr>a_flush := Some []\<rparr>"
  have "answerOf (fst (Complete sample_cmd_service ''d'' ''k'' sample_outcome 3 sample_queued)) = Taken_in" by code_simp
  then have "agent_step a1 (Submit ''k'' sample_outcome (answerOf (fst (Complete sample_cmd_service ''d'' ''k'' sample_outcome 3 sample_queued)))) a2"
    unfolding a2_def by (intro agent_step.submit) (simp_all add: a1_def fl)
  then have "?step (sample_queued, a1) (sample_done, a2)" unfolding sample_done_def by (rule sys_submit)
  with f sample_ran_reached have "?step\<^sup>*\<^sup>* (sample_cmd_db, new_agent) (sample_done, a2)" by (meson rtranclp.rtrancl_into_rtrancl)
  moreover have "a_runs a2 = a_runs sample_ran" "a_pruned a2 = a_pruned sample_ran" by (simp_all add: a2_def a1_def DeleteResult_def)
  moreover have "a_runs sample_ran = [''k'']" "a_pruned sample_ran = []" by code_simp+
  moreover have "LedgerState ''k'' a2 = LedgerState ''k'' sample_ran" "a_results a2 = AList.delete ''k'' (a_results sample_ran)"
    by (simp_all add: a2_def a1_def DeleteResult_def LedgerState_def)
  moreover have "LedgerState ''k'' sample_ran = Some LedgerCompleted" "AList.delete ''k'' (a_results sample_ran) = []" by code_simp+
  ultimately show ?thesis by auto
qed

lemma without_prune:
  "step\<^sup>*\<^sup>* (db, s) (db', s') \<Longrightarrow> (with_retention step)\<^sup>*\<^sup>* (db, s, []) (db', s', [])"
proof (induction "(db', s')" arbitrary: db' s' rule: rtranclp_induct)
  case (step y)
  obtain db1 s1 where y: "y = (db1, s1)" by (cases y)
  have "(with_retention step)\<^sup>*\<^sup>* (db, s, []) (db1, s1, [])" by (rule step(3) [OF y])
  moreover have "with_retention step (db1, s1, []) (db', s', [])"
    using step(2) unfolding y by (rule goes_on) (simp add: unused_def)
  ultimately show ?case by (rule rtranclp.rtrancl_into_rtrancl)
qed simp

definition sample_removed :: "Command list" where
  "sample_removed = retentionBatch 100 5000 (\<lambda>_. 0) sample_done"

definition sample_emptied :: "unit cmd_db" where
  "sample_emptied = snd (DeleteFinishedCommandsBefore 100 5000 (\<lambda>_. 0) sample_done)"

theorem success_is_real_witness:
  "\<exists>a c. GetCommand ''k'' sample_done = Some c \<and> c_Status c = CommandSucceeded \<and> 1 \<le> count_list (a_runs a) ''k''
     \<and> (system_step sample_crypto sample_cmd_service ''d'')\<^sup>*\<^sup>* (sample_cmd_db, new_agent) (sample_done, a)"
proof -
  obtain a where a: "(system_step sample_crypto sample_cmd_service ''d'')\<^sup>*\<^sup>* (sample_cmd_db, new_agent) (sample_done, a)"
    using sample_done_reached by blast
  have "(case GetCommand ''k'' sample_done of None \<Rightarrow> False | Some c \<Rightarrow> c_DeviceID c = ''d'' \<and> c_Status c = CommandSucceeded)" by code_simp
  then obtain c where c: "GetCommand ''k'' sample_done = Some c" "c_DeviceID c = ''d''" "c_Status c = CommandSucceeded"
    by (cases "GetCommand ''k'' sample_done") simp_all
  from success_is_real [OF without_prune [OF a] sample_fresh c] a c show ?thesis by blast
qed

text \<open>The result is delivered and the command removed: the device still has it down as completed.\<close>

theorem no_result_lost_witness:
  "\<exists>a c. LedgerState ''k'' a = Some LedgerCompleted \<and> a_results a = [] \<and> GetCommand ''k'' sample_emptied = None
     \<and> c \<in> set sample_removed \<and> c_ID c = ''k'' \<and> \<not> owed c"
proof -
  obtain a where a: "(system_step sample_crypto sample_cmd_service ''d'')\<^sup>*\<^sup>* (sample_cmd_db, new_agent) (sample_done, a)"
    "LedgerState ''k'' a = Some LedgerCompleted" "a_results a = []"
    using sample_done_reached by blast
  have "(with_retention (system_step sample_crypto sample_cmd_service ''d''))\<^sup>*\<^sup>* (sample_cmd_db, new_agent, []) (sample_emptied, a, [] @ sample_removed)"
    unfolding sample_emptied_def sample_removed_def by (rule rtranclp.rtrancl_into_rtrancl [OF without_prune [OF a(1)] prunes])
  moreover have none: "GetCommand ''k'' sample_emptied = None" by code_simp
  ultimately show ?thesis using no_result_lost [of sample_crypto sample_cmd_service "''d''" sample_cmd_db new_agent sample_emptied a "[] @ sample_removed" "''k''"]
    sample_fresh a by auto
qed

end
