(* ===== verification/Executor.thy ===== *)
theory Executor
  imports Command_Service
begin

text \<open>
  How an agent carries out a command: \<^verbatim>\<open>src/internal/agent/executor\<close>, with
  \<^verbatim>\<open>winupdate.Install\<close>. What the executor asks of the machine and of the server (its interfaces
  \<^verbatim>\<open>Runner\<close>, \<^verbatim>\<open>Restarter\<close>, \<^verbatim>\<open>Locker\<close>, \<^verbatim>\<open>Wiper\<close>, \<^verbatim>\<open>PasswordSetter\<close>, \<^verbatim>\<open>PasswordEscrower\<close>,
  \<^verbatim>\<open>ArtifactUploader\<close>, \<^verbatim>\<open>RemoteChannel\<close>, \<^verbatim>\<open>ShellStarter\<close>) are the functions of the record
  \<open>executor\<close>, which say how each call ends; an interface that may be left nil is an option. Each
  operation returns the result it reports and the calls it made, in order. The fixed text of a
  message is kept, and what it quotes is left out where it is only decoration.
\<close>

section \<open>Captured output\<close>

record Capped =
  cap_buf :: string
  cap_limit :: int
  cap_truncated :: bool

definition NewCapped :: "int \<Rightarrow> Capped" where
  "NewCapped limit = \<lparr>cap_buf = [], cap_limit = limit, cap_truncated = False\<rparr>"

definition Capped_Write :: "string \<Rightarrow> Capped \<Rightarrow> Capped" where
  "Capped_Write p c =
     (let room = cap_limit c - int (length (cap_buf c)) in
      if room \<le> 0 then (if p \<noteq> [] then c\<lparr>cap_truncated := True\<rparr> else c)
      else if int (length p) > room
      then c\<lparr>cap_buf := cap_buf c @ take (nat room) p, cap_truncated := True\<rparr>
      else c\<lparr>cap_buf := cap_buf c @ p\<rparr>)"

definition Capped_String :: "Capped \<Rightarrow> string" where
  "Capped_String c = ToValidUTF8 (filter (\<lambda>x. x \<noteq> CHR 0x00) (cap_buf c)) replacement"

definition capture :: "string list \<Rightarrow> Capped" where
  "capture writes = fold Capped_Write writes (NewCapped MaxOutputBytes)"

section \<open>The executor and its surroundings\<close>

text \<open>What a PowerShell run does: its writes, its exit code, the error it ends with, and whether
  its time was up.\<close>

record ps_run =
  ps_stdout :: "string list"
  ps_stderr :: "string list"
  ps_code :: int
  ps_error :: "string option"
  ps_deadline :: bool

record escrow_request =
  er_CommandID :: string
  er_Account :: string
  er_Password :: string

record password_setter =
  pw_BuiltinAdmin :: "string + string"
  pw_SetPassword :: "string \<Rightarrow> string \<Rightarrow> string option"

datatype log_dir = NoLogDir | LogDirUnreadable string | LogDir "(string \<times> bool) list"

text \<open>The files \<^verbatim>\<open>collect_logs\<close> works on: the entries of \<^verbatim>\<open>logs/\<close> (name, and whether regular),
  whether there is an \<^verbatim>\<open>update.json\<close>, the event channels and how exporting one ends (no exporter:
  none), and for a file to be put in the archive its size, how adding it ends and how many bytes
  the archive grows by; and the errors creating, writing and closing the archive end with (a write
  error also stands for a cancelled run).\<close>

record log_sources =
  ls_Dir :: string
  ls_logs :: log_dir
  ls_update :: bool
  ls_Channels :: "string list"
  ls_Export :: "(string \<Rightarrow> int \<Rightarrow> string option) option"
  ls_size :: "string \<Rightarrow> string + int"
  ls_add :: "string \<Rightarrow> string option"
  ls_written :: "string \<Rightarrow> int"
  ls_create :: "string option"
  ls_broken :: "string \<Rightarrow> string option"
  ls_close :: "string option"
  ls_tmp :: "string option"
  ls_final :: "string + int"

record executor =
  e_Run :: "string \<Rightarrow> duration \<Rightarrow> ps_run"
  e_Restart :: "duration \<Rightarrow> string \<Rightarrow> string option"
  e_Refresh :: "string option"
  e_Locker :: "(string + bool) option"
  e_Wiper :: "(bool \<Rightarrow> string option) option"
  e_Uploader :: "(string \<Rightarrow> int \<Rightarrow> string option) option"
  e_Logs :: log_sources
  e_Passwords :: "password_setter option"
  e_Escrower :: "(escrow_request \<Rightarrow> string option) option"
  e_AfterUpdates :: bool
  e_Remote :: bool
  e_StartShell :: "(string + string) option"
  e_Operations :: op_policy
  e_DeviceID :: string
  e_now :: go_time
  e_end :: go_time

datatype effect =
    RanPowerShell string duration
  | Restarted duration string
  | RefreshedInventory
  | LockedSession
  | WipedDevice bool
  | UploadedLogs string int
  | EscrowedPassword escrow_request
  | ChangedPassword string string
  | ForgotUpdateSearch
  | RanShell
  | EndedRemote string string

record exec_command =
  x_ID :: string
  x_Type :: string
  x_Payload :: "json option"

type_synonym outcome_of = "CommandResult \<times> effect list"

definition fail :: "string \<Rightarrow> CommandResult \<Rightarrow> CommandResult" where
  "fail msg res = res\<lparr>r_Status := ResultFailed, r_ExitCode := - 1, r_Error := msg\<rparr>"

definition exited :: "int \<Rightarrow> CommandResult \<Rightarrow> CommandResult" where
  "exited code res = res\<lparr>r_Status := ResultFailed, r_ExitCode := code\<rparr>"

text \<open>\<^verbatim>\<open>json.Unmarshal\<close> into a struct: without a document it fails. Some payloads may be left out.\<close>

definition unmarshal_struct :: "((string \<times> json) list \<Rightarrow> 'p option) \<Rightarrow> json option \<Rightarrow> 'p option" where
  "unmarshal_struct dec raw = (case raw of None \<Rightarrow> None | Some v \<Rightarrow> decodePayload dec (Some v))"

definition refused :: "sign_error \<Rightarrow> string" where
  "refused e = (case e of
     NoKeys \<Rightarrow> ''refused: no keys to check it against''
   | Unsigned \<Rightarrow> ''refused: not signed''
   | Expired \<Rightarrow> ''refused: the signed order has expired''
   | _ \<Rightarrow> ''refused: the signature does not verify'')"

section \<open>Scripts, restarts and renames\<close>

definition runPowerShell :: "crypto \<Rightarrow> executor \<Rightarrow> json option \<Rightarrow> CommandResult \<Rightarrow> outcome_of" where
  "runPowerShell C e raw res =
     (case unmarshal_struct dec_run raw of
        None \<Rightarrow> (fail ''invalid run_powershell payload'' res, [])
      | Some p \<Rightarrow>
          if trim_space (rp_Script p) = [] then (fail ''run_powershell payload has no script'' res, [])
          else
            (case (if op_enforced (e_Operations e)
                   then opsign_Verify C (op_keys (e_Operations e)) (ScriptManifest C (rp_Script p) []) (rp_Signature p)
                   else None) of
               Some er \<Rightarrow> (fail (refused er) res, [])
             | None \<Rightarrow>
                 let t = dur_mul (rp_TimeoutSeconds p) second;
                     timeout = (if t \<le> 0 then 10 * minute else t);
                     o1 = e_Run e (rp_Script p) timeout;
                     stdout = capture (ps_stdout o1);
                     stderr = capture (ps_stderr o1);
                     res1 = res\<lparr>r_Stdout := Capped_String stdout, r_StdoutTruncated := cap_truncated stdout,
                                r_Stderr := Capped_String stderr, r_StderrTruncated := cap_truncated stderr\<rparr>
                 in (if ps_deadline o1
                     then res1\<lparr>r_Status := ResultTimedOut, r_ExitCode := - 1, r_Error := ''timed out''\<rparr>
                     else case ps_error o1 of
                       Some er \<Rightarrow> fail er res1
                     | None \<Rightarrow> if ps_code o1 \<noteq> 0 then exited (ps_code o1) res1 else res1\<lparr>r_ExitCode := 0\<rparr>,
                     [RanPowerShell (rp_Script p) timeout])))"

definition failed_with :: "string option \<Rightarrow> string \<Rightarrow> CommandResult \<Rightarrow> CommandResult" where
  "failed_with er intro res = (case er of None \<Rightarrow> res | Some msg \<Rightarrow> fail (intro @ msg) res)"

definition restart :: "executor \<Rightarrow> json option \<Rightarrow> CommandResult \<Rightarrow> outcome_of" where
  "restart e raw res =
     (case decodePayload dec_restart raw of
        None \<Rightarrow> (fail ''invalid restart payload'' res, [])
      | Some p \<Rightarrow>
          let d = dur_mul (rs_DelaySeconds p) second in
          (failed_with (e_Restart e d (rs_Message p)) [] res, [Restarted d (rs_Message p)]))"

definition rename_script :: "string \<Rightarrow> string" where
  "rename_script name = ''Rename-Computer -NewName '' @ [CHR 0x27] @ name @ [CHR 0x27] @ '' -Force -ErrorAction Stop''"

definition renameComputer :: "executor \<Rightarrow> json option \<Rightarrow> CommandResult \<Rightarrow> outcome_of" where
  "renameComputer e raw res =
     (case unmarshal_struct dec_rename raw of
        None \<Rightarrow> (fail ''invalid rename_computer payload'' res, [])
      | Some p \<Rightarrow>
          if \<not> ValidComputerName (rn_Name p) then (fail ''not a computer name'' res, [])
          else
            let script = rename_script (rn_Name p);
                o1 = e_Run e script (2 * minute);
                calls = RanPowerShell script (2 * minute);
                res1 = res\<lparr>r_Stdout := Capped_String (capture (ps_stdout o1)),
                           r_Stderr := Capped_String (capture (ps_stderr o1))\<rparr> in
            (case ps_error o1 of
               Some er \<Rightarrow> (fail er res1, [calls])
             | None \<Rightarrow>
                 if ps_code o1 \<noteq> 0 then (exited (ps_code o1) res1, [calls])
                 else if \<not> rn_Restart p
                 then (res1\<lparr>r_Stdout := trim_space (r_Stdout res1 @ [CHR 0x0A] @ ''Renamed to '' @ rn_Name p
                          @ ''; the name takes effect when the device next restarts.'') @ [CHR 0x0A]\<rparr>, [calls])
                 else
                   let msg = ''Restarting to finish renaming this computer to '' @ rn_Name p @ ''.'' in
                   (failed_with (e_Restart e minute msg) ''renamed, but the restart to finish it failed: '' res1,
                    [calls, Restarted minute msg])))"

section \<open>Windows updates\<close>

record InstallUpdatesResult =
  ir_Installed :: int
  ir_Failed :: int
  ir_RebootRequired :: bool
  ir_Titles :: "string list"

definition InstallTimeout :: duration where "InstallTimeout = 2 * hour"

definition firstLine :: "string \<Rightarrow> string" where
  "firstLine s =
     (let l = takeWhile (\<lambda>c. c \<noteq> CHR 0x0A) (trim_space s) in
      if l = [] then ''no reason given'' else l)"

text \<open>\<^verbatim>\<open>winupdate.Install\<close>. The script text, reading its output and writing the summary are
  arguments: \<open>W\<close>.\<close>

record update_scripts =
  us_install :: "bool \<Rightarrow> string"
  us_read :: "string \<Rightarrow> InstallUpdatesResult option"
  us_write :: "InstallUpdatesResult \<Rightarrow> string"

definition Install ::
  "update_scripts \<Rightarrow> executor \<Rightarrow> string \<Rightarrow> ((string \<times> string) + InstallUpdatesResult) \<times> effect list" where
  "Install W e scope =
     (if scope \<noteq> UpdatesSecurity \<and> scope \<noteq> UpdatesAll then (Inl ([], ''scope must be security or all''), [])
      else
        let script = us_install W (scope = UpdatesSecurity);
            o1 = e_Run e script InstallTimeout;
            stderr = concat (ps_stderr o1);
            calls = [RanPowerShell script InstallTimeout] in
        (case ps_error o1 of
           Some er \<Rightarrow> (Inl (stderr, er), calls)
         | None \<Rightarrow>
             if ps_code o1 \<noteq> 0 then (Inl (stderr, ''installing updates failed: '' @ firstLine stderr), calls)
             else (case us_read W (trim_space (concat (ps_stdout o1))) of
                     None \<Rightarrow> (Inl (concat (ps_stdout o1), ''read the install result''), calls)
                   | Some r \<Rightarrow> (Inr r, calls))))"

definition installUpdates :: "update_scripts \<Rightarrow> executor \<Rightarrow> json option \<Rightarrow> CommandResult \<Rightarrow> outcome_of" where
  "installUpdates W e raw res =
     (case unmarshal_struct dec_updates raw of
        None \<Rightarrow> (fail ''invalid install_updates payload'' res, [])
      | Some p \<Rightarrow>
          if iu_Restart p \<noteq> UpdateRestartNever \<and> iu_Restart p \<noteq> UpdateRestartIfRequired
          then (fail ''restart must be never or if_required'' res, [])
          else
            (case Install W e (iu_Scope p) of
               (Inl (detail, er), calls) \<Rightarrow> (fail er (res\<lparr>r_Stderr := detail\<rparr>), calls)
             | (Inr out, calls) \<Rightarrow>
                 let forgot = (if e_AfterUpdates e then [ForgotUpdateSearch] else []);
                     res1 = res\<lparr>r_Stdout := us_write W out @ [CHR 0x0A]\<rparr>;
                     res2 = (if ir_Failed out > 0
                             then res1\<lparr>r_Status := ResultFailed, r_ExitCode := 1, r_Error := itoa (ir_Failed out)
                                    @ '' of '' @ itoa (ir_Installed out + ir_Failed out) @ '' updates failed to install''\<rparr>
                             else res1) in
                 if ir_RebootRequired out \<and> iu_Restart p = UpdateRestartIfRequired
                 then
                   let msg = ''Restarting in five minutes to finish installing updates.'' in
                   (failed_with (e_Restart e (5 * minute) msg) ''installed, but the restart to finish failed: '' res2,
                    calls @ forgot @ [Restarted (5 * minute) msg])
                 else (res2, calls @ forgot @ [RefreshedInventory])))"

section \<open>Locking and wiping\<close>

definition lock :: "executor \<Rightarrow> CommandResult \<Rightarrow> outcome_of" where
  "lock e res =
     (case e_Locker e of
        None \<Rightarrow> (fail ''locking not available on this agent'' res, [])
      | Some (Inl er) \<Rightarrow> (fail (''locking the session: '' @ er) res, [LockedSession])
      | Some (Inr locked) \<Rightarrow>
          (res\<lparr>r_Stdout := (if locked then ''the session is locked''
                            else ''nobody is signed in; there is nothing to lock'')\<rparr>, [LockedSession]))"

definition wipe :: "crypto \<Rightarrow> executor \<Rightarrow> json option \<Rightarrow> CommandResult \<Rightarrow> outcome_of" where
  "wipe C e raw res =
     (case decodePayload dec_wipe raw of
        None \<Rightarrow> (fail ''invalid wipe payload'' res, [])
      | Some p \<Rightarrow>
          (case (if op_enforced (e_Operations e)
                 then VerifyWipe C (op_keys (e_Operations e)) (e_DeviceID e) (wp_Protected p)
                        (case wp_Expires p of None \<Rightarrow> 0 | Some t \<Rightarrow> t) (e_now e) (wp_Signature p)
                 else None) of
             Some er \<Rightarrow> (fail (refused er) res, [])
           | None \<Rightarrow>
               (case e_Wiper e of
                  None \<Rightarrow> (fail ''wiping not available on this agent'' res, [])
                | Some w \<Rightarrow>
                    (case w (wp_Protected p) of
                       Some er \<Rightarrow> (fail (''starting the wipe: '' @ er) res, [WipedDevice (wp_Protected p)])
                     | None \<Rightarrow>
                         (res\<lparr>r_Stdout := ''wipe started; the device is resetting and won'' @ [CHR 0x27] @ ''t report again until it is enrolled anew''\<rparr>,
                          [WipedDevice (wp_Protected p)])))))"

section \<open>Collecting logs\<close>

definition archive_items :: "log_sources \<Rightarrow> int \<Rightarrow> string list \<times> string list" where
  "archive_items src hours =
     (let (notes, items) =
            (case ls_logs src of
               NoLogDir \<Rightarrow> ([''no agent logs''], [])
             | LogDirUnreadable er \<Rightarrow> ([''agent logs unreadable: '' @ er], [])
             | LogDir entries \<Rightarrow> ([], map (\<lambda>(n, _). ''agent/'' @ n) (filter snd (sort_key fst entries))));
          items1 = (if ls_update src then items @ [''agent/update.json''] else items)
      in (case ls_Export src of
            None \<Rightarrow> (notes, items1)
          | Some export \<Rightarrow>
              fold (\<lambda>ch (ns, its). case export ch hours of
                        Some er \<Rightarrow> (ns @ [ch @ '' event log: '' @ er], its)
                      | None \<Rightarrow> (ns, its @ [''events/'' @ ch @ ''.evtx'']))
                (ls_Channels src) (notes, items1)))"

text \<open>The loop that fills the archive: the notes, and the error that ends it.\<close>

fun add_items :: "log_sources \<Rightarrow> int \<Rightarrow> int \<Rightarrow> string list \<Rightarrow> string list \<times> string option" where
  "add_items src limit n [] = ([], None)"
| "add_items src limit n (it # its) =
     (case ls_broken src it of
        Some er \<Rightarrow> ([], Some er)
      | None \<Rightarrow>
          (case ls_size src it of
             Inl er \<Rightarrow> (case add_items src limit n its of (ns, e) \<Rightarrow> ((it @ '': '' @ er) # ns, e))
           | Inr sz \<Rightarrow>
               if n + sz + 65536 > limit
               then (case add_items src limit n its of (ns, e) \<Rightarrow>
                       ((it @ '' left out: the archive would pass '' @ itoa (limit div 1048576) @ '' MiB'') # ns, e))
               else (case ls_add src it of
                       Some er \<Rightarrow> (case add_items src limit (n + ls_written src it) its of (ns, e) \<Rightarrow> ((it @ '': '' @ er) # ns, e))
                     | None \<Rightarrow> (case add_items src limit (n + ls_written src it) its of (ns, e) \<Rightarrow> ((''included '' @ it) # ns, e)))))"

definition BuildLogArchive :: "log_sources \<Rightarrow> int \<Rightarrow> int \<Rightarrow> string list \<times> string option" where
  "BuildLogArchive src hours limit =
     (let (notes, items) = archive_items src hours in
      case ls_create src of
        Some er \<Rightarrow> (notes, Some er)
      | None \<Rightarrow>
          (case add_items src limit 0 items of
             (added, Some er) \<Rightarrow> (notes @ added, Some er)
           | (added, None) \<Rightarrow> (notes @ added, ls_close src)))"

definition MaxLogArchiveBytes :: int where "MaxLogArchiveBytes = 50 * 1048576"

fun join_lines :: "string list \<Rightarrow> string" where
  "join_lines [] = []"
| "join_lines [l] = l"
| "join_lines (l # ls) = l @ [CHR 0x0A] @ join_lines ls"

definition collectLogs :: "executor \<Rightarrow> exec_command \<Rightarrow> CommandResult \<Rightarrow> outcome_of" where
  "collectLogs e c res =
     (case decodePayload (dec_logs 24) (x_Payload c) of
        None \<Rightarrow> (fail ''invalid collect_logs payload'' res, [])
      | Some hours \<Rightarrow>
          (case e_Uploader e of
             None \<Rightarrow> (fail ''collecting logs not available on this agent'' res, [])
           | Some upload \<Rightarrow>
               if ls_Dir (e_Logs e) = [] then (fail ''collecting logs not available on this agent'' res, [])
               else (case ls_tmp (e_Logs e) of
                  Some er \<Rightarrow> (fail er res, [])
                | None \<Rightarrow>
                    (case BuildLogArchive (e_Logs e) hours MaxLogArchiveBytes of
                       (notes, Some er) \<Rightarrow> (fail (''building the archive: '' @ er) res, [])
                     | (notes, None) \<Rightarrow>
                         (case ls_final (e_Logs e) of
                            Inl er \<Rightarrow> (fail er res, [])
                          | Inr sz \<Rightarrow>
                              (case upload (x_ID c) sz of
                                 Some er \<Rightarrow> ((fail (''uploading the archive: '' @ er) res)\<lparr>r_Stdout := join_lines notes\<rparr>,
                                             [UploadedLogs (x_ID c) sz])
                               | None \<Rightarrow> (res\<lparr>r_Stdout := join_lines (notes @ [''uploaded '' @ itoa sz @ '' bytes''])\<rparr>,
                                          [UploadedLogs (x_ID c) sz])))))))"

section \<open>Rotating an administrator's password\<close>

definition passwordAlphabets :: "string list" where
  "passwordAlphabets =
     [''ABCDEFGHJKLMNPQRSTUVWXYZ'', ''abcdefghijkmnopqrstuvwxyz'', ''23456789'', ''!#$%&*+-=?@^_~'']"

text \<open>\<^verbatim>\<open>rand.Int\<close>: the \<open>k\<close>-th draw, brought below its bound; a draw may fail.\<close>

definition rand_Int :: "(nat \<Rightarrow> nat option) \<Rightarrow> nat \<Rightarrow> nat \<Rightarrow> nat option" where
  "rand_Int rnd k bound = map_option (\<lambda>v. v mod bound) (rnd k)"

definition pick :: "(nat \<Rightarrow> nat option) \<Rightarrow> nat \<Rightarrow> string \<Rightarrow> char option" where
  "pick rnd k alphabet = map_option (\<lambda>j. alphabet ! j) (rand_Int rnd k (length alphabet))"

definition swap_at :: "nat \<Rightarrow> nat \<Rightarrow> 'a list \<Rightarrow> 'a list" where
  "swap_at i j xs = xs[i := xs ! j, j := xs ! i]"

fun shuffle :: "(nat \<Rightarrow> nat option) \<Rightarrow> nat \<Rightarrow> nat \<Rightarrow> 'a list \<Rightarrow> 'a list option" where
  "shuffle rnd k 0 out = Some out"
| "shuffle rnd k (Suc i) out =
     (case rand_Int rnd k (Suc (Suc i)) of
        None \<Rightarrow> None
      | Some j \<Rightarrow> shuffle rnd (Suc k) i (swap_at (Suc i) j out))"

definition GeneratePassword :: "(nat \<Rightarrow> nat option) \<Rightarrow> int \<Rightarrow> string + string" where
  "GeneratePassword rnd len =
     (if len < int (length passwordAlphabets) then Inl ''a password needs at least 4 characters''
      else
        let n = nat len;
            every = concat passwordAlphabets;
            chars = map (\<lambda>i. pick rnd i (if i < length passwordAlphabets then passwordAlphabets ! i else every)) [0..<n]
        in case Option.bind (all_some chars) (shuffle rnd n (n - 1)) of
             None \<Rightarrow> Inl ''the random source failed''
           | Some out \<Rightarrow> Inr out)"

definition rotateAdminPassword ::
  "(nat \<Rightarrow> nat option) \<Rightarrow> executor \<Rightarrow> exec_command \<Rightarrow> CommandResult \<Rightarrow> outcome_of" where
  "rotateAdminPassword rnd e c res =
     (case decodePayload (dec_rotate 24) (x_Payload c) of
        None \<Rightarrow> (fail ''invalid rotate_local_admin_password payload'' res, [])
      | Some p \<Rightarrow>
          if ra_Length p < 20 \<or> ra_Length p > 64 then (fail ''length must be between 20 and 64'' res, [])
          else (case (e_Passwords e, e_Escrower e) of
             (Some pws, Some escrow) \<Rightarrow>
               (case (if ra_Account p = [] then pw_BuiltinAdmin pws else Inr (ra_Account p)) of
                  Inl er \<Rightarrow> (fail (''finding the built-in Administrator account: '' @ er) res, [])
                | Inr account \<Rightarrow>
                    (case GeneratePassword rnd (ra_Length p) of
                       Inl er \<Rightarrow> (fail (''generating a password: '' @ er) res, [])
                     | Inr password \<Rightarrow>
                         let req = \<lparr>er_CommandID = x_ID c, er_Account = account, er_Password = password\<rparr> in
                         (case escrow req of
                            Some er \<Rightarrow> (fail (''the server didn'' @ [CHR 0x27] @ ''t store the new password, so it wasn''
                                          @ [CHR 0x27] @ ''t set: '' @ er) res, [EscrowedPassword req])
                          | None \<Rightarrow>
                              (case pw_SetPassword pws account password of
                                 Some er \<Rightarrow> (fail (''setting the password for '' @ account @ '': '' @ er) res,
                                             [EscrowedPassword req, ChangedPassword account password])
                               | None \<Rightarrow> (res\<lparr>r_Stdout := ''set a new password for '' @ account
                                              @ ''; it is escrowed with the server''\<rparr>,
                                          [EscrowedPassword req, ChangedPassword account password])))))
           | _ \<Rightarrow> (fail ''rotating passwords not available on this agent'' res, [])))"

section \<open>Remote sessions\<close>

text \<open>One round of \<^verbatim>\<open>relayInput\<close>: whether the session's time was up before and after the poll, the
  time, and the answer. A chunk comes with its number, whether the shell takes it, and the time
  after that.\<close>

record remote_chunk =
  ch_Seq :: int
  ch_Data :: string
  ch_taken :: bool
  ch_at :: go_time

record poll =
  po_over :: bool
  po_now :: go_time
  po_answer :: "string + (remote_chunk list \<times> bool)"
  po_over_after :: bool

definition RemoteIdleTimeout :: duration where "RemoteIdleTimeout = 15 * minute"
definition RemoteMaxDuration :: duration where "RemoteMaxDuration = hour"

fun relayChunks :: "remote_chunk list \<Rightarrow> int \<Rightarrow> go_time \<Rightarrow> string list \<Rightarrow> bool \<times> int \<times> go_time \<times> string list" where
  "relayChunks [] after lastInput stdin = (True, after, lastInput, stdin)"
| "relayChunks (c # cs) after lastInput stdin =
     (if ch_taken c then relayChunks cs (ch_Seq c) (ch_at c) (stdin @ [ch_Data c]) else (False, after, lastInput, stdin))"

text \<open>The rounds are an argument; \<^const>\<open>None\<close> while there are more to come. The first component of
  the answer is why it ended, then the number of the lastInput chunk and what the shell was given.\<close>

fun relayInput ::
  "poll list \<Rightarrow> int \<Rightarrow> go_time \<Rightarrow> nat \<Rightarrow> string list \<Rightarrow> string option \<times> int \<times> string list" where
  "relayInput [] after lastInput failures stdin = (None, after, stdin)"
| "relayInput (p # ps) after lastInput failures stdin =
     (if po_over p then (Some ''the session reached its time limit'', after, stdin)
      else if time_sub (po_now p) lastInput > RemoteIdleTimeout
      then (Some ''nothing was typed for fifteen minutes'', after, stdin)
      else case po_answer p of
        Inl er \<Rightarrow>
          if po_over_after p then (Some ''the session reached its time limit'', after, stdin)
          else if Suc failures \<ge> 5
          then (Some (''the server couldn'' @ [CHR 0x27] @ ''t be reached: '' @ er), after, stdin)
          else relayInput ps after lastInput (Suc failures) stdin
      | Inr (chunks, over) \<Rightarrow>
          (case relayChunks chunks after lastInput stdin of
             (False, after1, last1, stdin1) \<Rightarrow> (Some ''the shell stopped reading its input'', after1, stdin1)
           | (True, after1, last1, stdin1) \<Rightarrow>
               if over then (Some ''ended from the console'', after1, stdin1)
               else relayInput ps after1 last1 0 stdin1))"

text \<open>\<^verbatim>\<open>remoteShell\<close>: whether the shell starts, and the reason the session ends for, are given
  (\<^verbatim>\<open>e_StartShell\<close>): the shell exits, or \<open>relayInput\<close> returns.\<close>

definition remoteShell :: "executor \<Rightarrow> json option \<Rightarrow> CommandResult \<Rightarrow> outcome_of" where
  "remoteShell e raw res =
     (case unmarshal_struct (field ''session_id'' dec_string []) raw of
        None \<Rightarrow> (fail ''invalid remote_shell payload'' res, [])
      | Some session \<Rightarrow>
          if session = [] then (fail ''invalid remote_shell payload'' res, [])
          else
            let ending = (\<lambda>reason. if e_Remote e then [EndedRemote session reason] else []) in
            if op_enforced (e_Operations e)
            then (fail ''refused: this device runs only signed code'' res,
                  ending ''this device runs only signed code, so it refuses remote shells'')
            else (case (e_Remote e, e_StartShell e) of
               (True, Some (Inl er)) \<Rightarrow>
                 (fail (''starting the shell: '' @ er) res, ending (''the shell didn'' @ [CHR 0x27] @ ''t start: '' @ er))
             | (True, Some (Inr reason)) \<Rightarrow>
                 (res\<lparr>r_Stdout := ''remote session ended: '' @ reason @ [CHR 0x0A]\<rparr>, RanShell # ending reason)
             | _ \<Rightarrow> (fail (''remote sessions aren'' @ [CHR 0x27] @ ''t available on this agent'') res,
                     ending (''this agent can'' @ [CHR 0x27] @ ''t run remote sessions''))))"

section \<open>Execute\<close>

definition new_result :: "go_time \<Rightarrow> CommandResult" where
  "new_result now = \<lparr>r_Status = ResultSucceeded, r_ExitCode = 0, r_Stdout = [], r_Stderr = [],
     r_StdoutTruncated = False, r_StderrTruncated = False, r_Error = [], r_StartedAt = now, r_FinishedAt = 0\<rparr>"

definition carry_out ::
  "crypto \<Rightarrow> update_scripts \<Rightarrow> (nat \<Rightarrow> nat option) \<Rightarrow> executor \<Rightarrow> exec_command \<Rightarrow> CommandResult \<Rightarrow> outcome_of" where
  "carry_out C W rnd e c res =
     (if x_Type c = CommandRunPowerShell then runPowerShell C e (x_Payload c) res
      else if x_Type c = CommandRestart then restart e (x_Payload c) res
      else if x_Type c = CommandRefreshInventory
      then (failed_with (e_Refresh e) ''refreshing inventory: '' res, [RefreshedInventory])
      else if x_Type c = CommandLock then lock e res
      else if x_Type c = CommandCollectLogs then collectLogs e c res
      else if x_Type c = CommandWipe then wipe C e (x_Payload c) res
      else if x_Type c = CommandRotateAdminPassword then rotateAdminPassword rnd e c res
      else if x_Type c = CommandRenameComputer then renameComputer e (x_Payload c) res
      else if x_Type c = CommandInstallUpdates then installUpdates W e (x_Payload c) res
      else if x_Type c = CommandRemoteShell then remoteShell e (x_Payload c) res
      else (fail ''unsupported command type'' res, []))"

definition Execute ::
  "crypto \<Rightarrow> update_scripts \<Rightarrow> (nat \<Rightarrow> nat option) \<Rightarrow> executor \<Rightarrow> exec_command \<Rightarrow> outcome_of" where
  "Execute C W rnd e c =
     (case carry_out C W rnd e c (new_result (e_now e)) of (res, calls) \<Rightarrow> (res\<lparr>r_FinishedAt := e_end e\<rparr>, calls))"

end
