(* ===== verification/Executor_Safety.thy ===== *)
theory Executor_Safety
  imports Executor "HOL-Library.Multiset"
begin

text \<open>
  What the executor promises: nothing unsigned runs on a device built to require signatures, a
  password is escrowed before it is set and is strong, captured output is the beginning of what was
  written, and every outcome is a result the server accepts.
\<close>

section \<open>Captured output\<close>

definition capped_inv :: "string \<Rightarrow> Capped \<Rightarrow> bool" where
  "capped_inv w c \<longleftrightarrow> cap_buf c = take (nat (cap_limit c)) w
     \<and> (cap_truncated c \<longleftrightarrow> int (length w) > cap_limit c)"

lemma Capped_Write_inv:
  assumes "capped_inv w c" "0 \<le> cap_limit c"
  shows "capped_inv (w @ p) (Capped_Write p c) \<and> cap_limit (Capped_Write p c) = cap_limit c"
proof -
  have len: "length (cap_buf c) = min (nat (cap_limit c)) (length w)" using assms(1) by (simp add: capped_inv_def)
  show ?thesis
  proof (cases "cap_limit c \<le> int (length w)")
    case True
    then have "int (length (cap_buf c)) = cap_limit c" using len assms(2) by linarith
    then show ?thesis using assms True by (auto simp: capped_inv_def Capped_Write_def Let_def)
  next
    case False
    then have "cap_buf c = w" "\<not> cap_truncated c" using assms(1) by (auto simp: capped_inv_def)
    then show ?thesis using assms False by (auto simp: capped_inv_def Capped_Write_def Let_def nat_diff_distrib)
  qed
qed

lemma fold_Capped_Write:
  "capped_inv w c \<Longrightarrow> 0 \<le> cap_limit c \<Longrightarrow>
   capped_inv (w @ concat ws) (fold Capped_Write ws c) \<and> cap_limit (fold Capped_Write ws c) = cap_limit c"
proof (induction ws arbitrary: w c)
  case (Cons p ws)
  then show ?case using Capped_Write_inv [of w c p] Cons.IH [of "w @ p" "Capped_Write p c"] by simp
qed simp

text \<open>
  C29. Output is captured without loss up to the limit: however the script's writes are split up,
  what is kept is the first megabyte of what was written, and it is marked as cut exactly when more
  was written than is kept.
\<close>

theorem capture_exact:
  "cap_buf (capture ws) = take (nat MaxOutputBytes) (concat ws)
   \<and> cap_truncated (capture ws) = (int (length (concat ws)) > MaxOutputBytes)"
proof -
  have "capped_inv [] (NewCapped MaxOutputBytes)" by (simp add: capped_inv_def NewCapped_def)
  from fold_Capped_Write [OF this, of ws] show ?thesis
    by (simp add: capped_inv_def NewCapped_def capture_def)
qed

section \<open>Nothing unsigned\<close>

text \<open>What an enforcing device may do to itself for command \<open>c\<close>.\<close>

definition vetted :: "crypto \<Rightarrow> update_scripts \<Rightarrow> executor \<Rightarrow> effect \<Rightarrow> bool" where
  "vetted C W e eff =
     (case eff of
        RanPowerShell s t \<Rightarrow>
          (\<exists>sig. opsign_Verify C (op_keys (e_Operations e)) (ScriptManifest C s []) sig = None)
          \<or> (\<exists>n. ValidComputerName n \<and> s = rename_script n) \<or> (\<exists>b. s = us_install W b)
      | WipedDevice p \<Rightarrow>
          (\<exists>expires sig. e_now e < expires
             \<and> opsign_Verify C (op_keys (e_Operations e)) (WipeManifest (e_DeviceID e) p expires) sig = None)
      | RanShell \<Rightarrow> False
      | _ \<Rightarrow> True)"

lemma vetted_simps [simp]:
  "vetted C W e (Restarted d m)" "vetted C W e RefreshedInventory" "vetted C W e LockedSession"
  "vetted C W e (UploadedLogs i n)" "vetted C W e (EscrowedPassword r)" "vetted C W e (ChangedPassword a p)"
  "vetted C W e ForgotUpdateSearch" "vetted C W e (EndedRemote i why)"
  by (simp_all add: vetted_def)

lemma vetted_rename: "ValidComputerName n \<Longrightarrow> vetted C W e (RanPowerShell (rename_script n) t)"
  by (auto simp: vetted_def)

lemma vetted_install: "vetted C W e (RanPowerShell (us_install W b) t)"
  by (auto simp: vetted_def)

lemma VerifyWipe_parts:
  "VerifyWipe C keys dev p expires now sig = None \<Longrightarrow>
   now < expires \<and> opsign_Verify C keys (WipeManifest dev p expires) sig = None"
  by (auto simp: VerifyWipe_def split: if_splits option.splits)

lemma runPowerShell_vetted:
  assumes "op_enforced (e_Operations e)"
  shows "list_all (vetted C W e) (snd (runPowerShell C e raw res))"
proof (cases "unmarshal_struct dec_run raw")
  case (Some p)
  then show ?thesis
  proof (cases "opsign_Verify C (op_keys (e_Operations e)) (ScriptManifest C (rp_Script p) []) (rp_Signature p)")
    case None
    then have "vetted C W e (RanPowerShell (rp_Script p) t)" for t by (auto simp: vetted_def)
    then show ?thesis using Some None assms by (simp add: runPowerShell_def Let_def)
  qed (simp add: runPowerShell_def assms)
qed (simp add: runPowerShell_def)

lemma wipe_vetted:
  assumes "op_enforced (e_Operations e)"
  shows "list_all (vetted C W e) (snd (wipe C e raw res))"
proof (cases "decodePayload dec_wipe raw")
  case (Some p)
  define expires where "expires = (case wp_Expires p of None \<Rightarrow> 0 | Some t \<Rightarrow> t)"
  show ?thesis
  proof (cases "VerifyWipe C (op_keys (e_Operations e)) (e_DeviceID e) (wp_Protected p) expires (e_now e) (wp_Signature p)")
    case None
    then have "vetted C W e (WipedDevice (wp_Protected p))"
      using VerifyWipe_parts [OF None] by (auto simp: vetted_def)
    then show ?thesis using Some None assms by (simp add: wipe_def expires_def split: option.splits)
  qed (use Some assms in \<open>simp add: wipe_def expires_def\<close>)
qed (simp add: wipe_def)

lemma renameComputer_vetted: "list_all (vetted C W e) (snd (renameComputer e raw res))"
proof (cases "unmarshal_struct dec_rename raw")
  case (Some p)
  then show ?thesis
    using vetted_rename [of "rn_Name p" C W e]
    by (auto simp: renameComputer_def Let_def split: option.splits)
qed (simp add: renameComputer_def)

lemma Install_vetted: "list_all (vetted C W e) (snd (Install W e scope))"
  using vetted_install [of C W e] by (simp add: Install_def Let_def split: option.splits)

lemma installUpdates_vetted: "list_all (vetted C W e) (snd (installUpdates W e raw res))"
proof (cases "unmarshal_struct dec_updates raw")
  case (Some p)
  obtain r calls where I: "Install W e (iu_Scope p) = (r, calls)" by fastforce
  with Install_vetted [of C W e "iu_Scope p"] have "list_all (vetted C W e) calls" by simp
  then show ?thesis
    using Some I by (simp add: installUpdates_def Let_def split: sum.splits prod.splits)
qed (simp add: installUpdates_def)

lemma remoteShell_vetted:
  assumes "op_enforced (e_Operations e)"
  shows "list_all (vetted C W e) (snd (remoteShell e raw res))"
  using assms by (simp add: remoteShell_def Let_def split: option.splits)

lemma rotate_vetted: "list_all (vetted C W e) (snd (rotateAdminPassword rnd e c res))"
  by (simp add: rotateAdminPassword_def Let_def split: option.splits sum.splits)

lemma collectLogs_vetted: "list_all (vetted C W e) (snd (collectLogs e c res))"
  by (simp add: collectLogs_def split: option.splits sum.splits prod.splits)

lemma lock_vetted: "list_all (vetted C W e) (snd (lock e res))"
  by (simp add: lock_def split: option.splits sum.splits)

lemma restart_vetted: "list_all (vetted C W e) (snd (restart e raw res))"
  by (simp add: restart_def Let_def split: option.splits)

lemmas ops_vetted = renameComputer_vetted installUpdates_vetted rotate_vetted collectLogs_vetted lock_vetted restart_vetted

lemma carry_out_vetted:
  assumes "op_enforced (e_Operations e)"
  shows "list_all (vetted C W e) (snd (carry_out C W rnd e c res))"
  by (simp add: carry_out_def ops_vetted runPowerShell_vetted wipe_vetted remoteShell_vetted assms)

lemma snd_Execute: "snd (Execute C W rnd e c) = snd (carry_out C W rnd e c (new_result (e_now e)))"
  by (simp add: Execute_def case_prod_beta)

text \<open>
  C15. A device built to require signatures runs nothing unsigned, whatever the server sends: the
  only scripts it runs are ones whose own text is signed by an operations key the agent was built
  with, the agent's own update script, and the rename command with a plain computer name in it; it
  is only wiped by an order signed for this device, this kind of wipe and a time that has not come;
  and it opens no remote shell.
\<close>

theorem Execute_only_signed:
  assumes "op_enforced (e_Operations e)" "eff \<in> set (snd (Execute C W rnd e c))"
  shows "case eff of
      RanPowerShell s t \<Rightarrow>
        (\<exists>sig. opsign_Verify C (op_keys (e_Operations e)) (ScriptManifest C s []) sig = None)
        \<or> (\<exists>n. ValidComputerName n \<and> s = rename_script n) \<or> (\<exists>b. s = us_install W b)
    | WipedDevice p \<Rightarrow>
        (\<exists>expires sig. e_now e < expires
           \<and> opsign_Verify C (op_keys (e_Operations e)) (WipeManifest (e_DeviceID e) p expires) sig = None)
    | RanShell \<Rightarrow> False
    | _ \<Rightarrow> True"
proof -
  have "list_all (vetted C W e) (snd (Execute C W rnd e c))"
    by (simp add: snd_Execute carry_out_vetted [OF assms(1)])
  with assms(2) show ?thesis by (auto simp: list_all_iff vetted_def)
qed

text \<open>A name that is accepted cannot end the quotation it is put in.\<close>

lemma rename_script_quotes:
  assumes "ValidComputerName n"
  shows "filter (\<lambda>c. c \<in> {CHR 0x27, CHR 0x22, CHR ''$'', CHR 0x60, CHR '';''}) (rename_script n) = [CHR 0x27, CHR 0x27]"
proof -
  have "filter (\<lambda>c. c \<in> {CHR 0x27, CHR 0x22, CHR ''$'', CHR 0x60, CHR '';''}) n = []"
    using assms by (auto simp: filter_empty_conv ValidComputerName_def list_all_iff char_class_defs)
  then show ?thesis by (simp add: rename_script_def)
qed

section \<open>Every outcome is a result\<close>

definition well_reported :: "CommandResult \<Rightarrow> bool" where
  "well_reported r \<longleftrightarrow>
     (r_Status r = ResultSucceeded \<and> r_ExitCode r = 0 \<and> r_Error r = [])
     \<or> (r_Status r = ResultFailed \<and> r_ExitCode r \<noteq> 0)
     \<or> (r_Status r = ResultTimedOut \<and> r_ExitCode r = - 1)"

definition unmarked :: "CommandResult \<Rightarrow> bool" where
  "unmarked r \<longleftrightarrow> r_Status r = ResultSucceeded \<and> r_ExitCode r = 0 \<and> r_Error r = []"

lemma well_reported_simps [simp]:
  "well_reported (fail msg res)" "code \<noteq> 0 \<Longrightarrow> well_reported (exited code res)"
  "well_reported (r\<lparr>r_Stdout := x\<rparr>) = well_reported r" "well_reported (r\<lparr>r_FinishedAt := t\<rparr>) = well_reported r"
  "well_reported (r\<lparr>r_Status := ResultTimedOut, r_ExitCode := - 1, r_Error := msg\<rparr>)"
  "n \<noteq> 0 \<Longrightarrow> well_reported (r\<lparr>r_Status := ResultFailed, r_ExitCode := n, r_Error := msg\<rparr>)"
  "well_reported (failed_with er intro r) \<longleftrightarrow> er \<noteq> None \<or> well_reported r"
  by (auto simp: well_reported_def fail_def exited_def failed_with_def split: option.splits)

lemma unmarked_simps [simp]:
  "unmarked (r\<lparr>r_Stdout := x\<rparr>) = unmarked r" "unmarked (r\<lparr>r_Stderr := x\<rparr>) = unmarked r"
  "unmarked (r\<lparr>r_StdoutTruncated := b\<rparr>) = unmarked r" "unmarked (r\<lparr>r_StderrTruncated := b\<rparr>) = unmarked r"
  "unmarked r \<Longrightarrow> unmarked (r\<lparr>r_ExitCode := 0\<rparr>)"
  by (simp_all add: unmarked_def)

lemma unmarked_well: "unmarked r \<Longrightarrow> well_reported r"
  by (simp add: unmarked_def well_reported_def)

lemma runPowerShell_reported: "unmarked res \<Longrightarrow> well_reported (fst (runPowerShell C e raw res))"
  by (simp add: runPowerShell_def Let_def unmarked_well split: option.splits)

lemma restart_reported: "unmarked res \<Longrightarrow> well_reported (fst (restart e raw res))"
  by (simp add: restart_def Let_def unmarked_well split: option.splits)

lemma renameComputer_reported: "unmarked res \<Longrightarrow> well_reported (fst (renameComputer e raw res))"
  by (simp add: renameComputer_def Let_def unmarked_well split: option.splits)

lemma installUpdates_reported: "unmarked res \<Longrightarrow> well_reported (fst (installUpdates W e raw res))"
  by (simp add: installUpdates_def Let_def unmarked_well split: option.splits sum.splits prod.splits)

lemma lock_reported: "unmarked res \<Longrightarrow> well_reported (fst (lock e res))"
  by (simp add: lock_def unmarked_well split: option.splits sum.splits)

lemma wipe_reported: "unmarked res \<Longrightarrow> well_reported (fst (wipe C e raw res))"
  by (simp add: wipe_def unmarked_well split: option.splits)

lemma collectLogs_reported: "unmarked res \<Longrightarrow> well_reported (fst (collectLogs e c res))"
  by (simp add: collectLogs_def unmarked_well split: option.splits sum.splits prod.splits)

lemma rotate_reported: "unmarked res \<Longrightarrow> well_reported (fst (rotateAdminPassword rnd e c res))"
  by (simp add: rotateAdminPassword_def Let_def unmarked_well split: option.splits sum.splits)

lemma remoteShell_reported: "unmarked res \<Longrightarrow> well_reported (fst (remoteShell e raw res))"
  by (simp add: remoteShell_def Let_def unmarked_well split: option.splits sum.splits bool.splits)

lemmas ops_reported = runPowerShell_reported restart_reported renameComputer_reported installUpdates_reported
  lock_reported wipe_reported collectLogs_reported rotate_reported remoteShell_reported

lemma carry_out_reported: "unmarked res \<Longrightarrow> well_reported (fst (carry_out C W rnd e c res))"
  by (simp add: carry_out_def ops_reported unmarked_well)

lemma fst_Execute: "fst (Execute C W rnd e c) = (fst (carry_out C W rnd e c (new_result (e_now e))))\<lparr>r_FinishedAt := e_end e\<rparr>"
  by (simp add: Execute_def case_prod_beta)

text \<open>
  C27. Every outcome is a result the server takes, and a success means what it says: whatever the
  payload and however the calls end, the status is succeeded, failed or timed out; it is succeeded
  exactly when the exit code is 0 and then there is no error, so a command that failed or timed out
  never carries exit code 0.
\<close>

theorem Execute_reports:
  "resultStatus (r_Status (fst (Execute C W rnd e c)))
   \<and> (r_Status (fst (Execute C W rnd e c)) = ResultSucceeded \<longleftrightarrow> r_ExitCode (fst (Execute C W rnd e c)) = 0)
   \<and> (r_Status (fst (Execute C W rnd e c)) = ResultSucceeded \<longleftrightarrow>
        r_ExitCode (fst (Execute C W rnd e c)) = 0 \<and> r_Error (fst (Execute C W rnd e c)) = [])"
proof -
  have "unmarked (new_result (e_now e))" by (simp add: unmarked_def new_result_def)
  then have "well_reported (fst (Execute C W rnd e c))" by (simp add: fst_Execute carry_out_reported)
  then show ?thesis by (auto simp: well_reported_def resultStatus_def)
qed

section \<open>Passwords\<close>

lemma all_some_eq: "all_some xs = Some ys \<longleftrightarrow> xs = map Some ys"
  by (induction xs arbitrary: ys rule: all_some.induct) (auto split: option.splits)

lemma all_some_total: "list_all (\<lambda>x. x \<noteq> None) xs \<Longrightarrow> \<exists>ys. all_some xs = Some ys"
  by (induction xs rule: all_some.induct) auto

lemma rand_Int_less: "rand_Int rnd k n = Some j \<Longrightarrow> 0 < n \<Longrightarrow> j < n"
  by (auto simp: rand_Int_def)

lemma pick_in: "pick rnd k s = Some c \<Longrightarrow> s \<noteq> [] \<Longrightarrow> c \<in> set s"
  by (auto simp: pick_def dest: rand_Int_less)

lemma shuffle_mset: "shuffle rnd k i out = Some out' \<Longrightarrow> i < length out \<Longrightarrow> mset out' = mset out"
proof (induction rnd k i out rule: shuffle.induct)
  case (2 rnd k i out)
  then obtain j where j: "rand_Int rnd k (Suc (Suc i)) = Some j" and rest: "shuffle rnd (Suc k) i (swap_at (Suc i) j out) = Some out'"
    by (auto split: option.splits)
  from rand_Int_less [OF j] "2.prems"(2) have "j < length out" by simp
  then have "mset (swap_at (Suc i) j out) = mset out" using "2.prems"(2) by (simp add: swap_at_def mset_swap)
  with "2.IH" [OF j rest] "2.prems"(2) show ?case by (simp add: swap_at_def)
qed simp

lemma shuffle_total: "\<forall>k. rnd k \<noteq> None \<Longrightarrow> \<exists>out'. shuffle rnd k i out = Some out'"
proof (induction rnd k i out rule: shuffle.induct)
  case (2 rnd k i out)
  from "2.prems" obtain v where "rnd k = Some v" by blast
  then have "rand_Int rnd k (Suc (Suc i)) = Some (v mod Suc (Suc i))" by (simp add: rand_Int_def)
  with "2.IH" [OF this "2.prems"] show ?case by simp
qed simp

lemma alphabets_nonempty: "concat passwordAlphabets \<noteq> []" "i < length passwordAlphabets \<Longrightarrow> passwordAlphabets ! i \<noteq> []"
  by (auto simp: passwordAlphabets_def nth_Cons split: nat.splits)

lemma alphabets_four: "length passwordAlphabets = 4"
  by (simp add: passwordAlphabets_def)

lemma GeneratePassword_parts:
  assumes "GeneratePassword rnd len = Inr pw"
  shows "int (length pw) = len \<and> 4 \<le> len \<and> list_all (\<lambda>a. list_ex (\<lambda>c. c \<in> set a) pw) passwordAlphabets
    \<and> set pw \<subseteq> set (concat passwordAlphabets)"
proof -
  define n where "n = nat len"
  define alph where "alph i = (if i < length passwordAlphabets then passwordAlphabets ! i else concat passwordAlphabets)" for i
  from assms have len: "4 \<le> len"
    by (auto simp: GeneratePassword_def alphabets_four split: if_splits)
  from assms obtain cs where cs: "all_some (map (\<lambda>i. pick rnd i (alph i)) [0..<n]) = Some cs"
    and sh: "shuffle rnd n (n - 1) cs = Some pw"
    by (auto simp: GeneratePassword_def Let_def n_def alph_def bind_eq_Some_conv split: if_splits option.splits)
  from cs have eq: "map (\<lambda>i. pick rnd i (alph i)) [0..<n] = map Some cs" by (simp add: all_some_eq)
  from eq have lcs: "length cs = n" by (metis length_map length_upt minus_nat.diff_0)
  have nth: "cs ! i \<in> set (alph i)" if "i < n" for i
  proof -
    from eq that lcs have "pick rnd i (alph i) = Some (cs ! i)"
      by (metis (no_types, lifting) add_0 diff_zero length_upt nth_map nth_upt)
    then show ?thesis using alphabets_nonempty by (auto simp: alph_def dest: pick_in)
  qed
  have sub: "set (alph i) \<subseteq> set (concat passwordAlphabets)" for i
    by (auto simp: alph_def intro: nth_mem)
  have ms: "mset pw = mset cs" using shuffle_mset [OF sh] lcs len by (simp add: n_def)
  then have sets: "set pw = set cs" by (rule mset_eq_setD)
  have "length pw = n" using ms lcs by (metis size_mset)
  moreover have "list_ex (\<lambda>c. c \<in> set (passwordAlphabets ! i)) pw" if "i < length passwordAlphabets" for i
  proof -
    from that alphabets_four len have i: "i < n" by (simp add: n_def)
    have "alph i = passwordAlphabets ! i" using that by (simp add: alph_def)
    with nth [OF i] i lcs sets show ?thesis by (auto simp: list_ex_iff intro: nth_mem)
  qed
  moreover have "set pw \<subseteq> set (concat passwordAlphabets)"
    using nth sub lcs unfolding sets by (metis in_set_conv_nth subset_iff)
  ultimately show ?thesis using len by (auto simp: n_def list_all_length)
qed

text \<open>
  C28. A generated password is as strong as promised: with a working random source and a length of
  at least four, \<^verbatim>\<open>GeneratePassword\<close> returns a password of exactly that length, made of the characters
  of the four alphabets only, with at least one from each of them, wherever the shuffle puts it.
\<close>

theorem GeneratePassword_strong:
  assumes "4 \<le> len" "\<forall>k. rnd k \<noteq> None"
  shows "\<exists>pw. GeneratePassword rnd len = Inr pw \<and> int (length pw) = len
    \<and> list_all (\<lambda>a. list_ex (\<lambda>c. c \<in> set a) pw) passwordAlphabets \<and> set pw \<subseteq> set (concat passwordAlphabets)"
proof -
  have "pick rnd i s \<noteq> None" for i s using assms(2) by (simp add: pick_def rand_Int_def)
  then obtain cs where "all_some (map (\<lambda>i. pick rnd i (if i < length passwordAlphabets then passwordAlphabets ! i
      else concat passwordAlphabets)) [0..<nat len]) = Some cs"
    using all_some_total [of "map (\<lambda>i. pick rnd i (if i < length passwordAlphabets then passwordAlphabets ! i
      else concat passwordAlphabets)) [0..<nat len]"] by (auto simp: list_all_iff)
  moreover obtain pw where "shuffle rnd (nat len) (nat len - 1) cs = Some pw" using shuffle_total [OF assms(2)] by blast
  ultimately have "GeneratePassword rnd len = Inr pw"
    using assms(1) alphabets_four by (simp add: GeneratePassword_def Let_def)
  with GeneratePassword_parts show ?thesis by blast
qed

lemma snd_rotate:
  "snd (rotateAdminPassword rnd e c res) =
     (case decodePayload (dec_rotate 24) (x_Payload c) of
        None \<Rightarrow> []
      | Some p \<Rightarrow>
          if ra_Length p < 20 \<or> ra_Length p > 64 then []
          else (case (e_Passwords e, e_Escrower e) of
             (Some pws, Some escrow) \<Rightarrow>
               (case (if ra_Account p = [] then pw_BuiltinAdmin pws else Inr (ra_Account p)) of
                  Inl er \<Rightarrow> []
                | Inr account \<Rightarrow>
                    (case GeneratePassword rnd (ra_Length p) of
                       Inl er \<Rightarrow> []
                     | Inr password \<Rightarrow>
                         let req = \<lparr>er_CommandID = x_ID c, er_Account = account, er_Password = password\<rparr> in
                         (case escrow req of
                            Some er \<Rightarrow> [EscrowedPassword req]
                          | None \<Rightarrow> [EscrowedPassword req, ChangedPassword account password])))
           | _ \<Rightarrow> []))"
  by (simp add: rotateAdminPassword_def Let_def split: option.split sum.split)

lemma rotate_calls:
  obtains (none) "snd (rotateAdminPassword rnd e c res) = []"
  | (escrow) req where "snd (rotateAdminPassword rnd e c res) = [EscrowedPassword req]" "er_CommandID req = x_ID c"
  | (set) p pws escrow account password where
      "decodePayload (dec_rotate 24) (x_Payload c) = Some p" "20 \<le> ra_Length p" "ra_Length p \<le> 64"
      "e_Passwords e = Some pws" "e_Escrower e = Some escrow" "GeneratePassword rnd (ra_Length p) = Inr password"
      "(if ra_Account p = [] then pw_BuiltinAdmin pws else Inr (ra_Account p)) = Inr account"
      "escrow \<lparr>er_CommandID = x_ID c, er_Account = account, er_Password = password\<rparr> = None"
      "snd (rotateAdminPassword rnd e c res) =
         [EscrowedPassword \<lparr>er_CommandID = x_ID c, er_Account = account, er_Password = password\<rparr>,
          ChangedPassword account password]"
proof (cases "decodePayload (dec_rotate 24) (x_Payload c)")
  case None
  then show ?thesis by (intro none) (simp add: snd_rotate)
next
  case (Some p)
  define ready where "ready \<longleftrightarrow> 20 \<le> ra_Length p \<and> ra_Length p \<le> 64 \<and> e_Passwords e \<noteq> None \<and> e_Escrower e \<noteq> None"
  show ?thesis
  proof (cases ready)
    case False
    then show ?thesis using Some
      by (intro none) (auto simp: snd_rotate ready_def split: option.splits)
  next
    case True
    then obtain pws escrow where r: "20 \<le> ra_Length p" "ra_Length p \<le> 64" "e_Passwords e = Some pws" "e_Escrower e = Some escrow"
      by (auto simp: ready_def)
    show ?thesis
    proof (cases "if ra_Account p = [] then pw_BuiltinAdmin pws else Inr (ra_Account p)")
      case (Inl er)
      then show ?thesis using Some r by (intro none) (simp add: snd_rotate)
    next
      case (Inr account)
      note a = this
      show ?thesis
      proof (cases "GeneratePassword rnd (ra_Length p)")
        case (Inl er)
        then show ?thesis using Some r a by (intro none) (simp add: snd_rotate)
      next
        case (Inr password)
        define req where "req = \<lparr>er_CommandID = x_ID c, er_Account = account, er_Password = password\<rparr>"
        show ?thesis
        proof (cases "escrow req")
          case None
          then show ?thesis using Some r a Inr
            by (intro set [of p pws escrow password account])
              (simp_all add: snd_rotate req_def)
        qed (use Some r a Inr in \<open>auto intro!: escrow [of req] simp: snd_rotate req_def\<close>)
      qed
    qed
  qed
qed

text \<open>
  A password is set only after it is escrowed: when the executor changes a local account's
  password, it has just had the same password for the same account accepted by the server, under
  the command's own identifier, the password is one \<^verbatim>\<open>GeneratePassword\<close> made of 20 to 64
  characters, and these two calls are all it did.
\<close>

theorem rotate_escrows_first:
  assumes "ChangedPassword account password \<in> set (snd (rotateAdminPassword rnd e c res))"
  shows "\<exists>escrow len. e_Escrower e = Some escrow
    \<and> escrow \<lparr>er_CommandID = x_ID c, er_Account = account, er_Password = password\<rparr> = None
    \<and> GeneratePassword rnd len = Inr password \<and> 20 \<le> len \<and> len \<le> 64
    \<and> snd (rotateAdminPassword rnd e c res) =
        [EscrowedPassword \<lparr>er_CommandID = x_ID c, er_Account = account, er_Password = password\<rparr>,
         ChangedPassword account password]"
proof (cases rule: rotate_calls [of rnd e c res, case_names none escrow set])
  case (set p pws escrow account' password')
  with assms have "account' = account" "password' = password" by auto
  with set show ?thesis by (intro exI [where x = escrow] exI [where x = "ra_Length p"]) simp
qed (use assms in auto)

section \<open>Examples\<close>

definition sample_logs :: log_sources where
  "sample_logs = \<lparr>ls_Dir = [], ls_logs = NoLogDir, ls_update = False, ls_Channels = [], ls_Export = None,
     ls_size = (\<lambda>_. Inr 0), ls_add = (\<lambda>_. None), ls_written = (\<lambda>_. 0), ls_create = None, ls_broken = (\<lambda>_. None),
     ls_close = None, ls_tmp = None, ls_final = Inr 0\<rparr>"

definition sample_executor :: executor where
  "sample_executor = \<lparr>e_Run = (\<lambda>_ _. \<lparr>ps_stdout = [''hi''], ps_stderr = [], ps_code = 0, ps_error = None, ps_deadline = False\<rparr>),
     e_Restart = (\<lambda>_ _. None), e_Refresh = None, e_Locker = None, e_Wiper = None, e_Uploader = None, e_Logs = sample_logs,
     e_Passwords = Some \<lparr>pw_BuiltinAdmin = Inr ''Administrator'', pw_SetPassword = (\<lambda>_ _. None)\<rparr>,
     e_Escrower = Some (\<lambda>_. None), e_AfterUpdates = False, e_Remote = False, e_StartShell = None,
     e_Operations = \<lparr>op_enforced = True, op_keys = [cr_public sample_crypto []]\<rparr>, e_DeviceID = ''d'', e_now = 5, e_end = 6\<rparr>"

definition sample_updates :: update_scripts where
  "sample_updates = \<lparr>us_install = (\<lambda>b. if b then ''security'' else ''all''), us_read = (\<lambda>_. None), us_write = (\<lambda>_. [])\<rparr>"

definition sample_script_signature :: op_signature where
  "sample_script_signature = opsign_Sign sample_crypto [] (ScriptManifest sample_crypto ''hostname'' [])"

definition sample_script :: exec_command where
  "sample_script = \<lparr>x_ID = ''k'', x_Type = CommandRunPowerShell, x_Payload = Some (JObj
     [(''script'', JStr ''hostname''), (''timeout_seconds'', JNum ''600''),
      (''signature'', JObj [(''key_id'', JStr (og_key_id sample_script_signature)),
                            (''signature'', JStr (og_signature sample_script_signature))])])\<rparr>"

definition sample_rotate :: exec_command where
  "sample_rotate = \<lparr>x_ID = ''k'', x_Type = CommandRotateAdminPassword, x_Payload = Some (JObj [(''length'', JNum ''20'')])\<rparr>"

lemma sample_script_decoded:
  "unmarshal_struct dec_run (x_Payload sample_script)
     = Some \<lparr>rp_Script = ''hostname'', rp_TimeoutSeconds = 600, rp_Signature = Some sample_script_signature\<rparr>"
proof -
  have "\<not> equal_fold ''script'' ''timeout_seconds''" "\<not> equal_fold ''script'' ''signature''"
    "\<not> equal_fold ''timeout_seconds'' ''script''" "\<not> equal_fold ''timeout_seconds'' ''signature''"
    "\<not> equal_fold ''signature'' ''script''" "\<not> equal_fold ''signature'' ''timeout_seconds''"
    "\<not> equal_fold ''key_id'' ''signature''" "\<not> equal_fold ''signature'' ''key_id''" "atoi ''600'' = Some 600"
    by code_simp+
  then show ?thesis
    by (simp add: unmarshal_struct_def decodePayload_def dec_run_def sample_script_def dec_string_def dec_int_def
        dec_ptr_def dec_signature_def equal_fold_def)
qed

lemma sample_script_verified:
  "opsign_Verify sample_crypto [cr_public sample_crypto []] (ScriptManifest sample_crypto ''hostname'' [])
     (Some sample_script_signature) = None"
  unfolding sample_script_signature_def
  by (rule opsign_roundtrip [OF sample_crypto_ok]) (simp_all add: sample_crypto_def ScriptManifest_def)

lemma sample_script_runs:
  "RanPowerShell ''hostname'' (10 * minute) \<in> set (snd (Execute sample_crypto sample_updates (\<lambda>_. Some 0) sample_executor sample_script))"
proof -
  have "op_keys (e_Operations sample_executor) = [cr_public sample_crypto []]" by (simp add: sample_executor_def)
  then have "RanPowerShell ''hostname'' (dur_mul 600 second) \<in> set (snd (runPowerShell sample_crypto sample_executor (x_Payload sample_script) res))" for res
    using sample_script_verified
    by (simp add: runPowerShell_def Let_def sample_script_decoded dur_mul_def wrap64_def second_def trim_space_plain plain_def)
  moreover have "dur_mul 600 second = 10 * minute" by code_simp
  moreover have "x_Type sample_script = CommandRunPowerShell" by (simp add: sample_script_def)
  ultimately show ?thesis by (simp add: snd_Execute carry_out_def)
qed

theorem Execute_only_signed_witness:
  "(\<exists>sig. opsign_Verify sample_crypto [cr_public sample_crypto []] (ScriptManifest sample_crypto ''hostname'' []) sig = None)
   \<or> (\<exists>n. ValidComputerName n \<and> ''hostname'' = rename_script n) \<or> (\<exists>b. ''hostname'' = us_install sample_updates b)"
  using Execute_only_signed [OF _ sample_script_runs] by (simp add: sample_executor_def)

theorem GeneratePassword_strong_witness:
  "\<exists>pw. GeneratePassword (\<lambda>k. Some (7 * k)) 24 = Inr pw \<and> int (length pw) = 24
    \<and> list_all (\<lambda>a. list_ex (\<lambda>c. c \<in> set a) pw) passwordAlphabets \<and> set pw \<subseteq> set (concat passwordAlphabets)"
  by (rule GeneratePassword_strong) simp_all

definition sample_password :: string where
  "sample_password = (case GeneratePassword (\<lambda>_. Some 0) 20 of Inl _ \<Rightarrow> [] | Inr p \<Rightarrow> p)"

lemma sample_rotate_sets:
  "ChangedPassword ''Administrator'' sample_password \<in> set (snd (rotateAdminPassword (\<lambda>_. Some 0) sample_executor sample_rotate (new_result 5)))"
  by code_simp

theorem rotate_escrows_first_witness:
  "snd (rotateAdminPassword (\<lambda>_. Some 0) sample_executor sample_rotate (new_result 5)) =
     [EscrowedPassword \<lparr>er_CommandID = ''k'', er_Account = ''Administrator'', er_Password = sample_password\<rparr>,
      ChangedPassword ''Administrator'' sample_password]"
  using rotate_escrows_first [OF sample_rotate_sets] unfolding sample_rotate_def by auto

end
