(* ===== verification/Secrets.thy ===== *)
theory Secrets
  imports Retune_Prelude
begin

text \<open>
  The server's key (\<^verbatim>\<open>src/internal/server/secrets/secrets.go\<close>), which seals what must not be read from the database:
  local administrator passwords and the secrets of webhooks. The authenticated cipher is a parameter with its law.
\<close>

record aead =
  ae_NonceSize :: nat
  ae_Seal :: "string \<Rightarrow> string \<Rightarrow> string \<Rightarrow> string"
  ae_Open :: "string \<Rightarrow> string \<Rightarrow> string \<Rightarrow> string option"

text \<open>What sealing promises: opening with the same nonce and context gives the text back.\<close>

definition aead_ok :: "aead \<Rightarrow> bool" where
  "aead_ok A \<longleftrightarrow> (\<forall>nonce text context. length nonce = ae_NonceSize A \<longrightarrow>
     ae_Open A nonce (ae_Seal A nonce text context) context = Some text)"

text \<open>The random source fails, or fills the nonce with what it has drawn.\<close>

definition Key_Seal :: "aead \<Rightarrow> (nat \<Rightarrow> char) option \<Rightarrow> string \<Rightarrow> string \<Rightarrow> (string \<times> string) option" where
  "Key_Seal A rnd text context =
     (case rnd of
        None \<Rightarrow> None
      | Some f \<Rightarrow> let nonce = map f [0..<ae_NonceSize A] in Some (ae_Seal A nonce text context, nonce))"

definition Key_Open :: "aead \<Rightarrow> string \<Rightarrow> string \<Rightarrow> string \<Rightarrow> string option" where
  "Key_Open A ciphertext nonce context =
     (if length nonce \<noteq> ae_NonceSize A then None else ae_Open A nonce ciphertext context)"

lemma Key_roundtrip:
  "aead_ok A \<Longrightarrow> Key_Seal A rnd text context = Some (ct, nonce) \<Longrightarrow> Key_Open A ct nonce context = Some text"
  by (auto simp: Key_Seal_def Key_Open_def aead_ok_def Let_def split: option.splits)

end
