(* ===== verification/Laps.thy ===== *)
theory Laps
  imports Command_System Executor_Safety Secrets
begin

text \<open>
  The escrow of local administrator passwords: the service of
  \<^verbatim>\<open>src/internal/server/laps/service.go\<close> over the table of
  \<^verbatim>\<open>src/internal/server/store/adminpasswords.go\<close>, sealed with the key of
  \<^verbatim>\<open>src/internal/server/secrets\<close>. The table is the part of the database the command queue leaves to
  its hook: \<^verbatim>\<open>Settle\<close> is what the server sets \<^verbatim>\<open>OnComplete\<close> to. The authenticated cipher, the new
  identifier, the random nonce and \<^verbatim>\<open>uuid.Parse\<close> are arguments.
\<close>

section \<open>The table\<close>

abbreviation "AdminPasswordPending \<equiv> ''pending''"
abbreviation "AdminPasswordActive \<equiv> ''active''"
abbreviation "AdminPasswordSuperseded \<equiv> ''superseded''"
abbreviation "AdminPasswordAbandoned \<equiv> ''abandoned''"

record AdminPassword =
  ap_ID :: uuid
  ap_DeviceID :: uuid
  ap_Account :: string
  ap_Ciphertext :: string
  ap_Nonce :: string
  ap_State :: string
  ap_CommandID :: uuid
  ap_CreatedAt :: go_time
  ap_ActivatedAt :: "go_time option"

type_synonym laps_db = "AdminPassword list cmd_db"

definition UpsertPendingAdminPassword :: "AdminPassword \<Rightarrow> AdminPassword list \<Rightarrow> string + AdminPassword list" where
  "UpsertPendingAdminPassword p rows =
     (if list_ex (\<lambda>q. ap_CommandID q = ap_CommandID p) rows
      then Inr (map (\<lambda>q. if ap_CommandID q = ap_CommandID p \<and> ap_State q = AdminPasswordPending \<and> ap_DeviceID q = ap_DeviceID p
                          then q\<lparr>ap_Account := ap_Account p, ap_Ciphertext := ap_Ciphertext p, ap_Nonce := ap_Nonce p,
                                 ap_CreatedAt := ap_CreatedAt p\<rparr>
                          else q) rows)
      else if list_ex (\<lambda>q. ap_ID q = ap_ID p) rows then Inl ''duplicate key''
      else Inr (rows @ [p\<lparr>ap_State := AdminPasswordPending, ap_ActivatedAt := None\<rparr>]))"

text \<open>The statement sees the rows as they were before it: the row settled now is still pending to the
  part that supersedes.\<close>

definition settles :: "uuid \<Rightarrow> AdminPassword \<Rightarrow> bool" where
  "settles k q \<longleftrightarrow> ap_CommandID q = k \<and> ap_State q = AdminPasswordPending"

definition settle_row :: "uuid \<Rightarrow> bool \<Rightarrow> go_time \<Rightarrow> AdminPassword list \<Rightarrow> AdminPassword \<Rightarrow> AdminPassword" where
  "settle_row k ok at rows q =
     (if settles k q
      then (if ok then q\<lparr>ap_State := AdminPasswordActive, ap_ActivatedAt := Some at\<rparr>
            else q\<lparr>ap_State := AdminPasswordAbandoned\<rparr>)
      else if ok \<and> ap_State q = AdminPasswordActive
        \<and> list_ex (\<lambda>s. settles k s \<and> ap_DeviceID q = ap_DeviceID s
             \<and> to_lower (ap_Account q) = to_lower (ap_Account s) \<and> ap_ID q \<noteq> ap_ID s) rows
      then q\<lparr>ap_State := AdminPasswordSuperseded\<rparr>
      else q)"

definition SettleAdminPassword :: "uuid \<Rightarrow> bool \<Rightarrow> go_time \<Rightarrow> AdminPassword list \<Rightarrow> AdminPassword list" where
  "SettleAdminPassword k ok at rows = map (settle_row k ok at rows) rows"

definition GetAdminPassword :: "uuid \<Rightarrow> laps_db \<Rightarrow> (AdminPassword \<times> string) option" where
  "GetAdminPassword i db =
     (case find (\<lambda>p. ap_ID p = i) (db_rest db) of
        None \<Rightarrow> None
      | Some p \<Rightarrow> map_option (\<lambda>h. (p, fst h)) (map_of (db_hosts db) (ap_DeviceID p)))"

definition ListAdminPasswords :: "uuid \<Rightarrow> laps_db \<Rightarrow> AdminPassword list" where
  "ListAdminPasswords dev db =
     (if map_of (db_hosts db) dev = None then []
      else take 50 (rev (sort_key ap_CreatedAt (map (\<lambda>p. p\<lparr>ap_Ciphertext := [], ap_Nonce := []\<rparr>)
             (filter (\<lambda>p. ap_DeviceID p = dev) (db_rest db))))))"

section \<open>The service\<close>

datatype laps_error = NoSuchPassword | LapsBadRequest string | LapsConflict string | LapsInternal string

function rune_count :: "string \<Rightarrow> nat" where
  "rune_count s = (if s = [] then 0 else Suc (rune_count (drop (max 1 (utf8_len s)) s)))"
  by pat_completeness auto

termination
  by (relation "measure length") auto

declare rune_count.simps [simp del]

definition SealContext :: "uuid \<Rightarrow> string \<Rightarrow> string" where
  "SealContext dev account = ''admin-password:'' @ dev @ ''/'' @ to_upper account"

definition escrowAudit :: "uuid \<Rightarrow> string \<Rightarrow> uuid \<Rightarrow> audit_entry" where
  "escrowAudit dev account k = \<lparr>au_Actor = ''device:'' @ dev, au_Action = ''local_admin_password.escrowed'',
     au_TargetID = dev, au_Details = [(''account'', account), (''command_id'', k)]\<rparr>"

definition storePending :: "AdminPassword \<Rightarrow> laps_db \<Rightarrow> laps_error option \<times> laps_db" where
  "storePending p db =
     (case UpsertPendingAdminPassword p (db_rest db) of
        Inl e \<Rightarrow> (Some (LapsInternal e), db)
      | Inr rows \<Rightarrow> (None, db\<lparr>db_rest := rows,
          db_audit := db_audit db @ [escrowAudit (ap_DeviceID p) (ap_Account p) (ap_CommandID p)]\<rparr>))"

definition Escrow ::
  "(string \<Rightarrow> uuid option) \<Rightarrow> aead option \<Rightarrow> uuid \<Rightarrow> escrow_request \<Rightarrow> uuid \<Rightarrow> (nat \<Rightarrow> char) option \<Rightarrow> go_time
     \<Rightarrow> laps_db \<Rightarrow> laps_error option \<times> laps_db" where
  "Escrow parse key dev req new_id rnd now db =
     (case parse (er_CommandID req) of
        None \<Rightarrow> (Some NoSuchPassword, db)
      | Some k \<Rightarrow>
          let account = trim_space (er_Account req) in
          if account = [] \<or> length account > 256
          then (Some (LapsBadRequest ''an escrowed password needs its account''), db)
          else if rune_count (er_Password req) < 20 \<or> rune_count (er_Password req) > 64
          then (Some (LapsBadRequest ''the password must be 20 to 64 characters''), db)
          else (case key of
             None \<Rightarrow> (Some (LapsInternal ''this server has no key to protect passwords with''), db)
           | Some A \<Rightarrow>
               (case GetCommand k db of
                  None \<Rightarrow> (Some NoSuchPassword, db)
                | Some c \<Rightarrow>
                    if c_DeviceID c \<noteq> dev then (Some NoSuchPassword, db)
                    else if c_Type c \<noteq> CommandRotateAdminPassword
                    then (Some (LapsConflict ''the command sets no password''), db)
                    else if c_Status c \<noteq> CommandRunning then (Some (LapsConflict ''the command is not running''), db)
                    else (case Key_Seal A rnd (er_Password req) (SealContext dev account) of
                       None \<Rightarrow> (Some (LapsInternal ''the random source failed''), db)
                     | Some (ct, nonce) \<Rightarrow>
                         storePending \<lparr>ap_ID = new_id, ap_DeviceID = dev, ap_Account = account, ap_Ciphertext = ct,
                           ap_Nonce = nonce, ap_State = AdminPasswordPending, ap_CommandID = k, ap_CreatedAt = now,
                           ap_ActivatedAt = None\<rparr> db))))"

definition Settle :: "Command \<Rightarrow> string \<Rightarrow> go_time \<Rightarrow> AdminPassword list \<Rightarrow> string + AdminPassword list" where
  "Settle c status at rows =
     (if c_Type c \<noteq> CommandRotateAdminPassword then Inr rows
      else Inr (SettleAdminPassword (c_ID c) (status = ResultSucceeded) at rows))"

definition laps_service :: "public_key list \<Rightarrow> AdminPassword list cmd_service" where
  "laps_service keys = \<lparr>cs_OperationsKeys = keys, cs_OnComplete = Some Settle\<rparr>"

definition revealAudit :: "string \<Rightarrow> string \<Rightarrow> AdminPassword \<Rightarrow> string \<Rightarrow> audit_entry" where
  "revealAudit actor reason p host = \<lparr>au_Actor = actor, au_Action = ''local_admin_password.revealed'',
     au_TargetID = ap_DeviceID p,
     au_Details = [(''account'', ap_Account p), (''hostname'', host), (''state'', ap_State p), (''reason'', reason)]\<rparr>"

text \<open>\<open>audit_fails\<close>: the audit entry cannot be written.\<close>

definition Reveal ::
  "aead option \<Rightarrow> uuid \<Rightarrow> string \<Rightarrow> string \<Rightarrow> bool \<Rightarrow> laps_db \<Rightarrow> (laps_error + AdminPassword \<times> string) \<times> laps_db" where
  "Reveal key i actor reason0 audit_fails db =
     (let reason = trim_space reason0 in
      if reason = [] then (Inl (LapsBadRequest ''say why you need the password''), db)
      else if length reason > 500 then (Inl (LapsBadRequest ''the reason must be at most 500 characters''), db)
      else (case key of
         None \<Rightarrow> (Inl (LapsInternal ''this server has no key to read passwords with''), db)
       | Some A \<Rightarrow>
           (case GetAdminPassword i db of
              None \<Rightarrow> (Inl NoSuchPassword, db)
            | Some (p, host) \<Rightarrow>
                (case Key_Open A (ap_Ciphertext p) (ap_Nonce p) (SealContext (ap_DeviceID p) (ap_Account p)) of
                   None \<Rightarrow> (Inl (LapsInternal ''could not be decrypted''), db)
                 | Some plaintext \<Rightarrow>
                     if audit_fails then (Inl (LapsInternal ''record the reveal''), db)
                     else (Inr (p\<lparr>ap_Ciphertext := [], ap_Nonce := []\<rparr>, plaintext),
                           db\<lparr>db_audit := db_audit db @ [revealAudit actor reason p host]\<rparr>)))))"

section \<open>Facts about single operations\<close>

lemma storePending_cases:
  obtains (refused) e where "storePending p db = (Some e, db)"
  | (stored) rows where "UpsertPendingAdminPassword p (db_rest db) = Inr rows" "fst (storePending p db) = None"
      "db_rest (snd (storePending p db)) = rows" "db_commands (snd (storePending p db)) = db_commands db"
      "db_results (snd (storePending p db)) = db_results db" "db_hosts (snd (storePending p db)) = db_hosts db"
  by (cases "UpsertPendingAdminPassword p (db_rest db)") (auto simp: storePending_def)

lemma Escrow_cases:
  obtains (refused) e where "Escrow parse key dev req i rnd now db = (Some e, db)"
  | (stored) k A c ct nonce where
      "parse (er_CommandID req) = Some k" "key = Some A" "GetCommand k db = Some c" "c_DeviceID c = dev"
      "c_Type c = CommandRotateAdminPassword" "c_Status c = CommandRunning"
      "trim_space (er_Account req) \<noteq> []" "length (trim_space (er_Account req)) \<le> 256"
      "20 \<le> rune_count (er_Password req)" "rune_count (er_Password req) \<le> 64"
      "Key_Seal A rnd (er_Password req) (SealContext dev (trim_space (er_Account req))) = Some (ct, nonce)"
      "Escrow parse key dev req i rnd now db = storePending \<lparr>ap_ID = i, ap_DeviceID = dev,
         ap_Account = trim_space (er_Account req), ap_Ciphertext = ct, ap_Nonce = nonce,
         ap_State = AdminPasswordPending, ap_CommandID = k, ap_CreatedAt = now, ap_ActivatedAt = None\<rparr> db"
proof -
  define bad where "bad = (trim_space (er_Account req) = [] \<or> length (trim_space (er_Account req)) > 256)"
  define weak where "weak = (rune_count (er_Password req) < 20 \<or> rune_count (er_Password req) > 64)"
  show ?thesis
  proof (cases "parse (er_CommandID req)")
    case None
    then show ?thesis by (intro refused) (simp add: Escrow_def)
  next
    case (Some k)
    note k = this
    consider "bad" | "\<not> bad" "weak" | "\<not> bad" "\<not> weak" "key = None" | "\<not> bad" "\<not> weak" "GetCommand k db = None" "key \<noteq> None"
      | A c where "\<not> bad" "\<not> weak" "key = Some A" "GetCommand k db = Some c" by fastforce
    then show ?thesis
    proof cases
      case (5 A c)
      note * = this [unfolded bad_def weak_def]
      define seal where "seal = Key_Seal A rnd (er_Password req) (SealContext dev (trim_space (er_Account req)))"
      consider "c_DeviceID c \<noteq> dev" | "c_DeviceID c = dev" "c_Type c \<noteq> CommandRotateAdminPassword"
        | "c_DeviceID c = dev" "c_Type c = CommandRotateAdminPassword" "c_Status c \<noteq> CommandRunning"
        | "c_DeviceID c = dev" "c_Type c = CommandRotateAdminPassword" "c_Status c = CommandRunning" "seal = None"
        | ct nonce where "c_DeviceID c = dev" "c_Type c = CommandRotateAdminPassword" "c_Status c = CommandRunning"
            "seal = Some (ct, nonce)" by fastforce
      then show ?thesis
      proof cases
        case (5 ct nonce)
        with * k show ?thesis
          by (intro stored [of k A c ct nonce]) (simp_all add: Escrow_def seal_def)
      qed (use * k in \<open>auto intro!: refused simp: Escrow_def seal_def\<close>)
    qed (use k in \<open>auto intro!: refused simp: Escrow_def bad_def weak_def\<close>)
  qed
qed

end
