(* ===== verification/Laps_System.thy ===== *)
theory Laps_System
  imports Laps
begin

text \<open>
  The escrow, the command queue and a device together. The device runs commands as before; while it
  runs one it may escrow a password for it and then, if the server took it, set it. Requests and
  answers may be lost, and the agent may stop at any point. What is followed is the password in
  force on each account of the device, and the command that set it.
\<close>

datatype stage = NothingYet | Accepted string string | WasSet

record managed =
  mg_stage :: stage
  mg_passwords :: "string \<Rightarrow> (string \<times> string) option"

type_synonym laps_state = "laps_db \<times> agent_session \<times> managed"

text \<open>\<open>lp_system\<close>: a step of the queue and the agent; the escrow table changes with it only where a
  command is completed. \<open>lp_accepted\<close>, \<open>lp_unanswered\<close>: the device escrows for the command it runs;
  the answer arrives, or it does not and the executor takes the escrow as failed; the
  identifier of a command is written as \<^verbatim>\<open>uuid.Parse\<close> reads it back. \<open>lp_other\<close>: another
  device escrows. \<open>lp_set\<close>, \<open>lp_unset\<close>: the device sets the password, or fails to.\<close>

inductive laps_step ::
  "crypto \<Rightarrow> (string \<Rightarrow> uuid option) \<Rightarrow> aead option \<Rightarrow> public_key list \<Rightarrow> uuid \<Rightarrow> laps_state \<Rightarrow> laps_state \<Rightarrow> bool"
  for C parse key keys dev where
  lp_system: "system_step C (laps_service keys) dev (db, a) (db', a') \<Longrightarrow>
    db_rest db' = db_rest db \<or> (\<exists>d k r now. db' = snd (Complete (laps_service keys) d k r now db)) \<Longrightarrow>
    laps_step C parse key keys dev (db, a, g)
      (db', a', g\<lparr>mg_stage := (if a_worker a' = a_worker a then mg_stage g else NothingYet)\<rparr>)"
| lp_accepted: "a_worker a = Running cmd \<Longrightarrow> parse (w_ID cmd) = Some (w_ID cmd) \<Longrightarrow> mg_stage g = NothingYet \<Longrightarrow>
    Escrow parse key dev \<lparr>er_CommandID = w_ID cmd, er_Account = account, er_Password = pw\<rparr> i rnd now db = (None, db') \<Longrightarrow>
    laps_step C parse key keys dev (db, a, g) (db', a, g\<lparr>mg_stage := Accepted account pw\<rparr>)"
| lp_unanswered: "a_worker a = Running cmd \<Longrightarrow> parse (w_ID cmd) = Some (w_ID cmd) \<Longrightarrow> mg_stage g = NothingYet \<Longrightarrow>
    laps_step C parse key keys dev (db, a, g)
      (snd (Escrow parse key dev \<lparr>er_CommandID = w_ID cmd, er_Account = account, er_Password = pw\<rparr> i rnd now db), a, g)"
| lp_other: "d \<noteq> dev \<Longrightarrow> laps_step C parse key keys dev (db, a, g) (snd (Escrow parse key d req i rnd now db), a, g)"
| lp_set: "a_worker a = Running cmd \<Longrightarrow> mg_stage g = Accepted account pw \<Longrightarrow>
    laps_step C parse key keys dev (db, a, g)
      (db, a, g\<lparr>mg_stage := WasSet, mg_passwords := (mg_passwords g)(to_lower account \<mapsto> (pw, w_ID cmd))\<rparr>)"
| lp_unset: "a_worker a = Running cmd \<Longrightarrow> mg_stage g = Accepted account pw \<Longrightarrow>
    laps_step C parse key keys dev (db, a, g) (db, a, g\<lparr>mg_stage := WasSet\<rparr>)"

section \<open>What the parts do to one another\<close>

definition kept :: "'x cmd_db \<Rightarrow> 'x cmd_db \<Rightarrow> bool" where
  "kept db db' \<longleftrightarrow> (\<forall>c \<in> set (db_commands db). \<exists>c' \<in> set (db_commands db').
     c_ID c' = c_ID c \<and> c_DeviceID c' = c_DeviceID c \<and> (owed c' \<longrightarrow> owed c))"

lemma tame_kept: "tame dev ks db db' \<Longrightarrow> kept db db'"
  by (simp add: tame_def kept_def)

lemma kept_same: "db_commands db' = db_commands db \<Longrightarrow> kept db db'"
  by (auto simp: kept_def)

lemma kept_mine: "kept db db' \<Longrightarrow> mine d db k \<Longrightarrow> mine d db' k"
  unfolding kept_def mine_def by metis

lemma kept_ended: "kept db db' \<Longrightarrow> ended d db k \<Longrightarrow> ended d db' k"
  unfolding kept_def ended_def by metis

lemma system_step_kept:
  assumes "system_step C svc dev (db, a) (db', a')"
  shows "kept db db'"
  using assms
  by cases (auto intro: tame_kept tame_queue tame_deliver tame_start tame_expire tame_complete tame_insert kept_same)

lemma agent_step_worker:
  assumes "agent_step a act a'"
  shows "set (a_pruned a) \<subseteq> set (a_pruned a')
    \<and> (a_runs a' = a_runs a \<and> (\<forall>cmd. a_worker a' = Running cmd \<longrightarrow> a_worker a' = a_worker a)
       \<or> (\<exists>cmd. a_worker a = Marked cmd \<and> a_worker a' = Running cmd \<and> a_runs a' = a_runs a @ [w_ID cmd]))"
  using assms
  by (cases rule: agent_step.cases)
    (auto simp: enqueue_def finish_def QueueResult_def MarkStarted_def MarkCompleted_def DeleteResult_def release_def
      restart_agent_def PruneLedger_def)

lemma system_step_agent:
  assumes "system_step C svc dev (db, a) (db', a')"
  shows "a' = a \<or> (\<exists>act. agent_step a act a')"
  using assms by cases auto

lemma mine_unique: "well_kept db \<Longrightarrow> mine d db k \<Longrightarrow> mine d' db k \<Longrightarrow> d = d'"
  using GetCommand_unique [of db k] unfolding mine_def by (metis option.inject)

lemma ended_not_owed: "well_kept db \<Longrightarrow> ended d db k \<Longrightarrow> GetCommand k db = Some c \<Longrightarrow> \<not> owed c"
  using GetCommand_unique [of db k] unfolding ended_def by (metis option.inject)

lemma good_same:
  "db_commands db' = db_commands db \<Longrightarrow> db_results db' = db_results db \<Longrightarrow> good dev (db, a) \<Longrightarrow> good dev (db', a)"
  by (simp add: good_def well_kept_def sound_def mine_def ended_def)

lemma Complete_rest:
  fixes db :: laps_db
  assumes db': "db' = snd (Complete (laps_service keys) d k r now db)"
  obtains (same) "db_rest db' = db_rest db"
  | (settled) ok where "mine d db k" "ended d db' k" "db_rest db' = SettleAdminPassword k ok now (db_rest db)"
proof -
  define db1 where "db1 = snd (CompleteCommand k d (r_Status r) now db)"
  have rest1: "db_rest db1 = db_rest db" by (simp add: db1_def CompleteCommand_def updateCommands_def Let_def)
  define settled_now where "settled_now \<longleftrightarrow> (\<exists>c. resultStatus (r_Status r) \<and> fst (CompleteCommand k d (r_Status r) now db)
     \<and> GetCommand k db1 = Some c \<and> c_Type c = CommandRotateAdminPassword \<and> db_commands db' = db_commands db1
     \<and> db_rest db' = SettleAdminPassword (c_ID c) (r_Status r = ResultSucceeded) now (db_rest db))"
  have "db_rest db' = db_rest db \<or> settled_now"
  proof -
    obtain ok where cc: "CompleteCommand k d (r_Status r) now db = (ok, db1)" unfolding db1_def by (metis prod.collapse)
    show ?thesis
      unfolding db' settled_now_def using rest1 cc
      by (auto simp: Complete_def InsertCommandResult_def runOnComplete_def laps_service_def Settle_def GetCommand_def
          split: bool.splits option.splits if_splits)
  qed
  then show ?thesis
  proof
    assume settled_now
    then obtain c where c: "resultStatus (r_Status r)" "fst (CompleteCommand k d (r_Status r) now db)" "GetCommand k db1 = Some c"
      "db_commands db' = db_commands db1" "db_rest db' = SettleAdminPassword (c_ID c) (r_Status r = ResultSucceeded) now (db_rest db)"
      unfolding settled_now_def by blast
    have "mine d db k" using c(2) by (auto simp: CompleteCommand_sel mine_def)
    moreover have "ended d db' k" using completed_ended [OF \<open>mine d db k\<close> c(1,2), of db'] c(4) by (simp add: db1_def)
    moreover have "c_ID c = k" using c(3) unfolding GetCommand_def by (metis (mono_tags, lifting) find_Some_iff)
    ultimately show ?thesis using settled c(5) by blast
  qed (rule same)
qed

section \<open>The invariant\<close>

definition active :: "AdminPassword \<Rightarrow> bool" where
  "active p \<longleftrightarrow> ap_State p = AdminPasswordActive"

definition one_active :: "AdminPassword list \<Rightarrow> bool" where
  "one_active rows \<longleftrightarrow> (\<forall>p \<in> set rows. \<forall>q \<in> set rows. active p \<and> active q \<and> ap_DeviceID p = ap_DeviceID q
     \<and> to_lower (ap_Account p) = to_lower (ap_Account q) \<longrightarrow> ap_ID p = ap_ID q)"

definition rows_ok :: "laps_db \<Rightarrow> bool" where
  "rows_ok db \<longleftrightarrow> distinct (map ap_CommandID (db_rest db)) \<and> distinct (map ap_ID (db_rest db)) \<and> one_active (db_rest db)
     \<and> (\<forall>p \<in> set (db_rest db). mine (ap_DeviceID p) db (ap_CommandID p)
          \<and> (ap_State p = AdminPasswordPending \<or> ended (ap_DeviceID p) db (ap_CommandID p)))"

text \<open>\<open>holds A dev rows k account pw\<close>: the row of command \<open>k\<close> is the device's, for that account, and opens to
  that password.\<close>

definition opens_to :: "aead \<Rightarrow> uuid \<Rightarrow> string \<Rightarrow> string \<Rightarrow> string \<Rightarrow> AdminPassword \<Rightarrow> bool" where
  "opens_to A dev k account pw p \<longleftrightarrow> ap_CommandID p = k \<and> ap_DeviceID p = dev \<and> ap_Account p = trim_space account
     \<and> Key_Open A (ap_Ciphertext p) (ap_Nonce p) (SealContext dev (ap_Account p)) = Some pw"

definition holds :: "aead \<Rightarrow> uuid \<Rightarrow> AdminPassword list \<Rightarrow> uuid \<Rightarrow> string \<Rightarrow> string \<Rightarrow> bool" where
  "holds A dev rows k account pw \<longleftrightarrow> list_ex (opens_to A dev k account pw) rows"

definition running :: "agent_session \<Rightarrow> string \<Rightarrow> bool" where
  "running a k \<longleftrightarrow> (\<exists>cmd. a_worker a = Running cmd \<and> w_ID cmd = k)"

definition in_force :: "aead \<Rightarrow> uuid \<Rightarrow> AdminPassword list \<Rightarrow> agent_session \<Rightarrow> managed \<Rightarrow> bool" where
  "in_force A dev rows a g \<longleftrightarrow>
     (\<forall>acct pw k. mg_passwords g acct = Some (pw, k) \<longrightarrow>
        k \<in> set (a_runs a)
        \<and> (k \<in> set (a_pruned a)
           \<or> (\<exists>account. to_lower account = acct \<and> holds A dev rows k account pw) \<and> (running a k \<longrightarrow> mg_stage g = WasSet)))
     \<and> (\<forall>account pw. mg_stage g = Accepted account pw \<longrightarrow> (\<exists>k. running a k \<and> holds A dev rows k account pw))"

definition escrow_inv :: "aead \<Rightarrow> uuid \<Rightarrow> laps_state \<Rightarrow> bool" where
  "escrow_inv A dev x \<longleftrightarrow> (case x of (db, a, g) \<Rightarrow> good dev (db, a) \<and> rows_ok db \<and> in_force A dev (db_rest db) a g)"

subsection \<open>Settling\<close>

lemma Settle_sel:
  "length (SettleAdminPassword k ok at rows) = length rows"
  "map ap_CommandID (SettleAdminPassword k ok at rows) = map ap_CommandID rows"
  "map ap_ID (SettleAdminPassword k ok at rows) = map ap_ID rows"
  by (simp_all add: SettleAdminPassword_def settle_row_def)

lemma Settle_mem:
  assumes "p' \<in> set (SettleAdminPassword k ok at rows)"
  obtains p st ac where "p \<in> set rows" "p' = p\<lparr>ap_State := st, ap_ActivatedAt := ac\<rparr>"
    "st = ap_State p \<or> ap_CommandID p = k \<or> ap_State p \<noteq> AdminPasswordPending"
proof -
  from assms obtain p where p: "p \<in> set rows" "p' = settle_row k ok at rows p" by (auto simp: SettleAdminPassword_def)
  show thesis
  proof (cases "settles k p")
    case True
    have "p' = p\<lparr>ap_State := (if ok then AdminPasswordActive else AdminPasswordAbandoned),
        ap_ActivatedAt := (if ok then Some at else ap_ActivatedAt p)\<rparr>" using True by (simp add: p(2) settle_row_def)
    then show thesis by (rule that [OF p(1)]) (use True in \<open>simp add: settles_def\<close>)
  next
    case False
    show thesis
    proof (cases "p' = p")
      case True
      then have "p' = p\<lparr>ap_State := ap_State p, ap_ActivatedAt := ap_ActivatedAt p\<rparr>" by simp
      then show thesis by (rule that [OF p(1)]) simp
    next
      case f: False
      then have a: "ap_State p = AdminPasswordActive" "p' = p\<lparr>ap_State := AdminPasswordSuperseded\<rparr>"
        using p(2) False unfolding settle_row_def by (meson+)
      from a(2) have "p' = p\<lparr>ap_State := AdminPasswordSuperseded, ap_ActivatedAt := ap_ActivatedAt p\<rparr>" by simp
      then show thesis by (rule that [OF p(1)]) (simp add: a(1))
    qed
  qed
qed

lemma list_ex_map_same: "(\<And>x. P (f x) = P x) \<Longrightarrow> list_ex P (map f xs) = list_ex P xs"
  by (induction xs) auto

lemma opens_to_state [simp]:
  "opens_to A dev k account pw (p\<lparr>ap_State := st\<rparr>) = opens_to A dev k account pw p"
  "opens_to A dev k account pw (p\<lparr>ap_ActivatedAt := ac\<rparr>) = opens_to A dev k account pw p"
  by (simp_all add: opens_to_def)

lemma Settle_holds: "holds A dev (SettleAdminPassword j ok at rows) k account pw = holds A dev rows k account pw"
  unfolding holds_def SettleAdminPassword_def by (rule list_ex_map_same) (simp add: settle_row_def)

lemma rows_ok_kept:
  assumes "rows_ok db" "kept db db'" "db_rest db' = db_rest db"
  shows "rows_ok db'"
  using assms kept_mine [OF assms(2)] kept_ended [OF assms(2)] unfolding rows_ok_def by auto

lemma one_active_settle:
  assumes "distinct (map ap_CommandID rows)" "one_active rows"
  shows "one_active (SettleAdminPassword k ok at rows)"
proof -
  have was: "settles k p \<or> active p \<and> settle_row k ok at rows p = p" if "active (settle_row k ok at rows p)" for p
    using that by (cases "settles k p") (auto simp: active_def settle_row_def split: if_splits)
  have same: "ap_ID (settle_row k ok at rows p) = ap_ID p" "ap_DeviceID (settle_row k ok at rows p) = ap_DeviceID p"
    "ap_Account (settle_row k ok at rows p) = ap_Account p" for p by (simp_all add: settle_row_def)
  have over: "ap_ID q = ap_ID p"
    if "p \<in> set rows" "settles k p" "active (settle_row k ok at rows p)" "active q" "settle_row k ok at rows q = q" "ap_DeviceID q = ap_DeviceID p"
      "to_lower (ap_Account q) = to_lower (ap_Account p)" for p q
  proof (rule ccontr)
    assume "ap_ID q \<noteq> ap_ID p"
    then have ex: "list_ex (\<lambda>s. settles k s \<and> ap_DeviceID q = ap_DeviceID s \<and> to_lower (ap_Account q) = to_lower (ap_Account s)
        \<and> ap_ID q \<noteq> ap_ID s) rows" using that unfolding list_ex_iff by blast
    have "ok" using that(2,3) by (auto simp: active_def settle_row_def split: if_splits)
    moreover have "ap_State q = AdminPasswordActive" "\<not> settles k q" using that(4) by (simp_all add: active_def settles_def)
    ultimately have "settle_row k ok at rows q = q\<lparr>ap_State := AdminPasswordSuperseded\<rparr>" using ex by (simp add: settle_row_def)
    then have "ap_State (settle_row k ok at rows q) = AdminPasswordSuperseded" by simp
    with that(5) \<open>ap_State q = AdminPasswordActive\<close> show False by simp
  qed
  have one: "p = q" if "p \<in> set rows" "q \<in> set rows" "settles k p" "settles k q" for p q
    using assms(1) that by (auto simp: distinct_map settles_def inj_on_def)
  show ?thesis
    unfolding one_active_def SettleAdminPassword_def set_map
  proof (intro ballI impI)
    fix p' q' assume "p' \<in> settle_row k ok at rows ` set rows" "q' \<in> settle_row k ok at rows ` set rows"
      and h: "active p' \<and> active q' \<and> ap_DeviceID p' = ap_DeviceID q' \<and> to_lower (ap_Account p') = to_lower (ap_Account q')"
    then obtain p q where pq: "p \<in> set rows" "q \<in> set rows" "p' = settle_row k ok at rows p" "q' = settle_row k ok at rows q" by blast
    have "ap_ID p = ap_ID q"
      using was [of p] was [of q] over [of p q] over [of q p] one [of p q] h pq assms(2) unfolding one_active_def by (metis same)
    then show "ap_ID p' = ap_ID q'" unfolding pq same .
  qed
qed

lemma one_active_upsert:
  assumes "UpsertPendingAdminPassword p rows = Inr rows'" "one_active rows"
  shows "one_active rows'"
proof -
  have "\<exists>r \<in> set rows. active r \<and> ap_ID r = ap_ID q \<and> ap_DeviceID r = ap_DeviceID q \<and> ap_Account r = ap_Account q"
    if "q \<in> set rows'" "active q" for q
    using assms(1) that by (auto simp: UpsertPendingAdminPassword_def active_def split: if_splits)
  then show ?thesis using assms(2) unfolding one_active_def by metis
qed

lemma rows_ok_settle:
  assumes "rows_ok db" "kept db db'" "well_kept db" "mine d db k" "ended d db' k"
    "db_rest db' = SettleAdminPassword k ok now (db_rest db)"
  shows "rows_ok db'"
  unfolding rows_ok_def
proof (intro conjI ballI)
  show "distinct (map ap_CommandID (db_rest db'))" "distinct (map ap_ID (db_rest db'))"
    using assms(1) unfolding assms(6) Settle_sel rows_ok_def by blast+
  show "one_active (db_rest db')" using one_active_settle assms(1) unfolding assms(6) rows_ok_def by blast
next
  fix p' assume "p' \<in> set (db_rest db')"
  then obtain p st ac where p: "p \<in> set (db_rest db)" and p': "p' = p\<lparr>ap_State := st, ap_ActivatedAt := ac\<rparr>"
    and st: "st = ap_State p \<or> ap_CommandID p = k \<or> ap_State p \<noteq> AdminPasswordPending"
    unfolding assms(6) by (rule Settle_mem)
  have own: "mine (ap_DeviceID p) db (ap_CommandID p)"
    and or: "ap_State p = AdminPasswordPending \<or> ended (ap_DeviceID p) db (ap_CommandID p)"
    using assms(1) p unfolding rows_ok_def by blast+
  show "mine (ap_DeviceID p') db' (ap_CommandID p')" using kept_mine [OF assms(2) own] p' by simp
  show "ap_State p' = AdminPasswordPending \<or> ended (ap_DeviceID p') db' (ap_CommandID p')"
  proof (cases "ap_CommandID p = k")
    case True
    then have "ap_DeviceID p = d" using mine_unique [OF assms(3) own] assms(4) by simp
    with True assms(5) p' show ?thesis by simp
  next
    case False
    with st or kept_ended [OF assms(2)] p' show ?thesis by auto
  qed
qed

subsection \<open>Escrowing\<close>

definition replaced :: "AdminPassword \<Rightarrow> AdminPassword \<Rightarrow> AdminPassword" where
  "replaced p q = q\<lparr>ap_Account := ap_Account p, ap_Ciphertext := ap_Ciphertext p, ap_Nonce := ap_Nonce p,
     ap_CreatedAt := ap_CreatedAt p\<rparr>"

lemma Upsert_rows:
  assumes "UpsertPendingAdminPassword p rows = Inr rows'"
    "\<forall>q \<in> set rows. ap_CommandID q = ap_CommandID p \<longrightarrow> ap_State q = AdminPasswordPending \<and> ap_DeviceID q = ap_DeviceID p"
  obtains (again) q where "q \<in> set rows" "ap_CommandID q = ap_CommandID p"
      "rows' = map (\<lambda>q. if ap_CommandID q = ap_CommandID p then replaced p q else q) rows"
  | (added) "\<forall>q \<in> set rows. ap_CommandID q \<noteq> ap_CommandID p \<and> ap_ID q \<noteq> ap_ID p"
      "rows' = rows @ [p\<lparr>ap_State := AdminPasswordPending, ap_ActivatedAt := None\<rparr>]"
proof (cases "list_ex (\<lambda>q. ap_CommandID q = ap_CommandID p) rows")
  case True
  then obtain q where "q \<in> set rows" "ap_CommandID q = ap_CommandID p" by (auto simp: list_ex_iff)
  moreover have "rows' = map (\<lambda>q. if ap_CommandID q = ap_CommandID p \<and> ap_State q = AdminPasswordPending \<and> ap_DeviceID q = ap_DeviceID p
      then replaced p q else q) rows" using assms(1) True unfolding replaced_def by (simp add: UpsertPendingAdminPassword_def)
  then have "rows' = map (\<lambda>q. if ap_CommandID q = ap_CommandID p then replaced p q else q) rows"
    using assms(2) by auto
  ultimately show ?thesis by (rule again)
next
  case False
  then show ?thesis using assms(1) by (intro added) (auto simp: UpsertPendingAdminPassword_def list_ex_iff split: if_splits)
qed

lemma replaced_sel [simp]:
  "ap_CommandID (replaced p q) = ap_CommandID q" "ap_ID (replaced p q) = ap_ID q" "ap_State (replaced p q) = ap_State q"
  "ap_DeviceID (replaced p q) = ap_DeviceID q" "ap_Account (replaced p q) = ap_Account p"
  "ap_Ciphertext (replaced p q) = ap_Ciphertext p" "ap_Nonce (replaced p q) = ap_Nonce p"
  by (simp_all add: replaced_def)

lemma storePending_effect:
  assumes "well_kept db" "rows_ok db" "GetCommand (ap_CommandID p) db = Some c" "c_DeviceID c = ap_DeviceID p"
    "c_Status c = CommandRunning" "UpsertPendingAdminPassword p (db_rest db) = Inr rows'"
  shows "distinct (map ap_CommandID rows') \<and> distinct (map ap_ID rows')
    \<and> (\<forall>q \<in> set rows'. mine (ap_DeviceID q) db (ap_CommandID q)
          \<and> (ap_State q = AdminPasswordPending \<or> ended (ap_DeviceID q) db (ap_CommandID q)))
    \<and> (\<exists>q \<in> set rows'. ap_CommandID q = ap_CommandID p \<and> ap_DeviceID q = ap_DeviceID p \<and> ap_Account q = ap_Account p
          \<and> ap_Ciphertext q = ap_Ciphertext p \<and> ap_Nonce q = ap_Nonce p)
    \<and> (\<forall>q. ap_CommandID q \<noteq> ap_CommandID p \<longrightarrow> (q \<in> set rows' \<longleftrightarrow> q \<in> set (db_rest db)))"
proof -
  have ok: "distinct (map ap_CommandID (db_rest db))" "distinct (map ap_ID (db_rest db))"
    and own: "\<And>q. q \<in> set (db_rest db) \<Longrightarrow> mine (ap_DeviceID q) db (ap_CommandID q)
       \<and> (ap_State q = AdminPasswordPending \<or> ended (ap_DeviceID q) db (ap_CommandID q))"
    using assms(2) unfolding rows_ok_def by blast+
  have cmd: "mine (ap_DeviceID p) db (ap_CommandID p)"
    using GetCommand_unique [OF assms(1)] assms(3,4) unfolding mine_def by blast
  have "owed c" using assms(5) by (simp add: owed_def)
  then have fits: "ap_State q = AdminPasswordPending \<and> ap_DeviceID q = ap_DeviceID p"
    if "q \<in> set (db_rest db)" "ap_CommandID q = ap_CommandID p" for q
    using own [OF that(1)] that(2) mine_unique [OF assms(1) _ cmd] ended_not_owed [OF assms(1) _ assms(3)] by metis
  show ?thesis
  proof (cases rule: Upsert_rows [OF assms(6), case_names premise again added])
    case premise
    show ?case using fits by blast
  next
    case (again q)
    let ?f = "\<lambda>q. if ap_CommandID q = ap_CommandID p then replaced p q else q"
    have ids: "map ap_CommandID rows' = map ap_CommandID (db_rest db)" "map ap_ID rows' = map ap_ID (db_rest db)"
      unfolding again(3) by simp_all
    have "?f q \<in> set rows'" using again(1,3) by simp
    then have "\<exists>q \<in> set rows'. ap_CommandID q = ap_CommandID p \<and> ap_DeviceID q = ap_DeviceID p \<and> ap_Account q = ap_Account p
          \<and> ap_Ciphertext q = ap_Ciphertext p \<and> ap_Nonce q = ap_Nonce p"
      using again(2) fits [OF again(1,2)] by (intro bexI [of _ "?f q"]) simp_all
    moreover have "mine (ap_DeviceID q') db (ap_CommandID q')
          \<and> (ap_State q' = AdminPasswordPending \<or> ended (ap_DeviceID q') db (ap_CommandID q'))" if "q' \<in> set rows'" for q'
    proof -
      from that again(3) obtain r where "r \<in> set (db_rest db)" "q' = ?f r" by auto
      then show ?thesis using own [of r] by (cases "ap_CommandID r = ap_CommandID p") simp_all
    qed
    moreover have "q' \<in> set rows' \<longleftrightarrow> q' \<in> set (db_rest db)" if "ap_CommandID q' \<noteq> ap_CommandID p" for q'
      using that unfolding again(3) by (auto simp: image_iff)
    ultimately show ?thesis using ok unfolding ids by blast
  next
    case added
    define np where "np = p\<lparr>ap_State := AdminPasswordPending, ap_ActivatedAt := None\<rparr>"
    have np: "ap_CommandID np = ap_CommandID p" "ap_ID np = ap_ID p" "ap_DeviceID np = ap_DeviceID p" "ap_Account np = ap_Account p"
      "ap_Ciphertext np = ap_Ciphertext p" "ap_Nonce np = ap_Nonce p" "ap_State np = AdminPasswordPending"
      by (simp_all add: np_def)
    have rows': "rows' = db_rest db @ [np]" using added(2) by (simp add: np_def)
    have "distinct (map ap_CommandID rows')" "distinct (map ap_ID rows')" using ok added(1) unfolding rows' by (auto simp: np)
    moreover have "\<exists>q \<in> set rows'. ap_CommandID q = ap_CommandID p \<and> ap_DeviceID q = ap_DeviceID p \<and> ap_Account q = ap_Account p
          \<and> ap_Ciphertext q = ap_Ciphertext p \<and> ap_Nonce q = ap_Nonce p"
      unfolding rows' by (intro bexI [of _ np]) (simp_all add: np)
    moreover have "\<forall>q \<in> set rows'. mine (ap_DeviceID q) db (ap_CommandID q)
          \<and> (ap_State q = AdminPasswordPending \<or> ended (ap_DeviceID q) db (ap_CommandID q))"
      using own cmd unfolding rows' by (auto simp: np)
    moreover have "\<forall>q. ap_CommandID q \<noteq> ap_CommandID p \<longrightarrow> (q \<in> set rows' \<longleftrightarrow> q \<in> set (db_rest db))"
      unfolding rows' by (auto simp: np)
    ultimately show ?thesis by blast
  qed
qed

lemma holds_iff: "holds A dev rows k account pw \<longleftrightarrow> (\<exists>p \<in> set rows. opens_to A dev k account pw p)"
  by (auto simp: holds_def list_ex_iff)

lemma Escrow_effect:
  assumes "well_kept db" "rows_ok db" "Escrow parse key d req i rnd now db = (e, db')"
  obtains (refused) "db' = db" "e \<noteq> None"
  | (stored) k A where "e = None" "parse (er_CommandID req) = Some k" "key = Some A" "mine d db k" "rows_ok db'"
      "db_commands db' = db_commands db" "db_results db' = db_results db"
      "aead_ok A \<Longrightarrow> holds A d (db_rest db') k (er_Account req) (er_Password req)"
      "\<And>A' d' j account pw. j \<noteq> k \<Longrightarrow> holds A' d' (db_rest db') j account pw = holds A' d' (db_rest db) j account pw"
proof (cases rule: Escrow_cases [of parse key d req i rnd now db, case_names refused stored])
  case (refused e)
  then show ?thesis using assms(3) that(1) by simp
next
  case (stored k A c ct nonce)
  define p where "p = \<lparr>ap_ID = i, ap_DeviceID = d, ap_Account = trim_space (er_Account req), ap_Ciphertext = ct,
    ap_Nonce = nonce, ap_State = AdminPasswordPending, ap_CommandID = k, ap_CreatedAt = now, ap_ActivatedAt = None\<rparr>"
  have sp: "storePending p db = (e, db')" using stored(12) assms(3) by (simp add: p_def)
  show ?thesis
  proof (cases rule: storePending_cases [of p db, case_names refused stored])
    case (refused e')
    then show ?thesis using sp that(1) by simp
  next
    case s: (stored rows')
    have psel: "ap_CommandID p = k" "ap_DeviceID p = d" "ap_Account p = trim_space (er_Account req)" "ap_Ciphertext p = ct"
      "ap_Nonce p = nonce" by (simp_all add: p_def)
    have db': "db_rest db' = rows'" "db_commands db' = db_commands db" "db_results db' = db_results db" "e = None"
      using s sp by simp_all
    have eff: "distinct (map ap_CommandID rows')" "distinct (map ap_ID rows')"
      "\<forall>q \<in> set rows'. mine (ap_DeviceID q) db (ap_CommandID q)
          \<and> (ap_State q = AdminPasswordPending \<or> ended (ap_DeviceID q) db (ap_CommandID q))"
      "\<exists>q \<in> set rows'. ap_CommandID q = k \<and> ap_DeviceID q = d \<and> ap_Account q = trim_space (er_Account req)
          \<and> ap_Ciphertext q = ct \<and> ap_Nonce q = nonce"
      "\<And>q. ap_CommandID q \<noteq> k \<Longrightarrow> q \<in> set rows' \<longleftrightarrow> q \<in> set (db_rest db)"
      using storePending_effect [OF assms(1,2), of p c rows'] stored(3,4,6) s(1) unfolding psel by blast+
    have "one_active rows'" using one_active_upsert [OF s(1)] assms(2) unfolding rows_ok_def by blast
    then have "rows_ok db'"
      using eff(1-3) kept_mine [OF kept_same [OF db'(2)]] kept_ended [OF kept_same [OF db'(2)]]
      unfolding rows_ok_def db'(1) by blast
    moreover have "mine d db k" using stored(3,4) GetCommand_unique [OF assms(1)] unfolding mine_def by blast
    moreover have "holds A d (db_rest db') k (er_Account req) (er_Password req)" if ok: "aead_ok A"
      using eff(4) Key_roundtrip [OF ok stored(11)] unfolding holds_iff opens_to_def db'(1) by metis
    moreover have "holds A' d' (db_rest db') j account pw = holds A' d' (db_rest db) j account pw" if "j \<noteq> k" for A' d' j account pw
      using eff(5) that unfolding holds_iff opens_to_def db'(1) by metis
    ultimately show ?thesis using that(2) [of k A] stored(1,2) db'(2-4) by blast
  qed
qed

subsection \<open>Steps\<close>

lemma count_list_append1: "count_list (xs @ [x]) x = Suc (count_list xs x)"
  by simp

lemma in_force_system:
  assumes "in_force A dev rows a g" "a' = a \<or> (\<exists>act. agent_step a act a')" "orderly a'"
    "\<And>k account pw. holds A dev rows' k account pw = holds A dev rows k account pw"
  shows "in_force A dev rows' a' (g\<lparr>mg_stage := (if a_worker a' = a_worker a then mg_stage g else NothingYet)\<rparr>)"
proof -
  have w: "set (a_pruned a) \<subseteq> set (a_pruned a')" "set (a_runs a) \<subseteq> set (a_runs a')"
    and new: "\<And>k. running a' k \<Longrightarrow> a_worker a' \<noteq> a_worker a \<Longrightarrow> a_runs a' = a_runs a @ [k]"
    using assms(2) agent_step_worker unfolding running_def by fastforce+
  have once: "k \<in> set (a_pruned a')" if "k \<in> set (a_runs a)" "running a' k" "a_worker a' \<noteq> a_worker a" for k
  proof (rule ccontr)
    assume "k \<notin> set (a_pruned a')"
    then have "count_list (a_runs a') k \<le> 1"
      using orderlyD(5) [OF assms(3), THEN spec, of k] by (simp add: count_list_0_iff split: if_splits)
    then have "count_list (a_runs a) k = 0" unfolding new [OF that(2,3)] count_list_append1 by simp
    with that(1) show False by (simp add: count_list_0_iff)
  qed
  have same: "running a' k = running a k" if "a_worker a' = a_worker a" for k using that by (simp add: running_def)
  show ?thesis
    using assms(1,4) w once same unfolding in_force_def
    by (simp split: if_splits) (metis subsetD)
qed

text \<open>Storing a password for \<open>k\<close> does no harm if the device is about to set its first one for \<open>k\<close>, or has
  nothing in the row of \<open>k\<close>.\<close>

lemma in_force_stored:
  assumes "in_force A dev rows a g"
    "\<And>j account pw. j \<noteq> k \<Longrightarrow> holds A dev rows' j account pw = holds A dev rows j account pw"
    "running a k \<and> mg_stage g = NothingYet \<or> (\<forall>account pw. \<not> holds A dev rows k account pw)"
  shows "in_force A dev rows' a g"
proof -
  have keep: "holds A dev rows' j account pw"
    if "holds A dev rows j account pw" "running a j \<longrightarrow> mg_stage g \<noteq> NothingYet" for j account pw
    using assms(2,3) that by (cases "j = k") auto
  have "mg_stage g = WasSet \<Longrightarrow> mg_stage g \<noteq> NothingYet" "mg_stage g = Accepted account pw \<Longrightarrow> mg_stage g \<noteq> NothingYet" for account pw
    by simp_all
  then show ?thesis using assms(1) keep unfolding in_force_def by metis
qed

lemma escrow_inv_escrow:
  assumes "good dev (db, a)" "rows_ok db" "in_force A dev (db_rest db) a g" "aead_ok A"
    "Escrow parse (Some A) d req i rnd now db = (e, db')" "parse (er_CommandID req) = Some k"
    "running a k \<and> mg_stage g = NothingYet \<or> d \<noteq> dev"
  shows "good dev (db', a) \<and> rows_ok db' \<and> in_force A dev (db_rest db') a g
    \<and> (e = None \<longrightarrow> holds A d (db_rest db') k (er_Account req) (er_Password req))"
proof -
  have wk: "well_kept db" using assms(1) by (simp add: good_def)
  show ?thesis
  proof (cases rule: Escrow_effect [OF wk assms(2,5), case_names refused stored])
    case refused
    then show ?thesis using assms(1-3) by auto
  next
    case (stored j A')
    have [simp]: "j = k" "A' = A" using stored(2,3) assms(6) by simp_all
    have "\<not> holds A dev (db_rest db) k account pw" if "d \<noteq> dev" for account pw
    proof
      assume "holds A dev (db_rest db) k account pw"
      then obtain p where "p \<in> set (db_rest db)" "ap_CommandID p = k" "ap_DeviceID p = dev" unfolding holds_iff opens_to_def by blast
      then have "mine dev db k" using assms(2) unfolding rows_ok_def by blast
      with that mine_unique [OF wk _ stored(4)] show False by simp
    qed
    then have "in_force A dev (db_rest db') a g"
      using in_force_stored [OF assms(3), of k "db_rest db'"] stored(9) assms(7) by auto
    then show ?thesis using stored(5,8) good_same [OF stored(6,7) assms(1)] assms(4) by simp
  qed
qed

lemma escrow_inv_step:
  assumes "laps_step C parse (Some A) keys dev x y" "escrow_inv A dev x" "aead_ok A"
  shows "escrow_inv A dev y"
  using assms(1,2)
proof (induction rule: laps_step.induct)
  case (lp_system db a db' a' g)
  have inv: "good dev (db, a)" "rows_ok db" "in_force A dev (db_rest db) a g" using lp_system(3) by (simp_all add: escrow_inv_def)
  have good: "good dev (db', a')" by (rule good_step [OF lp_system(1) inv(1)])
  have kept: "kept db db'" by (rule system_step_kept [OF lp_system(1)])
  have "rows_ok db' \<and> (\<forall>k account pw. holds A dev (db_rest db') k account pw = holds A dev (db_rest db) k account pw)"
    using lp_system(2)
  proof (elim disjE exE)
    assume "db_rest db' = db_rest db"
    then show ?thesis using rows_ok_kept [OF inv(2) kept] by simp
  next
    fix d k r now assume c: "db' = snd (Complete (laps_service keys) d k r now db)"
    show ?thesis
    proof (cases rule: Complete_rest [OF c, case_names same settled])
      case same
      then show ?thesis using rows_ok_kept [OF inv(2) kept] by simp
    next
      case (settled ok)
      have "well_kept db" using inv(1) by (simp add: good_def)
      then show ?thesis using rows_ok_settle [OF inv(2) kept _ settled] Settle_holds unfolding settled(3) by simp
    qed
  qed
  then have "rows_ok db'" "in_force A dev (db_rest db') a' (g\<lparr>mg_stage := (if a_worker a' = a_worker a then mg_stage g else NothingYet)\<rparr>)"
    using in_force_system [OF inv(3) system_step_agent [OF lp_system(1)], of "db_rest db'"] good by (simp_all add: good_def)
  then show ?case using good by (simp add: escrow_inv_def)
next
  case (lp_accepted a cmd g account pw i rnd now db db')
  have inv: "good dev (db, a)" "rows_ok db" "in_force A dev (db_rest db) a g" using lp_accepted(5) by (simp_all add: escrow_inv_def)
  have run: "running a (w_ID cmd)" using lp_accepted(1) by (simp add: running_def)
  have "good dev (db', a) \<and> rows_ok db' \<and> in_force A dev (db_rest db') a g \<and> holds A dev (db_rest db') (w_ID cmd) account pw"
    using escrow_inv_escrow [OF inv assms(3) lp_accepted(4)] run lp_accepted(2,3) by simp
  moreover from this run lp_accepted(3) have "in_force A dev (db_rest db') a (g\<lparr>mg_stage := Accepted account pw\<rparr>)"
    unfolding in_force_def by fastforce
  ultimately show ?case by (simp add: escrow_inv_def)
next
  case (lp_unanswered a cmd g db account pw i rnd now)
  have inv: "good dev (db, a)" "rows_ok db" "in_force A dev (db_rest db) a g" using lp_unanswered(4) by (simp_all add: escrow_inv_def)
  have run: "running a (w_ID cmd)" using lp_unanswered(1) by (simp add: running_def)
  show ?case
    using escrow_inv_escrow [OF inv assms(3) surjective_pairing] run lp_unanswered(2,3)
    by (simp add: escrow_inv_def)
next
  case (lp_other d db a g req i rnd now)
  have inv: "good dev (db, a)" "rows_ok db" "in_force A dev (db_rest db) a g" using lp_other(2) by (simp_all add: escrow_inv_def)
  show ?case
  proof (cases "parse (er_CommandID req)")
    case None
    then show ?thesis using lp_other(2) by (simp add: Escrow_def)
  next
    case (Some k)
    then show ?thesis
      using escrow_inv_escrow [OF inv assms(3) surjective_pairing] lp_other(1) by (simp add: escrow_inv_def)
  qed
next
  case (lp_set a cmd g account pw db)
  have inv: "good dev (db, a)" "rows_ok db" "in_force A dev (db_rest db) a g" using lp_set(3) by (simp_all add: escrow_inv_def)
  obtain k where "running a k" "holds A dev (db_rest db) k account pw" using inv(3) lp_set(2) unfolding in_force_def by blast
  then have h: "holds A dev (db_rest db) (w_ID cmd) account pw" using lp_set(1) by (simp add: running_def)
  have "w_ID cmd \<in> set (a_runs a)" using inv(1) lp_set(1) by (auto simp: good_def sound_def)
  then have "in_force A dev (db_rest db) a
      (g\<lparr>mg_stage := WasSet, mg_passwords := (mg_passwords g)(to_lower account \<mapsto> (pw, w_ID cmd))\<rparr>)"
    using inv(3) h unfolding in_force_def by auto
  then show ?case using inv by (simp add: escrow_inv_def)
next
  case (lp_unset a cmd g account pw db)
  then show ?case by (auto simp: escrow_inv_def in_force_def)
qed

section \<open>The password in force\<close>

definition fresh_laps :: "laps_state \<Rightarrow> bool" where
  "fresh_laps x \<longleftrightarrow> (case x of (db, a, g) \<Rightarrow> fresh_system (db, a) \<and> db_rest db = []
     \<and> g = \<lparr>mg_stage = NothingYet, mg_passwords = Map.empty\<rparr>)"

interpretation escrow: state_machine "laps_step C parse (Some A) keys dev" fresh_laps "\<lambda>x. aead_ok A \<longrightarrow> escrow_inv A dev x"
  for C parse A keys dev
proof unfold_locales
  fix A dev x assume "fresh_laps x"
  obtain db a g where x: "x = (db, a, g)" by (cases x) auto
  have "fresh_system (db, a)" "db_rest db = []" "g = \<lparr>mg_stage = NothingYet, mg_passwords = Map.empty\<rparr>"
    using \<open>fresh_laps x\<close> unfolding fresh_laps_def x by simp_all
  then show "aead_ok A \<longrightarrow> escrow_inv A dev x" unfolding x escrow_inv_def using fleet.starts [of "(db, a)" dev]
    by (simp add: rows_ok_def one_active_def in_force_def)
qed (blast intro: escrow_inv_step)

section \<open>With retention\<close>

lemma storePending_without:
  "storePending p (without gone db) = (fst (storePending p db), without gone (snd (storePending p db)))"
  by (simp add: storePending_def without_upd split: sum.split)

lemma Escrow_without:
  assumes "parse (er_CommandID req) = Some k" "k \<notin> c_ID ` set gone"
  shows "Escrow parse key d req i rnd now (without gone db)
    = (fst (Escrow parse key d req i rnd now db), without gone (snd (Escrow parse key d req i rnd now db)))"
  using find_without [OF assms(2), of db] assms(1)
  by (simp add: Escrow_def Let_def storePending_without split: option.split)

text \<open>For a removed command the device is refused.\<close>

lemma Escrow_follows:
  "(\<exists>e. Escrow parse key d req i rnd now (without gone db) = (Some e, without gone db))
   \<or> Escrow parse key d req i rnd now (without gone db)
       = (fst (Escrow parse key d req i rnd now db), without gone (snd (Escrow parse key d req i rnd now db)))"
proof (cases rule: Escrow_cases [of parse key d req i rnd now "without gone db"])
  case (stored k A c ct nonce)
  have "k \<notin> c_ID ` set gone" using find_gone [of k gone db] stored(3) by auto
  then show ?thesis using Escrow_without [where parse = parse, OF stored(1)] by blast
qed blast

lemma Escrow_commands: "db_commands (snd (Escrow parse key d req i rnd now db)) = db_commands db"
  by (cases rule: Escrow_cases [of parse key d req i rnd now db]) (auto simp: storePending_def split: sum.split)

lemma Escrow_past: "past gone db \<Longrightarrow> past gone (snd (Escrow parse key d req i rnd now db))"
  by (rule past_same [where db = db]) (simp_all add: Escrow_commands)

lemma laps_follows:
  assumes "laps_step C parse key keys dev (without gone whole, a, g) (db', a', g')" "well_kept whole" "past gone whole" "unused gone db'"
  shows "\<exists>whole'. db' = without gone whole' \<and> past gone whole'
    \<and> (laps_step C parse key keys dev (whole, a, g) (whole', a', g') \<or> (whole', a', g') = (whole, a, g))"
  using assms(1)
proof cases
  case lp_system
  obtain whole' where w: "db' = without gone whole'" "past gone whole'"
    "system_step C (laps_service keys) dev (whole, a) (whole', a') \<or> (whole', a') = (whole, a)"
    "db_rest whole' = db_rest whole \<or> (\<exists>d k r now. whole' = snd (Complete (laps_service keys) d k r now whole))
       \<or> db_commands db' = db_commands (without gone whole)"
    using system_follows [OF lp_system(2) assms(2-4)] by blast
  have "db_rest whole' = db_rest whole \<or> (\<exists>d k r now. whole' = snd (Complete (laps_service keys) d k r now whole))"
  proof (cases "db_commands db' = db_commands (without gone whole)")
    case True
    have "db_rest db' = db_rest (without gone whole)" using lp_system(3) True Complete_same by metis
    then show ?thesis using w(1) by simp
  qed (use w(4) in blast)
  then show ?thesis using w(1-3) laps_step.lp_system [of C keys dev whole a whole' a' parse key g] lp_system(1)
    by (intro exI [of _ whole']) auto
next
  case (lp_accepted cmd account pw i rnd now)
  from Escrow_follows [of parse key dev "\<lparr>er_CommandID = w_ID cmd, er_Account = account, er_Password = pw\<rparr>" i rnd now gone whole]
  obtain whole' where "Escrow parse key dev \<lparr>er_CommandID = w_ID cmd, er_Account = account, er_Password = pw\<rparr> i rnd now whole = (None, whole')"
    "db' = without gone whole'" using lp_accepted(6) by (auto simp: prod_eq_iff)
  then show ?thesis
    using laps_step.lp_accepted [where parse = parse, OF lp_accepted(3-5), of key dev account pw i rnd now whole whole' C keys] lp_accepted(1,2)
      Escrow_past [OF assms(3), of parse key dev "\<lparr>er_CommandID = w_ID cmd, er_Account = account, er_Password = pw\<rparr>" i rnd now]
    by (intro exI [of _ whole']) auto
next
  case (lp_unanswered cmd account pw i rnd now)
  define req where "req = \<lparr>er_CommandID = w_ID cmd, er_Account = account, er_Password = pw\<rparr>"
  have "db' = without gone whole \<or> db' = without gone (snd (Escrow parse key dev req i rnd now whole))"
    using Escrow_follows [of parse key dev req i rnd now gone whole] lp_unanswered(1) by (auto simp: req_def)
  then show ?thesis
    using assms(3) Escrow_past [OF assms(3), of parse key dev req i rnd now] lp_unanswered(2,3)
      laps_step.lp_unanswered [where parse = parse, OF lp_unanswered(4-6), of C key keys dev whole account pw i rnd now] by (auto simp: req_def)
next
  case (lp_other d req i rnd now)
  have "db' = without gone whole \<or> db' = without gone (snd (Escrow parse key d req i rnd now whole))"
    using Escrow_follows [of parse key d req i rnd now gone whole] lp_other(1) by auto
  then show ?thesis
    using assms(3) Escrow_past [OF assms(3), of parse key d req i rnd now] lp_other(2,3)
      laps_step.lp_other [OF lp_other(4), of C parse key keys whole a g req i rnd now] by auto
next
  case (lp_set cmd account pw)
  then show ?thesis using assms(3) laps_step.lp_set [OF lp_set(4,5)] by blast
next
  case (lp_unset cmd account pw)
  then show ?thesis using assms(3) laps_step.lp_unset [OF lp_unset(4,5)] by blast
qed

interpretation kept_escrow: retained_system "laps_step C parse (Some A) keys dev" "\<lambda>x. fresh_laps x \<and> aead_ok A" "\<lambda>x. aead_ok A \<and> escrow_inv A dev x"
  for C parse A keys dev
proof unfold_locales
  fix A dev x assume "fresh_laps x \<and> aead_ok A"
  then show "aead_ok A \<and> escrow_inv A dev x" using escrow.starts by blast
next
  fix C parse A keys dev x y assume "aead_ok A \<and> escrow_inv A dev x" "laps_step C parse (Some A) keys dev x y"
  then show "aead_ok A \<and> escrow_inv A dev y" using escrow_inv_step by blast
next
  fix C parse A keys dev whole gone db' and s s' :: "agent_session \<times> managed"
  assume *: "aead_ok A \<and> escrow_inv A dev (whole, s)" "past gone whole"
    "laps_step C parse (Some A) keys dev (without gone whole, s) (db', s')" "unused gone db'"
  obtain a g a' g' where s: "s = (a, g)" "s' = (a', g')" by (cases s, cases s')
  have "well_kept whole" using *(1) by (simp add: s escrow_inv_def good_def)
  from laps_follows [OF *(3) [unfolded s] this *(2,4)]
  show "\<exists>whole'. db' = without gone whole' \<and> past gone whole'
      \<and> (laps_step C parse (Some A) keys dev (whole, s) (whole', s') \<or> (whole', s') = (whole, s))" by (simp add: s)
qed

lemma escrow_inv_retained:
  assumes "(with_retention (laps_step C parse (Some A) keys dev))\<^sup>*\<^sup>* (db0, s0, []) (db, (a, g), gone)" "fresh_laps (db0, s0)" "aead_ok A"
  obtains whole where "db = without gone whole" "escrow_inv A dev (whole, a, g)"
  using kept_escrow.traced [OF assms(1) refl] kept_escrow.reached [of C parse A keys dev "(db0, s0)"] assms(2,3) by blast

lemma Reveal_opens:
  assumes "rows_ok db" "p \<in> set (db_rest db)" "opens_to A dev k account pw p" "map_of (db_hosts db) dev = Some h"
    "trim_space reason \<noteq> []" "length (trim_space reason) \<le> 500"
  shows "fst (Reveal (Some A) (ap_ID p) actor reason False db) = Inr (p\<lparr>ap_Ciphertext := [], ap_Nonce := []\<rparr>, pw)"
proof -
  have "distinct (map ap_ID (db_rest db))" using assms(1) by (simp add: rows_ok_def)
  then have "find (\<lambda>q. ap_ID q = ap_ID p) (db_rest db) = Some p"
    using assms(2) by (auto simp: find_Some_iff in_set_conv_nth distinct_conv_nth)
  then have "GetAdminPassword (ap_ID p) db = Some (p, fst h)" using assms(3,4) by (simp add: GetAdminPassword_def opens_to_def)
  then show ?thesis using assms(3,5,6) by (auto simp: Reveal_def Let_def opens_to_def)
qed

lemma Reveal_without: "fst (Reveal key i actor reason fails (without gone db)) = fst (Reveal key i actor reason fails db)"
  by (simp add: Reveal_def Let_def GetAdminPassword_def split: option.split)

text \<open>
  C5. Nobody is locked out: in every state the server, the command queue and the device can reach,
  whatever requests and answers are lost, wherever the agent stops, and whether the rotation is
  shown as succeeded, failed or still running, the password that the device last set on an account
  is in the server's table, in the row of the command that set it, sealed for this device and
  account, and an administrator who gives a reason is handed exactly that password, also when
  retention has removed the command. (Unless the command's entry in the agent's ledger is over thirty
  days old and dropped, when the command could run again.)
\<close>

theorem admin_password_known:
  assumes "(with_retention (laps_step C parse (Some A) keys dev))\<^sup>*\<^sup>* (db0, s0, []) (db, (a, g), gone)"
    "fresh_laps (db0, s0)" "aead_ok A"
    "mg_passwords g acct = Some (pw, k)" "k \<notin> set (a_pruned a)"
    "map_of (db_hosts db) dev = Some h" "trim_space reason \<noteq> []" "length (trim_space reason) \<le> 500"
  shows "\<exists>p account. p \<in> set (db_rest db) \<and> ap_CommandID p = k \<and> ap_DeviceID p = dev
    \<and> ap_Account p = trim_space account \<and> to_lower account = acct
    \<and> fst (Reveal (Some A) (ap_ID p) actor reason False db) = Inr (p\<lparr>ap_Ciphertext := [], ap_Nonce := []\<rparr>, pw)"
proof -
  obtain whole where w: "db = without gone whole" "escrow_inv A dev (whole, a, g)" using escrow_inv_retained [OF assms(1-3)] by blast
  have inv: "rows_ok whole" "in_force A dev (db_rest db) a g" using w by (simp_all add: escrow_inv_def)
  then obtain account p where "to_lower account = acct" "p \<in> set (db_rest db)" "opens_to A dev k account pw p"
    using assms(4,5) unfolding in_force_def holds_iff by blast
  moreover from this have "fst (Reveal (Some A) (ap_ID p) actor reason False db) = Inr (p\<lparr>ap_Ciphertext := [], ap_Nonce := []\<rparr>, pw)"
    using Reveal_opens [OF inv(1), of p A dev k account pw h reason actor] assms(6-8) by (simp add: w(1) Reveal_without)
  ultimately show ?thesis by (intro exI [where x = p] exI [where x = account]) (simp add: opens_to_def)
qed

text \<open>
  At most one password is shown as the current one: in every reachable state, no account of any
  device, however its name is spelled in upper and lower case, has two rows marked active.
\<close>

theorem one_active_password:
  assumes "(with_retention (laps_step C parse (Some A) keys dev))\<^sup>*\<^sup>* (db0, s0, []) (db, (a, g), gone)"
    "fresh_laps (db0, s0)" "aead_ok A"
    "p \<in> set (db_rest db)" "q \<in> set (db_rest db)" "ap_State p = AdminPasswordActive" "ap_State q = AdminPasswordActive"
    "ap_DeviceID p = ap_DeviceID q" "to_lower (ap_Account p) = to_lower (ap_Account q)"
  shows "p = q"
proof -
  obtain whole where w: "db = without gone whole" "escrow_inv A dev (whole, a, g)" using escrow_inv_retained [OF assms(1-3)] by blast
  have ok: "rows_ok whole" using w(2) by (simp add: escrow_inv_def)
  have rows: "db_rest db = db_rest whole" using w(1) by simp
  have "ap_ID p = ap_ID q" using ok assms(4-) unfolding rows rows_ok_def one_active_def active_def by blast
  then show ?thesis using ok assms(4,5) unfolding rows rows_ok_def by (metis distinct_map inj_onD)
qed

text \<open>
  A password is handed over only on the record: when \<^verbatim>\<open>Reveal\<close> returns a password, the caller gave
  a reason of at most 500 characters, and the same operation has written an audit entry with who
  asked, the device, the account and that reason; nothing else in the database has changed, and the
  record returned carries no ciphertext.
\<close>

theorem Reveal_on_record:
  assumes "Reveal key i actor reason audit_fails db = (Inr (p, pw), db')"
  shows "\<not> audit_fails \<and> trim_space reason \<noteq> [] \<and> length (trim_space reason) \<le> 500 \<and> ap_Ciphertext p = []
    \<and> (\<exists>au. db' = db\<lparr>db_audit := db_audit db @ [au]\<rparr> \<and> au_Actor au = actor \<and> au_TargetID au = ap_DeviceID p
         \<and> au_Action au = ''local_admin_password.revealed''
         \<and> map_of (au_Details au) ''reason'' = Some (trim_space reason) \<and> map_of (au_Details au) ''account'' = Some (ap_Account p))"
proof -
  define rs where "rs = trim_space reason"
  have rs: "rs \<noteq> []" "length rs \<le> 500" using assms by (auto simp: Reveal_def rs_def Let_def split: if_splits)
  then obtain A q host where A: "key = Some A" and q: "GetAdminPassword i db = Some (q, host)"
    using assms by (auto simp: Reveal_def Let_def rs_def [symmetric] split: option.splits)
  then show ?thesis
    using assms rs unfolding rs_def
    by (auto simp: Reveal_def Let_def revealAudit_def split: option.splits if_splits)
qed

section \<open>The executor keeps to these steps\<close>

text \<open>What a call of the executor does to the server's table and the device: an escrow is carried out by
  the server, a password is set if the account takes it.\<close>

fun perform ::
  "(escrow_request \<Rightarrow> laps_db \<Rightarrow> laps_error option \<times> laps_db) \<Rightarrow> (string \<Rightarrow> string \<Rightarrow> string option) \<Rightarrow> string
     \<Rightarrow> effect \<Rightarrow> laps_db \<times> managed \<Rightarrow> laps_db \<times> managed" where
  "perform serve takes k (EscrowedPassword req) (db, g) =
     (case serve req db of
        (None, db') \<Rightarrow> (db', g\<lparr>mg_stage := Accepted (er_Account req) (er_Password req)\<rparr>)
      | (Some e, db') \<Rightarrow> (db', g))"
| "perform serve takes k (ChangedPassword account pw) (db, g) =
     (db, if takes account pw = None
          then g\<lparr>mg_stage := WasSet, mg_passwords := (mg_passwords g)(to_lower account \<mapsto> (pw, k))\<rparr>
          else g\<lparr>mg_stage := WasSet\<rparr>)"
| "perform serve takes k _ x = x"

lemma perform_escrow:
  assumes "a_worker a = Running cmd" "parse (w_ID cmd) = Some (w_ID cmd)" "mg_stage g = NothingYet" "er_CommandID req = w_ID cmd"
    "perform (\<lambda>req. Escrow parse key dev req i nonce now) takes k (EscrowedPassword req) (db, g) = (db', g')"
  shows "laps_step C parse key keys dev (db, a, g) (db', a, g')"
proof -
  obtain e db1 where E: "Escrow parse key dev req i nonce now db = (e, db1)" by fastforce
  have req: "req = \<lparr>er_CommandID = w_ID cmd, er_Account = er_Account req, er_Password = er_Password req\<rparr>" using assms(4) by simp
  show ?thesis
  proof (cases e)
    case None
    then show ?thesis
      using lp_accepted [where parse = parse and db = db and db' = db1, OF assms(1-3), of key dev "er_Account req" "er_Password req" i nonce now C keys] E req assms(5) by auto
  next
    case (Some x)
    then show ?thesis
      using lp_unanswered [where parse = parse and db = db, OF assms(1-3), of C key keys dev "er_Account req" "er_Password req" i nonce now] E req assms(5) by auto
  qed
qed

text \<open>
  The executor keeps to the protocol the escrow relies on: carrying out a rotation, with a server
  that stores what it says it stored, takes the server and the device through steps of the system
  above, from any state in which the worker has just begun to run the command, whatever the payload
  and however the calls end.
\<close>

theorem rotate_follows_protocol:
  assumes "a_worker a = Running cmd" "parse (w_ID cmd) = Some (w_ID cmd)" "mg_stage g = NothingYet" "x_ID c = w_ID cmd"
    "e_Passwords e = Some pws" "e_Escrower e = Some escrow"
    "\<forall>req. escrow req = None \<longrightarrow> fst (Escrow parse key dev req i nonce now db) = None"
    "fold (perform (\<lambda>req. Escrow parse key dev req i nonce now) (pw_SetPassword pws) (x_ID c))
       (snd (rotateAdminPassword rnd e c res)) (db, g) = (db', g')"
  shows "(laps_step C parse key keys dev)\<^sup>*\<^sup>* (db, a, g) (db', a, g')"
proof (cases rule: rotate_calls [of rnd e c res, case_names none escrow set])
  case none
  then show ?thesis using assms(8) by simp
next
  case (escrow req)
  then show ?thesis using assms(8) perform_escrow [where parse = parse, OF assms(1-3), of req key dev i nonce now] assms(4) by auto
next
  case (set p pws' escrow' account password)
  define req where "req = \<lparr>er_CommandID = x_ID c, er_Account = account, er_Password = password\<rparr>"
  let ?perform = "perform (\<lambda>req. Escrow parse key dev req i nonce now) (pw_SetPassword pws) (x_ID c)"
  obtain db1 where E: "Escrow parse key dev req i nonce now db = (None, db1)"
    using set(5,8) assms(6,7) by (metis option.inject prod.collapse req_def)
  define g1 where "g1 = g\<lparr>mg_stage := Accepted account password\<rparr>"
  have p1: "?perform (EscrowedPassword req) (db, g) = (db1, g1)" using E by (simp add: g1_def req_def)
  have s1: "laps_step C parse key keys dev (db, a, g) (db1, a, g1)"
    by (rule perform_escrow [where parse = parse, OF assms(1-3) _ p1]) (simp add: req_def assms(4))
  have end1: "(db', g') = ?perform (ChangedPassword account password) (db1, g1)"
    using assms(8) unfolding set(9) req_def [symmetric] by (simp del: perform.simps add: p1)
  have st: "mg_stage g1 = Accepted account password" by (simp add: g1_def)
  have "laps_step C parse key keys dev (db1, a, g1) (db', a, g')"
    using end1 lp_set [OF assms(1) st, of C parse key keys dev db1] lp_unset [OF assms(1) st, of C parse key keys dev db1] assms(4)
    by (cases "pw_SetPassword pws account password = None") auto
  with s1 show ?thesis by (meson converse_rtranclp_into_rtranclp r_into_rtranclp)
qed

section \<open>Examples\<close>

definition plain_aead :: aead where
  "plain_aead = \<lparr>ae_NonceSize = 2, ae_Seal = (\<lambda>nonce text context. nonce @ context @ text),
     ae_Open = (\<lambda>nonce ct context. if take (length nonce + length context) ct = nonce @ context
                                  then Some (drop (length nonce + length context) ct) else None)\<rparr>"

lemma plain_aead_ok: "aead_ok plain_aead"
  by (simp add: aead_ok_def plain_aead_def)

definition lw_db :: laps_db where
  "lw_db = \<lparr>db_commands = [], db_results = [], db_hosts = [(''d'', ''pc-1'', ''active'')], db_audit = [], db_rest = []\<rparr>"

definition lw_queued :: laps_db where
  "lw_queued = snd (Queue sample_crypto (laps_service []) (sample_order CommandRotateAdminPassword) ''k'' 1 lw_db)"

definition lw_started :: laps_db where
  "lw_started = snd (Start ''d'' ''k'' 2 lw_queued)"

definition lw_command :: wire_command where
  "lw_command = \<lparr>w_ID = ''k'', w_Type = CommandRotateAdminPassword, w_Payload = PRotate \<lparr>ra_Account = [], ra_Length = 24\<rparr>\<rparr>"

definition lw_agent :: agent_session where
  "lw_agent = new_agent\<lparr>a_ledger := [(''k'', \<lparr>le_State = LedgerStarted, le_At = 2\<rparr>)], a_inflight := [''k''],
     a_worker := Running lw_command, a_runs := [''k'']\<rparr>"

definition lw_none :: managed where
  "lw_none = \<lparr>mg_stage = NothingYet, mg_passwords = Map.empty\<rparr>"

lemma lw_none_stage: "lw_none\<lparr>mg_stage := (if b then mg_stage lw_none else NothingYet)\<rparr> = lw_none"
  by (simp add: lw_none_def)

lemma lw_system:
  assumes "system_step C (laps_service keys) dev (db, a) (db', a')" "db_rest db' = db_rest db"
  shows "laps_step C parse key keys dev (db, a, lw_none) (db', a', lw_none)"
  using lp_system [OF assms(1) disjI1 [OF assms(2)], of parse key lw_none] unfolding lw_none_stage .

lemma lw_rest: "db_rest lw_queued = []" "db_rest lw_started = []"
  by code_simp+

lemma lw_agent_steps:
  assumes "c \<in> set (db_commands db)" "c_DeviceID c = ''d''" "wire c = lw_command"
  shows "(laps_step C parse key [] ''d'')\<^sup>*\<^sup>* (db, new_agent, lw_none) (db, lw_agent, lw_none)"
proof -
  let ?step = "laps_step C parse key [] ''d''"
  define a1 where "a1 = new_agent\<lparr>a_work := [lw_command], a_inflight := [''k'']\<rparr>"
  have "enqueue no_faults 1 lw_command new_agent = a1"
    by (simp add: enqueue_def no_faults_def new_agent_def LedgerState_def lw_command_def a1_def)
  then have "agent_step new_agent (Offer (wire c)) a1" using agent_step.offer [of new_agent lw_command no_faults 1] assms(3) by simp
  then have o: "?step (db, new_agent, lw_none) (db, a1, lw_none)" by (intro lw_system sys_offer [OF assms(1,2)]) simp_all
  define a2 where "a2 = a1\<lparr>a_worker := Taken lw_command, a_work := []\<rparr>"
  define a3 where "a3 = (snd (MarkStarted ''k'' 2 a2))\<lparr>a_worker := Marked lw_command\<rparr>"
  have "agent_step a1 Local a2" unfolding a2_def by (rule agent_step.take_up) (simp_all add: a1_def new_agent_def)
  moreover have "agent_step a2 Local a3" using agent_step.mark [of a2 lw_command 2] by (simp add: a2_def a3_def lw_command_def)
  moreover have "agent_step a3 Local lw_agent"
    using agent_step.begin_run [of a3 lw_command]
    by (simp add: a1_def a2_def a3_def lw_agent_def lw_command_def MarkStarted_def new_agent_def)
  ultimately have "?step (db, a1, lw_none) (db, a2, lw_none)" "?step (db, a2, lw_none) (db, a3, lw_none)"
    "?step (db, a3, lw_none) (db, lw_agent, lw_none)" by (auto intro!: lw_system sys_agent)
  with o show ?thesis by (meson converse_rtranclp_into_rtranclp rtranclp.rtrancl_refl)
qed

lemma lw_running:
  "(laps_step sample_crypto Some (Some plain_aead) [] ''d'')\<^sup>*\<^sup>* (lw_db, new_agent, lw_none) (lw_started, lw_agent, lw_none)"
proof -
  let ?step = "laps_step sample_crypto Some (Some plain_aead) [] ''d''"
  have "list_ex (\<lambda>c. c_DeviceID c = ''d'' \<and> w_ID (wire c) = ''k'' \<and> w_Type (wire c) = CommandRotateAdminPassword
      \<and> w_Payload (wire c) = PRotate \<lparr>ra_Account = [], ra_Length = 24\<rparr>) (db_commands lw_started)" by code_simp
  then obtain c where "c \<in> set (db_commands lw_started)" "c_DeviceID c = ''d''" "wire c = lw_command"
    by (auto simp: list_ex_iff lw_command_def)
  then have run: "?step\<^sup>*\<^sup>* (lw_started, new_agent, lw_none) (lw_started, lw_agent, lw_none)" by (rule lw_agent_steps)
  have "system_step sample_crypto (laps_service []) ''d'' (lw_db, new_agent) (lw_queued, new_agent)"
    unfolding lw_queued_def by (rule sys_queue)
  then have "?step (lw_db, new_agent, lw_none) (lw_queued, new_agent, lw_none)"
    by (rule lw_system) (simp add: lw_rest lw_db_def)
  moreover have "system_step sample_crypto (laps_service []) ''d'' (lw_queued, new_agent) (lw_started, new_agent)"
    unfolding lw_started_def by (rule sys_start)
  then have "?step (lw_queued, new_agent, lw_none) (lw_started, new_agent, lw_none)"
    by (rule lw_system) (simp add: lw_rest)
  ultimately show ?thesis using run by (meson converse_rtranclp_into_rtranclp)
qed

definition lw_serve :: "escrow_request \<Rightarrow> laps_db \<Rightarrow> laps_error option \<times> laps_db" where
  "lw_serve req = Escrow Some (Some plain_aead) ''d'' req ''p'' (Some (\<lambda>_. CHR ''n'')) 3"

definition lw_executor :: executor where
  "lw_executor = sample_executor\<lparr>e_Escrower := Some (\<lambda>req. map_option (\<lambda>_. ''refused'') (fst (lw_serve req lw_started)))\<rparr>"

definition lw_request :: escrow_request where
  "lw_request = \<lparr>er_CommandID = ''k'', er_Account = ''Administrator'', er_Password = sample_password\<rparr>"

definition lw_end :: "laps_db \<times> managed" where
  "lw_end = fold (perform lw_serve (\<lambda>_ _. None) ''k'')
     (snd (rotateAdminPassword (\<lambda>_. Some 0) lw_executor sample_rotate (new_result 5))) (lw_started, lw_none)"

theorem rotate_follows_protocol_witness:
  "(laps_step sample_crypto Some (Some plain_aead) [] ''d'')\<^sup>*\<^sup>* (lw_started, lw_agent, lw_none) (fst lw_end, lw_agent, snd lw_end)"
proof (rule rotate_follows_protocol [where cmd = lw_command and c = sample_rotate and e = lw_executor and i = "''p''"
      and nonce = "Some (\<lambda>_. CHR ''n'')" and now = 3 and rnd = "\<lambda>_. Some 0" and res = "new_result 5"])
  show "fold (perform (\<lambda>req. Escrow Some (Some plain_aead) ''d'' req ''p'' (Some (\<lambda>_. CHR ''n'')) 3)
      (pw_SetPassword \<lparr>pw_BuiltinAdmin = Inr ''Administrator'', pw_SetPassword = (\<lambda>_ _. None)\<rparr>) (x_ID sample_rotate))
      (snd (rotateAdminPassword (\<lambda>_. Some 0) lw_executor sample_rotate (new_result 5))) (lw_started, lw_none)
    = (fst lw_end, snd lw_end)"
    unfolding lw_end_def lw_serve_def [abs_def] by (simp add: sample_rotate_def)
next
  show "\<forall>req. map_option (\<lambda>_. ''refused'') (fst (lw_serve req lw_started)) = None \<longrightarrow>
      fst (Escrow Some (Some plain_aead) ''d'' req ''p'' (Some (\<lambda>_. CHR ''n'')) 3 lw_started) = None"
    by (simp add: lw_serve_def)
qed (simp_all add: lw_agent_def lw_none_def lw_command_def sample_rotate_def lw_executor_def sample_executor_def)

lemma lw_served: "fst (lw_serve lw_request lw_started) = None"
  by code_simp

lemma lw_calls:
  "snd (rotateAdminPassword (\<lambda>_. Some 0) lw_executor sample_rotate (new_result 5))
     = [EscrowedPassword lw_request, ChangedPassword ''Administrator'' sample_password]"
proof -
  have d: "decodePayload (dec_rotate 24) (x_Payload sample_rotate) = Some \<lparr>ra_Account = [], ra_Length = 20\<rparr>" by code_simp
  have g: "GeneratePassword (\<lambda>_. Some 0) 20 = Inr sample_password" by code_simp
  have r: "\<lparr>er_CommandID = x_ID sample_rotate, er_Account = ''Administrator'', er_Password = sample_password\<rparr> = lw_request"
    by (simp add: lw_request_def sample_rotate_def)
  have e: "e_Passwords lw_executor = Some \<lparr>pw_BuiltinAdmin = Inr ''Administrator'', pw_SetPassword = (\<lambda>_ _. None)\<rparr>"
    "e_Escrower lw_executor = Some (\<lambda>req. map_option (\<lambda>_. ''refused'') (fst (lw_serve req lw_started)))"
    by (simp_all add: lw_executor_def sample_executor_def)
  show ?thesis by (simp add: snd_rotate d g e r Let_def lw_served)
qed

lemma lw_end_eq:
  "lw_end = (snd (lw_serve lw_request lw_started),
     \<lparr>mg_stage = WasSet, mg_passwords = [''administrator'' \<mapsto> (sample_password, ''k'')]\<rparr>)"
proof -
  obtain db where "lw_serve lw_request lw_started = (None, db)" using lw_served by (metis prod.collapse)
  moreover have "to_lower ''Administrator'' = ''administrator''" by code_simp
  ultimately show ?thesis by (simp add: lw_end_def lw_calls lw_none_def)
qed

lemma lw_fresh: "fresh_laps (lw_db, new_agent, lw_none)"
  by (simp add: fresh_laps_def fresh_system_def lw_db_def lw_none_def)

lemma lw_end_sel:
  "mg_passwords (snd lw_end) ''administrator'' = Some (sample_password, ''k'')"
  "map_of (db_hosts (fst lw_end)) ''d'' = Some (''pc-1'', ''active'')" "trim_space ''ticket 7'' = ''ticket 7''"
proof -
  have "map_of (db_hosts (snd (lw_serve lw_request lw_started))) ''d'' = Some (''pc-1'', ''active'')" by code_simp
  then show "map_of (db_hosts (fst lw_end)) ''d'' = Some (''pc-1'', ''active'')" by (simp add: lw_end_eq)
  show "trim_space ''ticket 7'' = ''ticket 7''" by code_simp
qed (simp add: lw_end_eq)

theorem admin_password_known_witness:
  "\<exists>p account. p \<in> set (db_rest (fst lw_end)) \<and> ap_CommandID p = ''k'' \<and> ap_DeviceID p = ''d''
    \<and> ap_Account p = trim_space account \<and> to_lower account = ''administrator''
    \<and> fst (Reveal (Some plain_aead) (ap_ID p) ''ann'' ''ticket 7'' False (fst lw_end))
        = Inr (p\<lparr>ap_Ciphertext := [], ap_Nonce := []\<rparr>, sample_password)"
proof -
  define g1 where "g1 = lw_none\<lparr>mg_stage := Accepted ''Administrator'' sample_password\<rparr>"
  have "lw_serve lw_request lw_started = (None, fst lw_end)" using lw_served by (simp add: lw_end_eq prod_eq_iff)
  then have "laps_step sample_crypto Some (Some plain_aead) [] ''d'' (lw_started, lw_agent, lw_none) (fst lw_end, lw_agent, g1)"
    unfolding g1_def lw_serve_def lw_request_def
    by (intro lp_accepted [where cmd = lw_command]) (simp_all add: lw_agent_def lw_command_def lw_none_def)
  moreover have "laps_step sample_crypto Some (Some plain_aead) [] ''d'' (fst lw_end, lw_agent, g1) (fst lw_end, lw_agent, snd lw_end)"
  proof -
    have "to_lower ''Administrator'' = ''administrator''" by code_simp
    then have "snd lw_end = g1\<lparr>mg_stage := WasSet,
        mg_passwords := (mg_passwords g1)(to_lower ''Administrator'' \<mapsto> (sample_password, w_ID lw_command))\<rparr>"
      by (simp add: lw_end_eq g1_def lw_none_def lw_command_def)
    then show ?thesis using lp_set [of lw_agent lw_command g1] by (simp add: lw_agent_def g1_def)
  qed
  ultimately have "(laps_step sample_crypto Some (Some plain_aead) [] ''d'')\<^sup>*\<^sup>* (lw_db, new_agent, lw_none) (fst lw_end, lw_agent, snd lw_end)"
    using lw_running by (meson rtranclp.rtrancl_into_rtrancl)
  from admin_password_known [OF without_prune [OF this] lw_fresh plain_aead_ok lw_end_sel(1) _ lw_end_sel(2)] show ?thesis
    by (simp add: lw_end_sel(3) lw_agent_def new_agent_def)
qed

definition lw_settled :: laps_db where
  "lw_settled = snd (Complete (laps_service []) ''d'' ''k'' sample_outcome 4 (snd (lw_serve lw_request lw_started)))"

lemma lw_settled_reached:
  "(laps_step sample_crypto Some (Some plain_aead) [] ''e'')\<^sup>*\<^sup>* (lw_db, new_agent, lw_none) (lw_settled, new_agent, lw_none)"
proof -
  let ?step = "laps_step sample_crypto Some (Some plain_aead) [] ''e''" and ?sys = "system_step sample_crypto (laps_service []) ''e''"
  have "?sys (lw_db, new_agent) (lw_queued, new_agent)" unfolding lw_queued_def by (rule sys_queue)
  then have "?step (lw_db, new_agent, lw_none) (lw_queued, new_agent, lw_none)" by (rule lw_system) (simp add: lw_rest lw_db_def)
  moreover have "?sys (lw_queued, new_agent) (lw_started, new_agent)" unfolding lw_started_def by (rule sys_start)
  then have "?step (lw_queued, new_agent, lw_none) (lw_started, new_agent, lw_none)" by (rule lw_system) (simp add: lw_rest)
  moreover have "?step (lw_started, new_agent, lw_none) (snd (lw_serve lw_request lw_started), new_agent, lw_none)"
    unfolding lw_serve_def by (rule lp_other) simp
  moreover have "?sys (snd (lw_serve lw_request lw_started), new_agent) (lw_settled, new_agent)"
    unfolding lw_settled_def by (rule sys_other) simp
  then have "?step (snd (lw_serve lw_request lw_started), new_agent, lw_none) (lw_settled, new_agent, lw_none)"
    using lp_system [where g = lw_none and parse = Some and key = "Some plain_aead" and keys = "[]"] unfolding lw_none_stage
    by (metis lw_settled_def)
  ultimately show ?thesis by (meson rtranclp.rtrancl_into_rtrancl rtranclp.rtrancl_refl)
qed

theorem one_active_password_witness:
  "\<exists>p \<in> set (db_rest lw_settled). ap_State p = AdminPasswordActive
     \<and> list_all (\<lambda>q. if ap_State q = AdminPasswordActive \<and> ap_DeviceID p = ap_DeviceID q \<and> to_lower (ap_Account p) = to_lower (ap_Account q)
                      then p = q else True) (db_rest lw_settled)"
proof -
  have "list_ex (\<lambda>p. ap_State p = AdminPasswordActive) (db_rest lw_settled)" by code_simp
  then obtain p where p: "p \<in> set (db_rest lw_settled)" "ap_State p = AdminPasswordActive" by (auto simp: list_ex_iff)
  from one_active_password [OF without_prune [OF lw_settled_reached] lw_fresh plain_aead_ok p(1) _ p(2)] p show ?thesis
    by (intro bexI [of _ p]) (simp_all add: list_all_iff)
qed

theorem Reveal_on_record_witness:
  "\<exists>au p. snd (Reveal (Some plain_aead) ''p'' ''ann'' ''ticket 7'' False lw_settled) = lw_settled\<lparr>db_audit := db_audit lw_settled @ [au]\<rparr>
     \<and> fst (Reveal (Some plain_aead) ''p'' ''ann'' ''ticket 7'' False lw_settled) = Inr (p, sample_password)
     \<and> au_Actor au = ''ann'' \<and> map_of (au_Details au) ''reason'' = Some ''ticket 7''"
proof -
  have "(case fst (Reveal (Some plain_aead) ''p'' ''ann'' ''ticket 7'' False lw_settled) of
      Inl _ \<Rightarrow> False | Inr (p, pw) \<Rightarrow> pw = sample_password)" by code_simp
  then obtain p where "fst (Reveal (Some plain_aead) ''p'' ''ann'' ''ticket 7'' False lw_settled) = Inr (p, sample_password)"
    by (auto split: sum.splits)
  then obtain db' where r: "Reveal (Some plain_aead) ''p'' ''ann'' ''ticket 7'' False lw_settled = (Inr (p, sample_password), db')"
    by (metis prod.collapse)
  from Reveal_on_record [OF r] r lw_end_sel(3) show ?thesis by auto
qed

end
