(* ===== verification/Remote_Session.thy ===== *)
theory Remote_Session
  imports Executor_Safety
begin

text \<open>
  Remote sessions: the service of \<^verbatim>\<open>src/internal/server/remote/remote.go\<close> over the tables of
  \<^verbatim>\<open>src/internal/server/store/remote.go\<close>, the agent's end of it being \<open>relayInput\<close> of
  \<^verbatim>\<open>Executor\<close>. The tables are the part of the database the command queue leaves to others. Each
  operation is one step, appending a piece included: the next number is taken and the piece stored at once, where the
  database takes the number first and other sessions may store theirs in between, and waking the other end
  does not fail. The database refuses text that is not UTF-8 or has a zero byte in it, as
  PostgreSQL does. The waiting of \<^verbatim>\<open>Poll\<close> is left out: it returns what is there.
\<close>

section \<open>Tables\<close>

abbreviation "RemoteWaiting \<equiv> ''waiting''"
abbreviation "RemoteActive \<equiv> ''active''"
abbreviation "RemoteEnded \<equiv> ''ended''"
abbreviation "RemoteStreamIn \<equiv> ''in''"
abbreviation "RemoteStreamOut \<equiv> ''out''"
abbreviation "RemoteStreamErr \<equiv> ''err''"

record RemoteSession =
  rm_ID :: uuid
  rm_DeviceID :: uuid
  rm_StartedBy :: string
  rm_Reason :: string
  rm_Status :: string
  rm_CreatedAt :: go_time
  rm_StartedAt :: "go_time option"
  rm_EndedAt :: "go_time option"
  rm_EndReason :: string

record chunk_row =
  cr_Seq :: int
  cr_Session :: uuid
  cr_Stream :: string
  cr_Data :: string
  cr_At :: go_time

record remote_tables =
  rt_sessions :: "RemoteSession list"
  rt_chunks :: "chunk_row list"
  rt_next :: int

type_synonym remote_db = "remote_tables cmd_db"

datatype remote_error = RemoteNotFound | RemoteHasEnded | RemoteDeviceNotActive | RemoteBadRequest | RemoteNotYours | RemoteInternal string

definition pg_text :: "string \<Rightarrow> bool" where
  "pg_text s \<longleftrightarrow> valid_utf8 s \<and> CHR 0x00 \<notin> set s"

definition GetRemoteSession :: "uuid \<Rightarrow> remote_db \<Rightarrow> RemoteSession option" where
  "GetRemoteSession i db = find (\<lambda>r. rm_ID r = i) (rt_sessions (db_rest db))"

definition CreateRemoteSession :: "RemoteSession \<Rightarrow> remote_db \<Rightarrow> remote_error + remote_db" where
  "CreateRemoteSession r db =
     (if GetRemoteSession (rm_ID r) db \<noteq> None \<or> \<not> pg_text (rm_Reason r) then Inl (RemoteInternal ''insert'')
      else Inr (db\<lparr>db_rest := (db_rest db)\<lparr>rt_sessions := rt_sessions (db_rest db) @
             [r\<lparr>rm_Status := RemoteWaiting, rm_StartedAt := None, rm_EndedAt := None, rm_EndReason := []\<rparr>]\<rparr>\<rparr>))"

definition updateSessions :: "(RemoteSession \<Rightarrow> bool) \<Rightarrow> (RemoteSession \<Rightarrow> RemoteSession) \<Rightarrow> remote_db \<Rightarrow> remote_db" where
  "updateSessions P f db =
     db\<lparr>db_rest := (db_rest db)\<lparr>rt_sessions := map (\<lambda>r. if P r then f r else r) (rt_sessions (db_rest db))\<rparr>\<rparr>"

definition MarkRemoteSessionActive :: "uuid \<Rightarrow> go_time \<Rightarrow> remote_db \<Rightarrow> remote_db" where
  "MarkRemoteSessionActive i at db =
     updateSessions (\<lambda>r. rm_ID r = i \<and> rm_Status r = RemoteWaiting)
       (\<lambda>r. r\<lparr>rm_Status := RemoteActive, rm_StartedAt := Some at\<rparr>) db"

definition EndRemoteSession :: "uuid \<Rightarrow> string \<Rightarrow> go_time \<Rightarrow> remote_db \<Rightarrow> remote_error + bool \<times> remote_db" where
  "EndRemoteSession i reason at db =
     (if \<not> pg_text reason then Inl (RemoteInternal ''update'')
      else let P = (\<lambda>r. rm_ID r = i \<and> rm_Status r \<noteq> RemoteEnded) in
        Inr (list_ex P (rt_sessions (db_rest db)),
             updateSessions P (\<lambda>r. r\<lparr>rm_Status := RemoteEnded, rm_EndedAt := Some at, rm_EndReason := reason\<rparr>) db))"

definition AppendRemoteChunk :: "uuid \<Rightarrow> string \<Rightarrow> string \<Rightarrow> go_time \<Rightarrow> remote_db \<Rightarrow> remote_error + remote_db" where
  "AppendRemoteChunk i stream data at db =
     (if \<not> pg_text data then Inl (RemoteInternal ''insert'')
      else Inr (db\<lparr>db_rest := (db_rest db)\<lparr>rt_chunks := rt_chunks (db_rest db) @
                  [\<lparr>cr_Seq = rt_next (db_rest db), cr_Session = i, cr_Stream = stream, cr_Data = data, cr_At = at\<rparr>],
                rt_next := rt_next (db_rest db) + 1\<rparr>\<rparr>))"

definition RemoteChunks :: "uuid \<Rightarrow> int \<Rightarrow> string list \<Rightarrow> nat \<Rightarrow> remote_db \<Rightarrow> chunk_row list" where
  "RemoteChunks i after streams limit db =
     take limit (sort_key cr_Seq (filter (\<lambda>c. cr_Session c = i \<and> cr_Seq c > after \<and> (streams = [] \<or> cr_Stream c \<in> set streams))
       (rt_chunks (db_rest db))))"

definition LastRemoteInput :: "RemoteSession \<Rightarrow> remote_db \<Rightarrow> go_time" where
  "LastRemoteInput r db =
     (let ts = map cr_At (filter (\<lambda>c. cr_Session c = rm_ID r \<and> cr_Stream c = RemoteStreamIn) (rt_chunks (db_rest db))) in
      if ts \<noteq> [] then foldr max ts (hd ts)
      else case rm_StartedAt r of Some t \<Rightarrow> t | None \<Rightarrow> rm_CreatedAt r)"

section \<open>The service\<close>

definition JoinTimeout :: duration where "JoinTimeout = 10 * minute"
abbreviation MaxRemoteChunk :: nat where "MaxRemoteChunk \<equiv> 65536"

definition remoteAudit :: "string \<Rightarrow> string \<Rightarrow> uuid \<Rightarrow> (string \<times> string) list \<Rightarrow> remote_db \<Rightarrow> remote_db" where
  "remoteAudit actor action dev details db =
     db\<lparr>db_audit := db_audit db @ [\<lparr>au_Actor = actor, au_Action = action, au_TargetID = dev, au_Details = details\<rparr>]\<rparr>"

definition Remote_Start ::
  "uuid \<Rightarrow> string \<Rightarrow> string \<Rightarrow> uuid \<Rightarrow> uuid \<Rightarrow> go_time \<Rightarrow> remote_db \<Rightarrow> (remote_error + RemoteSession) \<times> remote_db" where
  "Remote_Start dev actor reason0 new_id cmd_id now db =
     (let reason = trim_space reason0 in
      if reason = [] \<or> length reason > 500 then (Inl RemoteBadRequest, db)
      else
        let r = \<lparr>rm_ID = new_id, rm_DeviceID = dev, rm_StartedBy = actor, rm_Reason = reason, rm_Status = RemoteWaiting,
              rm_CreatedAt = now, rm_StartedAt = None, rm_EndedAt = None, rm_EndReason = []\<rparr> in
        (case map_of (db_hosts db) dev of
           None \<Rightarrow> (Inl RemoteNotFound, db)
         | Some (host, status) \<Rightarrow>
             if status \<noteq> ''active'' then (Inl RemoteDeviceNotActive, db)
             else (case CreateRemoteSession r db of
                Inl e \<Rightarrow> (Inl e, db)
              | Inr db1 \<Rightarrow>
                  (case CreateCommand \<lparr>c_ID = cmd_id, c_DeviceID = dev, c_Type = CommandRemoteShell, c_Payload = PShell new_id,
                           c_Status = CommandQueued, c_CreatedBy = actor, c_CreatedAt = now, c_DeliveredAt = None,
                           c_StartedAt = None, c_CompletedAt = None, c_ExpiresAt = time_add now JoinTimeout\<rparr> db1 of
                     Inl e \<Rightarrow> (Inl (RemoteInternal ''insert''), db)
                   | Inr db2 \<Rightarrow> (Inr r, remoteAudit actor ''remote_session.started'' dev
                        [(''session_id'', new_id), (''hostname'', host), (''reason'', reason)] db2)))))"

definition overdue :: "RemoteSession \<Rightarrow> go_time \<Rightarrow> remote_db \<Rightarrow> string" where
  "overdue r now db =
     (if rm_Status r = RemoteWaiting \<and> time_sub now (rm_CreatedAt r) > JoinTimeout
      then ''the device didn'' @ [CHR 0x27] @ ''t join within ten minutes''
      else if (case rm_StartedAt r of Some t \<Rightarrow> time_sub now t > RemoteMaxDuration | None \<Rightarrow> False)
      then ''the session reached its one-hour limit''
      else if rm_Status r = RemoteActive \<and> time_sub now (LastRemoteInput r db) > RemoteIdleTimeout
      then ''nothing was typed for fifteen minutes''
      else [])"

definition current :: "uuid \<Rightarrow> go_time \<Rightarrow> remote_db \<Rightarrow> (remote_error + RemoteSession) \<times> remote_db" where
  "current i now db =
     (case GetRemoteSession i db of
        None \<Rightarrow> (Inl RemoteNotFound, db)
      | Some r \<Rightarrow>
          if rm_Status r = RemoteEnded then (Inr r, db)
          else if overdue r now db = [] then (Inr r, db)
          else (case EndRemoteSession i (overdue r now db) now db of
             Inl e \<Rightarrow> (Inl e, db)
           | Inr (_, db1) \<Rightarrow> (case GetRemoteSession i db1 of None \<Rightarrow> (Inl RemoteNotFound, db1) | Some r1 \<Rightarrow> (Inr r1, db1))))"

definition Poll :: "uuid \<Rightarrow> int \<Rightarrow> string list \<Rightarrow> go_time \<Rightarrow> remote_db \<Rightarrow> (remote_error + RemoteSession \<times> chunk_row list) \<times> remote_db" where
  "Poll i after streams now db =
     (case current i now db of
        (Inl e, db1) \<Rightarrow> (Inl e, db1)
      | (Inr r, db1) \<Rightarrow> (Inr (r, RemoteChunks i after streams 500 db1), db1))"

definition checkChunk :: "string \<Rightarrow> bool" where
  "checkChunk data \<longleftrightarrow> data \<noteq> [] \<and> length data \<le> MaxRemoteChunk \<and> valid_utf8 data"

definition appended :: "remote_error + remote_db \<Rightarrow> remote_db \<Rightarrow> remote_error option \<times> remote_db" where
  "appended res db = (case res of Inl e \<Rightarrow> (Some e, db) | Inr db1 \<Rightarrow> (None, db1))"

definition Input :: "uuid \<Rightarrow> string \<Rightarrow> string \<Rightarrow> go_time \<Rightarrow> remote_db \<Rightarrow> remote_error option \<times> remote_db" where
  "Input i actor data now db =
     (if \<not> checkChunk data then (Some RemoteBadRequest, db)
      else case current i now db of
        (Inl e, db1) \<Rightarrow> (Some e, db1)
      | (Inr r, db1) \<Rightarrow>
          if rm_Status r = RemoteEnded then (Some RemoteHasEnded, db1)
          else if actor \<noteq> rm_StartedBy r
          then (Some RemoteNotYours, remoteAudit actor ''remote_session.input_refused'' (rm_DeviceID r)
                  [(''session_id'', i), (''started_by'', rm_StartedBy r)] db1)
          else appended (AppendRemoteChunk i RemoteStreamIn data now db1) db1)"

definition onDevice :: "uuid \<Rightarrow> uuid \<Rightarrow> go_time \<Rightarrow> remote_db \<Rightarrow> (remote_error + RemoteSession) \<times> remote_db" where
  "onDevice dev i now db =
     (case current i now db of
        (Inl e, db1) \<Rightarrow> (Inl e, db1)
      | (Inr r, db1) \<Rightarrow> if rm_DeviceID r \<noteq> dev then (Inl RemoteNotFound, db1) else (Inr r, db1))"

definition Output :: "uuid \<Rightarrow> uuid \<Rightarrow> string \<Rightarrow> string \<Rightarrow> go_time \<Rightarrow> remote_db \<Rightarrow> remote_error option \<times> remote_db" where
  "Output dev i stream data now db =
     (if stream \<noteq> RemoteStreamOut \<and> stream \<noteq> RemoteStreamErr then (Some RemoteBadRequest, db)
      else if \<not> checkChunk data then (Some RemoteBadRequest, db)
      else case onDevice dev i now db of
        (Inl e, db1) \<Rightarrow> (Some e, db1)
      | (Inr r, db1) \<Rightarrow>
          if rm_Status r = RemoteEnded then (Some RemoteHasEnded, db1)
          else let db2 = MarkRemoteSessionActive i now db1 in
            appended (AppendRemoteChunk i stream data now db2) db2)"

definition Join :: "uuid \<Rightarrow> uuid \<Rightarrow> go_time \<Rightarrow> remote_db \<Rightarrow> remote_error option \<times> remote_db" where
  "Join dev i now db =
     (case onDevice dev i now db of
        (Inl e, db1) \<Rightarrow> (Some e, db1)
      | (Inr r, db1) \<Rightarrow>
          if rm_Status r = RemoteEnded then (Some RemoteHasEnded, db1) else (None, MarkRemoteSessionActive i now db1))"

definition DeviceEnd :: "uuid \<Rightarrow> uuid \<Rightarrow> string \<Rightarrow> go_time \<Rightarrow> remote_db \<Rightarrow> remote_error option \<times> remote_db" where
  "DeviceEnd dev i reason now db =
     (case onDevice dev i now db of
        (Inl e, db1) \<Rightarrow> (Some e, db1)
      | (Inr r, db1) \<Rightarrow>
          (case EndRemoteSession i (''device: '' @ (if length reason > 500 then take 500 reason else reason)) now db1 of
             Inl e \<Rightarrow> (Some e, db1)
           | Inr (_, db2) \<Rightarrow> (None, db2)))"

definition Remote_End :: "uuid \<Rightarrow> string \<Rightarrow> go_time \<Rightarrow> remote_db \<Rightarrow> remote_error option \<times> remote_db" where
  "Remote_End i actor now db =
     (case current i now db of
        (Inl e, db1) \<Rightarrow> (Some e, db1)
      | (Inr r, db1) \<Rightarrow>
          (case EndRemoteSession i (''ended by '' @ actor) now db1 of
             Inl e \<Rightarrow> (Some e, db1)
           | Inr (False, _) \<Rightarrow> (None, db1)
           | Inr (True, db2) \<Rightarrow> (None, remoteAudit actor ''remote_session.ended'' (rm_DeviceID r) [(''session_id'', i)] db2)))"

text \<open>The handler an agent polls: it joins, then reads its input (\<^verbatim>\<open>remoteInput\<close>).\<close>

definition remoteInput :: "uuid \<Rightarrow> uuid \<Rightarrow> int \<Rightarrow> go_time \<Rightarrow> remote_db \<Rightarrow> (remote_error + chunk_row list \<times> bool) \<times> remote_db" where
  "remoteInput dev i after now db =
     (case Join dev i now db of
        (Some e, db1) \<Rightarrow>
          if e \<noteq> RemoteHasEnded then (Inl e, db1)
          else (case Poll i after [RemoteStreamIn] now db1 of
             (Inl e1, db2) \<Rightarrow> (Inl e1, db2)
           | (Inr (r, cs), db2) \<Rightarrow> (Inr (cs, rm_Status r = RemoteEnded), db2))
      | (None, db1) \<Rightarrow>
          (case Poll i after [RemoteStreamIn] now db1 of
             (Inl e1, db2) \<Rightarrow> (Inl e1, db2)
           | (Inr (r, cs), db2) \<Rightarrow> (Inr (cs, rm_Status r = RemoteEnded), db2)))"

end
