(* ===== verification/Remote_System.thy ===== *)
theory Remote_System
  imports Remote_Session
begin

text \<open>
  A remote session end to end: the server's operations, by any administrators and devices, in any
  order, and the device that relays what was typed to its shell. Shown: what the shell is given is
  what the administrator who started the session typed, each piece once and in order; a session that
  has ended stays as it is; nothing is taken past a session's limits.
\<close>

section \<open>What the operations do to the tables\<close>

definition over :: "RemoteSession \<Rightarrow> bool" where
  "over r \<longleftrightarrow> rm_Status r = RemoteEnded"

definition open_session :: "uuid \<Rightarrow> remote_tables \<Rightarrow> bool" where
  "open_session j t \<longleftrightarrow> (\<exists>r. find (\<lambda>r. rm_ID r = j) (rt_sessions t) = Some r \<and> \<not> over r)"

definition add_chunk :: "uuid \<Rightarrow> string \<Rightarrow> string \<Rightarrow> go_time \<Rightarrow> remote_tables \<Rightarrow> remote_tables" where
  "add_chunk j stream data at t = t\<lparr>rt_chunks := rt_chunks t @
     [\<lparr>cr_Seq = rt_next t, cr_Session = j, cr_Stream = stream, cr_Data = data, cr_At = at\<rparr>], rt_next := rt_next t + 1\<rparr>"

inductive table_step :: "remote_tables \<Rightarrow> remote_tables \<Rightarrow> bool" where
  added: "find (\<lambda>q. rm_ID q = rm_ID r) (rt_sessions t) = None \<Longrightarrow> table_step t (t\<lparr>rt_sessions := rt_sessions t @ [r]\<rparr>)"
| updated: "(\<And>r. rm_ID (f r) = rm_ID r \<and> rm_DeviceID (f r) = rm_DeviceID r \<and> rm_StartedBy (f r) = rm_StartedBy r
      \<and> (over r \<longrightarrow> f r = r)) \<Longrightarrow> table_step t (t\<lparr>rt_sessions := map f (rt_sessions t)\<rparr>)"
| written: "stream \<noteq> RemoteStreamIn \<Longrightarrow> open_session j t \<Longrightarrow> table_step t (add_chunk j stream data at t)"

abbreviation table_steps :: "remote_tables \<Rightarrow> remote_tables \<Rightarrow> bool" where
  "table_steps \<equiv> table_step\<^sup>*\<^sup>*"

lemma updateSessions_step:
  assumes "\<And>r. P r \<Longrightarrow> \<not> over r \<and> rm_ID (f r) = rm_ID r \<and> rm_DeviceID (f r) = rm_DeviceID r \<and> rm_StartedBy (f r) = rm_StartedBy r"
  shows "table_step (db_rest db) (db_rest (updateSessions P f db))"
  using assms table_step.updated [of "\<lambda>r. if P r then f r else r" "db_rest db"] by (simp add: updateSessions_def)

lemma EndRemoteSession_step:
  assumes "EndRemoteSession i reason at db = Inr (b, db')"
  shows "table_step (db_rest db) (db_rest db')"
  using assms updateSessions_step [of "\<lambda>r. rm_ID r = i \<and> rm_Status r \<noteq> RemoteEnded"
      "\<lambda>r. r\<lparr>rm_Status := RemoteEnded, rm_EndedAt := Some at, rm_EndReason := reason\<rparr>" db]
  by (auto simp: EndRemoteSession_def Let_def over_def split: if_splits)

lemma MarkActive_step: "table_step (db_rest db) (db_rest (MarkRemoteSessionActive i at db))"
  unfolding MarkRemoteSessionActive_def by (rule updateSessions_step) (auto simp: over_def)

lemma find_map_session:
  assumes "\<And>r. rm_ID (f r) = rm_ID r"
  shows "find (\<lambda>r. rm_ID r = i) (map f rs) = map_option f (find (\<lambda>r. rm_ID r = i) rs)"
  using assms by (induction rs) auto

text \<open>\<^verbatim>\<open>current\<close>: the session as it stands, and if it is not over, nothing was changed and it is within
  its limits.\<close>

lemma current_cases:
  obtains (missing) e db1 where "current i now db = (Inl e, db1)" "table_steps (db_rest db) (db_rest db1)"
  | (found) r where "current i now db = (Inr r, db)" "GetRemoteSession i db = Some r" "\<not> over r" "overdue r now db = []"
  | (was_over) r db1 where "current i now db = (Inr r, db1)" "over r" "table_steps (db_rest db) (db_rest db1)"
      "GetRemoteSession i db1 = Some r"
proof (cases "GetRemoteSession i db")
  case None
  then show ?thesis by (intro missing [of RemoteNotFound db]) (simp_all add: current_def)
next
  case (Some r)
  note r = this
  define od where "od = overdue r now db"
  consider "over r" | "\<not> over r" "od = []" | "\<not> over r" "od \<noteq> []" by blast
  then show ?thesis
  proof cases
    case 1
    then show ?thesis using r by (intro was_over [of r db]) (simp_all add: current_def over_def)
  next
    case 2
    then show ?thesis using r by (intro found [of r]) (simp_all add: current_def over_def od_def)
  next
    case 3
    show ?thesis
    proof (cases "EndRemoteSession i od now db")
      case (Inl e)
      then show ?thesis using r 3 by (intro missing [of e db]) (simp_all add: current_def over_def od_def)
    next
      case (Inr x)
      obtain b db1 where x: "x = (b, db1)" by fastforce
      have steps: "table_steps (db_rest db) (db_rest db1)" using EndRemoteSession_step Inr x by blast
      define f where "f q = (if rm_ID q = i \<and> rm_Status q \<noteq> RemoteEnded
        then q\<lparr>rm_Status := RemoteEnded, rm_EndedAt := Some now, rm_EndReason := od\<rparr> else q)" for q :: RemoteSession
      have db1: "rt_sessions (db_rest db1) = map f (rt_sessions (db_rest db))"
        using Inr x by (auto simp: EndRemoteSession_def Let_def updateSessions_def f_def [abs_def] split: if_splits)
      have get: "GetRemoteSession i db1 = Some (f r)"
        using r unfolding GetRemoteSession_def db1 by (subst find_map_session) (simp_all add: f_def)
      have "rm_ID r = i" using r unfolding GetRemoteSession_def by (metis (mono_tags, lifting) find_Some_iff)
      then have "over (f r)" by (simp add: f_def over_def)
      moreover have "current i now db = (Inr (f r), db1)"
        using r 3 Inr x get by (simp add: current_def over_def od_def)
      ultimately show ?thesis using steps get by (intro was_over [of "f r" db1]) simp_all
    qed
  qed
qed

lemma current_steps: "table_steps (db_rest db) (db_rest (snd (current i now db)))"
  by (cases rule: current_cases [of i now db, case_names missing found was_over]) auto

lemma Poll_steps: "table_steps (db_rest db) (db_rest (snd (Poll i after streams now db)))"
  using current_steps [of db i now] by (auto simp: Poll_def split: prod.splits sum.splits)

lemma onDevice_steps: "table_steps (db_rest db) (db_rest (snd (onDevice dev i now db)))"
  using current_steps [of db i now] by (auto simp: onDevice_def split: prod.splits sum.splits)

lemma Join_steps: "table_steps (db_rest db) (db_rest (snd (Join dev i now db)))"
proof -
  obtain x db1 where x: "onDevice dev i now db = (x, db1)" by fastforce
  then have "table_steps (db_rest db) (db_rest db1)" using onDevice_steps [of db dev i now] by simp
  moreover have "table_step (db_rest db1) (db_rest (MarkRemoteSessionActive i now db1))" by (rule MarkActive_step)
  ultimately show ?thesis using x by (auto simp: Join_def split: sum.splits intro: rtranclp.rtrancl_into_rtrancl)
qed

lemma remoteInput_steps: "table_steps (db_rest db) (db_rest (snd (remoteInput dev i after now db)))"
proof -
  obtain e db1 where j: "Join dev i now db = (e, db1)" by fastforce
  then have "table_steps (db_rest db) (db_rest db1)" using Join_steps [of db dev i now] by simp
  moreover have "table_steps (db_rest db1) (db_rest (snd (Poll i after [RemoteStreamIn] now db1)))" by (rule Poll_steps)
  ultimately show ?thesis
    using j by (auto simp: remoteInput_def split: option.splits prod.splits sum.splits intro: rtranclp_trans)
qed

lemma DeviceEnd_steps: "table_steps (db_rest db) (db_rest (snd (DeviceEnd dev i reason now db)))"
proof -
  obtain x db1 where x: "onDevice dev i now db = (x, db1)" by fastforce
  then have "table_steps (db_rest db) (db_rest db1)" using onDevice_steps [of db dev i now] by simp
  then show ?thesis
    using x EndRemoteSession_step [of i _ now db1]
    by (auto simp: DeviceEnd_def split: sum.splits intro: rtranclp.rtrancl_into_rtrancl)
qed

lemma Remote_End_steps: "table_steps (db_rest db) (db_rest (snd (Remote_End i actor now db)))"
proof -
  obtain x db1 where x: "current i now db = (x, db1)" by fastforce
  then have "table_steps (db_rest db) (db_rest db1)" using current_steps [of db i now] by simp
  then show ?thesis
    using x EndRemoteSession_step [of i _ now db1]
    by (auto simp: Remote_End_def remoteAudit_def split: sum.splits bool.splits prod.splits intro: rtranclp.rtrancl_into_rtrancl)
qed

lemma Remote_Start_steps: "table_steps (db_rest db) (db_rest (snd (Remote_Start dev actor reason nid cid now db)))"
proof -
  have create: "table_step (db_rest db) (db_rest db1)" if "CreateRemoteSession r db = Inr db1" for r db1
    using that table_step.added [of "r\<lparr>rm_Status := RemoteWaiting, rm_StartedAt := None, rm_EndedAt := None, rm_EndReason := []\<rparr>" "db_rest db"]
    by (auto simp: CreateRemoteSession_def GetRemoteSession_def split: if_splits)
  have command: "db_rest db2 = db_rest db1" if "CreateCommand c db1 = Inr db2" for c and db1 db2 :: remote_db
    using that by (auto simp: CreateCommand_def split: if_splits)
  show ?thesis
    using create command
    by (auto simp: Remote_Start_def Let_def remoteAudit_def split: option.splits prod.splits sum.splits intro: r_into_rtranclp)
qed

lemma Output_steps: "table_steps (db_rest db) (db_rest (snd (Output dev i stream data now db)))"
proof (cases "(stream = RemoteStreamOut \<or> stream = RemoteStreamErr) \<and> checkChunk data")
  case False
  then show ?thesis by (auto simp: Output_def)
next
  case True
  then have out: "stream \<noteq> RemoteStreamIn" "Output dev i stream data now db =
      (case onDevice dev i now db of
        (Inl e, db1) \<Rightarrow> (Some e, db1)
      | (Inr r, db1) \<Rightarrow>
          if rm_Status r = RemoteEnded then (Some RemoteHasEnded, db1)
          else let db2 = MarkRemoteSessionActive i now db1 in
            appended (AppendRemoteChunk i stream data now db2) db2)" by (auto simp: Output_def)
  show ?thesis
  proof (cases "\<exists>r. onDevice dev i now db = (Inr r, db) \<and> GetRemoteSession i db = Some r \<and> \<not> over r")
    case True
    then obtain r where r: "onDevice dev i now db = (Inr r, db)" "GetRemoteSession i db = Some r" "\<not> over r" by blast
    define db2 where "db2 = MarkRemoteSessionActive i now db"
    have s1: "table_step (db_rest db) (db_rest db2)" unfolding db2_def by (rule MarkActive_step)
    have "open_session i (db_rest db2)"
      using r(2,3) unfolding open_session_def GetRemoteSession_def db2_def MarkRemoteSessionActive_def updateSessions_def
      by (auto simp: find_map_session over_def)
    then have s2: "table_step (db_rest db2) (add_chunk i stream data now (db_rest db2))" by (rule table_step.written [OF out(1)])
    have "db_rest (snd (Output dev i stream data now db)) \<in> {db_rest db2, add_chunk i stream data now (db_rest db2)}"
      unfolding out(2) r(1) using r(3)
      by (simp add: Let_def db2_def [symmetric] over_def appended_def AppendRemoteChunk_def add_chunk_def)
    then show ?thesis using s1 s2 by (auto intro: rtranclp.rtrancl_into_rtrancl)
  next
    case False
    obtain x db1 where x: "onDevice dev i now db = (x, db1)" by fastforce
    have "\<forall>r. x = Inr r \<longrightarrow> over r"
      using False x by (cases rule: current_cases [of i now db, case_names missing found was_over])
        (auto simp: onDevice_def split: if_splits)
    then have "snd (Output dev i stream data now db) = db1"
      unfolding out(2) x by (cases x) (auto simp: over_def)
    then show ?thesis using onDevice_steps [of db dev i now] x by simp
  qed
qed

section \<open>A session that has ended\<close>

definition session_row :: "uuid \<Rightarrow> remote_tables \<Rightarrow> RemoteSession option" where
  "session_row i t = find (\<lambda>r. rm_ID r = i) (rt_sessions t)"

definition transcript :: "uuid \<Rightarrow> remote_tables \<Rightarrow> chunk_row list" where
  "transcript i t = filter (\<lambda>c. cr_Session c = i) (rt_chunks t)"

lemma transcript_add [simp]:
  "transcript i (add_chunk j stream data at t) = transcript i t @
     (if j = i then [\<lparr>cr_Seq = rt_next t, cr_Session = j, cr_Stream = stream, cr_Data = data, cr_At = at\<rparr>] else [])"
  "session_row i (add_chunk j stream data at t) = session_row i t"
  by (simp_all add: transcript_def add_chunk_def session_row_def)

lemma table_step_over:
  assumes "table_step t t'" "session_row i t = Some r" "over r"
  shows "session_row i t' = Some r \<and> transcript i t' = transcript i t"
  using assms
proof (induction rule: table_step.induct)
  case (added q t)
  then show ?case by (simp add: session_row_def transcript_def find_append)
next
  case (updated f t)
  then show ?case by (simp add: session_row_def transcript_def find_map_session)
next
  case (written stream j t data at)
  then have "j \<noteq> i" by (auto simp: open_session_def session_row_def)
  with written show ?case by simp
qed

lemma table_steps_over:
  assumes "table_steps t t'" "session_row i t = Some r" "over r"
  shows "session_row i t' = Some r \<and> transcript i t' = transcript i t"
  using assms(1) by induction (use assms table_step_over in auto)

lemma Input_cases:
  obtains (refused) "fst (Input i actor data now db) \<noteq> None" "table_steps (db_rest db) (db_rest (snd (Input i actor data now db)))"
  | (taken) r where "GetRemoteSession i db = Some r" "\<not> over r" "overdue r now db = []" "rm_StartedBy r = actor"
      "checkChunk data" "CHR 0x00 \<notin> set data"
      "fst (Input i actor data now db) = None"
      "db_rest (snd (Input i actor data now db)) = add_chunk i RemoteStreamIn data now (db_rest db)"
proof (cases "checkChunk data")
  case False
  then show ?thesis by (intro refused) (simp_all add: Input_def)
next
  case True
  show ?thesis
  proof (cases rule: current_cases [of i now db, case_names missing found was_over])
    case (missing e db1)
    then show ?thesis using True by (intro refused) (simp_all add: Input_def)
  next
    case (was_over r db1)
    then show ?thesis using True by (intro refused) (simp_all add: Input_def over_def)
  next
    case (found r)
    consider "rm_StartedBy r \<noteq> actor" | "rm_StartedBy r = actor" "\<not> pg_text data" | "rm_StartedBy r = actor" "pg_text data" by blast
    then show ?thesis
    proof cases
      case 3
      then show ?thesis using True found
        by (intro taken [of r]) (simp_all add: Input_def over_def appended_def AppendRemoteChunk_def add_chunk_def pg_text_def)
    qed (use True found in \<open>auto intro!: refused simp: Input_def over_def appended_def AppendRemoteChunk_def remoteAudit_def\<close>)
  qed
qed

text \<open>
  What is typed is typed by one person, in time: a piece of input is taken only while the
  session has not ended, from the administrator who started it, within ten minutes of the start if
  the device has not joined, within the hour after it joined, and within fifteen minutes of the last
  input; it is one to 65536 bytes of text, and all that changes is that it is added to the
  transcript as input.
\<close>

theorem Input_guarded:
  assumes "Input i actor data now db = (None, db')"
  shows "\<exists>r. GetRemoteSession i db = Some r \<and> rm_Status r \<noteq> RemoteEnded \<and> rm_StartedBy r = actor
    \<and> (rm_Status r = RemoteWaiting \<longrightarrow> time_sub now (rm_CreatedAt r) \<le> JoinTimeout)
    \<and> (\<forall>t. rm_StartedAt r = Some t \<longrightarrow> time_sub now t \<le> RemoteMaxDuration)
    \<and> (rm_Status r = RemoteActive \<longrightarrow> time_sub now (LastRemoteInput r db) \<le> RemoteIdleTimeout)
    \<and> data \<noteq> [] \<and> length data \<le> 65536 \<and> valid_utf8 data
    \<and> db_rest db' = add_chunk i RemoteStreamIn data now (db_rest db)"
proof (cases rule: Input_cases [of i actor data now db, case_names refused taken])
  case refused
  then show ?thesis using assms by simp
next
  case (taken r)
  have lim: "(rm_Status r = RemoteWaiting \<longrightarrow> time_sub now (rm_CreatedAt r) \<le> JoinTimeout)"
    "(\<forall>t. rm_StartedAt r = Some t \<longrightarrow> time_sub now t \<le> RemoteMaxDuration)"
    "(rm_Status r = RemoteActive \<longrightarrow> time_sub now (LastRemoteInput r db) \<le> RemoteIdleTimeout)"
    using taken(3) by (auto simp: overdue_def split: if_splits option.splits)
  have "data \<noteq> []" "length data \<le> 65536" "valid_utf8 data" using taken(5) by (simp_all add: checkChunk_def)
  then show ?thesis using taken lim assms by (intro exI [where x = r]) (simp add: over_def)
qed

section \<open>Relaying to the shell\<close>

record relay =
  rl_after :: int
  rl_stdin :: "string list"
  rl_open :: bool

text \<open>How the agent sees the rows it is sent; \<open>takes\<close>: how many of them the shell takes.\<close>

definition as_chunks :: "nat \<Rightarrow> go_time \<Rightarrow> chunk_row list \<Rightarrow> remote_chunk list" where
  "as_chunks takes now cs =
     map (\<lambda>(n, c). \<lparr>ch_Seq = cr_Seq c, ch_Data = cr_Data c, ch_taken = (n < takes), ch_at = now\<rparr>) (enumerate 0 cs)"

text \<open>The pieces of input the server took, of every session, with who typed them, are kept beside the state.\<close>

record typed =
  ty_Session :: uuid
  ty_Actor :: string
  ty_Data :: string

type_synonym remote_state = "remote_db \<times> typed list \<times> relay"

definition logged :: "uuid \<Rightarrow> string \<Rightarrow> string \<Rightarrow> remote_error option \<Rightarrow> typed list \<Rightarrow> typed list" where
  "logged i actor data e log =
     (if e = None then log @ [\<lparr>ty_Session = i, ty_Actor = actor, ty_Data = data\<rparr>] else log)"

inductive remote_step :: "uuid \<Rightarrow> uuid \<Rightarrow> remote_state \<Rightarrow> remote_state \<Rightarrow> bool" for dev i where
  rs_start: "remote_step dev i (db, log, g) (snd (Remote_Start d actor reason nid cid now db), log, g)"
| rs_input: "Input j actor data now db = (e, db') \<Longrightarrow> remote_step dev i (db, log, g) (db', logged j actor data e log, g)"
| rs_output: "remote_step dev i (db, log, g) (snd (Output d j stream data now db), log, g)"
| rs_join: "remote_step dev i (db, log, g) (snd (Join d j now db), log, g)"
| rs_device_end: "remote_step dev i (db, log, g) (snd (DeviceEnd d j reason now db), log, g)"
| rs_end: "remote_step dev i (db, log, g) (snd (Remote_End j actor now db), log, g)"
| rs_watch: "remote_step dev i (db, log, g) (snd (Poll j after streams now db), log, g)"
| rs_others: "db_rest db' = db_rest db \<Longrightarrow> remote_step dev i (db, log, g) (db', log, g)"
| rs_relay: "rl_open g \<Longrightarrow> remoteInput dev i (rl_after g) now db = (Inr (cs, ended), db') \<Longrightarrow>
    relayChunks (as_chunks takes now' cs) (rl_after g) lastInput (rl_stdin g) = (ok, after', lastInput', stdin') \<Longrightarrow>
    remote_step dev i (db, log, g) (db', log, \<lparr>rl_after = after', rl_stdin = stdin', rl_open = (ok \<and> \<not> ended)\<rparr>)"
| rs_lost: "remote_step dev i (db, log, g) (snd (remoteInput dev i (rl_after g) now db), log, g)"

definition inputs :: "uuid \<Rightarrow> remote_tables \<Rightarrow> chunk_row list" where
  "inputs i t = filter (\<lambda>c. cr_Stream c = RemoteStreamIn) (transcript i t)"

definition numbered :: "remote_tables \<Rightarrow> bool" where
  "numbered t \<longleftrightarrow> sorted_wrt (\<lambda>c d. cr_Seq c < cr_Seq d) (rt_chunks t) \<and> (\<forall>c \<in> set (rt_chunks t). cr_Seq c < rt_next t)"

lemma inputs_sorted: "numbered t \<Longrightarrow> sorted_wrt (\<lambda>c d. cr_Seq c < cr_Seq d) (inputs i t)"
  by (simp add: numbered_def inputs_def transcript_def sorted_wrt_filter)

lemma inputs_add: "inputs i (add_chunk j stream data at t) = inputs i t @
    (if j = i \<and> stream = RemoteStreamIn
     then [\<lparr>cr_Seq = rt_next t, cr_Session = j, cr_Stream = stream, cr_Data = data, cr_At = at\<rparr>] else [])"
  by (simp add: inputs_def)

lemma numbered_add: "numbered t \<Longrightarrow> numbered (add_chunk j stream data at t)"
  by (auto simp: numbered_def add_chunk_def sorted_wrt_append)

lemma table_step_keeps:
  assumes "table_step t t'"
  shows "inputs i t' = inputs i t \<and> (numbered t \<longrightarrow> numbered t') \<and> rt_next t \<le> rt_next t'
    \<and> (\<forall>r. session_row i t = Some r \<longrightarrow> (\<exists>r'. session_row i t' = Some r' \<and> rm_StartedBy r' = rm_StartedBy r))"
  using assms
proof (induction rule: table_step.induct)
  case (added q t)
  then show ?case by (simp add: inputs_def transcript_def numbered_def session_row_def find_append)
next
  case (updated f t)
  then show ?case by (auto simp: inputs_def transcript_def numbered_def session_row_def find_map_session)
next
  case (written stream j t data at)
  then show ?case using numbered_add [of t j stream data at] by (simp add: inputs_add) (simp add: add_chunk_def)
qed

lemma table_steps_keep:
  assumes "table_steps t t'"
  shows "inputs i t' = inputs i t \<and> (numbered t \<longrightarrow> numbered t') \<and> rt_next t \<le> rt_next t'
    \<and> (\<forall>r. session_row i t = Some r \<longrightarrow> (\<exists>r'. session_row i t' = Some r' \<and> rm_StartedBy r' = rm_StartedBy r))"
  using assms
proof induction
  case base
  then show ?case by simp
next
  case (step t1 t2)
  then show ?case using table_step_keeps [OF step(2), of i] by (auto dest: order_trans)
qed

text \<open>The state: the transcript has what was taken, and the shell has what was relayed so far.\<close>

definition relayed :: "uuid \<Rightarrow> remote_state \<Rightarrow> bool" where
  "relayed i x \<longleftrightarrow> (case x of (db, log, g) \<Rightarrow>
     numbered (db_rest db) \<and> rl_after g < rt_next (db_rest db)
     \<and> map cr_Data (inputs i (db_rest db)) = map ty_Data (filter (\<lambda>x. ty_Session x = i) log)
     \<and> (\<forall>x \<in> set log. ty_Session x = i \<longrightarrow> (\<exists>r. session_row i (db_rest db) = Some r \<and> rm_StartedBy r = ty_Actor x))
     \<and> rl_stdin g = map cr_Data (filter (\<lambda>c. cr_Seq c \<le> rl_after g) (inputs i (db_rest db))))"

lemma relayed_steps:
  assumes "relayed i (db, log, g)" "table_steps (db_rest db) (db_rest db')"
  shows "relayed i (db', log, g)"
proof -
  note k = table_steps_keep [OF assms(2), of i]
  have "\<forall>x \<in> set log. ty_Session x = i \<longrightarrow> (\<exists>r. session_row i (db_rest db') = Some r \<and> rm_StartedBy r = ty_Actor x)"
    using assms(1) k unfolding relayed_def by fastforce
  then show ?thesis using assms(1) k by (auto simp: relayed_def)
qed

lemma sorted_split:
  assumes "sorted_wrt (\<lambda>c d. f c < (f d :: int)) xs"
  shows "xs = filter (\<lambda>c. f c \<le> a) xs @ filter (\<lambda>c. a < f c) xs"
  using assms
proof (induction xs)
  case (Cons x xs)
  show ?case
  proof (cases "f x \<le> a")
    case False
    then have "filter (\<lambda>c. f c \<le> a) xs = []" using Cons.prems by (auto simp: filter_empty_conv)
    with False Cons show ?thesis by (simp add: filter_id_conv)
  qed (use Cons in simp)
qed simp

lemma sorted_upto:
  assumes "sorted_wrt (\<lambda>c d. f c < (f d :: int)) xs" "take m (filter (\<lambda>c. a < f c) xs) \<noteq> []"
  shows "filter (\<lambda>c. f c \<le> f (last (take m (filter (\<lambda>c. a < f c) xs)))) xs
    = filter (\<lambda>c. f c \<le> a) xs @ take m (filter (\<lambda>c. a < f c) xs)"
proof -
  define ys zs where "ys = filter (\<lambda>c. f c \<le> a) xs" and "zs = filter (\<lambda>c. a < f c) xs"
  define l where "l = last (take m zs)"
  have xs: "xs = ys @ take m zs @ drop m zs" using sorted_split [OF assms(1), of a] by (simp add: ys_def zs_def)
  have l: "l \<in> set (take m zs)" using assms(2) by (simp add: l_def zs_def [symmetric])
  then have "l \<in> set zs" by (rule in_set_takeD)
  then have al: "a < f l" by (simp add: zs_def)
  have sz: "sorted_wrt (\<lambda>c d. f c < f d) (take m zs @ drop m zs)"
    using assms(1) unfolding zs_def by (simp add: sorted_wrt_filter)
  have ne: "take m zs \<noteq> []" using assms(2) by (simp add: zs_def)
  have "f c \<le> f l" if "c \<in> set (take m zs)" for c
  proof -
    have "take m zs = butlast (take m zs) @ [l]" using ne by (simp add: l_def)
    moreover from this sz have "\<forall>c \<in> set (butlast (take m zs)). f c < f l" by (metis list.set_intros(1) sorted_wrt_append)
    ultimately show ?thesis using that by (metis Un_iff empty_iff empty_set insert_iff less_imp_le order_refl set_append list.simps(15))
  qed
  moreover have "\<not> f c \<le> f l" if "c \<in> set (drop m zs)" for c
    using sz that l unfolding sorted_wrt_append by (meson not_le)
  moreover have "f c \<le> f l" if "c \<in> set ys" for c using that al by (simp add: ys_def)
  ultimately have "filter (\<lambda>c. f c \<le> f l) ys = ys" "filter (\<lambda>c. f c \<le> f l) (take m zs) = take m zs"
    "filter (\<lambda>c. f c \<le> f l) (drop m zs) = []" by (simp_all only: filter_id_conv filter_empty_conv) blast+
  then have "filter (\<lambda>c. f c \<le> f l) (ys @ take m zs @ drop m zs) = ys @ take m zs"
    by (simp only: filter_append append_Nil2)
  then have "filter (\<lambda>c. f c \<le> f l) xs = ys @ take m zs" by (simp only: xs [symmetric])
  then show ?thesis unfolding l_def ys_def zs_def .
qed

lemma relayChunks_enumerate:
  "relayChunks (map (\<lambda>(n, c). \<lparr>ch_Seq = cr_Seq c, ch_Data = cr_Data c, ch_taken = (n < takes), ch_at = now\<rparr>) (enumerate n cs)) after t stdin
     = (ok, after', t', stdin') \<Longrightarrow>
   after' = (if take (takes - n) cs = [] then after else cr_Seq (last (take (takes - n) cs)))
   \<and> stdin' = stdin @ map cr_Data (take (takes - n) cs)"
proof (induction cs arbitrary: n after t stdin)
  case (Cons c cs)
  show ?case
  proof (cases "n < takes")
    case True
    then have "takes - n = Suc (takes - Suc n)" by simp
    then show ?thesis using Cons.IH [of "Suc n" "cr_Seq c" now "stdin @ [cr_Data c]"] Cons.prems True by simp
  qed (use Cons.prems in simp)
qed simp

lemma remoteInput_chunks:
  assumes "remoteInput dev i after now db = (Inr (cs, ended), db')"
  shows "cs = RemoteChunks i after [RemoteStreamIn] 500 db'"
proof -
  have "cs = RemoteChunks i after [RemoteStreamIn] 500 db2" if "Poll i after [RemoteStreamIn] now db1 = (Inr (r, cs), db2)" for db1 db2 r
    using that by (auto simp: Poll_def split: prod.splits sum.splits)
  then show ?thesis using assms by (auto simp: remoteInput_def split: prod.splits option.splits sum.splits if_splits)
qed

lemma RemoteChunks_inputs:
  assumes "numbered (db_rest db)"
  shows "RemoteChunks i after [RemoteStreamIn] n db = take n (filter (\<lambda>c. after < cr_Seq c) (inputs i (db_rest db)))"
proof -
  let ?xs = "filter (\<lambda>c. after < cr_Seq c) (inputs i (db_rest db))"
  have "sorted_wrt (\<lambda>c d. cr_Seq c < cr_Seq d) ?xs" using inputs_sorted [OF assms] by (rule sorted_wrt_filter)
  then have "sorted (map cr_Seq ?xs)" by (simp add: sorted_wrt_map) (rule sorted_wrt_mono_rel, auto)
  then have "sort_key cr_Seq ?xs = ?xs" by (rule sort_key_id_if_sorted)
  moreover have "filter (\<lambda>c. cr_Session c = i \<and> after < cr_Seq c \<and> ([RemoteStreamIn] = [] \<or> cr_Stream c \<in> set [RemoteStreamIn]))
      (rt_chunks (db_rest db)) = ?xs"
    by (auto simp: inputs_def transcript_def intro: filter_cong)
  ultimately show ?thesis by (simp add: RemoteChunks_def)
qed

lemma relayed_relay:
  assumes "relayed i (db, log, g)" "remoteInput dev i (rl_after g) now db = (Inr (cs, ended), db')"
    "relayChunks (as_chunks takes now' cs) (rl_after g) t (rl_stdin g) = (ok, after', t', stdin')"
  shows "relayed i (db', log, \<lparr>rl_after = after', rl_stdin = stdin', rl_open = b\<rparr>)"
proof -
  have "table_steps (db_rest db) (db_rest db')" using remoteInput_steps [of db dev i "rl_after g" now] assms(2) by simp
  then have inv: "relayed i (db', log, g)" by (rule relayed_steps [OF assms(1)])
  then have num: "numbered (db_rest db')" by (simp add: relayed_def)
  define zs where "zs = filter (\<lambda>c. rl_after g < cr_Seq c) (inputs i (db_rest db'))"
  have cs: "cs = take 500 zs" using remoteInput_chunks [OF assms(2)] RemoteChunks_inputs [OF num] by (simp add: zs_def)
  define m where "m = min takes 500"
  have tk: "take takes cs = take m zs" by (simp add: cs m_def)
  have r: "after' = (if take m zs = [] then rl_after g else cr_Seq (last (take m zs)))"
    "stdin' = rl_stdin g @ map cr_Data (take m zs)"
    using relayChunks_enumerate [OF assms(3) [unfolded as_chunks_def]] unfolding diff_zero tk by blast+
  have "filter (\<lambda>c. cr_Seq c \<le> after') (inputs i (db_rest db'))
      = filter (\<lambda>c. cr_Seq c \<le> rl_after g) (inputs i (db_rest db')) @ take m zs"
    using sorted_upto [OF inputs_sorted [OF num], of m "rl_after g" i] unfolding zs_def [symmetric] r(1)
    by (cases "take m zs = []") simp_all
  moreover have "after' < rt_next (db_rest db')"
  proof (cases "take m zs = []")
    case False
    then have "last (take m zs) \<in> set (rt_chunks (db_rest db'))"
      using in_set_takeD [OF last_in_set [OF False]] by (auto simp: zs_def inputs_def transcript_def)
    then show ?thesis using num r(1) False by (simp add: numbered_def)
  qed (use inv r(1) in \<open>simp add: relayed_def\<close>)
  ultimately show ?thesis using inv r(2) by (simp add: relayed_def)
qed

lemma relayed_input:
  assumes "relayed i (db, log, g)" "Input j actor data now db = (e, db')"
  shows "relayed i (db', logged j actor data e log, g)"
proof (cases rule: Input_cases [of j actor data now db, case_names refused taken])
  case refused
  then show ?thesis using assms relayed_steps [OF assms(1)] by (auto simp: logged_def)
next
  case (taken r)
  then have t': "db_rest db' = add_chunk j RemoteStreamIn data now (db_rest db)" "e = None" using assms(2) by simp_all
  have r: "session_row j (db_rest db) = Some r" using taken(1) by (simp add: session_row_def GetRemoteSession_def)
  have "rt_next (db_rest db') = rt_next (db_rest db) + 1" by (simp add: t' add_chunk_def)
  then show ?thesis
    using assms(1) numbered_add [of "db_rest db" j RemoteStreamIn data now] r taken(4)
    by (cases "j = i") (auto simp: relayed_def t' logged_def inputs_add)
qed

lemma relayed_step:
  assumes "remote_step dev i x y" "relayed i x"
  shows "relayed i y"
  using assms
proof (induction rule: remote_step.induct)
  case (rs_input j actor data now db e db' log g)
  then show ?case by (blast intro: relayed_input)
next
  case (rs_relay g now db cs ended db' takes now' lastInput ok after' lastInput' stdin' log)
  then show ?case by (blast intro: relayed_relay)
next
  case (rs_others db' db log g)
  then show ?case using relayed_steps [of i db log g db'] by simp
qed (auto intro: relayed_steps Remote_Start_steps Output_steps Join_steps DeviceEnd_steps Remote_End_steps Poll_steps remoteInput_steps)

definition fresh_remote :: "remote_state \<Rightarrow> bool" where
  "fresh_remote x \<longleftrightarrow> (case x of (db, log, g) \<Rightarrow>
     db_rest db = \<lparr>rt_sessions = [], rt_chunks = [], rt_next = 1\<rparr> \<and> log = [] \<and> g = \<lparr>rl_after = 0, rl_stdin = [], rl_open = True\<rparr>)"

interpretation relay: state_machine "remote_step dev i" fresh_remote "relayed i" for dev i
proof unfold_locales
  show "relayed i x" if "fresh_remote x" for x
    using that by (auto simp: fresh_remote_def relayed_def numbered_def inputs_def transcript_def)
qed (blast intro: relayed_step)

text \<open>
  C16. The shell runs what was typed, no more and no less: in every state a remote session can reach,
  whatever other sessions, administrators and devices do and whichever polls and answers are lost,
  the input the device has given to the shell is a beginning of what was typed into this session,
  each piece once and in the order the server took it, and every piece was typed by the
  administrator who started the session.
\<close>

theorem shell_gets_what_was_typed:
  assumes "(remote_step dev i)\<^sup>*\<^sup>* x (db, log, g)" "fresh_remote x"
  shows "prefix (rl_stdin g) (map ty_Data (filter (\<lambda>x. ty_Session x = i) log))
    \<and> (\<forall>x \<in> set log. ty_Session x = i \<longrightarrow> (\<exists>r. GetRemoteSession i db = Some r \<and> rm_StartedBy r = ty_Actor x))"
proof -
  have inv: "relayed i (db, log, g)" by (rule relay.reached [OF assms])
  then have "numbered (db_rest db)" by (simp add: relayed_def)
  from sorted_split [OF inputs_sorted [OF this], of i "rl_after g"]
  have "prefix (map cr_Data (filter (\<lambda>c. cr_Seq c \<le> rl_after g) (inputs i (db_rest db)))) (map cr_Data (inputs i (db_rest db)))"
    by (metis map_append prefixI)
  then show ?thesis using inv by (simp add: relayed_def session_row_def GetRemoteSession_def)
qed

lemma remote_step_tables:
  assumes "remote_step dev i (db, log, g) (db', log', g')"
  shows "table_steps (db_rest db) (db_rest db')
    \<or> (\<exists>j data now. open_session j (db_rest db) \<and> db_rest db' = add_chunk j RemoteStreamIn data now (db_rest db))"
  using assms
proof cases
  case (rs_input j actor data now e)
  show ?thesis
  proof (cases rule: Input_cases [of j actor data now db, case_names refused taken])
    case refused
    then show ?thesis using rs_input by simp
  next
    case (taken r)
    then have "open_session j (db_rest db)" by (simp add: open_session_def GetRemoteSession_def)
    then show ?thesis using taken(8) rs_input by auto
  qed
next
  case (rs_relay now cs ended takes now' lastInput ok after' lastInput' stdin')
  then show ?thesis using remoteInput_steps [of db dev i "rl_after g" now] by simp
qed (simp_all add: Remote_Start_steps Output_steps Join_steps DeviceEnd_steps Remote_End_steps Poll_steps remoteInput_steps)

lemma remote_step_over:
  assumes "remote_step dev i (db, log, g) (db', log', g')" "session_row j (db_rest db) = Some r" "over r"
  shows "session_row j (db_rest db') = Some r \<and> transcript j (db_rest db') = transcript j (db_rest db)"
  using remote_step_tables [OF assms(1)]
proof (elim disjE exE conjE)
  fix j' data now assume "open_session j' (db_rest db)" "db_rest db' = add_chunk j' RemoteStreamIn data now (db_rest db)"
  moreover from this assms(2,3) have "j' \<noteq> j" by (auto simp: open_session_def session_row_def)
  ultimately show ?thesis using assms(2) by simp
qed (rule table_steps_over [OF _ assms(2,3)])

text \<open>
  A session that has ended stays as it is: whatever administrators, devices and the relay do
  afterwards, its row does not change, least of all back to active, and its transcript gets not one
  more piece of input or output.
\<close>

theorem ended_session_final:
  assumes "(remote_step dev i)\<^sup>*\<^sup>* (db, log, g) (db', log', g')" "GetRemoteSession j db = Some r" "rm_Status r = RemoteEnded"
  shows "GetRemoteSession j db' = Some r \<and> transcript j (db_rest db') = transcript j (db_rest db)"
proof -
  have "session_row j (db_rest (fst y)) = Some r \<and> transcript j (db_rest (fst y)) = transcript j (db_rest db)"
    if "(remote_step dev i)\<^sup>*\<^sup>* (db, log, g) y" for y
    using that
  proof induction
    case base
    then show ?case using assms(2) by (simp add: session_row_def GetRemoteSession_def)
  next
    case (step y z)
    obtain db1 l1 g1 db2 l2 g2 where "y = (db1, l1, g1)" "z = (db2, l2, g2)" by (cases y, cases z) auto
    then show ?case using remote_step_over [of dev i db1 l1 g1 db2 l2 g2 j r] step(2,3) assms(3) by (simp add: over_def)
  qed
  from this [OF assms(1)] show ?thesis by (simp add: session_row_def GetRemoteSession_def)
qed

text \<open>A session past a limit is ended by whoever looks at it next.\<close>

lemma overdue_text: "pg_text (overdue r now db)"
proof -
  have "pg_text (''the device didn'' @ [CHR 0x27] @ ''t join within ten minutes'')" "pg_text ''the session reached its one-hour limit''"
    "pg_text ''nothing was typed for fifteen minutes''" "pg_text []" by code_simp+
  then show ?thesis unfolding overdue_def by presburger
qed

lemma overdue_session_ends:
  assumes "GetRemoteSession i db = Some r" "rm_Status r \<noteq> RemoteEnded" "overdue r now db \<noteq> []"
  shows "\<exists>r'. current i now db = (Inr r', snd (current i now db)) \<and> rm_Status r' = RemoteEnded"
proof (cases rule: current_cases [of i now db, case_names missing found was_over])
  case (missing e db1)
  obtain b db2 where E: "EndRemoteSession i (overdue r now db) now db = Inr (b, db2)" using overdue_text by (simp add: EndRemoteSession_def Let_def)
  then have "GetRemoteSession i db2 \<noteq> None"
    using assms(1) by (auto simp: EndRemoteSession_def Let_def GetRemoteSession_def updateSessions_def find_map_session split: if_splits)
  with E missing(1) assms show ?thesis by (auto simp: current_def)
next
  case (found r')
  then show ?thesis using assms by simp
next
  case (was_over r' db1)
  then show ?thesis by (simp add: over_def)
qed

section \<open>Two ways to lose text\<close>

lemma valid_utf8_ascii: "byte a < 128 \<Longrightarrow> valid_utf8 (a # s) = valid_utf8 s"
proof -
  assume "byte a < 128"
  then have "utf8_len (a # s) = 1" by (cases "a # s" rule: utf8_len.cases) auto
  then show ?thesis by (subst valid_utf8.simps) simp
qed

lemma valid_utf8_replicate: "byte a < 128 \<Longrightarrow> valid_utf8 (replicate n a @ s) = valid_utf8 s"
  by (induction n) (simp_all add: valid_utf8_ascii)

text \<open>A reason of more than 500 bytes is cut wherever the 500th byte is: in the middle of a character, the
  database refuses it, and the session stays open.\<close>

lemma DeviceEnd_cut:
  assumes "GetRemoteSession i db = Some r" "rm_DeviceID r = dev" "rm_Status r \<noteq> RemoteEnded" "overdue r now db = []"
  defines "reason \<equiv> replicate 499 (CHR ''a'') @ [CHR 0xC3, CHR 0xA9]"
  shows "valid_utf8 reason \<and> DeviceEnd dev i reason now db = (Some (RemoteInternal ''update''), db)"
proof -
  have a: "byte (CHR ''a'') < (128::nat)" by simp
  define as where "as = replicate 499 (CHR ''a'')"
  have as: "valid_utf8 (as @ s) = valid_utf8 s" "length as = 499" for s
    unfolding as_def by (rule valid_utf8_replicate [OF a], rule length_replicate)
  have reason: "reason = as @ [CHR 0xC3, CHR 0xA9]" unfolding as_def reason_def ..
  have "valid_utf8 [CHR 0xC3, CHR 0xA9]" "\<not> valid_utf8 [CHR 0xC3]" by code_simp+
  then have v: "valid_utf8 reason" "\<not> valid_utf8 (as @ [CHR 0xC3])" unfolding reason as by simp_all
  have t: "take 500 reason = as @ [CHR 0xC3]" "length reason > 500" unfolding reason by (simp_all add: as(2))
  have "valid_utf8 (''device: '' @ s) = valid_utf8 s" for s by (simp add: valid_utf8_ascii)
  then have "\<not> pg_text (''device: '' @ take 500 reason)" using v(2) t by (simp add: pg_text_def)
  moreover have "current i now db = (Inr r, db)" using assms by (simp add: current_def)
  ultimately show ?thesis using v(1) t(2) assms(2) by (simp add: DeviceEnd_def onDevice_def EndRemoteSession_def)
qed

text \<open>Output with a zero byte in it is text to the service and none to the database.\<close>

lemma Output_zero_byte:
  assumes "GetRemoteSession i db = Some r" "rm_DeviceID r = dev" "rm_Status r \<noteq> RemoteEnded" "overdue r now db = []"
  shows "fst (Output dev i RemoteStreamOut (''ok'' @ [CHR 0x00]) now db) = Some (RemoteInternal ''insert'')"
proof -
  have "valid_utf8 (''ok'' @ [CHR 0x00])" by code_simp
  then have "checkChunk (''ok'' @ [CHR 0x00])" by (simp add: checkChunk_def)
  moreover have "\<not> pg_text (''ok'' @ [CHR 0x00])" by (simp add: pg_text_def)
  moreover have "current i now db = (Inr r, db)" using assms by (simp add: current_def)
  ultimately show ?thesis using assms(2,3) by (simp add: Output_def onDevice_def appended_def AppendRemoteChunk_def)
qed

section \<open>Examples\<close>

definition rw_db :: remote_db where
  "rw_db = \<lparr>db_commands = [], db_results = [], db_hosts = [(''d'', ''pc-1'', ''active'')], db_audit = [],
     db_rest = \<lparr>rt_sessions = [], rt_chunks = [], rt_next = 1\<rparr>\<rparr>"

definition rw_relay :: relay where
  "rw_relay = \<lparr>rl_after = 0, rl_stdin = [], rl_open = True\<rparr>"

definition rw_started :: remote_db where
  "rw_started = snd (Remote_Start ''d'' ''ann'' ''ticket 7'' ''s'' ''k'' 1 rw_db)"

definition rw_row :: RemoteSession where
  "rw_row = \<lparr>rm_ID = ''s'', rm_DeviceID = ''d'', rm_StartedBy = ''ann'', rm_Reason = ''ticket 7'', rm_Status = RemoteWaiting,
     rm_CreatedAt = 1, rm_StartedAt = None, rm_EndedAt = None, rm_EndReason = []\<rparr>"

lemma rw_started_row: "GetRemoteSession ''s'' rw_started = Some rw_row"
  by code_simp

lemma rw_overdue: "overdue rw_row 2 db = []"
  by (simp add: overdue_def rw_row_def time_sub_def JoinTimeout_def minute_def max_int64_def min_int64_def)

definition rw_typed :: remote_db where
  "rw_typed = snd (Input ''s'' ''ann'' ''dir'' 2 rw_started)"

lemma rw_input: "Input ''s'' ''ann'' ''dir'' 2 rw_started = (None, rw_typed)"
proof -
  have v: "valid_utf8 ''dir''" by code_simp
  have "current ''s'' 2 rw_started = (Inr rw_row, rw_started)"
    using rw_started_row by (simp add: current_def rw_overdue)
  then show ?thesis using v
    by (simp add: rw_typed_def Input_def checkChunk_def rw_row_def appended_def AppendRemoteChunk_def pg_text_def)
qed

lemma rw_typed_eq: "rw_typed = rw_started\<lparr>db_rest := add_chunk ''s'' RemoteStreamIn ''dir'' 2 (db_rest rw_started)\<rparr>"
proof -
  have v: "valid_utf8 ''dir''" by code_simp
  have "current ''s'' 2 rw_started = (Inr rw_row, rw_started)" using rw_started_row by (simp add: current_def rw_overdue)
  then show ?thesis using v
    by (simp add: rw_typed_def Input_def checkChunk_def rw_row_def appended_def AppendRemoteChunk_def pg_text_def add_chunk_def)
qed

theorem Input_guarded_witness:
  "\<exists>r. GetRemoteSession ''s'' rw_started = Some r \<and> rm_StartedBy r = ''ann'' \<and> rm_Status r \<noteq> RemoteEnded
     \<and> length (rt_chunks (db_rest rw_typed)) = 1"
proof -
  have "rt_chunks (db_rest rw_started) = []" by code_simp
  with Input_guarded [OF rw_input] show ?thesis by (auto simp: add_chunk_def)
qed

lemma rw_reached:
  "(remote_step ''d'' ''s'')\<^sup>*\<^sup>* (rw_db, [], rw_relay) (rw_typed, [\<lparr>ty_Session = ''s'', ty_Actor = ''ann'', ty_Data = ''dir''\<rparr>], rw_relay)"
proof -
  have "remote_step ''d'' ''s'' (rw_db, [], rw_relay) (rw_started, [], rw_relay)" unfolding rw_started_def by (rule rs_start)
  moreover have "remote_step ''d'' ''s'' (rw_started, [], rw_relay) (rw_typed, logged ''s'' ''ann'' ''dir'' None [], rw_relay)"
    by (rule rs_input [OF rw_input])
  ultimately show ?thesis by (simp add: logged_def)
qed

lemma rw_relayed:
  "\<exists>db g. remote_step ''d'' ''s'' (rw_typed, log, rw_relay) (db, log, g) \<and> rl_stdin g = [''dir'']"
proof -
  have "(case remoteInput ''d'' ''s'' 0 3 rw_typed of (Inr (cs, b), db) \<Rightarrow> map cr_Data cs = [''dir''] | _ \<Rightarrow> False)"
    unfolding rw_typed_eq by code_simp
  then obtain cs b db' where r: "remoteInput ''d'' ''s'' 0 3 rw_typed = (Inr (cs, b), db')" "map cr_Data cs = [''dir'']"
    by (auto split: prod.splits sum.splits)
  obtain ok after' t' stdin' where c: "relayChunks (as_chunks 9 3 cs) 0 3 [] = (ok, after', t', stdin')" by (metis prod_cases4)
  then have "stdin' = map cr_Data (take 9 cs)" using relayChunks_enumerate [OF c [unfolded as_chunks_def]] by simp
  also have "take 9 cs = cs" using r(2) by (metis length_map length_Cons list.size(3) one_le_numeral take_all One_nat_def)
  finally have s: "stdin' = [''dir'']" using r(2) by simp
  have "remote_step ''d'' ''s'' (rw_typed, log, rw_relay) (db', log, \<lparr>rl_after = after', rl_stdin = stdin', rl_open = (ok \<and> \<not> b)\<rparr>)"
    by (rule rs_relay) (use r c in \<open>simp_all add: rw_relay_def\<close>)
  moreover have "rl_stdin \<lparr>rl_after = after', rl_stdin = stdin', rl_open = (ok \<and> \<not> b)\<rparr> = [''dir'']" by (simp add: s)
  ultimately show ?thesis by blast
qed

theorem shell_gets_what_was_typed_witness:
  "\<exists>db g log. (remote_step ''d'' ''s'')\<^sup>*\<^sup>* (rw_db, [], rw_relay) (db, log, g) \<and> rl_stdin g = [''dir'']
     \<and> prefix (rl_stdin g) (map ty_Data (filter (\<lambda>x. ty_Session x = ''s'') log))"
proof -
  obtain db g where "remote_step ''d'' ''s'' (rw_typed, [\<lparr>ty_Session = ''s'', ty_Actor = ''ann'', ty_Data = ''dir''\<rparr>], rw_relay)
      (db, [\<lparr>ty_Session = ''s'', ty_Actor = ''ann'', ty_Data = ''dir''\<rparr>], g)" and g: "rl_stdin g = [''dir'']"
    using rw_relayed by blast
  with rw_reached have r: "(remote_step ''d'' ''s'')\<^sup>*\<^sup>* (rw_db, [], rw_relay)
      (db, [\<lparr>ty_Session = ''s'', ty_Actor = ''ann'', ty_Data = ''dir''\<rparr>], g)" by (meson rtranclp.rtrancl_into_rtrancl)
  have "fresh_remote (rw_db, [], rw_relay)" by (simp add: fresh_remote_def rw_db_def rw_relay_def)
  from shell_gets_what_was_typed [OF r this] r g show ?thesis by blast
qed

definition rw_ended :: remote_db where
  "rw_ended = snd (Remote_End ''s'' ''ann'' 2 rw_started)"

theorem ended_session_final_witness:
  "\<exists>r. rm_Status r = RemoteEnded \<and> GetRemoteSession ''s'' (snd (Join ''d'' ''s'' 3 rw_ended)) = Some r"
proof -
  have "(case GetRemoteSession ''s'' rw_ended of Some r \<Rightarrow> rm_Status r = RemoteEnded | None \<Rightarrow> False)" by code_simp
  then obtain r where r: "GetRemoteSession ''s'' rw_ended = Some r" "rm_Status r = RemoteEnded" by (auto split: option.splits)
  have "(remote_step ''d'' ''s'')\<^sup>*\<^sup>* (rw_ended, [], rw_relay) (snd (Join ''d'' ''s'' 3 rw_ended), [], rw_relay)"
    by (rule r_into_rtranclp) (rule rs_join)
  from ended_session_final [OF this r] r(2) show ?thesis by blast
qed

end
