(* ===== verification/Access_Control.thy ===== *)
theory Access_Control
  imports Auth_Service
begin

text \<open>
  Who may call what: the guard in front of every route of the admin API
  (\<^verbatim>\<open>src/internal/server/adminapi/handler.go\<close>, \<^verbatim>\<open>resources.go\<close>, \<^verbatim>\<open>scope.go\<close>) and API tokens
  (\<^verbatim>\<open>auth/apitokens.go\<close>, \<^verbatim>\<open>store/apitokens.go\<close>, \<^verbatim>\<open>store/scope.go\<close>), over the sign-in state. A handler
  is a function of who is calling and of the state; \<open>protect\<close> runs it or refuses the request
  with the status and the code the API answers. A request names the route it matched: matching
  paths is the standard library's. New identifiers and random tokens are arguments.
\<close>

section \<open>API tokens\<close>

record APIToken =
  tk_ID :: uuid
  tk_Name :: string
  tk_TokenHash :: string
  tk_Role :: string
  tk_CreatedByID :: uuid
  tk_CreatedBy :: string
  tk_CreatedAt :: go_time
  tk_ExpiresAt :: go_time
  tk_LastUsedAt :: "go_time option"
  tk_RevokedAt :: "go_time option"

record api_state =
  an_auth :: auth_state
  an_tokens :: "APIToken list"

datatype token_error = ErrBadTokenRequest | ErrDuplicateToken | ErrInvalidToken | ErrTokenNotFound

abbreviation "APITokenPrefix \<equiv> ''rtk_''"
abbreviation "DefaultAPITokenDays \<equiv> 90 :: int"
abbreviation "MaxAPITokenDays \<equiv> 365 :: int"
abbreviation "maxAPITokenName \<equiv> 100 :: nat"

text \<open>The table: a hash is unique, and a name is among the tokens not revoked, whatever its case.\<close>

definition insertAPIToken :: "APIToken \<Rightarrow> api_state \<Rightarrow> api_state option" where
  "insertAPIToken t s =
     (if list_ex (\<lambda>u. tk_TokenHash u = tk_TokenHash t
          \<or> tk_RevokedAt u = None \<and> to_lower (tk_Name u) = to_lower (tk_Name t)) (an_tokens s)
      then None else Some (s\<lparr>an_tokens := an_tokens s @ [t]\<rparr>))"

definition usable :: "string \<Rightarrow> go_time \<Rightarrow> api_state \<Rightarrow> APIToken \<Rightarrow> bool" where
  "usable hash now s t \<longleftrightarrow> tk_TokenHash t = hash \<and> tk_RevokedAt t = None \<and> tk_ExpiresAt t > now
     \<and> (case GetAdmin (an_auth s) (tk_CreatedByID t) of None \<Rightarrow> False | Some a \<Rightarrow> ad_disabled_at a = None)"

definition GetUsableAPIToken :: "string \<Rightarrow> go_time \<Rightarrow> api_state \<Rightarrow> APIToken option" where
  "GetUsableAPIToken hash now s =
     (case find (usable hash now s) (an_tokens s) of
        None \<Rightarrow> None
      | Some t \<Rightarrow>
          (case GetAdmin (an_auth s) (tk_CreatedByID t) of
             None \<Rightarrow> None
           | Some a \<Rightarrow>
               if RoleRank (ad_role a) < RoleRank (tk_Role t)
               then (if \<not> ValidRole (ad_role a) then None else Some (t\<lparr>tk_Role := ad_role a\<rparr>))
               else Some t))"

definition GetAPIToken :: "uuid \<Rightarrow> api_state \<Rightarrow> APIToken option" where
  "GetAPIToken i s = find (\<lambda>t. tk_ID t = i) (an_tokens s)"

definition updateTokens :: "(APIToken \<Rightarrow> bool) \<Rightarrow> (APIToken \<Rightarrow> APIToken) \<Rightarrow> api_state \<Rightarrow> api_state" where
  "updateTokens p f s = s\<lparr>an_tokens := map (\<lambda>t. if p t then f t else t) (an_tokens s)\<rparr>"

definition TouchAPIToken :: "uuid \<Rightarrow> go_time \<Rightarrow> api_state \<Rightarrow> api_state" where
  "TouchAPIToken i now = updateTokens (\<lambda>t. tk_ID t = i) (\<lambda>t. t\<lparr>tk_LastUsedAt := Some now\<rparr>)"

definition revokeAPIToken :: "uuid \<Rightarrow> go_time \<Rightarrow> api_state \<Rightarrow> api_state" where
  "revokeAPIToken i now = updateTokens (\<lambda>t. tk_ID t = i \<and> tk_RevokedAt t = None) (\<lambda>t. t\<lparr>tk_RevokedAt := Some now\<rparr>)"

definition RevokeAPITokensForAdmin :: "uuid \<Rightarrow> go_time \<Rightarrow> api_state \<Rightarrow> api_state" where
  "RevokeAPITokensForAdmin i now =
     updateTokens (\<lambda>t. tk_CreatedByID t = i \<and> tk_RevokedAt t = None) (\<lambda>t. t\<lparr>tk_RevokedAt := Some now\<rparr>)"

text \<open>The service over it.\<close>

definition CreateAPIToken ::
  "auth_env \<Rightarrow> uuid \<Rightarrow> string \<Rightarrow> go_time \<Rightarrow> string \<Rightarrow> string \<Rightarrow> int \<Rightarrow> admin \<Rightarrow> api_state
     \<Rightarrow> token_error + (string \<times> APIToken \<times> api_state)" where
  "CreateAPIToken E new_id secret now rawName role rawDays creator s =
     (let name = trim_space rawName;
          days = (if rawDays = 0 then DefaultAPITokenDays else rawDays);
          token = APITokenPrefix @ secret in
      if name = [] \<or> length name > maxAPITokenName then Inl ErrBadTokenRequest
      else if \<not> ValidRole role then Inl ErrBadTokenRequest
      else if RoleRank role > RoleRank (ad_role creator) then Inl ErrBadTokenRequest
      else if days < 1 \<or> days > MaxAPITokenDays then Inl ErrBadTokenRequest
      else
        let t = \<lparr>tk_ID = new_id, tk_Name = name, tk_TokenHash = en_hash_token E token, tk_Role = role,
              tk_CreatedByID = ad_id creator, tk_CreatedBy = ad_email creator, tk_CreatedAt = now,
              tk_ExpiresAt = time_add now (dur_mul days (24 * hour)), tk_LastUsedAt = None, tk_RevokedAt = None\<rparr> in
        (case insertAPIToken t s of None \<Rightarrow> Inl ErrDuplicateToken | Some s' \<Rightarrow> Inr (token, t, s')))"

definition AuthenticateAPIToken ::
  "auth_env \<Rightarrow> go_time \<Rightarrow> string \<Rightarrow> api_state \<Rightarrow> (token_error + APIToken) \<times> api_state" where
  "AuthenticateAPIToken E now token s =
     (if cut_prefix APITokenPrefix token = None then (Inl ErrInvalidToken, s)
      else case GetUsableAPIToken (en_hash_token E token) now s of
        None \<Rightarrow> (Inl ErrInvalidToken, s)
      | Some t \<Rightarrow>
          if (case tk_LastUsedAt t of None \<Rightarrow> True | Some u \<Rightarrow> time_sub now u \<ge> touchInterval)
          then (Inr (t\<lparr>tk_LastUsedAt := Some now\<rparr>), TouchAPIToken (tk_ID t) now s)
          else (Inr t, s))"

definition RevokeAPIToken :: "uuid \<Rightarrow> go_time \<Rightarrow> api_state \<Rightarrow> token_error option \<times> api_state" where
  "RevokeAPIToken i now s =
     (case GetAPIToken i s of None \<Rightarrow> (Some ErrTokenNotFound, s) | Some _ \<Rightarrow> (None, revokeAPIToken i now s))"

section \<open>The guard\<close>

record access =
  ac_admin :: bool
  ac_operate :: bool
  ac_session :: bool
  ac_fleet :: bool

definition read_access :: access where "read_access = \<lparr>ac_admin = False, ac_operate = False, ac_session = False, ac_fleet = False\<rparr>"
definition write_access :: access where "write_access = read_access\<lparr>ac_admin := True\<rparr>"
definition operate_access :: access where "operate_access = read_access\<lparr>ac_operate := True\<rparr>"
definition operateSession :: access where "operateSession = read_access\<lparr>ac_operate := True, ac_session := True\<rparr>"
definition readFleet :: access where "readFleet = read_access\<lparr>ac_fleet := True\<rparr>"
definition writeFleet :: access where "writeFleet = read_access\<lparr>ac_admin := True, ac_fleet := True\<rparr>"
definition readSession :: access where "readSession = read_access\<lparr>ac_session := True\<rparr>"
definition writeSession :: access where "writeSession = read_access\<lparr>ac_admin := True, ac_session := True\<rparr>"
definition readAdmin :: access where "readAdmin = read_access\<lparr>ac_session := True, ac_fleet := True\<rparr>"
definition writeAdmin :: access where "writeAdmin = read_access\<lparr>ac_admin := True, ac_session := True, ac_fleet := True\<rparr>"

record authContext =
  cx_Admin :: admin
  cx_Session :: "session option"
  cx_Token :: "APIToken option"
  cx_Scope :: "uuid list option"

text \<open>What the guard reads of a request; no header is the empty string, no cookie \<open>None\<close>.\<close>

record api_request =
  rq_Method :: string
  rq_Authorization :: string
  rq_Cookie :: "string option"
  rq_CSRF :: string

type_synonym refusal = "int \<times> string"
type_synonym 'r handler = "authContext \<Rightarrow> api_state \<Rightarrow> 'r \<times> api_state"

definition AdminScope :: "api_state \<Rightarrow> uuid \<Rightarrow> uuid list option option" where
  "AdminScope s i = map_option ad_scope (GetAdmin (an_auth s) i)"

definition DeviceInScope :: "(uuid \<times> uuid) list \<Rightarrow> uuid \<Rightarrow> uuid list option \<Rightarrow> bool" where
  "DeviceInScope members device scope =
     (case scope of None \<Rightarrow> True | Some gs \<Rightarrow> list_ex (\<lambda>(g, d). d = device \<and> g \<in> set gs) members)"

definition groupVisible :: "uuid list option \<Rightarrow> uuid \<Rightarrow> bool" where
  "groupVisible scope i = (case scope of None \<Rightarrow> True | Some gs \<Rightarrow> i \<in> set gs)"

definition withScope ::
  "access \<Rightarrow> 'r handler \<Rightarrow> authContext \<Rightarrow> uuid \<Rightarrow> api_state \<Rightarrow> (refusal + 'r) \<times> api_state" where
  "withScope a next_handler cx adminID s =
     (case AdminScope s adminID of
        None \<Rightarrow> (Inl (500, ''internal''), s)
      | Some scope \<Rightarrow>
          if ac_fleet a \<and> scope \<noteq> None then (Inl (403, ''scoped''), s)
          else case next_handler (cx\<lparr>cx_Scope := scope\<rparr>) s of (r, s') \<Rightarrow> (Inr r, s'))"

abbreviation "authSourceAPIToken \<equiv> ''api_token''"

definition token_admin :: "APIToken \<Rightarrow> admin" where
  "token_admin t = \<lparr>ad_id = tk_ID t, ad_email = ''api-token:'' @ tk_Name t, ad_password_hash = [], ad_totp_secret = [],
     ad_totp_last_step = 0, ad_role = tk_Role t, ad_created_at = 0, ad_last_login_at = None, ad_disabled_at = None,
     ad_auth_source = authSourceAPIToken, ad_scope = None\<rparr>"

definition withToken ::
  "auth_env \<Rightarrow> access \<Rightarrow> 'r handler \<Rightarrow> go_time \<Rightarrow> string \<Rightarrow> api_state \<Rightarrow> (refusal + 'r) \<times> api_state" where
  "withToken E a next_handler now header s =
     (case cut_prefix ''Bearer '' header of
        None \<Rightarrow> (Inl (401, ''unauthenticated''), s)
      | Some token \<Rightarrow>
          (case AuthenticateAPIToken E now (trim_space token) s of
             (Inl _, s1) \<Rightarrow> (Inl (401, ''invalid_token''), s1)
           | (Inr t, s1) \<Rightarrow>
               if ac_session a then (Inl (403, ''session_required''), s1)
               else if ac_admin a \<and> tk_Role t \<noteq> RoleAdmin then (Inl (403, ''forbidden''), s1)
               else if ac_operate a \<and> RoleRank (tk_Role t) < RoleRank RoleHelpdesk then (Inl (403, ''forbidden''), s1)
               else withScope a next_handler
                 \<lparr>cx_Admin = token_admin t, cx_Session = None, cx_Token = Some t, cx_Scope = None\<rparr> (tk_CreatedByID t) s1))"

definition withSession ::
  "auth_config \<Rightarrow> auth_env \<Rightarrow> access \<Rightarrow> 'r handler \<Rightarrow> go_time \<Rightarrow> api_request \<Rightarrow> string \<Rightarrow> api_state
     \<Rightarrow> (refusal + 'r) \<times> api_state" where
  "withSession cfg E a next_handler now rq cookie s =
     (case ValidateSession cfg E now cookie (an_auth s) of
        (Inl e, au) \<Rightarrow>
          (Inl (if e = InvalidSession then (401, ''unauthenticated'') else if e = AccountDisabled then (403, ''account_disabled'')
                else (500, ''internal'')), s\<lparr>an_auth := au\<rparr>)
      | (Inr (adm, se), au) \<Rightarrow>
          let s1 = s\<lparr>an_auth := au\<rparr> in
          if rq_Method rq \<noteq> ''GET'' \<and> rq_Method rq \<noteq> ''HEAD'' \<and> rq_CSRF rq \<noteq> se_csrf se then (Inl (403, ''csrf_invalid''), s1)
          else if ac_admin a \<and> ad_role adm \<noteq> RoleAdmin then (Inl (403, ''forbidden''), s1)
          else if ac_operate a \<and> RoleRank (ad_role adm) < RoleRank RoleHelpdesk then (Inl (403, ''forbidden''), s1)
          else withScope a next_handler
            \<lparr>cx_Admin = adm, cx_Session = Some se, cx_Token = None, cx_Scope = None\<rparr> (ad_id adm) s1)"

definition protect ::
  "auth_config \<Rightarrow> auth_env \<Rightarrow> access \<Rightarrow> 'r handler \<Rightarrow> go_time \<Rightarrow> api_request \<Rightarrow> api_state \<Rightarrow> (refusal + 'r) \<times> api_state" where
  "protect cfg E a next_handler now rq s =
     (if rq_Authorization rq \<noteq> [] then withToken E a next_handler now (rq_Authorization rq) s
      else case rq_Cookie rq of
        None \<Rightarrow> (Inl (401, ''unauthenticated''), s)
      | Some cookie \<Rightarrow>
          if cookie = [] then (Inl (401, ''unauthenticated''), s)
          else withSession cfg E a next_handler now rq cookie s)"

section \<open>The routes\<close>

text \<open>Every route with its method and the class it is registered with; \<open>None\<close> is \<^verbatim>\<open>public\<close>.\<close>

type_synonym route = "string \<times> string \<times> access option"

definition Routes :: "route list" where
  "Routes =
    [(''GET'', ''/setup'', None),
     (''POST'', ''/session'', None),
     (''GET'', ''/oidc/start'', None),
     (''GET'', ''/oidc/callback'', None),
     (''GET'', ''/session'', Some readSession),
     (''DELETE'', ''/session'', Some readSession)]"

definition mountResources :: "route list" where
  "mountResources =
    [(''GET'', ''/devices'', Some read_access),
     (''GET'', ''/devices/export.csv'', Some read_access),
     (''GET'', ''/devices/{id}'', Some read_access),
     (''GET'', ''/devices/{id}/software'', Some read_access),
     (''POST'', ''/devices/{id}/retire'', Some write_access),
     (''POST'', ''/devices/{id}/unenroll'', Some write_access),
     (''GET'', ''/commands'', Some read_access),
     (''POST'', ''/commands'', Some operate_access),
     (''GET'', ''/commands/{id}'', Some read_access),
     (''GET'', ''/commands/{id}/artifact'', Some operate_access),
     (''GET'', ''/approvals'', Some readAdmin),
     (''POST'', ''/approvals/{id}/approve'', Some writeAdmin),
     (''POST'', ''/approvals/{id}/reject'', Some writeAdmin),
     (''GET'', ''/tokens'', Some readFleet),
     (''POST'', ''/tokens'', Some writeFleet),
     (''POST'', ''/tokens/{id}/revoke'', Some writeFleet),
     (''GET'', ''/admins'', Some readAdmin),
     (''POST'', ''/admins'', Some writeAdmin),
     (''POST'', ''/admins/{id}/password'', Some writeAdmin),
     (''POST'', ''/admins/{id}/totp'', Some writeAdmin),
     (''POST'', ''/admins/{id}/disabled'', Some writeAdmin),
     (''PUT'', ''/admins/{id}/scope'', Some writeAdmin),
     (''GET'', ''/api-tokens'', Some readAdmin),
     (''POST'', ''/api-tokens'', Some writeAdmin),
     (''POST'', ''/api-tokens/{id}/revoke'', Some writeAdmin),
     (''GET'', ''/groups'', Some read_access),
     (''POST'', ''/groups'', Some writeFleet),
     (''POST'', ''/groups/preview'', Some writeFleet),
     (''GET'', ''/groups/{id}'', Some read_access),
     (''POST'', ''/groups/{id}'', Some writeFleet),
     (''DELETE'', ''/groups/{id}'', Some writeFleet),
     (''POST'', ''/groups/{id}/evaluate'', Some writeFleet),
     (''GET'', ''/groups/{id}/members'', Some read_access),
     (''POST'', ''/groups/{id}/members'', Some writeFleet),
     (''DELETE'', ''/groups/{id}/members/{deviceID}'', Some writeFleet),
     (''GET'', ''/scripts'', Some read_access),
     (''POST'', ''/scripts'', Some writeFleet),
     (''GET'', ''/scripts/{id}'', Some read_access),
     (''POST'', ''/scripts/{id}'', Some writeFleet),
     (''DELETE'', ''/scripts/{id}'', Some writeFleet),
     (''GET'', ''/scripts/{id}/versions'', Some read_access),
     (''GET'', ''/scripts/{id}/runs'', Some read_access),
     (''GET'', ''/devices/{id}/bitlocker-keys'', Some read_access),
     (''POST'', ''/bitlocker-keys/{id}/reveal'', Some operateSession),
     (''GET'', ''/devices/{id}/admin-passwords'', Some read_access),
     (''POST'', ''/admin-passwords/{id}/reveal'', Some operateSession),
     (''GET'', ''/profiles'', Some read_access),
     (''POST'', ''/profiles'', Some writeFleet),
     (''GET'', ''/profiles/{id}'', Some read_access),
     (''POST'', ''/profiles/{id}'', Some writeFleet),
     (''DELETE'', ''/profiles/{id}'', Some writeFleet),
     (''GET'', ''/profiles/{id}/versions'', Some read_access),
     (''GET'', ''/profiles/{id}/settings'', Some read_access),
     (''GET'', ''/apps'', Some read_access),
     (''POST'', ''/apps'', Some writeFleet),
     (''POST'', ''/app-packages'', Some writeFleet),
     (''GET'', ''/apps/{id}'', Some read_access),
     (''POST'', ''/apps/{id}'', Some writeFleet),
     (''DELETE'', ''/apps/{id}'', Some writeFleet),
     (''GET'', ''/apps/{id}/versions'', Some read_access),
     (''GET'', ''/apps/{id}/installs'', Some read_access),
     (''GET'', ''/agent-versions'', Some read_access),
     (''POST'', ''/agent-versions'', Some writeFleet),
     (''GET'', ''/agent-versions/{id}'', Some read_access),
     (''DELETE'', ''/agent-versions/{id}'', Some writeFleet),
     (''GET'', ''/releases'', Some read_access),
     (''GET'', ''/server'', Some read_access),
     (''POST'', ''/server/update'', Some writeAdmin),
     (''POST'', ''/releases/check'', Some writeFleet),
     (''GET'', ''/agent-rollout'', Some read_access),
     (''POST'', ''/agent-rollout/policy'', Some writeFleet),
     (''POST'', ''/agent-rollouts/{id}/resume'', Some writeFleet),
     (''GET'', ''/notification-channels'', Some readFleet),
     (''POST'', ''/notification-channels'', Some writeFleet),
     (''GET'', ''/notification-channels/{id}'', Some readFleet),
     (''POST'', ''/notification-channels/{id}'', Some writeFleet),
     (''DELETE'', ''/notification-channels/{id}'', Some writeFleet),
     (''POST'', ''/notification-channels/{id}/test'', Some writeFleet),
     (''GET'', ''/alert-rules'', Some readFleet),
     (''POST'', ''/alert-rules'', Some writeFleet),
     (''GET'', ''/alert-rules/{id}'', Some readFleet),
     (''POST'', ''/alert-rules/{id}'', Some writeFleet),
     (''DELETE'', ''/alert-rules/{id}'', Some writeFleet),
     (''GET'', ''/alerts'', Some readFleet),
     (''GET'', ''/alert-deliveries'', Some readFleet),
     (''GET'', ''/assignments'', Some read_access),
     (''POST'', ''/assignments'', Some write_access),
     (''DELETE'', ''/assignments/{id}'', Some write_access),
     (''GET'', ''/items/{kind}/{id}/status'', Some read_access),
     (''GET'', ''/device-registrations'', Some readFleet),
     (''POST'', ''/device-registrations'', Some writeFleet),
     (''POST'', ''/device-registrations/import'', Some writeFleet),
     (''DELETE'', ''/device-registrations/{id}'', Some writeFleet),
     (''GET'', ''/reports'', Some readFleet),
     (''POST'', ''/reports'', Some writeFleet),
     (''GET'', ''/reports/{id}'', Some readFleet),
     (''POST'', ''/reports/{id}'', Some writeFleet),
     (''DELETE'', ''/reports/{id}'', Some writeFleet),
     (''POST'', ''/reports/{id}/send'', Some writeFleet),
     (''GET'', ''/maintenance-windows'', Some read_access),
     (''POST'', ''/maintenance-windows'', Some writeFleet),
     (''GET'', ''/maintenance-windows/{id}'', Some read_access),
     (''POST'', ''/maintenance-windows/{id}'', Some writeFleet),
     (''DELETE'', ''/maintenance-windows/{id}'', Some writeFleet),
     (''GET'', ''/compliance-policies'', Some read_access),
     (''POST'', ''/compliance-policies'', Some writeFleet),
     (''GET'', ''/compliance-policies/{id}'', Some read_access),
     (''POST'', ''/compliance-policies/{id}'', Some writeFleet),
     (''DELETE'', ''/compliance-policies/{id}'', Some writeFleet),
     (''POST'', ''/compliance-policies/{id}/evaluate'', Some writeFleet),
     (''GET'', ''/compliance-policies/{id}/devices'', Some read_access),
     (''GET'', ''/compliance-policies/{id}/devices/export.csv'', Some read_access),
     (''GET'', ''/devices/{id}/compliance'', Some read_access),
     (''GET'', ''/dashboard'', Some read_access),
     (''GET'', ''/compliance/devices'', Some read_access),
     (''POST'', ''/devices/{id}/remote-sessions'', Some writeSession),
     (''GET'', ''/devices/{id}/remote-sessions'', Some writeSession),
     (''GET'', ''/remote-sessions/{id}'', Some writeSession),
     (''POST'', ''/remote-sessions/{id}/input'', Some writeSession),
     (''POST'', ''/remote-sessions/{id}/end'', Some writeSession),
     (''GET'', ''/compliance/jwks.json'', None),
     (''GET'', ''/openapi.json'', None),
     (''GET'', ''/audit'', Some readFleet),
     (''GET'', ''/audit/export.csv'', Some readFleet)]"

text \<open>Serving a request that matched the route of a path (a \<^verbatim>\<open>HEAD\<close> request matches the route for \<^verbatim>\<open>GET\<close>): \<open>open_handler\<close> stands for the handler of a public
  route, which is given no caller, and \<open>None\<close> for a route that is not registered.\<close>

definition serve ::
  "auth_config \<Rightarrow> auth_env \<Rightarrow> (api_state \<Rightarrow> 'r \<times> api_state) \<Rightarrow> 'r handler \<Rightarrow> go_time \<Rightarrow> string \<Rightarrow> api_request \<Rightarrow> api_state
     \<Rightarrow> ((refusal + 'r) \<times> api_state) option" where
  "serve cfg E open_handler next_handler now path rq s =
     (case find (\<lambda>(m, p, g). (m = rq_Method rq \<or> m = ''GET'' \<and> rq_Method rq = ''HEAD'') \<and> p = path) (Routes @ mountResources) of
        None \<Rightarrow> None
      | Some (_, _, None) \<Rightarrow> (case open_handler s of (r, s') \<Rightarrow> Some (Inr r, s'))
      | Some (_, _, Some a) \<Rightarrow> Some (protect cfg E a next_handler now rq s))"

section \<open>Who a served request acts for\<close>

text \<open>The person behind a request: the admin signed in, or the one who made the token.\<close>

definition acting :: "authContext \<Rightarrow> uuid" where
  "acting cx = (case cx_Token cx of None \<Rightarrow> ad_id (cx_Admin cx) | Some t \<Rightarrow> tk_CreatedByID t)"

definition entitled :: "access \<Rightarrow> admin \<Rightarrow> bool" where
  "entitled a b \<longleftrightarrow> ad_disabled_at b = None \<and> (ac_admin a \<longrightarrow> ad_role b = RoleAdmin)
     \<and> (ac_operate a \<longrightarrow> RoleRank RoleHelpdesk \<le> RoleRank (ad_role b)) \<and> (ac_fleet a \<longrightarrow> ad_scope b = None)"

text \<open>How the caller was recognised: by a live session and, for a request that changes something, its CSRF
  token, or by a token that is neither revoked nor expired.\<close>

definition by_session :: "auth_env \<Rightarrow> go_time \<Rightarrow> api_request \<Rightarrow> api_state \<Rightarrow> admin \<Rightarrow> bool" where
  "by_session E now rq s b \<longleftrightarrow> rq_Authorization rq = [] \<and> (\<exists>cookie. rq_Cookie rq = Some cookie
     \<and> list_ex (\<lambda>se. se_hash se = en_hash_token E cookie \<and> se_admin se = ad_id b \<and> now < se_expires_at se
         \<and> (rq_Method rq \<in> {''GET'', ''HEAD''} \<or> rq_CSRF rq = se_csrf se)) (au_sessions (an_auth s)))"

definition by_token :: "auth_env \<Rightarrow> go_time \<Rightarrow> api_request \<Rightarrow> api_state \<Rightarrow> APIToken \<Rightarrow> bool" where
  "by_token E now rq s t \<longleftrightarrow> (\<exists>token. cut_prefix ''Bearer '' (rq_Authorization rq) = Some token
     \<and> list_ex (\<lambda>u. tk_ID u = tk_ID t \<and> tk_CreatedByID u = tk_CreatedByID t \<and> tk_TokenHash u = en_hash_token E (trim_space token)
         \<and> tk_RevokedAt u = None \<and> now < tk_ExpiresAt u \<and> RoleRank (tk_Role t) \<le> RoleRank (tk_Role u)) (an_tokens s))"

lemma GetAdmin_id: "GetAdmin s i = Some a \<Longrightarrow> ad_id a = i"
  by (auto simp: GetAdmin_def find_Some_iff)

lemma RoleRank_admin: "RoleRank RoleAdmin \<le> RoleRank r \<longleftrightarrow> r = RoleAdmin"
  by (simp add: RoleRank_def)

lemma withScope_served:
  assumes "withScope a h cx i s = (Inr r, s')"
  obtains b where "GetAdmin (an_auth s) i = Some b" "ac_fleet a \<longrightarrow> ad_scope b = None"
    "h (cx\<lparr>cx_Scope := ad_scope b\<rparr>) s = (r, s')"
  using assms by (auto simp: withScope_def AdminScope_def split: option.splits if_splits prod.splits)

lemma GetUsable_token:
  assumes "GetUsableAPIToken hash now s = Some t"
  obtains u b where "u \<in> set (an_tokens s)" "usable hash now s u" "tk_ID u = tk_ID t" "tk_CreatedByID u = tk_CreatedByID t"
    "RoleRank (tk_Role t) \<le> RoleRank (tk_Role u)" "GetAdmin (an_auth s) (tk_CreatedByID t) = Some b" "ad_disabled_at b = None"
    "RoleRank (tk_Role t) \<le> RoleRank (ad_role b)"
proof -
  obtain u where u: "find (usable hash now s) (an_tokens s) = Some u"
    using assms by (auto simp: GetUsableAPIToken_def split: option.splits)
  then have in_table: "u \<in> set (an_tokens s)" "usable hash now s u" by (auto simp: find_Some_iff)
  then obtain b where b: "GetAdmin (an_auth s) (tk_CreatedByID u) = Some b" "ad_disabled_at b = None"
    by (auto simp: usable_def split: option.splits)
  have "t = (if RoleRank (ad_role b) < RoleRank (tk_Role u) then u\<lparr>tk_Role := ad_role b\<rparr> else u)"
    using assms u b by (auto simp: GetUsableAPIToken_def split: if_splits)
  with in_table b show ?thesis by (intro that [of u b]) auto
qed

lemma Authenticate_token:
  assumes "AuthenticateAPIToken E now token s = (Inr t, s1)"
  obtains u b where "u \<in> set (an_tokens s)" "usable (en_hash_token E token) now s u" "tk_ID u = tk_ID t" "tk_CreatedByID u = tk_CreatedByID t"
    "RoleRank (tk_Role t) \<le> RoleRank (tk_Role u)" "GetAdmin (an_auth s) (tk_CreatedByID t) = Some b" "ad_disabled_at b = None"
    "RoleRank (tk_Role t) \<le> RoleRank (ad_role b)" "an_auth s1 = an_auth s"
proof -
  obtain t0 where t0: "GetUsableAPIToken (en_hash_token E token) now s = Some t0"
      "tk_ID t = tk_ID t0" "tk_CreatedByID t = tk_CreatedByID t0" "tk_Role t = tk_Role t0" "an_auth s1 = an_auth s"
    using assms by (auto simp: AuthenticateAPIToken_def TouchAPIToken_def updateTokens_def split: if_splits option.splits)
  from t0(1) show ?thesis by (rule GetUsable_token) (rule that, simp_all add: t0)
qed

lemma withToken_sound:
  assumes "withToken E a h now (rq_Authorization rq) s = (Inr r, s')"
  obtains cx s1 b t where "h cx s1 = (r, s')" "cx_Token cx = Some t" "GetAdmin (an_auth s) (acting cx) = Some b" "entitled a b"
    "cx_Scope cx = ad_scope b" "\<not> ac_session a" "by_token E now rq s t" "RoleRank (ad_role (cx_Admin cx)) \<le> RoleRank (ad_role b)"
proof -
  obtain token where token: "cut_prefix ''Bearer '' (rq_Authorization rq) = Some token"
    using assms by (auto simp: withToken_def split: option.splits)
  obtain t s1 where au: "AuthenticateAPIToken E now (trim_space token) s = (Inr t, s1)"
    using assms token by (auto simp: withToken_def split: prod.splits sum.splits)
  let ?cx = "\<lparr>cx_Admin = token_admin t, cx_Session = None, cx_Token = Some t, cx_Scope = None\<rparr>"
  have ok: "\<not> ac_session a" "ac_admin a \<longrightarrow> tk_Role t = RoleAdmin" "ac_operate a \<longrightarrow> RoleRank RoleHelpdesk \<le> RoleRank (tk_Role t)"
    and ws: "withScope a h ?cx (tk_CreatedByID t) s1 = (Inr r, s')"
    using assms unfolding withToken_def token option.case au prod.case sum.case by (auto simp del: list.inject split: if_split_asm)
  from au obtain u b where u: "u \<in> set (an_tokens s)" "usable (en_hash_token E (trim_space token)) now s u" "tk_ID u = tk_ID t"
      "tk_CreatedByID u = tk_CreatedByID t" "RoleRank (tk_Role t) \<le> RoleRank (tk_Role u)"
    and b: "GetAdmin (an_auth s) (tk_CreatedByID t) = Some b" "ad_disabled_at b = None" "RoleRank (tk_Role t) \<le> RoleRank (ad_role b)"
    and same: "an_auth s1 = an_auth s"
    by (rule Authenticate_token)
  from withScope_served [OF ws] b same
  have fleet: "ac_fleet a \<longrightarrow> ad_scope b = None" and run: "h (?cx\<lparr>cx_Scope := ad_scope b\<rparr>) s1 = (r, s')" by auto
  have "entitled a b" using ok b fleet RoleRank_admin [of "ad_role b"] by (auto simp: entitled_def)
  moreover have "by_token E now rq s t"
    unfolding by_token_def list_ex_iff using token u by (auto simp: usable_def)
  ultimately show ?thesis using run b ok by (intro that [of _ _ t b]) (auto simp: acting_def token_admin_def)
qed

lemma ValidateSession_served:
  assumes "ValidateSession cfg E now cookie au = (Inr (b, se), au')"
  obtains se0 where "se0 \<in> set (au_sessions au)" "se_hash se0 = en_hash_token E cookie" "se_admin se0 = ad_id b" "now < se_expires_at se0"
    "se_csrf se = se_csrf se0" "GetAdmin au (ad_id b) = Some b" "ad_disabled_at b = None" "au_admins au' = au_admins au"
proof -
  let ?p = "\<lambda>se. se_hash se = en_hash_token E cookie \<and> GetAdmin au (se_admin se) \<noteq> None"
  obtain se0 where f: "find ?p (au_sessions au) = Some se0"
    using assms by (auto simp: ValidateSession_def Let_def split: option.splits)
  then have se0: "se0 \<in> set (au_sessions au)" "se_hash se0 = en_hash_token E cookie" by (auto simp: find_Some_iff)
  from f obtain b' where b': "GetAdmin au (se_admin se0) = Some b'" by (auto simp: find_Some_iff)
  have "b' = b" "now < se_expires_at se0" "ad_disabled_at b = None" "se_csrf se = se_csrf se0" "au_admins au' = au_admins au"
    using assms f b' by (auto simp: ValidateSession_def Let_def split: if_splits)
  with se0 b' GetAdmin_id [OF b'] show ?thesis by (intro that) auto
qed

lemma withSession_sound:
  assumes "withSession cfg E a h now rq cookie s = (Inr r, s')" "rq_Authorization rq = []" "rq_Cookie rq = Some cookie"
  obtains cx s1 b where "h cx s1 = (r, s')" "cx_Token cx = None" "cx_Admin cx = b" "GetAdmin (an_auth s) (acting cx) = Some b" "entitled a b"
    "cx_Scope cx = ad_scope b" "by_session E now rq s b"
proof -
  obtain b se au where v: "ValidateSession cfg E now cookie (an_auth s) = (Inr (b, se), au)"
    using assms(1) by (auto simp: withSession_def split: prod.splits sum.splits)
  let ?s = "s\<lparr>an_auth := au\<rparr>" and ?cx = "\<lparr>cx_Admin = b, cx_Session = Some se, cx_Token = None, cx_Scope = None\<rparr>"
  have ok: "rq_Method rq \<in> {''GET'', ''HEAD''} \<or> rq_CSRF rq = se_csrf se" "ac_admin a \<longrightarrow> ad_role b = RoleAdmin"
      "ac_operate a \<longrightarrow> RoleRank RoleHelpdesk \<le> RoleRank (ad_role b)"
    and ws: "withScope a h ?cx (ad_id b) ?s = (Inr r, s')"
    using assms(1) v by (auto simp: withSession_def Let_def split: if_splits)
  obtain se0 where se0: "se0 \<in> set (au_sessions (an_auth s))" "se_hash se0 = en_hash_token E cookie" "se_admin se0 = ad_id b"
      "now < se_expires_at se0" "se_csrf se = se_csrf se0"
    and b: "GetAdmin (an_auth s) (ad_id b) = Some b" "ad_disabled_at b = None" "au_admins au = au_admins (an_auth s)"
    using v by (rule ValidateSession_served)
  have "GetAdmin au (ad_id b) = Some b" using b by (simp add: GetAdmin_def)
  with withScope_served [OF ws]
  have fleet: "ac_fleet a \<longrightarrow> ad_scope b = None" and run: "h (?cx\<lparr>cx_Scope := ad_scope b\<rparr>) ?s = (r, s')" by auto
  have "entitled a b" using ok b fleet by (auto simp: entitled_def)
  moreover have "by_session E now rq s b"
    unfolding by_session_def list_ex_iff using assms(2,3) se0 ok by auto
  ultimately show ?thesis using run b by (intro that [of _ _ b]) (auto simp: acting_def)
qed

lemma protect_cases:
  assumes "protect cfg E a h now rq s = (Inr r, s')"
  obtains (token) cx s1 b t where "h cx s1 = (r, s')" "cx_Token cx = Some t" "GetAdmin (an_auth s) (acting cx) = Some b" "entitled a b"
    "cx_Scope cx = ad_scope b" "rq_Authorization rq \<noteq> []" "\<not> ac_session a" "by_token E now rq s t"
    "RoleRank (ad_role (cx_Admin cx)) \<le> RoleRank (ad_role b)"
  | (session) cx s1 b where "h cx s1 = (r, s')" "cx_Token cx = None" "cx_Admin cx = b" "GetAdmin (an_auth s) (acting cx) = Some b"
    "entitled a b" "cx_Scope cx = ad_scope b" "by_session E now rq s b"
proof (cases "rq_Authorization rq = []")
  case True
  then obtain cookie where "rq_Cookie rq = Some cookie" "withSession cfg E a h now rq cookie s = (Inr r, s')"
    using assms by (auto simp: protect_def split: option.splits if_splits)
  then show ?thesis by (elim withSession_sound [OF _ True]) (assumption, rule session)
next
  case False
  then have "withToken E a h now (rq_Authorization rq) s = (Inr r, s')" using assms by (simp add: protect_def)
  then show ?thesis by (elim withToken_sound) (rule token [OF _ _ _ _ _ False])
qed

text \<open>
  C4. A guarded handler runs only for someone entitled to it. If \<open>protect\<close> serves a request, the handler was run for
  an account that exists, is not disabled and has the role the route asks for now - not at the time a session or
  token was made - and is not limited to some groups on a fleet route; the handler is given that account's scope. The
  caller was recognised by a live session, with its CSRF token if the request changes something, or by a live API token
  whose rights are no more than its maker's, which a route for people only never accepts.
\<close>

theorem protect_sound:
  assumes "protect cfg E a h now rq s = (Inr r, s')"
  shows "\<exists>cx s1 b. h cx s1 = (r, s') \<and> GetAdmin (an_auth s) (acting cx) = Some b \<and> entitled a b \<and> cx_Scope cx = ad_scope b
    \<and> RoleRank (ad_role (cx_Admin cx)) \<le> RoleRank (ad_role b)
    \<and> (case cx_Token cx of None \<Rightarrow> by_session E now rq s b | Some t \<Rightarrow> by_token E now rq s t \<and> \<not> ac_session a)"
  using assms
proof (cases rule: protect_cases)
  case (token cx s1 b t)
  then show ?thesis by (intro exI [of _ cx] exI [of _ s1] exI [of _ b]) auto
next
  case (session cx s1 b)
  then show ?thesis by (intro exI [of _ cx] exI [of _ s1] exI [of _ b]) auto
qed

text \<open>A session and an API token of an administrator, for the witnesses.\<close>

definition ac_env :: auth_env where
  "ac_env = \<lparr>en_verify_password = (\<lambda>_ _. False), en_hash_password = id, en_totp_code = (\<lambda>_ _. None), en_open_totp = (\<lambda>_ _. None),
     en_hash_token = (\<lambda>t. t), en_pick = (\<lambda>_. [])\<rparr>"

definition ac_config :: auth_config where
  "ac_config = \<lparr>ac_session_ttl = hour, ac_max_session_lifetime = 0, ac_local_login_disabled = False, ac_sso_scopes_managed = False\<rparr>"

definition ac_person :: "uuid \<Rightarrow> string \<Rightarrow> admin" where
  "ac_person i role = \<lparr>ad_id = i, ad_email = i, ad_password_hash = [], ad_totp_secret = [], ad_totp_last_step = 0,
     ad_role = role, ad_created_at = 0, ad_last_login_at = None, ad_disabled_at = None, ad_auth_source = AuthLocal, ad_scope = None\<rparr>"

definition ac_login :: "uuid \<Rightarrow> session" where
  "ac_login i = \<lparr>se_hash = ''s'' @ i, se_admin = i, se_csrf = ''c'' @ i, se_created_at = 0, se_expires_at = 100, se_last_seen_at = 0\<rparr>"

definition ac_token :: APIToken where
  "ac_token = \<lparr>tk_ID = ''t'', tk_Name = ''ci'', tk_TokenHash = ''rtk_x'', tk_Role = RoleAdmin, tk_CreatedByID = ''a'', tk_CreatedBy = ''a'',
     tk_CreatedAt = 0, tk_ExpiresAt = 100, tk_LastUsedAt = None, tk_RevokedAt = None\<rparr>"

definition ac_state :: api_state where
  "ac_state = \<lparr>an_auth = \<lparr>au_admins = [ac_person ''a'' RoleAdmin, ac_person ''b'' RoleAdmin], au_sessions = [ac_login ''a'', ac_login ''b''],
       au_groups = [], au_throttle = None, au_ip_throttle = None\<rparr>, an_tokens = [ac_token]\<rparr>"

definition ac_post :: api_request where
  "ac_post = \<lparr>rq_Method = ''POST'', rq_Authorization = [], rq_Cookie = Some ''sa'', rq_CSRF = ''ca''\<rparr>"

definition ac_handler :: "string handler" where
  "ac_handler cx s = (ad_email (cx_Admin cx), s)"

lemmas ac_defs = ac_env_def ac_config_def ac_person_def ac_login_def ac_token_def ac_state_def ac_post_def ac_handler_def

lemma ac_served: "protect ac_config ac_env writeAdmin ac_handler 50 ac_post ac_state = (Inr ''a'', ac_state)"
  by code_simp

theorem protect_sound_witness:
  "\<exists>cx s1 b. ac_handler cx s1 = (''a'', ac_state) \<and> GetAdmin (an_auth ac_state) (acting cx) = Some b \<and> entitled writeAdmin b
    \<and> cx_Scope cx = ad_scope b \<and> RoleRank (ad_role (cx_Admin cx)) \<le> RoleRank (ad_role b)
    \<and> (case cx_Token cx of None \<Rightarrow> by_session ac_env 50 ac_post ac_state b
         | Some t \<Rightarrow> by_token ac_env 50 ac_post ac_state t \<and> \<not> ac_session writeAdmin)"
  by (rule protect_sound [OF ac_served])

section \<open>What the table of routes gives\<close>

text \<open>The requests a helpdesk account may make that are not plain reads.\<close>

definition operator_paths :: "string list" where
  "operator_paths = [''/commands'', ''/bitlocker-keys/{id}/reveal'', ''/admin-passwords/{id}/reveal'']"

text \<open>The places only a person signed in may go.\<close>

definition people_only :: "string list" where
  "people_only = [''/approvals/{id}/approve'', ''/approvals/{id}/reject'', ''/admins'', ''/admins/{id}/password'', ''/admins/{id}/totp'',
     ''/admins/{id}/disabled'', ''/admins/{id}/scope'', ''/api-tokens'', ''/api-tokens/{id}/revoke'', ''/server/update'',
     ''/bitlocker-keys/{id}/reveal'', ''/admin-passwords/{id}/reveal'', ''/devices/{id}/remote-sessions'', ''/remote-sessions/{id}'',
     ''/remote-sessions/{id}/input'', ''/remote-sessions/{id}/end'']"

definition route_ok :: "route \<Rightarrow> bool" where
  "route_ok r = (case r of (m, p, g) \<Rightarrow>
     (m = ''GET'' \<or> p = ''/session'' \<or> (case g of None \<Rightarrow> False | Some a \<Rightarrow> ac_admin a \<or> ac_operate a \<and> p \<in> set operator_paths))
     \<and> (p \<in> set people_only \<longrightarrow> (case g of None \<Rightarrow> False | Some a \<Rightarrow> ac_session a)))"

lemma routes_ok: "list_all route_ok (Routes @ mountResources)"
  by code_simp

lemma serve_guarded:
  assumes "serve cfg E h0 h now path rq s = Some (Inr r, s')"
  obtains m g where "(m, path, g) \<in> set (Routes @ mountResources)" "m = rq_Method rq \<or> m = ''GET'' \<and> rq_Method rq = ''HEAD''"
    "case g of None \<Rightarrow> h0 s = (r, s') | Some a \<Rightarrow> protect cfg E a h now rq s = (Inr r, s')"
proof -
  let ?p = "\<lambda>(m, p, g). (m = rq_Method rq \<or> m = ''GET'' \<and> rq_Method rq = ''HEAD'') \<and> p = path"
  obtain x where x: "find ?p (Routes @ mountResources) = Some x" using assms by (auto simp: serve_def split: option.splits)
  obtain m p g where xd: "x = (m, p, g)" by (cases x)
  from find_SomeD [OF x] have "x \<in> set (Routes @ mountResources)" "?p x" by blast+
  moreover have "case g of None \<Rightarrow> h0 s = (r, s') | Some a \<Rightarrow> protect cfg E a h now rq s = (Inr r, s')"
    using assms unfolding serve_def x xd by (auto split: option.splits prod.splits)
  ultimately show ?thesis by (intro that [of m g]) (simp_all add: xd)
qed

lemma serve_class:
  assumes "serve cfg E h0 h now path rq s = Some (Inr r, s')"
    and "rq_Method rq \<notin> {''GET'', ''HEAD''} \<and> path \<noteq> ''/session'' \<or> path \<in> set people_only"
  obtains a where "protect cfg E a h now rq s = (Inr r, s')"
    "rq_Method rq \<notin> {''GET'', ''HEAD''} \<and> path \<noteq> ''/session'' \<longrightarrow> ac_admin a \<or> ac_operate a \<and> path \<in> set operator_paths"
    "path \<in> set people_only \<longrightarrow> ac_session a"
proof -
  obtain m g where r: "(m, path, g) \<in> set (Routes @ mountResources)" "m = rq_Method rq \<or> m = ''GET'' \<and> rq_Method rq = ''HEAD''"
    and p: "case g of None \<Rightarrow> h0 s = (r, s') | Some a \<Rightarrow> protect cfg E a h now rq s = (Inr r, s')"
    using assms(1) by (rule serve_guarded)
  have ok: "route_ok (m, path, g)" using routes_ok r(1) unfolding list_all_iff by blast
  then obtain a where a: "g = Some a" using r(2) assms(2) by (cases g) (auto simp: route_ok_def)
  show ?thesis
  proof (rule that)
    show "protect cfg E a h now rq s = (Inr r, s')" using p a by simp
    show "rq_Method rq \<notin> {''GET'', ''HEAD''} \<and> path \<noteq> ''/session'' \<longrightarrow> ac_admin a \<or> ac_operate a \<and> path \<in> set operator_paths"
      using ok r(2) unfolding route_ok_def a prod.case option.case insert_iff by metis
    show "path \<in> set people_only \<longrightarrow> ac_session a"
      using ok unfolding route_ok_def a prod.case option.case by blast
  qed
qed

text \<open>
  C17. Over the whole table of routes, a request that could change something - any method but GET and HEAD, signing in and
  out apart - runs its handler only for an enabled account that is an administrator now, or helpdesk for sending a
  command and revealing a stored secret; and approving, managing accounts and tokens, updating the server, revealing
  secrets and remote shells are never reached with an API token.
\<close>

theorem changes_need_operator:
  assumes "serve cfg E h0 h now path rq s = Some (Inr r, s')"
    and "rq_Method rq \<notin> {''GET'', ''HEAD''} \<and> path \<noteq> ''/session'' \<or> path \<in> set people_only"
  shows "\<exists>cx s1 b. h cx s1 = (r, s') \<and> GetAdmin (an_auth s) (acting cx) = Some b \<and> ad_disabled_at b = None
    \<and> (rq_Method rq \<notin> {''GET'', ''HEAD''} \<and> path \<noteq> ''/session'' \<longrightarrow> RoleRank RoleHelpdesk \<le> RoleRank (ad_role b)
         \<and> (path \<notin> set operator_paths \<longrightarrow> ad_role b = RoleAdmin))
    \<and> (path \<in> set people_only \<longrightarrow> cx_Token cx = None \<and> by_session E now rq s b)"
proof -
  obtain a where p: "protect cfg E a h now rq s = (Inr r, s')"
    and c: "rq_Method rq \<notin> {''GET'', ''HEAD''} \<and> path \<noteq> ''/session'' \<longrightarrow> ac_admin a \<or> ac_operate a \<and> path \<in> set operator_paths"
      "path \<in> set people_only \<longrightarrow> ac_session a"
    using assms by (rule serve_class)
  have rank: "RoleRank RoleHelpdesk \<le> RoleRank RoleAdmin" by (simp add: RoleRank_def)
  from p show ?thesis
  proof (cases rule: protect_cases)
    case (token cx s1 b t)
    then have "path \<notin> set people_only" using c(2) by blast
    with token c(1) rank show ?thesis by (intro exI [of _ cx] exI [of _ s1] exI [of _ b]) (auto simp: entitled_def)
  next
    case (session cx s1 b)
    with c(1) rank show ?thesis by (intro exI [of _ cx] exI [of _ s1] exI [of _ b]) (auto simp: entitled_def)
  qed
qed

lemma ac_serve: "serve ac_config ac_env (\<lambda>s. ([], s)) ac_handler 50 ''/api-tokens'' ac_post ac_state = Some (Inr ''a'', ac_state)"
  by code_simp

theorem changes_need_operator_witness:
  "\<exists>cx s1 b. ac_handler cx s1 = (''a'', ac_state) \<and> GetAdmin (an_auth ac_state) (acting cx) = Some b \<and> ad_role b = RoleAdmin
    \<and> cx_Token cx = None"
proof -
  have "rq_Method ac_post \<notin> {''GET'', ''HEAD''}" by (simp add: ac_post_def)
  moreover have "''/api-tokens'' \<in> set people_only" by code_simp
  moreover have "''/api-tokens'' \<noteq> ''/session''" by simp
  moreover have "''/api-tokens'' \<notin> set operator_paths" by code_simp
  ultimately show ?thesis using changes_need_operator [OF ac_serve] by blast
qed

section \<open>A dead token stays dead\<close>

text \<open>What can happen to the tokens and the accounts behind them.\<close>

inductive token_step :: "auth_config \<Rightarrow> auth_env \<Rightarrow> api_state \<Rightarrow> api_state \<Rightarrow> bool" for cfg E where
  ts_create: "CreateAPIToken E i secret now name role days creator s = Inr (token, t, s') \<Longrightarrow> token_step cfg E s s'"
| ts_use: "AuthenticateAPIToken E now token s = (r, s') \<Longrightarrow> token_step cfg E s s'"
| ts_revoke: "RevokeAPIToken i now s = (r', s') \<Longrightarrow> token_step cfg E s s'"
| ts_revoke_all: "s' = RevokeAPITokensForAdmin i now s \<Longrightarrow> token_step cfg E s s'"
| ts_accounts: "account_step cfg E (an_auth s) au \<Longrightarrow> s' = s\<lparr>an_auth := au\<rparr> \<Longrightarrow> token_step cfg E s s'"

definition spent :: "string \<Rightarrow> api_state \<Rightarrow> bool" where
  "spent hash s \<longleftrightarrow> hash \<in> set (map tk_TokenHash (an_tokens s))
     \<and> list_all (\<lambda>t. tk_TokenHash t = hash \<longrightarrow> tk_RevokedAt t \<noteq> None) (an_tokens s)"

lemma update_hashes:
  assumes "\<And>t. tk_TokenHash (f t) = tk_TokenHash t"
  shows "map tk_TokenHash (an_tokens (updateTokens p f s)) = map tk_TokenHash (an_tokens s)"
  using assms by (simp add: updateTokens_def)

lemma spent_update:
  assumes "spent hash s" "\<And>t. tk_TokenHash (f t) = tk_TokenHash t" "\<And>t. tk_RevokedAt t \<noteq> None \<Longrightarrow> tk_RevokedAt (f t) \<noteq> None"
  shows "spent hash (updateTokens p f s)"
  using assms unfolding spent_def update_hashes [of f, OF assms(2)] by (auto simp: updateTokens_def list_all_iff)

lemma spent_step: "token_step cfg E s s' \<Longrightarrow> spent hash s \<Longrightarrow> spent hash s'"
proof (induction rule: token_step.induct)
  case (ts_create i secret now name role days creator s token t s')
  then have "s' = s\<lparr>an_tokens := an_tokens s @ [t]\<rparr>" "tk_TokenHash t \<notin> tk_TokenHash ` set (an_tokens s)"
    by (auto simp: CreateAPIToken_def insertAPIToken_def Let_def list_ex_iff split: if_splits option.splits)
  then show ?case using ts_create(2) by (auto simp: spent_def)
next
  case (ts_use now token s r s')
  then have "s' = s \<or> (\<exists>i. s' = TouchAPIToken i now s)"
    by (auto simp: AuthenticateAPIToken_def split: if_splits option.splits)
  then show ?case using ts_use(2) by (auto simp: TouchAPIToken_def intro: spent_update)
next
  case (ts_revoke i now s r' s')
  then have "s' = s \<or> s' = revokeAPIToken i now s" by (auto simp: RevokeAPIToken_def split: option.splits)
  then show ?case using ts_revoke(2) by (auto simp: revokeAPIToken_def intro: spent_update)
next
  case (ts_revoke_all s' i now s)
  then show ?case by (auto simp: RevokeAPITokensForAdmin_def intro: spent_update)
next
  case (ts_accounts s au s')
  then show ?case by (simp add: spent_def)
qed

interpretation tokens: state_machine "token_step cfg E" "spent hash" "spent hash" for cfg E hash
  by unfold_locales (auto intro: spent_step)

text \<open>
  A revoked API token never works again: whatever happens after - tokens made, used and revoked, accounts changed or
  enabled again - authenticating with it is refused at every later instant.
\<close>

theorem revoked_token_dead:
  assumes "RevokeAPIToken i now s = (None, s1)" and "t \<in> set (an_tokens s)" "tk_ID t = i"
    and "distinct (map tk_TokenHash (an_tokens s))" and "(token_step cfg E)\<^sup>*\<^sup>* s1 s2"
    and "en_hash_token E token = tk_TokenHash t"
  shows "fst (AuthenticateAPIToken E later token s2) = Inl ErrInvalidToken"
proof -
  have s1: "s1 = revokeAPIToken i now s" using assms(1) by (auto simp: RevokeAPIToken_def split: option.splits)
  have "u = t" if "u \<in> set (an_tokens s)" "tk_TokenHash u = tk_TokenHash t" for u
    using assms(2,4) that by (auto simp: distinct_map inj_on_def)
  then have "list_all (\<lambda>u. tk_TokenHash u = tk_TokenHash t \<longrightarrow> tk_RevokedAt u \<noteq> None) (an_tokens s1)"
    using assms(3) unfolding s1 by (auto simp: revokeAPIToken_def updateTokens_def list_all_iff)
  then have "spent (tk_TokenHash t) s1"
    using assms(2) unfolding spent_def s1 revokeAPIToken_def by (simp add: update_hashes)
  with assms(5) have "spent (tk_TokenHash t) s2" by (rule tokens.along)
  then have "find (usable (tk_TokenHash t) later s2) (an_tokens s2) = None"
    by (auto simp: find_None_iff spent_def list_all_iff usable_def)
  then show ?thesis using assms(6) by (simp add: AuthenticateAPIToken_def GetUsableAPIToken_def)
qed

theorem revoked_token_dead_witness:
  "fst (AuthenticateAPIToken ac_env 60 ''rtk_x'' (snd (RevokeAPIToken ''t'' 50 ac_state))) = Inl ErrInvalidToken
    \<and> is_ok (fst (AuthenticateAPIToken ac_env 60 ''rtk_x'' ac_state))"
proof
  have "RevokeAPIToken ''t'' 50 ac_state = (None, snd (RevokeAPIToken ''t'' 50 ac_state))" by code_simp
  moreover have "ac_token \<in> set (an_tokens ac_state)" "tk_ID ac_token = ''t''" "distinct (map tk_TokenHash (an_tokens ac_state))"
    "en_hash_token ac_env ''rtk_x'' = tk_TokenHash ac_token" by (simp_all add: ac_defs)
  ultimately show "fst (AuthenticateAPIToken ac_env 60 ''rtk_x'' (snd (RevokeAPIToken ''t'' 50 ac_state))) = Inl ErrInvalidToken"
    using revoked_token_dead [where cfg = ac_config and E = ac_env and s = ac_state and t = ac_token and token = "''rtk_x''"
        and ?s1.0 = "snd (RevokeAPIToken ''t'' 50 ac_state)" and ?s2.0 = "snd (RevokeAPIToken ''t'' 50 ac_state)"] by simp
  show "is_ok (fst (AuthenticateAPIToken ac_env 60 ''rtk_x'' ac_state))" by code_simp
qed

end
