(* ===== verification/Approvals.thy ===== *)
theory Approvals
  imports Access_Control Json "HOL-Library.Multiset"
begin

text \<open>
  Two-person approval (\<^verbatim>\<open>src/internal/server/adminapi/approvals.go\<close> over \<^verbatim>\<open>store/approvals.go\<close>): a request is
  held, a second administrator decides it, and an approved one is carried out. A decision is three
  steps of the handler - check, commit, carry out - because other handlers may run between them; the
  handler itself is their composition. What carrying out does (\<^verbatim>\<open>queueCommands\<close>, \<^verbatim>\<open>saveAssignment\<close> and the rest)
  is a record of functions on the rest of the server's state, one per kind of request, so that the results hold whatever
  they do.
\<close>

abbreviation "ApprovalCommand \<equiv> ''command''"
abbreviation "ApprovalAssignment \<equiv> ''assignment''"
abbreviation "ApprovalVersion \<equiv> ''version''"
abbreviation "ApprovalGroupMember \<equiv> ''group_member''"
abbreviation "ApprovalGroupRule \<equiv> ''group_rule''"
abbreviation "ApprovalServerUpdate \<equiv> ''server_update''"
abbreviation "ApprovalPending \<equiv> ''pending''"
abbreviation "ApprovalApproved \<equiv> ''approved''"
abbreviation "ApprovalRejected \<equiv> ''rejected''"
abbreviation "ApprovalExpired \<equiv> ''expired''"
abbreviation "ApprovalFailed \<equiv> ''failed''"

record Approval =
  ay_ID :: uuid
  ay_Kind :: string
  ay_Request :: json
  ay_Summary :: string
  ay_RequestedBy :: string
  ay_RequesterID :: uuid
  ay_CreatedAt :: go_time
  ay_ExpiresAt :: go_time
  ay_Status :: string
  ay_DecidedBy :: string
  ay_DecidedAt :: "go_time option"
  ay_Reason :: string
  ay_Result :: "json option"

definition approvalTTL :: duration where "approvalTTL = 24 * hour"

section \<open>The table\<close>

type_synonym approvals = "Approval list"

datatype decide_error = ErrNotPending | ErrNoApproval

definition CreateApproval :: "Approval \<Rightarrow> approvals \<Rightarrow> approvals" where
  "CreateApproval a rows = rows @ [a\<lparr>ay_Status := ApprovalPending, ay_DecidedBy := [], ay_DecidedAt := None,
     ay_Reason := [], ay_Result := None\<rparr>]"

definition ExpireApprovals :: "go_time \<Rightarrow> approvals \<Rightarrow> approvals" where
  "ExpireApprovals now rows =
     map (\<lambda>a. if ay_Status a = ApprovalPending \<and> ay_ExpiresAt a \<le> now then a\<lparr>ay_Status := ApprovalExpired\<rparr> else a) rows"

definition GetApproval :: "uuid \<Rightarrow> approvals \<Rightarrow> Approval option" where
  "GetApproval i rows = find (\<lambda>a. ay_ID a = i) rows"

definition decidable :: "uuid \<Rightarrow> go_time \<Rightarrow> Approval \<Rightarrow> bool" where
  "decidable i now a \<longleftrightarrow> ay_ID a = i \<and> ay_Status a = ApprovalPending \<and> ay_ExpiresAt a > now"

definition decided :: "string \<Rightarrow> string \<Rightarrow> string \<Rightarrow> go_time \<Rightarrow> Approval \<Rightarrow> Approval" where
  "decided status decider reason now a =
     a\<lparr>ay_Status := status, ay_DecidedBy := decider, ay_DecidedAt := Some now, ay_Reason := reason\<rparr>"

definition DecideApproval ::
  "uuid \<Rightarrow> string \<Rightarrow> string \<Rightarrow> string \<Rightarrow> go_time \<Rightarrow> approvals \<Rightarrow> (decide_error + Approval) \<times> approvals" where
  "DecideApproval i status decider reason now rows =
     (case find (decidable i now) rows of
        None \<Rightarrow> (Inl (if GetApproval i rows = None then ErrNoApproval else ErrNotPending), rows)
      | Some a \<Rightarrow> (Inr (decided status decider reason now a),
          map (\<lambda>b. if decidable i now b then decided status decider reason now b else b) rows))"

definition SetApprovalResult :: "uuid \<Rightarrow> string \<Rightarrow> json \<Rightarrow> approvals \<Rightarrow> approvals" where
  "SetApprovalResult i status result rows =
     map (\<lambda>a. if ay_ID a = i then a\<lparr>ay_Status := status, ay_Result := Some result\<rparr> else a) rows"

section \<open>The handlers\<close>

record 'w approvals_db =
  ab_rows :: approvals
  ab_world :: 'w
  ab_audit :: "(string \<times> string \<times> uuid) list"

definition new_approval :: "authContext \<Rightarrow> uuid \<Rightarrow> go_time \<Rightarrow> string \<Rightarrow> json \<Rightarrow> string \<Rightarrow> Approval" where
  "new_approval cx new_id now kind req summary =
     \<lparr>ay_ID = new_id, ay_Kind = kind, ay_Request = req, ay_Summary = summary, ay_RequestedBy = ad_email (cx_Admin cx),
      ay_RequesterID = (case cx_Token cx of None \<Rightarrow> ad_id (cx_Admin cx) | Some t \<Rightarrow> tk_CreatedByID t),
      ay_CreatedAt = now, ay_ExpiresAt = time_add now approvalTTL, ay_Status = ApprovalPending, ay_DecidedBy = [],
      ay_DecidedAt = None, ay_Reason = [], ay_Result = None\<rparr>"

definition insert_held :: "Approval \<Rightarrow> 'w approvals_db \<Rightarrow> 'w approvals_db" where
  "insert_held a db = db\<lparr>ab_rows := CreateApproval a (ab_rows db),
     ab_audit := ab_audit db @ [(ay_RequestedBy a, ''approval.requested'', ay_ID a)]\<rparr>"

definition holdForApproval ::
  "authContext \<Rightarrow> uuid \<Rightarrow> go_time \<Rightarrow> string \<Rightarrow> json \<Rightarrow> string \<Rightarrow> 'w approvals_db \<Rightarrow> Approval \<times> 'w approvals_db" where
  "holdForApproval cx new_id now kind req summary db =
     (let a = new_approval cx new_id now kind req summary in (a, insert_held a db))"

text \<open>How each kind of request is carried out in the name of its requester: the result, and whether it failed.\<close>

type_synonym 'w carrier = "json \<Rightarrow> string \<Rightarrow> 'w \<Rightarrow> (json \<times> bool) \<times> 'w"

record 'w carriers =
  cr_command :: "'w carrier"
  cr_assignment :: "'w carrier"
  cr_version :: "'w carrier"
  cr_group_member :: "'w carrier"
  cr_group_rule :: "'w carrier"
  cr_server_update :: "'w carrier"

definition replayApproval :: "'w carriers \<Rightarrow> Approval \<Rightarrow> 'w \<Rightarrow> (json \<times> bool) \<times> 'w" where
  "replayApproval C a w =
     (let run = (\<lambda>f. f (ay_Request a) (ay_RequestedBy a) w); k = ay_Kind a in
      if k = ApprovalCommand then run (cr_command C)
      else if k = ApprovalAssignment then run (cr_assignment C)
      else if k = ApprovalVersion then run (cr_version C)
      else if k = ApprovalGroupMember then run (cr_group_member C)
      else if k = ApprovalGroupRule then run (cr_group_rule C)
      else if k = ApprovalServerUpdate then run (cr_server_update C)
      else ((JObj [(''error'', JStr (''unknown approval kind '' @ k))], True), w))"

definition decide_check ::
  "admin \<Rightarrow> bool \<Rightarrow> uuid \<Rightarrow> string \<Rightarrow> go_time \<Rightarrow> 'w approvals_db \<Rightarrow> (refusal + unit) \<times> 'w approvals_db" where
  "decide_check actor approve i reason now db =
     (if length reason > 500 then (Inl (400, ''bad_request''), db)
      else
        let db1 = db\<lparr>ab_rows := ExpireApprovals now (ab_rows db)\<rparr> in
        case GetApproval i (ab_rows db1) of
          None \<Rightarrow> (Inl (404, ''not_found''), db1)
        | Some a \<Rightarrow>
            if approve \<and> ay_RequesterID a = ad_id actor then (Inl (403, ''forbidden''), db1) else (Inr (), db1))"

definition decide_commit ::
  "admin \<Rightarrow> bool \<Rightarrow> uuid \<Rightarrow> string \<Rightarrow> go_time \<Rightarrow> 'w approvals_db \<Rightarrow> (refusal + Approval) \<times> 'w approvals_db" where
  "decide_commit actor approve i reason now db =
     (case DecideApproval i (if approve then ApprovalApproved else ApprovalRejected) (ad_email actor) reason now (ab_rows db) of
        (Inl ErrNotPending, rows) \<Rightarrow> (Inl (409, ''not_pending''), db)
      | (Inl ErrNoApproval, rows) \<Rightarrow> (Inl (500, ''internal''), db)
      | (Inr a, rows) \<Rightarrow> (Inr a, db\<lparr>ab_rows := rows, ab_audit := ab_audit db
           @ [(ad_email actor, if approve then ''approval.approved'' else ''approval.rejected'', i)]\<rparr>))"

definition carry_out :: "'w carriers \<Rightarrow> Approval \<Rightarrow> 'w approvals_db \<Rightarrow> Approval \<times> 'w approvals_db" where
  "carry_out C a db =
     (case replayApproval C a (ab_world db) of
        ((result, failed), w) \<Rightarrow>
          let status = (if failed then ApprovalFailed else ApprovalApproved) in
          (a\<lparr>ay_Status := status, ay_Result := Some result\<rparr>,
           db\<lparr>ab_world := w, ab_rows := SetApprovalResult (ay_ID a) status result (ab_rows db)\<rparr>))"

definition decideApproval ::
  "'w carriers \<Rightarrow> authContext \<Rightarrow> bool \<Rightarrow> uuid \<Rightarrow> string \<Rightarrow> go_time \<Rightarrow> 'w approvals_db \<Rightarrow> (refusal + Approval) \<times> 'w approvals_db" where
  "decideApproval C cx approve i reason now db =
     (case decide_check (cx_Admin cx) approve i reason now db of
        (Inl e, db1) \<Rightarrow> (Inl e, db1)
      | (Inr _, db1) \<Rightarrow>
          (case decide_commit (cx_Admin cx) approve i reason now db1 of
             (Inl e, db2) \<Rightarrow> (Inl e, db2)
           | (Inr a, db2) \<Rightarrow>
               if approve then (case carry_out C a db2 of (b, db3) \<Rightarrow> (Inr b, db3)) else (Inr a, db2)))"

section \<open>Handlers side by side\<close>

text \<open>
  The server with any number of decisions under way. \<open>ys_threads\<close>: those that passed the checks, and those that
  committed an approval they have not carried out. Beside the state, what the rule is about is recorded: the requests
  held with the person behind each, the approvals given with the administrator who gave them, and what was carried out.
\<close>

datatype thread = Checked admin bool uuid string go_time | Committed Approval

record 'w approval_sys =
  ys_api :: api_state
  ys_db :: "'w approvals_db"
  ys_threads :: "thread list"
  ys_asked :: "(Approval \<times> uuid) list"
  ys_given :: "(uuid \<times> admin \<times> go_time) list"
  ys_done :: "Approval list"

abbreviation whoami :: "authContext handler" where "whoami \<equiv> (\<lambda>cx s. (cx, s))"

abbreviation row_ids :: "'w approval_sys \<Rightarrow> uuid set" where
  "row_ids y \<equiv> ay_ID ` set (ab_rows (ys_db y))"

inductive approval_step :: "auth_config \<Rightarrow> auth_env \<Rightarrow> 'w carriers \<Rightarrow> 'w approval_sys \<Rightarrow> 'w approval_sys \<Rightarrow> bool"
  for cfg E C where
  as_hold: "protect cfg E acc whoami now rq (ys_api y) = (Inr cx, api) \<Longrightarrow> i \<notin> row_ids y
    \<Longrightarrow> holdForApproval cx i now kind req summary (ys_db y) = (a, db)
    \<Longrightarrow> approval_step cfg E C y (y\<lparr>ys_api := api, ys_db := db, ys_asked := (a, acting cx) # ys_asked y\<rparr>)"
| as_hold_system: "ay_ID a \<notin> row_ids y
    \<Longrightarrow> approval_step cfg E C y (y\<lparr>ys_db := insert_held a (ys_db y), ys_asked := (a, ay_RequesterID a) # ys_asked y\<rparr>)"
| as_check: "protect cfg E writeAdmin whoami now rq (ys_api y) = (Inr cx, api)
    \<Longrightarrow> decide_check (cx_Admin cx) approve i reason now (ys_db y) = (Inr (), db)
    \<Longrightarrow> approval_step cfg E C y (y\<lparr>ys_api := api, ys_db := db, ys_threads := Checked (cx_Admin cx) approve i reason now # ys_threads y\<rparr>)"
| as_refuse: "decide_check actor approve i reason now (ys_db y) = (Inl e, db) \<Longrightarrow> approval_step cfg E C y (y\<lparr>ys_db := db\<rparr>)"
| as_commit: "Checked actor approve i reason now \<in> set (ys_threads y)
    \<Longrightarrow> decide_commit actor approve i reason now (ys_db y) = (Inr a, db)
    \<Longrightarrow> approval_step cfg E C y (y\<lparr>ys_db := db,
          ys_threads := (if approve then [Committed a] else []) @ remove1 (Checked actor approve i reason now) (ys_threads y),
          ys_given := (if approve then [(i, actor, now)] else []) @ ys_given y\<rparr>)"
| as_lost: "Checked actor approve i reason now \<in> set (ys_threads y)
    \<Longrightarrow> decide_commit actor approve i reason now (ys_db y) = (Inl e, db)
    \<Longrightarrow> approval_step cfg E C y (y\<lparr>ys_db := db, ys_threads := remove1 (Checked actor approve i reason now) (ys_threads y)\<rparr>)"
| as_carry: "Committed a \<in> set (ys_threads y) \<Longrightarrow> carry_out C a (ys_db y) = (b, db)
    \<Longrightarrow> approval_step cfg E C y (y\<lparr>ys_db := db, ys_threads := remove1 (Committed a) (ys_threads y), ys_done := b # ys_done y\<rparr>)"
| as_reject_system: "DecideApproval i ApprovalRejected decider reason now (ab_rows (ys_db y)) = (r, rows)
    \<Longrightarrow> approval_step cfg E C y (y\<lparr>ys_db := (ys_db y)\<lparr>ab_rows := rows\<rparr>\<rparr>)"
| as_expire: "approval_step cfg E C y (y\<lparr>ys_db := (ys_db y)\<lparr>ab_rows := ExpireApprovals now (ab_rows (ys_db y))\<rparr>\<rparr>)"
| as_api: "token_step cfg E (ys_api y) api \<Longrightarrow> approval_step cfg E C y (y\<lparr>ys_api := api\<rparr>)"

section \<open>The invariant\<close>

definition same_request :: "Approval \<Rightarrow> Approval \<Rightarrow> bool" where
  "same_request a b \<longleftrightarrow> ay_ID a = ay_ID b \<and> ay_Kind a = ay_Kind b \<and> ay_Request a = ay_Request b
     \<and> ay_RequestedBy a = ay_RequestedBy b \<and> ay_RequesterID a = ay_RequesterID b \<and> ay_ExpiresAt a = ay_ExpiresAt b"

lemma same_request_refl [simp]: "same_request a a"
  by (simp add: same_request_def)

lemma same_request_sym: "same_request a b \<Longrightarrow> same_request b a"
  by (simp add: same_request_def)

lemma same_request_trans: "same_request a b \<Longrightarrow> same_request b c \<Longrightarrow> same_request a c"
  by (simp add: same_request_def)

lemma same_request_update [simp]:
  "same_request (a\<lparr>ay_Status := st\<rparr>) b = same_request a b" "same_request (a\<lparr>ay_Result := res\<rparr>) b = same_request a b"
  "same_request (a\<lparr>ay_DecidedBy := who\<rparr>) b = same_request a b" "same_request (a\<lparr>ay_DecidedAt := at\<rparr>) b = same_request a b"
  "same_request (a\<lparr>ay_Reason := why\<rparr>) b = same_request a b"
  by (simp_all add: same_request_def)

definition committed :: "thread list \<Rightarrow> Approval list" where
  "committed ts = concat (map (\<lambda>t. case t of Committed a \<Rightarrow> [a] | _ \<Rightarrow> []) ts)"

definition given_rightly :: "(uuid \<times> admin \<times> go_time) list \<Rightarrow> Approval \<Rightarrow> bool" where
  "given_rightly given r \<longleftrightarrow> (\<exists>b t. (ay_ID r, b, t) \<in> set given \<and> entitled writeAdmin b \<and> ad_id b \<noteq> ay_RequesterID r \<and> t < ay_ExpiresAt r)"

definition rows_asked :: "approvals \<Rightarrow> (Approval \<times> uuid) list \<Rightarrow> bool" where
  "rows_asked rows asked \<longleftrightarrow> (\<forall>r \<in> set rows. \<exists>a. (a, ay_RequesterID a) \<in> set asked \<and> same_request r a)"

definition checks_ok :: "approvals \<Rightarrow> thread list \<Rightarrow> bool" where
  "checks_ok rows ts \<longleftrightarrow> (\<forall>actor i reason now. Checked actor True i reason now \<in> set ts
     \<longrightarrow> entitled writeAdmin actor \<and> (\<exists>r \<in> set rows. ay_ID r = i \<and> ay_RequesterID r \<noteq> ad_id actor))"

definition live_ok :: "approvals \<Rightarrow> (uuid \<times> admin \<times> go_time) list \<Rightarrow> Approval list \<Rightarrow> bool" where
  "live_ok rows given live \<longleftrightarrow> distinct (map ay_ID live)
     \<and> (\<forall>a \<in> set live. \<exists>r \<in> set rows. same_request a r \<and> ay_Status r \<noteq> ApprovalPending \<and> given_rightly given r)"

definition two_person_inv :: "'w approval_sys \<Rightarrow> bool" where
  "two_person_inv y \<longleftrightarrow> distinct (map ay_ID (ab_rows (ys_db y))) \<and> rows_asked (ab_rows (ys_db y)) (ys_asked y)
     \<and> checks_ok (ab_rows (ys_db y)) (ys_threads y)
     \<and> live_ok (ab_rows (ys_db y)) (ys_given y) (committed (ys_threads y) @ ys_done y)"

text \<open>What every update of the table leaves alone: the request itself, and that a decision is final.\<close>

definition evolves :: "(Approval \<Rightarrow> Approval) \<Rightarrow> bool" where
  "evolves f \<longleftrightarrow> (\<forall>r. same_request (f r) r \<and> (ay_Status r \<noteq> ApprovalPending \<longrightarrow> ay_Status (f r) \<noteq> ApprovalPending))"

lemma evolves_same: "evolves f \<Longrightarrow> same_request (f r) r"
  by (simp add: evolves_def)

lemma evolves_id: "evolves f \<Longrightarrow> ay_ID (f r) = ay_ID r" "evolves f \<Longrightarrow> ay_RequesterID (f r) = ay_RequesterID r"
    "evolves f \<Longrightarrow> ay_ExpiresAt (f r) = ay_ExpiresAt r"
  by (simp_all add: evolves_def same_request_def)

lemma evolves_rows:
  assumes "evolves f"
  shows "map ay_ID (map f rows) = map ay_ID rows" "rows_asked rows asked \<Longrightarrow> rows_asked (map f rows) asked"
    "checks_ok rows ts \<Longrightarrow> checks_ok (map f rows) ts"
  using assms by (auto simp: rows_asked_def checks_ok_def evolves_id intro: same_request_trans [OF evolves_same])

lemma evolves_live:
  assumes "evolves f" "live_ok rows given live"
  shows "live_ok (map f rows) given live"
  unfolding live_ok_def
proof (intro conjI ballI)
  show "distinct (map ay_ID live)" using assms(2) by (simp add: live_ok_def)
  fix a assume "a \<in> set live"
  then obtain r where r: "r \<in> set rows" "same_request a r" "ay_Status r \<noteq> ApprovalPending" "given_rightly given r"
    using assms(2) by (auto simp: live_ok_def)
  then have "same_request a (f r)" using same_request_trans [OF r(2) same_request_sym [OF evolves_same [OF assms(1)]]] by simp
  moreover have "given_rightly given (f r)" using r(4) by (simp add: given_rightly_def evolves_id [OF assms(1)])
  moreover have "ay_Status (f r) \<noteq> ApprovalPending" using assms(1) r(3) by (simp add: evolves_def)
  ultimately show "\<exists>r \<in> set (map f rows). same_request a r \<and> ay_Status r \<noteq> ApprovalPending \<and> given_rightly given r"
    using r(1) by auto
qed

lemma inv_evolves:
  assumes "two_person_inv y" "evolves f" "ab_rows db = map f (ab_rows (ys_db y))"
  shows "two_person_inv (y\<lparr>ys_db := db\<rparr>)"
  using assms by (simp add: two_person_inv_def evolves_rows evolves_live flip: map_map)

text \<open>The updates of the store are such.\<close>

lemma evolves_ident: "evolves (\<lambda>r. r)"
  by (simp add: evolves_def)

lemma Expire_evolves: "\<exists>f. evolves f \<and> ExpireApprovals now rows = map f rows"
  unfolding ExpireApprovals_def
  by (rule exI [where x = "\<lambda>a. if ay_Status a = ApprovalPending \<and> ay_ExpiresAt a \<le> now then a\<lparr>ay_Status := ApprovalExpired\<rparr> else a"])
    (auto simp: evolves_def)

lemma Decide_evolves:
  assumes "DecideApproval i status decider reason now rows = (r, rows')"
  shows "\<exists>f. evolves f \<and> rows' = map f rows"
proof (cases "find (decidable i now) rows")
  case None
  then have "rows' = map (\<lambda>r. r) rows" using assms by (simp add: DecideApproval_def)
  then show ?thesis using evolves_ident by blast
next
  case (Some a)
  let ?f = "\<lambda>b. if decidable i now b then decided status decider reason now b else b"
  have "evolves ?f" by (auto simp: evolves_def decided_def decidable_def)
  moreover have "rows' = map ?f rows" using assms Some by (auto simp: DecideApproval_def)
  ultimately show ?thesis by blast
qed

lemma Result_evolves:
  assumes "status \<noteq> ApprovalPending"
  shows "\<exists>f. evolves f \<and> SetApprovalResult i status result rows = map f rows"
  unfolding SetApprovalResult_def
  by (rule exI [where x = "\<lambda>a. if ay_ID a = i then a\<lparr>ay_Status := status, ay_Result := Some result\<rparr> else a"])
    (use assms in \<open>auto simp: evolves_def\<close>)

lemma check_evolves:
  assumes "decide_check actor approve i reason now db = (r, db')"
  shows "\<exists>f. evolves f \<and> ab_rows db' = map f (ab_rows db)"
proof -
  have "ab_rows db' = map (\<lambda>r. r) (ab_rows db) \<or> ab_rows db' = ExpireApprovals now (ab_rows db)"
    using assms by (auto simp: decide_check_def Let_def split: if_splits option.splits)
  then show ?thesis using evolves_ident Expire_evolves by metis
qed

lemma commit_evolves:
  assumes "decide_commit actor approve i reason now db = (r, db')"
  shows "\<exists>f. evolves f \<and> ab_rows db' = map f (ab_rows db)"
proof -
  obtain r0 rows where d: "DecideApproval i (if approve then ApprovalApproved else ApprovalRejected) (ad_email actor) reason now (ab_rows db)
      = (r0, rows)" by fastforce
  then have "ab_rows db' = map (\<lambda>r. r) (ab_rows db) \<or> ab_rows db' = rows"
    using assms unfolding decide_commit_def d by (auto split: sum.splits decide_error.splits)
  then show ?thesis using evolves_ident Decide_evolves [OF d] by metis
qed

lemma carry_evolves:
  assumes "carry_out C a db = (b, db')"
  shows "\<exists>f. evolves f \<and> ab_rows db' = map f (ab_rows db)" "same_request b a"
proof -
  obtain result failed w where r: "replayApproval C a (ab_world db) = ((result, failed), w)" by (metis prod.exhaust)
  have "ab_rows db' = SetApprovalResult (ay_ID a) (if failed then ApprovalFailed else ApprovalApproved) result (ab_rows db)"
    using assms by (auto simp: carry_out_def r Let_def)
  then show "\<exists>f. evolves f \<and> ab_rows db' = map f (ab_rows db)"
    using Result_evolves [of "if failed then ApprovalFailed else ApprovalApproved"] by simp
  show "same_request b a" using assms by (auto simp: carry_out_def r Let_def)
qed

lemma inv_rows:
  assumes "two_person_inv y" "\<exists>f. evolves f \<and> ab_rows db = map f (ab_rows (ys_db y))"
  shows "two_person_inv (y\<lparr>ys_db := db\<rparr>)"
  using inv_evolves [OF assms(1)] assms(2) by blast

text \<open>Holding a request.\<close>

lemma inv_hold:
  assumes "two_person_inv y" "ay_ID a \<notin> row_ids y"
  shows "two_person_inv (y\<lparr>ys_db := insert_held a (ys_db y), ys_asked := (a, ay_RequesterID a) # ys_asked y\<rparr>)"
proof -
  have "same_request (a\<lparr>ay_Status := ApprovalPending, ay_DecidedBy := [], ay_DecidedAt := None, ay_Reason := [], ay_Result := None\<rparr>) a"
    by (simp add: same_request_def)
  then show ?thesis using assms
    by (auto simp: two_person_inv_def insert_held_def CreateApproval_def rows_asked_def checks_ok_def live_ok_def)
qed

text \<open>A thread more or less.\<close>

lemma committed_simps [simp]: "committed [] = []" "committed (Committed a # ts) = a # committed ts"
    "committed (Checked actor approve i reason now # ts) = committed ts"
  by (simp_all add: committed_def)

lemma committed_remove:
  "committed (remove1 (Checked actor approve i reason now) ts) = committed ts"
  by (induction ts) (auto simp: committed_def split: thread.splits)

lemma committed_carried:
  assumes "Committed a \<in> set ts"
  shows "mset (committed ts) = add_mset a (mset (committed (remove1 (Committed a) ts)))"
  using assms by (induction ts) (auto simp: committed_def split: thread.splits)

lemma checks_remove: "checks_ok rows ts \<Longrightarrow> checks_ok rows (remove1 t ts)"
  unfolding checks_ok_def by (meson notin_set_remove1)

lemma console_admin:
  assumes "protect cfg E writeAdmin whoami now rq s = (Inr cx, s')"
  shows "entitled writeAdmin (cx_Admin cx)"
  using assms
proof (cases rule: protect_cases)
  case (token cx1 s1 b t)
  then show ?thesis by (simp add: writeAdmin_def)
next
  case (session cx1 s1 b)
  then show ?thesis by simp
qed

lemma check_other_person:
  assumes "decide_check actor True i reason now db = (Inr (), db')"
  shows "\<exists>r \<in> set (ab_rows db'). ay_ID r = i \<and> ay_RequesterID r \<noteq> ad_id actor"
proof -
  obtain a where a: "GetApproval i (ab_rows db') = Some a" "ay_RequesterID a \<noteq> ad_id actor"
    using assms by (auto simp: decide_check_def Let_def split: if_splits option.splits)
  then show ?thesis using find_SomeD [of "\<lambda>a. ay_ID a = i" "ab_rows db'" a] by (auto simp: GetApproval_def)
qed

lemma commit_decides:
  assumes "decide_commit actor approve i reason now db = (Inr a, db')"
  obtains r where "r \<in> set (ab_rows db)" "decidable i now r"
    "a = decided (if approve then ApprovalApproved else ApprovalRejected) (ad_email actor) reason now r" "a \<in> set (ab_rows db')"
proof -
  let ?st = "if approve then ApprovalApproved else ApprovalRejected"
  obtain r where r: "find (decidable i now) (ab_rows db) = Some r"
    using assms by (auto simp: decide_commit_def DecideApproval_def split: option.splits if_splits)
  have a: "a = decided ?st (ad_email actor) reason now r"
    and rows: "ab_rows db' = map (\<lambda>b. if decidable i now b then decided ?st (ad_email actor) reason now b else b) (ab_rows db)"
    using assms unfolding decide_commit_def DecideApproval_def r by auto
  from find_SomeD [OF r] have "decidable i now r" "r \<in> set (ab_rows db)" by auto
  moreover from this have "a \<in> set (ab_rows db')" unfolding rows a by force
  ultimately show ?thesis using a by (intro that)
qed

lemma inv_commit:
  assumes inv: "two_person_inv y" and t: "Checked actor approve i reason now \<in> set (ys_threads y)"
    and c: "decide_commit actor approve i reason now (ys_db y) = (Inr a, db)"
  shows "two_person_inv (y\<lparr>ys_db := db,
      ys_threads := (if approve then [Committed a] else []) @ remove1 (Checked actor approve i reason now) (ys_threads y),
      ys_given := (if approve then [(i, actor, now)] else []) @ ys_given y\<rparr>)"
proof -
  let ?rows = "ab_rows (ys_db y)" and ?live = "committed (ys_threads y) @ ys_done y"
  obtain r where r: "r \<in> set ?rows" "decidable i now r"
      "a = decided (if approve then ApprovalApproved else ApprovalRejected) (ad_email actor) reason now r" "a \<in> set (ab_rows db)"
    using c by (rule commit_decides)
  have ids: "ay_ID r = i" "ay_Status r = ApprovalPending" "now < ay_ExpiresAt r" using r(2) by (auto simp: decidable_def)
  have a: "same_request a r" "ay_ID a = i" "ay_Status a \<noteq> ApprovalPending" using r(3) ids by (auto simp: decided_def)
  have base: "two_person_inv (y\<lparr>ys_db := db\<rparr>)" using inv_rows [OF inv commit_evolves [OF c]] .
  have only: "r' = r" if "r' \<in> set ?rows" "ay_ID r' = i" for r'
    using inv that r(1) ids(1) by (auto simp: two_person_inv_def distinct_map inj_on_def)
  have fresh: "i \<notin> ay_ID ` set ?live"
  proof
    assume "i \<in> ay_ID ` set ?live"
    then obtain b where b: "b \<in> set ?live" "ay_ID b = i" by auto
    then obtain r' where "r' \<in> set ?rows" "same_request b r'" "ay_Status r' \<noteq> ApprovalPending"
      using inv unfolding two_person_inv_def live_ok_def by blast
    then show False using only [of r'] b(2) ids(2) by (auto simp: same_request_def)
  qed
  have given: "given_rightly ((i, actor, now) # ys_given y) a" if approve
  proof -
    have "entitled writeAdmin actor" "\<exists>r' \<in> set ?rows. ay_ID r' = i \<and> ay_RequesterID r' \<noteq> ad_id actor"
      using inv t that unfolding two_person_inv_def checks_ok_def by (simp, blast)+
    moreover from this(2) have "ay_RequesterID a \<noteq> ad_id actor" using only a(1) by (auto simp: same_request_def)
    moreover have "now < ay_ExpiresAt a" using ids(3) a(1) by (simp add: same_request_def)
    ultimately show ?thesis unfolding given_rightly_def using a(2) by (intro exI [of _ actor] exI [of _ now]) simp
  qed
  have more: "live_ok rows (g # gs) live" if "live_ok rows gs live" for rows g gs live
    using that unfolding live_ok_def given_rightly_def by (meson list.set_intros(2))
  have "live_ok (ab_rows db) ((i, actor, now) # ys_given y) (a # ?live)" if approve
    using more [of "ab_rows db" "ys_given y" ?live "(i, actor, now)"] base fresh a r(4) given [OF that]
    by (auto simp: live_ok_def two_person_inv_def intro!: bexI [of _ a])
  moreover have "checks_ok (ab_rows db) (Committed a # remove1 (Checked actor approve i reason now) (ys_threads y))"
    using base checks_remove [of "ab_rows db" "ys_threads y"] by (auto simp: two_person_inv_def checks_ok_def)
  ultimately show ?thesis
    using base checks_remove [of "ab_rows db" "ys_threads y"] by (auto simp: two_person_inv_def committed_remove)
qed

lemma inv_carry:
  assumes inv: "two_person_inv y" and t: "Committed a \<in> set (ys_threads y)" and c: "carry_out C a (ys_db y) = (b, db)"
  shows "two_person_inv (y\<lparr>ys_db := db, ys_threads := remove1 (Committed a) (ys_threads y), ys_done := b # ys_done y\<rparr>)"
proof -
  let ?old = "committed (ys_threads y) @ ys_done y" and ?new = "committed (remove1 (Committed a) (ys_threads y)) @ b # ys_done y"
  have base: "two_person_inv (y\<lparr>ys_db := db\<rparr>)" using inv_rows [OF inv carry_evolves(1) [OF c]] .
  have b: "same_request b a" using carry_evolves(2) [OF c] .
  have m: "mset ?old = add_mset a (mset (committed (remove1 (Committed a) (ys_threads y)) @ ys_done y))"
    using committed_carried [OF t] by simp
  then have "mset (map ay_ID ?old) = mset (map ay_ID ?new)" using b by (simp add: same_request_def)
  then have "distinct (map ay_ID ?new)"
    using base mset_eq_imp_distinct_iff [of "map ay_ID ?old" "map ay_ID ?new"] by (simp add: two_person_inv_def live_ok_def)
  moreover have "set ?new \<subseteq> insert b (set ?old)" "a \<in> set ?old"
    using mset_eq_setD [of ?old "a # committed (remove1 (Committed a) (ys_threads y)) @ ys_done y"] m by auto
  moreover have rows: "\<forall>a \<in> set ?old. \<exists>r \<in> set (ab_rows db). same_request a r \<and> ay_Status r \<noteq> ApprovalPending \<and> given_rightly (ys_given y) r"
    using base by (simp add: two_person_inv_def live_ok_def)
  moreover from this \<open>a \<in> set ?old\<close> have "\<exists>r \<in> set (ab_rows db). same_request b r \<and> ay_Status r \<noteq> ApprovalPending \<and> given_rightly (ys_given y) r"
    using same_request_trans [OF b] by blast
  ultimately have "live_ok (ab_rows db) (ys_given y) ?new" unfolding live_ok_def by blast
  then show ?thesis using base checks_remove [of "ab_rows db" "ys_threads y"] by (simp add: two_person_inv_def)
qed

lemma two_person_step: "approval_step cfg E C y y' \<Longrightarrow> two_person_inv y \<Longrightarrow> two_person_inv y'"
proof (induction rule: approval_step.induct)
  case (as_hold acc now rq y cx api i kind req summary a db)
  then have a: "a = new_approval cx i now kind req summary" "db = insert_held a (ys_db y)"
    by (auto simp: holdForApproval_def Let_def)
  then have "ay_ID a = i" "ay_RequesterID a = acting cx" by (simp_all add: new_approval_def acting_def)
  with inv_hold [of y a] as_hold(2,4) a(2) show ?case by (simp add: two_person_inv_def)
next
  case (as_hold_system a y)
  then show ?case by (simp add: inv_hold)
next
  case (as_check now rq y cx api approve i reason db)
  have "two_person_inv (y\<lparr>ys_db := db\<rparr>)" using inv_rows [OF as_check(3) check_evolves [OF as_check(2)]] .
  moreover have "entitled writeAdmin (cx_Admin cx)" using console_admin [OF as_check(1)] .
  moreover have "\<exists>r \<in> set (ab_rows db). ay_ID r = i \<and> ay_RequesterID r \<noteq> ad_id (cx_Admin cx)" if approve
    using check_other_person [of "cx_Admin cx" i reason now "ys_db y" db] as_check(2) that by simp
  ultimately show ?case by (auto simp: two_person_inv_def checks_ok_def)
next
  case (as_refuse actor approve i reason now y e db)
  then show ?case using inv_rows [OF _ check_evolves] by blast
next
  case (as_commit actor approve i reason now y a db)
  then show ?case by (simp add: inv_commit)
next
  case (as_lost actor approve i reason now y e db)
  have "two_person_inv (y\<lparr>ys_db := db\<rparr>)" using inv_rows [OF as_lost(3) commit_evolves [OF as_lost(2)]] .
  then show ?case by (simp add: two_person_inv_def committed_remove checks_remove)
next
  case (as_carry a y b db)
  then show ?case by (simp add: inv_carry)
next
  case (as_reject_system i decider reason now y r rows)
  then show ?case by (intro inv_rows) (simp_all add: Decide_evolves)
next
  case (as_expire y now)
  then show ?case by (intro inv_rows) (simp_all add: Expire_evolves)
next
  case (as_api y api)
  then show ?case by (simp add: two_person_inv_def)
qed

definition fresh_sys :: "api_state \<Rightarrow> 'w \<Rightarrow> 'w approval_sys" where
  "fresh_sys api w = \<lparr>ys_api = api, ys_db = \<lparr>ab_rows = [], ab_world = w, ab_audit = []\<rparr>, ys_threads = [], ys_asked = [], ys_given = [],
     ys_done = []\<rparr>"

interpretation approving: state_machine "approval_step cfg E C" "\<lambda>y. \<exists>api w. y = fresh_sys api w" two_person_inv for cfg E C
proof unfold_locales
  show "two_person_inv y" if "\<exists>api w. y = fresh_sys api w" for y
    using that by (auto simp: two_person_inv_def fresh_sys_def rows_asked_def checks_ok_def live_ok_def)
qed (rule two_person_step)

lemma two_person_reachable: "(approval_step cfg E C)\<^sup>*\<^sup>* (fresh_sys api w) y \<Longrightarrow> two_person_inv y"
  using approving.reached by blast

text \<open>The handler run to its end is the steps in a row.\<close>

lemma decideApproval_steps:
  assumes p: "protect cfg E writeAdmin whoami now rq (ys_api y) = (Inr cx, api)"
    and d: "decideApproval C cx True i reason now (ys_db y) = (Inr b, db)"
  shows "(approval_step cfg E C)\<^sup>*\<^sup>* y (y\<lparr>ys_api := api, ys_db := db, ys_given := (i, cx_Admin cx, now) # ys_given y, ys_done := b # ys_done y\<rparr>)"
proof -
  obtain db1 where c: "decide_check (cx_Admin cx) True i reason now (ys_db y) = (Inr (), db1)"
    using d by (auto simp: decideApproval_def split: prod.splits sum.splits)
  obtain a db2 where m: "decide_commit (cx_Admin cx) True i reason now db1 = (Inr a, db2)"
    using d c by (auto simp: decideApproval_def split: prod.splits sum.splits)
  have r: "carry_out C a db2 = (b, db)" using d c m by (auto simp: decideApproval_def split: prod.splits)
  let ?t = "Checked (cx_Admin cx) True i reason now"
  define y1 where "y1 = y\<lparr>ys_api := api, ys_db := db1, ys_threads := ?t # ys_threads y\<rparr>"
  define y2 where "y2 = y1\<lparr>ys_db := db2, ys_threads := Committed a # ys_threads y, ys_given := (i, cx_Admin cx, now) # ys_given y\<rparr>"
  have "approval_step cfg E C y y1" unfolding y1_def by (rule as_check [OF p c])
  moreover have "approval_step cfg E C y1 y2"
    using as_commit [of "cx_Admin cx" True i reason now y1 a db2 cfg E C] m by (simp add: y1_def y2_def)
  moreover have "approval_step cfg E C y2 (y2\<lparr>ys_db := db, ys_threads := ys_threads y, ys_done := b # ys_done y\<rparr>)"
    using as_carry [of a y2 C b db cfg E] r by (simp add: y1_def y2_def)
  ultimately have "(approval_step cfg E C)\<^sup>*\<^sup>* y (y2\<lparr>ys_db := db, ys_threads := ys_threads y, ys_done := b # ys_done y\<rparr>)"
    by (meson converse_rtranclp_into_rtranclp rtranclp.rtrancl_refl)
  moreover have "y2\<lparr>ys_db := db, ys_threads := ys_threads y, ys_done := b # ys_done y\<rparr>
      = y\<lparr>ys_api := api, ys_db := db, ys_given := (i, cx_Admin cx, now) # ys_given y, ys_done := b # ys_done y\<rparr>"
    by (simp add: y1_def y2_def)
  ultimately show ?thesis by simp
qed

text \<open>
  C3. The two-person rule. In every state the server reaches, with any number of administrators deciding at once: no held
  request was carried out twice, and each one carried out is exactly a request someone made, approved before it lapsed by
  an administrator signed in to the console - enabled, with the admin role and the whole fleet when they did - who is
  not the person who asked, nor the maker of the token that asked.
\<close>

theorem two_person_rule:
  assumes "(approval_step cfg E C)\<^sup>*\<^sup>* (fresh_sys api w) y"
  shows "distinct (map ay_ID (ys_done y)) \<and> (\<forall>a \<in> set (ys_done y). \<exists>held person admin time.
      (held, person) \<in> set (ys_asked y) \<and> same_request a held \<and> (ay_ID held, admin, time) \<in> set (ys_given y)
      \<and> entitled writeAdmin admin \<and> ad_id admin \<noteq> person \<and> time < ay_ExpiresAt held)"
proof
  have inv: "two_person_inv y" using two_person_reachable [OF assms] .
  then have live: "live_ok (ab_rows (ys_db y)) (ys_given y) (committed (ys_threads y) @ ys_done y)"
    and asked: "rows_asked (ab_rows (ys_db y)) (ys_asked y)" by (simp_all add: two_person_inv_def)
  from live show "distinct (map ay_ID (ys_done y))" by (simp add: live_ok_def)
  show "\<forall>a \<in> set (ys_done y). \<exists>held person admin time. (held, person) \<in> set (ys_asked y) \<and> same_request a held
      \<and> (ay_ID held, admin, time) \<in> set (ys_given y) \<and> entitled writeAdmin admin \<and> ad_id admin \<noteq> person \<and> time < ay_ExpiresAt held"
  proof
    fix a assume "a \<in> set (ys_done y)"
    then obtain r where r: "r \<in> set (ab_rows (ys_db y))" "same_request a r" "given_rightly (ys_given y) r"
      using live unfolding live_ok_def set_append by blast
    then obtain held where held: "(held, ay_RequesterID held) \<in> set (ys_asked y)" "same_request r held"
      using asked by (auto simp: rows_asked_def)
    obtain b t where "(ay_ID held, b, t) \<in> set (ys_given y)" "entitled writeAdmin b" "ad_id b \<noteq> ay_RequesterID held" "t < ay_ExpiresAt held"
      using r(3) held(2) by (auto simp: given_rightly_def same_request_def)
    with held same_request_trans [OF r(2) held(2)]
    show "\<exists>held person admin time. (held, person) \<in> set (ys_asked y) \<and> same_request a held
      \<and> (ay_ID held, admin, time) \<in> set (ys_given y) \<and> entitled writeAdmin admin \<and> ad_id admin \<noteq> person \<and> time < ay_ExpiresAt held"
      by blast
  qed
qed

text \<open>A request sent with a token the first administrator made, approved by the second.\<close>

definition ap_carriers :: "nat carriers" where
  "ap_carriers = (let f = (\<lambda>_ _ n. ((JNull, False), Suc n)) in
     \<lparr>cr_command = f, cr_assignment = f, cr_version = f, cr_group_member = f, cr_group_rule = f, cr_server_update = f\<rparr>)"

definition ap_by_token :: api_request where
  "ap_by_token = \<lparr>rq_Method = ''POST'', rq_Authorization = ''Bearer rtk_x'', rq_Cookie = None, rq_CSRF = []\<rparr>"

definition ap_second :: api_request where
  "ap_second = \<lparr>rq_Method = ''POST'', rq_Authorization = [], rq_Cookie = Some ''sb'', rq_CSRF = ''cb''\<rparr>"

definition ap_asker :: authContext where
  "ap_asker = (case fst (protect ac_config ac_env write_access whoami 50 ap_by_token ac_state) of Inr cx \<Rightarrow> cx)"

definition ap_api :: api_state where
  "ap_api = snd (protect ac_config ac_env write_access whoami 50 ap_by_token ac_state)"

definition ap_decider :: authContext where
  "ap_decider = (case fst (protect ac_config ac_env writeAdmin whoami 60 ap_second ap_api) of Inr cx \<Rightarrow> cx)"

definition ap_held :: "Approval \<times> nat approvals_db" where
  "ap_held = holdForApproval ap_asker ''x'' 50 ApprovalCommand JNull ''wipe'' \<lparr>ab_rows = [], ab_world = 0, ab_audit = []\<rparr>"

theorem two_person_rule_witness:
  "\<exists>y. (approval_step ac_config ac_env ap_carriers)\<^sup>*\<^sup>* (fresh_sys ac_state 0) y \<and> map ay_ID (ys_done y) = [''x''] \<and> ab_world (ys_db y) = 1
     \<and> (\<exists>person admin time. (''x'', admin, time) \<in> set (ys_given y) \<and> entitled writeAdmin admin \<and> person = ''a'' \<and> ad_id admin \<noteq> person)"
proof -
  let ?y0 = "fresh_sys ac_state (0 :: nat)" and ?step = "approval_step ac_config ac_env ap_carriers"
  define y1 where "y1 = ?y0\<lparr>ys_api := ap_api, ys_db := snd ap_held, ys_asked := [(fst ap_held, acting ap_asker)]\<rparr>"
  have "protect ac_config ac_env write_access whoami 50 ap_by_token ac_state = (Inr ap_asker, ap_api)" by code_simp
  moreover have "holdForApproval ap_asker ''x'' 50 ApprovalCommand JNull ''wipe'' (ys_db ?y0) = (fst ap_held, snd ap_held)"
    by (simp add: fresh_sys_def ap_held_def)
  ultimately have s1: "?step ?y0 y1"
    using as_hold [of ac_config ac_env write_access 50 ap_by_token ?y0 ap_asker ap_api "''x''" ApprovalCommand JNull "''wipe''"]
    by (simp add: y1_def fresh_sys_def)
  have p: "protect ac_config ac_env writeAdmin whoami 60 ap_second (ys_api y1) = (Inr ap_decider, ap_api)" unfolding y1_def by code_simp
  define out where "out = decideApproval ap_carriers ap_decider True ''x'' [] 60 (snd ap_held)"
  have d: "fst out = Inr ((fst ap_held)\<lparr>ay_Status := ApprovalApproved, ay_DecidedBy := ''b'', ay_DecidedAt := Some 60, ay_Result := Some JNull\<rparr>)"
      "ab_world (snd out) = 1" unfolding out_def by code_simp+
  define z where "z = y1\<lparr>ys_api := ap_api, ys_db := snd out, ys_given := [(''x'', cx_Admin ap_decider, 60)],
      ys_done := [(fst ap_held)\<lparr>ay_Status := ApprovalApproved, ay_DecidedBy := ''b'', ay_DecidedAt := Some 60, ay_Result := Some JNull\<rparr>]\<rparr>"
  have "decideApproval ap_carriers ap_decider True ''x'' [] 60 (ys_db y1)
      = (Inr ((fst ap_held)\<lparr>ay_Status := ApprovalApproved, ay_DecidedBy := ''b'', ay_DecidedAt := Some 60, ay_Result := Some JNull\<rparr>), snd out)"
    using d(1) by (simp add: y1_def out_def prod_eq_iff)
  with decideApproval_steps [OF p] have "?step\<^sup>*\<^sup>* y1 z" by (simp add: z_def y1_def fresh_sys_def)
  with s1 have run: "?step\<^sup>*\<^sup>* ?y0 z" by simp
  have ids: "ay_ID (fst ap_held) = ''x''" "acting ap_asker = ''a''" by code_simp+
  from two_person_rule [OF run] show ?thesis
    using run ids d(2) by (intro exI [of _ z]) (auto simp: z_def y1_def fresh_sys_def same_request_def)
qed

end
