(* ===== verification/Agent_Rollout.thy ===== *)
theory Agent_Rollout
  imports Assignments Release Approvals
begin

text \<open>
  How an imported agent build reaches the fleet: \<^verbatim>\<open>src/internal/server/releasefeed/rollout.go\<close> over
  the tables of \<^verbatim>\<open>store/releases.go\<close>, the approvals and the assignments, with the settings of
  \<^verbatim>\<open>adminapi/releases.go\<close>. Operations are functions of the database; its calls succeed, so that an error is one of
  the code's own or a row that is not there; parsing and printing identifiers are parameters. New identifiers and the time are arguments: \<open>fresh\<close> gives a rollout the
  identifiers for an exclusion and for an assignment or a request it makes.
\<close>

abbreviation "ItemKindAgent \<equiv> ''agent''"
abbreviation "RolloutPilot \<equiv> ''pilot''"
abbreviation "RolloutPromoting \<equiv> ''promoting''"
abbreviation "RolloutPromoted \<equiv> ''promoted''"
abbreviation "RolloutHalted \<equiv> ''halted''"
abbreviation "RolloutSuperseded \<equiv> ''superseded''"
abbreviation "RolloutActor \<equiv> ''system:agent-rollout''"
abbreviation "GroupStatic \<equiv> ''static''"
abbreviation "ItemSucceeded \<equiv> ''succeeded''"
abbreviation "ItemFailed \<equiv> ''failed''"
abbreviation "DefaultRolloutDelayHours \<equiv> 24 :: int"

definition BuiltinGroupID :: uuid where
  "BuiltinGroupID = replicate 15 (CHR 0x00) @ [CHR 0x02]"

record AgentRollout =
  ar_ID :: uuid
  ar_AgentVersionID :: uuid
  ar_State :: string
  ar_PilotGroupID :: "uuid option"
  ar_DelayHours :: int
  ar_PilotAssignmentID :: "uuid option"
  ar_PilotApprovalID :: "uuid option"
  ar_PilotStartedAt :: "go_time option"
  ar_ExcludeAssignmentID :: "uuid option"
  ar_FleetAssignmentID :: "uuid option"
  ar_FleetApprovalID :: "uuid option"
  ar_PromotedAt :: "go_time option"
  ar_Detail :: string
  ar_CreatedAt :: go_time
  ar_UpdatedAt :: go_time
  ar_Version :: string

record AgentRolloutPolicy =
  py_Enabled :: bool
  py_PilotGroupID :: "uuid option"
  py_DelayHours :: int

record device_report =
  dr_device :: uuid
  dr_hostname :: string
  dr_item :: uuid
  dr_status :: string
  dr_detail :: string

text \<open>\<open>rd_groups\<close>: the kind of each group; \<open>rd_status\<close>: what active devices report of agent builds, in the order of
  their host names.\<close>

record rollout_db =
  rd_policy :: AgentRolloutPolicy
  rd_rollouts :: "AgentRollout list"
  rd_assignments :: "assignment list"
  rd_approvals :: approvals
  rd_groups :: "(uuid \<times> string) list"
  rd_members :: members
  rd_status :: "device_report list"
  rd_audit :: "(string \<times> string \<times> uuid) list"

record rollout_service =
  sv_ApprovalsRequired :: bool
  sv_ApprovalThreshold :: int
  sv_uuid_String :: "uuid \<Rightarrow> string"

section \<open>Tables\<close>

definition InsertAudit :: "string \<Rightarrow> string \<Rightarrow> uuid \<Rightarrow> rollout_db \<Rightarrow> rollout_db" where
  "InsertAudit actor action target db = db\<lparr>rd_audit := rd_audit db @ [(actor, action, target)]\<rparr>"

definition CreateAgentRollout :: "AgentRollout \<Rightarrow> rollout_db \<Rightarrow> bool \<times> rollout_db" where
  "CreateAgentRollout r db =
     (if list_ex (\<lambda>q. ar_AgentVersionID q = ar_AgentVersionID r) (rd_rollouts db) then (False, db)
      else (True, db\<lparr>rd_rollouts := rd_rollouts db @ [r]\<rparr>))"

definition UpdateAgentRollout :: "AgentRollout \<Rightarrow> rollout_db \<Rightarrow> rollout_db" where
  "UpdateAgentRollout r db = db\<lparr>rd_rollouts := map (\<lambda>q. if ar_ID q = ar_ID r
       then q\<lparr>ar_State := ar_State r, ar_PilotAssignmentID := ar_PilotAssignmentID r, ar_PilotApprovalID := ar_PilotApprovalID r,
              ar_PilotStartedAt := ar_PilotStartedAt r, ar_ExcludeAssignmentID := ar_ExcludeAssignmentID r,
              ar_FleetAssignmentID := ar_FleetAssignmentID r, ar_FleetApprovalID := ar_FleetApprovalID r,
              ar_PromotedAt := ar_PromotedAt r, ar_Detail := ar_Detail r, ar_UpdatedAt := ar_UpdatedAt r\<rparr>
       else q) (rd_rollouts db)\<rparr>"

definition GetAgentRollout :: "uuid \<Rightarrow> rollout_db \<Rightarrow> AgentRollout option" where
  "GetAgentRollout i db = find (\<lambda>q. ar_ID q = i) (rd_rollouts db)"

definition ListRolloutsInState :: "string list \<Rightarrow> rollout_db \<Rightarrow> AgentRollout list" where
  "ListRolloutsInState states db =
     sort_key (\<lambda>q. (ar_CreatedAt q, ar_ID q)) (filter (\<lambda>q. ar_State q \<in> set states) (rd_rollouts db))"

definition GetAssignmentFor :: "uuid \<Rightarrow> uuid \<Rightarrow> string \<Rightarrow> rollout_db \<Rightarrow> assignment option" where
  "GetAssignmentFor item grp mode db =
     find (\<lambda>a. as_kind a = ItemKindAgent \<and> as_item a = item \<and> as_group a = grp \<and> as_mode a = mode) (rd_assignments db)"

record PilotHealth =
  ph_Succeeded :: int
  ph_Failed :: int
  ph_Failures :: "string list"

definition count_report :: "device_report \<Rightarrow> PilotHealth \<Rightarrow> PilotHealth" where
  "count_report r h =
     (if dr_status r = ItemSucceeded then h\<lparr>ph_Succeeded := ph_Succeeded h + 1\<rparr>
      else if dr_status r = ItemFailed then h\<lparr>ph_Failed := ph_Failed h + 1, ph_Failures :=
          (if length (ph_Failures h) < 5
           then ph_Failures h @ [dr_hostname r @ (if dr_detail r = [] then [] else '' ('' @ dr_detail r @ '')'')] else ph_Failures h)\<rparr>
      else h)"

definition AgentBuildHealth :: "uuid \<Rightarrow> uuid \<Rightarrow> rollout_db \<Rightarrow> PilotHealth" where
  "AgentBuildHealth grp item db =
     fold count_report (filter (\<lambda>r. (grp, dr_device r) \<in> set (rd_members db) \<and> dr_item r = item) (rd_status db))
       \<lparr>ph_Succeeded = 0, ph_Failed = 0, ph_Failures = []\<rparr>"

section \<open>Pieces of a step\<close>

definition save :: "AgentRollout \<Rightarrow> string \<Rightarrow> string \<Rightarrow> go_time \<Rightarrow> rollout_db \<Rightarrow> rollout_db" where
  "save ro actor action now db = InsertAudit actor action (ar_ID ro) (UpdateAgentRollout (ro\<lparr>ar_UpdatedAt := now\<rparr>) db)"

definition removeAssignment :: "uuid option \<Rightarrow> rollout_db \<Rightarrow> rollout_db" where
  "removeAssignment i db =
     (case i of
        None \<Rightarrow> db
      | Some a \<Rightarrow> InsertAudit RolloutActor ''assignment.deleted'' a (db\<lparr>rd_assignments := DeleteAssignment a (rd_assignments db)\<rparr>))"

definition wait :: "AgentRollout \<Rightarrow> string \<Rightarrow> go_time \<Rightarrow> rollout_db \<Rightarrow> AgentRollout \<times> rollout_db" where
  "wait ro detail now db =
     (if ar_Detail ro = detail then (ro, db)
      else let ro1 = ro\<lparr>ar_Detail := detail, ar_UpdatedAt := now\<rparr> in (ro1, UpdateAgentRollout ro1 db))"

definition halt :: "AgentRollout \<Rightarrow> string \<Rightarrow> go_time \<Rightarrow> rollout_db \<Rightarrow> AgentRollout \<times> rollout_db" where
  "halt ro why now db =
     (let (ro1, db1) = (if ar_PilotAssignmentID ro = None \<and> ar_ExcludeAssignmentID ro \<noteq> None
                        then (ro\<lparr>ar_ExcludeAssignmentID := None\<rparr>, removeAssignment (ar_ExcludeAssignmentID ro) db)
                        else (ro, db));
          ro2 = ro1\<lparr>ar_State := RolloutHalted, ar_Detail := why\<rparr>
      in (ro2, save ro2 RolloutActor ''agent_rollout.halted'' now db1))"

definition saveAssignment :: "assignment \<Rightarrow> rollout_db \<Rightarrow> uuid \<times> rollout_db" where
  "saveAssignment a db =
     (case CreateAssignment a (rd_assignments db) of
        (i, tbl) \<Rightarrow> (i, InsertAudit RolloutActor ''assignment.created'' i (db\<lparr>rd_assignments := tbl\<rparr>)))"

definition agent_assignment :: "uuid \<Rightarrow> uuid \<Rightarrow> uuid \<Rightarrow> string \<Rightarrow> go_time \<Rightarrow> assignment" where
  "agent_assignment i item grp mode now = \<lparr>as_id = i, as_kind = ItemKindAgent, as_item = item, as_group = grp,
     as_mode = mode, as_created_at = now, as_created_by = RolloutActor, as_options = None, as_rollout = zero_rollout\<rparr>"

definition assignExclude :: "uuid \<Rightarrow> uuid \<Rightarrow> uuid \<Rightarrow> go_time \<Rightarrow> rollout_db \<Rightarrow> uuid \<times> rollout_db" where
  "assignExclude i item grp now db = saveAssignment (agent_assignment i item grp ModeExclude now) db"

definition needsApproval :: "rollout_service \<Rightarrow> uuid \<Rightarrow> rollout_db \<Rightarrow> bool option" where
  "needsApproval svc grp db =
     (if \<not> sv_ApprovalsRequired svc then Some False
      else case map_of (rd_groups db) grp of
        None \<Rightarrow> None
      | Some kind \<Rightarrow>
          if kind \<noteq> GroupStatic then Some True
          else Some (int (length (filter (\<lambda>(g, d). g = grp) (rd_members db))) > sv_ApprovalThreshold svc))"

record AgentOptions =
  ao_DeadlineSeconds :: int

definition DefaultAgentOptions :: AgentOptions where
  "DefaultAgentOptions = \<lparr>ao_DeadlineSeconds = 600\<rparr>"

definition Marshal_options :: "AgentOptions \<Rightarrow> string" where
  "Marshal_options ao = ''{\"deadline_seconds\":'' @ itoa (ao_DeadlineSeconds ao) @ ''}''"

definition uuid_Nil :: uuid where "uuid_Nil = replicate 16 (CHR 0x00)"

definition include_request :: "rollout_service \<Rightarrow> AgentRollout \<Rightarrow> uuid \<Rightarrow> json" where
  "include_request svc ro grp = JObj [(''group_id'', JStr (sv_uuid_String svc grp)), (''item_id'', JStr (sv_uuid_String svc (ar_AgentVersionID ro))), (''item_kind'', JStr ItemKindAgent),
     (''mode'', JStr ModeInclude), (''options'', JObj [(''deadline_seconds'', JNum (itoa (ao_DeadlineSeconds DefaultAgentOptions)))])]"

definition include_approval :: "rollout_service \<Rightarrow> uuid \<Rightarrow> AgentRollout \<Rightarrow> uuid \<Rightarrow> string \<Rightarrow> go_time \<Rightarrow> Approval" where
  "include_approval svc i ro grp groupName now =
     \<lparr>ay_ID = i, ay_Kind = ApprovalAssignment, ay_Request = include_request svc ro grp,
      ay_Summary = ''automatic rollout: assign agent '' @ ar_Version ro @ '' to '' @ groupName, ay_RequestedBy = RolloutActor,
      ay_RequesterID = uuid_Nil, ay_CreatedAt = now, ay_ExpiresAt = time_add now approvalTTL, ay_Status = ApprovalPending,
      ay_DecidedBy = [], ay_DecidedAt = None, ay_Reason = [], ay_Result = None\<rparr>"

text \<open>\<^verbatim>\<open>include\<close>: \<open>Inl\<close> a request for approval, \<open>Inr\<close> the assignment; none if the group is gone.\<close>

definition include_build ::
  "rollout_service \<Rightarrow> uuid \<Rightarrow> AgentRollout \<Rightarrow> uuid \<Rightarrow> string \<Rightarrow> go_time \<Rightarrow> rollout_db \<Rightarrow> ((uuid + uuid) \<times> rollout_db) option" where
  "include_build svc i ro grp groupName now db =
     (case needsApproval svc grp db of
        None \<Rightarrow> None
      | Some True \<Rightarrow>
          Some (Inl i, InsertAudit RolloutActor ''approval.requested'' i
            (db\<lparr>rd_approvals := CreateApproval (include_approval svc i ro grp groupName now) (rd_approvals db)\<rparr>))
      | Some False \<Rightarrow>
          (case saveAssignment ((agent_assignment i (ar_AgentVersionID ro) grp ModeInclude now)
                  \<lparr>as_options := Some (Marshal_options DefaultAgentOptions)\<rparr>) db of
             (j, db1) \<Rightarrow> Some (Inr j, db1)))"

definition fleetBuild :: "rollout_db \<Rightarrow> AgentRollout option" where
  "fleetBuild db = (case ListRolloutsInState [RolloutPromoted] db of [] \<Rightarrow> None | rs \<Rightarrow> Some (last rs))"

definition approvalOutcome :: "string \<Rightarrow> string" where
  "approvalOutcome status =
     (if status = ApprovalRejected then ''rejected''
      else if status = ApprovalExpired then ''not approved before it lapsed''
      else if status = ApprovalFailed then ''approved, but could not be carried out''
      else status)"

definition retire_old :: "AgentRollout \<Rightarrow> go_time \<Rightarrow> AgentRollout \<Rightarrow> rollout_db \<Rightarrow> rollout_db" where
  "retire_old ro now old db =
     UpdateAgentRollout (old\<lparr>ar_FleetAssignmentID := None, ar_PilotAssignmentID := None, ar_ExcludeAssignmentID := None,
         ar_State := RolloutSuperseded, ar_Detail := ''replaced by '' @ ar_Version ro, ar_UpdatedAt := now\<rparr>)
       (removeAssignment (ar_ExcludeAssignmentID old) (removeAssignment (ar_PilotAssignmentID old)
          (removeAssignment (ar_FleetAssignmentID old) db)))"

definition promote :: "AgentRollout \<Rightarrow> uuid \<Rightarrow> go_time \<Rightarrow> rollout_db \<Rightarrow> AgentRollout \<times> rollout_db" where
  "promote ro fleet now db =
     (let older = filter (\<lambda>old. ar_ID old \<noteq> ar_ID ro) (ListRolloutsInState [RolloutPromoted] db);
          db1 = removeAssignment (ar_ExcludeAssignmentID ro) (removeAssignment (ar_PilotAssignmentID ro) db);
          db2 = fold (retire_old ro now) older db1;
          ro1 = ro\<lparr>ar_State := RolloutPromoted, ar_FleetAssignmentID := Some fleet, ar_PromotedAt := Some now, ar_Detail := [],
                   ar_PilotAssignmentID := None, ar_ExcludeAssignmentID := None\<rparr>
      in (ro1, save ro1 RolloutActor ''agent_rollout.promoted'' now db2))"

definition supersede :: "AgentRollout \<Rightarrow> string \<Rightarrow> go_time \<Rightarrow> rollout_db \<Rightarrow> rollout_db" where
  "supersede ro by_version now db =
     (let db1 = removeAssignment (ar_ExcludeAssignmentID ro) (removeAssignment (ar_PilotAssignmentID ro) db);
          reject = (\<lambda>i db. case i of None \<Rightarrow> db
                      | Some a \<Rightarrow> db\<lparr>rd_approvals := snd (DecideApproval a ApprovalRejected RolloutActor
                          (''superseded by agent '' @ by_version) now (rd_approvals db))\<rparr>);
          db2 = reject (ar_FleetApprovalID ro) (reject (ar_PilotApprovalID ro) db1);
          ro1 = ro\<lparr>ar_PilotAssignmentID := None, ar_ExcludeAssignmentID := None, ar_PilotApprovalID := None, ar_FleetApprovalID := None,
                   ar_State := RolloutSuperseded, ar_Detail := ''replaced by '' @ by_version, ar_UpdatedAt := now\<rparr>
      in InsertAudit RolloutActor ''agent_rollout.superseded'' (ar_ID ro) (UpdateAgentRollout ro1 db2))"

section \<open>Steps\<close>

type_synonym stepped = "(string + AgentRollout) \<times> rollout_db"

abbreviation stays :: "AgentRollout \<times> rollout_db \<Rightarrow> stepped" where
  "stays x \<equiv> (Inr (fst x), snd x)"

definition piloting :: "AgentRollout \<Rightarrow> uuid \<Rightarrow> go_time \<Rightarrow> rollout_db \<Rightarrow> stepped" where
  "piloting ro i now db =
     (let ro1 = ro\<lparr>ar_PilotAssignmentID := Some i, ar_PilotStartedAt := Some now, ar_Detail := []\<rparr>
      in (Inr ro1, save ro1 RolloutActor ''agent_rollout.piloting'' now db))"

text \<open>The pilot assignment waits for approval.\<close>

definition awaitPilot :: "AgentRollout \<Rightarrow> uuid \<Rightarrow> uuid \<Rightarrow> go_time \<Rightarrow> rollout_db \<Rightarrow> stepped" where
  "awaitPilot ro pilot approval now db =
     (case GetApproval approval (rd_approvals db) of
        None \<Rightarrow> (Inl ''not found'', db)
      | Some a \<Rightarrow>
          if ay_Status a = ApprovalPending
          then (if ay_ExpiresAt a > now then stays (wait ro ''waiting for a second administrator to approve the pilot'' now db)
                else stays (halt ro ''nobody approved the pilot assignment before it lapsed'' now db))
          else if ay_Status a = ApprovalApproved
          then (case GetAssignmentFor (ar_AgentVersionID ro) pilot ModeInclude db of
                  None \<Rightarrow> stays (halt ro ''the pilot assignment was approved but is not there'' now db)
                | Some a1 \<Rightarrow> piloting ro (as_id a1) now db)
          else stays (halt ro (''the pilot assignment was '' @ approvalOutcome (ay_Status a)) now db))"

text \<open>The pilot has not been assigned: exclude it from the fleet's build, then include it in this one.\<close>

definition excludePilot :: "uuid \<Rightarrow> AgentRollout \<Rightarrow> uuid \<Rightarrow> go_time \<Rightarrow> rollout_db \<Rightarrow> AgentRollout \<times> rollout_db" where
  "excludePilot i ro pilot now db =
     (if ar_ExcludeAssignmentID ro \<noteq> None then (ro, db)
      else case fleetBuild db of
        None \<Rightarrow> (ro, db)
      | Some current \<Rightarrow>
          if ar_AgentVersionID current = ar_AgentVersionID ro then (ro, db)
          else (case assignExclude i (ar_AgentVersionID current) pilot now db of
                  (j, db1) \<Rightarrow> (ro\<lparr>ar_ExcludeAssignmentID := Some j\<rparr>, db1)))"

definition beginPilot ::
  "rollout_service \<Rightarrow> uuid \<times> uuid \<Rightarrow> AgentRollout \<Rightarrow> uuid \<Rightarrow> go_time \<Rightarrow> rollout_db \<Rightarrow> stepped" where
  "beginPilot svc ids ro pilot now db =
     (case excludePilot (fst ids) ro pilot now db of
        (ro1, db1) \<Rightarrow>
          (case include_build svc (snd ids) ro1 pilot ''the pilot group'' now db1 of
             None \<Rightarrow> (Inl ''not found'', db1)
           | Some (Inl approval, db2) \<Rightarrow>
               let ro2 = ro1\<lparr>ar_PilotApprovalID := Some approval, ar_Detail := ''waiting for a second administrator to approve the pilot''\<rparr>
               in (Inr ro2, save ro2 RolloutActor ''agent_rollout.approval_requested'' now db2)
           | Some (Inr j, db2) \<Rightarrow> piloting ro1 j now db2))"

text \<open>The pilot runs: watch it, and go on to All devices when its time is up.\<close>

text \<open>A pilot assigned without the time it started would be a nil dereference; no reachable rollout is one.\<close>

definition failed_detail :: "PilotHealth \<Rightarrow> string" where
  "failed_detail h = itoa (ph_Failed h) @ '' pilot device(s) failed to run it: '' @ join_with ''; '' (ph_Failures h)"

definition promoteAt :: "AgentRollout \<Rightarrow> go_time \<Rightarrow> go_time" where
  "promoteAt ro started = time_add started (dur_mul (ar_DelayHours ro) hour)"

definition promotePilot ::
  "rollout_service \<Rightarrow> uuid \<times> uuid \<Rightarrow> AgentRollout \<Rightarrow> go_time \<Rightarrow> rollout_db \<Rightarrow> stepped" where
  "promotePilot svc ids ro now db =
     (case include_build svc (snd ids) ro BuiltinGroupID ''All devices'' now db of
        None \<Rightarrow> (Inl ''not found'', db)
      | Some (Inl approval, db1) \<Rightarrow>
          let ro1 = ro\<lparr>ar_State := RolloutPromoting, ar_FleetApprovalID := Some approval,
                ar_Detail := ''the pilot passed; waiting for a second administrator to approve All devices''\<rparr>
          in (Inr ro1, save ro1 RolloutActor ''agent_rollout.approval_requested'' now db1)
      | Some (Inr j, db1) \<Rightarrow> stays (promote ro j now db1))"

definition watchPilot ::
  "rollout_service \<Rightarrow> uuid \<times> uuid \<Rightarrow> AgentRollout \<Rightarrow> uuid \<Rightarrow> go_time \<Rightarrow> rollout_db \<Rightarrow> stepped" where
  "watchPilot svc ids ro pilot now db =
     (let health = AgentBuildHealth pilot (ar_AgentVersionID ro) db in
      if ph_Failed health > 0 then stays (halt ro (failed_detail health) now db)
      else case ar_PilotStartedAt ro of
        None \<Rightarrow> (Inl ''nil pointer dereference'', db)
      | Some started \<Rightarrow>
          if now < promoteAt ro started
          then stays (wait ro (''piloting until '' @ format_rfc3339 (promoteAt ro started) @ ''; '' @ itoa (ph_Succeeded health)
                 @ '' pilot device(s) run it so far'') now db)
          else if ph_Succeeded health = 0
          then stays (wait ro ''the pilot period is over, but no pilot device runs it yet'' now db)
          else promotePilot svc ids ro now db)"

definition stepPilot :: "rollout_service \<Rightarrow> uuid \<times> uuid \<Rightarrow> AgentRollout \<Rightarrow> go_time \<Rightarrow> rollout_db \<Rightarrow> stepped" where
  "stepPilot svc ids ro now db =
     (case ar_PilotGroupID ro of
        None \<Rightarrow> stays (halt ro ''the pilot group was deleted'' now db)
      | Some pilot \<Rightarrow>
          (case ar_PilotAssignmentID ro of
             Some _ \<Rightarrow> watchPilot svc ids ro pilot now db
           | None \<Rightarrow>
               (case ar_PilotApprovalID ro of
                  Some approval \<Rightarrow> awaitPilot ro pilot approval now db
                | None \<Rightarrow> beginPilot svc ids ro pilot now db)))"

definition stepPromoting :: "AgentRollout \<Rightarrow> go_time \<Rightarrow> rollout_db \<Rightarrow> stepped" where
  "stepPromoting ro now db =
     (let health = (case ar_PilotGroupID ro of None \<Rightarrow> \<lparr>ph_Succeeded = 0, ph_Failed = 0, ph_Failures = []\<rparr>
                    | Some g \<Rightarrow> AgentBuildHealth g (ar_AgentVersionID ro) db) in
      if ph_Failed health > 0 then stays (halt ro (failed_detail health) now db)
      else (case ar_FleetApprovalID ro of
         None \<Rightarrow> stays (halt ro ''promotion lost track of its approval'' now db)
       | Some approval \<Rightarrow>
           (case GetApproval approval (rd_approvals db) of
              None \<Rightarrow> (Inl ''not found'', db)
            | Some a \<Rightarrow>
                if ay_Status a = ApprovalPending
                then (if ay_ExpiresAt a > now
                      then stays (wait ro ''the pilot passed; waiting for a second administrator to approve All devices'' now db)
                      else stays (halt ro ''nobody approved All devices before the request lapsed'' now db))
                else if ay_Status a = ApprovalApproved
                then (case GetAssignmentFor (ar_AgentVersionID ro) BuiltinGroupID ModeInclude db of
                        None \<Rightarrow> stays (halt ro ''All devices was approved but the assignment is not there'' now db)
                      | Some a1 \<Rightarrow> stays (promote ro (as_id a1) now db))
                else stays (halt ro (''All devices was '' @ approvalOutcome (ay_Status a)) now db))))"

definition rollout_step :: "rollout_service \<Rightarrow> (uuid \<Rightarrow> uuid \<times> uuid) \<Rightarrow> go_time \<Rightarrow> AgentRollout \<Rightarrow> rollout_db \<Rightarrow> stepped" where
  "rollout_step svc fresh now ro db =
     (if ar_State ro = RolloutPilot then stepPilot svc (fresh (ar_ID ro)) ro now db
      else if ar_State ro = RolloutPromoting then stepPromoting ro now db
      else (Inr ro, db))"

definition rolloutUnchanged :: "AgentRollout \<Rightarrow> AgentRollout \<Rightarrow> bool" where
  "rolloutUnchanged a b \<longleftrightarrow> ar_State a = ar_State b \<and> ar_Detail a = ar_Detail b
     \<and> ar_PilotAssignmentID a = ar_PilotAssignmentID b \<and> ar_PilotApprovalID a = ar_PilotApprovalID b
     \<and> ar_FleetApprovalID a = ar_FleetApprovalID b \<and> ar_FleetAssignmentID a = ar_FleetAssignmentID b
     \<and> ar_ExcludeAssignmentID a = ar_ExcludeAssignmentID b"

text \<open>\<open>Advance\<close> gives how many rollouts moved and the errors met.\<close>

definition advance_one ::
  "rollout_service \<Rightarrow> (uuid \<Rightarrow> uuid \<times> uuid) \<Rightarrow> go_time \<Rightarrow> AgentRollout \<Rightarrow> (int \<times> string list) \<times> rollout_db \<Rightarrow> (int \<times> string list) \<times> rollout_db" where
  "advance_one svc fresh now ro acc =
     (case acc of ((moved, errs), db) \<Rightarrow>
        (case rollout_step svc fresh now ro db of
           (Inl e, db1) \<Rightarrow> ((moved, errs @ [''rollout of '' @ ar_Version ro @ '': '' @ e]), db1)
         | (Inr ro1, db1) \<Rightarrow> ((if rolloutUnchanged ro ro1 then moved else moved + 1, errs), db1)))"

definition Advance :: "rollout_service \<Rightarrow> (uuid \<Rightarrow> uuid \<times> uuid) \<Rightarrow> go_time \<Rightarrow> rollout_db \<Rightarrow> (int \<times> string list) \<times> rollout_db" where
  "Advance svc fresh now db =
     fold (advance_one svc fresh now) (ListRolloutsInState [RolloutPilot, RolloutPromoting] db) ((0, []), db)"

definition Resume :: "rollout_service \<Rightarrow> (uuid \<Rightarrow> uuid \<times> uuid) \<Rightarrow> uuid \<Rightarrow> string \<Rightarrow> go_time \<Rightarrow> rollout_db \<Rightarrow> string option \<times> rollout_db" where
  "Resume svc fresh i actor now db =
     (case GetAgentRollout i db of
        None \<Rightarrow> (Some ''not found'', db)
      | Some ro \<Rightarrow>
          if ar_State ro \<noteq> RolloutHalted then (Some ''only a halted rollout can be resumed'', db)
          else
            let ro1 = ro\<lparr>ar_State := RolloutPilot, ar_PilotApprovalID := None, ar_FleetApprovalID := None, ar_Detail := []\<rparr>;
                db1 = save ro1 actor ''agent_rollout.resumed'' now db in
            (case rollout_step svc fresh now ro1 db1 of (Inl e, db2) \<Rightarrow> (Some e, db2) | (Inr _, db2) \<Rightarrow> (None, db2)))"

text \<open>\<^verbatim>\<open>Start\<close> for a build with its identifier and version.\<close>

definition Start_rollout ::
  "rollout_service \<Rightarrow> (uuid \<Rightarrow> uuid \<times> uuid) \<Rightarrow> uuid \<Rightarrow> uuid \<Rightarrow> string \<Rightarrow> go_time \<Rightarrow> rollout_db \<Rightarrow> string option \<times> rollout_db" where
  "Start_rollout svc fresh new_id build version now db =
     (case py_PilotGroupID (rd_policy db) of
        None \<Rightarrow> (None, db)
      | Some pilot \<Rightarrow>
          if \<not> py_Enabled (rd_policy db) then (None, db)
          else if \<not> list_all (\<lambda>old. Newer version (ar_Version old)) (ListRolloutsInState [RolloutPromoted] db) then (None, db)
          else
            let ro = \<lparr>ar_ID = new_id, ar_AgentVersionID = build, ar_State = RolloutPilot, ar_PilotGroupID = Some pilot,
                  ar_DelayHours = py_DelayHours (rd_policy db), ar_PilotAssignmentID = None, ar_PilotApprovalID = None,
                  ar_PilotStartedAt = None, ar_ExcludeAssignmentID = None, ar_FleetAssignmentID = None, ar_FleetApprovalID = None,
                  ar_PromotedAt = None, ar_Detail = [], ar_CreatedAt = now, ar_UpdatedAt = now, ar_Version = version\<rparr> in
            (case CreateAgentRollout ro db of
               (False, db1) \<Rightarrow> (None, db1)
             | (True, db1) \<Rightarrow>
                 let db2 = InsertAudit RolloutActor ''agent_rollout.started'' new_id db1;
                     others = filter (\<lambda>old. ar_ID old \<noteq> new_id) (ListRolloutsInState [RolloutPilot, RolloutPromoting] db2);
                     db3 = fold (\<lambda>old. supersede old version now) others db2 in
                 (case GetAgentRollout new_id db3 of
                    None \<Rightarrow> (Some ''not found'', db3)
                  | Some started \<Rightarrow>
                      (case rollout_step svc fresh now started db3 of (Inl e, db4) \<Rightarrow> (Some e, db4) | (Inr _, db4) \<Rightarrow> (None, db4)))))"

section \<open>Settings\<close>

definition setAgentRolloutPolicy ::
  "(string \<Rightarrow> uuid option) \<Rightarrow> string \<Rightarrow> bool \<Rightarrow> string \<Rightarrow> int \<Rightarrow> rollout_db \<Rightarrow> refusal option \<times> rollout_db" where
  "setAgentRolloutPolicy parse_uuid actor enabled pilot rawDelay db =
     (let delay = (if rawDelay = 0 then DefaultRolloutDelayHours else rawDelay);
          bad = (Some (400, ''bad_request''), db) in
      if delay < 1 \<or> delay > 720 then bad
      else if pilot \<noteq> [] \<and> (case parse_uuid pilot of None \<Rightarrow> True
              | Some g \<Rightarrow> g = BuiltinGroupID \<or> map_of (rd_groups db) g = None) then bad
      else if enabled \<and> pilot = [] then bad
      else (None, InsertAudit actor ''agent_rollout.policy_changed'' [] (db\<lparr>rd_policy :=
             \<lparr>py_Enabled = enabled, py_PilotGroupID = (if pilot = [] then None else parse_uuid pilot), py_DelayHours = delay\<rparr>\<rparr>)))"

end
