(* ===== verification/Agent_Rollout_Safety.thy ===== *)
theory Agent_Rollout_Safety
  imports Agent_Rollout
begin

text \<open>
  What an automatic rollout promises. The first part gives the states of a rollout as a machine of a
  few moves and shows that every step of the code is one of them, with the rest of the table
  left alone; from it, that a build reaches every device only after its pilot, and that one build at
  most is everyone's. Which builds the devices are offered meanwhile is the matter of \<^verbatim>\<open>Agent_Offer\<close>.
\<close>

section \<open>What the pieces leave alone\<close>

lemma rollouts_frame [simp]:
  "rd_rollouts (InsertAudit actor action target db) = rd_rollouts db"
  "rd_rollouts (removeAssignment i db) = rd_rollouts db"
  by (auto simp: InsertAudit_def removeAssignment_def split: option.splits)

lemma save_frame: "saveAssignment a db = (j, db') \<Longrightarrow> rd_rollouts db' = rd_rollouts db"
  by (auto simp: saveAssignment_def split: prod.splits)

lemma include_cases:
  assumes "include_build svc i ro grp name now db = Some (r, db')"
  obtains (held) "needsApproval svc grp db = Some True" "r = Inl i" "rd_rollouts db' = rd_rollouts db"
  | (made) j where "needsApproval svc grp db = Some False" "r = Inr j" "rd_rollouts db' = rd_rollouts db"
proof (cases "needsApproval svc grp db")
  case None
  then show ?thesis using assms by (simp add: include_build_def)
next
  case (Some b)
  show ?thesis
  proof (cases b)
    case True
    then show ?thesis using assms Some by (intro held) (auto simp: include_build_def)
  next
    case False
    then obtain j where "r = Inr j" "saveAssignment ((agent_assignment i (ar_AgentVersionID ro) grp ModeInclude now)
        \<lparr>as_options := Some (Marshal_options DefaultAgentOptions)\<rparr>) db = (j, db')"
      using assms Some by (auto simp: include_build_def split: prod.splits)
    then show ?thesis using Some False by (intro made [of j]) (auto dest: save_frame)
  qed
qed

lemma exclude_cases:
  assumes "excludePilot i ro pilot now db = (ro1, db1)"
  obtains (none) "ro1 = ro" "db1 = db"
  | (made) current j where "ar_ExcludeAssignmentID ro = None" "fleetBuild db = Some current"
      "ar_AgentVersionID current \<noteq> ar_AgentVersionID ro" "ro1 = ro\<lparr>ar_ExcludeAssignmentID := Some j\<rparr>"
      "saveAssignment (agent_assignment i (ar_AgentVersionID current) pilot ModeExclude now) db = (j, db1)"
proof (cases "ar_ExcludeAssignmentID ro = None \<and> (\<exists>current. fleetBuild db = Some current \<and> ar_AgentVersionID current \<noteq> ar_AgentVersionID ro)")
  case True
  then obtain current where c: "fleetBuild db = Some current" "ar_AgentVersionID current \<noteq> ar_AgentVersionID ro" by blast
  obtain j d where "saveAssignment (agent_assignment i (ar_AgentVersionID current) pilot ModeExclude now) db = (j, d)" by fastforce
  then show ?thesis using assms True c by (intro made [of current j]) (auto simp: excludePilot_def assignExclude_def)
next
  case False
  then have "ro1 = ro \<and> db1 = db" using assms by (auto simp: excludePilot_def split: if_splits option.splits)
  then show ?thesis using none by blast
qed

lemma exclude_frame:
  assumes "excludePilot i ro pilot now db = (ro1, db1)"
  shows "rd_rollouts db1 = rd_rollouts db \<and> (\<exists>e. ro1 = ro\<lparr>ar_ExcludeAssignmentID := e\<rparr>)"
  using assms
proof (cases rule: exclude_cases)
  case none
  then show ?thesis by (auto intro: exI [of _ "ar_ExcludeAssignmentID ro"])
next
  case (made current j)
  then show ?thesis using save_frame by blast
qed

definition kept :: "AgentRollout \<Rightarrow> AgentRollout \<Rightarrow> bool" where
  "kept a b \<longleftrightarrow> ar_ID a = ar_ID b \<and> ar_AgentVersionID a = ar_AgentVersionID b \<and> ar_PilotGroupID a = ar_PilotGroupID b
     \<and> ar_DelayHours a = ar_DelayHours b \<and> ar_CreatedAt a = ar_CreatedAt b \<and> ar_Version a = ar_Version b"

lemma kept_refl [simp]: "kept a a"
  by (simp add: kept_def)

lemma kept_update [simp]:
  "kept (a\<lparr>ar_State := st\<rparr>) b = kept a b" "kept (a\<lparr>ar_PilotAssignmentID := i\<rparr>) b = kept a b"
  "kept (a\<lparr>ar_PilotApprovalID := i\<rparr>) b = kept a b" "kept (a\<lparr>ar_PilotStartedAt := t\<rparr>) b = kept a b"
  "kept (a\<lparr>ar_ExcludeAssignmentID := i\<rparr>) b = kept a b" "kept (a\<lparr>ar_FleetAssignmentID := i\<rparr>) b = kept a b"
  "kept (a\<lparr>ar_FleetApprovalID := i\<rparr>) b = kept a b" "kept (a\<lparr>ar_PromotedAt := t\<rparr>) b = kept a b"
  "kept (a\<lparr>ar_Detail := d\<rparr>) b = kept a b" "kept (a\<lparr>ar_UpdatedAt := u\<rparr>) b = kept a b"
  by (simp_all add: kept_def)

lemma kept_id: "kept a b \<Longrightarrow> ar_ID a = ar_ID b"
  by (simp add: kept_def)

lemma kept_promoteAt: "kept a b \<Longrightarrow> promoteAt a t = promoteAt b t"
  by (simp add: kept_def promoteAt_def)

definition replace :: "AgentRollout \<Rightarrow> AgentRollout list \<Rightarrow> AgentRollout list" where
  "replace r rows = map (\<lambda>q. if ar_ID q = ar_ID r then r else q) rows"

lemma ids_replace [simp]: "map ar_ID (replace r rows) = map ar_ID rows"
  by (simp add: replace_def)

lemma in_replace: "q \<in> set (replace r rows) \<Longrightarrow> q = r \<or> q \<in> set rows \<and> ar_ID q \<noteq> ar_ID r"
  by (auto simp: replace_def)

lemma replace_mem: "ro \<in> set rows \<Longrightarrow> ar_ID r = ar_ID ro \<Longrightarrow> r \<in> set (replace r rows)"
  by (force simp: replace_def)

text \<open>A rollout a handler holds: a row of the table, but perhaps for the time it was updated, which the handler's copy is not
  told. Writing it back replaces the row.\<close>

definition read_from :: "AgentRollout \<Rightarrow> AgentRollout list \<Rightarrow> bool" where
  "read_from ro rows \<longleftrightarrow> (\<exists>q \<in> set rows. ro = q\<lparr>ar_UpdatedAt := ar_UpdatedAt ro\<rparr>)"

lemma read_fromE:
  assumes "read_from ro rows"
  obtains q where "q \<in> set rows" "kept q ro" "kept ro q" "ar_State q = ar_State ro" "ar_PilotAssignmentID q = ar_PilotAssignmentID ro"
    "ar_PilotStartedAt q = ar_PilotStartedAt ro" "ar_PromotedAt q = ar_PromotedAt ro" "ar_ID q = ar_ID ro"
proof -
  obtain q where q: "q \<in> set rows" "ro = q\<lparr>ar_UpdatedAt := ar_UpdatedAt ro\<rparr>" using assms by (auto simp: read_from_def)
  have "\<exists>u. ro = q\<lparr>ar_UpdatedAt := u\<rparr>" using q(2) by blast
  then obtain u where "ro = q\<lparr>ar_UpdatedAt := u\<rparr>" by blast
  with q(1) show ?thesis by (intro that [of q]) (simp_all add: kept_def)
qed

lemma read_from_row: "q \<in> set rows \<Longrightarrow> read_from q rows"
  unfolding read_from_def by (rule bexI [of _ q]) simp_all

lemma Update_replace:
  assumes "read_from ro (rd_rollouts db)" "distinct (map ar_ID (rd_rollouts db))" "kept r ro"
  shows "rd_rollouts (UpdateAgentRollout r db) = replace r (rd_rollouts db)"
proof -
  have "q\<lparr>ar_State := ar_State r, ar_PilotAssignmentID := ar_PilotAssignmentID r, ar_PilotApprovalID := ar_PilotApprovalID r,
      ar_PilotStartedAt := ar_PilotStartedAt r, ar_ExcludeAssignmentID := ar_ExcludeAssignmentID r,
      ar_FleetAssignmentID := ar_FleetAssignmentID r, ar_FleetApprovalID := ar_FleetApprovalID r,
      ar_PromotedAt := ar_PromotedAt r, ar_Detail := ar_Detail r, ar_UpdatedAt := ar_UpdatedAt r\<rparr> = r"
    if "q \<in> set (rd_rollouts db)" "ar_ID q = ar_ID r" for q
  proof -
    obtain q' where q': "q' \<in> set (rd_rollouts db)" "kept q' ro" using assms(1) by (rule read_fromE)
    then have "q = q'" using assms(2,3) that by (auto simp: kept_def distinct_map inj_on_def)
    then have "kept r q" using assms(3) q'(2) by (simp add: kept_def)
    then show ?thesis by (cases r, cases q) (simp add: kept_def)
  qed
  then show ?thesis by (auto simp: UpdateAgentRollout_def replace_def)
qed

section \<open>The moves of a rollout\<close>

definition same_pilot :: "AgentRollout \<Rightarrow> AgentRollout \<Rightarrow> bool" where
  "same_pilot a b \<longleftrightarrow> ar_PilotAssignmentID a = ar_PilotAssignmentID b \<and> ar_PilotStartedAt a = ar_PilotStartedAt b
     \<and> ar_PromotedAt a = ar_PromotedAt b"

definition pilot_over :: "go_time \<Rightarrow> AgentRollout \<Rightarrow> bool" where
  "pilot_over now ro \<longleftrightarrow> (case ar_PilotStartedAt ro of None \<Rightarrow> False | Some t \<Rightarrow> promoteAt ro t \<le> now)"

text \<open>The machine: waiting, the pilot beginning, stopping, the pilot passing and waiting for approval.\<close>

inductive moves :: "go_time \<Rightarrow> AgentRollout \<Rightarrow> AgentRollout \<Rightarrow> bool" for now where
  mv_wait: "ar_State b = ar_State a \<Longrightarrow> same_pilot b a \<Longrightarrow> moves now a b"
| mv_begin: "ar_State a = RolloutPilot \<Longrightarrow> ar_PilotAssignmentID a = None \<Longrightarrow> ar_State b = RolloutPilot
    \<Longrightarrow> ar_PilotStartedAt b = Some now \<Longrightarrow> ar_PromotedAt b = ar_PromotedAt a \<Longrightarrow> moves now a b"
| mv_halt: "ar_State a \<in> {RolloutPilot, RolloutPromoting} \<Longrightarrow> ar_State b = RolloutHalted \<Longrightarrow> same_pilot b a \<Longrightarrow> moves now a b"
| mv_pass: "ar_State a = RolloutPilot \<Longrightarrow> pilot_over now a \<Longrightarrow> ar_State b = RolloutPromoting \<Longrightarrow> same_pilot b a \<Longrightarrow> moves now a b"

text \<open>Promotion: allowed after the pilot, or once the request for it was approved.\<close>

definition may_promote :: "rollout_service \<Rightarrow> go_time \<Rightarrow> AgentRollout \<Rightarrow> rollout_db \<Rightarrow> bool" where
  "may_promote svc now ro db \<longleftrightarrow>
     (case ar_PilotGroupID ro of None \<Rightarrow> True | Some g \<Rightarrow> ph_Failed (AgentBuildHealth g (ar_AgentVersionID ro) db) = 0)
   \<and> (if ar_State ro = RolloutPilot
      then pilot_over now ro \<and> needsApproval svc BuiltinGroupID db = Some False
         \<and> (\<exists>g. ar_PilotGroupID ro = Some g \<and> ph_Succeeded (AgentBuildHealth g (ar_AgentVersionID ro) db) > 0)
      else ar_State ro = RolloutPromoting \<and> (\<exists>i a. ar_FleetApprovalID ro = Some i \<and> GetApproval i (rd_approvals db) = Some a
         \<and> ay_Status a = ApprovalApproved))"

definition promoted_from :: "go_time \<Rightarrow> AgentRollout \<Rightarrow> AgentRollout \<Rightarrow> bool" where
  "promoted_from now a b \<longleftrightarrow> ar_State b = RolloutPromoted \<and> ar_PromotedAt b = Some now \<and> ar_PilotStartedAt b = ar_PilotStartedAt a
     \<and> ar_PilotAssignmentID b = None \<and> ar_ExcludeAssignmentID b = None \<and> ar_FleetAssignmentID b \<noteq> None"

text \<open>The builds it takes over from.\<close>

definition retired :: "AgentRollout \<Rightarrow> go_time \<Rightarrow> AgentRollout \<Rightarrow> AgentRollout" where
  "retired ro now q =
     (if ar_State q = RolloutPromoted \<and> ar_ID q \<noteq> ar_ID ro
      then q\<lparr>ar_FleetAssignmentID := None, ar_PilotAssignmentID := None, ar_ExcludeAssignmentID := None,
             ar_State := RolloutSuperseded, ar_Detail := ''replaced by '' @ ar_Version ro, ar_UpdatedAt := now\<rparr> else q)"

text \<open>What a step may do to the table.\<close>

definition moved_on :: "go_time \<Rightarrow> AgentRollout \<Rightarrow> AgentRollout list \<Rightarrow> AgentRollout list \<Rightarrow> bool" where
  "moved_on now ro rows rows' \<longleftrightarrow> (\<exists>b. kept b ro \<and> moves now ro b \<and> rows' = replace b rows)"

definition took_over :: "go_time \<Rightarrow> AgentRollout \<Rightarrow> AgentRollout list \<Rightarrow> AgentRollout list \<Rightarrow> bool" where
  "took_over now ro rows rows' \<longleftrightarrow> (\<exists>b. kept b ro \<and> promoted_from now ro b \<and> rows' = replace b (map (retired ro now) rows))"

lemma replace_same: "ro \<in> set rows \<Longrightarrow> distinct (map ar_ID rows) \<Longrightarrow> replace ro rows = rows"
  by (auto simp: replace_def distinct_map inj_on_def intro!: map_idI)

lemma moved_still:
  assumes "read_from ro (rd_rollouts db)" "distinct (map ar_ID (rd_rollouts db))" "rd_rollouts db' = rd_rollouts db"
  shows "moved_on now ro (rd_rollouts db) (rd_rollouts db')"
proof -
  obtain q where q: "q \<in> set (rd_rollouts db)" "kept q ro" "ar_State q = ar_State ro" "ar_PilotAssignmentID q = ar_PilotAssignmentID ro"
    "ar_PilotStartedAt q = ar_PilotStartedAt ro" "ar_PromotedAt q = ar_PromotedAt ro" using assms(1) by (rule read_fromE)
  then show ?thesis unfolding moved_on_def using replace_same [OF q(1) assms(2)] assms(3)
    by (intro exI [of _ q]) (auto intro!: mv_wait simp: same_pilot_def)
qed

lemma moved_save:
  assumes "read_from ro (rd_rollouts db)" "distinct (map ar_ID (rd_rollouts db))"
    and "rd_rollouts db1 = rd_rollouts db" "kept b ro" "moves now ro (b\<lparr>ar_UpdatedAt := now\<rparr>)"
  shows "moved_on now ro (rd_rollouts db) (rd_rollouts (save b actor action now db1))"
proof -
  have "rd_rollouts (save b actor action now db1) = replace (b\<lparr>ar_UpdatedAt := now\<rparr>) (rd_rollouts db)"
    using Update_replace [of ro db1 "b\<lparr>ar_UpdatedAt := now\<rparr>"] assms by (simp add: save_def)
  then show ?thesis unfolding moved_on_def using assms by (intro exI [of _ "b\<lparr>ar_UpdatedAt := now\<rparr>"]) simp
qed

lemma moved_wait:
  assumes "read_from ro (rd_rollouts db)" "distinct (map ar_ID (rd_rollouts db))"
  shows "moved_on now ro (rd_rollouts db) (rd_rollouts (snd (wait ro detail now db)))"
proof (cases "ar_Detail ro = detail")
  case True
  then show ?thesis using moved_still [OF assms, of db] by (simp add: wait_def)
next
  case False
  let ?b = "ro\<lparr>ar_Detail := detail, ar_UpdatedAt := now\<rparr>"
  have "rd_rollouts (snd (wait ro detail now db)) = replace ?b (rd_rollouts db)"
    using False Update_replace [OF assms, of ?b] by (simp add: wait_def Let_def)
  then show ?thesis unfolding moved_on_def by (intro exI [of _ ?b]) (auto intro!: mv_wait simp: same_pilot_def)
qed

lemma moved_halt:
  assumes "read_from ro (rd_rollouts db)" "distinct (map ar_ID (rd_rollouts db))" "ar_State ro \<in> {RolloutPilot, RolloutPromoting}"
  shows "moved_on now ro (rd_rollouts db) (rd_rollouts (snd (halt ro why now db)))"
proof -
  define b where "b = (if ar_PilotAssignmentID ro = None \<and> ar_ExcludeAssignmentID ro \<noteq> None then ro\<lparr>ar_ExcludeAssignmentID := None\<rparr> else ro)"
  define db1 where "db1 = (if ar_PilotAssignmentID ro = None \<and> ar_ExcludeAssignmentID ro \<noteq> None
    then removeAssignment (ar_ExcludeAssignmentID ro) db else db)"
  have h: "snd (halt ro why now db) = save (b\<lparr>ar_State := RolloutHalted, ar_Detail := why\<rparr>) RolloutActor ''agent_rollout.halted'' now db1"
    by (simp add: halt_def b_def db1_def Let_def)
  have "same_pilot b ro" "kept b ro" "rd_rollouts db1 = rd_rollouts db" by (simp_all add: b_def db1_def same_pilot_def)
  then show ?thesis unfolding h using assms by (intro moved_save) (auto intro!: mv_halt simp: same_pilot_def)
qed

lemma moved_piloting:
  assumes "read_from ro (rd_rollouts db)" "distinct (map ar_ID (rd_rollouts db))" "ar_State ro = RolloutPilot" "ar_PilotAssignmentID ro = None"
    and "rd_rollouts db1 = rd_rollouts db" "ro1 = ro\<lparr>ar_ExcludeAssignmentID := e\<rparr>"
  shows "moved_on now ro (rd_rollouts db) (rd_rollouts (snd (piloting ro1 i now db1)))"
  unfolding piloting_def Let_def snd_conv using assms by (intro moved_save mv_begin) auto

lemma retire_step:
  assumes "distinct (map ar_ID (rd_rollouts db))" "q \<in> set (rd_rollouts db)" "ar_State q = RolloutPromoted" "ar_ID q \<noteq> ar_ID ro"
  shows "rd_rollouts (retire_old ro now q db) = replace (retired ro now q) (rd_rollouts db)"
proof -
  let ?q = "q\<lparr>ar_FleetAssignmentID := None, ar_PilotAssignmentID := None, ar_ExcludeAssignmentID := None,
         ar_State := RolloutSuperseded, ar_Detail := ''replaced by '' @ ar_Version ro, ar_UpdatedAt := now\<rparr>"
  let ?db = "removeAssignment (ar_ExcludeAssignmentID q) (removeAssignment (ar_PilotAssignmentID q) (removeAssignment (ar_FleetAssignmentID q) db))"
  have "rd_rollouts (UpdateAgentRollout ?q ?db) = replace ?q (rd_rollouts ?db)"
    using assms(1,2) by (intro Update_replace [of q]) (simp_all add: read_from_row)
  then show ?thesis using assms(3,4) by (simp add: retire_old_def retired_def)
qed

lemma retire_fold:
  assumes "distinct (map ar_ID (rd_rollouts db))" "distinct (map ar_ID qs)" "set qs \<subseteq> set (rd_rollouts db)"
    and "\<forall>q \<in> set qs. ar_State q = RolloutPromoted \<and> ar_ID q \<noteq> ar_ID ro"
  shows "rd_rollouts (fold (retire_old ro now) qs db) = map (\<lambda>q. if q \<in> set qs then retired ro now q else q) (rd_rollouts db)"
  using assms
proof (induction qs arbitrary: db)
  case Nil
  then show ?case by simp
next
  case (Cons q qs)
  let ?db = "retire_old ro now q db"
  have one: "rd_rollouts ?db = replace (retired ro now q) (rd_rollouts db)" using Cons.prems by (intro retire_step) auto
  have id: "ar_ID (retired ro now q) = ar_ID q" by (simp add: retired_def)
  have eq: "x = q" if "x \<in> set (rd_rollouts db)" "ar_ID x = ar_ID q" for x
    using Cons.prems(1,3) that by (auto simp: distinct_map inj_on_def)
  have "x \<in> set (rd_rollouts ?db)" if "x \<in> set qs" for x
  proof -
    have "x \<in> set (rd_rollouts db)" "ar_ID x \<noteq> ar_ID q"
      using Cons.prems(2,3) that by (auto, metis imageI)
    then show ?thesis unfolding one replace_def id by force
  qed
  then have "rd_rollouts (fold (retire_old ro now) qs ?db) = map (\<lambda>q. if q \<in> set qs then retired ro now q else q) (rd_rollouts ?db)"
    using Cons.prems one by (intro Cons.IH) auto
  also have "\<dots> = map (\<lambda>x. if x \<in> set (q # qs) then retired ro now x else x) (rd_rollouts db)"
  proof -
    have "retired ro now q \<notin> set qs" using Cons.prems(4) unfolding retired_def by (auto split: if_splits)
    then show ?thesis unfolding one replace_def id map_map using eq Cons.prems(2) by (auto simp: comp_def)
  qed
  finally show ?case by simp
qed

lemma in_state: "set (ListRolloutsInState states db) = {q \<in> set (rd_rollouts db). ar_State q \<in> set states}"
  by (auto simp: ListRolloutsInState_def)

lemma in_state_distinct: "distinct (map ar_ID (rd_rollouts db)) \<Longrightarrow> distinct (map ar_ID (filter p (ListRolloutsInState states db)))"
  unfolding ListRolloutsInState_def
  by (rule distinct_map_filter, rule distinct_map [THEN iffD2]) (auto simp: distinct_map inj_on_def intro: distinct_filter)

definition promoted_row :: "AgentRollout \<Rightarrow> uuid \<Rightarrow> go_time \<Rightarrow> AgentRollout" where
  "promoted_row ro f now = ro\<lparr>ar_State := RolloutPromoted, ar_FleetAssignmentID := Some f, ar_PromotedAt := Some now, ar_Detail := [],
     ar_PilotAssignmentID := None, ar_ExcludeAssignmentID := None, ar_UpdatedAt := now\<rparr>"

lemma promote_exact:
  assumes "read_from ro (rd_rollouts db)" "distinct (map ar_ID (rd_rollouts db))" "rd_rollouts db1 = rd_rollouts db"
  shows "rd_rollouts (snd (promote ro f now db1)) = replace (promoted_row ro f now) (map (retired ro now) (rd_rollouts db))"
proof -
  let ?older = "filter (\<lambda>old. ar_ID old \<noteq> ar_ID ro) (ListRolloutsInState [RolloutPromoted] db1)"
  let ?db1 = "removeAssignment (ar_ExcludeAssignmentID ro) (removeAssignment (ar_PilotAssignmentID ro) db1)"
  let ?db2 = "fold (retire_old ro now) ?older ?db1"
  let ?ro1 = "ro\<lparr>ar_State := RolloutPromoted, ar_FleetAssignmentID := Some f, ar_PromotedAt := Some now, ar_Detail := [],
                 ar_PilotAssignmentID := None, ar_ExcludeAssignmentID := None\<rparr>"
  have "rd_rollouts ?db2 = map (\<lambda>q. if q \<in> set ?older then retired ro now q else q) (rd_rollouts ?db1)"
    using assms in_state_distinct [of db1] by (intro retire_fold) (auto simp: in_state)
  also have "\<dots> = map (retired ro now) (rd_rollouts db)" using assms(3) by (auto simp: in_state retired_def)
  finally have rows: "rd_rollouts ?db2 = map (retired ro now) (rd_rollouts db)" .
  have "ar_ID \<circ> retired ro now = ar_ID" by (auto simp: retired_def)
  then have ids: "map ar_ID (map (retired ro now) (rd_rollouts db)) = map ar_ID (rd_rollouts db)" by (simp add: comp_def)
  obtain q where q: "q \<in> set (rd_rollouts db)" "kept ro q" "ro = q\<lparr>ar_UpdatedAt := ar_UpdatedAt ro\<rparr>"
    using assms(1) unfolding read_from_def by (metis kept_update(10) kept_refl)
  then have "retired ro now q = q" by (simp add: retired_def kept_def)
  then have "q \<in> set (rd_rollouts ?db2)" unfolding rows using q(1) by force
  with q(3) have mem: "read_from ro (rd_rollouts ?db2)" unfolding read_from_def by blast
  have "rd_rollouts (snd (promote ro f now db1)) = rd_rollouts (UpdateAgentRollout (?ro1\<lparr>ar_UpdatedAt := now\<rparr>) ?db2)"
    by (simp add: promote_def save_def Let_def)
  also have "\<dots> = replace (?ro1\<lparr>ar_UpdatedAt := now\<rparr>) (map (retired ro now) (rd_rollouts db))"
    unfolding rows [symmetric] by (rule Update_replace [OF mem]) (simp_all only: rows ids assms(2), simp)
  finally show ?thesis by (simp add: promoted_row_def)
qed

lemma promote_rows:
  assumes "read_from ro (rd_rollouts db)" "distinct (map ar_ID (rd_rollouts db))" "rd_rollouts db1 = rd_rollouts db"
  shows "took_over now ro (rd_rollouts db) (rd_rollouts (snd (promote ro f now db1)))"
  unfolding took_over_def promote_exact [OF assms]
  by (intro exI [of _ "promoted_row ro f now"]) (simp add: promoted_from_def promoted_row_def)

section \<open>Every step is a move\<close>

lemma health_fold:
  assumes "ph_Failed h \<ge> 0" "ph_Succeeded h \<ge> 0"
  shows "ph_Failed (fold count_report rs h) \<ge> 0 \<and> ph_Succeeded (fold count_report rs h) \<ge> 0"
  using assms by (induction rs arbitrary: h) (auto simp: count_report_def)

lemma health_nonneg: "ph_Failed (AgentBuildHealth g item db) \<ge> 0" "ph_Succeeded (AgentBuildHealth g item db) \<ge> 0"
  unfolding AgentBuildHealth_def by (simp_all add: health_fold)

definition steps_to :: "rollout_service \<Rightarrow> go_time \<Rightarrow> AgentRollout \<Rightarrow> rollout_db \<Rightarrow> rollout_db \<Rightarrow> bool" where
  "steps_to svc now ro db db' \<longleftrightarrow> moved_on now ro (rd_rollouts db) (rd_rollouts db')
     \<or> took_over now ro (rd_rollouts db) (rd_rollouts db') \<and> may_promote svc now ro db"

lemma beginPilot_moves:
  assumes "read_from ro (rd_rollouts db)" "distinct (map ar_ID (rd_rollouts db))" "ar_State ro = RolloutPilot" "ar_PilotAssignmentID ro = None"
  shows "moved_on now ro (rd_rollouts db) (rd_rollouts (snd (beginPilot svc ids ro pilot now db)))"
proof -
  obtain ro1 db1 where x: "excludePilot (fst ids) ro pilot now db = (ro1, db1)" by fastforce
  then obtain e where e: "rd_rollouts db1 = rd_rollouts db" "ro1 = ro\<lparr>ar_ExcludeAssignmentID := e\<rparr>" using exclude_frame by blast
  show ?thesis
  proof (cases "include_build svc (snd ids) ro1 pilot ''the pilot group'' now db1")
    case None
    then show ?thesis using moved_still [OF assms(1,2) e(1)] by (simp add: beginPilot_def x)
  next
    case (Some y)
    obtain r db2 where y: "y = (r, db2)" by (cases y)
    from Some [unfolded y] show ?thesis
    proof (cases rule: include_cases)
      case held
      then show ?thesis unfolding beginPilot_def x prod.case Some y option.case held(2) sum.case Let_def snd_conv using assms e
        by (intro moved_save mv_wait) (auto simp: same_pilot_def)
    next
      case (made j)
      then show ?thesis unfolding beginPilot_def x prod.case Some y option.case made(2) sum.case using assms e
        by (intro moved_piloting [OF _ _ _ _ _ e(2)]) auto
    qed
  qed
qed

lemma awaitPilot_moves:
  assumes "read_from ro (rd_rollouts db)" "distinct (map ar_ID (rd_rollouts db))" "ar_State ro = RolloutPilot" "ar_PilotAssignmentID ro = None"
  shows "moved_on now ro (rd_rollouts db) (rd_rollouts (snd (awaitPilot ro pilot approval now db)))"
proof -
  have halts: "moved_on now ro (rd_rollouts db) (rd_rollouts (snd (halt ro why now db)))" for why
    using assms by (intro moved_halt) auto
  have begins: "moved_on now ro (rd_rollouts db) (rd_rollouts (snd (piloting ro i now db)))" for i
    using assms by (intro moved_piloting [of _ _ _ _ "ar_ExcludeAssignmentID ro"]) auto
  note waits = moved_wait [OF assms(1,2)] and stands = moved_still [OF assms(1,2) refl]
  show ?thesis unfolding awaitPilot_def
    by (cases "GetApproval approval (rd_approvals db)")
      (simp_all add: halts begins waits stands split: option.split)
qed

lemma watchPilot_moves:
  assumes "read_from ro (rd_rollouts db)" "distinct (map ar_ID (rd_rollouts db))" "ar_State ro = RolloutPilot" "ar_PilotGroupID ro = Some pilot"
  shows "steps_to svc now ro db (snd (watchPilot svc ids ro pilot now db))"
proof -
  let ?health = "AgentBuildHealth pilot (ar_AgentVersionID ro) db"
  note waits = moved_wait [OF assms(1,2)] and stands = moved_still [OF assms(1,2) refl]
  have halts: "moved_on now ro (rd_rollouts db) (rd_rollouts (snd (halt ro why now db)))" for why
    using assms by (intro moved_halt) auto
  have "steps_to svc now ro db (snd (promotePilot svc ids ro now db))"
    if ok: "pilot_over now ro" "ph_Failed ?health = 0" "ph_Succeeded ?health > 0"
  proof (cases "include_build svc (snd ids) ro BuiltinGroupID ''All devices'' now db")
    case None
    then show ?thesis using stands by (simp add: promotePilot_def steps_to_def)
  next
    case (Some y)
    obtain r db2 where y: "y = (r, db2)" by (cases y)
    from Some [unfolded y] show ?thesis
    proof (cases rule: include_cases)
      case held
      then show ?thesis unfolding promotePilot_def Some y option.case prod.case held(2) sum.case Let_def snd_conv steps_to_def using assms ok
        by (intro disjI1 moved_save mv_pass) (auto simp: same_pilot_def)
    next
      case (made j)
      have "may_promote svc now ro db" using made(1) ok assms by (auto simp: may_promote_def)
      then show ?thesis unfolding promotePilot_def Some y option.case prod.case made(2) sum.case snd_conv steps_to_def
        using promote_rows [OF assms(1,2) made(3)] by simp
    qed
  qed
  moreover have "ph_Failed ?health \<ge> 0" "ph_Succeeded ?health \<ge> 0" by (simp_all add: health_nonneg)
  ultimately show ?thesis unfolding watchPilot_def Let_def
    by (cases "ar_PilotStartedAt ro") (auto simp: halts waits stands steps_to_def pilot_over_def)
qed

lemma stepPromoting_moves:
  assumes "read_from ro (rd_rollouts db)" "distinct (map ar_ID (rd_rollouts db))" "ar_State ro = RolloutPromoting"
  shows "steps_to svc now ro db (snd (stepPromoting ro now db))"
proof -
  let ?health = "case ar_PilotGroupID ro of None \<Rightarrow> \<lparr>ph_Succeeded = 0, ph_Failed = 0, ph_Failures = []\<rparr>
      | Some g \<Rightarrow> AgentBuildHealth g (ar_AgentVersionID ro) db"
  note waits = moved_wait [OF assms(1,2)] and stands = moved_still [OF assms(1,2) refl]
  have halts: "moved_on now ro (rd_rollouts db) (rd_rollouts (snd (halt ro why now db)))" for why
    using assms by (intro moved_halt) auto
  have nonneg: "ph_Failed ?health \<ge> 0" by (simp add: health_nonneg split: option.split)
  have promotes: "steps_to svc now ro db (snd (promote ro f now db))"
    if "ph_Failed ?health \<le> 0" "ar_FleetApprovalID ro = Some i" "GetApproval i (rd_approvals db) = Some a" "ay_Status a = ApprovalApproved" for i a f
  proof -
    have "may_promote svc now ro db" unfolding may_promote_def using that nonneg assms(3) by (auto split: option.splits)
    then show ?thesis using promote_rows [OF assms(1,2) refl] by (simp add: steps_to_def)
  qed
  have moved: "steps_to svc now ro db db'" if "moved_on now ro (rd_rollouts db) (rd_rollouts db')" for db'
    using that by (simp add: steps_to_def)
  show ?thesis
  proof (cases "ph_Failed ?health > 0 \<or> ar_FleetApprovalID ro = None")
    case True
    then show ?thesis unfolding stepPromoting_def Let_def using halts by (auto intro: moved)
  next
    case False
    then obtain i where i: "ph_Failed ?health \<le> 0" "ar_FleetApprovalID ro = Some i" by auto
    show ?thesis unfolding stepPromoting_def Let_def i(2) option.case using i(1) promotes [OF i] halts waits stands
      by (cases "GetApproval i (rd_approvals db)") (auto intro: moved split: option.split)
  qed
qed

lemma rollout_step_steps:
  assumes "read_from ro (rd_rollouts db)" "distinct (map ar_ID (rd_rollouts db))" "rollout_step svc fresh now ro db = (r, db')"
  shows "steps_to svc now ro db db'"
proof -
  have moved: "steps_to svc now ro db x" if "moved_on now ro (rd_rollouts db) (rd_rollouts x)" for x
    using that by (simp add: steps_to_def)
  have db': "db' = snd (rollout_step svc fresh now ro db)" using assms(3) by simp
  consider (pilot) "ar_State ro = RolloutPilot" | (promoting) "ar_State ro = RolloutPromoting" | (other) "db' = db"
    using assms(3) by (auto simp: rollout_step_def split: if_splits)
  then show ?thesis
  proof cases
    case pilot
    then have step: "db' = snd (stepPilot svc (fresh (ar_ID ro)) ro now db)" unfolding db' rollout_step_def by simp
    show ?thesis
    proof (cases "ar_PilotGroupID ro")
      case None
      have "moved_on now ro (rd_rollouts db) (rd_rollouts (snd (halt ro ''the pilot group was deleted'' now db)))"
        using pilot by (intro moved_halt [OF assms(1,2)]) simp
      then show ?thesis unfolding step stepPilot_def None by (simp add: moved)
    next
      case (Some g)
      show ?thesis unfolding step stepPilot_def Some using pilot assms(1,2) watchPilot_moves [OF assms(1,2) pilot Some]
        by (auto intro: moved beginPilot_moves awaitPilot_moves split: option.split)
    qed
  next
    case promoting
    then have "db' = snd (stepPromoting ro now db)" unfolding db' rollout_step_def by simp
    then show ?thesis using stepPromoting_moves [OF assms(1,2) promoting] by simp
  next
    case other
    then show ?thesis using moved_still [OF assms(1,2) refl] by (simp add: moved)
  qed
qed

text \<open>
  C14. Every step of a rollout is a move of its state machine. Whatever the tables hold, stepping a rollout changes
  at most its own row, by waiting, beginning its pilot, halting, or - once the delay since the pilot began has passed
  - asking for approval; or it promotes the build, retiring the rows of the builds promoted before and no other. It
  promotes only if no pilot device failed to run it and either the pilot has run for the delay, some pilot device runs it,
  and All devices needs no approval, or the request to go on to All devices was approved.
\<close>

theorem rollout_step_moves:
  assumes "read_from ro (rd_rollouts db)" "distinct (map ar_ID (rd_rollouts db))" "rollout_step svc fresh now ro db = (r, db')"
  shows "moved_on now ro (rd_rollouts db) (rd_rollouts db')
     \<or> took_over now ro (rd_rollouts db) (rd_rollouts db') \<and> may_promote svc now ro db"
  using rollout_step_steps [OF assms] by (simp add: steps_to_def)

section \<open>The fleet gets a build after its pilot\<close>

definition soaked :: "go_time \<Rightarrow> AgentRollout \<Rightarrow> bool" where
  "soaked clock q \<longleftrightarrow> (ar_PilotAssignmentID q \<noteq> None \<longrightarrow> ar_PilotStartedAt q \<noteq> None)
     \<and> (ar_State q = RolloutPromoting \<longrightarrow> pilot_over clock q)
     \<and> (case ar_PromotedAt q of None \<Rightarrow> ar_State q \<noteq> RolloutPromoted
        | Some t \<Rightarrow> ar_State q \<in> {RolloutPromoted, RolloutSuperseded} \<and> t \<le> clock \<and> pilot_over t q)"

definition rollouts_ok :: "go_time \<Rightarrow> AgentRollout list \<Rightarrow> bool" where
  "rollouts_ok clock rows \<longleftrightarrow> distinct (map ar_ID rows) \<and> (\<forall>q \<in> set rows. soaked clock q)
     \<and> (\<forall>q \<in> set rows. \<forall>q' \<in> set rows. ar_State q = RolloutPromoted \<longrightarrow> ar_State q' = RolloutPromoted \<longrightarrow> q = q')"

lemma pilot_over_mono: "pilot_over c q \<Longrightarrow> c \<le> now \<Longrightarrow> pilot_over now q"
  by (auto simp: pilot_over_def split: option.splits)

lemma soaked_mono: "soaked c q \<Longrightarrow> c \<le> now \<Longrightarrow> soaked now q"
  using pilot_over_mono [of c q now] unfolding soaked_def by (cases "ar_PromotedAt q") auto

lemma pilot_over_kept: "kept b a \<Longrightarrow> ar_PilotStartedAt b = ar_PilotStartedAt a \<Longrightarrow> pilot_over c b = pilot_over c a"
  by (auto simp: pilot_over_def kept_promoteAt split: option.splits)

lemma rollouts_mono: "rollouts_ok c rows \<Longrightarrow> c \<le> now \<Longrightarrow> rollouts_ok now rows"
  unfolding rollouts_ok_def using soaked_mono by blast

lemma moves_soaked:
  assumes "moves now a b" "kept b a" "soaked now a"
  shows "soaked now b" "ar_State b = RolloutPromoted \<longrightarrow> ar_State a = RolloutPromoted"
  using assms
proof (induction rule: moves.induct)
  case (mv_wait b a)
  { case 1 then show ?case using mv_wait pilot_over_kept [of b a] by (simp add: soaked_def same_pilot_def split: option.splits) }
  { case 2 then show ?case using mv_wait by simp }
next
  case (mv_begin a b)
  { case 1 then show ?case using mv_begin by (simp add: soaked_def split: option.splits) }
  { case 2 then show ?case using mv_begin by simp }
next
  case (mv_halt a b)
  { case 1 then show ?case using mv_halt by (auto simp: soaked_def same_pilot_def split: option.splits) }
  { case 2 then show ?case using mv_halt by simp }
next
  case (mv_pass a b)
  { case 1
    then have "pilot_over now b" "ar_PromotedAt b = None" using mv_pass pilot_over_kept [of b a] unfolding soaked_def same_pilot_def
      by (simp, cases "ar_PromotedAt a", simp_all)
    then show ?case using mv_pass by (simp add: soaked_def pilot_over_def split: option.splits) }
  { case 2 then show ?case using mv_pass by simp }
qed

lemma promoted_soaked:
  assumes "promoted_from now a b" "kept b a" "soaked now a" "may_promote svc now a db"
  shows "soaked now b"
proof -
  have "pilot_over now a"
  proof (cases "ar_State a = RolloutPilot")
    case True
    then show ?thesis using assms(4) unfolding may_promote_def if_P [OF True] by blast
  next
    case False
    then have "ar_State a = RolloutPromoting" using assms(4) unfolding may_promote_def if_not_P [OF False] by blast
    then show ?thesis using assms(3) unfolding soaked_def by blast
  qed
  then have "pilot_over now b" using assms(1) pilot_over_kept [OF assms(2)] by (simp add: promoted_from_def)
  then show ?thesis using assms(1) by (simp add: soaked_def promoted_from_def)
qed

lemma read_from_ok:
  assumes "rollouts_ok now rows" "read_from ro rows"
  shows "soaked now ro" "ar_State ro = RolloutPromoted \<Longrightarrow> q \<in> set rows \<Longrightarrow> ar_State q = RolloutPromoted \<Longrightarrow> ar_ID q = ar_ID ro"
proof -
  obtain q' where q': "q' \<in> set rows" "kept ro q'" "ar_State q' = ar_State ro" "ar_PilotAssignmentID q' = ar_PilotAssignmentID ro"
    "ar_PilotStartedAt q' = ar_PilotStartedAt ro" "ar_PromotedAt q' = ar_PromotedAt ro" "ar_ID q' = ar_ID ro"
    using assms(2) by (rule read_fromE)
  have "soaked now q'" using assms(1) q'(1) unfolding rollouts_ok_def by blast
  then show "soaked now ro" using q' pilot_over_kept [OF q'(2)] by (simp add: soaked_def split: option.splits)
  show "ar_State ro = RolloutPromoted \<Longrightarrow> q \<in> set rows \<Longrightarrow> ar_State q = RolloutPromoted \<Longrightarrow> ar_ID q = ar_ID ro"
    using assms(1) q'(1,3,7) unfolding rollouts_ok_def by metis
qed

lemma replace_ok:
  assumes ok: "rollouts_ok now rows" and ro: "read_from ro rows" and b: "kept b ro" "soaked now b"
    and p: "ar_State b = RolloutPromoted \<longrightarrow> ar_State ro = RolloutPromoted"
  shows "rollouts_ok now (replace b rows)"
proof -
  have in_rows: "q = b \<or> q \<in> set rows \<and> ar_ID q \<noteq> ar_ID ro" if "q \<in> set (replace b rows)" for q
    using in_replace that kept_id [OF b(1)] by metis
  have one: "q = q'" if "q \<in> set rows" "q' \<in> set rows" "ar_State q = RolloutPromoted" "ar_State q' = RolloutPromoted" for q q'
    using ok that unfolding rollouts_ok_def by blast
  have "q = q'" if "q \<in> set (replace b rows)" "q' \<in> set (replace b rows)" "ar_State q = RolloutPromoted" "ar_State q' = RolloutPromoted" for q q'
    using in_rows [OF that(1)] in_rows [OF that(2)] that(3,4) p one [of q q'] read_from_ok(2) [OF ok ro] by blast
  moreover have "soaked now q" if "q \<in> set (replace b rows)" for q
    using in_rows [OF that] b(2) ok unfolding rollouts_ok_def by blast
  ultimately show ?thesis using ok unfolding rollouts_ok_def by simp
qed

lemma moved_ok:
  assumes ok: "rollouts_ok now rows" and ro: "read_from ro rows" and m: "moved_on now ro rows rows'"
  shows "rollouts_ok now rows'"
proof -
  obtain b where b: "kept b ro" "moves now ro b" "rows' = replace b rows" using m by (auto simp: moved_on_def)
  then show ?thesis using replace_ok [OF ok ro b(1)] moves_soaked [OF b(2,1) read_from_ok(1) [OF ok ro]] by simp
qed

lemma retired_props:
  "ar_ID (retired ro now q) = ar_ID q" "soaked now q \<Longrightarrow> soaked now (retired ro now q)"
  "ar_State (retired ro now q) = RolloutPromoted \<Longrightarrow> ar_ID q = ar_ID ro"
  by (auto simp: retired_def soaked_def pilot_over_def promoteAt_def split: if_splits option.splits)

lemma took_over_ok:
  assumes ok: "rollouts_ok now rows" and ro: "read_from ro rows" and t: "took_over now ro rows rows'" "may_promote svc now ro db"
  shows "rollouts_ok now rows'"
proof -
  let ?mid = "map (retired ro now) rows"
  obtain b where b: "kept b ro" "promoted_from now ro b" "rows' = replace b ?mid" using t(1) by (auto simp: took_over_def)
  have "soaked now b" using promoted_soaked [OF b(2,1) read_from_ok(1) [OF ok ro] t(2)] .
  moreover have "map ar_ID ?mid = map ar_ID rows" by (simp add: comp_def retired_props(1))
  moreover have "q = b \<or> (\<exists>x \<in> set rows. q = retired ro now x) \<and> ar_ID q \<noteq> ar_ID ro" if "q \<in> set rows'" for q
    using in_replace [of q b ?mid] that b(3) kept_id [OF b(1)] by auto
  ultimately show ?thesis using ok b(3) retired_props unfolding rollouts_ok_def by (metis ids_replace)
qed

lemma steps_ok:
  assumes "rollouts_ok now (rd_rollouts db)" "read_from ro (rd_rollouts db)" "rollout_step svc fresh now ro db = (r, db')"
  shows "rollouts_ok now (rd_rollouts db')"
  using rollout_step_steps [OF assms(2) _ assms(3)] assms(1) moved_ok [OF assms(1,2)] took_over_ok [OF assms(1,2)]
  by (auto simp: steps_to_def rollouts_ok_def)

text \<open>A step leaves the rows of the other rollouts in progress as they were.\<close>

lemma step_others:
  assumes "rollouts_ok now (rd_rollouts db)" "read_from ro (rd_rollouts db)" "rollout_step svc fresh now ro db = (r, db')"
    and "q \<in> set (rd_rollouts db)" "ar_ID q \<noteq> ar_ID ro" "ar_State q \<noteq> RolloutPromoted"
  shows "q \<in> set (rd_rollouts db')"
proof -
  have stay: "q \<in> set (replace b (map f (rd_rollouts db)))" if "kept b ro" "f q = q" for b f
    using assms(4,5) kept_id [OF that(1)] that(2) unfolding replace_def by (force simp: image_iff)
  have "retired ro now q = q" using assms(6) by (simp add: retired_def)
  then have "q \<in> set (rd_rollouts db')" if "took_over now ro (rd_rollouts db) (rd_rollouts db')"
    using that stay unfolding took_over_def by force
  moreover have "q \<in> set (rd_rollouts db')" if "moved_on now ro (rd_rollouts db) (rd_rollouts db')"
    using that stay [of _ "\<lambda>x. x"] unfolding moved_on_def by force
  ultimately show ?thesis using rollout_step_steps [OF assms(2) _ assms(3)] assms(1) by (auto simp: steps_to_def rollouts_ok_def)
qed

text \<open>Going through the rollouts in progress, as \<open>Advance\<close> and \<open>Start\<close> do.\<close>

definition touches_one :: "go_time \<Rightarrow> (AgentRollout \<Rightarrow> rollout_db \<Rightarrow> rollout_db) \<Rightarrow> bool" where
  "touches_one now f \<longleftrightarrow> (\<forall>ro db. rollouts_ok now (rd_rollouts db) \<longrightarrow> read_from ro (rd_rollouts db)
       \<longrightarrow> ar_State ro \<in> {RolloutPilot, RolloutPromoting}
     \<longrightarrow> rollouts_ok now (rd_rollouts (f ro db)) \<and> (\<forall>q \<in> set (rd_rollouts db). ar_ID q \<noteq> ar_ID ro \<longrightarrow> ar_State q \<noteq> RolloutPromoted
           \<longrightarrow> q \<in> set (rd_rollouts (f ro db))))"

lemma touches_fold:
  assumes "touches_one now f" "rollouts_ok now (rd_rollouts db)" "set qs \<subseteq> set (rd_rollouts db)" "distinct (map ar_ID qs)"
    and "\<forall>q \<in> set qs. ar_State q \<in> {RolloutPilot, RolloutPromoting}"
  shows "rollouts_ok now (rd_rollouts (fold f qs db))"
  using assms
proof (induction qs arbitrary: db)
  case Nil
  then show ?case by simp
next
  case (Cons q qs)
  have one: "rollouts_ok now (rd_rollouts (f q db))" "\<forall>x \<in> set (rd_rollouts db). ar_ID x \<noteq> ar_ID q \<longrightarrow> ar_State x \<noteq> RolloutPromoted
      \<longrightarrow> x \<in> set (rd_rollouts (f q db))"
    using Cons.prems read_from_row [of q] unfolding touches_one_def by auto
  have "x \<in> set (rd_rollouts (f q db))" if "x \<in> set qs" for x
  proof -
    have "ar_ID x \<noteq> ar_ID q" using Cons.prems(4) that by (auto, metis imageI)
    moreover have "ar_State x \<noteq> RolloutPromoted" using Cons.prems(5) that by auto
    ultimately show ?thesis using one(2) Cons.prems(3) that by auto
  qed
  then show ?case using Cons.IH [of "f q db"] Cons.prems one(1) by auto
qed

lemma step_touches: "touches_one now (\<lambda>ro db. snd (rollout_step svc fresh now ro db))"
  unfolding touches_one_def using steps_ok step_others by (metis prod.collapse)

lemma supersede_touches: "touches_one now (\<lambda>ro. supersede ro v now)"
  unfolding touches_one_def
proof (intro allI impI conjI ballI)
  fix ro and db :: rollout_db assume a: "rollouts_ok now (rd_rollouts db)" "read_from ro (rd_rollouts db)" "ar_State ro \<in> {RolloutPilot, RolloutPromoting}"
  define b where "b = ro\<lparr>ar_PilotAssignmentID := None, ar_ExcludeAssignmentID := None, ar_PilotApprovalID := None, ar_FleetApprovalID := None,
                   ar_State := RolloutSuperseded, ar_Detail := ''replaced by '' @ v, ar_UpdatedAt := now\<rparr>"
  have "rd_rollouts (supersede ro v now db) = rd_rollouts (UpdateAgentRollout b db)"
    unfolding supersede_def Let_def b_def by (auto simp: UpdateAgentRollout_def split: option.split)
  then have rows: "rd_rollouts (supersede ro v now db) = replace b (rd_rollouts db)"
    using Update_replace [OF a(2), of b] a(1) by (simp add: rollouts_ok_def b_def)
  have "ar_PromotedAt ro = None" using read_from_ok(1) [OF a(1,2)] a(3) by (auto simp: soaked_def split: option.splits)
  then have "soaked now b" by (simp add: b_def soaked_def)
  then show "rollouts_ok now (rd_rollouts (supersede ro v now db))"
    unfolding rows by (intro replace_ok [OF a(1,2)]) (simp_all add: b_def)
  fix q assume "q \<in> set (rd_rollouts db)" "ar_ID q \<noteq> ar_ID ro"
  then show "q \<in> set (rd_rollouts (supersede ro v now db))" unfolding rows replace_def b_def by force
qed

lemma advance_db: "snd (fold (advance_one svc fresh now) qs acc) = fold (\<lambda>ro db. snd (rollout_step svc fresh now ro db)) qs (snd acc)"
proof (induction qs arbitrary: acc)
  case (Cons q qs)
  have "snd (advance_one svc fresh now q acc) = snd (rollout_step svc fresh now q (snd acc))"
    by (auto simp: advance_one_def split: prod.splits sum.splits)
  with Cons.IH show ?case by simp
qed simp

lemma Advance_ok:
  assumes "rollouts_ok now (rd_rollouts db)" "Advance svc fresh now db = (r, db')"
  shows "rollouts_ok now (rd_rollouts db')"
proof -
  let ?qs = "ListRolloutsInState [RolloutPilot, RolloutPromoting] db"
  have "db' = fold (\<lambda>ro db. snd (rollout_step svc fresh now ro db)) ?qs db"
    using assms(2) advance_db [of svc fresh now ?qs "((0, []), db)"] by (simp add: Advance_def)
  then show ?thesis using touches_fold [OF step_touches assms(1), of ?qs] in_state_distinct [of db "\<lambda>_. True"] assms(1)
    by (simp add: in_state rollouts_ok_def subset_iff)
qed

lemma Resume_ok:
  assumes "rollouts_ok now (rd_rollouts db)" "Resume svc fresh i actor now db = (r, db')"
  shows "rollouts_ok now (rd_rollouts db')"
proof (cases "\<exists>ro. GetAgentRollout i db = Some ro \<and> ar_State ro = RolloutHalted")
  case False
  then have "db' = db" using assms(2) by (auto simp: Resume_def split: option.splits if_splits)
  then show ?thesis using assms(1) by simp
next
  case True
  then obtain ro where ro: "GetAgentRollout i db = Some ro" "ar_State ro = RolloutHalted" by blast
  define ro1 where "ro1 = ro\<lparr>ar_State := RolloutPilot, ar_PilotApprovalID := None, ar_FleetApprovalID := None, ar_Detail := []\<rparr>"
  define db1 where "db1 = save ro1 actor ''agent_rollout.resumed'' now db"
  have mem: "read_from ro (rd_rollouts db)" using ro(1) find_SomeD read_from_row unfolding GetAgentRollout_def by metis
  have rows: "rd_rollouts db1 = replace (ro1\<lparr>ar_UpdatedAt := now\<rparr>) (rd_rollouts db)"
    using Update_replace [OF mem, of "ro1\<lparr>ar_UpdatedAt := now\<rparr>"] assms(1) by (simp add: db1_def save_def ro1_def rollouts_ok_def)
  have "soaked now ro" using read_from_ok(1) [OF assms(1) mem] .
  then have "soaked now (ro1\<lparr>ar_UpdatedAt := now\<rparr>)" using ro(2) by (auto simp: ro1_def soaked_def split: option.splits)
  then have ok: "rollouts_ok now (rd_rollouts db1)" unfolding rows by (intro replace_ok [OF assms(1) mem]) (simp_all add: ro1_def)
  have "ro \<in> set (rd_rollouts db)" using ro(1) find_SomeD unfolding GetAgentRollout_def by metis
  then have "ro1\<lparr>ar_UpdatedAt := now\<rparr> \<in> set (rd_rollouts db1)" unfolding rows by (rule replace_mem) (simp add: ro1_def)
  then have "read_from ro1 (rd_rollouts db1)" unfolding read_from_def by (rule bexI [rotated]) simp
  moreover obtain r2 where "rollout_step svc fresh now ro1 db1 = (r2, db')"
    using assms(2) ro by (auto simp: Resume_def Let_def ro1_def db1_def split: prod.splits sum.splits)
  ultimately show ?thesis using steps_ok [OF ok] by blast
qed

lemma distinct_one: "distinct xs \<Longrightarrow> (\<And>x y. x \<in> set xs \<Longrightarrow> y \<in> set xs \<Longrightarrow> x = y) \<Longrightarrow> length xs \<le> 1"
  by (metis One_nat_def List.finite_set card_le_Suc0_iff_eq distinct_card)

text \<open>The rollout \<open>Start\<close> makes, and the two ways it goes.\<close>

definition new_rollout :: "uuid \<Rightarrow> uuid \<Rightarrow> string \<Rightarrow> uuid \<Rightarrow> go_time \<Rightarrow> rollout_db \<Rightarrow> AgentRollout" where
  "new_rollout new_id build version pilot now db =
     \<lparr>ar_ID = new_id, ar_AgentVersionID = build, ar_State = RolloutPilot, ar_PilotGroupID = Some pilot,
      ar_DelayHours = py_DelayHours (rd_policy db), ar_PilotAssignmentID = None, ar_PilotApprovalID = None,
      ar_PilotStartedAt = None, ar_ExcludeAssignmentID = None, ar_FleetAssignmentID = None, ar_FleetApprovalID = None,
      ar_PromotedAt = None, ar_Detail = [], ar_CreatedAt = now, ar_UpdatedAt = now, ar_Version = version\<rparr>"

definition started_db :: "uuid \<Rightarrow> uuid \<Rightarrow> string \<Rightarrow> uuid \<Rightarrow> go_time \<Rightarrow> rollout_db \<Rightarrow> rollout_db" where
  "started_db new_id build version pilot now db =
     (let db2 = InsertAudit RolloutActor ''agent_rollout.started'' new_id
            (db\<lparr>rd_rollouts := rd_rollouts db @ [new_rollout new_id build version pilot now db]\<rparr>) in
      fold (\<lambda>old. supersede old version now)
        (filter (\<lambda>old. ar_ID old \<noteq> new_id) (ListRolloutsInState [RolloutPilot, RolloutPromoting] db2)) db2)"

lemma Start_cases:
  assumes "Start_rollout svc fresh new_id build version now db = (r, db')"
  obtains (off) "db' = db" "r = None"
  | (on) pilot where "py_PilotGroupID (rd_policy db) = Some pilot" "py_Enabled (rd_policy db)"
      "\<forall>old \<in> set (rd_rollouts db). ar_State old = RolloutPromoted \<longrightarrow> Newer version (ar_Version old)"
      "build \<notin> ar_AgentVersionID ` set (rd_rollouts db)"
      "GetAgentRollout new_id (started_db new_id build version pilot now db) = None \<Longrightarrow> db' = started_db new_id build version pilot now db"
      "\<And>ro. GetAgentRollout new_id (started_db new_id build version pilot now db) = Some ro
         \<Longrightarrow> db' = snd (rollout_step svc fresh now ro (started_db new_id build version pilot now db))"
proof (cases "py_PilotGroupID (rd_policy db)")
  case None
  then show ?thesis using assms by (intro off) (auto simp: Start_rollout_def)
next
  case (Some pilot)
  let ?new = "\<forall>old \<in> set (rd_rollouts db). ar_State old = RolloutPromoted \<longrightarrow> Newer version (ar_Version old)"
  let ?known = "list_ex (\<lambda>q. ar_AgentVersionID q = build) (rd_rollouts db)"
  have new: "list_all (\<lambda>old. Newer version (ar_Version old)) (ListRolloutsInState [RolloutPromoted] db) \<longleftrightarrow> ?new"
    by (auto simp: list_all_iff in_state)
  show ?thesis
  proof (cases "py_Enabled (rd_policy db) \<and> ?new \<and> \<not> ?known")
    case False
    then show ?thesis using assms Some
      by (intro off) (auto simp: Start_rollout_def new CreateAgentRollout_def Let_def split: if_splits)
  next
    case True
    let ?db3 = "started_db new_id build version pilot now db"
    have go: "Start_rollout svc fresh new_id build version now db = (case GetAgentRollout new_id ?db3 of None \<Rightarrow> (Some ''not found'', ?db3)
        | Some started \<Rightarrow> (case rollout_step svc fresh now started ?db3 of (Inl e, db4) \<Rightarrow> (Some e, db4) | (Inr _, db4) \<Rightarrow> (None, db4)))"
      using True unfolding Start_rollout_def Some option.case new CreateAgentRollout_def Let_def started_db_def new_rollout_def by simp
    show ?thesis
    proof (rule on [OF Some])
      show "py_Enabled (rd_policy db)" ?new "build \<notin> ar_AgentVersionID ` set (rd_rollouts db)" using True by (auto simp: list_ex_iff)
      show "GetAgentRollout new_id ?db3 = None \<Longrightarrow> db' = ?db3" using assms go by simp
      show "\<And>ro. GetAgentRollout new_id ?db3 = Some ro \<Longrightarrow> db' = snd (rollout_step svc fresh now ro ?db3)"
        using assms go by (auto split: prod.splits sum.splits)
    qed
  qed
qed

lemma Start_ok:
  assumes "rollouts_ok now (rd_rollouts db)" "new_id \<notin> ar_ID ` set (rd_rollouts db)"
    and "Start_rollout svc fresh new_id build version now db = (r, db')"
  shows "rollouts_ok now (rd_rollouts db')"
  using assms(3)
proof (cases rule: Start_cases)
  case off
  then show ?thesis using assms(1) by simp
next
  case (on pilot)
  let ?db3 = "started_db new_id build version pilot now db"
  let ?db2 = "InsertAudit RolloutActor ''agent_rollout.started'' new_id
            (db\<lparr>rd_rollouts := rd_rollouts db @ [new_rollout new_id build version pilot now db]\<rparr>)"
  let ?qs = "filter (\<lambda>old. ar_ID old \<noteq> new_id) (ListRolloutsInState [RolloutPilot, RolloutPromoting] ?db2)"
  have "rollouts_ok now (rd_rollouts ?db2)"
    using assms(1,2) by (auto simp: rollouts_ok_def soaked_def new_rollout_def)
  then have ok: "rollouts_ok now (rd_rollouts ?db3)" unfolding started_db_def Let_def
    using in_state_distinct [of ?db2 "\<lambda>old. ar_ID old \<noteq> new_id"]
    by (intro touches_fold [OF supersede_touches]) (auto simp: in_state rollouts_ok_def)
  show ?thesis
  proof (cases "GetAgentRollout new_id ?db3")
    case None
    then show ?thesis using on(5) ok by simp
  next
    case (Some ro)
    then have "read_from ro (rd_rollouts ?db3)" using find_SomeD read_from_row unfolding GetAgentRollout_def by metis
    then show ?thesis using steps_ok [OF ok] on(6) [OF Some] by (metis prod.collapse)
  qed
qed

text \<open>
  The system: the operations at instants that never go back, and between them whatever else happens to the tables -
  devices report, approvals are decided, assignments, groups and the policy change - with the rollouts only losing the
  reference to a pilot group that is deleted, or going with a build that is.
\<close>

inductive rollout_run :: "rollout_service \<Rightarrow> go_time \<times> rollout_db \<Rightarrow> go_time \<times> rollout_db \<Rightarrow> bool" for svc where
  ru_start: "clock \<le> now \<Longrightarrow> new_id \<notin> ar_ID ` set (rd_rollouts db) \<Longrightarrow> Start_rollout svc fresh new_id build version now db = (r, db')
    \<Longrightarrow> rollout_run svc (clock, db) (now, db')"
| ru_advance: "clock \<le> now \<Longrightarrow> Advance svc fresh now db = (r', db') \<Longrightarrow> rollout_run svc (clock, db) (now, db')"
| ru_resume: "clock \<le> now \<Longrightarrow> Resume svc fresh i actor now db = (r, db') \<Longrightarrow> rollout_run svc (clock, db) (now, db')"
| ru_world: "rd_rollouts db' = rd_rollouts db \<Longrightarrow> rollout_run svc (clock, db) (clock, db')"
| ru_group_gone: "rd_rollouts db' = map (\<lambda>q. if ar_PilotGroupID q = Some g then q\<lparr>ar_PilotGroupID := None\<rparr> else q) (rd_rollouts db)
    \<Longrightarrow> rollout_run svc (clock, db) (clock, db')"
| ru_build_gone: "rd_rollouts db' = filter (\<lambda>q. ar_AgentVersionID q \<noteq> build) (rd_rollouts db) \<Longrightarrow> rollout_run svc (clock, db) (clock, db')"

lemma run_ok: "rollout_run svc x y \<Longrightarrow> rollouts_ok (fst x) (rd_rollouts (snd x)) \<Longrightarrow> rollouts_ok (fst y) (rd_rollouts (snd y))"
proof (induction rule: rollout_run.induct)
  case (ru_start clock now new_id db fresh build version r db')
  then show ?case using Start_ok rollouts_mono by (metis fst_conv snd_conv)
next
  case (ru_advance clock now fresh db r' db')
  then show ?case using Advance_ok rollouts_mono by (metis fst_conv snd_conv)
next
  case (ru_resume clock now fresh i actor db r db')
  then show ?case using Resume_ok rollouts_mono by (metis fst_conv snd_conv)
next
  case (ru_world db' db clock)
  then show ?case by simp
next
  case (ru_group_gone db' g db clock)
  let ?f = "\<lambda>q. if ar_PilotGroupID q = Some g then q\<lparr>ar_PilotGroupID := None\<rparr> else q"
  have f: "ar_ID (?f q) = ar_ID q" "ar_State (?f q) = ar_State q" "soaked clock (?f q) = soaked clock q" for q
    by (simp_all add: soaked_def pilot_over_def promoteAt_def split: option.split)
  have "map ar_ID (map ?f (rd_rollouts db)) = map ar_ID (rd_rollouts db)" using f(1) by (simp add: comp_def)
  with ru_group_gone f show ?case unfolding rollouts_ok_def snd_conv fst_conv by (auto simp only: set_map)
next
  case (ru_build_gone db' build db clock)
  then show ?case by (auto simp: rollouts_ok_def distinct_map_filter)
qed

lemma soaked_promoted:
  assumes "soaked clock q" "ar_State q = RolloutPromoted"
  shows "\<exists>began reached. ar_PilotStartedAt q = Some began \<and> ar_PromotedAt q = Some reached \<and> promoteAt q began \<le> reached \<and> reached \<le> clock"
proof -
  obtain reached where "ar_PromotedAt q = Some reached" "reached \<le> clock" "pilot_over reached q"
    using assms unfolding soaked_def by (cases "ar_PromotedAt q") simp_all
  then show ?thesis unfolding pilot_over_def by (cases "ar_PilotStartedAt q") simp_all
qed

interpretation rolling: state_machine "rollout_run svc" "\<lambda>x. rd_rollouts (snd x) = []" "\<lambda>x. rollouts_ok (fst x) (rd_rollouts (snd x))" for svc
proof unfold_locales
  show "rollouts_ok (fst x) (rd_rollouts (snd x))" if "rd_rollouts (snd x) = []" for x :: "go_time \<times> rollout_db"
    using that by (simp add: rollouts_ok_def)
qed (rule run_ok)

text \<open>
  C12. A build reaches every device only after its pilot. In every state reached from one without rollouts, whatever devices
  report, administrators decide and groups become: a build promoted to All devices had a pilot that began, and was
  promoted no earlier than the delay after that; at most one build is promoted at a time; and a pilot that is
  assigned has the time it began, so that reading it never fails.
\<close>

theorem rollout_soaks:
  assumes "(rollout_run svc)\<^sup>*\<^sup>* (clock0, db0) (clock, db)" "rd_rollouts db0 = []"
  shows "(\<forall>q \<in> set (rd_rollouts db). ar_State q = RolloutPromoted \<longrightarrow>
      (\<exists>began reached. ar_PilotStartedAt q = Some began \<and> ar_PromotedAt q = Some reached
         \<and> promoteAt q began \<le> reached \<and> reached \<le> clock))
    \<and> length (filter (\<lambda>q. ar_State q = RolloutPromoted) (rd_rollouts db)) \<le> 1
    \<and> (\<forall>q \<in> set (rd_rollouts db). ar_PilotAssignmentID q \<noteq> None \<longrightarrow> ar_PilotStartedAt q \<noteq> None)"
proof -
  have ok: "rollouts_ok clock (rd_rollouts db)" using rolling.reached [OF assms(1)] assms(2) by simp
  have "distinct (filter (\<lambda>q. ar_State q = RolloutPromoted) (rd_rollouts db))"
    using ok by (auto simp: rollouts_ok_def distinct_map)
  moreover have "q = q'" if "q \<in> set (filter (\<lambda>q. ar_State q = RolloutPromoted) (rd_rollouts db))"
    "q' \<in> set (filter (\<lambda>q. ar_State q = RolloutPromoted) (rd_rollouts db))" for q q'
    using ok that unfolding rollouts_ok_def by auto
  ultimately have "length (filter (\<lambda>q. ar_State q = RolloutPromoted) (rd_rollouts db)) \<le> 1" by (rule distinct_one)
  moreover have "\<forall>q \<in> set (rd_rollouts db). ar_State q = RolloutPromoted \<longrightarrow>
      (\<exists>began reached. ar_PilotStartedAt q = Some began \<and> ar_PromotedAt q = Some reached \<and> promoteAt q began \<le> reached \<and> reached \<le> clock)"
    using ok soaked_promoted unfolding rollouts_ok_def by blast
  moreover have "\<forall>q \<in> set (rd_rollouts db). ar_PilotAssignmentID q \<noteq> None \<longrightarrow> ar_PilotStartedAt q \<noteq> None"
    using ok unfolding rollouts_ok_def soaked_def by blast
  ultimately show ?thesis by blast
qed

text \<open>A rollout from its start to promotion, for the witnesses: \<open>A\<close> was promoted before, \<open>B\<close> is new, group \<open>g\<close> is the pilot.\<close>

definition rw_service :: rollout_service where
  "rw_service = \<lparr>sv_ApprovalsRequired = False, sv_ApprovalThreshold = 0, sv_uuid_String = id\<rparr>"

definition rw_fresh :: "uuid \<Rightarrow> uuid \<times> uuid" where "rw_fresh i = (i @ ''x'', i @ ''i'')"

definition rw_empty :: rollout_db where
  "rw_empty = \<lparr>rd_policy = \<lparr>py_Enabled = True, py_PilotGroupID = Some ''g'', py_DelayHours = 1\<rparr>, rd_rollouts = [], rd_assignments = [],
     rd_approvals = [], rd_groups = [(''g'', GroupStatic)], rd_members = [(''g'', ''d1''), (BuiltinGroupID, ''d1''), (BuiltinGroupID, ''d2'')],
     rd_status = [\<lparr>dr_device = ''d1'', dr_hostname = ''h'', dr_item = ''A'', dr_status = ItemSucceeded, dr_detail = []\<rparr>], rd_audit = []\<rparr>"

definition rw_piloted :: rollout_db where
  "rw_piloted = snd (Start_rollout rw_service rw_fresh ''1'' ''A'' ''1.0.0'' 0 rw_empty)"

definition rw_promoted :: rollout_db where
  "rw_promoted = snd (Advance rw_service rw_fresh (2 * hour) rw_piloted)"

lemma rw_states: "map ar_State (rd_rollouts rw_piloted) = [RolloutPilot]" "map ar_State (rd_rollouts rw_promoted) = [RolloutPromoted]"
  by code_simp+

theorem rollout_soaks_witness:
  "\<exists>q \<in> set (rd_rollouts rw_promoted). \<exists>began reached. ar_PilotStartedAt q = Some began \<and> ar_PromotedAt q = Some reached
     \<and> promoteAt q began \<le> reached"
proof -
  have "rollout_run rw_service (0, rw_empty) (0, rw_piloted)"
    using ru_start [of 0 0 "''1''" rw_empty rw_service rw_fresh "''A''" "''1.0.0''"
        "fst (Start_rollout rw_service rw_fresh ''1'' ''A'' ''1.0.0'' 0 rw_empty)" rw_piloted]
    by (simp add: rw_piloted_def rw_empty_def)
  moreover have "rollout_run rw_service (0, rw_piloted) (2 * hour, rw_promoted)"
    using ru_advance [of 0 "2 * hour" rw_service rw_fresh rw_piloted "fst (Advance rw_service rw_fresh (2 * hour) rw_piloted)" rw_promoted]
    by (simp add: rw_promoted_def hour_def)
  ultimately have run: "(rollout_run rw_service)\<^sup>*\<^sup>* (0, rw_empty) (2 * hour, rw_promoted)" by simp
  have "rd_rollouts rw_empty = []" by (simp add: rw_empty_def)
  from rollout_soaks [OF run this] rw_states(2) show ?thesis
    by (cases "rd_rollouts rw_promoted") auto
qed

theorem rollout_step_moves_witness:
  "\<exists>ro r. rd_rollouts rw_piloted = [ro] \<and> rollout_step rw_service rw_fresh (2 * hour) ro rw_piloted = (r, rw_promoted)
    \<and> took_over (2 * hour) ro (rd_rollouts rw_piloted) (rd_rollouts rw_promoted) \<and> may_promote rw_service (2 * hour) ro rw_piloted"
proof -
  obtain ro where ro: "rd_rollouts rw_piloted = [ro]" "ar_State ro = RolloutPilot"
    using rw_states(1) by (cases "rd_rollouts rw_piloted") auto
  obtain r db' where step: "rollout_step rw_service rw_fresh (2 * hour) ro rw_piloted = (r, db')" by fastforce
  have "ListRolloutsInState [RolloutPilot, RolloutPromoting] rw_piloted = [ro]" using ro by (simp add: ListRolloutsInState_def)
  then have db': "db' = rw_promoted" using step by (simp add: rw_promoted_def Advance_def advance_one_def split: sum.split)
  have "\<not> moved_on (2 * hour) ro (rd_rollouts rw_piloted) (rd_rollouts rw_promoted)"
  proof
    assume "moved_on (2 * hour) ro (rd_rollouts rw_piloted) (rd_rollouts rw_promoted)"
    then obtain b where b: "kept b ro" "moves (2 * hour) ro b" "rd_rollouts rw_promoted = replace b [ro]" unfolding moved_on_def ro by blast
    then have "ar_State b = RolloutPromoted" using rw_states(2) kept_id [OF b(1)] by (simp add: replace_def)
    with b(2) ro(2) show False by (cases rule: moves.cases) auto
  qed
  then show ?thesis using rollout_step_moves [OF _ _ step] ro step db' by (simp add: read_from_row)
qed

end
