(* ===== verification/Agent_Offer.thy ===== *)
theory Agent_Offer
  imports Agent_Rollout_Safety
begin

text \<open>
  Which agent builds a device is offered while rollouts run (\<^verbatim>\<open>releasefeed/rollout.go\<close> with
  \<^verbatim>\<open>EffectiveItems\<close> of \<^verbatim>\<open>store/groups.go\<close>). The rows of the assignments a rollout owns are compared with
  a plan - the build the fleet is on, and the build and group of the pilot - and every operation of
  the rollout carries a database that follows one plan to a database that follows the next, where two-person
  approval is off. The lemmas at the end are about histories in which the plan is left.
\<close>

section \<open>The rows of agent builds\<close>

type_synonym offer_row = "uuid \<times> uuid \<times> uuid \<times> string"

definition row_of :: "assignment \<Rightarrow> offer_row" where
  "row_of a = (as_id a, as_item a, as_group a, as_mode a)"

definition is_agent :: "assignment \<Rightarrow> bool" where
  "is_agent a \<longleftrightarrow> as_kind a = ItemKindAgent"

definition agent_rows :: "rollout_db \<Rightarrow> offer_row set" where
  "agent_rows db = set (map row_of (filter is_agent (rd_assignments db)))"

definition unphased :: "rollout_db \<Rightarrow> bool" where
  "unphased db \<longleftrightarrow> (\<forall>a \<in> set (rd_assignments db). is_agent a \<longrightarrow> \<not> Phased (as_rollout a))"

definition offered :: "rollout_db \<Rightarrow> uuid \<Rightarrow> go_time \<Rightarrow> uuid set" where
  "offered db device now = {b. (ItemKindAgent, b) \<in> item_key ` set (EffectiveItems (rd_members db) (rd_assignments db) device now)}"

lemma offered_iff:
  assumes "unphased db"
  shows "b \<in> offered db device now \<longleftrightarrow>
    (\<exists>i g. (i, b, g, ModeInclude) \<in> agent_rows db \<and> (g, device) \<in> set (rd_members db))
    \<and> \<not> (\<exists>i g. (i, b, g, ModeExclude) \<in> agent_rows db \<and> (g, device) \<in> set (rd_members db))"
proof -
  let ?tbl = "rd_assignments db" and ?in = "\<lambda>a. (as_group a, device) \<in> set (rd_members db)"
  have full: "admits device now a" if "a \<in> set ?tbl" "is_agent a" for a
    using assms that by (simp add: unphased_def admits_def Current_def RolloutAdmits_def)
  have row: "(\<exists>i g. (i, b, g, mode) \<in> agent_rows db \<and> (g, device) \<in> set (rd_members db))
      \<longleftrightarrow> (\<exists>a \<in> set ?tbl. is_agent a \<and> as_item a = b \<and> as_mode a = mode \<and> ?in a)" for mode
    unfolding agent_rows_def row_of_def by auto
  have "b \<in> offered db device now \<longleftrightarrow> \<not> (\<exists>x \<in> set ?tbl. is_agent x \<and> as_item x = b \<and> as_mode x = ModeExclude \<and> ?in x)
      \<and> (\<exists>a \<in> set ?tbl. is_agent a \<and> as_item a = b \<and> as_mode a = ModeInclude \<and> ?in a \<and> admits device now a)"
    unfolding offered_def mem_Collect_eq EffectiveItems_keys excluded_def list_ex_iff reaches_def is_agent_def prod.inject by blast
  then show ?thesis unfolding row using full by blast
qed

lemma assignments_frame [simp]:
  "rd_assignments (InsertAudit actor action target db) = rd_assignments db"
  "rd_assignments (UpdateAgentRollout r db) = rd_assignments db"
  "rd_assignments (save r actor action now db) = rd_assignments db"
  "rd_assignments (snd (wait r detail now db)) = rd_assignments db"
  by (simp_all add: InsertAudit_def UpdateAgentRollout_def save_def wait_def Let_def)

lemma agent_rows_cong: "rd_assignments db' = rd_assignments db \<Longrightarrow> agent_rows db' = agent_rows db \<and> unphased db' = unphased db"
  by (simp add: agent_rows_def unphased_def)

lemma rows_remove:
  "agent_rows (removeAssignment i db) = {r \<in> agent_rows db. Some (fst r) \<noteq> i}" "unphased db \<Longrightarrow> unphased (removeAssignment i db)"
proof -
  have tbl: "rd_assignments (removeAssignment i db) = filter (\<lambda>a. Some (as_id a) \<noteq> i) (rd_assignments db)"
    by (cases i) (simp_all add: removeAssignment_def DeleteAssignment_def InsertAudit_def)
  show "agent_rows (removeAssignment i db) = {r \<in> agent_rows db. Some (fst r) \<noteq> i}"
    unfolding agent_rows_def tbl row_of_def by auto
  show "unphased (removeAssignment i db)" if "unphased db"
    using that unfolding unphased_def tbl by simp
qed

lemma rows_save:
  assumes "\<forall>k. (k, item, g, mode) \<notin> agent_rows db" "as_id a = i" "as_kind a = ItemKindAgent" "as_item a = item" "as_group a = g"
    "as_mode a = mode" "as_rollout a = zero_rollout" "unphased db"
  shows "fst (saveAssignment a db) = i" "agent_rows (snd (saveAssignment a db)) = insert (i, item, g, mode) (agent_rows db)"
    "unphased (snd (saveAssignment a db))"
proof -
  have "find (same_triple a) (rd_assignments db) = None"
  proof -
    have "\<not> same_triple a x" if "x \<in> set (rd_assignments db)" for x
    proof
      assume t: "same_triple a x"
      then have "row_of x \<in> agent_rows db" using that assms(3) unfolding agent_rows_def is_agent_def same_triple_def by simp
      then show False using assms(1,4-6) t unfolding row_of_def same_triple_def by metis
    qed
    then show ?thesis by (simp add: find_None_iff)
  qed
  then have c: "CreateAssignment a (rd_assignments db) = (i, rd_assignments db @ [a\<lparr>as_options := Some (case as_options a of None \<Rightarrow> ''{}'' | Some opts \<Rightarrow> opts),
      as_rollout := (as_rollout a)\<lparr>ro_percent := rolloutPercent (as_rollout a)\<rparr>\<rparr>])"
    using assms(2) by (simp add: CreateAssignment_def Let_def)
  show "fst (saveAssignment a db) = i" by (simp add: saveAssignment_def c)
  show "agent_rows (snd (saveAssignment a db)) = insert (i, item, g, mode) (agent_rows db)"
    using assms(2-6) by (simp add: saveAssignment_def c agent_rows_def row_of_def is_agent_def)
  show "unphased (snd (saveAssignment a db))"
    using assms(7,8) by (simp add: saveAssignment_def c unphased_def Phased_def rolloutPercent_def)
qed

section \<open>The plan\<close>

text \<open>The fleet's rollout and the pilot's: the rows they own.\<close>

definition plan_rows :: "AgentRollout option \<Rightarrow> AgentRollout option \<Rightarrow> offer_row set" where
  "plan_rows p h =
     (case p of None \<Rightarrow> {} | Some q \<Rightarrow> {(the (ar_FleetAssignmentID q), ar_AgentVersionID q, BuiltinGroupID, ModeInclude)})
   \<union> (case h of None \<Rightarrow> {} | Some r \<Rightarrow>
        {(the (ar_PilotAssignmentID r), ar_AgentVersionID r, the (ar_PilotGroupID r), ModeInclude)}
      \<union> (case p of None \<Rightarrow> {} | Some q \<Rightarrow>
           {(the (ar_ExcludeAssignmentID r), ar_AgentVersionID q, the (ar_PilotGroupID r), ModeExclude)}))"

definition fleet_ok :: "AgentRollout \<Rightarrow> bool" where
  "fleet_ok q \<longleftrightarrow> ar_State q = RolloutPromoted \<and> ar_FleetAssignmentID q \<noteq> None \<and> ar_PilotAssignmentID q = None \<and> ar_ExcludeAssignmentID q = None"

definition pilot_ok :: "bool \<Rightarrow> AgentRollout \<Rightarrow> bool" where
  "pilot_ok fleet r \<longleftrightarrow> ar_State r \<in> {RolloutPilot, RolloutHalted} \<and> ar_PilotAssignmentID r \<noteq> None \<and> ar_PilotGroupID r \<noteq> None
     \<and> ar_PilotGroupID r \<noteq> Some BuiltinGroupID \<and> ar_FleetAssignmentID r = None \<and> (ar_ExcludeAssignmentID r \<noteq> None \<longleftrightarrow> fleet)"

definition rows_follow :: "AgentRollout list \<Rightarrow> AgentRollout option \<Rightarrow> AgentRollout option \<Rightarrow> bool" where
  "rows_follow rows p h \<longleftrightarrow> distinct (map ar_ID rows) \<and> distinct (map ar_AgentVersionID rows)
     \<and> {q \<in> set rows. ar_State q = RolloutPromoted} = set_option p \<and> {q \<in> set rows. ar_State q \<notin> {RolloutPromoted, RolloutSuperseded}} = set_option h
     \<and> pred_option fleet_ok p"

definition follows :: "rollout_db \<Rightarrow> AgentRollout option \<Rightarrow> AgentRollout option \<Rightarrow> bool" where
  "follows db p h \<longleftrightarrow> rows_follow (rd_rollouts db) p h \<and> pred_option (pilot_ok (p \<noteq> None)) h
     \<and> agent_rows db = plan_rows p h \<and> inj_on fst (plan_rows p h) \<and> unphased db"

text \<open>What a plan offers.\<close>

definition planned :: "rollout_db \<Rightarrow> AgentRollout option \<Rightarrow> AgentRollout option \<Rightarrow> uuid \<Rightarrow> uuid set" where
  "planned db p h device =
     (case h of
        Some r \<Rightarrow> if (the (ar_PilotGroupID r), device) \<in> set (rd_members db) then {ar_AgentVersionID r}
          else (case p of Some q \<Rightarrow> if (BuiltinGroupID, device) \<in> set (rd_members db) then {ar_AgentVersionID q} else {} | None \<Rightarrow> {})
      | None \<Rightarrow> (case p of Some q \<Rightarrow> if (BuiltinGroupID, device) \<in> set (rd_members db) then {ar_AgentVersionID q} else {} | None \<Rightarrow> {}))"

lemma find_unique:
  assumes "x \<in> set xs" "P x" "\<And>y. y \<in> set xs \<Longrightarrow> P y \<Longrightarrow> y = x"
  shows "find P xs = Some x"
proof (cases "find P xs")
  case None
  then show ?thesis using assms(1,2) unfolding find_None_iff by blast
next
  case (Some y)
  then show ?thesis using assms(3) find_SomeD [OF Some] by blast
qed

lemma one_row:
  assumes "distinct xs" "set xs = set_option p"
  shows "xs = (case p of None \<Rightarrow> [] | Some q \<Rightarrow> [q])"
proof (cases p)
  case (Some q)
  then obtain ys where "xs = q # ys" using assms by (cases xs) auto
  then show ?thesis using assms Some by (cases ys) auto
qed (use assms in simp)

lemma rows_followD:
  assumes "rows_follow rows p h"
  shows "p = Some q \<Longrightarrow> q \<in> set rows \<and> ar_State q = RolloutPromoted \<and> fleet_ok q"
    and "h = Some r \<Longrightarrow> r \<in> set rows \<and> ar_State r \<noteq> RolloutPromoted \<and> ar_State r \<noteq> RolloutSuperseded"
    and "x \<in> set rows \<Longrightarrow> ar_State x = RolloutPromoted \<Longrightarrow> p = Some x"
    and "x \<in> set rows \<Longrightarrow> ar_State x \<noteq> RolloutPromoted \<Longrightarrow> ar_State x \<noteq> RolloutSuperseded \<Longrightarrow> h = Some x"
    and "distinct (map ar_ID rows)" "distinct (map ar_AgentVersionID rows)"
proof -
  have p: "{q \<in> set rows. ar_State q = RolloutPromoted} = set_option p"
    and h: "{q \<in> set rows. ar_State q \<notin> {RolloutPromoted, RolloutSuperseded}} = set_option h"
    and rest: "distinct (map ar_ID rows)" "distinct (map ar_AgentVersionID rows)" "pred_option fleet_ok p"
    using assms unfolding rows_follow_def by blast+
  show "distinct (map ar_ID rows)" "distinct (map ar_AgentVersionID rows)" using rest by blast+
  show "q \<in> set rows \<and> ar_State q = RolloutPromoted \<and> fleet_ok q" if "p = Some q"
  proof -
    have "q \<in> {q \<in> set rows. ar_State q = RolloutPromoted}" unfolding p that by (simp only: option.set insertI1)
    then show ?thesis using rest(3) that by (simp only: mem_Collect_eq option.pred_inject)
  qed
  show "r \<in> set rows \<and> ar_State r \<noteq> RolloutPromoted \<and> ar_State r \<noteq> RolloutSuperseded" if "h = Some r"
  proof -
    have "r \<in> {q \<in> set rows. ar_State q \<notin> {RolloutPromoted, RolloutSuperseded}}" unfolding h that by (simp only: option.set insertI1)
    then show ?thesis by blast
  qed
  show "p = Some x" if "x \<in> set rows" "ar_State x = RolloutPromoted"
  proof -
    have "x \<in> set_option p" unfolding p [symmetric] using that by blast
    then show ?thesis by (simp only: elem_set)
  qed
  show "h = Some x" if "x \<in> set rows" "ar_State x \<noteq> RolloutPromoted" "ar_State x \<noteq> RolloutSuperseded"
  proof -
    have "x \<in> set_option h" unfolding h [symmetric] using that by blast
    then show ?thesis by (simp only: elem_set)
  qed
qed

lemma builds_differ:
  assumes "rows_follow rows (Some q) (Some r)"
  shows "ar_AgentVersionID q \<noteq> ar_AgentVersionID r"
proof
  assume eq: "ar_AgentVersionID q = ar_AgentVersionID r"
  have "q \<in> set rows" "r \<in> set rows" "inj_on ar_AgentVersionID (set rows)"
    using rows_followD(1,2,6) [OF assms] by (blast, blast, simp add: distinct_map)
  then have "q = r" using eq by (simp add: inj_on_def)
  then show False using rows_followD(1,2) [OF assms] by blast
qed

lemma offered_planned:
  assumes "follows db p h"
  shows "offered db device now = planned db p h device"
proof -
  have rows: "agent_rows db = plan_rows p h" "unphased db" using assms by (simp_all add: follows_def)
  show ?thesis
  proof (cases h)
    case None
    then show ?thesis unfolding set_eq_iff offered_iff [OF rows(2)] rows(1)
      by (cases p) (auto simp: plan_rows_def planned_def)
  next
    case (Some r)
    then have "ar_AgentVersionID q \<noteq> ar_AgentVersionID r" if "p = Some q" for q
      using assms builds_differ that by (auto simp: follows_def)
    then show ?thesis unfolding set_eq_iff offered_iff [OF rows(2)] rows(1) Some
      by (cases p) (auto simp: plan_rows_def planned_def)
  qed
qed

section \<open>The operations follow a plan\<close>

text \<open>The pilot's rollout changes but for what the plan is made of.\<close>

definition same_rows :: "AgentRollout \<Rightarrow> AgentRollout \<Rightarrow> bool" where
  "same_rows b r \<longleftrightarrow> kept b r \<and> ar_PilotAssignmentID b = ar_PilotAssignmentID r \<and> ar_ExcludeAssignmentID b = ar_ExcludeAssignmentID r
     \<and> ar_FleetAssignmentID b = ar_FleetAssignmentID r"

lemma set_replace:
  assumes "r \<in> set rows" "distinct (map ar_ID rows)" "ar_ID b = ar_ID r"
  shows "set (replace b rows) = insert b (set rows - {r})"
proof -
  have "x = r" if "x \<in> set rows" "ar_ID x = ar_ID r" for x using assms that by (simp add: distinct_map inj_on_def)
  then show ?thesis using assms(1,3) by (auto simp: replace_def)
qed

lemma builds_replace:
  assumes "r \<in> set rows" "distinct (map ar_ID rows)" "kept b r"
  shows "map ar_AgentVersionID (replace b rows) = map ar_AgentVersionID rows"
proof -
  have "x = r" if "x \<in> set rows" "ar_ID x = ar_ID r" for x using assms that by (simp add: distinct_map inj_on_def)
  then show ?thesis using assms(3) by (auto simp: replace_def kept_def)
qed

lemma rows_follow_update:
  assumes "rows_follow rows p (Some r)" "kept b r" "ar_State b \<noteq> RolloutPromoted" "ar_State b \<noteq> RolloutSuperseded"
  shows "rows_follow (replace b rows) p (Some b)"
proof -
  note r = rows_followD(2) [OF assms(1) refl]
  have s: "set (replace b rows) = insert b (set rows - {r})"
    using r rows_followD(5) [OF assms(1)] kept_id [OF assms(2)] by (intro set_replace) blast+
  have "{q \<in> set (replace b rows). ar_State q = RolloutPromoted} = {q \<in> set rows. ar_State q = RolloutPromoted}"
    unfolding s using assms(3) r by blast
  moreover have "{q \<in> set (replace b rows). ar_State q \<notin> {RolloutPromoted, RolloutSuperseded}} = {b}"
    unfolding s using assms(3,4) rows_followD(4) [OF assms(1)] by blast
  moreover have "map ar_AgentVersionID (replace b rows) = map ar_AgentVersionID rows"
    using r rows_followD(5) [OF assms(1)] assms(2) by (intro builds_replace) blast+
  ultimately show ?thesis using assms(1) unfolding rows_follow_def ids_replace by (simp only: option.set)
qed

lemma follows_update:
  assumes "follows db p (Some r)" "same_rows b r" "ar_State b \<in> {RolloutPilot, RolloutHalted}"
    and "rd_rollouts db' = replace b (rd_rollouts db)" "rd_assignments db' = rd_assignments db"
  shows "follows db' p (Some b)"
proof -
  have f: "rows_follow (rd_rollouts db) p (Some r)" "pilot_ok (p \<noteq> None) r" "agent_rows db = plan_rows p (Some r)"
    "inj_on fst (plan_rows p (Some r))" "unphased db" using assms(1) by (simp_all add: follows_def)
  have "plan_rows p (Some b) = plan_rows p (Some r)" using assms(2) by (cases p) (simp_all add: plan_rows_def same_rows_def kept_def)
  moreover have "pilot_ok (p \<noteq> None) b" using f(2) assms(2,3) unfolding pilot_ok_def same_rows_def kept_def by metis
  moreover have "rows_follow (replace b (rd_rollouts db)) p (Some b)"
    using assms(2,3) by (intro rows_follow_update [OF f(1)]) (auto simp: same_rows_def)
  ultimately show ?thesis using f agent_rows_cong [OF assms(5)] unfolding follows_def assms(4) by simp
qed

text \<open>A handler holds the row, but perhaps for the time it was updated.\<close>

lemma held_row:
  assumes "follows db p (Some r)"
  shows "read_from (r\<lparr>ar_UpdatedAt := u\<rparr>) (rd_rollouts db)" "distinct (map ar_ID (rd_rollouts db))"
proof -
  have f: "rows_follow (rd_rollouts db) p (Some r)" using assms by (simp add: follows_def)
  have "r \<in> set (rd_rollouts db)" using rows_followD(2) [OF f refl] by blast
  then show "read_from (r\<lparr>ar_UpdatedAt := u\<rparr>) (rd_rollouts db)" unfolding read_from_def by (rule bexI [rotated]) simp
  show "distinct (map ar_ID (rd_rollouts db))" by (rule rows_followD(5) [OF f])
qed

lemma follows_write:
  assumes "follows db p (Some r)" "same_rows b r" "ar_State b \<in> {RolloutPilot, RolloutHalted}"
  shows "follows (UpdateAgentRollout b db) p (Some b)" "follows (save b actor action now db) p (Some (b\<lparr>ar_UpdatedAt := now\<rparr>))"
proof -
  have row: "read_from r (rd_rollouts db)" using held_row(1) [OF assms(1), of "ar_UpdatedAt r"] by simp
  have k: "kept b r" using assms(2) by (simp add: same_rows_def)
  show "follows (UpdateAgentRollout b db) p (Some b)"
    using assms Update_replace [OF row held_row(2) [OF assms(1)] k] by (intro follows_update [OF assms(1)]) simp_all
  have "rd_rollouts (save b actor action now db) = replace (b\<lparr>ar_UpdatedAt := now\<rparr>) (rd_rollouts db)"
    using Update_replace [OF row held_row(2) [OF assms(1)], of "b\<lparr>ar_UpdatedAt := now\<rparr>"] k by (simp add: save_def)
  then show "follows (save b actor action now db) p (Some (b\<lparr>ar_UpdatedAt := now\<rparr>))"
    using assms(2,3) by (intro follows_update [OF assms(1)]) (simp_all add: same_rows_def)
qed

definition follows_some :: "rollout_db \<Rightarrow> bool" where
  "follows_some db \<longleftrightarrow> (\<exists>p h. follows db p h)"

lemma follows_wait:
  assumes "follows db p (Some r)" "ar_State r = RolloutPilot" "ro = r\<lparr>ar_UpdatedAt := u\<rparr>"
  shows "follows_some (snd (wait ro detail now db))"
proof (cases "ar_Detail ro = detail")
  case True
  then show ?thesis using assms(1) unfolding follows_some_def wait_def by auto
next
  case False
  let ?b = "ro\<lparr>ar_Detail := detail, ar_UpdatedAt := now\<rparr>"
  have "same_rows ?b r" "ar_State ?b \<in> {RolloutPilot, RolloutHalted}" using assms(2,3) by (simp_all add: same_rows_def kept_def)
  then have "follows (UpdateAgentRollout ?b db) p (Some ?b)" by (rule follows_write(1) [OF assms(1)])
  moreover have "snd (wait ro detail now db) = UpdateAgentRollout ?b db" using False by (simp add: wait_def Let_def)
  ultimately show ?thesis unfolding follows_some_def by metis
qed

lemma follows_halt:
  assumes "follows db p (Some r)" "ar_State r = RolloutPilot" "ro = r\<lparr>ar_UpdatedAt := u\<rparr>"
  shows "follows_some (snd (halt ro why now db))"
proof -
  let ?b = "ro\<lparr>ar_State := RolloutHalted, ar_Detail := why\<rparr>"
  have "\<exists>i. ar_PilotAssignmentID r = Some i" using assms(1) by (simp add: follows_def pilot_ok_def)
  then obtain i where "ar_PilotAssignmentID r = Some i" by blast
  then have "snd (halt ro why now db) = save ?b RolloutActor ''agent_rollout.halted'' now db"
    using assms(3) by (simp add: halt_def Let_def)
  moreover have "same_rows ?b r" "ar_State ?b \<in> {RolloutPilot, RolloutHalted}" using assms(3) by (simp_all add: same_rows_def kept_def)
  then have "follows (save ?b RolloutActor ''agent_rollout.halted'' now db) p (Some (?b\<lparr>ar_UpdatedAt := now\<rparr>))"
    by (rule follows_write(2) [OF assms(1)])
  ultimately show ?thesis unfolding follows_some_def by metis
qed

text \<open>Promotion: the new fleet row is made, then the rows of the pilot and of the old fleet build go.\<close>

lemma retire_assignments:
  "rd_assignments (retire_old ro now q db) = rd_assignments (removeAssignment (ar_ExcludeAssignmentID q)
     (removeAssignment (ar_PilotAssignmentID q) (removeAssignment (ar_FleetAssignmentID q) db)))"
  by (simp add: retire_old_def)

lemma rows_retire:
  "agent_rows (retire_old ro now q db) = {x \<in> agent_rows db. Some (fst x) \<notin> {ar_ExcludeAssignmentID q, ar_PilotAssignmentID q, ar_FleetAssignmentID q}}"
  "unphased db \<Longrightarrow> unphased (retire_old ro now q db)"
  using agent_rows_cong [OF retire_assignments [of ro now q db]] by (auto simp: rows_remove)

lemma promoted_list:
  assumes "rows_follow (rd_rollouts db) p h"
  shows "ListRolloutsInState [RolloutPromoted] db = (case p of None \<Rightarrow> [] | Some q \<Rightarrow> [q])"
proof (rule one_row)
  show "distinct (ListRolloutsInState [RolloutPromoted] db)"
    using in_state_distinct [OF rows_followD(5) [OF assms], of "\<lambda>_. True" "[RolloutPromoted]"] by (simp add: distinct_map)
  have "{q \<in> set (rd_rollouts db). ar_State q = RolloutPromoted} = set_option p" using assms by (simp add: rows_follow_def)
  then show "set (ListRolloutsInState [RolloutPromoted] db) = set_option p" by (simp add: in_state)
qed

lemma ongoing_list:
  assumes "rows_follow (rd_rollouts db) p (Some r)" "ar_State r = RolloutPilot"
  shows "ListRolloutsInState [RolloutPilot, RolloutPromoting] db = [r]"
proof -
  have r: "r \<in> set (rd_rollouts db)" using rows_followD(2) [OF assms(1) refl] by blast
  have "x = r" if "x \<in> set (rd_rollouts db)" "ar_State x \<in> {RolloutPilot, RolloutPromoting}" for x
  proof -
    have "ar_State x \<noteq> RolloutPromoted" "ar_State x \<noteq> RolloutSuperseded" using that(2) by auto
    then show ?thesis using rows_followD(4) [OF assms(1) that(1)] by blast
  qed
  then have "set (ListRolloutsInState [RolloutPilot, RolloutPromoting] db) = set_option (Some r)"
    using r assms(2) unfolding in_state list.set option.set by blast
  moreover have "distinct (ListRolloutsInState [RolloutPilot, RolloutPromoting] db)"
    using in_state_distinct [OF rows_followD(5) [OF assms(1)], of "\<lambda>_. True" "[RolloutPilot, RolloutPromoting]"] by (simp add: distinct_map)
  ultimately show ?thesis using one_row by fastforce
qed

lemma none_ongoing:
  assumes "rows_follow (rd_rollouts db) p h" "\<forall>r. h = Some r \<longrightarrow> ar_State r = RolloutHalted"
  shows "ListRolloutsInState [RolloutPilot, RolloutPromoting] db = []"
proof -
  have "ar_State x \<notin> {RolloutPilot, RolloutPromoting}" if "x \<in> set (rd_rollouts db)" for x
  proof
    assume st: "ar_State x \<in> {RolloutPilot, RolloutPromoting}"
    then have "ar_State x \<noteq> RolloutPromoted" "ar_State x \<noteq> RolloutSuperseded" "ar_State x \<noteq> RolloutHalted" by auto
    then show False using rows_followD(4) [OF assms(1) that] assms(2) by blast
  qed
  then have "set (ListRolloutsInState [RolloutPilot, RolloutPromoting] db) = {}" by (auto simp: in_state)
  then show ?thesis by simp
qed

lemma promote_assignments:
  assumes "rows_follow (rd_rollouts db) p (Some r)" "ro = r\<lparr>ar_UpdatedAt := u\<rparr>" "rd_rollouts db1 = rd_rollouts db" "unphased db1"
  shows "agent_rows (snd (promote ro f now db1)) = {x \<in> agent_rows db1. Some (fst x) \<notin> {ar_ExcludeAssignmentID r, ar_PilotAssignmentID r}
      \<and> (\<forall>q. p = Some q \<longrightarrow> Some (fst x) \<notin> {ar_ExcludeAssignmentID q, ar_PilotAssignmentID q, ar_FleetAssignmentID q})}"
    and "unphased (snd (promote ro f now db1))"
proof -
  let ?db1 = "removeAssignment (ar_ExcludeAssignmentID r) (removeAssignment (ar_PilotAssignmentID r) db1)"
  have "ar_ID q \<noteq> ar_ID r" if "p = Some q" for q
  proof
    assume "ar_ID q = ar_ID r"
    moreover have "q \<in> set (rd_rollouts db)" "r \<in> set (rd_rollouts db)" "inj_on ar_ID (set (rd_rollouts db))"
      using rows_followD(1,2,5) [OF assms(1)] that by (blast, blast, simp add: distinct_map)
    ultimately have "q = r" by (simp add: inj_on_def)
    then show False using rows_followD(1,2) [OF assms(1)] that by blast
  qed
  moreover have "ListRolloutsInState [RolloutPromoted] db1 = (case p of None \<Rightarrow> [] | Some q \<Rightarrow> [q])"
    using promoted_list [of db1 p "Some r"] assms(1,3) by simp
  ultimately have older: "filter (\<lambda>old. ar_ID old \<noteq> ar_ID ro) (ListRolloutsInState [RolloutPromoted] db1) = (case p of None \<Rightarrow> [] | Some q \<Rightarrow> [q])"
    using assms(2) by (cases p) simp_all
  have tbl: "rd_assignments (snd (promote ro f now db1)) = rd_assignments (case p of None \<Rightarrow> ?db1 | Some q \<Rightarrow> retire_old ro now q ?db1)"
    unfolding promote_def older using assms(2) by (cases p) (simp_all add: Let_def)
  note same = agent_rows_cong [OF tbl]
  show "agent_rows (snd (promote ro f now db1)) = {x \<in> agent_rows db1. Some (fst x) \<notin> {ar_ExcludeAssignmentID r, ar_PilotAssignmentID r}
      \<and> (\<forall>q. p = Some q \<longrightarrow> Some (fst x) \<notin> {ar_ExcludeAssignmentID q, ar_PilotAssignmentID q, ar_FleetAssignmentID q})}"
    unfolding same [THEN conjunct1] by (cases p) (auto simp: rows_remove rows_retire)
  show "unphased (snd (promote ro f now db1))"
    using same [THEN conjunct2] assms(4) by (cases p) (simp_all add: rows_remove rows_retire)
qed

lemma rows_follow_promote:
  assumes "rows_follow rows p (Some r)" "ro = r\<lparr>ar_UpdatedAt := u\<rparr>"
  shows "rows_follow (replace (promoted_row ro f now) (map (retired ro now) rows)) (Some (promoted_row ro f now)) None"
proof -
  let ?b = "promoted_row ro f now" and ?rows = "map (retired ro now) rows"
  note r = rows_followD(2) [OF assms(1) refl]
  have ids: "map ar_ID ?rows = map ar_ID rows" "map ar_AgentVersionID ?rows = map ar_AgentVersionID rows" by (auto simp: retired_def)
  have "retired ro now r = r" using r by (simp add: retired_def)
  then have mem: "r \<in> set ?rows" using r by force
  have k: "kept ?b r" using assms(2) by (simp add: promoted_row_def kept_def)
  have dist: "distinct (map ar_ID ?rows)" unfolding ids(1) by (rule rows_followD(5) [OF assms(1)])
  have s: "set (replace ?b ?rows) = insert ?b (set ?rows - {r})"
    using mem dist kept_id [OF k] by (rule set_replace)
  have builds: "map ar_AgentVersionID (replace ?b ?rows) = map ar_AgentVersionID rows"
    using builds_replace [OF mem dist k] ids(2) by simp
  have gone: "ar_State x = RolloutSuperseded" if "x \<in> set ?rows - {r}" for x
  proof -
    obtain y where y: "y \<in> set rows" "x = retired ro now y" "y \<noteq> r" using \<open>x \<in> set ?rows - {r}\<close> \<open>retired ro now r = r\<close> by force
    then have "ar_ID y \<noteq> ar_ID ro" using r rows_followD(5) [OF assms(1)] assms(2) by (auto simp: distinct_map inj_on_def)
    moreover have "ar_State y = RolloutPromoted \<or> ar_State y = RolloutSuperseded" using rows_followD(4) [OF assms(1) y(1)] y(3) by blast
    ultimately show ?thesis using y(2) by (auto simp: retired_def)
  qed
  have b: "ar_State ?b = RolloutPromoted" "fleet_ok ?b" by (simp_all add: promoted_row_def fleet_ok_def)
  have "ar_State x \<noteq> RolloutPromoted" if "x \<in> set ?rows - {r}" for x unfolding gone [OF that] by simp
  then have "{q \<in> set (replace ?b ?rows). ar_State q = RolloutPromoted} = {?b}" unfolding s using b(1) by blast
  moreover have "{q \<in> set (replace ?b ?rows). ar_State q \<notin> {RolloutPromoted, RolloutSuperseded}} = {}"
    unfolding s using b(1) gone by blast
  ultimately
  show ?thesis unfolding rows_follow_def builds ids_replace ids(1)
    using b(2) rows_followD(5,6) [OF assms(1)] by simp
qed

lemma row_ids: "x \<in> agent_rows db \<Longrightarrow> fst x \<in> as_id ` set (rd_assignments db)"
  by (auto simp: agent_rows_def row_of_def)

lemma plan_ids:
  assumes "follows db p (Some r)" "x \<in> plan_rows p (Some r)"
  shows "Some (fst x) \<in> {ar_ExcludeAssignmentID r, ar_PilotAssignmentID r} \<or> (\<exists>q. p = Some q \<and> Some (fst x) = ar_FleetAssignmentID q)"
proof -
  have f: "rows_follow (rd_rollouts db) p (Some r)" "pilot_ok (p \<noteq> None) r" using assms(1) by (simp_all add: follows_def)
  have "ar_PilotAssignmentID r \<noteq> None" "p \<noteq> None \<Longrightarrow> ar_ExcludeAssignmentID r \<noteq> None" using f(2) by (simp_all add: pilot_ok_def)
  moreover have "ar_FleetAssignmentID q \<noteq> None" if "p = Some q" for q using rows_followD(1) [OF f(1) that] by (simp add: fleet_ok_def)
  ultimately show ?thesis using assms(2) by (cases p) (auto simp: plan_rows_def)
qed

lemma own_ids_fresh:
  assumes "follows db p (Some r)" "i \<notin> as_id ` set (rd_assignments db)"
  shows "Some i \<notin> {ar_ExcludeAssignmentID r, ar_PilotAssignmentID r}"
    and "p = Some q \<Longrightarrow> Some i \<notin> {ar_ExcludeAssignmentID q, ar_PilotAssignmentID q, ar_FleetAssignmentID q}"
proof -
  have f: "rows_follow (rd_rollouts db) p (Some r)" "pilot_ok (p \<noteq> None) r" "agent_rows db = plan_rows p (Some r)"
    using assms(1) by (simp_all add: follows_def)
  have other: "i \<noteq> fst x" if "x \<in> plan_rows p (Some r)" for x using row_ids [of x db] that assms(2) f(3) by auto
  have ex: "ar_ExcludeAssignmentID r \<noteq> None \<longleftrightarrow> p \<noteq> None" using f(2) by (simp add: pilot_ok_def)
  have eq: "Some i = x \<longleftrightarrow> x \<noteq> None \<and> i = the x" for x by auto
  show "Some i \<notin> {ar_ExcludeAssignmentID r, ar_PilotAssignmentID r}"
  proof (cases p)
    case None
    then show ?thesis using ex other [of "(the (ar_PilotAssignmentID r), ar_AgentVersionID r, the (ar_PilotGroupID r), ModeInclude)"]
      by (simp add: plan_rows_def eq)
  next
    case (Some q)
    then show ?thesis using other [of "(the (ar_PilotAssignmentID r), ar_AgentVersionID r, the (ar_PilotGroupID r), ModeInclude)"]
        other [of "(the (ar_ExcludeAssignmentID r), ar_AgentVersionID q, the (ar_PilotGroupID r), ModeExclude)"]
      by (simp add: plan_rows_def eq)
  qed
  show "Some i \<notin> {ar_ExcludeAssignmentID q, ar_PilotAssignmentID q, ar_FleetAssignmentID q}" if "p = Some q"
    using rows_followD(1) [OF f(1) that] other [of "(the (ar_FleetAssignmentID q), ar_AgentVersionID q, BuiltinGroupID, ModeInclude)"] that
    by (simp add: plan_rows_def fleet_ok_def eq)
qed

lemma included:
  assumes "\<not> sv_ApprovalsRequired svc" "\<forall>k. (k, ar_AgentVersionID ro, g, ModeInclude) \<notin> agent_rows db" "unphased db"
  obtains db1 where "include_build svc i ro g name now db = Some (Inr i, db1)"
    "agent_rows db1 = insert (i, ar_AgentVersionID ro, g, ModeInclude) (agent_rows db)" "unphased db1" "rd_rollouts db1 = rd_rollouts db"
proof -
  let ?a = "(agent_assignment i (ar_AgentVersionID ro) g ModeInclude now)\<lparr>as_options := Some (Marshal_options DefaultAgentOptions)\<rparr>"
  have "as_id ?a = i" "as_kind ?a = ItemKindAgent" "as_item ?a = ar_AgentVersionID ro" "as_group ?a = g" "as_mode ?a = ModeInclude"
    "as_rollout ?a = zero_rollout" by (simp_all add: agent_assignment_def)
  note r = rows_save [OF assms(2) this assms(3)]
  have "fst (saveAssignment ?a db) = i" "agent_rows (snd (saveAssignment ?a db)) = insert (i, ar_AgentVersionID ro, g, ModeInclude) (agent_rows db)"
    "unphased (snd (saveAssignment ?a db))" by (rule r)+
  moreover from this have "include_build svc i ro g name now db = Some (Inr i, snd (saveAssignment ?a db))"
    using assms(1) by (auto simp: include_build_def needsApproval_def split: prod.split)
  moreover have "rd_rollouts (snd (saveAssignment ?a db)) = rd_rollouts db" by (rule save_frame) (rule prod.collapse [symmetric])
  ultimately show ?thesis using that by blast
qed

lemma fleet_row_new:
  assumes "follows db p (Some r)"
  shows "(k, ar_AgentVersionID r, BuiltinGroupID, ModeInclude) \<notin> agent_rows db"
proof -
  have f: "rows_follow (rd_rollouts db) p (Some r)" "pilot_ok (p \<noteq> None) r" "agent_rows db = plan_rows p (Some r)"
    using assms by (simp_all add: follows_def)
  have "the (ar_PilotGroupID r) \<noteq> BuiltinGroupID" using f(2) by (auto simp: pilot_ok_def)
  moreover have "ar_AgentVersionID q \<noteq> ar_AgentVersionID r" if "p = Some q" for q using builds_differ f(1) that by blast
  ultimately show ?thesis unfolding f(3) plan_rows_def by (cases p) auto
qed

lemma promotePilot_follows:
  assumes "follows db p (Some r)" "ro = r\<lparr>ar_UpdatedAt := u\<rparr>" "\<not> sv_ApprovalsRequired svc"
    "snd ids \<notin> as_id ` set (rd_assignments db)"
  shows "follows_some (snd (promotePilot svc ids ro now db))"
proof -
  let ?b = "promoted_row ro (snd ids) now" and ?row = "(snd ids, ar_AgentVersionID r, BuiltinGroupID, ModeInclude)"
  have f: "rows_follow (rd_rollouts db) p (Some r)" "agent_rows db = plan_rows p (Some r)" "unphased db"
    using assms(1) by (simp_all add: follows_def)
  have build: "ar_AgentVersionID ro = ar_AgentVersionID r" using assms(2) by simp
  have none: "\<forall>k. (k, ar_AgentVersionID ro, BuiltinGroupID, ModeInclude) \<notin> agent_rows db"
    unfolding build using fleet_row_new [OF assms(1)] by blast
  obtain db1 where db1: "include_build svc (snd ids) ro BuiltinGroupID ''All devices'' now db = Some (Inr (snd ids), db1)"
    "agent_rows db1 = insert ?row (agent_rows db)" "unphased db1" "rd_rollouts db1 = rd_rollouts db"
    using included [OF assms(3) none f(3)] unfolding build by blast
  let ?db2 = "snd (promote ro (snd ids) now db1)"
  have fresh: "fst x \<noteq> snd ids" if "x \<in> agent_rows db" for x using row_ids [OF that] assms(4) by auto
  have ids: "Some (snd ids) \<notin> {ar_ExcludeAssignmentID r, ar_PilotAssignmentID r}"
    "p = Some q \<Longrightarrow> Some (snd ids) \<notin> {ar_ExcludeAssignmentID q, ar_PilotAssignmentID q, ar_FleetAssignmentID q}" for q
    using own_ids_fresh [OF assms(1) assms(4)] by blast+
  define stay where "stay x \<longleftrightarrow> Some (fst x) \<notin> {ar_ExcludeAssignmentID r, ar_PilotAssignmentID r}
      \<and> (\<forall>q. p = Some q \<longrightarrow> Some (fst x) \<notin> {ar_ExcludeAssignmentID q, ar_PilotAssignmentID q, ar_FleetAssignmentID q})" for x :: offer_row
  have "\<not> stay x" if "x \<in> plan_rows p (Some r)" for x using plan_ids [OF assms(1) that] unfolding stay_def by blast
  moreover have "stay ?row" using ids unfolding stay_def fst_conv by blast
  ultimately have "agent_rows ?db2 = {?row}"
    unfolding promote_assignments(1) [OF f(1) assms(2) db1(4,3)] stay_def [symmetric] db1(2) f(2) by blast
  moreover have "plan_rows (Some ?b) None = {?row}" using assms(2) by (simp add: plan_rows_def promoted_row_def)
  moreover have "rd_rollouts ?db2 = replace ?b (map (retired ro now) (rd_rollouts db))"
    using promote_exact [OF _ _ db1(4)] held_row [OF assms(1)] assms(2) by simp
  ultimately have "follows ?db2 (Some ?b) None"
    using rows_follow_promote [OF f(1) assms(2)] promote_assignments(2) [OF f(1) assms(2) db1(4,3)] by (simp add: follows_def)
  then show ?thesis using db1(1) unfolding follows_some_def promotePilot_def by auto
qed

lemma rollout_step_follows:
  assumes "follows db p (Some r)" "ar_State r = RolloutPilot" "ro = r\<lparr>ar_UpdatedAt := u\<rparr>" "\<not> sv_ApprovalsRequired svc"
    "snd (fresh (ar_ID r)) \<notin> as_id ` set (rd_assignments db)"
  shows "follows_some (snd (rollout_step svc fresh now ro db))"
proof -
  have "ar_PilotGroupID r \<noteq> None" "ar_PilotAssignmentID r \<noteq> None" using assms(1) by (simp_all add: follows_def pilot_ok_def)
  then obtain g i where "ar_PilotGroupID ro = Some g" "ar_PilotAssignmentID ro = Some i" using assms(3) by auto
  then have step: "rollout_step svc fresh now ro db = watchPilot svc (fresh (ar_ID ro)) ro g now db"
    using assms(2,3) by (simp add: rollout_step_def stepPilot_def)
  have "follows_some db" using assms(1) unfolding follows_some_def by blast
  then show ?thesis unfolding step watchPilot_def Let_def
    using follows_halt [OF assms(1-3)] follows_wait [OF assms(1-3)] promotePilot_follows [OF assms(1,3,4)] assms(3,5)
    by (simp split: option.split)
qed

lemma Advance_follows:
  assumes "follows_some db" "\<not> sv_ApprovalsRequired svc" "\<forall>i. snd (fresh i) \<notin> as_id ` set (rd_assignments db)"
  shows "follows_some (snd (Advance svc fresh now db))"
proof -
  obtain p h where ph: "follows db p h" using assms(1) unfolding follows_some_def by blast
  then have rows: "rows_follow (rd_rollouts db) p h" by (simp add: follows_def)
  show ?thesis
  proof (cases "\<exists>r. h = Some r \<and> ar_State r = RolloutPilot")
    case True
    then obtain r where r: "h = Some r" "ar_State r = RolloutPilot" by blast
    have "snd (Advance svc fresh now db) = snd (rollout_step svc fresh now r db)"
      unfolding Advance_def advance_db using ongoing_list [OF rows [unfolded r(1)] r(2)] by simp
    then show ?thesis using rollout_step_follows [OF ph [unfolded r(1)] r(2), of r "ar_UpdatedAt r"] assms(2,3) by simp
  next
    case False
    have "pred_option (pilot_ok (p \<noteq> None)) h" using ph by (simp add: follows_def)
    then have "ar_State r = RolloutHalted" if "h = Some r" for r using False that unfolding pilot_ok_def by auto
    then have "ListRolloutsInState [RolloutPilot, RolloutPromoting] db = []" by (intro none_ongoing [OF rows]) blast
    then show ?thesis using assms(1) by (simp add: Advance_def)
  qed
qed

lemma Resume_follows:
  assumes "follows_some db" "\<not> sv_ApprovalsRequired svc" "\<forall>i. snd (fresh i) \<notin> as_id ` set (rd_assignments db)"
  shows "follows_some (snd (Resume svc fresh i actor now db))"
proof (cases "\<exists>ro. GetAgentRollout i db = Some ro \<and> ar_State ro = RolloutHalted")
  case False
  then show ?thesis using assms(1) by (auto simp: Resume_def split: option.split)
next
  case True
  then obtain ro where ro: "GetAgentRollout i db = Some ro" "ar_State ro = RolloutHalted" by blast
  obtain p h where ph: "follows db p h" using assms(1) unfolding follows_some_def by blast
  define ro1 where "ro1 = ro\<lparr>ar_State := RolloutPilot, ar_PilotApprovalID := None, ar_FleetApprovalID := None, ar_Detail := []\<rparr>"
  define db1 where "db1 = save ro1 actor ''agent_rollout.resumed'' now db"
  have "ro \<in> set (rd_rollouts db)" using ro(1) find_SomeD unfolding GetAgentRollout_def by metis
  moreover have "ar_State ro \<noteq> RolloutPromoted" "ar_State ro \<noteq> RolloutSuperseded" unfolding ro(2) by simp_all
  ultimately have "h = Some ro" using rows_followD(4) [of "rd_rollouts db" p h ro] ph unfolding follows_def by blast
  with ph have f: "follows db p (Some ro)" by simp
  have "same_rows ro1 ro" "ar_State ro1 \<in> {RolloutPilot, RolloutHalted}" by (simp_all add: ro1_def same_rows_def kept_def)
  then have f1: "follows db1 p (Some (ro1\<lparr>ar_UpdatedAt := now\<rparr>))" unfolding db1_def by (rule follows_write(2) [OF f])
  have "ro1 = (ro1\<lparr>ar_UpdatedAt := now\<rparr>)\<lparr>ar_UpdatedAt := ar_UpdatedAt ro1\<rparr>" by simp
  then have "follows_some (snd (rollout_step svc fresh now ro1 db1))"
    using rollout_step_follows [OF f1 _ _ assms(2), of ro1 "ar_UpdatedAt ro1" fresh now] assms(3) by (simp add: ro1_def db1_def)
  moreover have "snd (Resume svc fresh i actor now db) = snd (rollout_step svc fresh now ro1 db1)"
    using ro by (simp add: Resume_def Let_def ro1_def db1_def split: prod.split sum.split)
  ultimately show ?thesis by simp
qed

text \<open>Starting a rollout: the one in progress is superseded, then the pilot of the new one begins.\<close>

lemma rows_follow_append:
  assumes "rows_follow rows p None" "ar_ID r \<notin> ar_ID ` set rows" "ar_AgentVersionID r \<notin> ar_AgentVersionID ` set rows" "ar_State r = RolloutPilot"
  shows "rows_follow (rows @ [r]) p (Some r)"
proof -
  have "ar_State r \<noteq> RolloutPromoted" "ar_State r \<noteq> RolloutSuperseded" unfolding assms(4) by simp_all
  then have "{q \<in> set (rows @ [r]). ar_State q = RolloutPromoted} = {q \<in> set rows. ar_State q = RolloutPromoted}"
    "{q \<in> set (rows @ [r]). ar_State q \<notin> {RolloutPromoted, RolloutSuperseded}} = insert r {q \<in> set rows. ar_State q \<notin> {RolloutPromoted, RolloutSuperseded}}"
    unfolding set_append list.set by blast+
  then show ?thesis using assms(1-3) unfolding rows_follow_def by (simp only:) simp
qed

lemma rows_follow_supersede:
  assumes "rows_follow rows p (Some r)" "kept b r" "ar_State b = RolloutSuperseded"
  shows "rows_follow (replace b rows) p None"
proof -
  note r = rows_followD(2) [OF assms(1) refl]
  have s: "set (replace b rows) = insert b (set rows - {r})"
    using r rows_followD(5) [OF assms(1)] kept_id [OF assms(2)] by (intro set_replace) blast+
  have b: "ar_State b \<noteq> RolloutPromoted" unfolding assms(3) by simp
  have "{q \<in> set (replace b rows). ar_State q = RolloutPromoted} = {q \<in> set rows. ar_State q = RolloutPromoted}"
    unfolding s using b r by blast
  moreover have "{q \<in> set (replace b rows). ar_State q \<notin> {RolloutPromoted, RolloutSuperseded}} = {}"
    unfolding s using assms(3) rows_followD(4) [OF assms(1)] by blast
  moreover have "map ar_AgentVersionID (replace b rows) = map ar_AgentVersionID rows"
    using r rows_followD(5) [OF assms(1)] assms(2) by (intro builds_replace) blast+
  ultimately show ?thesis using assms(1) unfolding rows_follow_def ids_replace by (simp only: option.set)
qed

definition superseded :: "AgentRollout \<Rightarrow> string \<Rightarrow> go_time \<Rightarrow> AgentRollout" where
  "superseded ro v now = ro\<lparr>ar_PilotAssignmentID := None, ar_ExcludeAssignmentID := None, ar_PilotApprovalID := None, ar_FleetApprovalID := None,
     ar_State := RolloutSuperseded, ar_Detail := ''replaced by '' @ v, ar_UpdatedAt := now\<rparr>"

lemma supersede_tables:
  assumes "r \<in> set (rd_rollouts db)" "distinct (map ar_ID (rd_rollouts db))"
  shows "rd_rollouts (supersede r v now db) = replace (superseded r v now) (rd_rollouts db)"
    and "rd_assignments (supersede r v now db) = rd_assignments (removeAssignment (ar_ExcludeAssignmentID r) (removeAssignment (ar_PilotAssignmentID r) db))"
proof -
  have "rd_rollouts (supersede r v now db) = rd_rollouts (UpdateAgentRollout (superseded r v now) db)"
    unfolding supersede_def Let_def superseded_def by (auto simp: UpdateAgentRollout_def split: option.split)
  then show "rd_rollouts (supersede r v now db) = replace (superseded r v now) (rd_rollouts db)"
    using Update_replace [OF read_from_row [OF assms(1)] assms(2), of "superseded r v now"] by (simp add: superseded_def)
  show "rd_assignments (supersede r v now db) = rd_assignments (removeAssignment (ar_ExcludeAssignmentID r) (removeAssignment (ar_PilotAssignmentID r) db))"
    unfolding supersede_def Let_def by (simp split: option.split)
qed

lemma plan_without_pilot:
  assumes "follows db p (Some r)"
  shows "{x \<in> plan_rows p (Some r). Some (fst x) \<notin> {ar_ExcludeAssignmentID r, ar_PilotAssignmentID r}} = plan_rows p None"
proof -
  have f: "rows_follow (rd_rollouts db) p (Some r)" "pilot_ok (p \<noteq> None) r" "inj_on fst (plan_rows p (Some r))"
    using assms by (simp_all add: follows_def)
  obtain i where i: "ar_PilotAssignmentID r = Some i" using f(2) by (auto simp: pilot_ok_def)
  show ?thesis
  proof (cases p)
    case None
    then show ?thesis using i by (auto simp: plan_rows_def)
  next
    case (Some q)
    obtain e where e: "ar_ExcludeAssignmentID r = Some e" using f(2) Some by (auto simp: pilot_ok_def)
    have build: "ar_AgentVersionID q \<noteq> ar_AgentVersionID r" using builds_differ f(1) Some by blast
    define fleet pilot excl where rows: "fleet = (the (ar_FleetAssignmentID q), ar_AgentVersionID q, BuiltinGroupID, ModeInclude)"
      "pilot = (i, ar_AgentVersionID r, the (ar_PilotGroupID r), ModeInclude)"
      "excl = (e, ar_AgentVersionID q, the (ar_PilotGroupID r), ModeExclude)"
    have plan: "plan_rows p (Some r) = {fleet, pilot, excl}" "plan_rows p None = {fleet}"
      using Some i e by (auto simp: plan_rows_def rows)
    have "fleet \<noteq> pilot" "fleet \<noteq> excl" using build by (simp_all add: rows)
    then have "fst fleet \<noteq> i" "fst fleet \<noteq> e" using f(3) unfolding plan(1) inj_on_def by (auto simp: rows)
    then show ?thesis unfolding plan e i by (auto simp: rows)
  qed
qed

definition added_db :: "uuid \<Rightarrow> uuid \<Rightarrow> string \<Rightarrow> uuid \<Rightarrow> go_time \<Rightarrow> rollout_db \<Rightarrow> rollout_db" where
  "added_db new_id build v pilot now db = InsertAudit RolloutActor ''agent_rollout.started'' new_id
     (db\<lparr>rd_rollouts := rd_rollouts db @ [new_rollout new_id build v pilot now db]\<rparr>)"

lemma added_tables [simp]:
  "rd_rollouts (added_db new_id build v pilot now db) = rd_rollouts db @ [new_rollout new_id build v pilot now db]"
  "rd_assignments (added_db new_id build v pilot now db) = rd_assignments db"
  by (simp_all add: added_db_def InsertAudit_def)

lemma new_rollout_fields [simp]:
  "ar_ID (new_rollout new_id build v pilot now db) = new_id" "ar_AgentVersionID (new_rollout new_id build v pilot now db) = build"
  "ar_State (new_rollout new_id build v pilot now db) = RolloutPilot"
  by (simp_all add: new_rollout_def)

lemma going_pilot:
  assumes "follows db p (Some q)" "\<forall>q \<in> set (rd_rollouts db). ar_State q \<noteq> RolloutHalted"
  shows "ar_State q = RolloutPilot" "q \<in> set (rd_rollouts db)"
proof -
  have f: "rows_follow (rd_rollouts db) p (Some q)" "pilot_ok (p \<noteq> None) q" using assms(1) by (simp_all add: follows_def)
  show "q \<in> set (rd_rollouts db)" using rows_followD(2) [OF f(1) refl] by blast
  then show "ar_State q = RolloutPilot" using f(2) assms(2) by (auto simp: pilot_ok_def)
qed

lemma started_db_eq:
  assumes "follows db p h" "\<forall>q \<in> set (rd_rollouts db). ar_State q \<noteq> RolloutHalted" "new_id \<notin> ar_ID ` set (rd_rollouts db)"
  shows "started_db new_id build v pilot now db =
    (case h of None \<Rightarrow> added_db new_id build v pilot now db | Some q \<Rightarrow> supersede q v now (added_db new_id build v pilot now db))"
proof -
  let ?db2 = "added_db new_id build v pilot now db"
  let ?others = "filter (\<lambda>old. ar_ID old \<noteq> new_id) (ListRolloutsInState [RolloutPilot, RolloutPromoting] ?db2)"
  have f: "rows_follow (rd_rollouts db) p h" using assms(1) by (simp add: follows_def)
  have "distinct (map ar_ID (rd_rollouts ?db2))" using rows_followD(5) [OF f] assms(3) by simp
  then have "distinct (map ar_ID ?others)" by (rule in_state_distinct)
  then have dist: "distinct ?others" by (simp only: distinct_map)
  have "q \<in> set_option h \<longleftrightarrow> q \<in> set (rd_rollouts db) \<and> ar_State q \<in> {RolloutPilot, RolloutPromoting}" for q
  proof
    assume "q \<in> set_option h"
    then show "q \<in> set (rd_rollouts db) \<and> ar_State q \<in> {RolloutPilot, RolloutPromoting}"
      using going_pilot [of db p q] assms(1,2) by (simp only: elem_set) blast
  next
    assume a: "q \<in> set (rd_rollouts db) \<and> ar_State q \<in> {RolloutPilot, RolloutPromoting}"
    then have "ar_State q \<noteq> RolloutPromoted" "ar_State q \<noteq> RolloutSuperseded" by auto
    then have "h = Some q" using rows_followD(4) [OF f] a by blast
    then show "q \<in> set_option h" by (simp only: elem_set)
  qed
  moreover have "ar_ID q \<noteq> new_id" if "q \<in> set (rd_rollouts db)" for q using assms(3) that by auto
  ultimately have "set ?others = set_option h"
    unfolding set_filter in_state list.set added_tables(1) set_append using new_rollout_fields(1) by blast
  then have "?others = (case h of None \<Rightarrow> [] | Some q \<Rightarrow> [q])" by (rule one_row [OF dist])
  then show ?thesis unfolding started_db_def Let_def added_db_def [symmetric] by (cases h) simp_all
qed

lemma started_rows:
  assumes "follows db p h" "\<forall>q \<in> set (rd_rollouts db). ar_State q \<noteq> RolloutHalted" "new_id \<notin> ar_ID ` set (rd_rollouts db)"
    "build \<notin> ar_AgentVersionID ` set (rd_rollouts db)"
  shows "rows_follow (rd_rollouts (started_db new_id build v pilot now db)) p (Some (new_rollout new_id build v pilot now db))"
proof -
  let ?db2 = "added_db new_id build v pilot now db" and ?r = "new_rollout new_id build v pilot now db"
  have f: "rows_follow (rd_rollouts db) p h" using assms(1) by (simp add: follows_def)
  show ?thesis
  proof (cases h)
    case None
    then show ?thesis using started_db_eq [OF assms(1-3)] rows_follow_append [of "rd_rollouts db" p ?r] f assms(3,4) by simp
  next
    case (Some q)
    let ?s = "superseded q v now"
    have s: "kept ?s q" "ar_State ?s = RolloutSuperseded" "ar_ID ?s = ar_ID q" by (simp_all add: superseded_def)
    have q: "q \<in> set (rd_rollouts db)" using going_pilot(2) [of db p q] assms(1,2) Some by blast
    have "rd_rollouts (supersede q v now ?db2) = replace ?s (rd_rollouts ?db2)"
      using q rows_followD(5) [OF f] assms(3) by (intro supersede_tables) simp_all
    then have eq: "rd_rollouts (started_db new_id build v pilot now db) = replace ?s (rd_rollouts db) @ [?r]"
      using started_db_eq [OF assms(1-3)] Some s(3) q assms(3) by (auto simp: replace_def)
    have "rows_follow (replace ?s (rd_rollouts db)) p None" using f Some s by (intro rows_follow_supersede) simp_all
    moreover have "map ar_AgentVersionID (replace ?s (rd_rollouts db)) = map ar_AgentVersionID (rd_rollouts db)"
      using q rows_followD(5) [OF f] s(1) by (rule builds_replace)
    then have "ar_AgentVersionID ` set (replace ?s (rd_rollouts db)) = ar_AgentVersionID ` set (rd_rollouts db)" by (metis list.set_map)
    moreover have "ar_ID ` set (replace ?s (rd_rollouts db)) = ar_ID ` set (rd_rollouts db)" using ids_replace by (metis list.set_map)
    ultimately show ?thesis unfolding eq using assms(3,4) by (intro rows_follow_append) simp_all
  qed
qed

lemma started_assignments:
  assumes "follows db p h" "\<forall>q \<in> set (rd_rollouts db). ar_State q \<noteq> RolloutHalted" "new_id \<notin> ar_ID ` set (rd_rollouts db)"
  shows "agent_rows (started_db new_id build v pilot now db) = plan_rows p None" "unphased (started_db new_id build v pilot now db)"
proof -
  let ?db2 = "added_db new_id build v pilot now db"
  have f: "rows_follow (rd_rollouts db) p h" "agent_rows db = plan_rows p h" "unphased db" using assms(1) by (simp_all add: follows_def)
  have same: "agent_rows ?db2 = plan_rows p h" "unphased ?db2" using agent_rows_cong [of ?db2 db] f by simp_all
  have "agent_rows (started_db new_id build v pilot now db) = plan_rows p None \<and> unphased (started_db new_id build v pilot now db)"
  proof (cases h)
    case None
    then show ?thesis using started_db_eq [OF assms] same by simp
  next
    case (Some q)
    then have q: "follows db p (Some q)" using assms(1) by simp
    have "rd_assignments (supersede q v now ?db2) = rd_assignments (removeAssignment (ar_ExcludeAssignmentID q) (removeAssignment (ar_PilotAssignmentID q) ?db2))"
      using going_pilot(2) [OF q assms(2)] rows_followD(5) [OF f(1)] assms(3) by (intro supersede_tables) simp_all
    from agent_rows_cong [OF this] show ?thesis
      using Some started_db_eq [OF assms] same plan_without_pilot [OF q] by (auto simp: rows_remove)
  qed
  then show "agent_rows (started_db new_id build v pilot now db) = plan_rows p None" "unphased (started_db new_id build v pilot now db)" by blast+
qed

lemma started_ids:
  assumes "follows db p h" "\<forall>q \<in> set (rd_rollouts db). ar_State q \<noteq> RolloutHalted" "new_id \<notin> ar_ID ` set (rd_rollouts db)"
  shows "as_id ` set (rd_assignments (started_db new_id build v pilot now db)) \<subseteq> as_id ` set (rd_assignments db)"
proof (cases h)
  case None
  then show ?thesis using started_db_eq [OF assms] by simp
next
  case (Some q)
  have "as_id ` set (rd_assignments (removeAssignment i d)) \<subseteq> as_id ` set (rd_assignments d)" for i and d :: rollout_db
    by (cases i) (auto simp: removeAssignment_def DeleteAssignment_def InsertAudit_def)
  moreover have "follows db p (Some q)" "rows_follow (rd_rollouts db) p h" using assms(1) Some by (simp_all add: follows_def)
  then have "rd_assignments (supersede q v now (added_db new_id build v pilot now db)) = rd_assignments (removeAssignment (ar_ExcludeAssignmentID q)
      (removeAssignment (ar_PilotAssignmentID q) (added_db new_id build v pilot now db)))"
    using going_pilot(2) [OF _ assms(2)] rows_followD(5) assms(3) by (intro supersede_tables) auto
  ultimately show ?thesis unfolding started_db_eq [OF assms] Some option.case using added_tables(2) by (metis subset_trans)
qed

text \<open>The pilot of a rollout that has none: excluded from the fleet's build, then included in this one.\<close>

lemma excluded_pilot:
  assumes "rows_follow (rd_rollouts db) p (Some r)" "ar_ExcludeAssignmentID r = None" "agent_rows db = plan_rows p None" "unphased db"
  obtains db1 where "excludePilot x r g now db = (r\<lparr>ar_ExcludeAssignmentID := (if p = None then None else Some x)\<rparr>, db1)"
    "agent_rows db1 = plan_rows p None \<union> (case p of None \<Rightarrow> {} | Some q \<Rightarrow> {(x, ar_AgentVersionID q, g, ModeExclude)})"
    "unphased db1" "rd_rollouts db1 = rd_rollouts db"
proof (cases p)
  case None
  have "fleetBuild db = None" using promoted_list [OF assms(1)] None by (simp add: fleetBuild_def)
  then have "excludePilot x r g now db = (r\<lparr>ar_ExcludeAssignmentID := None\<rparr>, db)" using assms(2) by (simp add: excludePilot_def)
  then show ?thesis using that [of db] None assms(3,4) by simp
next
  case (Some q)
  let ?a = "agent_assignment x (ar_AgentVersionID q) g ModeExclude now"
  have fleet: "fleetBuild db = Some q" using promoted_list [OF assms(1)] Some by (simp add: fleetBuild_def)
  have none: "\<forall>k. (k, ar_AgentVersionID q, g, ModeExclude) \<notin> agent_rows db" unfolding assms(3) Some by (simp add: plan_rows_def)
  have "as_id ?a = x" "as_kind ?a = ItemKindAgent" "as_item ?a = ar_AgentVersionID q" "as_group ?a = g" "as_mode ?a = ModeExclude"
    "as_rollout ?a = zero_rollout" by (simp_all add: agent_assignment_def)
  note s = rows_save [OF none this assms(4)]
  have "ar_AgentVersionID q \<noteq> ar_AgentVersionID r" using builds_differ assms(1) Some by blast
  then have "excludePilot x r g now db = (r\<lparr>ar_ExcludeAssignmentID := Some x\<rparr>, snd (saveAssignment ?a db))"
    using assms(2) fleet s(1) by (auto simp: excludePilot_def assignExclude_def split: prod.split)
  moreover have "rd_rollouts (snd (saveAssignment ?a db)) = rd_rollouts db" by (rule save_frame) (rule prod.collapse [symmetric])
  ultimately show ?thesis using that [of "snd (saveAssignment ?a db)"] s(2,3) Some assms(3) by simp
qed

lemma plan_of_pilot:
  assumes "ar_PilotAssignmentID b = Some i" "ar_ExcludeAssignmentID b = (if p = None then None else Some x)" "ar_PilotGroupID b = Some g"
  shows "plan_rows p (Some b) = insert (i, ar_AgentVersionID b, g, ModeInclude)
    (plan_rows p None \<union> (case p of None \<Rightarrow> {} | Some q \<Rightarrow> {(x, ar_AgentVersionID q, g, ModeExclude)}))"
  using assms by (cases p) (auto simp: plan_rows_def)

lemma beginPilot_follows:
  assumes "rows_follow (rd_rollouts db) p (Some r)" "agent_rows db = plan_rows p None" "unphased db"
    "ar_State r = RolloutPilot" "ar_ExcludeAssignmentID r = None" "ar_FleetAssignmentID r = None" "ar_PilotGroupID r = Some g" "g \<noteq> BuiltinGroupID"
    "\<not> sv_ApprovalsRequired svc" "ids = (x, i)" "x \<noteq> i" "{x, i} \<inter> as_id ` set (rd_assignments db) = {}"
  shows "follows_some (snd (beginPilot svc ids r g now db))"
proof -
  define r1 where "r1 = r\<lparr>ar_ExcludeAssignmentID := (if p = None then None else Some x)\<rparr>"
  define b where "b = r1\<lparr>ar_PilotAssignmentID := Some i, ar_PilotStartedAt := Some now, ar_Detail := []\<rparr>"
  let ?b = "b\<lparr>ar_UpdatedAt := now\<rparr>" and ?ex = "case p of None \<Rightarrow> {} | Some q \<Rightarrow> {(x, ar_AgentVersionID q, g, ModeExclude)}"
  obtain db1 where db1: "excludePilot x r g now db = (r1, db1)" "agent_rows db1 = plan_rows p None \<union> ?ex" "unphased db1" "rd_rollouts db1 = rd_rollouts db"
    using excluded_pilot [OF assms(1,5,2,3)] unfolding r1_def by blast
  have build: "ar_AgentVersionID q \<noteq> ar_AgentVersionID r" if "p = Some q" for q using builds_differ assms(1) that by blast
  then have none: "\<forall>k. (k, ar_AgentVersionID r1, g, ModeInclude) \<notin> agent_rows db1" unfolding db1(2) r1_def by (cases p) (auto simp: plan_rows_def)
  obtain db2 where db2: "include_build svc i r1 g ''the pilot group'' now db1 = Some (Inr i, db2)"
    "agent_rows db2 = insert (i, ar_AgentVersionID r1, g, ModeInclude) (agent_rows db1)" "unphased db2" "rd_rollouts db2 = rd_rollouts db1"
    using included [OF assms(9) none db1(3)] by blast
  have step: "snd (beginPilot svc ids r g now db) = save b RolloutActor ''agent_rollout.piloting'' now db2"
    using assms(10) db1(1) db2(1) by (simp add: beginPilot_def piloting_def b_def Let_def)
  have bf: "ar_PilotAssignmentID ?b = Some i" "ar_ExcludeAssignmentID ?b = (if p = None then None else Some x)" "ar_PilotGroupID ?b = Some g"
    "ar_State ?b = RolloutPilot" "kept ?b r" "ar_FleetAssignmentID ?b = None" "ar_AgentVersionID ?b = ar_AgentVersionID r1"
    using assms(4,6,7) by (simp_all add: b_def r1_def)
  have r: "read_from r (rd_rollouts db2)" using rows_followD(2) [OF assms(1) refl] db1(4) db2(4) read_from_row by metis
  have "rd_rollouts (save b RolloutActor ''agent_rollout.piloting'' now db2) = replace ?b (rd_rollouts db)"
    using Update_replace [OF r _ bf(5)] rows_followD(5) [OF assms(1)] db1(4) db2(4) by (simp add: save_def)
  moreover have "rows_follow (replace ?b (rd_rollouts db)) p (Some ?b)"
    using bf(4) by (intro rows_follow_update [OF assms(1) bf(5)]) auto
  moreover have "pilot_ok (p \<noteq> None) ?b" using bf assms(8) by (simp add: pilot_ok_def)
  moreover have plan: "plan_rows p (Some ?b) = insert (i, ar_AgentVersionID r1, g, ModeInclude) (plan_rows p None \<union> ?ex)"
    using plan_of_pilot [OF bf(1-3)] bf(7) by simp
  moreover have "inj_on fst (plan_rows p (Some ?b))"
  proof -
    have "fst y \<noteq> i \<and> fst y \<noteq> x" if "y \<in> plan_rows p None" for y using row_ids [of y db] that assms(2,12) by auto
    then show ?thesis unfolding plan using assms(11) by (cases p) (auto simp: plan_rows_def inj_on_def)
  qed
  ultimately have "follows (save b RolloutActor ''agent_rollout.piloting'' now db2) p (Some ?b)"
    using db2(2,3) db1(2) agent_rows_cong [of "save b RolloutActor ''agent_rollout.piloting'' now db2" db2] by (simp add: follows_def)
  then show ?thesis unfolding step follows_some_def by blast
qed

definition ids_fresh :: "(uuid \<Rightarrow> uuid \<times> uuid) \<Rightarrow> rollout_db \<Rightarrow> bool" where
  "ids_fresh fresh db \<longleftrightarrow> (\<forall>i. fst (fresh i) \<noteq> snd (fresh i) \<and> {fst (fresh i), snd (fresh i)} \<inter> as_id ` set (rd_assignments db) = {})"

lemma Start_follows:
  assumes "follows_some db" "\<not> sv_ApprovalsRequired svc" "ids_fresh fresh db" "\<forall>q \<in> set (rd_rollouts db). ar_State q \<noteq> RolloutHalted"
    "new_id \<notin> ar_ID ` set (rd_rollouts db)" "py_PilotGroupID (rd_policy db) \<noteq> Some BuiltinGroupID"
    "Start_rollout svc fresh new_id build version now db = (res, db')"
  shows "follows_some db'"
  using assms(7)
proof (cases rule: Start_cases)
  case off
  then show ?thesis using assms(1) by simp
next
  case (on g)
  let ?db3 = "started_db new_id build version g now db" and ?r = "new_rollout new_id build version g now db"
  obtain p h where ph: "follows db p h" using assms(1) unfolding follows_some_def by blast
  have rows: "rows_follow (rd_rollouts ?db3) p (Some ?r)" by (rule started_rows [OF ph assms(4,5) on(4)])
  note rows3 = started_assignments [OF ph assms(4,5), of build version g now]
  have mem: "?r \<in> set (rd_rollouts ?db3)" using rows_followD(2) [OF rows refl] by blast
  have "q = ?r" if "q \<in> set (rd_rollouts ?db3)" "ar_ID q = new_id" for q
    using rows_followD(5) [OF rows] mem that by (simp add: distinct_map inj_on_def)
  then have "GetAgentRollout new_id ?db3 = Some ?r" unfolding GetAgentRollout_def
    using mem new_rollout_fields(1) by (intro find_unique) blast+
  then have "db' = snd (rollout_step svc fresh now ?r ?db3)" by (rule on(6))
  also have "rollout_step svc fresh now ?r ?db3 = beginPilot svc (fresh new_id) ?r g now ?db3"
    by (simp add: rollout_step_def stepPilot_def) (simp add: new_rollout_def)
  finally have db': "db' = snd (beginPilot svc (fresh new_id) ?r g now ?db3)" .
  have "{fst (fresh new_id), snd (fresh new_id)} \<inter> as_id ` set (rd_assignments ?db3) = {}"
    using started_ids [OF ph assms(4,5)] assms(3) unfolding ids_fresh_def by blast
  moreover have "ar_ExcludeAssignmentID ?r = None" "ar_FleetAssignmentID ?r = None" "ar_PilotGroupID ?r = Some g"
    by (simp_all add: new_rollout_def)
  moreover have "g \<noteq> BuiltinGroupID" using on(1) assms(6) by simp
  moreover have "fst (fresh new_id) \<noteq> snd (fresh new_id)" using assms(3) unfolding ids_fresh_def by blast
  ultimately show ?thesis unfolding db'
    using beginPilot_follows [OF rows rows3 new_rollout_fields(3) _ _ _ _ assms(2) prod.collapse [symmetric]] by blast
qed

section \<open>One build for every device\<close>

text \<open>The build a device is meant to be offered: the one of the pilot it is in, else the fleet's.\<close>

definition piloted_by :: "rollout_db \<Rightarrow> uuid \<Rightarrow> AgentRollout \<Rightarrow> bool" where
  "piloted_by db device r \<longleftrightarrow> ar_State r \<in> {RolloutPilot, RolloutHalted}
     \<and> (case ar_PilotGroupID r of None \<Rightarrow> False | Some g \<Rightarrow> (g, device) \<in> set (rd_members db))"

definition meant :: "rollout_db \<Rightarrow> uuid \<Rightarrow> uuid option" where
  "meant db device =
     (case find (piloted_by db device) (rd_rollouts db) of
        Some r \<Rightarrow> Some (ar_AgentVersionID r)
      | None \<Rightarrow> if (BuiltinGroupID, device) \<in> set (rd_members db)
                then map_option ar_AgentVersionID (find (\<lambda>q. ar_State q = RolloutPromoted) (rd_rollouts db)) else None)"

lemma find_promoted:
  assumes "rows_follow rows p h"
  shows "find (\<lambda>q. ar_State q = RolloutPromoted) rows = p"
proof (cases p)
  case None
  then have "\<not> (\<exists>x. x \<in> set rows \<and> ar_State x = RolloutPromoted)" using rows_followD(3) [OF assms] by blast
  then show ?thesis unfolding None find_None_iff .
next
  case (Some q)
  have "q \<in> set rows \<and> ar_State q = RolloutPromoted" using rows_followD(1) [OF assms Some] by blast
  moreover have "y = q" if "y \<in> set rows" "ar_State y = RolloutPromoted" for y using rows_followD(3) [OF assms that] Some by simp
  ultimately show ?thesis unfolding Some by (intro find_unique) blast+
qed

lemma find_piloted:
  assumes "follows db p h"
  shows "find (piloted_by db device) (rd_rollouts db) =
    (case h of Some r \<Rightarrow> if (the (ar_PilotGroupID r), device) \<in> set (rd_members db) then Some r else None | None \<Rightarrow> None)"
proof -
  have f: "rows_follow (rd_rollouts db) p h" "pred_option (pilot_ok (p \<noteq> None)) h" using assms by (simp_all add: follows_def)
  have only: "h = Some y" if "y \<in> set (rd_rollouts db)" "piloted_by db device y" for y
  proof -
    have "ar_State y \<noteq> RolloutPromoted" "ar_State y \<noteq> RolloutSuperseded" using that(2) by (auto simp: piloted_by_def)
    then show ?thesis using rows_followD(4) [OF f(1) that(1)] by blast
  qed
  show ?thesis
  proof (cases "\<exists>r. h = Some r \<and> piloted_by db device r")
    case True
    then obtain r where r: "h = Some r" "piloted_by db device r" by blast
    have "r \<in> set (rd_rollouts db)" using rows_followD(2) [OF f(1) r(1)] by blast
    moreover have "(the (ar_PilotGroupID r), device) \<in> set (rd_members db)" using r(2) by (auto simp: piloted_by_def split: option.splits)
    moreover have "y = r" if "y \<in> set (rd_rollouts db)" "piloted_by db device y" for y using only [OF that] r(1) by simp
    ultimately have "find (piloted_by db device) (rd_rollouts db) = Some r" using r(2) by (intro find_unique) blast+
    then show ?thesis unfolding r(1) option.case if_P [OF \<open>(the (ar_PilotGroupID r), device) \<in> set (rd_members db)\<close>] .
  next
    case False
    then have "find (piloted_by db device) (rd_rollouts db) = None" using only unfolding find_None_iff by blast
    moreover have "(the (ar_PilotGroupID r), device) \<notin> set (rd_members db)" if "h = Some r" for r
    proof -
      have "ar_State r \<in> {RolloutPilot, RolloutHalted}" "ar_PilotGroupID r \<noteq> None" using f(2) that by (simp_all add: pilot_ok_def)
      moreover have "\<not> piloted_by db device r" using False that by blast
      ultimately show ?thesis unfolding piloted_by_def by (cases "ar_PilotGroupID r") simp_all
    qed
    ultimately show ?thesis by (cases h) simp_all
  qed
qed

lemma planned_meant:
  assumes "follows db p h"
  shows "planned db p h device = set_option (meant db device)"
proof -
  have "rows_follow (rd_rollouts db) p h" using assms by (simp add: follows_def)
  then show ?thesis unfolding meant_def find_piloted [OF assms] planned_def
    by (cases h; cases p) (simp_all add: find_promoted)
qed

text \<open>
  The operations with two-person approval off, new identifiers, a pilot group that is not All devices (which the settings refuse),
  and no rollout that stands halted when the next is started. Between them everything else may change
  but the rollouts and the assignments of agent builds.
\<close>

text \<open>
  \<open>of_world\<close>: whatever else happens, but for the rollouts and the assignments of agent builds. An administrator who assigns or
  unassigns an agent build by hand, or deletes a group or a build with such an assignment, is not among the steps.
\<close>

inductive offer_step :: "rollout_service \<Rightarrow> rollout_db \<Rightarrow> rollout_db \<Rightarrow> bool" for svc where
  of_start: "ids_fresh fresh db \<Longrightarrow> \<forall>q \<in> set (rd_rollouts db). ar_State q \<noteq> RolloutHalted \<Longrightarrow> new_id \<notin> ar_ID ` set (rd_rollouts db)
    \<Longrightarrow> py_PilotGroupID (rd_policy db) \<noteq> Some BuiltinGroupID \<Longrightarrow> Start_rollout svc fresh new_id build version now db = (r, db') \<Longrightarrow> offer_step svc db db'"
| of_advance: "ids_fresh fresh db \<Longrightarrow> offer_step svc db (snd (Advance svc fresh now db))"
| of_resume: "ids_fresh fresh db \<Longrightarrow> offer_step svc db (snd (Resume svc fresh i actor now db))"
| of_world: "rd_rollouts db' = rd_rollouts db \<Longrightarrow> filter is_agent (rd_assignments db') = filter is_agent (rd_assignments db) \<Longrightarrow> offer_step svc db db'"

lemma offer_step_follows:
  assumes "offer_step svc db db'" "\<not> sv_ApprovalsRequired svc" "follows_some db"
  shows "follows_some db'"
  using assms
proof (induction rule: offer_step.induct)
  case (of_start fresh db new_id build version now r db')
  then show ?case using Start_follows by blast
next
  case (of_advance fresh db now)
  then show ?case by (intro Advance_follows) (simp_all add: ids_fresh_def)
next
  case (of_resume fresh db i actor now)
  then show ?case by (intro Resume_follows) (simp_all add: ids_fresh_def)
next
  case (of_world db' db)
  have "unphased d \<longleftrightarrow> (\<forall>a \<in> set (filter is_agent (rd_assignments d)). \<not> Phased (as_rollout a))" for d by (auto simp: unphased_def)
  then have "agent_rows db' = agent_rows db" "unphased db' = unphased db" unfolding agent_rows_def using of_world(2) by (simp_all only:)
  then show ?case using of_world(1,4) by (simp add: follows_some_def follows_def)
qed

interpretation offering: state_machine "offer_step svc" "\<lambda>db. rd_rollouts db = [] \<and> filter is_agent (rd_assignments db) = []"
    "\<lambda>db. \<not> sv_ApprovalsRequired svc \<longrightarrow> follows_some db" for svc
proof unfold_locales
  fix svc and db :: rollout_db assume none: "rd_rollouts db = [] \<and> filter is_agent (rd_assignments db) = []"
  then have "unphased db" unfolding unphased_def by (auto simp: filter_empty_conv)
  then have "follows db None None" using none by (simp add: follows_def rows_follow_def plan_rows_def agent_rows_def)
  then show "\<not> sv_ApprovalsRequired svc \<longrightarrow> follows_some db" unfolding follows_some_def by blast
qed (use offer_step_follows in blast)

text \<open>
  C13. Every device is offered one agent build at most, and the right one. From a state without rollouts and without assignments
  of agent builds, after any sequence of starts, advances and resumptions of rollouts, with changes of devices, groups' members, policy and
  the assignments of other kinds in between: what the assignments offer a device is the build of the pilot its group is in - running or
  halted - and otherwise, on every device of the fleet, the build promoted last. In particular no device of the fleet is without a
  build once one has been promoted. This is for a server that leaves agent builds to the rollouts: nobody assigns or unassigns one by hand,
  and no group or build that an assignment of theirs names is deleted. Two-person approval is off, the pilot group is not the group of all
  devices, and a new rollout is started only when none stands halted.
\<close>

theorem one_build_offered:
  assumes "(offer_step svc)\<^sup>*\<^sup>* db0 db" "\<not> sv_ApprovalsRequired svc" "rd_rollouts db0 = []" "filter is_agent (rd_assignments db0) = []"
  shows "offered db device now = set_option (meant db device)
    \<and> ((\<exists>q \<in> set (rd_rollouts db). ar_State q = RolloutPromoted) \<and> (BuiltinGroupID, device) \<in> set (rd_members db) \<longrightarrow> meant db device \<noteq> None)"
proof -
  have "follows_some db" using offering.reached [OF assms(1)] assms(2-4) by blast
  then obtain p h where ph: "follows db p h" unfolding follows_some_def by blast
  have "offered db device now = set_option (meant db device)" unfolding offered_planned [OF ph] by (rule planned_meant [OF ph])
  moreover have "meant db device \<noteq> None" if "q \<in> set (rd_rollouts db)" "ar_State q = RolloutPromoted" "(BuiltinGroupID, device) \<in> set (rd_members db)" for q
  proof -
    have "find (\<lambda>q. ar_State q = RolloutPromoted) (rd_rollouts db) \<noteq> None" unfolding find_None_iff using that(1,2) by blast
    then show ?thesis unfolding meant_def using that(3) by (simp split: option.split)
  qed
  ultimately show ?thesis by blast
qed

text \<open>
  Build \<open>A\<close> reaches the fleet, then \<open>B\<close> is piloted: the pilot's device is offered \<open>B\<close> alone, the other one \<open>A\<close>.
\<close>

definition ow_fresh :: "nat \<Rightarrow> uuid \<Rightarrow> uuid \<times> uuid" where "ow_fresh n i = (replicate n (CHR ''x''), replicate n (CHR ''i''))"

definition ow_a_piloted :: rollout_db where "ow_a_piloted = snd (Start_rollout rw_service (ow_fresh 1) ''1'' ''A'' ''1.0.0'' 0 rw_empty)"

definition ow_a_promoted :: rollout_db where "ow_a_promoted = snd (Advance rw_service (ow_fresh 2) (2 * hour) ow_a_piloted)"

definition ow_b_piloted :: rollout_db where
  "ow_b_piloted = snd (Start_rollout rw_service (ow_fresh 3) ''2'' ''B'' ''1.1.0'' (3 * hour) ow_a_promoted)"

lemma ow_fresh_ids:
  assumes "\<forall>a \<in> set (rd_assignments db). length (as_id a) < n" "0 < n"
  shows "ids_fresh (ow_fresh n) db"
proof -
  have "length (fst (ow_fresh n i)) = n" "length (snd (ow_fresh n i)) = n" for i by (simp_all add: ow_fresh_def)
  then have "fst (ow_fresh n i) \<notin> as_id ` set (rd_assignments db)" "snd (ow_fresh n i) \<notin> as_id ` set (rd_assignments db)" for i
    using assms(1) by (metis imageE less_irrefl)+
  moreover have "fst (ow_fresh n i) \<noteq> snd (ow_fresh n i)" for i using assms(2) unfolding ow_fresh_def by (cases n) simp_all
  ultimately show ?thesis unfolding ids_fresh_def by blast
qed

lemma ow_evaluated:
  "let db = ow_a_promoted in list_all (\<lambda>a. length (as_id a) < 3) (rd_assignments db) \<and> list_all (\<lambda>q. ar_State q \<noteq> RolloutHalted \<and> ar_ID q \<noteq> ''2'') (rd_rollouts db)
     \<and> py_PilotGroupID (rd_policy db) = Some ''g''"
  "let db = ow_b_piloted in meant db ''d1'' = Some ''B'' \<and> meant db ''d2'' = Some ''A''"
  by code_simp+

lemma ow_facts:
  "\<forall>a \<in> set (rd_assignments ow_a_promoted). length (as_id a) < 3"
  "\<forall>q \<in> set (rd_rollouts ow_a_promoted). ar_State q \<noteq> RolloutHalted" "''2'' \<notin> ar_ID ` set (rd_rollouts ow_a_promoted)"
  "py_PilotGroupID (rd_policy ow_a_promoted) \<noteq> Some BuiltinGroupID"
proof -
  note e = ow_evaluated(1) [unfolded Let_def list_all_iff]
  show "\<forall>a \<in> set (rd_assignments ow_a_promoted). length (as_id a) < 3" using e by blast
  show "\<forall>q \<in> set (rd_rollouts ow_a_promoted). ar_State q \<noteq> RolloutHalted" using e by blast
  show "''2'' \<notin> ar_ID ` set (rd_rollouts ow_a_promoted)" using e by fastforce
  show "py_PilotGroupID (rd_policy ow_a_promoted) \<noteq> Some BuiltinGroupID" using e by (simp add: BuiltinGroupID_def)
qed

lemma ow_first: "\<forall>a \<in> set (rd_assignments ow_a_piloted). length (as_id a) < 2"
  by code_simp

lemma ow_run: "(offer_step rw_service)\<^sup>*\<^sup>* rw_empty ow_b_piloted"
proof -
  have "offer_step rw_service rw_empty ow_a_piloted"
    unfolding ow_a_piloted_def
    by (rule of_start [OF ow_fresh_ids _ _ _ prod.collapse [symmetric]]) (simp_all add: rw_empty_def BuiltinGroupID_def)
  moreover have "offer_step rw_service ow_a_piloted ow_a_promoted"
    unfolding ow_a_promoted_def by (rule of_advance [OF ow_fresh_ids [OF ow_first]]) simp
  moreover have "offer_step rw_service ow_a_promoted ow_b_piloted"
    unfolding ow_b_piloted_def by (rule of_start [OF ow_fresh_ids [OF ow_facts(1)] ow_facts(2-4) prod.collapse [symmetric]]) simp
  ultimately show ?thesis by simp
qed

theorem one_build_offered_witness:
  "offered ow_b_piloted ''d1'' (4 * hour) = {''B''} \<and> offered ow_b_piloted ''d2'' (4 * hour) = {''A''}"
proof -
  have "\<not> sv_ApprovalsRequired rw_service" "rd_rollouts rw_empty = []" "filter is_agent (rd_assignments rw_empty) = []"
    by (simp_all add: rw_service_def rw_empty_def)
  note offer = one_build_offered [OF ow_run this]
  show ?thesis using offer [of "''d1''"] offer [of "''d2''"] ow_evaluated(2) by (simp add: Let_def)
qed

section \<open>A halted pilot and the next rollout\<close>

text \<open>
  Without the last condition of \<open>of_start\<close> a device is offered two builds: the pilot's device fails to run \<open>B\<close>, which is halted
  and keeps its assignments; the next rollout does not supersede it, since it is not in progress, and pilots \<open>C\<close> beside it.
\<close>

definition ow_report :: "string \<Rightarrow> string \<Rightarrow> rollout_db \<Rightarrow> rollout_db" where
  "ow_report build status db = db\<lparr>rd_status := rd_status db @ [\<lparr>dr_device = ''d1'', dr_hostname = ''h'', dr_item = build, dr_status = status, dr_detail = []\<rparr>]\<rparr>"

definition ow_c_piloted :: rollout_db where
  "ow_c_piloted = (let halted = snd (Advance rw_service (ow_fresh 4) (4 * hour) (ow_report ''B'' ItemFailed ow_b_piloted))
     in snd (Start_rollout rw_service (ow_fresh 5) ''3'' ''C'' ''1.2.0'' (5 * hour) halted))"

lemma halted_pilot_offered_two:
  "(let db = ow_c_piloted in (map ar_State (rd_rollouts db), map item_key (EffectiveItems (rd_members db) (rd_assignments db) ''d1'' (6 * hour))))
   = ([RolloutPromoted, RolloutHalted, RolloutPilot], [(ItemKindAgent, ''B''), (ItemKindAgent, ''C'')])"
  by code_simp

text \<open>Where approval is needed, a pilot that waits for it has left the build of the fleet already, and is offered none.\<close>

lemma waiting_pilot_offered_none:
  "(let db = snd (Start_rollout (rw_service\<lparr>sv_ApprovalsRequired := True\<rparr>) (ow_fresh 3) ''2'' ''B'' ''1.1.0'' (3 * hour) ow_a_promoted)
    in (map ar_State (rd_rollouts db), EffectiveItems (rd_members db) (rd_assignments db) ''d1'' (4 * hour)))
   = ([RolloutPromoted, RolloutPilot], [])"
  by code_simp

end
