(* ===== verification/Enrollment.thy ===== *)
theory Enrollment
  imports Agent_Rollout Command_Service
begin

text \<open>
  How a device comes to be trusted, and ceases to be: enrolment tokens and registrations, enrolment, renewal of
  certificates (\<^verbatim>\<open>src/internal/server/enroll\<close>, \<^verbatim>\<open>server/ca/ca.go\<close>), the guard of the agents' API
  (\<^verbatim>\<open>agentapi/handler.go\<close>, \<^verbatim>\<open>clientcert.go\<close>), retiring and unenrolling (\<^verbatim>\<open>server/devices\<close>), and registering
  devices in advance (\<^verbatim>\<open>adminapi/registrations.go\<close>), over the tables of \<^verbatim>\<open>store/tokens.go\<close>,
  \<^verbatim>\<open>devices.go\<close> and \<^verbatim>\<open>registrations.go\<close>. A transaction that fails changes nothing. X.509, PEM, CSV, SHA-256 and
  the text of identifiers are parameters; new identifiers, random serial numbers and the time are arguments. Messages
  stand for what they say, without the values they quote.
\<close>

section \<open>Data\<close>

abbreviation "DeviceActive \<equiv> ''active''"
abbreviation "DeviceRetired \<equiv> ''retired''"
abbreviation "DeviceReplaced \<equiv> ''replaced''"
abbreviation "DeviceUnenrolled \<equiv> ''unenrolled''"

datatype enroll_error = EnrollBadRequest | ErrTokenNotFound | ErrTokenRevoked | ErrTokenExpired | ErrTokenExhausted
  | ErrNotRegistered | ErrBadCSR | EnrollInternal

record EnrollmentToken =
  et_ID :: uuid
  et_TokenHash :: string
  et_Label :: string
  et_ExpiresAt :: "go_time option"
  et_MaxUses :: "int option"
  et_UseCount :: int
  et_RevokedAt :: "go_time option"
  et_CreatedBy :: string
  et_CreatedAt :: go_time
  et_RegisteredOnly :: bool

record Device =
  dv_ID :: uuid
  dv_Hostname :: string
  dv_Serial :: string
  dv_SMBIOSUUID :: string
  dv_OSVersion :: string
  dv_Status :: string
  dv_CertSerial :: string
  dv_CertExpiresAt :: go_time
  dv_LastSeenAt :: "go_time option"
  dv_AgentVersion :: string
  dv_EnrolledAt :: go_time
  dv_ReplacedBy :: "uuid option"
  dv_PrevCertSerial :: string
  dv_OSBuild :: string
  dv_Manufacturer :: string
  dv_Model :: string

record DeviceRegistration =
  rg_ID :: uuid
  rg_Serial :: string
  rg_DeviceName :: string
  rg_GroupIDs :: "uuid list"
  rg_Notes :: string
  rg_DeviceID :: "uuid option"
  rg_EnrolledAt :: "go_time option"
  rg_CreatedAt :: go_time
  rg_CreatedBy :: string

record device_group =
  gp_ID :: uuid
  gp_Name :: string
  gp_Kind :: string

record enroll_audit =
  eu_Actor :: string
  eu_Action :: string
  eu_TargetKind :: string
  eu_TargetID :: string
  eu_Details :: "(string \<times> json) list"

record enroll_db =
  ed_tokens :: "EnrollmentToken list"
  ed_registrations :: "DeviceRegistration list"
  ed_devices :: "Device list"
  ed_groups :: "device_group list"
  ed_members :: members
  ed_commands :: "Command list"
  ed_audit :: "enroll_audit list"

record DeviceFacts =
  df_Hostname :: string
  df_Serial :: string
  df_SMBIOSUUID :: string
  df_OSVersion :: string

record EnrollRequest =
  rq_Token :: string
  rq_CSRPEM :: string
  rq_Device :: DeviceFacts

record EnrollResponse =
  rs_DeviceID :: string
  rs_CertPEM :: string
  rs_CAPEM :: string

record csr =
  cq_SignatureOK :: bool
  cq_P256 :: bool
  cq_PublicKey :: string

record certificate =
  ce_Serial :: string
  ce_CommonName :: string
  ce_NotBefore :: go_time
  ce_NotAfter :: go_time
  ce_PublicKey :: string

record enroll_env =
  ee_sha :: "string \<Rightarrow> string"
  ee_uuid_String :: "uuid \<Rightarrow> string"
  ee_uuid_Parse :: "string \<Rightarrow> uuid option"
  ee_pem_Decode :: "string \<Rightarrow> (string \<times> string) option"
  ee_ParseCSR :: "string \<Rightarrow> csr option"
  ee_encode_cert :: "certificate \<Rightarrow> string"
  ee_CAPEM :: string
  ee_CertValidity :: duration

section \<open>Tokens\<close>

abbreviation "tokenPrefix \<equiv> ''rt_''"

definition HashToken :: "enroll_env \<Rightarrow> string \<Rightarrow> string" where
  "HashToken E p = ee_sha E (trim_space p)"

text \<open>\<open>secret\<close>: 32 random bytes in base64, if the random source gave them.\<close>

definition GenerateToken :: "enroll_env \<Rightarrow> string option \<Rightarrow> (string \<times> string) option" where
  "GenerateToken E secret = map_option (\<lambda>b. (tokenPrefix @ b, HashToken E (tokenPrefix @ b))) secret"

definition CheckUsable :: "EnrollmentToken \<Rightarrow> go_time \<Rightarrow> enroll_error option" where
  "CheckUsable t now =
     (if et_RevokedAt t \<noteq> None then Some ErrTokenRevoked
      else if (case et_ExpiresAt t of None \<Rightarrow> False | Some x \<Rightarrow> \<not> now < x) then Some ErrTokenExpired
      else if (case et_MaxUses t of None \<Rightarrow> False | Some n \<Rightarrow> et_UseCount t \<ge> n) then Some ErrTokenExhausted
      else None)"

definition enrollAudit :: "string \<Rightarrow> string \<Rightarrow> string \<Rightarrow> string \<Rightarrow> (string \<times> json) list \<Rightarrow> enroll_db \<Rightarrow> enroll_db" where
  "enrollAudit actor action kind target details db = db\<lparr>ed_audit := ed_audit db @
     [\<lparr>eu_Actor = actor, eu_Action = action, eu_TargetKind = kind, eu_TargetID = target, eu_Details = details\<rparr>]\<rparr>"

definition CreateEnrollmentToken :: "EnrollmentToken \<Rightarrow> enroll_db \<Rightarrow> enroll_db option" where
  "CreateEnrollmentToken t db =
     (if list_ex (\<lambda>u. et_ID u = et_ID t \<or> et_TokenHash u = et_TokenHash t) (ed_tokens db) then None
      else Some (db\<lparr>ed_tokens := ed_tokens db @ [t\<lparr>et_UseCount := 0, et_RevokedAt := None\<rparr>]\<rparr>))"

definition GetEnrollmentToken :: "uuid \<Rightarrow> enroll_db \<Rightarrow> EnrollmentToken option" where
  "GetEnrollmentToken i db = find (\<lambda>t. et_ID t = i) (ed_tokens db)"

definition GetEnrollmentTokenByHashForUpdate :: "string \<Rightarrow> enroll_db \<Rightarrow> EnrollmentToken option" where
  "GetEnrollmentTokenByHashForUpdate h db = find (\<lambda>t. et_TokenHash t = h) (ed_tokens db)"

definition IncrementTokenUse :: "uuid \<Rightarrow> enroll_db \<Rightarrow> enroll_db" where
  "IncrementTokenUse i db = db\<lparr>ed_tokens :=
     map (\<lambda>t. if et_ID t = i then t\<lparr>et_UseCount := et_UseCount t + 1\<rparr> else t) (ed_tokens db)\<rparr>"

definition RevokeEnrollmentToken :: "uuid \<Rightarrow> go_time \<Rightarrow> enroll_db \<Rightarrow> enroll_db" where
  "RevokeEnrollmentToken i at db = db\<lparr>ed_tokens :=
     map (\<lambda>t. if et_ID t = i \<and> et_RevokedAt t = None then t\<lparr>et_RevokedAt := Some at\<rparr> else t) (ed_tokens db)\<rparr>"

record TokenOptions =
  to_Label :: string
  to_MaxUses :: "int option"
  to_ExpiresAt :: "go_time option"
  to_CreatedBy :: string
  to_RegisteredOnly :: bool

definition CreateToken ::
  "enroll_env \<Rightarrow> TokenOptions \<Rightarrow> uuid \<Rightarrow> string option \<Rightarrow> go_time \<Rightarrow> enroll_db \<Rightarrow> (enroll_error + string \<times> EnrollmentToken) \<times> enroll_db" where
  "CreateToken E opts i secret now db =
     (if (case to_MaxUses opts of None \<Rightarrow> False | Some n \<Rightarrow> n \<le> 0) then (Inl EnrollBadRequest, db)
      else case GenerateToken E secret of
        None \<Rightarrow> (Inl EnrollInternal, db)
      | Some (p, hash) \<Rightarrow>
          let tok = \<lparr>et_ID = i, et_TokenHash = hash, et_Label = to_Label opts, et_ExpiresAt = to_ExpiresAt opts,
                et_MaxUses = to_MaxUses opts, et_UseCount = 0, et_RevokedAt = None, et_CreatedBy = to_CreatedBy opts,
                et_CreatedAt = now, et_RegisteredOnly = to_RegisteredOnly opts\<rparr> in
          (case CreateEnrollmentToken tok db of
             None \<Rightarrow> (Inl EnrollInternal, db)
           | Some db1 \<Rightarrow> (Inr (p, tok), enrollAudit (to_CreatedBy opts) ''enrollment_token.created'' ''enrollment_token'' (ee_uuid_String E i)
                [(''label'', JStr (to_Label opts)), (''registered_only'', JBool (to_RegisteredOnly opts))] db1)))"

definition RevokeToken :: "enroll_env \<Rightarrow> uuid \<Rightarrow> string \<Rightarrow> go_time \<Rightarrow> enroll_db \<Rightarrow> enroll_error option \<times> enroll_db" where
  "RevokeToken E i actor now db =
     (case GetEnrollmentToken i db of
        None \<Rightarrow> (Some ErrTokenNotFound, db)
      | Some tok \<Rightarrow> (None, enrollAudit actor ''enrollment_token.revoked'' ''enrollment_token'' (ee_uuid_String E i)
            [(''label'', JStr (et_Label tok))] (RevokeEnrollmentToken i now db)))"

text \<open>The handler that creates one (\<^verbatim>\<open>adminapi/tokens.go\<close>): hours turn into an instant, if there are any.\<close>

definition createToken_options :: "string \<Rightarrow> int option \<Rightarrow> int \<Rightarrow> bool \<Rightarrow> string \<Rightarrow> go_time \<Rightarrow> TokenOptions" where
  "createToken_options label max_uses expires_in_hours registered_only actor now =
     \<lparr>to_Label = label, to_MaxUses = max_uses,
      to_ExpiresAt = (if expires_in_hours > 0 then Some (time_add now (dur_mul expires_in_hours hour)) else None),
      to_CreatedBy = actor, to_RegisteredOnly = registered_only\<rparr>"

section \<open>Devices\<close>

definition CreateDevice :: "Device \<Rightarrow> enroll_db \<Rightarrow> enroll_db option" where
  "CreateDevice d db =
     (if list_ex (\<lambda>e. dv_ID e = dv_ID d) (ed_devices db) then None
      else Some (db\<lparr>ed_devices := ed_devices db @ [d\<lparr>dv_LastSeenAt := None, dv_AgentVersion := [], dv_ReplacedBy := None, dv_PrevCertSerial := [],
             dv_OSBuild := [], dv_Manufacturer := [], dv_Model := []\<rparr>]\<rparr>))"

definition GetDevice :: "uuid \<Rightarrow> enroll_db \<Rightarrow> Device option" where
  "GetDevice i db = find (\<lambda>d. dv_ID d = i) (ed_devices db)"

definition updateDevices :: "uuid \<Rightarrow> (Device \<Rightarrow> Device) \<Rightarrow> enroll_db \<Rightarrow> enroll_db" where
  "updateDevices i f db = db\<lparr>ed_devices := map (\<lambda>d. if dv_ID d = i then f d else d) (ed_devices db)\<rparr>"

definition SetDeviceStatus :: "uuid \<Rightarrow> string \<Rightarrow> enroll_db \<Rightarrow> enroll_db" where
  "SetDeviceStatus i st = updateDevices i (\<lambda>d. d\<lparr>dv_Status := st\<rparr>)"

definition UpdateDeviceCert :: "uuid \<Rightarrow> string \<Rightarrow> string \<Rightarrow> go_time \<Rightarrow> enroll_db \<Rightarrow> enroll_db" where
  "UpdateDeviceCert i prevSerial newSerial expiresAt =
     updateDevices i (\<lambda>d. d\<lparr>dv_PrevCertSerial := prevSerial, dv_CertSerial := newSerial, dv_CertExpiresAt := expiresAt\<rparr>)"

definition ClearPrevCertSerial :: "uuid \<Rightarrow> enroll_db \<Rightarrow> enroll_db" where
  "ClearPrevCertSerial i = updateDevices i (\<lambda>d. d\<lparr>dv_PrevCertSerial := []\<rparr>)"

definition RecordCheckin :: "uuid \<Rightarrow> string \<Rightarrow> go_time \<Rightarrow> enroll_db \<Rightarrow> enroll_db" where
  "RecordCheckin i agentVersion at = updateDevices i (\<lambda>d. d\<lparr>dv_LastSeenAt := Some at, dv_AgentVersion := agentVersion\<rparr>)"

definition coalesce :: "string \<Rightarrow> string \<Rightarrow> string" where
  "coalesce reported stored = (if reported = [] then stored else reported)"

record HardwareInfo =
  hw_Hostname :: string
  hw_Serial :: string
  hw_SMBIOSUUID :: string
  hw_OSVersion :: string
  hw_OSBuild :: string
  hw_Manufacturer :: string
  hw_Model :: string

definition UpdateDeviceHardware :: "uuid \<Rightarrow> HardwareInfo \<Rightarrow> enroll_db \<Rightarrow> enroll_db" where
  "UpdateDeviceHardware i h = updateDevices i (\<lambda>d. d\<lparr>dv_Hostname := coalesce (hw_Hostname h) (dv_Hostname d),
      dv_Serial := coalesce (hw_Serial h) (dv_Serial d), dv_SMBIOSUUID := coalesce (hw_SMBIOSUUID h) (dv_SMBIOSUUID d),
      dv_OSVersion := coalesce (hw_OSVersion h) (dv_OSVersion d), dv_OSBuild := coalesce (hw_OSBuild h) (dv_OSBuild d),
      dv_Manufacturer := coalesce (hw_Manufacturer h) (dv_Manufacturer d), dv_Model := coalesce (hw_Model h) (dv_Model d)\<rparr>)"

definition FindActiveDeviceByHardware :: "string \<Rightarrow> string \<Rightarrow> enroll_db \<Rightarrow> Device option" where
  "FindActiveDeviceByHardware serial smbios db =
     (if serial = [] \<and> smbios = [] then None
      else case sort_key dv_EnrolledAt (filter (\<lambda>d. dv_Status d = DeviceActive
                  \<and> (dv_SMBIOSUUID d \<noteq> [] \<and> dv_SMBIOSUUID d = smbios \<or> dv_Serial d \<noteq> [] \<and> dv_Serial d = serial)) (ed_devices db)) of
        [] \<Rightarrow> None | ds \<Rightarrow> Some (last ds))"

definition AddGroupMember :: "uuid \<Rightarrow> uuid \<Rightarrow> enroll_db \<Rightarrow> enroll_db" where
  "AddGroupMember g d db = (if (g, d) \<in> set (ed_members db) then db else db\<lparr>ed_members := ed_members db @ [(g, d)]\<rparr>)"

definition GetGroup :: "uuid \<Rightarrow> enroll_db \<Rightarrow> device_group option" where
  "GetGroup i db = find (\<lambda>g. gp_ID g = i) (ed_groups db)"

text \<open>Retiring and unenrolling (\<^verbatim>\<open>server/devices/service.go\<close>).\<close>

datatype device_error = DeviceNotFound | InvalidTransition

definition transition :: "enroll_env \<Rightarrow> uuid \<Rightarrow> string \<Rightarrow> string \<Rightarrow> string \<Rightarrow> string list \<Rightarrow> enroll_db \<Rightarrow> device_error option \<times> enroll_db" where
  "transition E i actor to_status action from_status db =
     (case GetDevice i db of
        None \<Rightarrow> (Some DeviceNotFound, db)
      | Some d \<Rightarrow>
          if dv_Status d \<notin> set from_status then (Some InvalidTransition, db)
          else (None, enrollAudit actor action ''device'' (ee_uuid_String E i) [(''from'', JStr (dv_Status d))] (SetDeviceStatus i to_status db)))"

definition Retire :: "enroll_env \<Rightarrow> uuid \<Rightarrow> string \<Rightarrow> enroll_db \<Rightarrow> device_error option \<times> enroll_db" where
  "Retire E i actor = transition E i actor DeviceRetired ''device.retired'' [DeviceActive]"

definition Unenroll :: "enroll_env \<Rightarrow> uuid \<Rightarrow> string \<Rightarrow> enroll_db \<Rightarrow> device_error option \<times> enroll_db" where
  "Unenroll E i actor = transition E i actor DeviceUnenrolled ''device.unenrolled'' [DeviceActive, DeviceRetired]"

section \<open>Registrations\<close>

definition CreateRegistration :: "DeviceRegistration \<Rightarrow> enroll_db \<Rightarrow> enroll_db option" where
  "CreateRegistration r db =
     (if list_ex (\<lambda>s. rg_ID s = rg_ID r \<or> to_upper (rg_Serial s) = to_upper (rg_Serial r)) (ed_registrations db) then None
      else Some (db\<lparr>ed_registrations := ed_registrations db @ [r\<lparr>rg_DeviceID := None, rg_EnrolledAt := None\<rparr>]\<rparr>))"

definition GetRegistration :: "uuid \<Rightarrow> enroll_db \<Rightarrow> DeviceRegistration option" where
  "GetRegistration i db = find (\<lambda>r. rg_ID r = i) (ed_registrations db)"

text \<open>A registration whose device is still active is spent.\<close>

definition spent_registration :: "enroll_db \<Rightarrow> DeviceRegistration \<Rightarrow> bool" where
  "spent_registration db r \<longleftrightarrow> list_ex (\<lambda>d. rg_DeviceID r = Some (dv_ID d) \<and> dv_Status d = DeviceActive) (ed_devices db)"

definition RegistrationForSerial :: "string \<Rightarrow> enroll_db \<Rightarrow> DeviceRegistration option" where
  "RegistrationForSerial serial db =
     find (\<lambda>r. to_upper (rg_Serial r) = to_upper serial \<and> \<not> spent_registration db r) (ed_registrations db)"

definition MarkRegistrationEnrolled :: "uuid \<Rightarrow> uuid \<Rightarrow> go_time \<Rightarrow> enroll_db \<Rightarrow> enroll_db" where
  "MarkRegistrationEnrolled i d at db = db\<lparr>ed_registrations :=
     map (\<lambda>r. if rg_ID r = i then r\<lparr>rg_DeviceID := Some d, rg_EnrolledAt := Some at\<rparr> else r) (ed_registrations db)\<rparr>"

definition DeleteRegistration :: "uuid \<Rightarrow> enroll_db \<Rightarrow> enroll_db option" where
  "DeleteRegistration i db =
     (if list_ex (\<lambda>r. rg_ID r = i) (ed_registrations db)
      then Some (db\<lparr>ed_registrations := filter (\<lambda>r. rg_ID r \<noteq> i) (ed_registrations db)\<rparr>) else None)"

text \<open>The control characters of Unicode, in UTF-8.\<close>

fun has_control :: "string \<Rightarrow> bool" where
  "has_control [] = False"
| "has_control (c # s) = (of_char c < (32 :: nat) \<or> of_char c = (127 :: nat)
     \<or> (of_char c = (0xC2 :: nat) \<and> s \<noteq> [] \<and> 0x80 \<le> (of_char (hd s) :: nat) \<and> of_char (hd s) < (0xA0 :: nat)) \<or> has_control s)"

definition buildRegistration ::
  "uuid \<Rightarrow> string \<Rightarrow> string \<Rightarrow> string \<Rightarrow> device_group list \<Rightarrow> go_time \<Rightarrow> string \<Rightarrow> string + DeviceRegistration" where
  "buildRegistration i rawSerial rawName notes groups now actor =
     (let serial = trim_space rawSerial; name = trim_space rawName in
      if serial = [] \<or> length serial > 64 \<or> has_control serial then Inl ''serial must be 1 to 64 characters''
      else if name \<noteq> [] \<and> \<not> ValidComputerName name then Inl ''not a computer name''
      else if length notes > 500 then Inl ''notes must be at most 500 characters''
      else if list_ex (\<lambda>g. gp_Kind g \<noteq> GroupStatic) groups then Inl ''not a static group''
      else Inr \<lparr>rg_ID = i, rg_Serial = serial, rg_DeviceName = name, rg_GroupIDs = map gp_ID groups, rg_Notes = notes,
        rg_DeviceID = None, rg_EnrolledAt = None, rg_CreatedAt = now, rg_CreatedBy = actor\<rparr>)"

fun insertRegistrations :: "DeviceRegistration list \<Rightarrow> enroll_db \<Rightarrow> enroll_db option" where
  "insertRegistrations [] db = Some db"
| "insertRegistrations (r # rs) db = (case CreateRegistration r db of None \<Rightarrow> None | Some db1 \<Rightarrow> insertRegistrations rs db1)"

definition saveRegistrations :: "enroll_env \<Rightarrow> DeviceRegistration list \<Rightarrow> string \<Rightarrow> enroll_db \<Rightarrow> enroll_db option" where
  "saveRegistrations E regs actor db =
     map_option (enrollAudit actor ''device_registration.created'' ''device_registration''
         (case regs of [r] \<Rightarrow> ee_uuid_String E (rg_ID r) | _ \<Rightarrow> [])
         ((''count'', JNum (itoa (int (length regs)))) #
          (if length regs \<le> 20 then [(''serials'', JArr (map (\<lambda>r. JStr (rg_Serial r)) regs))] else [])))
       (insertRegistrations regs db)"

fun namedGroups :: "enroll_env \<Rightarrow> string list \<Rightarrow> enroll_db \<Rightarrow> device_group list option" where
  "namedGroups E [] db = Some []"
| "namedGroups E (raw # raws) db =
     (case ee_uuid_Parse E raw of
        None \<Rightarrow> None
      | Some g \<Rightarrow> (case GetGroup g db of None \<Rightarrow> None | Some grp \<Rightarrow> map_option ((#) grp) (namedGroups E raws db)))"

definition createRegistration ::
  "enroll_env \<Rightarrow> uuid \<Rightarrow> string \<Rightarrow> string \<Rightarrow> string list \<Rightarrow> string \<Rightarrow> string \<Rightarrow> go_time \<Rightarrow> enroll_db \<Rightarrow> (refusal + DeviceRegistration) \<times> enroll_db" where
  "createRegistration E i serial name group_ids notes actor now db =
     (case namedGroups E group_ids db of
        None \<Rightarrow> (Inl (400, ''bad_request''), db)
      | Some groups \<Rightarrow>
          (case buildRegistration i serial name notes groups now actor of
             Inl _ \<Rightarrow> (Inl (400, ''bad_request''), db)
           | Inr reg \<Rightarrow>
               (case saveRegistrations E [reg] actor db of
                  None \<Rightarrow> (Inl (409, ''duplicate''), db)
                | Some db1 \<Rightarrow> (Inr reg, db1))))"

definition deleteRegistration :: "enroll_env \<Rightarrow> uuid \<Rightarrow> string \<Rightarrow> enroll_db \<Rightarrow> refusal option \<times> enroll_db" where
  "deleteRegistration E i actor db =
     (case GetRegistration i db of
        None \<Rightarrow> (Some (404, ''not_found''), db)
      | Some reg \<Rightarrow>
          (case DeleteRegistration i db of
             None \<Rightarrow> (Some (404, ''not_found''), db)
           | Some db1 \<Rightarrow> (None, enrollAudit actor ''device_registration.deleted'' ''device_registration'' (ee_uuid_String E i)
                [(''serial'', JStr (rg_Serial reg))] db1)))"

text \<open>Many at once, from a CSV: \<open>records\<close> are what the reader gave before its end or the error \<open>stop\<close>; \<open>ids\<close> has the new identifier
  of each.\<close>

abbreviation "maxImportRows \<equiv> 5000 :: nat"

definition field_of :: "string list \<Rightarrow> nat \<Rightarrow> string" where
  "field_of rec i = (if i < length rec then trim_space (rec ! i) else [])"

fun groupsByName :: "device_group list \<Rightarrow> string list \<Rightarrow> string + device_group list" where
  "groupsByName all_groups [] = Inr []"
| "groupsByName all_groups (raw # raws) =
     (let name = trim_space raw in
      if name = [] then groupsByName all_groups raws
      else case find (\<lambda>g. to_lower (gp_Name g) = to_lower name) (rev all_groups) of
        None \<Rightarrow> Inl (''there is no group called '' @ name)
      | Some g \<Rightarrow> (case groupsByName all_groups raws of Inl m \<Rightarrow> Inl m | Inr gs \<Rightarrow> Inr (g # gs)))"

fun importLoop ::
  "device_group list \<Rightarrow> (nat \<Rightarrow> uuid) \<Rightarrow> go_time \<Rightarrow> string \<Rightarrow> string option \<Rightarrow> nat \<Rightarrow> string list list
     \<Rightarrow> DeviceRegistration list \<Rightarrow> (nat \<times> string) list \<Rightarrow> (string \<times> nat) list \<Rightarrow> DeviceRegistration list \<times> (nat \<times> string) list" where
  "importLoop gs ids now actor stop line [] regs problems seen =
     (regs, problems @ (case stop of None \<Rightarrow> [] | Some m \<Rightarrow> [(line, m)]))"
| "importLoop gs ids now actor stop line (rec # recs) regs problems seen =
     (if rec = [] \<or> length rec = 1 \<and> trim_space (hd rec) = [] then importLoop gs ids now actor stop (line + 1) recs regs problems seen
      else if line = 1 \<and> equal_fold (trim_space (hd rec)) ''serial'' then importLoop gs ids now actor stop (line + 1) recs regs problems seen
      else if length regs + length problems \<ge> maxImportRows then (regs, problems @ [(line, ''at most 5000 devices per import'')])
      else case groupsByName gs (split_on (CHR '';'') (field_of rec 2)) of
        Inl m \<Rightarrow> importLoop gs ids now actor stop (line + 1) recs regs (problems @ [(line, m)]) seen
      | Inr groups \<Rightarrow>
          (case buildRegistration (ids line) (field_of rec 0) (field_of rec 1) (field_of rec 3) groups now actor of
             Inl m \<Rightarrow> importLoop gs ids now actor stop (line + 1) recs regs (problems @ [(line, m)]) seen
           | Inr reg \<Rightarrow>
               if map_of seen (to_upper (rg_Serial reg)) \<noteq> None
               then importLoop gs ids now actor stop (line + 1) recs regs (problems @ [(line, ''the serial is already on another line'')]) seen
               else importLoop gs ids now actor stop (line + 1) recs (regs @ [reg]) problems ((to_upper (rg_Serial reg), line) # seen)))"

definition importRegistrations ::
  "enroll_env \<Rightarrow> (nat \<Rightarrow> uuid) \<Rightarrow> string list list \<Rightarrow> string option \<Rightarrow> string \<Rightarrow> go_time \<Rightarrow> enroll_db
     \<Rightarrow> ((refusal \<times> (nat \<times> string) list) + nat) \<times> enroll_db" where
  "importRegistrations E ids records stop actor now db =
     (case importLoop (ed_groups db) ids now actor stop 1 records [] [] [] of
        (regs, problems) \<Rightarrow>
          if problems \<noteq> [] then (Inl ((400, ''problems''), problems), db)
          else if regs = [] then (Inl ((400, ''bad_request''), []), db)
          else (case saveRegistrations E regs actor db of
             None \<Rightarrow> (Inl ((409, ''duplicate''), []), db)
           | Some db1 \<Rightarrow> (Inr (length regs), db1)))"

section \<open>Certificates\<close>

record IssuedCert =
  is_PEM :: string
  is_Serial :: string
  is_NotAfter :: go_time

definition truncate_second :: "go_time \<Rightarrow> go_time" where
  "truncate_second t = t - t mod second"

definition client_cert :: "string \<Rightarrow> csr \<Rightarrow> string \<Rightarrow> go_time \<Rightarrow> duration \<Rightarrow> certificate" where
  "client_cert serial q deviceID now validity =
     \<lparr>ce_Serial = serial, ce_CommonName = deviceID, ce_NotBefore = time_add now (- (5 * minute)),
      ce_NotAfter = truncate_second (time_add now validity), ce_PublicKey = cq_PublicKey q\<rparr>"

text \<open>\<open>serial\<close>: the random serial number in hexadecimal, if the random source gave one.\<close>

definition SignClientCSR :: "enroll_env \<Rightarrow> string \<Rightarrow> string \<Rightarrow> go_time \<Rightarrow> duration \<Rightarrow> string option \<Rightarrow> enroll_error + IssuedCert" where
  "SignClientCSR E csrPEM deviceID now validity serial =
     (case ee_pem_Decode E csrPEM of
        None \<Rightarrow> Inl ErrBadCSR
      | Some (typ, der) \<Rightarrow>
          if typ \<noteq> ''CERTIFICATE REQUEST'' then Inl ErrBadCSR
          else case ee_ParseCSR E der of
            None \<Rightarrow> Inl ErrBadCSR
          | Some q \<Rightarrow>
              if \<not> cq_SignatureOK q then Inl ErrBadCSR
              else if \<not> cq_P256 q then Inl ErrBadCSR
              else (case serial of
                 None \<Rightarrow> Inl EnrollInternal
               | Some sn \<Rightarrow> let c = client_cert sn q deviceID now validity in
                   Inr \<lparr>is_PEM = ee_encode_cert E c, is_Serial = sn, is_NotAfter = ce_NotAfter c\<rparr>))"

section \<open>Enrolment\<close>

definition renameTTL :: duration where
  "renameTTL = 7 * 24 * hour"

fun joinGroups :: "uuid list \<Rightarrow> uuid \<Rightarrow> enroll_db \<Rightarrow> string list \<times> enroll_db" where
  "joinGroups [] dev db = ([], db)"
| "joinGroups (g # gs) dev db =
     (case GetGroup g db of
        None \<Rightarrow> joinGroups gs dev db
      | Some grp \<Rightarrow>
          if gp_Kind grp \<noteq> GroupStatic then joinGroups gs dev db
          else (case joinGroups gs dev (AddGroupMember g dev db) of (names, db1) \<Rightarrow> (gp_Name grp # names, db1)))"

definition rename_command :: "enroll_env \<Rightarrow> DeviceRegistration \<Rightarrow> uuid \<Rightarrow> uuid \<Rightarrow> go_time \<Rightarrow> Command" where
  "rename_command E reg dev k now = \<lparr>c_ID = k, c_DeviceID = dev, c_Type = CommandRenameComputer,
     c_Payload = PRename \<lparr>rn_Name = rg_DeviceName reg, rn_Restart = False\<rparr>, c_Status = CommandQueued,
     c_CreatedBy = ''registration:'' @ ee_uuid_String E (rg_ID reg), c_CreatedAt = now, c_DeliveredAt = None,
     c_StartedAt = None, c_CompletedAt = None, c_ExpiresAt = time_add now renameTTL\<rparr>"

definition provision ::
  "enroll_env \<Rightarrow> DeviceRegistration \<Rightarrow> uuid \<Rightarrow> string \<Rightarrow> uuid \<Rightarrow> go_time \<Rightarrow> enroll_db \<Rightarrow> ((string \<times> json) list \<times> enroll_db) option" where
  "provision E reg dev hostname k now db =
     (case joinGroups (rg_GroupIDs reg) dev db of
        (joined, db1) \<Rightarrow>
          let details = [(''registration_id'', JStr (ee_uuid_String E (rg_ID reg))),
                (''groups'', if joined = [] then JNull else JArr (map JStr joined))] in
          if rg_DeviceName reg \<noteq> [] \<and> \<not> equal_fold (rg_DeviceName reg) hostname
          then (if list_ex (\<lambda>c. c_ID c = k) (ed_commands db1) then None
                else Some (details @ [(''rename_to'', JStr (rg_DeviceName reg))],
                  MarkRegistrationEnrolled (rg_ID reg) dev now (db1\<lparr>ed_commands := ed_commands db1 @ [rename_command E reg dev k now]\<rparr>)))
          else Some (details, MarkRegistrationEnrolled (rg_ID reg) dev now db1))"

definition new_device :: "uuid \<Rightarrow> DeviceFacts \<Rightarrow> IssuedCert \<Rightarrow> go_time \<Rightarrow> Device" where
  "new_device i f issued now = \<lparr>dv_ID = i, dv_Hostname = df_Hostname f, dv_Serial = df_Serial f, dv_SMBIOSUUID = df_SMBIOSUUID f,
     dv_OSVersion = df_OSVersion f, dv_Status = DeviceActive, dv_CertSerial = is_Serial issued, dv_CertExpiresAt = is_NotAfter issued,
     dv_LastSeenAt = None, dv_AgentVersion = [], dv_EnrolledAt = now, dv_ReplacedBy = None, dv_PrevCertSerial = [], dv_OSBuild = [],
     dv_Manufacturer = [], dv_Model = []\<rparr>"

definition claimed_registration :: "DeviceFacts \<Rightarrow> enroll_db \<Rightarrow> DeviceRegistration option" where
  "claimed_registration f db = (let serial = trim_space (df_Serial f) in if serial = [] then None else RegistrationForSerial serial db)"

text \<open>\<open>dev\<close>, \<open>k\<close>: the new identifiers of the device and of the command that renames it.\<close>

definition enrollTx ::
  "enroll_env \<Rightarrow> uuid \<Rightarrow> uuid \<Rightarrow> string option \<Rightarrow> EnrollRequest \<Rightarrow> go_time \<Rightarrow> enroll_db \<Rightarrow> enroll_error + EnrollResponse \<times> enroll_db" where
  "enrollTx E dev k sn req now db =
     (case GetEnrollmentTokenByHashForUpdate (HashToken E (rq_Token req)) db of
        None \<Rightarrow> Inl ErrTokenNotFound
      | Some tok \<Rightarrow>
          (case CheckUsable tok now of
             Some e \<Rightarrow> Inl e
           | None \<Rightarrow>
               let f = rq_Device req; reg = claimed_registration f db in
               if et_RegisteredOnly tok \<and> reg = None then Inl ErrNotRegistered
               else (case SignClientCSR E (rq_CSRPEM req) (ee_uuid_String E dev) now (ee_CertValidity E) sn of
                  Inl e \<Rightarrow> Inl e
                | Inr issued \<Rightarrow>
                    (case CreateDevice (new_device dev f issued now) db of
                       None \<Rightarrow> Inl EnrollInternal
                     | Some db1 \<Rightarrow>
                         let same = (case FindActiveDeviceByHardware (df_Serial f) (df_SMBIOSUUID f) db of None \<Rightarrow> []
                               | Some p \<Rightarrow> [(''same_hardware_as'', JStr (ee_uuid_String E (dv_ID p))), (''same_hardware_hostname'', JStr (dv_Hostname p))]);
                             details = [(''token_id'', JStr (ee_uuid_String E (et_ID tok))), (''hostname'', JStr (df_Hostname f))] @ same;
                             db2 = AddGroupMember BuiltinGroupID dev (IncrementTokenUse (et_ID tok) db1) in
                         (case (case reg of None \<Rightarrow> Some ([], db2) | Some r \<Rightarrow> provision E r dev (df_Hostname f) k now db2) of
                            None \<Rightarrow> Inl EnrollInternal
                          | Some (extra, db3) \<Rightarrow>
                              Inr (\<lparr>rs_DeviceID = ee_uuid_String E dev, rs_CertPEM = is_PEM issued, rs_CAPEM = ee_CAPEM E\<rparr>,
                                enrollAudit (''token:'' @ ee_uuid_String E (et_ID tok)) ''device.enrolled'' ''device'' (ee_uuid_String E dev) (details @ extra) db3))))))"

definition Enroll ::
  "enroll_env \<Rightarrow> uuid \<Rightarrow> uuid \<Rightarrow> string option \<Rightarrow> EnrollRequest \<Rightarrow> go_time \<Rightarrow> enroll_db \<Rightarrow> (enroll_error + EnrollResponse) \<times> enroll_db" where
  "Enroll E dev k sn req now db =
     (if trim_space (df_Hostname (rq_Device req)) = [] then (Inl EnrollBadRequest, db)
      else case enrollTx E dev k sn req now db of Inl e \<Rightarrow> (Inl e, db) | Inr (resp, db1) \<Rightarrow> (Inr resp, db1))"

definition enroll_refusal :: "enroll_error \<Rightarrow> refusal" where
  "enroll_refusal e =
     (if e \<in> {ErrTokenNotFound, ErrTokenRevoked, ErrTokenExpired, ErrTokenExhausted, ErrNotRegistered} then (403, ''enrollment_token_invalid'')
      else if e \<in> {ErrBadCSR, EnrollBadRequest} then (400, ''bad_request'') else (500, ''internal''))"

definition Renew :: "enroll_env \<Rightarrow> uuid \<Rightarrow> string \<Rightarrow> string \<Rightarrow> string option \<Rightarrow> go_time \<Rightarrow> enroll_db \<Rightarrow> (enroll_error + IssuedCert) \<times> enroll_db" where
  "Renew E dev presented csrPEM sn now db =
     (case SignClientCSR E csrPEM (ee_uuid_String E dev) now (ee_CertValidity E) sn of
        Inl e \<Rightarrow> (Inl e, db)
      | Inr issued \<Rightarrow>
          (Inr issued, enrollAudit (''device:'' @ ee_uuid_String E dev) ''device.cert_renewed'' ''device'' (ee_uuid_String E dev)
             [(''serial'', JStr (is_Serial issued)), (''not_after'', JStr (format_rfc3339 (is_NotAfter issued)))]
             (UpdateDeviceCert dev presented (is_Serial issued) (is_NotAfter issued) db)))"

section \<open>The guard of the agents' API\<close>

definition TLSClientCert :: "certificate list list \<Rightarrow> certificate option" where
  "TLSClientCert verifiedChains = (case verifiedChains of (c # _) # _ \<Rightarrow> Some c | _ \<Rightarrow> None)"

text \<open>Behind a proxy: \<open>raw\<close> is the header, \<open>peer_trusted\<close> whether the request came from a proxy that may set it,
  \<open>parse\<close> and \<open>verified\<close> the certificate it holds and whether this server issued it.\<close>

definition HeaderClientCert ::
  "(string \<Rightarrow> certificate option) \<Rightarrow> (certificate \<Rightarrow> bool) \<Rightarrow> bool \<Rightarrow> string \<Rightarrow> refusal + certificate option" where
  "HeaderClientCert parse verified peer_trusted raw =
     (if \<not> peer_trusted then (if raw \<noteq> [] then Inl (403, ''untrusted_proxy'') else Inr None)
      else if raw = [] then Inr None
      else case parse raw of
        None \<Rightarrow> Inl (401, ''client_cert_invalid'')
      | Some c \<Rightarrow> if verified c then Inr (Some c) else Inl (401, ''client_cert_invalid''))"

text \<open>\<open>clear_fails\<close>: clearing the superseded serial number fails, which is only logged.\<close>

definition requireDevice :: "enroll_env \<Rightarrow> bool \<Rightarrow> refusal + certificate option \<Rightarrow> enroll_db \<Rightarrow> (refusal + Device \<times> string) \<times> enroll_db" where
  "requireDevice E clear_fails leaf db =
     (case leaf of
        Inl e \<Rightarrow> (Inl e, db)
      | Inr None \<Rightarrow> (Inl (401, ''client_cert_required''), db)
      | Inr (Some c) \<Rightarrow>
          (case ee_uuid_Parse E (ce_CommonName c) of
             None \<Rightarrow> (Inl (401, ''device_not_active''), db)
           | Some i \<Rightarrow>
               (case GetDevice i db of
                  None \<Rightarrow> (Inl (401, ''device_not_active''), db)
                | Some d \<Rightarrow>
                    let serial = ce_Serial c in
                    if \<not> (serial = dv_CertSerial d \<or> dv_PrevCertSerial d \<noteq> [] \<and> serial = dv_PrevCertSerial d)
                    then (Inl (401, ''device_not_active''), db)
                    else if dv_Status d = DeviceUnenrolled then (Inl (410, ''device_unenrolled''), db)
                    else if dv_Status d \<noteq> DeviceActive then (Inl (401, ''device_not_active''), db)
                    else if serial = dv_CertSerial d \<and> dv_PrevCertSerial d \<noteq> [] \<and> \<not> clear_fails
                    then (Inr (d\<lparr>dv_PrevCertSerial := []\<rparr>, serial), ClearPrevCertSerial (dv_ID d) db)
                    else (Inr (d, serial), db))))"

text \<open>The routes, and whether they ask for a device.\<close>

definition agentRoutes :: "(string \<times> string \<times> bool) list" where
  "agentRoutes =
    [(''POST'', ''/api/agent/v1/enroll'', False),
     (''POST'', ''/api/agent/v1/checkin'', True),
     (''POST'', ''/api/agent/v1/renew'', True),
     (''PUT'', ''/api/agent/v1/inventory'', True),
     (''POST'', ''/api/agent/v1/commands/{id}/start'', True),
     (''POST'', ''/api/agent/v1/commands/{id}/result'', True),
     (''POST'', ''/api/agent/v1/commands/{id}/artifact'', True),
     (''GET'', ''/api/agent/v1/scripts/{id}/versions/{version}'', True),
     (''POST'', ''/api/agent/v1/scripts/{id}/runs'', True),
     (''GET'', ''/api/agent/v1/profiles/{id}/versions/{version}'', True),
     (''POST'', ''/api/agent/v1/profiles/{id}/status'', True),
     (''GET'', ''/api/agent/v1/apps/{id}/versions/{version}'', True),
     (''GET'', ''/api/agent/v1/apps/{id}/versions/{version}/package'', True),
     (''POST'', ''/api/agent/v1/apps/{id}/result'', True),
     (''GET'', ''/api/agent/v1/agent-versions/{id}'', True),
     (''GET'', ''/api/agent/v1/agent-versions/{id}/binary'', True),
     (''POST'', ''/api/agent/v1/agent-versions/{id}/result'', True),
     (''GET'', ''/api/agent/v1/bitlocker'', True),
     (''POST'', ''/api/agent/v1/bitlocker'', True),
     (''POST'', ''/api/agent/v1/admin-passwords'', True),
     (''GET'', ''/api/agent/v1/compliance-statement'', True),
     (''GET'', ''/api/agent/v1/wait'', True),
     (''GET'', ''/api/agent/v1/remote-sessions/{id}/input'', True),
     (''POST'', ''/api/agent/v1/remote-sessions/{id}/output'', True),
     (''POST'', ''/api/agent/v1/remote-sessions/{id}/end'', True)]"

text \<open>What the handler behind a route gets: nobody, or the device it serves.\<close>

definition serveAgent ::
  "enroll_env \<Rightarrow> bool \<Rightarrow> refusal + certificate option \<Rightarrow> string \<Rightarrow> string \<Rightarrow> enroll_db \<Rightarrow> (refusal + (Device \<times> string) option) \<times> enroll_db" where
  "serveAgent E clear_fails leaf meth pattern db =
     (case find (\<lambda>(m, p, _). m = meth \<and> p = pattern) agentRoutes of
        None \<Rightarrow> (Inl (404, ''not found''), db)
      | Some (_, _, False) \<Rightarrow> (Inr None, db)
      | Some (_, _, True) \<Rightarrow> (case requireDevice E clear_fails leaf db of (Inl e, db1) \<Rightarrow> (Inl e, db1) | (Inr a, db1) \<Rightarrow> (Inr (Some a), db1)))"

end
