(* ===== verification/Enrollment_Safety.thy ===== *)
theory Enrollment_Safety
  imports Enrollment
begin

text \<open>
  What enrolment promises. Every device of the fleet was let in by a token that was good then, as often as the token allows,
  a registration lets in one device at a time, only a device that is active and holds a certificate the server
  knows is served, and a device that was retired never is again.
\<close>

section \<open>What the operations leave alone\<close>

lemma audit_frame [simp]:
  "ed_tokens (enrollAudit a b c d e db) = ed_tokens db" "ed_devices (enrollAudit a b c d e db) = ed_devices db"
  "ed_registrations (enrollAudit a b c d e db) = ed_registrations db" "ed_members (enrollAudit a b c d e db) = ed_members db"
  by (simp_all add: enrollAudit_def)

lemma member_frame [simp]:
  "ed_tokens (AddGroupMember g d db) = ed_tokens db" "ed_devices (AddGroupMember g d db) = ed_devices db"
  "ed_registrations (AddGroupMember g d db) = ed_registrations db" "set (ed_members (AddGroupMember g d db)) = insert (g, d) (set (ed_members db))"
  by (auto simp: AddGroupMember_def)

lemma join_frame:
  "ed_tokens (snd (joinGroups gs dev db)) = ed_tokens db \<and> ed_devices (snd (joinGroups gs dev db)) = ed_devices db
   \<and> ed_registrations (snd (joinGroups gs dev db)) = ed_registrations db \<and> set (ed_members db) \<subseteq> set (ed_members (snd (joinGroups gs dev db)))"
  by (induction gs dev db rule: joinGroups.induct) (auto split: option.splits prod.splits)

definition marked :: "uuid \<Rightarrow> uuid \<Rightarrow> go_time \<Rightarrow> DeviceRegistration list \<Rightarrow> DeviceRegistration list" where
  "marked i d at rs = map (\<lambda>r. if rg_ID r = i then r\<lparr>rg_DeviceID := Some d, rg_EnrolledAt := Some at\<rparr> else r) rs"

lemma provision_frame:
  assumes "provision E reg dev hostname k now db = Some (details, db')"
  shows "ed_tokens db' = ed_tokens db \<and> ed_devices db' = ed_devices db \<and> ed_registrations db' = marked (rg_ID reg) dev now (ed_registrations db)
    \<and> set (ed_members db) \<subseteq> set (ed_members db')"
proof -
  obtain joined db1 where j: "joinGroups (rg_GroupIDs reg) dev db = (joined, db1)" by fastforce
  then show ?thesis using assms join_frame [of "rg_GroupIDs reg" dev db]
    by (auto simp: provision_def Let_def MarkRegistrationEnrolled_def marked_def split: if_splits)
qed

definition counted :: "uuid \<Rightarrow> EnrollmentToken list \<Rightarrow> EnrollmentToken list" where
  "counted i ts = map (\<lambda>t. if et_ID t = i then t\<lparr>et_UseCount := et_UseCount t + 1\<rparr> else t) ts"

text \<open>An enrolment that succeeds.\<close>

lemma Enroll_cases:
  assumes "Enroll E dev k sn req now db = (Inr resp, db')"
  obtains tok issued where "GetEnrollmentTokenByHashForUpdate (HashToken E (rq_Token req)) db = Some tok" "CheckUsable tok now = None"
    "et_RegisteredOnly tok \<Longrightarrow> claimed_registration (rq_Device req) db \<noteq> None"
    "SignClientCSR E (rq_CSRPEM req) (ee_uuid_String E dev) now (ee_CertValidity E) sn = Inr issued"
    "dev \<notin> dv_ID ` set (ed_devices db)" "ed_devices db' = ed_devices db @ [new_device dev (rq_Device req) issued now]"
    "ed_tokens db' = counted (et_ID tok) (ed_tokens db)"
    "ed_registrations db' = (case claimed_registration (rq_Device req) db of None \<Rightarrow> ed_registrations db
       | Some r \<Rightarrow> marked (rg_ID r) dev now (ed_registrations db))"
    "(BuiltinGroupID, dev) \<in> set (ed_members db')" "rs_CertPEM resp = is_PEM issued"
proof -
  obtain tok where tok: "GetEnrollmentTokenByHashForUpdate (HashToken E (rq_Token req)) db = Some tok"
    using assms by (auto simp: Enroll_def enrollTx_def split: if_splits option.splits)
  have use: "CheckUsable tok now = None" using assms tok by (auto simp: Enroll_def enrollTx_def split: if_splits option.splits)
  have reg: "\<not> (et_RegisteredOnly tok \<and> claimed_registration (rq_Device req) db = None)"
    using assms tok use by (auto simp: Enroll_def enrollTx_def Let_def split: if_splits)
  obtain issued where sign: "SignClientCSR E (rq_CSRPEM req) (ee_uuid_String E dev) now (ee_CertValidity E) sn = Inr issued"
    using assms tok use reg by (cases "SignClientCSR E (rq_CSRPEM req) (ee_uuid_String E dev) now (ee_CertValidity E) sn")
      (auto simp: Enroll_def enrollTx_def Let_def split: if_splits)
  obtain db1 where db1: "CreateDevice (new_device dev (rq_Device req) issued now) db = Some db1"
    using assms tok use reg sign by (cases "CreateDevice (new_device dev (rq_Device req) issued now) db")
      (auto simp: Enroll_def enrollTx_def Let_def split: if_splits)
  let ?db2 = "AddGroupMember BuiltinGroupID dev (IncrementTokenUse (et_ID tok) db1)"
  obtain extra db3 details where db3: "(case claimed_registration (rq_Device req) db of None \<Rightarrow> Some ([], ?db2)
      | Some r \<Rightarrow> provision E r dev (df_Hostname (rq_Device req)) k now ?db2) = Some (extra, db3)"
    "db' = enrollAudit (''token:'' @ ee_uuid_String E (et_ID tok)) ''device.enrolled'' ''device'' (ee_uuid_String E dev) details db3"
    "rs_CertPEM resp = is_PEM issued"
    using assms tok use reg sign db1 by (auto simp: Enroll_def enrollTx_def Let_def split: if_splits option.splits)
  have d: "dev \<notin> dv_ID ` set (ed_devices db)" "ed_devices db1 = ed_devices db @ [new_device dev (rq_Device req) issued now]"
    "ed_tokens db1 = ed_tokens db" "ed_registrations db1 = ed_registrations db"
    using db1 by (auto simp: CreateDevice_def list_ex_iff new_device_def split: if_splits)
  have 2: "ed_devices ?db2 = ed_devices db1" "ed_tokens ?db2 = counted (et_ID tok) (ed_tokens db)" "ed_registrations ?db2 = ed_registrations db"
    "(BuiltinGroupID, dev) \<in> set (ed_members ?db2)"
    using d(3,4) by (simp_all add: IncrementTokenUse_def counted_def)
  show ?thesis
  proof (cases "claimed_registration (rq_Device req) db")
    case None
    then show ?thesis using that [OF tok use _ sign d(1)] reg db3 d 2 by simp
  next
    case (Some r)
    then have "provision E r dev (df_Hostname (rq_Device req)) k now ?db2 = Some (extra, db3)" using db3(1) by simp
    from provision_frame [OF this] show ?thesis using that [OF tok use _ sign d(1)] db3(2,3) d(2) 2 Some by auto
  qed
qed

lemma Enroll_refused: "Enroll E dev k sn req now db = (Inl e, db') \<Longrightarrow> db' = db"
  by (auto simp: Enroll_def split: if_splits sum.splits prod.splits)

section \<open>The fleet over time\<close>

record enrolment =
  en_Token :: uuid
  en_Device :: uuid
  en_At :: go_time
  en_Registration :: "uuid option"

definition enrolled_as :: "enroll_env \<Rightarrow> uuid \<Rightarrow> EnrollRequest \<Rightarrow> go_time \<Rightarrow> enroll_db \<Rightarrow> enrolment" where
  "enrolled_as E dev req now db = \<lparr>en_Token = (case GetEnrollmentTokenByHashForUpdate (HashToken E (rq_Token req)) db of None \<Rightarrow> [] | Some t \<Rightarrow> et_ID t),
     en_Device = dev, en_At = now, en_Registration = map_option rg_ID (claimed_registration (rq_Device req) db)\<rparr>"

type_synonym fleet_state = "go_time \<times> enroll_db \<times> enrolment list"

text \<open>
  Administrators create and revoke tokens, register devices, retire and unenrol them; devices enrol, renew their
  certificates, check in and report their hardware, all at instants that never go back. Groups, memberships,
  commands and the audit log may change in any way. The log has every enrolment that succeeded. Identifiers of registrations are new.
\<close>

inductive fleet_step :: "enroll_env \<Rightarrow> fleet_state \<Rightarrow> fleet_state \<Rightarrow> bool" for E where
  fs_token: "clock \<le> now \<Longrightarrow> CreateToken E opts i secret now db = (r, db') \<Longrightarrow> fleet_step E (clock, db, log) (now, db', log)"
| fs_revoke: "clock \<le> now \<Longrightarrow> RevokeToken E i actor now db = (r, db') \<Longrightarrow> fleet_step E (clock, db, log) (now, db', log)"
| fs_enroll: "clock \<le> now \<Longrightarrow> Enroll E dev k sn req now db = (Inr resp, db')
    \<Longrightarrow> fleet_step E (clock, db, log) (now, db', log @ [enrolled_as E dev req now db])"
| fs_refused: "clock \<le> now \<Longrightarrow> Enroll E dev k sn req now db = (Inl e, db') \<Longrightarrow> fleet_step E (clock, db, log) (now, db', log)"
| fs_register: "clock \<le> now \<Longrightarrow> Some i \<notin> en_Registration ` set log \<Longrightarrow> createRegistration E i serial name gids notes actor now db = (res, db')
    \<Longrightarrow> fleet_step E (clock, db, log) (now, db', log)"
| fs_import: "clock \<le> now \<Longrightarrow> \<forall>n. Some (ids n) \<notin> en_Registration ` set log \<Longrightarrow> importRegistrations E ids records stop actor now db = (result, db')
    \<Longrightarrow> fleet_step E (clock, db, log) (now, db', log)"
| fs_unregister: "deleteRegistration E i actor db = (ref, db') \<Longrightarrow> fleet_step E (clock, db, log) (clock, db', log)"
| fs_retire: "Retire E i actor db = (derr, db') \<Longrightarrow> fleet_step E (clock, db, log) (clock, db', log)"
| fs_unenrol: "Unenroll E i actor db = (derr, db') \<Longrightarrow> fleet_step E (clock, db, log) (clock, db', log)"
| fs_renew: "clock \<le> now \<Longrightarrow> Renew E dev presented csrPEM sn now db = (iss, db') \<Longrightarrow> fleet_step E (clock, db, log) (now, db', log)"
| fs_request: "requireDevice E clear_fails leaf db = (auth, db') \<Longrightarrow> fleet_step E (clock, db, log) (clock, db', log)"
| fs_checkin: "fleet_step E (clock, db, log) (clock, RecordCheckin dev version at db, log)"
| fs_inventory: "fleet_step E (clock, db, log) (clock, UpdateDeviceHardware dev hw db, log)"
| fs_world: "ed_tokens db' = ed_tokens db \<Longrightarrow> ed_registrations db' = ed_registrations db \<Longrightarrow> ed_devices db' = ed_devices db
    \<Longrightarrow> fleet_step E (clock, db, log) (clock, db', log)"

text \<open>No operation but enrolment adds a device or makes one active.\<close>

definition is_active :: "Device \<Rightarrow> bool" where
  "is_active d \<longleftrightarrow> dv_Status d = DeviceActive"

definition calms :: "Device list \<Rightarrow> Device list \<Rightarrow> bool" where
  "calms ds ds' \<longleftrightarrow> list_all2 (\<lambda>d d'. dv_ID d' = dv_ID d \<and> (is_active d' \<longrightarrow> is_active d)) ds ds'"

lemma calms_refl [simp]: "calms ds ds"
  by (simp add: calms_def list_all2_same)

lemma calms_update:
  assumes "\<And>d. dv_ID (f d) = dv_ID d \<and> (is_active (f d) \<longrightarrow> is_active d)"
  shows "calms (ed_devices db) (ed_devices (updateDevices i f db))"
  using assms by (simp add: calms_def updateDevices_def list_all2_conv_all_nth)

lemma calms_ids: "calms ds ds' \<Longrightarrow> map dv_ID ds' = map dv_ID ds"
  by (auto simp: calms_def list_all2_conv_all_nth intro: nth_equalityI)

definition active_in :: "Device list \<Rightarrow> uuid \<Rightarrow> bool" where
  "active_in ds i \<longleftrightarrow> (\<exists>d \<in> set ds. dv_ID d = i \<and> is_active d)"

lemma calms_active: "calms ds ds' \<Longrightarrow> active_in ds' i \<Longrightarrow> active_in ds i"
  unfolding calms_def active_in_def by (induction rule: list_all2_induct) auto

lemma update_frame [simp]:
  "ed_tokens (updateDevices i f db) = ed_tokens db" "ed_registrations (updateDevices i f db) = ed_registrations db"
  by (simp_all add: updateDevices_def)

definition quiet :: "enroll_db \<Rightarrow> enroll_db \<Rightarrow> bool" where
  "quiet db db' \<longleftrightarrow> ed_tokens db' = ed_tokens db \<and> ed_registrations db' = ed_registrations db \<and> calms (ed_devices db) (ed_devices db')"

lemma calm_ops:
  "quiet db (snd (Retire E i actor db))" "quiet db (snd (Unenroll E i actor db))" "quiet db (snd (Renew E dev presented csrPEM sn now db))"
  "quiet db (snd (requireDevice E clear_fails leaf db))" "quiet db (RecordCheckin dev version at db)" "quiet db (UpdateDeviceHardware dev hw db)"
proof -
  have q: "quiet db (updateDevices i f db)" if "\<And>d. dv_ID (f d) = dv_ID d \<and> (is_active (f d) \<longrightarrow> is_active d)" for i f
    using calms_update [OF that] by (simp add: quiet_def)
  have a: "quiet db (enrollAudit a b c d e db') = quiet db db'" for a b c d e db' by (simp add: quiet_def)
  have t: "quiet db (snd (transition E i actor st action froms db))" if "st \<noteq> DeviceActive" for st action froms
    using q [of "\<lambda>d. d\<lparr>dv_Status := st\<rparr>" i] that by (auto simp: is_active_def transition_def SetDeviceStatus_def a quiet_def split: option.split)
  show "quiet db (snd (Retire E i actor db))" "quiet db (snd (Unenroll E i actor db))" by (simp_all add: Retire_def Unenroll_def t)
  show "quiet db (snd (Renew E dev presented csrPEM sn now db))"
    using q by (auto simp: is_active_def Renew_def UpdateDeviceCert_def a quiet_def split: sum.split)
  show "quiet db (snd (requireDevice E clear_fails leaf db))"
    using q [of "\<lambda>d. d\<lparr>dv_PrevCertSerial := []\<rparr>"]
    by (auto simp: is_active_def requireDevice_def ClearPrevCertSerial_def Let_def quiet_def split: sum.split option.split)
  show "quiet db (RecordCheckin dev version at db)" "quiet db (UpdateDeviceHardware dev hw db)"
    using q by (simp_all add: is_active_def RecordCheckin_def UpdateDeviceHardware_def)
qed

section \<open>The invariant\<close>

definition uses :: "enrolment list \<Rightarrow> uuid \<Rightarrow> nat" where
  "uses log i = length (filter (\<lambda>e. en_Token e = i) log)"

definition token_ok :: "enrolment list \<Rightarrow> EnrollmentToken \<Rightarrow> bool" where
  "token_ok log t \<longleftrightarrow> et_UseCount t = int (uses log (et_ID t)) \<and> (\<forall>n. et_MaxUses t = Some n \<longrightarrow> et_UseCount t \<le> n)"

definition let_in :: "EnrollmentToken \<Rightarrow> enrolment \<Rightarrow> bool" where
  "let_in t e \<longleftrightarrow> et_ID t = en_Token e \<and> (\<forall>x. et_ExpiresAt t = Some x \<longrightarrow> en_At e < x)
     \<and> (\<forall>r. et_RevokedAt t = Some r \<longrightarrow> en_At e \<le> r) \<and> (et_RegisteredOnly t \<longrightarrow> en_Registration e \<noteq> None)"

definition tokens_ok :: "EnrollmentToken list \<Rightarrow> enrolment list \<Rightarrow> bool" where
  "tokens_ok ts log \<longleftrightarrow> distinct (map et_ID ts) \<and> (\<forall>t \<in> set ts. token_ok log t) \<and> (\<forall>e \<in> set log. \<exists>t \<in> set ts. let_in t e)"

text \<open>A registration names the active device it let in, if there is one.\<close>

definition regs_ok :: "DeviceRegistration list \<Rightarrow> Device list \<Rightarrow> enrolment list \<Rightarrow> bool" where
  "regs_ok rs ds log \<longleftrightarrow> distinct (map rg_ID rs)
     \<and> (\<forall>e \<in> set log. active_in ds (en_Device e) \<longrightarrow> (\<forall>r \<in> set rs. en_Registration e = Some (rg_ID r) \<longrightarrow> rg_DeviceID r = Some (en_Device e)))
     \<and> (\<forall>e \<in> set log. \<forall>e' \<in> set log. active_in ds (en_Device e) \<longrightarrow> active_in ds (en_Device e') \<longrightarrow> en_Registration e \<noteq> None
          \<longrightarrow> en_Registration e = en_Registration e' \<longrightarrow> en_Device e = en_Device e')"

definition fleet_inv :: "fleet_state \<Rightarrow> bool" where
  "fleet_inv s \<longleftrightarrow> (case s of (clock, db, log) \<Rightarrow>
     tokens_ok (ed_tokens db) log \<and> (\<forall>e \<in> set log. en_At e \<le> clock) \<and> map dv_ID (ed_devices db) = map en_Device log
     \<and> distinct (map dv_ID (ed_devices db)) \<and> regs_ok (ed_registrations db) (ed_devices db) log)"

lemma regs_calm: "regs_ok rs ds log \<Longrightarrow> calms ds ds' \<Longrightarrow> regs_ok rs ds' log"
  unfolding regs_ok_def using calms_active [of ds ds'] by blast

lemma inv_quiet:
  assumes "fleet_inv (clock, db, log)" "quiet db db'" "clock \<le> now"
  shows "fleet_inv (now, db', log)"
  using assms regs_calm [of "ed_registrations db" "ed_devices db" log "ed_devices db'"] calms_ids [of "ed_devices db" "ed_devices db'"]
  by (auto simp: fleet_inv_def quiet_def)

lemma token_new:
  assumes "tokens_ok ts log" "et_ID t \<notin> et_ID ` set ts" "et_UseCount t = 0" "\<forall>n. et_MaxUses t = Some n \<longrightarrow> 0 \<le> n"
  shows "tokens_ok (ts @ [t]) log"
proof -
  have "en_Token e \<noteq> et_ID t" if "e \<in> set log" for e
  proof -
    have "\<exists>u \<in> set ts. et_ID u = en_Token e" using assms(1) that by (auto simp: tokens_ok_def let_in_def)
    then show ?thesis using assms(2) by (metis imageI)
  qed
  then have "uses log (et_ID t) = 0" by (auto simp: uses_def filter_empty_conv)
  then show ?thesis using assms by (auto simp: tokens_ok_def token_ok_def)
qed

lemma inv_token:
  assumes "fleet_inv (clock, db, log)" "clock \<le> now" "CreateToken E opts i secret now db = (r, db')"
  shows "fleet_inv (now, db', log)"
proof (cases "\<exists>x. r = Inr x")
  case False
  then have "db' = db" using assms(3) by (auto simp: CreateToken_def Let_def split: if_splits option.splits)
  then show ?thesis using inv_quiet [OF assms(1) _ assms(2)] by (simp add: quiet_def)
next
  case True
  then obtain t where t: "ed_tokens db' = ed_tokens db @ [t]" "\<forall>u \<in> set (ed_tokens db). et_ID u \<noteq> et_ID t" "et_UseCount t = 0"
      "et_MaxUses t = to_MaxUses opts" "ed_registrations db' = ed_registrations db" "ed_devices db' = ed_devices db"
    using assms(3) by (auto simp: CreateToken_def CreateEnrollmentToken_def list_ex_iff Let_def split: if_splits option.splits)
  have "\<forall>n. to_MaxUses opts = Some n \<longrightarrow> 0 \<le> n" using True assms(3) by (auto simp: CreateToken_def split: if_splits option.splits)
  then have "tokens_ok (ed_tokens db @ [t]) log" using assms(1) t by (intro token_new) (auto simp: fleet_inv_def)
  then show ?thesis using assms(1,2) t by (fastforce simp: fleet_inv_def)
qed

lemma revoke_let_in: "let_in t e \<Longrightarrow> en_At e \<le> now \<Longrightarrow> let_in (if P then t\<lparr>et_RevokedAt := Some now\<rparr> else t) e"
  by (auto simp: let_in_def)

lemma inv_revoke:
  assumes "fleet_inv (clock, db, log)" "clock \<le> now" "RevokeToken E i actor now db = (r, db')"
  shows "fleet_inv (now, db', log)"
proof (cases r)
  case (Some e)
  then have "db' = db" using assms(3) by (auto simp: RevokeToken_def split: option.splits)
  then show ?thesis using inv_quiet [OF assms(1) _ assms(2)] by (simp add: quiet_def)
next
  case None
  let ?f = "\<lambda>t. if et_ID t = i \<and> et_RevokedAt t = None then t\<lparr>et_RevokedAt := Some now\<rparr> else t"
  have db': "ed_tokens db' = map ?f (ed_tokens db)" "ed_registrations db' = ed_registrations db" "ed_devices db' = ed_devices db"
    using assms(3) None by (auto simp: RevokeToken_def RevokeEnrollmentToken_def split: option.splits)
  have at: "\<forall>e \<in> set log. en_At e \<le> now" using assms(1,2) by (fastforce simp: fleet_inv_def)
  have ok: "tokens_ok (ed_tokens db) log" using assms(1) by (simp add: fleet_inv_def)
  have ids: "map et_ID (map ?f (ed_tokens db)) = map et_ID (ed_tokens db)" by auto
  have "\<forall>t \<in> set (map ?f (ed_tokens db)). token_ok log t" using ok by (auto simp: tokens_ok_def token_ok_def)
  moreover have "\<exists>t \<in> set (map ?f (ed_tokens db)). let_in t e" if "e \<in> set log" for e
  proof -
    have "\<exists>t \<in> set (ed_tokens db). let_in t e" using ok that by (simp add: tokens_ok_def)
    then obtain t where "t \<in> set (ed_tokens db)" "let_in t e" by blast
    then show ?thesis using revoke_let_in [of t e now] at that by (intro bexI [of _ "?f t"]) auto
  qed
  ultimately have "tokens_ok (map ?f (ed_tokens db)) log" using ok unfolding tokens_ok_def ids by blast
  then show ?thesis using assms(1) at unfolding fleet_inv_def prod.case db' by blast
qed

text \<open>Registrations come and go.\<close>

lemma reg_new:
  assumes "regs_ok rs ds log" "rg_ID r \<notin> rg_ID ` set rs" "Some (rg_ID r) \<notin> en_Registration ` set log"
  shows "regs_ok (rs @ [r]) ds log"
  using assms unfolding regs_ok_def by (auto simp: image_iff)

lemma insert_regs:
  assumes "insertRegistrations regs db = Some db'" "regs_ok (ed_registrations db) (ed_devices db) log"
    "\<forall>r \<in> set regs. Some (rg_ID r) \<notin> en_Registration ` set log"
  shows "ed_tokens db' = ed_tokens db \<and> ed_devices db' = ed_devices db \<and> regs_ok (ed_registrations db') (ed_devices db) log"
  using assms
proof (induction regs arbitrary: db)
  case Nil
  then show ?case by simp
next
  case (Cons r regs)
  obtain db1 where db1: "CreateRegistration r db = Some db1" "insertRegistrations regs db1 = Some db'"
    using Cons.prems(1) by (auto split: option.splits)
  then have f: "ed_registrations db1 = ed_registrations db @ [r\<lparr>rg_DeviceID := None, rg_EnrolledAt := None\<rparr>]" "ed_tokens db1 = ed_tokens db"
    "ed_devices db1 = ed_devices db" "rg_ID r \<notin> rg_ID ` set (ed_registrations db)"
    by (auto simp: CreateRegistration_def list_ex_iff split: if_splits)
  have "regs_ok (ed_registrations db1) (ed_devices db) log"
    unfolding f(1) using Cons.prems(2,3) f(4) by (intro reg_new) simp_all
  then show ?case using Cons.IH [OF db1(2)] Cons.prems(3) f(2,3) by simp
qed

lemma inv_saved:
  assumes "fleet_inv (clock, db, log)" "clock \<le> now" "saveRegistrations E regs actor db = Some db'"
    "\<forall>r \<in> set regs. Some (rg_ID r) \<notin> en_Registration ` set log"
  shows "fleet_inv (now, db', log)"
proof -
  obtain db1 where i: "insertRegistrations regs db = Some db1" and db': "ed_tokens db' = ed_tokens db1" "ed_devices db' = ed_devices db1"
    "ed_registrations db' = ed_registrations db1"
    using assms(3) by (auto simp: saveRegistrations_def)
  have "regs_ok (ed_registrations db) (ed_devices db) log" using assms(1) by (simp add: fleet_inv_def)
  from insert_regs [OF i this assms(4)] show ?thesis using assms(1,2) db' by (fastforce simp: fleet_inv_def)
qed

lemma saved_devices:
  assumes "saveRegistrations E regs actor db = Some db'"
  shows "ed_devices db' = ed_devices db"
proof -
  have "insertRegistrations rs d = Some d' \<Longrightarrow> ed_devices d' = ed_devices d" for rs d d'
    by (induction rs arbitrary: d) (auto simp: CreateRegistration_def split: option.splits if_splits)
  then show ?thesis using assms by (auto simp: saveRegistrations_def)
qed

lemma inv_same: "fleet_inv (clock, db, log) \<Longrightarrow> clock \<le> now \<Longrightarrow> fleet_inv (now, db, log)"
  using inv_quiet by (simp add: quiet_def)

lemma built_id: "buildRegistration i serial name notes groups now actor = Inr reg \<Longrightarrow> rg_ID reg = i"
  by (auto simp: buildRegistration_def Let_def split: if_splits)

lemma inv_register:
  assumes "fleet_inv (clock, db, log)" "clock \<le> now" "Some i \<notin> en_Registration ` set log"
    "createRegistration E i serial name gids notes actor now db = (res, db')"
  shows "fleet_inv (now, db', log)"
proof (cases "\<exists>reg. res = Inr reg")
  case True
  then obtain reg where "saveRegistrations E [reg] actor db = Some db'" "rg_ID reg = i"
    using assms(4) built_id by (fastforce simp: createRegistration_def split: option.splits sum.splits)
  then show ?thesis using inv_saved [OF assms(1,2)] assms(3) by simp
next
  case False
  then have "db' = db" using assms(4) by (auto simp: createRegistration_def split: option.splits sum.splits)
  then show ?thesis using inv_same [OF assms(1,2)] by simp
qed

lemma import_next:
  assumes "importLoop gs ids now actor stop line (rec # recs) regs problems seen = (regs', problems')"
  obtains (stopped) "regs' = regs"
  | (on) problems1 seen1 where "importLoop gs ids now actor stop (line + 1) recs regs problems1 seen1 = (regs', problems')"
  | (added) reg seen1 where "rg_ID reg = ids line" "importLoop gs ids now actor stop (line + 1) recs (regs @ [reg]) problems seen1 = (regs', problems')"
proof -
  let ?groups = "groupsByName gs (split_on (CHR '';'') (field_of rec 2))"
  let ?built = "\<lambda>groups. buildRegistration (ids line) (field_of rec 0) (field_of rec 1) (field_of rec 3) groups now actor"
  note step = assms [unfolded importLoop.simps(2)]
  consider (blank) "rec = [] \<or> length rec = 1 \<and> trim_space (hd rec) = []"
    | (head) "\<not> (rec = [] \<or> length rec = 1 \<and> trim_space (hd rec) = [])" "line = 1 \<and> equal_fold (trim_space (hd rec)) ''serial''"
    | (row) "\<not> (rec = [] \<or> length rec = 1 \<and> trim_space (hd rec) = [])" "\<not> (line = 1 \<and> equal_fold (trim_space (hd rec)) ''serial'')" by blast
  then show ?thesis
  proof cases
    case blank
    show ?thesis by (rule on [OF step [unfolded if_P [OF blank]]])
  next
    case head
    show ?thesis by (rule on [OF step [unfolded if_not_P [OF head(1)] if_P [OF head(2)]]])
  next
    case row
    note step = step [unfolded if_not_P [OF row(1)] if_not_P [OF row(2)]]
    show ?thesis
    proof (cases "length regs + length problems \<ge> maxImportRows")
      case True
      then show ?thesis using step stopped by (simp only: if_True prod.inject)
    next
      case False
      note step = step [unfolded if_not_P [OF False]]
      show ?thesis
      proof (cases ?groups)
        case (Inl m)
        then show ?thesis using step on by simp
      next
        case (Inr groups)
        note step = step [unfolded Inr sum.case]
        show ?thesis
        proof (cases "?built groups")
          case (Inl m)
          then show ?thesis using step on by simp
        next
          case built: (Inr reg)
          note step = step [unfolded built sum.case]
          show ?thesis
          proof (cases "map_of seen (to_upper (rg_Serial reg)) \<noteq> None")
            case True
            show ?thesis by (rule on [OF step [unfolded if_P [OF True]]])
          next
            case False
            show ?thesis by (rule added [OF built_id [OF built] step [unfolded if_not_P [OF False]]])
          qed
        qed
      qed
    qed
  qed
qed

lemma import_ids:
  assumes "importLoop gs ids now actor stop line recs regs problems seen = (regs', problems')" "\<forall>r \<in> set regs. \<exists>n. rg_ID r = ids n"
  shows "\<forall>r \<in> set regs'. \<exists>n. rg_ID r = ids n"
  using assms
proof (induction recs arbitrary: line regs problems seen)
  case Nil
  then show ?case by simp
next
  case (Cons rec recs)
  from Cons.prems(1) show ?case
  proof (cases rule: import_next)
    case stopped
    then show ?thesis using Cons.prems(2) by simp
  next
    case (on problems1 seen1)
    then show ?thesis by (rule Cons.IH) (rule Cons.prems(2))
  next
    case (added reg seen1)
    show ?thesis by (rule Cons.IH [OF added(2)]) (use Cons.prems(2) added(1) in auto)
  qed
qed

lemma inv_import:
  assumes "fleet_inv (clock, db, log)" "clock \<le> now" "\<forall>n. Some (ids n) \<notin> en_Registration ` set log"
    "importRegistrations E ids records stop actor now db = (result, db')"
  shows "fleet_inv (now, db', log)"
proof -
  obtain regs problems where l: "importLoop (ed_groups db) ids now actor stop 1 records [] [] [] = (regs, problems)" by fastforce
  have ids: "\<forall>r \<in> set regs. Some (rg_ID r) \<notin> en_Registration ` set log" using import_ids [OF l] assms(3) by fastforce
  have "db' = db \<or> saveRegistrations E regs actor db = Some db'"
    using assms(4) l by (auto simp: importRegistrations_def split: if_splits option.splits)
  then show ?thesis using inv_saved [OF assms(1,2) _ ids] inv_same [OF assms(1,2)] by blast
qed

lemma inv_unregister:
  assumes "fleet_inv (clock, db, log)" "deleteRegistration E i actor db = (ref, db')"
  shows "fleet_inv (clock, db', log)"
proof -
  have "\<exists>P. ed_registrations db' = filter P (ed_registrations db) \<and> ed_tokens db' = ed_tokens db \<and> ed_devices db' = ed_devices db"
    using assms(2) by (auto simp: deleteRegistration_def DeleteRegistration_def split: option.splits if_splits intro: exI [of _ "\<lambda>_. True"])
  then obtain P where P: "ed_registrations db' = filter P (ed_registrations db)" "ed_tokens db' = ed_tokens db" "ed_devices db' = ed_devices db" by blast
  have "regs_ok (filter P (ed_registrations db)) (ed_devices db) log"
    using assms(1) by (auto simp: fleet_inv_def regs_ok_def distinct_map_filter)
  then show ?thesis using assms(1) unfolding fleet_inv_def prod.case P by blast
qed

text \<open>A device is let in.\<close>

lemma counted_ok:
  assumes "tokens_ok ts log" "t \<in> set ts" "CheckUsable t now = None" "et_RegisteredOnly t \<longrightarrow> en_Registration e \<noteq> None"
    "en_Token e = et_ID t" "en_At e = now"
  shows "tokens_ok (counted (et_ID t) ts) (log @ [e])"
proof -
  let ?inc = "\<lambda>u. if et_ID u = et_ID t then u\<lparr>et_UseCount := et_UseCount u + 1\<rparr> else u"
  have ids: "map et_ID (counted (et_ID t) ts) = map et_ID ts" by (auto simp: counted_def)
  have same: "u = t" if "u \<in> set ts" "et_ID u = et_ID t" for u using assms(1,2) that by (auto simp: tokens_ok_def distinct_map inj_on_def)
  have use: "et_RevokedAt t = None" "\<forall>x. et_ExpiresAt t = Some x \<longrightarrow> now < x" "\<forall>n. et_MaxUses t = Some n \<longrightarrow> et_UseCount t < n"
    using assms(3) by (auto simp: CheckUsable_def split: if_splits option.splits)
  have "token_ok (log @ [e]) (?inc u)" if "u \<in> set ts" for u
  proof -
    have "token_ok log u" using assms(1) that by (simp add: tokens_ok_def)
    then show ?thesis using same [OF that] use(3) assms(5) by (auto simp: token_ok_def uses_def)
  qed
  then have "\<forall>u \<in> set (counted (et_ID t) ts). token_ok (log @ [e]) u" unfolding counted_def set_map by blast
  moreover have inc: "let_in (?inc u) d = let_in u d" for u d by (simp add: let_in_def)
  have "\<exists>u \<in> set (counted (et_ID t) ts). let_in u d" if "d \<in> set (log @ [e])" for d
  proof -
    have "let_in t e" using assms(4-6) use by (simp add: let_in_def)
    then have "\<exists>u \<in> set ts. let_in u d" using assms(1,2) that by (auto simp: tokens_ok_def)
    then show ?thesis unfolding counted_def set_map using inc by blast
  qed
  ultimately show ?thesis using assms(1) unfolding tokens_ok_def ids by blast
qed

lemma active_new:
  "active_in (ds @ [new_device dev f issued now]) i \<longleftrightarrow> i = dev \<or> active_in ds i"
  by (auto simp: active_in_def is_active_def new_device_def)

lemma not_spent:
  assumes "claimed_registration f db = Some r"
  shows "r \<in> set (ed_registrations db)" "rg_DeviceID r = Some i \<Longrightarrow> \<not> active_in (ed_devices db) i"
proof -
  have f: "find (\<lambda>r. to_upper (rg_Serial r) = to_upper (trim_space (df_Serial f)) \<and> \<not> spent_registration db r) (ed_registrations db) = Some r"
    using assms by (auto simp: claimed_registration_def RegistrationForSerial_def Let_def split: if_splits)
  from find_SomeD [OF f] show "r \<in> set (ed_registrations db)" "rg_DeviceID r = Some i \<Longrightarrow> \<not> active_in (ed_devices db) i"
    by (auto simp: spent_registration_def list_ex_iff active_in_def is_active_def)
qed

lemma registered_ok:
  assumes "regs_ok rs ds log" "\<forall>d \<in> set log. en_Device d \<noteq> dev"
    and "\<And>r. reg = Some r \<Longrightarrow> r \<in> set rs \<and> (\<forall>i. rg_DeviceID r = Some i \<longrightarrow> \<not> active_in ds i)"
    and "en_Device e = dev" "en_Registration e = map_option rg_ID reg"
  shows "regs_ok (case reg of None \<Rightarrow> rs | Some r \<Rightarrow> marked (rg_ID r) dev now rs) (ds @ [new_device dev f issued at]) (log @ [e])"
proof (cases reg)
  case None
  then show ?thesis using assms unfolding regs_ok_def by (auto simp: active_new)
next
  case (Some r)
  have r: "r \<in> set rs" "\<And>i. rg_DeviceID r = Some i \<Longrightarrow> \<not> active_in ds i" using assms(3) [OF Some] by blast+
  have dist: "distinct (map rg_ID rs)" using assms(1) by (simp add: regs_ok_def)
  have ids: "map rg_ID (marked (rg_ID r) dev now rs) = map rg_ID rs" by (auto simp: marked_def)
  have old: "active_in ds (en_Device x)" if "x \<in> set log" "active_in (ds @ [new_device dev f issued at]) (en_Device x)" for x
    using that assms(2) by (auto simp: active_new)
  have free: "\<not> active_in ds (en_Device d)" if "d \<in> set log" "en_Registration d = Some (rg_ID r)" for d
    using assms(1) r that unfolding regs_ok_def by blast
  have "rg_DeviceID g = Some (en_Device d)"
    if "d \<in> set (log @ [e])" "active_in (ds @ [new_device dev f issued at]) (en_Device d)" "g \<in> set (marked (rg_ID r) dev now rs)"
      "en_Registration d = Some (rg_ID g)" for d g
  proof (cases "d = e")
    case True
    then have "rg_ID g = rg_ID r" using that(4) assms(5) Some by simp
    moreover note g = that(3)
    obtain x where "g = (if rg_ID x = rg_ID r then x\<lparr>rg_DeviceID := Some dev, rg_EnrolledAt := Some now\<rparr> else x)"
      using g unfolding marked_def set_map by blast
    ultimately show ?thesis using True assms(4) by (simp split: if_splits)
  next
    case False
    then have d: "d \<in> set log" "active_in ds (en_Device d)" using that(1) old [OF _ that(2)] by auto
    then have "rg_ID g \<noteq> rg_ID r" using free that(4) by auto
    then have "g \<in> set rs" using that(3) by (auto simp: marked_def split: if_splits)
    then show ?thesis using assms(1) d that(4) unfolding regs_ok_def by blast
  qed
  moreover have "en_Device d = en_Device d'"
    if "d \<in> set (log @ [e])" "d' \<in> set (log @ [e])" "active_in (ds @ [new_device dev f issued at]) (en_Device d)"
      "active_in (ds @ [new_device dev f issued at]) (en_Device d')" "en_Registration d \<noteq> None" "en_Registration d = en_Registration d'" for d d'
  proof -
    have "en_Registration e = Some (rg_ID r)" using assms(5) Some by simp
    then have "d \<in> set log \<longleftrightarrow> d' \<in> set log" using that(1,2,6) old [OF _ that(3)] old [OF _ that(4)] free by fastforce
    then have "d \<in> set log \<and> d' \<in> set log \<or> d = e \<and> d' = e" using that(1,2) by auto
    then show ?thesis
    proof (elim disjE conjE)
      assume in_log: "d \<in> set log" "d' \<in> set log"
      then show ?thesis using old [OF in_log(1) that(3)] old [OF in_log(2) that(4)] that(5,6) assms(1) unfolding regs_ok_def by blast
    qed simp
  qed
  ultimately show ?thesis using dist unfolding regs_ok_def Some option.case ids by blast
qed

lemma inv_enroll:
  assumes "fleet_inv (clock, db, log)" "clock \<le> now" "Enroll E dev k sn req now db = (Inr resp, db')"
  shows "fleet_inv (now, db', log @ [enrolled_as E dev req now db])"
  using assms(3)
proof (cases rule: Enroll_cases)
  case (1 tok issued)
  let ?e = "enrolled_as E dev req now db"
  have inv: "tokens_ok (ed_tokens db) log" "\<forall>e \<in> set log. en_At e \<le> clock" "map dv_ID (ed_devices db) = map en_Device log"
    "distinct (map dv_ID (ed_devices db))" "regs_ok (ed_registrations db) (ed_devices db) log"
    using assms(1) unfolding fleet_inv_def prod.case by blast+
  have e: "en_Token ?e = et_ID tok" "en_Device ?e = dev" "en_At ?e = now" "en_Registration ?e = map_option rg_ID (claimed_registration (rq_Device req) db)"
    using 1(1) by (simp_all add: enrolled_as_def)
  have tok: "tok \<in> set (ed_tokens db)" using 1(1) find_SomeD unfolding GetEnrollmentTokenByHashForUpdate_def by metis
  have "tokens_ok (ed_tokens db') (log @ [?e])" unfolding 1(7) using 1(3) e by (intro counted_ok [OF inv(1) tok 1(2)]) auto
  moreover have "set (map dv_ID (ed_devices db)) = set (map en_Device log)" using inv(3) by simp
  then have "\<forall>d \<in> set log. en_Device d \<noteq> dev" using 1(5) by auto
  then have "regs_ok (ed_registrations db') (ed_devices db') (log @ [?e])" unfolding 1(6,8)
    using not_spent [of "rq_Device req" db] e(2,4) by (intro registered_ok [OF inv(5)]) auto
  moreover have "dv_ID (new_device dev (rq_Device req) issued now) = dev" by (simp add: new_device_def)
  then have "map dv_ID (ed_devices db') = map en_Device (log @ [?e])" "distinct (map dv_ID (ed_devices db'))"
    unfolding 1(6) using inv(3) e(2) by simp (use inv(4) 1(5) \<open>dv_ID (new_device dev (rq_Device req) issued now) = dev\<close> in simp)
  moreover have "\<forall>d \<in> set (log @ [?e]). en_At d \<le> now" using inv(2) assms(2) e(3) by auto
  ultimately show ?thesis unfolding fleet_inv_def prod.case by blast
qed

lemma fleet_inv_step: "fleet_step E s s' \<Longrightarrow> fleet_inv s \<Longrightarrow> fleet_inv s'"
proof (induction rule: fleet_step.induct)
  case (fs_token clock now opts i secret db r db' log)
  then show ?case by (blast intro: inv_token)
next
  case (fs_revoke clock now i actor db r db' log)
  then show ?case by (blast intro: inv_revoke)
next
  case (fs_enroll clock now dev k sn req db resp db' log)
  then show ?case by (blast intro: inv_enroll)
next
  case (fs_refused clock now dev k sn req db e db' log)
  then show ?case using Enroll_refused [OF fs_refused(2)] inv_same by simp
next
  case (fs_register clock now i log serial name gids remarks actor db res db')
  then show ?case by (blast intro: inv_register)
next
  case (fs_import clock now ids log records stop actor db result db')
  then show ?case by (blast intro: inv_import)
next
  case (fs_unregister i actor db ref db' clock log)
  then show ?case by (blast intro: inv_unregister)
next
  case (fs_retire i actor db derr db' clock log)
  then show ?case using inv_quiet [of clock db log db'] calm_ops(1) [of db E i actor] by simp
next
  case (fs_unenrol i actor db derr db' clock log)
  then show ?case using inv_quiet [of clock db log db'] calm_ops(2) [of db E i actor] by simp
next
  case (fs_renew clock now dev presented csrPEM sn db iss db' log)
  then show ?case using inv_quiet [of clock db log db' now] calm_ops(3) [of db E dev presented csrPEM sn now] by simp
next
  case (fs_request clear_fails leaf db auth db' clock log)
  then show ?case using inv_quiet [of clock db log db'] calm_ops(4) [of db E clear_fails leaf] by simp
next
  case (fs_checkin clock db log dev version at)
  then show ?case using inv_quiet calm_ops(5) by blast
next
  case (fs_inventory clock db log dev hw)
  then show ?case using inv_quiet calm_ops(6) by blast
next
  case (fs_world db' db clock log)
  then show ?case using inv_quiet [of clock db log db'] by (simp add: quiet_def)
qed

definition new_fleet :: "fleet_state \<Rightarrow> bool" where
  "new_fleet s \<longleftrightarrow> (case s of (clock, db, log) \<Rightarrow> ed_tokens db = [] \<and> ed_devices db = [] \<and> ed_registrations db = [] \<and> log = [])"

interpretation enrolling: state_machine "fleet_step E" new_fleet fleet_inv for E
proof unfold_locales
  show "fleet_inv s" if "new_fleet s" for s using that by (auto simp: new_fleet_def fleet_inv_def tokens_ok_def regs_ok_def)
qed (rule fleet_inv_step)

text \<open>
  C8. Nobody joins the fleet uninvited. In every state reached from an empty server, the devices are those that enrolled,
  one for each enrolment; each was let in by a token that had not expired and was not revoked then, with a registration where the
  token asks for one; no token let in more devices than it allows; and of the devices that one registration let in, one
  at most is active at a time.
\<close>

theorem enrolled_by_token:
  assumes "(fleet_step E)\<^sup>*\<^sup>* s (clock, db, log)" "new_fleet s"
  shows "map dv_ID (ed_devices db) = map en_Device log
    \<and> (\<forall>e \<in> set log. \<exists>t \<in> set (ed_tokens db). et_ID t = en_Token e \<and> (\<forall>x. et_ExpiresAt t = Some x \<longrightarrow> en_At e < x)
         \<and> (\<forall>r. et_RevokedAt t = Some r \<longrightarrow> en_At e \<le> r) \<and> (et_RegisteredOnly t \<longrightarrow> en_Registration e \<noteq> None))
    \<and> (\<forall>t \<in> set (ed_tokens db). \<forall>n. et_MaxUses t = Some n \<longrightarrow> int (length (filter (\<lambda>e. en_Token e = et_ID t) log)) \<le> n)
    \<and> (\<forall>e \<in> set log. \<forall>e' \<in> set log. active_in (ed_devices db) (en_Device e) \<longrightarrow> active_in (ed_devices db) (en_Device e')
         \<longrightarrow> en_Registration e \<noteq> None \<longrightarrow> en_Registration e = en_Registration e' \<longrightarrow> en_Device e = en_Device e')"
proof -
  have inv: "tokens_ok (ed_tokens db) log" "map dv_ID (ed_devices db) = map en_Device log" "regs_ok (ed_registrations db) (ed_devices db) log"
    using enrolling.reached [OF assms] unfolding fleet_inv_def prod.case by blast+
  have "\<forall>t \<in> set (ed_tokens db). \<forall>n. et_MaxUses t = Some n \<longrightarrow> int (length (filter (\<lambda>e. en_Token e = et_ID t) log)) \<le> n"
    using inv(1) by (auto simp: tokens_ok_def token_ok_def uses_def)
  then show ?thesis using inv(1) [unfolded tokens_ok_def let_in_def] inv(2) inv(3) [unfolded regs_ok_def] by blast
qed

section \<open>Who is served\<close>

lemma device_id: "GetDevice i db = Some d \<Longrightarrow> dv_ID d = i \<and> d \<in> set (ed_devices db)"
  unfolding GetDevice_def by (drule find_SomeD) simp

lemma cleared:
  assumes "GetDevice i (ClearPrevCertSerial i db) = Some d"
  shows "dv_PrevCertSerial d = []"
proof -
  have d: "dv_ID d = i" "d \<in> set (ed_devices (ClearPrevCertSerial i db))" using device_id [OF assms] by blast+
  have "ed_devices (ClearPrevCertSerial i db) = map (\<lambda>e. if dv_ID e = i then e\<lparr>dv_PrevCertSerial := []\<rparr> else e) (ed_devices db)"
    by (simp add: ClearPrevCertSerial_def updateDevices_def)
  with d(2) have "d \<in> (\<lambda>e. if dv_ID e = i then e\<lparr>dv_PrevCertSerial := []\<rparr> else e) ` set (ed_devices db)" by (simp only: set_map)
  then obtain e where "d = (if dv_ID e = i then e\<lparr>dv_PrevCertSerial := []\<rparr> else e)" by (rule imageE)
  then show ?thesis using d(1) by (cases "dv_ID e = i") simp_all
qed

lemma requireDevice_cases:
  assumes "requireDevice E clear_fails leaf db = (Inr (d, serial), db')"
  obtains c i row where "leaf = Inr (Some c)" "serial = ce_Serial c" "ee_uuid_Parse E (ce_CommonName c) = Some i" "GetDevice i db = Some row"
    "dv_ID d = i" "dv_Status row = DeviceActive" "serial = dv_CertSerial row \<or> dv_PrevCertSerial row \<noteq> [] \<and> serial = dv_PrevCertSerial row"
    "db' = (if serial = dv_CertSerial row \<and> dv_PrevCertSerial row \<noteq> [] \<and> \<not> clear_fails then ClearPrevCertSerial i db else db)"
proof -
  obtain c where c: "leaf = Inr (Some c)" using assms by (auto simp: requireDevice_def split: sum.splits option.splits)
  obtain i where i: "ee_uuid_Parse E (ce_CommonName c) = Some i" using assms c by (auto simp: requireDevice_def split: option.splits)
  obtain row where row: "GetDevice i db = Some row" using assms c i by (auto simp: requireDevice_def split: option.splits)
  show ?thesis using assms c i row device_id [OF row] by (intro that [OF c _ i row]) (auto simp: requireDevice_def Let_def split: if_splits)
qed

text \<open>
  C9. Only a device that is active, with a certificate the server knows, is served. Every route of the agents' API but
  enrolment answers a request only if it came with a certificate for a device that is in the table and active, with the serial number of
  the certificate issued last or, until that one is used, of the one it was renewed with; and a request with the last
  one clears the other from the device's row, so that it is refused from then on until a renewal puts one there again (unless the
  database fails to clear it).
\<close>

theorem agents_guarded:
  assumes "serveAgent E clear_fails leaf meth pattern db = (Inr who, db')" "pattern \<noteq> ''/api/agent/v1/enroll''"
  shows "\<exists>c i row d. leaf = Inr (Some c) \<and> who = Some (d, ce_Serial c) \<and> ee_uuid_Parse E (ce_CommonName c) = Some i \<and> GetDevice i db = Some row
    \<and> dv_ID d = i \<and> dv_Status row = DeviceActive \<and> (ce_Serial c = dv_CertSerial row \<or> ce_Serial c = dv_PrevCertSerial row \<and> dv_PrevCertSerial row \<noteq> [])
    \<and> (ce_Serial c = dv_CertSerial row \<and> \<not> clear_fails \<longrightarrow> (\<forall>row'. GetDevice i db' = Some row' \<longrightarrow> dv_PrevCertSerial row' = []))"
proof -
  obtain m b where r: "find (\<lambda>(m, p, _). m = meth \<and> p = pattern) agentRoutes = Some (m, pattern, b)"
    using assms(1) find_SomeD [of "\<lambda>(m, p, _). m = meth \<and> p = pattern" agentRoutes]
    by (cases "find (\<lambda>(m, p, _). m = meth \<and> p = pattern) agentRoutes") (auto simp: serveAgent_def)
  have "list_all (\<lambda>(m, p, b). b \<or> p = ''/api/agent/v1/enroll'') agentRoutes" by code_simp
  then have b: "b" using find_SomeD [OF r] assms(2) by (auto simp: list_all_iff)
  obtain a where a: "requireDevice E clear_fails leaf db = (Inr a, db')" "who = Some a"
    using assms(1) r b by (auto simp: serveAgent_def split: sum.splits prod.splits)
  obtain d serial where ds: "a = (d, serial)" by fastforce
  from a(1) [unfolded ds] show ?thesis
  proof (cases rule: requireDevice_cases)
    case (1 c i row)
    have "dv_PrevCertSerial row' = []" if "serial = dv_CertSerial row" "\<not> clear_fails" "GetDevice i db' = Some row'" for row'
    proof (cases "dv_PrevCertSerial row = []")
      case True
      then show ?thesis using 1(4,8) that by simp
    next
      case False
      then show ?thesis using 1(8) that cleared by simp
    qed
    then show ?thesis using 1(1,3-7) a(2) unfolding ds 1(2) by blast
  qed
qed

definition shut_out :: "uuid \<Rightarrow> fleet_state \<Rightarrow> bool" where
  "shut_out i s \<longleftrightarrow> (case s of (clock, db, log) \<Rightarrow> i \<in> dv_ID ` set (ed_devices db) \<and> \<not> active_in (ed_devices db) i)"

lemma step_devices:
  assumes "fleet_step E (clock, db, log) (now, db', log')"
  shows "calms (ed_devices db) (ed_devices db')
    \<or> (\<exists>dev f issued at. dev \<notin> dv_ID ` set (ed_devices db) \<and> ed_devices db' = ed_devices db @ [new_device dev f issued at])"
  using assms
proof cases
  case (fs_enroll dev k sn req resp)
  from fs_enroll(3) show ?thesis by (cases rule: Enroll_cases) blast
next
  case (fs_register i serial name gids remarks actor res)
  then have "db' = db \<or> (\<exists>regs. saveRegistrations E regs actor db = Some db')"
    by (auto simp: createRegistration_def split: option.splits sum.splits)
  then show ?thesis using saved_devices by (metis calms_refl)
next
  case (fs_import ids records stop actor result)
  then have "db' = db \<or> (\<exists>regs. saveRegistrations E regs actor db = Some db')"
    by (auto simp: importRegistrations_def split: prod.splits option.splits if_splits)
  then show ?thesis using saved_devices by (metis calms_refl)
next
  case (fs_token opts i secret r)
  then show ?thesis by (auto simp: CreateToken_def CreateEnrollmentToken_def Let_def split: if_splits option.splits)
next
  case (fs_revoke i actor r)
  then show ?thesis by (auto simp: RevokeToken_def RevokeEnrollmentToken_def split: option.splits)
next
  case (fs_refused dev k sn req e)
  then show ?thesis using Enroll_refused [OF fs_refused(3)] by simp
next
  case (fs_unregister i actor ref)
  then show ?thesis by (auto simp: deleteRegistration_def DeleteRegistration_def split: if_splits option.splits)
next
  case (fs_retire i actor derr)
  then show ?thesis using calm_ops(1) [of db E i actor] by (simp add: quiet_def)
next
  case (fs_unenrol i actor derr)
  then show ?thesis using calm_ops(2) [of db E i actor] by (simp add: quiet_def)
next
  case (fs_renew dev presented csrPEM sn iss)
  then show ?thesis using calm_ops(3) [of db E dev presented csrPEM sn now] by (simp add: quiet_def)
next
  case (fs_request clear_fails leaf auth)
  then show ?thesis using calm_ops(4) [of db E clear_fails leaf] by (simp add: quiet_def)
next
  case (fs_checkin dev version at)
  then show ?thesis using calm_ops(5) [of db] by (simp add: quiet_def)
next
  case (fs_inventory dev hw)
  then show ?thesis using calm_ops(6) [of db] by (simp add: quiet_def)
next
  case fs_world
  then show ?thesis by simp
qed

interpretation shut: state_machine "fleet_step E" "shut_out i" "shut_out i" for E i
proof unfold_locales
  fix E i s t assume out: "shut_out i s" and st: "fleet_step E s t"
  obtain clock db log now db' log' where eq: "s = (clock, db, log)" "t = (now, db', log')" by (cases s, cases t) auto
  show "shut_out i t" using step_devices [OF st [unfolded eq]]
  proof (elim disjE exE conjE)
    assume c: "calms (ed_devices db) (ed_devices db')"
    then have "dv_ID ` set (ed_devices db') = dv_ID ` set (ed_devices db)" using calms_ids [OF c] by (metis list.set_map)
    then show ?thesis using out calms_active [OF c] by (auto simp: shut_out_def eq)
  next
    fix dev f issued at assume "dev \<notin> dv_ID ` set (ed_devices db)" "ed_devices db' = ed_devices db @ [new_device dev f issued at]"
    then show ?thesis using out by (auto simp: shut_out_def eq active_new)
  qed
qed

lemma shut_out_starts:
  assumes "Retire E i actor db = (None, db1) \<or> Unenroll E i actor db = (None, db1)"
  shows "shut_out i (clock, db1, log)"
proof -
  obtain st d where st: "GetDevice i db = Some d" "ed_devices db1 = ed_devices (SetDeviceStatus i st db)" "st \<noteq> DeviceActive"
    using assms by (auto simp: Retire_def Unenroll_def transition_def split: option.splits if_splits)
  let ?f = "\<lambda>e. if dv_ID e = i then e\<lparr>dv_Status := st\<rparr> else e"
  have db1: "ed_devices db1 = map ?f (ed_devices db)" using st(2) by (simp add: SetDeviceStatus_def updateDevices_def)
  have "map dv_ID (map ?f (ed_devices db)) = map dv_ID (ed_devices db)" by simp
  then have "dv_ID ` set (ed_devices db1) = dv_ID ` set (ed_devices db)" unfolding db1 by (metis list.set_map)
  then have "i \<in> dv_ID ` set (ed_devices db1)" using device_id [OF st(1)] by auto
  moreover have "\<not> is_active (?f e)" if "dv_ID (?f e) = i" for e using that st(3) by (cases "dv_ID e = i") (simp_all add: is_active_def)
  then have "\<not> active_in (ed_devices db1) i" unfolding db1 active_in_def set_map by blast
  ultimately show ?thesis by (simp add: shut_out_def)
qed

text \<open>
  C25. A device that was retired or unenrolled stays out: whatever happens afterwards, whichever of its certificates is presented,
  and however often devices enrol, the server never serves it again.
\<close>

theorem retired_stays_out:
  assumes "Retire E i actor db = (None, db1) \<or> Unenroll E i actor db = (None, db1)" "(fleet_step E)\<^sup>*\<^sup>* (clock, db1, log) (later, db2, log')"
    "ee_uuid_Parse E (ce_CommonName c) = Some i"
  shows "\<exists>e. fst (requireDevice E clear_fails (Inr (Some c)) db2) = Inl e"
proof -
  have "shut_out i (clock, db1, log)" using shut_out_starts assms(1) by blast
  with assms(2) have "shut_out i (later, db2, log')" by (rule shut.along)
  then have out: "\<not> active_in (ed_devices db2) i" by (simp add: shut_out_def)
  show ?thesis
  proof (cases "GetDevice i db2")
    case None
    then show ?thesis using assms(3) by (simp add: requireDevice_def)
  next
    case (Some d)
    then have "dv_Status d \<noteq> DeviceActive" using out device_id [OF Some] by (auto simp: active_in_def is_active_def)
    then show ?thesis using assms(3) Some by (auto simp: requireDevice_def Let_def)
  qed
qed

section \<open>Examples\<close>

text \<open>A token for one device, and the device that uses it.\<close>

definition ew_env :: enroll_env where
  "ew_env = \<lparr>ee_sha = id, ee_uuid_String = id, ee_uuid_Parse = Some, ee_pem_Decode = (\<lambda>s. Some (''CERTIFICATE REQUEST'', s)),
     ee_ParseCSR = (\<lambda>s. Some \<lparr>cq_SignatureOK = True, cq_P256 = True, cq_PublicKey = s\<rparr>), ee_encode_cert = ce_Serial, ee_CAPEM = [], ee_CertValidity = 3600\<rparr>"

definition ew_empty :: enroll_db where
  "ew_empty = \<lparr>ed_tokens = [], ed_registrations = [], ed_devices = [], ed_groups = [], ed_members = [], ed_commands = [], ed_audit = []\<rparr>"

definition ew_invited :: enroll_db where
  "ew_invited = snd (CreateToken ew_env (createToken_options ''lab'' (Some 1) 0 False ''ann'' 0) ''t'' (Some ''x'') 0 ew_empty)"

definition ew_request :: EnrollRequest where
  "ew_request = \<lparr>rq_Token = ''rt_x'', rq_CSRPEM = ''k'', rq_Device = \<lparr>df_Hostname = ''pc'', df_Serial = [], df_SMBIOSUUID = [], df_OSVersion = []\<rparr>\<rparr>"

definition ew_joined :: enroll_db where
  "ew_joined = snd (Enroll ew_env ''d'' ''c'' (Some ''1f'') ew_request 5 ew_invited)"

definition ew_cert :: certificate where
  "ew_cert = \<lparr>ce_Serial = ''1f'', ce_CommonName = ''d'', ce_NotBefore = 0, ce_NotAfter = 0, ce_PublicKey = ''k''\<rparr>"

lemma ew_log: "enrolled_as ew_env ''d'' ew_request 5 ew_invited = \<lparr>en_Token = ''t'', en_Device = ''d'', en_At = 5, en_Registration = None\<rparr>"
  by code_simp

lemma ew_run: "(fleet_step ew_env)\<^sup>*\<^sup>* (0, ew_empty, []) (5, ew_joined, [\<lparr>en_Token = ''t'', en_Device = ''d'', en_At = 5, en_Registration = None\<rparr>])"
proof -
  have "fleet_step ew_env (0, ew_empty, []) (0, ew_invited, [])"
    unfolding ew_invited_def by (rule fs_token [OF order_refl prod.collapse [symmetric]])
  moreover have "case Enroll ew_env ''d'' ''c'' (Some ''1f'') ew_request 5 ew_invited of (Inl _, _) \<Rightarrow> False | (Inr _, _) \<Rightarrow> True" by code_simp
  then obtain resp where "Enroll ew_env ''d'' ''c'' (Some ''1f'') ew_request 5 ew_invited = (Inr resp, ew_joined)"
    unfolding ew_joined_def by (cases "Enroll ew_env ''d'' ''c'' (Some ''1f'') ew_request 5 ew_invited") (auto split: sum.splits)
  from fs_enroll [OF _ this, of 0 "[]"] have "fleet_step ew_env (0, ew_invited, []) (5, ew_joined, [enrolled_as ew_env ''d'' ew_request 5 ew_invited])" by simp
  ultimately show ?thesis unfolding ew_log by (meson converse_rtranclp_into_rtranclp rtranclp.rtrancl_refl)
qed

theorem enrolled_by_token_witness:
  "map dv_ID (ed_devices ew_joined) = [''d''] \<and> (\<exists>t \<in> set (ed_tokens ew_joined). et_ID t = ''t'')"
proof -
  have "new_fleet (0, ew_empty, [])" by (simp add: new_fleet_def ew_empty_def)
  from enrolled_by_token [OF ew_run this] show ?thesis by auto
qed

theorem agents_guarded_witness:
  "\<exists>row d. GetDevice ''d'' ew_joined = Some row \<and> dv_ID d = ''d'' \<and> dv_CertSerial row = ''1f''
    \<and> serveAgent ew_env False (Inr (Some ew_cert)) ''POST'' ''/api/agent/v1/checkin'' ew_joined = (Inr (Some (d, ''1f'')), ew_joined)"
proof -
  let ?r = "serveAgent ew_env False (Inr (Some ew_cert)) ''POST'' ''/api/agent/v1/checkin'' ew_joined"
  have r: "case ?r of (Inr (Some _), _) \<Rightarrow> True | _ \<Rightarrow> False" "map dv_PrevCertSerial (ed_devices ew_joined) = [[]]" by code_simp+
  then obtain who db' where w: "?r = (Inr who, db')" by (cases ?r) (auto split: sum.splits)
  have no: "''/api/agent/v1/checkin'' \<noteq> ''/api/agent/v1/enroll''" by simp
  from agents_guarded [OF w no] obtain row d where d: "who = Some (d, ''1f'')" "GetDevice ''d'' ew_joined = Some row" "dv_ID d = ''d''"
      "''1f'' = dv_CertSerial row \<or> ''1f'' = dv_PrevCertSerial row \<and> dv_PrevCertSerial row \<noteq> []"
    unfolding ew_cert_def ew_env_def by auto
  have "dv_PrevCertSerial row = []" using r(2) device_id [OF d(2)] by auto
  then have "dv_CertSerial row = ''1f''" using d(4) by auto
  moreover have "snd ?r = ew_joined" by code_simp
  ultimately show ?thesis using w d(1-3) by auto
qed

theorem retired_stays_out_witness:
  "\<exists>e. fst (requireDevice ew_env False (Inr (Some ew_cert)) (RecordCheckin ''d'' ''1.0'' 9 (snd (Retire ew_env ''d'' ''ann'' ew_joined)))) = Inl e"
proof -
  have "fst (Retire ew_env ''d'' ''ann'' ew_joined) = None" by code_simp
  then have "Retire ew_env ''d'' ''ann'' ew_joined = (None, snd (Retire ew_env ''d'' ''ann'' ew_joined))" by (metis prod.collapse)
  moreover have "(fleet_step ew_env)\<^sup>*\<^sup>* (5, snd (Retire ew_env ''d'' ''ann'' ew_joined), [])
      (5, RecordCheckin ''d'' ''1.0'' 9 (snd (Retire ew_env ''d'' ''ann'' ew_joined)), [])"
    by (rule r_into_rtranclp) (rule fs_checkin)
  moreover have "ee_uuid_Parse ew_env (ce_CommonName ew_cert) = Some ''d''" by (simp add: ew_env_def ew_cert_def)
  ultimately show ?thesis using retired_stays_out by blast
qed

end
