(* ===== verification/Alerts.thy ===== *)
theory Alerts
  imports Compliance_Service Enrollment Secrets
begin

text \<open>
  Alerting (\<^verbatim>\<open>src/internal/server/alerts\<close>, \<^verbatim>\<open>store/alerts.go\<close>, \<^verbatim>\<open>adminapi/alerts.go\<close>): rules over what the server
  knows of the fleet, the channels they are told through, and the evaluation that runs every five minutes. Its statements are no
  transaction, so each of them may fail with what came before already done; a delivery may fail too. Text functions and the order of
  names of PostgreSQL, mail, HTTP and the encoders are parameters.
\<close>

section \<open>Data\<close>

abbreviation "ChannelEmail \<equiv> ''email''"
abbreviation "ChannelWebhook \<equiv> ''webhook''"
abbreviation "AlertDeviceNonCompliant \<equiv> ''device_non_compliant''"
abbreviation "AlertDeviceStale \<equiv> ''device_stale''"
abbreviation "AlertDeploymentFailed \<equiv> ''deployment_failed''"
abbreviation "AlertAgentRolloutHalted \<equiv> ''agent_rollout_halted''"

datatype alert_error = ErrBadRule | ErrBadChannel | ErrNoSMTP | AlertNotFound | AlertDuplicate | AlertInUse
  | AlertSend string | AlertInternal

record NotificationChannel =
  nc_ID :: uuid
  nc_Name :: string
  nc_Kind :: string
  nc_Config :: "json option"
  nc_SecretCiphertext :: string
  nc_SecretNonce :: string
  nc_Enabled :: bool
  nc_CreatedAt :: go_time
  nc_UpdatedAt :: go_time
  nc_CreatedBy :: string

record AlertRule =
  ru_ID :: uuid
  ru_Name :: string
  ru_Kind :: string
  ru_Params :: "json option"
  ru_ChannelID :: uuid
  ru_Enabled :: bool
  ru_CreatedAt :: go_time
  ru_UpdatedAt :: go_time
  ru_CreatedBy :: string

record AlertSubject =
  sj_Key :: string
  sj_Subject :: string

record FiringAlert =
  fa_RuleID :: uuid
  fa_SubjectKey :: string
  fa_Subject :: string
  fa_FiringSince :: go_time
  fa_NotifiedAt :: "go_time option"

record AlertDelivery =
  dl_RuleID :: uuid
  dl_ChannelID :: uuid
  dl_At :: go_time
  dl_OK :: bool
  dl_Detail :: string
  dl_Firing :: nat
  dl_Resolved :: nat

record alert_db =
  al_channels :: "NotificationChannel list"
  al_rules :: "AlertRule list"
  al_state :: "FiringAlert list"
  al_deliveries :: "AlertDelivery list"
  al_audit :: "enroll_audit list"

text \<open>The rows the rules look at; a row of \<open>sc_compliance\<close> is a device, a policy and the state, one of \<open>sc_statuses\<close> a device,
  the kind and the identifier of an item, and its status.\<close>

record alert_sources =
  sc_devices :: "Device list"
  sc_policies :: "policy list"
  sc_compliance :: "(uuid \<times> uuid \<times> string) list"
  sc_statuses :: "(uuid \<times> string \<times> uuid \<times> item_status) list"
  sc_rollouts :: "AgentRollout list"

record alert_env =
  al_uuid_String :: "uuid \<Rightarrow> string"
  al_uuid_Parse :: "string \<Rightarrow> uuid option"
  al_ParseAddress :: "string \<Rightarrow> string option"
  al_ParseURL :: "string \<Rightarrow> (string \<times> string \<times> string) option"
  al_SMTP :: bool
  al_mail :: "string list \<Rightarrow> string \<Rightarrow> string \<Rightarrow> string option"
  al_post :: "string \<Rightarrow> string \<Rightarrow> string option \<Rightarrow> string + int \<times> string"
  al_json :: "json \<Rightarrow> string"
  al_hmac :: "string \<Rightarrow> string \<Rightarrow> string"
  al_aead :: aead
  al_RFC1123 :: "go_time \<Rightarrow> string"
  al_collate :: "string \<Rightarrow> string"
  al_to_char :: "go_time \<Rightarrow> string"
  al_left :: "string \<Rightarrow> nat \<Rightarrow> string"

section \<open>Rules\<close>

abbreviation "maxStaleHours \<equiv> 8760 :: int"

record Params =
  pm_PolicyID :: "uuid option"
  pm_Hours :: int
  pm_ItemKind :: string

definition alertFields :: "string \<Rightarrow> string list option" where
  "alertFields kind =
     (if kind = AlertDeviceNonCompliant then Some [''policy_id'']
      else if kind = AlertDeviceStale then Some [''hours'']
      else if kind = AlertDeploymentFailed then Some [''item_kind'']
      else if kind = AlertAgentRolloutHalted then Some []
      else None)"

definition itemKinds :: "string list" where
  "itemKinds = [''script'', ''app'', ''profile'', ''agent'']"

definition ParseParams :: "alert_env \<Rightarrow> string \<Rightarrow> json option \<Rightarrow> alert_error + Params" where
  "ParseParams E kind raw =
     (let zero = \<lparr>pm_PolicyID = None, pm_Hours = 0, pm_ItemKind = []\<rparr> in
      case (case raw of None \<Rightarrow> Some [] | Some j \<Rightarrow> unmarshal_object j) of
        None \<Rightarrow> Inl ErrBadRule
      | Some m \<Rightarrow>
          (case alertFields kind of
             None \<Rightarrow> Inl ErrBadRule
           | Some allowed \<Rightarrow>
               if list_ex (\<lambda>(k, _). k \<notin> set allowed) m then Inl ErrBadRule
               else if kind = AlertDeviceNonCompliant
               then (case map_of m ''policy_id'' of
                       None \<Rightarrow> Inr zero
                     | Some JNull \<Rightarrow> Inr zero
                     | Some v \<Rightarrow> (case Option.bind (unmarshal_string v) (al_uuid_Parse E) of
                          None \<Rightarrow> Inl ErrBadRule
                        | Some i \<Rightarrow> Inr (zero\<lparr>pm_PolicyID := Some i\<rparr>)))
               else if kind = AlertDeviceStale
               then (case map_of m ''hours'' of
                       None \<Rightarrow> Inl ErrBadRule
                     | Some v \<Rightarrow> (case unmarshal_int v of
                          None \<Rightarrow> Inl ErrBadRule
                        | Some h \<Rightarrow> if h < 1 \<or> h > maxStaleHours then Inl ErrBadRule else Inr (zero\<lparr>pm_Hours := h\<rparr>)))
               else if kind = AlertDeploymentFailed
               then (case map_of m ''item_kind'' of
                       None \<Rightarrow> Inr zero
                     | Some JNull \<Rightarrow> Inr zero
                     | Some v \<Rightarrow> (case unmarshal_string v of
                          None \<Rightarrow> Inl ErrBadRule
                        | Some s \<Rightarrow> if s \<noteq> [] \<and> s \<notin> set itemKinds then Inl ErrBadRule else Inr (zero\<lparr>pm_ItemKind := s\<rparr>)))
               else Inr zero))"

definition marshalParams :: "alert_env \<Rightarrow> string \<Rightarrow> Params \<Rightarrow> json" where
  "marshalParams E kind p = JObj
     (if kind = AlertDeviceNonCompliant
      then (case pm_PolicyID p of None \<Rightarrow> [] | Some i \<Rightarrow> [(''policy_id'', JStr (al_uuid_String E i))])
      else if kind = AlertDeviceStale then [(''hours'', JNum (itoa (pm_Hours p)))]
      else if kind = AlertDeploymentFailed
      then (if pm_ItemKind p \<noteq> [] then [(''item_kind'', JStr (pm_ItemKind p))] else [])
      else [])"

definition Describe :: "string \<Rightarrow> Params \<Rightarrow> string" where
  "Describe kind p =
     (if kind = AlertDeviceNonCompliant
      then (if pm_PolicyID p \<noteq> None then ''a device is non-compliant with one policy'' else ''a device is non-compliant with any policy'')
      else if kind = AlertDeviceStale
      then (if pm_Hours p = 1 then ''a device has not checked in for an hour''
            else ''a device has not checked in for '' @ itoa (pm_Hours p) @ '' hours'')
      else if kind = AlertDeploymentFailed
      then (if pm_ItemKind p \<noteq> [] then ''a '' @ pm_ItemKind p @ '' deployment failed on a device'' else ''a deployment failed on a device'')
      else if kind = AlertAgentRolloutHalted then ''an automatic agent rollout halted''
      else kind)"

text \<open>The queries.\<close>

definition by_hostname :: "alert_env \<Rightarrow> Device \<Rightarrow> string" where
  "by_hostname E d = al_collate E (to_lower (dv_Hostname d))"

definition FiringNonCompliantDevices :: "alert_env \<Rightarrow> alert_sources \<Rightarrow> uuid option \<Rightarrow> AlertSubject list" where
  "FiringNonCompliantDevices E S pid =
     List.map_filter (\<lambda>d.
        let failing = filter (\<lambda>p. (dv_ID d, p_id p, ''non_compliant'') \<in> set (sc_compliance S) \<and> (pid = None \<or> pid = Some (p_id p))) (sc_policies S) in
        if dv_Status d = DeviceActive \<and> failing \<noteq> []
        then Some \<lparr>sj_Key = ''device:'' @ al_uuid_String E (dv_ID d),
               sj_Subject = dv_Hostname d @ '' is non-compliant with ''
                 @ join_with '', '' (map p_name (sort_key (\<lambda>p. al_collate E (to_lower (p_name p))) failing))\<rparr>
        else None) (sort_key (by_hostname E) (sc_devices S))"

definition FiringStaleDevices :: "alert_env \<Rightarrow> alert_sources \<Rightarrow> go_time \<Rightarrow> AlertSubject list" where
  "FiringStaleDevices E S cutoff =
     map (\<lambda>d. \<lparr>sj_Key = ''device:'' @ al_uuid_String E (dv_ID d),
            sj_Subject = dv_Hostname d @ (case dv_LastSeenAt d of None \<Rightarrow> '' has never checked in''
               | Some t \<Rightarrow> '' has not checked in since '' @ al_to_char E t @ '' UTC'')\<rparr>)
       (sort_key (by_hostname E) (filter (\<lambda>d. dv_Status d = DeviceActive
          \<and> (case dv_LastSeenAt d of None \<Rightarrow> True | Some t \<Rightarrow> t < cutoff)) (sc_devices S)))"

definition FiringFailedDeployments :: "alert_env \<Rightarrow> alert_sources \<Rightarrow> string \<Rightarrow> AlertSubject list" where
  "FiringFailedDeployments E S kind =
     map (\<lambda>(d, k, i, st). \<lparr>sj_Key = ''device:'' @ al_uuid_String E (dv_ID d) @ ''/item:'' @ k @ '':'' @ al_uuid_String E i,
            sj_Subject = dv_Hostname d @ '': '' @ k @ '' deployment failed''
              @ (if s_detail st = [] then [] else '' - '' @ al_left E (s_detail st) 120)\<rparr>)
       (sort_key (\<lambda>(d, k, i, st). (by_hostname E d, k, i))
          (concat (map (\<lambda>(dev, k, i, st). map (\<lambda>d. (d, k, i, st)) (filter (\<lambda>d. dv_ID d = dev \<and> dv_Status d = DeviceActive
              \<and> s_status st = ''failed'' \<and> (kind = [] \<or> k = kind)) (sc_devices S))) (sc_statuses S))))"

definition FiringHaltedRollouts :: "alert_env \<Rightarrow> alert_sources \<Rightarrow> AlertSubject list" where
  "FiringHaltedRollouts E S =
     map (\<lambda>r. \<lparr>sj_Key = ''rollout:'' @ al_uuid_String E (ar_ID r),
            sj_Subject = ''agent '' @ ar_Version r @ '' rollout halted''
              @ (if ar_Detail r = [] then [] else '' - '' @ al_left E (ar_Detail r) 200)\<rparr>)
       (sort_key ar_CreatedAt (filter (\<lambda>r. ar_State r = RolloutHalted) (sc_rollouts S)))"

definition firing :: "alert_env \<Rightarrow> alert_sources \<Rightarrow> string \<Rightarrow> Params \<Rightarrow> go_time \<Rightarrow> alert_error + AlertSubject list" where
  "firing E S kind p now =
     (if kind = AlertDeviceNonCompliant then Inr (FiringNonCompliantDevices E S (pm_PolicyID p))
      else if kind = AlertDeviceStale then Inr (FiringStaleDevices E S (time_add now (dur_mul (- pm_Hours p) hour)))
      else if kind = AlertDeploymentFailed then Inr (FiringFailedDeployments E S (pm_ItemKind p))
      else if kind = AlertAgentRolloutHalted then Inr (FiringHaltedRollouts E S)
      else Inl ErrBadRule)"

section \<open>Channels\<close>

abbreviation "maxRecipients \<equiv> 20 :: nat"

record ChannelConfig =
  cc_To :: "string list"
  cc_URL :: string

text \<open>Unknown members are refused.\<close>

definition decodeConfig :: "json option \<Rightarrow> ChannelConfig option" where
  "decodeConfig raw =
     (case raw of
        None \<Rightarrow> Some \<lparr>cc_To = [], cc_URL = []\<rparr>
      | Some JNull \<Rightarrow> Some \<lparr>cc_To = [], cc_URL = []\<rparr>
      | Some (JObj ms) \<Rightarrow>
          if list_ex (\<lambda>(k, _). \<not> equal_fold k ''to'' \<and> \<not> equal_fold k ''url'') ms then None
          else Option.bind (field ''to'' (\<lambda>_. unmarshal_strings) [] ms)
            (\<lambda>addrs. map_option (\<lambda>url. \<lparr>cc_To = addrs, cc_URL = url\<rparr>) (field ''url'' dec_string [] ms))
      | Some _ \<Rightarrow> None)"

definition ParseChannelConfig :: "alert_env \<Rightarrow> string \<Rightarrow> json option \<Rightarrow> alert_error + ChannelConfig" where
  "ParseChannelConfig E kind raw =
     (case decodeConfig raw of
        None \<Rightarrow> Inl ErrBadChannel
      | Some c \<Rightarrow>
          if kind = ChannelEmail
          then (if cc_URL c \<noteq> [] \<or> cc_To c = [] \<or> length (cc_To c) > maxRecipients then Inl ErrBadChannel
                else case all_some (map (\<lambda>a. al_ParseAddress E (trim_space a)) (cc_To c)) of
                  None \<Rightarrow> Inl ErrBadChannel
                | Some addrs \<Rightarrow> Inr (c\<lparr>cc_To := addrs\<rparr>))
          else if kind = ChannelWebhook
          then (if cc_To c \<noteq> [] then Inl ErrBadChannel
                else case al_ParseURL E (trim_space (cc_URL c)) of
                  None \<Rightarrow> Inl ErrBadChannel
                | Some (scheme, host, text) \<Rightarrow> if scheme \<noteq> ''https'' \<or> host = [] then Inl ErrBadChannel else Inr (c\<lparr>cc_URL := text\<rparr>))
          else Inl ErrBadChannel)"

definition marshalConfig :: "ChannelConfig \<Rightarrow> json" where
  "marshalConfig c = JObj ((if cc_To c = [] then [] else [(''to'', JArr (map JStr (cc_To c)))])
     @ (if cc_URL c = [] then [] else [(''url'', JStr (cc_URL c))]))"

definition GetNotificationChannel :: "uuid \<Rightarrow> alert_db \<Rightarrow> NotificationChannel option" where
  "GetNotificationChannel i db = find (\<lambda>c. nc_ID c = i) (al_channels db)"

definition CreateNotificationChannel :: "NotificationChannel \<Rightarrow> alert_db \<Rightarrow> alert_db option" where
  "CreateNotificationChannel c db =
     (if list_ex (\<lambda>d. nc_ID d = nc_ID c \<or> nc_Name d = nc_Name c) (al_channels db) then None
      else Some (db\<lparr>al_channels := al_channels db @ [c]\<rparr>))"

definition UpdateNotificationChannel :: "NotificationChannel \<Rightarrow> alert_db \<Rightarrow> alert_db option" where
  "UpdateNotificationChannel c db =
     (if list_ex (\<lambda>d. nc_ID d \<noteq> nc_ID c \<and> nc_Name d = nc_Name c) (al_channels db) \<and> list_ex (\<lambda>d. nc_ID d = nc_ID c) (al_channels db) then None
      else Some (db\<lparr>al_channels := map (\<lambda>d. if nc_ID d = nc_ID c
              then d\<lparr>nc_Name := nc_Name c, nc_Config := nc_Config c, nc_SecretCiphertext := nc_SecretCiphertext c,
                     nc_SecretNonce := nc_SecretNonce c, nc_Enabled := nc_Enabled c, nc_UpdatedAt := nc_UpdatedAt c\<rparr>
              else d) (al_channels db)\<rparr>))"

definition DeleteNotificationChannel :: "uuid \<Rightarrow> alert_db \<Rightarrow> alert_error option \<times> alert_db" where
  "DeleteNotificationChannel i db =
     (if list_ex (\<lambda>c. nc_ID c = i) (al_channels db) \<and> list_ex (\<lambda>r. ru_ChannelID r = i) (al_rules db) then (Some AlertInUse, db)
      else (None, db\<lparr>al_channels := filter (\<lambda>c. nc_ID c \<noteq> i) (al_channels db),
              al_deliveries := filter (\<lambda>d. dl_ChannelID d \<noteq> i) (al_deliveries db)\<rparr>))"

definition GetAlertRule :: "uuid \<Rightarrow> alert_db \<Rightarrow> AlertRule option" where
  "GetAlertRule i db = find (\<lambda>r. ru_ID r = i \<and> GetNotificationChannel (ru_ChannelID r) db \<noteq> None) (al_rules db)"

definition CreateAlertRule :: "AlertRule \<Rightarrow> alert_db \<Rightarrow> alert_error + alert_db" where
  "CreateAlertRule r db =
     (if list_ex (\<lambda>s. ru_ID s = ru_ID r \<or> ru_Name s = ru_Name r) (al_rules db) then Inl AlertDuplicate
      else if GetNotificationChannel (ru_ChannelID r) db = None then Inl AlertInternal
      else Inr (db\<lparr>al_rules := al_rules db @ [r]\<rparr>))"

definition UpdateAlertRule :: "AlertRule \<Rightarrow> alert_db \<Rightarrow> alert_error + alert_db" where
  "UpdateAlertRule r db =
     (if \<not> list_ex (\<lambda>s. ru_ID s = ru_ID r) (al_rules db) then Inr db
      else if list_ex (\<lambda>s. ru_ID s \<noteq> ru_ID r \<and> ru_Name s = ru_Name r) (al_rules db) then Inl AlertDuplicate
      else if GetNotificationChannel (ru_ChannelID r) db = None then Inl AlertInternal
      else Inr (db\<lparr>al_rules := map (\<lambda>s. if ru_ID s = ru_ID r
              then s\<lparr>ru_Name := ru_Name r, ru_Kind := ru_Kind r, ru_Params := ru_Params r, ru_ChannelID := ru_ChannelID r,
                     ru_Enabled := ru_Enabled r, ru_UpdatedAt := ru_UpdatedAt r\<rparr>
              else s) (al_rules db)\<rparr>))"

text \<open>The rule's state and deliveries go with it.\<close>

definition DeleteAlertRule :: "uuid \<Rightarrow> alert_db \<Rightarrow> alert_db" where
  "DeleteAlertRule i db = db\<lparr>al_rules := filter (\<lambda>r. ru_ID r \<noteq> i) (al_rules db),
     al_state := filter (\<lambda>a. fa_RuleID a \<noteq> i) (al_state db), al_deliveries := filter (\<lambda>d. dl_RuleID d \<noteq> i) (al_deliveries db)\<rparr>"

definition ListAlertRules :: "alert_env \<Rightarrow> bool \<Rightarrow> alert_db \<Rightarrow> AlertRule list" where
  "ListAlertRules E enabledOnly db = sort_key (\<lambda>r. al_collate E (to_lower (ru_Name r)))
     (filter (\<lambda>r. GetNotificationChannel (ru_ChannelID r) db \<noteq> None \<and> (\<not> enabledOnly \<or> ru_Enabled r)) (al_rules db))"

section \<open>The administrators' side\<close>

definition alertRefusal :: "alert_error \<Rightarrow> refusal" where
  "alertRefusal e =
     (case e of
        AlertNotFound \<Rightarrow> (404, ''not_found'')
      | AlertDuplicate \<Rightarrow> (409, ''name_taken'')
      | AlertInUse \<Rightarrow> (409, ''in_use'')
      | ErrBadRule \<Rightarrow> (400, ''bad_request'')
      | ErrBadChannel \<Rightarrow> (400, ''bad_request'')
      | ErrNoSMTP \<Rightarrow> (400, ''bad_request'')
      | _ \<Rightarrow> (500, ''internal''))"

text \<open>\<open>fails\<close>: the record of the change cannot be written, which is only logged.\<close>

definition auditAlert :: "alert_env \<Rightarrow> bool \<Rightarrow> string \<Rightarrow> string \<Rightarrow> string \<Rightarrow> uuid \<Rightarrow> (string \<times> json) list \<Rightarrow> alert_db \<Rightarrow> alert_db" where
  "auditAlert E fails actor action kind i details db =
     (if fails then db
      else db\<lparr>al_audit := al_audit db @ [\<lparr>eu_Actor = actor, eu_Action = action, eu_TargetKind = kind, eu_TargetID = al_uuid_String E i,
             eu_Details = details\<rparr>]\<rparr>)"

definition SealSecret :: "alert_env \<Rightarrow> (nat \<Rightarrow> char) option \<Rightarrow> uuid \<Rightarrow> string \<Rightarrow> (string \<times> string) option" where
  "SealSecret E rnd i secret = (if secret = [] then Some ([], []) else Key_Seal (al_aead E) rnd secret (al_uuid_String E i))"

definition openSecret :: "alert_env \<Rightarrow> NotificationChannel \<Rightarrow> string option" where
  "openSecret E ch =
     (if nc_SecretCiphertext ch = [] then Some []
      else Key_Open (al_aead E) (nc_SecretCiphertext ch) (nc_SecretNonce ch) (al_uuid_String E (nc_ID ch)))"

definition validChannelConfig :: "alert_env \<Rightarrow> string \<Rightarrow> json option \<Rightarrow> alert_error + json" where
  "validChannelConfig E kind raw =
     (case ParseChannelConfig E kind raw of
        Inl e \<Rightarrow> Inl e
      | Inr cfg \<Rightarrow> if kind = ChannelEmail \<and> \<not> al_SMTP E then Inl ErrNoSMTP else Inr (marshalConfig cfg))"

record channelRequest =
  nr_Name :: string
  nr_Kind :: string
  nr_Config :: "json option"
  nr_Enabled :: "bool option"
  nr_Secret :: "string option"

definition createNotificationChannel ::
  "alert_env \<Rightarrow> bool \<Rightarrow> (nat \<Rightarrow> char) option \<Rightarrow> uuid \<Rightarrow> channelRequest \<Rightarrow> string \<Rightarrow> go_time \<Rightarrow> alert_db \<Rightarrow> (refusal + NotificationChannel) \<times> alert_db" where
  "createNotificationChannel E fails rnd i req actor now db =
     (let name = trim_space (nr_Name req) in
      if name = [] then (Inl (400, ''bad_request''), db)
      else case validChannelConfig E (nr_Kind req) (nr_Config req) of
        Inl e \<Rightarrow> (Inl (alertRefusal e), db)
      | Inr cfg \<Rightarrow>
          (case (case nr_Secret req of None \<Rightarrow> Some ([], []) | Some s \<Rightarrow> SealSecret E rnd i s) of
             None \<Rightarrow> (Inl (500, ''internal''), db)
           | Some (ct, nonce) \<Rightarrow>
               let ch = \<lparr>nc_ID = i, nc_Name = name, nc_Kind = nr_Kind req, nc_Config = Some cfg, nc_SecretCiphertext = ct, nc_SecretNonce = nonce,
                     nc_Enabled = (case nr_Enabled req of None \<Rightarrow> True | Some b \<Rightarrow> b), nc_CreatedAt = now, nc_UpdatedAt = now, nc_CreatedBy = actor\<rparr> in
               (case CreateNotificationChannel ch db of
                  None \<Rightarrow> (Inl (alertRefusal AlertDuplicate), db)
                | Some db1 \<Rightarrow> (Inr ch, auditAlert E fails actor ''notification_channel.created'' ''notification_channel'' i
                     [(''name'', JStr name), (''kind'', JStr (nr_Kind req))] db1))))"

definition changedChannel ::
  "alert_env \<Rightarrow> (nat \<Rightarrow> char) option \<Rightarrow> uuid \<Rightarrow> channelRequest \<Rightarrow> go_time \<Rightarrow> NotificationChannel \<Rightarrow> refusal + NotificationChannel" where
  "changedChannel E rnd i req now ch =
     (if nr_Kind req \<noteq> [] \<and> nr_Kind req \<noteq> nc_Kind ch then Inl (400, ''bad_request'')
      else let name = trim_space (nr_Name req); ch1 = (if name \<noteq> [] then ch\<lparr>nc_Name := name\<rparr> else ch) in
      (case (case nr_Config req of None \<Rightarrow> Inr ch1
             | Some raw \<Rightarrow> (case validChannelConfig E (nc_Kind ch) (Some raw) of Inl e \<Rightarrow> Inl e | Inr cfg \<Rightarrow> Inr (ch1\<lparr>nc_Config := Some cfg\<rparr>))) of
         Inl e \<Rightarrow> Inl (alertRefusal e)
       | Inr ch2 \<Rightarrow>
           let ch3 = (case nr_Enabled req of None \<Rightarrow> ch2 | Some b \<Rightarrow> ch2\<lparr>nc_Enabled := b\<rparr>) in
           (case (case nr_Secret req of None \<Rightarrow> Some (nc_SecretCiphertext ch3, nc_SecretNonce ch3) | Some s \<Rightarrow> SealSecret E rnd i s) of
              None \<Rightarrow> Inl (500, ''internal'')
            | Some (ct, nonce) \<Rightarrow> Inr (ch3\<lparr>nc_SecretCiphertext := ct, nc_SecretNonce := nonce, nc_UpdatedAt := now\<rparr>))))"

definition updateNotificationChannel ::
  "alert_env \<Rightarrow> bool \<Rightarrow> (nat \<Rightarrow> char) option \<Rightarrow> uuid \<Rightarrow> channelRequest \<Rightarrow> string \<Rightarrow> go_time \<Rightarrow> alert_db \<Rightarrow> (refusal + NotificationChannel) \<times> alert_db" where
  "updateNotificationChannel E fails rnd i req actor now db =
     (case GetNotificationChannel i db of
        None \<Rightarrow> (Inl (alertRefusal AlertNotFound), db)
      | Some ch \<Rightarrow>
          (case changedChannel E rnd i req now ch of
             Inl e \<Rightarrow> (Inl e, db)
           | Inr ch1 \<Rightarrow>
               (case UpdateNotificationChannel ch1 db of
                  None \<Rightarrow> (Inl (alertRefusal AlertDuplicate), db)
                | Some db1 \<Rightarrow> (Inr ch1, auditAlert E fails actor ''notification_channel.updated'' ''notification_channel'' i
                     [(''enabled'', JBool (nc_Enabled ch1)), (''name'', JStr (nc_Name ch1))] db1))))"

definition deleteNotificationChannel :: "alert_env \<Rightarrow> bool \<Rightarrow> uuid \<Rightarrow> string \<Rightarrow> alert_db \<Rightarrow> refusal option \<times> alert_db" where
  "deleteNotificationChannel E fails i actor db =
     (case DeleteNotificationChannel i db of
        (Some e, db1) \<Rightarrow> (Some (alertRefusal e), db1)
      | (None, db1) \<Rightarrow> (None, auditAlert E fails actor ''notification_channel.deleted'' ''notification_channel'' i [] db1))"

record alertRuleRequest =
  rr_Name :: string
  rr_Kind :: string
  rr_Params :: "json option"
  rr_ChannelID :: string
  rr_Enabled :: "bool option"

definition nil_uuid :: uuid where
  "nil_uuid = replicate 16 (CHR 0x00)"

definition requestedRule :: "alertRuleRequest \<Rightarrow> AlertRule \<Rightarrow> AlertRule" where
  "requestedRule req base =
     (let name = trim_space (rr_Name req) in
      base\<lparr>ru_Name := (if name \<noteq> [] then name else ru_Name base),
           ru_Kind := (if rr_Kind req \<noteq> [] then rr_Kind req else ru_Kind base),
           ru_Params := (if rr_Params req \<noteq> None then rr_Params req else case ru_Params base of None \<Rightarrow> Some (JObj []) | raw \<Rightarrow> raw)\<rparr>)"

definition stampedRule :: "alertRuleRequest \<Rightarrow> go_time \<Rightarrow> AlertRule \<Rightarrow> AlertRule" where
  "stampedRule req now rule =
     rule\<lparr>ru_Enabled := (case rr_Enabled req of None \<Rightarrow> ru_Enabled rule | Some b \<Rightarrow> b), ru_UpdatedAt := now,
          ru_CreatedAt := (if ru_CreatedAt rule = 0 then now else ru_CreatedAt rule)\<rparr>"

definition alertRuleFrom :: "alert_env \<Rightarrow> alertRuleRequest \<Rightarrow> AlertRule \<Rightarrow> go_time \<Rightarrow> alert_db \<Rightarrow> alert_error + AlertRule" where
  "alertRuleFrom E req base now db =
     (let rule = requestedRule req base in
      if ru_Name rule = [] then Inl ErrBadRule
      else case ParseParams E (ru_Kind rule) (ru_Params rule) of
        Inl e \<Rightarrow> Inl e
      | Inr p \<Rightarrow>
          (case (if rr_ChannelID req = [] then Some (ru_ChannelID rule) else al_uuid_Parse E (rr_ChannelID req)) of
             None \<Rightarrow> Inl ErrBadRule
           | Some c \<Rightarrow>
               if c = nil_uuid \<or> GetNotificationChannel c db = None then Inl ErrBadRule
               else Inr (stampedRule req now (rule\<lparr>ru_Params := Some (marshalParams E (ru_Kind rule) p), ru_ChannelID := c\<rparr>))))"

definition createAlertRule :: "alert_env \<Rightarrow> bool \<Rightarrow> uuid \<Rightarrow> alertRuleRequest \<Rightarrow> string \<Rightarrow> go_time \<Rightarrow> alert_db \<Rightarrow> (refusal + AlertRule) \<times> alert_db" where
  "createAlertRule E fails i req actor now db =
     (case alertRuleFrom E req \<lparr>ru_ID = nil_uuid, ru_Name = [], ru_Kind = [], ru_Params = None, ru_ChannelID = nil_uuid, ru_Enabled = True,
            ru_CreatedAt = now, ru_UpdatedAt = 0, ru_CreatedBy = actor\<rparr> now db of
        Inl e \<Rightarrow> (Inl (alertRefusal e), db)
      | Inr rule \<Rightarrow>
          (case CreateAlertRule (rule\<lparr>ru_ID := i\<rparr>) db of
             Inl e \<Rightarrow> (Inl (alertRefusal e), db)
           | Inr db1 \<Rightarrow>
               let db2 = auditAlert E fails actor ''alert_rule.created'' ''alert_rule'' i [(''name'', JStr (ru_Name rule)), (''kind'', JStr (ru_Kind rule))] db1 in
               (case GetAlertRule i db2 of None \<Rightarrow> (Inl (alertRefusal AlertNotFound), db2) | Some stored \<Rightarrow> (Inr stored, db2))))"

definition updateAlertRule :: "alert_env \<Rightarrow> bool \<Rightarrow> uuid \<Rightarrow> alertRuleRequest \<Rightarrow> string \<Rightarrow> go_time \<Rightarrow> alert_db \<Rightarrow> (refusal + AlertRule) \<times> alert_db" where
  "updateAlertRule E fails i req actor now db =
     (case GetAlertRule i db of
        None \<Rightarrow> (Inl (alertRefusal AlertNotFound), db)
      | Some existing \<Rightarrow>
          (case alertRuleFrom E req existing now db of
             Inl e \<Rightarrow> (Inl (alertRefusal e), db)
           | Inr rule \<Rightarrow>
               (case UpdateAlertRule (rule\<lparr>ru_ID := i\<rparr>) db of
                  Inl e \<Rightarrow> (Inl (alertRefusal e), db)
                | Inr db1 \<Rightarrow>
                    let db2 = auditAlert E fails actor ''alert_rule.updated'' ''alert_rule'' i
                          [(''name'', JStr (ru_Name rule)), (''kind'', JStr (ru_Kind rule)), (''enabled'', JBool (ru_Enabled rule))] db1 in
                    (case GetAlertRule i db2 of None \<Rightarrow> (Inl (alertRefusal AlertNotFound), db2) | Some stored \<Rightarrow> (Inr stored, db2)))))"

definition deleteAlertRule :: "alert_env \<Rightarrow> bool \<Rightarrow> uuid \<Rightarrow> string \<Rightarrow> alert_db \<Rightarrow> alert_db" where
  "deleteAlertRule E fails i actor db = auditAlert E fails actor ''alert_rule.deleted'' ''alert_rule'' i [] (DeleteAlertRule i db)"

section \<open>Messages and their delivery\<close>

abbreviation "maxNamed \<equiv> 20 :: nat"

record Message =
  ms_RuleName :: string
  ms_Kind :: string
  ms_Description :: string
  ms_At :: go_time
  ms_Firing :: "AlertSubject list"
  ms_Resolved :: "AlertSubject list"

definition Empty :: "Message \<Rightarrow> bool" where
  "Empty m \<longleftrightarrow> ms_Firing m = [] \<and> ms_Resolved m = []"

definition Subject :: "Message \<Rightarrow> string" where
  "Subject m = ''Retune: '' @ ms_RuleName m @ '' - '' @ join_with '', ''
     ((if ms_Firing m \<noteq> [] then [itoa (int (length (ms_Firing m))) @ '' new''] else [])
      @ (if ms_Resolved m \<noteq> [] then [itoa (int (length (ms_Resolved m))) @ '' resolved''] else []))"

definition writeList :: "string \<Rightarrow> AlertSubject list \<Rightarrow> string" where
  "writeList heading subjects =
     (if subjects = [] then []
      else NL @ heading @ '' ('' @ itoa (int (length subjects)) @ ''):'' @ NL
        @ concat (map (\<lambda>s. ''  - '' @ sj_Subject s @ NL) (take maxNamed subjects))
        @ (if length subjects > maxNamed then ''  ... and '' @ itoa (int (length subjects - maxNamed)) @ '' more.'' @ NL else []))"

definition Body :: "alert_env \<Rightarrow> Message \<Rightarrow> string" where
  "Body E m = ''Rule: '' @ ms_RuleName m @ NL @ ''Fires when: '' @ ms_Description m @ NL @ ''At: '' @ al_RFC1123 E (ms_At m) @ NL
     @ writeList ''Now firing'' (ms_Firing m) @ writeList ''Resolved'' (ms_Resolved m)"

definition webhookPayload :: "Message \<Rightarrow> json" where
  "webhookPayload m =
     (let subjects = (\<lambda>ss. JArr (map (\<lambda>s. JObj [(''subject_key'', JStr (sj_Key s)), (''subject'', JStr (sj_Subject s))]) ss)) in
      JObj [(''rule'', JStr (ms_RuleName m)), (''kind'', JStr (ms_Kind m)), (''description'', JStr (ms_Description m)),
        (''at'', JStr (format_rfc3339 (ms_At m))), (''firing'', subjects (ms_Firing m)), (''resolved'', subjects (ms_Resolved m))])"

text \<open>The error of a delivery, or none.\<close>

definition postWebhook :: "alert_env \<Rightarrow> ChannelConfig \<Rightarrow> string \<Rightarrow> Message \<Rightarrow> string option" where
  "postWebhook E cfg secret m =
     (let body = al_json E (webhookPayload m);
          sig = (if secret = [] then None else Some (''sha256='' @ hex_encode (al_hmac E secret body))) in
      case al_post E (cc_URL cfg) body sig of
        Inl e \<Rightarrow> Some (''posting to '' @ (case al_ParseURL E (cc_URL cfg) of
                 None \<Rightarrow> ''the webhook'' | Some (_, host, _) \<Rightarrow> if host = [] then ''the webhook'' else host) @ '': '' @ e)
      | Inr (code, status) \<Rightarrow> if code < 200 \<or> code > 299 then Some (''webhook returned '' @ status) else None)"

definition Deliver :: "alert_env \<Rightarrow> NotificationChannel \<Rightarrow> Message \<Rightarrow> string option" where
  "Deliver E ch m =
     (case ParseChannelConfig E (nc_Kind ch) (nc_Config ch) of
        Inl _ \<Rightarrow> Some ''invalid notification channel''
      | Inr cfg \<Rightarrow>
          if nc_Kind ch = ChannelEmail then al_mail E (cc_To cfg) (Subject m) (Body E m)
          else if nc_Kind ch = ChannelWebhook
          then (case openSecret E ch of None \<Rightarrow> Some ''cannot open the secret'' | Some secret \<Rightarrow> postWebhook E cfg secret m)
          else Some ''unsupported kind'')"

section \<open>Evaluation\<close>

definition ListAlertState :: "uuid \<Rightarrow> alert_db \<Rightarrow> FiringAlert list" where
  "ListAlertState i db = filter (\<lambda>a. fa_RuleID a = i) (al_state db)"

definition InsertAlertState :: "uuid \<Rightarrow> AlertSubject \<Rightarrow> go_time \<Rightarrow> alert_db \<Rightarrow> alert_db" where
  "InsertAlertState i s at db =
     (if list_ex (\<lambda>a. fa_RuleID a = i \<and> fa_SubjectKey a = sj_Key s) (al_state db)
      then db\<lparr>al_state := map (\<lambda>a. if fa_RuleID a = i \<and> fa_SubjectKey a = sj_Key s then a\<lparr>fa_Subject := sj_Subject s\<rparr> else a) (al_state db)\<rparr>
      else db\<lparr>al_state := al_state db @ [\<lparr>fa_RuleID = i, fa_SubjectKey = sj_Key s, fa_Subject = sj_Subject s, fa_FiringSince = at,
             fa_NotifiedAt = None\<rparr>]\<rparr>)"

definition DeleteAlertState :: "uuid \<Rightarrow> string list \<Rightarrow> alert_db \<Rightarrow> alert_db" where
  "DeleteAlertState i keys db = db\<lparr>al_state := filter (\<lambda>a. \<not> (fa_RuleID a = i \<and> fa_SubjectKey a \<in> set keys)) (al_state db)\<rparr>"

definition MarkAlertsNotified :: "uuid \<Rightarrow> string list \<Rightarrow> go_time \<Rightarrow> alert_db \<Rightarrow> alert_db" where
  "MarkAlertsNotified i keys at db = db\<lparr>al_state :=
     map (\<lambda>a. if fa_RuleID a = i \<and> fa_SubjectKey a \<in> set keys then a\<lparr>fa_NotifiedAt := Some at\<rparr> else a) (al_state db)\<rparr>"

definition InsertAlertDelivery :: "AlertDelivery \<Rightarrow> alert_db \<Rightarrow> alert_db" where
  "InsertAlertDelivery d db = db\<lparr>al_deliveries := al_deliveries db @ [d]\<rparr>"

definition DeleteOldAlertDeliveries :: "go_time \<Rightarrow> alert_db \<Rightarrow> alert_db" where
  "DeleteOldAlertDeliveries before db = db\<lparr>al_deliveries := filter (\<lambda>d. \<not> dl_At d < before) (al_deliveries db)\<rparr>"

text \<open>Which statement fails, if one does; \<open>InsertFails n\<close> is the one for subject \<open>n\<close>.\<close>

datatype alert_fault = NoFault | InsertFails nat | DeleteFails | ChannelFails | RecordFails | MarkFails

definition insertAll :: "uuid \<Rightarrow> AlertSubject list \<Rightarrow> go_time \<Rightarrow> alert_db \<Rightarrow> alert_db" where
  "insertAll i ss now db = fold (\<lambda>s. InsertAlertState i s now) ss db"

text \<open>What is new: not known, or not told yet. What is over, of which only what was told is told to be over. The order of
  what is over is that of a Go map; here it is that of the rows.\<close>

definition newlyFiring :: "FiringAlert list \<Rightarrow> AlertSubject list \<Rightarrow> AlertSubject list" where
  "newlyFiring known found =
     filter (\<lambda>s. case find (\<lambda>a. fa_SubjectKey a = sj_Key s) known of None \<Rightarrow> True | Some a \<Rightarrow> fa_NotifiedAt a = None) found"

definition goneAlerts :: "FiringAlert list \<Rightarrow> AlertSubject list \<Rightarrow> FiringAlert list" where
  "goneAlerts known found = filter (\<lambda>a. fa_SubjectKey a \<notin> sj_Key ` set found) known"

definition ruleMessage :: "AlertRule \<Rightarrow> Params \<Rightarrow> FiringAlert list \<Rightarrow> AlertSubject list \<Rightarrow> go_time \<Rightarrow> Message" where
  "ruleMessage rule p known found now = \<lparr>ms_RuleName = ru_Name rule, ms_Kind = ru_Kind rule, ms_Description = Describe (ru_Kind rule) p, ms_At = now,
     ms_Firing = newlyFiring known found,
     ms_Resolved = map (\<lambda>a. \<lparr>sj_Key = fa_SubjectKey a, sj_Subject = fa_Subject a\<rparr>) (filter (\<lambda>a. fa_NotifiedAt a \<noteq> None) (goneAlerts known found))\<rparr>"

definition evaluateRule ::
  "alert_env \<Rightarrow> alert_sources \<Rightarrow> alert_fault \<Rightarrow> AlertRule \<Rightarrow> go_time \<Rightarrow> alert_db \<Rightarrow> (alert_error + nat) \<times> alert_db" where
  "evaluateRule E S fault rule now db =
     (case ParseParams E (ru_Kind rule) (ru_Params rule) of
        Inl e \<Rightarrow> (Inl e, db)
      | Inr p \<Rightarrow>
          (case firing E S (ru_Kind rule) p now of
             Inl e \<Rightarrow> (Inl e, db)
           | Inr found \<Rightarrow>
               let i = ru_ID rule; known = ListAlertState i db; msg = ruleMessage rule p known found now;
                   n = length (ms_Firing msg) + length (ms_Resolved msg) in
               (case fault of
                  InsertFails k \<Rightarrow> (Inl AlertInternal, insertAll i (take k found) now db)
                | _ \<Rightarrow>
                    let db1 = insertAll i found now db in
                    if fault = DeleteFails then (Inl AlertInternal, db1)
                    else
                      let db2 = DeleteAlertState i (map fa_SubjectKey (goneAlerts known found)) db1 in
                      if Empty msg then (Inr 0, db2)
                      else if fault = ChannelFails then (Inl AlertInternal, db2)
                      else (case GetNotificationChannel (ru_ChannelID rule) db2 of
                         None \<Rightarrow> (Inl AlertNotFound, db2)
                       | Some ch \<Rightarrow>
                           if \<not> nc_Enabled ch then (Inr n, db2)
                           else
                             let sendErr = Deliver E ch msg;
                                 entry = \<lparr>dl_RuleID = i, dl_ChannelID = nc_ID ch, dl_At = now, dl_OK = (sendErr = None),
                                   dl_Detail = (case sendErr of None \<Rightarrow> [] | Some e \<Rightarrow> e), dl_Firing = length (ms_Firing msg),
                                   dl_Resolved = length (ms_Resolved msg)\<rparr> in
                             if fault = RecordFails then (Inl AlertInternal, db2)
                             else
                               let db3 = InsertAlertDelivery entry db2 in
                               (case sendErr of
                                  Some e \<Rightarrow> (Inl (AlertSend e), db3)
                                | None \<Rightarrow>
                                    if fault = MarkFails then (Inl AlertInternal, db3)
                                    else (Inr n, MarkAlertsNotified i (map sj_Key (ms_Firing msg)) now db3))))))"

abbreviation "deliveryRetention \<equiv> 30 * 24 * hour"

text \<open>Every enabled rule in turn; \<open>world\<close> gives what each finds and which statement fails.\<close>

fun evaluateEach :: "alert_env \<Rightarrow> (uuid \<Rightarrow> alert_sources \<times> alert_fault) \<Rightarrow> go_time \<Rightarrow> AlertRule list \<Rightarrow> nat \<Rightarrow> alert_db \<Rightarrow> nat \<times> alert_db" where
  "evaluateEach E world now [] n db = (n, db)"
| "evaluateEach E world now (rule # rules) n db =
     (case world (ru_ID rule) of (S, fault) \<Rightarrow>
        (case evaluateRule E S fault rule now db of
           (Inl _, db1) \<Rightarrow> evaluateEach E world now rules n db1
         | (Inr k, db1) \<Rightarrow> evaluateEach E world now rules (n + k) db1))"

definition EvaluateAll :: "alert_env \<Rightarrow> (uuid \<Rightarrow> alert_sources \<times> alert_fault) \<Rightarrow> bool \<Rightarrow> go_time \<Rightarrow> alert_db \<Rightarrow> nat \<times> alert_db" where
  "EvaluateAll E world prune_fails now db =
     (case evaluateEach E world now (ListAlertRules E True db) 0 db of
        (changed, db1) \<Rightarrow> (changed, if prune_fails then db1 else DeleteOldAlertDeliveries (time_add now (- deliveryRetention)) db1))"

end
