(* ===== verification/Alerts_Safety.thy ===== *)
theory Alerts_Safety
  imports Alerts
begin

text \<open>
  What alerting guarantees: which problems a message names, over every history of evaluations, failing deliveries, failing
  statements and changes by administrators; that a stored rule can be evaluated; and how an all-clear gets lost.
\<close>

section \<open>The table of what is firing\<close>

abbreviation key_pair :: "FiringAlert \<Rightarrow> uuid \<times> string" where
  "key_pair a \<equiv> (fa_RuleID a, fa_SubjectKey a)"

definition keyed :: "alert_db \<Rightarrow> bool" where
  "keyed db \<longleftrightarrow> distinct (map key_pair (al_state db))"

definition told :: "uuid \<Rightarrow> string \<Rightarrow> alert_db \<Rightarrow> bool" where
  "told i k db \<longleftrightarrow> (\<exists>a \<in> set (al_state db). key_pair a = (i, k) \<and> fa_NotifiedAt a \<noteq> None)"

definition present :: "uuid \<Rightarrow> string \<Rightarrow> alert_db \<Rightarrow> bool" where
  "present i k db \<longleftrightarrow> (i, k) \<in> key_pair ` set (al_state db)"

abbreviation keys_of :: "AlertSubject list \<Rightarrow> string set" where
  "keys_of ss \<equiv> sj_Key ` set ss"

lemma keyed_unique: "keyed db \<Longrightarrow> a \<in> set (al_state db) \<Longrightarrow> b \<in> set (al_state db) \<Longrightarrow> key_pair a = key_pair b \<Longrightarrow> a = b"
  unfolding keyed_def by (meson distinct_map inj_onD)

lemma told_present: "told i k db \<Longrightarrow> present i k db"
  by (force simp: told_def present_def)

lemma keyed_map:
  assumes "\<And>a. key_pair (f a) = key_pair a"
  shows "keyed (db\<lparr>al_state := map (\<lambda>a. if P a then f a else a) (al_state db)\<rparr>) = keyed db"
proof -
  have "map key_pair (map (\<lambda>a. if P a then f a else a) xs) = map key_pair xs" for xs using assms by simp
  then show ?thesis by (simp add: keyed_def del: map_map)
qed

lemma told_map: "told j k (db\<lparr>al_state := map g (al_state db)\<rparr>) \<longleftrightarrow> (\<exists>a \<in> set (al_state db). key_pair (g a) = (j, k) \<and> fa_NotifiedAt (g a) \<noteq> None)"
  by (simp add: told_def)

lemma present_map: "present j k (db\<lparr>al_state := map g (al_state db)\<rparr>) \<longleftrightarrow> (\<exists>a \<in> set (al_state db). key_pair (g a) = (j, k))"
  by (auto simp: present_def image_iff)

lemma insert_row:
  "keyed db \<Longrightarrow> keyed (InsertAlertState i s at db)"
  "told j k (InsertAlertState i s at db) \<longleftrightarrow> told j k db"
  "present j k (InsertAlertState i s at db) \<longleftrightarrow> present j k db \<or> (j, k) = (i, sj_Key s)"
proof -
  show "keyed db \<Longrightarrow> keyed (InsertAlertState i s at db)"
    unfolding InsertAlertState_def by (subst if_distrib, subst keyed_map) (auto simp: keyed_def list_ex_iff)
  show "told j k (InsertAlertState i s at db) \<longleftrightarrow> told j k db"
    unfolding InsertAlertState_def by (subst if_distrib, subst told_map) (auto simp: told_def)
  show "present j k (InsertAlertState i s at db) \<longleftrightarrow> present j k db \<or> (j, k) = (i, sj_Key s)"
  proof (cases "present i (sj_Key s) db")
    case True
    let ?g = "\<lambda>a. if fa_RuleID a = i \<and> fa_SubjectKey a = sj_Key s then a\<lparr>fa_Subject := sj_Subject s\<rparr> else a"
    have "list_ex (\<lambda>a. fa_RuleID a = i \<and> fa_SubjectKey a = sj_Key s) (al_state db)" using True by (auto simp: present_def list_ex_iff)
    then have "present j k (InsertAlertState i s at db) = present j k (db\<lparr>al_state := map ?g (al_state db)\<rparr>)" by (simp add: InsertAlertState_def)
    also have "\<dots> = (\<exists>a \<in> set (al_state db). key_pair (?g a) = (j, k))" by (rule present_map)
    also have "\<dots> = (\<exists>a \<in> set (al_state db). key_pair a = (j, k))" by (intro bex_cong refl) simp
    also have "\<dots> = present j k db" by (auto simp: present_def image_iff)
    finally show ?thesis using True by auto
  next
    case False
    then have "\<not> list_ex (\<lambda>a. fa_RuleID a = i \<and> fa_SubjectKey a = sj_Key s) (al_state db)" by (auto simp: present_def list_ex_iff)
    then show ?thesis by (auto simp: InsertAlertState_def present_def)
  qed
qed

lemma insert_rows:
  "keyed db \<Longrightarrow> keyed (insertAll i ss at db)"
  "told j k (insertAll i ss at db) \<longleftrightarrow> told j k db"
  "present j k (insertAll i ss at db) \<longleftrightarrow> present j k db \<or> (j = i \<and> k \<in> keys_of ss)"
proof -
  show "keyed db \<Longrightarrow> keyed (insertAll i ss at db)"
    unfolding insertAll_def by (induction ss arbitrary: db) (auto simp: insert_row)
  show "told j k (insertAll i ss at db) \<longleftrightarrow> told j k db"
    unfolding insertAll_def by (induction ss arbitrary: db) (auto simp: insert_row)
  show "present j k (insertAll i ss at db) \<longleftrightarrow> present j k db \<or> (j = i \<and> k \<in> keys_of ss)"
    unfolding insertAll_def by (induction ss arbitrary: db) (auto simp: insert_row)
qed

lemma delete_rows:
  "keyed db \<Longrightarrow> keyed (DeleteAlertState i ks db)"
  "told j k (DeleteAlertState i ks db) \<longleftrightarrow> told j k db \<and> \<not> (j = i \<and> k \<in> set ks)"
  "present j k (DeleteAlertState i ks db) \<longleftrightarrow> present j k db \<and> \<not> (j = i \<and> k \<in> set ks)"
  by (auto simp: DeleteAlertState_def keyed_def told_def present_def distinct_map_filter)

lemma mark_rows:
  "keyed db \<Longrightarrow> keyed (MarkAlertsNotified i ks at db)"
  "told j k (MarkAlertsNotified i ks at db) \<longleftrightarrow> told j k db \<or> (j = i \<and> k \<in> set ks \<and> present i k db)"
proof -
  show "keyed db \<Longrightarrow> keyed (MarkAlertsNotified i ks at db)"
    unfolding MarkAlertsNotified_def by (subst keyed_map) simp_all
  show "told j k (MarkAlertsNotified i ks at db) \<longleftrightarrow> told j k db \<or> (j = i \<and> k \<in> set ks \<and> present i k db)"
    unfolding MarkAlertsNotified_def told_map by (auto simp: told_def present_def)
qed

lemma newly_told:
  assumes "keyed db"
  shows "keys_of (newlyFiring (ListAlertState i db) found) = {k \<in> keys_of found. \<not> told i k db}"
proof -
  have "(case find (\<lambda>a. fa_SubjectKey a = k) (ListAlertState i db) of None \<Rightarrow> True | Some a \<Rightarrow> fa_NotifiedAt a = None) \<longleftrightarrow> \<not> told i k db" for k
  proof (cases "find (\<lambda>a. fa_SubjectKey a = k) (ListAlertState i db)")
    case None
    then have "\<not> told i k db" by (auto simp: find_None_iff ListAlertState_def told_def)
    then show ?thesis using None by simp
  next
    case (Some a)
    then have a: "a \<in> set (al_state db)" "key_pair a = (i, k)" by (auto dest!: find_SomeD simp: ListAlertState_def)
    then have "told i k db \<longleftrightarrow> fa_NotifiedAt a \<noteq> None"
      unfolding told_def using keyed_unique [OF assms, of _ a] by (metis (no_types, lifting))
    then show ?thesis using Some by simp
  qed
  then show ?thesis by (auto simp: newlyFiring_def)
qed

lemma gone_keys:
  "fa_SubjectKey ` set (goneAlerts (ListAlertState i db) found) = {k. present i k db \<and> k \<notin> keys_of found}"
  "fa_SubjectKey ` set (filter (\<lambda>a. fa_NotifiedAt a \<noteq> None) (goneAlerts (ListAlertState i db) found)) = {k. told i k db \<and> k \<notin> keys_of found}"
  by (force simp: goneAlerts_def ListAlertState_def present_def told_def)+

section \<open>One evaluation\<close>

record tick =
  tk_Found :: "AlertSubject list"
  tk_Msg :: Message
  tk_Cleared :: bool
  tk_Sent :: bool
  tk_Recorded :: bool

text \<open>What an evaluation found and had to say; whether it got past clearing what is over; whether its message was delivered; and whether
  recording a delivery and marking its problems as notified would succeed.\<close>

definition tick_of :: "alert_env \<Rightarrow> alert_sources \<Rightarrow> alert_fault \<Rightarrow> AlertRule \<Rightarrow> go_time \<Rightarrow> alert_db \<Rightarrow> tick option" where
  "tick_of E S fault rule now db =
     (case ParseParams E (ru_Kind rule) (ru_Params rule) of
        Inl _ \<Rightarrow> None
      | Inr p \<Rightarrow>
          (case firing E S (ru_Kind rule) p now of
             Inl _ \<Rightarrow> None
           | Inr found \<Rightarrow>
               let msg = ruleMessage rule p (ListAlertState (ru_ID rule) db) found now in
               Some \<lparr>tk_Found = found, tk_Msg = msg, tk_Cleared = (case fault of InsertFails _ \<Rightarrow> False | DeleteFails \<Rightarrow> False | _ \<Rightarrow> True),
                 tk_Sent = ((case fault of InsertFails _ \<Rightarrow> False | DeleteFails \<Rightarrow> False | ChannelFails \<Rightarrow> False | _ \<Rightarrow> True)
                     \<and> \<not> Empty msg \<and> (case GetNotificationChannel (ru_ChannelID rule) db of None \<Rightarrow> False
                     | Some ch \<Rightarrow> nc_Enabled ch \<and> Deliver E ch msg = None)),
                 tk_Recorded = (fault \<noteq> RecordFails \<and> fault \<noteq> MarkFails)\<rparr>))"

definition tk_Marked :: "tick \<Rightarrow> bool" where
  "tk_Marked t \<longleftrightarrow> tk_Sent t \<and> tk_Recorded t"

lemma channels_kept [simp]:
  "al_channels (InsertAlertState i s at db) = al_channels db" "al_channels (insertAll i ss at db) = al_channels db"
  "al_channels (DeleteAlertState i ks db) = al_channels db" "al_rules (insertAll i ss at db) = al_rules db"
  "al_rules (DeleteAlertState i ks db) = al_rules db"
proof -
  show "al_channels (InsertAlertState i s at db) = al_channels db" for s db by (simp add: InsertAlertState_def)
  then show "al_channels (insertAll i ss at db) = al_channels db" unfolding insertAll_def by (induction ss arbitrary: db) simp_all
  have "al_rules (InsertAlertState i s at db) = al_rules db" for s db by (simp add: InsertAlertState_def)
  then show "al_rules (insertAll i ss at db) = al_rules db" unfolding insertAll_def by (induction ss arbitrary: db) simp_all
qed (simp_all add: DeleteAlertState_def)

lemma same_state: "al_state db' = al_state db \<Longrightarrow> keyed db' = keyed db \<and> told j k db' = told j k db \<and> present j k db' = present j k db"
  by (simp add: keyed_def told_def present_def)

lemma delivery_state [simp]: "al_state (InsertAlertDelivery d db) = al_state db"
  by (simp add: InsertAlertDelivery_def)

text \<open>The tables after an evaluation are those after inserting, after clearing, or after marking.\<close>

lemma evaluate_tables:
  assumes "evaluateRule E S fault rule now db = (r, db')" "tick_of E S fault rule now db = Some t"
  defines "i \<equiv> ru_ID rule"
  defines "cleared \<equiv> DeleteAlertState i (map fa_SubjectKey (goneAlerts (ListAlertState i db) (tk_Found t))) (insertAll i (tk_Found t) now db)"
  shows "\<not> tk_Cleared t \<Longrightarrow> \<exists>ss. al_state db' = al_state (insertAll i ss now db)"
    "tk_Cleared t \<Longrightarrow> \<not> tk_Marked t \<Longrightarrow> al_state db' = al_state cleared"
    "tk_Marked t \<Longrightarrow> al_state db' = al_state (MarkAlertsNotified i (map sj_Key (ms_Firing (tk_Msg t))) now cleared)"
proof -
  have m: "al_state (MarkAlertsNotified i ks now (InsertAlertDelivery d x)) = al_state (MarkAlertsNotified i ks now x)" for ks d x
    by (simp add: MarkAlertsNotified_def)
  have g: "GetNotificationChannel j (DeleteAlertState i ks (insertAll i ss now db)) = GetNotificationChannel j db" for j ks ss
    by (simp add: GetNotificationChannel_def)
  note unf = evaluateRule_def tick_of_def tk_Marked_def Let_def i_def [symmetric]
  show "\<not> tk_Cleared t \<Longrightarrow> \<exists>ss. al_state db' = al_state (insertAll i ss now db)"
    using assms(1,2) unfolding unf by (auto split: sum.splits alert_fault.splits if_splits)
  show "tk_Cleared t \<Longrightarrow> \<not> tk_Marked t \<Longrightarrow> al_state db' = al_state cleared"
    using assms(1,2) unfolding unf cleared_def by (auto simp: g split: sum.splits alert_fault.splits if_splits option.splits)
  show "tk_Marked t \<Longrightarrow> al_state db' = al_state (MarkAlertsNotified i (map sj_Key (ms_Firing (tk_Msg t))) now cleared)"
    using assms(1,2) unfolding unf cleared_def by (auto simp: g m split: sum.splits alert_fault.splits if_splits option.splits)
qed

lemma evaluate_told:
  assumes "evaluateRule E S fault rule now db = (r, db')" "tick_of E S fault rule now db = Some t" "keyed db"
  shows "keyed db'"
    "told (ru_ID rule) k db' \<longleftrightarrow> (told (ru_ID rule) k db \<and> \<not> (tk_Cleared t \<and> k \<notin> keys_of (tk_Found t))) \<or> (tk_Marked t \<and> k \<in> keys_of (ms_Firing (tk_Msg t)))"
    "j \<noteq> ru_ID rule \<Longrightarrow> told j k db' \<longleftrightarrow> told j k db"
    "keys_of (ms_Firing (tk_Msg t)) = {k \<in> keys_of (tk_Found t). \<not> told (ru_ID rule) k db}"
    "keys_of (ms_Resolved (tk_Msg t)) = {k. told (ru_ID rule) k db \<and> k \<notin> keys_of (tk_Found t)}"
proof -
  let ?i = "ru_ID rule"
  let ?c = "DeleteAlertState ?i (map fa_SubjectKey (goneAlerts (ListAlertState ?i db) (tk_Found t))) (insertAll ?i (tk_Found t) now db)"
  obtain p where msg: "tk_Msg t = ruleMessage rule p (ListAlertState ?i db) (tk_Found t) now" "tk_Marked t \<Longrightarrow> tk_Cleared t"
    using assms(2) by (auto simp: tick_of_def tk_Marked_def Let_def split: sum.splits alert_fault.splits)
  show f: "keys_of (ms_Firing (tk_Msg t)) = {k \<in> keys_of (tk_Found t). \<not> told ?i k db}"
    unfolding msg(1) using newly_told [OF assms(3)] by (simp add: ruleMessage_def)
  show "keys_of (ms_Resolved (tk_Msg t)) = {k. told ?i k db \<and> k \<notin> keys_of (tk_Found t)}"
    unfolding msg(1) using gone_keys(2) [of ?i db "tk_Found t"] by (simp add: ruleMessage_def image_image)
  have c: "keyed ?c" "told j k ?c \<longleftrightarrow> told j k db \<and> \<not> (j = ?i \<and> k \<notin> keys_of (tk_Found t))"
    "present ?i k ?c \<longleftrightarrow> k \<in> keys_of (tk_Found t)" for j k
    using assms(3) gone_keys(1) [of ?i db "tk_Found t"] told_present
    by (auto simp: delete_rows insert_rows)
  note tab = evaluate_tables [OF assms(1,2)]
  consider (early) ss where "\<not> tk_Cleared t" "al_state db' = al_state (insertAll ?i ss now db)"
    | (cleared) "tk_Cleared t" "\<not> tk_Marked t" "al_state db' = al_state ?c"
    | (marked) "tk_Cleared t" "tk_Marked t" "al_state db' = al_state (MarkAlertsNotified ?i (map sj_Key (ms_Firing (tk_Msg t))) now ?c)"
    using tab msg(2) by blast
  then have "keyed db' \<and> (told j k db' \<longleftrightarrow> (told j k db \<and> \<not> (j = ?i \<and> tk_Cleared t \<and> k \<notin> keys_of (tk_Found t)))
      \<or> (j = ?i \<and> tk_Marked t \<and> k \<in> keys_of (ms_Firing (tk_Msg t))))" for j k
  proof cases
    case early
    then show ?thesis using same_state [OF early(2), of j k] msg(2) assms(3) by (auto simp: insert_rows)
  next
    case cleared
    then show ?thesis using same_state [OF cleared(3), of j k] c by auto
  next
    case marked
    then show ?thesis using same_state [OF marked(3), of j k] c f by (auto simp: mark_rows)
  qed
  then show "keyed db'" "told ?i k db' \<longleftrightarrow> (told ?i k db \<and> \<not> (tk_Cleared t \<and> k \<notin> keys_of (tk_Found t))) \<or> (tk_Marked t \<and> k \<in> keys_of (ms_Firing (tk_Msg t)))"
    "j \<noteq> ?i \<Longrightarrow> told j k db' \<longleftrightarrow> told j k db" by blast+
qed

lemma evaluate_nothing:
  "evaluateRule E S fault rule now db = (r, db') \<Longrightarrow> tick_of E S fault rule now db = None \<Longrightarrow> db' = db"
  by (auto simp: evaluateRule_def tick_of_def Let_def split: sum.splits)

section \<open>Histories\<close>

text \<open>The server and the history of one rule's evaluations. Of the environment only the text of identifiers stays the same; the
  rule may be changed between its evaluations, and with it goes its history.\<close>

type_synonym alert_history = "alert_db \<times> tick list"

definition same_ids :: "(uuid \<Rightarrow> string) \<Rightarrow> (string \<Rightarrow> uuid option) \<Rightarrow> alert_env \<Rightarrow> bool" where
  "same_ids str prs E \<longleftrightarrow> al_uuid_String E = str \<and> al_uuid_Parse E = prs"

inductive alert_step :: "(uuid \<Rightarrow> string) \<Rightarrow> (string \<Rightarrow> uuid option) \<Rightarrow> uuid \<Rightarrow> alert_history \<Rightarrow> alert_history \<Rightarrow> bool" for str prs rid where
  al_evaluate: "same_ids str prs E \<Longrightarrow> evaluateRule E S fault rule now db = (r, db')
    \<Longrightarrow> h' = (case tick_of E S fault rule now db of Some t \<Rightarrow> if ru_ID rule = rid then h @ [t] else h | None \<Rightarrow> h)
    \<Longrightarrow> alert_step str prs rid (db, h) (db', h')"
| al_prune: "alert_step str prs rid (db, h) (DeleteOldAlertDeliveries before db, h)"
| al_new_channel: "same_ids str prs E \<Longrightarrow> createNotificationChannel E fails rnd i req actor now db = (x, db')
    \<Longrightarrow> alert_step str prs rid (db, h) (db', h)"
| al_change_channel: "same_ids str prs E \<Longrightarrow> updateNotificationChannel E fails rnd i req actor now db = (x, db')
    \<Longrightarrow> alert_step str prs rid (db, h) (db', h)"
| al_drop_channel: "same_ids str prs E \<Longrightarrow> deleteNotificationChannel E fails i actor db = (y, db')
    \<Longrightarrow> alert_step str prs rid (db, h) (db', h)"
| al_new_rule: "same_ids str prs E \<Longrightarrow> createAlertRule E fails i rq actor now db = (z, db') \<Longrightarrow> alert_step str prs rid (db, h) (db', h)"
| al_change_rule: "same_ids str prs E \<Longrightarrow> updateAlertRule E fails i rq actor now db = (z, db') \<Longrightarrow> alert_step str prs rid (db, h) (db', h)"
| al_drop_rule: "same_ids str prs E \<Longrightarrow> db' = deleteAlertRule E fails i actor db
    \<Longrightarrow> alert_step str prs rid (db, h) (db', if i = rid then [] else h)"

text \<open>A problem has been told of where a delivered message named it and it has not been cleared since; it is on record as announced
  where that message was recorded too.\<close>

definition still_there :: "string \<Rightarrow> tick list \<Rightarrow> bool" where
  "still_there k h \<longleftrightarrow> (\<forall>v \<in> set h. \<not> (tk_Cleared v \<and> k \<notin> keys_of (tk_Found v)))"

definition announced :: "string \<Rightarrow> tick list \<Rightarrow> bool" where
  "announced k h \<longleftrightarrow> (\<exists>a u b. h = a @ u # b \<and> tk_Sent u \<and> tk_Recorded u \<and> k \<in> keys_of (ms_Firing (tk_Msg u)) \<and> still_there k b)"

lemma announced_marked:
  "announced k h \<longleftrightarrow> (\<exists>a u b. h = a @ u # b \<and> tk_Marked u \<and> k \<in> keys_of (ms_Firing (tk_Msg u))
     \<and> (\<forall>v \<in> set b. \<not> (tk_Cleared v \<and> k \<notin> keys_of (tk_Found v))))"
  by (simp add: announced_def still_there_def tk_Marked_def)

lemma announced_Nil [simp]: "\<not> announced k []"
  by (simp add: announced_marked)

lemma announced_snoc:
  "announced k (h @ [t]) \<longleftrightarrow> (announced k h \<and> \<not> (tk_Cleared t \<and> k \<notin> keys_of (tk_Found t))) \<or> (tk_Marked t \<and> k \<in> keys_of (ms_Firing (tk_Msg t)))"
proof
  assume "announced k (h @ [t])"
  then obtain a u b where s: "h @ [t] = a @ u # b" "tk_Marked u" "k \<in> keys_of (ms_Firing (tk_Msg u))"
    "\<forall>v \<in> set b. \<not> (tk_Cleared v \<and> k \<notin> keys_of (tk_Found v))" unfolding announced_marked by blast
  show "(announced k h \<and> \<not> (tk_Cleared t \<and> k \<notin> keys_of (tk_Found t))) \<or> (tk_Marked t \<and> k \<in> keys_of (ms_Firing (tk_Msg t)))"
  proof (cases b rule: rev_cases)
    case Nil
    then show ?thesis using s by simp
  next
    case (snoc b' v)
    then have "h = a @ u # b'" "v = t" using s(1) by auto
    moreover have "\<forall>w \<in> set b'. \<not> (tk_Cleared w \<and> k \<notin> keys_of (tk_Found w))" "\<not> (tk_Cleared v \<and> k \<notin> keys_of (tk_Found v))"
      using s(4) snoc by simp_all
    ultimately show ?thesis unfolding announced_marked using s(2,3) by blast
  qed
next
  assume "(announced k h \<and> \<not> (tk_Cleared t \<and> k \<notin> keys_of (tk_Found t))) \<or> (tk_Marked t \<and> k \<in> keys_of (ms_Firing (tk_Msg t)))"
  then consider (old) a u b where "h = a @ u # b" "tk_Marked u" "k \<in> keys_of (ms_Firing (tk_Msg u))"
      "\<forall>v \<in> set (b @ [t]). \<not> (tk_Cleared v \<and> k \<notin> keys_of (tk_Found v))"
    | (new) "tk_Marked t" "k \<in> keys_of (ms_Firing (tk_Msg t))"
  proof (elim disjE conjE)
    assume "announced k h" "\<not> (tk_Cleared t \<and> k \<notin> keys_of (tk_Found t))"
    moreover from this(1) obtain a u b where "h = a @ u # b" "tk_Marked u" "k \<in> keys_of (ms_Firing (tk_Msg u))"
      "\<forall>v \<in> set b. \<not> (tk_Cleared v \<and> k \<notin> keys_of (tk_Found v))" unfolding announced_marked by blast
    ultimately show thesis using old by simp
  qed (rule new)
  then show "announced k (h @ [t])"
  proof cases
    case old
    then have "h @ [t] = a @ u # (b @ [t])" by simp
    then show ?thesis unfolding announced_marked using old(2-4) by blast
  next
    case new
    then show ?thesis unfolding announced_marked by (intro exI [of _ h] exI [of _ t] exI [of _ "[]"]) simp
  qed
qed

definition exact_tick :: "tick list \<Rightarrow> tick \<Rightarrow> bool" where
  "exact_tick h t \<longleftrightarrow> keys_of (ms_Firing (tk_Msg t)) = {k \<in> keys_of (tk_Found t). \<not> announced k h}
     \<and> keys_of (ms_Resolved (tk_Msg t)) = {k. announced k h \<and> k \<notin> keys_of (tk_Found t)}"

definition alerts_inv :: "uuid \<Rightarrow> alert_history \<Rightarrow> bool" where
  "alerts_inv rid s \<longleftrightarrow> (case s of (db, h) \<Rightarrow> keyed db \<and> (\<forall>k. told rid k db \<longleftrightarrow> announced k h) \<and> (\<forall>h1 t h2. h = h1 @ t # h2 \<longrightarrow> exact_tick h1 t))"

lemma inv_tick:
  assumes "alerts_inv rid (db, h)" "ru_ID rule = rid" "evaluateRule E S fault rule now db = (r, db')" "tick_of E S fault rule now db = Some t"
  shows "alerts_inv rid (db', h @ [t])"
proof -
  have inv: "keyed db" "\<And>k. told rid k db \<longleftrightarrow> announced k h" "\<And>h1 t h2. h = h1 @ t # h2 \<Longrightarrow> exact_tick h1 t"
    using assms(1) unfolding alerts_inv_def by auto
  note e = evaluate_told [OF assms(3,4) inv(1), unfolded assms(2)]
  have "exact_tick h t" using e(4,5) inv(2) by (simp add: exact_tick_def)
  moreover have "h1 = h \<and> u = t \<or> (\<exists>b. h = h1 @ u # b)" if "h @ [t] = h1 @ u # h2" for h1 u h2
    using that by (cases h2 rule: rev_cases) auto
  ultimately show ?thesis unfolding alerts_inv_def using e(1,2) inv(2,3) announced_snoc by fastforce
qed

lemma inv_state: "alerts_inv rid (db, h) \<Longrightarrow> al_state db' = al_state db \<Longrightarrow> alerts_inv rid (db', h)"
  unfolding alerts_inv_def using same_state [of db' db] by simp

lemma handlers_state:
  "al_state (DeleteOldAlertDeliveries before db) = al_state db"
  "al_state (snd (createNotificationChannel E fails rnd i req actor now db)) = al_state db"
  "al_state (snd (updateNotificationChannel E fails rnd i req actor now db)) = al_state db"
  "al_state (snd (deleteNotificationChannel E fails i actor db)) = al_state db"
  "al_state (snd (createAlertRule E fails i rq actor now db)) = al_state db"
  "al_state (snd (updateAlertRule E fails i rq actor now db)) = al_state db"
proof -
  have a: "al_state (auditAlert E fails actor act kind j details x) = al_state x" for act kind j details x by (simp add: auditAlert_def)
  show "al_state (DeleteOldAlertDeliveries before db) = al_state db" by (simp add: DeleteOldAlertDeliveries_def)
  show "al_state (snd (createNotificationChannel E fails rnd i req actor now db)) = al_state db"
    by (auto simp: createNotificationChannel_def CreateNotificationChannel_def Let_def a split: sum.splits option.splits prod.splits if_splits)
  show "al_state (snd (updateNotificationChannel E fails rnd i req actor now db)) = al_state db"
    by (auto simp: updateNotificationChannel_def UpdateNotificationChannel_def a split: sum.splits option.splits if_splits)
  show "al_state (snd (deleteNotificationChannel E fails i actor db)) = al_state db"
    by (simp add: deleteNotificationChannel_def DeleteNotificationChannel_def a split: option.splits)
  show "al_state (snd (createAlertRule E fails i rq actor now db)) = al_state db"
    by (auto simp: createAlertRule_def CreateAlertRule_def Let_def a split: sum.splits option.splits if_splits)
  show "al_state (snd (updateAlertRule E fails i rq actor now db)) = al_state db"
    by (auto simp: updateAlertRule_def UpdateAlertRule_def Let_def a split: sum.splits option.splits if_splits)
qed

lemma alert_history_step:
  assumes "alert_step str prs rid s s'" "alerts_inv rid s"
  shows "alerts_inv rid s'"
  using assms
proof (induction rule: alert_step.induct)
  case (al_evaluate E S fault rule now db r db' h' h)
  show ?case
  proof (cases "tick_of E S fault rule now db")
    case None
    then show ?thesis using al_evaluate evaluate_nothing [OF al_evaluate(2) None] by simp
  next
    case (Some t)
    show ?thesis
    proof (cases "ru_ID rule = rid")
      case True
      then show ?thesis using inv_tick [OF al_evaluate(4) True al_evaluate(2) Some] al_evaluate(3) Some by simp
    next
      case False
      have k: "keyed db" using al_evaluate(4) by (simp add: alerts_inv_def)
      have "keyed db'" by (rule evaluate_told(1) [OF al_evaluate(2) Some k])
      moreover have "told rid k db' \<longleftrightarrow> told rid k db" for k
        by (rule evaluate_told(3) [OF al_evaluate(2) Some k]) (use False in simp)
      ultimately show ?thesis using al_evaluate(3,4) Some False by (simp add: alerts_inv_def)
    qed
  qed
next
  case (al_drop_rule E db' fails i actor db h)
  have st: "al_state db' = filter (\<lambda>a. fa_RuleID a \<noteq> i) (al_state db)"
    using al_drop_rule(2) by (simp add: deleteAlertRule_def auditAlert_def DeleteAlertRule_def)
  then have "told rid k db' \<longleftrightarrow> told rid k db \<and> i \<noteq> rid" for k unfolding told_def by auto
  moreover have "keyed db'" using al_drop_rule(3) st by (auto simp: alerts_inv_def keyed_def distinct_map_filter)
  ultimately show ?case using al_drop_rule(3) by (auto simp: alerts_inv_def)
qed (use handlers_state inv_state in \<open>metis snd_conv\<close>)+

definition quiet_start :: "alert_history \<Rightarrow> bool" where
  "quiet_start s \<longleftrightarrow> (case s of (db, h) \<Rightarrow> al_state db = [] \<and> h = [])"

interpretation alerting: state_machine "alert_step str prs rid" quiet_start "alerts_inv rid" for str prs rid
proof unfold_locales
  show "alerts_inv rid s" if "quiet_start s" for s using that by (auto simp: quiet_start_def alerts_inv_def keyed_def told_def)
qed (rule alert_history_step)

text \<open>
  C26. A problem is announced until that is on record, and then no more. Whatever fails and whatever administrators change, the message of
  each evaluation of a rule names as new exactly the problems it found that are not on record as announced since they were last seen to
  be over, and as resolved exactly those that are on record and no longer found. On record means that a message naming the problem was
  delivered and the server then recorded the delivery and marked the problem. So a failed delivery is made up for by the next, and a problem
  that a delivered message has named is named again only where recording that delivery failed.
\<close>

theorem alerts_exact:
  assumes "(alert_step str prs rid)\<^sup>*\<^sup>* s (db, h)" "quiet_start s" "h = h1 @ t # h2"
  shows "sj_Key ` set (ms_Firing (tk_Msg t)) = {k \<in> sj_Key ` set (tk_Found t). \<not> announced k h1}
    \<and> sj_Key ` set (ms_Resolved (tk_Msg t)) = {k. announced k h1 \<and> k \<notin> sj_Key ` set (tk_Found t)}
    \<and> (\<forall>k a u b. h1 = a @ u # b \<and> tk_Sent u \<and> k \<in> sj_Key ` set (ms_Firing (tk_Msg u)) \<and> still_there k b
         \<and> k \<in> sj_Key ` set (ms_Firing (tk_Msg t)) \<longrightarrow> \<not> tk_Recorded u)"
proof -
  have e: "exact_tick h1 t" using alerting.reached [OF assms(1,2)] assms(3) by (simp add: alerts_inv_def)
  have "\<not> tk_Recorded u" if "h1 = a @ u # b" "tk_Sent u" "k \<in> keys_of (ms_Firing (tk_Msg u))" "still_there k b" "k \<in> keys_of (ms_Firing (tk_Msg t))" for k a u b
  proof
    assume "tk_Recorded u"
    then have "announced k h1" unfolding announced_def using that(1-4) by blast
    then show False using e that(5) by (simp add: exact_tick_def)
  qed
  then show ?thesis using e unfolding exact_tick_def by (intro conjI) (elim conjE, assumption, elim conjE, assumption, blast)
qed

text \<open>An all-clear that does not get through is not made up for: once what is over has been cleared, no later message names it as
  resolved, unless it comes back first.\<close>

lemma all_clear_lost:
  assumes "(alert_step str prs rid)\<^sup>*\<^sup>* s (db, h)" "quiet_start s" "h = h1 @ (t # h2) @ u # h3" "tk_Cleared t"
    "\<forall>v \<in> set (t # h2). k \<notin> keys_of (tk_Found v)"
  shows "k \<notin> keys_of (ms_Resolved (tk_Msg u))"
proof -
  have ex: "exact_tick a v" if "h = a @ v # b" for a v b using alerting.reached [OF assms(1,2)] that by (simp add: alerts_inv_def)
  have "\<not> announced k (h1 @ t # w)" if "\<exists>b. h2 = w @ b" for w
    using that
  proof (induction w rule: rev_induct)
    case Nil
    have "exact_tick h1 t" by (rule ex) (use assms(3) in simp)
    then show ?case using announced_snoc [of k h1 t] assms(4,5) by (auto simp: exact_tick_def)
  next
    case (snoc v w)
    then obtain b where b: "h2 = w @ v # b" by auto
    have "exact_tick (h1 @ t # w) v" by (rule ex) (use assms(3) b in simp)
    then show ?case using announced_snoc [of k "h1 @ t # w" v] snoc assms(5) b by (auto simp: exact_tick_def)
  qed
  then have "\<not> announced k (h1 @ t # h2)" by simp
  moreover have "exact_tick (h1 @ t # h2) u" by (rule ex) (use assms(3) in simp)
  ultimately show ?thesis by (auto simp: exact_tick_def)
qed

section \<open>Stored rules\<close>

abbreviation "no_params \<equiv> \<lparr>pm_PolicyID = None, pm_Hours = 0, pm_ItemKind = []\<rparr>"

lemma params_shape:
  assumes "ParseParams E kind raw = Inr p"
  shows "kind = AlertDeviceNonCompliant \<Longrightarrow> \<exists>x. p = no_params\<lparr>pm_PolicyID := x\<rparr>"
    "kind = AlertDeviceStale \<Longrightarrow> \<exists>n. 1 \<le> n \<and> n \<le> maxStaleHours \<and> p = no_params\<lparr>pm_Hours := n\<rparr>"
    "kind = AlertDeploymentFailed \<Longrightarrow> \<exists>x. (x = [] \<or> x \<in> set itemKinds) \<and> p = no_params\<lparr>pm_ItemKind := x\<rparr>"
    "kind \<notin> {AlertDeviceNonCompliant, AlertDeviceStale, AlertDeploymentFailed} \<Longrightarrow> p = no_params \<and> kind = AlertAgentRolloutHalted"
proof -
  obtain m allowed where m: "alertFields kind = Some allowed" "(case raw of None \<Rightarrow> Some [] | Some j \<Rightarrow> unmarshal_object j) = Some m"
    "\<not> list_ex (\<lambda>(k, _). k \<notin> set allowed) m"
    using assms unfolding ParseParams_def Let_def by (auto split: option.splits if_splits)
  note body = assms [unfolded ParseParams_def Let_def m(2) option.case m(1) if_not_P [OF m(3)]]
  show "kind = AlertDeviceNonCompliant \<Longrightarrow> \<exists>x. p = no_params\<lparr>pm_PolicyID := x\<rparr>"
    using body by (auto split: option.splits json.splits)
  show "kind = AlertDeviceStale \<Longrightarrow> \<exists>n. 1 \<le> n \<and> n \<le> maxStaleHours \<and> p = no_params\<lparr>pm_Hours := n\<rparr>"
    using body by (auto simp: not_less split: option.splits if_splits)
  show "kind = AlertDeploymentFailed \<Longrightarrow> \<exists>x. (x = [] \<or> x \<in> set itemKinds) \<and> p = no_params\<lparr>pm_ItemKind := x\<rparr>"
    using body by (auto split: option.splits json.splits if_splits)
  show "kind \<notin> {AlertDeviceNonCompliant, AlertDeviceStale, AlertDeploymentFailed} \<Longrightarrow> p = no_params \<and> kind = AlertAgentRolloutHalted"
    using body m(1) by (auto simp: alertFields_def split: if_splits)
qed

lemma params_roundtrip:
  assumes "ParseParams E kind raw = Inr p" "\<And>i. al_uuid_Parse E (al_uuid_String E i) = Some i"
  shows "ParseParams E kind (Some (marshalParams E kind p)) = Inr p"
proof -
  have g: "unmarshal_object (JObj [(k, v)]) = Some [(k, v)]" "unmarshal_object (JObj []) = Some []" for k v
    by (simp_all add: unmarshal_object_def go_map_def)
  note defs = ParseParams_def marshalParams_def alertFields_def Let_def g
  consider (policy) x where "kind = AlertDeviceNonCompliant" "p = no_params\<lparr>pm_PolicyID := x\<rparr>"
    | (stale) n where "kind = AlertDeviceStale" "1 \<le> n" "n \<le> maxStaleHours" "p = no_params\<lparr>pm_Hours := n\<rparr>"
    | (item) x where "kind = AlertDeploymentFailed" "x = [] \<or> x \<in> set itemKinds" "p = no_params\<lparr>pm_ItemKind := x\<rparr>"
    | (halted) "kind = AlertAgentRolloutHalted" "p = no_params"
  proof -
    show thesis
    proof (cases "kind \<in> {AlertDeviceNonCompliant, AlertDeviceStale, AlertDeploymentFailed}")
      case True
      then show thesis
      proof (elim insertE)
        assume k: "kind = AlertDeviceNonCompliant"
        from params_shape(1) [OF assms(1) k] policy [OF k] show thesis by blast
      next
        assume k: "kind = AlertDeviceStale"
        from params_shape(2) [OF assms(1) k] stale [OF k] show thesis by blast
      next
        assume k: "kind = AlertDeploymentFailed"
        from params_shape(3) [OF assms(1) k] item [OF k] show thesis by blast
      qed simp
    next
      case False
      then show thesis using params_shape(4) [OF assms(1) False] halted by blast
    qed
  qed
  then show ?thesis
  proof cases
    case policy
    then show ?thesis using assms(2) by (cases x) (simp_all add: defs)
  next
    case stale
    have "atoi (itoa n) = Some n" by (rule atoi_itoa) (use stale(2,3) in \<open>simp_all add: min_int64_def max_int64_def\<close>)
    then show ?thesis using stale by (simp add: defs)
  next
    case item
    then show ?thesis by (cases "x = []") (simp_all add: defs)
  next
    case halted
    then show ?thesis by (simp add: defs)
  qed
qed

definition rules_ok :: "(uuid \<Rightarrow> string) \<Rightarrow> (string \<Rightarrow> uuid option) \<Rightarrow> alert_db \<Rightarrow> bool" where
  "rules_ok str prs db \<longleftrightarrow> (\<forall>r \<in> set (al_rules db). GetNotificationChannel (ru_ChannelID r) db \<noteq> None
     \<and> (\<forall>E. same_ids str prs E \<longrightarrow> (\<exists>p. ParseParams E (ru_Kind r) (ru_Params r) = Inr p)))"

lemma ParseParams_same: "al_uuid_Parse E = al_uuid_Parse F \<Longrightarrow> ParseParams E kind raw = ParseParams F kind raw"
  by (simp only: ParseParams_def)

lemma evaluate_config:
  "al_rules (snd (evaluateRule E S fault rule now db)) = al_rules db" "al_channels (snd (evaluateRule E S fault rule now db)) = al_channels db"
  by (auto simp: evaluateRule_def Let_def MarkAlertsNotified_def InsertAlertDelivery_def
      split: sum.splits alert_fault.splits option.splits)

lemma rules_ok_mono:
  assumes "rules_ok str prs db" "\<And>i. GetNotificationChannel i db \<noteq> None \<Longrightarrow> GetNotificationChannel i db' \<noteq> None" "set (al_rules db') \<subseteq> set (al_rules db)"
  shows "rules_ok str prs db'"
  using assms unfolding rules_ok_def by blast

lemma alertRuleFrom_params:
  assumes "alertRuleFrom E req base now db = Inr rule" "same_ids str prs E" "same_ids str prs F" "\<And>i. prs (str i) = Some i"
  shows "\<exists>p. ParseParams F (ru_Kind rule) (ru_Params rule) = Inr p"
proof -
  obtain raw p where p: "ParseParams E (ru_Kind rule) raw = Inr p" "ru_Params rule = Some (marshalParams E (ru_Kind rule) p)"
    using assms(1) by (auto simp: alertRuleFrom_def stampedRule_def Let_def split: sum.splits option.splits if_splits)
  have "ParseParams E (ru_Kind rule) (ru_Params rule) = Inr p"
    unfolding p(2) by (rule params_roundtrip [OF p(1)]) (use assms(2,4) in \<open>simp add: same_ids_def\<close>)
  then show ?thesis using ParseParams_same [of E F] assms(2,3) by (simp add: same_ids_def)
qed

lemma found_channel: "GetNotificationChannel i db \<noteq> None \<longleftrightarrow> i \<in> nc_ID ` set (al_channels db)"
  by (auto simp: GetNotificationChannel_def find_None_iff)

lemma audit_same [simp]:
  "al_rules (auditAlert E fails actor act kind j details x) = al_rules x"
  "GetNotificationChannel i (auditAlert E fails actor act kind j details x) = GetNotificationChannel i x"
  by (simp_all add: auditAlert_def GetNotificationChannel_def)

lemma channel_ops:
  "CreateNotificationChannel c db = Some db1 \<Longrightarrow> al_rules db1 = al_rules db \<and> nc_ID ` set (al_channels db) \<subseteq> nc_ID ` set (al_channels db1)"
  "UpdateNotificationChannel c db = Some db1 \<Longrightarrow> al_rules db1 = al_rules db \<and> nc_ID ` set (al_channels db) \<subseteq> nc_ID ` set (al_channels db1)"
  "DeleteNotificationChannel i db = (e, db1) \<Longrightarrow> al_rules db1 = al_rules db
    \<and> (\<forall>r \<in> set (al_rules db). ru_ChannelID r \<in> nc_ID ` set (al_channels db) \<longrightarrow> ru_ChannelID r \<in> nc_ID ` set (al_channels db1))"
proof -
  show "CreateNotificationChannel c db = Some db1 \<Longrightarrow> al_rules db1 = al_rules db \<and> nc_ID ` set (al_channels db) \<subseteq> nc_ID ` set (al_channels db1)"
    by (auto simp: CreateNotificationChannel_def split: if_splits)
  show "UpdateNotificationChannel c db = Some db1 \<Longrightarrow> al_rules db1 = al_rules db \<and> nc_ID ` set (al_channels db) \<subseteq> nc_ID ` set (al_channels db1)"
  proof -
    assume u: "UpdateNotificationChannel c db = Some db1"
    define g where "g d = d\<lparr>nc_Name := nc_Name c, nc_Config := nc_Config c, nc_SecretCiphertext := nc_SecretCiphertext c,
      nc_SecretNonce := nc_SecretNonce c, nc_Enabled := nc_Enabled c, nc_UpdatedAt := nc_UpdatedAt c\<rparr>" for d :: NotificationChannel
    have "db1 = db\<lparr>al_channels := map (\<lambda>d. if nc_ID d = nc_ID c then g d else d) (al_channels db)\<rparr>"
      using u unfolding UpdateNotificationChannel_def g_def by (auto split: if_splits)
    moreover have "nc_ID (if nc_ID d = nc_ID c then g d else d) = nc_ID d" for d by (simp add: g_def)
    then have "nc_ID ` set (map (\<lambda>d. if nc_ID d = nc_ID c then g d else d) xs) = nc_ID ` set xs" for xs
      unfolding set_map image_image by simp
    ultimately show "al_rules db1 = al_rules db \<and> nc_ID ` set (al_channels db) \<subseteq> nc_ID ` set (al_channels db1)" by simp
  qed
  show "DeleteNotificationChannel i db = (e, db1) \<Longrightarrow> al_rules db1 = al_rules db
    \<and> (\<forall>r \<in> set (al_rules db). ru_ChannelID r \<in> nc_ID ` set (al_channels db) \<longrightarrow> ru_ChannelID r \<in> nc_ID ` set (al_channels db1))"
    by (force simp: DeleteNotificationChannel_def list_ex_iff split: if_splits)
qed

lemma rules_ok_channels:
  assumes "rules_ok str prs db" "al_rules db' = al_rules db"
    "\<And>r. r \<in> set (al_rules db) \<Longrightarrow> ru_ChannelID r \<in> nc_ID ` set (al_channels db) \<Longrightarrow> ru_ChannelID r \<in> nc_ID ` set (al_channels db')"
  shows "rules_ok str prs db'"
  using assms unfolding rules_ok_def found_channel by metis

text \<open>A rule that is stored anew: its parameters were read, and its channel is there.\<close>

lemma rules_ok_rule:
  assumes "rules_ok str prs db" "\<And>i. prs (str i) = Some i" "same_ids str prs E" "alertRuleFrom E req base now db = Inr rule"
  shows "CreateAlertRule (rule\<lparr>ru_ID := i\<rparr>) db = Inr db1 \<Longrightarrow> rules_ok str prs db1"
    "UpdateAlertRule (rule\<lparr>ru_ID := i\<rparr>) db = Inr db1 \<Longrightarrow> rules_ok str prs db1"
proof -
  have p: "\<exists>p. ParseParams F (ru_Kind rule) (ru_Params rule) = Inr p" if "same_ids str prs F" for F
    by (rule alertRuleFrom_params [OF assms(4,3) that assms(2)])
  show "rules_ok str prs db1" if c: "CreateAlertRule (rule\<lparr>ru_ID := i\<rparr>) db = Inr db1"
    using assms(1) c p by (auto simp: CreateAlertRule_def rules_ok_def GetNotificationChannel_def split: if_splits)
  show "rules_ok str prs db1" if c: "UpdateAlertRule (rule\<lparr>ru_ID := i\<rparr>) db = Inr db1"
    using assms(1) c p by (auto simp: UpdateAlertRule_def rules_ok_def GetNotificationChannel_def split: if_splits)
qed

lemma rules_ok_audit [simp]: "rules_ok str prs (auditAlert E fails actor act kind j details x) = rules_ok str prs x"
  by (simp add: rules_ok_def)

lemma rules_ok_step:
  assumes "alert_step str prs rid s s'" "\<And>i. prs (str i) = Some i" "rules_ok str prs (fst s)"
  shows "rules_ok str prs (fst s')"
  using assms
proof (induction rule: alert_step.induct)
  case (al_evaluate E S fault rule now db r db' h' h)
  have "al_rules db' = al_rules db" "al_channels db' = al_channels db"
    using evaluate_config [of E S fault rule now db] al_evaluate(2) by simp_all
  then show ?case using al_evaluate(5) rules_ok_channels [of str prs db db'] by simp
next
  case (al_prune db h before)
  then show ?case using rules_ok_channels [of str prs db "DeleteOldAlertDeliveries before db"] by (simp add: DeleteOldAlertDeliveries_def)
next
  case (al_new_channel E fails rnd i req actor now db x db' h)
  have "rules_ok str prs db1" if "CreateNotificationChannel ch db = Some db1" for ch db1
    using rules_ok_channels [of str prs db db1] channel_ops(1) [OF that] al_new_channel(4) by auto
  then have "rules_ok str prs (snd (createNotificationChannel E fails rnd i req actor now db))"
    using al_new_channel(4) by (auto simp: createNotificationChannel_def Let_def split: sum.splits option.splits prod.splits if_splits)
  then show ?case using al_new_channel(2) by simp
next
  case (al_change_channel E fails rnd i req actor now db x db' h)
  have "rules_ok str prs db1" if "UpdateNotificationChannel ch db = Some db1" for ch db1
    using rules_ok_channels [of str prs db db1] channel_ops(2) [OF that] al_change_channel(4) by auto
  then have "rules_ok str prs (snd (updateNotificationChannel E fails rnd i req actor now db))"
    using al_change_channel(4) by (auto simp: updateNotificationChannel_def split: sum.splits option.splits)
  then show ?case using al_change_channel(2) by simp
next
  case (al_drop_channel E fails i actor db y db' h)
  obtain e db1 where d: "DeleteNotificationChannel i db = (e, db1)" by fastforce
  have "rules_ok str prs db1" using rules_ok_channels [of str prs db db1] channel_ops(3) [OF d] al_drop_channel(4) by simp
  then show ?case using al_drop_channel(2) d by (auto simp: deleteNotificationChannel_def split: option.splits)
next
  case (al_new_rule E fails i rq actor now db z db' h)
  note keeps = rules_ok_rule(1) [OF al_new_rule(4) [unfolded fst_conv] al_new_rule(3,1)]
  have "rules_ok str prs (snd (createAlertRule E fails i rq actor now db))"
    unfolding createAlertRule_def Let_def using al_new_rule(4) keeps by (auto split: sum.split option.split)
  then show ?case using al_new_rule(2) by simp
next
  case (al_change_rule E fails i rq actor now db z db' h)
  note keeps = rules_ok_rule(2) [OF al_change_rule(4) [unfolded fst_conv] al_change_rule(3,1)]
  have "rules_ok str prs (snd (updateAlertRule E fails i rq actor now db))"
    unfolding updateAlertRule_def Let_def using al_change_rule(4) keeps by (auto split: sum.split option.split)
  then show ?case using al_change_rule(2) by simp
next
  case (al_drop_rule E db' fails i actor db h)
  have "rules_ok str prs (DeleteAlertRule i db)"
    by (rule rules_ok_mono [OF al_drop_rule(4) [unfolded fst_conv]]) (simp_all add: DeleteAlertRule_def GetNotificationChannel_def)
  then show ?case using al_drop_rule(2) by (simp add: deleteAlertRule_def)
qed

interpretation stored: state_machine "alert_step str prs rid" "\<lambda>s. al_rules (fst s) = []" "\<lambda>s. (\<forall>i. prs (str i) = Some i) \<longrightarrow> rules_ok str prs (fst s)"
  for str prs rid
proof unfold_locales
  show "(\<forall>i. prs (str i) = Some i) \<longrightarrow> rules_ok str prs (fst s)" if "al_rules (fst s) = []" for s using that by (simp add: rules_ok_def)
qed (use rules_ok_step in blast)

text \<open>
  A rule an administrator could store can be evaluated. In every state reached from a server without rules, as long as the database
  answers, evaluating a stored rule succeeds or reports what the delivery ran into; its kind, its parameters and its channel are
  never what fails.
\<close>

theorem stored_rules_evaluate:
  assumes "(alert_step str prs rid)\<^sup>*\<^sup>* s (db, h)" "al_rules (fst s) = []" "\<And>i. prs (str i) = Some i" "same_ids str prs E" "rule \<in> set (al_rules db)"
  shows "(\<exists>n. fst (evaluateRule E S NoFault rule now db) = Inr n) \<or> (\<exists>e. fst (evaluateRule E S NoFault rule now db) = Inl (AlertSend e))"
proof -
  have ok: "rules_ok str prs db" using stored.reached [OF assms(1,2)] assms(3) by simp
  obtain p where p: "ParseParams E (ru_Kind rule) (ru_Params rule) = Inr p" using ok assms(4,5) unfolding rules_ok_def by blast
  have "ru_Kind rule \<in> {AlertDeviceNonCompliant, AlertDeviceStale, AlertDeploymentFailed} \<or> ru_Kind rule = AlertAgentRolloutHalted"
    using params_shape(4) [OF p] by blast
  then obtain found where f: "firing E S (ru_Kind rule) p now = Inr found" by (auto simp: firing_def)
  obtain ch where c: "GetNotificationChannel (ru_ChannelID rule) db = Some ch" using ok assms(5) unfolding rules_ok_def by blast
  have "GetNotificationChannel (ru_ChannelID rule) (DeleteAlertState i ks (insertAll i ss now db)) = Some ch" for i ks ss
    using c by (simp add: GetNotificationChannel_def)
  then show ?thesis unfolding evaluateRule_def Let_def p f
    by (cases "Alerts.Deliver E ch (ruleMessage rule p (ListAlertState (ru_ID rule) db) found now)") (simp_all add: p f)
qed

section \<open>Examples\<close>

definition aw_env :: "bool \<Rightarrow> alert_env" where
  "aw_env up = \<lparr>al_uuid_String = id, al_uuid_Parse = Some, al_ParseAddress = Some, al_ParseURL = (\<lambda>_. None), al_SMTP = True,
     al_mail = (\<lambda>_ _ _. if up then None else Some ''the relay is down''), al_post = (\<lambda>_ _ _. Inl []), al_json = (\<lambda>_. []), al_hmac = (\<lambda>_ _. []),
     al_aead = \<lparr>ae_NonceSize = 0, ae_Seal = (\<lambda>_ _ _. []), ae_Open = (\<lambda>_ _ _. None)\<rparr>, al_RFC1123 = (\<lambda>_. []), al_collate = id,
     al_to_char = (\<lambda>_. []), al_left = (\<lambda>s n. take n s)\<rparr>"

definition aw_rollout :: AgentRollout where
  "aw_rollout = \<lparr>ar_ID = ''r'', ar_AgentVersionID = ''v'', ar_State = RolloutHalted, ar_PilotGroupID = None, ar_DelayHours = 0, ar_PilotAssignmentID = None,
     ar_PilotApprovalID = None, ar_PilotStartedAt = None, ar_ExcludeAssignmentID = None, ar_FleetAssignmentID = None, ar_FleetApprovalID = None,
     ar_PromotedAt = None, ar_Detail = [], ar_CreatedAt = 0, ar_UpdatedAt = 0, ar_Version = ''1.2.3''\<rparr>"

definition aw_src :: alert_sources where
  "aw_src = \<lparr>sc_devices = [], sc_policies = [], sc_compliance = [], sc_statuses = [], sc_rollouts = [aw_rollout]\<rparr>"

definition aw_empty :: alert_db where
  "aw_empty = \<lparr>al_channels = [], al_rules = [], al_state = [], al_deliveries = [], al_audit = []\<rparr>"

definition aw_channel :: alert_db where
  "aw_channel = snd (createNotificationChannel (aw_env True) True None ''c''
     \<lparr>nr_Name = ''ops'', nr_Kind = ChannelEmail, nr_Config = Some (JObj [(''to'', JArr [JStr ''ops@x''])]), nr_Enabled = None, nr_Secret = None\<rparr> ''a'' 1 aw_empty)"

definition aw_db :: alert_db where
  "aw_db = snd (createAlertRule (aw_env True) True ''u'' \<lparr>rr_Name = ''halted'', rr_Kind = AlertAgentRolloutHalted, rr_Params = None, rr_ChannelID = ''c'',
     rr_Enabled = None\<rparr> ''a'' 2 aw_channel)"

definition aw_rule :: AlertRule where
  "aw_rule = \<lparr>ru_ID = ''u'', ru_Name = ''halted'', ru_Kind = AlertAgentRolloutHalted, ru_Params = Some (JObj []), ru_ChannelID = ''c'', ru_Enabled = True,
     ru_CreatedAt = 2, ru_UpdatedAt = 2, ru_CreatedBy = ''a''\<rparr>"

definition aw_failed :: alert_db where
  "aw_failed = snd (evaluateRule (aw_env False) aw_src NoFault aw_rule 3 aw_db)"

definition aw_tick :: "bool \<Rightarrow> alert_db \<Rightarrow> go_time \<Rightarrow> tick" where
  "aw_tick up db now = the (tick_of (aw_env up) aw_src NoFault aw_rule now db)"

lemma aw_ids: "same_ids id Some (aw_env up)"
  by (simp add: same_ids_def aw_env_def)

lemma aw_ticks: "tick_of (aw_env up) aw_src NoFault aw_rule now db = Some (aw_tick up db now)" "map sj_Key (tk_Found (aw_tick up db now)) = [''rollout:r'']"
  by (simp_all add: aw_tick_def tick_of_def aw_rule_def ParseParams_def alertFields_def firing_def FiringHaltedRollouts_def aw_src_def aw_rollout_def
      aw_env_def unmarshal_object_def go_map_def Let_def)

lemma aw_rule_id: "ru_ID aw_rule = ''u''"
  by (simp add: aw_rule_def)

lemma aw_unsent: "\<not> tk_Sent (aw_tick False aw_db 3)" "al_rules aw_db = [aw_rule]"
  by code_simp+

lemma aw_made: "(alert_step id Some rid)\<^sup>*\<^sup>* (aw_empty, []) (aw_db, [])"
proof -
  have "alert_step id Some rid (aw_empty, []) (aw_channel, [])"
    unfolding aw_channel_def by (rule al_new_channel [OF aw_ids prod.collapse [symmetric]])
  moreover have "alert_step id Some rid (aw_channel, []) (aw_db, [])"
    unfolding aw_db_def by (rule al_new_rule [OF aw_ids prod.collapse [symmetric]])
  ultimately show ?thesis by (meson converse_rtranclp_into_rtranclp rtranclp.rtrancl_refl)
qed

text \<open>The relay is down when the rollout halts; the evaluation after that announces it.\<close>

theorem alerts_exact_witness: "sj_Key ` set (ms_Firing (tk_Msg (aw_tick True aw_failed 4))) = {''rollout:r''}"
proof -
  let ?t1 = "aw_tick False aw_db 3" and ?t2 = "aw_tick True aw_failed 4"
  let ?db = "snd (evaluateRule (aw_env True) aw_src NoFault aw_rule 4 aw_failed)"
  have "alert_step id Some ''u'' (aw_db, []) (aw_failed, [?t1])"
    unfolding aw_failed_def by (rule al_evaluate [OF aw_ids prod.collapse [symmetric]]) (simp add: aw_ticks aw_rule_id)
  moreover have "alert_step id Some ''u'' (aw_failed, [?t1]) (?db, [?t1, ?t2])"
    by (rule al_evaluate [OF aw_ids prod.collapse [symmetric]]) (simp add: aw_ticks aw_rule_id)
  ultimately have run: "(alert_step id Some ''u'')\<^sup>*\<^sup>* (aw_empty, []) (?db, [?t1, ?t2])"
    using aw_made [of "''u''"] by (meson rtranclp.rtrancl_into_rtrancl)
  have start: "quiet_start (aw_empty, [])" by (simp add: quiet_start_def aw_empty_def)
  have "\<not> announced k [?t1]" for k using announced_snoc [of k "[]" ?t1] aw_unsent(1) by (simp add: tk_Marked_def)
  moreover have "sj_Key ` set (tk_Found ?t2) = {''rollout:r''}" unfolding image_set aw_ticks(2) by simp
  ultimately show ?thesis using alerts_exact [OF run start, of "[?t1]" ?t2 "[]"] by auto
qed

theorem stored_rules_evaluate_witness:
  "(\<exists>n. fst (evaluateRule (aw_env False) aw_src NoFault aw_rule 3 aw_db) = Inr n)
   \<or> (\<exists>e. fst (evaluateRule (aw_env False) aw_src NoFault aw_rule 3 aw_db) = Inl (AlertSend e))"
  by (rule stored_rules_evaluate [OF aw_made _ _ aw_ids]) (simp_all add: aw_empty_def aw_unsent(2))

end
