(* ===== verification/Spec2Isabelle.thy ===== *)
theory Spec2Isabelle
  imports Group_Compile Compliance_Service Assignments Release Auth_Service Policy_File Policy_Sync
    Self_Update_Safety Command_System Laps_System Remote_System Agent_Offer Certificate_Renewal Alerts_Safety
begin

text \<open>
  Retune manages a fleet of Windows and macOS devices. A server (\<^verbatim>\<open>src/internal/server\<close>) keeps
  devices, groups, profiles, compliance policies, agent builds and a queue of commands in
  PostgreSQL, behind an administrators' API and an agents' API. An agent
  (\<^verbatim>\<open>src/internal/agent\<close>) on every device checks in, reports its inventory, applies what is
  assigned to it, runs commands and replaces itself with newer builds. What the two exchange is in
  \<^verbatim>\<open>src/internal/protocol\<close>; builds, release manifests, scripts, profiles and wipe orders
  are signed (\<^verbatim>\<open>src/internal/release\<close>, \<^verbatim>\<open>src/internal/opsign\<close>).

  This library models the parts that carry the program's own logic. Go's structs are records,
  its tagged values datatypes, its errors a sum or an option; 64-bit integers are \<^typ>\<open>int\<close>
  with the wrap-around written out, times are nanoseconds since year 1, strings are lists of bytes.
  Operations on the database are functions of the tables; a failing transaction leaves them alone.
  What lies outside the sources - PostgreSQL's query evaluation, Ed25519 and SHA-256, password
  hashing, PowerShell, the service manager, the network - is an argument of the definitions that
  use it.

  \<^bold>\<open>Shared.\<close> \<^verbatim>\<open>Retune_Prelude\<close> has errors as sums, Go's integers, times and strings, and the
  lemmas on lists the components share. \<^verbatim>\<open>Json\<close> and \<^verbatim>\<open>Decode\<close> have the part of
  \<^verbatim>\<open>encoding/json\<close> the code relies on, RFC 3339 times and UTF-8; \<^verbatim>\<open>Encoding\<close> has hex and
  base64 with their round trips.

  \<^bold>\<open>Groups.\<close> \<^verbatim>\<open>Group_Rules\<close> is the lexer and parser of dynamic group rules
  (\<^verbatim>\<open>server/groups/ast.go\<close>, \<^verbatim>\<open>lex.go\<close>, \<^verbatim>\<open>parse.go\<close>): parsing ends on every
  text, and what it accepts is well-formed. \<^verbatim>\<open>Group_Compile\<close> is \<^verbatim>\<open>compile.go\<close>: every
accepted rule compiles, no literal of a rule gets into the text of the SQL, and no clock is left in it unbound. The parser's
  recursion carries fuel, the number of tokens plus the depth limit, which is proved to be enough.

  \<^bold>\<open>Assignments.\<close> \<^verbatim>\<open>Assignments\<close> has phased rollouts and what is in effect on a device
  (\<^verbatim>\<open>server/store/rollout.go\<close>, \<^verbatim>\<open>groups.go\<close>): the effective items are exactly the
  assigned ones not excluded whose rollout has reached the device.

  \<^bold>\<open>Compliance.\<close> \<^verbatim>\<open>Compliance_Rules\<close> and \<^verbatim>\<open>Compliance_Eval\<close> are
  \<^verbatim>\<open>server/compliance/rules.go\<close>: parsing, encoding and evaluation of every rule kind, with
  round trips, bounds and the meaning of the verdict. \<^verbatim>\<open>Compliance_Service\<close> is \<^verbatim>\<open>service.go\<close>
  over \<^verbatim>\<open>store/compliance.go\<close> and \<^verbatim>\<open>store/itemstatus.go\<close>: an evaluation stores exactly the
  verdicts of the policies in effect.

  \<^bold>\<open>Signatures.\<close> \<^verbatim>\<open>Release\<close> has keys, trust lists, build and release manifests, versions,
  and the operations signatures: nothing a trusted key did not sign is accepted, a signature of one
  kind is none of another, a malformed trust list fails closed.

  \<^bold>\<open>Administrators.\<close> \<^verbatim>\<open>Login_Throttle\<close> has the two sign-in throttles and their common contract,
  \<^verbatim>\<open>Auth_Service\<close> passwords, one-time codes, sessions and account changes
  (\<^verbatim>\<open>server/auth/service.go\<close>): nobody gets in without the password and a fresh code, guessing is
  locked out from whatever addresses it comes, and passwords and account changes alone never take away the last fleet
  administrator. Single sign-on is left out, and each throttle has a table of its own where the code keeps both in one.

  \<^bold>\<open>Policy.\<close> \<^verbatim>\<open>Settings\<close> has the profile settings of \<^verbatim>\<open>protocol/profile.go\<close>,
  \<^verbatim>\<open>Policy_Engine\<close> the plan and reconciliation of \<^verbatim>\<open>agent/policy/engine.go\<close> and
  \<^verbatim>\<open>reconcile.go\<close> over the handler interface, \<^verbatim>\<open>Policy_Revert\<close> what a cycle records and
  reports and, in the locale \<open>reversible\<close>, that a handler that can restore what it read lets the
  engine keep every original; \<^verbatim>\<open>Policy_File\<close> the file handler, which is an instance of it for files of up to
  1 MiB, the size whose contents it records.
  \<^verbatim>\<open>Policy_Sync\<close> is \<^verbatim>\<open>agent/policy/sync.go\<close>: where signatures are required, only signed
  profiles are applied. \<^verbatim>\<open>Maintenance_Window\<close> is \<^verbatim>\<open>protocol/window.go\<close>.

  \<^bold>\<open>Self-update.\<close> \<^verbatim>\<open>Self_Update\<close> is \<^verbatim>\<open>agent/selfupdate\<close>: decision, staging, record and
  supervisor, with every call to the service manager and the disk free to fail, before or after its
  effect. \<^verbatim>\<open>Self_Update_Safety\<close> shows that the supervisor settles by the deadline, that no device
  stays on a build that has not checked in, that the record tells the truth, that a failed build is
  not tried again, and that only signed builds are staged. The supervisor's loop is a function of
  the list of its polls; a list that reaches the deadline is long enough.

  \<^bold>\<open>Commands.\<close> \<^verbatim>\<open>Command_Service\<close> is the queue (\<^verbatim>\<open>server/commands/service.go\<close>,
  \<^verbatim>\<open>store/commands.go\<close>), \<^verbatim>\<open>Command_Lifecycle\<close> what it guarantees, \<^verbatim>\<open>Command_Agent\<close> the
  agent's worker with its ledger and its queue of results (\<^verbatim>\<open>agent/session/session.go\<close>,
  \<^verbatim>\<open>agent/state/state.go\<close>), stopped and restarted at any point, and \<^verbatim>\<open>Command_System\<close> the two
  together: a command runs at most once, a success on the console is real, no result is lost. The sweeper also deletes
  commands that ended long ago (\<^verbatim>\<open>store/retention.go\<close>), and remote sessions and enrolment insert commands of their
  own: both are steps of the queue. \<^verbatim>\<open>Command_Retention\<close> shows that a history with deletions is one without, less
  the commands deleted, so that what holds of the queue and the devices without retention carries over; it rests on no
  identifier being given out twice.

  \<^bold>\<open>Access.\<close> \<^verbatim>\<open>Access_Control\<close> is the guard of the administrators' API
  (\<^verbatim>\<open>adminapi/handler.go\<close>, \<^verbatim>\<open>resources.go\<close>, \<^verbatim>\<open>scope.go\<close>, \<^verbatim>\<open>auth/apitokens.go\<close>) with the
  table of its routes, the handlers behind them being an argument: a handler runs only for somebody whose token or session is
  good, with the role and the scope the route asks for; nothing is changed by a viewer; a revoked
  token is dead. \<^verbatim>\<open>Approvals\<close> is two-person approval (\<^verbatim>\<open>adminapi/approvals.go\<close>): nothing held for
  approval is carried out unless a second administrator approved it, and once at most.

  \<^bold>\<open>Executor.\<close> \<^verbatim>\<open>Executor\<close> is \<^verbatim>\<open>agent/executor\<close>: every kind of command, over an interface to
  the operating system that may fail at every call. \<^verbatim>\<open>Executor_Safety\<close> shows that where
  signatures are enforced nothing unsigned runs, that every outcome is a result the server takes, that captured
  output is the beginning of what was written, and that generated passwords are strong.

  \<^bold>\<open>Passwords.\<close> \<^verbatim>\<open>Laps\<close> is the escrow of local administrator passwords (\<^verbatim>\<open>server/laps\<close>,
  \<^verbatim>\<open>store/adminpasswords.go\<close>, \<^verbatim>\<open>server/secrets\<close> in \<^verbatim>\<open>Secrets\<close>), the cipher being a parameter with its law;
  \<^verbatim>\<open>Laps_System\<close> joins it with the queue and a device that may stop anywhere: the password in force
  is always one the server can open, also while finished commands are deleted, and nobody sees one without a record of it.

  \<^bold>\<open>Remote sessions.\<close> \<^verbatim>\<open>Remote_Session\<close> is \<^verbatim>\<open>server/remote\<close> over \<^verbatim>\<open>store/remote.go\<close>;
  \<^verbatim>\<open>Remote_System\<close> adds the agent's relay: the shell gets what the administrator who started the
  session typed, each piece once and in order.

  \<^bold>\<open>Agent rollouts.\<close> \<^verbatim>\<open>Agent_Rollout\<close> is \<^verbatim>\<open>server/releasefeed/rollout.go\<close>, over the assignments,
  the approvals and the table of rollouts. \<^verbatim>\<open>Agent_Rollout_Safety\<close> has its moves as a state
  machine the code refines, and that a build reaches the fleet only after its pilot; \<^verbatim>\<open>Agent_Offer\<close>
  that a device is offered the one build it is meant to have, as long as agent builds are assigned by rollouts only, with the
  histories in which it is not.

  \<^bold>\<open>Enrolment.\<close> \<^verbatim>\<open>Enrollment\<close> has enrolment tokens, devices registered in advance and their import,
  enrolment and renewal (\<^verbatim>\<open>server/enroll\<close>, \<^verbatim>\<open>server/ca/ca.go\<close>, \<^verbatim>\<open>adminapi/registrations.go\<close>), the guard of the
  agents' API with the table of its routes (\<^verbatim>\<open>agentapi/handler.go\<close>, \<^verbatim>\<open>clientcert.go\<close>), retiring and unenrolling
  (\<^verbatim>\<open>server/devices\<close>). \<^verbatim>\<open>Enrollment_Safety\<close> shows that every device was let in by a token that was good at the time,
  no more often than it may be used, that a route other than enrolment serves active devices with a certificate of theirs only, and that a
  retired or unenrolled device stays out. \<^verbatim>\<open>Certificate_Renewal\<close> adds the agent's side (\<^verbatim>\<open>agent/identity\<close>,
  \<^verbatim>\<open>agent/enrollment\<close>, \<^verbatim>\<open>maybeRenew\<close>): however answers are lost, writes and the new connection fail, a renewal locks
  nobody out as long as the server works on one renewal of the device at a time and the agent has no key file of the old layout;
  two histories at its end show that both are needed. X.509, PEM, CSV and SHA-256 are parameters, with the law that what was encoded is read back.

  \<^bold>\<open>Alerts.\<close> \<^verbatim>\<open>Alerts\<close> is \<^verbatim>\<open>server/alerts\<close> over \<^verbatim>\<open>store/alerts.go\<close> and the handlers of
  \<^verbatim>\<open>adminapi/alerts.go\<close>: rules, channels, the queries, messages and their delivery, and the evaluation, whose statements may fail one
  by one. \<^verbatim>\<open>Alerts_Safety\<close> shows over every history which problems a message names as new and as resolved - a problem is
  new until a message that named it was sent and put on record - that a stored rule
  can always be evaluated, and that an all-clear that fails to be delivered is lost. \<^verbatim>\<open>Secrets\<close> is the server's key, which the
  webhooks share with the passwords.

  \<^bold>\<open>Interfaces.\<close> Contracts between components are locales, interpreted on the definitions of the component
  that provides them: \<open>throttle\<close> for the two throttles, \<open>reversible\<close> for the handlers of the policy engine, \<open>state_machine\<close>
  (prelude) for every step relation and its invariant, and \<open>retained_system\<close>, which extends it, for the systems built on the queue of
  commands whose invariants survive retention.

  \<^bold>\<open>Not modelled.\<close> The rest of the HTTP layers (\<^verbatim>\<open>server/adminapi\<close>, \<^verbatim>\<open>server/agentapi\<close>,
  \<^verbatim>\<open>agent/client\<close>), the main programs, configuration and logging: they decode requests and wire
  parts together. The Windows handlers, inventory collectors and installers: they call PowerShell, the registry and the operating
  system. Single sign-on rests on an identity provider, the encoding of certificates, TPM attestation and encryption on
  the standard library. Services that only keep rows (profiles, scripts, apps), the
  console, reports and exports: queries and output.
\<close>

end
